(* ===== verification/Go_Prelude.thy ===== *)
theory Go_Prelude
  imports Complex_Main "HOL-Library.Sublist" "HOL-Library.AList" "HOL-Library.Char_ord" "HOL-Library.List_Lexorder"
begin

text \<open>
  Shared vocabulary of the development: the parts of Go's language and standard library that the
  modelled packages use, with the generic lemmas on strings, decimal renderings, association lists
  and prefixes that the component theories build on.

  A Go \<open>string\<close> is a byte sequence, modelled as an Isabelle \<open>string\<close> (one \<open>char\<close> per byte).
  A Go \<open>time.Time\<close> is an instant counted in nanoseconds since 0001-01-01T00:00:00Z, so that the
  zero value of the type is 0 and \<open>IsZero\<close> is equality with 0.  A Go \<open>map\<close> that the code ranges
  over is an association list whose order stands for the (arbitrary) iteration order.
\<close>

section \<open>Collections of rewrite rules\<close>

named_theorems go_string_simps \<open>computation rules for the string helpers\<close>
named_theorems alist_simps \<open>lookup-after-update rules of association lists\<close>

section \<open>Names for the model's basic types\<close>

type_synonym gotime = int
type_synonym duration = int

abbreviation microsecond :: duration where "microsecond \<equiv> 1000"
abbreviation second :: duration where "second \<equiv> 1000000000"
abbreviation minute :: duration where "minute \<equiv> 60000000000"
abbreviation hour :: duration where "hour \<equiv> 3600000000000"

definition IsZero :: "gotime \<Rightarrow> bool" where
  "IsZero t \<longleftrightarrow> t = 0"

section \<open>Free-form JSON values\<close>

text \<open>A \<open>map[string]any\<close> payload as the code builds it.\<close>

datatype jval =
    JStr string
  | JInt int
  | JReal real
  | JBool bool
  | JTime gotime
  | JList "jval list"
  | JObj "(string \<times> jval) list"

type_synonym payload = "(string \<times> jval) list"

section \<open>64-bit signed integers\<close>

definition int64 :: "int \<Rightarrow> int" where
  "int64 x = (x + 2 ^ 63) mod 2 ^ 64 - 2 ^ 63"

definition in_int64 :: "int \<Rightarrow> bool" where
  "in_int64 x \<longleftrightarrow> - (2 ^ 63) \<le> x \<and> x < 2 ^ 63"

lemma int64_id [simp]: "in_int64 x \<Longrightarrow> int64 x = x"
  unfolding int64_def in_int64_def by simp

lemma int64_range [simp]: "in_int64 (int64 x)"
  unfolding int64_def in_int64_def by simp

lemma int64_add [simp]: "int64 (int64 x + y) = int64 (x + y)" "int64 (y + int64 x) = int64 (y + x)"
  unfolding int64_def by (simp_all add: algebra_simps mod_simps)

section \<open>White space and trimming (package strings)\<close>

text \<open>The UTF-8 encodings of the code points for which \<open>unicode.IsSpace\<close> holds.\<close>

definition space_encodings :: "string list" where
  "space_encodings =
     [[CHR 0x09], [CHR 0x0A], [CHR 0x0B], [CHR 0x0C], [CHR 0x0D], [CHR 0x20], [CHR 0xC2, CHR
      0x85], [CHR 0xC2, CHR 0xA0], [CHR 0xE1, CHR 0x9A, CHR 0x80], [CHR 0xE2, CHR 0x80, CHR
      0x80], [CHR 0xE2, CHR 0x80, CHR 0x81], [CHR 0xE2, CHR 0x80, CHR 0x82], [CHR 0xE2, CHR
      0x80, CHR 0x83], [CHR 0xE2, CHR 0x80, CHR 0x84], [CHR 0xE2, CHR 0x80, CHR 0x85], [CHR
      0xE2, CHR 0x80, CHR 0x86], [CHR 0xE2, CHR 0x80, CHR 0x87], [CHR 0xE2, CHR 0x80, CHR 0x88],
      [CHR 0xE2, CHR 0x80, CHR 0x89], [CHR 0xE2, CHR 0x80, CHR 0x8A], [CHR 0xE2, CHR 0x80, CHR
      0xA8], [CHR 0xE2, CHR 0x80, CHR 0xA9], [CHR 0xE2, CHR 0x80, CHR 0xAF], [CHR 0xE2, CHR
      0x81, CHR 0x9F], [CHR 0xE3, CHR 0x80, CHR 0x80]]"

fun strip_prefixes :: "string list \<Rightarrow> string \<Rightarrow> string" where
  "strip_prefixes es s =
     (case find (\<lambda>e. e \<noteq> [] \<and> prefix e s) es of
        None \<Rightarrow> s
      | Some e \<Rightarrow> if e = [] then s else if s = [] then s else strip_prefixes es (drop (length e) s))"

declare strip_prefixes.simps [simp del]

definition TrimSpace :: "string \<Rightarrow> string" where
  "TrimSpace s =
     rev (strip_prefixes (map rev space_encodings) (rev (strip_prefixes space_encodings s)))"

definition no_prefix_of :: "string list \<Rightarrow> string \<Rightarrow> bool" where
  "no_prefix_of es s \<longleftrightarrow> (\<forall>e \<in> set es. e \<noteq> [] \<longrightarrow> \<not> prefix e s)"

lemma strip_prefixes_stop: "no_prefix_of es s \<Longrightarrow> strip_prefixes es s = s"
  by (subst strip_prefixes.simps)
     (auto simp: no_prefix_of_def split: option.split dest!: find_Some_iff [THEN iffD1] nth_mem)

lemma strip_prefixes_no_prefix: "no_prefix_of es (strip_prefixes es s)"
proof (induction es s rule: strip_prefixes.induct)
  case (1 es s)
  show ?case
  proof (cases "find (\<lambda>e. e \<noteq> [] \<and> prefix e s) es")
    case None
    then have "strip_prefixes es s = s" by (subst strip_prefixes.simps) simp
    with None show ?thesis by (auto simp: no_prefix_of_def find_None_iff)
  next
    case (Some e)
    then have "e \<noteq> []" "prefix e s" by (auto simp: find_Some_iff)
    moreover from this have "s \<noteq> []" by auto
    ultimately show ?thesis using 1 Some by (subst strip_prefixes.simps) simp
  qed
qed

lemma strip_prefixes_suffix: "suffix (strip_prefixes es s) s"
proof (induction es s rule: strip_prefixes.induct)
  case (1 es s)
  show ?case
  proof (cases "find (\<lambda>e. e \<noteq> [] \<and> prefix e s) es")
    case None
    then show ?thesis by (subst strip_prefixes.simps) simp
  next
    case (Some e)
    then have "e \<noteq> []" "prefix e s" by (auto simp: find_Some_iff)
    moreover from this have "s \<noteq> []" by auto
    ultimately show ?thesis using 1 Some
      by (subst strip_prefixes.simps) (simp, metis suffix_drop suffix_order.trans)
  qed
qed

definition trimmed :: "string \<Rightarrow> bool" where
  "trimmed s \<longleftrightarrow> no_prefix_of space_encodings s \<and> no_prefix_of (map rev space_encodings) (rev s)"

lemma no_prefix_of_prefix: "no_prefix_of es t \<Longrightarrow> prefix s t \<Longrightarrow> no_prefix_of es s"
  unfolding no_prefix_of_def by (meson prefix_order.trans)

lemma TrimSpace_trimmed [simp]: "trimmed (TrimSpace s)"
proof -
  define l where "l = strip_prefixes space_encodings s"
  define r where "r = strip_prefixes (map rev space_encodings) (rev l)"
  have "suffix r (rev l)" unfolding r_def by (rule strip_prefixes_suffix)
  then have "prefix (rev r) l" by (simp add: suffix_to_prefix)
  moreover have "no_prefix_of space_encodings l"
    unfolding l_def by (rule strip_prefixes_no_prefix)
  moreover have "no_prefix_of (map rev space_encodings) r"
    unfolding r_def by (rule strip_prefixes_no_prefix)
  ultimately show ?thesis
    by (simp add: trimmed_def TrimSpace_def l_def r_def no_prefix_of_prefix)
qed

lemma TrimSpace_id [go_string_simps]: "trimmed s \<Longrightarrow> TrimSpace s = s"
  by (simp add: trimmed_def TrimSpace_def strip_prefixes_stop)

lemma TrimSpace_idem [simp]: "TrimSpace (TrimSpace s) = TrimSpace s"
  by (simp add: TrimSpace_id)

section \<open>Replacing substrings (package strings)\<close>

text \<open>\<open>strings.ReplaceAll\<close> for a non-empty pattern, which is how the modelled code calls it: the
  leftmost occurrences are replaced without overlap.\<close>

fun ReplaceAll :: "string \<Rightarrow> string \<Rightarrow> string \<Rightarrow> string" where
  "ReplaceAll [] old new = []"
| "ReplaceAll (c # s) old new =
     (if old \<noteq> [] \<and> prefix old (c # s)
      then new @ ReplaceAll (drop (length old - 1) s) old new
      else c # ReplaceAll s old new)"

section \<open>Joining and splitting (package strings)\<close>

fun Join :: "string \<Rightarrow> string list \<Rightarrow> string" where
  "Join sep [] = []"
| "Join sep [x] = x"
| "Join sep (x # y # xs) = x @ sep @ Join sep (y # xs)"

text \<open>\<open>strings.Fields\<close>: the maximal runs of bytes between white space.\<close>

function Fields_from :: "string \<Rightarrow> string \<Rightarrow> string list" where
  "Fields_from word [] = (if word = [] then [] else [word])"
| "Fields_from word (c # s) =
     (case find (\<lambda>e. e \<noteq> [] \<and> prefix e (c # s)) space_encodings of
        None \<Rightarrow> Fields_from (word @ [c]) s
      | Some e \<Rightarrow> (if word = [] then [] else [word]) @ Fields_from [] (drop (length e - 1) s))"
  by pat_completeness auto
termination by (relation "measure (length \<circ> snd)") auto

declare Fields_from.simps(2) [simp del]

definition Fields :: "string \<Rightarrow> string list" where
  "Fields s = Fields_from [] s"

section \<open>Decimal rendering (fmt's verb d, package strconv)\<close>

definition digit :: "nat \<Rightarrow> char" where
  "digit d = char_of (48 + d)"

fun utoa :: "nat \<Rightarrow> string" where
  "utoa n = (if n < 10 then [digit n] else utoa (n div 10) @ [digit (n mod 10)])"

declare utoa.simps [simp del]

definition itoa :: "int \<Rightarrow> string" where
  "itoa i = (if i < 0 then CHR ''-'' # utoa (nat (- i)) else utoa (nat i))"

definition digit_value :: "char \<Rightarrow> nat" where
  "digit_value c = of_char c - 48"

definition atou :: "string \<Rightarrow> nat" where
  "atou = foldl (\<lambda>n c. 10 * n + digit_value c) 0"

lemma digit_value_digit [simp]: "d < 10 \<Longrightarrow> digit_value (digit d) = d"
  by (simp add: digit_value_def digit_def)

lemma of_char_digit: "d < 10 \<Longrightarrow> of_char (digit d) = 48 + d"
  by (simp add: digit_def)

lemma digit_inj [simp]: "c < 10 \<Longrightarrow> d < 10 \<Longrightarrow> digit c = digit d \<longleftrightarrow> c = d"
  by (metis digit_value_digit)

lemma atou_utoa [simp]: "atou (utoa n) = n"
proof (induction n rule: utoa.induct)
  case (1 n)
  then show ?case
    by (cases "n < 10") (simp_all add: utoa.simps [of n] atou_def)
qed

lemma utoa_inj [simp]: "utoa m = utoa n \<longleftrightarrow> m = n"
  by (metis atou_utoa)

definition is_digit :: "char \<Rightarrow> bool" where
  "is_digit c \<longleftrightarrow> 48 \<le> (of_char c :: nat) \<and> (of_char c :: nat) \<le> 57"

lemma is_digit_digit [simp]: "d < 10 \<Longrightarrow> is_digit (digit d)"
  by (simp add: is_digit_def of_char_digit)

lemma utoa_digits: "c \<in> set (utoa n) \<Longrightarrow> is_digit c"
proof (induction n rule: utoa.induct)
  case (1 n)
  then show ?case
    by (cases "n < 10") (auto simp add: utoa.simps [of n])
qed

lemma colon_not_in_utoa [simp]: "CHR '':'' \<notin> set (utoa n)"
  using utoa_digits [of "CHR '':''" n] by (auto simp: is_digit_def)

lemma dash_not_in_utoa [simp]: "CHR ''-'' \<notin> set (utoa n)"
  using utoa_digits [of "CHR ''-''" n] by (auto simp: is_digit_def)

lemma utoa_not_Nil [simp]: "utoa n \<noteq> []"
  by (simp add: utoa.simps [of n])

lemma utoa_neq_dash [simp]:
  "utoa m \<noteq> CHR ''-'' # s" "CHR ''-'' # s \<noteq> utoa m"
  using dash_not_in_utoa [of m] by (metis list.set_intros(1))+

lemma itoa_inj [simp]: "itoa i = itoa j \<longleftrightarrow> i = j"
  by (auto simp: itoa_def)

section \<open>Updating a list of keyed records\<close>

text \<open>The in-memory stores keep their tables as Go maps from an identifier to a record; the model
  keeps them as association lists and uses \<^const>\<open>AList.update\<close> and \<^const>\<open>AList.delete\<close>.\<close>

lemma map_of_update [alist_simps, simp]:
  "map_of (AList.update k v al) k' = (if k' = k then Some v else map_of al k')"
  by (simp add: update_conv)

lemma map_of_delete [alist_simps, simp]:
  "map_of (AList.delete k al) k' = (if k' = k then None else map_of al k')"
  by (simp add: delete_conv)

lemma distinct_keys_update [intro]:
  "distinct (map fst al) \<Longrightarrow> distinct (map fst (AList.update k v al))"
  by (rule distinct_update)

lemma set_update_subset: "set (AList.update k v al) \<subseteq> insert (k, v) (set al)"
  by (induction al) auto

lemma set_delete_subset: "set (AList.delete k al) \<subseteq> set al"
  by (auto simp: AList.delete_eq)

lemma update_update_same [simp]: "AList.update k v (AList.update k w al) = AList.update k v al"
  by (induction al) auto

section \<open>Histories of rows\<close>

text \<open>
  The contract between a component that owns a table and the properties about its history: every step keeps
  the component's invariant and relates each row it finds to a row that is still there afterwards.
\<close>

locale row_history =
  fixes step :: "'s \<Rightarrow> 's \<Rightarrow> bool" and inv :: "'s \<Rightarrow> bool"
    and get :: "'s \<Rightarrow> 'k \<Rightarrow> 'v option" and follows :: "'v \<Rightarrow> 'v \<Rightarrow> bool"
  assumes inv_step: "step s s' \<Longrightarrow> inv s \<Longrightarrow> inv s'"
    and follows_refl: "follows v v"
    and follows_trans: "follows u v \<Longrightarrow> follows v w \<Longrightarrow> follows u w"
    and step_follows: "step s s' \<Longrightarrow> inv s \<Longrightarrow> get s k = Some old \<Longrightarrow> \<exists>new. get s' k = Some new \<and> follows old new"
begin

lemma inv_history: "step\<^sup>*\<^sup>* s s' \<Longrightarrow> inv s \<Longrightarrow> inv s'"
  by (induction rule: rtranclp_induct) (blast intro: inv_step)+

lemma history:
  assumes "step\<^sup>*\<^sup>* s s'" "inv s" "get s k = Some old"
  shows "\<exists>new. get s' k = Some new \<and> follows old new"
  using assms(1)
proof (induction rule: rtranclp_induct)
  case base
  then show ?case using assms(3) follows_refl by blast
next
  case (step s1 s2)
  obtain mid where mid: "get s1 k = Some mid" "follows old mid" using step.IH by blast
  have "inv s1" using inv_history [OF step.hyps(1) assms(2)] .
  from step_follows [OF step.hyps(2) this mid(1)] show ?case using mid(2) follows_trans by blast
qed

end

end
