(* ===== verification/Go_Time.thy ===== *)
theory Go_Time
  imports Go_Prelude "HOL-Library.Monad_Syntax"
begin

text \<open>
  The parts of package \<open>time\<close> that the modelled code uses: the proleptic Gregorian calendar of an
  instant, rendering with a fixed-width layout, building an instant from civil fields in a time
  zone, and the saturating difference of two instants.
\<close>

section \<open>The calendar\<close>

text \<open>Days are counted from 0001-01-01, so that day 0 belongs to the zero instant.\<close>

abbreviation day_ns :: int where "day_ns \<equiv> 86400000000000"

definition year_yday :: "int \<Rightarrow> int \<times> int" where
  "year_yday d =
     (let n400 = d div 146097; r400 = d mod 146097;
          n100 = min 3 (r400 div 36524); r100 = r400 - 36524 * n100;
          n4 = r100 div 1461; r4 = r100 mod 1461;
          n1 = min 3 (r4 div 365)
      in (1 + 400 * n400 + 100 * n100 + 4 * n4 + n1, r4 - 365 * n1))"

definition is_leap :: "int \<Rightarrow> bool" where
  "is_leap y \<longleftrightarrow> y mod 4 = 0 \<and> (y mod 100 \<noteq> 0 \<or> y mod 400 = 0)"

definition month_lengths :: "int \<Rightarrow> int list" where
  "month_lengths y = [31, if is_leap y then 29 else 28, 31, 30, 31, 30, 31, 31, 30, 31, 30, 31]"

fun month_day :: "int \<Rightarrow> int \<Rightarrow> int list \<Rightarrow> int \<times> int" where
  "month_day m yd (l # ls) = (if yd < l \<or> ls = [] then (m, yd + 1) else month_day (m + 1) (yd - l) ls)"
| "month_day m yd [] = (m, yd + 1)"

definition civil :: "int \<Rightarrow> int \<times> int \<times> int" where
  "civil d = (let (y, yd) = year_yday d in (y, month_day 1 yd (month_lengths y)))"

lemma year_yday_decomp:
  assumes "year_yday d = (y, yd)"
  obtains a b c u where
    "d = 146097 * a + (36524 * b + (1461 * c + (365 * u + yd)))"
    "y = 1 + 400 * a + 100 * b + 4 * c + u"
    "0 \<le> b" "b \<le> 3" "0 \<le> c" "c \<le> 24" "0 \<le> u" "u \<le> 3" "0 \<le> yd" "yd \<le> 365"
    "u < 3 \<longrightarrow> yd < 365" "365 * u + yd < 1461"
    "b < 3 \<longrightarrow> 1461 * c + (365 * u + yd) < 36524"
    "36524 * b + (1461 * c + (365 * u + yd)) < 146097"
proof -
  define a r where "a = d div 146097" and "r = d mod 146097"
  have r: "d = 146097 * a + r" "0 \<le> r" "r < 146097" by (auto simp: a_def r_def)
  define b s where "b = min 3 (r div 36524)" and "s = r - 36524 * b"
  obtain k j where k: "k = r div 36524" "r = 36524 * k + j" "0 \<le> j" "j < 36524"
    by (metis mult_div_mod_eq pos_mod_sign pos_mod_bound zero_less_numeral)
  have s: "r = 36524 * b + s" "0 \<le> b" "b \<le> 3" "0 \<le> s" "s \<le> 36524" "b < 3 \<longrightarrow> s < 36524"
    unfolding s_def b_def k(1) [symmetric] min_def using r(2,3) k(2-4) by (cases "3 \<le> k"; simp)+
  define c q where "c = s div 1461" and "q = s mod 1461"
  have q: "s = 1461 * c + q" "0 \<le> q" "q < 1461" by (auto simp: c_def q_def)
  then have c: "0 \<le> c" "c \<le> 24" using s by linarith+
  define u v where "u = min 3 (q div 365)" and "v = q - 365 * u"
  obtain l i where l: "l = q div 365" "q = 365 * l + i" "0 \<le> i" "i < 365"
    by (metis mult_div_mod_eq pos_mod_sign pos_mod_bound zero_less_numeral)
  have v: "q = 365 * u + v" "0 \<le> u" "u \<le> 3" "0 \<le> v" "v \<le> 365" "u < 3 \<longrightarrow> v < 365"
    unfolding v_def u_def l(1) [symmetric] min_def using q(2,3) l(2-4) by (cases "3 \<le> l"; simp)+
  have "year_yday d = (1 + 400 * a + 100 * b + 4 * c + u, v)"
    unfolding v_def u_def q_def c_def s_def b_def r_def a_def year_yday_def Let_def by (rule refl)
  then have "y = 1 + 400 * a + 100 * b + 4 * c + u" "yd = v" using assms by simp_all
  with that [of a b c u] r s q c v show thesis by simp
qed

lemma year_yday_mono:
  assumes "d < e" "year_yday d = (y, yd)" "year_yday e = (z, zd)"
  shows "y < z \<or> y = z \<and> yd < zd"
  using assms(2)
proof (rule year_yday_decomp)
  fix a b c u
  assume D: "d = 146097 * a + (36524 * b + (1461 * c + (365 * u + yd)))"
    "y = 1 + 400 * a + 100 * b + 4 * c + u"
    "0 \<le> b" "b \<le> 3" "0 \<le> c" "c \<le> 24" "0 \<le> u" "u \<le> 3" "0 \<le> yd" "yd \<le> 365"
    "u < 3 \<longrightarrow> yd < 365" "365 * u + yd < 1461"
    "b < 3 \<longrightarrow> 1461 * c + (365 * u + yd) < 36524"
    "36524 * b + (1461 * c + (365 * u + yd)) < 146097"
  from assms(3) show ?thesis
  proof (rule year_yday_decomp)
    fix a' b' c' u'
    assume E: "e = 146097 * a' + (36524 * b' + (1461 * c' + (365 * u' + zd)))"
      "z = 1 + 400 * a' + 100 * b' + 4 * c' + u'"
      "0 \<le> b'" "b' \<le> 3" "0 \<le> c'" "c' \<le> 24" "0 \<le> u'" "u' \<le> 3" "0 \<le> zd" "zd \<le> 365"
      "u' < 3 \<longrightarrow> zd < 365" "365 * u' + zd < 1461"
      "b' < 3 \<longrightarrow> 1461 * c' + (365 * u' + zd) < 36524"
      "36524 * b' + (1461 * c' + (365 * u' + zd)) < 146097"
    have a: "a \<le> a'" using assms(1) D(1,3,5,7,9) E(1,14) by linarith
    have "1461 * c' + (365 * u' + zd) < 36524" if "b' < b" using E(13) D(4) that by simp
    then have b: "b \<le> b'" if "a = a'"
      using assms(1) D(1,5,7,9) E(1) that by (cases "b' < b") simp_all
    have c: "c \<le> c'" if "a = a'" "b = b'" using assms(1) D(1,7,9) E(1,12) that by linarith
    have "zd < 365" if "u' < u" using E(11) D(8) that by simp
    then have u: "u \<le> u'" if "a = a'" "b = b'" "c = c'"
      using assms(1) D(1,9) E(1) that by (cases "u' < u") simp_all
    have yd: "yd < zd" if "a = a'" "b = b'" "c = c'" "u = u'"
      using assms(1) D(1) E(1) that by simp
    consider "a < a'" | "a = a'" "b < b'" | "a = a'" "b = b'" "c < c'"
      | "a = a'" "b = b'" "c = c'" "u < u'" | "a = a'" "b = b'" "c = c'" "u = u'" "yd < zd"
      using a b c u yd by (auto simp: le_less)
    then show ?thesis
      using D(2-8) E(2-8) by cases linarith+
  qed
qed

lemma year_yday_bounds:
  assumes "year_yday d = (y, yd)"
  shows "0 \<le> yd" "yd \<le> 365" "0 \<le> d \<Longrightarrow> 1 \<le> y" "d < 3652059 \<Longrightarrow> y \<le> 9999"
proof -
  show "0 \<le> yd" "yd \<le> 365" by (rule year_yday_decomp [OF assms]; simp)+
  show "1 \<le> y" if "0 \<le> d" by (rule year_yday_decomp [OF assms]) (use that in linarith)
  show "y \<le> 9999" if "d < 3652059"
  proof (rule ccontr)
    assume "\<not> y \<le> 9999"
    moreover have "year_yday 3652058 = (9999, 364)" by code_simp
    ultimately show False
      using that year_yday_mono [of d 3652058 y yd 9999 364] assms by (cases "d = 3652058") auto
  qed
qed

lemma month_day_mono:
  assumes "c < d" "month_day m c ls = (k, i)" "month_day m d ls = (l, j)" "0 \<le> c"
  shows "k < l \<or> k = l \<and> i < j"
proof -
  have ge: "m \<le> fst (month_day m c ls)" for m c ls
    by (induction m c ls rule: month_day.induct) auto
  show ?thesis
    using assms
  proof (induction m c ls arbitrary: d rule: month_day.induct)
    case (1 m yd l ls)
    then show ?case
      using ge [of "m + 1" "d - l" ls]
      by (auto split: if_splits) (smt (verit) fst_conv)+
  qed auto
qed

section \<open>From civil fields to instants\<close>

definition days_before_year :: "int \<Rightarrow> int" where
  "days_before_year y = 365 * (y - 1) + (y - 1) div 4 - (y - 1) div 100 + (y - 1) div 400"

text \<open>The day number of a civil date.  The day of the month may lie outside the month, as in
  \<open>AddDate\<close>; the formula is linear in it, which is how \<open>time.Date\<close> normalises.\<close>

definition date_days :: "int \<Rightarrow> int \<Rightarrow> int \<Rightarrow> int" where
  "date_days y m d = days_before_year y + sum_list (take (nat (m - 1)) (month_lengths y)) + d - 1"

lemma year_yday_inverse: "year_yday d = (y, yd) \<Longrightarrow> days_before_year y + yd = d"
proof (erule year_yday_decomp)
  fix a b c u
  assume D: "d = 146097 * a + (36524 * b + (1461 * c + (365 * u + yd)))"
    "y = 1 + 400 * a + 100 * b + 4 * c + u"
    "0 \<le> b" "b \<le> 3" "0 \<le> c" "c \<le> 24" "0 \<le> u" "u \<le> 3"
  have "(y - 1) div 4 = 100 * a + 25 * b + c" using D(2-8) by linarith
  moreover have "(y - 1) div 100 = 4 * a + b" using D(2-8) by linarith
  moreover have "(y - 1) div 400 = a" using D(2-8) by linarith
  ultimately show ?thesis using D(1,2) by (simp add: days_before_year_def)
qed

lemma month_day_sum:
  assumes "month_day m yd ls = (k, i)"
  shows "m \<le> k" "sum_list (take (nat (k - m)) ls) + i - 1 = yd"
proof -
  have "m \<le> k \<and> sum_list (take (nat (k - m)) ls) + i - 1 = yd"
    using assms
  proof (induction m yd ls rule: month_day.induct)
    case (1 m yd l ls)
    then show ?case
    proof (cases "yd < l \<or> ls = []")
      case False
      with 1 have IH: "m + 1 \<le> k" "sum_list (take (nat (k - (m + 1))) ls) + i - 1 = yd - l" by auto
      have "nat (k - m) = Suc (nat (k - (m + 1)))" using IH(1) by linarith
      with IH show ?thesis by simp
    qed auto
  qed auto
  then show "m \<le> k" "sum_list (take (nat (k - m)) ls) + i - 1 = yd" by auto
qed

lemma date_days_civil: "civil d = (y, m, k) \<Longrightarrow> date_days y m k = d"
  using month_day_sum(2) [of 1] year_yday_inverse
  by (fastforce simp: civil_def date_days_def split: prod.splits)

section \<open>Time zones\<close>

text \<open>A \<open>time.Location\<close> is what its lookup returns for a Unix time in seconds: the offset east of UTC
  in seconds and the first and the past-the-end second of the zone period.  The zone database is a
  parameter of the definitions that use it.\<close>

type_synonym location = "int \<Rightarrow> int \<times> int \<times> int"

abbreviation unix_to_internal :: int where "unix_to_internal \<equiv> 62135596800"

definition unix_seconds :: "gotime \<Rightarrow> int" where
  "unix_seconds t = t div second - unix_to_internal"

definition zone_offset :: "location \<Rightarrow> gotime \<Rightarrow> int" where
  "zone_offset loc t = fst (loc (unix_seconds t))"

text \<open>The wall-clock reading of an instant, as nanoseconds since 0001-01-01 on the local clock.\<close>

definition wall :: "location \<Rightarrow> gotime \<Rightarrow> int" where
  "wall loc t = t + zone_offset loc t * second"

definition local_date :: "location \<Rightarrow> gotime \<Rightarrow> int \<times> int \<times> int" where
  "local_date loc t = civil (wall loc t div day_ns)"

text \<open>0001-01-01 was a Monday; \<open>time.Weekday\<close> counts from Sunday = 0.\<close>

definition weekday_of_day :: "int \<Rightarrow> int" where
  "weekday_of_day d = (d + 1) mod 7"

definition Weekday :: "location \<Rightarrow> gotime \<Rightarrow> int" where
  "Weekday loc t = weekday_of_day (wall loc t div day_ns)"

text \<open>\<open>time.Date\<close>: the first guess of the offset is corrected once when it falls outside its period.\<close>

definition unix_of_wall :: "location \<Rightarrow> int \<Rightarrow> int" where
  "unix_of_wall loc unix =
     (case loc unix of (offset, start, stop) \<Rightarrow>
        if offset \<noteq> 0 then
          let utc = unix - offset
          in unix - (if utc < start \<or> stop \<le> utc then fst (loc utc) else offset)
        else unix)"

definition Date :: "int \<Rightarrow> int \<Rightarrow> int \<Rightarrow> int \<Rightarrow> int \<Rightarrow> int \<Rightarrow> int \<Rightarrow> location \<Rightarrow> gotime" where
  "Date y m d h mi s ns loc =
     (unix_of_wall loc (date_days y m d * 86400 + h * 3600 + mi * 60 + s - unix_to_internal)
        + unix_to_internal) * second + ns"

definition AddDate_days :: "location \<Rightarrow> gotime \<Rightarrow> int \<Rightarrow> gotime" where
  "AddDate_days loc t n =
     (let (y, m, d) = local_date loc t; tod = wall loc t mod day_ns
      in Date y m (d + n) 0 0 (tod div second) (tod mod second) loc)"

section \<open>Rendering with a fixed-width layout\<close>

definition zpad :: "nat \<Rightarrow> int \<Rightarrow> string" where
  "zpad w n =
     (let s = utoa (nat \<bar>n\<bar>)
      in (if n < 0 then ''-'' else []) @ replicate (w - length s) (CHR ''0'') @ s)"

definition format_micros :: "gotime \<Rightarrow> string" where
  "format_micros t =
     (let (y, m, d) = civil (t div day_ns); tod = t mod day_ns
      in zpad 4 y @ ''-'' @ zpad 2 m @ ''-'' @ zpad 2 d @ ''T''
         @ zpad 2 (tod div hour) @ '':'' @ zpad 2 (tod div minute mod 60) @ '':''
         @ zpad 2 (tod div second mod 60) @ ''.'' @ zpad 6 (tod div microsecond mod 1000000))"

definition Truncate :: "gotime \<Rightarrow> duration \<Rightarrow> gotime" where
  "Truncate t d = (if d \<le> 0 then t else t - t mod d)"

text \<open>\<open>t.Sub(u)\<close> saturates at the ends of \<open>time.Duration\<close>.\<close>

definition Sub :: "gotime \<Rightarrow> gotime \<Rightarrow> duration" where
  "Sub t u = max (- (2 ^ 63)) (min (2 ^ 63 - 1) (t - u))"

section \<open>Lexical order of fixed-width renderings\<close>

lemma append_less_same_length:
  assumes "length a = length b"
  shows "a @ x < b @ y \<longleftrightarrow> a < b \<or> a = b \<and> (x :: 'a :: order list) < y"
  using assms by (induction a b rule: list_induct2) auto

primrec fixed_digits :: "nat \<Rightarrow> nat \<Rightarrow> string" where
  "fixed_digits 0 n = []"
| "fixed_digits (Suc w) n = fixed_digits w (n div 10) @ [digit (n mod 10)]"

lemma length_fixed_digits [simp]: "length (fixed_digits w n) = w"
  by (induction w arbitrary: n) simp_all

lemma digit_less: "c < 10 \<Longrightarrow> d < 10 \<Longrightarrow> digit c < digit d \<longleftrightarrow> c < d"
  by (simp add: less_char_def digit_def)

lemma div_ten_cases:
  "m < n \<longleftrightarrow> m div 10 < n div 10 \<or> m div 10 = n div 10 \<and> m mod 10 < n mod (10 :: nat)"
  by (smt (verit) add_less_cancel_left div_le_mono div_mult_mod_eq le_neq_implies_less linorder_not_less
      nat_less_le)

lemma fixed_digits_inj:
  "m < 10 ^ w \<Longrightarrow> n < 10 ^ w \<Longrightarrow> fixed_digits w m = fixed_digits w n \<longleftrightarrow> m = n"
proof (induction w arbitrary: m n)
  case (Suc w)
  have "fixed_digits w (m div 10) = fixed_digits w (n div 10) \<longleftrightarrow> m div 10 = n div 10"
    using Suc.prems by (intro Suc.IH) (simp_all add: less_mult_imp_div_less mult.commute)
  then show ?case by (auto) (metis div_mult_mod_eq)
qed simp

lemma fixed_digits_less:
  "m < 10 ^ w \<Longrightarrow> n < 10 ^ w \<Longrightarrow> fixed_digits w m < fixed_digits w n \<longleftrightarrow> m < n"
proof (induction w arbitrary: m n)
  case (Suc w)
  have lt: "m div 10 < 10 ^ w" "n div 10 < 10 ^ w"
    using Suc.prems by (simp_all add: less_mult_imp_div_less mult.commute)
  show ?case
    by (simp add: append_less_same_length Suc.IH [OF lt] fixed_digits_inj [OF lt] digit_less
        div_ten_cases [of m n])
qed simp

lemma fixed_digits_0: "fixed_digits w 0 = replicate w (CHR ''0'')"
proof (induction w)
  case (Suc w)
  moreover have "digit 0 = CHR ''0''" by code_simp
  ultimately show ?case by (simp add: replicate_append_same)
qed simp

lemma length_utoa_le: "n < 10 ^ w \<Longrightarrow> 0 < w \<Longrightarrow> length (utoa n) \<le> w"
proof (induction n arbitrary: w rule: utoa.induct)
  case (1 n)
  show ?case
  proof (cases "n < 10")
    case True then show ?thesis using 1 by (simp add: utoa.simps [of n])
  next
    case False
    then obtain v where v: "w = Suc v" "0 < v" using 1 by (cases w; cases "w - 1") auto
    with 1 False show ?thesis
      by (simp add: utoa.simps [of n] less_mult_imp_div_less mult.commute)
  qed
qed

lemma fixed_digits_utoa:
  "n < 10 ^ w \<Longrightarrow> 0 < w \<Longrightarrow> fixed_digits w n = replicate (w - length (utoa n)) (CHR ''0'') @ utoa n"
proof (induction w arbitrary: n)
  case (Suc w)
  show ?case
  proof (cases "n < 10")
    case True then show ?thesis by (simp add: utoa.simps [of n] fixed_digits_0)
  next
    case False
    then have "0 < w" using Suc.prems by (cases w) auto
    moreover have "n div 10 < 10 ^ w" using Suc.prems by (simp add: less_mult_imp_div_less mult.commute)
    ultimately show ?thesis using False Suc.IH [of "n div 10"] by (simp add: utoa.simps [of n])
  qed
qed simp

lemma zpad_fixed: "0 \<le> n \<Longrightarrow> n < 10 ^ w \<Longrightarrow> 0 < w \<Longrightarrow> zpad w n = fixed_digits w (nat n)"
  by (simp add: zpad_def Let_def fixed_digits_utoa nat_less_iff)

lemma zpad_append_less:
  assumes "0 \<le> m" "m < 10 ^ w" "0 \<le> n" "n < 10 ^ w" "0 < w"
  shows "zpad w m @ x < zpad w n @ y \<longleftrightarrow> m < n \<or> m = n \<and> x < y"
proof -
  have "nat m < 10 ^ w" "nat n < 10 ^ w" using assms by (simp_all add: nat_less_iff)
  then show ?thesis
    using assms
    by (auto simp: zpad_fixed append_less_same_length fixed_digits_less fixed_digits_inj)
qed

lemma civil_bounds:
  assumes "civil d = (y, m, k)" "0 \<le> d" "d < 3652059"
  shows "1 \<le> y" "y \<le> 9999" "1 \<le> m" "m \<le> 12" "1 \<le> k" "k \<le> 99"
proof -
  obtain yd where yd: "year_yday d = (y, yd)" "month_day 1 yd (month_lengths y) = (m, k)"
    using assms(1) by (auto simp: civil_def split: prod.splits)
  show "1 \<le> y" "y \<le> 9999" using year_yday_bounds [OF yd(1)] assms by auto
  have "0 \<le> yd" "yd \<le> 365" using year_yday_bounds [OF yd(1)] by auto
  then show "1 \<le> m" "m \<le> 12" "1 \<le> k" "k \<le> 99"
    using yd(2) by (auto simp: month_lengths_def split: if_splits)
qed

lemma civil_less:
  assumes "civil d = (y, m, k)" "civil e = (z, n, l)" "d < e"
  shows "y < z \<or> y = z \<and> (m < n \<or> m = n \<and> k < l)"
proof -
  obtain yd where yd: "year_yday d = (y, yd)" "month_day 1 yd (month_lengths y) = (m, k)"
    using assms(1) by (auto simp: civil_def split: prod.splits)
  obtain zd where zd: "year_yday e = (z, zd)" "month_day 1 zd (month_lengths z) = (n, l)"
    using assms(2) by (auto simp: civil_def split: prod.splits)
  from year_yday_mono [OF assms(3) yd(1) zd(1)] show ?thesis
  proof
    assume "y = z \<and> yd < zd"
    then show ?thesis
      using month_day_mono [of yd zd 1 "month_lengths y" m k n l] yd zd year_yday_bounds(1) [OF yd(1)]
      by auto
  qed simp
qed

text \<open>Microseconds of the day, split into the fields of the layout.\<close>

lemma tod_fields_less:
  fixes a b :: int
  assumes "a mod microsecond = 0" "b mod microsecond = 0" "a < b"
  shows "a div hour < b div hour \<or> a div hour = b div hour \<and>
    (a div minute mod 60 < b div minute mod 60 \<or> a div minute mod 60 = b div minute mod 60 \<and>
    (a div second mod 60 < b div second mod 60 \<or> a div second mod 60 = b div second mod 60 \<and>
     a div microsecond mod 1000000 < b div microsecond mod 1000000))"
proof -
  define u v where "u = a div microsecond" and "v = b div microsecond"
  have ab: "a = 1000 * u" "b = 1000 * v" using assms(1,2) by (auto simp: u_def v_def)
  have uv: "u < v" using assms(3) ab by simp
  have d: "a div hour = u div 3600000000" "a div minute = u div 60000000" "a div second = u div 1000000"
    "b div hour = v div 3600000000" "b div minute = v div 60000000" "b div second = v div 1000000"
    by (simp_all add: ab)
  define u1 u2 v1 v2 where "u1 = u div 1000000" and "u2 = u div 1000000 div 60"
    and "v1 = v div 1000000" and "v2 = v div 1000000 div 60"
  have e: "u div 60000000 = u2" "u div 3600000000 = u2 div 60"
    "v div 60000000 = v2" "v div 3600000000 = v2 div 60"
    by (simp_all add: u2_def v2_def zdiv_zmult2_eq [symmetric])
  have lvl: "(x :: int) < y \<Longrightarrow> 0 < k \<Longrightarrow> x div k < y div k \<or> x div k = y div k \<and> x mod k < y mod k" for x y k
    by (metis (no_types, opaque_lifting) add_less_cancel_left le_less mult_div_mod_eq zdiv_mono1 less_le)
  have "u1 < v1 \<or> u1 = v1 \<and> u mod 1000000 < v mod 1000000"
    using lvl [OF uv, of 1000000] by (simp add: u1_def v1_def)
  moreover have "u1 < v1 \<Longrightarrow> u2 < v2 \<or> u2 = v2 \<and> u1 mod 60 < v1 mod 60"
    using lvl [of u1 v1 60] by (simp add: u1_def v1_def u2_def v2_def)
  moreover have "u2 < v2 \<Longrightarrow> u2 div 60 < v2 div 60 \<or> u2 div 60 = v2 div 60 \<and> u2 mod 60 < v2 mod 60"
    using lvl [of u2 v2 60] by simp
  moreover have "u1 = v1 \<Longrightarrow> u2 = v2" by (simp add: u1_def v1_def u2_def v2_def)
  ultimately show ?thesis
    unfolding d e u_def [symmetric] v_def [symmetric] u1_def [symmetric] v1_def [symmetric] by metis
qed

definition representable :: "gotime \<Rightarrow> bool" where
  "representable t \<longleftrightarrow> 0 \<le> t \<and> t < 3652059 * day_ns"

lemma tod_render_less:
  fixes h m s f h' m' s' f' :: int
  assumes "0 \<le> h" "h < 100" "0 \<le> m" "m < 60" "0 \<le> s" "s < 60" "0 \<le> f" "f < 1000000"
    and "0 \<le> h'" "h' < 100" "0 \<le> m'" "m' < 60" "0 \<le> s'" "s' < 60" "0 \<le> f'" "f' < 1000000"
    and "h < h' \<or> h = h' \<and> (m < m' \<or> m = m' \<and> (s < s' \<or> s = s' \<and> f < f'))"
  shows "zpad 2 h @ '':'' @ zpad 2 m @ '':'' @ zpad 2 s @ ''.'' @ zpad 6 f @ x
    < zpad 2 h' @ '':'' @ zpad 2 m' @ '':'' @ zpad 2 s' @ ''.'' @ zpad 6 f' @ y"
  using assms by (simp add: zpad_append_less) blast

lemma format_micros_less:
  assumes r: "representable s" "representable t"
    and m: "s mod microsecond = 0" "t mod microsecond = 0" and "s < t"
  shows "format_micros s @ x < format_micros t @ y"
proof -
  obtain a b c where A: "civil (s div day_ns) = (a, b, c)" by (metis prod_cases3)
  obtain a' b' c' where B: "civil (t div day_ns) = (a', b', c')" by (metis prod_cases3)
  have sd: "0 \<le> s div day_ns" "s div day_ns < 3652059" and td: "0 \<le> t div day_ns" "t div day_ns < 3652059"
    using r by (auto simp: representable_def)
  note bounds = civil_bounds [OF A sd] civil_bounds [OF B td]
  define p q where "p = s mod day_ns" and "q = t mod day_ns"
  have pq: "0 \<le> p" "p < day_ns" "0 \<le> q" "q < day_ns" by (auto simp: p_def q_def)
  have "s div day_ns < t div day_ns \<or> s div day_ns = t div day_ns \<and> p < q"
    using \<open>s < t\<close> unfolding p_def q_def by (smt (verit) mult_div_mod_eq zdiv_mono1)
  then show ?thesis
  proof
    assume "s div day_ns < t div day_ns"
    then have "a < a' \<or> a = a' \<and> (b < b' \<or> b = b' \<and> c < c')" using civil_less A B by blast
    then show ?thesis using bounds by (auto simp: format_micros_def Let_def A B zpad_append_less)
  next
    assume eq: "s div day_ns = t div day_ns \<and> p < q"
    have "p mod microsecond = 0" "q mod microsecond = 0"
      using m unfolding p_def q_def by (simp_all add: mod_mod_cancel)
    note less = tod_fields_less [OF this conjunct2 [OF eq]]
    have h: "0 \<le> p div hour" "p div hour < 100" "0 \<le> q div hour" "q div hour < 100"
      using pq by auto
    have "i mod 60 < 60" "0 \<le> i mod 60" "0 \<le> i mod 1000000" "i mod 1000000 < 1000000" for i :: int
      by simp_all
    note r = tod_render_less [OF h(1,2) this(2,1) this(2,1) this(3,4) h(3,4) this(2,1) this(2,1) this(3,4) less]
    have "(a, b, c) = (a', b', c')" using A B eq by simp
    then show ?thesis
      using bounds r by (simp add: format_micros_def Let_def A B p_def [symmetric] q_def [symmetric] zpad_append_less)
  qed
qed

section \<open>Parsing RFC 3339 timestamps\<close>

text \<open>\<open>time.Parse(time.RFC3339, s)\<close>: one definition per layout element, each returning the value and
  the rest of the input.  As in the library, the hour may have one digit, the fraction may start
  with a comma and is cut after nine digits, and an offset may be as large as 24:60.\<close>

fun take_fixed2 :: "string \<Rightarrow> (int \<times> string) option" where
  "take_fixed2 (c # d # s) =
     (if is_digit c \<and> is_digit d then Some (int (atou [c, d]), s) else None)"
| "take_fixed2 _ = None"

fun take_num :: "string \<Rightarrow> (int \<times> string) option" where
  "take_num [] = None"
| "take_num [c] = (if is_digit c then Some (int (atou [c]), []) else None)"
| "take_num (c # d # s) =
     (if \<not> is_digit c then None
      else if is_digit d then Some (int (atou [c, d]), s)
      else Some (int (atou [c]), d # s))"

definition take_year :: "string \<Rightarrow> (int \<times> string) option" where
  "take_year s =
     (if 4 \<le> length s \<and> list_all is_digit (take 4 s) then Some (int (atou (take 4 s)), drop 4 s)
      else None)"

fun expect :: "char \<Rightarrow> string \<Rightarrow> string option" where
  "expect c (d # s) = (if c = d then Some s else None)"
| "expect c [] = None"

definition in_range :: "int \<Rightarrow> int \<Rightarrow> int \<times> string \<Rightarrow> (int \<times> string) option" where
  "in_range lo hi r = (if lo \<le> fst r \<and> fst r \<le> hi then Some r else None)"

definition take_fraction :: "string \<Rightarrow> int \<times> string" where
  "take_fraction s =
     (case s of
        c # d # r \<Rightarrow>
          if (c = CHR ''.'' \<or> c = CHR '','') \<and> is_digit d then
            let ds = takeWhile is_digit (d # r); ds' = take 9 ds
            in (int (atou ds') * 10 ^ (9 - length ds'), drop (length ds) (d # r))
          else (0, s)
      | _ \<Rightarrow> (0, s))"

definition take_zone :: "string \<Rightarrow> (int \<times> string) option" where
  "take_zone s =
     (case s of
        [] \<Rightarrow> None
      | c # r \<Rightarrow>
          if c = CHR ''Z'' then Some (0, r)
          else if c = CHR ''+'' \<or> c = CHR ''-'' then
            do { (h, r) \<leftarrow> take_fixed2 r \<bind> in_range 0 24;
                 r \<leftarrow> expect (CHR '':'') r;
                 (m, r) \<leftarrow> take_fixed2 r \<bind> in_range 0 60;
                 Some ((if c = CHR ''-'' then - 1 else 1) * (h * 3600 + m * 60), r) }
          else None)"

definition parse_rfc3339 :: "string \<Rightarrow> gotime option" where
  "parse_rfc3339 s =
     do { (y, s) \<leftarrow> take_year s; s \<leftarrow> expect (CHR ''-'') s;
          (m, s) \<leftarrow> take_fixed2 s \<bind> in_range 1 12; s \<leftarrow> expect (CHR ''-'') s;
          (d, s) \<leftarrow> take_fixed2 s; s \<leftarrow> expect (CHR ''T'') s;
          (h, s) \<leftarrow> take_num s \<bind> in_range 0 23; s \<leftarrow> expect (CHR '':'') s;
          (mi, s) \<leftarrow> take_fixed2 s \<bind> in_range 0 59; s \<leftarrow> expect (CHR '':'') s;
          (sec, s) \<leftarrow> take_fixed2 s \<bind> in_range 0 59;
          let (ns, s) = take_fraction s;
          (off, s) \<leftarrow> take_zone s;
          if s = [] \<and> 1 \<le> d \<and> d \<le> month_lengths y ! nat (m - 1)
          then Some ((date_days y m d * 86400 + h * 3600 + mi * 60 + sec - off) * second + ns)
          else None }"

end
