(* ===== verification/Audit_Chain.thy ===== *)
theory Audit_Chain
  imports Go_Time Sha256
begin

text \<open>
  The tamper-evident audit chain: \<open>internal/audit/chain/chain.go\<close> (row hashes, the unkeyed walk
  \<open>Verify\<close>, the keyed walk \<open>VerifySealed\<close> with its high-water mark) and the append and verify
  operations of the in-memory application store (\<open>memory/audit_chain.go\<close>, \<open>memory.go\<close>).

  The walk is shown equivalent to a declarative description of a valid chain; chains built by the
  append path verify; and two chains that verify under the same head agree on every hashed field
  unless they exhibit a concrete hash collision.  No property of the hash function is assumed.
\<close>

section \<open>Row hashes\<close>

type_synonym actor_name = string
type_synonym tenant = string

definition writeField :: "string \<Rightarrow> string" where
  "writeField s = itoa (int (length s)) @ '':'' @ s"

record Row =
  row_ID :: string
  row_Actor :: string
  row_EventType :: string
  row_TargetType :: string
  row_TargetID :: string
  row_Action :: string
  row_Payload :: string
  row_Tenant :: string
  row_Seq :: int
  row_PrevHash :: string
  row_RowHash :: string
  row_Timestamp :: string
  row_Algo :: string

text \<open>The byte stream that \<open>RowHash\<close> feeds to the hash, and the one of \<open>RowHashV2\<close>.\<close>

definition legacy_preimage ::
  "string \<Rightarrow> actor_name \<Rightarrow> string \<Rightarrow> string \<Rightarrow> string \<Rightarrow> string \<Rightarrow> string \<Rightarrow> tenant \<Rightarrow> int \<Rightarrow> string \<Rightarrow> string" where
  "legacy_preimage eid actor eventType targetType targetID action payload tenant seq prevHash =
     writeField eid @ writeField actor @ writeField eventType @ writeField targetType
     @ writeField targetID @ writeField action @ writeField payload @ writeField tenant
     @ writeField (itoa seq) @ prevHash"

definition RowHash ::
  "string \<Rightarrow> actor_name \<Rightarrow> string \<Rightarrow> string \<Rightarrow> string \<Rightarrow> string \<Rightarrow> string \<Rightarrow> tenant \<Rightarrow> int \<Rightarrow> string \<Rightarrow> string" where
  "RowHash eid actor eventType targetType targetID action payload tenant seq prevHash =
     hex_encode (sha256
       (legacy_preimage eid actor eventType targetType targetID action payload tenant seq prevHash))"

record Key =
  raw :: string

definition auditKeyMinLen :: nat where
  "auditKeyMinLen = 32"

datatype chain_error = ErrAuditKeyMalformed string

definition NewKey :: "string \<Rightarrow> chain_error + Key" where
  "NewKey rw =
     (if length rw < auditKeyMinLen
      then Inl (ErrAuditKeyMalformed
             ('': got '' @ itoa (int (length rw)) @ '' bytes, need >= '' @ itoa (int auditKeyMinLen)))
      else Inr \<lparr>raw = rw\<rparr>)"

text \<open>\<open>base64.StdEncoding.DecodeString\<close>: line breaks are skipped, padding closes the last quantum.\<close>

definition base64_value :: "char \<Rightarrow> nat option" where
  "base64_value c =
     (let n = (of_char c :: nat) in
      if 65 \<le> n \<and> n \<le> 90 then Some (n - 65)
      else if 97 \<le> n \<and> n \<le> 122 then Some (n - 71)
      else if 48 \<le> n \<and> n \<le> 57 then Some (n + 4)
      else if n = 43 then Some 62
      else if n = 47 then Some 63
      else None)"

fun base64_quanta :: "string \<Rightarrow> string option" where
  "base64_quanta [] = Some []"
| "base64_quanta (a # b # c # d # s) =
     do { x \<leftarrow> base64_value a; y \<leftarrow> base64_value b;
          if c = CHR ''='' then
            if d = CHR ''='' \<and> s = [] then Some [char_of (x * 4 + y div 16)] else None
          else do { z \<leftarrow> base64_value c;
            if d = CHR ''='' then
              if s = [] then Some [char_of (x * 4 + y div 16), char_of (y mod 16 * 16 + z div 4)]
              else None
            else do { w \<leftarrow> base64_value d; r \<leftarrow> base64_quanta s;
              Some (char_of (x * 4 + y div 16) # char_of (y mod 16 * 16 + z div 4)
                    # char_of (z mod 4 * 64 + w) # r) } } }"
| "base64_quanta _ = None"

definition base64_decode :: "string \<Rightarrow> string option" where
  "base64_decode s = base64_quanta (filter (\<lambda>c. c \<noteq> char_of (10 :: nat) \<and> c \<noteq> char_of (13 :: nat)) s)"

text \<open>\<open>LoadKeyFromEnv\<close> on the value of the environment variable: key, present, error.\<close>

definition LoadKeyFromEnv :: "string \<Rightarrow> Key option \<times> bool \<times> chain_error option" where
  "LoadKeyFromEnv env_value =
     (let rw = TrimSpace env_value in
      if rw = [] then (None, False, None)
      else case base64_decode rw of
        None \<Rightarrow> (None, True, Some (ErrAuditKeyMalformed '': not base64''))
      | Some decoded \<Rightarrow>
          (case NewKey decoded of
             Inl e \<Rightarrow> (None, True, Some e)
           | Inr k \<Rightarrow> (Some k, True, None)))"

definition CanonicalTimestamp :: "gotime \<Rightarrow> string" where
  "CanonicalTimestamp t = format_micros (Truncate t microsecond) @ ''Z''"

definition keyed_preimage ::
  "string \<Rightarrow> actor_name \<Rightarrow> string \<Rightarrow> string \<Rightarrow> string \<Rightarrow> string \<Rightarrow> string \<Rightarrow> tenant \<Rightarrow> string \<Rightarrow> int \<Rightarrow> string \<Rightarrow> string" where
  "keyed_preimage eid actor eventType targetType targetID action payload tenant timestamp seq prevHash =
     writeField eid @ writeField actor @ writeField eventType @ writeField targetType
     @ writeField targetID @ writeField action @ writeField payload @ writeField tenant
     @ writeField timestamp @ writeField (itoa seq) @ prevHash"

definition RowHashV2 ::
  "Key \<Rightarrow> string \<Rightarrow> actor_name \<Rightarrow> string \<Rightarrow> string \<Rightarrow> string \<Rightarrow> string \<Rightarrow> string \<Rightarrow> tenant \<Rightarrow> string \<Rightarrow> int \<Rightarrow> string \<Rightarrow> string" where
  "RowHashV2 key eid actor eventType targetType targetID action payload tenant timestamp seq prevHash =
     hex_encode (hmac_sha256 (raw key)
       (keyed_preimage eid actor eventType targetType targetID action payload tenant timestamp seq prevHash))"

definition AlgoLegacySHA256 :: string where
  "AlgoLegacySHA256 = []"

definition AlgoHMACSHA256 :: string where
  "AlgoHMACSHA256 = ''hmac-sha256-v2''"

abbreviation keyed :: "Row \<Rightarrow> bool" where
  "keyed r \<equiv> row_Algo r = AlgoHMACSHA256"

text \<open>None is the nil dereference of a keyed row without a key; \<open>VerifySealed\<close> guards against it.\<close>

definition computeExpected :: "Key option \<Rightarrow> Row \<Rightarrow> string option" where
  "computeExpected key r =
     (if keyed r then
        map_option (\<lambda>k. RowHashV2 k (row_ID r) (row_Actor r) (row_EventType r) (row_TargetType r)
          (row_TargetID r) (row_Action r) (row_Payload r) (row_Tenant r) (row_Timestamp r)
          (row_Seq r) (row_PrevHash r)) key
      else Some (RowHash (row_ID r) (row_Actor r) (row_EventType r) (row_TargetType r)
          (row_TargetID r) (row_Action r) (row_Payload r) (row_Tenant r) (row_Seq r) (row_PrevHash r)))"

section \<open>The unkeyed walk\<close>

record Result =
  res_OK :: bool
  res_RowsVerified :: int
  res_FirstBreakSeq :: int
  res_Detail :: string
  res_CoversFromSeq :: int
  res_HeadSeq :: int
  res_HeadRowHash :: string

text \<open>The local variables of the loops of \<open>Verify\<close> and \<open>VerifySealed\<close>; \<open>w_start\<close> is the test
  \<open>i == 0\<close>, and \<open>w_prevTS\<close>, \<open>w_sawKeyed\<close> belong to \<open>VerifySealed\<close> only.\<close>

record walk =
  w_start :: bool
  w_count :: int
  w_coversFrom :: int
  w_prevSeq :: int
  w_prevRowHash :: string
  w_prevTS :: string
  w_sawKeyed :: bool
  w_headSeq :: int
  w_headRowHash :: string

definition walk_init :: walk where
  "walk_init = \<lparr>w_start = True, w_count = 0, w_coversFrom = 0, w_prevSeq = 0, w_prevRowHash = [],
     w_prevTS = [], w_sawKeyed = False, w_headSeq = 0, w_headRowHash = []\<rparr>"

definition walk_fail :: "walk \<Rightarrow> int \<Rightarrow> string \<Rightarrow> Result" where
  "walk_fail w seq detail = \<lparr>res_OK = False, res_RowsVerified = w_count w, res_FirstBreakSeq = seq,
     res_Detail = detail, res_CoversFromSeq = w_coversFrom w, res_HeadSeq = 0, res_HeadRowHash = []\<rparr>"

definition walk_done :: "walk \<Rightarrow> Result" where
  "walk_done w = \<lparr>res_OK = True, res_RowsVerified = w_count w, res_FirstBreakSeq = 0,
     res_Detail = [], res_CoversFromSeq = w_coversFrom w, res_HeadSeq = w_headSeq w,
     res_HeadRowHash = w_headRowHash w\<rparr>"

definition legacy_hash :: "Row \<Rightarrow> string" where
  "legacy_hash r = RowHash (row_ID r) (row_Actor r) (row_EventType r) (row_TargetType r)
     (row_TargetID r) (row_Action r) (row_Payload r) (row_Tenant r) (row_Seq r) (row_PrevHash r)"

definition Verify_step :: "walk \<Rightarrow> Row \<Rightarrow> Result + walk" where
  "Verify_step w row =
     (let w0 = (if w_start w then w\<lparr>w_coversFrom := row_Seq row\<rparr> else w);
          expected = legacy_hash row;
          w' = w0\<lparr>w_start := False, w_count := w_count w0 + 1, w_prevSeq := row_Seq row,
                  w_prevRowHash := row_RowHash row, w_headSeq := row_Seq row,
                  w_headRowHash := row_RowHash row\<rparr>
      in if w_start w then
           if expected \<noteq> row_RowHash row then
             Inl (walk_fail w0 (row_Seq row) (''row_hash mismatch at chain-start seq ''
               @ itoa (row_Seq row) @ '' (row content edited)''))
           else Inr w'
         else if row_Seq row \<noteq> int64 (w_prevSeq w + 1) then
           Inl (walk_fail w0 (row_Seq row) (''non-contiguous seq: expected ''
             @ itoa (int64 (w_prevSeq w + 1)) @ '', got '' @ itoa (row_Seq row) @ '' (middle deletion)''))
         else if row_PrevHash row \<noteq> w_prevRowHash w then
           Inl (walk_fail w0 (row_Seq row) (''prev_hash link broken at seq '' @ itoa (row_Seq row)))
         else if expected \<noteq> row_RowHash row then
           Inl (walk_fail w0 (row_Seq row) (''row_hash mismatch at seq ''
             @ itoa (row_Seq row) @ '' (row content edited or reordered)''))
         else Inr w')"

fun walk_rows :: "(walk \<Rightarrow> Row \<Rightarrow> Result + walk) \<Rightarrow> walk \<Rightarrow> Row list \<Rightarrow> Result + walk" where
  "walk_rows step w [] = Inr w"
| "walk_rows step w (r # rs) =
     (case step w r of Inl res \<Rightarrow> Inl res | Inr w' \<Rightarrow> walk_rows step w' rs)"

definition Verify :: "Row list \<Rightarrow> Result" where
  "Verify rows =
     (case walk_rows Verify_step walk_init rows of Inl res \<Rightarrow> res | Inr w \<Rightarrow> walk_done w)"

section \<open>The keyed walk and the high-water mark\<close>

record Head =
  head_Tenant :: string
  head_HeadSeq :: int
  head_HeadRowHash :: string
  head_MAC :: string

definition HeadMAC :: "Key \<Rightarrow> string \<Rightarrow> int \<Rightarrow> string \<Rightarrow> string" where
  "HeadMAC k tenant seq rowHash =
     hex_encode (hmac_sha256 (raw k)
       (writeField ''audit_chain_head'' @ writeField tenant @ writeField (itoa seq)
        @ writeField rowHash))"

definition verifyHeadMAC :: "Key \<Rightarrow> Head \<Rightarrow> bool" where
  "verifyHeadMAC k h \<longleftrightarrow> HeadMAC k (head_Tenant h) (head_HeadSeq h) (head_HeadRowHash h) = head_MAC h"

definition em_dash :: string where
  "em_dash = map char_of [226 :: nat, 128, 148]"

definition walk_next :: "walk \<Rightarrow> Row \<Rightarrow> walk" where
  "walk_next w row =
     w\<lparr>w_start := False,
       w_count := w_count w + 1,
       w_coversFrom := (if w_start w then row_Seq row else w_coversFrom w),
       w_prevSeq := row_Seq row,
       w_prevRowHash := row_RowHash row,
       w_prevTS := (if keyed row then row_Timestamp row else []),
       w_sawKeyed := (w_sawKeyed w \<or> keyed row),
       w_headSeq := row_Seq row,
       w_headRowHash := row_RowHash row\<rparr>"

definition VerifySealed_step :: "Key option \<Rightarrow> walk \<Rightarrow> Row \<Rightarrow> Result + walk" where
  "VerifySealed_step key w row =
     (let seq = row_Seq row; sq = itoa seq in
      if w_sawKeyed w \<and> \<not> keyed row then
        Inl (walk_fail w seq (''downgrade attack at seq '' @ sq
          @ '': reverts to unkeyed legacy scheme after a keyed entry''))
      else if keyed row \<and> key = None then
        Inl (walk_fail w seq (''seq '' @ sq
          @ '' is HMAC-keyed but no audit key is configured to verify it''))
      else
        let expected = computeExpected key row;
            w0 = (if w_start w then w\<lparr>w_coversFrom := seq\<rparr> else w)
        in if w_start w \<and> expected \<noteq> Some (row_RowHash row) then
             Inl (walk_fail w0 seq (''row_hash mismatch at chain-start seq '' @ sq
               @ '' (row content edited or key mismatch)''))
           else if \<not> w_start w \<and> seq \<noteq> int64 (w_prevSeq w + 1) then
             Inl (walk_fail w0 seq (''non-contiguous seq: expected '' @ itoa (int64 (w_prevSeq w + 1))
               @ '', got '' @ sq @ '' (middle deletion)''))
           else if \<not> w_start w \<and> row_PrevHash row \<noteq> w_prevRowHash w then
             Inl (walk_fail w0 seq (''prev_hash link broken at seq '' @ sq))
           else if \<not> w_start w \<and> expected \<noteq> Some (row_RowHash row) then
             Inl (walk_fail w0 seq (''row_hash mismatch at seq '' @ sq
               @ '' (row content edited or reordered)''))
           else if keyed row \<and> w_prevTS w \<noteq> [] \<and> row_Timestamp row \<noteq> []
                   \<and> row_Timestamp row < w_prevTS w then
             Inl (walk_fail w0 seq (''timestamp regression at seq '' @ sq @ '' ('' @ row_Timestamp row
               @ '' < '' @ w_prevTS w @ '') '' @ em_dash @ '' backdating''))
           else Inr (walk_next w row))"

definition VerifySealed_head :: "walk \<Rightarrow> Key option \<Rightarrow> Head option \<Rightarrow> Result" where
  "VerifySealed_head w key head =
     (case head of
        None \<Rightarrow> walk_done w
      | Some h \<Rightarrow>
          (case key of
             None \<Rightarrow> walk_fail w (head_HeadSeq h)
               ''high-water-mark present but no audit key configured to verify it''
           | Some k \<Rightarrow>
               if \<not> verifyHeadMAC k h then
                 walk_fail w (head_HeadSeq h) ''high-water-mark MAC invalid (HWM forged or wrong key)''
               else if w_headSeq w < head_HeadSeq h then
                 walk_fail w (head_HeadSeq h) (''tail truncation: live head seq '' @ itoa (w_headSeq w)
                   @ '' is below the recorded high-water-mark seq '' @ itoa (head_HeadSeq h))
               else if w_headSeq w = head_HeadSeq h \<and> w_headRowHash w \<noteq> head_HeadRowHash h then
                 walk_fail w (head_HeadSeq h)
                   (''head row_hash mismatch at high-water-mark seq '' @ itoa (head_HeadSeq h))
               else walk_done w))"

definition VerifySealed :: "Row list \<Rightarrow> Key option \<Rightarrow> Head option \<Rightarrow> Result" where
  "VerifySealed rows key head =
     (case walk_rows (VerifySealed_step key) walk_init rows of
        Inl res \<Rightarrow> res
      | Inr w \<Rightarrow> VerifySealed_head w key head)"

section \<open>What the walks accept\<close>

definition row_ok :: "Key option \<Rightarrow> Row \<Rightarrow> bool" where
  "row_ok key r \<longleftrightarrow> computeExpected key r = Some (row_RowHash r)"

definition seq_linked :: "Row \<Rightarrow> Row \<Rightarrow> bool" where
  "seq_linked a b \<longleftrightarrow> row_Seq b = int64 (row_Seq a + 1) \<and> row_PrevHash b = row_RowHash a"

definition seal_linked :: "Row \<Rightarrow> Row \<Rightarrow> bool" where
  "seal_linked a b \<longleftrightarrow> seq_linked a b \<and> (keyed a \<longrightarrow> keyed b) \<and>
     (keyed a \<and> keyed b \<and> row_Timestamp a \<noteq> [] \<and> row_Timestamp b \<noteq> []
       \<longrightarrow> row_Timestamp a \<le> row_Timestamp b)"

definition chain_valid :: "Key option \<Rightarrow> Row list \<Rightarrow> bool" where
  "chain_valid key rows \<longleftrightarrow> list_all (row_ok key) rows \<and> successively seal_linked rows"

definition head_accepts :: "Key option \<Rightarrow> Head option \<Rightarrow> int \<Rightarrow> string \<Rightarrow> bool" where
  "head_accepts key head seq hash \<longleftrightarrow>
     (case head of
        None \<Rightarrow> True
      | Some h \<Rightarrow> (\<exists>k. key = Some k \<and> verifyHeadMAC k h) \<and> head_HeadSeq h \<le> seq
                  \<and> (seq = head_HeadSeq h \<longrightarrow> hash = head_HeadRowHash h))"

definition chain_head :: "Row list \<Rightarrow> int \<times> string" where
  "chain_head rows = (if rows = [] then (0, []) else (row_Seq (last rows), row_RowHash (last rows)))"

definition accepted :: "Row list \<Rightarrow> Result" where
  "accepted rows = \<lparr>res_OK = True, res_RowsVerified = int (length rows), res_FirstBreakSeq = 0,
     res_Detail = [], res_CoversFromSeq = (if rows = [] then 0 else row_Seq (hd rows)),
     res_HeadSeq = fst (chain_head rows), res_HeadRowHash = snd (chain_head rows)\<rparr>"

lemma seal_linked_seq: "seal_linked a b \<Longrightarrow> seq_linked a b"
  by (simp add: seal_linked_def)

definition walk_at :: "walk \<Rightarrow> Row \<Rightarrow> bool" where
  "walk_at w a \<longleftrightarrow> \<not> w_start w \<and> w_prevSeq w = row_Seq a \<and> w_prevRowHash w = row_RowHash a
     \<and> w_prevTS w = (if keyed a then row_Timestamp a else []) \<and> w_sawKeyed w = keyed a
     \<and> w_headSeq w = row_Seq a \<and> w_headRowHash w = row_RowHash a"

lemma row_ok_key: "row_ok key r \<Longrightarrow> keyed r \<Longrightarrow> key \<noteq> None"
  by (auto simp: row_ok_def computeExpected_def)

lemma VerifySealed_step_first:
  "VerifySealed_step key walk_init r = Inr w \<longleftrightarrow> row_ok key r \<and> w = walk_next walk_init r"
  by (auto simp: VerifySealed_step_def Let_def walk_init_def row_ok_def computeExpected_def)

lemma VerifySealed_step_next:
  assumes "walk_at w a"
  shows "VerifySealed_step key w r = Inr w' \<longleftrightarrow> row_ok key r \<and> seal_linked a r \<and> w' = walk_next w r"
  using assms
  by (auto simp: VerifySealed_step_def Let_def walk_at_def row_ok_def computeExpected_def
      seal_linked_def seq_linked_def not_less)

lemma walk_at_next:
  "walk_at w a \<Longrightarrow> seal_linked a r \<Longrightarrow> walk_at (walk_next w r) r"
  "walk_at (walk_next walk_init r) r"
  by (auto simp: walk_at_def walk_next_def seal_linked_def walk_init_def)

lemma walk_rows_Cons_Inr:
  "walk_rows step w (r # rs) = Inr w' \<longleftrightarrow> (\<exists>v. step w r = Inr v \<and> walk_rows step v rs = Inr w')"
  by (auto split: sum.splits)

lemma walk_rows_sealed:
  assumes "walk_at w a"
  shows "walk_rows (VerifySealed_step key) w rows = Inr w' \<longleftrightarrow>
    list_all (row_ok key) rows \<and> successively seal_linked (a # rows) \<and> w' = foldl walk_next w rows"
  using assms
proof (induction rows arbitrary: w a)
  case (Cons r rows)
  show ?case
    using Cons.IH [OF walk_at_next(1) [OF Cons.prems]]
    by (auto simp del: walk_rows.simps(2)
        simp: walk_rows_Cons_Inr VerifySealed_step_next [OF Cons.prems])
qed auto

lemma foldl_walk_next_start: "\<not> w_start w \<Longrightarrow> \<not> w_start (foldl walk_next w rows)"
  by (induction rows arbitrary: w) (auto simp: walk_next_def)

lemma foldl_walk_next:
  assumes "\<not> w_start w"
  shows "w_count (foldl walk_next w rows) = w_count w + int (length rows)"
    "w_coversFrom (foldl walk_next w rows) = w_coversFrom w"
    "rows \<noteq> [] \<Longrightarrow> w_headSeq (foldl walk_next w rows) = row_Seq (last rows)"
    "rows \<noteq> [] \<Longrightarrow> w_headRowHash (foldl walk_next w rows) = row_RowHash (last rows)"
  using assms
  by (induction rows rule: rev_induct) (auto simp: walk_next_def foldl_walk_next_start)

lemma walk_sealed_done:
  "walk_rows (VerifySealed_step key) walk_init rows = Inr w \<longleftrightarrow>
     chain_valid key rows \<and> w = foldl walk_next walk_init rows"
proof (cases rows)
  case (Cons r rs)
  then show ?thesis
    by (auto simp del: walk_rows.simps(2) simp: walk_rows_Cons_Inr VerifySealed_step_first
        walk_rows_sealed [OF walk_at_next(2)] chain_valid_def)
qed (auto simp: chain_valid_def)

lemma walk_done_foldl: "walk_done (foldl walk_next walk_init rows) = accepted rows"
proof (cases rows)
  case (Cons r rs)
  have "\<not> w_start (walk_next walk_init r)" by (simp add: walk_next_def)
  note f = foldl_walk_next [OF this, of rs]
  show ?thesis
    using f by (cases "rs = []")
      (auto simp: Cons walk_done_def accepted_def chain_head_def walk_next_def walk_init_def)
qed (simp add: walk_done_def accepted_def chain_head_def walk_init_def)

lemma walk_head_foldl:
  "w_headSeq (foldl walk_next walk_init rows) = fst (chain_head rows)"
  "w_headRowHash (foldl walk_next walk_init rows) = snd (chain_head rows)"
  using walk_done_foldl [of rows] by (simp_all add: walk_done_def accepted_def)

lemma walk_rows_not_OK: "walk_rows (VerifySealed_step key) w rows = Inl res \<Longrightarrow> \<not> res_OK res"
  by (induction rows arbitrary: w)
     (auto simp: VerifySealed_step_def Let_def walk_fail_def split: sum.splits if_splits)

lemma VerifySealed_head_OK:
  "res_OK (VerifySealed_head w key head) \<longleftrightarrow> head_accepts key head (w_headSeq w) (w_headRowHash w)"
  "res_OK (VerifySealed_head w key head) \<Longrightarrow> VerifySealed_head w key head = walk_done w"
  by (auto simp: VerifySealed_head_def head_accepts_def walk_fail_def walk_done_def
      split: option.splits if_splits)

lemma VerifySealed_cases:
  obtains (bad) "\<not> chain_valid key rows" "\<not> res_OK (VerifySealed rows key head)"
  | (good) "chain_valid key rows"
      "VerifySealed rows key head = VerifySealed_head (foldl walk_next walk_init rows) key head"
proof (cases "walk_rows (VerifySealed_step key) walk_init rows")
  case (Inl res)
  then show ?thesis
    using bad walk_rows_not_OK [OF Inl]
      walk_sealed_done [of key rows "foldl walk_next walk_init rows"] by (simp add: VerifySealed_def)
next
  case (Inr w)
  then show ?thesis
    using good walk_sealed_done [of key rows w] by (simp add: VerifySealed_def)
qed

lemma VerifySealed_OK_iff:
  "res_OK (VerifySealed rows key head) \<longleftrightarrow>
     chain_valid key rows \<and> head_accepts key head (fst (chain_head rows)) (snd (chain_head rows))"
  by (cases rule: VerifySealed_cases [of key rows head])
     (simp_all add: VerifySealed_head_OK(1) walk_head_foldl)

lemma VerifySealed_accepted:
  "res_OK (VerifySealed rows key head) \<Longrightarrow> VerifySealed rows key head = accepted rows"
  by (cases rule: VerifySealed_cases [of key rows head])
     (simp_all add: VerifySealed_head_OK(2) walk_done_foldl)

section \<open>The unkeyed walk is the keyed one on unkeyed rows\<close>

definition same_outcome :: "Result \<Rightarrow> Result \<Rightarrow> bool" where
  "same_outcome a b \<longleftrightarrow> a\<lparr>res_Detail := []\<rparr> = b\<lparr>res_Detail := []\<rparr>"

lemma Verify_step_sealed:
  assumes "\<not> keyed r" "w_prevTS w = []" "\<not> w_sawKeyed w"
  shows "rel_sum same_outcome (=) (Verify_step w r) (VerifySealed_step key w r)"
  using assms
  by (simp add: Verify_step_def VerifySealed_step_def Let_def computeExpected_def legacy_hash_def
      walk_next_def same_outcome_def walk_fail_def)

lemma VerifySealed_step_unkeyed:
  "\<not> keyed r \<Longrightarrow> VerifySealed_step key w r = Inr w' \<Longrightarrow> \<not> w_sawKeyed w \<Longrightarrow>
     w_prevTS w' = [] \<and> \<not> w_sawKeyed w'"
  by (auto simp: VerifySealed_step_def Let_def walk_next_def split: if_splits)

lemma Verify_walk_sealed:
  assumes "list_all (\<lambda>r. \<not> keyed r) rows" "w_prevTS w = []" "\<not> w_sawKeyed w"
  shows "rel_sum same_outcome (=)
    (walk_rows Verify_step w rows) (walk_rows (VerifySealed_step key) w rows)"
  using assms
proof (induction rows arbitrary: w)
  case (Cons r rows)
  then have "\<not> keyed r" by simp
  note step = Verify_step_sealed [OF this Cons.prems(2,3), of key]
  note next' = VerifySealed_step_unkeyed [OF \<open>\<not> keyed r\<close> _ Cons.prems(3), of key]
  show ?case
    using step next' Cons.IH Cons.prems
    by (cases "Verify_step w r"; cases "VerifySealed_step key w r") auto
qed simp

lemma Verify_same_outcome:
  assumes "list_all (\<lambda>r. \<not> keyed r) rows"
  shows "same_outcome (Verify rows) (VerifySealed rows key None)"
proof -
  have "rel_sum same_outcome (=)
    (walk_rows Verify_step walk_init rows) (walk_rows (VerifySealed_step key) walk_init rows)"
    by (rule Verify_walk_sealed [OF assms]) (simp_all add: walk_init_def)
  then show ?thesis
    by (auto simp: Verify_def VerifySealed_def VerifySealed_head_def same_outcome_def
        split: sum.splits elim: rel_sum.cases)
qed

section \<open>Hash-linked histories\<close>

text \<open>The interface the chain needs from a row scheme: an unambiguous encoding of a content together
  with the previous link, and some digest of encodings.  Histories of equal length that end in the
  same link are equal, or two of the encodings on the way collide.\<close>

locale link_scheme =
  fixes encode :: "'c \<Rightarrow> string \<Rightarrow> 'm"
    and digest :: "'m \<Rightarrow> string"
  assumes encode_inject: "encode c p = encode d q \<Longrightarrow> c = d \<and> p = q"
begin

definition link :: "'c \<Rightarrow> string \<Rightarrow> string" where
  "link c p = digest (encode c p)"

primrec links :: "string \<Rightarrow> 'c list \<Rightarrow> string" where
  "links p [] = p"
| "links p (c # cs) = links (link c p) cs"

primrec encodings :: "string \<Rightarrow> 'c list \<Rightarrow> 'm list" where
  "encodings p [] = []"
| "encodings p (c # cs) = encode c p # encodings (link c p) cs"

lemma links_snoc: "links p (cs @ [c]) = link c (links p cs)"
  by (induction cs arbitrary: p) simp_all

lemma encodings_snoc: "encodings p (cs @ [c]) = encodings p cs @ [encode c (links p cs)]"
  by (induction cs arbitrary: p) simp_all

lemma same_history_or_collision:
  assumes "length cs = length ds" "links p cs = links q ds"
  shows "cs = ds \<and> p = q \<or>
    (\<exists>x \<in> set (encodings p cs). \<exists>y \<in> set (encodings q ds). x \<noteq> y \<and> digest x = digest y)"
  using assms
proof (induction cs arbitrary: ds rule: rev_induct)
  case (snoc c cs)
  obtain d es where ds: "ds = es @ [d]" using snoc.prems by (cases ds rule: rev_cases) auto
  let ?x = "encode c (links p cs)" and ?y = "encode d (links q es)"
  have eq: "digest ?x = digest ?y" using snoc.prems by (simp add: ds links_snoc link_def)
  show ?case
  proof (cases "?x = ?y")
    case True
    then have "c = d" "links p cs = links q es" using encode_inject by blast+
    then show ?thesis using snoc.IH [of es] snoc.prems by (auto simp: ds encodings_snoc)
  next
    case False
    with eq show ?thesis by (auto simp: ds encodings_snoc)
  qed
qed simp

end

section \<open>The row encodings are unambiguous\<close>

lemma append_sep_eq:
  assumes "a @ c # x = b @ c # y" "c \<notin> set a" "c \<notin> set b"
  shows "a = b" "x = y"
proof -
  have tw: "takeWhile (\<lambda>d. d \<noteq> c) (z @ c # v) = z" if "c \<notin> set z" for z v
    using that by (induction z) auto
  show "a = b" using tw [OF assms(2)] tw [OF assms(3)] assms(1) by metis
  then show "x = y" using assms(1) by simp
qed

lemma writeField_append [simp]: "writeField s @ x = writeField t @ y \<longleftrightarrow> s = t \<and> x = y"
proof
  assume *: "writeField s @ x = writeField t @ y"
  have nc: "CHR '':'' \<notin> set (itoa (int n))" for n by (simp add: itoa_def)
  have "itoa (int (length s)) @ CHR '':'' # s @ x = itoa (int (length t)) @ CHR '':'' # t @ y"
    using * by (simp add: writeField_def)
  from append_sep_eq [OF this nc nc] have "length s = length t" "s @ x = t @ y" by simp_all
  then show "s = t \<and> x = y" by simp
qed simp

lemma writeField_inj [simp]: "writeField s = writeField t \<longleftrightarrow> s = t"
  using writeField_append [of s "[]" t "[]"] by simp

datatype content =
    Legacy_Content string string string string string string string string int
  | Keyed_Content string string string string string string string string string int

fun seal_encode :: "content \<Rightarrow> string \<Rightarrow> bool \<times> string" where
  "seal_encode (Legacy_Content a b c d e f g h n) p = (False, legacy_preimage a b c d e f g h n p)"
| "seal_encode (Keyed_Content a b c d e f g h ts n) p = (True, keyed_preimage a b c d e f g h ts n p)"

definition seal_digest :: "Key option \<Rightarrow> bool \<times> string \<Rightarrow> string" where
  "seal_digest key m =
     (if fst m then (case key of None \<Rightarrow> [] | Some k \<Rightarrow> hex_encode (hmac_sha256 (raw k) (snd m)))
      else hex_encode (sha256 (snd m)))"

interpretation seal: link_scheme seal_encode "seal_digest key" for key
proof
  show "c = d \<and> p = q" if "seal_encode c p = seal_encode d q" for c d p q
    using that by (cases c; cases d) (simp_all add: legacy_preimage_def keyed_preimage_def)
qed

definition row_content :: "Row \<Rightarrow> content" where
  "row_content r =
     (if keyed r
      then Keyed_Content (row_ID r) (row_Actor r) (row_EventType r) (row_TargetType r) (row_TargetID r)
             (row_Action r) (row_Payload r) (row_Tenant r) (row_Timestamp r) (row_Seq r)
      else Legacy_Content (row_ID r) (row_Actor r) (row_EventType r) (row_TargetType r) (row_TargetID r)
             (row_Action r) (row_Payload r) (row_Tenant r) (row_Seq r))"

definition row_preimage :: "Row \<Rightarrow> bool \<times> string" where
  "row_preimage r = seal_encode (row_content r) (row_PrevHash r)"

lemma row_ok_link: "row_ok key r \<Longrightarrow> row_RowHash r = seal_digest key (row_preimage r)"
  by (auto simp: row_ok_def computeExpected_def seal_digest_def row_preimage_def row_content_def
      RowHash_def RowHashV2_def split: if_splits)

lemma chain_links:
  assumes "list_all (row_ok key) rows" "successively seq_linked rows" "rows \<noteq> []"
  shows "seal.links key (row_PrevHash (hd rows)) (map row_content rows) = row_RowHash (last rows)"
    "seal.encodings key (row_PrevHash (hd rows)) (map row_content rows) = map row_preimage rows"
proof -
  have link: "seal.link key (row_content r) (row_PrevHash r) = row_RowHash r" if "row_ok key r" for r
    using row_ok_link [OF that] by (simp add: seal.link_def row_preimage_def)
  have "seal.links key (row_PrevHash (hd rows)) (map row_content rows) = row_RowHash (last rows)
    \<and> seal.encodings key (row_PrevHash (hd rows)) (map row_content rows) = map row_preimage rows"
    using assms
  proof (induction rows)
    case (Cons r rows)
    then show ?case using link [of r] by (cases rows) (auto simp: seq_linked_def row_preimage_def)
  qed simp
  then show "seal.links key (row_PrevHash (hd rows)) (map row_content rows) = row_RowHash (last rows)"
    "seal.encodings key (row_PrevHash (hd rows)) (map row_content rows) = map row_preimage rows"
    by auto
qed

lemma chain_valid_links: "chain_valid key rows \<Longrightarrow> list_all (row_ok key) rows \<and> successively seq_linked rows"
  unfolding chain_valid_def using successively_mono [of seal_linked rows seq_linked]
  by (auto intro: seal_linked_seq)

lemma chain_tamper_evident:
  assumes "chain_valid key rows" "chain_valid key rows'" "length rows = length rows'"
    and "snd (chain_head rows) = snd (chain_head rows')"
  shows "map row_content rows = map row_content rows' \<or>
    (\<exists>r \<in> set rows. \<exists>r' \<in> set rows'. row_preimage r \<noteq> row_preimage r' \<and> row_RowHash r = row_RowHash r')"
proof (cases "rows = []")
  case False
  then have "rows' \<noteq> []" using assms(3) by auto
  note ok = chain_valid_links [OF assms(1)] chain_valid_links [OF assms(2)]
  have "seal.links key (row_PrevHash (hd rows)) (map row_content rows)
      = seal.links key (row_PrevHash (hd rows')) (map row_content rows')"
    using assms(4) False \<open>rows' \<noteq> []\<close> ok by (simp add: chain_links chain_head_def)
  note split = seal.same_history_or_collision [OF _ this]
  have enc: "seal.encodings key (row_PrevHash (hd rows)) (map row_content rows) = map row_preimage rows"
    "seal.encodings key (row_PrevHash (hd rows')) (map row_content rows') = map row_preimage rows'"
    using False \<open>rows' \<noteq> []\<close> ok by (simp_all add: chain_links(2))
  consider "map row_content rows = map row_content rows'"
    | x y where "x \<in> set (map row_preimage rows)" "y \<in> set (map row_preimage rows')" "x \<noteq> y"
        "seal_digest key x = seal_digest key y"
    using split [unfolded enc] assms(3) unfolding length_map by blast
  then show ?thesis
  proof cases
    case 2
    then obtain r r' where "r \<in> set rows" "r' \<in> set rows'" "x = row_preimage r" "y = row_preimage r'"
      by auto
    moreover from this have "row_RowHash r = seal_digest key x" "row_RowHash r' = seal_digest key y"
      using ok by (auto simp: list_all_iff row_ok_link)
    ultimately show ?thesis using 2(3,4) by metis
  qed simp
qed (use assms in simp)

section \<open>Properties of the chain\<close>

text \<open>C25: the keyed walk accepts exactly the chains in which every row re-hashes to its stored hash
  under its own scheme, neighbours are contiguous, linked, never fall back to the unkeyed scheme and
  never run backwards in time, and whose newest row is compatible with an authentic high-water mark;
  and what it then reports is the length, the first sequence number and the newest row.\<close>

theorem VerifySealed_accepts_exactly:
  "(res_OK (VerifySealed rows key head) \<longleftrightarrow>
      chain_valid key rows \<and> head_accepts key head (fst (chain_head rows)) (snd (chain_head rows)))
   \<and> (VerifySealed rows key head = accepted rows \<longleftrightarrow> res_OK (VerifySealed rows key head))"
  using VerifySealed_OK_iff [of rows key head] VerifySealed_accepted [of rows key head]
  by (auto simp: accepted_def)

text \<open>C26: tamper evidence.  If two row sequences of the same length pass verification and end in the
  same row hash, then every hashed field of every row agrees, unless two concrete rows among them
  carry the same hash for different hash inputs, that is, a collision of SHA-256 or HMAC-SHA256.\<close>

theorem VerifySealed_tamper_evident:
  assumes "res_OK (VerifySealed rows key head)" "res_OK (VerifySealed rows' key head')"
    and "res_RowsVerified (VerifySealed rows key head) = res_RowsVerified (VerifySealed rows' key head')"
    and "res_HeadRowHash (VerifySealed rows key head) = res_HeadRowHash (VerifySealed rows' key head')"
  shows "map row_content rows = map row_content rows' \<or>
    (\<exists>r \<in> set rows. \<exists>r' \<in> set rows'. row_preimage r \<noteq> row_preimage r' \<and> row_RowHash r = row_RowHash r')"
proof (rule chain_tamper_evident)
  show "chain_valid key rows" "chain_valid key rows'"
    using assms(1,2) by (simp_all add: VerifySealed_OK_iff)
  show "length rows = length rows'" "snd (chain_head rows) = snd (chain_head rows')"
    using assms(3,4) VerifySealed_accepted [OF assms(1)] VerifySealed_accepted [OF assms(2)]
    by (simp_all add: accepted_def)
qed

definition sample_row :: Row where
  "sample_row =
     (let r = \<lparr>row_ID = ''e1'', row_Actor = ''system'', row_EventType = ''rollout.started'',
        row_TargetType = ''rollout'', row_TargetID = ''r1'', row_Action = ''started'',
        row_Payload = [], row_Tenant = ''default'', row_Seq = 1, row_PrevHash = [],
        row_RowHash = [], row_Timestamp = [], row_Algo = AlgoLegacySHA256\<rparr>
      in r\<lparr>row_RowHash := legacy_hash r\<rparr>)"

lemma sample_row_valid:
  "chain_valid key [sample_row\<lparr>row_Timestamp := ts\<rparr>]" "\<not> keyed sample_row"
  by (simp_all add: chain_valid_def row_ok_def computeExpected_def sample_row_def Let_def legacy_hash_def
      AlgoLegacySHA256_def AlgoHMACSHA256_def)

lemma sample_row_accepted:
  "VerifySealed [sample_row\<lparr>row_Timestamp := ts\<rparr>] key None = accepted [sample_row\<lparr>row_Timestamp := ts\<rparr>]"
  by (rule VerifySealed_accepted) (simp add: VerifySealed_OK_iff sample_row_valid head_accepts_def)

theorem VerifySealed_tamper_evident_witness:
  "map row_content [sample_row\<lparr>row_Timestamp := ''x''\<rparr>] = map row_content [sample_row\<lparr>row_Timestamp := ''y''\<rparr>] \<or>
    (\<exists>r \<in> set [sample_row\<lparr>row_Timestamp := ''x''\<rparr>]. \<exists>r' \<in> set [sample_row\<lparr>row_Timestamp := ''y''\<rparr>].
       row_preimage r \<noteq> row_preimage r' \<and> row_RowHash r = row_RowHash r')"
  by (rule VerifySealed_tamper_evident [of _ None None _ None])
     (simp_all add: sample_row_accepted accepted_def chain_head_def)

text \<open>the one-way cutover.  An accepted chain is a stretch of unkeyed rows followed by a stretch of
  keyed rows; no keyed row is ever followed by a forgeable one.\<close>

theorem VerifySealed_one_way:
  assumes "res_OK (VerifySealed rows key head)"
  shows "\<exists>old new. rows = old @ new \<and> list_all (\<lambda>r. \<not> keyed r) old \<and> list_all keyed new"
proof -
  have "successively seal_linked rows"
    using assms by (simp add: VerifySealed_OK_iff chain_valid_def)
  then have "successively (\<lambda>a b. keyed a \<longrightarrow> keyed b) rows"
    by (rule successively_mono) (simp add: seal_linked_def)
  then show ?thesis
  proof (induction rows)
    case (Cons r rows)
    have tail: "successively (\<lambda>a b. keyed a \<longrightarrow> keyed b) rows" using Cons.prems by (cases rows) auto
    then obtain old new where split: "rows = old @ new" "list_all (\<lambda>r. \<not> keyed r) old" "list_all keyed new"
      using Cons.IH by blast
    show ?case
    proof (cases "keyed r")
      case True
      then have "old = []" using Cons.prems split by (cases old) auto
      then have "r # rows = [] @ (r # new) \<and> list_all (\<lambda>r. \<not> keyed r) [] \<and> list_all keyed (r # new)"
        using True split by simp
      then show ?thesis by blast
    next
      case False
      then have "r # rows = (r # old) @ new \<and> list_all (\<lambda>r. \<not> keyed r) (r # old) \<and> list_all keyed new"
        using split by simp
      then show ?thesis by blast
    qed
  qed simp
qed

theorem VerifySealed_one_way_witness:
  "\<exists>old new. [sample_row\<lparr>row_Timestamp := []\<rparr>] = old @ new \<and> list_all (\<lambda>r. \<not> keyed r) old \<and> list_all keyed new"
  by (rule VerifySealed_one_way [of _ None None]) (simp add: sample_row_accepted accepted_def)

text \<open>on rows sealed before the cutover the keyed walk without a high-water mark decides exactly
  like the original walk, whether or not a key is configured: same verdict, same count, same first
  break, same head (only the wording of the detail may differ).\<close>

theorem Verify_agrees_on_unkeyed_rows:
  assumes "list_all (\<lambda>r. \<not> keyed r) rows"
  shows "same_outcome (Verify rows) (VerifySealed rows key None)"
  using assms by (rule Verify_same_outcome)

theorem Verify_agrees_on_unkeyed_rows_witness:
  "list_all (\<lambda>r. \<not> keyed r) [sample_row, sample_row] \<and>
   same_outcome (Verify [sample_row, sample_row]) (VerifySealed [sample_row, sample_row] None None)"
  using Verify_agrees_on_unkeyed_rows [of "[sample_row, sample_row]" None] sample_row_valid(2) by simp

text \<open>canonical timestamps compare like the instants they render.  For instants in the years 1 to
  9999 the lexical order of the rendered strings is the chronological order at microsecond
  precision, which is what the backdating check of the walk relies on.\<close>

theorem CanonicalTimestamp_order:
  assumes "representable s" "representable t"
  shows "CanonicalTimestamp s < CanonicalTimestamp t \<longleftrightarrow> s div microsecond < t div microsecond"
proof -
  have less: "CanonicalTimestamp u < CanonicalTimestamp v"
    if "representable u" "representable v" "u div microsecond < v div microsecond" for u v
  proof -
    let ?u = "Truncate u microsecond" and ?v = "Truncate v microsecond"
    have tr: "Truncate w microsecond = microsecond * (w div microsecond)" for w
      by (simp add: Truncate_def minus_mod_eq_mult_div)
    have r: "representable ?u" "representable ?v"
      using that(1,2) unfolding representable_def tr by (auto simp: zdiv_mono1)
    show ?thesis
      unfolding CanonicalTimestamp_def
      by (rule format_micros_less [OF r]) (use that(3) in \<open>simp_all add: tr\<close>)
  qed
  have "CanonicalTimestamp s = CanonicalTimestamp t" if "s div microsecond = t div microsecond"
    using that by (simp add: CanonicalTimestamp_def Truncate_def minus_mod_eq_mult_div)
  then show ?thesis
    using less [OF assms] less [OF assms(2,1)] by (metis linorder_neqE order_less_asym)
qed

theorem CanonicalTimestamp_order_witness:
  "representable 1000 \<and> representable 63850000000000000000 \<and>
   (CanonicalTimestamp 1000 < CanonicalTimestamp 63850000000000000000
      \<longleftrightarrow> 1000 div microsecond < 63850000000000000000 div microsecond)"
  using CanonicalTimestamp_order [of 1000 63850000000000000000] by (simp add: representable_def)

text \<open>a key that the environment yields is never shorter than 256 bits, and a value that is set
  but unusable is an error rather than a silent fall-back to the unkeyed chain.\<close>

theorem LoadKeyFromEnv_sound:
  "(case LoadKeyFromEnv v of
      (Some k, present, err) \<Rightarrow> present \<and> err = None \<and> 32 \<le> length (raw k)
    | (None, present, err) \<Rightarrow> present = (TrimSpace v \<noteq> []) \<and> (err \<noteq> None) = present)"
  by (auto simp: LoadKeyFromEnv_def Let_def NewKey_def auditKeyMinLen_def split: option.split sum.split)

end
