(* ===== verification/Audit_Store.thy ===== *)
theory Audit_Store
  imports Audit_Chain
begin

text \<open>
  The audit log of the in-memory application store and the audit service on top of it:
  \<open>memory.go\<close> (\<open>CreateAuditEvent\<close>, \<open>ListAuditEvents\<close>, \<open>GetAuditEvent\<close>,
  \<open>UpdateAuditEventExplanation\<close>), \<open>memory/audit_chain.go\<close> and \<open>services/audit_service_impl.go\<close>.
  The JSON rendering of a payload is a parameter of the append path: the chain only needs the bytes.
\<close>

section \<open>Contexts and actors\<close>

record AuthActor =
  TokenID :: string
  TokenLabel :: string
  actor_Scopes :: "string list"
  actor_Tenant :: string

record Ctx =
  ctx_tenant :: string
  ctx_actor :: AuthActor

definition DefaultTenant :: string where
  "DefaultTenant = ''default''"

definition TenantFromContext :: "Ctx \<Rightarrow> string" where
  "TenantFromContext ctx = (if ctx_tenant ctx = [] then DefaultTenant else ctx_tenant ctx)"

definition actor_String :: "AuthActor \<Rightarrow> string" where
  "actor_String a = (if TokenLabel a = [] then ''system'' else ''operator:'' @ TokenLabel a)"

definition actor_IsZero :: "AuthActor \<Rightarrow> bool" where
  "actor_IsZero a \<longleftrightarrow> TokenID a = [] \<and> TokenLabel a = []"

definition background_ctx :: Ctx where
  "background_ctx = \<lparr>ctx_tenant = [], ctx_actor = \<lparr>TokenID = [], TokenLabel = [], actor_Scopes = [], actor_Tenant = []\<rparr>\<rparr>"

section \<open>Store state\<close>

record AuditEvent =
  ae_ID :: string
  ae_Timestamp :: gotime
  ae_Actor :: string
  ae_EventType :: string
  ae_TargetType :: string
  ae_TargetID :: string
  ae_Action :: string
  ae_Payload :: "payload option"
  ae_CreatedAt :: gotime
  ae_Env :: string
  ae_Cluster :: string
  ae_AIExplanation :: string
  ae_AIExplanationModel :: string
  ae_AIExplanationGeneratedAt :: "gotime option"

record memAuditChainRow =
  mr_id :: string
  mr_actor :: string
  mr_eventType :: string
  mr_targetType :: string
  mr_targetID :: string
  mr_action :: string
  mr_payloadStr :: string
  mr_seq :: int
  mr_prevHash :: string
  mr_rowHash :: string
  mr_timestamp :: string
  mr_algo :: string

record AuditCheckpoint =
  cp_Tenant :: string
  cp_CheckpointSeq :: int
  cp_CheckpointRowHash :: string
  cp_RowsPruned :: int
  cp_Kind :: string
  cp_CreatedAt :: gotime
  cp_SealedSig :: string

text \<open>A missing entry of the Go map of chains reads as the empty slice.\<close>

record AuditStore =
  auditEvents :: "AuditEvent list"
  auditChains :: "string \<Rightarrow> memAuditChainRow list"
  auditHead :: "string \<Rightarrow> Head option"
  auditKey :: "Key option"
  auditCheckpoints :: "string \<Rightarrow> (int \<times> AuditCheckpoint) list"

definition empty_audit :: AuditStore where
  "empty_audit = \<lparr>auditEvents = [], auditChains = (\<lambda>_. []), auditHead = (\<lambda>_. None), auditKey = None,
     auditCheckpoints = (\<lambda>_. [])\<rparr>"

section \<open>Appending\<close>

definition SetAuditChainKey :: "AuditStore \<Rightarrow> Key option \<Rightarrow> AuditStore" where
  "SetAuditChainKey st k = st\<lparr>auditKey := k\<rparr>"

definition event_instant :: "AuditEvent \<Rightarrow> gotime" where
  "event_instant e = (if IsZero (ae_Timestamp e) then ae_CreatedAt e else ae_Timestamp e)"

definition next_row ::
  "Key option \<Rightarrow> string \<Rightarrow> memAuditChainRow list \<Rightarrow> AuditEvent \<Rightarrow> string \<Rightarrow> memAuditChainRow" where
  "next_row key tenant tenantChain e payloadStr =
     (let prevSeq = (if tenantChain = [] then 0 else mr_seq (last tenantChain));
          prevHash = (if tenantChain = [] then [] else mr_rowHash (last tenantChain));
          seq = int64 (prevSeq + 1);
          canonTS = CanonicalTimestamp (event_instant e);
          rowHash = (case key of
             Some k \<Rightarrow> RowHashV2 k (ae_ID e) (ae_Actor e) (ae_EventType e) (ae_TargetType e)
               (ae_TargetID e) (ae_Action e) payloadStr tenant canonTS seq prevHash
           | None \<Rightarrow> RowHash (ae_ID e) (ae_Actor e) (ae_EventType e) (ae_TargetType e)
               (ae_TargetID e) (ae_Action e) payloadStr tenant seq prevHash)
      in \<lparr>mr_id = ae_ID e, mr_actor = ae_Actor e, mr_eventType = ae_EventType e,
          mr_targetType = ae_TargetType e, mr_targetID = ae_TargetID e, mr_action = ae_Action e,
          mr_payloadStr = payloadStr, mr_seq = seq, mr_prevHash = prevHash, mr_rowHash = rowHash,
          mr_timestamp = canonTS,
          mr_algo = (if key = None then AlgoLegacySHA256 else AlgoHMACSHA256)\<rparr>)"

definition CreateAuditEvent ::
  "(payload \<Rightarrow> string) \<Rightarrow> Ctx \<Rightarrow> AuditEvent \<Rightarrow> AuditStore \<Rightarrow> AuditStore" where
  "CreateAuditEvent marshal ctx e st =
     (let tenant = TenantFromContext ctx;
          payloadStr = (case ae_Payload e of None \<Rightarrow> [] | Some p \<Rightarrow> marshal p);
          tenantChain = auditChains st tenant;
          row = next_row (auditKey st) tenant tenantChain e payloadStr;
          st1 = st\<lparr>auditEvents := auditEvents st @ [e],
                   auditChains := (auditChains st)(tenant := tenantChain @ [row])\<rparr>
      in case auditKey st of
           None \<Rightarrow> st1
         | Some k \<Rightarrow> st1\<lparr>auditHead := (auditHead st)(tenant \<mapsto>
             \<lparr>head_Tenant = tenant, head_HeadSeq = mr_seq row, head_HeadRowHash = mr_rowHash row,
              head_MAC = HeadMAC k tenant (mr_seq row) (mr_rowHash row)\<rparr>)\<rparr>)"

section \<open>Reading\<close>

definition to_row :: "string \<Rightarrow> memAuditChainRow \<Rightarrow> Row" where
  "to_row tenant row =
     \<lparr>row_ID = mr_id row, row_Actor = mr_actor row, row_EventType = mr_eventType row,
      row_TargetType = mr_targetType row, row_TargetID = mr_targetID row, row_Action = mr_action row,
      row_Payload = mr_payloadStr row, row_Tenant = tenant, row_Seq = mr_seq row,
      row_PrevHash = mr_prevHash row, row_RowHash = mr_rowHash row, row_Timestamp = mr_timestamp row,
      row_Algo = mr_algo row\<rparr>"

definition ListAuditChainRows :: "Ctx \<Rightarrow> AuditStore \<Rightarrow> Row list" where
  "ListAuditChainRows ctx st =
     (let tenant = TenantFromContext ctx in map (to_row tenant) (auditChains st tenant))"

record AuditChainVerification =
  ver_OK :: bool
  ver_RowsVerified :: int
  ver_FirstBreakSeq :: int
  ver_Detail :: string
  ver_CoversFromSeq :: int
  ver_HeadSeq :: int
  ver_HeadRowHash :: string
  ver_AnchoredByCheckpoint :: bool
  ver_CheckpointSeq :: int
  ver_Keyed :: bool
  ver_HighWaterMarkSeq :: int

definition VerifyAuditChain :: "Ctx \<Rightarrow> AuditStore \<Rightarrow> AuditChainVerification" where
  "VerifyAuditChain ctx st =
     (let tenant = TenantFromContext ctx;
          rows = map (to_row tenant) (auditChains st tenant);
          head = auditHead st tenant;
          res = VerifySealed rows (auditKey st) head
      in \<lparr>ver_OK = res_OK res, ver_RowsVerified = res_RowsVerified res,
          ver_FirstBreakSeq = res_FirstBreakSeq res, ver_Detail = res_Detail res,
          ver_CoversFromSeq = res_CoversFromSeq res, ver_HeadSeq = res_HeadSeq res,
          ver_HeadRowHash = res_HeadRowHash res, ver_AnchoredByCheckpoint = False,
          ver_CheckpointSeq = 0, ver_Keyed = (auditKey st \<noteq> None),
          ver_HighWaterMarkSeq = (case head of None \<Rightarrow> 0 | Some h \<Rightarrow> head_HeadSeq h)\<rparr>)"

definition WriteAuditCheckpoint :: "AuditCheckpoint \<Rightarrow> AuditStore \<Rightarrow> AuditStore" where
  "WriteAuditCheckpoint cp st =
     st\<lparr>auditCheckpoints := (auditCheckpoints st)(cp_Tenant cp :=
          AList.update (cp_CheckpointSeq cp) cp (auditCheckpoints st (cp_Tenant cp)))\<rparr>"

definition ListAuditCheckpoints :: "string \<Rightarrow> AuditStore \<Rightarrow> AuditCheckpoint list" where
  "ListAuditCheckpoints tenant st =
     sort_key (\<lambda>cp. - cp_CheckpointSeq cp) (map snd (auditCheckpoints st tenant))"

record AuditEventFilter =
  af_EventType :: string
  af_TargetType :: string
  af_TargetID :: string
  af_Actor :: string
  af_Since :: gotime
  af_Until :: gotime
  af_Limit :: int
  af_Env :: string
  af_Cluster :: string

definition audit_matches :: "AuditEventFilter \<Rightarrow> AuditEvent \<Rightarrow> bool" where
  "audit_matches f e \<longleftrightarrow>
     \<not> (af_EventType f \<noteq> [] \<and> ae_EventType e \<noteq> af_EventType f) \<and>
     \<not> (af_TargetType f \<noteq> [] \<and> ae_TargetType e \<noteq> af_TargetType f) \<and>
     \<not> (af_TargetID f \<noteq> [] \<and> ae_TargetID e \<noteq> af_TargetID f) \<and>
     \<not> (af_Actor f \<noteq> [] \<and> ae_Actor e \<noteq> af_Actor f) \<and>
     \<not> (af_Env f \<noteq> [] \<and> ae_Env e \<noteq> af_Env f) \<and>
     \<not> (af_Cluster f \<noteq> [] \<and> ae_Cluster e \<noteq> af_Cluster f) \<and>
     \<not> (\<not> IsZero (af_Since f) \<and> ae_Timestamp e < af_Since f) \<and>
     \<not> (\<not> IsZero (af_Until f) \<and> \<not> ae_Timestamp e < af_Until f)"

text \<open>The reverse loop over the log; \<open>out\<close> holds the events accumulated so far.\<close>

fun list_audit_loop :: "AuditEventFilter \<Rightarrow> int \<Rightarrow> AuditEvent list \<Rightarrow> AuditEvent list \<Rightarrow> AuditEvent list" where
  "list_audit_loop f limit out [] = out"
| "list_audit_loop f limit out (e # es) =
     (if audit_matches f e then
        if limit \<le> int (length (out @ [e])) then out @ [e]
        else list_audit_loop f limit (out @ [e]) es
      else list_audit_loop f limit out es)"

definition ListAuditEvents :: "AuditEventFilter \<Rightarrow> AuditStore \<Rightarrow> AuditEvent list" where
  "ListAuditEvents f st =
     (let limit = (if af_Limit f \<le> 0 then 100 else af_Limit f);
          limit = (if 1000 < limit then 1000 else limit)
      in list_audit_loop f limit [] (rev (auditEvents st)))"

definition GetAuditEvent :: "string \<Rightarrow> AuditStore \<Rightarrow> AuditEvent option" where
  "GetAuditEvent eid st = find (\<lambda>e. ae_ID e = eid) (auditEvents st)"

fun explain_first :: "string \<Rightarrow> string \<Rightarrow> string \<Rightarrow> gotime \<Rightarrow> AuditEvent list \<Rightarrow> AuditEvent list option" where
  "explain_first eid explanation model t [] = None"
| "explain_first eid explanation model t (e # es) =
     (if ae_ID e = eid
      then Some (e\<lparr>ae_AIExplanation := explanation, ae_AIExplanationModel := model,
                   ae_AIExplanationGeneratedAt := Some t\<rparr> # es)
      else map_option ((#) e) (explain_first eid explanation model t es))"

text \<open>The identifier is quoted in the message; it is an identifier without characters that \<open>%q\<close> would escape.\<close>

definition UpdateAuditEventExplanation ::
  "string \<Rightarrow> string \<Rightarrow> string \<Rightarrow> gotime \<Rightarrow> AuditStore \<Rightarrow> string + AuditStore" where
  "UpdateAuditEventExplanation eid explanation model generatedAt st =
     (case explain_first eid explanation model generatedAt (auditEvents st) of
        None \<Rightarrow> Inl (''audit event '' @ [CHR 0x22] @ eid @ [CHR 0x22] @ '' not found'')
      | Some es \<Rightarrow> Inr (st\<lparr>auditEvents := es\<rparr>))"

section \<open>The audit service\<close>

record AuditEntry =
  en_Actor :: string
  en_EventType :: string
  en_TargetType :: string
  en_TargetID :: string
  en_Action :: string
  en_Payload :: "payload option"

text \<open>\<open>AuditServiceImpl.Record\<close> up to the fan-out to the broker, self-telemetry and the SIEM, which
  receive copies of the stored event.  The identifier, the clock reading and the optional label
  resolver are arguments.\<close>

definition Record ::
  "(payload \<Rightarrow> string) \<Rightarrow> (string \<Rightarrow> string \<times> string) option \<Rightarrow> string \<Rightarrow> gotime \<Rightarrow> Ctx \<Rightarrow> AuditEntry
     \<Rightarrow> AuditStore \<Rightarrow> AuditStore" where
  "Record marshal labelResolver uuid now ctx entry st =
     (let actor = (if actor_IsZero (ctx_actor ctx) then en_Actor entry else actor_String (ctx_actor ctx));
          (env, cluster) = (case labelResolver of
             Some f \<Rightarrow> if en_TargetType entry = ''agent'' \<and> en_TargetID entry \<noteq> []
                       then f (en_TargetID entry) else ([], [])
           | None \<Rightarrow> ([], []))
      in CreateAuditEvent marshal ctx
           \<lparr>ae_ID = uuid, ae_Timestamp = now, ae_Actor = actor, ae_EventType = en_EventType entry,
            ae_TargetType = en_TargetType entry, ae_TargetID = en_TargetID entry,
            ae_Action = en_Action entry, ae_Payload = en_Payload entry, ae_CreatedAt = now,
            ae_Env = env, ae_Cluster = cluster, ae_AIExplanation = [], ae_AIExplanationModel = [],
            ae_AIExplanationGeneratedAt = None\<rparr> st)"

section \<open>The store invariant\<close>

definition tenant_rows :: "AuditStore \<Rightarrow> string \<Rightarrow> Row list" where
  "tenant_rows st tn = map (to_row tn) (auditChains st tn)"

definition head_current :: "Key option \<Rightarrow> Head option \<Rightarrow> Row list \<Rightarrow> bool" where
  "head_current key head rows \<longleftrightarrow>
     (case head of
        None \<Rightarrow> True
      | Some h \<Rightarrow> (\<exists>k. key = Some k \<and> verifyHeadMAC k h) \<and> rows \<noteq> []
                  \<and> (head_HeadSeq h, head_HeadRowHash h) = chain_head rows)"

definition numbered :: "Row list \<Rightarrow> bool" where
  "numbered rows \<longleftrightarrow> (\<forall>i < length rows. row_Seq (rows ! i) = int64 (int i + 1))"

definition audit_inv :: "AuditStore \<Rightarrow> bool" where
  "audit_inv st \<longleftrightarrow> (\<forall>tn. chain_valid (auditKey st) (tenant_rows st tn) \<and> numbered (tenant_rows st tn)
     \<and> head_current (auditKey st) (auditHead st tn) (tenant_rows st tn))"

text \<open>The clock condition of an append: a keyed chain does not go back in time.\<close>

definition clock_ok :: "AuditStore \<Rightarrow> Ctx \<Rightarrow> AuditEvent \<Rightarrow> bool" where
  "clock_ok st ctx e \<longleftrightarrow>
     (let c = auditChains st (TenantFromContext ctx)
      in auditKey st = None \<or> c = [] \<or> mr_timestamp (last c) \<le> CanonicalTimestamp (event_instant e))"

lemma row_ok_next_row: "row_ok key (to_row tn (next_row key tn c e p))"
  by (cases key) (simp_all add: row_ok_def computeExpected_def to_row_def next_row_def Let_def
      AlgoLegacySHA256_def AlgoHMACSHA256_def)

lemma keyed_next_row [simp]: "keyed (to_row tn (next_row key tn c e p)) \<longleftrightarrow> key \<noteq> None"
  by (simp add: to_row_def next_row_def Let_def AlgoLegacySHA256_def AlgoHMACSHA256_def)

lemma seq_next_row:
  "mr_seq (next_row key tn c e p) = int64 ((if c = [] then 0 else mr_seq (last c)) + 1)"
  "mr_timestamp (next_row key tn c e p) = CanonicalTimestamp (event_instant e)"
  "mr_prevHash (next_row key tn c e p) = (if c = [] then [] else mr_rowHash (last c))"
  by (simp_all add: next_row_def Let_def)

lemma chain_valid_snoc:
  "chain_valid key (rows @ [r]) \<longleftrightarrow>
     chain_valid key rows \<and> row_ok key r \<and> (rows \<noteq> [] \<longrightarrow> seal_linked (last rows) r)"
  by (auto simp: chain_valid_def successively_append_iff)

lemma numbered_snoc:
  "numbered (rows @ [r]) \<longleftrightarrow> numbered rows \<and> row_Seq r = int64 (int (length rows) + 1)"
  by (auto simp: numbered_def nth_append less_Suc_eq)

lemma numbered_last: "numbered rows \<Longrightarrow> rows \<noteq> [] \<Longrightarrow> row_Seq (last rows) = int64 (int (length rows))"
  by (simp add: numbered_def last_conv_nth Suc_leI)

lemma next_row_linked:
  assumes "chain_valid key (map (to_row tn) c)" "c \<noteq> []"
    and "key = None \<or> mr_timestamp (last c) \<le> CanonicalTimestamp (event_instant e)"
  shows "seal_linked (to_row tn (last c)) (to_row tn (next_row key tn c e p))"
proof -
  have "row_ok key (to_row tn (last c))"
    using assms(1,2) by (simp add: chain_valid_def list_all_iff)
  then have "keyed (to_row tn (last c)) \<Longrightarrow> key \<noteq> None" by (rule row_ok_key)
  then show ?thesis
    using assms(2,3)
    by (auto simp: seal_linked_def seq_linked_def)
       (simp_all add: to_row_def seq_next_row)
qed

lemma audit_inv_create:
  assumes inv: "audit_inv st" and clock: "clock_ok st ctx e"
  shows "audit_inv (CreateAuditEvent marshal ctx e st)"
proof -
  define tn where "tn = TenantFromContext ctx"
  define ps where "ps = (case ae_Payload e of None \<Rightarrow> [] | Some p \<Rightarrow> marshal p)"
  define c where "c = auditChains st tn"
  define r where "r = next_row (auditKey st) tn c e ps"
  let ?st = "CreateAuditEvent marshal ctx e st"
  have key: "auditKey ?st = auditKey st"
    by (simp add: CreateAuditEvent_def Let_def split: option.split)
  have rows: "tenant_rows ?st t = (if t = tn then map (to_row tn) c @ [to_row tn r] else tenant_rows st t)" for t
    by (simp add: tenant_rows_def CreateAuditEvent_def Let_def tn_def c_def r_def ps_def split: option.split)
  have head: "auditHead ?st t = (case auditKey st of
      Some k \<Rightarrow> if t = tn then Some \<lparr>head_Tenant = tn, head_HeadSeq = mr_seq r,
        head_HeadRowHash = mr_rowHash r, head_MAC = HeadMAC k tn (mr_seq r) (mr_rowHash r)\<rparr>
        else auditHead st t
    | None \<Rightarrow> auditHead st t)" for t
    by (simp add: CreateAuditEvent_def Let_def tn_def c_def r_def ps_def split: option.split)
  have valid: "chain_valid (auditKey st) (map (to_row tn) c)" and num: "numbered (map (to_row tn) c)"
    using inv by (simp_all add: audit_inv_def tenant_rows_def c_def)
  have "chain_valid (auditKey st) (map (to_row tn) c @ [to_row tn r])"
    using valid clock next_row_linked [OF valid, of e ps]
    by (auto simp: chain_valid_snoc row_ok_next_row r_def clock_ok_def Let_def tn_def c_def last_map)
  moreover have "numbered (map (to_row tn) c @ [to_row tn r])"
    using num numbered_last [OF num]
    unfolding numbered_snoc by (cases "c = []") (simp_all add: to_row_def r_def seq_next_row last_map)
  moreover have "head_current (auditKey st) (auditHead ?st tn) (map (to_row tn) c @ [to_row tn r])"
    using inv [unfolded audit_inv_def, THEN spec, of tn]
    by (auto simp: head head_current_def verifyHeadMAC_def chain_head_def to_row_def
        split: option.splits)
  moreover have "auditHead ?st t = auditHead st t" if "t \<noteq> tn" for t
    using that by (simp add: head split: option.split)
  ultimately show ?thesis
    using inv by (simp add: audit_inv_def rows key)
qed

lemma audit_inv_empty: "audit_inv empty_audit"
  by (simp add: audit_inv_def empty_audit_def tenant_rows_def chain_valid_def numbered_def head_current_def)

lemma row_ok_None: "row_ok None r \<Longrightarrow> row_ok key r"
  by (auto simp: row_ok_def computeExpected_def split: if_splits)

lemma row_ok_unkeyed: "\<not> keyed r \<Longrightarrow> row_ok key r = row_ok key' r"
  by (simp add: row_ok_def computeExpected_def)

text \<open>Nothing of the store depends on the key: no row is keyed and no tenant has a sealed head.\<close>

definition unsealed :: "AuditStore \<Rightarrow> bool" where
  "unsealed st \<longleftrightarrow> (\<forall>tn. auditHead st tn = None \<and> (\<forall>r \<in> set (tenant_rows st tn). \<not> keyed r))"

lemma audit_inv_SetAuditChainKey:
  assumes "audit_inv st" "auditKey st = None \<or> unsealed st"
  shows "audit_inv (SetAuditChainKey st k)"
proof -
  have "row_ok k r" if "row_ok (auditKey st) r" "r \<in> set (tenant_rows st tn)" for r tn
    using assms(2) that row_ok_None row_ok_unkeyed [of r] unfolding unsealed_def by metis
  moreover have "auditHead st tn = None" for tn
    using assms by (cases "auditHead st tn") (auto simp: audit_inv_def unsealed_def head_current_def dest: spec [of _ tn])
  moreover have "tenant_rows (SetAuditChainKey st k) = tenant_rows st" "auditKey (SetAuditChainKey st k) = k" "auditHead (SetAuditChainKey st k) = auditHead st"
    by (auto simp: SetAuditChainKey_def tenant_rows_def)
  ultimately show ?thesis using assms(1) by (simp add: audit_inv_def chain_valid_def head_current_def list_all_iff)
qed

lemma audit_inv_explanation:
  "audit_inv st \<Longrightarrow> UpdateAuditEventExplanation i x m t st = Inr st' \<Longrightarrow> audit_inv st'"
  by (auto simp: audit_inv_def UpdateAuditEventExplanation_def tenant_rows_def split: option.splits)

lemma audit_inv_checkpoint: "audit_inv st \<Longrightarrow> audit_inv (WriteAuditCheckpoint cp st)"
  by (simp add: audit_inv_def WriteAuditCheckpoint_def tenant_rows_def)

text \<open>The stores that the operations of the program build.  The key is set as its comments ask, at start-up:
  where there was none, or while nothing has been sealed with the present one.  Events arrive with a clock that
  does not run backwards on a keyed chain.\<close>

inductive audit_reachable :: "(payload \<Rightarrow> string) \<Rightarrow> AuditStore \<Rightarrow> bool" for marshal where
  init: "audit_reachable marshal empty_audit"
| create: "audit_reachable marshal st \<Longrightarrow> clock_ok st ctx e \<Longrightarrow>
    audit_reachable marshal (CreateAuditEvent marshal ctx e st)"
| set_key: "audit_reachable marshal st \<Longrightarrow> auditKey st = None \<or> unsealed st \<Longrightarrow>
    audit_reachable marshal (SetAuditChainKey st k)"
| explain: "audit_reachable marshal st \<Longrightarrow> UpdateAuditEventExplanation i x m t st = Inr st' \<Longrightarrow>
    audit_reachable marshal st'"
| checkpoint: "audit_reachable marshal st \<Longrightarrow> audit_reachable marshal (WriteAuditCheckpoint cp st)"

lemma audit_reachable_inv: "audit_reachable marshal st \<Longrightarrow> audit_inv st"
  by (induction rule: audit_reachable.induct)
     (blast intro: audit_inv_empty audit_inv_create audit_inv_SetAuditChainKey audit_inv_explanation
        audit_inv_checkpoint)+

lemma audit_inv_verifies:
  assumes "audit_inv st"
  shows "VerifySealed (tenant_rows st tn) (auditKey st) (auditHead st tn) = accepted (tenant_rows st tn)"
proof -
  have "res_OK (VerifySealed (tenant_rows st tn) (auditKey st) (auditHead st tn))"
    using assms [unfolded audit_inv_def, THEN spec, of tn]
    by (auto simp: VerifySealed_OK_iff head_accepts_def head_current_def split: option.splits)
       (metis fst_conv order_refl, metis snd_conv)
  then show ?thesis by (rule VerifySealed_accepted)
qed

text \<open>The restriction on the key is needed: \<open>SetAuditChainKey\<close> itself replaces or removes a key unconditionally, and
  a row sealed before then no longer verifies, unless both keys give it the same hash.\<close>

lemma replaced_key_rejects_sealed_rows:
  assumes "audit_reachable marshal st" "r \<in> set (tenant_rows st (TenantFromContext ctx))" "keyed r"
    and "ver_OK (VerifyAuditChain ctx (SetAuditChainKey st key'))"
  shows "key' \<noteq> None \<and> computeExpected key' r = computeExpected (auditKey st) r"
proof -
  have "row_ok (auditKey st) r"
    using audit_reachable_inv [OF assms(1)] assms(2) by (auto simp: audit_inv_def chain_valid_def list_all_iff)
  moreover have "res_OK (VerifySealed (tenant_rows st (TenantFromContext ctx)) key' (auditHead st (TenantFromContext ctx)))"
    using assms(4) by (simp add: VerifyAuditChain_def tenant_rows_def SetAuditChainKey_def Let_def)
  then have "row_ok key' r" using assms(2) by (auto simp: VerifySealed_OK_iff chain_valid_def list_all_iff)
  ultimately show ?thesis using assms(3) by (auto simp: row_ok_def computeExpected_def)
qed

text \<open>C27: A store built by the append path verifies.  Start from an empty store and append events of any tenants,
  with a clock that does not run backwards on a keyed chain, attach explanations, write checkpoints, and install a
  key where none is set, or change or remove it while nothing has been sealed with it: the chain of every tenant
  verifies, and the report counts exactly the appended rows and ends at the newest one.\<close>

theorem appended_chain_verifies:
  assumes "audit_reachable marshal st" "rows = auditChains st (TenantFromContext ctx)"
  shows "ver_OK (VerifyAuditChain ctx st)
    \<and> ver_RowsVerified (VerifyAuditChain ctx st) = int (length rows)
    \<and> ver_HeadSeq (VerifyAuditChain ctx st) = (if rows = [] then 0 else mr_seq (last rows))
    \<and> ver_HeadRowHash (VerifyAuditChain ctx st) = (if rows = [] then [] else mr_rowHash (last rows))"
  using audit_inv_verifies [OF audit_reachable_inv [OF assms(1)], of "TenantFromContext ctx"] assms(2)
  by (auto simp: VerifyAuditChain_def tenant_rows_def Let_def accepted_def chain_head_def
      last_map to_row_def)

definition sample_event :: "string \<Rightarrow> gotime \<Rightarrow> AuditEvent" where
  "sample_event i t =
     \<lparr>ae_ID = i, ae_Timestamp = t, ae_Actor = ''system'', ae_EventType = ''rollout.started'',
      ae_TargetType = ''rollout'', ae_TargetID = ''r1'', ae_Action = ''started'',
      ae_Payload = Some [(''group_id'', JStr ''g1'')], ae_CreatedAt = t, ae_Env = [], ae_Cluster = [],
      ae_AIExplanation = [], ae_AIExplanationModel = [], ae_AIExplanationGeneratedAt = None\<rparr>"

definition sample_key :: Key where
  "sample_key = \<lparr>raw = replicate 32 (CHR ''k'')\<rparr>"

text \<open>One unkeyed event, then the key is installed, then two keyed events.\<close>

definition sample_store :: AuditStore where
  "sample_store =
     (let create = CreateAuditEvent (\<lambda>_. ''{}'') background_ctx;
          t = 63850000000000000000
      in create (sample_event ''e3'' t) (create (sample_event ''e2'' t)
           (SetAuditChainKey (create (sample_event ''e1'' t) empty_audit) (Some sample_key))))"

lemma CreateAuditEvent_simps:
  "auditKey (CreateAuditEvent marshal ctx e st) = auditKey st"
  "auditChains (CreateAuditEvent marshal ctx e st) (TenantFromContext ctx)
     = auditChains st (TenantFromContext ctx)
       @ [next_row (auditKey st) (TenantFromContext ctx) (auditChains st (TenantFromContext ctx)) e
            (case ae_Payload e of None \<Rightarrow> [] | Some p \<Rightarrow> marshal p)]"
  "auditKey st = Some k \<Longrightarrow> auditHead (CreateAuditEvent marshal ctx e st) (TenantFromContext ctx) \<noteq> None"
  by (simp_all add: CreateAuditEvent_def Let_def split: option.split)

lemma SetAuditChainKey_simps [simp]:
  "auditKey (SetAuditChainKey st k) = k" "auditChains (SetAuditChainKey st k) = auditChains st"
  by (simp_all add: SetAuditChainKey_def)

lemma sample_store_reachable: "audit_reachable (\<lambda>_. ''{}'') sample_store"
  unfolding sample_store_def Let_def
  by (intro audit_reachable.intros)
     (simp_all add: clock_ok_def CreateAuditEvent_simps seq_next_row event_instant_def sample_event_def
       empty_audit_def IsZero_def)

lemma sample_store_rows:
  "auditKey sample_store = Some sample_key" "length (auditChains sample_store DefaultTenant) = 3"
  using CreateAuditEvent_simps(2) [where ctx = background_ctx]
  by (simp_all add: sample_store_def Let_def CreateAuditEvent_simps(1) empty_audit_def
      TenantFromContext_def background_ctx_def)

theorem appended_chain_verifies_witness:
  "ver_OK (VerifyAuditChain background_ctx sample_store)
   \<and> ver_RowsVerified (VerifyAuditChain background_ctx sample_store) = 3"
  using appended_chain_verifies [OF sample_store_reachable refl, of background_ctx] sample_store_rows(2)
  by (simp add: TenantFromContext_def background_ctx_def)

section \<open>Deletion, reordering and replay of genuine rows\<close>

lemma numbered_seq_bounds:
  assumes "numbered rows" "length rows + 1 < 2 ^ 63" "i < length rows"
  shows "row_Seq (rows ! i) = int i + 1"
proof -
  have "in_int64 (int i + 1)" using assms(2,3) by (simp add: in_int64_def)
  then show ?thesis using assms(1,3) by (simp add: numbered_def)
qed

lemma contiguous_selection:
  assumes num: "numbered rows" "length rows + 1 < 2 ^ 63"
    and sel: "set rows' \<subseteq> set rows" "successively seq_linked rows'" "rows' \<noteq> []"
  obtains a where "a < length rows" "\<And>i. i < length rows' \<Longrightarrow> a + i < length rows \<and> rows' ! i = rows ! (a + i)"
proof -
  have pick: "\<exists>j < length rows. rows' ! i = rows ! j" if "i < length rows'" for i
    using sel(1) that by (metis in_set_conv_nth nth_mem subsetD)
  obtain a where a: "a < length rows" "rows' ! 0 = rows ! a" using pick [of 0] sel(3) by auto
  have "a + i < length rows \<and> rows' ! i = rows ! (a + i)" if "i < length rows'" for i
    using that
  proof (induction i)
    case (Suc i)
    then have IH: "a + i < length rows" "rows' ! i = rows ! (a + i)" by auto
    obtain j where j: "j < length rows" "rows' ! Suc i = rows ! j" using pick Suc.prems by blast
    have "seq_linked (rows' ! i) (rows' ! Suc i)"
      using sel(2) Suc.prems by (simp add: successively_conv_nth)
    then have "row_Seq (rows ! j) = int64 (row_Seq (rows ! (a + i)) + 1)"
      by (simp add: seq_linked_def IH(2) j(2))
    moreover have "in_int64 (int (a + i) + 1 + 1)" using IH(1) num(2) by (simp add: in_int64_def)
    ultimately have "int j + 1 = int (a + i) + 1 + 1"
      using numbered_seq_bounds [OF num] IH(1) j(1) by simp
    then have "j = a + Suc i" by simp
    with j show ?case by simp
  qed (use a in simp)
  with a(1) that show thesis by blast
qed

lemma contiguous_selection_to_end:
  assumes "numbered rows" "length rows + 1 < 2 ^ 63"
    and "set rows' \<subseteq> set rows" "successively seq_linked rows'" "rows' \<noteq> []"
    and "int (length rows) \<le> row_Seq (last rows')"
  shows "suffix rows' rows"
proof -
  obtain a where a: "a < length rows"
    "\<And>i. i < length rows' \<Longrightarrow> a + i < length rows \<and> rows' ! i = rows ! (a + i)"
    using contiguous_selection [OF assms(1-5)] by blast
  have l: "a + (length rows' - 1) < length rows" "last rows' = rows ! (a + (length rows' - 1))"
    using a(2) [of "length rows' - 1"] assms(5) by (auto simp: last_conv_nth)
  then have "int (length rows) \<le> int (a + (length rows' - 1)) + 1"
    using numbered_seq_bounds [OF assms(1,2) l(1)] assms(6) by simp
  then have "length rows' = length rows - a" using l(1) assms(5) by (cases rows') auto
  then have "rows' = drop a rows" using a(2) by (intro nth_equalityI) auto
  then show ?thesis by (simp add: suffix_drop)
qed

text \<open>deletion, reordering and replay are detected.  Whatever rows of a genuine keyed chain
  someone keeps, in whatever order and multiplicity: if the walk accepts them against the recorded
  high-water mark then they are an unbroken tail of the chain ending at its newest row, so that only
  the oldest rows (which the retention sweep may prune) can be missing.\<close>

theorem deletion_and_reorder_detected:
  assumes "audit_reachable marshal st" "auditHead st tn = Some h"
    and "length (tenant_rows st tn) + 1 < 2 ^ 63"
    and "set rows' \<subseteq> set (tenant_rows st tn)"
    and "res_OK (VerifySealed rows' (auditKey st) (Some h))"
  shows "suffix rows' (tenant_rows st tn)"
proof -
  let ?rows = "tenant_rows st tn"
  have inv: "numbered ?rows" "head_current (auditKey st) (Some h) ?rows"
    using audit_reachable_inv [OF assms(1)] assms(2) by (auto simp: audit_inv_def dest: spec [of _ tn])
  then have ne: "?rows \<noteq> []" and seq: "head_HeadSeq h = row_Seq (last ?rows)"
    by (auto simp: head_current_def chain_head_def)
  have "row_Seq (last ?rows) = int (length ?rows)"
    using numbered_seq_bounds [OF inv(1) assms(3), of "length ?rows - 1"] ne
    by (cases "length ?rows") (simp_all add: last_conv_nth)
  then have h: "head_HeadSeq h = int (length ?rows)" using seq by simp
  have ok: "chain_valid (auditKey st) rows'" "head_HeadSeq h \<le> fst (chain_head rows')"
    using assms(5) by (auto simp: VerifySealed_OK_iff head_accepts_def)
  have "rows' \<noteq> []" using ok(2) h ne by (auto simp: chain_head_def)
  then show ?thesis
    using contiguous_selection_to_end [OF inv(1) assms(3,4)] chain_valid_links [OF ok(1)] ok(2) h
    by (simp add: chain_head_def)
qed

lemma sample_store_head: "\<exists>h. auditHead sample_store DefaultTenant = Some h"
  using CreateAuditEvent_simps(3) [where ctx = background_ctx]
  by (auto simp: sample_store_def Let_def CreateAuditEvent_simps(1) TenantFromContext_def
      background_ctx_def)

theorem deletion_and_reorder_detected_witness:
  "suffix (tenant_rows sample_store DefaultTenant) (tenant_rows sample_store DefaultTenant)"
proof -
  obtain h where h: "auditHead sample_store DefaultTenant = Some h" using sample_store_head by blast
  show ?thesis
  proof (rule deletion_and_reorder_detected [OF sample_store_reachable h])
    show "length (tenant_rows sample_store DefaultTenant) + 1 < 2 ^ 63"
      by (simp add: tenant_rows_def sample_store_rows(2))
    show "res_OK (VerifySealed (tenant_rows sample_store DefaultTenant) (auditKey sample_store) (Some h))"
      using audit_inv_verifies [OF audit_reachable_inv [OF sample_store_reachable], of DefaultTenant] h
      by (simp add: accepted_def)
  qed simp
qed

text \<open>what the high-water mark does not pin.  Once the live chain is longer than the recorded mark,
  the walk accepts whatever row sits at the mark's sequence number: the mark's row hash plays no
  role in the verdict.\<close>

theorem high_water_mark_hash_unchecked:
  assumes "chain_valid (Some k) rows" "verifyHeadMAC k h" "head_HeadSeq h < fst (chain_head rows)"
  shows "res_OK (VerifySealed rows (Some k) (Some h))"
  using assms by (simp add: VerifySealed_OK_iff head_accepts_def)

theorem high_water_mark_hash_unchecked_witness:
  "res_OK (VerifySealed (tenant_rows sample_store DefaultTenant) (Some sample_key)
     (Some \<lparr>head_Tenant = DefaultTenant, head_HeadSeq = 2, head_HeadRowHash = ''another history'',
            head_MAC = HeadMAC sample_key DefaultTenant 2 ''another history''\<rparr>))"
proof (rule high_water_mark_hash_unchecked)
  let ?rows = "tenant_rows sample_store DefaultTenant"
  have inv: "audit_inv sample_store" by (rule audit_reachable_inv [OF sample_store_reachable])
  then show "chain_valid (Some sample_key) ?rows"
    using sample_store_rows(1) by (auto simp: audit_inv_def)
  have "numbered ?rows" using inv by (simp add: audit_inv_def)
  moreover have len: "length ?rows = 3" by (simp add: tenant_rows_def sample_store_rows)
  moreover from len have ne: "?rows \<noteq> []" by auto
  ultimately have "row_Seq (last ?rows) = 3"
    using numbered_seq_bounds [of ?rows 2] by (simp add: last_conv_nth)
  with ne show "head_HeadSeq \<lparr>head_Tenant = DefaultTenant, head_HeadSeq = 2, head_HeadRowHash = ''another history'',
      head_MAC = HeadMAC sample_key DefaultTenant 2 ''another history''\<rparr> < fst (chain_head ?rows)"
    by (simp add: chain_head_def)
qed (simp add: verifyHeadMAC_def)

lemma list_audit_loop_take:
  "int (length out) < limit \<Longrightarrow>
   list_audit_loop f limit out es = out @ take (nat limit - length out) (filter (audit_matches f) es)"
proof (induction es arbitrary: out)
  case (Cons e es)
  have "nat limit - length out = Suc (nat limit - length (out @ [e]))" using Cons.prems by simp
  then show ?case using Cons.IH [of "out @ [e]"] Cons.IH [of out] Cons.prems by auto
qed simp

text \<open>reading the log.  A listing is the newest matching events first, cut at the requested limit,
  which defaults to 100 and is capped at 1000.\<close>

theorem ListAuditEvents_newest_first:
  "ListAuditEvents f st =
     take (nat (min 1000 (if af_Limit f \<le> 0 then 100 else af_Limit f)))
       (filter (audit_matches f) (rev (auditEvents st)))"
  by (simp add: ListAuditEvents_def Let_def list_audit_loop_take min_def)

end
