(* ===== verification/Rollout_Types.thy ===== *)
theory Rollout_Types
  imports Audit_Store
begin

text \<open>
  The data of the rollout subsystem: \<open>services/rollout_service.go\<close> (the service-layer types), the
  storage row of \<open>storage/applicationstore/types/types.go\<close>, the projections between the two layers
  and the validation of a create request (\<open>services/rollout_service_impl.go\<close>).

  The service-layer \<open>Rollout\<close> has the fields of the storage row plus the two derived fields
  \<open>ApproverCount\<close> and \<open>MissingApproverRoles\<close>, so it is declared as a record extension.  Lists stand
  for Go slices (\<open>nil\<close> and the empty slice are identified) and pointers to values for options.
\<close>

section \<open>Enumerations\<close>

datatype RolloutState =
    RolloutStatePending
  | RolloutStateInProgress
  | RolloutStatePaused
  | RolloutStateSucceeded
  | RolloutStateAborted
  | RolloutStateRolledBack
  | RolloutStatePendingApproval
  | RolloutStateRejected
  | RolloutStateQueued
  | RolloutStateCancelled

text \<open>The strings the constants stand for, as they appear in audit payloads.\<close>

fun state_string :: "RolloutState \<Rightarrow> string" where
  "state_string RolloutStatePending = ''pending''"
| "state_string RolloutStateInProgress = ''in_progress''"
| "state_string RolloutStatePaused = ''paused''"
| "state_string RolloutStateSucceeded = ''succeeded''"
| "state_string RolloutStateAborted = ''aborted''"
| "state_string RolloutStateRolledBack = ''rolled_back''"
| "state_string RolloutStatePendingApproval = ''pending_approval''"
| "state_string RolloutStateRejected = ''rejected''"
| "state_string RolloutStateQueued = ''queued''"
| "state_string RolloutStateCancelled = ''cancelled''"

definition IsTerminal :: "RolloutState \<Rightarrow> bool" where
  "IsTerminal s \<longleftrightarrow>
     s = RolloutStateSucceeded \<or> s = RolloutStateRolledBack \<or> s = RolloutStateCancelled"

abbreviation RolloutStageModePercent :: string where
  "RolloutStageModePercent \<equiv> ''percent''"
abbreviation RolloutStageModeLabel :: string where
  "RolloutStageModeLabel \<equiv> ''label''"

abbreviation StepKindRollout :: string where "StepKindRollout \<equiv> ''rollout''"
abbreviation StepKindAction :: string where "StepKindAction \<equiv> ''action''"

abbreviation RolloutProposedByOperator :: string where "RolloutProposedByOperator \<equiv> ''operator''"
abbreviation RolloutProposedByAI :: string where "RolloutProposedByAI \<equiv> ''ai''"
abbreviation RolloutProposedBySystem :: string where "RolloutProposedBySystem \<equiv> ''system''"

section \<open>Stages and abort criteria\<close>

record RolloutStage =
  Mode :: string
  Percentage :: int
  LabelSelector :: "(string \<times> string) list"
  DwellSeconds :: int
  ConvergencePercent :: int

record RolloutSLOMatcher =
  mt_Label :: string
  mt_Op :: string
  mt_Value :: string

record RolloutSLOBurnCriterion =
  slo_ConnectorID :: string
  slo_Signal :: string
  slo_Selector :: string
  slo_Matchers :: "RolloutSLOMatcher list"
  slo_Aggregation :: string
  slo_Raw :: string
  slo_WindowSeconds :: int
  slo_Threshold :: real
  slo_FailOpen :: "bool option"

record RolloutAbortCriteria =
  MaxDriftedAgents :: int
  MaxErrorLogsPerMinute :: int
  MinDwellSecondsBeforeAbort :: int
  ErrorRateWindowSeconds :: int
  SLOBurn :: "RolloutSLOBurnCriterion option"

record EvidenceRef =
  ev_Kind :: string
  ev_ID :: string
  ev_URL :: string
  ev_Description :: string

record ActionStepSpec =
  as_RunnerID :: string
  as_ActionType :: string
  as_Parameters :: string
  as_TimeoutSeconds :: int

section \<open>The rollout row and its service-layer extension\<close>

record StoredRollout =
  ro_ID :: string
  ro_Name :: string
  ro_GroupID :: string
  ro_TargetConfigID :: string
  ro_PreviousConfigID :: string
  ro_Stages :: "RolloutStage list"
  ro_AbortCriteria :: RolloutAbortCriteria
  ro_NotificationURL :: string
  ro_State :: RolloutState
  ro_CurrentStage :: int
  ro_StageStartedAt :: "gotime option"
  ro_AbortReason :: string
  ro_PushedAgentIDs :: "string list"
  ro_RequireApproval :: bool
  ro_RequestedBy :: string
  ro_ApprovedBy :: string
  ro_ApprovedAt :: "gotime option"
  ro_RejectedBy :: string
  ro_RejectedAt :: "gotime option"
  ro_ApprovalNotes :: string
  ro_RequiredApprovals :: int
  ro_LastBlackoutReason :: string
  ro_LastBlackoutAt :: "gotime option"
  ro_ProposedBy :: string
  ro_ProposalReasoning :: string
  ro_EvidenceRefs :: "EvidenceRef list"
  ro_RolledBackFromID :: string
  ro_PlanID :: string
  ro_PlanStepIndex :: int
  ro_StepKind :: string
  ro_ActionRequestID :: string
  ro_ExcludeFromLearning :: bool
  ro_Version :: int
  ro_CreatedAt :: gotime
  ro_UpdatedAt :: gotime
  ro_CompletedAt :: "gotime option"

record Rollout = StoredRollout +
  ro_ApproverCount :: int
  ro_MissingApproverRoles :: "string list"

text \<open>The zero value of the struct, from which the code builds its literals; every literal sets the
  state, so the state of the zero value is immaterial.\<close>

definition zero_criteria :: RolloutAbortCriteria where
  "zero_criteria = \<lparr>MaxDriftedAgents = 0, MaxErrorLogsPerMinute = 0, MinDwellSecondsBeforeAbort = 0,
     ErrorRateWindowSeconds = 0, SLOBurn = None\<rparr>"

definition zero_rollout :: Rollout where
  "zero_rollout =
     \<lparr>ro_ID = [], ro_Name = [], ro_GroupID = [], ro_TargetConfigID = [], ro_PreviousConfigID = [],
      ro_Stages = [], ro_AbortCriteria = zero_criteria, ro_NotificationURL = [],
      ro_State = RolloutStatePending, ro_CurrentStage = 0, ro_StageStartedAt = None,
      ro_AbortReason = [], ro_PushedAgentIDs = [], ro_RequireApproval = False, ro_RequestedBy = [],
      ro_ApprovedBy = [], ro_ApprovedAt = None, ro_RejectedBy = [], ro_RejectedAt = None,
      ro_ApprovalNotes = [], ro_RequiredApprovals = 0, ro_LastBlackoutReason = [],
      ro_LastBlackoutAt = None, ro_ProposedBy = [], ro_ProposalReasoning = [], ro_EvidenceRefs = [],
      ro_RolledBackFromID = [], ro_PlanID = [], ro_PlanStepIndex = 0, ro_StepKind = [],
      ro_ActionRequestID = [], ro_ExcludeFromLearning = False, ro_Version = 0, ro_CreatedAt = 0,
      ro_UpdatedAt = 0, ro_CompletedAt = None, ro_ApproverCount = 0, ro_MissingApproverRoles = []\<rparr>"

record RolloutInput =
  in_Name :: string
  in_GroupID :: string
  in_TargetConfigID :: string
  in_Stages :: "RolloutStage list"
  in_AbortCriteria :: RolloutAbortCriteria
  in_NotificationURL :: string
  in_RequireApproval :: bool
  in_RequiredApprovals :: int
  in_RequestedBy :: string
  in_ProposedBy :: string
  in_ProposalReasoning :: string
  in_EvidenceRefs :: "EvidenceRef list"
  in_PlanID :: string
  in_PlanStepIndex :: int
  in_InlineConfigSnippet :: string
  in_Kind :: string
  in_Action :: "ActionStepSpec option"

text \<open>An empty \<open>State\<close> of the filter (no restriction) is \<open>None\<close>.\<close>

record RolloutFilter =
  rf_GroupID :: string
  rf_State :: "RolloutState option"
  rf_Limit :: int
  rf_PlanID :: string

section \<open>Errors of the rollout service\<close>

text \<open>One constructor per error the service and the store return; the fields are the values the code
  interpolates into the message.\<close>

datatype error =
    NameRequired
  | GroupIDRequired
  | TargetConfigIDRequired
  | StageRequired
  | InvalidStageMode string
  | MixedStageModes int string string
  | NegativeDwell int
  | PercentageOutOfRange int
  | PercentageDecreases int int int
  | LabelSelectorRequired int
  | LabelKeyEmpty int
  | LabelValueEmpty int string
  | FinalStageNot100
  | NegativeMaxDriftedAgents
  | NegativeMaxErrorLogs
  | NegativeMinDwell
  | NegativeErrorRateWindow
  | TargetConfigNotFound string
  | InvalidProposedBy string
  | RolloutAlreadyExists string
  | ErrRolloutNotFound string
  | ErrRolloutConflict
  | ConfigNotFound string
  | AlreadyTerminal RolloutState
  | NotTerminal RolloutState
  | CannotPause RolloutState
  | CannotResume RolloutState
  | CannotApprove RolloutState
  | CannotReject RolloutState
  | TwoPersonRule string
  | NoPreviousConfig
  | PlanRequiresStep
  | PlanMissingGroup
  | PlanGroupMismatch int string string
  | PlanStepHasAction int
  | PlanStepAmbiguous int
  | PlanStepEmpty int
  | PlanStepUnknownKind int string
  | PlanStepFailed int error
  | PlanSnippetLint int string
  | PlanIDRequired
  | ActionBlockRequired int
  | ActionForbidsField int string
  | ActionFieldRequired int string
  | ActionTimeoutNegative int
  | ActionTimeoutTooLong int int
  | NotActionStep string string
  | NoActionSpec string
  | ActionSpecUndecodable string
  | DispatchError string string
  | OtherError string

type_synonym 'a result = "error + 'a"

section \<open>Projections between the layers\<close>

text \<open>A Go map copy keeps the entries; the copy is what keeps a caller's reference from aliasing the
  stored row, which values of the model cannot do.\<close>

definition copyStringMap :: "(string \<times> string) list \<Rightarrow> (string \<times> string) list" where
  "copyStringMap m = map (\<lambda>(k, v). (k, v)) m"

definition copyStage :: "RolloutStage \<Rightarrow> RolloutStage" where
  "copyStage st =
     \<lparr>Mode = Mode st, Percentage = Percentage st, LabelSelector = copyStringMap (LabelSelector st),
      DwellSeconds = DwellSeconds st, ConvergencePercent = ConvergencePercent st\<rparr>"

definition normalizeStages :: "RolloutStage list \<Rightarrow> RolloutStage list" where
  "normalizeStages = map (\<lambda>st. if Mode st = [] then st\<lparr>Mode := RolloutStageModePercent\<rparr> else st)"

definition toStorageEvidenceRefs :: "EvidenceRef list \<Rightarrow> EvidenceRef list" where
  "toStorageEvidenceRefs es =
     (if es = [] then []
      else map (\<lambda>e. \<lparr>ev_Kind = ev_Kind e, ev_ID = ev_ID e, ev_URL = ev_URL e,
                     ev_Description = ev_Description e\<rparr>) es)"

definition toServiceEvidenceRefs :: "EvidenceRef list \<Rightarrow> EvidenceRef list" where
  "toServiceEvidenceRefs es =
     (if es = [] then []
      else map (\<lambda>e. \<lparr>ev_Kind = ev_Kind e, ev_ID = ev_ID e, ev_URL = ev_URL e,
                     ev_Description = ev_Description e\<rparr>) es)"

definition copyMatchers :: "RolloutSLOMatcher list \<Rightarrow> RolloutSLOMatcher list" where
  "copyMatchers = map (\<lambda>m. \<lparr>mt_Label = mt_Label m, mt_Op = mt_Op m, mt_Value = mt_Value m\<rparr>)"

definition toStorageSLOBurn ::
  "RolloutSLOBurnCriterion option \<Rightarrow> RolloutSLOBurnCriterion option" where
  "toStorageSLOBurn inp = (case inp of None \<Rightarrow> None | Some c \<Rightarrow>
     Some \<lparr>slo_ConnectorID = slo_ConnectorID c, slo_Signal = slo_Signal c, slo_Selector = slo_Selector c,
           slo_Matchers = copyMatchers (slo_Matchers c), slo_Aggregation = slo_Aggregation c,
           slo_Raw = slo_Raw c, slo_WindowSeconds = slo_WindowSeconds c,
           slo_Threshold = slo_Threshold c, slo_FailOpen = slo_FailOpen c\<rparr>)"

definition toServiceSLOBurn ::
  "RolloutSLOBurnCriterion option \<Rightarrow> RolloutSLOBurnCriterion option" where
  "toServiceSLOBurn inp = (case inp of None \<Rightarrow> None | Some c \<Rightarrow>
     Some \<lparr>slo_ConnectorID = slo_ConnectorID c, slo_Signal = slo_Signal c, slo_Selector = slo_Selector c,
           slo_Matchers = copyMatchers (slo_Matchers c), slo_Aggregation = slo_Aggregation c,
           slo_Raw = slo_Raw c, slo_WindowSeconds = slo_WindowSeconds c,
           slo_Threshold = slo_Threshold c, slo_FailOpen = slo_FailOpen c\<rparr>)"

definition toStorageRollout :: "Rollout \<Rightarrow> StoredRollout" where
  "toStorageRollout r =
     \<lparr>ro_ID = ro_ID r, ro_Name = ro_Name r, ro_GroupID = ro_GroupID r,
      ro_TargetConfigID = ro_TargetConfigID r, ro_PreviousConfigID = ro_PreviousConfigID r,
      ro_Stages = map copyStage (ro_Stages r),
      ro_AbortCriteria =
        \<lparr>MaxDriftedAgents = MaxDriftedAgents (ro_AbortCriteria r),
         MaxErrorLogsPerMinute = MaxErrorLogsPerMinute (ro_AbortCriteria r),
         MinDwellSecondsBeforeAbort = MinDwellSecondsBeforeAbort (ro_AbortCriteria r),
         ErrorRateWindowSeconds = ErrorRateWindowSeconds (ro_AbortCriteria r),
         SLOBurn = toStorageSLOBurn (SLOBurn (ro_AbortCriteria r))\<rparr>,
      ro_NotificationURL = ro_NotificationURL r, ro_State = ro_State r,
      ro_CurrentStage = ro_CurrentStage r, ro_StageStartedAt = ro_StageStartedAt r,
      ro_AbortReason = ro_AbortReason r, ro_PushedAgentIDs = ro_PushedAgentIDs r,
      ro_RequireApproval = ro_RequireApproval r, ro_RequestedBy = ro_RequestedBy r,
      ro_ApprovedBy = ro_ApprovedBy r, ro_ApprovedAt = ro_ApprovedAt r,
      ro_RejectedBy = ro_RejectedBy r, ro_RejectedAt = ro_RejectedAt r,
      ro_ApprovalNotes = ro_ApprovalNotes r, ro_RequiredApprovals = ro_RequiredApprovals r,
      ro_LastBlackoutReason = ro_LastBlackoutReason r, ro_LastBlackoutAt = ro_LastBlackoutAt r,
      ro_ProposedBy = ro_ProposedBy r, ro_ProposalReasoning = ro_ProposalReasoning r,
      ro_EvidenceRefs = toStorageEvidenceRefs (ro_EvidenceRefs r),
      ro_RolledBackFromID = ro_RolledBackFromID r, ro_PlanID = ro_PlanID r,
      ro_PlanStepIndex = ro_PlanStepIndex r, ro_StepKind = ro_StepKind r,
      ro_ActionRequestID = ro_ActionRequestID r, ro_ExcludeFromLearning = ro_ExcludeFromLearning r,
      ro_Version = ro_Version r, ro_CreatedAt = ro_CreatedAt r, ro_UpdatedAt = ro_UpdatedAt r,
      ro_CompletedAt = ro_CompletedAt r\<rparr>"

definition toServiceRollout :: "StoredRollout \<Rightarrow> Rollout" where
  "toServiceRollout r =
     \<lparr>ro_ID = ro_ID r, ro_Name = ro_Name r, ro_GroupID = ro_GroupID r,
      ro_TargetConfigID = ro_TargetConfigID r, ro_PreviousConfigID = ro_PreviousConfigID r,
      ro_Stages = map copyStage (ro_Stages r),
      ro_AbortCriteria =
        \<lparr>MaxDriftedAgents = MaxDriftedAgents (ro_AbortCriteria r),
         MaxErrorLogsPerMinute = MaxErrorLogsPerMinute (ro_AbortCriteria r),
         MinDwellSecondsBeforeAbort = MinDwellSecondsBeforeAbort (ro_AbortCriteria r),
         ErrorRateWindowSeconds = ErrorRateWindowSeconds (ro_AbortCriteria r),
         SLOBurn = toServiceSLOBurn (SLOBurn (ro_AbortCriteria r))\<rparr>,
      ro_NotificationURL = ro_NotificationURL r, ro_State = ro_State r,
      ro_CurrentStage = ro_CurrentStage r, ro_StageStartedAt = ro_StageStartedAt r,
      ro_AbortReason = ro_AbortReason r, ro_PushedAgentIDs = ro_PushedAgentIDs r,
      ro_RequireApproval = ro_RequireApproval r, ro_RequestedBy = ro_RequestedBy r,
      ro_ApprovedBy = ro_ApprovedBy r, ro_ApprovedAt = ro_ApprovedAt r,
      ro_RejectedBy = ro_RejectedBy r, ro_RejectedAt = ro_RejectedAt r,
      ro_ApprovalNotes = ro_ApprovalNotes r, ro_RequiredApprovals = ro_RequiredApprovals r,
      ro_LastBlackoutReason = ro_LastBlackoutReason r, ro_LastBlackoutAt = ro_LastBlackoutAt r,
      ro_ProposedBy = ro_ProposedBy r, ro_ProposalReasoning = ro_ProposalReasoning r,
      ro_EvidenceRefs = toServiceEvidenceRefs (ro_EvidenceRefs r),
      ro_RolledBackFromID = ro_RolledBackFromID r, ro_PlanID = ro_PlanID r,
      ro_PlanStepIndex = ro_PlanStepIndex r, ro_StepKind = ro_StepKind r,
      ro_ActionRequestID = ro_ActionRequestID r, ro_ExcludeFromLearning = ro_ExcludeFromLearning r,
      ro_Version = ro_Version r, ro_CreatedAt = ro_CreatedAt r, ro_UpdatedAt = ro_UpdatedAt r,
      ro_CompletedAt = ro_CompletedAt r, ro_ApproverCount = 0, ro_MissingApproverRoles = []\<rparr>"

section \<open>Validation of a create request\<close>

definition effective_mode :: "RolloutStage \<Rightarrow> string" where
  "effective_mode st = (if Mode st = [] then RolloutStageModePercent else Mode st)"

fun validate_selector :: "int \<Rightarrow> (string \<times> string) list \<Rightarrow> error option" where
  "validate_selector i [] = None"
| "validate_selector i ((k, v) # kvs) =
     (if k = [] then Some (LabelKeyEmpty i)
      else if v = [] then Some (LabelValueEmpty i k)
      else validate_selector i kvs)"

definition validate_stage ::
  "string \<Rightarrow> int \<Rightarrow> RolloutStage option \<Rightarrow> RolloutStage \<Rightarrow> error option" where
  "validate_stage mode i previous st =
     (let stMode = effective_mode st in
      if stMode \<noteq> mode then Some (MixedStageModes i mode stMode)
      else if DwellSeconds st < 0 then Some (NegativeDwell i)
      else if stMode = RolloutStageModePercent then
        (if Percentage st \<le> 0 \<or> Percentage st > 100 then Some (PercentageOutOfRange i)
         else case previous of
             None \<Rightarrow> None
           | Some p \<Rightarrow>
               if Percentage st < Percentage p
               then Some (PercentageDecreases i (Percentage st) (Percentage p)) else None)
      else if stMode = RolloutStageModeLabel then
        (if LabelSelector st = [] then Some (LabelSelectorRequired i)
         else validate_selector i (LabelSelector st))
      else None)"

fun validate_stages ::
  "string \<Rightarrow> int \<Rightarrow> RolloutStage option \<Rightarrow> RolloutStage list \<Rightarrow> error option" where
  "validate_stages mode i previous [] = None"
| "validate_stages mode i previous (st # sts) =
     (case validate_stage mode i previous st of
        Some e \<Rightarrow> Some e
      | None \<Rightarrow> validate_stages mode (i + 1) (Some st) sts)"

definition validate_criteria :: "RolloutAbortCriteria \<Rightarrow> error option" where
  "validate_criteria c =
     (if MaxDriftedAgents c < 0 then Some NegativeMaxDriftedAgents
      else if MaxErrorLogsPerMinute c < 0 then Some NegativeMaxErrorLogs
      else if MinDwellSecondsBeforeAbort c < 0 then Some NegativeMinDwell
      else if ErrorRateWindowSeconds c < 0 then Some NegativeErrorRateWindow
      else None)"

definition validateRolloutInput :: "RolloutInput \<Rightarrow> error option" where
  "validateRolloutInput inp =
     (if in_Name inp = [] then Some NameRequired
      else if in_GroupID inp = [] then Some GroupIDRequired
      else if in_TargetConfigID inp = [] then Some TargetConfigIDRequired
      else if in_Stages inp = [] then Some StageRequired
      else let mode = effective_mode (hd (in_Stages inp)) in
        if mode \<noteq> RolloutStageModePercent \<and> mode \<noteq> RolloutStageModeLabel
        then Some (InvalidStageMode mode)
        else case validate_stages mode 0 None (in_Stages inp) of
            Some e \<Rightarrow> Some e
          | None \<Rightarrow>
              if mode = RolloutStageModePercent \<and> Percentage (last (in_Stages inp)) \<noteq> 100
              then Some FinalStageNot100
              else validate_criteria (in_AbortCriteria inp))"

section \<open>Round trip of the projections\<close>

lemma copyStringMap_id [simp]: "copyStringMap m = m"
  by (simp add: copyStringMap_def case_prod_beta)

lemma copyStage_id [simp]: "copyStage st = st"
  by (simp add: copyStage_def)

lemma copy_stages_id [simp]: "map copyStage sts = sts"
  by (simp add: map_idI)

lemma copyMatchers_id [simp]: "copyMatchers ms = ms"
  by (simp add: copyMatchers_def map_idI)

lemma evidence_refs_id [simp]:
  "toStorageEvidenceRefs es = es" "toServiceEvidenceRefs es = es"
  by (simp_all add: toStorageEvidenceRefs_def toServiceEvidenceRefs_def map_idI)

lemma slo_burn_id [simp]: "toStorageSLOBurn c = c" "toServiceSLOBurn c = c"
  by (simp_all add: toStorageSLOBurn_def toServiceSLOBurn_def split: option.split)

lemma abort_criteria_eta:
  "\<lparr>MaxDriftedAgents = MaxDriftedAgents c, MaxErrorLogsPerMinute = MaxErrorLogsPerMinute c,
    MinDwellSecondsBeforeAbort = MinDwellSecondsBeforeAbort c,
    ErrorRateWindowSeconds = ErrorRateWindowSeconds c, SLOBurn = SLOBurn c\<rparr> = c"
  by (cases c) simp

lemma toStorageRollout_simps [simp]:
  "ro_AbortCriteria (toStorageRollout r) = ro_AbortCriteria r"
  "ro_ID (toStorageRollout r) = ro_ID r"
  "ro_Name (toStorageRollout r) = ro_Name r"
  "ro_GroupID (toStorageRollout r) = ro_GroupID r"
  "ro_TargetConfigID (toStorageRollout r) = ro_TargetConfigID r"
  "ro_PreviousConfigID (toStorageRollout r) = ro_PreviousConfigID r"
  "ro_Stages (toStorageRollout r) = ro_Stages r"
  "ro_NotificationURL (toStorageRollout r) = ro_NotificationURL r"
  "ro_State (toStorageRollout r) = ro_State r"
  "ro_CurrentStage (toStorageRollout r) = ro_CurrentStage r"
  "ro_StageStartedAt (toStorageRollout r) = ro_StageStartedAt r"
  "ro_AbortReason (toStorageRollout r) = ro_AbortReason r"
  "ro_PushedAgentIDs (toStorageRollout r) = ro_PushedAgentIDs r"
  "ro_RequireApproval (toStorageRollout r) = ro_RequireApproval r"
  "ro_RequestedBy (toStorageRollout r) = ro_RequestedBy r"
  "ro_ApprovedBy (toStorageRollout r) = ro_ApprovedBy r"
  "ro_ApprovedAt (toStorageRollout r) = ro_ApprovedAt r"
  "ro_RejectedBy (toStorageRollout r) = ro_RejectedBy r"
  "ro_RejectedAt (toStorageRollout r) = ro_RejectedAt r"
  "ro_ApprovalNotes (toStorageRollout r) = ro_ApprovalNotes r"
  "ro_RequiredApprovals (toStorageRollout r) = ro_RequiredApprovals r"
  "ro_LastBlackoutReason (toStorageRollout r) = ro_LastBlackoutReason r"
  "ro_LastBlackoutAt (toStorageRollout r) = ro_LastBlackoutAt r"
  "ro_ProposedBy (toStorageRollout r) = ro_ProposedBy r"
  "ro_ProposalReasoning (toStorageRollout r) = ro_ProposalReasoning r"
  "ro_EvidenceRefs (toStorageRollout r) = ro_EvidenceRefs r"
  "ro_RolledBackFromID (toStorageRollout r) = ro_RolledBackFromID r"
  "ro_PlanID (toStorageRollout r) = ro_PlanID r"
  "ro_PlanStepIndex (toStorageRollout r) = ro_PlanStepIndex r"
  "ro_StepKind (toStorageRollout r) = ro_StepKind r"
  "ro_ActionRequestID (toStorageRollout r) = ro_ActionRequestID r"
  "ro_ExcludeFromLearning (toStorageRollout r) = ro_ExcludeFromLearning r"
  "ro_Version (toStorageRollout r) = ro_Version r"
  "ro_CreatedAt (toStorageRollout r) = ro_CreatedAt r"
  "ro_UpdatedAt (toStorageRollout r) = ro_UpdatedAt r"
  "ro_CompletedAt (toStorageRollout r) = ro_CompletedAt r"
  by (simp_all add: toStorageRollout_def abort_criteria_eta)

lemma toServiceRollout_simps [simp]:
  "ro_AbortCriteria (toServiceRollout r) = ro_AbortCriteria r" "ro_ApproverCount (toServiceRollout r) = 0"
  "ro_MissingApproverRoles (toServiceRollout r) = []"
  "ro_ID (toServiceRollout r) = ro_ID r"
  "ro_Name (toServiceRollout r) = ro_Name r"
  "ro_GroupID (toServiceRollout r) = ro_GroupID r"
  "ro_TargetConfigID (toServiceRollout r) = ro_TargetConfigID r"
  "ro_PreviousConfigID (toServiceRollout r) = ro_PreviousConfigID r"
  "ro_Stages (toServiceRollout r) = ro_Stages r"
  "ro_NotificationURL (toServiceRollout r) = ro_NotificationURL r"
  "ro_State (toServiceRollout r) = ro_State r"
  "ro_CurrentStage (toServiceRollout r) = ro_CurrentStage r"
  "ro_StageStartedAt (toServiceRollout r) = ro_StageStartedAt r"
  "ro_AbortReason (toServiceRollout r) = ro_AbortReason r"
  "ro_PushedAgentIDs (toServiceRollout r) = ro_PushedAgentIDs r"
  "ro_RequireApproval (toServiceRollout r) = ro_RequireApproval r"
  "ro_RequestedBy (toServiceRollout r) = ro_RequestedBy r"
  "ro_ApprovedBy (toServiceRollout r) = ro_ApprovedBy r"
  "ro_ApprovedAt (toServiceRollout r) = ro_ApprovedAt r"
  "ro_RejectedBy (toServiceRollout r) = ro_RejectedBy r"
  "ro_RejectedAt (toServiceRollout r) = ro_RejectedAt r"
  "ro_ApprovalNotes (toServiceRollout r) = ro_ApprovalNotes r"
  "ro_RequiredApprovals (toServiceRollout r) = ro_RequiredApprovals r"
  "ro_LastBlackoutReason (toServiceRollout r) = ro_LastBlackoutReason r"
  "ro_LastBlackoutAt (toServiceRollout r) = ro_LastBlackoutAt r"
  "ro_ProposedBy (toServiceRollout r) = ro_ProposedBy r"
  "ro_ProposalReasoning (toServiceRollout r) = ro_ProposalReasoning r"
  "ro_EvidenceRefs (toServiceRollout r) = ro_EvidenceRefs r"
  "ro_RolledBackFromID (toServiceRollout r) = ro_RolledBackFromID r"
  "ro_PlanID (toServiceRollout r) = ro_PlanID r"
  "ro_PlanStepIndex (toServiceRollout r) = ro_PlanStepIndex r"
  "ro_StepKind (toServiceRollout r) = ro_StepKind r"
  "ro_ActionRequestID (toServiceRollout r) = ro_ActionRequestID r"
  "ro_ExcludeFromLearning (toServiceRollout r) = ro_ExcludeFromLearning r"
  "ro_Version (toServiceRollout r) = ro_Version r"
  "ro_CreatedAt (toServiceRollout r) = ro_CreatedAt r"
  "ro_UpdatedAt (toServiceRollout r) = ro_UpdatedAt r"
  "ro_CompletedAt (toServiceRollout r) = ro_CompletedAt r"
  by (simp_all add: toServiceRollout_def abort_criteria_eta)

text \<open>
  Writing a service-layer rollout to its storage row and reading it back keeps every stored field
  and only resets the two derived fields; reading a row and writing it back is the identity.
\<close>
theorem rollout_projection_roundtrip:
  "toServiceRollout (toStorageRollout r) = r\<lparr>ro_ApproverCount := 0, ro_MissingApproverRoles := []\<rparr>
   \<and> toStorageRollout (toServiceRollout s) = s"
  by (simp add: toServiceRollout_def toStorageRollout_def)

section \<open>What validation accepts\<close>

text \<open>The declarative reading of a runnable request: one mode for all stages; in percent mode the
  percentages are in range, never decrease and end at 100; in label mode every selector is non-empty
  and has no empty key or value.\<close>

definition percent_plan :: "RolloutStage list \<Rightarrow> bool" where
  "percent_plan sts \<longleftrightarrow>
     (\<forall>st \<in> set sts. effective_mode st = RolloutStageModePercent \<and> 0 < Percentage st \<and> Percentage st \<le> 100)
     \<and> sorted (map Percentage sts) \<and> Percentage (last sts) = 100"

definition label_plan :: "RolloutStage list \<Rightarrow> bool" where
  "label_plan sts \<longleftrightarrow>
     (\<forall>st \<in> set sts. effective_mode st = RolloutStageModeLabel \<and> LabelSelector st \<noteq> []
        \<and> (\<forall>(k, v) \<in> set (LabelSelector st). k \<noteq> [] \<and> v \<noteq> []))"

definition runnable_input :: "RolloutInput \<Rightarrow> bool" where
  "runnable_input inp \<longleftrightarrow>
     in_Name inp \<noteq> [] \<and> in_GroupID inp \<noteq> [] \<and> in_TargetConfigID inp \<noteq> [] \<and> in_Stages inp \<noteq> []
     \<and> (percent_plan (in_Stages inp) \<or> label_plan (in_Stages inp))
     \<and> (\<forall>st \<in> set (in_Stages inp). 0 \<le> DwellSeconds st)
     \<and> 0 \<le> MaxDriftedAgents (in_AbortCriteria inp)
     \<and> 0 \<le> MaxErrorLogsPerMinute (in_AbortCriteria inp)
     \<and> 0 \<le> MinDwellSecondsBeforeAbort (in_AbortCriteria inp)
     \<and> 0 \<le> ErrorRateWindowSeconds (in_AbortCriteria inp)"

lemma validate_selector_None:
  "validate_selector i kvs = None \<longleftrightarrow> (\<forall>(k, v) \<in> set kvs. k \<noteq> [] \<and> v \<noteq> [])"
  by (induction i kvs rule: validate_selector.induct) auto

lemma validate_stages_label:
  "validate_stages RolloutStageModeLabel i p sts = None \<longleftrightarrow>
     (\<forall>st \<in> set sts. 0 \<le> DwellSeconds st) \<and> label_plan sts"
proof (induction sts arbitrary: i p)
  case (Cons st sts)
  have "validate_stage RolloutStageModeLabel i p st = None \<longleftrightarrow>
      0 \<le> DwellSeconds st \<and> effective_mode st = RolloutStageModeLabel \<and> LabelSelector st \<noteq> []
      \<and> (\<forall>(k, v) \<in> set (LabelSelector st). k \<noteq> [] \<and> v \<noteq> [])"
    by (auto simp: validate_stage_def Let_def validate_selector_None)
  then show ?case
    by (cases "validate_stage RolloutStageModeLabel i p st") (auto simp: Cons.IH label_plan_def)
qed (simp add: label_plan_def)

lemma validate_stages_percent:
  "validate_stages RolloutStageModePercent i p sts = None \<longleftrightarrow>
     (\<forall>st \<in> set sts. 0 \<le> DwellSeconds st \<and> effective_mode st = RolloutStageModePercent
        \<and> 0 < Percentage st \<and> Percentage st \<le> 100)
     \<and> sorted (map Percentage (case p of None \<Rightarrow> sts | Some q \<Rightarrow> q # sts))"
proof (induction sts arbitrary: i p)
  case (Cons st sts)
  have "validate_stage RolloutStageModePercent i p st = None \<longleftrightarrow>
      0 \<le> DwellSeconds st \<and> effective_mode st = RolloutStageModePercent \<and> 0 < Percentage st
      \<and> Percentage st \<le> 100 \<and> (case p of None \<Rightarrow> True | Some q \<Rightarrow> Percentage q \<le> Percentage st)"
    by (auto simp: validate_stage_def Let_def split: option.splits)
  then show ?case
    by (cases "validate_stage RolloutStageModePercent i p st"; cases p) (auto simp: Cons.IH)
qed (simp split: option.split)

lemma validate_criteria_None:
  "validate_criteria c = None \<longleftrightarrow>
     0 \<le> MaxDriftedAgents c \<and> 0 \<le> MaxErrorLogsPerMinute c \<and> 0 \<le> MinDwellSecondsBeforeAbort c
     \<and> 0 \<le> ErrorRateWindowSeconds c"
  by (simp add: validate_criteria_def not_less)

lemma mode_of_plan:
  assumes "sts \<noteq> []"
  shows "percent_plan sts \<Longrightarrow> effective_mode (hd sts) = RolloutStageModePercent"
    and "label_plan sts \<Longrightarrow> effective_mode (hd sts) = RolloutStageModeLabel"
  using assms by (simp_all add: percent_plan_def label_plan_def)

text \<open>
  The create request is accepted exactly when it describes a runnable plan: the required
  identifiers are present, all stages share one mode, percentages lie in (0, 100], never decrease and
  end at 100, label selectors are non-empty with non-empty keys and values, and no dwell time or abort
  threshold is negative.
\<close>
theorem validateRolloutInput_accepts_exactly:
  "validateRolloutInput inp = None \<longleftrightarrow> runnable_input inp"
proof -
  define sts where "sts = in_Stages inp"
  define mode where "mode = effective_mode (hd sts)"
  show ?thesis
  proof (cases "in_Name inp = [] \<or> in_GroupID inp = [] \<or> in_TargetConfigID inp = [] \<or> sts = []")
    case True
    then show ?thesis
      by (auto simp: validateRolloutInput_def runnable_input_def sts_def)
  next
    case False
    then have ne: "sts \<noteq> []" by simp
    consider "mode = RolloutStageModePercent" | "mode = RolloutStageModeLabel"
      | "mode \<noteq> RolloutStageModePercent" "mode \<noteq> RolloutStageModeLabel" by blast
    then show ?thesis
    proof cases
      case 1
      with mode_of_plan(2) [OF ne] have "\<not> label_plan sts" by (auto simp: mode_def)
      with 1 False show ?thesis using validate_stages_percent [of 0 None sts]
        by (cases "validate_stages mode 0 None sts")
           (auto simp: validateRolloutInput_def runnable_input_def Let_def validate_criteria_None
              percent_plan_def simp flip: mode_def sts_def)
    next
      case 2
      with mode_of_plan(1) [OF ne] have "\<not> percent_plan sts" by (auto simp: mode_def)
      with 2 False show ?thesis using validate_stages_label [of 0 None sts]
        by (cases "validate_stages mode 0 None sts")
           (auto simp: validateRolloutInput_def runnable_input_def Let_def validate_criteria_None
              simp flip: mode_def sts_def)
    next
      case 3
      with mode_of_plan [OF ne] have "\<not> percent_plan sts" "\<not> label_plan sts"
        by (auto simp: mode_def)
      with 3 False show ?thesis
        by (auto simp: validateRolloutInput_def runnable_input_def Let_def
              simp flip: mode_def sts_def)
    qed
  qed
qed

lemma normalizeStages_length [simp]: "length (normalizeStages sts) = length sts"
  by (simp add: normalizeStages_def)

lemma normalizeStages_mode: "st \<in> set (normalizeStages sts) \<Longrightarrow> Mode st \<noteq> []"
  by (auto simp: normalizeStages_def split: if_splits)

end
