(* ===== verification/App_Store.thy ===== *)
theory App_Store
  imports Rollout_Types
begin

text \<open>
  The operational tables of the in-memory application store
  (\<open>storage/applicationstore/memory/memory.go\<close>): agents, groups, configs, rollouts and the
  append-only log of rollout approvals.  Every Go map is an association list from the key to the row;
  deep copies are values.  A UUID is its canonical string.  \<open>time.Now()\<close> is an argument.
\<close>

section \<open>Rows and state\<close>

datatype AgentStatus = AgentStatusOnline | AgentStatusOffline | AgentStatusError

record Agent =
  ag_ID :: string
  ag_Name :: string
  ag_Labels :: "(string \<times> string) list"
  ag_Status :: AgentStatus
  ag_LastSeen :: gotime
  ag_GroupID :: "string option"
  ag_GroupName :: "string option"
  ag_Version :: string
  ag_Capabilities :: "string list"
  ag_EffectiveConfig :: string
  ag_DeliveredConfigHash :: string
  ag_DiscoverySource :: string
  ag_DeletedAt :: "gotime option"
  ag_CreatedAt :: gotime
  ag_UpdatedAt :: gotime

record Group =
  gr_ID :: string
  gr_Name :: string
  gr_Labels :: "(string \<times> string) list"
  gr_RequireApproval :: bool
  gr_RequireApprovalForRollback :: bool
  gr_ChangeWindowsJSON :: string
  gr_LearnFromVerdicts :: bool
  gr_TenantID :: string
  gr_CreatedAt :: gotime
  gr_UpdatedAt :: gotime

record Config =
  cf_ID :: string
  cf_Name :: string
  cf_AgentID :: "string option"
  cf_GroupID :: "string option"
  cf_ConfigHash :: string
  cf_Content :: string
  cf_Version :: int
  cf_CreatedAt :: gotime
  cf_ArchivedAt :: "gotime option"

record ConfigFilter =
  cff_AgentID :: "string option"
  cff_GroupID :: "string option"
  cff_Limit :: int
  cff_IncludeArchived :: bool

record RolloutApproval =
  ra_Approver :: string
  ra_ApproverTokenID :: string
  ra_Notes :: string
  ra_ApprovedAt :: gotime

record AppStore =
  agents :: "(string \<times> Agent) list"
  groups :: "(string \<times> Group) list"
  configs :: "(string \<times> Config) list"
  rollouts :: "(string \<times> StoredRollout) list"
  rolloutApprovals :: "(string \<times> (string \<times> RolloutApproval) list) list"

definition empty_store :: AppStore where
  "empty_store = \<lparr>agents = [], groups = [], configs = [], rollouts = [], rolloutApprovals = []\<rparr>"

section \<open>Agents\<close>

definition CreateAgent :: "Agent \<Rightarrow> AppStore \<Rightarrow> AppStore result" where
  "CreateAgent agent s =
     (let agentCopy = agent\<lparr>ag_DeletedAt := None\<rparr> in
      case map_of (agents s) (ag_ID agent) of
        None \<Rightarrow> Inr (s\<lparr>agents := AList.update (ag_ID agent) agentCopy (agents s)\<rparr>)
      | Some existing \<Rightarrow>
          if ag_DeletedAt existing = None
          then Inl (OtherError (''agent already exists: '' @ ag_ID agent))
          else
            let c1 = (if IsZero (ag_CreatedAt existing) then agentCopy
                      else agentCopy\<lparr>ag_CreatedAt := ag_CreatedAt existing\<rparr>);
                c2 = (if ag_Name c1 = [] then c1\<lparr>ag_Name := ag_Name existing\<rparr> else c1)
            in Inr (s\<lparr>agents := AList.update (ag_ID agent) c2 (agents s)\<rparr>))"

definition GetAgent :: "string \<Rightarrow> AppStore \<Rightarrow> Agent option" where
  "GetAgent i s =
     (case map_of (agents s) i of
        None \<Rightarrow> None
      | Some agent \<Rightarrow> if ag_DeletedAt agent \<noteq> None then None else Some agent)"

definition ListAgents :: "AppStore \<Rightarrow> Agent list" where
  "ListAgents s = filter (\<lambda>agent. ag_DeletedAt agent = None) (map snd (agents s))"

text \<open>The shared shape of the single-field updates: the row must exist (a tombstone is accepted) and
  \<open>UpdatedAt\<close> is stamped.\<close>

definition modify_agent :: "string \<Rightarrow> (Agent \<Rightarrow> Agent) \<Rightarrow> AppStore \<Rightarrow> AppStore result" where
  "modify_agent i f s =
     (case map_of (agents s) i of
        None \<Rightarrow> Inl (OtherError (''agent not found: '' @ i))
      | Some agent \<Rightarrow> Inr (s\<lparr>agents := AList.update i (f agent) (agents s)\<rparr>))"

definition UpdateAgentStatus ::
  "gotime \<Rightarrow> string \<Rightarrow> AgentStatus \<Rightarrow> AppStore \<Rightarrow> AppStore result" where
  "UpdateAgentStatus now i status =
     modify_agent i (\<lambda>a. a\<lparr>ag_Status := status, ag_UpdatedAt := now\<rparr>)"

definition UpdateAgentLastSeen :: "gotime \<Rightarrow> string \<Rightarrow> gotime \<Rightarrow> AppStore \<Rightarrow> AppStore result" where
  "UpdateAgentLastSeen now i lastSeen =
     modify_agent i (\<lambda>a. a\<lparr>ag_LastSeen := lastSeen, ag_UpdatedAt := now\<rparr>)"

definition UpdateAgentEffectiveConfig ::
  "gotime \<Rightarrow> string \<Rightarrow> string \<Rightarrow> AppStore \<Rightarrow> AppStore result" where
  "UpdateAgentEffectiveConfig now i effectiveConfig =
     modify_agent i (\<lambda>a. a\<lparr>ag_EffectiveConfig := effectiveConfig, ag_UpdatedAt := now\<rparr>)"

definition UpdateAgentDeliveredConfigHash ::
  "gotime \<Rightarrow> string \<Rightarrow> string \<Rightarrow> AppStore \<Rightarrow> AppStore result" where
  "UpdateAgentDeliveredConfigHash now i hash =
     modify_agent i (\<lambda>a. a\<lparr>ag_DeliveredConfigHash := hash, ag_UpdatedAt := now\<rparr>)"

definition UpdateAgentRegistration :: "gotime \<Rightarrow> Agent \<Rightarrow> AppStore \<Rightarrow> AppStore result" where
  "UpdateAgentRegistration now agent s =
     (case GetAgent (ag_ID agent) s of
        None \<Rightarrow> Inl (OtherError (''agent not found: '' @ ag_ID agent))
      | Some existing \<Rightarrow>
          let e1 = (if ag_Name agent = [] then existing else existing\<lparr>ag_Name := ag_Name agent\<rparr>);
              e2 = e1\<lparr>ag_Labels := ag_Labels agent, ag_Version := ag_Version agent,
                      ag_GroupID := ag_GroupID agent, ag_GroupName := ag_GroupName agent\<rparr>;
              e3 = (if ag_Capabilities agent = [] then e2
                    else e2\<lparr>ag_Capabilities := ag_Capabilities agent\<rparr>)
          in Inr (s\<lparr>agents := AList.update (ag_ID agent) (e3\<lparr>ag_UpdatedAt := now\<rparr>) (agents s)\<rparr>))"

definition DeleteAgent :: "gotime \<Rightarrow> string \<Rightarrow> AppStore \<Rightarrow> AppStore result" where
  "DeleteAgent now i = modify_agent i (\<lambda>a. a\<lparr>ag_DeletedAt := Some now, ag_UpdatedAt := now\<rparr>)"

definition RestoreAgent :: "gotime \<Rightarrow> string \<Rightarrow> AppStore \<Rightarrow> AppStore result" where
  "RestoreAgent now i s =
     (case map_of (agents s) i of
        None \<Rightarrow> Inl (OtherError (''agent not found or not decommissioned: '' @ i))
      | Some agent \<Rightarrow>
          if ag_DeletedAt agent = None
          then Inl (OtherError (''agent not found or not decommissioned: '' @ i))
          else Inr (s\<lparr>agents := AList.update i (agent\<lparr>ag_DeletedAt := None, ag_UpdatedAt := now\<rparr>)
                                  (agents s)\<rparr>))"

definition PurgeAgent :: "string \<Rightarrow> AppStore \<Rightarrow> AppStore result" where
  "PurgeAgent i s =
     (if map_of (agents s) i = None then Inl (OtherError (''agent not found: '' @ i))
      else Inr (s\<lparr>agents := AList.delete i (agents s)\<rparr>))"

section \<open>Groups\<close>

definition CreateGroup :: "Group \<Rightarrow> AppStore \<Rightarrow> AppStore result" where
  "CreateGroup g s =
     (if map_of (groups s) (gr_ID g) \<noteq> None
      then Inl (OtherError (''group already exists: '' @ gr_ID g))
      else Inr (s\<lparr>groups := AList.update (gr_ID g) g (groups s)\<rparr>))"

definition GetGroup :: "string \<Rightarrow> AppStore \<Rightarrow> Group option" where
  "GetGroup i s = map_of (groups s) i"

definition ListGroups :: "AppStore \<Rightarrow> Group list" where
  "ListGroups s = map snd (groups s)"

definition UpdateGroup :: "Group \<Rightarrow> AppStore \<Rightarrow> AppStore result" where
  "UpdateGroup g s =
     (case map_of (groups s) (gr_ID g) of
        None \<Rightarrow> Inl (OtherError (''group not found: '' @ gr_ID g))
      | Some existing \<Rightarrow>
          Inr (s\<lparr>groups := AList.update (gr_ID g)
                 (existing\<lparr>gr_Name := gr_Name g, gr_Labels := gr_Labels g,
                    gr_RequireApproval := gr_RequireApproval g,
                    gr_RequireApprovalForRollback := gr_RequireApprovalForRollback g,
                    gr_ChangeWindowsJSON := gr_ChangeWindowsJSON g,
                    gr_LearnFromVerdicts := gr_LearnFromVerdicts g,
                    gr_UpdatedAt := gr_UpdatedAt g\<rparr>) (groups s)\<rparr>))"

definition DeleteGroup :: "gotime \<Rightarrow> string \<Rightarrow> AppStore \<Rightarrow> AppStore result" where
  "DeleteGroup now i s =
     (if map_of (groups s) i = None then Inl (OtherError (''group not found: '' @ i))
      else Inr (s\<lparr>agents := map (\<lambda>(k, a).
                       (k, if ag_GroupID a = Some i
                           then a\<lparr>ag_GroupID := None, ag_GroupName := None, ag_UpdatedAt := now\<rparr>
                           else a)) (agents s),
                  configs := filter (\<lambda>(k, c). cf_GroupID c \<noteq> Some i) (configs s),
                  groups := AList.delete i (groups s)\<rparr>))"

section \<open>Configs\<close>

definition store_CreateConfig :: "Config \<Rightarrow> AppStore \<Rightarrow> AppStore result" where
  "store_CreateConfig c s =
     (if map_of (configs s) (cf_ID c) \<noteq> None
      then Inl (OtherError (''config already exists: '' @ cf_ID c))
      else Inr (s\<lparr>configs := AList.update (cf_ID c) c (configs s)\<rparr>))"

definition GetConfig :: "string \<Rightarrow> AppStore \<Rightarrow> Config option" where
  "GetConfig i s = map_of (configs s) i"

text \<open>The scan for the newest row, shared by the agent and the group resolver.\<close>

fun latest_scan :: "(Config \<Rightarrow> bool) \<Rightarrow> Config option \<Rightarrow> Config list \<Rightarrow> Config option" where
  "latest_scan P best [] = best"
| "latest_scan P best (c # cs) =
     (if P c then
        (case best of
           None \<Rightarrow> latest_scan P (Some c) cs
         | Some b \<Rightarrow>
             if cf_Version c > cf_Version b
                \<or> (cf_Version c = cf_Version b \<and> cf_CreatedAt c > cf_CreatedAt b)
             then latest_scan P (Some c) cs else latest_scan P best cs)
      else latest_scan P best cs)"

definition GetLatestConfigForAgent :: "string \<Rightarrow> AppStore \<Rightarrow> Config option" where
  "GetLatestConfigForAgent agentID s =
     latest_scan (\<lambda>c. cf_AgentID c = Some agentID) None (map snd (configs s))"

definition GetLatestConfigForGroup :: "string \<Rightarrow> AppStore \<Rightarrow> Config option" where
  "GetLatestConfigForGroup groupID s =
     latest_scan (\<lambda>c. cf_GroupID c = Some groupID) None (map snd (configs s))"

definition ListConfigs :: "ConfigFilter \<Rightarrow> AppStore \<Rightarrow> Config list" where
  "ListConfigs f s =
     (let cs = filter (\<lambda>c.
            \<not> (\<not> cff_IncludeArchived f \<and> cf_ArchivedAt c \<noteq> None)
            \<and> \<not> (cff_AgentID f \<noteq> None \<and> cf_AgentID c \<noteq> cff_AgentID f)
            \<and> \<not> (cff_GroupID f \<noteq> None \<and> cf_GroupID c \<noteq> cff_GroupID f)) (map snd (configs s))
      in if cff_Limit f > 0 \<and> int (length cs) > cff_Limit f then take (nat (cff_Limit f)) cs else cs)"

definition DeleteConfig :: "string \<Rightarrow> AppStore \<Rightarrow> AppStore" where
  "DeleteConfig i s = s\<lparr>configs := AList.delete i (configs s)\<rparr>"

definition DeleteConfigsForAgent :: "string \<Rightarrow> AppStore \<Rightarrow> AppStore" where
  "DeleteConfigsForAgent agentID s =
     s\<lparr>configs := filter (\<lambda>(k, c). cf_AgentID c \<noteq> Some agentID) (configs s)\<rparr>"

definition SetConfigArchived :: "gotime \<Rightarrow> string \<Rightarrow> bool \<Rightarrow> AppStore \<Rightarrow> AppStore result" where
  "SetConfigArchived now i archived s =
     (case map_of (configs s) i of
        None \<Rightarrow> Inl (ConfigNotFound i)
      | Some c \<Rightarrow>
          Inr (s\<lparr>configs := AList.update i
                 (c\<lparr>cf_ArchivedAt := (if archived then Some now else None)\<rparr>) (configs s)\<rparr>))"

section \<open>Rollouts and approvals\<close>

definition approvals_of :: "string \<Rightarrow> AppStore \<Rightarrow> (string \<times> RolloutApproval) list" where
  "approvals_of rolloutID s =
     (case map_of (rolloutApprovals s) rolloutID of None \<Rightarrow> [] | Some inner \<Rightarrow> inner)"

definition RecordRolloutApproval ::
  "string \<Rightarrow> string \<Rightarrow> string \<Rightarrow> string \<Rightarrow> gotime \<Rightarrow> AppStore \<Rightarrow> AppStore" where
  "RecordRolloutApproval rolloutID approver tokenID notes ts s =
     (let inner = approvals_of rolloutID s;
          inner' = (if map_of inner approver \<noteq> None then inner
                    else AList.update approver
                      \<lparr>ra_Approver = approver, ra_ApproverTokenID = tokenID, ra_Notes = notes,
                       ra_ApprovedAt = ts\<rparr> inner)
      in s\<lparr>rolloutApprovals := AList.update rolloutID inner' (rolloutApprovals s)\<rparr>)"

definition CountRolloutApprovers :: "string \<Rightarrow> AppStore \<Rightarrow> int" where
  "CountRolloutApprovers rolloutID s = int (length (approvals_of rolloutID s))"

definition ListRolloutApprovers :: "string \<Rightarrow> AppStore \<Rightarrow> RolloutApproval list" where
  "ListRolloutApprovers rolloutID s = sort_key ra_ApprovedAt (map snd (approvals_of rolloutID s))"

text \<open>The defaults both write paths of the store apply.\<close>

definition default_row :: "StoredRollout \<Rightarrow> StoredRollout" where
  "default_row r =
     (let r1 = (if ro_ProposedBy r = [] then r\<lparr>ro_ProposedBy := RolloutProposedByOperator\<rparr> else r)
      in if ro_StepKind r1 = [] then r1\<lparr>ro_StepKind := StepKindRollout\<rparr> else r1)"

definition CreateRollout :: "StoredRollout \<Rightarrow> AppStore \<Rightarrow> AppStore result" where
  "CreateRollout r s =
     (if map_of (rollouts s) (ro_ID r) \<noteq> None then Inl (RolloutAlreadyExists (ro_ID r))
      else let c = default_row r;
               c' = (if ro_Version c = 0 then c\<lparr>ro_Version := 1\<rparr> else c)
           in Inr (s\<lparr>rollouts := AList.update (ro_ID r) c' (rollouts s)\<rparr>))"

definition GetRollout :: "string \<Rightarrow> AppStore \<Rightarrow> StoredRollout option" where
  "GetRollout i s = map_of (rollouts s) i"

text \<open>\<open>sort.Slice\<close> by creation time, newest first.\<close>

definition ListRollouts :: "RolloutFilter \<Rightarrow> AppStore \<Rightarrow> StoredRollout list" where
  "ListRollouts f s =
     (let lim = (if rf_Limit f \<le> 0 then 100 else rf_Limit f);
          lim = (if lim > 1000 then 1000 else lim);
          ms = filter (\<lambda>r.
            \<not> (rf_GroupID f \<noteq> [] \<and> ro_GroupID r \<noteq> rf_GroupID f)
            \<and> \<not> (rf_State f \<noteq> None \<and> Some (ro_State r) \<noteq> rf_State f)
            \<and> \<not> (rf_PlanID f \<noteq> [] \<and> ro_PlanID r \<noteq> rf_PlanID f)) (map snd (rollouts s))
      in take (nat lim) (sort_key (\<lambda>r. - ro_CreatedAt r) ms))"

text \<open>The compare-and-swap update.  On success the caller's object gets the new version written back
  when it carried one; a version of 0 asks for a blind write.\<close>

definition UpdateRollout :: "StoredRollout \<Rightarrow> AppStore \<Rightarrow> (StoredRollout \<times> AppStore) result" where
  "UpdateRollout r s =
     (case map_of (rollouts s) (ro_ID r) of
        None \<Rightarrow> Inl (ErrRolloutNotFound (ro_ID r))
      | Some stored \<Rightarrow>
          let c = default_row r in
          if ro_Version r > 0 then
            (if ro_Version stored \<noteq> ro_Version r then Inl ErrRolloutConflict
             else Inr (r\<lparr>ro_Version := ro_Version r + 1\<rparr>,
                       s\<lparr>rollouts := AList.update (ro_ID r)
                            (c\<lparr>ro_Version := ro_Version r + 1\<rparr>) (rollouts s)\<rparr>))
          else Inr (r, s\<lparr>rollouts := AList.update (ro_ID r)
                            (c\<lparr>ro_Version := ro_Version stored + 1\<rparr>) (rollouts s)\<rparr>))"


section \<open>A versioned store: what compare-and-swap promises\<close>

definition try_write :: "('r \<Rightarrow> 's \<Rightarrow> ('r \<times> 's) result) \<Rightarrow> 'r \<Rightarrow> 's \<Rightarrow> 's" where
  "try_write upd r s = (case upd r s of Inl _ \<Rightarrow> s | Inr (_, s') \<Rightarrow> s')"

text \<open>The contract between the rollout table and its two concurrent clients (the API service and the
  engine): a committed write of a row advances the version of that row by one and touches no other,
  and a write that carries a version commits only against that version.\<close>

locale versioned_store =
  fixes get :: "'k \<Rightarrow> 's \<Rightarrow> 'r option"
    and upd :: "'r \<Rightarrow> 's \<Rightarrow> ('r \<times> 's) result"
    and key :: "'r \<Rightarrow> 'k"
    and version :: "'r \<Rightarrow> int"
  assumes commit: "upd r s = Inr (r', s') \<Longrightarrow>
      \<exists>old new. get (key r) s = Some old \<and> get (key r) s' = Some new
        \<and> version new = version old + 1 \<and> (0 < version r \<longrightarrow> version r = version old)"
    and commit_other: "upd r s = Inr (r', s') \<Longrightarrow> k \<noteq> key r \<Longrightarrow> get k s' = get k s"
    and stale: "get (key r) s = Some old \<Longrightarrow> 0 < version r \<Longrightarrow> version r \<noteq> version old \<Longrightarrow>
      upd r s = Inl ErrRolloutConflict"
begin

lemma try_write_mono:
  assumes "get k s = Some old"
  shows "\<exists>new. get k (try_write upd r s) = Some new \<and> version old \<le> version new"
proof (cases "upd r s")
  case (Inl e)
  then show ?thesis using assms by (simp add: try_write_def)
next
  case (Inr p)
  obtain r' s' where p: "p = (r', s')" by (cases p)
  show ?thesis
  proof (cases "k = key r")
    case True
    with commit [of r s r' s'] Inr p assms show ?thesis
      by (auto simp: try_write_def)
  next
    case False
    with commit_other [of r s r' s' k] Inr p assms show ?thesis
      by (simp add: try_write_def)
  qed
qed

lemma writes_mono:
  "get k s = Some old \<Longrightarrow> \<exists>new. get k (fold (try_write upd) ws s) = Some new \<and> version old \<le> version new"
proof (induction ws arbitrary: s old)
  case (Cons w ws)
  obtain new where "get k (try_write upd w s) = Some new" "version old \<le> version new"
    using try_write_mono [OF Cons.prems] by blast
  then show ?case using Cons.IH [of "try_write upd w s" new] by fastforce
qed simp

lemma no_lost_update:
  assumes loaded: "get (key w) s = Some row" "0 < version row"
    and committed: "upd w s = Inr (w', s')"
    and stale_write: "key r = key w" "version r = version row"
  shows "upd r (fold (try_write upd) ws s') = Inl ErrRolloutConflict"
proof -
  obtain new where new: "get (key w) s' = Some new" "version new = version row + 1"
    using commit [OF committed] loaded by auto
  obtain cur where "get (key w) (fold (try_write upd) ws s') = Some cur" "version new \<le> version cur"
    using writes_mono [OF new(1)] by blast
  with new loaded stale_write show ?thesis by (intro stale [of r _ cur]) auto
qed

end

lemma default_row_simps [simp]:
  "ro_ID (default_row r) = ro_ID r"
  "ro_Name (default_row r) = ro_Name r"
  "ro_GroupID (default_row r) = ro_GroupID r"
  "ro_TargetConfigID (default_row r) = ro_TargetConfigID r"
  "ro_PreviousConfigID (default_row r) = ro_PreviousConfigID r"
  "ro_Stages (default_row r) = ro_Stages r"
  "ro_AbortCriteria (default_row r) = ro_AbortCriteria r"
  "ro_NotificationURL (default_row r) = ro_NotificationURL r"
  "ro_State (default_row r) = ro_State r"
  "ro_CurrentStage (default_row r) = ro_CurrentStage r"
  "ro_StageStartedAt (default_row r) = ro_StageStartedAt r"
  "ro_AbortReason (default_row r) = ro_AbortReason r"
  "ro_PushedAgentIDs (default_row r) = ro_PushedAgentIDs r"
  "ro_RequireApproval (default_row r) = ro_RequireApproval r"
  "ro_RequestedBy (default_row r) = ro_RequestedBy r"
  "ro_ApprovedBy (default_row r) = ro_ApprovedBy r"
  "ro_ApprovedAt (default_row r) = ro_ApprovedAt r"
  "ro_RejectedBy (default_row r) = ro_RejectedBy r"
  "ro_RejectedAt (default_row r) = ro_RejectedAt r"
  "ro_ApprovalNotes (default_row r) = ro_ApprovalNotes r"
  "ro_RequiredApprovals (default_row r) = ro_RequiredApprovals r"
  "ro_LastBlackoutReason (default_row r) = ro_LastBlackoutReason r"
  "ro_LastBlackoutAt (default_row r) = ro_LastBlackoutAt r"
  "ro_ProposalReasoning (default_row r) = ro_ProposalReasoning r"
  "ro_EvidenceRefs (default_row r) = ro_EvidenceRefs r"
  "ro_RolledBackFromID (default_row r) = ro_RolledBackFromID r"
  "ro_PlanID (default_row r) = ro_PlanID r"
  "ro_PlanStepIndex (default_row r) = ro_PlanStepIndex r"
  "ro_ActionRequestID (default_row r) = ro_ActionRequestID r"
  "ro_ExcludeFromLearning (default_row r) = ro_ExcludeFromLearning r"
  "ro_Version (default_row r) = ro_Version r"
  "ro_CreatedAt (default_row r) = ro_CreatedAt r"
  "ro_UpdatedAt (default_row r) = ro_UpdatedAt r"
  "ro_CompletedAt (default_row r) = ro_CompletedAt r"
  by (simp_all add: default_row_def Let_def)

interpretation rows: versioned_store GetRollout UpdateRollout ro_ID ro_Version
proof unfold_locales
  fix r :: StoredRollout and s r' s'
  assume "UpdateRollout r s = Inr (r', s')"
  then show "\<exists>old new. GetRollout (ro_ID r) s = Some old \<and> GetRollout (ro_ID r) s' = Some new
      \<and> ro_Version new = ro_Version old + 1 \<and> (0 < ro_Version r \<longrightarrow> ro_Version r = ro_Version old)"
    by (auto simp: UpdateRollout_def GetRollout_def Let_def split: option.splits if_splits)
next
  fix r :: StoredRollout and s r' s' k
  assume "UpdateRollout r s = Inr (r', s')" "k \<noteq> ro_ID r"
  then show "GetRollout k s' = GetRollout k s"
    by (auto simp: UpdateRollout_def GetRollout_def Let_def split: option.splits if_splits)
next
  fix r :: StoredRollout and s old
  assume "GetRollout (ro_ID r) s = Some old" "0 < ro_Version r" "ro_Version r \<noteq> ro_Version old"
  then show "UpdateRollout r s = Inl ErrRolloutConflict"
    by (simp add: UpdateRollout_def GetRollout_def)
qed

text \<open>
  C28: No lost update on the rollout table.  Once any write to a row has committed, a second writer
  that still carries the version it loaded before is refused with the conflict error, whatever other
  writes (blind or versioned, to this or other rows, succeeding or failing) happen in between.
\<close>
theorem UpdateRollout_no_lost_update:
  assumes "GetRollout (ro_ID w) s = Some row" and "0 < ro_Version row"
    and "UpdateRollout w s = Inr (w', s')"
    and "ro_ID r = ro_ID w" and "ro_Version r = ro_Version row"
  shows "UpdateRollout r (fold (try_write UpdateRollout) ws s') = Inl ErrRolloutConflict"
  using assms by (rule rows.no_lost_update)

definition sample_rollout :: StoredRollout where
  "sample_rollout = (toStorageRollout zero_rollout)\<lparr>ro_ID := ''r1'', ro_Version := 1\<rparr>"

definition sample_rollout_store :: AppStore where
  "sample_rollout_store = empty_store\<lparr>rollouts := [(''r1'', sample_rollout)]\<rparr>"

lemma sample_rollout_simps [simp]: "ro_ID sample_rollout = ''r1''" "ro_Version sample_rollout = 1"
  by (simp_all add: sample_rollout_def)

theorem UpdateRollout_no_lost_update_witness:
  "UpdateRollout (sample_rollout\<lparr>ro_State := RolloutStateInProgress\<rparr>)
     (snd (projr (UpdateRollout (sample_rollout\<lparr>ro_State := RolloutStateAborted\<rparr>) sample_rollout_store)))
   = Inl ErrRolloutConflict"
proof -
  define w where "w = sample_rollout\<lparr>ro_State := RolloutStateAborted\<rparr>"
  have "\<exists>w' s'. UpdateRollout w sample_rollout_store = Inr (w', s')"
    by (simp add: UpdateRollout_def w_def sample_rollout_store_def empty_store_def)
  then obtain w' s' where u: "UpdateRollout w sample_rollout_store = Inr (w', s')" by blast
  have "GetRollout (ro_ID w) sample_rollout_store = Some sample_rollout"
    by (simp add: GetRollout_def w_def sample_rollout_store_def empty_store_def)
  from UpdateRollout_no_lost_update [OF this _ u, of "sample_rollout\<lparr>ro_State := RolloutStateInProgress\<rparr>" "[]"]
  show ?thesis using u by (simp add: w_def)
qed

section \<open>Well-formed stores\<close>

text \<open>Rows sit under their own identifier, each identifier once, with a version of at least 1.\<close>

definition rollouts_ok :: "AppStore \<Rightarrow> bool" where
  "rollouts_ok s \<longleftrightarrow> distinct (map fst (rollouts s))
     \<and> (\<forall>(i, r) \<in> set (rollouts s). ro_ID r = i \<and> 0 < ro_Version r)"

lemma rollouts_ok_empty [simp]: "rollouts_ok empty_store"
  by (simp add: rollouts_ok_def empty_store_def)

lemma rollouts_ok_get: "rollouts_ok s \<Longrightarrow> GetRollout i s = Some r \<Longrightarrow> ro_ID r = i \<and> 0 < ro_Version r"
  by (auto simp: rollouts_ok_def GetRollout_def dest!: map_of_SomeD)

lemma rollouts_ok_write:
  assumes "rollouts_ok s" "ro_ID r = i" "0 < ro_Version r"
  shows "rollouts_ok (s\<lparr>rollouts := AList.update i r (rollouts s)\<rparr>)"
  using assms set_update_subset [of i r "rollouts s"]
  by (auto simp: rollouts_ok_def distinct_update)

lemma rollouts_ok_CreateRollout:
  "rollouts_ok s \<Longrightarrow> 0 \<le> ro_Version r \<Longrightarrow> CreateRollout r s = Inr s' \<Longrightarrow> rollouts_ok s'"
  by (auto simp: CreateRollout_def Let_def intro!: rollouts_ok_write split: if_splits)

lemma rollouts_ok_UpdateRollout:
  assumes "rollouts_ok s" "UpdateRollout r s = Inr (r', s')"
  shows "rollouts_ok s'"
proof -
  obtain stored where st: "map_of (rollouts s) (ro_ID r) = Some stored"
    using assms(2) by (auto simp: UpdateRollout_def split: option.splits)
  then have "0 < ro_Version stored" using rollouts_ok_get [OF assms(1), of "ro_ID r" stored]
    by (simp add: GetRollout_def)
  with st assms show ?thesis
    by (auto simp: UpdateRollout_def Let_def intro!: rollouts_ok_write split: if_splits)
qed

section \<open>Config resolution\<close>

definition config_le :: "Config \<Rightarrow> Config \<Rightarrow> bool" where
  "config_le a b \<longleftrightarrow>
     cf_Version a < cf_Version b \<or> (cf_Version a = cf_Version b \<and> cf_CreatedAt a \<le> cf_CreatedAt b)"

lemma config_le_trans: "config_le a b \<Longrightarrow> config_le b c \<Longrightarrow> config_le a c"
  by (auto simp: config_le_def)

lemma latest_scan_best:
  assumes "latest_scan P best cs = Some c" "\<forall>b. best = Some b \<longrightarrow> P b"
  shows "P c \<and> (best = Some c \<or> c \<in> set cs) \<and> (\<forall>b. best = Some b \<longrightarrow> config_le b c)
    \<and> (\<forall>d \<in> set cs. P d \<longrightarrow> config_le d c)"
  using assms
proof (induction P best cs rule: latest_scan.induct)
  case (1 P best)
  then show ?case by (auto simp: config_le_def)
next
  case (2 P best d cs)
  show ?case
  proof (cases "P d")
    case False
    with 2 show ?thesis by auto
  next
    case Pd: True
    show ?thesis
    proof (cases best)
      case None
      with 2 Pd show ?thesis by auto
    next
      case (Some b)
      show ?thesis
      proof (cases "cf_Version d > cf_Version b
          \<or> (cf_Version d = cf_Version b \<and> cf_CreatedAt d > cf_CreatedAt b)")
        case True
        with 2 Pd Some have "P c \<and> (d = c \<or> c \<in> set cs) \<and> config_le d c
            \<and> (\<forall>e \<in> set cs. P e \<longrightarrow> config_le e c)" by auto
        moreover from True have "config_le b d" by (auto simp: config_le_def)
        ultimately show ?thesis using Some by (auto dest: config_le_trans)
      next
        case False
        with 2 Pd Some have "P c \<and> (b = c \<or> c \<in> set cs) \<and> config_le b c
            \<and> (\<forall>e \<in> set cs. P e \<longrightarrow> config_le e c)" by auto
        moreover from False have "config_le d b" by (auto simp: config_le_def)
        ultimately show ?thesis using Some by (auto dest: config_le_trans)
      qed
    qed
  qed
qed

lemma latest_scan_None:
  "latest_scan P best cs = None \<longleftrightarrow> best = None \<and> (\<forall>c \<in> set cs. \<not> P c)"
  by (induction P best cs rule: latest_scan.induct) (auto split: option.splits)

lemma latest_scan_append: "latest_scan P b (xs @ ys) = latest_scan P (latest_scan P b xs) ys"
  by (induction P b xs rule: latest_scan.induct) (auto split: option.splits)

lemma latest_scan_other: "\<not> P c \<Longrightarrow> latest_scan P b (cs @ [c]) = latest_scan P b cs"
  by (simp add: latest_scan_append)

lemma latest_scan_new:
  assumes "P c" "\<And>b. latest_scan P None cs = Some b \<Longrightarrow> cf_Version b < cf_Version c"
  shows "latest_scan P None (cs @ [c]) = Some c"
  using assms by (cases "latest_scan P None cs") (auto simp: latest_scan_append)

lemma update_fresh: "map_of al k = None \<Longrightarrow> AList.update k v al = al @ [(k, v)]"
  by (induction al) (auto split: if_splits)

lemma store_CreateConfig_fresh:
  "store_CreateConfig c s = Inr s' \<longleftrightarrow>
     map_of (configs s) (cf_ID c) = None \<and> s' = s\<lparr>configs := configs s @ [(cf_ID c, c)]\<rparr>"
  by (auto simp: store_CreateConfig_def update_fresh)

text \<open>
  The config that governs a group is a row of that group that no other row of the group exceeds in
  version, or in creation time at equal version; there is none exactly when the group has no row.
\<close>
theorem GetLatestConfigForGroup_greatest:
  "case GetLatestConfigForGroup g s of
     None \<Rightarrow> \<forall>c \<in> snd ` set (configs s). cf_GroupID c \<noteq> Some g
   | Some c \<Rightarrow> c \<in> snd ` set (configs s) \<and> cf_GroupID c = Some g
       \<and> (\<forall>d \<in> snd ` set (configs s). cf_GroupID d = Some g \<longrightarrow> config_le d c)"
proof (cases "GetLatestConfigForGroup g s")
  case None
  with latest_scan_None [of "\<lambda>c. cf_GroupID c = Some g" None "map snd (configs s)"] show ?thesis
    by (simp add: GetLatestConfigForGroup_def)
next
  case (Some c)
  with latest_scan_best [of "\<lambda>c. cf_GroupID c = Some g" None "map snd (configs s)" c]
  show ?thesis by (simp add: GetLatestConfigForGroup_def)
qed


definition sample_config :: "string \<Rightarrow> int \<Rightarrow> Config" where
  "sample_config i v = \<lparr>cf_ID = i, cf_Name = ''n'', cf_AgentID = None, cf_GroupID = Some ''g'',
     cf_ConfigHash = [], cf_Content = ''a: 1'', cf_Version = v, cf_CreatedAt = 5, cf_ArchivedAt = None\<rparr>"

definition sample_configs :: AppStore where
  "sample_configs = empty_store\<lparr>configs := [(''c1'', sample_config ''c1'' 1), (''c2'', sample_config ''c2'' 2)]\<rparr>"

theorem GetLatestConfigForGroup_greatest_witness:
  "GetLatestConfigForGroup ''g'' sample_configs = Some (sample_config ''c2'' 2)
   \<and> config_le (sample_config ''c1'' 1) (sample_config ''c2'' 2)"
proof -
  have "GetLatestConfigForGroup ''g'' sample_configs = Some (sample_config ''c2'' 2)"
    by (simp add: GetLatestConfigForGroup_def sample_configs_def empty_store_def sample_config_def)
  with GetLatestConfigForGroup_greatest [where g = "''g''" and s = sample_configs] show ?thesis
    by (simp add: sample_configs_def empty_store_def) (simp add: sample_config_def)
qed

section \<open>Agent and group lifecycle\<close>

text \<open>
  Deleting a group leaves nothing that points at it: no agent stays a member, no group-scoped config
  survives and the group is gone, while agents of other groups and all other configs and groups are
  untouched and no agent is removed.
\<close>
theorem DeleteGroup_no_dangling:
  assumes "DeleteGroup now g s = Inr s'"
  shows "GetGroup g s' = None
    \<and> (\<forall>a \<in> snd ` set (agents s'). ag_GroupID a \<noteq> Some g)
    \<and> GetLatestConfigForGroup g s' = None
    \<and> map fst (agents s') = map fst (agents s)
    \<and> (\<forall>k a. (k, a) \<in> set (agents s) \<and> ag_GroupID a \<noteq> Some g \<longrightarrow> (k, a) \<in> set (agents s'))
    \<and> (\<forall>k c. (k, c) \<in> set (configs s') \<longleftrightarrow> (k, c) \<in> set (configs s) \<and> cf_GroupID c \<noteq> Some g)
    \<and> (\<forall>k. k \<noteq> g \<longrightarrow> GetGroup k s' = GetGroup k s)
    \<and> rollouts s' = rollouts s"
proof -
  define mv :: "Agent \<Rightarrow> Agent" where "mv = (\<lambda>a. if ag_GroupID a = Some g
    then a\<lparr>ag_GroupID := None, ag_GroupName := None, ag_UpdatedAt := now\<rparr> else a)"
  have s': "s' = s\<lparr>agents := map (\<lambda>(k, a). (k, mv a)) (agents s),
      configs := filter (\<lambda>(k, c). cf_GroupID c \<noteq> Some g) (configs s), groups := AList.delete g (groups s)\<rparr>"
    using assms by (auto simp: DeleteGroup_def mv_def split: if_splits)
  have mv_not: "ag_GroupID (mv a) \<noteq> Some g" for a by (simp add: mv_def)
  have mv_id: "ag_GroupID a \<noteq> Some g \<Longrightarrow> mv a = a" for a by (simp add: mv_def)
  have "GetLatestConfigForGroup g s' = None"
    unfolding GetLatestConfigForGroup_def latest_scan_None by (auto simp: s')
  moreover have "map fst (agents s') = map fst (agents s)"
    by (simp add: s' case_prod_beta)
  moreover have "\<forall>k a. (k, a) \<in> set (agents s) \<and> ag_GroupID a \<noteq> Some g \<longrightarrow> (k, a) \<in> set (agents s')"
  proof (intro allI impI, elim conjE)
    fix k a assume "(k, a) \<in> set (agents s)" "ag_GroupID a \<noteq> Some g"
    then have "(k, mv a) \<in> set (agents s')" "mv a = a" by (force simp: s', simp add: mv_id)
    then show "(k, a) \<in> set (agents s')" by simp
  qed
  ultimately show ?thesis by (auto simp: s' GetGroup_def mv_not)
qed

definition sample_group :: Group where
  "sample_group = \<lparr>gr_ID = ''g'', gr_Name = ''prod'', gr_Labels = [], gr_RequireApproval = False,
     gr_RequireApprovalForRollback = False, gr_ChangeWindowsJSON = [], gr_LearnFromVerdicts = True,
     gr_TenantID = [], gr_CreatedAt = 1, gr_UpdatedAt = 1\<rparr>"

theorem DeleteGroup_no_dangling_witness:
  "GetLatestConfigForGroup ''g'' (projr (DeleteGroup 7 ''g'' (sample_configs\<lparr>groups := [(''g'', sample_group)]\<rparr>))) = None"
proof -
  have "\<exists>s'. DeleteGroup 7 ''g'' (sample_configs\<lparr>groups := [(''g'', sample_group)]\<rparr>) = Inr s'"
    by (simp add: DeleteGroup_def)
  then obtain s' where s': "DeleteGroup 7 ''g'' (sample_configs\<lparr>groups := [(''g'', sample_group)]\<rparr>) = Inr s'"
    by blast
  then show ?thesis using DeleteGroup_no_dangling [OF s'] by simp
qed

text \<open>
  The agent life cycle.  A decommissioned agent is invisible; registering it again revives it under
  the same identifier with its original creation time and, when the new registration carries no name,
  its last known name; registering a live agent is refused.
\<close>
theorem CreateAgent_revives:
  assumes "map_of (agents s) (ag_ID a) = Some old"
  shows "(ag_DeletedAt old = None \<longrightarrow> (\<exists>e. CreateAgent a s = Inl e))
    \<and> (ag_DeletedAt old \<noteq> None \<longrightarrow> GetAgent (ag_ID a) s = None
       \<and> (\<exists>s' b. CreateAgent a s = Inr s' \<and> GetAgent (ag_ID a) s' = Some b \<and> ag_ID b = ag_ID a
            \<and> ag_CreatedAt b = (if IsZero (ag_CreatedAt old) then ag_CreatedAt a else ag_CreatedAt old)
            \<and> ag_Name b = (if ag_Name a = [] then ag_Name old else ag_Name a)
            \<and> ag_GroupID b = ag_GroupID a \<and> ag_Labels b = ag_Labels a
            \<and> (\<forall>i. i \<noteq> ag_ID a \<longrightarrow> GetAgent i s' = GetAgent i s)))"
  using assms by (auto simp: CreateAgent_def GetAgent_def Let_def)

definition sample_agent :: "string \<Rightarrow> Agent" where
  "sample_agent i = \<lparr>ag_ID = i, ag_Name = ''edge'', ag_Labels = [], ag_Status = AgentStatusOnline,
     ag_LastSeen = 9, ag_GroupID = Some ''g'', ag_GroupName = None, ag_Version = ''1'',
     ag_Capabilities = [''AcceptsRemoteConfig''], ag_EffectiveConfig = [], ag_DeliveredConfigHash = [],
     ag_DiscoverySource = ''opamp'', ag_DeletedAt = None, ag_CreatedAt = 3, ag_UpdatedAt = 3\<rparr>"

theorem CreateAgent_revives_witness:
  "\<exists>s' b. CreateAgent ((sample_agent ''a'')\<lparr>ag_Name := [], ag_CreatedAt := 50\<rparr>)
        (empty_store\<lparr>agents := [(''a'', (sample_agent ''a'')\<lparr>ag_DeletedAt := Some 8\<rparr>)]\<rparr>) = Inr s'
      \<and> GetAgent ''a'' s' = Some b \<and> ag_CreatedAt b = 3 \<and> ag_Name b = ''edge''"
  using CreateAgent_revives [of "empty_store\<lparr>agents := [(''a'', (sample_agent ''a'')\<lparr>ag_DeletedAt := Some 8\<rparr>)]\<rparr>"
      "(sample_agent ''a'')\<lparr>ag_Name := [], ag_CreatedAt := 50\<rparr>" "(sample_agent ''a'')\<lparr>ag_DeletedAt := Some 8\<rparr>"]
  by (simp add: sample_agent_def IsZero_def) blast

end
