(* ===== verification/Config_Norm.thy ===== *)
theory Config_Norm
  imports Sha256
begin

text \<open>
  Canonical config content (\<open>internal/confignorm/confignorm.go\<close>) and the preview diff built on it
  (\<open>internal/configdiff/configdiff.go\<close>).  The third-party diff library is a pair of parameters: how
  it splits a text into lines and the unified diff of two line lists (None for its error result).
\<close>

section \<open>Normalising and fingerprinting\<close>

definition LF :: char where "LF = CHR 0x0A"

definition CR :: char where "CR = CHR 0x0D"

definition Normalize :: "string \<Rightarrow> string" where
  "Normalize content = ReplaceAll (TrimSpace content) [CR, LF] [LF]"

definition Hash :: "string \<Rightarrow> string" where
  "Hash content =
     (let normalized = Normalize content
      in if normalized = [] then [] else hex_encode (sha256 normalized))"

section \<open>The preview diff\<close>

record DiffResult =
  diff_Unified :: string
  diff_Added :: int
  diff_Removed :: int
  diff_Identical :: bool

text \<open>\<open>itoa\<close> of configdiff, with its accumulating loop.\<close>

fun diff_itoa_loop :: "nat \<Rightarrow> string \<Rightarrow> string" where
  "diff_itoa_loop n out = (if n = 0 then out else diff_itoa_loop (n div 10) (digit (n mod 10) # out))"

declare diff_itoa_loop.simps [simp del]

definition diff_itoa :: "int \<Rightarrow> string" where
  "diff_itoa n =
     (if n = 0 then ''0''
      else let out = diff_itoa_loop (nat \<bar>n\<bar>) [] in if n < 0 then CHR ''-'' # out else out)"

fun Split_char :: "char \<Rightarrow> string \<Rightarrow> string list" where
  "Split_char c [] = [[]]"
| "Split_char c (x # s) =
     (if x = c then [] # Split_char c s
      else case Split_char c s of l # ls \<Rightarrow> (x # l) # ls | [] \<Rightarrow> [[x]])"

definition count_line :: "int \<times> int \<Rightarrow> string \<Rightarrow> int \<times> int" where
  "count_line ar line =
     (case ar of (added, removed) \<Rightarrow>
        if prefix ''+++ '' line \<or> prefix ''--- '' line then (added, removed)
        else if prefix ''@@'' line then (added, removed)
        else if line = [] then (added, removed)
        else if hd line = CHR ''+'' then (added + 1, removed)
        else if hd line = CHR ''-'' then (added, removed + 1)
        else (added, removed))"

definition countChanges :: "string \<Rightarrow> int \<times> int" where
  "countChanges unified = foldl count_line (0, 0) (Split_char LF unified)"

definition added_line :: "string \<Rightarrow> string" where
  "added_line l = ''+'' @ l @ (if suffix [LF] l then [] else [LF])"

definition Diff ::
  "(string \<Rightarrow> string list) \<Rightarrow> (string list \<Rightarrow> string list \<Rightarrow> string option) \<Rightarrow> string \<Rightarrow> string \<Rightarrow> DiffResult" where
  "Diff splitLines unifiedDiff current target =
     (let currentNorm = Normalize current; targetNorm = Normalize target in
      if currentNorm = targetNorm then
        \<lparr>diff_Unified = [], diff_Added = 0, diff_Removed = 0, diff_Identical = True\<rparr>
      else if currentNorm = [] then
        let ls = splitLines targetNorm
        in \<lparr>diff_Unified = ''--- current'' @ [LF] @ ''+++ target'' @ [LF] @ ''@@ -0,0 +1,''
              @ diff_itoa (int (length ls)) @ '' @@'' @ [LF] @ concat (map added_line ls),
            diff_Added = int (length ls), diff_Removed = 0, diff_Identical = False\<rparr>
      else
        let txt = (case unifiedDiff (splitLines currentNorm) (splitLines targetNorm) of
                     Some u \<Rightarrow> u | None \<Rightarrow> []);
            (added, removed) = countChanges txt
        in \<lparr>diff_Unified = txt, diff_Added = added, diff_Removed = removed, diff_Identical = False\<rparr>)"

lemma diff_itoa_loop_utoa: "0 < n \<Longrightarrow> diff_itoa_loop n out = utoa n @ out"
proof (induction n out rule: diff_itoa_loop.induct)
  case (1 n out)
  then show ?case
    by (cases "n < 10") (simp_all add: diff_itoa_loop.simps [of n] utoa.simps [of n] diff_itoa_loop.simps [of 0])
qed

lemma diff_itoa_itoa: "diff_itoa n = itoa n"
proof -
  have "digit 0 = CHR ''0''" by code_simp
  then show ?thesis
    by (simp add: diff_itoa_def itoa_def diff_itoa_loop_utoa Let_def utoa.simps [of 0])
qed

section \<open>Incidental formatting does not matter\<close>

definition prefix_free :: "string list \<Rightarrow> bool" where
  "prefix_free es \<longleftrightarrow> list_all (\<lambda>d. list_all (\<lambda>e. prefix d e \<longrightarrow> d = e) es) es"

lemma strip_prefixes_step:
  assumes "prefix_free es" "e \<in> set es" "e \<noteq> []"
  shows "strip_prefixes es (e @ s) = strip_prefixes es s"
proof -
  have uniq: "d = e" if "d \<in> set es" "prefix d (e @ s)" for d
    using that assms(1,2) unfolding prefix_free_def list_all_iff
    by (metis prefix_same_cases prefixI)
  obtain d where d: "find (\<lambda>d. d \<noteq> [] \<and> prefix d (e @ s)) es = Some d"
    using assms(2,3) by (fastforce simp: find_None_iff)
  then have "d = e" using uniq by (auto simp: find_Some_iff)
  then show ?thesis using d assms(3) by (subst strip_prefixes.simps) simp
qed

lemma strip_prefixes_run:
  assumes "prefix_free es" "set ws \<subseteq> set es" "[] \<notin> set es"
  shows "strip_prefixes es (concat ws @ s) = strip_prefixes es s"
  using assms(2)
proof (induction ws)
  case (Cons w ws)
  then show ?case using strip_prefixes_step [OF assms(1), of w "concat ws @ s"] assms(3) by auto
qed simp

lemma space_encodings_facts:
  "prefix_free space_encodings" "prefix_free (map rev space_encodings)" "[] \<notin> set space_encodings"
  "[] \<notin> set (map rev space_encodings)"
  by (code_simp)+

text \<open>No white-space encoding has, after its first byte, a byte that could start one.\<close>

definition inner_bytes :: "string list \<Rightarrow> char list" where
  "inner_bytes es = concat (map tl es)"

lemma space_inner: "set (inner_bytes space_encodings) \<inter> set (map hd space_encodings) = {}"
  by code_simp

lemma space_newlines:
  "e \<in> set space_encodings \<Longrightarrow> e = [CR] \<or> e = [LF] \<or> CR \<notin> set e \<and> LF \<notin> set e"
proof -
  have "list_all (\<lambda>e. e = [CR] \<or> e = [LF] \<or> CR \<notin> set e \<and> LF \<notin> set e) space_encodings" by code_simp
  then show "e \<in> set space_encodings \<Longrightarrow> ?thesis" by (simp add: list_all_iff)
qed

lemma no_straddling:
  assumes "no_prefix_of space_encodings s" "set ws \<subseteq> set space_encodings" "s \<noteq> []"
  shows "no_prefix_of space_encodings (s @ concat ws)"
  unfolding no_prefix_of_def
proof (intro ballI impI notI)
  fix e assume e: "e \<in> set space_encodings" "e \<noteq> []" "prefix e (s @ concat ws)"
  then have "\<not> prefix e s" using assms(1) by (simp add: no_prefix_of_def)
  then obtain u where u: "e = s @ u" "u \<noteq> []" "prefix u (concat ws)"
    using e(3) by (auto simp: prefix_append)
  then obtain w ws' where ws: "ws = w # ws'" by (cases ws) auto
  have w: "w \<in> set space_encodings" "w \<noteq> []" using assms(2) ws space_encodings_facts(3) by auto
  then have "hd u = hd w" using u(2,3) ws
    by (metis append_is_Nil_conv concat.simps(2) hd_append2 prefix_def)
  moreover have "hd u \<in> set (tl e)" using u assms(3) by (cases s) auto
  then have "hd u \<in> set (inner_bytes space_encodings)" using e(1) by (auto simp: inner_bytes_def)
  ultimately show False using space_inner w(1) by auto
qed

lemma TrimSpace_surrounded:
  assumes "trimmed s" "s \<noteq> []" "set ws \<subseteq> set space_encodings" "set vs \<subseteq> set space_encodings"
  shows "TrimSpace (concat ws @ s @ concat vs) = s"
proof -
  have "strip_prefixes space_encodings (concat ws @ s @ concat vs) = s @ concat vs"
    using strip_prefixes_run [OF space_encodings_facts(1) assms(3) space_encodings_facts(3)]
      strip_prefixes_stop [OF no_straddling [OF _ assms(4,2)]] assms(1) by (simp add: trimmed_def)
  moreover have "set (map rev (rev vs)) \<subseteq> set (map rev space_encodings)" using assms(4) by auto
  then have "strip_prefixes (map rev space_encodings) (concat (map rev (rev vs)) @ rev s) = rev s"
    using strip_prefixes_run [OF space_encodings_facts(2) _ space_encodings_facts(4)]
      strip_prefixes_stop [of "map rev space_encodings" "rev s"] assms(1) by (simp add: trimmed_def)
  ultimately show ?thesis by (simp add: TrimSpace_def rev_concat rev_map)
qed

definition to_crlf :: "string \<Rightarrow> string" where
  "to_crlf s = concat (map (\<lambda>c. if c = LF then [CR, LF] else [c]) s)"

lemma CR_neq_LF [simp]: "CR \<noteq> LF" "LF \<noteq> CR"
  by (simp_all add: CR_def LF_def)

lemma ReplaceAll_to_crlf: "CR \<notin> set s \<Longrightarrow> ReplaceAll (to_crlf s) [CR, LF] [LF] = s"
  by (induction s) (auto simp: to_crlf_def)

lemma prefix_to_crlf: "CR \<notin> set e \<Longrightarrow> LF \<notin> set e \<Longrightarrow> prefix e (to_crlf s) \<Longrightarrow> prefix e s"
proof (induction s arbitrary: e)
  case (Cons c s)
  then show ?case by (cases e) (auto simp: to_crlf_def split: if_splits)
qed (auto simp: to_crlf_def)

lemma rev_to_crlf: "rev (to_crlf s) = concat (map (\<lambda>c. if c = LF then [LF, CR] else [c]) (rev s))"
  by (induction s) (auto simp: to_crlf_def)

lemma prefix_rev_to_crlf:
  "CR \<notin> set e \<Longrightarrow> LF \<notin> set e \<Longrightarrow> prefix e (concat (map (\<lambda>c. if c = LF then [LF, CR] else [c]) s)) \<Longrightarrow> prefix e s"
proof (induction s arbitrary: e)
  case (Cons c s)
  then show ?case by (cases e) (auto split: if_splits)
qed auto

lemma no_prefix_LF:
  assumes "no_prefix_of es s" "[LF] \<in> set es"
  shows "s = [] \<or> hd s \<noteq> LF"
  using assms by (cases s) (auto simp: no_prefix_of_def)

lemma LF_space: "[LF] \<in> set space_encodings" by code_simp

lemma trimmed_to_crlf:
  assumes "trimmed s" "CR \<notin> set s"
  shows "trimmed (to_crlf s)"
  unfolding trimmed_def no_prefix_of_def
proof (intro conjI ballI impI notI)
  fix e assume e: "e \<in> set space_encodings" "e \<noteq> []" "prefix e (to_crlf s)"
  have l: "s = [] \<or> hd s \<noteq> LF" using assms(1) LF_space no_prefix_LF by (auto simp: trimmed_def)
  from space_newlines [OF e(1)] show False
  proof (elim disjE)
    assume "CR \<notin> set e \<and> LF \<notin> set e"
    then show False using e assms(1) prefix_to_crlf by (auto simp: trimmed_def no_prefix_of_def)
  qed (use e l assms(2) in \<open>cases s; auto simp: to_crlf_def\<close>)+
next
  fix e assume e: "e \<in> set (map rev space_encodings)" "e \<noteq> []" "prefix e (rev (to_crlf s))"
  have l: "rev s = [] \<or> hd (rev s) \<noteq> LF"
    using assms(1) LF_space no_prefix_LF [of "map rev space_encodings" "rev s"]
    by (force simp: trimmed_def)
  obtain d where "e = rev d" "d \<in> set space_encodings" using e(1) by auto
  then have "e = [CR] \<or> e = [LF] \<or> CR \<notin> set e \<and> LF \<notin> set e" using space_newlines [of d] by auto
  then show False
  proof (elim disjE)
    assume "CR \<notin> set e \<and> LF \<notin> set e"
    then show False using e assms(1) prefix_rev_to_crlf [of e "rev s"]
      by (auto simp: trimmed_def no_prefix_of_def rev_to_crlf)
  qed (use e l assms(2) in \<open>cases s rule: rev_cases; auto simp: to_crlf_def split: if_splits\<close>)+
qed

text \<open>two configs that differ only in surrounding white space and in CRLF versus LF line endings
  have the same canonical content, hence the same fingerprint and an empty preview: wrapping a
  trimmed LF text in any Unicode white space and converting its line ends gives back that text.\<close>

theorem Normalize_formatting:
  assumes "trimmed s" "s \<noteq> []" "CR \<notin> set s"
    and "set ws \<subseteq> set space_encodings" "set vs \<subseteq> set space_encodings"
  shows "Normalize (concat ws @ to_crlf s @ concat vs) = s"
proof -
  have "to_crlf s \<noteq> []" using assms(2) by (cases s) (auto simp: to_crlf_def)
  then show ?thesis
    using TrimSpace_surrounded [OF trimmed_to_crlf [OF assms(1,3)] _ assms(4,5)] assms(3)
    by (simp add: Normalize_def ReplaceAll_to_crlf)
qed

theorem Normalize_formatting_witness:
  "Normalize ('' '' @ [CR, LF] @ ''a:'' @ [CR, LF] @ ''  b: 1'' @ [CR, LF]) = ''a:'' @ [LF] @ ''  b: 1''"
proof -
  have t: "trimmed (''a:'' @ [LF] @ ''  b: 1'')" by code_simp
  have s: "set ['' '', [CR], [LF]] \<subseteq> set space_encodings" "set [[CR], [LF]] \<subseteq> set space_encodings"
    by code_simp+
  have n: "''a:'' @ [LF] @ ''  b: 1'' \<noteq> []" "CR \<notin> set (''a:'' @ [LF] @ ''  b: 1'')" by code_simp+
  show ?thesis
    using Normalize_formatting [OF t n s] by (simp add: to_crlf_def LF_def CR_def)
qed

lemma hex_sha_not_Nil: "hex_encode (sha256 m) \<noteq> []"
  by (metis length_hex_encode length_sha256 list.size(3) mult_eq_0_iff zero_neq_numeral)

text \<open>the preview diff and the fingerprint agree.  A preview that reports no change means equal
  fingerprints; equal fingerprints with a reported change mean that the two (non-empty) canonical
  texts are a SHA-256 collision.\<close>

theorem Diff_agrees_with_Hash:
  "(diff_Identical (Diff splitLines unifiedDiff c t) \<longleftrightarrow> Normalize c = Normalize t)
   \<and> (diff_Identical (Diff splitLines unifiedDiff c t) \<and> Hash c \<noteq> Hash t \<longleftrightarrow> False)
   \<and> (Hash c = Hash t \<and> \<not> diff_Identical (Diff splitLines unifiedDiff c t) \<longleftrightarrow>
        Normalize c \<noteq> [] \<and> Normalize t \<noteq> [] \<and> Normalize c \<noteq> Normalize t
        \<and> sha256 (Normalize c) = sha256 (Normalize t))"
  using hex_sha_not_Nil hex_sha_not_Nil [symmetric]
  by (auto simp: Diff_def Let_def Hash_def split: prod.splits if_splits)

end
