(* ===== verification/Agent_Config.thy ===== *)
theory Agent_Config
  imports App_Store Config_Norm
begin

text \<open>
  The desired configuration of an agent and its drift (\<open>services/agent_service_impl.go\<close>): which stored
  config governs an agent (\<open>determineConfigIntent\<close>), how the reported effective config is classified
  against it (\<open>computeConfigDrift\<close>) and the fleet listing the rollout engine reads.  The unified diff
  of two texts comes from a third-party library and is a parameter.
\<close>

section \<open>Types\<close>

datatype ConfigIntentSource = ConfigIntentSourceAgent | ConfigIntentSourceGroup

record ConfigIntent =
  ci_Source :: ConfigIntentSource
  ci_SourceName :: string
  ci_ConfigID :: string
  ci_Version :: int
  ci_Hash :: string
  ci_UpdatedAt :: gotime
  ci_Content :: string

datatype ConfigDriftStatus =
    ConfigDriftStatusUnknown
  | ConfigDriftStatusSynced
  | ConfigDriftStatusDrifted
  | ConfigDriftStatusNoIntent
  | ConfigDriftStatusNoEffective

record ConfigDriftDetails =
  cd_IntentHash :: string
  cd_EffectiveHash :: string
  cd_DeliveredHash :: string
  cd_Diff :: string
  cd_CheckedAt :: gotime

text \<open>The service-layer agent: the stored row plus what is computed on read.  The suspected-duplicate
  annotation is not part of the model.\<close>

record SAgent = Agent +
  ag_ConfigIntent :: "ConfigIntent option"
  ag_DriftStatus :: ConfigDriftStatus
  ag_DriftDetails :: "ConfigDriftDetails option"

section \<open>Operations\<close>

definition agentAcceptsRemoteConfig :: "'a Agent_scheme \<Rightarrow> bool" where
  "agentAcceptsRemoteConfig agent \<longleftrightarrow> ''accepts_remote_config'' \<in> set (ag_Capabilities agent)"

definition buildConfigIntent :: "Config \<Rightarrow> ConfigIntentSource \<Rightarrow> string \<Rightarrow> bool \<Rightarrow> ConfigIntent" where
  "buildConfigIntent cfg source sourceName includeContent =
     \<lparr>ci_Source = source, ci_SourceName = sourceName, ci_ConfigID = cf_ID cfg, ci_Version = cf_Version cfg,
      ci_Hash = cf_ConfigHash cfg, ci_UpdatedAt = cf_CreatedAt cfg,
      ci_Content = (if includeContent then cf_Content cfg else [])\<rparr>"

definition determineConfigIntent :: "AppStore \<Rightarrow> 'a Agent_scheme \<Rightarrow> bool \<Rightarrow> ConfigIntent option" where
  "determineConfigIntent s agent includeContent =
     (case GetLatestConfigForAgent (ag_ID agent) s of
        Some agentConfig \<Rightarrow>
          Some (buildConfigIntent agentConfig ConfigIntentSourceAgent (ag_Name agent) includeContent)
      | None \<Rightarrow>
          (case ag_GroupID agent of
             None \<Rightarrow> None
           | Some g \<Rightarrow>
               if g = [] then None
               else (case GetLatestConfigForGroup g s of
                   None \<Rightarrow> None
                 | Some groupConfig \<Rightarrow>
                     Some (buildConfigIntent groupConfig ConfigIntentSourceGroup
                       (case ag_GroupName agent of None \<Rightarrow> [] | Some n \<Rightarrow> n) includeContent))))"

definition computeConfigDrift ::
  "(string \<Rightarrow> string \<Rightarrow> string) \<Rightarrow> gotime \<Rightarrow> ConfigIntent option \<Rightarrow> string \<Rightarrow> string \<Rightarrow> bool \<Rightarrow> bool
     \<Rightarrow> ConfigDriftStatus \<times> ConfigDriftDetails" where
  "computeConfigDrift buildUnifiedDiff checkedAt intent effectiveConfig deliveredHash supervised includeDiff =
     (let normalizedEffective = Normalize effectiveConfig;
          none = \<lparr>cd_IntentHash = [], cd_EffectiveHash = [], cd_DeliveredHash = [], cd_Diff = [],
                  cd_CheckedAt = checkedAt\<rparr>
      in case intent of
           None \<Rightarrow> (ConfigDriftStatusNoIntent, none\<lparr>cd_EffectiveHash := Hash normalizedEffective\<rparr>)
         | Some i \<Rightarrow>
             if normalizedEffective = [] then (ConfigDriftStatusNoEffective, none\<lparr>cd_IntentHash := ci_Hash i\<rparr>)
             else
               let effectiveHash = Hash normalizedEffective;
                   hasDelivered = deliveredHash \<noteq> [];
                   details = none\<lparr>cd_IntentHash := ci_Hash i, cd_EffectiveHash := effectiveHash,
                     cd_DeliveredHash := (if supervised \<or> hasDelivered then deliveredHash else [])\<rparr>
               in if effectiveHash = ci_Hash i then (ConfigDriftStatusSynced, details)
                  else if hasDelivered \<and> deliveredHash = ci_Hash i then (ConfigDriftStatusSynced, details)
                  else (ConfigDriftStatusDrifted,
                        if includeDiff \<and> ci_Content i \<noteq> []
                        then details\<lparr>cd_Diff := buildUnifiedDiff (ci_Content i) effectiveConfig\<rparr>
                        else details))"

definition populateAgentConfigState ::
  "(string \<Rightarrow> string \<Rightarrow> string) \<Rightarrow> gotime \<Rightarrow> AppStore \<Rightarrow> bool \<Rightarrow> SAgent \<Rightarrow> SAgent" where
  "populateAgentConfigState diff now s includeContent agent =
     (let intent = determineConfigIntent s agent includeContent;
          (status, details) = computeConfigDrift diff now intent (ag_EffectiveConfig agent)
             (ag_DeliveredConfigHash agent) (agentAcceptsRemoteConfig agent) includeContent
      in agent\<lparr>ag_ConfigIntent := intent, ag_DriftStatus := status, ag_DriftDetails := Some details\<rparr>)"

definition toServiceAgent :: "Agent \<Rightarrow> SAgent" where
  "toServiceAgent a = Agent.extend a
     (SAgent.fields None ConfigDriftStatusUnknown None)"

definition svc_ListAgents :: "(string \<Rightarrow> string \<Rightarrow> string) \<Rightarrow> gotime \<Rightarrow> AppStore \<Rightarrow> SAgent list" where
  "svc_ListAgents diff now s =
     map (populateAgentConfigState diff now s False \<circ> toServiceAgent) (ListAgents s)"

definition svc_GetAgent :: "(string \<Rightarrow> string \<Rightarrow> string) \<Rightarrow> gotime \<Rightarrow> string \<Rightarrow> AppStore \<Rightarrow> SAgent option" where
  "svc_GetAgent diff now i s =
     map_option (populateAgentConfigState diff now s True \<circ> toServiceAgent) (GetAgent i s)"

definition svc_CreateConfig :: "Config \<Rightarrow> AppStore \<Rightarrow> AppStore result" where
  "svc_CreateConfig c s = store_CreateConfig
     \<lparr>cf_ID = cf_ID c, cf_Name = cf_Name c, cf_AgentID = cf_AgentID c, cf_GroupID = cf_GroupID c,
      cf_ConfigHash = cf_ConfigHash c, cf_Content = cf_Content c, cf_Version = cf_Version c,
      cf_CreatedAt = cf_CreatedAt c, cf_ArchivedAt = cf_ArchivedAt c\<rparr> s"

text \<open>\<open>StoreConfigForAgent\<close> up to its audit entry: the stored row and the new store.\<close>

definition StoreConfigForAgent ::
  "string \<Rightarrow> gotime \<Rightarrow> string \<Rightarrow> string \<Rightarrow> AppStore \<Rightarrow> (Config \<times> AppStore) result" where
  "StoreConfigForAgent uuid now agentID content s =
     (case GetAgent agentID s of
        None \<Rightarrow> Inl (OtherError ''agent not found'')
      | Some agent \<Rightarrow>
          if \<not> agentAcceptsRemoteConfig agent
          then Inl (OtherError ''agent does not support remote config'')
          else
            let version = (case GetLatestConfigForAgent agentID s of
                             None \<Rightarrow> 1 | Some latest \<Rightarrow> cf_Version latest + 1);
                newConfig = \<lparr>cf_ID = uuid, cf_Name = [], cf_AgentID = Some agentID, cf_GroupID = None,
                  cf_ConfigHash = Hash content, cf_Content = content, cf_Version = version,
                  cf_CreatedAt = now, cf_ArchivedAt = None\<rparr>
            in (case svc_CreateConfig newConfig s of
                  Inl e \<Rightarrow> Inl e
                | Inr s' \<Rightarrow> Inr (newConfig, s')))"

section \<open>Lemmas\<close>

lemma toServiceAgent_simps [simp]:
  "ag_ID (toServiceAgent a) = ag_ID a" "ag_GroupID (toServiceAgent a) = ag_GroupID a"
  "ag_Labels (toServiceAgent a) = ag_Labels a" "ag_EffectiveConfig (toServiceAgent a) = ag_EffectiveConfig a"
  "ag_DeliveredConfigHash (toServiceAgent a) = ag_DeliveredConfigHash a"
  "ag_Capabilities (toServiceAgent a) = ag_Capabilities a" "ag_Name (toServiceAgent a) = ag_Name a"
  "ag_GroupName (toServiceAgent a) = ag_GroupName a"
  by (simp_all add: toServiceAgent_def Agent.defs SAgent.defs)

lemma populate_simps [simp]:
  "ag_ID (populateAgentConfigState d n s b a) = ag_ID a"
  "ag_GroupID (populateAgentConfigState d n s b a) = ag_GroupID a"
  "ag_Labels (populateAgentConfigState d n s b a) = ag_Labels a"
  "ag_EffectiveConfig (populateAgentConfigState d n s b a) = ag_EffectiveConfig a"
  by (simp_all add: populateAgentConfigState_def Let_def split: prod.split)

text \<open>The drift classification, branch by branch.  No intent and no reported config are their own
  classes; otherwise an agent is in sync exactly when the fingerprint of its normalised effective config
  is the intended fingerprint or it has confirmed that very fingerprint as delivered, and drifted
  otherwise.
\<close>
lemma computeConfigDrift_classifies:
  "fst (computeConfigDrift d now intent eff delivered supervised inc) =
     (case intent of
        None \<Rightarrow> ConfigDriftStatusNoIntent
      | Some i \<Rightarrow>
          if Normalize eff = [] then ConfigDriftStatusNoEffective
          else if Hash (Normalize eff) = ci_Hash i \<or> (delivered \<noteq> [] \<and> delivered = ci_Hash i)
          then ConfigDriftStatusSynced else ConfigDriftStatusDrifted)"
  by (auto simp: computeConfigDrift_def Let_def split: option.split)

text \<open>
  No false drift.  An agent whose reported config is the intended content up to surrounding white
  space and line-end style (any such rendering of a trimmed, non-empty text without carriage returns) is
  in sync, whatever formatting the operator stored the content with.
\<close>
theorem no_false_drift:
  assumes "trimmed t" "t \<noteq> []" "CR \<notin> set t"
    and "Normalize (ci_Content i) = t" "ci_Hash i = Hash (ci_Content i)"
    and "set ws \<subseteq> set space_encodings" "set vs \<subseteq> set space_encodings"
  shows "fst (computeConfigDrift d now (Some i) (concat ws @ to_crlf t @ concat vs) delivered supervised inc)
    = ConfigDriftStatusSynced"
proof -
  have n: "Normalize (concat ws @ to_crlf t @ concat vs) = t"
    using assms by (intro Normalize_formatting)
  have "ReplaceAll t [CR, LF] [LF] = t" using assms(3) by (induction t) auto
  then have "Normalize t = t" using assms(1) by (simp add: Normalize_def TrimSpace_id)
  then show ?thesis using n assms by (simp add: computeConfigDrift_def Let_def Hash_def)
qed

lemma intent_agent_first:
  "GetLatestConfigForAgent (ag_ID a) s = Some c \<Longrightarrow>
   determineConfigIntent s a inc = Some (buildConfigIntent c ConfigIntentSourceAgent (ag_Name a) inc)"
  by (simp add: determineConfigIntent_def)


theorem no_false_drift_witness:
  "fst (computeConfigDrift (\<lambda>_ _. []) 0
     (Some (buildConfigIntent ((sample_config ''c1'' 1)\<lparr>cf_ConfigHash := Hash ''a: 1''\<rparr>) ConfigIntentSourceGroup [] True))
     ([LF] @ ''a: 1'' @ [CR, LF]) [] False True) = ConfigDriftStatusSynced"
proof -
  have t: "trimmed ''a: 1''" "''a: 1'' \<noteq> []" "CR \<notin> set ''a: 1''" by code_simp+
  have n: "Normalize ''a: 1'' = ''a: 1''" by code_simp
  have w: "set [[LF]] \<subseteq> set space_encodings" "set [[CR], [LF]] \<subseteq> set space_encodings" by code_simp+
  show ?thesis
    using no_false_drift [OF t _ _ w, of "buildConfigIntent ((sample_config ''c1'' 1)\<lparr>cf_ConfigHash := Hash ''a: 1''\<rparr>)
        ConfigIntentSourceGroup [] True" "\<lambda>_ _. []" 0 "[]" False True] n
    by (simp add: buildConfigIntent_def sample_config_def to_crlf_def LF_def)
qed

text \<open>
  Drift detection normalises the effective config twice but the stored fingerprint covers one
  normalisation only.  Content with CR CR LF is changed by the second pass, so an agent that reports
  exactly the stored bytes, and has no delivery record, is classified as drifted unless the two
  different canonical texts are a SHA-256 collision.
\<close>
theorem drift_normalises_twice:
  "Normalize (Normalize (''a'' @ [CR, CR, LF] @ ''b'')) \<noteq> Normalize (''a'' @ [CR, CR, LF] @ ''b'')
   \<and> (fst (computeConfigDrift d now
         (Some (i\<lparr>ci_Content := ''a'' @ [CR, CR, LF] @ ''b'', ci_Hash := Hash (''a'' @ [CR, CR, LF] @ ''b'')\<rparr>))
         (''a'' @ [CR, CR, LF] @ ''b'') [] supervised inc)
       = (if sha256 (''a'' @ [LF] @ ''b'') = sha256 (''a'' @ [CR, LF] @ ''b'')
          then ConfigDriftStatusSynced else ConfigDriftStatusDrifted))"
proof -
  define c where "c = ''a'' @ [CR, CR, LF] @ ''b''"
  have n: "Normalize c = ''a'' @ [CR, LF] @ ''b''" unfolding c_def by code_simp
  have nn: "Normalize (''a'' @ [CR, LF] @ ''b'') = ''a'' @ [LF] @ ''b''" by code_simp
  have "Hash (Normalize c) = Hash c \<longleftrightarrow> sha256 (''a'' @ [LF] @ ''b'') = sha256 (''a'' @ [CR, LF] @ ''b'')"
    using n nn by (simp add: Hash_def)
  then show ?thesis
    unfolding c_def [symmetric] using n nn by (simp add: computeConfigDrift_classifies)
qed

text \<open>
  A config stored for an agent governs it.  Storing succeeds only for a live agent that accepts remote
  config, and then the agent's intent is that content with its fingerprint and source agent, while the
  governing config of every other agent and of every group is unchanged.
\<close>
theorem StoreConfigForAgent_governs:
  assumes "StoreConfigForAgent uuid now i content s = Inr (c, s')"
  shows "(\<exists>a. GetAgent i s = Some a \<and> agentAcceptsRemoteConfig a)
    \<and> cf_Content c = content \<and> cf_ConfigHash c = Hash content
    \<and> GetLatestConfigForAgent i s' = Some c
    \<and> (\<forall>j. j \<noteq> i \<longrightarrow> GetLatestConfigForAgent j s' = GetLatestConfigForAgent j s)
    \<and> (\<forall>g. GetLatestConfigForGroup g s' = GetLatestConfigForGroup g s)"
proof -
  define v where "v = (case GetLatestConfigForAgent i s of None \<Rightarrow> 1 | Some l \<Rightarrow> cf_Version l + 1)"
  define n where "n = \<lparr>cf_ID = uuid, cf_Name = [], cf_AgentID = Some i, cf_GroupID = None,
      cf_ConfigHash = Hash content, cf_Content = content, cf_Version = v, cf_CreatedAt = now,
      cf_ArchivedAt = None\<rparr>"
  have "svc_CreateConfig n s = store_CreateConfig n s"
    by (simp add: svc_CreateConfig_def n_def)
  then obtain a where a: "GetAgent i s = Some a" "agentAcceptsRemoteConfig a" "c = n"
      "store_CreateConfig n s = Inr s'"
    using assms unfolding StoreConfigForAgent_def Let_def v_def [symmetric] n_def [symmetric]
    by (auto split: option.splits if_splits sum.splits)
  then have s': "map snd (configs s') = map snd (configs s) @ [n]"
    by (auto simp: store_CreateConfig_fresh)
  have "GetLatestConfigForAgent i s' = Some n"
    unfolding GetLatestConfigForAgent_def s'
    by (rule latest_scan_new) (auto simp: n_def v_def GetLatestConfigForAgent_def)
  moreover have "GetLatestConfigForAgent j s' = GetLatestConfigForAgent j s" if "j \<noteq> i" for j
    using that by (simp add: GetLatestConfigForAgent_def s' latest_scan_other n_def)
  moreover have "GetLatestConfigForGroup g s' = GetLatestConfigForGroup g s" for g
    by (simp add: GetLatestConfigForGroup_def s' latest_scan_other n_def)
  ultimately show ?thesis using a by (auto simp: n_def)
qed

definition managed_agent :: "string \<Rightarrow> Agent" where
  "managed_agent i = (sample_agent i)\<lparr>ag_Capabilities := [''accepts_remote_config'']\<rparr>"

theorem StoreConfigForAgent_governs_witness:
  "\<exists>c s'. StoreConfigForAgent ''u'' 5 ''a'' ''x: 1'' (empty_store\<lparr>agents := [(''a'', managed_agent ''a'')]\<rparr>) = Inr (c, s')
     \<and> GetLatestConfigForAgent ''a'' s' = Some c \<and> cf_Content c = ''x: 1''"
proof -
  define s where "s = empty_store\<lparr>agents := [(''a'', managed_agent ''a'')]\<rparr>"
  have "\<exists>c s'. StoreConfigForAgent ''u'' 5 ''a'' ''x: 1'' s = Inr (c, s')"
    by (simp add: StoreConfigForAgent_def s_def GetAgent_def managed_agent_def sample_agent_def
        agentAcceptsRemoteConfig_def svc_CreateConfig_def store_CreateConfig_def empty_store_def Let_def)
  then obtain c s' where "StoreConfigForAgent ''u'' 5 ''a'' ''x: 1'' s = Inr (c, s')" by blast
  with StoreConfigForAgent_governs [OF this] show ?thesis unfolding s_def by blast
qed

end
