(* ===== verification/Config_Lint.thy ===== *)
theory Config_Lint
  imports Go_Prelude
begin

text \<open>
  The collector-config linter: \<open>internal/configlint/configlint.go\<close>.  The YAML parser is a parameter;
  its result is the node tree of \<open>yaml.v3\<close>, in which the content of a mapping node alternates keys
  and values and a document node has one child.  The text of a message is kept as the format string's
  constructor with its arguments.
\<close>

section \<open>YAML trees and findings\<close>

datatype ykind = ZeroKind | DocumentNode | SequenceNode | MappingNode | ScalarNode | AliasNode

datatype ynode = YNode (y_Kind: ykind) (y_Value: string) (y_Content: "ynode list") (y_Line: int)

datatype Severity = SeverityError | SeverityWarning | SeverityInfo

datatype lint_message =
    Msg_YamlParse string
  | Msg_EmptyConfig
  | Msg_TopLevelMapping
  | Msg_ServiceRequired
  | Msg_ExtensionUndefined string
  | Msg_ComponentUndefined string string string string
  | Msg_NoExporters string
  | Msg_MemoryLimiterFirst string
  | Msg_NoBatch string
  | Msg_Localhost string string

record Finding =
  f_Severity :: Severity
  f_Rule :: string
  f_Message :: lint_message
  f_Line :: int
  f_Path :: string

section \<open>Helpers\<close>

text \<open>The loop over \<open>Content\<close> in steps of two.\<close>

fun node_pairs :: "ynode list \<Rightarrow> (ynode \<times> ynode) list" where
  "node_pairs (k # v # r) = (k, v) # node_pairs r"
| "node_pairs _ = []"

definition mapChild :: "ynode \<Rightarrow> string \<Rightarrow> ynode option" where
  "mapChild parent key =
     (if y_Kind parent \<noteq> MappingNode then None
      else map_option snd (find (\<lambda>(k, v). y_Value k = key) (node_pairs (y_Content parent))))"

definition collectKeys :: "ynode \<Rightarrow> string \<Rightarrow> string list" where
  "collectKeys doc section =
     (case mapChild doc section of
        None \<Rightarrow> []
      | Some node \<Rightarrow>
          if y_Kind node \<noteq> MappingNode then []
          else map (\<lambda>(k, v). y_Value k) (node_pairs (y_Content node)))"

definition singular :: "string \<Rightarrow> string" where
  "singular s =
     (if s = ''receivers'' then ''receiver''
      else if s = ''processors'' then ''processor''
      else if s = ''exporters'' then ''exporter''
      else if s = ''extensions'' then ''extension''
      else s)"

text \<open>\<open>strings.ToLower\<close> followed by a search for an ASCII word without \<open>i\<close> or \<open>k\<close> only depends on the
  ASCII letters: no other code point lowers to one of the searched letters.\<close>

definition lower_ascii :: "char \<Rightarrow> char" where
  "lower_ascii c = (let n = (of_char c :: nat) in if 65 \<le> n \<and> n \<le> 90 then char_of (n + 32) else c)"

definition Contains :: "string \<Rightarrow> string \<Rightarrow> bool" where
  "Contains s sub = list_ex (prefix sub) (suffixes s)"

text \<open>The pipelines that every pipeline rule walks: name and body of each mapping-valued entry of
  \<open>service.pipelines\<close>.\<close>

definition service_pipelines :: "ynode \<Rightarrow> (string \<times> ynode) list" where
  "service_pipelines doc =
     (case mapChild doc ''service'' of
        None \<Rightarrow> []
      | Some service \<Rightarrow>
          if y_Kind service \<noteq> MappingNode then []
          else (case mapChild service ''pipelines'' of
            None \<Rightarrow> []
          | Some pipelines \<Rightarrow>
              if y_Kind pipelines \<noteq> MappingNode then []
              else [(y_Value k, v). (k, v) \<leftarrow> node_pairs (y_Content pipelines), y_Kind v = MappingNode]))"

section \<open>Rules\<close>

definition ruleServiceMissing :: "ynode \<Rightarrow> Finding list" where
  "ruleServiceMissing doc =
     (case mapChild doc ''service'' of
        None \<Rightarrow> [\<lparr>f_Severity = SeverityError, f_Rule = ''service-missing'', f_Message = Msg_ServiceRequired,
                   f_Line = y_Line doc, f_Path = []\<rparr>]
      | Some _ \<Rightarrow> [])"

definition extension_findings :: "ynode \<Rightarrow> Finding list" where
  "extension_findings doc =
     (case mapChild doc ''service'' of
        None \<Rightarrow> []
      | Some service \<Rightarrow>
          (case mapChild service ''extensions'' of
             None \<Rightarrow> []
           | Some extList \<Rightarrow>
               if y_Kind extList \<noteq> SequenceNode then []
               else [\<lparr>f_Severity = SeverityError, f_Rule = ''undefined-component'',
                      f_Message = Msg_ExtensionUndefined (y_Value name), f_Line = y_Line name,
                      f_Path = ''service.extensions''\<rparr>.
                     name \<leftarrow> y_Content extList,
                     y_Value name \<notin> set (collectKeys doc ''extensions'')]))"

definition component_findings :: "ynode \<Rightarrow> string \<Rightarrow> ynode \<Rightarrow> string \<Rightarrow> Finding list" where
  "component_findings doc pipeName pipeNode kind =
     (case mapChild pipeNode kind of
        None \<Rightarrow> []
      | Some listNode \<Rightarrow>
          if y_Kind listNode \<noteq> SequenceNode then []
          else [\<lparr>f_Severity = SeverityError, f_Rule = ''undefined-component'',
                 f_Message = Msg_ComponentUndefined pipeName (singular kind) (y_Value cmp) kind,
                 f_Line = y_Line cmp, f_Path = ''service.pipelines.'' @ pipeName @ ''.'' @ kind\<rparr>.
                cmp \<leftarrow> y_Content listNode,
                y_Value cmp \<notin> set (collectKeys doc kind)])"

definition rulePipelineComponentExists :: "ynode \<Rightarrow> Finding list" where
  "rulePipelineComponentExists doc =
     extension_findings doc
     @ concat [concat (map (component_findings doc pipeName pipeNode)
                 [''receivers'', ''processors'', ''exporters'']).
               (pipeName, pipeNode) \<leftarrow> service_pipelines doc]"

definition has_exporter :: "ynode \<Rightarrow> bool" where
  "has_exporter pipeNode =
     (case mapChild pipeNode ''exporters'' of
        None \<Rightarrow> False
      | Some exporters \<Rightarrow> y_Kind exporters = SequenceNode \<and> y_Content exporters \<noteq> [])"

definition rulePipelineNeedsExporter :: "ynode \<Rightarrow> Finding list" where
  "rulePipelineNeedsExporter doc =
     [\<lparr>f_Severity = SeverityError, f_Rule = ''pipeline-no-exporters'', f_Message = Msg_NoExporters pipeName,
       f_Line = y_Line pipeNode, f_Path = ''service.pipelines.'' @ pipeName\<rparr>.
      (pipeName, pipeNode) \<leftarrow> service_pipelines doc, \<not> has_exporter pipeNode]"

definition ruleMemoryLimiterFirst :: "ynode \<Rightarrow> Finding list" where
  "ruleMemoryLimiterFirst doc =
     concat [(case mapChild pipeNode ''processors'' of
                None \<Rightarrow> []
              | Some procs \<Rightarrow>
                  if y_Kind procs \<noteq> SequenceNode then []
                  else [\<lparr>f_Severity = SeverityWarning, f_Rule = ''memory-limiter-position'',
                         f_Message = Msg_MemoryLimiterFirst pipeName, f_Line = y_Line p,
                         f_Path = ''service.pipelines.'' @ pipeName @ ''.processors''\<rparr>.
                        (idx, p) \<leftarrow> enumerate 0 (y_Content procs),
                        prefix ''memory_limiter'' (y_Value p) \<and> idx \<noteq> 0]).
             (pipeName, pipeNode) \<leftarrow> service_pipelines doc]"

definition has_batch :: "ynode \<Rightarrow> bool" where
  "has_batch pipeNode =
     (case mapChild pipeNode ''processors'' of
        None \<Rightarrow> False
      | Some procs \<Rightarrow>
          y_Kind procs = SequenceNode \<and> list_ex (\<lambda>p. prefix ''batch'' (y_Value p)) (y_Content procs))"

definition ruleBatchBeforeExporter :: "ynode \<Rightarrow> Finding list" where
  "ruleBatchBeforeExporter doc =
     [\<lparr>f_Severity = SeverityWarning, f_Rule = ''missing-batch-processor'', f_Message = Msg_NoBatch pipeName,
       f_Line = y_Line pipeNode, f_Path = ''service.pipelines.'' @ pipeName @ ''.processors''\<rparr>.
      (pipeName, pipeNode) \<leftarrow> service_pipelines doc, \<not> has_batch pipeNode]"

definition localhost_finding :: "string \<Rightarrow> ynode \<Rightarrow> Finding list" where
  "localhost_finding name body =
     (if y_Kind body \<noteq> MappingNode then []
      else if \<not> prefix ''otlp'' name then []
      else case mapChild body ''endpoint'' of
        None \<Rightarrow> []
      | Some endpoint \<Rightarrow>
          let v = map lower_ascii (y_Value endpoint)
          in if Contains v ''localhost'' \<or> prefix ''127.'' v then
               [\<lparr>f_Severity = SeverityWarning, f_Rule = ''localhost-exporter'',
                 f_Message = Msg_Localhost name (y_Value endpoint), f_Line = y_Line endpoint,
                 f_Path = ''exporters.'' @ name @ ''.endpoint''\<rparr>]
             else [])"

definition ruleLocalhostInContainerizedExporter :: "ynode \<Rightarrow> Finding list" where
  "ruleLocalhostInContainerizedExporter doc =
     (case mapChild doc ''exporters'' of
        None \<Rightarrow> []
      | Some exporters \<Rightarrow>
          if y_Kind exporters \<noteq> MappingNode then []
          else concat [localhost_finding (y_Value k) v. (k, v) \<leftarrow> node_pairs (y_Content exporters)])"

definition lint_rules :: "(ynode \<Rightarrow> Finding list) list" where
  "lint_rules = [ruleServiceMissing, rulePipelineComponentExists, rulePipelineNeedsExporter,
     ruleMemoryLimiterFirst, ruleBatchBeforeExporter, ruleLocalhostInContainerizedExporter]"

text \<open>None is the index panic on a non-empty rootNode without a child, which the parser never builds.\<close>

definition Lint :: "(string \<Rightarrow> string + ynode) \<Rightarrow> string \<Rightarrow> Finding list option" where
  "Lint parse yamlSrc =
     (case parse yamlSrc of
        Inl err \<Rightarrow> Some [\<lparr>f_Severity = SeverityError, f_Rule = ''yaml-parse'',
                            f_Message = Msg_YamlParse err, f_Line = 0, f_Path = []\<rparr>]
      | Inr rootNode \<Rightarrow>
          if y_Kind rootNode = ZeroKind then
            Some [\<lparr>f_Severity = SeverityInfo, f_Rule = ''empty-config'', f_Message = Msg_EmptyConfig,
                   f_Line = 0, f_Path = []\<rparr>]
          else (case y_Content rootNode of
            [] \<Rightarrow> None
          | doc # _ \<Rightarrow>
              if y_Kind doc \<noteq> MappingNode then
                Some [\<lparr>f_Severity = SeverityError, f_Rule = ''structural'', f_Message = Msg_TopLevelMapping,
                       f_Line = 0, f_Path = []\<rparr>]
              else Some (concat (map (\<lambda>rule. rule doc) lint_rules))))"

section \<open>What a clean report means\<close>

text \<open>The component names that a list under \<open>key\<close> of a node refers to.\<close>

definition refs :: "ynode \<Rightarrow> string \<Rightarrow> string list" where
  "refs node key =
     (case mapChild node key of
        None \<Rightarrow> []
      | Some l \<Rightarrow> if y_Kind l = SequenceNode then map y_Value (y_Content l) else [])"

definition no_errors :: "Finding list \<Rightarrow> bool" where
  "no_errors fs \<longleftrightarrow> list_all (\<lambda>f. f_Severity f \<noteq> SeverityError) fs"

definition runnable_config :: "ynode \<Rightarrow> bool" where
  "runnable_config doc \<longleftrightarrow>
     (case mapChild doc ''service'' of
        None \<Rightarrow> False
      | Some service \<Rightarrow>
          set (refs service ''extensions'') \<subseteq> set (collectKeys doc ''extensions'')) \<and>
     (\<forall>(name, pipe) \<in> set (service_pipelines doc).
        has_exporter pipe \<and>
        (\<forall>kind \<in> {''receivers'', ''processors'', ''exporters''}.
           set (refs pipe kind) \<subseteq> set (collectKeys doc kind)))"

lemma no_errors_simps [simp]:
  "no_errors []" "no_errors (f # fs) \<longleftrightarrow> f_Severity f \<noteq> SeverityError \<and> no_errors fs"
  "no_errors (a @ b) \<longleftrightarrow> no_errors a \<and> no_errors b"
  "no_errors (concat (map g xs)) \<longleftrightarrow> (\<forall>x \<in> set xs. no_errors (g x))"
  by (auto simp: no_errors_def list_all_iff)

lemma no_errors_if: "no_errors (if c then fs else []) \<longleftrightarrow> (c \<longrightarrow> no_errors fs)"
  by simp

lemma no_errors_extension:
  "no_errors (extension_findings doc) \<longleftrightarrow>
     (case mapChild doc ''service'' of None \<Rightarrow> True
      | Some service \<Rightarrow> set (refs service ''extensions'') \<subseteq> set (collectKeys doc ''extensions''))"
proof (cases "mapChild doc ''service''")
  case (Some service)
  then show ?thesis
    by (cases "mapChild service ''extensions''")
       (auto simp: extension_findings_def refs_def no_errors_if)
qed (simp add: extension_findings_def)

lemma no_errors_component:
  "no_errors (component_findings doc n pipe kind) \<longleftrightarrow> set (refs pipe kind) \<subseteq> set (collectKeys doc kind)"
  by (cases "mapChild pipe kind") (auto simp: component_findings_def refs_def no_errors_if)

lemma no_errors_needs_exporter:
  "no_errors (rulePipelineNeedsExporter doc) \<longleftrightarrow> (\<forall>(n, pipe) \<in> set (service_pipelines doc). has_exporter pipe)"
  by (auto simp: rulePipelineNeedsExporter_def no_errors_def list_all_iff)

lemma no_errors_warnings:
  "no_errors (ruleMemoryLimiterFirst doc)" "no_errors (ruleBatchBeforeExporter doc)"
  "no_errors (ruleLocalhostInContainerizedExporter doc)"
  by (auto simp: ruleMemoryLimiterFirst_def ruleBatchBeforeExporter_def localhost_finding_def Let_def
      ruleLocalhostInContainerizedExporter_def no_errors_def list_all_iff split: option.splits if_splits)

text \<open>for a config that parses to a mapping, the linter reports no error exactly when the config is
  runnable: it has a service section, every extension and every component that a pipeline refers to
  is defined in its top-level section, and every pipeline has an exporter.\<close>

theorem Lint_no_errors_iff_runnable:
  assumes "parse src = Inr (YNode DocumentNode v (doc # rest) l)" "y_Kind doc = MappingNode"
  shows "\<exists>fs. Lint parse src = Some fs \<and> (no_errors fs \<longleftrightarrow> runnable_config doc)"
proof -
  have "no_errors (rulePipelineComponentExists doc) \<longleftrightarrow> no_errors (extension_findings doc) \<and>
      (\<forall>(n, pipe) \<in> set (service_pipelines doc). \<forall>kind \<in> {''receivers'', ''processors'', ''exporters''}.
         set (refs pipe kind) \<subseteq> set (collectKeys doc kind))"
    by (simp add: rulePipelineComponentExists_def no_errors_component split_beta)
  moreover have "no_errors (ruleServiceMissing doc) \<longleftrightarrow> mapChild doc ''service'' \<noteq> None"
    by (auto simp: ruleServiceMissing_def no_errors_def split: option.split)
  ultimately have "no_errors (concat (map (\<lambda>rule. rule doc) lint_rules)) \<longleftrightarrow> runnable_config doc"
    unfolding lint_rules_def
    by (auto simp: no_errors_warnings no_errors_extension no_errors_needs_exporter runnable_config_def
        split: option.splits)
  then show ?thesis using assms by (simp add: Lint_def)
qed

definition sample_doc :: ynode where
  "sample_doc =
     (let s = (\<lambda>v. YNode ScalarNode v [] 1); m = (\<lambda>c. YNode MappingNode [] c 1); q = (\<lambda>c. YNode SequenceNode [] c 1)
      in m [s ''receivers'', m [s ''otlp'', m []], s ''exporters'', m [s ''debug'', m []],
            s ''service'', m [s ''pipelines'', m [s ''traces'',
              m [s ''receivers'', q [s ''otlp''], s ''exporters'', q [s ''debug'']]]]])"

theorem Lint_no_errors_iff_runnable_witness:
  "runnable_config sample_doc \<and>
   (\<exists>fs. Lint (\<lambda>_. Inr (YNode DocumentNode [] [sample_doc] 1)) [] = Some fs \<and> no_errors fs)"
proof -
  have "runnable_config sample_doc" "y_Kind sample_doc = MappingNode" by code_simp+
  then show ?thesis
    using Lint_no_errors_iff_runnable [of "\<lambda>_. Inr (YNode DocumentNode [] [sample_doc] 1)" "[]" "[]" sample_doc "[]" 1]
    by simp
qed

end
