(* ===== verification/Change_Window.thy ===== *)
theory Change_Window
  imports Go_Time
begin

text \<open>
  Recurring blackout windows: \<open>extension/changewindow/changewindow.go\<close> and \<open>provider.go\<close>.  The zone
  database behind \<open>time.LoadLocation\<close> is a parameter.  In a zone with a fixed offset the window test
  is shown equal to its plain description on the local clock.
\<close>

record Window =
  win_Name :: string
  win_DaysOfWeek :: "int list"
  win_StartLocal :: string
  win_EndLocal :: string
  win_Timezone :: string
  win_EffectiveFrom :: string
  win_EffectiveTo :: string

record hm =
  hm_h :: int
  hm_m :: int

definition hm_lt :: "hm \<Rightarrow> hm \<Rightarrow> bool" where
  "hm_lt a b \<longleftrightarrow> (if hm_h a \<noteq> hm_h b then hm_h a < hm_h b else hm_m a < hm_m b)"

text \<open>\<open>time.Parse("15:04", s)\<close> on a five-byte string with a colon in the middle accepts exactly two
  digits on either side, in range.\<close>

definition parseHM :: "string \<Rightarrow> hm option" where
  "parseHM str =
     (let s = TrimSpace str in
      if length s \<noteq> 5 \<or> s ! 2 \<noteq> CHR '':'' then None
      else if list_all is_digit [s ! 0, s ! 1, s ! 3, s ! 4]
              \<and> atou [s ! 0, s ! 1] < 24 \<and> atou [s ! 3, s ! 4] < 60
      then Some \<lparr>hm_h = int (atou [s ! 0, s ! 1]), hm_m = int (atou [s ! 3, s ! 4])\<rparr>
      else None)"

fun dowMatches :: "int list \<Rightarrow> int \<Rightarrow> bool" where
  "dowMatches days wantedDow \<longleftrightarrow> days = [] \<or> wantedDow \<in> set days"

definition wrapDuration :: "hm \<Rightarrow> hm \<Rightarrow> duration" where
  "wrapDuration start end =
     ((24 * 60 - (hm_h start * 60 + hm_m start)) + (hm_h end * 60 + hm_m end)) * minute"

datatype window_error =
    NameRequired
  | TimezoneRequired
  | UnknownTimezone string
  | BadStartLocal string
  | BadEndLocal string
  | BadDayOfWeek int
  | BadEffectiveFrom string
  | BadEffectiveTo string

definition Validate :: "(string \<Rightarrow> location option) \<Rightarrow> Window \<Rightarrow> window_error option" where
  "Validate zones w =
     (if TrimSpace (win_Name w) = [] then Some NameRequired
      else if TrimSpace (win_Timezone w) = [] then Some TimezoneRequired
      else if zones (win_Timezone w) = None then Some (UnknownTimezone (win_Timezone w))
      else if parseHM (win_StartLocal w) = None then Some (BadStartLocal (win_StartLocal w))
      else if parseHM (win_EndLocal w) = None then Some (BadEndLocal (win_EndLocal w))
      else case find (\<lambda>d. d < 0 \<or> 6 < d) (win_DaysOfWeek w) of
        Some d \<Rightarrow> Some (BadDayOfWeek d)
      | None \<Rightarrow>
          if win_EffectiveFrom w \<noteq> [] \<and> parse_rfc3339 (win_EffectiveFrom w) = None
          then Some (BadEffectiveFrom (win_EffectiveFrom w))
          else if win_EffectiveTo w \<noteq> [] \<and> parse_rfc3339 (win_EffectiveTo w) = None
          then Some (BadEffectiveTo (win_EffectiveTo w))
          else None)"

text \<open>The effective-range gate of \<open>IsActive\<close>: an unparsable bound does not gate.\<close>

definition outside_effective_range :: "Window \<Rightarrow> gotime \<Rightarrow> bool" where
  "outside_effective_range w now \<longleftrightarrow>
     win_EffectiveFrom w \<noteq> [] \<and>
       (case parse_rfc3339 (win_EffectiveFrom w) of Some from \<Rightarrow> now < from | None \<Rightarrow> False) \<or>
     win_EffectiveTo w \<noteq> [] \<and>
       (case parse_rfc3339 (win_EffectiveTo w) of Some to \<Rightarrow> to < now | None \<Rightarrow> False)"

definition active_today :: "int list \<Rightarrow> location \<Rightarrow> hm \<Rightarrow> hm \<Rightarrow> gotime \<Rightarrow> bool" where
  "active_today days loc start end now =
     (dowMatches days (Weekday loc now) \<and>
      (let (y, m, d) = local_date loc now;
           todayStart = Date y m d (hm_h start) (hm_m start) 0 0 loc;
           todayEnd = Date y m d (hm_h end) (hm_m end) 0 0 loc
                      + (if hm_lt end start then 24 * hour else 0)
       in \<not> now < todayStart \<and> now < todayEnd))"

definition active_tail :: "int list \<Rightarrow> location \<Rightarrow> hm \<Rightarrow> hm \<Rightarrow> gotime \<Rightarrow> bool" where
  "active_tail days loc start end now =
     (hm_lt end start \<and>
      (let yesterday = AddDate_days loc now (- 1);
           (y, m, d) = local_date loc yesterday;
           tailStart = Date y m d (hm_h start) (hm_m start) 0 0 loc;
           tailEnd = tailStart + wrapDuration start end
       in dowMatches days (Weekday loc yesterday) \<and> \<not> now < tailStart \<and> now < tailEnd))"

definition IsActive :: "(string \<Rightarrow> location option) \<Rightarrow> Window \<Rightarrow> gotime \<Rightarrow> bool" where
  "IsActive zones w now =
     (if outside_effective_range w now then False
      else case zones (win_Timezone w) of
        None \<Rightarrow> False
      | Some loc \<Rightarrow>
          (case parseHM (win_StartLocal w) of
             None \<Rightarrow> False
           | Some start \<Rightarrow>
               (case parseHM (win_EndLocal w) of
                  None \<Rightarrow> False
                | Some end \<Rightarrow>
                    active_today (win_DaysOfWeek w) loc start end now
                    \<or> active_tail (win_DaysOfWeek w) loc start end now)))"

definition FirstActive :: "(string \<Rightarrow> location option) \<Rightarrow> Window list \<Rightarrow> gotime \<Rightarrow> Window option" where
  "FirstActive zones windows now = find (\<lambda>w. IsActive zones w now) windows"

text \<open>The error of the first invalid window, with its index and name.\<close>

fun ValidateAll_from ::
  "(string \<Rightarrow> location option) \<Rightarrow> nat \<Rightarrow> Window list \<Rightarrow> (nat \<times> string \<times> window_error) option" where
  "ValidateAll_from zones i [] = None"
| "ValidateAll_from zones i (w # ws) =
     (case Validate zones w of
        Some e \<Rightarrow> Some (i, win_Name w, e)
      | None \<Rightarrow> ValidateAll_from zones (Suc i) ws)"

definition ValidateAll ::
  "(string \<Rightarrow> location option) \<Rightarrow> Window list \<Rightarrow> (nat \<times> string \<times> window_error) option" where
  "ValidateAll zones windows = ValidateAll_from zones 0 windows"

text \<open>\<open>changewindow.Provider\<close> is a function from a group and an instant to the active window; the
  open-core build wires \<open>NoOpProvider\<close>.\<close>

type_synonym Provider = "string \<Rightarrow> gotime \<Rightarrow> Window option"

definition NoOpProvider :: Provider where
  "NoOpProvider groupID now = None"

section \<open>Zones with a fixed offset\<close>

definition fixed_zone :: "int \<Rightarrow> location" where
  "fixed_zone off = (\<lambda>_. (off, - (2 ^ 63), 2 ^ 63 - 1))"

lemma unix_of_wall_fixed [simp]: "unix_of_wall (fixed_zone off) u = u - off"
  by (simp add: unix_of_wall_def fixed_zone_def Let_def)

lemma wall_fixed [simp]: "wall (fixed_zone off) t = t + off * second"
  by (simp add: wall_def zone_offset_def fixed_zone_def)

lemma Date_fixed:
  "Date y m d h mi s ns (fixed_zone off)
     = date_days y m d * day_ns + (h * 3600 + mi * 60 + s - off) * second + ns"
  by (simp add: Date_def algebra_simps)

lemma local_date_days:
  "local_date loc t = (y, m, d) \<Longrightarrow> date_days y m (d + n) = wall loc t div day_ns + n"
  using date_days_civil [of "wall loc t div day_ns" y m d] by (simp add: local_date_def date_days_def)

lemma AddDate_fixed: "AddDate_days (fixed_zone off) t n = t + n * day_ns"
proof -
  obtain y m d where D: "local_date (fixed_zone off) t = (y, m, d)" by (metis prod_cases3)
  let ?w = "wall (fixed_zone off) t"
  have "?w = ?w div day_ns * day_ns + ?w mod day_ns"
    "?w mod day_ns = ?w mod day_ns div second * second + ?w mod day_ns mod second"
    by (simp_all only: div_mult_mod_eq)
  then show ?thesis
    using local_date_days [OF D, of n]
    by (simp add: AddDate_days_def D Date_fixed algebra_simps)
qed

definition hm_ns :: "hm \<Rightarrow> int" where
  "hm_ns a = (hm_h a * 60 + hm_m a) * minute"

definition valid_hm :: "hm \<Rightarrow> bool" where
  "valid_hm a \<longleftrightarrow> 0 \<le> hm_h a \<and> hm_h a < 24 \<and> 0 \<le> hm_m a \<and> hm_m a < 60"

lemma parseHM_valid: "parseHM s = Some a \<Longrightarrow> valid_hm a"
  by (auto simp: parseHM_def valid_hm_def Let_def split: if_splits)

lemma hm_lt_ns: "valid_hm a \<Longrightarrow> valid_hm b \<Longrightarrow> hm_lt a b \<longleftrightarrow> hm_ns a < hm_ns b"
  by (auto simp: hm_lt_def valid_hm_def hm_ns_def)

lemma hm_ns_bounds: "valid_hm a \<Longrightarrow> 0 \<le> hm_ns a \<and> hm_ns a < day_ns"
  by (auto simp: valid_hm_def hm_ns_def)

text \<open>What an operator means by a window, on the local clock: the local day number and the time of day
  decide.  A window that ends before it starts belongs to the day it starts on.\<close>

definition window_covers :: "int list \<Rightarrow> hm \<Rightarrow> hm \<Rightarrow> int \<Rightarrow> int \<Rightarrow> bool" where
  "window_covers days start end day tod \<longleftrightarrow>
     (if hm_ns end < hm_ns start
      then dowMatches days (weekday_of_day day) \<and> hm_ns start \<le> tod
           \<or> dowMatches days (weekday_of_day (day - 1)) \<and> tod < hm_ns end
      else dowMatches days (weekday_of_day day) \<and> hm_ns start \<le> tod \<and> tod < hm_ns end)"

lemma Date_today_fixed:
  assumes "local_date (fixed_zone off) t = (y, m, d)"
  shows "Date y m d (hm_h a) (hm_m a) 0 0 (fixed_zone off)
    = t - (t + off * second) mod day_ns + hm_ns a"
proof -
  let ?w = "t + off * second"
  have "?w = ?w div day_ns * day_ns + ?w mod day_ns" by (simp only: div_mult_mod_eq)
  then show ?thesis
    using local_date_days [OF assms, of 0] by (simp add: Date_fixed hm_ns_def algebra_simps)
qed

lemma active_today_fixed:
  assumes "valid_hm start" "valid_hm end"
  shows "active_today days (fixed_zone off) start end now \<longleftrightarrow>
    dowMatches days (weekday_of_day ((now + off * second) div day_ns))
    \<and> hm_ns start \<le> (now + off * second) mod day_ns
    \<and> ((now + off * second) mod day_ns < hm_ns end \<or> hm_ns end < hm_ns start)"
proof -
  obtain y m d where D: "local_date (fixed_zone off) now = (y, m, d)" by (metis prod_cases3)
  define tod where "tod = (now + off * second) mod day_ns"
  have tod: "0 \<le> tod" "tod < day_ns" by (simp_all add: tod_def)
  have b: "0 \<le> hm_ns end" "hm_ns start < day_ns" using assms hm_ns_bounds by blast+
  show ?thesis
    using tod b hm_lt_ns [OF assms(2,1)]
    by (auto simp: active_today_def D Date_today_fixed [OF D] Weekday_def tod_def [symmetric] Let_def)
qed

lemma active_tail_fixed:
  assumes "valid_hm start" "valid_hm end"
  shows "active_tail days (fixed_zone off) start end now \<longleftrightarrow> hm_ns end < hm_ns start \<and>
    dowMatches days (weekday_of_day ((now + off * second) div day_ns - 1))
    \<and> (now + off * second) mod day_ns < hm_ns end"
proof -
  let ?y = "now - day_ns"
  obtain y m d where D: "local_date (fixed_zone off) ?y = (y, m, d)" by (metis prod_cases3)
  define tod where "tod = (now + off * second) mod day_ns"
  have tod: "0 \<le> tod" "tod < day_ns" by (simp_all add: tod_def)
  have eq: "?y + off * second = (now + off * second) + (- 1) * day_ns" by simp
  have m: "(?y + off * second) mod day_ns = tod" unfolding eq tod_def by (simp only: mod_mult_self1)
  have q: "(?y + off * second) div day_ns = (now + off * second) div day_ns - 1"
    unfolding eq by (subst div_mult_self1) simp_all
  have b: "0 \<le> hm_ns end" "hm_ns start < day_ns" using assms hm_ns_bounds by blast+
  have "wrapDuration start end = day_ns - hm_ns start + hm_ns end"
    by (simp add: wrapDuration_def hm_ns_def algebra_simps)
  then show ?thesis
    using tod b hm_lt_ns [OF assms(2,1)]
    by (auto simp: active_tail_def AddDate_fixed D Date_today_fixed [OF D] Weekday_def m q
        tod_def [symmetric] Let_def)
qed

text \<open>inside its effective range a well-formed window is active exactly when the local clock of
  its zone says so: same-day windows from start to end on a matching day, overnight windows from
  the start on a matching day until the end on the following day.\<close>

theorem IsActive_on_local_clock:
  assumes "zones (win_Timezone w) = Some (fixed_zone off)"
    and "parseHM (win_StartLocal w) = Some start" "parseHM (win_EndLocal w) = Some end"
  shows "IsActive zones w now \<longleftrightarrow> \<not> outside_effective_range w now \<and>
    window_covers (win_DaysOfWeek w) start end ((now + off * second) div day_ns)
      ((now + off * second) mod day_ns)"
proof -
  have v: "valid_hm start" "valid_hm end" using assms(2,3) parseHM_valid by blast+
  show ?thesis
    by (auto simp: IsActive_def assms active_today_fixed [OF v] active_tail_fixed [OF v] window_covers_def
        simp del: dowMatches.simps)
qed

definition night_window :: Window where
  "night_window = \<lparr>win_Name = ''storm response'', win_DaysOfWeek = [5], win_StartLocal = ''22:00'',
     win_EndLocal = ''06:00'', win_Timezone = ''UTC'', win_EffectiveFrom = [], win_EffectiveTo = []\<rparr>"

text \<open>Saturday 2024-03-02, 03:00 UTC lies in the tail of Friday's night window.\<close>

theorem IsActive_on_local_clock_witness:
  "IsActive (\<lambda>_. Some (fixed_zone 0)) night_window (738946 * day_ns + 3 * hour)"
proof -
  have hm: "parseHM (win_StartLocal night_window) = Some \<lparr>hm_h = 22, hm_m = 0\<rparr>"
    "parseHM (win_EndLocal night_window) = Some \<lparr>hm_h = 6, hm_m = 0\<rparr>"
    by code_simp+
  have c: "\<not> outside_effective_range night_window (738946 * day_ns + 3 * hour)"
    "window_covers (win_DaysOfWeek night_window) \<lparr>hm_h = 22, hm_m = 0\<rparr> \<lparr>hm_h = 6, hm_m = 0\<rparr> 738946 (3 * hour)"
    by code_simp+
  show ?thesis
    using c IsActive_on_local_clock [of "\<lambda>_. Some (fixed_zone 0)" night_window 0, OF refl hm, of "738946 * day_ns + 3 * hour"]
    by simp
qed

text \<open>a window whose start and end coincide is never active, in any zone and on any day.\<close>

theorem equal_bounds_never_active:
  assumes "parseHM (win_StartLocal w) = parseHM (win_EndLocal w)"
  shows "\<not> IsActive zones w now"
  using assms
  by (auto simp: IsActive_def active_today_def active_tail_def hm_lt_def Let_def split: option.splits prod.splits)

theorem equal_bounds_never_active_witness:
  "\<not> IsActive (\<lambda>_. Some (fixed_zone 0))
       (night_window\<lparr>win_StartLocal := ''00:00'', win_EndLocal := ''00:00''\<rparr>) (738946 * day_ns + 3 * hour)"
  by (rule equal_bounds_never_active) simp

text \<open>a window that passes validation can be interpreted by the engine: its zone resolves and
  both clock times parse, so the fail-open branches of the test are never taken, and the effective
  bounds that are set do gate.\<close>

theorem Validate_interpretable:
  assumes "Validate zones w = None"
  shows "zones (win_Timezone w) \<noteq> None \<and> parseHM (win_StartLocal w) \<noteq> None \<and> parseHM (win_EndLocal w) \<noteq> None
    \<and> list_all (\<lambda>d. 0 \<le> d \<and> d \<le> 6) (win_DaysOfWeek w)
    \<and> (outside_effective_range w now \<longleftrightarrow>
        (win_EffectiveFrom w \<noteq> [] \<and> now < the (parse_rfc3339 (win_EffectiveFrom w)))
        \<or> (win_EffectiveTo w \<noteq> [] \<and> the (parse_rfc3339 (win_EffectiveTo w)) < now))"
proof -
  have "find (\<lambda>d. d < 0 \<or> 6 < d) (win_DaysOfWeek w) = None"
    using assms by (auto simp: Validate_def split: if_splits option.splits)
  then have "list_all (\<lambda>d. 0 \<le> d \<and> d \<le> 6) (win_DaysOfWeek w)"
    by (auto simp: find_None_iff list_all_iff not_less)
  moreover have "zones (win_Timezone w) \<noteq> None" "parseHM (win_StartLocal w) \<noteq> None"
    "parseHM (win_EndLocal w) \<noteq> None"
    "win_EffectiveFrom w \<noteq> [] \<Longrightarrow> parse_rfc3339 (win_EffectiveFrom w) \<noteq> None"
    "win_EffectiveTo w \<noteq> [] \<Longrightarrow> parse_rfc3339 (win_EffectiveTo w) \<noteq> None"
    using assms by (auto simp: Validate_def split: if_splits option.splits)
  ultimately show ?thesis
    by (auto simp: outside_effective_range_def split: option.splits)
qed

theorem Validate_interpretable_witness:
  "Validate (\<lambda>_. Some (fixed_zone 0)) night_window = None \<and> parseHM (win_StartLocal night_window) \<noteq> None"
proof -
  have "Validate (\<lambda>_. Some (fixed_zone 0)) night_window = None" by code_simp
  with Validate_interpretable [OF this, of 0] show ?thesis by simp
qed

end
