(* ===== verification/Control_Plane.thy ===== *)
theory Control_Plane
  imports Agent_Config Config_Lint Change_Window
begin

text \<open>
  The state the control plane's handlers run in and the parameters they are built with.

  \<open>Env\<close> collects what the constructors of the service, the dispatcher and the engine are handed: the
  optional providers (\<open>None\<close> for a nil interface), the functions of third-party packages and of the
  outside world (UUID generation, the YAML parser, JSON encoders, Unicode case tables, number
  formatting, the OpAMP push, the telemetry and connector back ends) and the wiring switches.

  \<open>World\<close> is what the handlers mutate: the application store, the audit log, the action tables, and the
  outgoing effects in the order they happen (config pushes, reconcile pokes, published events, conflict
  counters).  A handler reads the clock once: all \<open>time.Now()\<close> calls of one invocation yield the
  argument \<open>now\<close>.  Logging, tracing and the notification webhook are left out.
\<close>

text \<open>Go's integer division truncates towards zero (for a positive divisor).\<close>

definition go_div :: "int \<Rightarrow> int \<Rightarrow> int" where
  "go_div a b = (if a < 0 then - ((- a) div b) else a div b)"

section \<open>Providers and other parameters\<close>

record GroupPolicyProvider =
  pol_RequiresApproval :: "string \<Rightarrow> bool"
  pol_RequiredApprovals :: "string \<Rightarrow> int"
  pol_RequiredApproverRoles :: "string \<Rightarrow> string list"

record Capability =
  cap_Type :: string
  cap_Constraints :: payload

record ActionType =
  at_Type :: string
  at_ValidateParameters :: "string \<Rightarrow> string option"
  at_MatchesCapability :: "string \<Rightarrow> Capability \<Rightarrow> bool \<times> string"

type_synonym Registry = "(string \<times> ActionType) list"

record ActionRequest =
  rq_ID :: string
  rq_ProposalID :: string
  rq_RunnerID :: string
  rq_ActionType :: string
  rq_ParametersJSON :: string
  rq_Signature :: string
  rq_Phase :: string
  rq_Status :: string
  rq_DeniedFor :: string
  rq_DryRunOutputJSON :: string
  rq_ExecutionOutputJSON :: string
  rq_IssuedAt :: gotime
  rq_ExpiresAt :: gotime
  rq_StartedAt :: "gotime option"
  rq_CompletedAt :: "gotime option"

record ActionRunnerRegistration =
  rn_RunnerID :: string
  rn_Hostname :: string
  rn_PublicKeyPEM :: string
  rn_CapabilitiesJSON :: string
  rn_RegisteredAt :: gotime
  rn_LastSeenAt :: gotime
  rn_RevokedAt :: "gotime option"

text \<open>The plan action dispatcher: its signer (\<open>None\<close> when not configured; the signature of a request
  or \<open>None\<close> on a serialisation error), its registry, the JSON decoder of a capability list and
  the quoting of \<open>fmt\<close>'s verb \<open>q\<close>.\<close>

record Dispatcher =
  dp_signer :: "(ActionRequest \<Rightarrow> string option) option"
  dp_registry :: Registry
  dp_unmarshalCaps :: "string \<Rightarrow> Capability list option"
  dp_quote :: "string \<Rightarrow> string"

record NormalizedQuery =
  nq_Signal :: string
  nq_Selector :: string
  nq_Matchers :: "(string \<times> string \<times> string) list"
  nq_Aggregation :: string
  nq_Raw :: string
  nq_TimeRange :: "(gotime \<times> gotime) option"

record ScalarResult =
  sc_Objective :: string
  sc_Value :: real
  sc_Unit :: string
  sc_Threshold :: real
  sc_Breached :: bool

text \<open>A query fails (\<open>None\<close>), or returns a result that is a scalar or not.\<close>

type_synonym Connector = "NormalizedQuery \<Rightarrow> ScalarResult option option"

record Env =
  env_audited :: bool
  env_marshal :: "payload \<Rightarrow> string"
  env_labelResolver :: "(string \<Rightarrow> string \<times> string) option"
  env_uuid :: "nat \<Rightarrow> string"
  env_fold :: "string \<Rightarrow> string"
  env_lower :: "string \<Rightarrow> string"
  env_splitLines :: "string \<Rightarrow> string list"
  env_unifiedDiff :: "string list \<Rightarrow> string list \<Rightarrow> string option"
  env_driftDiff :: "string \<Rightarrow> string \<Rightarrow> string"
  env_parseYAML :: "string \<Rightarrow> string + ynode"
  env_marshalSpec :: "ActionStepSpec \<Rightarrow> string option"
  env_unmarshalSpec :: "string \<Rightarrow> ActionStepSpec option"
  env_groupPolicy :: "GroupPolicyProvider option"
  env_roleChecker :: "(string \<Rightarrow> string \<Rightarrow> string list option) option"
  env_windows :: "Provider option"
  env_ack :: "nat \<Rightarrow> string \<Rightarrow> bool"
  env_telemetry :: "(string list \<Rightarrow> gotime \<Rightarrow> real option) option"
  env_connectors :: "(string \<Rightarrow> Connector option) option"
  env_owners :: "(string \<times> gotime) list option option"
  env_coverageGrace :: duration
  env_convergenceTimeout :: duration
  env_writeDesiredState :: bool
  env_reconcileCoord :: bool
  env_broker :: bool
  env_parseUUID :: "string \<Rightarrow> string option"
  env_dispatcher :: "Dispatcher option"
  env_fmt1 :: "real \<Rightarrow> string"
  env_fmt4g :: "real \<Rightarrow> string"
  env_quote :: "string \<Rightarrow> string"

section \<open>The world\<close>

record Push =
  push_Agent :: string
  push_ConfigID :: string
  push_Content :: string
  push_Acked :: bool

record StateChange =
  sch_RolloutID :: string
  sch_Name :: string
  sch_State :: RolloutState
  sch_CurrentStage :: int
  sch_Transition :: string

record World =
  w_store :: AppStore
  w_audit :: AuditStore
  w_runners :: "(string \<times> ActionRunnerRegistration) list"
  w_requests :: "(string \<times> ActionRequest) list"
  w_uuids :: nat
  w_pushes :: "Push list"
  w_pokes :: "string list"
  w_published :: "StateChange list"
  w_conflicts :: nat
  w_retried :: nat
  w_yielded :: nat

definition empty_world :: World where
  "empty_world = \<lparr>w_store = empty_store, w_audit = empty_audit, w_runners = [], w_requests = [],
     w_uuids = 0, w_pushes = [], w_pokes = [], w_published = [], w_conflicts = 0, w_retried = 0,
     w_yielded = 0\<rparr>"

definition fresh_uuid :: "Env \<Rightarrow> World \<Rightarrow> string \<times> World" where
  "fresh_uuid env w = (env_uuid env (w_uuids w), w\<lparr>w_uuids := w_uuids w + 1\<rparr>)"

abbreviation AuditActorSystem :: string where "AuditActorSystem \<equiv> ''system''"

text \<open>Recording through the optional audit service; its errors are discarded by every caller.\<close>

definition audit :: "Env \<Rightarrow> gotime \<Rightarrow> Ctx \<Rightarrow> AuditEntry \<Rightarrow> World \<Rightarrow> World" where
  "audit env now ctx e w =
     (if env_audited env then
        (let (uuid, w1) = fresh_uuid env w
         in w1\<lparr>w_audit := Record (env_marshal env) (env_labelResolver env) uuid now ctx e (w_audit w1)\<rparr>)
      else w)"

definition rollout_entry :: "string \<Rightarrow> string \<Rightarrow> string \<Rightarrow> string \<Rightarrow> payload option \<Rightarrow> AuditEntry" where
  "rollout_entry actor eventType targetID action payload =
     \<lparr>en_Actor = actor, en_EventType = eventType, en_TargetType = ''rollout'', en_TargetID = targetID,
      en_Action = action, en_Payload = payload\<rparr>"

text \<open>A handler's Go results \<open>(value, error)\<close> with the state it leaves.\<close>

type_synonym 'a reply = "'a option \<times> error option \<times> World"

abbreviation fail_with :: "error \<Rightarrow> World \<Rightarrow> 'a reply" where
  "fail_with e w \<equiv> (None, Some e, w)"

abbreviation returns :: "'a \<Rightarrow> World \<Rightarrow> 'a reply" where
  "returns v w \<equiv> (Some v, None, w)"

text \<open>The response of an HTTP handler: its kind with the body's error and detail, or the value it encodes.\<close>

datatype 'a http_reply =
    StatusOK 'a
  | BadRequest string string
  | Forbidden string string
  | NotFound string
  | Unauthorized string
  | ServiceUnavailable string
  | InternalServerError string

section \<open>Frame facts\<close>

lemma fresh_uuid_simps [simp]:
  "fst (fresh_uuid env w) = env_uuid env (w_uuids w)"
  "snd (fresh_uuid env w) = w\<lparr>w_uuids := w_uuids w + 1\<rparr>"
  by (simp_all add: fresh_uuid_def)

lemma audit_frame [simp]:
  "w_store (audit env now ctx e w) = w_store w" "w_runners (audit env now ctx e w) = w_runners w"
  "w_requests (audit env now ctx e w) = w_requests w" "w_pushes (audit env now ctx e w) = w_pushes w"
  "w_pokes (audit env now ctx e w) = w_pokes w" "w_published (audit env now ctx e w) = w_published w"
  "w_conflicts (audit env now ctx e w) = w_conflicts w" "w_retried (audit env now ctx e w) = w_retried w"
  "w_yielded (audit env now ctx e w) = w_yielded w"
  by (simp_all add: audit_def fresh_uuid_def)

end
