(* ===== verification/Rollout_Service.thy ===== *)
theory Rollout_Service
  imports Control_Plane
begin

text \<open>
  The rollout service (\<open>services/rollout_service_impl.go\<close>, \<open>services/rollout_service_action_steps.go\<close>):
  every operation of the API on rollouts and plans, as a function from the world to its reply.  The
  reply pairs Go's \<open>(value, error)\<close> with the world the operation leaves.
\<close>

section \<open>Creating a rollout\<close>

abbreviation defaultErrorRateWindowSeconds :: int where "defaultErrorRateWindowSeconds \<equiv> 120"

definition diffAtCreate :: "Env \<Rightarrow> string \<Rightarrow> string \<Rightarrow> AppStore \<Rightarrow> DiffResult option" where
  "diffAtCreate env groupID targetConfigID s =
     (case GetConfig targetConfigID s of
        None \<Rightarrow> None
      | Some target \<Rightarrow>
          let currentContent = (case GetLatestConfigForGroup groupID s of
                                  Some cur \<Rightarrow> cf_Content cur | None \<Rightarrow> [])
          in Some (Diff (env_splitLines env) (env_unifiedDiff env) currentContent (cf_Content target)))"

definition created_payload :: "Env \<Rightarrow> bool \<Rightarrow> Rollout \<Rightarrow> AppStore \<Rightarrow> payload" where
  "created_payload env enforcedByPolicy r s =
     [(''name'', JStr (ro_Name r)), (''group_id'', JStr (ro_GroupID r)),
      (''target_config_id'', JStr (ro_TargetConfigID r)),
      (''stage_count'', JInt (int (length (ro_Stages r))))]
     @ (if ro_RequireApproval r
        then [(''require_approval'', JBool True),
              (''approval_enforced_by_policy'', JBool enforcedByPolicy)] else [])
     @ (if ro_PreviousConfigID r \<noteq> []
        then [(''previous_config_id'', JStr (ro_PreviousConfigID r))] else [])
     @ (case diffAtCreate env (ro_GroupID r) (ro_TargetConfigID r) s of
          None \<Rightarrow> []
        | Some d \<Rightarrow> [(''diff_added_lines'', JInt (diff_Added d)),
                       (''diff_removed_lines'', JInt (diff_Removed d)),
                       (''diff_identical'', JBool (diff_Identical d))])"

text \<open>The literal \<open>Create\<close> persists, from the request after the policy and the default window have been
  applied to it.\<close>

definition initial_state :: "RolloutInput \<Rightarrow> RolloutState" where
  "initial_state inp =
     (if in_PlanID inp \<noteq> [] \<and> in_PlanStepIndex inp > 0 then RolloutStateQueued
      else if in_RequireApproval inp then RolloutStatePendingApproval
      else RolloutStatePending)"

definition new_rollout ::
  "string \<Rightarrow> gotime \<Rightarrow> string \<Rightarrow> int \<Rightarrow> string \<Rightarrow> RolloutInput \<Rightarrow> Rollout" where
  "new_rollout uuid now previousID requiredApprovals proposedBy inp =
     zero_rollout\<lparr>ro_ID := uuid, ro_Name := in_Name inp, ro_GroupID := in_GroupID inp,
       ro_TargetConfigID := in_TargetConfigID inp, ro_PreviousConfigID := previousID,
       ro_Stages := normalizeStages (in_Stages inp), ro_AbortCriteria := in_AbortCriteria inp,
       ro_NotificationURL := in_NotificationURL inp, ro_State := initial_state inp,
       ro_CurrentStage := 0, ro_RequireApproval := in_RequireApproval inp,
       ro_RequiredApprovals := requiredApprovals, ro_RequestedBy := in_RequestedBy inp,
       ro_ProposedBy := proposedBy, ro_ProposalReasoning := in_ProposalReasoning inp,
       ro_EvidenceRefs := in_EvidenceRefs inp, ro_PlanID := in_PlanID inp,
       ro_PlanStepIndex := in_PlanStepIndex inp, ro_CreatedAt := now, ro_UpdatedAt := now\<rparr>"

definition enforced_by_policy :: "Env \<Rightarrow> RolloutInput \<Rightarrow> bool" where
  "enforced_by_policy env inp =
     (case env_groupPolicy env of
        None \<Rightarrow> False
      | Some p \<Rightarrow> pol_RequiresApproval p (in_GroupID inp) \<and> \<not> in_RequireApproval inp)"

definition required_approvals :: "Env \<Rightarrow> RolloutInput \<Rightarrow> int" where
  "required_approvals env inp =
     max (max (in_RequiredApprovals inp)
              (case env_groupPolicy env of None \<Rightarrow> 0 | Some p \<Rightarrow> pol_RequiredApprovals p (in_GroupID inp))) 1"

definition default_window :: "RolloutInput \<Rightarrow> RolloutInput" where
  "default_window inp =
     (if MaxErrorLogsPerMinute (in_AbortCriteria inp) > 0 \<and> ErrorRateWindowSeconds (in_AbortCriteria inp) = 0
      then inp\<lparr>in_AbortCriteria := (in_AbortCriteria inp)\<lparr>ErrorRateWindowSeconds := defaultErrorRateWindowSeconds\<rparr>\<rparr>
      else inp)"

definition Create :: "Env \<Rightarrow> gotime \<Rightarrow> Ctx \<Rightarrow> RolloutInput \<Rightarrow> World \<Rightarrow> Rollout reply" where
  "Create env now ctx inp w =
     (case validateRolloutInput inp of
        Some e \<Rightarrow> fail_with e w
      | None \<Rightarrow>
          if GetConfig (in_TargetConfigID inp) (w_store w) = None
          then fail_with (TargetConfigNotFound (in_TargetConfigID inp)) w
          else
            let previousID = (case GetLatestConfigForGroup (in_GroupID inp) (w_store w) of
                                None \<Rightarrow> [] | Some prev \<Rightarrow> cf_ID prev);
                enforced = enforced_by_policy env inp;
                inp1 = (if enforced then inp\<lparr>in_RequireApproval := True\<rparr> else inp);
                requiredApprovals = required_approvals env inp1;
                proposedBy = (if in_ProposedBy inp1 = [] then RolloutProposedByOperator
                              else in_ProposedBy inp1)
            in if proposedBy \<notin> {RolloutProposedByOperator, RolloutProposedByAI, RolloutProposedBySystem}
               then fail_with (InvalidProposedBy proposedBy) w
               else
                 let (uuid, w1) = fresh_uuid env w;
                     r = new_rollout uuid now previousID requiredApprovals proposedBy (default_window inp1)
                 in (case CreateRollout (toStorageRollout r) (w_store w1) of
                       Inl e \<Rightarrow> fail_with e w1
                     | Inr s' \<Rightarrow>
                         returns r (audit env now ctx
                           (rollout_entry AuditActorSystem ''rollout.created'' (ro_ID r) ''created''
                             (Some (created_payload env enforced r s'))) (w1\<lparr>w_store := s'\<rparr>))))"

section \<open>Reading\<close>

definition populateApproverCount :: "AppStore \<Rightarrow> Rollout \<Rightarrow> Rollout" where
  "populateApproverCount s r =
     (if ro_State r \<noteq> RolloutStatePendingApproval then r
      else r\<lparr>ro_ApproverCount := CountRolloutApprovers (ro_ID r) s\<rparr>)"

definition Get :: "string \<Rightarrow> AppStore \<Rightarrow> Rollout option" where
  "Get i s = map_option (populateApproverCount s \<circ> toServiceRollout) (GetRollout i s)"

definition List_rollouts :: "RolloutFilter \<Rightarrow> AppStore \<Rightarrow> Rollout list" where
  "List_rollouts f s = map (populateApproverCount s \<circ> toServiceRollout) (ListRollouts f s)"

definition all_rollouts :: RolloutFilter where
  "all_rollouts = \<lparr>rf_GroupID = [], rf_State = None, rf_Limit = 1000, rf_PlanID = []\<rparr>"

definition NextPlanStep :: "string \<Rightarrow> int \<Rightarrow> AppStore \<Rightarrow> Rollout option" where
  "NextPlanStep planID currentIndex s =
     (if planID = [] then None
      else map_option toServiceRollout
        (find (\<lambda>r. ro_PlanID r = planID \<and> ro_PlanStepIndex r = currentIndex + 1)
           (ListRollouts all_rollouts s)))"

section \<open>Operator transitions\<close>

definition Abort :: "Env \<Rightarrow> gotime \<Rightarrow> Ctx \<Rightarrow> string \<Rightarrow> string \<Rightarrow> World \<Rightarrow> Rollout reply" where
  "Abort env now ctx i reason w =
     (case GetRollout i (w_store w) of
        None \<Rightarrow> fail_with (ErrRolloutNotFound i) w
      | Some stored \<Rightarrow>
          if ro_State stored = RolloutStateSucceeded \<or> ro_State stored = RolloutStateRolledBack
          then (Some (toServiceRollout stored), Some (AlreadyTerminal (ro_State stored)), w)
          else
            let reason' = (if reason = [] then ''aborted by operator'' else reason)
            in (case UpdateRollout (stored\<lparr>ro_State := RolloutStateAborted, ro_AbortReason := reason'\<rparr>) (w_store w) of
                  Inl e \<Rightarrow> fail_with e w
                | Inr (stored', s') \<Rightarrow>
                    returns (toServiceRollout stored')
                      (audit env now ctx (rollout_entry AuditActorSystem ''rollout.aborted'' i ''aborted''
                         (Some [(''reason'', JStr reason')])) (w\<lparr>w_store := s'\<rparr>))))"

definition Pause :: "Env \<Rightarrow> gotime \<Rightarrow> Ctx \<Rightarrow> string \<Rightarrow> World \<Rightarrow> Rollout reply" where
  "Pause env now ctx i w =
     (case GetRollout i (w_store w) of
        None \<Rightarrow> fail_with (ErrRolloutNotFound i) w
      | Some stored \<Rightarrow>
          if ro_State stored = RolloutStatePaused then returns (toServiceRollout stored) w
          else if ro_State stored \<noteq> RolloutStateInProgress \<and> ro_State stored \<noteq> RolloutStatePending
          then (Some (toServiceRollout stored), Some (CannotPause (ro_State stored)), w)
          else (case UpdateRollout (stored\<lparr>ro_State := RolloutStatePaused\<rparr>) (w_store w) of
                  Inl e \<Rightarrow> fail_with e w
                | Inr (stored', s') \<Rightarrow>
                    returns (toServiceRollout stored')
                      (audit env now ctx (rollout_entry AuditActorSystem ''rollout.paused'' i ''paused'' None)
                         (w\<lparr>w_store := s'\<rparr>))))"

definition Resume :: "Env \<Rightarrow> gotime \<Rightarrow> Ctx \<Rightarrow> string \<Rightarrow> World \<Rightarrow> Rollout reply" where
  "Resume env now ctx i w =
     (case GetRollout i (w_store w) of
        None \<Rightarrow> fail_with (ErrRolloutNotFound i) w
      | Some stored \<Rightarrow>
          if ro_State stored \<noteq> RolloutStatePaused
          then (Some (toServiceRollout stored), Some (CannotResume (ro_State stored)), w)
          else (case UpdateRollout (stored\<lparr>ro_State := RolloutStateInProgress, ro_StageStartedAt := Some now\<rparr>)
                       (w_store w) of
                  Inl e \<Rightarrow> fail_with e w
                | Inr (stored', s') \<Rightarrow>
                    returns (toServiceRollout stored')
                      (audit env now ctx (rollout_entry AuditActorSystem ''rollout.resumed'' i ''resumed'' None)
                         (w\<lparr>w_store := s'\<rparr>))))"

definition Persist :: "Rollout \<Rightarrow> AppStore \<Rightarrow> (Rollout \<times> AppStore) result" where
  "Persist r s =
     (case UpdateRollout (toStorageRollout r) s of
        Inl e \<Rightarrow> Inl e
      | Inr (storage, s') \<Rightarrow> Inr (r\<lparr>ro_Version := ro_Version storage\<rparr>, s'))"

definition SetExcludeFromLearning ::
  "Env \<Rightarrow> gotime \<Rightarrow> Ctx \<Rightarrow> string \<Rightarrow> string \<Rightarrow> string \<Rightarrow> bool \<Rightarrow> World \<Rightarrow> Rollout reply" where
  "SetExcludeFromLearning env now ctx i actor reason excluded w =
     (case GetRollout i (w_store w) of
        None \<Rightarrow> (None, None, w)
      | Some stored \<Rightarrow>
          (case UpdateRollout (stored\<lparr>ro_ExcludeFromLearning := excluded\<rparr>) (w_store w) of
             Inl e \<Rightarrow> fail_with e w
           | Inr (stored', s') \<Rightarrow>
               returns (toServiceRollout stored')
                 (audit env now ctx (rollout_entry actor ''rollout.excluded_from_learning'' i
                    (if excluded then ''exclude_from_learning'' else ''include_in_learning'')
                    (Some ([(''rollout_id'', JStr i),
                            (''previous_state'', JBool (ro_ExcludeFromLearning stored)),
                            (''new_state'', JBool excluded)]
                           @ (if reason \<noteq> [] then [(''reason'', JStr reason)] else []))))
                    (w\<lparr>w_store := s'\<rparr>))))"

section \<open>Approval\<close>

definition EqualFold :: "Env \<Rightarrow> string \<Rightarrow> string \<Rightarrow> bool" where
  "EqualFold env a b \<longleftrightarrow> env_fold env a = env_fold env b"

definition deriveApproverLabel :: "string \<Rightarrow> string" where
  "deriveApproverLabel approver =
     (if prefix ''operator:'' approver then drop (length ''operator:'') approver else approver)"

definition role_key :: "Env \<Rightarrow> string \<Rightarrow> string" where
  "role_key env role = env_lower env (TrimSpace role)"

definition covered_roles ::
  "Env \<Rightarrow> (string \<Rightarrow> string \<Rightarrow> string list option) \<Rightarrow> RolloutApproval list \<Rightarrow> string list" where
  "covered_roles env checker approvers =
     concat (map (\<lambda>a. case checker (ra_ApproverTokenID a) (deriveApproverLabel (ra_Approver a)) of
                       None \<Rightarrow> []
                     | Some roles \<Rightarrow> map (role_key env) roles) approvers)"

definition role_requirement :: "Env \<Rightarrow> string \<Rightarrow> string \<Rightarrow> AppStore \<Rightarrow> string list \<times> string list" where
  "role_requirement env i groupID s =
     (case (env_groupPolicy env, env_roleChecker env) of
        (Some p, Some checker) \<Rightarrow>
          (let requiredRoles = pol_RequiredApproverRoles p groupID;
               covered = covered_roles env checker (ListRolloutApprovers i s)
           in (requiredRoles,
               filter (\<lambda>want. role_key env want \<noteq> [] \<and> role_key env want \<notin> set covered) requiredRoles))
      | _ \<Rightarrow> ([], []))"

abbreviation JStrs :: "string list \<Rightarrow> jval" where "JStrs xs \<equiv> JList (map JStr xs)"

definition Approve ::
  "Env \<Rightarrow> gotime \<Rightarrow> Ctx \<Rightarrow> string \<Rightarrow> string \<Rightarrow> string \<Rightarrow> string \<Rightarrow> World \<Rightarrow> Rollout reply" where
  "Approve env now ctx i approver approverTokenID notes w =
     (case GetRollout i (w_store w) of
        None \<Rightarrow> fail_with (ErrRolloutNotFound i) w
      | Some stored \<Rightarrow>
          if ro_State stored \<noteq> RolloutStatePendingApproval
          then (Some (toServiceRollout stored), Some (CannotApprove (ro_State stored)), w)
          else if EqualFold env (TrimSpace approver) (TrimSpace (ro_RequestedBy stored))
          then (Some (toServiceRollout stored), Some (TwoPersonRule (ro_RequestedBy stored)), w)
          else
            let s1 = RecordRolloutApproval i approver approverTokenID notes now (w_store w);
                w1 = w\<lparr>w_store := s1\<rparr>;
                count = CountRolloutApprovers i s1;
                required = (if ro_RequiredApprovals stored < 1 then 1 else ro_RequiredApprovals stored);
                (requiredRoles, missingRoles) = role_requirement env i (ro_GroupID stored) s1
            in if \<not> (count \<ge> required \<and> missingRoles = []) then
                 let out = (toServiceRollout stored)\<lparr>ro_ApproverCount := count,
                              ro_MissingApproverRoles := missingRoles\<rparr>;
                     base = [(''approver'', JStr approver), (''count'', JInt count),
                             (''required'', JInt required), (''notes'', JStr notes)];
                     payload = (if count \<ge> required \<and> missingRoles \<noteq> []
                       then base @ [(''required_roles'', JStrs requiredRoles),
                                    (''missing_roles'', JStrs missingRoles),
                                    (''reason'', JStr (''count met ('' @ itoa count @ ''/'' @ itoa required
                                       @ '') but missing approver role(s): '' @ Join '', '' missingRoles))]
                       else base)
                 in returns out (audit env now ctx
                      (rollout_entry approver ''rollout.approval_recorded'' i ''approval_recorded'' (Some payload)) w1)
               else
                 (case UpdateRollout (stored\<lparr>ro_State := RolloutStatePending, ro_ApprovedBy := approver,
                         ro_ApprovedAt := Some now, ro_ApprovalNotes := notes\<rparr>) s1 of
                    Inl e \<Rightarrow> fail_with e w1
                  | Inr (stored', s') \<Rightarrow>
                      returns ((toServiceRollout stored')\<lparr>ro_ApproverCount := count\<rparr>)
                        (audit env now ctx (rollout_entry approver ''rollout.approved'' i ''approved''
                           (Some ([(''notes'', JStr notes), (''count'', JInt count), (''required'', JInt required)]
                              @ (if requiredRoles \<noteq> []
                                 then [(''required_roles'', JStrs requiredRoles), (''roles_ok'', JBool True)]
                                 else [])))) (w\<lparr>w_store := s'\<rparr>))))"

end
