(* ===== verification/Rollout_Plans.thy ===== *)
theory Rollout_Plans
  imports Rollout_Service
begin

text \<open>
  Rollback and multi-step plans (\<open>services/rollout_service_impl.go\<close>,
  \<open>services/rollout_service_action_steps.go\<close>): the one-click rollback, the cancellation of queued
  followers, the backwards walk, rejection, plan creation with inline config snippets and action steps,
  the plan envelopes and the preview.
\<close>

section \<open>Rolling back\<close>

definition rollback_input :: "StoredRollout \<Rightarrow> bool \<Rightarrow> string \<Rightarrow> RolloutInput" where
  "rollback_input source requireApproval operator =
     \<lparr>in_Name = take 200 (''Rollback of: '' @ ro_Name source), in_GroupID = ro_GroupID source,
      in_TargetConfigID = ro_PreviousConfigID source,
      in_Stages = [\<lparr>Mode = RolloutStageModePercent, Percentage = 100, LabelSelector = [],
                    DwellSeconds = 0, ConvergencePercent = 0\<rparr>],
      in_AbortCriteria = zero_criteria, in_NotificationURL = [], in_RequireApproval = requireApproval,
      in_RequiredApprovals = 0, in_RequestedBy = operator, in_ProposedBy = RolloutProposedByOperator,
      in_ProposalReasoning = [], in_EvidenceRefs = [], in_PlanID = [], in_PlanStepIndex = 0,
      in_InlineConfigSnippet = [], in_Kind = [], in_Action = None\<rparr>"

definition RollBack :: "Env \<Rightarrow> gotime \<Rightarrow> Ctx \<Rightarrow> string \<Rightarrow> string \<Rightarrow> World \<Rightarrow> Rollout reply" where
  "RollBack env now ctx i operator w =
     (case GetRollout i (w_store w) of
        None \<Rightarrow> fail_with (ErrRolloutNotFound i) w
      | Some source \<Rightarrow>
          if ro_State source \<notin> {RolloutStateSucceeded, RolloutStateAborted, RolloutStateRolledBack}
          then fail_with (NotTerminal (ro_State source)) w
          else if ro_PreviousConfigID source = [] then fail_with NoPreviousConfig w
          else
            let requireApproval = (ro_RequireApproval source \<or>
                  (case GetGroup (ro_GroupID source) (w_store w) of
                     None \<Rightarrow> False | Some g \<Rightarrow> gr_RequireApprovalForRollback g))
            in (case Create env now ctx (rollback_input source requireApproval operator) w of
                  (Some newRollout, None, w1) \<Rightarrow>
                    let linked = newRollout\<lparr>ro_RolledBackFromID := ro_ID source\<rparr>
                    in (case UpdateRollout (toStorageRollout linked) (w_store w1) of
                          Inl e \<Rightarrow> fail_with e w1
                        | Inr (_, s') \<Rightarrow>
                            returns linked (audit env now ctx
                              (rollout_entry AuditActorSystem ''rollout.rollback_requested'' (ro_ID source)
                                 ''rollback_requested''
                                 (Some [(''rollback_rollout_id'', JStr (ro_ID linked)),
                                        (''target_config_id'', JStr (ro_TargetConfigID linked)),
                                        (''requested_by'', JStr operator),
                                        (''source_state'', JStr (state_string (ro_State source)))]))
                              (w1\<lparr>w_store := s'\<rparr>)))
                | (_, Some e, w1) \<Rightarrow> fail_with e w1
                | (_, None, w1) \<Rightarrow> (None, None, w1)))"

text \<open>The two walks over a plan read the same bounded listing.\<close>

definition succeeded_steps :: "string \<Rightarrow> int \<Rightarrow> AppStore \<Rightarrow> (string \<times> int) list" where
  "succeeded_steps planID failedIndex s =
     sort_key (\<lambda>(i, idx). - idx)
       (map (\<lambda>r. (ro_ID r, ro_PlanStepIndex r))
         (filter (\<lambda>r. ro_PlanID r = planID \<and> \<not> (ro_PlanStepIndex r < 0 \<or> ro_PlanStepIndex r \<ge> failedIndex)
                     \<and> ro_State r = RolloutStateSucceeded \<and> ro_StepKind r \<noteq> StepKindAction)
            (ListRollouts all_rollouts s)))"

fun rollback_walk ::
  "Env \<Rightarrow> gotime \<Rightarrow> Ctx \<Rightarrow> string \<Rightarrow> string \<Rightarrow> int \<Rightarrow> (string \<times> int) list \<Rightarrow> World \<Rightarrow> Rollout list \<times> World" where
  "rollback_walk env now ctx planID operator i [] w = ([], w)"
| "rollback_walk env now ctx planID operator i ((stepID, idx) # steps) w =
     (case RollBack env now ctx stepID operator w of
        (Some rb, None, w1) \<Rightarrow>
          let rb' = rb\<lparr>ro_PlanID := planID, ro_PlanStepIndex := - (i + 1)\<rparr>
          in (case UpdateRollout (toStorageRollout rb') (w_store w1) of
                Inl _ \<Rightarrow> rollback_walk env now ctx planID operator (i + 1) steps w1
              | Inr (_, s') \<Rightarrow>
                  (let (out, w2) = rollback_walk env now ctx planID operator (i + 1) steps (w1\<lparr>w_store := s'\<rparr>)
                   in (rb' # out, w2)))
      | (_, _, w1) \<Rightarrow> rollback_walk env now ctx planID operator (i + 1) steps w1)"

definition RollBackPlanPredecessors ::
  "Env \<Rightarrow> gotime \<Rightarrow> Ctx \<Rightarrow> string \<Rightarrow> int \<Rightarrow> string \<Rightarrow> World \<Rightarrow> Rollout list \<times> World" where
  "RollBackPlanPredecessors env now ctx planID failedIndex operator w =
     (if planID = [] then ([], w)
      else rollback_walk env now ctx planID operator 0 (succeeded_steps planID failedIndex (w_store w)) w)"

fun cancel_walk ::
  "gotime \<Rightarrow> string \<Rightarrow> int \<Rightarrow> StoredRollout list \<Rightarrow> AppStore \<Rightarrow> Rollout list \<Rightarrow> Rollout list result \<times> AppStore" where
  "cancel_walk now planID afterIndex [] s cancelled = (Inr cancelled, s)"
| "cancel_walk now planID afterIndex (r # rs) s cancelled =
     (if ro_PlanID r \<noteq> planID \<or> ro_PlanStepIndex r \<le> afterIndex
      then cancel_walk now planID afterIndex rs s cancelled
      else if ro_State r \<noteq> RolloutStateQueued then cancel_walk now planID afterIndex rs s cancelled
      else (case UpdateRollout (r\<lparr>ro_State := RolloutStateCancelled, ro_UpdatedAt := now,
                    ro_CompletedAt := Some now\<rparr>) s of
              Inl e \<Rightarrow> (Inl e, s)
            | Inr (r', s') \<Rightarrow>
                cancel_walk now planID afterIndex rs s' (cancelled @ [toServiceRollout r'])))"

definition CancelPlanFollowers ::
  "gotime \<Rightarrow> string \<Rightarrow> int \<Rightarrow> AppStore \<Rightarrow> Rollout list result \<times> AppStore" where
  "CancelPlanFollowers now planID afterIndex s =
     (if planID = [] then (Inr [], s)
      else cancel_walk now planID afterIndex (ListRollouts all_rollouts s) s [])"

section \<open>Rejecting\<close>

definition step_cancelled_entry :: "string \<Rightarrow> Rollout \<Rightarrow> AuditEntry" where
  "step_cancelled_entry rejecter c =
     rollout_entry rejecter ''plan.step_cancelled'' (ro_ID c) ''plan_step_cancelled''
       (Some [(''plan_id'', JStr (ro_PlanID c)), (''plan_step_index'', JInt (ro_PlanStepIndex c)),
              (''reason'', JStr ''plan_rejected_at_approval'')])"

definition Reject ::
  "Env \<Rightarrow> gotime \<Rightarrow> Ctx \<Rightarrow> string \<Rightarrow> string \<Rightarrow> string \<Rightarrow> World \<Rightarrow> Rollout reply" where
  "Reject env now ctx i rejecter notes w =
     (case GetRollout i (w_store w) of
        None \<Rightarrow> fail_with (ErrRolloutNotFound i) w
      | Some stored \<Rightarrow>
          if ro_State stored \<noteq> RolloutStatePendingApproval
          then (Some (toServiceRollout stored), Some (CannotReject (ro_State stored)), w)
          else if EqualFold env (TrimSpace rejecter) (TrimSpace (ro_RequestedBy stored))
          then (Some (toServiceRollout stored), Some (TwoPersonRule (ro_RequestedBy stored)), w)
          else
            (case UpdateRollout (stored\<lparr>ro_State := RolloutStateRejected, ro_RejectedBy := rejecter,
                    ro_RejectedAt := Some now, ro_ApprovalNotes := notes, ro_CompletedAt := Some now\<rparr>)
                    (w_store w) of
               Inl e \<Rightarrow> fail_with e w
             | Inr (stored', s') \<Rightarrow>
                 let w1 = audit env now ctx (rollout_entry rejecter ''rollout.rejected'' i ''rejected''
                            (Some [(''notes'', JStr notes)])) (w\<lparr>w_store := s'\<rparr>)
                 in if ro_PlanID stored' = [] then returns (toServiceRollout stored') w1
                    else (case CancelPlanFollowers now (ro_PlanID stored') (ro_PlanStepIndex stored') (w_store w1) of
                        (Inl e, s2) \<Rightarrow> returns (toServiceRollout stored') (w1\<lparr>w_store := s2\<rparr>)
                      | (Inr cancelled, s2) \<Rightarrow>
                          let w2 = fold (\<lambda>c. audit env now ctx (step_cancelled_entry rejecter c)) cancelled
                                     (w1\<lparr>w_store := s2\<rparr>)
                          in returns (toServiceRollout stored')
                               (audit env now ctx (rollout_entry rejecter ''plan.rejected'' i ''plan_rejected''
                                 (Some [(''plan_id'', JStr (ro_PlanID stored')),
                                        (''rejected_step'', JInt (ro_PlanStepIndex stored')),
                                        (''notes'', JStr notes),
                                        (''cancelled_count'', JInt (int (length cancelled))),
                                        (''cancelled_ids'', JStrs (map ro_ID cancelled))])) w2))))"

section \<open>Plan steps\<close>

abbreviation DefaultActionStepTimeoutSeconds :: int where "DefaultActionStepTimeoutSeconds \<equiv> 300"
abbreviation MaxActionStepTimeoutSeconds :: int where "MaxActionStepTimeoutSeconds \<equiv> 3600"

definition validateActionStepInput :: "int \<Rightarrow> RolloutInput \<Rightarrow> error option" where
  "validateActionStepInput index step =
     (case in_Action step of
        None \<Rightarrow> Some (ActionBlockRequired index)
      | Some act \<Rightarrow>
          if TrimSpace (in_TargetConfigID step) \<noteq> [] then Some (ActionForbidsField index ''target_config_id'')
          else if TrimSpace (in_InlineConfigSnippet step) \<noteq> []
          then Some (ActionForbidsField index ''inline_config_snippet'')
          else if in_Stages step \<noteq> [] then Some (ActionForbidsField index ''stages'')
          else if in_AbortCriteria step \<noteq> zero_criteria then Some (ActionForbidsField index ''abort_criteria'')
          else if TrimSpace (as_RunnerID act) = [] then Some (ActionFieldRequired index ''runner_id'')
          else if TrimSpace (as_ActionType act) = [] then Some (ActionFieldRequired index ''action_type'')
          else if as_TimeoutSeconds act < 0 then Some (ActionTimeoutNegative index)
          else if as_TimeoutSeconds act > MaxActionStepTimeoutSeconds
          then Some (ActionTimeoutTooLong index (as_TimeoutSeconds act))
          else None)"

definition stored_spec :: "ActionStepSpec \<Rightarrow> ActionStepSpec" where
  "stored_spec act =
     \<lparr>as_RunnerID = TrimSpace (as_RunnerID act), as_ActionType = TrimSpace (as_ActionType act),
      as_Parameters = (if as_Parameters act = [] then ''{}'' else as_Parameters act),
      as_TimeoutSeconds = (if as_TimeoutSeconds act = 0 then DefaultActionStepTimeoutSeconds
                           else as_TimeoutSeconds act)\<rparr>"

definition action_row :: "string \<Rightarrow> gotime \<Rightarrow> RolloutInput \<Rightarrow> string \<Rightarrow> string \<Rightarrow> int \<Rightarrow> Rollout" where
  "action_row uuid now inp blob planID stepIndex =
     zero_rollout\<lparr>ro_ID := uuid, ro_Name := in_Name inp, ro_GroupID := in_GroupID inp,
       ro_State := (if stepIndex > 0 then RolloutStateQueued
                    else if in_RequireApproval inp then RolloutStatePendingApproval
                    else RolloutStatePending),
       ro_RequireApproval := (in_RequireApproval inp \<and> stepIndex = 0),
       ro_RequestedBy := in_RequestedBy inp,
       ro_ProposedBy := (if in_ProposedBy inp = [] then RolloutProposedByOperator else in_ProposedBy inp),
       ro_ProposalReasoning := in_ProposalReasoning inp,
       ro_EvidenceRefs := in_EvidenceRefs inp, ro_PlanID := planID,
       ro_PlanStepIndex := stepIndex, ro_StepKind := StepKindAction,
       ro_NotificationURL := blob, ro_CreatedAt := now, ro_UpdatedAt := now\<rparr>"

definition createActionStep :: "Env \<Rightarrow> gotime \<Rightarrow> RolloutInput \<Rightarrow> string \<Rightarrow> int \<Rightarrow> World \<Rightarrow> Rollout reply" where
  "createActionStep env now inp planID stepIndex w =
     (case in_Action inp of
        None \<Rightarrow> fail_with (ActionBlockRequired stepIndex) w
      | Some act \<Rightarrow>
          (case env_marshalSpec env (stored_spec act) of
             None \<Rightarrow> fail_with (OtherError ''plan step action spec marshal'') w
           | Some blob \<Rightarrow>
               let (uuid, w1) = fresh_uuid env w;
                   r = action_row uuid now inp blob planID stepIndex
               in (case CreateRollout (toStorageRollout r) (w_store w1) of
                     Inl e \<Rightarrow> fail_with e w1
                   | Inr s' \<Rightarrow> returns r (w1\<lparr>w_store := s'\<rparr>))))"

definition DecodeActionStepSpec :: "Env \<Rightarrow> Rollout \<Rightarrow> ActionStepSpec result" where
  "DecodeActionStepSpec env r =
     (if ro_StepKind r \<noteq> StepKindAction then Inl (NotActionStep (ro_ID r) (ro_StepKind r))
      else if ro_NotificationURL r = [] then Inl (NoActionSpec (ro_ID r))
      else (case env_unmarshalSpec env (ro_NotificationURL r) of
          None \<Rightarrow> Inl (ActionSpecUndecodable (ro_ID r))
        | Some stored \<Rightarrow>
            Inr (stored\<lparr>as_TimeoutSeconds := (if as_TimeoutSeconds stored = 0
                   then DefaultActionStepTimeoutSeconds else as_TimeoutSeconds stored)\<rparr>)))"

definition HasActionStep :: "RolloutInput list \<Rightarrow> bool" where
  "HasActionStep steps \<longleftrightarrow> (\<exists>st \<in> set steps. in_Kind st = StepKindAction)"

definition snippet_config :: "string \<Rightarrow> gotime \<Rightarrow> string \<Rightarrow> int \<Rightarrow> string \<Rightarrow> string \<Rightarrow> Config" where
  "snippet_config configID now planID stepIndex groupID snippet =
     \<lparr>cf_ID = configID, cf_Name = ''ai-plan-'' @ take 8 planID @ ''-step-'' @ itoa stepIndex,
      cf_AgentID = None, cf_GroupID = Some groupID, cf_ConfigHash = Hash snippet, cf_Content = snippet,
      cf_Version = 1, cf_CreatedAt = now, cf_ArchivedAt = None\<rparr>"

definition materializePlanStepConfig ::
  "Env \<Rightarrow> gotime \<Rightarrow> Ctx \<Rightarrow> RolloutInput \<Rightarrow> string \<Rightarrow> int \<Rightarrow> string \<Rightarrow> World \<Rightarrow> RolloutInput reply" where
  "materializePlanStepConfig env now ctx step planID stepIndex groupID w =
     (if TrimSpace (in_InlineConfigSnippet step) = [] then returns step w
      else
        let snippet = in_InlineConfigSnippet step
        in (case map_option (find (\<lambda>f. f_Severity f = SeverityError)) (Lint (env_parseYAML env) snippet) of
              None \<Rightarrow> fail_with (OtherError ''panic: index out of range'') w
            | Some (Some f) \<Rightarrow> fail_with (PlanSnippetLint stepIndex (f_Rule f)) w
            | Some None \<Rightarrow>
                let (configID, w1) = fresh_uuid env w
                in (case svc_CreateConfig (snippet_config configID now planID stepIndex groupID snippet) (w_store w1) of
                      Inl e \<Rightarrow> fail_with (PlanStepFailed stepIndex e) w1
                    | Inr s' \<Rightarrow>
                        returns (step\<lparr>in_TargetConfigID := configID, in_InlineConfigSnippet := []\<rparr>)
                          (audit env now ctx
                             \<lparr>en_Actor = AuditActorSystem, en_EventType = ''config.created'',
                              en_TargetType = ''config'', en_TargetID = configID, en_Action = ''created'',
                              en_Payload = Some [(''plan_id'', JStr planID), (''plan_step_index'', JInt stepIndex),
                                (''group_id'', JStr groupID), (''source'', JStr ''plan_inline_snippet'')]\<rparr>
                             (w1\<lparr>w_store := s'\<rparr>)))))"


section \<open>Creating a plan\<close>

definition step_kind :: "RolloutInput \<Rightarrow> string" where
  "step_kind step = (if in_Kind step = [] then StepKindRollout else in_Kind step)"

fun group_mismatch :: "string \<Rightarrow> int \<Rightarrow> RolloutInput list \<Rightarrow> error option" where
  "group_mismatch groupID i [] = None"
| "group_mismatch groupID i (st # sts) =
     (if TrimSpace (in_GroupID st) \<noteq> groupID then Some (PlanGroupMismatch i (in_GroupID st) groupID)
      else group_mismatch groupID (i + 1) sts)"

definition preflight_step :: "int \<Rightarrow> RolloutInput \<Rightarrow> error option" where
  "preflight_step i step =
     (if step_kind step = StepKindRollout then
        (if in_Action step \<noteq> None then Some (PlanStepHasAction i)
         else
           let snippet = TrimSpace (in_InlineConfigSnippet step); target = TrimSpace (in_TargetConfigID step)
           in if snippet \<noteq> [] \<and> target \<noteq> [] then Some (PlanStepAmbiguous i)
              else if snippet = [] \<and> target = [] then Some (PlanStepEmpty i) else None)
      else if step_kind step = StepKindAction then validateActionStepInput i step
      else Some (PlanStepUnknownKind i (step_kind step)))"

fun preflight :: "int \<Rightarrow> RolloutInput list \<Rightarrow> error option" where
  "preflight i [] = None"
| "preflight i (st # sts) =
     (case preflight_step i st of Some e \<Rightarrow> Some e | None \<Rightarrow> preflight (i + 1) sts)"

definition cleanup_plan :: "gotime \<Rightarrow> string \<Rightarrow> Rollout list \<Rightarrow> World \<Rightarrow> World" where
  "cleanup_plan now planID created w =
     (if created = [] then w
      else w\<lparr>w_store := snd (CancelPlanFollowers now planID (- 1) (w_store w))\<rparr>)"

definition plan_step :: "string \<Rightarrow> int \<Rightarrow> RolloutInput \<Rightarrow> RolloutInput" where
  "plan_step planID i step =
     step\<lparr>in_PlanID := planID, in_PlanStepIndex := i,
          in_RequireApproval := (if i > 0 then False else in_RequireApproval step)\<rparr>"

definition create_step ::
  "Env \<Rightarrow> gotime \<Rightarrow> Ctx \<Rightarrow> string \<Rightarrow> string \<Rightarrow> int \<Rightarrow> RolloutInput \<Rightarrow> World \<Rightarrow> Rollout reply" where
  "create_step env now ctx planID groupID i step w =
     (if step_kind step = StepKindAction then
        (case createActionStep env now step planID i w of
           (r, Some e, w1) \<Rightarrow> fail_with (PlanStepFailed i e) w1
         | (r, None, w1) \<Rightarrow> (r, None, w1))
      else
        (case (if TrimSpace (in_InlineConfigSnippet step) \<noteq> []
               then materializePlanStepConfig env now ctx step planID i groupID w
               else returns step w) of
           (Some step', None, w1) \<Rightarrow>
             (case Create env now ctx step' w1 of
                (r, Some e, w2) \<Rightarrow> fail_with (PlanStepFailed i e) w2
              | (r, None, w2) \<Rightarrow> (r, None, w2))
         | (_, e, w1) \<Rightarrow> (None, e, w1)))"

fun create_steps ::
  "Env \<Rightarrow> gotime \<Rightarrow> Ctx \<Rightarrow> string \<Rightarrow> string \<Rightarrow> int \<Rightarrow> RolloutInput list \<Rightarrow> Rollout list \<Rightarrow> World
     \<Rightarrow> Rollout list reply" where
  "create_steps env now ctx planID groupID i [] created w = returns created w"
| "create_steps env now ctx planID groupID i (step # steps) created w =
     (case create_step env now ctx planID groupID i (plan_step planID i step) w of
        (Some r, None, w1) \<Rightarrow> create_steps env now ctx planID groupID (i + 1) steps (created @ [r]) w1
      | (_, e, w1) \<Rightarrow> (None, e, cleanup_plan now planID created w1))"

definition CreatePlan ::
  "Env \<Rightarrow> gotime \<Rightarrow> Ctx \<Rightarrow> RolloutInput list \<Rightarrow> World \<Rightarrow> (Rollout list \<times> string) reply" where
  "CreatePlan env now ctx steps w =
     (if steps = [] then fail_with PlanRequiresStep w
      else
        let groupID = TrimSpace (in_GroupID (hd steps)) in
        if groupID = [] then fail_with PlanMissingGroup w
        else (case group_mismatch groupID 1 (tl steps) of
            Some e \<Rightarrow> fail_with e w
          | None \<Rightarrow>
              (case preflight 0 steps of
                 Some e \<Rightarrow> fail_with e w
               | None \<Rightarrow>
                   let (planID, w1) = fresh_uuid env w in
                   (case create_steps env now ctx planID groupID 0 steps [] w1 of
                      (Some created, None, w2) \<Rightarrow>
                        returns (created, planID)
                          (audit env now ctx
                             (rollout_entry (in_RequestedBy (hd steps)) ''plan.created'' (ro_ID (hd created))
                                ''plan_created''
                                (Some [(''plan_id'', JStr planID), (''group_id'', JStr groupID),
                                       (''step_count'', JInt (int (length created))),
                                       (''step_ids'', JStrs (map ro_ID created)),
                                       (''proposed_by'', JStr (ro_ProposedBy (hd created)))])) w2)
                    | (_, e, w2) \<Rightarrow> (None, e, w2)))))"

section \<open>Plan envelopes\<close>

record Plan =
  pl_PlanID :: string
  pl_GroupID :: string
  pl_StepCount :: int
  pl_State :: string
  pl_Steps :: "Rollout list"
  pl_RollbackSteps :: "Rollout list"
  pl_CreatedAt :: gotime
  pl_UpdatedAt :: gotime

record PlanFilter =
  pf_State :: string
  pf_GroupID :: string
  pf_Since :: gotime
  pf_Limit :: int

fun plan_walk :: "bool \<Rightarrow> Rollout list \<Rightarrow> string option \<times> bool" where
  "plan_walk allSucceeded [] = (None, allSucceeded)"
| "plan_walk allSucceeded (r # rs) =
     (case ro_State r of
        RolloutStateAborted \<Rightarrow> (Some ''aborted'', allSucceeded)
      | RolloutStateCancelled \<Rightarrow> (Some ''cancelled'', allSucceeded)
      | RolloutStateSucceeded \<Rightarrow> plan_walk allSucceeded rs
      | _ \<Rightarrow> plan_walk False rs)"

definition derivePlanState :: "Rollout list \<Rightarrow> Rollout list \<Rightarrow> string" where
  "derivePlanState forward rollbacks =
     (if rollbacks \<noteq> [] then ''rolled_back''
      else if forward \<noteq> [] \<and> ro_State (hd forward) = RolloutStateRejected then ''rejected''
      else if forward \<noteq> [] \<and> ro_State (hd forward) = RolloutStatePendingApproval then ''pending_approval''
      else (case plan_walk True forward of
          (Some st, _) \<Rightarrow> st
        | (None, allSucceeded) \<Rightarrow> if allSucceeded \<and> forward \<noteq> [] then ''succeeded'' else ''in_progress''))"

definition latest_update :: "gotime \<Rightarrow> Rollout list \<Rightarrow> gotime" where
  "latest_update t rs = foldl (\<lambda>u r. if ro_UpdatedAt r > u then ro_UpdatedAt r else u) t rs"

definition plan_envelope :: "string \<Rightarrow> Rollout list \<Rightarrow> Plan" where
  "plan_envelope planID bucket =
     (let forward = sort_key ro_PlanStepIndex (filter (\<lambda>r. \<not> ro_PlanStepIndex r < 0) bucket);
          rollbacks = sort_key (\<lambda>r. - ro_PlanStepIndex r) (filter (\<lambda>r. ro_PlanStepIndex r < 0) bucket);
          created = (if forward = [] then 0 else ro_CreatedAt (hd forward))
      in \<lparr>pl_PlanID = planID, pl_GroupID = (if forward = [] then [] else ro_GroupID (hd forward)),
          pl_StepCount = int (length forward), pl_State = derivePlanState forward rollbacks,
          pl_Steps = forward, pl_RollbackSteps = rollbacks, pl_CreatedAt = created,
          pl_UpdatedAt = latest_update (latest_update created forward) rollbacks\<rparr>)"

definition GetPlan :: "string \<Rightarrow> AppStore \<Rightarrow> Plan option result" where
  "GetPlan planID s =
     (if planID = [] then Inl PlanIDRequired
      else
        let stored = ListRollouts (all_rollouts\<lparr>rf_PlanID := planID\<rparr>) s
        in if stored = [] then Inr None
           else Inr (Some (plan_envelope planID (map toServiceRollout stored))))"

text \<open>The buckets are a Go map keyed by plan; the model visits them in the order their first step is
  listed.\<close>

definition ListPlans :: "PlanFilter \<Rightarrow> AppStore \<Rightarrow> Plan list" where
  "ListPlans f s =
     (let stored = filter (\<lambda>r. ro_PlanID r \<noteq> []) (ListRollouts all_rollouts s);
          envelopes = map (\<lambda>p. plan_envelope p (map toServiceRollout (filter (\<lambda>r. ro_PlanID r = p) stored)))
                        (remdups (map ro_PlanID stored));
          out = filter (\<lambda>e. \<not> (pf_State f \<noteq> [] \<and> pl_State e \<noteq> pf_State f)
                          \<and> \<not> (pf_GroupID f \<noteq> [] \<and> pl_GroupID e \<noteq> pf_GroupID f)
                          \<and> \<not> (\<not> IsZero (pf_Since f) \<and> pl_CreatedAt e < pf_Since f)) envelopes;
          lim = (if pf_Limit f \<le> 0 then 100 else pf_Limit f);
          lim = (if lim > 1000 then 1000 else lim)
      in take (nat lim) (sort_key (\<lambda>e. - pl_CreatedAt e) out))"

section \<open>Preview\<close>

record RolloutPreview =
  pv_GroupID :: string
  pv_Current :: "Config option"
  pv_Target :: Config
  pv_Diff :: DiffResult
  pv_LintFindings :: "Finding list"

definition toServiceConfig :: "Config \<Rightarrow> Config" where
  "toServiceConfig c =
     \<lparr>cf_ID = cf_ID c, cf_Name = cf_Name c, cf_AgentID = cf_AgentID c, cf_GroupID = cf_GroupID c,
      cf_ConfigHash = cf_ConfigHash c, cf_Content = cf_Content c, cf_Version = cf_Version c,
      cf_CreatedAt = cf_CreatedAt c, cf_ArchivedAt = None\<rparr>"

definition Preview :: "Env \<Rightarrow> string \<Rightarrow> string \<Rightarrow> AppStore \<Rightarrow> RolloutPreview result" where
  "Preview env groupID targetConfigID s =
     (if groupID = [] then Inl GroupIDRequired
      else if targetConfigID = [] then Inl TargetConfigIDRequired
      else (case GetConfig targetConfigID s of
          None \<Rightarrow> Inl (TargetConfigNotFound targetConfigID)
        | Some target \<Rightarrow>
            let current = GetLatestConfigForGroup groupID s;
                currentContent = (case current of None \<Rightarrow> [] | Some c \<Rightarrow> cf_Content c)
            in (case Lint (env_parseYAML env) (cf_Content target) of
                  None \<Rightarrow> Inl (OtherError ''panic: index out of range'')
                | Some findings \<Rightarrow>
                    Inr \<lparr>pv_GroupID = groupID, pv_Current = map_option toServiceConfig current,
                         pv_Target = toServiceConfig target,
                         pv_Diff = Diff (env_splitLines env) (env_unifiedDiff env) currentContent (cf_Content target),
                         pv_LintFindings = findings\<rparr>)))"

end
