(* ===== verification/Canary.thy ===== *)
theory Canary
  imports Control_Plane
begin

text \<open>
  Which agents a rollout touches and when a stage counts as done: canary selection, the cumulative
  pushed set, delta delivery, abort criteria (\<open>rollouts/engine.go\<close>) and observed convergence
  (\<open>rollouts/convergence.go\<close>).  These parts of the engine only read the fleet, so they are functions of
  the agent list the service returns.
\<close>

section \<open>Durations\<close>

text \<open>\<open>time.Duration(n) * time.Second\<close> is a 64-bit product; \<open>time.Since\<close> saturates.\<close>

definition Seconds :: "int \<Rightarrow> duration" where
  "Seconds n = int64 (n * second)"

definition Since :: "gotime \<Rightarrow> gotime \<Rightarrow> duration" where
  "Since now t = Sub now t"

section \<open>Canary selection\<close>

definition matchByLabel :: "SAgent list \<Rightarrow> (string \<times> string) list \<Rightarrow> SAgent list" where
  "matchByLabel as selector =
     (if selector = [] then []
      else filter (\<lambda>a. \<forall>(k, v) \<in> set selector. map_of (ag_Labels a) k = Some v) as)"

definition group_agents :: "string \<Rightarrow> SAgent list \<Rightarrow> SAgent list" where
  "group_agents groupID allAgents =
     sort_key ag_ID (filter (\<lambda>a. ag_GroupID a = Some groupID) allAgents)"

definition canaryAgentsForStage :: "'a StoredRollout_scheme \<Rightarrow> int \<Rightarrow> SAgent list \<Rightarrow> SAgent list result" where
  "canaryAgentsForStage r stageIdx allAgents =
     (if stageIdx < 0 \<or> stageIdx \<ge> int (length (ro_Stages r))
      then Inl (OtherError ''stage index out of range'')
      else
        let groupAgents = group_agents (ro_GroupID r) allAgents in
        if groupAgents = [] then Inr []
        else
          let stage = ro_Stages r ! nat stageIdx in
          if effective_mode stage = RolloutStageModeLabel
          then Inr (matchByLabel groupAgents (LabelSelector stage))
          else
            let n = go_div (int (length groupAgents) * Percentage stage + 99) 100;
                n' = (if n > int (length groupAgents) then int (length groupAgents) else n)
            in if n' < 0 then Inl (OtherError ''panic: slice bounds out of range'')
               else Inr (take (nat n') groupAgents))"

definition canaryAgents :: "'a StoredRollout_scheme \<Rightarrow> SAgent list \<Rightarrow> SAgent list result" where
  "canaryAgents r allAgents = canaryAgentsForStage r (ro_CurrentStage r) allAgents"

definition dedup_agents :: "SAgent list \<Rightarrow> SAgent list" where
  "dedup_agents as = foldl (\<lambda>out a. if ag_ID a \<in> ag_ID ` set out then out else out @ [a]) [] as"

definition cumulativePushedAgents :: "'a StoredRollout_scheme \<Rightarrow> SAgent list \<Rightarrow> SAgent list result" where
  "cumulativePushedAgents r allAgents =
     (case canaryAgents r allAgents of
        Inl e \<Rightarrow> Inl e
      | Inr current \<Rightarrow>
          if ro_PushedAgentIDs r = [] then Inr current
          else
            let pushed = filter (\<lambda>a. ag_GroupID a = Some (ro_GroupID r) \<and> ag_ID a \<in> set (ro_PushedAgentIDs r))
                           allAgents
            in Inr (sort_key ag_ID (dedup_agents (current @ pushed))))"

section \<open>The pushed set\<close>

definition unionPushedAgentIDs :: "string list \<Rightarrow> string list \<Rightarrow> string list" where
  "unionPushedAgentIDs existing ids =
     sort (foldl (\<lambda>out x. if x \<in> set out then out else out @ [x]) [] (existing @ ids))"

definition deltaToPush :: "SAgent list \<Rightarrow> string list \<Rightarrow> SAgent list" where
  "deltaToPush canary pushed =
     (if pushed = [] then canary else filter (\<lambda>a. ag_ID a \<notin> set pushed) canary)"

definition subtractIDs :: "string list \<Rightarrow> string list \<Rightarrow> string list" where
  "subtractIDs ids remove = (if remove = [] then ids else filter (\<lambda>i. i \<notin> set remove) ids)"

section \<open>Convergence\<close>

abbreviation defaultCoverageGrace :: duration where "defaultCoverageGrace \<equiv> 60 * second"
abbreviation defaultConvergenceTimeout :: duration where "defaultConvergenceTimeout \<equiv> 10 * minute"

definition agentConvergedToHash :: "SAgent \<Rightarrow> string \<Rightarrow> bool" where
  "agentConvergedToHash a targetHash \<longleftrightarrow> Hash (ag_EffectiveConfig a) = targetHash"

definition convergenceRequired :: "int \<Rightarrow> int \<Rightarrow> int" where
  "convergenceRequired canarySize percent =
     (if canarySize \<le> 0 then 0
      else if percent \<le> 0 \<or> percent \<ge> 100 then canarySize
      else
        let required = go_div (canarySize * percent + 99) 100;
            required = (if required < 1 then 1 else required)
        in if required > canarySize then canarySize else required)"

definition uncoveredCanaryCount :: "Env \<Rightarrow> gotime \<Rightarrow> SAgent list \<Rightarrow> int" where
  "uncoveredCanaryCount env now canary =
     (case env_owners env of
        Some (Some owners) \<Rightarrow>
          (let grace = (if env_coverageGrace env \<le> 0 then defaultCoverageGrace else env_coverageGrace env);
               cutoff = now - grace;
               live = map fst (filter (\<lambda>(i, heartbeat). heartbeat > cutoff) owners)
           in int (length (filter (\<lambda>a. ag_ID a \<notin> set live) canary)))
      | _ \<Rightarrow> 0)"

definition stageConverged ::
  "Env \<Rightarrow> gotime \<Rightarrow> 'a StoredRollout_scheme \<Rightarrow> RolloutStage \<Rightarrow> AppStore \<Rightarrow> bool \<times> string" where
  "stageConverged env now r stage s =
     (case GetConfig (ro_TargetConfigID r) s of
        None \<Rightarrow> (False, ''target config unresolved'')
      | Some target \<Rightarrow>
          let targetHash = Hash (cf_Content target) in
          if targetHash = [] then (False, ''target config normalizes to empty'')
          else (case canaryAgentsForStage r (ro_CurrentStage r) (svc_ListAgents (env_driftDiff env) now s) of
              Inl _ \<Rightarrow> (False, ''canary set unresolved'')
            | Inr canary \<Rightarrow>
                if canary = [] then (True, [])
                else
                  let convergedCount = int (length (filter (\<lambda>a. agentConvergedToHash a targetHash) canary));
                      required = convergenceRequired (int (length canary)) (ConvergencePercent stage)
                  in if convergedCount \<ge> required then (True, [])
                     else (False, ''stage '' @ itoa (ro_CurrentStage r) @ '' converged '' @ itoa convergedCount
                             @ ''/'' @ itoa (int (length canary)) @ '' canary agent(s) to target (need ''
                             @ itoa required @ ''; '' @ itoa (uncoveredCanaryCount env now canary)
                             @ '' have no live owning instance)'')))"

definition convergenceDeadlineExceeded ::
  "Env \<Rightarrow> gotime \<Rightarrow> 'a StoredRollout_scheme \<Rightarrow> RolloutStage \<Rightarrow> bool" where
  "convergenceDeadlineExceeded env now r stage =
     (case ro_StageStartedAt r of
        None \<Rightarrow> False
      | Some t \<Rightarrow>
          let timeout = (if env_convergenceTimeout env \<le> 0 then defaultConvergenceTimeout
                         else env_convergenceTimeout env);
              budget = int64 (Seconds (DwellSeconds stage) + timeout)
          in Since now t \<ge> budget)"

definition dwellElapsed :: "gotime \<Rightarrow> 'a StoredRollout_scheme \<Rightarrow> RolloutStage \<Rightarrow> bool" where
  "dwellElapsed now r stage =
     (case ro_StageStartedAt r of
        None \<Rightarrow> False
      | Some t \<Rightarrow> Since now t \<ge> Seconds (DwellSeconds stage))"

section \<open>Abort criteria\<close>

definition sloFailOpen :: "RolloutSLOBurnCriterion \<Rightarrow> string \<Rightarrow> string" where
  "sloFailOpen guard phase =
     (if slo_FailOpen guard = None \<or> slo_FailOpen guard = Some True then []
      else ''SLO burn guard could not be evaluated ('' @ phase @ '') and is configured fail-closed'')"

definition sloQueryFromCriterion :: "gotime \<Rightarrow> RolloutSLOBurnCriterion \<Rightarrow> NormalizedQuery" where
  "sloQueryFromCriterion now guard =
     \<lparr>nq_Signal = slo_Signal guard, nq_Selector = slo_Selector guard,
      nq_Matchers = map (\<lambda>m. (mt_Label m, mt_Op m, mt_Value m)) (slo_Matchers guard),
      nq_Aggregation = slo_Aggregation guard, nq_Raw = slo_Raw guard,
      nq_TimeRange = (if slo_WindowSeconds guard > 0
                      then Some (now + int64 (- Seconds (slo_WindowSeconds guard)), now) else None)\<rparr>"

definition evaluateSLOBurn ::
  "Env \<Rightarrow> gotime \<Rightarrow> (string \<Rightarrow> Connector option) \<Rightarrow> RolloutSLOBurnCriterion \<Rightarrow> string" where
  "evaluateSLOBurn env now resolve guard =
     (case resolve (slo_ConnectorID guard) of
        None \<Rightarrow> sloFailOpen guard ''resolve connector''
      | Some conn \<Rightarrow>
          (case conn (sloQueryFromCriterion now guard) of
             None \<Rightarrow> sloFailOpen guard ''query connector''
           | Some None \<Rightarrow> sloFailOpen guard ''connector returned a non-scalar result''
           | Some (Some s) \<Rightarrow>
               if sc_Breached s then
                 ''SLO burn: objective '' @ env_quote env (sc_Objective s) @ '' breached (value ''
                 @ env_fmt4g env (sc_Value s) @ '' '' @ sc_Unit s @ '', threshold ''
                 @ env_fmt4g env (sc_Threshold s) @ '')''
               else if slo_Threshold guard > 0 \<and> sc_Value s \<ge> slo_Threshold guard then
                 ''SLO burn: value '' @ env_fmt4g env (sc_Value s) @ '' '' @ sc_Unit s
                 @ '' crossed configured threshold '' @ env_fmt4g env (slo_Threshold guard)
               else []))"

definition error_rate_reason :: "Env \<Rightarrow> gotime \<Rightarrow> 'a StoredRollout_scheme \<Rightarrow> SAgent list \<Rightarrow> string" where
  "error_rate_reason env now r canary =
     (let c = ro_AbortCriteria r in
      case (env_telemetry env, ro_StageStartedAt r) of
        (Some telemetry, Some started) \<Rightarrow>
          if MaxErrorLogsPerMinute c > 0 then
            let w0 = Seconds (MinDwellSecondsBeforeAbort c);
                warmup = (if w0 = 0 then 30 * second else w0)
            in if Since now started \<ge> warmup then
                 let w = ErrorRateWindowSeconds c;
                     trailingStart = now + int64 (- Seconds w);
                     evalSince = (if w > 0 \<and> trailingStart > started then trailingStart else started)
                 in (case telemetry (map ag_ID canary) evalSince of
                       None \<Rightarrow> []
                     | Some rate \<Rightarrow>
                         if rate > real_of_int (MaxErrorLogsPerMinute c)
                         then ''canary error log rate '' @ env_fmt1 env rate @ ''/min exceeded max ''
                              @ itoa (MaxErrorLogsPerMinute c) @ ''/min''
                         else [])
               else []
          else []
      | _ \<Rightarrow> [])"

definition evaluateAbortCriteria :: "Env \<Rightarrow> gotime \<Rightarrow> 'a StoredRollout_scheme \<Rightarrow> SAgent list \<Rightarrow> string" where
  "evaluateAbortCriteria env now r allAgents =
     (case cumulativePushedAgents r allAgents of
        Inl _ \<Rightarrow> []
      | Inr canary \<Rightarrow>
          let driftedCount = int (length (filter (\<lambda>a. ag_DriftStatus a = ConfigDriftStatusDrifted) canary)) in
          if driftedCount > MaxDriftedAgents (ro_AbortCriteria r) then
            itoa driftedCount @ '' canary agent(s) drifted (max ''
            @ itoa (MaxDriftedAgents (ro_AbortCriteria r)) @ '')''
          else
            let er = error_rate_reason env now r canary in
            if er \<noteq> [] then er
            else (case (SLOBurn (ro_AbortCriteria r), env_connectors env) of
                (Some guard, Some resolve) \<Rightarrow> evaluateSLOBurn env now resolve guard
              | _ \<Rightarrow> []))"


section \<open>Canary sets grow with the percentage\<close>

lemma set_group_agents [simp]: "set (group_agents g as) = {a \<in> set as. ag_GroupID a = Some g}"
  by (simp add: group_agents_def)

lemma sorted_group_agents: "sorted (map ag_ID (group_agents g as))"
  by (simp add: group_agents_def)

definition ceil_share :: "nat \<Rightarrow> int \<Rightarrow> nat" where
  "ceil_share n pct = nat ((int n * pct + 99) div 100)"

lemma ceil_share_mono: "p \<le> q \<Longrightarrow> ceil_share n p \<le> ceil_share n q"
  unfolding ceil_share_def by (intro nat_mono zdiv_mono1) (auto intro: mult_left_mono)

lemma ceil_share_100 [simp]: "ceil_share n 100 = n"
  by (simp add: ceil_share_def)

lemma ceil_share_le: "pct \<le> 100 \<Longrightarrow> ceil_share n pct \<le> n"
  using ceil_share_mono [of pct 100 n] by simp

lemma ceil_share_pos: "0 < n \<Longrightarrow> 0 < pct \<Longrightarrow> 0 < ceil_share n pct"
proof -
  assume "0 < n" "0 < pct"
  then have "1 \<le> int n * pct" by (metis mult_pos_pos of_nat_0_less_iff zless_imp_add1_zle add.left_neutral)
  then have "100 \<le> int n * pct + 99" by simp
  then have "1 \<le> (int n * pct + 99) div 100" by (simp add: int_one_le_iff_zero_less pos_imp_zdiv_pos_iff)
  then show ?thesis by (simp add: ceil_share_def)
qed


lemma canary_percent:
  assumes "0 \<le> i" "i < int (length (ro_Stages r))"
    and "effective_mode (ro_Stages r ! nat i) = RolloutStageModePercent"
    and "0 \<le> Percentage (ro_Stages r ! nat i)" "Percentage (ro_Stages r ! nat i) \<le> 100"
  shows "canaryAgentsForStage r i all =
    Inr (take (ceil_share (length (group_agents (ro_GroupID r) all)) (Percentage (ro_Stages r ! nat i)))
           (group_agents (ro_GroupID r) all))"
proof -
  define G where "G = group_agents (ro_GroupID r) all"
  define p where "p = Percentage (ro_Stages r ! nat i)"
  have "0 \<le> int (length G) * p + 99" using assms(4) by (simp add: p_def)
  then have d: "go_div (int (length G) * p + 99) 100 = int (ceil_share (length G) p)"
    by (simp add: go_div_def ceil_share_def pos_imp_zdiv_nonneg_iff)
  have "ceil_share (length G) p \<le> length G" using assms(5) by (simp add: ceil_share_le p_def)
  with d assms(1-3) show ?thesis
    by (simp add: canaryAgentsForStage_def Let_def flip: G_def p_def)
qed

text \<open>
  Percent-mode canaries.  For the stages of an accepted percent-mode plan, the canary set of a later
  stage extends that of an earlier one, every stage of a non-empty group has at least one agent, all
  agents belong to the target group, and the final stage is the whole group.
\<close>
theorem percent_canaries_progressive:
  assumes "percent_plan (ro_Stages r)" and "0 \<le> i" "i \<le> j" "j < int (length (ro_Stages r))"
  shows "\<exists>ci cj. canaryAgentsForStage r i all = Inr ci \<and> canaryAgentsForStage r j all = Inr cj
    \<and> prefix ci cj \<and> set cj \<subseteq> {a \<in> set all. ag_GroupID a = Some (ro_GroupID r)}
    \<and> (ci = [] \<longrightarrow> {a \<in> set all. ag_GroupID a = Some (ro_GroupID r)} = {})
    \<and> (j = int (length (ro_Stages r)) - 1 \<longrightarrow>
         set cj = {a \<in> set all. ag_GroupID a = Some (ro_GroupID r)})"
proof -
  define G where "G = group_agents (ro_GroupID r) all"
  define p where "p = (\<lambda>k. Percentage (ro_Stages r ! nat k))"
  have ok: "effective_mode (ro_Stages r ! nat k) = RolloutStageModePercent" "0 < p k" "p k \<le> 100"
    if "0 \<le> k" "k < int (length (ro_Stages r))" for k
    using assms(1) that nth_mem [of "nat k" "ro_Stages r"] by (auto simp: percent_plan_def p_def)
  have i: "0 \<le> i" "i < int (length (ro_Stages r))" and j: "0 \<le> j" "j < int (length (ro_Stages r))"
    using assms by auto
  have ci: "canaryAgentsForStage r i all = Inr (take (ceil_share (length G) (p i)) G)"
    using canary_percent [OF i] ok [OF i] by (simp add: G_def p_def)
  have cj: "canaryAgentsForStage r j all = Inr (take (ceil_share (length G) (p j)) G)"
    using canary_percent [OF j] ok [OF j] by (simp add: G_def p_def)
  have "map Percentage (ro_Stages r) ! nat i \<le> map Percentage (ro_Stages r) ! nat j"
    using assms by (intro sorted_nth_mono) (auto simp: percent_plan_def nat_mono)
  then have "p i \<le> p j" using i j by (simp add: p_def)
  then have pre: "prefix (take (ceil_share (length G) (p i)) G) (take (ceil_share (length G) (p j)) G)"
    by (metis ceil_share_mono min.absorb1 take_is_prefix take_take)
  have sub: "set (take (ceil_share (length G) (p j)) G) \<subseteq> set G" by (rule set_take_subset)
  have ne: "take (ceil_share (length G) (p i)) G = [] \<longrightarrow> set G = {}"
    using ceil_share_pos [of "length G" "p i"] ok(2) [OF i] by (cases G) auto
  have last: "p j = 100" if "j = int (length (ro_Stages r)) - 1"
  proof -
    have "nat j = length (ro_Stages r) - 1" using that by simp
    moreover have "ro_Stages r \<noteq> []" using j by auto
    ultimately show ?thesis using assms(1) by (simp add: p_def percent_plan_def last_conv_nth)
  qed
  show ?thesis using ci cj pre sub ne last by (auto simp: G_def)
qed


definition sample_fleet :: "SAgent list" where
  "sample_fleet = map (\<lambda>i. toServiceAgent (sample_agent i)) [''c'', ''a'', ''b'']"

definition sample_stage :: "int \<Rightarrow> RolloutStage" where
  "sample_stage p = \<lparr>Mode = ''percent'', Percentage = p, LabelSelector = [], DwellSeconds = 30,
     ConvergencePercent = 0\<rparr>"

definition sample_plan_row :: StoredRollout where
  "sample_plan_row = sample_rollout\<lparr>ro_GroupID := ''g'', ro_Stages := [sample_stage 10, sample_stage 100],
     ro_TargetConfigID := ''c2'', ro_PreviousConfigID := ''c1''\<rparr>"

theorem percent_canaries_progressive_witness:
  "\<exists>ci cj. canaryAgentsForStage sample_plan_row 0 sample_fleet = Inr ci
     \<and> canaryAgentsForStage sample_plan_row 1 sample_fleet = Inr cj
     \<and> prefix ci cj \<and> ci \<noteq> [] \<and> set cj = set sample_fleet"
proof -
  have p: "percent_plan (ro_Stages sample_plan_row)"
    by (simp add: sample_plan_row_def percent_plan_def sample_stage_def effective_mode_def)
  have f: "{a \<in> set sample_fleet. ag_GroupID a = Some (ro_GroupID sample_plan_row)} = set sample_fleet"
    by (auto simp: sample_fleet_def sample_plan_row_def sample_agent_def)
  have n: "set sample_fleet \<noteq> {}" by (simp add: sample_fleet_def)
  have l: "length (ro_Stages sample_plan_row) = 2" by (simp add: sample_plan_row_def)
  obtain ci cj where c: "canaryAgentsForStage sample_plan_row 0 sample_fleet = Inr ci"
      "canaryAgentsForStage sample_plan_row 1 sample_fleet = Inr cj" "prefix ci cj"
      "ci = [] \<longrightarrow> set sample_fleet = {}" "set cj = set sample_fleet"
    using percent_canaries_progressive [OF p, of 0 1 sample_fleet] unfolding f l by auto
  then show ?thesis using n by blast
qed

lemma canary_shape:
  assumes "canaryAgentsForStage r i all = Inr c"
  shows "c = [] \<or> (\<exists>sel. c = matchByLabel (group_agents (ro_GroupID r) all) sel)
    \<or> (\<exists>n. c = take n (group_agents (ro_GroupID r) all))"
proof -
  define G where "G = group_agents (ro_GroupID r) all"
  define st where "st = ro_Stages r ! nat i"
  define n where "n = go_div (int (length G) * Percentage st + 99) 100"
  define m where "m = (if n > int (length G) then int (length G) else n)"
  have def: "canaryAgentsForStage r i all =
      (if i < 0 \<or> i \<ge> int (length (ro_Stages r)) then Inl (OtherError ''stage index out of range'')
       else if G = [] then Inr []
       else if effective_mode st = RolloutStageModeLabel then Inr (matchByLabel G (LabelSelector st))
       else if m < 0 then Inl (OtherError ''panic: slice bounds out of range'')
       else Inr (take (nat m) G))"
    by (simp only: canaryAgentsForStage_def Let_def G_def st_def n_def m_def)
  then have "c = [] \<or> c = matchByLabel G (LabelSelector st) \<or> c = take (nat m) G"
    using assms by (metis Inl_Inr_False Inr_inject)
  then show ?thesis by (auto simp: G_def)
qed

lemma canary_scope:
  "canaryAgentsForStage r i all = Inr c \<Longrightarrow> set c \<subseteq> {a \<in> set all. ag_GroupID a = Some (ro_GroupID r)}"
  using canary_shape [of r i all c] set_take_subset [of _ "group_agents (ro_GroupID r) all"]
  by (force simp: matchByLabel_def split: if_splits)

section \<open>The cumulative set\<close>

lemma dedup_foldl:
  fixes out as :: "SAgent list"
  defines "step \<equiv> \<lambda>out a. if ag_ID a \<in> ag_ID ` set out then out else out @ [a]"
  assumes "distinct (map ag_ID out)"
  shows "distinct (map ag_ID (foldl step out as))
    \<and> ag_ID ` set (foldl step out as) = ag_ID ` (set out \<union> set as)
    \<and> set (foldl step out as) \<subseteq> set out \<union> set as"
  using assms(2)
proof (induction as arbitrary: out)
  case (Cons a as)
  have "distinct (map ag_ID (step out a)) \<and> ag_ID ` set (step out a) = insert (ag_ID a) (ag_ID ` set out)
      \<and> set (step out a) \<subseteq> insert a (set out)"
    using Cons.prems by (cases "ag_ID a \<in> ag_ID ` set out") (simp_all add: step_def insert_absorb subset_insertI)
  then have st: "distinct (map ag_ID (step out a))"
      "ag_ID ` set (step out a) = insert (ag_ID a) (ag_ID ` set out)" "set (step out a) \<subseteq> insert a (set out)"
    by simp_all
  have "set (foldl step (step out a) as) \<subseteq> insert a (set out) \<union> set as"
    using Cons.IH [OF st(1)] st(3) by blast
  then show ?case using Cons.IH [OF st(1)] st(2) by (simp add: image_Un)
qed simp

lemma dedup_agents_facts:
  "distinct (map ag_ID (dedup_agents as))" "ag_ID ` set (dedup_agents as) = ag_ID ` set as"
  "set (dedup_agents as) \<subseteq> set as"
  using dedup_foldl [of "[]" as] by (simp_all add: dedup_agents_def)

text \<open>
  The set that rollback and the health gate work on.  Whenever the current stage resolves, it covers
  exactly the agents of the current canary together with every agent still in the group that an earlier
  stage delivered to; it never leaves the target group and never covers fewer agents than the canary.
\<close>
theorem cumulativePushedAgents_covers:
  assumes "canaryAgents r all = Inr c"
  shows "\<exists>out. cumulativePushedAgents r all = Inr out
    \<and> ag_ID ` set out = ag_ID ` set c \<union>
        {ag_ID a | a. a \<in> set all \<and> ag_GroupID a = Some (ro_GroupID r) \<and> ag_ID a \<in> set (ro_PushedAgentIDs r)}
    \<and> set out \<subseteq> {a \<in> set all. ag_GroupID a = Some (ro_GroupID r)}"
proof -
  define P where "P = filter (\<lambda>a. ag_GroupID a = Some (ro_GroupID r) \<and> ag_ID a \<in> set (ro_PushedAgentIDs r)) all"
  have scope: "set c \<subseteq> {a \<in> set all. ag_GroupID a = Some (ro_GroupID r)}"
    using canary_scope [of r "ro_CurrentStage r" all c] assms by (simp only: canaryAgents_def)
  show ?thesis
  proof (cases "ro_PushedAgentIDs r = []")
    case True
    then show ?thesis using assms scope by (auto simp: cumulativePushedAgents_def)
  next
    case False
    have "cumulativePushedAgents r all = Inr (sort_key ag_ID (dedup_agents (c @ P)))"
      using assms False by (simp add: cumulativePushedAgents_def P_def)
    moreover have "ag_ID ` set (dedup_agents (c @ P)) = ag_ID ` set c \<union> ag_ID ` set P"
      by (simp add: dedup_agents_facts image_Un)
    moreover have "set (dedup_agents (c @ P)) \<subseteq> set c \<union> set P" using dedup_agents_facts(3) [of "c @ P"] by simp
    ultimately show ?thesis using scope by (auto simp: P_def)
  qed
qed

lemma sample_plan_row_simps [simp]:
  "ro_CurrentStage sample_plan_row = 0" "ro_GroupID sample_plan_row = ''g''"
  "ro_Stages sample_plan_row = [sample_stage 10, sample_stage 100]"
  by (simp_all add: sample_plan_row_def sample_rollout_def toStorageRollout_def zero_rollout_def)

lemma sample_fleet_group: "group_agents ''g'' sample_fleet = map (\<lambda>i. toServiceAgent (sample_agent i)) [''a'', ''b'', ''c'']"
  by (simp add: group_agents_def sample_fleet_def sample_agent_def)

theorem cumulativePushedAgents_covers_witness:
  "\<exists>out. cumulativePushedAgents (sample_plan_row\<lparr>ro_PushedAgentIDs := [''c'']\<rparr>) sample_fleet = Inr out
     \<and> {''a'', ''c''} \<subseteq> ag_ID ` set out"
proof -
  define r where "r = sample_plan_row\<lparr>ro_PushedAgentIDs := [''c'']\<rparr>"
  have "canaryAgents r sample_fleet = Inr [toServiceAgent (sample_agent ''a'')]"
    by (simp add: canaryAgents_def r_def canaryAgentsForStage_def sample_fleet_group go_div_def
        effective_mode_def sample_stage_def)
  from cumulativePushedAgents_covers [OF this] obtain out where
    out: "cumulativePushedAgents r sample_fleet = Inr out"
      "ag_ID ` set out = ag_ID ` set [toServiceAgent (sample_agent ''a'')] \<union>
        {ag_ID a | a. a \<in> set sample_fleet \<and> ag_GroupID a = Some ''g'' \<and> ag_ID a \<in> {''c''}}"
    by (auto simp: r_def)
  have "toServiceAgent (sample_agent ''c'') \<in> set sample_fleet" by (simp add: sample_fleet_def)
  then have "''c'' \<in> ag_ID ` set out" unfolding out(2) by (force simp: sample_agent_def)
  moreover have "''a'' \<in> ag_ID ` set out" unfolding out(2) by (simp add: sample_agent_def)
  ultimately show ?thesis using out(1) unfolding r_def by blast
qed


section \<open>Delta delivery\<close>

lemma dedup_ids:
  "distinct out \<Longrightarrow>
   distinct (foldl (\<lambda>out x. if x \<in> set out then out else out @ [x]) out ids)
   \<and> set (foldl (\<lambda>out x. if x \<in> set out then out else out @ [x]) out ids) = set out \<union> set ids"
  by (induction ids arbitrary: out) auto

lemma unionPushedAgentIDs_facts:
  "set (unionPushedAgentIDs xs ys) = set xs \<union> set ys" "distinct (unionPushedAgentIDs xs ys)"
  "sorted (unionPushedAgentIDs xs ys)"
  using dedup_ids [of "[]" "xs @ ys"] by (simp_all add: unionPushedAgentIDs_def)

lemma set_deltaToPush: "set (deltaToPush canary pushed) = {a \<in> set canary. ag_ID a \<notin> set pushed}"
  by (auto simp: deltaToPush_def)

text \<open>
  Each agent is delivered to once.  Running the stages of a rollout over any sequence of canary sets,
  pushing to the delta and recording the agents whose delivery succeeded, no agent that succeeded is ever
  pushed again, every agent that failed is in the next delta that contains it, and after each stage the
  recorded set is exactly the previous set plus the successes, sorted and without duplicates.
\<close>
theorem delta_delivery:
  assumes "set failed \<subseteq> set ids" and "ids = map ag_ID (deltaToPush canary pushed)"
    and "pushed' = unionPushedAgentIDs pushed (subtractIDs ids failed)"
  shows "set pushed' = set pushed \<union> (set ids - set failed)
    \<and> sorted pushed' \<and> distinct pushed'
    \<and> set ids \<inter> set pushed = {}
    \<and> ag_ID ` set (deltaToPush canary pushed') = set failed
    \<and> (\<forall>canary'. ag_ID ` set (deltaToPush canary' pushed') \<inter> (set pushed \<union> (set ids - set failed)) = {})"
proof -
  have p: "set pushed' = set pushed \<union> (set ids - set failed)"
    using assms(3) by (auto simp: unionPushedAgentIDs_facts subtractIDs_def)
  have ids: "set ids = {ag_ID a | a. a \<in> set canary \<and> ag_ID a \<notin> set pushed}"
    using assms(2) by (auto simp: set_deltaToPush)
  have "ag_ID ` set (deltaToPush canary pushed') = set failed"
    using assms(1) unfolding set_deltaToPush p ids by (auto simp: subset_iff)
  moreover have "\<forall>canary'. ag_ID ` set (deltaToPush canary' pushed') \<inter> (set pushed \<union> (set ids - set failed)) = {}"
    by (auto simp: set_deltaToPush p)
  ultimately show ?thesis using p ids assms(3) by (auto simp: unionPushedAgentIDs_facts)
qed

theorem delta_delivery_witness:
  "set (unionPushedAgentIDs [''a''] (subtractIDs (map ag_ID (deltaToPush sample_fleet [''a''])) [''c'']))
     = {''a'', ''b''}
   \<and> ag_ID ` set (deltaToPush sample_fleet
        (unionPushedAgentIDs [''a''] (subtractIDs (map ag_ID (deltaToPush sample_fleet [''a''])) [''c'']))) = {''c''}"
proof -
  have i: "map ag_ID (deltaToPush sample_fleet [''a'']) = [''c'', ''b'']"
    by (simp add: deltaToPush_def sample_fleet_def sample_agent_def)
  have "set [''c''] \<subseteq> set (map ag_ID (deltaToPush sample_fleet [''a'']))" unfolding i by simp
  from delta_delivery [OF this refl refl] show ?thesis unfolding i by auto
qed

section \<open>Convergence thresholds\<close>

text \<open>
  The number of canary agents that must report the target.  It lies between 1 and the size of a
  non-empty canary, it is the least number whose share reaches the configured percentage, and an unset or
  full percentage means every agent.
\<close>
theorem convergenceRequired_bounds:
  assumes "0 < n"
  shows "1 \<le> convergenceRequired n p \<and> convergenceRequired n p \<le> n
    \<and> (if 0 < p \<and> p < 100
       then n * p \<le> 100 * convergenceRequired n p \<and> 100 * (convergenceRequired n p - 1) < n * p
       else convergenceRequired n p = n)"
proof (cases "0 < p \<and> p < 100")
  case False
  then show ?thesis using assms by (auto simp: convergenceRequired_def)
next
  case True
  define q where "q = (n * p + 99) div 100"
  have np: "0 < n * p" using assms True by simp
  have "n * p \<le> n * 100" using assms True by (intro mult_left_mono) auto
  then have "q \<le> (n * 100 + 99) div 100" unfolding q_def by (intro zdiv_mono1) auto
  then have le: "q \<le> n" by simp
  have q: "n * p \<le> 100 * q" "100 * (q - 1) < n * p" "1 \<le> q" unfolding q_def using np by simp_all
  have "convergenceRequired n p = q"
    using assms True np le q(3) by (simp add: convergenceRequired_def go_div_def q_def)
  then show ?thesis using q le True by simp
qed

theorem convergenceRequired_bounds_witness:
  "convergenceRequired 7 50 = 4 \<and> 7 * 50 \<le> 100 * convergenceRequired 7 50"
  using convergenceRequired_bounds [of 7 50] by (simp add: convergenceRequired_def go_div_def)

section \<open>Dwell\<close>

text \<open>
  The dwell gate.  For every dwell time up to 9223372036 seconds and every pair of instants less than
  292 years apart, the gate opens exactly when the configured number of seconds has passed since the stage
  started.
\<close>
theorem dwellElapsed_exact:
  assumes "0 \<le> DwellSeconds st" "DwellSeconds st \<le> 9223372036"
    and "ro_StageStartedAt r = Some t" "in_int64 (now - t)"
  shows "dwellElapsed now r st \<longleftrightarrow> DwellSeconds st * second \<le> now - t"
proof -
  have "Seconds (DwellSeconds st) = DwellSeconds st * second"
    using assms(1,2) by (simp add: Seconds_def in_int64_def)
  moreover have "Since now t = now - t" using assms(4) by (auto simp: Since_def Sub_def in_int64_def)
  ultimately show ?thesis using assms(3) by (simp add: dwellElapsed_def)
qed

theorem dwellElapsed_exact_witness:
  "dwellElapsed (40 * second) (sample_plan_row\<lparr>ro_StageStartedAt := Some 0\<rparr>) (sample_stage 10)
   \<and> \<not> dwellElapsed (29 * second) (sample_plan_row\<lparr>ro_StageStartedAt := Some 0\<rparr>) (sample_stage 10)"
  using dwellElapsed_exact [of "sample_stage 10" "sample_plan_row\<lparr>ro_StageStartedAt := Some 0\<rparr>" 0 "40 * second"]
    dwellElapsed_exact [of "sample_stage 10" "sample_plan_row\<lparr>ro_StageStartedAt := Some 0\<rparr>" 0 "29 * second"]
  by (simp add: sample_stage_def in_int64_def)

text \<open>
  The dwell gate overflows.  A dwell time of 9223372037 seconds passes validation but its conversion to
  nanoseconds wraps to a negative duration, so the gate is open from the moment the stage starts.
\<close>
theorem dwell_overflow_opens_gate:
  assumes "ro_StageStartedAt r = Some t" "t \<le> now"
  shows "validate_stage RolloutStageModePercent 0 None ((sample_stage 100)\<lparr>DwellSeconds := 9223372037\<rparr>) = None
    \<and> dwellElapsed now r ((sample_stage 100)\<lparr>DwellSeconds := 9223372037\<rparr>)"
  using assms by (simp add: validate_stage_def effective_mode_def sample_stage_def dwellElapsed_def
      Seconds_def int64_def Since_def Sub_def)

theorem dwell_overflow_opens_gate_witness:
  "dwellElapsed 5 (sample_plan_row\<lparr>ro_StageStartedAt := Some 5\<rparr>) ((sample_stage 100)\<lparr>DwellSeconds := 9223372037\<rparr>)"
  using dwell_overflow_opens_gate [of "sample_plan_row\<lparr>ro_StageStartedAt := Some 5\<rparr>" 5 5] by simp

section \<open>Convergence and drift\<close>

text \<open>
  The two notions of applied disagree for supervised agents.  An agent that has confirmed delivery of
  the target is in sync for drift detection whatever non-empty config it reports, while the convergence
  gate of the rollout engine ignores the confirmation and asks for the reported fingerprint.
\<close>
theorem delivered_agent_synced_not_converged:
  assumes "ag_DeliveredConfigHash a = Hash content" "Hash content \<noteq> []" "ci_Hash i = Hash content"
    and "Normalize (ag_EffectiveConfig a) \<noteq> []"
  shows "fst (computeConfigDrift d now (Some i) (ag_EffectiveConfig a) (ag_DeliveredConfigHash a) supervised inc)
      = ConfigDriftStatusSynced
    \<and> (agentConvergedToHash a (Hash content) \<longleftrightarrow> Hash (ag_EffectiveConfig a) = Hash content)"
  using assms by (simp add: computeConfigDrift_classifies agentConvergedToHash_def)

theorem delivered_agent_synced_not_converged_witness:
  "fst (computeConfigDrift (\<lambda>_ _. []) 0
     (Some (buildConfigIntent ((sample_config ''c1'' 1)\<lparr>cf_ConfigHash := Hash ''a: 1''\<rparr>) ConfigIntentSourceGroup [] False))
     ''a: 1 expanded'' (Hash ''a: 1'') True False) = ConfigDriftStatusSynced"
proof -
  define a where "a = (toServiceAgent (sample_agent ''x''))\<lparr>ag_EffectiveConfig := ''a: 1 expanded'',
     ag_DeliveredConfigHash := Hash ''a: 1''\<rparr>"
  have n: "Normalize ''a: 1'' \<noteq> []" "Normalize ''a: 1 expanded'' \<noteq> []" by code_simp+
  have h: "Hash ''a: 1'' \<noteq> []" using n(1) hex_sha_not_Nil by (simp add: Hash_def Let_def)
  show ?thesis
    using delivered_agent_synced_not_converged [of a "''a: 1''"
      "buildConfigIntent ((sample_config ''c1'' 1)\<lparr>cf_ConfigHash := Hash ''a: 1''\<rparr>) ConfigIntentSourceGroup [] False"
      "\<lambda>_ _. []" 0 True False] h n(2)
    by (simp add: a_def buildConfigIntent_def)
qed

end
