(* ===== verification/Action_Dispatch.thy ===== *)
theory Action_Dispatch
  imports Control_Plane
begin

text \<open>
  Plan-embedded actions: the registry of action types (\<open>actions/registry.go\<close>), the action tables of the
  in-memory store (\<open>memory/actions.go\<close>) and the dispatcher the engine calls
  (\<open>services/plan_action_dispatcher.go\<close>).  The Ed25519 signer and the decoder of capability lists are
  fields of the dispatcher.
\<close>

section \<open>Registry\<close>

definition Register :: "ActionType \<Rightarrow> Registry \<Rightarrow> Registry result" where
  "Register t reg =
     (if at_Type t = [] then Inl (OtherError ''ActionType.Type is required'')
      else if map_of reg (at_Type t) \<noteq> None then Inl (OtherError ''ActionType already registered'')
      else Inr (AList.update (at_Type t) t reg))"

definition registry_Get :: "Registry \<Rightarrow> string \<Rightarrow> ActionType option" where
  "registry_Get reg name = map_of reg name"

fun match_caps :: "(string \<Rightarrow> string) \<Rightarrow> ActionType \<Rightarrow> string \<Rightarrow> string \<Rightarrow> Capability list \<Rightarrow> bool \<times> string" where
  "match_caps quote t typeName params [] = (False, ''runner has no capability declaration for '' @ quote typeName)"
| "match_caps quote t typeName params (c # cs) =
     (if cap_Type c \<noteq> typeName then match_caps quote t typeName params cs
      else (case at_MatchesCapability t params c of
          (allowed, reason) \<Rightarrow>
            if allowed then (True, [])
            else if reason \<noteq> [] then (False, reason)
            else match_caps quote t typeName params cs))"

definition AllowsAction :: "(string \<Rightarrow> string) \<Rightarrow> Registry \<Rightarrow> Capability list \<Rightarrow> string \<Rightarrow> string \<Rightarrow> bool \<times> string" where
  "AllowsAction quote reg caps typeName params =
     (case registry_Get reg typeName of
        None \<Rightarrow> (False, ''unknown action type '' @ quote typeName)
      | Some t \<Rightarrow> match_caps quote t typeName params caps)"

section \<open>Store tables\<close>

definition GetActionRunnerRegistration :: "string \<Rightarrow> World \<Rightarrow> ActionRunnerRegistration option" where
  "GetActionRunnerRegistration runnerID w = map_of (w_runners w) runnerID"

definition CreateActionRequest :: "ActionRequest \<Rightarrow> World \<Rightarrow> World result" where
  "CreateActionRequest q w =
     (if map_of (w_requests w) (rq_ID q) \<noteq> None then Inl (OtherError ''action request already exists'')
      else let q' = (if rq_Status q = [] then q\<lparr>rq_Status := ''pending''\<rparr> else q)
           in Inr (w\<lparr>w_requests := AList.update (rq_ID q) q' (w_requests w)\<rparr>))"

definition UpdateActionRequest :: "ActionRequest \<Rightarrow> World \<Rightarrow> World result" where
  "UpdateActionRequest q w =
     (case map_of (w_requests w) (rq_ID q) of
        None \<Rightarrow> Inl (OtherError ''action request not found'')
      | Some stored \<Rightarrow>
          Inr (w\<lparr>w_requests := AList.update (rq_ID q)
            (stored\<lparr>rq_Status := rq_Status q, rq_DeniedFor := rq_DeniedFor q,
               rq_DryRunOutputJSON := rq_DryRunOutputJSON q,
               rq_ExecutionOutputJSON := rq_ExecutionOutputJSON q, rq_StartedAt := rq_StartedAt q,
               rq_CompletedAt := rq_CompletedAt q\<rparr>) (w_requests w)\<rparr>))"

definition GetActionRequest :: "string \<Rightarrow> World \<Rightarrow> ActionRequest option" where
  "GetActionRequest i w = map_of (w_requests w) i"

section \<open>Dispatcher\<close>

abbreviation DefaultTimeoutSeconds :: int where "DefaultTimeoutSeconds \<equiv> 300"

definition sha256HexShort :: "string \<Rightarrow> string" where
  "sha256HexShort s = take 16 (hex_encode (sha256 s))"

text \<open>The checks before signing, in the order of the code; \<open>None\<close> when the request may be signed.\<close>

definition dispatch_refusal :: "Dispatcher \<Rightarrow> ActionStepSpec \<Rightarrow> string \<Rightarrow> World \<Rightarrow> error option" where
  "dispatch_refusal d spec params w =
     (if dp_signer d = None then Some (DispatchError ''action signer not configured'' [])
      else if TrimSpace (as_RunnerID spec) = [] then Some (DispatchError ''runner_id is required'' [])
      else if TrimSpace (as_ActionType spec) = [] then Some (DispatchError ''action_type is required'' [])
      else (case registry_Get (dp_registry d) (as_ActionType spec) of
          None \<Rightarrow> Some (DispatchError ''unknown action type'' (as_ActionType spec))
        | Some t \<Rightarrow>
            (case at_ValidateParameters t params of
               Some e \<Rightarrow> Some (DispatchError ''parameter validation'' e)
             | None \<Rightarrow>
                 (case GetActionRunnerRegistration (as_RunnerID spec) w of
                    None \<Rightarrow> Some (DispatchError ''runner not registered'' (as_RunnerID spec))
                  | Some reg \<Rightarrow>
                      if rn_RevokedAt reg \<noteq> None then Some (DispatchError ''runner is revoked'' (as_RunnerID spec))
                      else (case (if rn_CapabilitiesJSON reg = [] then Some []
                                  else dp_unmarshalCaps d (rn_CapabilitiesJSON reg)) of
                          None \<Rightarrow> Some (DispatchError ''runner capabilities corrupt'' [])
                        | Some caps \<Rightarrow>
                            (case AllowsAction (dp_quote d) (dp_registry d) caps (as_ActionType spec) params of
                               (True, _) \<Rightarrow> None
                             | (False, reason) \<Rightarrow> Some (DispatchError ''out of runner policy'' reason)))))))"

definition Dispatch ::
  "Env \<Rightarrow> Dispatcher \<Rightarrow> gotime \<Rightarrow> Ctx \<Rightarrow> string \<Rightarrow> int \<Rightarrow> ActionStepSpec \<Rightarrow> string \<Rightarrow> World
     \<Rightarrow> (string \<times> gotime) result \<times> World" where
  "Dispatch env d now ctx planID stepIndex spec actor w =
     (let params = (if as_Parameters spec = [] then ''{}'' else as_Parameters spec) in
      case dispatch_refusal d spec params w of
        Some e \<Rightarrow> (Inl e, w)
      | None \<Rightarrow>
          let (reqID, w1) = fresh_uuid env w;
              timeoutSeconds = (if as_TimeoutSeconds spec \<le> 0 then DefaultTimeoutSeconds
                                else as_TimeoutSeconds spec);
              expires = now + int64 (timeoutSeconds * second);
              req = \<lparr>rq_ID = reqID, rq_ProposalID = [], rq_RunnerID = as_RunnerID spec,
                     rq_ActionType = as_ActionType spec, rq_ParametersJSON = params, rq_Signature = [],
                     rq_Phase = ''execute'', rq_Status = ''pending'', rq_DeniedFor = [],
                     rq_DryRunOutputJSON = [], rq_ExecutionOutputJSON = [], rq_IssuedAt = now,
                     rq_ExpiresAt = expires, rq_StartedAt = None, rq_CompletedAt = None\<rparr>
          in (case (case dp_signer d of None \<Rightarrow> None | Some sign \<Rightarrow> sign req) of
                None \<Rightarrow> (Inl (DispatchError ''sign'' []), w1)
              | Some signature \<Rightarrow>
                  (case CreateActionRequest (req\<lparr>rq_Signature := signature\<rparr>) w1 of
                     Inl e \<Rightarrow> (Inl e, w1)
                   | Inr w2 \<Rightarrow>
                       (Inr (reqID, expires),
                        audit env now ctx
                          \<lparr>en_Actor = actor, en_EventType = ''action.dispatched'',
                           en_TargetType = ''action_request'', en_TargetID = reqID, en_Action = ''dispatched'',
                           en_Payload = Some
                             [(''runner_id'', JStr (as_RunnerID spec)), (''action_type'', JStr (as_ActionType spec)),
                              (''phase'', JStr ''execute''), (''issued_at'', JTime now),
                              (''expires_at'', JTime expires),
                              (''parameters_sha256'', JStr (sha256HexShort params)),
                              (''plan_id'', JStr planID), (''plan_step_index'', JInt stepIndex),
                              (''plan_step_origin'', JStr ''plan_embedded'')]\<rparr> w2))))"

text \<open>Status, denial category and expiry; empty values for a row that is gone.\<close>

definition GetStatus :: "string \<Rightarrow> World \<Rightarrow> (string \<times> string \<times> gotime) result" where
  "GetStatus requestID w =
     (if requestID = [] then Inl (DispatchError ''request_id is required'' [])
      else (case GetActionRequest requestID w of
          None \<Rightarrow> Inr ([], [], 0)
        | Some row \<Rightarrow> Inr (rq_Status row, rq_DeniedFor row, rq_ExpiresAt row)))"

definition Cancel :: "gotime \<Rightarrow> string \<Rightarrow> string \<Rightarrow> World \<Rightarrow> World result" where
  "Cancel now requestID reason w =
     (if requestID = [] then Inr w
      else (case GetActionRequest requestID w of
          None \<Rightarrow> Inr w
        | Some row \<Rightarrow>
            if rq_Status row \<noteq> ''pending'' then Inr w
            else UpdateActionRequest
              (row\<lparr>rq_Status := ''denied'',
                 rq_DeniedFor := (if rq_DeniedFor row = [] then reason else rq_DeniedFor row),
                 rq_CompletedAt := (if rq_CompletedAt row = None then Some now else rq_CompletedAt row)\<rparr>) w))"

definition EmitTerminalAudit ::
  "Env \<Rightarrow> gotime \<Rightarrow> Ctx \<Rightarrow> ActionRequest \<Rightarrow> string \<Rightarrow> int \<Rightarrow> string \<Rightarrow> string \<Rightarrow> string \<Rightarrow> World \<Rightarrow> World" where
  "EmitTerminalAudit env now ctx request planID stepIndex eventType action actor w =
     audit env now ctx
       \<lparr>en_Actor = actor, en_EventType = eventType, en_TargetType = ''action_request'',
        en_TargetID = rq_ID request, en_Action = action,
        en_Payload = Some
          ([(''runner_id'', JStr (rq_RunnerID request)), (''action_type'', JStr (rq_ActionType request)),
            (''phase'', JStr (rq_Phase request))]
           @ (if rq_DeniedFor request \<noteq> [] then [(''denied_for'', JStr (rq_DeniedFor request))] else [])
           @ (case (rq_StartedAt request, rq_CompletedAt request) of
                (Some st, Some ct) \<Rightarrow> [(''duration_ms'', JInt (go_div (Sub ct st) 1000000))]
              | _ \<Rightarrow> [])
           @ (if planID \<noteq> [] then [(''plan_id'', JStr planID), (''plan_step_index'', JInt stepIndex),
                (''plan_step_origin'', JStr ''plan_embedded'')] else []))\<rparr> w"

section \<open>What a dispatch guarantees\<close>

lemma match_caps_allows:
  "fst (match_caps quote t n ps caps) \<Longrightarrow> \<exists>c \<in> set caps. cap_Type c = n \<and> fst (at_MatchesCapability t ps c)"
  by (induction quote t n ps caps rule: match_caps.induct) (auto split: if_splits prod.splits)

lemma dispatch_refusal_None:
  assumes "dispatch_refusal d spec params w = None"
  shows "\<exists>sign t reg caps. dp_signer d = Some sign \<and> map_of (dp_registry d) (as_ActionType spec) = Some t
    \<and> at_ValidateParameters t params = None \<and> map_of (w_runners w) (as_RunnerID spec) = Some reg
    \<and> rn_RevokedAt reg = None
    \<and> (if rn_CapabilitiesJSON reg = [] then Some [] else dp_unmarshalCaps d (rn_CapabilitiesJSON reg)) = Some caps
    \<and> fst (AllowsAction (dp_quote d) (dp_registry d) caps (as_ActionType spec) params)"
proof -
  note r = assms [unfolded dispatch_refusal_def]
  obtain sign where sign: "dp_signer d = Some sign" using r by (cases "dp_signer d") simp_all
  have r1: "TrimSpace (as_RunnerID spec) \<noteq> []" "TrimSpace (as_ActionType spec) \<noteq> []"
    using r sign by (metis option.distinct(1))+
  obtain t where t: "registry_Get (dp_registry d) (as_ActionType spec) = Some t"
    using r sign r1 by (cases "registry_Get (dp_registry d) (as_ActionType spec)") simp_all
  have v: "at_ValidateParameters t params = None"
    using r sign r1 t by (cases "at_ValidateParameters t params") simp_all
  obtain reg where reg: "GetActionRunnerRegistration (as_RunnerID spec) w = Some reg"
    using r sign r1 t v by (cases "GetActionRunnerRegistration (as_RunnerID spec) w") simp_all
  have nr: "rn_RevokedAt reg = None" using r sign r1 t v reg by (cases "rn_RevokedAt reg") simp_all
  define co where "co = (if rn_CapabilitiesJSON reg = [] then Some [] else dp_unmarshalCaps d (rn_CapabilitiesJSON reg))"
  have r2: "(case co of None \<Rightarrow> Some (DispatchError ''runner capabilities corrupt'' [])
      | Some caps \<Rightarrow> (case AllowsAction (dp_quote d) (dp_registry d) caps (as_ActionType spec) params of
          (True, _) \<Rightarrow> None | (False, reason) \<Rightarrow> Some (DispatchError ''out of runner policy'' reason))) = None"
    using r sign r1 t v reg nr by (simp add: co_def)
  then obtain caps where caps: "co = Some caps" by (cases co) simp_all
  have "fst (AllowsAction (dp_quote d) (dp_registry d) caps (as_ActionType spec) params)"
    using r2 caps by (cases "AllowsAction (dp_quote d) (dp_registry d) caps (as_ActionType spec) params") (simp split: bool.splits)
  with sign t v reg nr caps show ?thesis
    unfolding co_def registry_Get_def GetActionRunnerRegistration_def by blast
qed

lemma dispatch_ok:
  assumes "Dispatch env d now ctx planID k spec actor w = (Inr (reqID, expires), w')"
  shows "\<exists>sign t reg caps c row params. dp_signer d = Some sign
    \<and> map_of (dp_registry d) (as_ActionType spec) = Some t \<and> at_ValidateParameters t params = None
    \<and> map_of (w_runners w) (as_RunnerID spec) = Some reg \<and> rn_RevokedAt reg = None
    \<and> dp_unmarshalCaps d (rn_CapabilitiesJSON reg) = Some caps \<and> c \<in> set caps
    \<and> cap_Type c = as_ActionType spec \<and> fst (at_MatchesCapability t params c)
    \<and> params = (if as_Parameters spec = [] then ''{}'' else as_Parameters spec)
    \<and> map_of (w_requests w') reqID = Some row \<and> rq_Status row = ''pending''
    \<and> rq_RunnerID row = as_RunnerID spec \<and> rq_ActionType row = as_ActionType spec
    \<and> rq_ParametersJSON row = params \<and> sign (row\<lparr>rq_Signature := []\<rparr>) = Some (rq_Signature row)
    \<and> rq_ExpiresAt row = expires \<and> rq_IssuedAt row = now \<and> rq_Phase row = ''execute''
    \<and> map_of (w_requests w) reqID = None"
proof -
  define params where "params = (if as_Parameters spec = [] then ''{}'' else as_Parameters spec)"
  have r: "dispatch_refusal d spec params w = None"
    using assms unfolding Dispatch_def Let_def params_def [symmetric]
    by (cases "dispatch_refusal d spec params w") auto
  obtain sign t reg caps where sign: "dp_signer d = Some sign" and
      t: "map_of (dp_registry d) (as_ActionType spec) = Some t"
      "at_ValidateParameters t params = None" "map_of (w_runners w) (as_RunnerID spec) = Some reg"
      "rn_RevokedAt reg = None"
      "(if rn_CapabilitiesJSON reg = [] then Some [] else dp_unmarshalCaps d (rn_CapabilitiesJSON reg)) = Some caps"
      "fst (AllowsAction (dp_quote d) (dp_registry d) caps (as_ActionType spec) params)"
    using dispatch_refusal_None [OF r] by blast
  from t(6) obtain c where c: "c \<in> set caps" "cap_Type c = as_ActionType spec" "fst (at_MatchesCapability t params c)"
    using t(1) match_caps_allows [of "dp_quote d" t "as_ActionType spec" params caps]
    by (auto simp: AllowsAction_def registry_Get_def)
  then have caps: "dp_unmarshalCaps d (rn_CapabilitiesJSON reg) = Some caps"
    using t(5) by (auto split: if_splits)
  obtain row where row: "map_of (w_requests w') reqID = Some row" "rq_Status row = ''pending''"
      "rq_RunnerID row = as_RunnerID spec" "rq_ActionType row = as_ActionType spec"
      "rq_ParametersJSON row = params" "sign (row\<lparr>rq_Signature := []\<rparr>) = Some (rq_Signature row)"
      "rq_ExpiresAt row = expires" "rq_IssuedAt row = now" "rq_Phase row = ''execute''" "map_of (w_requests w) reqID = None"
    using assms r sign unfolding Dispatch_def Let_def params_def [symmetric]
    by (auto simp: fresh_uuid_def CreateActionRequest_def split: option.splits sum.splits if_splits)
  show ?thesis using sign t c caps row unfolding params_def by blast
qed

lemma dispatch_row_id:
  assumes "Dispatch env d now ctx planID k spec actor w = (Inr (reqID, expires), w')"
    and "map_of (w_requests w') reqID = Some row"
  shows "rq_ID row = reqID"
  using assms unfolding Dispatch_def Let_def
  by (auto simp: fresh_uuid_def CreateActionRequest_def split: option.splits sum.splits if_splits)

text \<open>
  Only in-policy actions are dispatched.  A successful dispatch means that the signer is configured,
  the action type is registered and accepts the parameters, the runner is registered and not revoked and
  one of its declared capabilities of that type permits the parameters; the stored request is pending,
  signed by the signer over exactly these fields, and expires after the requested timeout.
\<close>
theorem Dispatch_in_policy:
  assumes "Dispatch env d now ctx planID k spec actor w = (Inr (reqID, expires), w')"
  shows "\<exists>sign t reg caps c row params. dp_signer d = Some sign
    \<and> map_of (dp_registry d) (as_ActionType spec) = Some t \<and> at_ValidateParameters t params = None
    \<and> map_of (w_runners w) (as_RunnerID spec) = Some reg \<and> rn_RevokedAt reg = None
    \<and> dp_unmarshalCaps d (rn_CapabilitiesJSON reg) = Some caps \<and> c \<in> set caps
    \<and> cap_Type c = as_ActionType spec \<and> fst (at_MatchesCapability t params c)
    \<and> params = (if as_Parameters spec = [] then ''{}'' else as_Parameters spec)
    \<and> map_of (w_requests w') reqID = Some row \<and> rq_Status row = ''pending''
    \<and> rq_RunnerID row = as_RunnerID spec \<and> rq_ActionType row = as_ActionType spec
    \<and> rq_ParametersJSON row = params \<and> sign (row\<lparr>rq_Signature := []\<rparr>) = Some (rq_Signature row)
    \<and> rq_ExpiresAt row = expires \<and> rq_IssuedAt row = now \<and> rq_Phase row = ''execute''
    \<and> map_of (w_requests w) reqID = None"
  by (rule dispatch_ok [OF assms])



definition echo_type :: ActionType where
  "echo_type = \<lparr>at_Type = ''echo'', at_ValidateParameters = (\<lambda>_. None),
     at_MatchesCapability = (\<lambda>p c. if cap_Constraints c = [] then (True, []) else (False, ''constrained''))\<rparr>"

definition sample_runner :: ActionRunnerRegistration where
  "sample_runner = \<lparr>rn_RunnerID = ''h1'', rn_Hostname = ''h1'', rn_PublicKeyPEM = [], rn_CapabilitiesJSON = ''caps'',
     rn_RegisteredAt = 1, rn_LastSeenAt = 1, rn_RevokedAt = None\<rparr>"

definition sample_dispatcher :: Dispatcher where
  "sample_dispatcher = \<lparr>dp_signer = Some (\<lambda>q. Some (''sig-'' @ rq_ID q)), dp_registry = [(''echo'', echo_type)],
     dp_unmarshalCaps = (\<lambda>s. Some [\<lparr>cap_Type = ''echo'', cap_Constraints = []\<rparr>]), dp_quote = (\<lambda>s. s)\<rparr>"

definition sample_spec :: ActionStepSpec where
  "sample_spec = \<lparr>as_RunnerID = ''h1'', as_ActionType = ''echo'', as_Parameters = [], as_TimeoutSeconds = 60\<rparr>"

definition sample_env :: Env where
  "sample_env = \<lparr>env_audited = False, env_marshal = (\<lambda>_. []), env_labelResolver = None,
     env_uuid = (\<lambda>n. CHR ''u'' # utoa n), env_fold = id, env_lower = id, env_splitLines = (\<lambda>s. [s]),
     env_unifiedDiff = (\<lambda>_ _. None), env_driftDiff = (\<lambda>_ _. []), env_parseYAML = (\<lambda>_. Inl []),
     env_marshalSpec = Some \<circ> as_RunnerID, env_unmarshalSpec = (\<lambda>_. None), env_groupPolicy = None,
     env_roleChecker = None, env_windows = None, env_ack = (\<lambda>_ _. True), env_telemetry = None,
     env_connectors = None, env_owners = None, env_coverageGrace = 0, env_convergenceTimeout = 0,
     env_writeDesiredState = True, env_reconcileCoord = False, env_broker = False, env_parseUUID = Some,
     env_dispatcher = None, env_fmt1 = (\<lambda>_. []), env_fmt4g = (\<lambda>_. []), env_quote = (\<lambda>s. s)\<rparr>"

theorem Dispatch_in_policy_witness:
  "\<exists>reqID expires w' row. Dispatch sample_env sample_dispatcher 5 background_ctx ''p'' 0 sample_spec ''op''
       (empty_world\<lparr>w_runners := [(''h1'', sample_runner)]\<rparr>) = (Inr (reqID, expires), w')
     \<and> map_of (w_requests w') reqID = Some row \<and> rq_Status row = ''pending'' \<and> rq_RunnerID row = ''h1''"
proof -
  define w where "w = empty_world\<lparr>w_runners := [(''h1'', sample_runner)]\<rparr>"
  have t: "TrimSpace ''h1'' \<noteq> []" "TrimSpace ''echo'' \<noteq> []" by code_simp+
  have "dispatch_refusal sample_dispatcher sample_spec ''{}'' w = None"
    using t by (simp add: dispatch_refusal_def sample_dispatcher_def sample_spec_def registry_Get_def echo_type_def
        GetActionRunnerRegistration_def w_def sample_runner_def AllowsAction_def)
  then have "\<exists>reqID expires w'. Dispatch sample_env sample_dispatcher 5 background_ctx ''p'' 0 sample_spec ''op'' w
      = (Inr (reqID, expires), w')"
    by (simp add: Dispatch_def Let_def sample_spec_def fresh_uuid_def sample_dispatcher_def CreateActionRequest_def
        w_def empty_world_def)
  then obtain reqID expires w' where
    d: "Dispatch sample_env sample_dispatcher 5 background_ctx ''p'' 0 sample_spec ''op'' w = (Inr (reqID, expires), w')"
    by blast
  with Dispatch_in_policy [OF d] show ?thesis unfolding w_def by (fastforce simp: sample_spec_def)
qed

text \<open>
  The first declaration decides.  When a runner declares the same action type twice, a first
  declaration that rejects the parameters with a reason hides a second one that permits them, although
  the loop is meant to try every declaration.
\<close>
theorem AllowsAction_first_rejection_wins:
  assumes "map_of reg n = Some t" "cap_Type c1 = n" "cap_Type c2 = n"
    and "at_MatchesCapability t ps c1 = (False, reason)" "reason \<noteq> []" "fst (at_MatchesCapability t ps c2)"
  shows "AllowsAction quote reg [c1, c2] n ps = (False, reason) \<and> AllowsAction quote reg [c2, c1] n ps = (True, [])"
  using assms by (auto simp: AllowsAction_def registry_Get_def split: prod.splits)

theorem AllowsAction_first_rejection_wins_witness:
  "fst (AllowsAction id [(''echo'', echo_type)] [\<lparr>cap_Type = ''echo'', cap_Constraints = [(''k'', JBool True)]\<rparr>,
      \<lparr>cap_Type = ''echo'', cap_Constraints = []\<rparr>] ''echo'' ''{}'') = False"
  using AllowsAction_first_rejection_wins [of "[(''echo'', echo_type)]" "''echo''" echo_type
      "\<lparr>cap_Type = ''echo'', cap_Constraints = [(''k'', JBool True)]\<rparr>" "\<lparr>cap_Type = ''echo'', cap_Constraints = []\<rparr>"
      "''{}''" "''constrained''" id]
  by (simp add: echo_type_def)

end
