(* ===== verification/Rollout_Engine.thy ===== *)
theory Rollout_Engine
  imports Rollout_Plans Canary Action_Dispatch
begin

text \<open>
  The rollout engine (\<open>rollouts/engine.go\<close>, \<open>rollouts/convergence.go\<close>, \<open>rollouts/engine_action_steps.go\<close>):
  one tick loads the active rollouts and advances each by one step.  The engine works on the rollout object
  it loaded; every write goes through the versioned \<open>Persist\<close>, so a write based on a stale object is a
  conflict that is either reconciled against the fresh row or yielded to the concurrent writer.

  Handlers that mutate their rollout object return it.  Pushes to distinct agents, which the code fans out
  concurrently, are sequenced in list order.
\<close>

section \<open>Bookkeeping\<close>

definition publishStateChange :: "Env \<Rightarrow> Rollout \<Rightarrow> string \<Rightarrow> World \<Rightarrow> World" where
  "publishStateChange env r transition w =
     (if env_broker env
      then w\<lparr>w_published := w_published w @ [\<lparr>sch_RolloutID = ro_ID r, sch_Name = ro_Name r,
               sch_State = ro_State r, sch_CurrentStage = ro_CurrentStage r, sch_Transition = transition\<rparr>]\<rparr>
      else w)"

text \<open>The engine runs on a system context.\<close>

definition recordAudit :: "Env \<Rightarrow> gotime \<Rightarrow> Rollout \<Rightarrow> string \<Rightarrow> string \<Rightarrow> payload \<Rightarrow> World \<Rightarrow> World" where
  "recordAudit env now r eventType action extra w =
     audit env now background_ctx
       (rollout_entry AuditActorSystem eventType (ro_ID r) action
          (Some (fold (\<lambda>(k, v). AList.update k v) extra
             [(''name'', JStr (ro_Name r)), (''group_id'', JStr (ro_GroupID r)),
              (''state'', JStr (state_string (ro_State r)))]))) w"

definition noteConflict :: "World \<Rightarrow> World" where
  "noteConflict w = w\<lparr>w_conflicts := w_conflicts w + 1\<rparr>"

definition noteRetry :: "World \<Rightarrow> World" where
  "noteRetry w = w\<lparr>w_retried := w_retried w + 1\<rparr>"

definition noteYield :: "Env \<Rightarrow> gotime \<Rightarrow> Rollout \<Rightarrow> string \<Rightarrow> string \<Rightarrow> World \<Rightarrow> World" where
  "noteYield env now r action resolution w =
     recordAudit env now r ''rollout.update_superseded'' ''update_superseded''
       [(''engine_action'', JStr action), (''resolution'', JStr resolution)]
       (w\<lparr>w_yielded := w_yielded w + 1\<rparr>)"

section \<open>Persisting\<close>

definition persist ::
  "Env \<Rightarrow> gotime \<Rightarrow> Rollout \<Rightarrow> string \<Rightarrow> World \<Rightarrow> error option \<times> Rollout \<times> World" where
  "persist env now r action w =
     (case Persist r (w_store w) of
        Inr (r', s') \<Rightarrow> (None, r', w\<lparr>w_store := s'\<rparr>)
      | Inl e \<Rightarrow>
          (Some e, r,
           if e = ErrRolloutConflict
           then noteYield env now r action ''skipped; reconciles next tick'' (noteConflict w) else w))"

definition persistWithReconcile ::
  "Env \<Rightarrow> gotime \<Rightarrow> Rollout \<Rightarrow> string \<Rightarrow> (Rollout \<Rightarrow> Rollout option) \<Rightarrow> World
     \<Rightarrow> error option \<times> Rollout \<times> World" where
  "persistWithReconcile env now r action reapply w =
     (case Persist r (w_store w) of
        Inr (r', s') \<Rightarrow> (None, r', w\<lparr>w_store := s'\<rparr>)
      | Inl e \<Rightarrow>
          if e \<noteq> ErrRolloutConflict then (Some e, r, w)
          else
            let w1 = noteConflict w in
            (case Get (ro_ID r) (w_store w1) of
               None \<Rightarrow> (Some e, r, noteYield env now r action
                            ''reload failed after conflict; reconciles next tick'' w1)
             | Some fresh \<Rightarrow>
                 (case reapply fresh of
                    None \<Rightarrow> (None, r, noteYield env now r action ''concurrent state supersedes transition'' w1)
                  | Some fresh1 \<Rightarrow>
                      (case Persist fresh1 (w_store w1) of
                         Inl e2 \<Rightarrow> (Some e2, r, noteYield env now r action
                                      ''reconcile retry re-conflicted; reconciles next tick'' w1)
                       | Inr (fresh2, s') \<Rightarrow> (None, fresh2, noteRetry (w1\<lparr>w_store := s'\<rparr>))))))"

section \<open>Delivery\<close>

definition pokeReconcile :: "Env \<Rightarrow> string list \<Rightarrow> World \<Rightarrow> World" where
  "pokeReconcile env ids w = (if env_reconcileCoord env then w\<lparr>w_pokes := w_pokes w @ ids\<rparr> else w)"

fun pushConfigToAgents ::
  "Env \<Rightarrow> SAgent list \<Rightarrow> string \<Rightarrow> string \<Rightarrow> World \<Rightarrow> string list \<times> World" where
  "pushConfigToAgents env [] configID content w = ([], w)"
| "pushConfigToAgents env (a # as) configID content w =
     (let ok = env_ack env (length (w_pushes w)) (ag_ID a);
          w1 = w\<lparr>w_pushes := w_pushes w @ [\<lparr>push_Agent = ag_ID a, push_ConfigID = configID,
                  push_Content = content, push_Acked = ok\<rparr>]\<rparr>;
          (failed, w2) = pushConfigToAgents env as configID content w1
      in (if ok then failed else ag_ID a # failed, w2))"

fun writeDesiredStateForAgents ::
  "Env \<Rightarrow> gotime \<Rightarrow> SAgent list \<Rightarrow> string \<Rightarrow> World \<Rightarrow> string list \<times> World" where
  "writeDesiredStateForAgents env now [] content w = ([], w)"
| "writeDesiredStateForAgents env now (a # as) content w =
     (let latest = GetLatestConfigForAgent (ag_ID a) (w_store w) in
      if (case latest of None \<Rightarrow> False | Some c \<Rightarrow> Hash (cf_Content c) = Hash content)
      then (let (assigned, w1) = writeDesiredStateForAgents env now as content w in (ag_ID a # assigned, w1))
      else
        let version = (case latest of None \<Rightarrow> 1 | Some c \<Rightarrow> cf_Version c + 1);
            (uuid, w1) = fresh_uuid env w;
            cfg = \<lparr>cf_ID = uuid, cf_Name = [], cf_AgentID = Some (ag_ID a), cf_GroupID = None,
                   cf_ConfigHash = Hash content, cf_Content = content, cf_Version = version,
                   cf_CreatedAt = now, cf_ArchivedAt = None\<rparr>
        in (case svc_CreateConfig cfg (w_store w1) of
              Inl _ \<Rightarrow> writeDesiredStateForAgents env now as content w1
            | Inr s' \<Rightarrow>
                (let (assigned, w2) = writeDesiredStateForAgents env now as content (w1\<lparr>w_store := s'\<rparr>)
                 in (ag_ID a # assigned, w2))))"

definition fleet :: "Env \<Rightarrow> gotime \<Rightarrow> World \<Rightarrow> SAgent list" where
  "fleet env now w = svc_ListAgents (env_driftDiff env) now (w_store w)"

definition applyStage ::
  "Env \<Rightarrow> gotime \<Rightarrow> Rollout \<Rightarrow> int \<Rightarrow> World \<Rightarrow> string list result \<times> Rollout \<times> World" where
  "applyStage env now r stageIdx w =
     (case GetConfig (ro_TargetConfigID r) (w_store w) of
        None \<Rightarrow> (Inl (TargetConfigNotFound (ro_TargetConfigID r)), r, w)
      | Some target \<Rightarrow>
          (case canaryAgentsForStage r stageIdx (fleet env now w) of
             Inl e \<Rightarrow> (Inl e, r, w)
           | Inr canary \<Rightarrow>
               if canary = [] then (Inr [], r, w)
               else
                 let toPush = deltaToPush canary (ro_PushedAgentIDs r);
                     ids = map ag_ID toPush
                 in if env_writeDesiredState env then
                      (let (assigned, w1) = writeDesiredStateForAgents env now toPush (cf_Content target) w;
                           w2 = pokeReconcile env assigned w1;
                           (_, w3) = pushConfigToAgents env toPush (ro_TargetConfigID r) (cf_Content target) w2
                       in (Inr ids,
                           r\<lparr>ro_PushedAgentIDs := unionPushedAgentIDs (ro_PushedAgentIDs r) assigned\<rparr>, w3))
                    else
                      (let (failed, w1) = pushConfigToAgents env toPush (ro_TargetConfigID r) (cf_Content target) w
                       in (Inr ids,
                           r\<lparr>ro_PushedAgentIDs :=
                               unionPushedAgentIDs (ro_PushedAgentIDs r) (subtractIDs ids failed)\<rparr>, w1))))"

definition stageAuditPayload :: "Rollout \<Rightarrow> int \<Rightarrow> string list \<Rightarrow> payload" where
  "stageAuditPayload r stageIdx ids =
     (let stage = ro_Stages r ! nat stageIdx; mode = effective_mode stage
      in [(''stage'', JInt stageIdx), (''mode'', JStr mode), (''canary_size'', JInt (int (length ids))),
          (''agent_ids'', JStrs ids)]
         @ (if mode = RolloutStageModePercent then [(''percentage'', JInt (Percentage stage))]
            else if mode = RolloutStageModeLabel
            then [(''label_selector'', JObj (map (\<lambda>(k, v). (k, JStr v)) (LabelSelector stage)))] else []))"

definition recordStageApplied :: "Env \<Rightarrow> gotime \<Rightarrow> Rollout \<Rightarrow> string list \<Rightarrow> World \<Rightarrow> World" where
  "recordStageApplied env now r ids w =
     (let payload = stageAuditPayload r (ro_CurrentStage r) ids;
          w1 = recordAudit env now r ''rollout.stage_applied'' ''stage_applied'' payload w
      in if ids = [] then recordAudit env now r ''rollout.empty_canary'' ''empty_canary'' payload w1 else w1)"

section \<open>End of life: group config and canary pins\<close>

definition rolloutReachedFullCoverage :: "'a StoredRollout_scheme \<Rightarrow> SAgent list \<Rightarrow> bool" where
  "rolloutReachedFullCoverage r allAgents =
     (let members = filter (\<lambda>a. ag_GroupID a = Some (ro_GroupID r)) allAgents
      in members \<noteq> [] \<and> (\<forall>a \<in> set members. ag_ID a \<in> set (ro_PushedAgentIDs r)))"

definition promoteTargetToGroupConfig :: "Env \<Rightarrow> gotime \<Rightarrow> Rollout \<Rightarrow> World \<Rightarrow> bool \<times> World" where
  "promoteTargetToGroupConfig env now r w =
     (if ro_GroupID r = [] then (True, w)
      else (case GetConfig (ro_TargetConfigID r) (w_store w) of
          None \<Rightarrow> (False, w)
        | Some target \<Rightarrow>
            let targetHash = Hash (cf_Content target);
                latest = GetLatestConfigForGroup (ro_GroupID r) (w_store w)
            in if (case latest of None \<Rightarrow> False | Some c \<Rightarrow> Hash (cf_Content c) = targetHash) then (True, w)
               else
                 let version = (case latest of None \<Rightarrow> 1 | Some c \<Rightarrow> cf_Version c + 1);
                     (uuid, w1) = fresh_uuid env w;
                     cfg = \<lparr>cf_ID = uuid, cf_Name = [], cf_AgentID = None, cf_GroupID = Some (ro_GroupID r),
                            cf_ConfigHash = targetHash, cf_Content = cf_Content target, cf_Version = version,
                            cf_CreatedAt = now, cf_ArchivedAt = None\<rparr>
                 in (case svc_CreateConfig cfg (w_store w1) of
                       Inl _ \<Rightarrow> (False, w1)
                     | Inr s' \<Rightarrow> (True, w1\<lparr>w_store := s'\<rparr>))))"

definition unpin :: "Env \<Rightarrow> string list \<Rightarrow> World \<Rightarrow> World" where
  "unpin env ids w = fold (\<lambda>idStr w. case env_parseUUID env idStr of
       None \<Rightarrow> w
     | Some agentID \<Rightarrow> w\<lparr>w_store := DeleteConfigsForAgent agentID (w_store w)\<rparr>) ids w"

definition finalizeCanaryAssignments :: "Env \<Rightarrow> gotime \<Rightarrow> Rollout \<Rightarrow> bool \<Rightarrow> World \<Rightarrow> World" where
  "finalizeCanaryAssignments env now r promoteTarget w =
     (if \<not> env_writeDesiredState env then w
      else if promoteTarget then
        (if \<not> rolloutReachedFullCoverage r (fleet env now w) then w
         else (case promoteTargetToGroupConfig env now r w of
             (False, w1) \<Rightarrow> w1
           | (True, w1) \<Rightarrow> unpin env (ro_PushedAgentIDs r) w1))
      else unpin env (ro_PushedAgentIDs r) w)"

section \<open>Plans\<close>

definition advancePlan :: "Env \<Rightarrow> gotime \<Rightarrow> Rollout \<Rightarrow> World \<Rightarrow> World" where
  "advancePlan env now r w =
     (case NextPlanStep (ro_PlanID r) (ro_PlanStepIndex r) (w_store w) of
        None \<Rightarrow> recordAudit env now r ''plan.completed'' ''plan_completed''
          [(''plan_id'', JStr (ro_PlanID r)), (''final_step'', JInt (ro_PlanStepIndex r)),
           (''total_steps'', JInt (ro_PlanStepIndex r + 1))] w
      | Some nxt \<Rightarrow>
          if ro_State nxt \<noteq> RolloutStateQueued then w
          else (case persist env now (nxt\<lparr>ro_State := RolloutStatePending\<rparr>) ''promote next plan step'' w of
              (Some _, _, w1) \<Rightarrow> w1
            | (None, nxt1, w1) \<Rightarrow>
                recordAudit env now nxt1 ''plan.step_started'' ''plan_step_started''
                  [(''plan_id'', JStr (ro_PlanID nxt1)), (''plan_step_index'', JInt (ro_PlanStepIndex nxt1)),
                   (''previous_step'', JInt (ro_PlanStepIndex r))] w1))"

definition engine_rollBackPlanPredecessors :: "Env \<Rightarrow> gotime \<Rightarrow> Rollout \<Rightarrow> string \<Rightarrow> World \<Rightarrow> World" where
  "engine_rollBackPlanPredecessors env now r reason w =
     (let (rollbacks, w1) = RollBackPlanPredecessors env now background_ctx (ro_PlanID r) (ro_PlanStepIndex r)
                              ''system:plan_engine'' w
      in if rollbacks = [] then w1
         else recordAudit env now r ''plan.rolled_back'' ''plan_rolled_back''
           [(''plan_id'', JStr (ro_PlanID r)), (''failed_step_index'', JInt (ro_PlanStepIndex r)),
            (''reason'', JStr reason), (''rollback_rollout_ids'', JStrs (map ro_ID rollbacks)),
            (''rollback_count'', JInt (int (length rollbacks)))] w1)"

definition engine_cancelPlanFollowers :: "Env \<Rightarrow> gotime \<Rightarrow> Rollout \<Rightarrow> string \<Rightarrow> World \<Rightarrow> World" where
  "engine_cancelPlanFollowers env now r reason w =
     (case CancelPlanFollowers now (ro_PlanID r) (ro_PlanStepIndex r) (w_store w) of
        (Inl _, s') \<Rightarrow> w\<lparr>w_store := s'\<rparr>
      | (Inr cancelled, s') \<Rightarrow>
          let w1 = w\<lparr>w_store := s'\<rparr> in
          if cancelled = [] then w1
          else
            let w2 = fold (\<lambda>c. recordAudit env now c ''plan.step_cancelled'' ''plan_step_cancelled''
                       [(''plan_id'', JStr (ro_PlanID c)), (''plan_step_index'', JInt (ro_PlanStepIndex c)),
                        (''reason'', JStr reason), (''failed_step_id'', JStr (ro_ID r)),
                        (''failed_step_index'', JInt (ro_PlanStepIndex r))]) cancelled w1
            in recordAudit env now r ''plan.cancelled'' ''plan_cancelled''
                 [(''plan_id'', JStr (ro_PlanID r)), (''failed_step_index'', JInt (ro_PlanStepIndex r)),
                  (''reason'', JStr reason), (''cancelled_count'', JInt (int (length cancelled))),
                  (''cancelled_ids'', JStrs (map ro_ID cancelled))] w2)"

section \<open>Transitions\<close>

definition finish :: "Env \<Rightarrow> gotime \<Rightarrow> Rollout \<Rightarrow> World \<Rightarrow> World" where
  "finish env now r w =
     (case persist env now (r\<lparr>ro_State := RolloutStateSucceeded, ro_CompletedAt := Some now\<rparr>) ''finish'' w of
        (Some _, _, w1) \<Rightarrow> w1
      | (None, r1, w1) \<Rightarrow>
          let w2 = recordAudit env now r1 ''rollout.succeeded'' ''succeeded'' [] w1;
              w3 = (if ro_RolledBackFromID r1 \<noteq> []
                    then recordAudit env now r1 ''rollout.rollback_completed'' ''rollback_completed''
                           [(''rolled_back_from_id'', JStr (ro_RolledBackFromID r1))] w2
                    else w2);
              w4 = publishStateChange env r1 ''succeeded'' w3;
              w5 = finalizeCanaryAssignments env now r1 True w4
          in if ro_PlanID r1 \<noteq> [] then advancePlan env now r1 w5 else w5)"

definition triggerAbort :: "Env \<Rightarrow> gotime \<Rightarrow> Rollout \<Rightarrow> string \<Rightarrow> World \<Rightarrow> World" where
  "triggerAbort env now r reason w =
     (case persist env now (r\<lparr>ro_State := RolloutStateAborted, ro_AbortReason := reason\<rparr>) ''abort'' w of
        (Some _, _, w1) \<Rightarrow> w1
      | (None, r1, w1) \<Rightarrow>
          let w2 = recordAudit env now r1 ''rollout.aborted'' ''aborted'' [(''reason'', JStr reason)] w1;
              w3 = publishStateChange env r1 ''aborted'' w2
          in if ro_PlanID r1 \<noteq> []
             then engine_rollBackPlanPredecessors env now r1 ''predecessor_aborted''
                    (engine_cancelPlanFollowers env now r1 ''predecessor_aborted'' w3)
             else w3)"

definition start :: "Env \<Rightarrow> gotime \<Rightarrow> Rollout \<Rightarrow> World \<Rightarrow> World" where
  "start env now r w =
     (let r0 = r\<lparr>ro_State := RolloutStateInProgress, ro_StageStartedAt := Some now\<rparr> in
      case applyStage env now r0 (ro_CurrentStage r0) w of
        (Inl _, _, w1) \<Rightarrow> w1
      | (Inr ids, r1, w1) \<Rightarrow>
          (case persistWithReconcile env now r1 ''start''
                  (\<lambda>fresh. if ro_State fresh \<noteq> RolloutStatePending then None
                     else Some (fresh\<lparr>ro_State := RolloutStateInProgress, ro_CurrentStage := ro_CurrentStage r1,
                            ro_StageStartedAt := ro_StageStartedAt r1,
                            ro_PushedAgentIDs := ro_PushedAgentIDs r1\<rparr>)) w1 of
             (Some _, _, w2) \<Rightarrow> w2
           | (None, r2, w2) \<Rightarrow>
               publishStateChange env r2 ''stage_applied'' (recordStageApplied env now r2 ids w2)))"

definition advance_stage :: "Env \<Rightarrow> gotime \<Rightarrow> Rollout \<Rightarrow> World \<Rightarrow> World" where
  "advance_stage env now r w =
     (let r0 = r\<lparr>ro_CurrentStage := ro_CurrentStage r + 1, ro_StageStartedAt := Some now\<rparr> in
      case applyStage env now r0 (ro_CurrentStage r0) w of
        (Inl _, _, w1) \<Rightarrow> w1
      | (Inr ids, r1, w1) \<Rightarrow>
          (case persistWithReconcile env now r1 ''advance''
                  (\<lambda>fresh. if ro_State fresh \<noteq> RolloutStateInProgress then None
                     else if ro_CurrentStage fresh \<noteq> ro_CurrentStage r1 - 1 then None
                     else Some (fresh\<lparr>ro_CurrentStage := ro_CurrentStage r1,
                            ro_StageStartedAt := ro_StageStartedAt r1,
                            ro_PushedAgentIDs := ro_PushedAgentIDs r1\<rparr>)) w1 of
             (Some _, _, w2) \<Rightarrow> w2
           | (None, r2, w2) \<Rightarrow>
               publishStateChange env r2 ''stage_applied'' (recordStageApplied env now r2 ids w2)))"

definition advanceOrCheck :: "Env \<Rightarrow> gotime \<Rightarrow> Rollout \<Rightarrow> World \<Rightarrow> World" where
  "advanceOrCheck env now r w =
     (if ro_CurrentStage r \<ge> int (length (ro_Stages r)) then finish env now r w
      else
        let stage = ro_Stages r ! nat (ro_CurrentStage r);
            reason = evaluateAbortCriteria env now r (fleet env now w)
        in if reason \<noteq> [] then triggerAbort env now r reason w
           else if \<not> dwellElapsed now r stage then w
           else (case stageConverged env now r stage (w_store w) of
               (False, detail) \<Rightarrow>
                 if convergenceDeadlineExceeded env now r stage
                 then triggerAbort env now r (''convergence timeout: '' @ detail) w else w
             | (True, _) \<Rightarrow>
                 if ro_CurrentStage r = int (length (ro_Stages r)) - 1 then finish env now r w
                 else advance_stage env now r w))"

text \<open>The deferred epilogue of \<open>rollback\<close> runs on every path; the push itself only when the previous
  config is known and readable.\<close>

definition rollback_push :: "Env \<Rightarrow> gotime \<Rightarrow> Rollout \<Rightarrow> World \<Rightarrow> World" where
  "rollback_push env now r w =
     (if ro_PreviousConfigID r = [] then w
      else (case GetConfig (ro_PreviousConfigID r) (w_store w) of
          None \<Rightarrow> w
        | Some previous \<Rightarrow>
            (case cumulativePushedAgents r (fleet env now w) of
               Inl _ \<Rightarrow> w
             | Inr canary \<Rightarrow>
                 let w1 = (if env_writeDesiredState env
                           then snd (writeDesiredStateForAgents env now canary (cf_Content previous) w) else w)
                 in snd (pushConfigToAgents env canary (ro_PreviousConfigID r) (cf_Content previous) w1))))"

definition rollback :: "Env \<Rightarrow> gotime \<Rightarrow> Rollout \<Rightarrow> World \<Rightarrow> World" where
  "rollback env now r w =
     (let w1 = rollback_push env now r w;
          r0 = r\<lparr>ro_State := RolloutStateRolledBack, ro_CompletedAt := Some now\<rparr>;
          (_, r1, w2) = persistWithReconcile env now r0 ''rolled_back''
            (\<lambda>fresh. if ro_State fresh = RolloutStateRolledBack then None
               else Some (fresh\<lparr>ro_State := RolloutStateRolledBack, ro_CompletedAt := ro_CompletedAt r0\<rparr>)) w1;
          w3 = recordAudit env now r1 ''rollout.rolled_back'' ''rolled_back'' [] w2;
          w4 = publishStateChange env r1 ''rolled_back'' w3
      in finalizeCanaryAssignments env now r1 False w4)"

section \<open>Action steps\<close>

definition actionStepAuditPayload :: "Env \<Rightarrow> Rollout \<Rightarrow> payload \<Rightarrow> payload" where
  "actionStepAuditPayload env r extra =
     fold (\<lambda>(k, v). AList.update k v) extra
       ([(''plan_id'', JStr (ro_PlanID r)), (''plan_step_index'', JInt (ro_PlanStepIndex r)),
         (''step_kind'', JStr StepKindAction)]
        @ (case DecodeActionStepSpec env r of
             Inl _ \<Rightarrow> [] | Inr spec \<Rightarrow> [(''action_type'', JStr (as_ActionType spec))]))"

definition deniedReason :: "string \<Rightarrow> string \<Rightarrow> string" where
  "deniedReason runnerReported fallback = (if runnerReported \<noteq> [] then runnerReported else fallback)"

definition finishActionStep :: "Env \<Rightarrow> gotime \<Rightarrow> Rollout \<Rightarrow> World \<Rightarrow> World" where
  "finishActionStep env now r w =
     (case Persist (r\<lparr>ro_State := RolloutStateSucceeded, ro_CompletedAt := Some now\<rparr>) (w_store w) of
        Inl _ \<Rightarrow> w
      | Inr (r1, s') \<Rightarrow>
          let w1 = publishStateChange env r1 ''action_succeeded'' (w\<lparr>w_store := s'\<rparr>)
          in if ro_PlanID r1 \<noteq> [] then advancePlan env now r1 w1 else w1)"

definition triggerActionStepAbort :: "Env \<Rightarrow> gotime \<Rightarrow> Rollout \<Rightarrow> string \<Rightarrow> bool \<Rightarrow> World \<Rightarrow> World" where
  "triggerActionStepAbort env now r reason engineInitiated w =
     (case Persist (r\<lparr>ro_State := RolloutStateAborted, ro_AbortReason := reason\<rparr>) (w_store w) of
        Inl _ \<Rightarrow> w
      | Inr (r1, s') \<Rightarrow>
          let w1 = recordAudit env now r1 ''rollout.aborted'' ''aborted''
                     [(''reason'', JStr reason), (''plan_id'', JStr (ro_PlanID r1)),
                      (''plan_step_index'', JInt (ro_PlanStepIndex r1)), (''step_kind'', JStr StepKindAction)]
                     (w\<lparr>w_store := s'\<rparr>);
              w2 = (if engineInitiated
                    then recordAudit env now r1 ''action.failed'' ''failed''
                           (actionStepAuditPayload env r1 [(''reason'', JStr reason)]) w1
                    else w1);
              w3 = publishStateChange env r1 ''aborted'' w2;
              w4 = (if ro_ActionRequestID r1 \<noteq> [] \<and> env_dispatcher env \<noteq> None
                    then (case Cancel now (ro_ActionRequestID r1) reason w3 of Inl _ \<Rightarrow> w3 | Inr w' \<Rightarrow> w')
                    else w3)
          in if ro_PlanID r1 \<noteq> []
             then engine_rollBackPlanPredecessors env now r1 reason (engine_cancelPlanFollowers env now r1 reason w4)
             else w4)"

definition dispatchActionStep :: "Env \<Rightarrow> gotime \<Rightarrow> Rollout \<Rightarrow> World \<Rightarrow> World" where
  "dispatchActionStep env now r w =
     (case env_dispatcher env of
        None \<Rightarrow> w
      | Some d \<Rightarrow>
          (case DecodeActionStepSpec env r of
             Inl _ \<Rightarrow> triggerActionStepAbort env now r ''action_spec_decode_failed'' True w
           | Inr spec \<Rightarrow>
               let actor = (if ro_RequestedBy r = [] then ''system:plan_engine'' else ro_RequestedBy r) in
               (case Dispatch env d now background_ctx (ro_PlanID r) (ro_PlanStepIndex r) spec actor w of
                  (Inl _, w1) \<Rightarrow> triggerActionStepAbort env now r ''action_dispatch_failed'' True w1
                | (Inr (requestID, _), w1) \<Rightarrow>
                    (case Persist (r\<lparr>ro_State := RolloutStateInProgress, ro_StageStartedAt := Some now,
                                     ro_ActionRequestID := requestID\<rparr>) (w_store w1) of
                       Inl _ \<Rightarrow> w1
                     | Inr (r1, s') \<Rightarrow> publishStateChange env r1 ''action_dispatched'' (w1\<lparr>w_store := s'\<rparr>)))))"

definition pollActionStep :: "Env \<Rightarrow> gotime \<Rightarrow> Rollout \<Rightarrow> World \<Rightarrow> World" where
  "pollActionStep env now r w =
     (if env_dispatcher env = None then w
      else if ro_ActionRequestID r = [] then w
      else (case GetStatus (ro_ActionRequestID r) w of
          Inl _ \<Rightarrow> w
        | Inr (status, deniedFor, expiresAt) \<Rightarrow>
            if status = ''success'' then finishActionStep env now r w
            else if status = ''failure''
            then triggerActionStepAbort env now r (deniedReason deniedFor ''action_runtime_failure'') False w
            else if status = ''denied''
            then triggerActionStepAbort env now r (deniedReason deniedFor ''action_denied'') False w
            else if \<not> IsZero expiresAt \<and> now > expiresAt
            then triggerActionStepAbort env now r ''action_timeout'' True w
            else w))"

definition finalizeAbortedActionStep :: "Env \<Rightarrow> gotime \<Rightarrow> Rollout \<Rightarrow> World \<Rightarrow> World" where
  "finalizeAbortedActionStep env now r w =
     (case Persist (r\<lparr>ro_State := RolloutStateRolledBack,
                      ro_CompletedAt := (if ro_CompletedAt r = None then Some now else ro_CompletedAt r)\<rparr>)
             (w_store w) of
        Inl _ \<Rightarrow> w
      | Inr (r1, s') \<Rightarrow> publishStateChange env r1 ''action_aborted_finalized'' (w\<lparr>w_store := s'\<rparr>))"

definition processActionStep :: "Env \<Rightarrow> gotime \<Rightarrow> Rollout \<Rightarrow> World \<Rightarrow> World" where
  "processActionStep env now r w =
     (case ro_State r of
        RolloutStatePending \<Rightarrow> dispatchActionStep env now r w
      | RolloutStateInProgress \<Rightarrow> pollActionStep env now r w
      | RolloutStateAborted \<Rightarrow> finalizeAbortedActionStep env now r w
      | _ \<Rightarrow> w)"

section \<open>The tick\<close>

text \<open>Whether a change window blocks the rollout, with the rollout object as the check leaves it.\<close>

definition applyBlackoutCheck :: "Env \<Rightarrow> gotime \<Rightarrow> Rollout \<Rightarrow> World \<Rightarrow> bool \<times> Rollout \<times> World" where
  "applyBlackoutCheck env now r w =
     (case env_windows env of
        None \<Rightarrow> (False, r, w)
      | Some provider \<Rightarrow>
          (case provider (ro_GroupID r) now of
             None \<Rightarrow>
               if ro_LastBlackoutReason r \<noteq> [] then
                 (let (_, r1, w1) = persist env now (r\<lparr>ro_LastBlackoutReason := [], ro_LastBlackoutAt := None\<rparr>)
                                      ''clear blackout reason'' w
                  in (False, r1, w1))
               else (False, r, w)
           | Some active \<Rightarrow>
               (let (_, r1, w1) = persist env now (r\<lparr>ro_LastBlackoutReason := win_Name active,
                                     ro_LastBlackoutAt := Some now\<rparr>) ''persist blackout reason'' w;
                    w2 = (if ro_LastBlackoutReason r \<noteq> win_Name active
                          then recordAudit env now r1 ''rollout.blackout_blocked'' ''blackout_blocked''
                                 [(''window_name'', JStr (win_Name active)),
                                  (''window_timezone'', JStr (win_Timezone active)),
                                  (''window_start'', JStr (win_StartLocal active)),
                                  (''window_end'', JStr (win_EndLocal active))] w1
                          else w1)
                in (True, r1, w2))))"

definition step_rollout :: "Env \<Rightarrow> gotime \<Rightarrow> Rollout \<Rightarrow> World \<Rightarrow> World" where
  "step_rollout env now r w =
     (if ro_StepKind r = StepKindAction then processActionStep env now r w
      else (case ro_State r of
          RolloutStatePending \<Rightarrow> start env now r w
        | RolloutStateInProgress \<Rightarrow> advanceOrCheck env now r w
        | RolloutStateAborted \<Rightarrow> rollback env now r w
        | _ \<Rightarrow> w))"

definition process :: "Env \<Rightarrow> gotime \<Rightarrow> Rollout \<Rightarrow> World \<Rightarrow> World" where
  "process env now r w =
     (if ro_State r = RolloutStatePending \<or> ro_State r = RolloutStateInProgress then
        (case applyBlackoutCheck env now r w of
           (True, _, w1) \<Rightarrow> w1
         | (False, r1, w1) \<Rightarrow> step_rollout env now r1 w1)
      else step_rollout env now r w)"

definition active_states :: "RolloutState list" where
  "active_states = [RolloutStatePending, RolloutStateInProgress, RolloutStateAborted]"

definition tick :: "Env \<Rightarrow> gotime \<Rightarrow> World \<Rightarrow> World" where
  "tick env now w =
     fold (\<lambda>st w. fold (process env now)
              (List_rollouts \<lparr>rf_GroupID = [], rf_State = Some st, rf_Limit = 1000, rf_PlanID = []\<rparr> (w_store w)) w)
       active_states w"

end
