(* ===== verification/Rollout_Lifecycle.thy ===== *)
theory Rollout_Lifecycle
  imports Rollout_Engine
begin

text \<open>
  The life cycle of a rollout as an abstract specification, and the proof that the service's operations
  and the engine implement it.  The specification is a transition diagram on states; a store transition
  \<open>advances\<close> when every row that changes moves along the diagram, keeps the request it was created from
  and gets a higher version, and every new row starts in the state its request demands.
\<close>

section \<open>The diagram\<close>

text \<open>All moves except the approval of a waiting rollout.  The diagram is that of the code: \<open>Abort\<close> leaves every state
  but succeeded and rolled back, so also rejected and cancelled, which the comments of the service call
  terminal.\<close>

inductive move :: "RolloutState \<Rightarrow> RolloutState \<Rightarrow> bool" where
  start_m: "move RolloutStatePending RolloutStateInProgress"
| pause_pending_m: "move RolloutStatePending RolloutStatePaused"
| pause_m: "move RolloutStateInProgress RolloutStatePaused"
| resume_m: "move RolloutStatePaused RolloutStateInProgress"
| succeed_m: "move RolloutStateInProgress RolloutStateSucceeded"
| promote_m: "move RolloutStateQueued RolloutStatePending"
| cancel_m: "move RolloutStateQueued RolloutStateCancelled"
| reject_m: "move RolloutStatePendingApproval RolloutStateRejected"
| abort_m: "s \<noteq> RolloutStateSucceeded \<Longrightarrow> s \<noteq> RolloutStateRolledBack \<Longrightarrow> move s RolloutStateAborted"
| rolled_back_m: "move RolloutStateAborted RolloutStateRolledBack"

inductive_simps move_from [simp]:
  "move RolloutStatePending t" "move RolloutStateInProgress t" "move RolloutStatePaused t"
  "move RolloutStateQueued t" "move RolloutStatePendingApproval t" "move RolloutStateRejected t"
  "move RolloutStateCancelled t" "move RolloutStateAborted t" "move RolloutStateSucceeded t"
  "move RolloutStateRolledBack t"

definition approved_move :: "RolloutState \<Rightarrow> RolloutState \<Rightarrow> bool" where
  "approved_move s t \<longleftrightarrow> move s t \<or> (s = RolloutStatePendingApproval \<and> t = RolloutStatePending)"

abbreviation leads :: "RolloutState \<Rightarrow> RolloutState \<Rightarrow> bool" where "leads \<equiv> move\<^sup>*\<^sup>*"
abbreviation leads_a :: "RolloutState \<Rightarrow> RolloutState \<Rightarrow> bool" where "leads_a \<equiv> approved_move\<^sup>*\<^sup>*"

lemma leads_leads_a: "leads s t \<Longrightarrow> leads_a s t"
  by (rule mono_rtranclp [rule_format, of move]) (auto simp: approved_move_def)

text \<open>Terminal states have no way out, and an aborted rollout can only become rolled back.\<close>

lemma leads_a_closed:
  assumes "leads_a s t" "s \<in> A" "\<And>u v. u \<in> A \<Longrightarrow> approved_move u v \<Longrightarrow> v \<in> A"
  shows "t \<in> A"
  using assms(1,2) by (induction rule: rtranclp_induct) (auto intro: assms(3))

lemma leads_a_terminal:
  "leads_a RolloutStateSucceeded t \<Longrightarrow> t = RolloutStateSucceeded"
  "leads_a RolloutStateRolledBack t \<Longrightarrow> t = RolloutStateRolledBack"
  using leads_a_closed [of _ t "{RolloutStateSucceeded}"] leads_a_closed [of _ t "{RolloutStateRolledBack}"]
  by (auto simp: approved_move_def)

lemma leads_a_aborted: "leads_a RolloutStateAborted t \<Longrightarrow> t = RolloutStateAborted \<or> t = RolloutStateRolledBack"
proof -
  assume l: "leads_a RolloutStateAborted t"
  have "t \<in> {RolloutStateAborted, RolloutStateRolledBack}"
    by (rule leads_a_closed [OF l]) (auto simp: approved_move_def)
  then show ?thesis by simp
qed

text \<open>The states in which a rollout has been let through.\<close>

definition released :: "RolloutState set" where
  "released = {RolloutStatePending, RolloutStateInProgress, RolloutStatePaused, RolloutStateSucceeded}"

lemma leads_released:
  assumes "leads s t" "t \<in> released"
  shows "s \<in> released \<or> s = RolloutStateQueued"
proof -
  have "s \<notin> released \<and> s \<noteq> RolloutStateQueued \<longrightarrow> t \<notin> released \<and> t \<noteq> RolloutStateQueued"
    using assms(1)
  proof (induction rule: rtranclp_induct)
    case (step u v)
    then show ?case by (cases u) (auto simp: released_def)
  qed simp
  then show ?thesis using assms(2) by blast
qed

lemma leads_queued: "leads s RolloutStateQueued \<Longrightarrow> s = RolloutStateQueued"
proof -
  assume "leads s RolloutStateQueued"
  then have "\<exists>t. leads s t \<and> t = RolloutStateQueued" by blast
  moreover have "leads s t \<Longrightarrow> t = RolloutStateQueued \<Longrightarrow> s = RolloutStateQueued" for t
    by (induction rule: rtranclp_induct) (auto elim: move.cases)
  ultimately show ?thesis by blast
qed

section \<open>Store transitions\<close>

definition follower :: "'a StoredRollout_scheme \<Rightarrow> bool" where
  "follower r \<longleftrightarrow> ro_PlanID r \<noteq> [] \<and> ro_PlanStepIndex r > 0"

definition same_request :: "'a StoredRollout_scheme \<Rightarrow> 'b StoredRollout_scheme \<Rightarrow> bool" where
  "same_request a b \<longleftrightarrow> ro_ID a = ro_ID b \<and> ro_GroupID a = ro_GroupID b
     \<and> ro_TargetConfigID a = ro_TargetConfigID b \<and> ro_PreviousConfigID a = ro_PreviousConfigID b
     \<and> ro_Stages a = ro_Stages b \<and> ro_AbortCriteria a = ro_AbortCriteria b
     \<and> ro_RequireApproval a = ro_RequireApproval b \<and> ro_RequiredApprovals a = ro_RequiredApprovals b
     \<and> ro_RequestedBy a = ro_RequestedBy b \<and> follower a = follower b"

lemma same_request_refl [simp]: "same_request a a" by (simp add: same_request_def)

lemma same_request_trans: "same_request a b \<Longrightarrow> same_request b c \<Longrightarrow> same_request a c"
  by (simp add: same_request_def)

lemma same_request_sym: "same_request a b \<Longrightarrow> same_request b a"
  by (simp add: same_request_def)

lemma same_request_storage [simp]:
  "same_request a (toStorageRollout r) = same_request a r" "same_request (toStorageRollout r) a = same_request r a"
  "same_request a (toServiceRollout s) = same_request a s" "same_request (toServiceRollout s) a = same_request s a"
  by (simp_all add: same_request_def follower_def)

definition row_step :: "StoredRollout \<Rightarrow> StoredRollout \<Rightarrow> bool" where
  "row_step old new \<longleftrightarrow> ro_Version old < ro_Version new \<and> same_request old new
     \<and> leads (ro_State old) (ro_State new)"

text \<open>A state a new row may be in: followers of a plan queue, a request that needs approval waits.\<close>

definition initial_for :: "bool \<Rightarrow> bool \<Rightarrow> RolloutState \<Rightarrow> bool" where
  "initial_for needsApproval isFollower s \<longleftrightarrow>
     (if isFollower then s = RolloutStateQueued
      else if needsApproval then s = RolloutStatePendingApproval
      else s = RolloutStatePending)"

definition grown :: "StoredRollout \<Rightarrow> bool" where
  "grown r \<longleftrightarrow> (\<exists>s0. initial_for (ro_RequireApproval r) (follower r) s0 \<and> leads s0 (ro_State r))"

definition advances :: "AppStore \<Rightarrow> AppStore \<Rightarrow> bool" where
  "advances s s' \<longleftrightarrow> rollouts_ok s'
     \<and> (\<forall>i old. GetRollout i s = Some old \<longrightarrow>
          (\<exists>new. GetRollout i s' = Some new \<and> (new = old \<or> row_step old new)))
     \<and> (\<forall>i new. GetRollout i s = None \<longrightarrow> GetRollout i s' = Some new \<longrightarrow> grown new)
     \<and> rolloutApprovals s' = rolloutApprovals s"

lemma row_step_trans: "row_step a b \<Longrightarrow> row_step b c \<Longrightarrow> row_step a c"
  by (auto simp: row_step_def intro: same_request_trans rtranclp_trans)

lemma grown_step: "grown a \<Longrightarrow> row_step a b \<Longrightarrow> grown b"
  unfolding grown_def row_step_def same_request_def by (auto intro: rtranclp_trans)

lemma advances_refl: "rollouts_ok s \<Longrightarrow> advances s s"
  by (simp add: advances_def)

lemma advances_ok: "advances s s' \<Longrightarrow> rollouts_ok s'"
  by (simp add: advances_def)

lemma advances_trans:
  assumes "advances s1 s2" "advances s2 s3"
  shows "advances s1 s3"
  unfolding advances_def
proof (intro conjI allI impI)
  show "rollouts_ok s3" using assms(2) by (simp add: advances_def)
  show "rolloutApprovals s3 = rolloutApprovals s1" using assms by (simp add: advances_def)
next
  fix i old assume "GetRollout i s1 = Some old"
  then obtain mid where mid: "GetRollout i s2 = Some mid" "mid = old \<or> row_step old mid"
    using assms(1) unfolding advances_def by blast
  then obtain new where "GetRollout i s3 = Some new" "new = mid \<or> row_step mid new"
    using assms(2) unfolding advances_def by blast
  with mid(2) show "\<exists>new. GetRollout i s3 = Some new \<and> (new = old \<or> row_step old new)"
    using row_step_trans by blast
next
  fix i new assume n: "GetRollout i s1 = None" "GetRollout i s3 = Some new"
  show "grown new"
  proof (cases "GetRollout i s2")
    case None
    then show ?thesis using assms(2) n(2) unfolding advances_def by blast
  next
    case (Some mid)
    then have "grown mid" using assms(1) n(1) unfolding advances_def by blast
    moreover have "new = mid \<or> row_step mid new" using assms(2) Some n(2) unfolding advances_def by force
    ultimately show ?thesis using grown_step by blast
  qed
qed

text \<open>Changes to other tables are invisible.\<close>

lemma advances_same_rows:
  "rollouts s' = rollouts s \<Longrightarrow> rolloutApprovals s' = rolloutApprovals s \<Longrightarrow> rollouts_ok s \<Longrightarrow> advances s s'"
  by (simp add: advances_def GetRollout_def rollouts_ok_def)

lemma UpdateRollout_rows:
  assumes "UpdateRollout r s = Inr (r', s')"
  obtains stored where "GetRollout (ro_ID r) s = Some stored" "0 < ro_Version r \<longrightarrow> ro_Version r = ro_Version stored"
    "r' = (if 0 < ro_Version r then r\<lparr>ro_Version := ro_Version stored + 1\<rparr> else r)"
    "s' = s\<lparr>rollouts := AList.update (ro_ID r) ((default_row r)\<lparr>ro_Version := ro_Version stored + 1\<rparr>) (rollouts s)\<rparr>"
  using assms unfolding UpdateRollout_def GetRollout_def Let_def
  by (auto split: option.splits if_splits)

lemma UpdateRollout_bump:
  "UpdateRollout r s = Inr (r', s') \<Longrightarrow> 0 < ro_Version r \<Longrightarrow> \<exists>v. r' = r\<lparr>ro_Version := v\<rparr>"
  by (erule UpdateRollout_rows) auto

lemma CreateRollout_present: "CreateRollout r s = Inr s' \<Longrightarrow> \<exists>stored. GetRollout (ro_ID r) s' = Some stored"
  by (auto simp: CreateRollout_def GetRollout_def Let_def split: if_splits)

lemma default_row_same_request [simp]: "same_request a (default_row r) = same_request a r"
  by (simp add: same_request_def follower_def)

lemma advances_UpdateRollout:
  assumes "rollouts_ok s" and u: "UpdateRollout r s = Inr (r', s')"
    and step: "\<And>stored. GetRollout (ro_ID r) s = Some stored \<Longrightarrow>
      (0 < ro_Version r \<longrightarrow> ro_Version r = ro_Version stored) \<Longrightarrow>
      same_request stored r \<and> leads (ro_State stored) (ro_State r)"
  shows "advances s s'"
proof -
  obtain stored where stored: "GetRollout (ro_ID r) s = Some stored"
      "0 < ro_Version r \<longrightarrow> ro_Version r = ro_Version stored"
    and s': "s' = s\<lparr>rollouts := AList.update (ro_ID r) ((default_row r)\<lparr>ro_Version := ro_Version stored + 1\<rparr>) (rollouts s)\<rparr>"
    using UpdateRollout_rows [OF u] by metis
  have "row_step stored ((default_row r)\<lparr>ro_Version := ro_Version stored + 1\<rparr>)"
    using step [OF stored] by (simp add: row_step_def same_request_def follower_def)
  moreover have "rollouts_ok s'" using rollouts_ok_UpdateRollout [OF assms(1) u] .
  ultimately show ?thesis using stored
    by (auto simp: advances_def s' GetRollout_def)
qed

lemma advances_CreateRollout:
  assumes "rollouts_ok s" and "CreateRollout r s = Inr s'" and "0 \<le> ro_Version r"
    and "initial_for (ro_RequireApproval r) (follower r) (ro_State r)"
  shows "advances s s'"
proof -
  define c where "c = (let c = default_row r in if ro_Version c = 0 then c\<lparr>ro_Version := 1\<rparr> else c)"
  have n: "GetRollout (ro_ID r) s = None" and s': "s' = s\<lparr>rollouts := AList.update (ro_ID r) c (rollouts s)\<rparr>"
    using assms(2) by (auto simp: CreateRollout_def GetRollout_def c_def Let_def split: if_splits)
  have "grown c" using assms(4)
    by (auto simp: grown_def c_def Let_def follower_def)
  moreover have "rollouts_ok s'" using rollouts_ok_CreateRollout [OF assms(1,3,2)] .
  ultimately show ?thesis using n by (auto simp: advances_def s' GetRollout_def)
qed


lemma advances_loaded:
  assumes "rollouts_ok s" "GetRollout i s = Some stored" "UpdateRollout r s = Inr (r', s')"
    and "same_request stored r" "leads (ro_State stored) (ro_State r)"
  shows "advances s s'"
proof (rule advances_UpdateRollout [OF assms(1,3)])
  fix stored' assume g: "GetRollout (ro_ID r) s = Some stored'"
  have "ro_ID r = i" using rollouts_ok_get [OF assms(1,2)] assms(4) by (simp add: same_request_def)
  with g assms(2) show "same_request stored' r \<and> leads (ro_State stored') (ro_State r)" using assms(4,5) by simp
qed

section \<open>The operator's operations\<close>

lemma same_request_upd [simp]:
  "same_request a (r\<lparr>ro_State := st\<rparr>) = same_request a r"
  "same_request a (r\<lparr>ro_AbortReason := x\<rparr>) = same_request a r"
  "same_request a (r\<lparr>ro_StageStartedAt := t\<rparr>) = same_request a r"
  "same_request a (r\<lparr>ro_CompletedAt := t\<rparr>) = same_request a r"
  "same_request a (r\<lparr>ro_UpdatedAt := u\<rparr>) = same_request a r"
  "same_request a (r\<lparr>ro_CurrentStage := c\<rparr>) = same_request a r"
  "same_request a (r\<lparr>ro_PushedAgentIDs := ps\<rparr>) = same_request a r"
  "same_request a (r\<lparr>ro_ExcludeFromLearning := b\<rparr>) = same_request a r"
  "same_request a (r\<lparr>ro_ApprovedBy := x\<rparr>) = same_request a r"
  "same_request a (r\<lparr>ro_ApprovedAt := t\<rparr>) = same_request a r"
  "same_request a (r\<lparr>ro_RejectedBy := x\<rparr>) = same_request a r"
  "same_request a (r\<lparr>ro_RejectedAt := t\<rparr>) = same_request a r"
  "same_request a (r\<lparr>ro_ApprovalNotes := x\<rparr>) = same_request a r"
  "same_request a (r\<lparr>ro_LastBlackoutReason := x\<rparr>) = same_request a r"
  "same_request a (r\<lparr>ro_LastBlackoutAt := t\<rparr>) = same_request a r"
  "same_request a (r\<lparr>ro_ActionRequestID := x\<rparr>) = same_request a r"
  "same_request a (r\<lparr>ro_Version := v\<rparr>) = same_request a r"
  "same_request a (r'\<lparr>ro_RolledBackFromID := x\<rparr>) = same_request a r'"
  by (simp_all add: same_request_def follower_def)

lemma leads_move: "move s t \<Longrightarrow> leads s t" by (rule r_into_rtranclp)

text \<open>The shape of every operator operation: load the row, check its state, write the changed row.\<close>

lemma advances_write:
  assumes "rollouts_ok s" "GetRollout i s = Some stored" "same_request stored r"
    "leads (ro_State stored) (ro_State r)"
  shows "advances s (try_write UpdateRollout r s)"
proof (cases "UpdateRollout r s")
  case (Inl e)
  then show ?thesis using assms(1) by (simp add: try_write_def advances_refl)
next
  case (Inr p)
  obtain r1 s1 where p: "p = (r1, s1)" by (cases p)
  have "advances s s1" by (rule advances_loaded [OF assms(1,2) Inr [unfolded p] assms(3,4)])
  then show ?thesis using Inr p by (simp add: try_write_def)
qed

lemma Abort_store:
  "w_store (snd (snd (Abort env now ctx i reason w))) =
     (case GetRollout i (w_store w) of
        None \<Rightarrow> w_store w
      | Some stored \<Rightarrow>
          if ro_State stored = RolloutStateSucceeded \<or> ro_State stored = RolloutStateRolledBack then w_store w
          else try_write UpdateRollout (stored\<lparr>ro_State := RolloutStateAborted,
                 ro_AbortReason := (if reason = [] then ''aborted by operator'' else reason)\<rparr>) (w_store w))"
  by (simp add: Abort_def Let_def try_write_def split: option.split sum.split prod.split)

lemma Abort_advances:
  assumes "rollouts_ok (w_store w)"
  shows "advances (w_store w) (w_store (snd (snd (Abort env now ctx i reason w))))"
  unfolding Abort_store
  by (cases "GetRollout i (w_store w)")
     (auto simp: assms intro!: advances_refl advances_write [OF assms] leads_move abort_m)

lemma Pause_store:
  "w_store (snd (snd (Pause env now ctx i w))) =
     (case GetRollout i (w_store w) of
        None \<Rightarrow> w_store w
      | Some stored \<Rightarrow>
          if ro_State stored = RolloutStateInProgress \<or> ro_State stored = RolloutStatePending
          then try_write UpdateRollout (stored\<lparr>ro_State := RolloutStatePaused\<rparr>) (w_store w) else w_store w)"
  by (auto simp: Pause_def try_write_def split: option.split sum.split prod.split)

lemma Pause_advances:
  assumes "rollouts_ok (w_store w)"
  shows "advances (w_store w) (w_store (snd (snd (Pause env now ctx i w))))"
  unfolding Pause_store
  by (cases "GetRollout i (w_store w)")
     (auto simp: assms intro!: advances_refl advances_write [OF assms] leads_move)

lemma Resume_store:
  "w_store (snd (snd (Resume env now ctx i w))) =
     (case GetRollout i (w_store w) of
        None \<Rightarrow> w_store w
      | Some stored \<Rightarrow>
          if ro_State stored = RolloutStatePaused
          then try_write UpdateRollout (stored\<lparr>ro_State := RolloutStateInProgress, ro_StageStartedAt := Some now\<rparr>)
                 (w_store w)
          else w_store w)"
  by (auto simp: Resume_def try_write_def split: option.split sum.split prod.split)

lemma Resume_advances:
  assumes "rollouts_ok (w_store w)"
  shows "advances (w_store w) (w_store (snd (snd (Resume env now ctx i w))))"
  unfolding Resume_store
  by (cases "GetRollout i (w_store w)")
     (auto simp: assms intro!: advances_refl advances_write [OF assms] leads_move)

lemma SetExcludeFromLearning_store:
  "w_store (snd (snd (SetExcludeFromLearning env now ctx i actor reason excluded w))) =
     (case GetRollout i (w_store w) of
        None \<Rightarrow> w_store w
      | Some stored \<Rightarrow> try_write UpdateRollout (stored\<lparr>ro_ExcludeFromLearning := excluded\<rparr>) (w_store w))"
  by (simp add: SetExcludeFromLearning_def try_write_def split: option.split sum.split prod.split)

lemma SetExcludeFromLearning_advances:
  assumes "rollouts_ok (w_store w)"
  shows "advances (w_store w) (w_store (snd (snd (SetExcludeFromLearning env now ctx i actor reason excluded w))))"
  unfolding SetExcludeFromLearning_store
  by (cases "GetRollout i (w_store w)")
     (auto simp: assms intro!: advances_refl advances_write [OF assms])

section \<open>Creation, rollback and the plan walks\<close>

lemma new_rollout_simps [simp]:
  "ro_ID (new_rollout u now p q b inp) = u" "ro_Version (new_rollout u now p q b inp) = 0"
  "ro_State (new_rollout u now p q b inp) = initial_state inp"
  "ro_RequireApproval (new_rollout u now p q b inp) = in_RequireApproval inp"
  "ro_PlanID (new_rollout u now p q b inp) = in_PlanID inp"
  "ro_PlanStepIndex (new_rollout u now p q b inp) = in_PlanStepIndex inp"
  "ro_GroupID (new_rollout u now p q b inp) = in_GroupID inp"
  "ro_TargetConfigID (new_rollout u now p q b inp) = in_TargetConfigID inp"
  "ro_RequestedBy (new_rollout u now p q b inp) = in_RequestedBy inp"
  "ro_RequiredApprovals (new_rollout u now p q b inp) = q"
  by (simp_all add: new_rollout_def zero_rollout_def)

lemma new_rollout_initial:
  "initial_for (ro_RequireApproval (new_rollout u now p q b inp)) (follower (new_rollout u now p q b inp))
     (ro_State (new_rollout u now p q b inp))"
  by (simp add: initial_for_def follower_def initial_state_def)

text \<open>What \<open>Create\<close> does to the store: nothing, or one new row.\<close>

lemma Create_store:
  obtains (unchanged) "fst (Create env now ctx inp w) = None" "w_store (snd (snd (Create env now ctx inp w))) = w_store w"
  | (created) u p q b inp' where
      "fst (Create env now ctx inp w) = Some (new_rollout u now p q b inp')"
      "fst (snd (Create env now ctx inp w)) = None"
      "CreateRollout (toStorageRollout (new_rollout u now p q b inp')) (w_store w)
         = Inr (w_store (snd (snd (Create env now ctx inp w))))"
      "in_PlanID inp' = in_PlanID inp" "in_PlanStepIndex inp' = in_PlanStepIndex inp"
proof (cases "validateRolloutInput inp = None \<and> GetConfig (in_TargetConfigID inp) (w_store w) \<noteq> None")
  case False
  then show ?thesis by (intro unchanged) (auto simp: Create_def split: option.splits)
next
  case True
  then obtain cfg where v: "validateRolloutInput inp = None" and
      c: "GetConfig (in_TargetConfigID inp) (w_store w) = Some cfg" by auto
  define inp1 where "inp1 = (if enforced_by_policy env inp then inp\<lparr>in_RequireApproval := True\<rparr> else inp)"
  define b where "b = (if in_ProposedBy inp1 = [] then RolloutProposedByOperator else in_ProposedBy inp1)"
  define p where "p = (case GetLatestConfigForGroup (in_GroupID inp) (w_store w) of None \<Rightarrow> [] | Some prev \<Rightarrow> cf_ID prev)"
  define r where "r = new_rollout (env_uuid env (w_uuids w)) now p (required_approvals env inp1) b (default_window inp1)"
  have ws: "w_store (w\<lparr>w_uuids := w_uuids w + 1\<rparr>) = w_store w" by simp
  have C: "Create env now ctx inp w =
      (if b \<notin> {RolloutProposedByOperator, RolloutProposedByAI, RolloutProposedBySystem}
       then fail_with (InvalidProposedBy b) w
       else (case CreateRollout (toStorageRollout r) (w_store w) of
           Inl e \<Rightarrow> fail_with e (w\<lparr>w_uuids := w_uuids w + 1\<rparr>)
         | Inr s' \<Rightarrow> returns r (audit env now ctx
             (rollout_entry AuditActorSystem ''rollout.created'' (ro_ID r) ''created''
                (Some (created_payload env (enforced_by_policy env inp) r s')))
             (w\<lparr>w_uuids := w_uuids w + 1, w_store := s'\<rparr>))))"
    unfolding Create_def Let_def inp1_def [symmetric] b_def [symmetric] p_def [symmetric] fresh_uuid_def r_def
    by (simp only: v c ws option.simps prod.case if_False)
  have keep: "in_PlanID (default_window inp1) = in_PlanID inp" "in_PlanStepIndex (default_window inp1) = in_PlanStepIndex inp"
    by (simp_all add: default_window_def inp1_def)
  show ?thesis
  proof (cases "b \<in> {RolloutProposedByOperator, RolloutProposedByAI, RolloutProposedBySystem}")
    case False
    then show ?thesis by (intro unchanged) (simp_all add: C)
  next
    case True
    show ?thesis
    proof (cases "CreateRollout (toStorageRollout r) (w_store w)")
      case (Inl e)
      then show ?thesis using True by (intro unchanged) (simp_all add: C)
    next
      case (Inr s')
      then show ?thesis using True keep
        by (intro created [of "env_uuid env (w_uuids w)" p "required_approvals env inp1" b "default_window inp1"])
           (simp_all add: C r_def)
    qed
  qed
qed

lemma Create_advances:
  assumes "rollouts_ok (w_store w)"
  shows "advances (w_store w) (w_store (snd (snd (Create env now ctx inp w))))"
proof (cases rule: Create_store [of env now ctx inp w])
  case unchanged
  then show ?thesis using assms by (simp add: advances_refl)
next
  case (created u p q b inp')
  from created(3) show ?thesis
    by (rule advances_CreateRollout [OF assms])
       (use new_rollout_initial [of u now p q b inp'] in \<open>simp_all add: follower_def\<close>)
qed


text \<open>A blind write to a row that was just created and not changed since only adds the link fields.\<close>

lemma advances_stamp:
  assumes "rollouts_ok s" and old: "\<And>stored. GetRollout (ro_ID r) s = Some stored \<Longrightarrow>
      same_request stored r \<and> ro_State stored = ro_State r"
  shows "advances s (try_write UpdateRollout r s)"
proof (cases "UpdateRollout r s")
  case (Inl e)
  then show ?thesis using assms(1) by (simp add: try_write_def advances_refl)
next
  case (Inr p)
  obtain r1 s1 where p: "p = (r1, s1)" by (cases p)
  have "advances s s1"
    using old by (intro advances_UpdateRollout [OF assms(1) Inr [unfolded p]]) auto
  then show ?thesis using Inr p by (simp add: try_write_def)
qed

lemma CreateRollout_row:
  assumes "CreateRollout (toStorageRollout r) s = Inr s'" "GetRollout (ro_ID r) s' = Some stored"
  shows "same_request stored r \<and> ro_State stored = ro_State r"
  using assms by (auto simp: CreateRollout_def GetRollout_def Let_def same_request_def follower_def split: if_splits)

lemma Create_returned:
  assumes "Create env now ctx inp w = (Some r, None, w')" "GetRollout (ro_ID r) (w_store w') = Some stored"
  shows "same_request stored r \<and> ro_State stored = ro_State r \<and> ro_PlanID r = in_PlanID inp
    \<and> ro_PlanStepIndex r = in_PlanStepIndex inp"
proof (cases rule: Create_store [of env now ctx inp w])
  case unchanged
  then show ?thesis using assms by simp
next
  case (created u p q b inp')
  then show ?thesis using assms CreateRollout_row [of r "w_store w" "w_store w'" stored] by simp
qed

lemma RollBack_store:
  obtains (unchanged) "w_store (snd (snd (RollBack env now ctx i op w))) = w_store w"
      "fst (RollBack env now ctx i op w) = None"
  | (no_link) inp where "w_store (snd (snd (RollBack env now ctx i op w))) = w_store (snd (snd (Create env now ctx inp w)))"
      "fst (RollBack env now ctx i op w) = None"
  | (linked) inp r w1 x where "Create env now ctx inp w = (Some r, None, w1)" "in_PlanID inp = []"
      "w_store (snd (snd (RollBack env now ctx i op w)))
         = try_write UpdateRollout (toStorageRollout (r\<lparr>ro_RolledBackFromID := x\<rparr>)) (w_store w1)"
      "fst (RollBack env now ctx i op w) = None \<or> fst (RollBack env now ctx i op w) = Some (r\<lparr>ro_RolledBackFromID := x\<rparr>)"
proof (cases "GetRollout i (w_store w)")
  case None
  then show ?thesis by (intro unchanged) (simp_all add: RollBack_def)
next
  case (Some source)
  define inp where "inp = rollback_input source (ro_RequireApproval source \<or>
    (case GetGroup (ro_GroupID source) (w_store w) of None \<Rightarrow> False | Some g \<Rightarrow> gr_RequireApprovalForRollback g)) op"
  have pl: "in_PlanID inp = []" by (simp add: inp_def rollback_input_def)
  show ?thesis
  proof (cases "ro_State source \<in> {RolloutStateSucceeded, RolloutStateAborted, RolloutStateRolledBack}
      \<and> ro_PreviousConfigID source \<noteq> []")
    case False
    then show ?thesis using Some by (intro unchanged) (auto simp: RollBack_def)
  next
    case True
    obtain res err w1 where C: "Create env now ctx inp w = (res, err, w1)" by (metis prod_cases3)
    show ?thesis
    proof (cases "\<exists>r. res = Some r \<and> err = None")
      case False
      then show ?thesis using Some True C
        by (intro no_link [of inp]; cases res; cases err) (auto simp: RollBack_def Let_def simp flip: inp_def)
    next
      case t: True
      then obtain r where r: "Create env now ctx inp w = (Some r, None, w1)" using C by blast
      show ?thesis using Some True r pl
        by (intro linked [of inp r w1 "ro_ID source"])
           (auto simp: RollBack_def Let_def try_write_def simp flip: inp_def split: sum.split)
    qed
  qed
qed

lemma RollBack_advances:
  assumes "rollouts_ok (w_store w)"
  shows "advances (w_store w) (w_store (snd (snd (RollBack env now ctx i op w))))"
proof (cases rule: RollBack_store [of env now ctx i op w])
  case unchanged
  then show ?thesis using assms by (simp add: advances_refl)
next
  case (no_link inp)
  then show ?thesis using Create_advances [OF assms] by simp
next
  case (linked inp r w1 x)
  have a: "advances (w_store w) (w_store w1)" using Create_advances [OF assms, of env now ctx inp] linked(1) by simp
  have "advances (w_store w1) (try_write UpdateRollout (toStorageRollout (r\<lparr>ro_RolledBackFromID := x\<rparr>)) (w_store w1))"
    using Create_returned [OF linked(1)]
    by (intro advances_stamp [OF advances_ok [OF a]]) (auto simp: same_request_def follower_def)
  with a linked(3) show ?thesis by (simp add: advances_trans)
qed


section \<open>Rollout objects a handler holds\<close>

text \<open>A loaded object may be stale; it stays usable because equal versions mean equal states and the row
  can only have moved on along the diagram.\<close>

definition snap_ok :: "'a StoredRollout_scheme \<Rightarrow> AppStore \<Rightarrow> bool" where
  "snap_ok r s \<longleftrightarrow> (\<exists>stored. GetRollout (ro_ID r) s = Some stored \<and> 0 < ro_Version r
     \<and> ro_Version r \<le> ro_Version stored \<and> (ro_Version stored = ro_Version r \<longrightarrow> ro_State stored = ro_State r)
     \<and> leads_a (ro_State r) (ro_State stored) \<and> same_request stored r)"

lemma snap_ok_advances:
  assumes "snap_ok r s" "advances s s'"
  shows "snap_ok r s'"
proof -
  obtain stored where st: "GetRollout (ro_ID r) s = Some stored" "0 < ro_Version r"
      "ro_Version r \<le> ro_Version stored" "ro_Version stored = ro_Version r \<longrightarrow> ro_State stored = ro_State r"
      "leads_a (ro_State r) (ro_State stored)" "same_request stored r"
    using assms(1) unfolding snap_ok_def by blast
  then obtain new where new: "GetRollout (ro_ID r) s' = Some new" "new = stored \<or> row_step stored new"
    using assms(2) unfolding advances_def by blast
  show ?thesis
  proof (cases "new = stored")
    case True
    then show ?thesis using st new(1) unfolding snap_ok_def by blast
  next
    case False
    then have step: "ro_Version stored < ro_Version new" "same_request stored new" "leads (ro_State stored) (ro_State new)"
      using new(2) by (auto simp: row_step_def)
    have "leads_a (ro_State r) (ro_State new)" using st(5) leads_leads_a [OF step(3)] by (rule rtranclp_trans)
    moreover have "same_request new r" using same_request_trans [OF same_request_sym [OF step(2)] st(6)] .
    ultimately show ?thesis using new(1) st(2,3) step(1) unfolding snap_ok_def by auto
  qed
qed

lemma snap_ok_pos: "snap_ok r s \<Longrightarrow> 0 < ro_Version r"
  by (auto simp: snap_ok_def)

lemma populateApproverCount_simps [simp]:
  "ro_ID (populateApproverCount s r) = ro_ID r" "ro_State (populateApproverCount s r) = ro_State r"
  "ro_Version (populateApproverCount s r) = ro_Version r" "ro_CurrentStage (populateApproverCount s r) = ro_CurrentStage r"
  by (simp_all add: populateApproverCount_def)

lemma snap_ok_get: "rollouts_ok s \<Longrightarrow> GetRollout i s = Some r \<Longrightarrow> snap_ok r s"
  using rollouts_ok_get [of s i r] by (auto simp: snap_ok_def)

lemma snap_ok_service [simp]:
  "snap_ok (toServiceRollout r) s = snap_ok r s" "snap_ok (populateApproverCount s1 r') s = snap_ok r' s"
  by (simp_all add: snap_ok_def populateApproverCount_def same_request_def follower_def)

lemma ListRollouts_rows:
  assumes "rollouts_ok s" "r \<in> set (ListRollouts f s)"
  shows "GetRollout (ro_ID r) s = Some r"
proof -
  have "r \<in> snd ` set (rollouts s)"
    using assms(2) by (auto simp: ListRollouts_def Let_def dest!: in_set_takeD)
  then obtain i where "(i, r) \<in> set (rollouts s)" by auto
  then show ?thesis using assms(1) by (auto simp: rollouts_ok_def GetRollout_def intro!: map_of_is_SomeI)
qed

lemma snap_ok_list: "rollouts_ok s \<Longrightarrow> r \<in> set (ListRollouts f s) \<Longrightarrow> snap_ok r s"
  using ListRollouts_rows snap_ok_get by blast

lemma Get_snap: "rollouts_ok s \<Longrightarrow> Get i s = Some r \<Longrightarrow> snap_ok r s \<and> ro_ID r = i"
  using rollouts_ok_get [of s i] by (auto simp: Get_def snap_ok_get)

lemma NextPlanStep_snap: "rollouts_ok s \<Longrightarrow> NextPlanStep p k s = Some r \<Longrightarrow> snap_ok r s"
  by (auto simp: NextPlanStep_def find_Some_iff split: if_splits intro!: snap_ok_list [OF _ nth_mem])

text \<open>A versioned write based on a held object.\<close>

lemma advances_cas:
  assumes "rollouts_ok s" "snap_ok r s" "UpdateRollout q s = Inr (q', s')"
    and "ro_Version q = ro_Version r" "same_request r q" "leads (ro_State r) (ro_State q)"
  shows "advances s s'"
proof (rule advances_UpdateRollout [OF assms(1,3)])
  fix stored assume g: "GetRollout (ro_ID q) s = Some stored" "0 < ro_Version q \<longrightarrow> ro_Version q = ro_Version stored"
  have "ro_ID q = ro_ID r" using assms(5) by (simp add: same_request_def)
  then have "ro_State stored = ro_State r" "same_request stored r"
    using assms(2,4) g by (auto simp: snap_ok_def)
  then show "same_request stored q \<and> leads (ro_State stored) (ro_State q)"
    using assms(5,6) same_request_trans by auto
qed

lemma cas_snap:
  assumes "rollouts_ok s" "snap_ok r s" "UpdateRollout q s = Inr (q', s')"
    and "ro_Version q = ro_Version r" "same_request r q"
  shows "snap_ok q' s' \<and> same_request r q' \<and> ro_State q' = ro_State q"
proof -
  have pos: "0 < ro_Version q" using snap_ok_pos [OF assms(2)] assms(4) by simp
  obtain stored where "q' = q\<lparr>ro_Version := ro_Version stored + 1\<rparr>"
    and s': "s' = s\<lparr>rollouts := AList.update (ro_ID q) ((default_row q)\<lparr>ro_Version := ro_Version stored + 1\<rparr>) (rollouts s)\<rparr>"
    and st: "GetRollout (ro_ID q) s = Some stored"
    using UpdateRollout_rows [OF assms(3)] pos by metis
  moreover have "0 < ro_Version stored" using rollouts_ok_get [OF assms(1) st] by simp
  ultimately show ?thesis using assms(5)
    by (auto simp: snap_ok_def GetRollout_def same_request_def follower_def)
qed

lemma Persist_advances:
  assumes "rollouts_ok s" "snap_ok r s" "Persist q s = Inr (q', s')"
    and "ro_Version q = ro_Version r" "same_request r q" "leads (ro_State r) (ro_State q)"
  shows "advances s s' \<and> snap_ok q' s' \<and> same_request r q' \<and> ro_State q' = ro_State q"
proof -
  obtain st where u: "UpdateRollout (toStorageRollout q) s = Inr (st, s')" and q': "q' = q\<lparr>ro_Version := ro_Version st\<rparr>"
    using assms(3) by (auto simp: Persist_def split: sum.splits)
  have a: "advances s s'" using advances_cas [OF assms(1,2) u] assms(4-6) by simp
  have c: "snap_ok st s'" using cas_snap [OF assms(1,2) u] assms(4,5) by simp
  obtain v where "st = (toStorageRollout q)\<lparr>ro_Version := v\<rparr>"
    using UpdateRollout_bump [OF u] snap_ok_pos [OF assms(2)] assms(4) by auto
  then have "ro_ID st = ro_ID q" "same_request st q" "ro_State st = ro_State q" "ro_Version st = v"
    by (simp_all add: same_request_def follower_def)
  then have "snap_ok q' s'" using c same_request_trans unfolding snap_ok_def q' by (auto simp: same_request_def follower_def)
  then show ?thesis using a assms(5) q' by simp
qed


section \<open>Plan walks and plan creation\<close>

lemma cancel_walk_advances:
  assumes "rollouts_ok s" "\<forall>r \<in> set rs. snap_ok r s"
  shows "advances s (snd (cancel_walk now planID k rs s out))"
  using assms
proof (induction now planID k rs s out rule: cancel_walk.induct)
  case (2 now planID k r rs s out)
  define q where "q = r\<lparr>ro_State := RolloutStateCancelled, ro_UpdatedAt := now, ro_CompletedAt := Some now\<rparr>"
  show ?case
  proof (cases "ro_PlanID r \<noteq> planID \<or> ro_PlanStepIndex r \<le> k \<or> ro_State r \<noteq> RolloutStateQueued")
    case True
    then show ?thesis using 2 by auto
  next
    case False
    show ?thesis
    proof (cases "UpdateRollout q s")
      case (Inl e)
      then show ?thesis using False 2(4) by (simp add: q_def advances_refl)
    next
      case (Inr p)
      obtain r' s' where p: "p = (r', s')" by (cases p)
      have a: "advances s s'"
        using False 2(5) by (intro advances_cas [OF 2(4) _ Inr [unfolded p]]) (auto simp: q_def intro!: leads_move)
      have "advances s' (snd (cancel_walk now planID k rs s' (out @ [toServiceRollout r'])))"
        using False Inr p 2(5) snap_ok_advances [OF _ a] advances_ok [OF a] by (intro 2(3)) (auto simp: q_def)
      then show ?thesis using False Inr p a by (simp add: q_def advances_trans)
    qed
  qed
qed (simp add: advances_refl)

lemma CancelPlanFollowers_advances:
  "rollouts_ok s \<Longrightarrow> advances s (snd (CancelPlanFollowers now planID k s))"
  by (auto simp: CancelPlanFollowers_def advances_refl intro!: cancel_walk_advances snap_ok_list)

lemma fold_audit_store [simp]: "w_store (fold (\<lambda>c. audit env now ctx (f c)) cs w) = w_store w"
  by (induction cs arbitrary: w) simp_all

lemma Reject_advances:
  assumes "rollouts_ok (w_store w)"
  shows "advances (w_store w) (w_store (snd (snd (Reject env now ctx i rejecter notes w))))"
proof (cases "GetRollout i (w_store w)")
  case None
  then show ?thesis using assms by (simp add: Reject_def advances_refl)
next
  case (Some stored)
  define r where "r = stored\<lparr>ro_State := RolloutStateRejected, ro_RejectedBy := rejecter,
    ro_RejectedAt := Some now, ro_ApprovalNotes := notes, ro_CompletedAt := Some now\<rparr>"
  show ?thesis
  proof (cases "ro_State stored \<noteq> RolloutStatePendingApproval
      \<or> EqualFold env (TrimSpace rejecter) (TrimSpace (ro_RequestedBy stored))")
    case True
    then show ?thesis using assms Some by (auto simp: Reject_def advances_refl)
  next
    case False
    show ?thesis
    proof (cases "UpdateRollout r (w_store w)")
      case (Inl e)
      then show ?thesis using assms Some False by (simp add: Reject_def r_def advances_refl)
    next
      case (Inr p)
      obtain r' s' where p: "p = (r', s')" by (cases p)
      have a: "advances (w_store w) s'"
        using False by (intro advances_loaded [OF assms Some Inr [unfolded p]]) (auto simp: r_def intro!: leads_move)
      have "w_store (snd (snd (Reject env now ctx i rejecter notes w))) =
          (if ro_PlanID r' = [] then s' else snd (CancelPlanFollowers now (ro_PlanID r') (ro_PlanStepIndex r') s'))"
        using Some False Inr p by (auto simp: Reject_def r_def Let_def split: prod.split sum.split)
      then show ?thesis using a advances_trans [OF a CancelPlanFollowers_advances [OF advances_ok [OF a]]] by simp
    qed
  qed
qed

lemma try_write_row:
  assumes "GetRollout (ro_ID r) s = Some stored" "same_request stored r" "ro_State stored = ro_State r"
    and "GetRollout (ro_ID r) (try_write UpdateRollout r s) = Some stored'"
  shows "same_request stored' r \<and> ro_State stored' = ro_State r"
proof (cases "UpdateRollout r s")
  case (Inl e)
  then show ?thesis using assms by (simp add: try_write_def)
next
  case (Inr p)
  obtain r1 s1 where p: "p = (r1, s1)" by (cases p)
  from UpdateRollout_rows [OF Inr [unfolded p]] obtain v where
    "s1 = s\<lparr>rollouts := AList.update (ro_ID r) ((default_row r)\<lparr>ro_Version := v\<rparr>) (rollouts s)\<rparr>" by blast
  then show ?thesis using assms(4) Inr p
    by (auto simp: try_write_def GetRollout_def same_request_def follower_def)
qed

lemma Create_row:
  assumes "Create env now ctx inp w = (Some r, None, w')"
  shows "\<exists>stored. GetRollout (ro_ID r) (w_store w') = Some stored"
proof (cases rule: Create_store [of env now ctx inp w])
  case unchanged
  then show ?thesis using assms by simp
next
  case (created u p q b inp')
  then show ?thesis using assms CreateRollout_present [OF created(3)] by simp
qed

lemma RollBack_returned:
  assumes "RollBack env now ctx i op w = (Some rb, err, w')" "GetRollout (ro_ID rb) (w_store w') = Some stored"
  shows "same_request stored rb \<and> ro_State stored = ro_State rb \<and> ro_PlanID rb = [] "
proof (cases rule: RollBack_store [of env now ctx i op w])
  case unchanged
  then show ?thesis using assms by simp
next
  case (no_link inp)
  then show ?thesis using assms by simp
next
  case (linked inp r w1 x)
  have rb: "rb = r\<lparr>ro_RolledBackFromID := x\<rparr>" using linked(4) assms(1) by simp
  obtain st where st: "GetRollout (ro_ID r) (w_store w1) = Some st" using Create_row [OF linked(1)] by blast
  note cr = Create_returned [OF linked(1) st]
  have "GetRollout (ro_ID (toStorageRollout rb)) (try_write UpdateRollout (toStorageRollout rb) (w_store w1)) = Some stored"
    using linked(3) assms rb by simp
  from try_write_row [OF _ _ _ this, of st] st cr rb linked(2) show ?thesis by simp
qed

lemma rollback_walk_advances:
  assumes "rollouts_ok (w_store w)" "0 \<le> i"
  shows "advances (w_store w) (w_store (snd (rollback_walk env now ctx planID op i steps w)))"
  using assms
proof (induction steps arbitrary: i w)
  case (Cons step steps)
  obtain stepID idx where step: "step = (stepID, idx)" by (cases step)
  obtain res err w1 where R: "RollBack env now ctx stepID op w = (res, err, w1)" by (metis prod_cases3)
  have a: "advances (w_store w) (w_store w1)"
    using RollBack_advances [OF Cons.prems(1), of env now ctx stepID op] R by simp
  have rest: "advances (w_store w1) (w_store (snd (rollback_walk env now ctx planID op (i + 1) steps w1)))"
    using Cons.IH [of w1 "i + 1"] Cons.prems(2) advances_ok [OF a] by simp
  show ?case
  proof (cases "\<exists>rb. res = Some rb \<and> err = None")
    case False
    then have "rollback_walk env now ctx planID op i (step # steps) w
        = rollback_walk env now ctx planID op (i + 1) steps w1"
      using R step by (cases res; cases err) auto
    then show ?thesis using advances_trans [OF a rest] by simp
  next
    case True
    then obtain rb where rb: "res = Some rb" "err = None" by blast
    define q where "q = rb\<lparr>ro_PlanID := planID, ro_PlanStepIndex := - (i + 1)\<rparr>"
    define s' where "s' = try_write UpdateRollout (toStorageRollout q) (w_store w1)"
    have "advances (w_store w1) s'" unfolding s'_def
    proof (rule advances_stamp [OF advances_ok [OF a]])
      fix stored assume "GetRollout (ro_ID (toStorageRollout q)) (w_store w1) = Some stored"
      then have "same_request stored rb \<and> ro_State stored = ro_State rb \<and> ro_PlanID rb = []"
        using RollBack_returned [of env now ctx stepID op w rb err w1 stored] R rb by (simp add: q_def)
      then show "same_request stored (toStorageRollout q) \<and> ro_State stored = ro_State (toStorageRollout q)"
        using Cons.prems(2) by (simp add: q_def same_request_def follower_def)
    qed
    note b = advances_trans [OF a this]
    show ?thesis
    proof (cases "UpdateRollout (toStorageRollout q) (w_store w1)")
      case (Inl e)
      then show ?thesis using R rb step advances_trans [OF a rest] by (simp add: q_def)
    next
      case (Inr p)
      obtain q' s1 where p: "p = (q', s1)" by (cases p)
      have s1: "s1 = s'" using Inr p by (simp add: s'_def try_write_def)
      have "advances s' (w_store (snd (rollback_walk env now ctx planID op (i + 1) steps (w1\<lparr>w_store := s'\<rparr>))))"
        using Cons.IH [of "w1\<lparr>w_store := s'\<rparr>" "i + 1"] Cons.prems(2) advances_ok [OF b] by simp
      from advances_trans [OF b this] show ?thesis
        using R rb Inr p s1 step by (simp add: q_def Let_def case_prod_beta)
    qed
  qed
qed (simp add: advances_refl)

lemma RollBackPlanPredecessors_advances:
  "rollouts_ok (w_store w) \<Longrightarrow>
   advances (w_store w) (w_store (snd (RollBackPlanPredecessors env now ctx planID k op w)))"
  by (simp add: RollBackPlanPredecessors_def advances_refl rollback_walk_advances)

text \<open>Plan creation: each step is one new row; a failure cancels the rows written before it.\<close>

lemma svc_CreateConfig_rows:
  "svc_CreateConfig c s = Inr s' \<Longrightarrow> rollouts s' = rollouts s \<and> rolloutApprovals s' = rolloutApprovals s"
  by (auto simp: svc_CreateConfig_def store_CreateConfig_def Let_def split: if_splits)

lemma action_row_simps [simp]:
  "ro_Version (action_row u now inp b p k) = 0" "ro_PlanID (action_row u now inp b p k) = p"
  "ro_PlanStepIndex (action_row u now inp b p k) = k"
  "ro_RequireApproval (action_row u now inp b p k) = (in_RequireApproval inp \<and> k = 0)"
  "ro_State (action_row u now inp b p k) = (if k > 0 then RolloutStateQueued
     else if in_RequireApproval inp then RolloutStatePendingApproval else RolloutStatePending)"
  by (simp_all add: action_row_def zero_rollout_def)

lemma createActionStep_store:
  "w_store (snd (snd (createActionStep env now inp planID k w))) =
     (case Option.bind (in_Action inp) (\<lambda>act. env_marshalSpec env (stored_spec act)) of
        None \<Rightarrow> w_store w
      | Some blob \<Rightarrow>
          (case CreateRollout (toStorageRollout (action_row (env_uuid env (w_uuids w)) now inp blob planID k)) (w_store w) of
             Inl e \<Rightarrow> w_store w | Inr s' \<Rightarrow> s'))"
  by (simp add: createActionStep_def Let_def fresh_uuid_def split: option.split sum.split)

lemma createActionStep_advances:
  assumes "rollouts_ok (w_store w)" "planID \<noteq> []" "0 \<le> k"
  shows "advances (w_store w) (w_store (snd (snd (createActionStep env now inp planID k w))))"
proof -
  have "initial_for (ro_RequireApproval r) (follower r) (ro_State r)"
    if "r = toStorageRollout (action_row u now inp blob planID k)" for r u blob
    using assms(2,3) that by (simp add: initial_for_def follower_def)
  then show ?thesis
    using advances_CreateRollout [OF assms(1)] advances_refl [OF assms(1)]
    by (simp add: createActionStep_store split: option.split sum.split)
qed

lemma materialize_rows:
  "w_store (snd (snd (materializePlanStepConfig env now ctx step planID k g w))) = s' \<Longrightarrow>
   rollouts s' = rollouts (w_store w) \<and> rolloutApprovals s' = rolloutApprovals (w_store w)"
  by (auto simp: materializePlanStepConfig_def Let_def fresh_uuid_def dest: svc_CreateConfig_rows
      split: if_splits option.splits sum.splits)

lemma create_step_advances:
  assumes "rollouts_ok (w_store w)" "planID \<noteq> []" "0 \<le> k"
  shows "advances (w_store w) (w_store (snd (snd (create_step env now ctx planID g k step w))))"
proof (cases "step_kind step = StepKindAction")
  case True
  then show ?thesis using createActionStep_advances [OF assms, of env now step]
    by (auto simp: create_step_def split: prod.splits option.splits)
next
  case False
  define m where "m = (if TrimSpace (in_InlineConfigSnippet step) \<noteq> []
    then materializePlanStepConfig env now ctx step planID k g w else returns step w)"
  obtain res err w1 where M: "m = (res, err, w1)" by (metis prod_cases3)
  have a: "advances (w_store w) (w_store w1)"
    using M materialize_rows [of env now ctx step planID k g w] assms(1)
    by (intro advances_same_rows) (auto simp: m_def split: if_splits)
  have c: "create_step env now ctx planID g k step w =
     (case m of
           (Some step', None, w1) \<Rightarrow>
             (case Create env now ctx step' w1 of
                (r, Some e, w2) \<Rightarrow> fail_with (PlanStepFailed k e) w2
              | (r, None, w2) \<Rightarrow> (r, None, w2))
         | (_, e, w1) \<Rightarrow> (None, e, w1))"
    using False by (simp only: create_step_def m_def if_False)
  show ?thesis
  proof (cases "\<exists>st. res = Some st \<and> err = None")
    case False
    then show ?thesis using a M by (cases res; cases err) (auto simp: c)
  next
    case True
    then obtain st where "res = Some st" "err = None" by blast
    then show ?thesis
      using M advances_trans [OF a Create_advances [OF advances_ok [OF a], of env now ctx st]]
      by (auto simp: c split: prod.splits option.splits)
  qed
qed

lemma create_steps_advances:
  assumes "rollouts_ok (w_store w)" "planID \<noteq> []" "0 \<le> k"
  shows "advances (w_store w) (w_store (snd (snd (create_steps env now ctx planID g k steps created w))))"
  using assms(1,3)
proof (induction steps arbitrary: k created w)
  case Nil
  then show ?case by (simp add: advances_refl)
next
  case (Cons step steps)
  obtain res err w1 where C: "create_step env now ctx planID g k (plan_step planID k step) w = (res, err, w1)"
    by (metis prod_cases3)
  have a: "advances (w_store w) (w_store w1)"
    using create_step_advances [OF Cons.prems(1) assms(2) Cons.prems(2), of env now ctx g "plan_step planID k step"] C by simp
  have cl: "advances (w_store w1) (w_store (cleanup_plan now planID created w1))"
    using advances_ok [OF a] by (simp add: cleanup_plan_def advances_refl CancelPlanFollowers_advances)
  show ?case
  proof (cases "\<exists>r. res = Some r \<and> err = None")
    case True
    then show ?thesis using C Cons.prems(2) advances_trans [OF a Cons.IH [OF advances_ok [OF a]]] by auto
  next
    case False
    then show ?thesis using C advances_trans [OF a cl] by (cases res; cases err) auto
  qed
qed

lemma CreatePlan_advances:
  assumes "rollouts_ok (w_store w)" "env_uuid env (w_uuids w) \<noteq> []"
  shows "advances (w_store w) (w_store (snd (snd (CreatePlan env now ctx steps w))))"
proof (cases "steps = [] \<or> TrimSpace (in_GroupID (hd steps)) = []
    \<or> group_mismatch (TrimSpace (in_GroupID (hd steps))) 1 (tl steps) \<noteq> None \<or> preflight 0 steps \<noteq> None")
  case True
  then show ?thesis using assms(1) by (auto simp: CreatePlan_def Let_def advances_refl split: option.split)
next
  case False
  define w1 where "w1 = w\<lparr>w_uuids := w_uuids w + 1\<rparr>"
  define planID where "planID = env_uuid env (w_uuids w)"
  have "rollouts_ok (w_store w1)" "planID \<noteq> []" using assms by (simp_all add: w1_def planID_def)
  note a = create_steps_advances [OF this order_refl, of env now ctx "TrimSpace (in_GroupID (hd steps))" steps "[]"]
  obtain res err w2 where C: "create_steps env now ctx planID (TrimSpace (in_GroupID (hd steps))) 0 steps [] w1
      = (res, err, w2)" by (metis prod_cases3)
  have "w_store (snd (snd (CreatePlan env now ctx steps w))) = w_store w2"
    using False C by (cases res; cases err) (auto simp: CreatePlan_def Let_def fresh_uuid_def w1_def planID_def)
  then show ?thesis using a C by (simp add: w1_def)
qed

end
