(* ===== verification/Engine_Lifecycle.thy ===== *)
theory Engine_Lifecycle
  imports Rollout_Lifecycle
begin

text \<open>
  The engine keeps to the life cycle: whatever object a tick works on, however stale, processing it moves
  the stored rows only along the diagram of \<open>Rollout_Lifecycle\<close>.
\<close>

section \<open>What leaves the rollout table alone\<close>

definition same_rows :: "World \<Rightarrow> World \<Rightarrow> bool" where
  "same_rows w w' \<longleftrightarrow> rollouts (w_store w') = rollouts (w_store w)
     \<and> rolloutApprovals (w_store w') = rolloutApprovals (w_store w)"

lemma same_rows_refl [simp]: "same_rows w w"
  by (simp add: same_rows_def)

lemma same_rows_trans: "same_rows w1 w2 \<Longrightarrow> same_rows w2 w3 \<Longrightarrow> same_rows w1 w3"
  by (simp add: same_rows_def)

lemma same_rows_advances: "same_rows w w' \<Longrightarrow> rollouts_ok (w_store w) \<Longrightarrow> advances (w_store w) (w_store w')"
  by (simp add: same_rows_def advances_same_rows)

lemma same_rows_snap: "same_rows w w' \<Longrightarrow> snap_ok r (w_store w') = snap_ok r (w_store w)"
  by (simp add: same_rows_def snap_ok_def GetRollout_def)

lemma bookkeeping_store [simp]:
  "w_store (recordAudit env now r t a p w) = w_store w" "w_store (publishStateChange env r t w) = w_store w"
  "w_store (noteConflict w) = w_store w" "w_store (noteRetry w) = w_store w"
  "w_store (noteYield env now r a x w) = w_store w" "w_store (pokeReconcile env ids w) = w_store w"
  "w_store (recordStageApplied env now r ids w) = w_store w"
  by (simp_all add: recordAudit_def publishStateChange_def noteConflict_def noteRetry_def noteYield_def
      pokeReconcile_def recordStageApplied_def Let_def)

lemma pushConfigToAgents_store [simp]: "w_store (snd (pushConfigToAgents env as c x w)) = w_store w"
  by (induction as arbitrary: w) (simp_all add: Let_def case_prod_beta)

lemma writeDesiredState_rows: "same_rows w (snd (writeDesiredStateForAgents env now as content w))"
proof (induction as arbitrary: w)
  case (Cons a as)
  define w1 where "w1 = w\<lparr>w_uuids := w_uuids w + 1\<rparr>"
  have w1: "w_store w1 = w_store w" by (simp add: w1_def)
  have step: "same_rows w (snd (writeDesiredStateForAgents env now as content w'))" if "same_rows w w'" for w'
    using same_rows_trans [OF that Cons.IH] .
  have "same_rows w (w1\<lparr>w_store := s'\<rparr>)" if "svc_CreateConfig c (w_store w1) = Inr s'" for c s'
    using svc_CreateConfig_rows [OF that] by (simp add: same_rows_def w1)
  moreover have "same_rows w w1" by (simp add: same_rows_def w1)
  ultimately show ?case using step Cons.IH [of w]
    by (auto simp: Let_def fresh_uuid_def case_prod_beta w1_def split: sum.split option.split)
qed simp

lemma promote_rows: "same_rows w (snd (promoteTargetToGroupConfig env now r w))"
  by (auto simp: promoteTargetToGroupConfig_def Let_def fresh_uuid_def same_rows_def
      dest: svc_CreateConfig_rows split: option.split sum.split)

lemma unpin_rows: "same_rows w (unpin env ids w)"
proof (induction ids arbitrary: w)
  case (Cons i ids)
  have "same_rows w (case env_parseUUID env i of None \<Rightarrow> w
      | Some agentID \<Rightarrow> w\<lparr>w_store := DeleteConfigsForAgent agentID (w_store w)\<rparr>)"
    by (simp add: same_rows_def DeleteConfigsForAgent_def split: option.split)
  from same_rows_trans [OF this Cons.IH] show ?case by (simp add: unpin_def)
qed (simp add: unpin_def)

lemma finalize_rows: "same_rows w (finalizeCanaryAssignments env now r b w)"
proof -
  obtain ok w1 where P: "promoteTargetToGroupConfig env now r w = (ok, w1)" by (cases "promoteTargetToGroupConfig env now r w")
  have w1: "same_rows w w1" using promote_rows [of w env now r] P by simp
  show ?thesis
    using w1 same_rows_trans [OF w1 unpin_rows] unpin_rows [of w]
    by (simp add: finalizeCanaryAssignments_def P split: bool.split)
qed

lemma CreateActionRequest_store: "CreateActionRequest q w = Inr w' \<Longrightarrow> w_store w' = w_store w"
  by (auto simp: CreateActionRequest_def split: if_splits)

lemma Dispatch_store [simp]: "w_store (snd (Dispatch env d now ctx p k spec actor w)) = w_store w"
proof -
  have frame: "w_store (w\<lparr>w_uuids := n\<rparr>) = w_store w" for n by simp
  show ?thesis
    unfolding Dispatch_def Let_def fresh_uuid_def prod.case
    by (simp only: snd_conv audit_frame(1) frame split: option.split sum.split)
       (auto simp only: simp_thms snd_conv audit_frame(1) frame dest: CreateActionRequest_store)
qed

lemma Cancel_store: "Cancel now i reason w = Inr w' \<Longrightarrow> w_store w' = w_store w"
  by (auto simp: Cancel_def UpdateActionRequest_def split: if_splits option.splits)

lemma applyStage_facts:
  assumes "applyStage env now r k w = (res, r', w')"
  shows "same_rows w w' \<and> same_request r r' \<and> ro_State r' = ro_State r \<and> ro_Version r' = ro_Version r"
proof (cases "GetConfig (ro_TargetConfigID r) (w_store w)")
  case None
  then show ?thesis using assms by (auto simp: applyStage_def)
next
  case (Some target)
  show ?thesis
  proof (cases "canaryAgentsForStage r k (fleet env now w)")
    case (Inl e)
    then show ?thesis using assms Some by (auto simp: applyStage_def)
  next
    case (Inr canary)
    define toPush where "toPush = deltaToPush canary (ro_PushedAgentIDs r)"
    have d: "same_rows w (snd (writeDesiredStateForAgents env now toPush (cf_Content target) w))"
      by (rule writeDesiredState_rows)
    have "same_rows v (snd (pushConfigToAgents env toPush c x (pokeReconcile env ids v)))"
      "same_rows v (snd (pushConfigToAgents env toPush c x v))" for v c x ids
      by (simp_all add: same_rows_def)
    then show ?thesis using assms Some Inr same_rows_trans [OF d]
      by (auto simp: applyStage_def Let_def case_prod_beta simp flip: toPush_def split: if_splits)
  qed
qed

section \<open>Persisting\<close>

lemma snap_ok_cong:
  "snap_ok r s \<Longrightarrow> ro_Version q = ro_Version r \<Longrightarrow> ro_State q = ro_State r \<Longrightarrow> same_request r q \<Longrightarrow> snap_ok q s"
  unfolding snap_ok_def same_request_def by metis

lemma persist_facts:
  assumes "rollouts_ok (w_store w)" "snap_ok r (w_store w)" "persist env now q a w = (err, q', w')"
    and "ro_Version q = ro_Version r" "same_request r q" "leads (ro_State r) (ro_State q)"
  shows "advances (w_store w) (w_store w')" "same_request r q'" "ro_State q' = ro_State q"
    "err = None \<Longrightarrow> snap_ok q' (w_store w')" "err \<noteq> None \<Longrightarrow> q' = q \<and> w_store w' = w_store w"
proof -
  have "advances (w_store w) (w_store w') \<and> same_request r q' \<and> ro_State q' = ro_State q
    \<and> (err = None \<longrightarrow> snap_ok q' (w_store w')) \<and> (err \<noteq> None \<longrightarrow> q' = q \<and> w_store w' = w_store w)"
  proof (cases "Persist q (w_store w)")
    case (Inl e)
    then show ?thesis using assms by (auto simp: persist_def advances_refl)
  next
    case (Inr p)
    obtain q1 s1 where p: "p = (q1, s1)" by (cases p)
    show ?thesis using Persist_advances [OF assms(1,2) Inr [unfolded p] assms(4-6)] assms(3) Inr p
      by (auto simp: persist_def)
  qed
  then show "advances (w_store w) (w_store w')" "same_request r q'" "ro_State q' = ro_State q"
    "err = None \<Longrightarrow> snap_ok q' (w_store w')" "err \<noteq> None \<Longrightarrow> q' = q \<and> w_store w' = w_store w" by blast+
qed

lemma Get_fresh:
  assumes "rollouts_ok s" "snap_ok r s" "Get (ro_ID r) s = Some fresh"
  shows "snap_ok fresh s" "leads_a (ro_State r) (ro_State fresh)" "same_request r fresh"
proof -
  show "snap_ok fresh s" using Get_snap [OF assms(1,3)] by simp
  obtain stored where "GetRollout (ro_ID r) s = Some stored" "leads_a (ro_State r) (ro_State stored)"
      "same_request stored r"
    using assms(2) unfolding snap_ok_def by blast
  then have "fresh = populateApproverCount s (toServiceRollout stored)" "leads_a (ro_State r) (ro_State stored)"
      "same_request r stored"
    using assms(3) by (auto simp: Get_def same_request_sym)
  then show "leads_a (ro_State r) (ro_State fresh)" "same_request r fresh"
    by (auto simp: populateApproverCount_def same_request_def follower_def)
qed

text \<open>The reconciling write: the reapplied change, too, is a move from the state of the fresh row.\<close>

lemma persistWithReconcile_advances:
  assumes ok: "rollouts_ok (w_store w)" "snap_ok r (w_store w)"
    and q: "ro_Version q = ro_Version r" "same_request r q" "leads (ro_State r) (ro_State q)"
    and re: "\<And>fresh f1. leads_a (ro_State r) (ro_State fresh) \<Longrightarrow> reapply fresh = Some f1 \<Longrightarrow>
      ro_Version f1 = ro_Version fresh \<and> same_request fresh f1 \<and> leads (ro_State fresh) (ro_State f1)"
  shows "advances (w_store w) (w_store (snd (snd (persistWithReconcile env now q a reapply w))))"
proof (cases "Persist q (w_store w)")
  case (Inr p)
  obtain q1 s1 where p: "p = (q1, s1)" by (cases p)
  show ?thesis using Persist_advances [OF ok Inr [unfolded p] q] Inr p by (simp add: persistWithReconcile_def)
next
  case (Inl e)
  have i: "ro_ID q = ro_ID r" using q(2) by (simp add: same_request_def)
  show ?thesis
  proof (cases "e = ErrRolloutConflict \<and> (\<exists>fresh f1 p. Get (ro_ID r) (w_store w) = Some fresh
      \<and> reapply fresh = Some f1 \<and> Persist f1 (w_store w) = Inr p)")
    case False
    then have "w_store (snd (snd (persistWithReconcile env now q a reapply w))) = w_store w"
      using Inl i by (auto simp: persistWithReconcile_def Let_def split: option.split sum.split)
    then show ?thesis using ok by (simp add: advances_refl)
  next
    case True
    then obtain fresh f1 f2 s1 where f: "Get (ro_ID r) (w_store w) = Some fresh" "reapply fresh = Some f1"
      "Persist f1 (w_store w) = Inr (f2, s1)" "e = ErrRolloutConflict" by auto
    note g = Get_fresh [OF ok f(1)]
    have "advances (w_store w) s1"
      using Persist_advances [OF ok(1) g(1) f(3)] re [OF g(2) f(2)] by simp
    then show ?thesis using Inl i f by (simp add: persistWithReconcile_def Let_def)
  qed
qed

section \<open>Plans\<close>

lemma advancePlan_advances:
  assumes "rollouts_ok (w_store w)"
  shows "advances (w_store w) (w_store (advancePlan env now r w))"
proof (cases "NextPlanStep (ro_PlanID r) (ro_PlanStepIndex r) (w_store w)")
  case None
  then show ?thesis using assms by (simp add: advancePlan_def advances_refl)
next
  case (Some nxt)
  note snap = NextPlanStep_snap [OF assms Some]
  show ?thesis
  proof (cases "ro_State nxt = RolloutStateQueued")
    case False
    then show ?thesis using assms Some by (simp add: advancePlan_def advances_refl)
  next
    case True
    obtain err q' w' where P: "persist env now (nxt\<lparr>ro_State := RolloutStatePending\<rparr>) ''promote next plan step'' w = (err, q', w')"
      by (metis prod_cases3)
    have "advances (w_store w) (w_store w')"
      by (rule persist_facts(1) [OF assms snap P]) (auto simp: True intro!: leads_move)
    then show ?thesis using Some True P by (simp add: advancePlan_def split: option.split)
  qed
qed

lemma fold_recordAudit_store [simp]:
  "w_store (fold (\<lambda>c. recordAudit env now c t a (f c)) cs w) = w_store w"
  by (induction cs arbitrary: w) simp_all

lemma engine_plan_walks_advance:
  assumes "rollouts_ok (w_store w)"
  shows "advances (w_store w) (w_store (engine_cancelPlanFollowers env now r reason w))"
    "advances (w_store w) (w_store (engine_rollBackPlanPredecessors env now r reason w))"
proof -
  obtain res s' where C: "CancelPlanFollowers now (ro_PlanID r) (ro_PlanStepIndex r) (w_store w) = (res, s')"
    by (cases "CancelPlanFollowers now (ro_PlanID r) (ro_PlanStepIndex r) (w_store w)")
  have "advances (w_store w) s'"
    using CancelPlanFollowers_advances [OF assms, of now "ro_PlanID r" "ro_PlanStepIndex r"] C by simp
  moreover have "w_store (engine_cancelPlanFollowers env now r reason w) = s'"
    by (simp add: engine_cancelPlanFollowers_def C Let_def split: sum.split)
  ultimately show "advances (w_store w) (w_store (engine_cancelPlanFollowers env now r reason w))" by simp
  show "advances (w_store w) (w_store (engine_rollBackPlanPredecessors env now r reason w))"
    using RollBackPlanPredecessors_advances [OF assms, of env now background_ctx "ro_PlanID r" "ro_PlanStepIndex r"]
    by (simp add: engine_rollBackPlanPredecessors_def Let_def case_prod_beta)
qed

lemma abort_walks_advance:
  assumes "rollouts_ok (w_store w)"
  shows "advances (w_store w)
    (w_store (engine_rollBackPlanPredecessors env now r x (engine_cancelPlanFollowers env now r y w)))"
  using advances_trans [OF engine_plan_walks_advance(1) [OF assms]
      engine_plan_walks_advance(2) [OF advances_ok [OF engine_plan_walks_advance(1) [OF assms]]]] .

section \<open>Transitions\<close>

lemma finish_success:
  assumes "persist env now (r\<lparr>ro_State := RolloutStateSucceeded, ro_CompletedAt := Some now\<rparr>) ''finish'' w = (None, r1, w1)"
  obtains w4 where "w_store w4 = w_store w1" "finish env now r w =
      (if ro_PlanID r1 \<noteq> [] then advancePlan env now r1 (finalizeCanaryAssignments env now r1 True w4)
       else finalizeCanaryAssignments env now r1 True w4)"
proof
  define w4 where "w4 = publishStateChange env r1 ''succeeded''
    (if ro_RolledBackFromID r1 \<noteq> []
     then recordAudit env now r1 ''rollout.rollback_completed'' ''rollback_completed''
            [(''rolled_back_from_id'', JStr (ro_RolledBackFromID r1))]
            (recordAudit env now r1 ''rollout.succeeded'' ''succeeded'' [] w1)
     else recordAudit env now r1 ''rollout.succeeded'' ''succeeded'' [] w1)"
  show "w_store w4 = w_store w1" by (simp add: w4_def)
  show "finish env now r w =
      (if ro_PlanID r1 \<noteq> [] then advancePlan env now r1 (finalizeCanaryAssignments env now r1 True w4)
       else finalizeCanaryAssignments env now r1 True w4)"
    unfolding finish_def assms w4_def Let_def by simp
qed

lemma finish_advances:
  assumes "rollouts_ok (w_store w)" "snap_ok r (w_store w)" "ro_State r = RolloutStateInProgress"
  shows "advances (w_store w) (w_store (finish env now r w))"
proof -
  obtain err r1 w1 where P: "persist env now (r\<lparr>ro_State := RolloutStateSucceeded, ro_CompletedAt := Some now\<rparr>) ''finish'' w
      = (err, r1, w1)" by (metis prod_cases3)
  have a: "advances (w_store w) (w_store w1)"
    by (rule persist_facts(1) [OF assms(1,2) P]) (auto simp: assms(3) intro!: leads_move)
  show ?thesis
  proof (cases err)
    case (Some e)
    then show ?thesis using a P by (simp add: finish_def)
  next
    case None
    obtain w4 where w4: "w_store w4 = w_store w1" "finish env now r w =
        (if ro_PlanID r1 \<noteq> [] then advancePlan env now r1 (finalizeCanaryAssignments env now r1 True w4)
         else finalizeCanaryAssignments env now r1 True w4)"
      using finish_success [OF P [unfolded None]] by blast
    have b: "advances (w_store w1) (w_store (finalizeCanaryAssignments env now r1 True w4))"
      using same_rows_advances [OF finalize_rows, of w4 env now r1 True] advances_ok [OF a] by (simp add: w4)
    show ?thesis
      using advances_trans [OF a b] advances_trans [OF advances_trans [OF a b] advancePlan_advances [OF advances_ok [OF b]]]
      by (simp add: w4(2))
  qed
qed

lemma triggerAbort_advances:
  assumes "rollouts_ok (w_store w)" "snap_ok r (w_store w)"
    "ro_State r \<noteq> RolloutStateSucceeded" "ro_State r \<noteq> RolloutStateRolledBack"
  shows "advances (w_store w) (w_store (triggerAbort env now r reason w))"
proof -
  obtain err r1 w1 where P: "persist env now (r\<lparr>ro_State := RolloutStateAborted, ro_AbortReason := reason\<rparr>) ''abort'' w
      = (err, r1, w1)" by (metis prod_cases3)
  have a: "advances (w_store w) (w_store w1)"
    by (rule persist_facts(1) [OF assms(1,2) P]) (auto intro!: leads_move abort_m simp: assms(3,4))
  define w3 where "w3 = publishStateChange env r1 ''aborted''
    (recordAudit env now r1 ''rollout.aborted'' ''aborted'' [(''reason'', JStr reason)] w1)"
  have w3: "w_store w3 = w_store w1" by (simp add: w3_def)
  have b: "advances (w_store w) (w_store w3)" using a by (simp add: w3)
  show ?thesis
    using a b advances_trans [OF b abort_walks_advance [OF advances_ok [OF b]]]
    by (auto simp: triggerAbort_def P Let_def simp flip: w3_def split: option.split)
qed

lemma start_advances:
  assumes "rollouts_ok (w_store w)" "snap_ok r (w_store w)" "ro_State r = RolloutStatePending"
  shows "advances (w_store w) (w_store (start env now r w))"
proof -
  define r0 where "r0 = r\<lparr>ro_State := RolloutStateInProgress, ro_StageStartedAt := Some now\<rparr>"
  obtain res r1 w1 where S: "applyStage env now r0 (ro_CurrentStage r0) w = (res, r1, w1)" by (metis prod_cases3)
  have f: "same_rows w w1" "same_request r r1" "ro_State r1 = RolloutStateInProgress" "ro_Version r1 = ro_Version r"
    using applyStage_facts [OF S] same_request_trans [of r r0 r1] by (auto simp: r0_def)
  have a: "advances (w_store w) (w_store w1)" using same_rows_advances [OF f(1) assms(1)] .
  define re :: "Rollout \<Rightarrow> Rollout option" where "re = (\<lambda>fresh. if ro_State fresh \<noteq> RolloutStatePending then None
    else Some (fresh\<lparr>ro_State := RolloutStateInProgress, ro_CurrentStage := ro_CurrentStage r1,
                     ro_StageStartedAt := ro_StageStartedAt r1, ro_PushedAgentIDs := ro_PushedAgentIDs r1\<rparr>))"
  have "advances (w_store w1) (w_store (snd (snd (persistWithReconcile env now r1 ''start'' re w1))))"
    using assms(2,3) f
    by (intro persistWithReconcile_advances [OF advances_ok [OF a], of r])
       (auto simp: re_def same_rows_snap split: if_splits intro!: leads_move)
  note b = advances_trans [OF a this]
  have "w_store (start env now r w) = (case res of Inl _ \<Rightarrow> w_store w1
      | Inr _ \<Rightarrow> w_store (snd (snd (persistWithReconcile env now r1 ''start'' re w1))))"
    unfolding start_def r0_def [symmetric] Let_def S re_def [symmetric] prod.case
    by (simp add: case_prod_beta split: sum.split option.split)
  then show ?thesis using a b by (simp split: sum.split)
qed

lemma advance_stage_advances:
  assumes "rollouts_ok (w_store w)" "snap_ok r (w_store w)" "ro_State r = RolloutStateInProgress"
  shows "advances (w_store w) (w_store (advance_stage env now r w))"
proof -
  define r0 where "r0 = r\<lparr>ro_CurrentStage := ro_CurrentStage r + 1, ro_StageStartedAt := Some now\<rparr>"
  obtain res r1 w1 where S: "applyStage env now r0 (ro_CurrentStage r0) w = (res, r1, w1)" by (metis prod_cases3)
  have f: "same_rows w w1" "same_request r r1" "ro_State r1 = RolloutStateInProgress" "ro_Version r1 = ro_Version r"
    using applyStage_facts [OF S] same_request_trans [of r r0 r1] assms(3) by (auto simp: r0_def)
  have a: "advances (w_store w) (w_store w1)" using same_rows_advances [OF f(1) assms(1)] .
  define re :: "Rollout \<Rightarrow> Rollout option" where "re = (\<lambda>fresh. if ro_State fresh \<noteq> RolloutStateInProgress then None
    else if ro_CurrentStage fresh \<noteq> ro_CurrentStage r1 - 1 then None
    else Some (fresh\<lparr>ro_CurrentStage := ro_CurrentStage r1, ro_StageStartedAt := ro_StageStartedAt r1,
                     ro_PushedAgentIDs := ro_PushedAgentIDs r1\<rparr>))"
  have "advances (w_store w1) (w_store (snd (snd (persistWithReconcile env now r1 ''advance'' re w1))))"
    using assms(2,3) f
    by (intro persistWithReconcile_advances [OF advances_ok [OF a], of r])
       (auto simp: re_def same_rows_snap split: if_splits)
  note b = advances_trans [OF a this]
  have "w_store (advance_stage env now r w) = (case res of Inl _ \<Rightarrow> w_store w1
      | Inr _ \<Rightarrow> w_store (snd (snd (persistWithReconcile env now r1 ''advance'' re w1))))"
    unfolding advance_stage_def r0_def [symmetric] Let_def S re_def [symmetric] prod.case
    by (simp add: case_prod_beta split: sum.split option.split)
  then show ?thesis using a b by (simp split: sum.split)
qed

lemma advanceOrCheck_advances:
  assumes "rollouts_ok (w_store w)" "snap_ok r (w_store w)" "ro_State r = RolloutStateInProgress"
  shows "advances (w_store w) (w_store (advanceOrCheck env now r w))"
  using assms
  by (simp add: advanceOrCheck_def Let_def case_prod_beta finish_advances triggerAbort_advances
      advance_stage_advances advances_refl split: bool.split)

lemma rollback_push_rows: "same_rows w (rollback_push env now r w)"
proof -
  have "same_rows w (snd (pushConfigToAgents env c i x v))" if "same_rows w v" for c i x v
    using that by (simp add: same_rows_def)
  then show ?thesis using writeDesiredState_rows [of w env now]
    by (simp add: rollback_push_def Let_def split: option.split sum.split)
qed

lemma rollback_advances:
  assumes "rollouts_ok (w_store w)" "snap_ok r (w_store w)" "ro_State r = RolloutStateAborted"
  shows "advances (w_store w) (w_store (rollback env now r w))"
proof -
  define w1 where "w1 = rollback_push env now r w"
  have rows: "same_rows w w1" by (simp add: w1_def rollback_push_rows)
  have a: "advances (w_store w) (w_store w1)" using same_rows_advances [OF rows assms(1)] .
  define r0 where "r0 = r\<lparr>ro_State := RolloutStateRolledBack, ro_CompletedAt := Some now\<rparr>"
  define re :: "Rollout \<Rightarrow> Rollout option" where
    "re = (\<lambda>fresh. if ro_State fresh = RolloutStateRolledBack then None
       else Some (fresh\<lparr>ro_State := RolloutStateRolledBack, ro_CompletedAt := ro_CompletedAt r0\<rparr>))"
  obtain err r1 w2 where P: "persistWithReconcile env now r0 ''rolled_back'' re w1 = (err, r1, w2)"
    by (metis prod_cases3)
  have "advances (w_store w1) (w_store (snd (snd (persistWithReconcile env now r0 ''rolled_back'' re w1))))"
    using assms(2,3) rows
    by (intro persistWithReconcile_advances [OF advances_ok [OF a], of r])
       (auto simp: re_def r0_def same_rows_snap split: if_splits dest!: leads_a_aborted intro!: leads_move)
  then have b: "advances (w_store w) (w_store w2)" using advances_trans [OF a] P by simp
  define w4 where "w4 = publishStateChange env r1 ''rolled_back''
    (recordAudit env now r1 ''rollout.rolled_back'' ''rolled_back'' [] w2)"
  have w4: "w_store w4 = w_store w2" by (simp add: w4_def)
  have "rollback env now r w = finalizeCanaryAssignments env now r1 False w4"
    unfolding rollback_def w1_def [symmetric] Let_def r0_def [symmetric] re_def [symmetric] P w4_def by simp
  then show ?thesis
    using advances_trans [OF b] same_rows_advances [OF finalize_rows, of w4] advances_ok [OF b] by (simp add: w4)
qed

section \<open>Action steps\<close>

text \<open>The action-step handlers write through \<open>Persist\<close> without the conflict bookkeeping.\<close>

lemma Persist_world:
  assumes "rollouts_ok (w_store w)" "snap_ok r (w_store w)"
    and "ro_Version q = ro_Version r" "same_request r q" "leads (ro_State r) (ro_State q)"
    and "\<And>q1 s1. Persist q (w_store w) = Inr (q1, s1) \<Longrightarrow> advances (w_store w) s1 \<Longrightarrow> advances s1 (w_store (k q1 s1))"
  shows "advances (w_store w) (w_store (case Persist q (w_store w) of Inl _ \<Rightarrow> w | Inr (q1, s1) \<Rightarrow> k q1 s1))"
proof (cases "Persist q (w_store w)")
  case (Inl e)
  then show ?thesis using assms(1) by (simp add: advances_refl)
next
  case (Inr p)
  obtain q1 s1 where p: "p = (q1, s1)" by (cases p)
  have a: "advances (w_store w) s1" using Persist_advances [OF assms(1,2) Inr [unfolded p] assms(3-5)] by simp
  show ?thesis using advances_trans [OF a assms(6) [OF Inr [unfolded p] a]] Inr p by simp
qed

lemma finishActionStep_advances:
  assumes "rollouts_ok (w_store w)" "snap_ok r (w_store w)" "ro_State r = RolloutStateInProgress"
  shows "advances (w_store w) (w_store (finishActionStep env now r w))"
  unfolding finishActionStep_def
proof (rule Persist_world [OF assms(1,2)])
  fix q1 s1 assume "advances (w_store w) s1"
  then have ok: "rollouts_ok s1" by (rule advances_ok)
  then show "advances s1 (w_store (let w1 = publishStateChange env q1 ''action_succeeded'' (w\<lparr>w_store := s1\<rparr>)
      in if ro_PlanID q1 \<noteq> [] then advancePlan env now q1 w1 else w1))"
    using advancePlan_advances [of "publishStateChange env q1 ''action_succeeded'' (w\<lparr>w_store := s1\<rparr>)" env now q1]
    by (simp add: Let_def advances_refl)
qed (auto simp: assms(3) intro!: leads_move)

lemma triggerActionStepAbort_advances:
  assumes "rollouts_ok (w_store w)" "snap_ok r (w_store w)"
    "ro_State r \<noteq> RolloutStateSucceeded" "ro_State r \<noteq> RolloutStateRolledBack"
  shows "advances (w_store w) (w_store (triggerActionStepAbort env now r reason eng w))"
  unfolding triggerActionStepAbort_def
proof (rule Persist_world [OF assms(1,2)])
  fix r1 s1 assume "advances (w_store w) s1"
  then have ok: "rollouts_ok s1" by (rule advances_ok)
  define w3 where "w3 = publishStateChange env r1 ''aborted''
    (if eng then recordAudit env now r1 ''action.failed'' ''failed'' (actionStepAuditPayload env r1 [(''reason'', JStr reason)])
       (recordAudit env now r1 ''rollout.aborted'' ''aborted''
         [(''reason'', JStr reason), (''plan_id'', JStr (ro_PlanID r1)),
          (''plan_step_index'', JInt (ro_PlanStepIndex r1)), (''step_kind'', JStr StepKindAction)] (w\<lparr>w_store := s1\<rparr>))
     else recordAudit env now r1 ''rollout.aborted'' ''aborted''
         [(''reason'', JStr reason), (''plan_id'', JStr (ro_PlanID r1)),
          (''plan_step_index'', JInt (ro_PlanStepIndex r1)), (''step_kind'', JStr StepKindAction)] (w\<lparr>w_store := s1\<rparr>))"
  define w4 where "w4 = (if ro_ActionRequestID r1 \<noteq> [] \<and> env_dispatcher env \<noteq> None
    then (case Cancel now (ro_ActionRequestID r1) reason w3 of Inl _ \<Rightarrow> w3 | Inr w' \<Rightarrow> w') else w3)"
  have w3: "w_store w3 = s1" by (simp add: w3_def)
  have w4: "w_store w4 = s1" using w3 Cancel_store [of now "ro_ActionRequestID r1" reason w3]
    by (auto simp: w4_def split: sum.split)
  have "advances s1 (w_store (if ro_PlanID r1 \<noteq> []
      then engine_rollBackPlanPredecessors env now r1 reason (engine_cancelPlanFollowers env now r1 reason w4) else w4))"
    using abort_walks_advance [of w4] ok by (simp add: w4 advances_refl)
  then show "advances s1 (w_store
      (let w1 = recordAudit env now r1 ''rollout.aborted'' ''aborted''
                     [(''reason'', JStr reason), (''plan_id'', JStr (ro_PlanID r1)),
                      (''plan_step_index'', JInt (ro_PlanStepIndex r1)), (''step_kind'', JStr StepKindAction)]
                     (w\<lparr>w_store := s1\<rparr>);
              w2 = (if eng
                    then recordAudit env now r1 ''action.failed'' ''failed''
                           (actionStepAuditPayload env r1 [(''reason'', JStr reason)]) w1
                    else w1);
              w3 = publishStateChange env r1 ''aborted'' w2;
              w4 = (if ro_ActionRequestID r1 \<noteq> [] \<and> env_dispatcher env \<noteq> None
                    then (case Cancel now (ro_ActionRequestID r1) reason w3 of Inl _ \<Rightarrow> w3 | Inr w' \<Rightarrow> w')
                    else w3)
          in if ro_PlanID r1 \<noteq> []
             then engine_rollBackPlanPredecessors env now r1 reason (engine_cancelPlanFollowers env now r1 reason w4)
             else w4))"
    unfolding Let_def w4_def w3_def .
qed (auto intro!: leads_move abort_m simp: assms(3,4))

lemma finalizeAbortedActionStep_advances:
  assumes "rollouts_ok (w_store w)" "snap_ok r (w_store w)" "ro_State r = RolloutStateAborted"
  shows "advances (w_store w) (w_store (finalizeAbortedActionStep env now r w))"
  unfolding finalizeAbortedActionStep_def
  by (rule Persist_world [OF assms(1,2)]) (auto simp: assms(3) advances_refl advances_ok intro!: leads_move)

lemma dispatchActionStep_advances:
  assumes "rollouts_ok (w_store w)" "snap_ok r (w_store w)" "ro_State r = RolloutStatePending"
  shows "advances (w_store w) (w_store (dispatchActionStep env now r w))"
proof (cases "env_dispatcher env")
  case None
  then show ?thesis using assms(1) by (simp add: dispatchActionStep_def advances_refl)
next
  case (Some d)
  show ?thesis
  proof (cases "DecodeActionStepSpec env r")
    case (Inl e)
    then show ?thesis using Some assms by (simp add: dispatchActionStep_def triggerActionStepAbort_advances)
  next
    case (Inr spec)
    define actor where "actor = (if ro_RequestedBy r = [] then ''system:plan_engine'' else ro_RequestedBy r)"
    obtain res w1 where D: "Dispatch env d now background_ctx (ro_PlanID r) (ro_PlanStepIndex r) spec actor w = (res, w1)"
      by (cases "Dispatch env d now background_ctx (ro_PlanID r) (ro_PlanStepIndex r) spec actor w")
    have w1: "w_store w1 = w_store w"
      using Dispatch_store [of env d now background_ctx "ro_PlanID r" "ro_PlanStepIndex r" spec actor w] D by simp
    have step: "advances (w_store w1) (w_store (case Persist (r\<lparr>ro_State := RolloutStateInProgress,
          ro_StageStartedAt := Some now, ro_ActionRequestID := i\<rparr>) (w_store w1) of
        Inl _ \<Rightarrow> w1 | Inr (r1, s') \<Rightarrow> publishStateChange env r1 ''action_dispatched'' (w1\<lparr>w_store := s'\<rparr>)))" for i
      using assms by (intro Persist_world) (auto simp: w1 advances_refl advances_ok intro!: leads_move)
    have ab: "advances (w_store w1) (w_store (triggerActionStepAbort env now r ''action_dispatch_failed'' True w1))"
      using assms w1 by (intro triggerActionStepAbort_advances) auto
    show ?thesis using step ab
      unfolding dispatchActionStep_def Let_def actor_def [symmetric]
      by (simp add: Some Inr D w1 split: sum.split prod.split)
  qed
qed

lemma pollActionStep_advances:
  assumes "rollouts_ok (w_store w)" "snap_ok r (w_store w)" "ro_State r = RolloutStateInProgress"
  shows "advances (w_store w) (w_store (pollActionStep env now r w))"
proof -
  have t: "advances (w_store w) (w_store (triggerActionStepAbort env now r x b w))" for x b
    using assms by (intro triggerActionStepAbort_advances) auto
  show ?thesis
    unfolding pollActionStep_def
    by (cases "GetStatus (ro_ActionRequestID r) w")
       (use assms t in \<open>simp_all add: advances_refl finishActionStep_advances split: prod.split\<close>)
qed

section \<open>The tick\<close>

lemma applyBlackoutCheck_facts:
  assumes "rollouts_ok (w_store w)" "snap_ok r (w_store w)" "applyBlackoutCheck env now r w = (b, r1, w1)"
  shows "advances (w_store w) (w_store w1) \<and> snap_ok r1 (w_store w1) \<and> ro_State r1 = ro_State r"
proof -
  have p: "advances (w_store w) (w_store w') \<and> snap_ok q' (w_store w') \<and> ro_State q' = ro_State r"
    if P: "persist env now (r\<lparr>ro_LastBlackoutReason := x, ro_LastBlackoutAt := t\<rparr>) a w = (err, q', w')" for x t a err q' w'
  proof -
    note f = persist_facts [OF assms(1,2) P]
    show ?thesis
    proof (cases "err = None")
      case True
      then show ?thesis using f by simp
    next
      case False
      then have "q' = r\<lparr>ro_LastBlackoutReason := x, ro_LastBlackoutAt := t\<rparr>" "w_store w' = w_store w" using f(5) by simp_all
      then show ?thesis using f(1) by (auto intro: snap_ok_cong [OF assms(2)])
    qed
  qed
  show ?thesis
  proof (cases "Option.bind (env_windows env) (\<lambda>provider. provider (ro_GroupID r) now)")
    case None
    obtain err q' w' where P: "persist env now (r\<lparr>ro_LastBlackoutReason := [], ro_LastBlackoutAt := None\<rparr>)
        ''clear blackout reason'' w = (err, q', w')" by (metis prod_cases3)
    then show ?thesis using p [OF P] None assms
      by (auto simp: applyBlackoutCheck_def advances_refl P bind_eq_None_conv split: option.splits if_splits)
  next
    case (Some active)
    obtain err q' w' where P: "persist env now (r\<lparr>ro_LastBlackoutReason := win_Name active, ro_LastBlackoutAt := Some now\<rparr>)
        ''persist blackout reason'' w = (err, q', w')" by (metis prod_cases3)
    then show ?thesis using p [OF P] Some assms(3)
      by (auto simp: applyBlackoutCheck_def P bind_eq_Some_conv split: option.splits if_splits)
  qed
qed

lemma step_rollout_advances:
  assumes "rollouts_ok (w_store w)" "snap_ok r (w_store w)"
  shows "advances (w_store w) (w_store (step_rollout env now r w))"
  using assms start_advances [OF assms] advanceOrCheck_advances [OF assms] rollback_advances [OF assms]
    dispatchActionStep_advances [OF assms] pollActionStep_advances [OF assms]
    finalizeAbortedActionStep_advances [OF assms]
  by (cases "ro_State r") (simp_all add: step_rollout_def processActionStep_def advances_refl)

lemma process_advances:
  assumes "rollouts_ok (w_store w)" "snap_ok r (w_store w)"
  shows "advances (w_store w) (w_store (process env now r w))"
proof -
  obtain b r1 w1 where B: "applyBlackoutCheck env now r w = (b, r1, w1)" by (metis prod_cases3)
  note f = applyBlackoutCheck_facts [OF assms B]
  have "advances (w_store w) (w_store (step_rollout env now r1 w1))"
    using f advances_trans step_rollout_advances [of w1 r1] advances_ok by blast
  then show ?thesis using f step_rollout_advances [OF assms] by (simp add: process_def B split: bool.split)
qed

lemma fold_process_advances:
  assumes "rollouts_ok (w_store w)" "\<forall>r \<in> set rs. snap_ok r (w_store w)"
  shows "advances (w_store w) (w_store (fold (process env now) rs w))"
  using assms
proof (induction rs arbitrary: w)
  case (Cons r rs)
  have a: "advances (w_store w) (w_store (process env now r w))" using Cons.prems process_advances by simp
  have "advances (w_store (process env now r w)) (w_store (fold (process env now) rs (process env now r w)))"
    using Cons.prems(2) by (intro Cons.IH advances_ok [OF a]) (auto intro: snap_ok_advances [OF _ a])
  from advances_trans [OF a this] show ?case by simp
qed (simp add: advances_refl)

lemma List_rollouts_snap: "rollouts_ok s \<Longrightarrow> \<forall>r \<in> set (List_rollouts f s). snap_ok r s"
  by (auto simp: List_rollouts_def snap_ok_list)

lemma tick_advances:
  assumes "rollouts_ok (w_store w)"
  shows "advances (w_store w) (w_store (tick env now w))"
proof -
  have "advances (w_store w) (w_store (fold (\<lambda>st w. fold (process env now) (List_rollouts (f st) (w_store w)) w) sts w))"
    if "rollouts_ok (w_store w)" for sts f w
    using that
  proof (induction sts arbitrary: w)
    case (Cons st sts)
    have a: "advances (w_store w) (w_store (fold (process env now) (List_rollouts (f st) (w_store w)) w))"
      using fold_process_advances [OF Cons.prems List_rollouts_snap [OF Cons.prems]] .
    from advances_trans [OF a Cons.IH [OF advances_ok [OF a]]] show ?case by simp
  qed (simp add: advances_refl)
  from this [OF assms] show ?thesis unfolding tick_def .
qed

end
