(* ===== verification/Rollout_System.thy ===== *)
theory Rollout_System
  imports Engine_Lifecycle
begin

text \<open>
  The control plane as a transition system.  A state is the world together with the rollout objects an
  engine has loaded and not yet processed.  A step is one operation of the service, the creation of a plan,
  a change of the other tables (agents, groups, configs), a load by the engine, or the processing of one
  loaded object; between the load and the processing any number of other steps may happen, so the object
  may be stale by then.  Operations are atomic.
\<close>

section \<open>Approval\<close>

definition needed_approvals :: "'a StoredRollout_scheme \<Rightarrow> int" where
  "needed_approvals r = (if ro_RequiredApprovals r < 1 then 1 else ro_RequiredApprovals r)"

text \<open>What \<open>Approve\<close> does to the store.\<close>

lemma Approve_store:
  obtains (unchanged) "w_store (snd (snd (Approve env now ctx i approver token notes w))) = w_store w"
  | (recorded) stored where "GetRollout i (w_store w) = Some stored"
      "ro_State stored = RolloutStatePendingApproval"
      "\<not> EqualFold env (TrimSpace approver) (TrimSpace (ro_RequestedBy stored))"
      "w_store (snd (snd (Approve env now ctx i approver token notes w)))
         = RecordRolloutApproval i approver token notes now (w_store w)"
  | (approved) stored x where "GetRollout i (w_store w) = Some stored"
      "ro_State stored = RolloutStatePendingApproval"
      "\<not> EqualFold env (TrimSpace approver) (TrimSpace (ro_RequestedBy stored))"
      "needed_approvals stored \<le> CountRolloutApprovers i (RecordRolloutApproval i approver token notes now (w_store w))"
      "UpdateRollout (stored\<lparr>ro_State := RolloutStatePending, ro_ApprovedBy := approver,
           ro_ApprovedAt := Some now, ro_ApprovalNotes := notes\<rparr>)
         (RecordRolloutApproval i approver token notes now (w_store w))
       = Inr (x, w_store (snd (snd (Approve env now ctx i approver token notes w))))"
proof (cases "GetRollout i (w_store w)")
  case None
  then show ?thesis by (intro unchanged) (simp add: Approve_def)
next
  case (Some stored)
  show ?thesis
  proof (cases "ro_State stored = RolloutStatePendingApproval
      \<and> \<not> EqualFold env (TrimSpace approver) (TrimSpace (ro_RequestedBy stored))")
    case False
    then show ?thesis using Some by (intro unchanged) (auto simp: Approve_def)
  next
    case True
    define s1 where "s1 = RecordRolloutApproval i approver token notes now (w_store w)"
    obtain rr mr where R: "role_requirement env i (ro_GroupID stored) s1 = (rr, mr)"
      by (cases "role_requirement env i (ro_GroupID stored) s1")
    show ?thesis
    proof (cases "needed_approvals stored \<le> CountRolloutApprovers i s1 \<and> mr = []")
      case False
      then have "w_store (snd (snd (Approve env now ctx i approver token notes w))) = s1"
        using Some True R
        by (auto simp: Approve_def Let_def needed_approvals_def simp flip: s1_def)
      then show ?thesis using Some True by (intro recorded [of stored]) (auto simp: s1_def)
    next
      case flip: True
      define r where "r = stored\<lparr>ro_State := RolloutStatePending, ro_ApprovedBy := approver,
           ro_ApprovedAt := Some now, ro_ApprovalNotes := notes\<rparr>"
      show ?thesis
      proof (cases "UpdateRollout r s1")
        case (Inl e)
        then have "w_store (snd (snd (Approve env now ctx i approver token notes w))) = s1"
          using Some True R flip
          by (auto simp: Approve_def Let_def needed_approvals_def r_def simp flip: s1_def)
        then show ?thesis using Some True by (intro recorded [of stored]) (auto simp: s1_def)
      next
        case (Inr p)
        obtain x s' where p: "p = (x, s')" by (cases p)
        then have "w_store (snd (snd (Approve env now ctx i approver token notes w))) = s'"
          using Some True R flip Inr
          by (auto simp: Approve_def Let_def needed_approvals_def r_def simp flip: s1_def)
        then show ?thesis using Some True flip Inr p by (intro approved [of stored x]) (auto simp: s1_def r_def)
      qed
    qed
  qed
qed

lemma Record_frame [simp]:
  "rollouts (RecordRolloutApproval i a t n ts s) = rollouts s"
  "GetRollout j (RecordRolloutApproval i a t n ts s) = GetRollout j s"
  "rollouts_ok (RecordRolloutApproval i a t n ts s) = rollouts_ok s"
  "snap_ok r (RecordRolloutApproval i a t n ts s) = snap_ok r s"
  by (simp_all add: RecordRolloutApproval_def Let_def GetRollout_def rollouts_ok_def snap_ok_def)

lemma approvals_of_Record:
  "approvals_of j (RecordRolloutApproval i a t n ts s) =
     (if j = i then (if map_of (approvals_of i s) a \<noteq> None then approvals_of i s
        else AList.update a \<lparr>ra_Approver = a, ra_ApproverTokenID = t, ra_Notes = n, ra_ApprovedAt = ts\<rparr> (approvals_of i s))
      else approvals_of j s)"
  by (auto simp: RecordRolloutApproval_def Let_def approvals_of_def)

section \<open>The state and its steps\<close>

record Sys =
  sy_world :: World
  sy_held :: "Rollout list"

inductive sys_step :: "Env \<Rightarrow> Sys \<Rightarrow> Sys \<Rightarrow> bool" for env where
  create: "sys_step env \<sigma> (\<sigma>\<lparr>sy_world := snd (snd (Create env now ctx inp (sy_world \<sigma>)))\<rparr>)"
| create_plan: "sys_step env \<sigma> (\<sigma>\<lparr>sy_world := snd (snd (CreatePlan env now ctx steps (sy_world \<sigma>)))\<rparr>)"
| approve: "sys_step env \<sigma> (\<sigma>\<lparr>sy_world := snd (snd (Approve env now ctx i approver token notes (sy_world \<sigma>)))\<rparr>)"
| reject: "sys_step env \<sigma> (\<sigma>\<lparr>sy_world := snd (snd (Reject env now ctx i rejecter notes (sy_world \<sigma>)))\<rparr>)"
| pause: "sys_step env \<sigma> (\<sigma>\<lparr>sy_world := snd (snd (Pause env now ctx i (sy_world \<sigma>)))\<rparr>)"
| resume: "sys_step env \<sigma> (\<sigma>\<lparr>sy_world := snd (snd (Resume env now ctx i (sy_world \<sigma>)))\<rparr>)"
| abort: "sys_step env \<sigma> (\<sigma>\<lparr>sy_world := snd (snd (Abort env now ctx i reason (sy_world \<sigma>)))\<rparr>)"
| roll_back: "sys_step env \<sigma> (\<sigma>\<lparr>sy_world := snd (snd (RollBack env now ctx i operator (sy_world \<sigma>)))\<rparr>)"
| exclude: "sys_step env \<sigma>
    (\<sigma>\<lparr>sy_world := snd (snd (SetExcludeFromLearning env now ctx i actor reason b (sy_world \<sigma>)))\<rparr>)"
| load: "sys_step env \<sigma> (\<sigma>\<lparr>sy_held := sy_held \<sigma> @ List_rollouts f (w_store (sy_world \<sigma>))\<rparr>)"
| work: "r \<in> set (sy_held \<sigma>) \<Longrightarrow>
    sys_step env \<sigma> (\<sigma>\<lparr>sy_world := process env now r (sy_world \<sigma>), sy_held := remove1 r (sy_held \<sigma>)\<rparr>)"
| other_tables: "same_rows (sy_world \<sigma>) w' \<Longrightarrow> sys_step env \<sigma> (\<sigma>\<lparr>sy_world := w'\<rparr>)"

definition initial_sys :: Sys where
  "initial_sys = \<lparr>sy_world = empty_world, sy_held = []\<rparr>"

abbreviation sys_store :: "Sys \<Rightarrow> AppStore" where "sys_store \<sigma> \<equiv> w_store (sy_world \<sigma>)"

abbreviation sys_reachable :: "Env \<Rightarrow> Sys \<Rightarrow> bool" where
  "sys_reachable env \<equiv> (sys_step env)\<^sup>*\<^sup>* initial_sys"

section \<open>The invariant\<close>

text \<open>No rollout outside a plan's tail is ever queued, and a rollout that asked for approval is let through
  only with enough recorded approvals.\<close>

definition gate_ok :: "AppStore \<Rightarrow> bool" where
  "gate_ok s \<longleftrightarrow> (\<forall>i r. GetRollout i s = Some r \<longrightarrow> \<not> follower r \<longrightarrow>
     ro_State r \<noteq> RolloutStateQueued \<and>
     (ro_RequireApproval r \<longrightarrow> ro_State r \<in> released \<longrightarrow> needed_approvals r \<le> CountRolloutApprovers i s))"

text \<open>Approvals belong to existing rollouts, one per approver, and none is the requester's own.\<close>

definition approvals_ok :: "Env \<Rightarrow> AppStore \<Rightarrow> bool" where
  "approvals_ok env s \<longleftrightarrow> (\<forall>i. distinct (map fst (approvals_of i s)))
     \<and> (\<forall>i k a. (k, a) \<in> set (approvals_of i s) \<longrightarrow> ra_Approver a = k
          \<and> (\<exists>r. GetRollout i s = Some r \<and> \<not> EqualFold env (TrimSpace k) (TrimSpace (ro_RequestedBy r))))"

definition sys_inv :: "Env \<Rightarrow> Sys \<Rightarrow> bool" where
  "sys_inv env \<sigma> \<longleftrightarrow> rollouts_ok (sys_store \<sigma>) \<and> gate_ok (sys_store \<sigma>) \<and> approvals_ok env (sys_store \<sigma>)
     \<and> (\<forall>r \<in> set (sy_held \<sigma>). snap_ok r (sys_store \<sigma>))"

lemma advances_row:
  assumes "advances s s'" "GetRollout i s = Some old"
  obtains new where "GetRollout i s' = Some new" "leads (ro_State old) (ro_State new)" "same_request old new"
proof -
  from assms obtain new where "GetRollout i s' = Some new" "new = old \<or> row_step old new"
    unfolding advances_def by metis
  then show ?thesis using that by (auto simp: row_step_def)
qed

lemma advances_new: "advances s s' \<Longrightarrow> GetRollout i s = None \<Longrightarrow> GetRollout i s' = Some new \<Longrightarrow> grown new"
  by (simp add: advances_def)

lemma advances_approvals: "advances s s' \<Longrightarrow> approvals_of i s' = approvals_of i s"
  by (simp add: advances_def approvals_of_def)

lemma gate_ok_advances:
  assumes "advances s s'" "gate_ok s"
  shows "gate_ok s'"
  unfolding gate_ok_def
proof (intro allI impI)
  fix i new assume new: "GetRollout i s' = Some new" "\<not> follower new"
  have c: "CountRolloutApprovers i s' = CountRolloutApprovers i s"
    using advances_approvals [OF assms(1)] by (simp add: CountRolloutApprovers_def)
  show "ro_State new \<noteq> RolloutStateQueued \<and>
     (ro_RequireApproval new \<longrightarrow> ro_State new \<in> released \<longrightarrow> needed_approvals new \<le> CountRolloutApprovers i s')"
  proof (cases "GetRollout i s")
    case None
    then have "grown new" using advances_new [OF assms(1) _ new(1)] by simp
    then obtain s0 where "initial_for (ro_RequireApproval new) False s0" "leads s0 (ro_State new)"
      using new(2) by (auto simp: grown_def)
    then show ?thesis using leads_released [of s0 "ro_State new"] leads_queued [of s0]
      by (auto simp: initial_for_def released_def split: if_splits)
  next
    case (Some old)
    then have "leads (ro_State old) (ro_State new)" "same_request old new"
      using advances_row [OF assms(1) Some] new(1) by auto
    then have l: "leads (ro_State old) (ro_State new)" "\<not> follower old"
        "ro_RequireApproval old = ro_RequireApproval new" "needed_approvals old = needed_approvals new"
      using new(2) by (simp_all add: same_request_def needed_approvals_def)
    have old: "ro_State old \<noteq> RolloutStateQueued"
        "ro_RequireApproval old \<Longrightarrow> ro_State old \<in> released \<Longrightarrow> needed_approvals old \<le> CountRolloutApprovers i s"
      using assms(2) Some l(2) unfolding gate_ok_def by blast+
    show ?thesis using l old leads_queued [of "ro_State old"] leads_released [OF l(1)] c by auto
  qed
qed

lemma approvals_ok_advances:
  assumes "advances s s'" "approvals_ok env s"
  shows "approvals_ok env s'"
proof -
  note a = advances_approvals [OF assms(1)]
  have new: "\<exists>new. GetRollout i s' = Some new \<and> \<not> EqualFold env k (TrimSpace (ro_RequestedBy new))"
    if "\<exists>old. GetRollout i s = Some old \<and> \<not> EqualFold env k (TrimSpace (ro_RequestedBy old))" for i k
    using that advances_row [OF assms(1), of i] unfolding same_request_def by metis
  show ?thesis using assms(2) new unfolding approvals_ok_def a by blast
qed

lemma sys_inv_advances:
  assumes "sys_inv env \<sigma>" "advances (sys_store \<sigma>) (sys_store \<sigma>')" "set (sy_held \<sigma>') \<subseteq> set (sy_held \<sigma>)"
  shows "sys_inv env \<sigma>'"
  using assms gate_ok_advances [OF assms(2)] approvals_ok_advances [OF assms(2)] advances_ok [OF assms(2)]
  by (auto simp: sys_inv_def intro: snap_ok_advances [OF _ assms(2)])

text \<open>Recording an approval.\<close>

lemma count_Record: "CountRolloutApprovers j s \<le> CountRolloutApprovers j (RecordRolloutApproval i a t n ts s)"
  by (auto simp: CountRolloutApprovers_def approvals_of_Record update_fresh)

lemma gate_ok_Record:
  assumes "gate_ok s"
  shows "gate_ok (RecordRolloutApproval i a t n ts s)"
  unfolding gate_ok_def
proof (intro allI impI)
  fix j r assume "GetRollout j (RecordRolloutApproval i a t n ts s) = Some r" "\<not> follower r"
  then have "ro_State r \<noteq> RolloutStateQueued"
      "ro_RequireApproval r \<longrightarrow> ro_State r \<in> released \<longrightarrow> needed_approvals r \<le> CountRolloutApprovers j s"
    using assms by (simp_all add: gate_ok_def)
  then show "ro_State r \<noteq> RolloutStateQueued \<and> (ro_RequireApproval r \<longrightarrow> ro_State r \<in> released \<longrightarrow>
      needed_approvals r \<le> CountRolloutApprovers j (RecordRolloutApproval i a t n ts s))"
    using count_Record [of j s i a t n ts] by auto
qed

lemma approvals_ok_Record:
  assumes "approvals_ok env s" "GetRollout i s = Some r" "\<not> EqualFold env (TrimSpace a) (TrimSpace (ro_RequestedBy r))"
  shows "approvals_ok env (RecordRolloutApproval i a t n ts s)"
proof -
  have a: "(k, b) \<in> set (approvals_of j (RecordRolloutApproval i a t n ts s)) \<Longrightarrow>
      (k, b) \<in> set (approvals_of j s) \<or> j = i \<and> k = a \<and> ra_Approver b = k" for j k b
    by (auto simp: approvals_of_Record update_fresh split: if_splits)
  have "distinct (map fst (approvals_of j (RecordRolloutApproval i a t n ts s)))" for j
    using assms(1) by (simp add: approvals_of_Record distinct_update approvals_ok_def)
  then show ?thesis using assms a unfolding approvals_ok_def by (fastforce simp del: split_paired_All)
qed

text \<open>The approving write: one row leaves the waiting state.\<close>

definition approves :: "string \<Rightarrow> AppStore \<Rightarrow> AppStore \<Rightarrow> bool" where
  "approves i s s' \<longleftrightarrow> rollouts_ok s' \<and> rolloutApprovals s' = rolloutApprovals s
     \<and> (\<exists>old new. GetRollout i s = Some old \<and> GetRollout i s' = Some new
          \<and> ro_State old = RolloutStatePendingApproval \<and> ro_State new = RolloutStatePending
          \<and> ro_Version old < ro_Version new \<and> same_request old new
          \<and> needed_approvals new \<le> CountRolloutApprovers i s)
     \<and> (\<forall>j. j \<noteq> i \<longrightarrow> GetRollout j s' = GetRollout j s)"

lemma approves_UpdateRollout:
  assumes "rollouts_ok s" "GetRollout i s = Some stored" "ro_State stored = RolloutStatePendingApproval"
    and "needed_approvals stored \<le> CountRolloutApprovers i s"
    and u: "UpdateRollout r s = Inr (x, s')" "same_request stored r" "ro_State r = RolloutStatePending"
  shows "approves i s s'"
proof -
  have i: "ro_ID r = i" using rollouts_ok_get [OF assms(1,2)] u(2) by (simp add: same_request_def)
  obtain st where st: "GetRollout (ro_ID r) s = Some st"
    and s': "s' = s\<lparr>rollouts := AList.update (ro_ID r) ((default_row r)\<lparr>ro_Version := ro_Version st + 1\<rparr>) (rollouts s)\<rparr>"
    using UpdateRollout_rows [OF u(1)] by metis
  have "st = stored" using st i assms(2) by simp
  then show ?thesis using assms(2-4) u(2,3) i s' rollouts_ok_UpdateRollout [OF assms(1) u(1)]
    by (simp add: approves_def GetRollout_def) (simp add: needed_approvals_def same_request_def split: if_splits)
qed

lemma gate_ok_approves:
  assumes "approves i s s'" "gate_ok s"
  shows "gate_ok s'"
  unfolding gate_ok_def
proof (intro allI impI)
  fix j r assume r: "GetRollout j s' = Some r" "\<not> follower r"
  have c: "CountRolloutApprovers j s' = CountRolloutApprovers j s"
    using assms(1) by (simp add: approves_def CountRolloutApprovers_def approvals_of_def)
  show "ro_State r \<noteq> RolloutStateQueued \<and> (ro_RequireApproval r \<longrightarrow> ro_State r \<in> released \<longrightarrow>
      needed_approvals r \<le> CountRolloutApprovers j s')"
  proof (cases "j = i")
    case True
    then show ?thesis using assms(1) r c by (auto simp: approves_def)
  next
    case False
    then have "GetRollout j s = Some r" using assms(1) r(1) by (simp add: approves_def)
    then show ?thesis using assms(2) r(2) unfolding c by (simp add: gate_ok_def)
  qed
qed

lemma approvals_ok_approves:
  assumes "approves i s s'" "approvals_ok env s"
  shows "approvals_ok env s'"
proof -
  have a: "approvals_of j s' = approvals_of j s" for j using assms(1) by (simp add: approves_def approvals_of_def)
  have new: "\<exists>new. GetRollout j s' = Some new \<and> \<not> EqualFold env k (TrimSpace (ro_RequestedBy new))"
    if "\<exists>old. GetRollout j s = Some old \<and> \<not> EqualFold env k (TrimSpace (ro_RequestedBy old))" for j k
    using that assms(1) by (cases "j = i") (auto simp: approves_def same_request_def)
  show ?thesis using assms(2) new unfolding approvals_ok_def a by blast
qed

lemma snap_ok_approves:
  assumes "approves i s s'" "snap_ok r s"
  shows "snap_ok r s'"
proof (cases "ro_ID r = i")
  case False
  then show ?thesis using assms by (simp add: approves_def snap_ok_def)
next
  case True
  obtain old new where on: "GetRollout i s = Some old" "GetRollout i s' = Some new"
      "ro_State old = RolloutStatePendingApproval" "ro_State new = RolloutStatePending"
      "ro_Version old < ro_Version new" "same_request old new"
    using assms(1) by (auto simp: approves_def)
  have old: "0 < ro_Version r" "ro_Version r \<le> ro_Version old" "leads_a (ro_State r) (ro_State old)" "same_request old r"
    using assms(2) True on(1) by (auto simp: snap_ok_def)
  have "approved_move (ro_State old) (ro_State new)" by (simp add: on approved_move_def)
  then have "leads_a (ro_State r) (ro_State new)" using old(3) by (rule rtranclp.rtrancl_into_rtrancl [rotated])
  moreover have "same_request new r" using same_request_trans [OF same_request_sym [OF on(6)] old(4)] .
  ultimately show ?thesis using on(2,5) old(1,2) True by (simp add: snap_ok_def)
qed

lemma sys_inv_Approve:
  assumes "sys_inv env \<sigma>"
  shows "sys_inv env (\<sigma>\<lparr>sy_world := snd (snd (Approve env now ctx i a t n (sy_world \<sigma>)))\<rparr>)"
proof (cases rule: Approve_store [of env now ctx i a t n "sy_world \<sigma>"])
  case unchanged
  then show ?thesis using assms by (simp add: sys_inv_def)
next
  case (recorded stored)
  then show ?thesis using assms gate_ok_Record approvals_ok_Record by (simp add: sys_inv_def)
next
  case (approved stored x)
  define s1 where "s1 = RecordRolloutApproval i a t n now (sys_store \<sigma>)"
  define s' where "s' = w_store (snd (snd (Approve env now ctx i a t n (sy_world \<sigma>))))"
  have ok: "rollouts_ok s1" "gate_ok s1" "approvals_ok env s1" "\<forall>r \<in> set (sy_held \<sigma>). snap_ok r s1"
    using assms gate_ok_Record approvals_ok_Record approved(1,3) by (simp_all add: sys_inv_def s1_def)
  have "approves i s1 s'"
    using approved(1,2,4,5) ok(1)
    by (intro approves_UpdateRollout [of s1 i stored]) (auto simp: s1_def s'_def)
  note a = this
  have "rollouts_ok s'" "gate_ok s'" "approvals_ok env s'" "\<forall>r \<in> set (sy_held \<sigma>). snap_ok r s'"
    using ok a gate_ok_approves [OF a] approvals_ok_approves [OF a]
    by (auto simp: approves_def [of i s1] intro: snap_ok_approves [OF a])
  then show ?thesis by (simp add: sys_inv_def s'_def)
qed

lemma sys_inv_step:
  assumes "sys_step env \<sigma> \<sigma>'" "sys_inv env \<sigma>" "\<And>n. env_uuid env n \<noteq> []"
  shows "sys_inv env \<sigma>'"
proof -
  have ok: "rollouts_ok (sys_store \<sigma>)" using assms(2) by (simp add: sys_inv_def)
  note [simp] = ok assms(2,3)
  from assms(1) show ?thesis
  proof cases
    case (approve now ctx i approver token rationale)
    then show ?thesis by (simp add: sys_inv_Approve)
  next
    case (load f)
    then show ?thesis using assms(2) List_rollouts_snap [OF ok] by (auto simp: sys_inv_def)
  next
    case (work r now)
    have "snap_ok r (sys_store \<sigma>)" using assms(2) work(2) by (simp add: sys_inv_def)
    then show ?thesis using work set_remove1_subset [of r "sy_held \<sigma>"]
      by (intro sys_inv_advances [OF assms(2)]) (simp_all add: process_advances)
  next
    case (other_tables w')
    then show ?thesis by (intro sys_inv_advances [OF assms(2)]) (simp_all add: same_rows_advances)
  qed (auto intro!: sys_inv_advances [OF assms(2)] simp: Create_advances CreatePlan_advances Reject_advances Pause_advances
       Resume_advances Abort_advances RollBack_advances SetExcludeFromLearning_advances)
qed

lemma sys_inv_initial: "sys_inv env initial_sys"
  by (simp add: sys_inv_def initial_sys_def empty_world_def gate_ok_def approvals_ok_def approvals_of_def
      GetRollout_def empty_store_def rollouts_ok_def)

lemma sys_inv_reachable:
  assumes "sys_reachable env \<sigma>" "\<And>n. env_uuid env n \<noteq> []"
  shows "sys_inv env \<sigma>"
  using assms(1)
proof (induction rule: rtranclp_induct)
  case (step \<sigma> \<sigma>')
  then show ?case by (intro sys_inv_step [OF step(2)] assms(2))
qed (rule sys_inv_initial)

end
