(* ===== verification/Engine_Delivery.thy ===== *)
theory Engine_Delivery
  imports Rollout_System
begin

text \<open>
  What the engine delivers: which agents a stage pushes to and what it records, which desired state it
  writes, what a change window blocks, and what a successful rollout leaves behind.
\<close>

section \<open>Desired state\<close>








section \<open>One stage\<close>





definition delivery_world :: World where
  "delivery_world = empty_world\<lparr>w_store := sample_configs\<lparr>agents := [(''a'', sample_agent ''a'')]\<rparr>\<rparr>"

definition delivery_rollout :: Rollout where
  "delivery_rollout = toServiceRollout sample_plan_row"

lemma delivery_facts:
  "fleet sample_env 5 delivery_world
     = [populateAgentConfigState (\<lambda>_ _. []) 5 (w_store delivery_world) False (toServiceAgent (sample_agent ''a''))]"
  "GetConfig ''c2'' (w_store delivery_world) = Some (sample_config ''c2'' 2)"
  by (simp_all add: fleet_def svc_ListAgents_def delivery_world_def ListAgents_def sample_agent_def sample_env_def
      GetConfig_def sample_configs_def)

lemma delivery_rollout_simps [simp]:
  "ro_TargetConfigID delivery_rollout = ''c2''" "ro_GroupID delivery_rollout = ''g''"
  "ro_Stages delivery_rollout = [sample_stage 10, sample_stage 100]" "ro_PushedAgentIDs delivery_rollout = []"
  by (simp_all add: delivery_rollout_def sample_plan_row_def sample_rollout_def toStorageRollout_def zero_rollout_def)




section \<open>Change windows\<close>

lemma persist_frame:
  assumes "persist env now q a w = (err, q', w')"
  shows "w_pushes w' = w_pushes w" "w_requests w' = w_requests w" "configs (w_store w') = configs (w_store w)"
    "agents (w_store w') = agents (w_store w)"
  using assms
  by (auto simp: persist_def Persist_def UpdateRollout_def Let_def noteYield_def noteConflict_def recordAudit_def
      split: sum.splits if_splits option.splits)

lemma persist_same_state:
  assumes "rollouts_ok (w_store w)" "snap_ok r (w_store w)" "persist env now q a w = (err, q', w')"
    and "ro_Version q = ro_Version r" "same_request r q" "ro_State q = ro_State r"
  shows "map_option ro_State (GetRollout i (w_store w')) = map_option ro_State (GetRollout i (w_store w))"
proof (cases "Persist q (w_store w)")
  case (Inl e)
  then show ?thesis using assms(3) by (auto simp: persist_def)
next
  case (Inr p)
  obtain q1 s1 where p: "p = (q1, s1)" by (cases p)
  then obtain st where u: "UpdateRollout (toStorageRollout q) (w_store w) = Inr (st, s1)"
    using Inr by (auto simp: Persist_def split: sum.splits)
  have w': "w_store w' = s1" using assms(3) Inr p by (auto simp: persist_def)
  have "ro_ID q = ro_ID r" "0 < ro_Version q" using assms(4,5) snap_ok_pos [OF assms(2)] by (simp_all add: same_request_def)
  moreover obtain stored where "GetRollout (ro_ID q) (w_store w) = Some stored" "ro_Version q = ro_Version stored"
      "s1 = (w_store w)\<lparr>rollouts := AList.update (ro_ID q) ((default_row (toStorageRollout q))\<lparr>ro_Version := ro_Version stored + 1\<rparr>)
         (rollouts (w_store w))\<rparr>"
    using UpdateRollout_rows [OF u] calculation(2) by (simp, metis)
  ultimately show ?thesis using assms(2,4,6) w' by (auto simp: snap_ok_def GetRollout_def)
qed

text \<open>
  C7: Nothing is rolled out inside a change window.  When a window is active for the group of a pending or
  running rollout, processing the rollout, however stale the loaded object, sends no push, writes no
  config and no action request, touches no agent, and leaves every rollout in the state it was in.
\<close>
theorem blackout_blocks_rollout:
  assumes "sys_reachable env \<sigma>" "\<And>n. env_uuid env n \<noteq> []" "r \<in> set (sy_held \<sigma>)"
    and "ro_State r = RolloutStatePending \<or> ro_State r = RolloutStateInProgress"
    and "env_windows env = Some provider" "provider (ro_GroupID r) now = Some active"
    and "w' = process env now r (sy_world \<sigma>)"
  shows "w_pushes w' = w_pushes (sy_world \<sigma>) \<and> w_requests w' = w_requests (sy_world \<sigma>)
    \<and> configs (w_store w') = configs (sys_store \<sigma>) \<and> agents (w_store w') = agents (sys_store \<sigma>)
    \<and> (\<forall>i. map_option ro_State (GetRollout i (w_store w')) = map_option ro_State (GetRollout i (sys_store \<sigma>)))"
proof -
  have inv: "rollouts_ok (sys_store \<sigma>)" "snap_ok r (sys_store \<sigma>)"
    using sys_inv_reachable [OF assms(1,2)] assms(3) by (auto simp: sys_inv_def)
  obtain err r1 w1 where P: "persist env now (r\<lparr>ro_LastBlackoutReason := win_Name active, ro_LastBlackoutAt := Some now\<rparr>)
      ''persist blackout reason'' (sy_world \<sigma>) = (err, r1, w1)" by (metis prod_cases3)
  have w': "w_store w' = w_store w1" "w_pushes w' = w_pushes w1" "w_requests w' = w_requests w1"
    using assms(4-7) P by (auto simp: process_def applyBlackoutCheck_def Let_def recordAudit_def)
  show ?thesis using persist_frame [OF P] persist_same_state [OF inv P] w' by simp
qed

text \<open>
  The windows of the product are the configured ones, so the blocking is the activity check.
\<close>

definition night_env :: Env where
  "night_env = sample_env\<lparr>env_windows := Some (\<lambda>_ now. FirstActive (\<lambda>_. Some (fixed_zone 0)) [night_window] now)\<rparr>"

text \<open>A short history: a config appears, a rollout of it is requested, an engine loads it.\<close>

definition demo_input :: "bool \<Rightarrow> RolloutInput" where
  "demo_input approval = \<lparr>in_Name = ''n'', in_GroupID = ''g'', in_TargetConfigID = ''c2'',
      in_Stages = [sample_stage 100], in_AbortCriteria = zero_criteria, in_NotificationURL = [],
      in_RequireApproval = approval, in_RequiredApprovals = 2, in_RequestedBy = ''ann'', in_ProposedBy = [],
      in_ProposalReasoning = [], in_EvidenceRefs = [], in_PlanID = [], in_PlanStepIndex = 0,
      in_InlineConfigSnippet = [], in_Kind = [], in_Action = None\<rparr>"

definition demo_world :: World where
  "demo_world = empty_world\<lparr>w_store := sample_configs\<rparr>"

definition demo_created :: "Env \<Rightarrow> bool \<Rightarrow> World" where
  "demo_created env approval = snd (snd (Create env 5 background_ctx (demo_input approval) demo_world))"

definition demo_sys :: "Env \<Rightarrow> bool \<Rightarrow> Sys" where
  "demo_sys env approval = \<lparr>sy_world = demo_created env approval,
     sy_held = List_rollouts all_rollouts (w_store (demo_created env approval))\<rparr>"

lemma demo_reachable: "sys_reachable env (demo_sys env approval)"
proof -
  have "sys_step env initial_sys (initial_sys\<lparr>sy_world := demo_world\<rparr>)"
    by (rule sys_step.other_tables)
       (simp add: initial_sys_def same_rows_def demo_world_def empty_world_def sample_configs_def empty_store_def)
  moreover have "sys_step env (initial_sys\<lparr>sy_world := demo_world\<rparr>)
      (initial_sys\<lparr>sy_world := demo_created env approval\<rparr>)"
    using sys_step.create [of env "initial_sys\<lparr>sy_world := demo_world\<rparr>" 5 background_ctx "demo_input approval"]
    by (simp add: demo_created_def)
  moreover have "sys_step env (initial_sys\<lparr>sy_world := demo_created env approval\<rparr>) (demo_sys env approval)"
    using sys_step.load [of env "initial_sys\<lparr>sy_world := demo_created env approval\<rparr>" all_rollouts]
    by (simp add: demo_sys_def initial_sys_def)
  ultimately show ?thesis by (meson rtranclp.rtrancl_into_rtrancl rtranclp.rtrancl_refl)
qed

lemma night_active: "FirstActive (\<lambda>_. Some (fixed_zone 0)) [night_window] (738946 * day_ns + 3 * hour) = Some night_window"
  by code_simp

lemma night_held: "map (\<lambda>r. (ro_State r, ro_GroupID r)) (sy_held (demo_sys night_env False)) = [(RolloutStatePending, ''g'')]"
  by code_simp

theorem blackout_blocks_rollout_witness:
  "\<exists>r \<in> set (sy_held (demo_sys night_env False)). ro_State r = RolloutStatePending
     \<and> w_pushes (process night_env (738946 * day_ns + 3 * hour) r (sy_world (demo_sys night_env False)))
       = w_pushes (sy_world (demo_sys night_env False))"
proof -
  obtain r where r: "sy_held (demo_sys night_env False) = [r]" "ro_State r = RolloutStatePending" "ro_GroupID r = ''g''"
    using night_held by auto
  have "w_pushes (process night_env (738946 * day_ns + 3 * hour) r (sy_world (demo_sys night_env False)))
       = w_pushes (sy_world (demo_sys night_env False))"
    using blackout_blocks_rollout [OF demo_reachable [of night_env False], of r
        "\<lambda>_ now. FirstActive (\<lambda>_. Some (fixed_zone 0)) [night_window] now" "738946 * day_ns + 3 * hour" night_window, OF _ _ _ _ _ refl]
      r night_active by (simp add: night_env_def sample_env_def)
  then show ?thesis using r by simp
qed

section \<open>Hand-over\<close>

text \<open>The scan returns the first of the newest rows, so dropping other rows does not change its answer.\<close>

abbreviation newer :: "Config \<Rightarrow> Config \<Rightarrow> bool" where
  "newer b c \<equiv> cf_Version c > cf_Version b \<or> cf_Version c = cf_Version b \<and> cf_CreatedAt c > cf_CreatedAt b"

lemma latest_scan_keeps: "\<forall>d \<in> set ys. P d \<longrightarrow> \<not> newer c d \<Longrightarrow> latest_scan P (Some c) ys = Some c"
  by (induction ys) auto

lemma latest_scan_SomeE:
  assumes "latest_scan P None cs = Some c"
  obtains xs ys where "cs = xs @ c # ys" "P c" "\<forall>d \<in> set xs. P d \<longrightarrow> newer d c" "\<forall>d \<in> set ys. P d \<longrightarrow> \<not> newer c d"
  using assms
proof (induction cs arbitrary: c thesis rule: rev_induct)
  case (snoc x cs)
  show ?case
  proof (cases "latest_scan P None cs")
    case None
    then have x: "x = c" "P c" using snoc.prems(2) by (auto simp: latest_scan_append split: if_splits)
    have "\<forall>d \<in> set cs. \<not> P d" using None by (simp add: latest_scan_None)
    then show ?thesis using snoc.prems(1) [of cs "[]"] x by simp
  next
    case (Some b)
    then obtain xs ys where b: "cs = xs @ b # ys" "P b" "\<forall>d \<in> set xs. P d \<longrightarrow> newer d b" "\<forall>d \<in> set ys. P d \<longrightarrow> \<not> newer b d"
      using snoc.IH by blast
    show ?thesis
    proof (cases "P x \<and> newer b x")
      case True
      then have "x = c" using snoc.prems(2) Some by (auto simp: latest_scan_append split: if_splits)
      moreover have "\<forall>d \<in> set cs. P d \<longrightarrow> newer d x" using b True by auto
      ultimately show ?thesis using snoc.prems(1) [of cs "[]"] True by simp
    next
      case False
      then have "b = c" using snoc.prems(2) Some by (auto simp: latest_scan_append split: if_splits)
      then show ?thesis using snoc.prems(1) [of xs "ys @ [x]"] b False by auto
    qed
  qed
qed simp

lemma latest_scan_split:
  assumes "P c" "\<forall>d \<in> set xs. P d \<longrightarrow> newer d c" "\<forall>d \<in> set ys. P d \<longrightarrow> \<not> newer c d"
  shows "latest_scan P None (xs @ c # ys) = Some c"
proof (cases "latest_scan P None xs")
  case None
  then show ?thesis using assms latest_scan_keeps [of ys P c] by (simp add: latest_scan_append)
next
  case (Some b)
  then have "P b" "b \<in> set xs" using latest_scan_best [OF Some] by auto
  then show ?thesis using assms Some latest_scan_keeps [of ys P c] by (auto simp: latest_scan_append)
qed

lemma latest_scan_filter: "latest_scan P None cs = Some c \<Longrightarrow> Q c \<Longrightarrow> latest_scan P None (filter Q cs) = Some c"
  by (erule latest_scan_SomeE) (simp add: latest_scan_split)

text \<open>\<open>unpin\<close> removes the per-agent rows of the listed agents and nothing else.\<close>

lemma unpin_configs:
  assumes "\<forall>i \<in> set ids. env_parseUUID env i = Some i"
  shows "configs (w_store (unpin env ids w)) = filter (\<lambda>(k, c). \<forall>i \<in> set ids. cf_AgentID c \<noteq> Some i) (configs (w_store w))"
  using assms
proof (induction ids arbitrary: w)
  case Nil
  then show ?case by (simp add: unpin_def)
next
  case (Cons i ids)
  define w1 where "w1 = w\<lparr>w_store := DeleteConfigsForAgent i (w_store w)\<rparr>"
  have "unpin env (i # ids) w = unpin env ids w1" using Cons.prems by (simp add: unpin_def w1_def)
  then show ?case using Cons.IH [of w1] Cons.prems
    by (simp add: w1_def DeleteConfigsForAgent_def case_prod_beta conj_commute)
qed

lemma filter_snd: "map snd (filter (\<lambda>(k, c). Q c) kcs) = filter Q (map snd kcs)"
  by (induction kcs) auto

lemma unpin_latest:
  assumes "\<forall>i \<in> set ids. env_parseUUID env i = Some i"
  shows "i \<in> set ids \<Longrightarrow> GetLatestConfigForAgent i (w_store (unpin env ids w)) = None"
    "GetLatestConfigForGroup g (w_store w) = Some c \<Longrightarrow> cf_AgentID c = None \<Longrightarrow> GetLatestConfigForGroup g (w_store (unpin env ids w)) = Some c"
proof -
  note u = unpin_configs [OF assms, of w, unfolded filter_snd]
  show "i \<in> set ids \<Longrightarrow> GetLatestConfigForAgent i (w_store (unpin env ids w)) = None"
    by (auto simp: GetLatestConfigForAgent_def u filter_snd latest_scan_None)
  show "GetLatestConfigForGroup g (w_store w) = Some c \<Longrightarrow> cf_AgentID c = None \<Longrightarrow> GetLatestConfigForGroup g (w_store (unpin env ids w)) = Some c"
    by (simp add: GetLatestConfigForGroup_def u filter_snd latest_scan_filter)
qed

lemma promote_latest:
  assumes "GetConfig (ro_TargetConfigID r) (w_store w) = Some target" "ro_GroupID r \<noteq> []"
    and "\<forall>c. GetLatestConfigForGroup (ro_GroupID r) (w_store w) = Some c \<longrightarrow> cf_AgentID c = None"
    and "\<forall>n. GetConfig (env_uuid env n) (w_store w) = None"
  obtains w' c where "promoteTargetToGroupConfig env now r w = (True, w')"
    "GetLatestConfigForGroup (ro_GroupID r) (w_store w') = Some c" "Hash (cf_Content c) = Hash (cf_Content target)"
    "cf_AgentID c = None"
proof -
  define latest where "latest = GetLatestConfigForGroup (ro_GroupID r) (w_store w)"
  show ?thesis
  proof (cases "case latest of None \<Rightarrow> False | Some c \<Rightarrow> Hash (cf_Content c) = Hash (cf_Content target)")
    case True
    then obtain c where "latest = Some c" "Hash (cf_Content c) = Hash (cf_Content target)" by (auto split: option.splits)
    then show ?thesis using assms(1-3) by (intro that [of w c]) (simp_all add: promoteTargetToGroupConfig_def Let_def latest_def)
  next
    case False
    define w1 where "w1 = w\<lparr>w_uuids := w_uuids w + 1\<rparr>"
    define cfg where "cfg = \<lparr>cf_ID = env_uuid env (w_uuids w), cf_Name = [], cf_AgentID = None,
      cf_GroupID = Some (ro_GroupID r), cf_ConfigHash = Hash (cf_Content target), cf_Content = cf_Content target,
      cf_Version = (case latest of None \<Rightarrow> 1 | Some c \<Rightarrow> cf_Version c + 1), cf_CreatedAt = now, cf_ArchivedAt = None\<rparr>"
    define s' where "s' = (w_store w)\<lparr>configs := configs (w_store w) @ [(cf_ID cfg, cfg)]\<rparr>"
    have C: "svc_CreateConfig cfg (w_store w1) = Inr s'"
      using assms(4) by (simp add: svc_CreateConfig_def store_CreateConfig_fresh s'_def w1_def GetConfig_def cfg_def)
    have "promoteTargetToGroupConfig env now r w = (True, w1\<lparr>w_store := s'\<rparr>)"
      using assms(1,2) False C by (simp add: promoteTargetToGroupConfig_def Let_def fresh_uuid_def latest_def w1_def cfg_def)
    moreover have "GetLatestConfigForGroup (ro_GroupID r) s' = Some cfg"
      unfolding GetLatestConfigForGroup_def s'_def
      by (simp, rule latest_scan_new) (auto simp: cfg_def latest_def GetLatestConfigForGroup_def)
    ultimately show ?thesis by (intro that [of "w1\<lparr>w_store := s'\<rparr>" cfg]) (simp_all add: cfg_def)
  qed
qed

lemma full_coverage_agents:
  "rolloutReachedFullCoverage r (fleet env now w) \<longleftrightarrow>
     (\<exists>a \<in> set (ListAgents (w_store w)). ag_GroupID a = Some (ro_GroupID r))
     \<and> (\<forall>a \<in> set (ListAgents (w_store w)). ag_GroupID a = Some (ro_GroupID r) \<longrightarrow> ag_ID a \<in> set (ro_PushedAgentIDs r))"
  by (auto simp: rolloutReachedFullCoverage_def Let_def fleet_def svc_ListAgents_def filter_empty_conv)

lemma advancePlan_configs: "configs (w_store (advancePlan env now r w)) = configs (w_store w)"
  by (auto simp: advancePlan_def split: option.split prod.split dest: persist_frame(3))

text \<open>
  C9: A completed rollout hands the group over to the target.  When the versioned write of the completed
  rollout goes through and every member of the group was delivered to, then afterwards the target is the
  governing config of the whole group and no member is left on a per-agent pin: the intent of every agent
  of the group comes from the group and has the fingerprint of the target.  The hypotheses say that
  durable desired state is on, that the versioned write succeeds, that generated identifiers are fresh, that
  the recorded agent identifiers parse, and that the config that governs the group before is not assigned to
  an agent as well: such a row, which the API accepts, is removed with the pins.
\<close>
theorem finish_hands_over:
  assumes "Persist (r\<lparr>ro_State := RolloutStateSucceeded, ro_CompletedAt := Some now\<rparr>) (w_store w) = Inr p"
    and "env_writeDesiredState env" "rolloutReachedFullCoverage r (fleet env now w)"
    and "GetConfig (ro_TargetConfigID r) (w_store w) = Some target" "ro_GroupID r \<noteq> []"
    and "\<forall>n. GetConfig (env_uuid env n) (w_store w) = None"
    and "\<forall>i \<in> set (ro_PushedAgentIDs r). env_parseUUID env i = Some i"
    and "\<forall>c. GetLatestConfigForGroup (ro_GroupID r) (w_store w) = Some c \<longrightarrow> cf_AgentID c = None"
    and "a \<in> set (ListAgents (w_store w))" "ag_GroupID a = Some (ro_GroupID r)"
  shows "\<exists>intent. determineConfigIntent (w_store (finish env now r w)) a True = Some intent
    \<and> ci_Source intent = ConfigIntentSourceGroup \<and> Hash (ci_Content intent) = Hash (cf_Content target)"
proof -
  define q where "q = r\<lparr>ro_State := RolloutStateSucceeded, ro_CompletedAt := Some now\<rparr>"
  obtain r1 s1 where p: "p = (r1, s1)" by (cases p)
  define w1 where "w1 = w\<lparr>w_store := s1\<rparr>"
  have P: "persist env now q ''finish'' w = (None, r1, w1)"
    using assms(1) p by (simp add: persist_def q_def w1_def)
  have r1: "ro_GroupID r1 = ro_GroupID r" "ro_TargetConfigID r1 = ro_TargetConfigID r"
      "ro_PushedAgentIDs r1 = ro_PushedAgentIDs r"
    using assms(1) p by (auto simp: Persist_def split: sum.splits)
  note fr = persist_frame(3,4) [OF P]
  obtain w4 where w4: "w_store w4 = w_store w1" and fin: "finish env now r w =
      (if ro_PlanID r1 \<noteq> [] then advancePlan env now r1 (finalizeCanaryAssignments env now r1 True w4)
       else finalizeCanaryAssignments env now r1 True w4)"
    using finish_success [OF P [unfolded q_def]] by blast
  have same: "ListAgents (w_store w4) = ListAgents (w_store w)" "\<And>i. GetConfig i (w_store w4) = GetConfig i (w_store w)"
    "GetLatestConfigForGroup (ro_GroupID r) (w_store w4) = GetLatestConfigForGroup (ro_GroupID r) (w_store w)"
    using fr by (simp_all add: w4 ListAgents_def GetConfig_def GetLatestConfigForGroup_def)
  have cov: "rolloutReachedFullCoverage r1 (fleet env now w4)"
    using assms(3) by (simp add: full_coverage_agents same r1)
  obtain w5 c where w5: "promoteTargetToGroupConfig env now r1 w4 = (True, w5)"
      "GetLatestConfigForGroup (ro_GroupID r) (w_store w5) = Some c" "Hash (cf_Content c) = Hash (cf_Content target)"
      "cf_AgentID c = None"
    using promote_latest [of r1 w4 target env now] assms(4-6,8) by (auto simp: same r1)
  define w6 where "w6 = unpin env (ro_PushedAgentIDs r1) w5"
  have w6: "finalizeCanaryAssignments env now r1 True w4 = w6"
    using cov w5(1) assms(2) by (simp add: finalizeCanaryAssignments_def w6_def)
  have "ag_ID a \<in> set (ro_PushedAgentIDs r1)"
    using assms(3,9,10) r1(3) unfolding full_coverage_agents by auto
  then have "GetLatestConfigForAgent (ag_ID a) (w_store w6) = None" "GetLatestConfigForGroup (ro_GroupID r) (w_store w6) = Some c"
    using unpin_latest [of "ro_PushedAgentIDs r1" env] assms(7) r1(3) w5(2,4) by (simp_all add: w6_def)
  moreover have "configs (w_store (finish env now r w)) = configs (w_store w6)"
    by (simp add: fin w6 advancePlan_configs)
  ultimately show ?thesis using assms(5,10) w5(3)
    by (simp add: determineConfigIntent_def GetLatestConfigForAgent_def GetLatestConfigForGroup_def buildConfigIntent_def)
qed

definition handover_rollout :: Rollout where
  "handover_rollout = delivery_rollout\<lparr>ro_PushedAgentIDs := [''a''], ro_State := RolloutStateInProgress\<rparr>"

definition handover_world :: World where
  "handover_world = delivery_world\<lparr>w_store := (w_store delivery_world)\<lparr>rollouts := [(''r1'', toStorageRollout handover_rollout)]\<rparr>\<rparr>"

lemma sample_uuid_fresh: "env_uuid sample_env n \<noteq> ''c1''" "env_uuid sample_env n \<noteq> ''c2''"
  by (simp_all add: sample_env_def)

theorem finish_hands_over_witness:
  "\<exists>intent. determineConfigIntent (w_store (finish sample_env 9 handover_rollout handover_world)) (sample_agent ''a'') True
      = Some intent \<and> Hash (ci_Content intent) = Hash ''a: 1''"
proof -
  have "\<exists>p. Persist (handover_rollout\<lparr>ro_State := RolloutStateSucceeded, ro_CompletedAt := Some 9\<rparr>) (w_store handover_world) = Inr p"
    by (simp add: Persist_def UpdateRollout_def Let_def handover_world_def handover_rollout_def delivery_rollout_def
        sample_plan_row_def split: sum.split)
  then obtain p where p: "Persist (handover_rollout\<lparr>ro_State := RolloutStateSucceeded, ro_CompletedAt := Some 9\<rparr>)
      (w_store handover_world) = Inr p" by blast
  have agents: "ListAgents (w_store handover_world) = [sample_agent ''a'']"
    by (simp add: handover_world_def delivery_world_def ListAgents_def sample_agent_def)
  have r: "ro_GroupID handover_rollout = ''g''" "ro_PushedAgentIDs handover_rollout = [''a'']"
      "ro_TargetConfigID handover_rollout = ''c2''"
    by (simp_all add: handover_rollout_def)
  have cov: "rolloutReachedFullCoverage handover_rollout (fleet sample_env 9 handover_world)"
    by (simp add: full_coverage_agents agents r sample_agent_def)
  have e: "env_writeDesiredState sample_env" "\<And>i. env_parseUUID sample_env i = Some i" by (simp_all add: sample_env_def)
  have c: "GetConfig ''c2'' (w_store handover_world) = Some (sample_config ''c2'' 2)"
      "\<forall>n. GetConfig (env_uuid sample_env n) (w_store handover_world) = None"
      "\<forall>c. GetLatestConfigForGroup ''g'' (w_store handover_world) = Some c \<longrightarrow> cf_AgentID c = None"
    by (simp_all add: handover_world_def delivery_world_def GetConfig_def sample_configs_def GetLatestConfigForGroup_def
        sample_uuid_fresh sample_config_def empty_store_def)
  show ?thesis
    using finish_hands_over [OF p e(1) cov, of "sample_config ''c2'' 2" "sample_agent ''a''"] r c e(2) agents
    by (auto simp: sample_agent_def sample_config_def)
qed

end
