(* ===== verification/Action_Types.thy ===== *)
theory Action_Types
  imports Action_Dispatch
begin

text \<open>
  The four action types the control plane can sign (\<open>actions/register_restart_systemd.go\<close>,
  \<open>register_restart_docker.go\<close>, \<open>register_restart_k8s.go\<close>, \<open>register_run_shell_allowlist.go\<close>): how each
  validates its parameters and matches them against a runner's declared capability.  Capabilities are
  scoped by shell globs, so \<open>filepath.Match\<close> and the UTF-8 decoding it needs are modelled first.  Decoding
  the parameters from JSON, lower-casing and quoting are fields of \<open>Codec\<close>.
\<close>

section \<open>UTF-8 (package unicode/utf8)\<close>

abbreviation byte_of :: "char \<Rightarrow> nat" where "byte_of c \<equiv> of_char c"

definition RuneError :: nat where "RuneError = 65533"

definition accepts :: "nat \<Rightarrow> nat \<Rightarrow> string \<Rightarrow> nat \<Rightarrow> bool" where
  "accepts lo hi s i \<longleftrightarrow> i < length s \<and> lo \<le> byte_of (s ! i) \<and> byte_of (s ! i) \<le> hi"

text \<open>The code point at the start of a string and its width; an invalid encoding yields the replacement
  character with width 1.\<close>

fun DecodeRune :: "string \<Rightarrow> nat \<times> nat" where
  "DecodeRune [] = (RuneError, 0)"
| "DecodeRune (c # s) =
     (let b = byte_of c; low = (\<lambda>i. byte_of (s ! i) mod 64) in
      if b < 128 then (b, 1)
      else if b < 194 then (RuneError, 1)
      else if b < 224 then
        (if accepts 128 191 s 0 then ((b mod 32) * 64 + low 0, 2) else (RuneError, 1))
      else if b < 240 then
        (if accepts (if b = 224 then 160 else 128) (if b = 237 then 159 else 191) s 0 \<and> accepts 128 191 s 1
         then ((b mod 16) * 4096 + low 0 * 64 + low 1, 3) else (RuneError, 1))
      else if b < 245 then
        (if accepts (if b = 240 then 144 else 128) (if b = 244 then 143 else 191) s 0
            \<and> accepts 128 191 s 1 \<and> accepts 128 191 s 2
         then ((b mod 8) * 262144 + low 0 * 4096 + low 1 * 64 + low 2, 4) else (RuneError, 1))
      else (RuneError, 1))"

lemma DecodeRune_width: "s \<noteq> [] \<Longrightarrow> 0 < snd (DecodeRune s)"
  by (cases s) (auto simp: Let_def)

section \<open>Shell globs (filepath.Match on Unix)\<close>

abbreviation backslash :: char where "backslash \<equiv> CHR 0x5C"

text \<open>\<open>None\<close> stands for \<open>ErrBadPattern\<close> throughout.\<close>

definition getEsc :: "string \<Rightarrow> (nat \<times> string) option" where
  "getEsc chunk =
     (if chunk = [] \<or> hd chunk = CHR ''-'' \<or> hd chunk = CHR '']'' then None
      else let chunk' = (if hd chunk = backslash then tl chunk else chunk) in
        if chunk' = [] then None
        else let (r, n) = DecodeRune chunk' in
          if r = RuneError \<and> n = 1 \<or> drop n chunk' = [] then None
          else Some (r, drop n chunk'))"

lemma getEsc_shorter: "getEsc chunk = Some (r, rest) \<Longrightarrow> length rest < length chunk"
proof -
  assume a: "getEsc chunk = Some (r, rest)"
  define chunk' where "chunk' = (if hd chunk = backslash then tl chunk else chunk)"
  have ne: "chunk \<noteq> []" "chunk' \<noteq> []" and r: "rest = drop (snd (DecodeRune chunk')) chunk'"
    using a by (auto simp: getEsc_def chunk'_def Let_def split: if_splits prod.splits)
  have "length rest < length chunk'" using DecodeRune_width [OF ne(2)] ne(2) r by simp
  also have "length chunk' \<le> length chunk" by (simp add: chunk'_def)
  finally show ?thesis .
qed

text \<open>The ranges of a character class up to the closing bracket; \<open>started\<close> says that one has been read.\<close>

function match_ranges :: "nat \<Rightarrow> bool \<Rightarrow> bool \<Rightarrow> string \<Rightarrow> (bool \<times> string) option" where
  "match_ranges r started matched chunk =
     (if chunk \<noteq> [] \<and> hd chunk = CHR '']'' \<and> started then Some (matched, tl chunk)
      else case getEsc chunk of
          None \<Rightarrow> None
        | Some (lo, chunk1) \<Rightarrow>
            if hd chunk1 = CHR ''-''
            then (case getEsc (tl chunk1) of
                    None \<Rightarrow> None
                  | Some (hi, chunk2) \<Rightarrow> match_ranges r True (matched \<or> lo \<le> r \<and> r \<le> hi) chunk2)
            else match_ranges r True (matched \<or> lo = r) chunk1)"
  by pat_completeness auto
termination
proof (relation "measure (\<lambda>(_, _, _, chunk). length chunk)", goal_cases)
  case 1 show ?case by simp
next
  case (2 r started matched chunk p lo chunk1 q hi chunk2)
  then have "length chunk2 < length (tl chunk1)" "length chunk1 < length chunk"
    using getEsc_shorter by blast+
  then show ?case by simp
next
  case (3 r started matched chunk p lo chunk1)
  then have "getEsc chunk = Some (lo, chunk1)" by simp
  then show ?case using getEsc_shorter by simp
qed

declare match_ranges.simps [simp del]

lemma match_ranges_shorter: "match_ranges r started matched chunk = Some (m, rest) \<Longrightarrow> length rest < length chunk"
proof (induction r started matched chunk rule: match_ranges.induct)
  case (1 r started matched chunk)
  show ?case
  proof (cases "chunk \<noteq> [] \<and> hd chunk = CHR '']'' \<and> started")
    case True
    then have "rest = tl chunk" using 1(3) by (subst (asm) match_ranges.simps) simp
    then show ?thesis using True by (cases chunk) simp_all
  next
    case False
    then obtain lo chunk1 where e: "getEsc chunk = Some (lo, chunk1)"
      using 1(3) by (auto simp: match_ranges.simps [of r started matched chunk] split: option.splits)
    note s1 = getEsc_shorter [OF e]
    show ?thesis
    proof (cases "hd chunk1 = CHR ''-''")
      case dash: True
      then obtain hi chunk2 where e2: "getEsc (tl chunk1) = Some (hi, chunk2)"
        and m: "match_ranges r True (matched \<or> lo \<le> r \<and> r \<le> hi) chunk2 = Some (m, rest)"
        using 1(3) False e by (auto simp: match_ranges.simps [of r started matched chunk] split: option.splits)
      show ?thesis using 1(1) [OF False e refl dash e2 refl m] getEsc_shorter [OF e2] s1 by simp
    next
      case nodash: False
      then have m: "match_ranges r True (matched \<or> lo = r) chunk1 = Some (m, rest)"
        using 1(3) False e by (auto simp: match_ranges.simps [of r started matched chunk])
      show ?thesis using 1(2) [OF False e refl nodash m] s1 by simp
    qed
  qed
qed

text \<open>Matching one star-free chunk at the start of a name: what is left of the name, and whether it matched.
  After a mismatch the rest of the chunk is still checked for well-formedness.\<close>

function (sequential) matchChunk :: "bool \<Rightarrow> string \<Rightarrow> string \<Rightarrow> (string \<times> bool) option" where
  "matchChunk failed0 [] s = Some (if failed0 then ([], False) else (s, True))"
| "matchChunk failed0 (c # chunk) s =
     (let failed = (failed0 \<or> s = []) in
      if c = CHR ''['' then
        (let (r, s1) = (if failed then (0, s) else (fst (DecodeRune s), drop (snd (DecodeRune s)) s));
             negated = (chunk \<noteq> [] \<and> hd chunk = CHR ''^'')
         in (case match_ranges r False False (if negated then tl chunk else chunk) of
               None \<Rightarrow> None
             | Some (matched, rest) \<Rightarrow> matchChunk (failed \<or> matched = negated) rest s1))
      else if c = CHR ''?'' then
        (if failed then matchChunk True chunk s
         else matchChunk (hd s = CHR ''/'') chunk (drop (snd (DecodeRune s)) s))
      else if c = backslash then
        (if chunk = [] then None
         else if failed then matchChunk True (tl chunk) s
         else matchChunk (hd chunk \<noteq> hd s) (tl chunk) (tl s))
      else if failed then matchChunk True chunk s
      else matchChunk (c \<noteq> hd s) chunk (tl s))"
  by pat_completeness auto
termination
proof (relation "measure (\<lambda>(_, chunk, _). length chunk)", goal_cases)
  case (2 failed0 c chunk s x p r s1 negated q matched rest)
  then have "length rest < length (if negated then tl chunk else chunk)"
    using match_ranges_shorter by blast
  moreover have "length (if negated then tl chunk else chunk) \<le> length chunk" by simp
  ultimately show ?case by simp
qed auto

declare matchChunk.simps(2) [simp del]

text \<open>Splitting a pattern at its next star outside a character class.\<close>

fun scan :: "bool \<Rightarrow> string \<Rightarrow> string \<times> string" where
  "scan inrange [] = ([], [])"
| "scan inrange (c # p) =
     (if c = backslash then
        (case p of [] \<Rightarrow> ([c], []) | d # p' \<Rightarrow> apfst (\<lambda>a. c # d # a) (scan inrange p'))
      else if c = CHR ''*'' \<and> \<not> inrange then ([], c # p)
      else apfst ((#) c) (scan (if c = CHR ''['' then True else if c = CHR '']'' then False else inrange) p))"

definition scanChunk :: "string \<Rightarrow> bool \<times> string \<times> string" where
  "scanChunk pattern =
     (let q = dropWhile (\<lambda>c. c = CHR ''*'') pattern in
      (pattern \<noteq> [] \<and> hd pattern = CHR ''*'', scan False q))"

lemma scan_append: "scan inrange p = (chunk, rest) \<Longrightarrow> p = chunk @ rest"
proof (induction inrange p arbitrary: chunk rest rule: scan.induct)
  case (2 inrange c p)
  consider (quoted) d p' where "c = backslash" "p = d # p'" | (last) "c = backslash" "p = []"
    | (star) "c \<noteq> backslash" "c = CHR ''*'' \<and> \<not> inrange" | (plain) "c \<noteq> backslash" "\<not> (c = CHR ''*'' \<and> \<not> inrange)"
    by (cases p) auto
  then show ?case
  proof cases
    case quoted
    obtain a b where "scan inrange p' = (a, b)" by (cases "scan inrange p'")
    then show ?thesis using 2(1) [OF quoted] 2(3) quoted by auto
  next
    case plain
    define f where "f = (if c = CHR ''['' then True else if c = CHR '']'' then False else inrange)"
    obtain a b where "scan f p = (a, b)" by (cases "scan f p")
    then show ?thesis using 2(2) [OF plain] 2(3) plain by (auto simp flip: f_def)
  qed (use 2(3) in auto)
qed simp

lemma scanChunk_shorter:
  assumes "scanChunk pattern = (star, chunk, rest)" "pattern \<noteq> []"
  shows "length rest < length pattern"
proof -
  define q where "q = dropWhile (\<lambda>c. c = CHR ''*'') pattern"
  have s: "scan False q = (chunk, rest)" and star: "star = (hd pattern = CHR ''*'')"
    using assms by (simp_all add: scanChunk_def q_def Let_def)
  have len: "length q \<le> length pattern" by (simp add: q_def length_dropWhile_le)
  show ?thesis
  proof (cases q)
    case Nil
    then show ?thesis using s assms(2) by simp
  next
    case (Cons c q')
    then have "c \<noteq> CHR ''*''" using hd_dropWhile [of "\<lambda>c. c = CHR ''*''" pattern] by (simp add: q_def)
    then have "chunk \<noteq> []" using s Cons
      by (auto split: if_splits list.splits simp: apfst_def map_prod_def split: prod.splits)
    then show ?thesis using scan_append [OF s] len by (cases chunk) auto
  qed
qed

text \<open>The search of a starred chunk at the later positions of a name, never past a separator.  The inner
  option is \<open>None\<close> when no position fits.\<close>

fun star_skip :: "string \<Rightarrow> string \<Rightarrow> string \<Rightarrow> string option option" where
  "star_skip chunk rest [] = Some None"
| "star_skip chunk rest (c # name) =
     (if c = CHR ''/'' then Some None
      else case matchChunk False chunk name of
          None \<Rightarrow> None
        | Some (t, found) \<Rightarrow>
            if found \<and> (rest \<noteq> [] \<or> t = []) then Some (Some t) else star_skip chunk rest name)"

definition match_here :: "bool \<Rightarrow> string \<Rightarrow> string \<Rightarrow> string \<Rightarrow> string option option" where
  "match_here star chunk rest name =
     (case matchChunk False chunk name of
        None \<Rightarrow> None
      | Some (t, found) \<Rightarrow>
          if found \<and> (t = [] \<or> rest \<noteq> []) then Some (Some t)
          else if star then star_skip chunk rest name
          else Some None)"

function well_formed_rest :: "string \<Rightarrow> bool" where
  "well_formed_rest pattern =
     (if pattern = [] then True
      else case scanChunk pattern of (_, chunk, rest) \<Rightarrow>
        matchChunk False chunk [] \<noteq> None \<and> well_formed_rest rest)"
  by pat_completeness auto
termination by (relation "measure length") (auto dest: sym [THEN scanChunk_shorter])

function filepath_Match :: "string \<Rightarrow> string \<Rightarrow> bool option" where
  "filepath_Match pattern name =
     (if pattern = [] then Some (name = [])
      else case scanChunk pattern of (star, chunk, rest) \<Rightarrow>
        if star \<and> chunk = [] then Some (CHR ''/'' \<notin> set name)
        else (case match_here star chunk rest name of
            None \<Rightarrow> None
          | Some (Some t) \<Rightarrow> filepath_Match rest t
          | Some None \<Rightarrow> if well_formed_rest rest then Some False else None))"
  by pat_completeness auto
termination by (relation "measure (length \<circ> fst)") (auto dest: sym [THEN scanChunk_shorter])

declare well_formed_rest.simps [simp del] filepath_Match.simps [simp del]

section \<open>What the common globs match\<close>

definition literal :: "string \<Rightarrow> bool" where
  "literal p \<longleftrightarrow> set p \<inter> {CHR ''*'', CHR ''['', CHR ''?'', backslash} = {}"

lemma literal_Cons [simp]:
  "literal (c # p) \<longleftrightarrow> c \<noteq> CHR ''*'' \<and> c \<noteq> CHR ''['' \<and> c \<noteq> CHR ''?'' \<and> c \<noteq> backslash \<and> literal p"
  by (auto simp: literal_def)

lemma matchChunk_failed: "literal p \<Longrightarrow> matchChunk True p s = Some ([], False)"
  by (induction p) (simp_all add: matchChunk.simps(2))

lemma matchChunk_literal:
  "literal p \<Longrightarrow> matchChunk False p s = Some (if prefix p s then (drop (length p) s, True) else ([], False))"
proof (induction p arbitrary: s)
  case (Cons c p)
  show ?case
  proof (cases s)
    case Nil
    then show ?thesis using Cons.prems by (simp add: matchChunk.simps(2) matchChunk_failed)
  next
    case s: (Cons a list)
    then show ?thesis using Cons by (cases "c = a") (simp_all add: matchChunk.simps(2) matchChunk_failed)
  qed
qed simp

lemma scan_literal: "literal p \<Longrightarrow> scan False (p @ r) = apfst (append p) (scan False r)"
  by (induction p) (auto simp: apfst_def map_prod_def split: prod.splits)

lemma scanChunk_literal:
  assumes "literal p" "p \<noteq> []" "r = [] \<or> r = ''*''"
  shows "scanChunk (p @ r) = (False, p, r)"
proof -
  from assms obtain c p' where p: "p = c # p'" "c \<noteq> CHR ''*''" by (cases p) auto
  show ?thesis using scan_literal [OF assms(1), of r] assms(3) p by (auto simp: scanChunk_def)
qed

lemma glob_star: "filepath_Match ''*'' name = Some (CHR ''/'' \<notin> set name)" "well_formed_rest ''*''"
  by (auto simp: filepath_Match.simps well_formed_rest.simps scanChunk_def)

text \<open>A pattern without special characters matches exactly itself, and a literal followed by a star
  matches exactly its extensions that stay within one path segment.\<close>

lemma glob_literal:
  assumes "literal p"
  shows "filepath_Match p name = Some (name = p)"
proof (cases "p = []")
  case False
  have "filepath_Match p name = (case match_here False p [] name of None \<Rightarrow> None
      | Some (Some t) \<Rightarrow> filepath_Match [] t | Some None \<Rightarrow> if well_formed_rest [] then Some False else None)"
    using scanChunk_literal [OF assms False, of "[]"] False by (subst filepath_Match.simps) simp
  also have "\<dots> = Some (name = p)"
    using assms by (auto simp: match_here_def matchChunk_literal filepath_Match.simps well_formed_rest.simps prefix_def)
  finally show ?thesis .
qed (simp add: filepath_Match.simps)

lemma glob_literal_star:
  assumes "literal p"
  shows "filepath_Match (p @ ''*'') name = Some (prefix p name \<and> CHR ''/'' \<notin> set (drop (length p) name))"
proof (cases "p = []")
  case False
  have "filepath_Match (p @ ''*'') name = (case match_here False p ''*'' name of None \<Rightarrow> None
      | Some (Some t) \<Rightarrow> filepath_Match ''*'' t | Some None \<Rightarrow> if well_formed_rest ''*'' then Some False else None)"
    using scanChunk_literal [OF assms False, of "''*''"] False by (subst filepath_Match.simps) simp
  also have "\<dots> = Some (prefix p name \<and> CHR ''/'' \<notin> set (drop (length p) name))"
    using assms by (auto simp: match_here_def matchChunk_literal glob_star)
  finally show ?thesis .
qed (simp add: glob_star)

section \<open>Parameters\<close>

record SystemdParams =
  sp_UnitName :: string
  sp_RestartStrategy :: string

record DockerParams =
  dk_Container :: string
  dk_TimeoutSeconds :: int

record K8sParams =
  k8_Namespace :: string
  k8_Kind :: string
  k8_Name :: string

text \<open>\<open>json.Unmarshal\<close> into each parameter struct (\<open>Inl\<close> its error text), \<open>strings.ToLower\<close> and the verb \<open>q\<close>.\<close>

record Codec =
  jc_systemd :: "string \<Rightarrow> string + SystemdParams"
  jc_docker :: "string \<Rightarrow> string + DockerParams"
  jc_k8s :: "string \<Rightarrow> string + K8sParams"
  jc_shell :: "string \<Rightarrow> string + string"
  jc_lower :: "string \<Rightarrow> string"
  jc_quote :: "string \<Rightarrow> string"

definition ContainsAny :: "string \<Rightarrow> string \<Rightarrow> bool" where
  "ContainsAny s chars \<longleftrightarrow> (\<exists>c \<in> set s. c \<in> set chars)"

text \<open>The list of strings under a key of the constraints; elements of other types are dropped, and a
  value that is not a list counts as absent.\<close>

fun jstrings :: "jval list \<Rightarrow> string list" where
  "jstrings [] = []"
| "jstrings (JStr s # vs) = s # jstrings vs"
| "jstrings (_ # vs) = jstrings vs"

definition constraint_list :: "payload \<Rightarrow> string \<Rightarrow> string list option" where
  "constraint_list constraints key =
     (case map_of constraints key of Some (JList vs) \<Rightarrow> Some (jstrings vs) | _ \<Rightarrow> None)"

definition anyGlobMatch :: "string list \<Rightarrow> string \<Rightarrow> bool" where
  "anyGlobMatch globs s \<longleftrightarrow> (\<exists>g \<in> set globs. filepath_Match g s = Some True)"

text \<open>A capability of another type is refused first, then undecodable parameters.\<close>

definition decoded_for ::
  "Codec \<Rightarrow> string \<Rightarrow> Capability \<Rightarrow> string + 'p \<Rightarrow> ('p \<Rightarrow> bool \<times> string) \<Rightarrow> bool \<times> string" where
  "decoded_for jc typ c decoded k =
     (if cap_Type c \<noteq> typ
      then (False, ''capability type mismatch: '' @ jc_quote jc (cap_Type c) @ '' vs '' @ jc_quote jc typ)
      else case decoded of
          Inl e \<Rightarrow> (False, ''decode parameters: '' @ e)
        | Inr p \<Rightarrow> k p)"

section \<open>Restarting a systemd unit\<close>

abbreviation RestartSystemdServiceType :: string where "RestartSystemdServiceType \<equiv> ''restart-systemd-service''"

definition allowedRestartStrategies :: "string list" where
  "allowedRestartStrategies = [[], ''restart'', ''try-restart'', ''reload'']"

definition validateRestartSystemdParameters :: "Codec \<Rightarrow> string \<Rightarrow> string option" where
  "validateRestartSystemdParameters jc js =
     (case jc_systemd jc js of
        Inl e \<Rightarrow> Some (''decode parameters: '' @ e)
      | Inr p \<Rightarrow>
          if TrimSpace (sp_UnitName p) = [] then Some ''unit_name is required''
          else if ContainsAny (sp_UnitName p) [CHR ''/'', backslash]
          then Some ''unit_name must not contain path separators''
          else if sp_RestartStrategy p \<notin> set allowedRestartStrategies
          then Some (''restart_strategy '' @ jc_quote jc (sp_RestartStrategy p)
                 @ '' is not one of restart, try-restart, reload'')
          else None)"

definition matchesRestartSystemdCapability :: "Codec \<Rightarrow> string \<Rightarrow> Capability \<Rightarrow> bool \<times> string" where
  "matchesRestartSystemdCapability jc js c =
     decoded_for jc RestartSystemdServiceType c (jc_systemd jc js) (\<lambda>p.
       case constraint_list (cap_Constraints c) ''unit_name_glob'' of
         None \<Rightarrow> (True, [])
       | Some globs \<Rightarrow>
           if anyGlobMatch globs (sp_UnitName p) then (True, [])
           else (False, ''unit_name '' @ jc_quote jc (sp_UnitName p)
                   @ '' does not match any glob in capability constraints''))"

definition RestartSystemdServiceActionType :: "Codec \<Rightarrow> ActionType" where
  "RestartSystemdServiceActionType jc =
     \<lparr>at_Type = RestartSystemdServiceType, at_ValidateParameters = validateRestartSystemdParameters jc,
      at_MatchesCapability = matchesRestartSystemdCapability jc\<rparr>"

section \<open>Restarting a Docker container\<close>

abbreviation RestartDockerContainerType :: string where "RestartDockerContainerType \<equiv> ''restart-docker-container''"

definition validateRestartDockerParameters :: "Codec \<Rightarrow> string \<Rightarrow> string option" where
  "validateRestartDockerParameters jc js =
     (case jc_docker jc js of
        Inl e \<Rightarrow> Some (''decode parameters: '' @ e)
      | Inr p \<Rightarrow>
          if TrimSpace (dk_Container p) = [] then Some ''container is required''
          else if ContainsAny (dk_Container p) [CHR ''/'', backslash]
          then Some ''container must not contain path separators''
          else if dk_TimeoutSeconds p < 0 \<or> dk_TimeoutSeconds p > 600
          then Some ''timeout_seconds must be between 0 and 600''
          else None)"

definition matchesRestartDockerCapability :: "Codec \<Rightarrow> string \<Rightarrow> Capability \<Rightarrow> bool \<times> string" where
  "matchesRestartDockerCapability jc js c =
     decoded_for jc RestartDockerContainerType c (jc_docker jc js) (\<lambda>p.
       case constraint_list (cap_Constraints c) ''container_glob'' of
         None \<Rightarrow> (True, [])
       | Some globs \<Rightarrow>
           if anyGlobMatch globs (dk_Container p) then (True, [])
           else (False, ''container '' @ jc_quote jc (dk_Container p)
                   @ '' does not match any glob in capability constraints''))"

definition RestartDockerContainerActionType :: "Codec \<Rightarrow> ActionType" where
  "RestartDockerContainerActionType jc =
     \<lparr>at_Type = RestartDockerContainerType, at_ValidateParameters = validateRestartDockerParameters jc,
      at_MatchesCapability = matchesRestartDockerCapability jc\<rparr>"

section \<open>Restarting a Kubernetes workload\<close>

abbreviation RestartK8sWorkloadType :: string where "RestartK8sWorkloadType \<equiv> ''restart-k8s-workload''"

definition k8sAllowedKinds :: "string list" where
  "k8sAllowedKinds = [''deployment'', ''daemonset'', ''statefulset'']"

text \<open>The regular expression of a DNS-1123 name: lower-case alphanumerics, dots and dashes, with an
  alphanumeric at both ends.\<close>

definition alnum :: "char \<Rightarrow> bool" where
  "alnum c \<longleftrightarrow> 97 \<le> byte_of c \<and> byte_of c \<le> 122 \<or> is_digit c"

definition dns1123 :: "string \<Rightarrow> bool" where
  "dns1123 s \<longleftrightarrow> s \<noteq> [] \<and> alnum (hd s) \<and> alnum (last s)
     \<and> list_all (\<lambda>c. alnum c \<or> c = CHR ''.'' \<or> c = CHR ''-'') s"

definition normalizeK8sKind :: "Codec \<Rightarrow> string \<Rightarrow> string" where
  "normalizeK8sKind jc kind =
     (let k = jc_lower jc (TrimSpace kind) in if k = [] then ''deployment'' else k)"

definition validateRestartK8sParameters :: "Codec \<Rightarrow> string \<Rightarrow> string option" where
  "validateRestartK8sParameters jc js =
     (case jc_k8s jc js of
        Inl e \<Rightarrow> Some (''decode parameters: '' @ e)
      | Inr p \<Rightarrow>
          if TrimSpace (k8_Namespace p) = [] then Some ''namespace is required''
          else if TrimSpace (k8_Name p) = [] then Some ''name is required''
          else if normalizeK8sKind jc (k8_Kind p) \<notin> set k8sAllowedKinds
          then Some (''kind must be one of deployment, daemonset, statefulset (got ''
                 @ jc_quote jc (k8_Kind p) @ '')'')
          else if \<not> dns1123 (k8_Namespace p) then Some ''namespace must be a valid DNS-1123 name''
          else if \<not> dns1123 (k8_Name p) then Some ''name must be a valid DNS-1123 name''
          else None)"

definition matchesRestartK8sCapability :: "Codec \<Rightarrow> string \<Rightarrow> Capability \<Rightarrow> bool \<times> string" where
  "matchesRestartK8sCapability jc js c =
     decoded_for jc RestartK8sWorkloadType c (jc_k8s jc js) (\<lambda>p.
       let namespaces = constraint_list (cap_Constraints c) ''namespace_glob'';
           names = constraint_list (cap_Constraints c) ''name_glob''
       in if \<not> (case namespaces of None \<Rightarrow> True | Some globs \<Rightarrow> anyGlobMatch globs (k8_Namespace p))
          then (False, ''namespace '' @ jc_quote jc (k8_Namespace p)
                  @ '' does not match any glob in capability constraints'')
          else if \<not> (case names of None \<Rightarrow> True | Some globs \<Rightarrow> anyGlobMatch globs (k8_Name p))
          then (False, ''name '' @ jc_quote jc (k8_Name p)
                  @ '' does not match any glob in capability constraints'')
          else (True, []))"

definition RestartK8sWorkloadActionType :: "Codec \<Rightarrow> ActionType" where
  "RestartK8sWorkloadActionType jc =
     \<lparr>at_Type = RestartK8sWorkloadType, at_ValidateParameters = validateRestartK8sParameters jc,
      at_MatchesCapability = matchesRestartK8sCapability jc\<rparr>"

section \<open>Running an allowlisted command\<close>

abbreviation RunShellAllowlistType :: string where "RunShellAllowlistType \<equiv> ''run-shell-allowlist''"

definition shell_metacharacters :: string where
  "shell_metacharacters = '';&|'' @ [CHR 0x60, CHR ''$'', CHR 0x0A, CHR 0x0D]"

definition validateRunShellAllowlistParameters :: "Codec \<Rightarrow> string \<Rightarrow> string option" where
  "validateRunShellAllowlistParameters jc js =
     (case jc_shell jc js of
        Inl e \<Rightarrow> Some (''decode parameters: '' @ e)
      | Inr command \<Rightarrow>
          if TrimSpace command = [] then Some ''command is required''
          else if ContainsAny command shell_metacharacters
          then Some ''command must not contain shell metacharacters''
          else None)"

definition matchesRunShellAllowlistCapability :: "Codec \<Rightarrow> string \<Rightarrow> Capability \<Rightarrow> bool \<times> string" where
  "matchesRunShellAllowlistCapability jc js c =
     decoded_for jc RunShellAllowlistType c (jc_shell jc js) (\<lambda>command.
       case constraint_list (cap_Constraints c) ''commands'' of
         None \<Rightarrow> (False, ''runner has no commands on the allowlist'')
       | Some cmds \<Rightarrow>
           if cmds = [] then (False, ''runner has no commands on the allowlist'')
           else if (\<exists>allowed \<in> set cmds. TrimSpace allowed = TrimSpace command) then (True, [])
           else (False, ''command '' @ jc_quote jc command @ '' is not on the runner'' @ [CHR 0x27] @ ''s allowlist''))"

definition RunShellAllowlistActionType :: "Codec \<Rightarrow> ActionType" where
  "RunShellAllowlistActionType jc =
     \<lparr>at_Type = RunShellAllowlistType, at_ValidateParameters = validateRunShellAllowlistParameters jc,
      at_MatchesCapability = matchesRunShellAllowlistCapability jc\<rparr>"

section \<open>The default registry\<close>

text \<open>Each file registers its type when the process loads, in the order of the file names; a failing
  registration panics.\<close>

fun register_all :: "ActionType list \<Rightarrow> Registry \<Rightarrow> Registry result" where
  "register_all [] reg = Inr reg"
| "register_all (t # ts) reg = (case Register t reg of Inl e \<Rightarrow> Inl e | Inr reg' \<Rightarrow> register_all ts reg')"

definition Default :: "Codec \<Rightarrow> Registry result" where
  "Default jc = register_all [RestartDockerContainerActionType jc, RestartK8sWorkloadActionType jc,
     RestartSystemdServiceActionType jc, RunShellAllowlistActionType jc] []"

lemmas action_type_defs = RestartDockerContainerActionType_def RestartK8sWorkloadActionType_def
  RestartSystemdServiceActionType_def RunShellAllowlistActionType_def

text \<open>Process start does not panic, and the registry then holds exactly the four types under their names.\<close>

lemma Default_registers:
  "Default jc = Inr [(RestartDockerContainerType, RestartDockerContainerActionType jc),
     (RestartK8sWorkloadType, RestartK8sWorkloadActionType jc),
     (RestartSystemdServiceType, RestartSystemdServiceActionType jc),
     (RunShellAllowlistType, RunShellAllowlistActionType jc)]"
  by (simp add: Default_def Register_def action_type_defs)

lemma Default_lookup:
  assumes "Default jc = Inr reg" "map_of reg typ = Some t"
  obtains "typ = RestartDockerContainerType" "t = RestartDockerContainerActionType jc"
  | "typ = RestartK8sWorkloadType" "t = RestartK8sWorkloadActionType jc"
  | "typ = RestartSystemdServiceType" "t = RestartSystemdServiceActionType jc"
  | "typ = RunShellAllowlistType" "t = RunShellAllowlistActionType jc"
proof -
  from assms(1) have reg: "reg = [(RestartDockerContainerType, RestartDockerContainerActionType jc),
     (RestartK8sWorkloadType, RestartK8sWorkloadActionType jc),
     (RestartSystemdServiceType, RestartSystemdServiceActionType jc),
     (RunShellAllowlistType, RunShellAllowlistActionType jc)]" by (simp add: Default_registers)
  show ?thesis using assms(2) that unfolding reg map_of.simps fst_conv snd_conv fun_upd_apply
    by (metis option.distinct(1) option.inject)
qed

section \<open>What may be signed\<close>

text \<open>The declared scope of a glob-constrained axis.\<close>

definition globs_allow :: "Capability \<Rightarrow> string \<Rightarrow> string \<Rightarrow> bool" where
  "globs_allow c key name \<longleftrightarrow>
     (case constraint_list (cap_Constraints c) key of None \<Rightarrow> True | Some globs \<Rightarrow> anyGlobMatch globs name)"

text \<open>Parameters that are well formed for their type, and parameters a capability covers.\<close>

definition sound_action :: "Codec \<Rightarrow> string \<Rightarrow> string \<Rightarrow> bool" where
  "sound_action jc typ js \<longleftrightarrow>
     (typ = RestartSystemdServiceType \<and> (\<exists>p. jc_systemd jc js = Inr p \<and> sp_UnitName p \<noteq> []
         \<and> set (sp_UnitName p) \<inter> {CHR ''/'', backslash} = {}))
   \<or> (typ = RestartDockerContainerType \<and> (\<exists>p. jc_docker jc js = Inr p \<and> dk_Container p \<noteq> []
         \<and> set (dk_Container p) \<inter> {CHR ''/'', backslash} = {} \<and> 0 \<le> dk_TimeoutSeconds p \<and> dk_TimeoutSeconds p \<le> 600))
   \<or> (typ = RestartK8sWorkloadType \<and> (\<exists>p. jc_k8s jc js = Inr p \<and> dns1123 (k8_Namespace p) \<and> dns1123 (k8_Name p)
         \<and> normalizeK8sKind jc (k8_Kind p) \<in> set k8sAllowedKinds))
   \<or> (typ = RunShellAllowlistType \<and> (\<exists>command. jc_shell jc js = Inr command \<and> command \<noteq> []
         \<and> set command \<inter> set shell_metacharacters = {}))"

definition covers :: "Codec \<Rightarrow> Capability \<Rightarrow> string \<Rightarrow> bool" where
  "covers jc c js \<longleftrightarrow>
     (cap_Type c = RestartSystemdServiceType \<and> (\<exists>p. jc_systemd jc js = Inr p \<and> globs_allow c ''unit_name_glob'' (sp_UnitName p)))
   \<or> (cap_Type c = RestartDockerContainerType \<and> (\<exists>p. jc_docker jc js = Inr p \<and> globs_allow c ''container_glob'' (dk_Container p)))
   \<or> (cap_Type c = RestartK8sWorkloadType \<and> (\<exists>p. jc_k8s jc js = Inr p \<and> globs_allow c ''namespace_glob'' (k8_Namespace p)
         \<and> globs_allow c ''name_glob'' (k8_Name p)))
   \<or> (cap_Type c = RunShellAllowlistType \<and> (\<exists>command cmds. jc_shell jc js = Inr command
         \<and> constraint_list (cap_Constraints c) ''commands'' = Some cmds
         \<and> (\<exists>allowed \<in> set cmds. TrimSpace allowed = TrimSpace command)))"

lemma TrimSpace_Nil [simp]: "TrimSpace [] = []"
  by (simp add: TrimSpace_def strip_prefixes_stop no_prefix_of_def)

lemma ContainsAny_iff: "ContainsAny s chars \<longleftrightarrow> set s \<inter> set chars \<noteq> {}"
  by (auto simp: ContainsAny_def)

lemma nonempty_if_trimmed: "TrimSpace s \<noteq> [] \<Longrightarrow> s \<noteq> []"
  by auto

lemma validate_systemd:
  assumes "validateRestartSystemdParameters jc js = None"
  shows "\<exists>p. jc_systemd jc js = Inr p \<and> sp_UnitName p \<noteq> [] \<and> set (sp_UnitName p) \<inter> {CHR ''/'', backslash} = {}"
proof (cases "jc_systemd jc js")
  case (Inr p)
  then have "TrimSpace (sp_UnitName p) \<noteq> []" "\<not> ContainsAny (sp_UnitName p) [CHR ''/'', backslash]"
    using assms unfolding validateRestartSystemdParameters_def by (simp_all split: if_split_asm)
  then show ?thesis using Inr nonempty_if_trimmed unfolding ContainsAny_iff by simp
qed (use assms in \<open>simp add: validateRestartSystemdParameters_def\<close>)

lemma validate_docker:
  assumes "validateRestartDockerParameters jc js = None"
  shows "\<exists>p. jc_docker jc js = Inr p \<and> dk_Container p \<noteq> [] \<and> set (dk_Container p) \<inter> {CHR ''/'', backslash} = {}
    \<and> 0 \<le> dk_TimeoutSeconds p \<and> dk_TimeoutSeconds p \<le> 600"
proof (cases "jc_docker jc js")
  case (Inr p)
  then have "TrimSpace (dk_Container p) \<noteq> []" "\<not> ContainsAny (dk_Container p) [CHR ''/'', backslash]"
    "\<not> (dk_TimeoutSeconds p < 0 \<or> dk_TimeoutSeconds p > 600)"
    using assms unfolding validateRestartDockerParameters_def by (simp_all split: if_split_asm)
  then show ?thesis using Inr nonempty_if_trimmed unfolding ContainsAny_iff by simp
qed (use assms in \<open>simp add: validateRestartDockerParameters_def\<close>)

lemma validate_k8s:
  assumes "validateRestartK8sParameters jc js = None"
  shows "\<exists>p. jc_k8s jc js = Inr p \<and> dns1123 (k8_Namespace p) \<and> dns1123 (k8_Name p)
    \<and> normalizeK8sKind jc (k8_Kind p) \<in> set k8sAllowedKinds"
  using assms by (cases "jc_k8s jc js") (auto simp: validateRestartK8sParameters_def split: if_splits)

lemma validate_shell:
  assumes "validateRunShellAllowlistParameters jc js = None"
  shows "\<exists>command. jc_shell jc js = Inr command \<and> command \<noteq> [] \<and> set command \<inter> set shell_metacharacters = {}"
proof (cases "jc_shell jc js")
  case (Inr p)
  then have "TrimSpace p \<noteq> []" "\<not> ContainsAny p shell_metacharacters"
    using assms unfolding validateRunShellAllowlistParameters_def by (simp_all split: if_split_asm)
  then show ?thesis using Inr nonempty_if_trimmed unfolding ContainsAny_iff by simp
qed (use assms in \<open>simp add: validateRunShellAllowlistParameters_def\<close>)

lemma validate_sound:
  assumes "Default jc = Inr reg" "map_of reg typ = Some t" "at_ValidateParameters t js = None"
  shows "sound_action jc typ js"
  using assms(1,2)
proof (cases rule: Default_lookup)
  case 1
  with assms(3) have "validateRestartDockerParameters jc js = None" by (simp add: action_type_defs)
  from validate_docker [OF this] 1 show ?thesis unfolding sound_action_def by blast
next
  case 2
  with assms(3) have "validateRestartK8sParameters jc js = None" by (simp add: action_type_defs)
  from validate_k8s [OF this] 2 show ?thesis unfolding sound_action_def by blast
next
  case 3
  with assms(3) have "validateRestartSystemdParameters jc js = None" by (simp add: action_type_defs)
  from validate_systemd [OF this] 3 show ?thesis unfolding sound_action_def by blast
next
  case 4
  with assms(3) have "validateRunShellAllowlistParameters jc js = None" by (simp add: action_type_defs)
  from validate_shell [OF this] 4 show ?thesis unfolding sound_action_def by blast
qed

text \<open>The matcher of each type decides exactly the declared scope.\<close>

lemma decoded_for_fst:
  "fst (decoded_for jc typ c d k) \<longleftrightarrow> cap_Type c = typ \<and> (\<exists>p. d = Inr p \<and> fst (k p))"
  by (auto simp: decoded_for_def split: sum.splits)

lemma fst_if: "fst (if b then (True, x) else (False, y)) = b"
  by simp

lemma covers_simps:
  "cap_Type c = RestartSystemdServiceType \<Longrightarrow>
     covers jc c js = (\<exists>p. jc_systemd jc js = Inr p \<and> globs_allow c ''unit_name_glob'' (sp_UnitName p))"
  "cap_Type c = RestartDockerContainerType \<Longrightarrow>
     covers jc c js = (\<exists>p. jc_docker jc js = Inr p \<and> globs_allow c ''container_glob'' (dk_Container p))"
  "cap_Type c = RestartK8sWorkloadType \<Longrightarrow>
     covers jc c js = (\<exists>p. jc_k8s jc js = Inr p \<and> globs_allow c ''namespace_glob'' (k8_Namespace p)
       \<and> globs_allow c ''name_glob'' (k8_Name p))"
  "cap_Type c = RunShellAllowlistType \<Longrightarrow>
     covers jc c js = (\<exists>command cmds. jc_shell jc js = Inr command
       \<and> constraint_list (cap_Constraints c) ''commands'' = Some cmds
       \<and> (\<exists>allowed \<in> set cmds. TrimSpace allowed = TrimSpace command))"
  by (simp_all add: covers_def)

lemma matches_iff_covers:
  assumes "Default jc = Inr reg" "map_of reg (cap_Type c) = Some t"
  shows "fst (at_MatchesCapability t js c) \<longleftrightarrow> covers jc c js"
  using assms
proof (cases rule: Default_lookup)
  case 1
  show ?thesis unfolding covers_simps(2) [OF 1(1)] 1(2) using 1(1)
    by (cases "constraint_list (cap_Constraints c) ''container_glob''")
       (simp_all add: action_type_defs matchesRestartDockerCapability_def decoded_for_fst globs_allow_def fst_if split del: if_split)
next
  case 2
  show ?thesis unfolding covers_simps(3) [OF 2(1)] 2(2) using 2(1)
    by (simp add: action_type_defs matchesRestartK8sCapability_def decoded_for_fst globs_allow_def Let_def if_distrib) blast
next
  case 3
  show ?thesis unfolding covers_simps(1) [OF 3(1)] 3(2) using 3(1)
    by (cases "constraint_list (cap_Constraints c) ''unit_name_glob''")
       (simp_all add: action_type_defs matchesRestartSystemdCapability_def decoded_for_fst globs_allow_def fst_if split del: if_split)
next
  case 4
  show ?thesis unfolding covers_simps(4) [OF 4(1)] 4(2) using 4(1)
    by (auto simp: action_type_defs matchesRunShellAllowlistCapability_def decoded_for_fst split: option.splits)
qed

text \<open>
  A signed action stays within its declared scope.  When the dispatcher, running on the default registry,
  signs and stores a request, the runner is registered and not revoked, the parameters are well formed for
  their type (no path separators in a unit or container name, DNS-1123 names and a known kind for a
  workload, no shell metacharacter in a command), and one capability the runner declared covers them: a
  declared glob matches each constrained name, and a command is, up to surrounding space, one of the listed
  commands.
\<close>
theorem dispatched_action_in_scope:
  assumes "Dispatch env d now ctx planID k spec actor w = (Inr (reqID, expires), w')"
    and "Default jc = Inr (dp_registry d)"
  shows "\<exists>reg caps c row. map_of (w_runners w) (as_RunnerID spec) = Some reg \<and> rn_RevokedAt reg = None
    \<and> dp_unmarshalCaps d (rn_CapabilitiesJSON reg) = Some caps \<and> c \<in> set caps
    \<and> map_of (w_requests w') reqID = Some row \<and> rq_RunnerID row = as_RunnerID spec
    \<and> cap_Type c = rq_ActionType row \<and> sound_action jc (rq_ActionType row) (rq_ParametersJSON row)
    \<and> covers jc c (rq_ParametersJSON row)"
proof -
  obtain t reg caps c row where d: "map_of (dp_registry d) (as_ActionType spec) = Some t"
      "map_of (w_runners w) (as_RunnerID spec) = Some reg" "rn_RevokedAt reg = None"
      "dp_unmarshalCaps d (rn_CapabilitiesJSON reg) = Some caps" "c \<in> set caps" "cap_Type c = as_ActionType spec"
      "map_of (w_requests w') reqID = Some row" "rq_RunnerID row = as_RunnerID spec" "rq_ActionType row = as_ActionType spec"
      and p: "at_ValidateParameters t (rq_ParametersJSON row) = None"
      "fst (at_MatchesCapability t (rq_ParametersJSON row) c)"
    using dispatch_ok [OF assms(1)] by metis
  have "sound_action jc (rq_ActionType row) (rq_ParametersJSON row)"
    using validate_sound [OF assms(2) d(1) p(1)] d(9) by simp
  moreover have "covers jc c (rq_ParametersJSON row)"
    using matches_iff_covers [OF assms(2)] d(1,6) p(2) by metis
  ultimately show ?thesis using d by metis
qed

definition plain_codec :: Codec where
  "plain_codec = \<lparr>jc_systemd = (\<lambda>s. Inr \<lparr>sp_UnitName = s, sp_RestartStrategy = []\<rparr>),
     jc_docker = (\<lambda>s. Inr \<lparr>dk_Container = s, dk_TimeoutSeconds = 0\<rparr>),
     jc_k8s = (\<lambda>s. Inr \<lparr>k8_Namespace = s, k8_Kind = [], k8_Name = s\<rparr>), jc_shell = (\<lambda>s. Inr s),
     jc_lower = (\<lambda>s. s), jc_quote = (\<lambda>s. s)\<rparr>"

definition nginx_capability :: Capability where
  "nginx_capability = \<lparr>cap_Type = RestartSystemdServiceType,
     cap_Constraints = [(''unit_name_glob'', JList [JStr ''squadron-*'', JStr ''nginx*''])]\<rparr>"

definition default_registry :: "Codec \<Rightarrow> Registry" where
  "default_registry jc = (case Default jc of Inr reg \<Rightarrow> reg | Inl _ \<Rightarrow> [])"

definition nginx_dispatcher :: Dispatcher where
  "nginx_dispatcher = \<lparr>dp_signer = Some (\<lambda>q. Some (''sig-'' @ rq_ID q)), dp_registry = default_registry plain_codec,
     dp_unmarshalCaps = (\<lambda>s. Some [nginx_capability]), dp_quote = (\<lambda>s. s)\<rparr>"

definition nginx_spec :: ActionStepSpec where
  "nginx_spec = \<lparr>as_RunnerID = ''h1'', as_ActionType = RestartSystemdServiceType, as_Parameters = ''nginx.service'',
     as_TimeoutSeconds = 60\<rparr>"

lemma nginx_dispatched:
  "\<exists>reqID expires w'. Dispatch sample_env nginx_dispatcher 5 background_ctx ''p'' 0 nginx_spec ''op''
     (empty_world\<lparr>w_runners := [(''h1'', sample_runner)]\<rparr>) = (Inr (reqID, expires), w')"
proof -
  have "dispatch_refusal nginx_dispatcher nginx_spec ''nginx.service''
      (empty_world\<lparr>w_runners := [(''h1'', sample_runner)]\<rparr>) = None" by code_simp
  then show ?thesis
    by (simp add: Dispatch_def Let_def nginx_spec_def fresh_uuid_def nginx_dispatcher_def CreateActionRequest_def
        empty_world_def)
qed

theorem dispatched_action_in_scope_witness:
  "\<exists>reqID expires w' row. Dispatch sample_env nginx_dispatcher 5 background_ctx ''p'' 0 nginx_spec ''op''
       (empty_world\<lparr>w_runners := [(''h1'', sample_runner)]\<rparr>) = (Inr (reqID, expires), w')
     \<and> map_of (w_requests w') reqID = Some row \<and> rq_RunnerID row = ''h1''
     \<and> sound_action plain_codec (rq_ActionType row) (rq_ParametersJSON row)"
proof -
  obtain reqID expires w' where d: "Dispatch sample_env nginx_dispatcher 5 background_ctx ''p'' 0 nginx_spec ''op''
      (empty_world\<lparr>w_runners := [(''h1'', sample_runner)]\<rparr>) = (Inr (reqID, expires), w')"
    using nginx_dispatched by blast
  have "Default plain_codec = Inr (dp_registry nginx_dispatcher)"
    by (simp add: nginx_dispatcher_def default_registry_def Default_registers)
  from dispatched_action_in_scope [OF d this] d show ?thesis by (auto simp: nginx_spec_def)
qed

text \<open>
  An empty glob list forbids everything.  The documentation of the matcher says that an empty or missing
  list means any unit; a missing list does, but a list that is declared and empty rejects every unit name.
\<close>
theorem empty_glob_list_denies:
  assumes "cap_Type c = RestartSystemdServiceType" "jc_systemd jc js = Inr p"
  shows "(map_of (cap_Constraints c) ''unit_name_glob'' = Some (JList []) \<longrightarrow>
        \<not> fst (matchesRestartSystemdCapability jc js c))
    \<and> (map_of (cap_Constraints c) ''unit_name_glob'' = None \<longrightarrow> fst (matchesRestartSystemdCapability jc js c))"
  using assms
  by (simp add: matchesRestartSystemdCapability_def decoded_for_def constraint_list_def anyGlobMatch_def)

theorem empty_glob_list_denies_witness:
  "\<not> fst (matchesRestartSystemdCapability plain_codec ''nginx''
      \<lparr>cap_Type = RestartSystemdServiceType, cap_Constraints = [(''unit_name_glob'', JList [])]\<rparr>)"
  using empty_glob_list_denies [of "\<lparr>cap_Type = RestartSystemdServiceType, cap_Constraints = [(''unit_name_glob'', JList [])]\<rparr>"
      plain_codec "''nginx''"]
  by (simp add: plain_codec_def)

end
