(* ===== verification/Action_Runner.thy ===== *)
theory Action_Runner
  imports Action_Types
begin

text \<open>
  The signing side (\<open>actions/signer.go\<close>, \<open>actions/types.go\<close>) and the runner daemon that polls for signed
  requests and executes them (\<open>cmd/squadron-action-runner/runner.go\<close>, \<open>executor.go\<close>).  The Ed25519
  primitives, base64 and the canonical JSON of the signed fields are fields of \<open>Crypto\<close>; the process the
  runner starts is a parameter.  The command log is tagged with the request and the clock reading it was
  started for, so that its properties can be stated; the log itself is what the node observes.
\<close>

section \<open>Signing and verifying\<close>

record Request =
  req_RequestID :: string
  req_ProposalID :: string
  req_RunnerID :: string
  req_Type :: string
  req_Parameters :: string
  req_IssuedAt :: gotime
  req_ExpiresAt :: gotime
  req_Phase :: string
  req_Signature :: string

record signingPayload =
  sg_RequestID :: string
  sg_ProposalID :: string
  sg_RunnerID :: string
  sg_Type :: string
  sg_Parameters :: string
  sg_IssuedAt :: gotime
  sg_ExpiresAt :: gotime
  sg_Phase :: string

abbreviation PhaseDryRun :: string where "PhaseDryRun \<equiv> ''dry_run''"
abbreviation PhaseExecute :: string where "PhaseExecute \<equiv> ''execute''"

datatype verify_error =
    MissingSignature
  | RequestExpired gotime gotime
  | BadSignatureEncoding
  | NotSerialisable
  | SignatureMismatch

record Crypto =
  cr_marshal :: "signingPayload \<Rightarrow> string option"
  cr_sign :: "string \<Rightarrow> string"
  cr_verify :: "string \<Rightarrow> string \<Rightarrow> bool"
  cr_encode :: "string \<Rightarrow> string"
  cr_decode :: "string \<Rightarrow> string option"
  cr_text :: "verify_error \<Rightarrow> string"

definition signing_payload :: "Request \<Rightarrow> signingPayload" where
  "signing_payload r =
     \<lparr>sg_RequestID = req_RequestID r, sg_ProposalID = req_ProposalID r, sg_RunnerID = req_RunnerID r,
      sg_Type = req_Type r, sg_Parameters = req_Parameters r, sg_IssuedAt = req_IssuedAt r,
      sg_ExpiresAt = req_ExpiresAt r, sg_Phase = req_Phase r\<rparr>"

definition signingBytes :: "Crypto \<Rightarrow> Request \<Rightarrow> string option" where
  "signingBytes cr r = cr_marshal cr (signing_payload r)"

definition Sign :: "Crypto \<Rightarrow> gotime \<Rightarrow> Request \<Rightarrow> Request option" where
  "Sign cr now r =
     (let r1 = (if IsZero (req_IssuedAt r) then r\<lparr>req_IssuedAt := now\<rparr> else r);
          r2 = (if IsZero (req_ExpiresAt r1) then r1\<lparr>req_ExpiresAt := req_IssuedAt r1 + 5 * minute\<rparr> else r1)
      in (case signingBytes cr r2 of
            None \<Rightarrow> None
          | Some b \<Rightarrow> Some (r2\<lparr>req_Signature := cr_encode cr (cr_sign cr b)\<rparr>)))"

definition Verifier_Verify :: "Crypto \<Rightarrow> Request \<Rightarrow> gotime \<Rightarrow> verify_error option" where
  "Verifier_Verify cr r now =
     (if req_Signature r = [] then Some MissingSignature
      else if \<not> IsZero (req_ExpiresAt r) \<and> now > req_ExpiresAt r
      then Some (RequestExpired (req_ExpiresAt r) now)
      else (case cr_decode cr (req_Signature r) of
          None \<Rightarrow> Some BadSignatureEncoding
        | Some sig \<Rightarrow>
            (case signingBytes cr r of
               None \<Rightarrow> Some NotSerialisable
             | Some b \<Rightarrow> if cr_verify cr b sig then None else Some SignatureMismatch)))"

section \<open>The node\<close>

datatype ResultStatus = StatusSuccess | StatusFailure | StatusDenied

record Result =
  rs_RequestID :: string
  rs_Phase :: string
  rs_Status :: ResultStatus
  rs_Stdout :: string
  rs_Stderr :: string
  rs_ExitCode :: int
  rs_DeniedFor :: string
  rs_ResultData :: payload

record RunnerConfig =
  rc_RunnerID :: string
  rc_Capabilities :: "Capability list"
  rc_DryRunOnly :: bool

record Command =
  cm_Request :: ActionRequest
  cm_At :: gotime
  cm_Name :: string
  cm_Args :: "string list"

record Post =
  po_ID :: string
  po_Status :: ResultStatus
  po_DeniedFor :: string
  po_DryRunOutput :: "payload option"
  po_ExecutionOutput :: "payload option"

record Node =
  nd_seen :: "string list"
  nd_commands :: "Command list"
  nd_posts :: "Post list"

text \<open>Standard output, standard error, exit code and the error of a started process.  The first argument
  counts the processes started before it.\<close>

type_synonym CommandRunner = "nat \<Rightarrow> string \<Rightarrow> string list \<Rightarrow> string \<times> string \<times> int \<times> string option"

definition run_command ::
  "CommandRunner \<Rightarrow> ActionRequest \<Rightarrow> gotime \<Rightarrow> string \<Rightarrow> string list \<Rightarrow> Node
     \<Rightarrow> (string \<times> string \<times> int \<times> string option) \<times> Node" where
  "run_command run stored now name args nd =
     (run (length (nd_commands nd)) name args,
      nd\<lparr>nd_commands := nd_commands nd @
           [\<lparr>cm_Request = stored, cm_At = now, cm_Name = name, cm_Args = args\<rparr>]\<rparr>)"

definition truncate_output :: "string \<Rightarrow> nat \<Rightarrow> string" where
  "truncate_output s n = (if length s \<le> n then s else take n s @ ''...[truncated]'')"

definition zero_result :: Result where
  "zero_result = \<lparr>rs_RequestID = [], rs_Phase = [], rs_Status = StatusFailure, rs_Stdout = [], rs_Stderr = [],
     rs_ExitCode = 0, rs_DeniedFor = [], rs_ResultData = []\<rparr>"

abbreviation failed_with :: "string \<Rightarrow> Result" where
  "failed_with e \<equiv> zero_result\<lparr>rs_Stderr := e\<rparr>"

text \<open>The result of a dry run: the inspection's output, reported as a success whatever it returned.\<close>

definition inspected :: "payload \<Rightarrow> string \<Rightarrow> string \<times> string \<times> int \<times> string option \<Rightarrow> Result" where
  "inspected data errorKey = (\<lambda>(out, err, code, e).
     zero_result\<lparr>rs_Status := StatusSuccess, rs_Stdout := truncate_output out 4000,
       rs_Stderr := truncate_output err 2000, rs_ExitCode := code,
       rs_ResultData := data @ (case e of None \<Rightarrow> [] | Some m \<Rightarrow> [(errorKey, JStr m)])\<rparr>)"

text \<open>The result of the real thing: failure on an error or a non-zero exit code.\<close>

definition executed :: "payload \<Rightarrow> string \<times> string \<times> int \<times> string option \<Rightarrow> Result" where
  "executed data = (\<lambda>(out, err, code, e).
     let res = zero_result\<lparr>
           rs_Status := (if e \<noteq> None \<or> code \<noteq> 0 then StatusFailure else StatusSuccess),
           rs_Stdout := truncate_output out 4000, rs_Stderr := truncate_output err 2000,
           rs_ExitCode := code, rs_ResultData := data @ [(''exit_code'', JInt code)]\<rparr>
     in (case e of
           None \<Rightarrow> res
         | Some m \<Rightarrow> res\<lparr>rs_Stderr := TrimSpace (rs_Stderr res @ [CHR 0x0A] @ m)\<rparr>))"

section \<open>The executor\<close>

definition executeRestartDocker ::
  "Codec \<Rightarrow> CommandRunner \<Rightarrow> ActionRequest \<Rightarrow> gotime \<Rightarrow> Request \<Rightarrow> Node \<Rightarrow> Result \<times> Node" where
  "executeRestartDocker jc run stored now req nd =
     (case jc_docker jc (req_Parameters req) of
        Inl e \<Rightarrow> (failed_with (''decode parameters: '' @ e), nd)
      | Inr p \<Rightarrow>
          let timeoutArg = [''--time'', if dk_TimeoutSeconds p > 0 then itoa (dk_TimeoutSeconds p) else ''10''] in
          if req_Phase req = PhaseDryRun then
            (let (r, nd') = run_command run stored now ''docker''
                   [''inspect'', ''--format'', ''{{.State.Status}}'', dk_Container p] nd
             in (inspected
                   [(''planned_command'', JStr (''docker restart '' @ Join '' '' timeoutArg @ '' '' @ dk_Container p)),
                    (''container'', JStr (dk_Container p)), (''current_state'', JStr (TrimSpace (fst r)))]
                   ''inspect_error'' r, nd'))
          else
            (let args = [''restart''] @ timeoutArg @ [dk_Container p];
                 (r, nd') = run_command run stored now ''docker'' args nd
             in (executed [(''ran_command'', JStr (''docker '' @ Join '' '' args)),
                           (''container'', JStr (dk_Container p))] r, nd')))"

definition executeRunShellAllowlist ::
  "Codec \<Rightarrow> CommandRunner \<Rightarrow> ActionRequest \<Rightarrow> gotime \<Rightarrow> Request \<Rightarrow> Node \<Rightarrow> Result \<times> Node" where
  "executeRunShellAllowlist jc run stored now req nd =
     (case jc_shell jc (req_Parameters req) of
        Inl e \<Rightarrow> (failed_with (''decode parameters: '' @ e), nd)
      | Inr command \<Rightarrow>
          (case Fields command of
             [] \<Rightarrow> (failed_with ''empty command after split'', nd)
           | program # args \<Rightarrow>
               if req_Phase req = PhaseDryRun then
                 (zero_result\<lparr>rs_Status := StatusSuccess, rs_ResultData :=
                    [(''planned_command'', JStr command), (''argv'', JList (map JStr (program # args)))]\<rparr>, nd)
               else
                 (let (r, nd') = run_command run stored now program args nd
                  in (executed [(''ran_command'', JStr command)] r, nd'))))"

definition executeRestartK8s ::
  "Codec \<Rightarrow> CommandRunner \<Rightarrow> ActionRequest \<Rightarrow> gotime \<Rightarrow> Request \<Rightarrow> Node \<Rightarrow> Result \<times> Node" where
  "executeRestartK8s jc run stored now req nd =
     (case jc_k8s jc (req_Parameters req) of
        Inl e \<Rightarrow> (failed_with (''decode parameters: '' @ e), nd)
      | Inr p \<Rightarrow>
          let target = normalizeK8sKind jc (k8_Kind p) @ ''/'' @ k8_Name p;
              restart = ''kubectl rollout restart '' @ target @ '' -n '' @ k8_Namespace p in
          if req_Phase req = PhaseDryRun then
            (let (r, nd') = run_command run stored now ''kubectl''
                   [''get'', target, ''-n'', k8_Namespace p, ''-o'',
                    ''jsonpath={.metadata.name} generation={.metadata.generation}''] nd
             in (inspected
                   [(''planned_command'', JStr restart), (''target'', JStr target),
                    (''namespace'', JStr (k8_Namespace p)), (''current'', JStr (TrimSpace (fst r)))]
                   ''inspect_error'' r, nd'))
          else
            (let (r, nd') = run_command run stored now ''kubectl''
                   [''rollout'', ''restart'', target, ''-n'', k8_Namespace p] nd
             in (executed [(''ran_command'', JStr restart), (''target'', JStr target),
                           (''namespace'', JStr (k8_Namespace p))] r, nd')))"

definition executeRestartSystemd ::
  "Codec \<Rightarrow> CommandRunner \<Rightarrow> ActionRequest \<Rightarrow> gotime \<Rightarrow> Request \<Rightarrow> Node \<Rightarrow> Result \<times> Node" where
  "executeRestartSystemd jc run stored now req nd =
     (case jc_systemd jc (req_Parameters req) of
        Inl e \<Rightarrow> (failed_with (''decode parameters: '' @ e), nd)
      | Inr p \<Rightarrow>
          let unit = sp_UnitName p;
              strategy = (if sp_RestartStrategy p = [] then ''restart'' else sp_RestartStrategy p) in
          if req_Phase req = PhaseDryRun then
            (let (r, nd') = run_command run stored now ''systemctl'' [''status'', unit, ''--no-pager''] nd
             in (inspected
                   [(''planned_command'', JStr (''systemctl '' @ strategy @ '' '' @ unit)), (''unit_name'', JStr unit),
                    (''strategy'', JStr strategy), (''unit_exit_code'', JInt (fst (snd (snd r)))),
                    (''unit_status'', JStr (truncate_output (fst r) 4000))] ''status_error'' r, nd'))
          else
            (let (r, nd') = run_command run stored now ''systemctl'' [strategy, unit] nd
             in (executed [(''ran_command'', JStr (''systemctl '' @ strategy @ '' '' @ unit)),
                           (''unit_name'', JStr unit), (''strategy'', JStr strategy)] r, nd')))"

definition ExecuteRequest ::
  "Codec \<Rightarrow> CommandRunner \<Rightarrow> ActionRequest \<Rightarrow> gotime \<Rightarrow> Request \<Rightarrow> Node \<Rightarrow> Result \<times> Node" where
  "ExecuteRequest jc run stored now req nd =
     (if req_Type req = RestartSystemdServiceType then executeRestartSystemd jc run stored now req nd
      else if req_Type req = RestartDockerContainerType then executeRestartDocker jc run stored now req nd
      else if req_Type req = RunShellAllowlistType then executeRunShellAllowlist jc run stored now req nd
      else if req_Type req = RestartK8sWorkloadType then executeRestartK8s jc run stored now req nd
      else (failed_with (''runner does not implement action type '' @ jc_quote jc (req_Type req)), nd))"

section \<open>The runner\<close>

text \<open>The wire request is rebuilt from the stored row.\<close>

definition wire_request :: "ActionRequest \<Rightarrow> Request" where
  "wire_request stored =
     \<lparr>req_RequestID = rq_ID stored, req_ProposalID = rq_ProposalID stored, req_RunnerID = rq_RunnerID stored,
      req_Type = rq_ActionType stored, req_Parameters = rq_ParametersJSON stored,
      req_IssuedAt = rq_IssuedAt stored, req_ExpiresAt = rq_ExpiresAt stored, req_Phase = rq_Phase stored,
      req_Signature = rq_Signature stored\<rparr>"

lemma wire_request_simps [simp]:
  "req_RequestID (wire_request stored) = rq_ID stored" "req_Type (wire_request stored) = rq_ActionType stored"
  "req_Parameters (wire_request stored) = rq_ParametersJSON stored" "req_Phase (wire_request stored) = rq_Phase stored"
  "req_ExpiresAt (wire_request stored) = rq_ExpiresAt stored" "req_IssuedAt (wire_request stored) = rq_IssuedAt stored"
  "req_Signature (wire_request stored) = rq_Signature stored"
  by (simp_all add: wire_request_def)

fun actionAllowed :: "Registry \<Rightarrow> Capability list \<Rightarrow> Request \<Rightarrow> bool" where
  "actionAllowed reg [] wire \<longleftrightarrow> False"
| "actionAllowed reg (c # cs) wire \<longleftrightarrow>
     (if cap_Type c \<noteq> req_Type wire then actionAllowed reg cs wire
      else case registry_Get reg (req_Type wire) of
          None \<Rightarrow> False
        | Some t \<Rightarrow>
            if fst (at_MatchesCapability t (req_Parameters wire) c) then True else actionAllowed reg cs wire)"

text \<open>Posting a result; a failed post is not retried.\<close>

definition postResult :: "string \<Rightarrow> Result \<Rightarrow> Node \<Rightarrow> Node" where
  "postResult i result nd =
     (let out = [(''stdout'', JStr (rs_Stdout result)), (''stderr'', JStr (rs_Stderr result)),
                 (''exit_code'', JInt (rs_ExitCode result))]
              @ (if rs_ResultData result \<noteq> [] then [(''result_data'', JObj (rs_ResultData result))] else []);
          dry = (rs_Phase result = PhaseDryRun)
      in nd\<lparr>nd_posts := nd_posts nd @
           [\<lparr>po_ID = i, po_Status = rs_Status result, po_DeniedFor = rs_DeniedFor result,
             po_DryRunOutput = (if dry then Some out else None),
             po_ExecutionOutput = (if dry then None else Some out)\<rparr>]\<rparr>)"

definition denial :: "ActionRequest \<Rightarrow> string \<Rightarrow> Result" where
  "denial stored reason = zero_result\<lparr>rs_RequestID := rq_ID stored, rs_Phase := rq_Phase stored,
     rs_Status := StatusDenied, rs_DeniedFor := reason\<rparr>"

definition handleOne ::
  "Crypto \<Rightarrow> Codec \<Rightarrow> Registry \<Rightarrow> CommandRunner \<Rightarrow> RunnerConfig \<Rightarrow> gotime \<Rightarrow> ActionRequest \<Rightarrow> Node \<Rightarrow> Node" where
  "handleOne cr jc reg run cfg now stored nd =
     (let wire = wire_request stored in
      case Verifier_Verify cr wire now of
        Some e \<Rightarrow> postResult (rq_ID stored) (denial stored (''signature: '' @ cr_text cr e)) nd
      | None \<Rightarrow>
          if rc_DryRunOnly cfg \<and> req_Phase wire = PhaseExecute
          then postResult (rq_ID stored) (denial stored ''dry-run-only mode'') nd
          else if \<not> actionAllowed reg (rc_Capabilities cfg) wire
          then postResult (rq_ID stored) (denial stored ''out_of_policy'') nd
          else
            let (result, nd') = ExecuteRequest jc run stored now wire nd
            in postResult (rq_ID stored)
                 (result\<lparr>rs_RequestID := rq_ID stored, rs_Phase := req_Phase wire\<rparr>) nd')"

definition handle_unseen ::
  "Crypto \<Rightarrow> Codec \<Rightarrow> Registry \<Rightarrow> CommandRunner \<Rightarrow> RunnerConfig \<Rightarrow> gotime \<Rightarrow> ActionRequest \<Rightarrow> Node \<Rightarrow> Node" where
  "handle_unseen cr jc reg run cfg now stored nd =
     (if rq_ID stored \<in> set (nd_seen nd) then nd
      else let nd' = handleOne cr jc reg run cfg now stored nd
           in nd'\<lparr>nd_seen := rq_ID stored # nd_seen nd'\<rparr>)"

text \<open>One poll: \<open>None\<close> when the request to the control plane failed.\<close>

definition runner_tick ::
  "Crypto \<Rightarrow> Codec \<Rightarrow> Registry \<Rightarrow> CommandRunner \<Rightarrow> RunnerConfig \<Rightarrow> gotime \<Rightarrow> ActionRequest list option \<Rightarrow> Node \<Rightarrow> Node" where
  "runner_tick cr jc reg run cfg now pending nd =
     (case pending of None \<Rightarrow> nd | Some requests \<Rightarrow> fold (handle_unseen cr jc reg run cfg now) requests nd)"

text \<open>The daemon's loop over a finite history of polls.\<close>

definition runner_loop ::
  "Crypto \<Rightarrow> Codec \<Rightarrow> Registry \<Rightarrow> CommandRunner \<Rightarrow> RunnerConfig \<Rightarrow> (gotime \<times> ActionRequest list option) list \<Rightarrow> Node \<Rightarrow> Node" where
  "runner_loop cr jc reg run cfg polls nd = fold (\<lambda>(now, pending). runner_tick cr jc reg run cfg now pending) polls nd"

definition fresh_node :: Node where
  "fresh_node = \<lparr>nd_seen = [], nd_commands = [], nd_posts = []\<rparr>"

section \<open>What the node runs\<close>

text \<open>The command line each action type prescribes; only the allowlisted command names its own program.\<close>

definition prescribed :: "Codec \<Rightarrow> ActionRequest \<Rightarrow> string \<Rightarrow> string list \<Rightarrow> bool" where
  "prescribed jc stored name args \<longleftrightarrow>
     (rq_ActionType stored = RestartSystemdServiceType \<and> name = ''systemctl''
        \<and> (\<exists>p. jc_systemd jc (rq_ParametersJSON stored) = Inr p \<and> sp_UnitName p \<in> set args))
   \<or> (rq_ActionType stored = RestartDockerContainerType \<and> name = ''docker''
        \<and> (\<exists>p. jc_docker jc (rq_ParametersJSON stored) = Inr p \<and> last args = dk_Container p))
   \<or> (rq_ActionType stored = RestartK8sWorkloadType \<and> name = ''kubectl''
        \<and> (\<exists>p. jc_k8s jc (rq_ParametersJSON stored) = Inr p \<and> k8_Namespace p \<in> set args))
   \<or> (rq_ActionType stored = RunShellAllowlistType
        \<and> (\<exists>command. jc_shell jc (rq_ParametersJSON stored) = Inr command \<and> name # args = Fields command))"

lemma ExecuteRequest_effect:
  obtains (idle) "snd (ExecuteRequest jc run stored now (wire_request stored) nd) = nd"
  | (ran) name args where "snd (ExecuteRequest jc run stored now (wire_request stored) nd)
        = nd\<lparr>nd_commands := nd_commands nd @ [\<lparr>cm_Request = stored, cm_At = now, cm_Name = name, cm_Args = args\<rparr>]\<rparr>"
      "prescribed jc stored name args"
proof -
  consider (systemd) "rq_ActionType stored = RestartSystemdServiceType" | (docker) "rq_ActionType stored = RestartDockerContainerType"
    | (shell) "rq_ActionType stored = RunShellAllowlistType" | (k8s) "rq_ActionType stored = RestartK8sWorkloadType"
    | (other) "rq_ActionType stored \<notin> {RestartSystemdServiceType, RestartDockerContainerType, RunShellAllowlistType, RestartK8sWorkloadType}"
    by blast
  then show thesis
  proof cases
    case systemd
    then have e: "ExecuteRequest jc run stored now (wire_request stored) nd = executeRestartSystemd jc run stored now (wire_request stored) nd"
      by (simp add: ExecuteRequest_def)
    show thesis
    proof (cases "jc_systemd jc (rq_ParametersJSON stored)")
      case (Inr p)
      then show thesis using systemd e
        by (intro ran [of "''systemctl''" "if rq_Phase stored = PhaseDryRun then [''status'', sp_UnitName p, ''--no-pager'']
             else [if sp_RestartStrategy p = [] then ''restart'' else sp_RestartStrategy p, sp_UnitName p]"])
           (simp_all add: executeRestartSystemd_def run_command_def prescribed_def Let_def)
    qed (use e in \<open>intro idle, simp add: executeRestartSystemd_def\<close>)
  next
    case docker
    then have e: "ExecuteRequest jc run stored now (wire_request stored) nd = executeRestartDocker jc run stored now (wire_request stored) nd"
      by (simp add: ExecuteRequest_def)
    show thesis
    proof (cases "jc_docker jc (rq_ParametersJSON stored)")
      case (Inr p)
      then show thesis using docker e
        by (intro ran [of "''docker''" "if rq_Phase stored = PhaseDryRun then [''inspect'', ''--format'', ''{{.State.Status}}'', dk_Container p]
             else [''restart'', ''--time'', if dk_TimeoutSeconds p > 0 then itoa (dk_TimeoutSeconds p) else ''10'', dk_Container p]"])
           (simp_all add: executeRestartDocker_def run_command_def prescribed_def Let_def)
    qed (use e in \<open>intro idle, simp add: executeRestartDocker_def\<close>)
  next
    case k8s
    then have e: "ExecuteRequest jc run stored now (wire_request stored) nd = executeRestartK8s jc run stored now (wire_request stored) nd"
      by (simp add: ExecuteRequest_def)
    show thesis
    proof (cases "jc_k8s jc (rq_ParametersJSON stored)")
      case (Inr p)
      define target where "target = normalizeK8sKind jc (k8_Kind p) @ ''/'' @ k8_Name p"
      show thesis using k8s e Inr
        by (intro ran [of "''kubectl''" "if rq_Phase stored = PhaseDryRun
             then [''get'', target, ''-n'', k8_Namespace p, ''-o'', ''jsonpath={.metadata.name} generation={.metadata.generation}'']
             else [''rollout'', ''restart'', target, ''-n'', k8_Namespace p]"])
           (simp_all add: executeRestartK8s_def run_command_def prescribed_def Let_def target_def)
    qed (use e in \<open>intro idle, simp add: executeRestartK8s_def\<close>)
  next
    case shell
    then have e: "ExecuteRequest jc run stored now (wire_request stored) nd = executeRunShellAllowlist jc run stored now (wire_request stored) nd"
      by (simp add: ExecuteRequest_def)
    show thesis
    proof (cases "\<exists>command program args. jc_shell jc (rq_ParametersJSON stored) = Inr command
        \<and> Fields command = program # args \<and> rq_Phase stored \<noteq> PhaseDryRun")
      case True
      then obtain command program args where "jc_shell jc (rq_ParametersJSON stored) = Inr command"
        "Fields command = program # args" "rq_Phase stored \<noteq> PhaseDryRun" by blast
      then show thesis using shell e
        by (intro ran [of program args])
           (simp_all add: executeRunShellAllowlist_def run_command_def prescribed_def)
    next
      case False
      then show thesis using e
        by (intro idle) (auto simp: executeRunShellAllowlist_def split: sum.splits list.splits)
    qed
  next
    case other
    then show thesis by (intro idle) (simp add: ExecuteRequest_def)
  qed
qed

lemma postResult_frame [simp]:
  "nd_seen (postResult i r nd) = nd_seen nd" "nd_commands (postResult i r nd) = nd_commands nd"
  by (simp_all add: postResult_def Let_def)

lemma actionAllowed_covers:
  assumes "Default jc = Inr reg"
  shows "actionAllowed reg caps wire \<Longrightarrow> \<exists>c \<in> set caps. cap_Type c = req_Type wire \<and> covers jc c (req_Parameters wire)"
proof (induction caps)
  case (Cons c cs)
  show ?case
  proof (cases "cap_Type c = req_Type wire \<and> (\<exists>t. registry_Get reg (req_Type wire) = Some t
      \<and> fst (at_MatchesCapability t (req_Parameters wire) c))")
    case True
    then show ?thesis using matches_iff_covers [OF assms, of c] by (auto simp: registry_Get_def)
  next
    case False
    then have "actionAllowed reg cs wire" using Cons.prems by (auto split: if_splits option.splits)
    then show ?thesis using Cons.IH by auto
  qed
qed simp

text \<open>A command the pinned key, the node's mode and its own capabilities authorise.\<close>

definition authorised :: "Crypto \<Rightarrow> Codec \<Rightarrow> RunnerConfig \<Rightarrow> Command \<Rightarrow> bool" where
  "authorised cr jc cfg cm \<longleftrightarrow>
     Verifier_Verify cr (wire_request (cm_Request cm)) (cm_At cm) = None
   \<and> \<not> (rc_DryRunOnly cfg \<and> rq_Phase (cm_Request cm) = PhaseExecute)
   \<and> (\<exists>c \<in> set (rc_Capabilities cfg). cap_Type c = rq_ActionType (cm_Request cm)
        \<and> covers jc c (rq_ParametersJSON (cm_Request cm)))
   \<and> prescribed jc (cm_Request cm) (cm_Name cm) (cm_Args cm)"

lemma handleOne_commands:
  assumes "Default jc = Inr reg"
  obtains (idle) "nd_commands (handleOne cr jc reg run cfg now stored nd) = nd_commands nd"
  | (ran) cm where "nd_commands (handleOne cr jc reg run cfg now stored nd) = nd_commands nd @ [cm]"
      "cm_Request cm = stored" "cm_At cm = now" "authorised cr jc cfg cm"
proof (cases "Verifier_Verify cr (wire_request stored) now = None
    \<and> \<not> (rc_DryRunOnly cfg \<and> rq_Phase stored = PhaseExecute)
    \<and> actionAllowed reg (rc_Capabilities cfg) (wire_request stored)")
  case False
  then show thesis by (intro idle) (auto simp: handleOne_def Let_def split: option.splits)
next
  case True
  then have n: "nd_commands (handleOne cr jc reg run cfg now stored nd)
      = nd_commands (snd (ExecuteRequest jc run stored now (wire_request stored) nd))"
    by (auto simp: handleOne_def Let_def split: prod.splits)
  have c: "\<exists>c \<in> set (rc_Capabilities cfg). cap_Type c = rq_ActionType stored \<and> covers jc c (rq_ParametersJSON stored)"
    using actionAllowed_covers [OF assms, of "rc_Capabilities cfg" "wire_request stored"] True by (simp add:)
  show thesis
  proof (cases rule: ExecuteRequest_effect [of jc run stored now nd])
    case idle
    then show thesis using n that(1) by simp
  next
    case (ran name args)
    then show thesis using n c True
      by (intro that(2) [of "\<lparr>cm_Request = stored, cm_At = now, cm_Name = name, cm_Args = args\<rparr>"])
         (simp_all add: authorised_def)
  qed
qed

lemma ExecuteRequest_seen: "nd_seen (snd (ExecuteRequest jc run stored now (wire_request stored) nd)) = nd_seen nd"
  by (cases rule: ExecuteRequest_effect [of jc run stored now nd]) simp_all

lemma handleOne_seen: "nd_seen (handleOne cr jc reg run cfg now stored nd) = nd_seen nd"
  using ExecuteRequest_seen [of jc run stored now nd]
  by (auto simp: handleOne_def Let_def split: option.splits prod.splits)

section \<open>The runner's invariant\<close>

definition node_ok :: "Crypto \<Rightarrow> Codec \<Rightarrow> RunnerConfig \<Rightarrow> Node \<Rightarrow> bool" where
  "node_ok cr jc cfg nd \<longleftrightarrow> (\<forall>cm \<in> set (nd_commands nd). authorised cr jc cfg cm \<and> rq_ID (cm_Request cm) \<in> set (nd_seen nd))
     \<and> distinct (map (rq_ID \<circ> cm_Request) (nd_commands nd))"

lemma node_ok_handle:
  assumes "Default jc = Inr reg" "node_ok cr jc cfg nd"
  shows "node_ok cr jc cfg (handle_unseen cr jc reg run cfg now stored nd)"
proof (cases "rq_ID stored \<in> set (nd_seen nd)")
  case False
  show ?thesis using assms(1)
  proof (cases rule: handleOne_commands [of jc reg cr run cfg now stored nd])
    case idle
    then show ?thesis using assms(2) False by (auto simp: handle_unseen_def Let_def node_ok_def handleOne_seen)
  next
    case (ran cm)
    then have "rq_ID (cm_Request cm) \<notin> (rq_ID \<circ> cm_Request) ` set (nd_commands nd)"
      using assms(2) False by (auto simp: node_ok_def)
    with ran show ?thesis using assms(2) False
      by (auto simp: handle_unseen_def Let_def node_ok_def handleOne_seen)
  qed
qed (use assms in \<open>simp add: handle_unseen_def\<close>)

lemma node_ok_loop:
  assumes "Default jc = Inr reg" "node_ok cr jc cfg nd"
  shows "node_ok cr jc cfg (runner_loop cr jc reg run cfg polls nd)"
proof -
  have f: "node_ok cr jc cfg (fold (handle_unseen cr jc reg run cfg now) requests nd)" if "node_ok cr jc cfg nd" for now requests nd
    using that by (induction requests arbitrary: nd) (simp_all add: node_ok_handle [OF assms(1)])
  have t: "node_ok cr jc cfg (runner_tick cr jc reg run cfg now pending nd)" if "node_ok cr jc cfg nd" for now pending nd
    using that f by (simp add: runner_tick_def split: option.split)
  show ?thesis using assms(2) unfolding runner_loop_def
    by (induction polls arbitrary: nd) (auto simp: t)
qed

text \<open>
  C34: The runner only executes what it is authorised to, and each request at most once.  Over any sequence of
  polls, whatever the control plane returns, every process the runner starts belongs to a request whose
  signature verifies under the pinned key over exactly its fields and which had not expired when it was
  started, that the node's mode permits, and that a capability declared on the node itself covers; and no
  two processes belong to the same request.
\<close>
theorem runner_executes_authorised_once:
  assumes "Default jc = Inr reg" "nd = runner_loop cr jc reg run cfg polls fresh_node"
  shows "(\<forall>cm \<in> set (nd_commands nd).
        (\<exists>sig b. cr_decode cr (rq_Signature (cm_Request cm)) = Some sig
           \<and> signingBytes cr (wire_request (cm_Request cm)) = Some b \<and> cr_verify cr b sig)
      \<and> (rq_ExpiresAt (cm_Request cm) = 0 \<or> cm_At cm \<le> rq_ExpiresAt (cm_Request cm))
      \<and> \<not> (rc_DryRunOnly cfg \<and> rq_Phase (cm_Request cm) = PhaseExecute)
      \<and> (\<exists>c \<in> set (rc_Capabilities cfg). cap_Type c = rq_ActionType (cm_Request cm)
           \<and> covers jc c (rq_ParametersJSON (cm_Request cm))))
    \<and> distinct (map (rq_ID \<circ> cm_Request) (nd_commands nd))"
proof -
  have v: "(\<exists>sig b. cr_decode cr (rq_Signature r) = Some sig \<and> signingBytes cr (wire_request r) = Some b \<and> cr_verify cr b sig)
      \<and> (rq_ExpiresAt r = 0 \<or> t \<le> rq_ExpiresAt r)" if "Verifier_Verify cr (wire_request r) t = None" for r t
    using that by (auto simp: Verifier_Verify_def IsZero_def split: if_splits option.splits)
  have "node_ok cr jc cfg nd"
    unfolding assms(2) using assms(1) by (intro node_ok_loop) (simp_all add: node_ok_def fresh_node_def)
  then show ?thesis using v unfolding node_ok_def authorised_def by blast
qed

section \<open>Splitting a command ignores surrounding space\<close>

lemma strip_prefixes_decomp: "\<exists>ws. set ws \<subseteq> set es \<and> s = concat ws @ strip_prefixes es s"
proof (induction es s rule: strip_prefixes.induct)
  case (1 es s)
  show ?case
  proof (cases "find (\<lambda>e. e \<noteq> [] \<and> prefix e s) es")
    case None
    then have "strip_prefixes es s = s" by (subst strip_prefixes.simps) simp
    then show ?thesis by (intro exI [of _ "[]"]) simp
  next
    case (Some e)
    then have e: "e \<noteq> []" "prefix e s" "e \<in> set es" by (auto simp: find_Some_iff)
    then have "s \<noteq> []" by auto
    then obtain ws where "set ws \<subseteq> set es" "drop (length e) s = concat ws @ strip_prefixes es (drop (length e) s)"
      using 1 [OF Some e(1)] by blast
    moreover have "strip_prefixes es s = strip_prefixes es (drop (length e) s)"
      using Some e(1) \<open>s \<noteq> []\<close> by (subst strip_prefixes.simps) simp
    moreover have "s = e @ drop (length e) s" using e(2) by (auto simp: prefix_def)
    ultimately show ?thesis using e(3) by (intro exI [of _ "e # ws"]) simp
  qed
qed

lemma find_space:
  assumes "e \<in> set space_encodings" "prefix e s"
  shows "find (\<lambda>e. e \<noteq> [] \<and> prefix e s) space_encodings = Some e"
proof -
  have e: "e \<noteq> []" using assms(1) space_encodings_facts(3) by auto
  then obtain d where d: "find (\<lambda>e. e \<noteq> [] \<and> prefix e s) space_encodings = Some d"
    using assms by (cases "find (\<lambda>e. e \<noteq> [] \<and> prefix e s) space_encodings") (auto simp: find_None_iff)
  then have "d \<in> set space_encodings" "prefix d s" by (auto simp: find_Some_iff)
  then have "d = e" using assms space_encodings_facts(1) unfolding prefix_free_def list_all_iff
    by (metis prefix_same_cases)
  then show ?thesis using d by simp
qed

lemma Fields_from_space:
  assumes "e \<in> set space_encodings"
  shows "Fields_from word (e @ s) = (if word = [] then [] else [word]) @ Fields_from [] s"
proof -
  have "e \<noteq> []" using assms space_encodings_facts(3) by metis
  then obtain c e' where e: "e = c # e'" by (meson neq_Nil_conv)
  show ?thesis using find_space [OF assms, of "e @ s"] by (simp add: e Fields_from.simps(2))
qed

lemma Fields_from_spaces: "set ws \<subseteq> set space_encodings \<Longrightarrow> Fields_from [] (concat ws @ s) = Fields_from [] s"
  by (induction ws) (simp_all add: Fields_from_space)

lemma Fields_from_trailing:
  assumes "set vs \<subseteq> set space_encodings"
  shows "Fields_from word (s @ concat vs) = Fields_from word s"
proof (induction word s rule: Fields_from.induct)
  case (1 word)
  show ?case
  proof (cases vs)
    case (Cons v vs')
    then show ?thesis using assms Fields_from_space [of v word "concat vs'"] Fields_from_spaces [of vs' "[]"] by simp
  qed simp
next
  case (2 word c s)
  show ?case
  proof (cases "find (\<lambda>e. e \<noteq> [] \<and> prefix e (c # s)) space_encodings")
    case None
    then have "no_prefix_of space_encodings (c # s)" by (auto simp: no_prefix_of_def find_None_iff)
    from no_straddling [OF this assms]
    have "find (\<lambda>e. e \<noteq> [] \<and> prefix e (c # s @ concat vs)) space_encodings = None"
      by (auto simp: no_prefix_of_def find_None_iff)
    with None show ?thesis using 2(1) by (simp add: Fields_from.simps(2))
  next
    case (Some e)
    then have e: "e \<in> set space_encodings" "prefix e (c # s)" "e \<noteq> []" by (auto simp: find_Some_iff)
    then have f: "find (\<lambda>e. e \<noteq> [] \<and> prefix e (c # s @ concat vs)) space_encodings = Some e"
      using find_space [OF e(1), of "c # s @ concat vs"] prefix_prefix [OF e(2), of "concat vs"] by simp
    have "length e - 1 \<le> length s" using e(2) prefix_length_le by fastforce
    then show ?thesis using Some f 2(2) by (simp add: Fields_from.simps(2))
  qed
qed

lemma Fields_TrimSpace: "Fields (TrimSpace s) = Fields s"
proof -
  define l where "l = strip_prefixes space_encodings s"
  define r where "r = strip_prefixes (map rev space_encodings) (rev l)"
  obtain ws where ws: "set ws \<subseteq> set space_encodings" "s = concat ws @ l"
    unfolding l_def using strip_prefixes_decomp by blast
  obtain us where us: "set us \<subseteq> set (map rev space_encodings)" "rev l = concat us @ r"
    unfolding r_def using strip_prefixes_decomp by blast
  define vs where "vs = rev (map rev us)"
  have "set vs \<subseteq> set space_encodings" using us(1) by (auto simp: vs_def)
  moreover have "rev (rev l) = rev r @ rev (concat us)" unfolding us(2) by simp
  then have "l = rev r @ concat vs" by (simp add: vs_def rev_concat rev_map)
  moreover have "TrimSpace s = rev r" by (simp add: TrimSpace_def l_def r_def)
  ultimately show ?thesis using ws Fields_from_trailing [of vs "[]" "rev r"] Fields_from_spaces [of ws l]
    by (simp add: Fields_def)
qed

text \<open>
  The command line is the prescribed one.  Every process the runner starts is \<open>systemctl\<close> for a systemd
  request, \<open>docker\<close> for a container request and \<open>kubectl\<close> for a workload request; for an allowlist request
  its whole argument vector is the split of a command that the node's own configuration lists.
\<close>
theorem runner_command_line:
  assumes "Default jc = Inr reg" "cm \<in> set (nd_commands (runner_loop cr jc reg run cfg polls fresh_node))"
  shows "(rq_ActionType (cm_Request cm) = RestartSystemdServiceType \<and> cm_Name cm = ''systemctl'')
    \<or> (rq_ActionType (cm_Request cm) = RestartDockerContainerType \<and> cm_Name cm = ''docker'')
    \<or> (rq_ActionType (cm_Request cm) = RestartK8sWorkloadType \<and> cm_Name cm = ''kubectl'')
    \<or> (rq_ActionType (cm_Request cm) = RunShellAllowlistType
        \<and> (\<exists>c \<in> set (rc_Capabilities cfg). \<exists>cmds. constraint_list (cap_Constraints c) ''commands'' = Some cmds
              \<and> (\<exists>allowed \<in> set cmds. cm_Name cm # cm_Args cm = Fields allowed)))"
proof -
  have "node_ok cr jc cfg (runner_loop cr jc reg run cfg polls fresh_node)"
    using assms(1) by (intro node_ok_loop) (simp_all add: node_ok_def fresh_node_def)
  then have au: "authorised cr jc cfg cm" using assms(2) by (simp add: node_ok_def)
  then have p: "prescribed jc (cm_Request cm) (cm_Name cm) (cm_Args cm)" by (simp add: authorised_def)
  show ?thesis
  proof (cases "rq_ActionType (cm_Request cm) = RunShellAllowlistType")
    case True
    obtain command where cmd: "jc_shell jc (rq_ParametersJSON (cm_Request cm)) = Inr command"
        "cm_Name cm # cm_Args cm = Fields command"
      using p True by (auto simp: prescribed_def)
    obtain c where c: "c \<in> set (rc_Capabilities cfg)" "cap_Type c = RunShellAllowlistType"
        "covers jc c (rq_ParametersJSON (cm_Request cm))"
      using au True by (auto simp: authorised_def)
    obtain cmds allowed where al: "constraint_list (cap_Constraints c) ''commands'' = Some cmds" "allowed \<in> set cmds"
        "TrimSpace allowed = TrimSpace command"
      using c(3) cmd(1) by (auto simp: covers_simps(4) [OF c(2)])
    then have "cm_Name cm # cm_Args cm = Fields allowed" using cmd(2) Fields_TrimSpace by metis
    then show ?thesis using True c(1) al(1,2) by blast
  next
    case False
    then show ?thesis using p unfolding prescribed_def by blast
  qed
qed

section \<open>From the control plane to the node\<close>

lemma actionAllowedI:
  assumes "c \<in> set caps" "cap_Type c = req_Type wire" "map_of reg (req_Type wire) = Some t"
    and "fst (at_MatchesCapability t (req_Parameters wire) c)"
  shows "actionAllowed reg caps wire"
  using assms by (induction caps) (auto simp: registry_Get_def)

lemma zero_result_status [simp]: "rs_Status zero_result = StatusFailure"
  by (simp add: zero_result_def)

lemma Fields_from_word: "word \<noteq> [] \<Longrightarrow> Fields_from word s \<noteq> []"
  by (induction word s rule: Fields_from.induct) (auto simp: Fields_from.simps(2) split: option.split)

lemma Fields_from_Nil: "word = [] \<Longrightarrow> Fields_from word s = [] \<Longrightarrow> \<exists>ws. set ws \<subseteq> set space_encodings \<and> s = concat ws"
proof (induction word s rule: Fields_from.induct)
  case (1 word)
  then show ?case by (intro exI [of _ "[]"]) simp
next
  case (2 word c s)
  then obtain e where e: "find (\<lambda>e. e \<noteq> [] \<and> prefix e (c # s)) space_encodings = Some e"
    using Fields_from_word [of "[c]" s] by (cases "find (\<lambda>e. e \<noteq> [] \<and> prefix e (c # s)) space_encodings") (simp_all add: Fields_from.simps(2))
  then have p: "e \<in> set space_encodings" "e \<noteq> []" "prefix e (c # s)" by (auto simp: find_Some_iff)
  obtain ws where ws: "set ws \<subseteq> set space_encodings" "drop (length e - 1) s = concat ws"
    using 2 e by (auto simp: Fields_from.simps(2))
  have "c # s = e @ drop (length e - 1) s" using p(2,3) by (cases e) (auto simp: prefix_def)
  then show ?case using ws p(1) by (intro exI [of _ "e # ws"]) simp
qed

lemma Fields_nonempty: assumes "TrimSpace s \<noteq> []" shows "Fields s \<noteq> []"
proof
  assume "Fields s = []"
  then obtain ws where "set ws \<subseteq> set space_encodings" "s = concat ws" using Fields_from_Nil by (auto simp: Fields_def)
  then have "strip_prefixes space_encodings s = strip_prefixes space_encodings []"
    using strip_prefixes_run [OF space_encodings_facts(1) _ space_encodings_facts(3), of ws "[]"] by simp
  then show False using assms by (simp add: TrimSpace_def strip_prefixes_stop no_prefix_of_def)
qed

text \<open>What an action asks the host to do: the program to start and its arguments.\<close>

definition action_command :: "Codec \<Rightarrow> string \<Rightarrow> string \<Rightarrow> (string \<times> string list) option" where
  "action_command jc typ js =
     (if typ = ''restart-systemd-service'' then
        (case jc_systemd jc js of
           Inr p \<Rightarrow> Some (''systemctl'', [if sp_RestartStrategy p = [] then ''restart'' else sp_RestartStrategy p, sp_UnitName p])
         | Inl _ \<Rightarrow> None)
      else if typ = ''restart-docker-container'' then
        (case jc_docker jc js of
           Inr p \<Rightarrow> Some (''docker'', [''restart'', ''--time'', if dk_TimeoutSeconds p = 0 then ''10'' else itoa (dk_TimeoutSeconds p), dk_Container p])
         | Inl _ \<Rightarrow> None)
      else if typ = ''restart-k8s-workload'' then
        (case jc_k8s jc js of
           Inr p \<Rightarrow> Some (''kubectl'', [''rollout'', ''restart'', normalizeK8sKind jc (k8_Kind p) @ ''/'' @ k8_Name p, ''-n'', k8_Namespace p])
         | Inl _ \<Rightarrow> None)
      else if typ = ''run-shell-allowlist'' then
        (case jc_shell jc js of
           Inr command \<Rightarrow> (case Fields command of [] \<Rightarrow> None | program # args \<Rightarrow> Some (program, args))
         | Inl _ \<Rightarrow> None)
      else None)"

text \<open>A request with valid parameters is carried out: one process is started and its outcome is the result.\<close>

lemma ExecuteRequest_executes:
  assumes "Default jc = Inr reg" "map_of reg (rq_ActionType stored) = Some ty" "at_ValidateParameters ty (rq_ParametersJSON stored) = None"
    and "rq_Phase stored = PhaseExecute"
  shows "\<exists>name args. action_command jc (rq_ActionType stored) (rq_ParametersJSON stored) = Some (name, args)
    \<and> snd (ExecuteRequest jc run stored now (wire_request stored) nd)
        = nd\<lparr>nd_commands := nd_commands nd @ [\<lparr>cm_Request = stored, cm_At = now, cm_Name = name, cm_Args = args\<rparr>]\<rparr>
    \<and> rs_Status (fst (ExecuteRequest jc run stored now (wire_request stored) nd))
        = (case run (length (nd_commands nd)) name args of (out, err, code, e) \<Rightarrow> if e = None \<and> code = 0 then StatusSuccess else StatusFailure)"
proof -
  have status: "rs_Status (executed data r) = (case r of (out, err, code, e) \<Rightarrow> if e = None \<and> code = 0 then StatusSuccess else StatusFailure)" for data r
    by (auto simp: executed_def Let_def split: prod.split option.split)
  note run_simps = ExecuteRequest_def run_command_def action_command_def status Let_def
  show ?thesis using assms(1,2)
  proof (cases rule: Default_lookup)
    case 1
    with assms(3) have "validateRestartDockerParameters jc (rq_ParametersJSON stored) = None" by (simp add: action_type_defs)
    from validate_docker [OF this] 1 assms(4) show ?thesis by (auto simp: run_simps executeRestartDocker_def)
  next
    case 2
    with assms(3) have "validateRestartK8sParameters jc (rq_ParametersJSON stored) = None" by (simp add: action_type_defs)
    from validate_k8s [OF this] 2 assms(4) show ?thesis by (auto simp: run_simps executeRestartK8s_def)
  next
    case 3
    with assms(3) have "validateRestartSystemdParameters jc (rq_ParametersJSON stored) = None" by (simp add: action_type_defs)
    from validate_systemd [OF this] 3 assms(4) show ?thesis by (auto simp: run_simps executeRestartSystemd_def)
  next
    case 4
    with assms(3) have "validateRunShellAllowlistParameters jc (rq_ParametersJSON stored) = None" by (simp add: action_type_defs)
    then obtain command where "jc_shell jc (rq_ParametersJSON stored) = Inr command" "TrimSpace command \<noteq> []"
      by (cases "jc_shell jc (rq_ParametersJSON stored)") (auto simp: validateRunShellAllowlistParameters_def split: if_splits)
    moreover from this(2) obtain program args where "Fields command = program # args" using Fields_nonempty by (meson neq_Nil_conv)
    ultimately show ?thesis using 4 assms(4) by (auto simp: run_simps executeRunShellAllowlist_def)
  qed
qed

lemma signed_verifies:
  assumes "Sign cr now (wire_request (row\<lparr>rq_Signature := []\<rparr>)) = Some r" "rq_Signature row = req_Signature r"
    and "rq_IssuedAt row \<noteq> 0" "rq_ExpiresAt row \<noteq> 0" "t \<le> rq_ExpiresAt row"
    and "\<And>b. cr_verify cr b (cr_sign cr b)" "\<And>x. cr_decode cr (cr_encode cr x) = Some x" "\<And>x. cr_encode cr x \<noteq> []"
  shows "Verifier_Verify cr (wire_request row) t = None"
proof -
  have same: "signing_payload (wire_request (row\<lparr>rq_Signature := []\<rparr>)) = signing_payload (wire_request row)"
    by (simp add: signing_payload_def wire_request_def)
  obtain b where "signingBytes cr (wire_request row) = Some b" "rq_Signature row = cr_encode cr (cr_sign cr b)"
    using assms(1-4) same by (auto simp: Sign_def IsZero_def signingBytes_def Let_def split: option.splits)
  then show ?thesis using assms(4-8) by (simp add: Verifier_Verify_def IsZero_def)
qed

text \<open>
  C36: A dispatched action is carried out.  Suppose the control plane signs with a scheme whose signatures
  verify and whose text encoding round-trips, both sides use the built-in action types, the runner declared to the
  control plane the capabilities it was configured with and is not configured for dry runs only, and it polls the
  stored request for the first time before it expires.  Then the runner starts exactly one process, the command
  line the action and its parameters ask for, on behalf of this request; and it posts one result for it, a
  success if the process could be run and exited with code 0 and a failure otherwise.
\<close>
theorem dispatched_action_is_executed:
  assumes "Dispatch env d now ctx planID k spec actor w = (Inr (reqID, expires), w')"
    and "Default jc = Inr (dp_registry d)"
    and "dp_signer d = Some (\<lambda>q. map_option req_Signature (Sign cr now (wire_request q)))"
    and "\<And>b. cr_verify cr b (cr_sign cr b)" "\<And>x. cr_decode cr (cr_encode cr x) = Some x" "\<And>x. cr_encode cr x \<noteq> []"
    and "\<And>reg. map_of (w_runners w) (as_RunnerID spec) = Some reg \<Longrightarrow>
           dp_unmarshalCaps d (rn_CapabilitiesJSON reg) = Some (rc_Capabilities cfg)"
    and "\<not> rc_DryRunOnly cfg" "0 < now" "0 < t" "t \<le> expires" "reqID \<notin> set (nd_seen nd)"
  shows "\<exists>row name args post. map_of (w_requests w') reqID = Some row
    \<and> action_command jc (as_ActionType spec) (if as_Parameters spec = [] then ''{}'' else as_Parameters spec) = Some (name, args)
    \<and> nd_commands (handle_unseen cr jc (dp_registry d) run cfg t row nd)
        = nd_commands nd @ [\<lparr>cm_Request = row, cm_At = t, cm_Name = name, cm_Args = args\<rparr>]
    \<and> nd_posts (handle_unseen cr jc (dp_registry d) run cfg t row nd) = nd_posts nd @ [post] \<and> po_ID post = reqID
    \<and> po_Status post = (case run (length (nd_commands nd)) name args of (out, err, code, e) \<Rightarrow> if e = None \<and> code = 0 then StatusSuccess else StatusFailure)"
proof -
  obtain sign ty reg caps c row params where dis: "dp_signer d = Some sign"
      "map_of (dp_registry d) (as_ActionType spec) = Some ty"
      "map_of (w_runners w) (as_RunnerID spec) = Some reg"
      "dp_unmarshalCaps d (rn_CapabilitiesJSON reg) = Some caps" "c \<in> set caps"
      "cap_Type c = as_ActionType spec" "fst (at_MatchesCapability ty params c)"
      "map_of (w_requests w') reqID = Some row" "rq_ActionType row = as_ActionType spec"
      "rq_ParametersJSON row = params" "sign (row\<lparr>rq_Signature := []\<rparr>) = Some (rq_Signature row)"
      "rq_ExpiresAt row = expires" "rq_IssuedAt row = now"
      and valid: "at_ValidateParameters ty params = None" "rq_Phase row = PhaseExecute"
        "params = (if as_Parameters spec = [] then ''{}'' else as_Parameters spec)"
    using dispatch_ok [OF assms(1)] by metis
  have id_row: "rq_ID row = reqID" using dispatch_row_id [OF assms(1) dis(8)] .
  have caps: "caps = rc_Capabilities cfg" using assms(7) [OF dis(3)] dis(4) by simp
  obtain r where "Sign cr now (wire_request (row\<lparr>rq_Signature := []\<rparr>)) = Some r" "rq_Signature row = req_Signature r"
    using dis(1,11) assms(3) by auto
  from signed_verifies [OF this _ _ _ assms(4-6), of t]
  have v: "Verifier_Verify cr (wire_request row) t = None" using dis(12,13) assms(9-11) by simp
  have al: "actionAllowed (dp_registry d) (rc_Capabilities cfg) (wire_request row)"
    using dis caps by (intro actionAllowedI [of c _ _ _ ty]) simp_all
  obtain name args where ex: "action_command jc (rq_ActionType row) (rq_ParametersJSON row) = Some (name, args)"
      "snd (ExecuteRequest jc run row t (wire_request row) nd)
         = nd\<lparr>nd_commands := nd_commands nd @ [\<lparr>cm_Request = row, cm_At = t, cm_Name = name, cm_Args = args\<rparr>]\<rparr>"
      "rs_Status (fst (ExecuteRequest jc run row t (wire_request row) nd))
         = (case run (length (nd_commands nd)) name args of (out, err, code, e) \<Rightarrow> if e = None \<and> code = 0 then StatusSuccess else StatusFailure)"
    using ExecuteRequest_executes [OF assms(2), of row ty run t nd] dis(2,9,10) valid(1,2) by auto
  have "handle_unseen cr jc (dp_registry d) run cfg t row nd =
      (let (result, nd') = ExecuteRequest jc run row t (wire_request row) nd;
           nd'' = postResult reqID (result\<lparr>rs_RequestID := reqID, rs_Phase := PhaseExecute\<rparr>) nd'
       in nd''\<lparr>nd_seen := reqID # nd_seen nd''\<rparr>)"
    using v al assms(8,12) id_row valid(2) by (simp add: handle_unseen_def handleOne_def Let_def split: prod.split)
  then show ?thesis using ex dis(8-10) valid(3)
    by (intro exI [of _ row] exI [of _ name] exI [of _ args]) (simp add: split_beta Let_def postResult_def)
qed

definition toy_crypto :: Crypto where
  "toy_crypto = \<lparr>cr_marshal = (\<lambda>p. Some (sg_RequestID p @ sg_RunnerID p @ sg_Parameters p)), cr_sign = (\<lambda>b. CHR ''s'' # b),
     cr_verify = (\<lambda>b sig. sig = CHR ''s'' # b), cr_encode = (\<lambda>x. CHR ''='' # x),
     cr_decode = (\<lambda>x. case x of [] \<Rightarrow> None | c # y \<Rightarrow> Some y), cr_text = (\<lambda>_. [])\<rparr>"

definition nginx_config :: RunnerConfig where
  "nginx_config = \<lparr>rc_RunnerID = ''h1'', rc_Capabilities = [nginx_capability], rc_DryRunOnly = False\<rparr>"

text \<open>A request for a unit, signed under the toy scheme for the given runner.\<close>

definition nginx_request :: "string \<Rightarrow> ActionRequest" where
  "nginx_request runner = \<lparr>rq_ID = ''q1'', rq_ProposalID = [], rq_RunnerID = runner, rq_ActionType = RestartSystemdServiceType,
     rq_ParametersJSON = ''nginx.service'', rq_Signature = ''=sq1'' @ runner @ ''nginx.service'', rq_Phase = PhaseExecute,
     rq_Status = ''pending'', rq_DeniedFor = [], rq_DryRunOutputJSON = [], rq_ExecutionOutputJSON = [],
     rq_IssuedAt = 5, rq_ExpiresAt = 65, rq_StartedAt = None, rq_CompletedAt = None\<rparr>"

definition quiet_run :: CommandRunner where
  "quiet_run = (\<lambda>_ _ _. ([], [], 0, None))"

definition two_polls :: "string \<Rightarrow> (gotime \<times> ActionRequest list option) list" where
  "two_polls runner = [(10, Some [nginx_request runner]), (20, None), (30, Some [nginx_request runner])]"

lemma plain_registry: "Default plain_codec = Inr (default_registry plain_codec)"
  by (simp add: default_registry_def Default_registers)

lemma nginx_runs:
  "map (\<lambda>cm. (cm_Name cm, cm_Args cm, cm_At cm)) (nd_commands (runner_loop toy_crypto plain_codec (default_registry plain_codec)
     quiet_run nginx_config (two_polls runner) fresh_node)) = [(''systemctl'', [''restart'', ''nginx.service''], 10)]"
  if "runner = ''h1'' \<or> runner = ''h2''" for runner
  using that by (elim disjE) (simp_all only:, code_simp+)

theorem runner_executes_authorised_once_witness:
  "\<exists>cm. nd_commands (runner_loop toy_crypto plain_codec (default_registry plain_codec) quiet_run nginx_config
       (two_polls ''h1'') fresh_node) = [cm]
     \<and> (rq_ExpiresAt (cm_Request cm) = 0 \<or> cm_At cm \<le> rq_ExpiresAt (cm_Request cm))"
proof -
  define nd where "nd = runner_loop toy_crypto plain_codec (default_registry plain_codec) quiet_run nginx_config (two_polls ''h1'') fresh_node"
  obtain cm where "nd_commands nd = [cm]" using nginx_runs [of "''h1''"] unfolding nd_def by auto
  then show ?thesis using runner_executes_authorised_once [OF plain_registry nd_def] unfolding nd_def [symmetric] by auto
qed

theorem runner_command_line_witness:
  "\<exists>cm. nd_commands (runner_loop toy_crypto plain_codec (default_registry plain_codec) quiet_run nginx_config
       (two_polls ''h1'') fresh_node) = [cm] \<and> rq_ActionType (cm_Request cm) \<noteq> RunShellAllowlistType \<and> cm_Name cm = ''systemctl''"
proof -
  define nd where "nd = runner_loop toy_crypto plain_codec (default_registry plain_codec) quiet_run nginx_config (two_polls ''h1'') fresh_node"
  obtain cm where cm: "nd_commands nd = [cm]" "cm_Name cm = ''systemctl''"
    using nginx_runs [of "''h1''"] unfolding nd_def by auto
  have "\<not> (\<exists>c \<in> set (rc_Capabilities nginx_config). \<exists>cmds. constraint_list (cap_Constraints c) ''commands'' = Some cmds)"
    by (simp add: nginx_config_def nginx_capability_def constraint_list_def)
  then show ?thesis
    using runner_command_line [OF plain_registry, of cm toy_crypto quiet_run nginx_config "two_polls ''h1''"] cm
    unfolding nd_def [symmetric] by auto
qed

definition toy_dispatcher :: Dispatcher where
  "toy_dispatcher = nginx_dispatcher\<lparr>dp_signer := Some (\<lambda>q. map_option req_Signature (Sign toy_crypto 5 (wire_request q)))\<rparr>"

theorem dispatched_action_is_executed_witness:
  "\<exists>reqID expires w' row post. Dispatch sample_env toy_dispatcher 5 background_ctx ''p'' 0 nginx_spec ''op''
       (empty_world\<lparr>w_runners := [(''h1'', sample_runner)]\<rparr>) = (Inr (reqID, expires), w')
     \<and> map_of (w_requests w') reqID = Some row
     \<and> nd_commands (handle_unseen toy_crypto plain_codec (default_registry plain_codec) quiet_run nginx_config 7 row fresh_node)
         = [\<lparr>cm_Request = row, cm_At = 7, cm_Name = ''systemctl'', cm_Args = [''restart'', ''nginx.service'']\<rparr>]
     \<and> nd_posts (handle_unseen toy_crypto plain_codec (default_registry plain_codec) quiet_run nginx_config 7 row fresh_node) = [post]
     \<and> po_Status post = StatusSuccess"
proof -
  define w where "w = empty_world\<lparr>w_runners := [(''h1'', sample_runner)]\<rparr>"
  have "dispatch_refusal toy_dispatcher nginx_spec ''nginx.service'' w = None" unfolding w_def by code_simp
  then have "\<exists>reqID w'. Dispatch sample_env toy_dispatcher 5 background_ctx ''p'' 0 nginx_spec ''op'' w
      = (Inr (reqID, 60000000005), w')"
    by (simp add: Dispatch_def Let_def nginx_spec_def fresh_uuid_def toy_dispatcher_def nginx_dispatcher_def
        CreateActionRequest_def w_def empty_world_def Sign_def signingBytes_def toy_crypto_def wire_request_def IsZero_def
        int64_def)
  then obtain reqID w' where d: "Dispatch sample_env toy_dispatcher 5 background_ctx ''p'' 0 nginx_spec ''op'' w
      = (Inr (reqID, 60000000005), w')" by blast
  have r: "Default plain_codec = Inr (dp_registry toy_dispatcher)" "dp_registry toy_dispatcher = default_registry plain_codec"
    by (simp_all add: toy_dispatcher_def nginx_dispatcher_def plain_registry)
  have s: "dp_signer toy_dispatcher = Some (\<lambda>q. map_option req_Signature (Sign toy_crypto 5 (wire_request q)))"
    by (simp add: toy_dispatcher_def)
  from dispatched_action_is_executed [OF d r(1) s, of nginx_config 7 fresh_node quiet_run]
  show ?thesis using d unfolding w_def r(2)
    by (auto simp: toy_crypto_def nginx_config_def fresh_node_def toy_dispatcher_def nginx_dispatcher_def
        action_command_def nginx_spec_def plain_codec_def quiet_run_def)
qed

text \<open>
  The runner does not check whom a request is for.  A correctly signed, unexpired request that the node's
  capabilities cover is executed even when its signed runner id is that of another runner, and without the
  parameter validation the control plane performs before signing.
\<close>
theorem runner_ignores_addressee:
  assumes "Verifier_Verify cr (wire_request stored) now = None" "\<not> rc_DryRunOnly cfg"
    and "actionAllowed reg (rc_Capabilities cfg) (wire_request stored)"
    and "rq_RunnerID stored \<noteq> rc_RunnerID cfg" "rq_ID stored \<notin> set (nd_seen nd)"
    and "rq_ActionType stored = RestartSystemdServiceType" "rq_Phase stored = PhaseExecute"
    and "jc_systemd jc (rq_ParametersJSON stored) = Inr p" "sp_RestartStrategy p = []"
  shows "nd_commands (handle_unseen cr jc reg run cfg now stored nd) = nd_commands nd @
    [\<lparr>cm_Request = stored, cm_At = now, cm_Name = ''systemctl'', cm_Args = [''restart'', sp_UnitName p]\<rparr>]"
  using assms
  by (simp add: handle_unseen_def handleOne_def Let_def ExecuteRequest_def executeRestartSystemd_def run_command_def)

theorem runner_ignores_addressee_witness:
  "map cm_Args (nd_commands (handle_unseen toy_crypto plain_codec (default_registry plain_codec) quiet_run nginx_config 10
     (nginx_request ''h2'') fresh_node)) = [[''restart'', ''nginx.service'']]"
proof -
  have v: "Verifier_Verify toy_crypto (wire_request (nginx_request ''h2'')) 10 = None" by code_simp
  have a: "actionAllowed (default_registry plain_codec) (rc_Capabilities nginx_config) (wire_request (nginx_request ''h2''))"
    by code_simp
  show ?thesis
    using runner_ignores_addressee [OF v _ a, of fresh_node plain_codec "\<lparr>sp_UnitName = ''nginx.service'', sp_RestartStrategy = []\<rparr>" quiet_run]
    by (simp add: nginx_config_def nginx_request_def fresh_node_def plain_codec_def)
qed

end
