(* ===== verification/Action_Api.thy ===== *)
theory Action_Api
  imports Action_Runner
begin

text \<open>
  The HTTP surface of the action protocol (\<open>api/handlers/actions.go\<close>): enrolling and revoking runners,
  polling, dispatching and reporting results, over the action tables of \<open>memory/actions.go\<close>.  Decoding the
  request body belongs to the web framework, so a handler is given the decoded body, or \<open>None\<close> when
  decoding failed; it returns the kind of its response.
\<close>

section \<open>Runner table\<close>

definition CreateActionRunnerRegistration :: "gotime \<Rightarrow> ActionRunnerRegistration \<Rightarrow> World \<Rightarrow> World result" where
  "CreateActionRunnerRegistration now r w =
     (if map_of (w_runners w) (rn_RunnerID r) \<noteq> None
      then Inl (OtherError ''action runner registration already exists'')
      else let r1 = (if IsZero (rn_RegisteredAt r) then r\<lparr>rn_RegisteredAt := now\<rparr> else r);
               r2 = (if IsZero (rn_LastSeenAt r1) then r1\<lparr>rn_LastSeenAt := rn_RegisteredAt r1\<rparr> else r1)
           in Inr (w\<lparr>w_runners := AList.update (rn_RunnerID r) r2 (w_runners w)\<rparr>))"

definition UpdateActionRunnerRegistration :: "ActionRunnerRegistration \<Rightarrow> World \<Rightarrow> World result" where
  "UpdateActionRunnerRegistration r w =
     (if map_of (w_runners w) (rn_RunnerID r) = None
      then Inl (OtherError ''action runner registration not found'')
      else Inr (w\<lparr>w_runners := AList.update (rn_RunnerID r) r (w_runners w)\<rparr>))"

definition RevokeActionRunnerRegistration :: "string \<Rightarrow> gotime \<Rightarrow> World \<Rightarrow> World result" where
  "RevokeActionRunnerRegistration runnerID t w =
     (case map_of (w_runners w) runnerID of
        None \<Rightarrow> Inl (OtherError ''action runner registration not found'')
      | Some r \<Rightarrow> Inr (w\<lparr>w_runners := AList.update runnerID (r\<lparr>rn_RevokedAt := Some t\<rparr>) (w_runners w)\<rparr>))"

record ActionRequestFilter =
  arf_ProposalID :: string
  arf_RunnerID :: string
  arf_Status :: string
  arf_Limit :: int

text \<open>Newest first; requests issued at the same instant keep the map's iteration order.\<close>

definition ListActionRequests :: "ActionRequestFilter \<Rightarrow> World \<Rightarrow> ActionRequest list" where
  "ListActionRequests f w =
     (let limit = (if arf_Limit f \<le> 0 then 100 else if arf_Limit f > 1000 then 1000 else arf_Limit f);
          wanted = filter (\<lambda>r. (arf_ProposalID f = [] \<or> rq_ProposalID r = arf_ProposalID f)
                     \<and> (arf_RunnerID f = [] \<or> rq_RunnerID r = arf_RunnerID f)
                     \<and> (arf_Status f = [] \<or> rq_Status r = arf_Status f)) (map snd (w_requests w))
      in take (nat limit) (sort_key (\<lambda>r. - rq_IssuedAt r) wanted))"

section \<open>Handlers\<close>

record ActionsHandlers =
  h_signer :: "Crypto option"
  h_registry :: Registry
  h_marshalCaps :: "Capability list \<Rightarrow> string option"
  h_unmarshalCaps :: "string \<Rightarrow> Capability list option"
  h_quote :: "string \<Rightarrow> string"

record RegisterRunnerRequest =
  rg_RunnerID :: string
  rg_Hostname :: string
  rg_PublicKeyPEM :: string
  rg_Capabilities :: "Capability list"

definition HandleRegisterRunner ::
  "ActionsHandlers \<Rightarrow> gotime \<Rightarrow> RegisterRunnerRequest option \<Rightarrow> World \<Rightarrow> ActionRunnerRegistration http_reply \<times> World" where
  "HandleRegisterRunner h now body w =
     (case body of
        None \<Rightarrow> (BadRequest ''invalid request body'' [], w)
      | Some req \<Rightarrow>
          (case h_marshalCaps h (rg_Capabilities req) of
             None \<Rightarrow> (BadRequest ''capabilities not serializable'' [], w)
           | Some capsJSON \<Rightarrow>
               let reg = \<lparr>rn_RunnerID = rg_RunnerID req, rn_Hostname = rg_Hostname req,
                          rn_PublicKeyPEM = rg_PublicKeyPEM req, rn_CapabilitiesJSON = capsJSON,
                          rn_RegisteredAt = now, rn_LastSeenAt = now, rn_RevokedAt = None\<rparr>
               in (case GetActionRunnerRegistration (rg_RunnerID req) w of
                     None \<Rightarrow>
                       (case CreateActionRunnerRegistration now reg w of
                          Inl _ \<Rightarrow> (InternalServerError ''create failed'', w)
                        | Inr w' \<Rightarrow> (StatusOK reg, w'))
                   | Some existing \<Rightarrow>
                       let reg' = reg\<lparr>rn_RegisteredAt := rn_RegisteredAt existing\<rparr>
                       in (case UpdateActionRunnerRegistration reg' w of
                             Inl _ \<Rightarrow> (InternalServerError ''update failed'', w)
                           | Inr w' \<Rightarrow> (StatusOK reg', w')))))"

definition HandleRevokeRunner :: "gotime \<Rightarrow> string \<Rightarrow> World \<Rightarrow> string http_reply \<times> World" where
  "HandleRevokeRunner now i w =
     (case RevokeActionRunnerRegistration i now w of
        Inl _ \<Rightarrow> (NotFound ''runner not found or revoke failed'', w)
      | Inr w' \<Rightarrow> (StatusOK i, w'))"

definition HandleRunnerPending :: "gotime \<Rightarrow> string \<Rightarrow> World \<Rightarrow> ActionRequest list http_reply \<times> World" where
  "HandleRunnerPending now i w =
     (let requests = ListActionRequests \<lparr>arf_ProposalID = [], arf_RunnerID = i, arf_Status = ''pending'', arf_Limit = 50\<rparr> w;
          w' = (case GetActionRunnerRegistration i w of
                  None \<Rightarrow> w
                | Some reg \<Rightarrow>
                    (case UpdateActionRunnerRegistration (reg\<lparr>rn_LastSeenAt := now\<rparr>) w of Inl _ \<Rightarrow> w | Inr w' \<Rightarrow> w'))
      in (StatusOK requests, w'))"

record DispatchActionRequest =
  da_ProposalID :: string
  da_RunnerID :: string
  da_ActionType :: string
  da_Parameters :: string
  da_Phase :: string

text \<open>The checks before signing, in the order of the code; \<open>None\<close> when the request may be signed.\<close>

definition api_refusal :: "ActionsHandlers \<Rightarrow> DispatchActionRequest \<Rightarrow> World \<Rightarrow> ActionRequest http_reply option" where
  "api_refusal h req w =
     (case GetActionRunnerRegistration (da_RunnerID req) w of
        None \<Rightarrow> Some (NotFound ''runner not registered'')
      | Some reg \<Rightarrow>
          if rn_RevokedAt reg \<noteq> None then Some (Forbidden ''runner revoked'' [])
          else (case (if rn_CapabilitiesJSON reg = [] then Some [] else h_unmarshalCaps h (rn_CapabilitiesJSON reg)) of
              None \<Rightarrow> Some (InternalServerError ''runner capabilities corrupt'')
            | Some caps \<Rightarrow>
                (case registry_Get (h_registry h) (da_ActionType req) of
                   None \<Rightarrow> Some (BadRequest (''unknown action type '' @ h_quote h (da_ActionType req)) [])
                 | Some t \<Rightarrow>
                     (case at_ValidateParameters t (da_Parameters req) of
                        Some e \<Rightarrow> Some (BadRequest ''parameter validation failed'' e)
                      | None \<Rightarrow>
                          (case AllowsAction (h_quote h) (h_registry h) caps (da_ActionType req) (da_Parameters req) of
                             (False, reason) \<Rightarrow> Some (Forbidden ''out of runner policy'' reason)
                           | (True, _) \<Rightarrow>
                               if da_Phase req \<noteq> PhaseDryRun \<and> da_Phase req \<noteq> PhaseExecute
                               then Some (BadRequest ''phase must be one of dry_run, execute'' [])
                               else None)))))"

definition HandleDispatchAction ::
  "Env \<Rightarrow> ActionsHandlers \<Rightarrow> gotime \<Rightarrow> Ctx \<Rightarrow> DispatchActionRequest option \<Rightarrow> World \<Rightarrow> ActionRequest http_reply \<times> World" where
  "HandleDispatchAction env h now ctx body w =
     (case body of
        None \<Rightarrow> (BadRequest ''invalid request body'' [], w)
      | Some req \<Rightarrow>
        (case h_signer h of
           None \<Rightarrow> (ServiceUnavailable ''action signing not configured (set SQUADRON_ACTION_SIGNING_KEY)'', w)
         | Some cr \<Rightarrow>
           (case api_refusal h req w of
              Some reply \<Rightarrow> (reply, w)
            | None \<Rightarrow>
                let (reqID, w1) = fresh_uuid env w in
                (case Sign cr now \<lparr>req_RequestID = reqID, req_ProposalID = da_ProposalID req,
                        req_RunnerID = da_RunnerID req, req_Type = da_ActionType req,
                        req_Parameters = da_Parameters req, req_IssuedAt = 0, req_ExpiresAt = 0,
                        req_Phase = da_Phase req, req_Signature = []\<rparr> of
                   None \<Rightarrow> (InternalServerError ''sign failed'', w1)
                 | Some signedReq \<Rightarrow>
                     let stored = \<lparr>rq_ID = reqID, rq_ProposalID = da_ProposalID req, rq_RunnerID = da_RunnerID req,
                           rq_ActionType = da_ActionType req, rq_ParametersJSON = da_Parameters req,
                           rq_Signature = req_Signature signedReq, rq_Phase = da_Phase req, rq_Status = ''pending'',
                           rq_DeniedFor = [], rq_DryRunOutputJSON = [], rq_ExecutionOutputJSON = [],
                           rq_IssuedAt = req_IssuedAt signedReq, rq_ExpiresAt = req_ExpiresAt signedReq,
                           rq_StartedAt = None, rq_CompletedAt = None\<rparr> in
                     (case CreateActionRequest stored w1 of
                        Inl _ \<Rightarrow> (InternalServerError ''persist failed'', w1)
                      | Inr w2 \<Rightarrow>
                          (StatusOK stored, audit env now ctx
                            \<lparr>en_Actor = [], en_EventType = ''action.dispatched'', en_TargetType = ''action_request'',
                             en_TargetID = reqID, en_Action = ''dispatched'',
                             en_Payload = Some
                               [(''runner_id'', JStr (da_RunnerID req)), (''proposal_id'', JStr (da_ProposalID req)),
                                (''action_type'', JStr (da_ActionType req)), (''phase'', JStr (da_Phase req)),
                                (''issued_at'', JTime (req_IssuedAt signedReq)), (''expires_at'', JTime (req_ExpiresAt signedReq)),
                                (''parameters_sha256'', JStr (hex_encode (sha256 (da_Parameters req))))]\<rparr> w2))))))"

definition lookupPlanForActionRequest :: "string \<Rightarrow> World \<Rightarrow> string \<times> int" where
  "lookupPlanForActionRequest i w =
     (if i = [] then ([], 0)
      else case find (\<lambda>r. ro_ActionRequestID r = i \<and> ro_PlanID r \<noteq> [])
                  (ListRollouts \<lparr>rf_GroupID = [], rf_State = None, rf_Limit = 1000, rf_PlanID = []\<rparr> (w_store w)) of
          None \<Rightarrow> ([], 0)
        | Some r \<Rightarrow> (ro_PlanID r, ro_PlanStepIndex r))"

definition actionResultEventType :: "string \<Rightarrow> string \<times> string" where
  "actionResultEventType status =
     (if status = ''success'' then (''action.executed'', ''executed'')
      else if status = ''denied'' then (''action.denied'', ''denied'')
      else (''action.failed'', ''failed''))"

record PostResultRequest =
  pr_Status :: string
  pr_DeniedFor :: string
  pr_DryRunOutputJSON :: string
  pr_ExecutionOutputJSON :: string

definition HandlePostActionResult ::
  "Env \<Rightarrow> gotime \<Rightarrow> Ctx \<Rightarrow> string \<Rightarrow> PostResultRequest option \<Rightarrow> World \<Rightarrow> ActionRequest http_reply \<times> World" where
  "HandlePostActionResult env now ctx i body w =
     (case body of
        None \<Rightarrow> (BadRequest ''invalid request body'' [], w)
      | Some b \<Rightarrow>
          if pr_Status b \<notin> {''success'', ''failure'', ''denied''}
          then (BadRequest ''status must be one of success, failure, denied'' [], w)
          else (case GetActionRequest i w of
              None \<Rightarrow> (NotFound ''action request not found'', w)
            | Some existing \<Rightarrow>
                let started = (case rq_StartedAt existing of None \<Rightarrow> now | Some st \<Rightarrow> st);
                    row = existing\<lparr>rq_Status := pr_Status b, rq_DeniedFor := pr_DeniedFor b,
                       rq_DryRunOutputJSON := (if pr_DryRunOutputJSON b \<noteq> [] then pr_DryRunOutputJSON b
                                               else rq_DryRunOutputJSON existing),
                       rq_ExecutionOutputJSON := (if pr_ExecutionOutputJSON b \<noteq> [] then pr_ExecutionOutputJSON b
                                                  else rq_ExecutionOutputJSON existing),
                       rq_StartedAt := Some started, rq_CompletedAt := Some now\<rparr>
                in (case UpdateActionRequest row w of
                      Inl _ \<Rightarrow> (InternalServerError ''update failed'', w)
                    | Inr w1 \<Rightarrow>
                        let (eventType, action) = actionResultEventType (pr_Status b);
                            (planID, stepIndex) = lookupPlanForActionRequest (rq_ID existing) w1
                        in (StatusOK row, audit env now ctx
                             \<lparr>en_Actor = AuditActorSystem, en_EventType = eventType, en_TargetType = ''action_request'',
                              en_TargetID = rq_ID existing, en_Action = action,
                              en_Payload = Some
                                ([(''runner_id'', JStr (rq_RunnerID existing)), (''proposal_id'', JStr (rq_ProposalID existing)),
                                  (''action_type'', JStr (rq_ActionType existing)), (''phase'', JStr (rq_Phase existing))]
                                 @ (if pr_DeniedFor b \<noteq> [] then [(''denied_for'', JStr (pr_DeniedFor b))] else [])
                                 @ [(''duration_ms'', JInt (go_div (Sub now started) 1000000))]
                                 @ (if planID \<noteq> []
                                    then [(''plan_id'', JStr planID), (''plan_step_index'', JInt stepIndex),
                                          (''plan_step_origin'', JStr ''plan_embedded'')]
                                    else [(''plan_step_origin'', JStr ''standalone'')]))\<rparr> w1))))"

section \<open>What a dispatch over HTTP guarantees\<close>

lemma api_refusal_None:
  assumes "api_refusal h req w = None"
  shows "\<exists>reg caps t c. map_of (w_runners w) (da_RunnerID req) = Some reg \<and> rn_RevokedAt reg = None
    \<and> h_unmarshalCaps h (rn_CapabilitiesJSON reg) = Some caps
    \<and> map_of (h_registry h) (da_ActionType req) = Some t \<and> at_ValidateParameters t (da_Parameters req) = None
    \<and> c \<in> set caps \<and> cap_Type c = da_ActionType req \<and> fst (at_MatchesCapability t (da_Parameters req) c)
    \<and> da_Phase req \<in> {PhaseDryRun, PhaseExecute}"
proof -
  note r = assms [unfolded api_refusal_def GetActionRunnerRegistration_def registry_Get_def]
  obtain reg where reg: "map_of (w_runners w) (da_RunnerID req) = Some reg"
    using r by (cases "map_of (w_runners w) (da_RunnerID req)") simp_all
  have nr: "rn_RevokedAt reg = None" using r reg by (cases "rn_RevokedAt reg") simp_all
  define co where "co = (if rn_CapabilitiesJSON reg = [] then Some [] else h_unmarshalCaps h (rn_CapabilitiesJSON reg))"
  obtain caps where caps: "co = Some caps" using r reg nr by (cases co) (simp_all flip: co_def)
  obtain t where t: "map_of (h_registry h) (da_ActionType req) = Some t"
    using r reg nr caps by (cases "map_of (h_registry h) (da_ActionType req)") (simp_all flip: co_def)
  have v: "at_ValidateParameters t (da_Parameters req) = None"
    using r reg nr caps t by (cases "at_ValidateParameters t (da_Parameters req)") (simp_all flip: co_def)
  obtain b reason where al: "AllowsAction (h_quote h) (h_registry h) caps (da_ActionType req) (da_Parameters req) = (b, reason)"
    by (cases "AllowsAction (h_quote h) (h_registry h) caps (da_ActionType req) (da_Parameters req)")
  then have b: "b" "da_Phase req \<in> {PhaseDryRun, PhaseExecute}"
    using r reg nr caps t v by (cases b; simp split: if_splits flip: co_def)+
  then obtain c where c: "c \<in> set caps" "cap_Type c = da_ActionType req" "fst (at_MatchesCapability t (da_Parameters req) c)"
    using al t match_caps_allows [of "h_quote h" t "da_ActionType req" "da_Parameters req" caps]
    by (auto simp: AllowsAction_def registry_Get_def)
  then have "h_unmarshalCaps h (rn_CapabilitiesJSON reg) = Some caps" using caps by (auto simp: co_def split: if_splits)
  then show ?thesis using reg nr t v c b by blast
qed

lemma HandleDispatchAction_cases:
  obtains (refused) "w_requests (snd (HandleDispatchAction env h now ctx body w)) = w_requests w"
      "w_runners (snd (HandleDispatchAction env h now ctx body w)) = w_runners w"
      "\<And>stored. fst (HandleDispatchAction env h now ctx body w) \<noteq> StatusOK stored"
  | (stored) req stored where "body = Some req" "api_refusal h req w = None"
      "fst (HandleDispatchAction env h now ctx body w) = StatusOK stored"
      "w_runners (snd (HandleDispatchAction env h now ctx body w)) = w_runners w"
      "map_of (w_requests w) (rq_ID stored) = None"
      "w_requests (snd (HandleDispatchAction env h now ctx body w)) = AList.update (rq_ID stored) stored (w_requests w)"
      "rq_RunnerID stored = da_RunnerID req" "rq_ActionType stored = da_ActionType req"
      "rq_ParametersJSON stored = da_Parameters req" "rq_Phase stored = da_Phase req"
proof (cases "\<exists>req cr. body = Some req \<and> h_signer h = Some cr \<and> api_refusal h req w = None")
  case False
  have "api_refusal h req w \<noteq> Some (StatusOK stored)" for req stored
    by (auto simp: api_refusal_def split: option.splits if_splits prod.splits bool.splits)
  then show thesis using False by (intro refused) (auto simp: HandleDispatchAction_def split: option.splits)
next
  case True
  then obtain req cr where *: "body = Some req" "h_signer h = Some cr" "api_refusal h req w = None" by blast
  obtain reqID w1 where u: "fresh_uuid env w = (reqID, w1)" by (cases "fresh_uuid env w")
  then have w1: "w_requests w1 = w_requests w" "w_runners w1 = w_runners w" by (auto simp: fresh_uuid_def)
  define q where "q = \<lparr>req_RequestID = reqID, req_ProposalID = da_ProposalID req,
                        req_RunnerID = da_RunnerID req, req_Type = da_ActionType req,
                        req_Parameters = da_Parameters req, req_IssuedAt = 0, req_ExpiresAt = 0,
                        req_Phase = da_Phase req, req_Signature = []\<rparr>"
  show thesis
  proof (cases "Sign cr now q")
    case None
    then show thesis using * u w1 by (intro refused) (simp_all add: HandleDispatchAction_def flip: q_def)
  next
    case (Some signedReq)
    define row where "row = \<lparr>rq_ID = reqID, rq_ProposalID = da_ProposalID req, rq_RunnerID = da_RunnerID req,
                           rq_ActionType = da_ActionType req, rq_ParametersJSON = da_Parameters req,
                           rq_Signature = req_Signature signedReq, rq_Phase = da_Phase req, rq_Status = ''pending'',
                           rq_DeniedFor = [], rq_DryRunOutputJSON = [], rq_ExecutionOutputJSON = [],
                           rq_IssuedAt = req_IssuedAt signedReq, rq_ExpiresAt = req_ExpiresAt signedReq,
                           rq_StartedAt = None, rq_CompletedAt = None\<rparr>"
    show thesis
    proof (cases "map_of (w_requests w) reqID")
      case None
      then show thesis using * u w1 Some
        by (intro stored [of req row]) (simp_all add: HandleDispatchAction_def CreateActionRequest_def row_def Let_def flip: q_def)
    next
      case dup: (Some old)
      then show thesis using * u w1 Some
        by (intro refused) (simp_all add: HandleDispatchAction_def CreateActionRequest_def Let_def flip: q_def)
    qed
  qed
qed

text \<open>
  Both dispatch paths enforce the same scope.  A request accepted over HTTP, like one dispatched by a plan,
  is for a registered, unrevoked runner, has well-formed parameters, is covered by a capability the runner
  declared, and is stored under a fresh identifier with one of the two known phases; any other reply leaves
  the table of requests as it was.
\<close>
theorem api_dispatch_in_scope:
  assumes "Default jc = Inr (h_registry h)" "HandleDispatchAction env h now ctx body w = (reply, w')"
  shows "(\<forall>stored. reply = StatusOK stored \<longrightarrow>
      (\<exists>reg caps c. map_of (w_runners w) (rq_RunnerID stored) = Some reg \<and> rn_RevokedAt reg = None
        \<and> h_unmarshalCaps h (rn_CapabilitiesJSON reg) = Some caps \<and> c \<in> set caps
        \<and> cap_Type c = rq_ActionType stored \<and> covers jc c (rq_ParametersJSON stored))
      \<and> sound_action jc (rq_ActionType stored) (rq_ParametersJSON stored)
      \<and> rq_Phase stored \<in> {PhaseDryRun, PhaseExecute} \<and> map_of (w_requests w) (rq_ID stored) = None
      \<and> map_of (w_requests w') (rq_ID stored) = Some stored)
    \<and> ((\<nexists>stored. reply = StatusOK stored) \<longrightarrow> w_requests w' = w_requests w)"
proof (cases rule: HandleDispatchAction_cases [of env h now ctx body w])
  case refused
  then show ?thesis using assms(2) by simp
next
  case (stored req row)
  obtain reg caps t c where r: "map_of (w_runners w) (da_RunnerID req) = Some reg" "rn_RevokedAt reg = None"
      "h_unmarshalCaps h (rn_CapabilitiesJSON reg) = Some caps"
      "map_of (h_registry h) (da_ActionType req) = Some t" "at_ValidateParameters t (da_Parameters req) = None"
      "c \<in> set caps" "cap_Type c = da_ActionType req" "fst (at_MatchesCapability t (da_Parameters req) c)"
      "da_Phase req \<in> {PhaseDryRun, PhaseExecute}"
    using api_refusal_None [OF stored(2)] by blast
  have "sound_action jc (da_ActionType req) (da_Parameters req)" using validate_sound [OF assms(1) r(4,5)] .
  moreover have "covers jc c (da_Parameters req)" using matches_iff_covers [OF assms(1), of c t] r(4,7,8) by simp
  ultimately show ?thesis using stored r assms(2) by auto
qed

section \<open>The action tables over time\<close>

text \<open>One operation on the action tables.  The label tells which runner, if any, a step enrols.\<close>

inductive action_step :: "Env \<Rightarrow> ActionsHandlers \<Rightarrow> Dispatcher \<Rightarrow> string option \<Rightarrow> World \<Rightarrow> World \<Rightarrow> bool" for env h d where
  register: "action_step env h d (Some (rg_RunnerID req)) w (snd (HandleRegisterRunner h now (Some req) w))"
| revoke: "action_step env h d None w (snd (HandleRevokeRunner now i w))"
| poll: "action_step env h d None w (snd (HandleRunnerPending now i w))"
| dispatch: "action_step env h d None w (snd (HandleDispatchAction env h now ctx body w))"
| plan_dispatch: "action_step env h d None w (snd (Dispatch env d now ctx planID k spec actor w))"
| cancel: "Cancel now i reason w = Inr w' \<Longrightarrow> action_step env h d None w w'"
| report: "action_step env h d None w (snd (HandlePostActionResult env now ctx i body w))"
| elsewhere: "w_runners w' = w_runners w \<Longrightarrow> w_requests w' = w_requests w \<Longrightarrow> action_step env h d None w w'"

definition tables_ok :: "World \<Rightarrow> bool" where
  "tables_ok w \<longleftrightarrow> (\<forall>k r. map_of (w_runners w) k = Some r \<longrightarrow> rn_RunnerID r = k)
     \<and> (\<forall>k q. map_of (w_requests w) k = Some q \<longrightarrow> rq_ID q = k)"

definition is_revoked :: "string \<Rightarrow> World \<Rightarrow> bool" where
  "is_revoked i w \<longleftrightarrow> (\<exists>r. map_of (w_runners w) i = Some r \<and> rn_RevokedAt r \<noteq> None)"

text \<open>No request for runner \<open>i\<close> that was not there before.\<close>

definition no_new_requests :: "string \<Rightarrow> World \<Rightarrow> World \<Rightarrow> bool" where
  "no_new_requests i w w' \<longleftrightarrow> (\<forall>k q. map_of (w_requests w') k = Some q \<and> rq_RunnerID q = i \<longrightarrow>
     (\<exists>q0. map_of (w_requests w) k = Some q0 \<and> rq_RunnerID q0 = i))"

lemma no_new_requests_refl [simp]: "w_requests w' = w_requests w \<Longrightarrow> no_new_requests i w w'"
  by (simp add: no_new_requests_def)

lemma no_new_requests_trans: "no_new_requests i w1 w2 \<Longrightarrow> no_new_requests i w2 w3 \<Longrightarrow> no_new_requests i w1 w3"
  unfolding no_new_requests_def by blast

lemma UpdateActionRequest_no_new:
  assumes "UpdateActionRequest q w = Inr w'"
  shows "w_runners w' = w_runners w" "no_new_requests i w w'" "tables_ok w \<Longrightarrow> tables_ok w'"
  using assms by (auto simp: UpdateActionRequest_def no_new_requests_def tables_ok_def split: option.splits if_splits)

lemma Dispatch_tables:
  assumes "Dispatch env d now ctx planID k spec actor w = (outcome, w')"
  shows "w_runners w' = w_runners w"
    "outcome = Inl e \<Longrightarrow> w_requests w' = w_requests w"
    "outcome = Inr (reqID, expires) \<Longrightarrow> j \<noteq> reqID \<Longrightarrow> map_of (w_requests w') j = map_of (w_requests w) j"
  using assms unfolding Dispatch_def Let_def
  by (auto simp: fresh_uuid_def CreateActionRequest_def Let_def split: option.splits sum.splits if_splits)

lemma HandlePostActionResult_cases:
  obtains (same) "w_requests (snd (HandlePostActionResult env now ctx j body w)) = w_requests w"
      "w_runners (snd (HandlePostActionResult env now ctx j body w)) = w_runners w"
  | (updated) row w1 where "UpdateActionRequest row w = Inr w1"
      "w_requests (snd (HandlePostActionResult env now ctx j body w)) = w_requests w1"
      "w_runners (snd (HandlePostActionResult env now ctx j body w)) = w_runners w1"
proof (cases "\<exists>b existing. body = Some b \<and> pr_Status b \<in> {''success'', ''failure'', ''denied''} \<and> GetActionRequest j w = Some existing")
  case False
  then show thesis by (intro same) (auto simp: HandlePostActionResult_def split: option.splits)
next
  case True
  then obtain b existing where *: "body = Some b" "\<not> pr_Status b \<notin> {''success'', ''failure'', ''denied''}"
    "GetActionRequest j w = Some existing" by blast
  define started where "started = (case rq_StartedAt existing of None \<Rightarrow> now | Some st \<Rightarrow> st)"
  define row where "row = existing\<lparr>rq_Status := pr_Status b, rq_DeniedFor := pr_DeniedFor b,
                       rq_DryRunOutputJSON := (if pr_DryRunOutputJSON b \<noteq> [] then pr_DryRunOutputJSON b
                                               else rq_DryRunOutputJSON existing),
                       rq_ExecutionOutputJSON := (if pr_ExecutionOutputJSON b \<noteq> [] then pr_ExecutionOutputJSON b
                                                  else rq_ExecutionOutputJSON existing),
                       rq_StartedAt := Some started, rq_CompletedAt := Some now\<rparr>"
  show thesis
  proof (cases "UpdateActionRequest row w")
    case (Inl e)
    then show thesis using *
      by (intro same) (simp_all only: HandlePostActionResult_def option.case if_False Let_def flip: started_def row_def, simp_all)
  next
    case (Inr w1)
    then show thesis using *
      by (intro updated [of row w1])
         (simp_all only: HandlePostActionResult_def option.case if_False Let_def flip: started_def row_def, simp_all split: prod.split)
  qed
qed

lemma action_step_inv:
  assumes "action_step env h d l w w'" "tables_ok w"
  shows "tables_ok w' \<and> (is_revoked i w \<longrightarrow> l \<noteq> Some i \<longrightarrow> is_revoked i w' \<and> no_new_requests i w w')"
  using assms(1)
proof cases
  case (register req now)
  then show ?thesis using assms(2)
    by (auto simp: HandleRegisterRunner_def CreateActionRunnerRegistration_def UpdateActionRunnerRegistration_def
        GetActionRunnerRegistration_def tables_ok_def is_revoked_def Let_def split: option.splits)
next
  case (revoke now j)
  then show ?thesis using assms(2)
    by (auto simp: HandleRevokeRunner_def RevokeActionRunnerRegistration_def tables_ok_def is_revoked_def split: option.splits)
next
  case (poll now j)
  then show ?thesis using assms(2)
    by (auto simp: HandleRunnerPending_def UpdateActionRunnerRegistration_def GetActionRunnerRegistration_def
        tables_ok_def is_revoked_def Let_def split: option.splits)
next
  case (dispatch now ctx body)
  show ?thesis
  proof (cases rule: HandleDispatchAction_cases [of env h now ctx body w])
    case refused
    then show ?thesis using dispatch assms(2) by (simp add: tables_ok_def is_revoked_def)
  next
    case (stored req row)
    then obtain reg where "map_of (w_runners w) (rq_RunnerID row) = Some reg" "rn_RevokedAt reg = None"
      using api_refusal_None by metis
    then show ?thesis using stored dispatch assms(2) by (auto simp: tables_ok_def is_revoked_def no_new_requests_def)
  qed
next
  case (plan_dispatch now ctx planID k spec actor)
  obtain outcome where D: "Dispatch env d now ctx planID k spec actor w = (outcome, w')"
    using plan_dispatch(2) by (cases "Dispatch env d now ctx planID k spec actor w") simp
  show ?thesis
  proof (cases outcome)
    case (Inl e)
    then show ?thesis using Dispatch_tables(1,2) [OF D] assms(2) by (simp add: tables_ok_def is_revoked_def)
  next
    case (Inr p)
    obtain reqID expires where p: "p = (reqID, expires)" by (cases p)
    note D' = D [unfolded Inr p]
    obtain reg row where r: "map_of (w_runners w) (as_RunnerID spec) = Some reg" "rn_RevokedAt reg = None"
        "map_of (w_requests w') reqID = Some row" "rq_RunnerID row = as_RunnerID spec"
      using dispatch_ok [OF D'] by metis
    have new: "map_of (w_requests w') j = (if j = reqID then Some row else map_of (w_requests w) j)" for j
      using r(3) Dispatch_tables(3) [OF D, of reqID expires j] Inr p by simp
    show ?thesis using new r Dispatch_tables(1) [OF D] dispatch_row_id [OF D' r(3)] assms(2)
      by (auto simp: tables_ok_def is_revoked_def no_new_requests_def)
  qed
next
  case (cancel now j reason)
  then show ?thesis
    using UpdateActionRequest_no_new assms(2)
    by (auto simp: Cancel_def is_revoked_def split: if_splits option.splits)
next
  case (report now ctx j body)
  show ?thesis
  proof (cases rule: HandlePostActionResult_cases [of env now ctx j body w])
    case same
    then show ?thesis using report assms(2) by (simp add: tables_ok_def is_revoked_def)
  next
    case (updated row w1)
    have "no_new_requests i w w1" "tables_ok w1" "w_runners w1 = w_runners w"
      using UpdateActionRequest_no_new [OF updated(1)] assms(2) by simp_all
    then show ?thesis using updated(2,3) report by (simp add: tables_ok_def is_revoked_def no_new_requests_def)
  qed
next
  case elsewhere
  then show ?thesis using assms(2) by (simp add: tables_ok_def is_revoked_def)
qed

text \<open>
  C35: Revocation holds until the runner enrols again.  From any state the handlers can reach in which a runner
  is revoked, through any sequence of enrolments of other runners, revocations, polls, dispatches over HTTP
  or by a plan, cancellations and reported results, the runner stays revoked and no request for it appears
  that was not there when it was revoked.
\<close>
theorem revoked_runner_gets_no_requests:
  assumes "(\<lambda>w w'. \<exists>l. action_step env h d l w w')\<^sup>*\<^sup>* empty_world w"
    and "map_of (w_runners w) i = Some r" "rn_RevokedAt r \<noteq> None"
    and "(\<lambda>w w'. \<exists>l. l \<noteq> Some i \<and> action_step env h d l w w')\<^sup>*\<^sup>* w w'"
  shows "(\<exists>r'. map_of (w_runners w') i = Some r' \<and> rn_RevokedAt r' \<noteq> None)
    \<and> (\<forall>k q. map_of (w_requests w') k = Some q \<and> rq_RunnerID q = i \<longrightarrow>
         (\<exists>q0. map_of (w_requests w) k = Some q0 \<and> rq_RunnerID q0 = i))"
proof -
  have t: "tables_ok w" using assms(1)
    by (induction rule: rtranclp_induct) (auto simp: tables_ok_def empty_world_def dest: action_step_inv [unfolded tables_ok_def])
  have "tables_ok w' \<and> is_revoked i w' \<and> no_new_requests i w w'" using assms(4)
  proof (induction rule: rtranclp_induct)
    case base
    then show ?case using t assms(2,3) by (simp add: is_revoked_def)
  next
    case (step w1 w2)
    then show ?case using action_step_inv [of env h d _ w1 w2 i] no_new_requests_trans by blast
  qed
  then show ?thesis by (simp add: is_revoked_def no_new_requests_def)
qed

text \<open>
  Enrolling again lifts a revocation.  A revoked runner, which re-enrols on every start, is accepted by the
  enrolment handler, and its row is overwritten with one that is not revoked.
\<close>
theorem reenrolment_lifts_revocation:
  assumes "map_of (w_runners w) (rg_RunnerID req) = Some r" "rn_RevokedAt r = Some t"
    and "h_marshalCaps h (rg_Capabilities req) = Some js"
  shows "\<exists>reg. HandleRegisterRunner h now (Some req) w
      = (StatusOK reg, w\<lparr>w_runners := AList.update (rg_RunnerID req) reg (w_runners w)\<rparr>)
    \<and> rn_RevokedAt reg = None \<and> rn_RegisteredAt reg = rn_RegisteredAt r"
  using assms by (simp add: HandleRegisterRunner_def GetActionRunnerRegistration_def UpdateActionRunnerRegistration_def Let_def)

definition toy_handlers :: ActionsHandlers where
  "toy_handlers = \<lparr>h_signer = Some toy_crypto, h_registry = default_registry plain_codec, h_marshalCaps = (\<lambda>_. Some ''caps''),
     h_unmarshalCaps = (\<lambda>_. Some [nginx_capability]), h_quote = (\<lambda>s. s)\<rparr>"

definition toy_enrolment :: RegisterRunnerRequest where
  "toy_enrolment = \<lparr>rg_RunnerID = ''h1'', rg_Hostname = ''h1'', rg_PublicKeyPEM = ''k'', rg_Capabilities = [nginx_capability]\<rparr>"

definition toy_dispatch :: DispatchActionRequest where
  "toy_dispatch = \<lparr>da_ProposalID = [], da_RunnerID = ''h1'', da_ActionType = RestartSystemdServiceType,
     da_Parameters = ''nginx.service'', da_Phase = PhaseExecute\<rparr>"

definition enrolled_world :: World where
  "enrolled_world = snd (HandleRegisterRunner toy_handlers 1 (Some toy_enrolment) empty_world)"

definition revoked_world :: World where
  "revoked_world = snd (HandleRevokeRunner 2 ''h1'' enrolled_world)"

lemma revoked_row: "map_option rn_RevokedAt (map_of (w_runners revoked_world) ''h1'') = Some (Some 2)"
  by code_simp

theorem api_dispatch_in_scope_witness:
  "\<exists>stored. fst (HandleDispatchAction sample_env toy_handlers 3 background_ctx (Some toy_dispatch) enrolled_world) = StatusOK stored
     \<and> sound_action plain_codec (rq_ActionType stored) (rq_ParametersJSON stored)"
proof -
  have "api_refusal toy_handlers toy_dispatch enrolled_world = None" by code_simp
  then have "\<exists>stored. fst (HandleDispatchAction sample_env toy_handlers 3 background_ctx (Some toy_dispatch) enrolled_world) = StatusOK stored"
    by (simp add: HandleDispatchAction_def toy_handlers_def Sign_def signingBytes_def toy_crypto_def IsZero_def fresh_uuid_def
        CreateActionRequest_def Let_def enrolled_world_def HandleRegisterRunner_def GetActionRunnerRegistration_def
        CreateActionRunnerRegistration_def empty_world_def toy_enrolment_def)
  then obtain stored w' where s: "HandleDispatchAction sample_env toy_handlers 3 background_ctx (Some toy_dispatch) enrolled_world
      = (StatusOK stored, w')" by (metis prod.collapse)
  have "Default plain_codec = Inr (h_registry toy_handlers)" by (simp add: toy_handlers_def plain_registry)
  from api_dispatch_in_scope [OF this s] s show ?thesis by auto
qed

theorem revoked_runner_gets_no_requests_witness:
  "\<exists>r'. map_of (w_runners (snd (HandleDispatchAction sample_env toy_handlers 3 background_ctx (Some toy_dispatch) revoked_world))) ''h1'' = Some r'
     \<and> rn_RevokedAt r' \<noteq> None"
proof -
  obtain r where r: "map_of (w_runners revoked_world) ''h1'' = Some r" "rn_RevokedAt r \<noteq> None" using revoked_row by auto
  define R where "R = (\<lambda>w w'. \<exists>l. action_step sample_env toy_handlers nginx_dispatcher l w w')"
  have "R empty_world enrolled_world" unfolding enrolled_world_def R_def by (rule exI, rule action_step.register)
  moreover have "R enrolled_world revoked_world" unfolding revoked_world_def R_def by (rule exI, rule action_step.revoke)
  ultimately have re: "R\<^sup>*\<^sup>* empty_world revoked_world"
    by (meson rtranclp.rtrancl_into_rtrancl rtranclp.rtrancl_refl)
  have "action_step sample_env toy_handlers nginx_dispatcher None revoked_world
      (snd (HandleDispatchAction sample_env toy_handlers 3 background_ctx (Some toy_dispatch) revoked_world))"
    by (rule action_step.dispatch)
  then have "(\<lambda>w w'. \<exists>l. l \<noteq> Some ''h1'' \<and> action_step sample_env toy_handlers nginx_dispatcher l w w')\<^sup>*\<^sup>* revoked_world
      (snd (HandleDispatchAction sample_env toy_handlers 3 background_ctx (Some toy_dispatch) revoked_world))"
    by (intro r_into_rtranclp exI [of _ None]) simp
  from revoked_runner_gets_no_requests [OF re [unfolded R_def] r this] show ?thesis by blast
qed

theorem reenrolment_lifts_revocation_witness:
  "\<exists>reg. map_of (w_runners (snd (HandleRegisterRunner toy_handlers 5 (Some toy_enrolment) revoked_world))) ''h1'' = Some reg
     \<and> rn_RevokedAt reg = None"
proof -
  obtain r where "map_of (w_runners revoked_world) (rg_RunnerID toy_enrolment) = Some r" "rn_RevokedAt r = Some 2"
    using revoked_row by (auto simp: toy_enrolment_def)
  from reenrolment_lifts_revocation [OF this, of toy_handlers "''caps''" 5] show ?thesis
    by (auto simp: toy_handlers_def toy_enrolment_def)
qed

end
