(* ===== verification/Egress_Guard.thy ===== *)
theory Egress_Guard
  imports Go_Prelude "HOL-Library.Word"
begin

text \<open>
  The egress guard (\<open>egressguard/egressguard.go\<close>): every server-side fetch of a user-supplied URL resolves the
  host first and then decides per resolved address whether it may be dialled.  Addresses are byte strings,
  as in \<open>net.IP\<close>; the predicates of \<open>net\<close> and the prefixes of \<open>net/netip\<close> the guard uses are modelled here.
  Name resolution, dialling, and the parsers of addresses and prefixes are parameters.
\<close>

unbundle bit_operations_syntax

section \<open>Addresses (packages net and net/netip)\<close>

type_synonym byte = "8 word"
type_synonym IP = "byte list"

definition v4InV6Prefix :: "byte list" where
  "v4InV6Prefix = replicate 10 0 @ [255, 255]"

definition To4 :: "IP \<Rightarrow> IP option" where
  "To4 ip = (if length ip = 4 then Some ip
     else if length ip = 16 \<and> take 12 ip = v4InV6Prefix then Some (drop 12 ip) else None)"

definition IPv6loopback :: IP where "IPv6loopback = replicate 15 0 @ [1]"

definition IPv6unspecified :: IP where "IPv6unspecified = replicate 16 0"

definition IsLoopback :: "IP \<Rightarrow> bool" where
  "IsLoopback ip = (case To4 ip of Some v \<Rightarrow> v ! 0 = 127 | None \<Rightarrow> ip = IPv6loopback)"

definition IsUnspecified :: "IP \<Rightarrow> bool" where
  "IsUnspecified ip = (case To4 ip of Some v \<Rightarrow> v = replicate 4 0 | None \<Rightarrow> ip = IPv6unspecified)"

definition IsMulticast :: "IP \<Rightarrow> bool" where
  "IsMulticast ip = (case To4 ip of Some v \<Rightarrow> v ! 0 AND 0xF0 = 0xE0 | None \<Rightarrow> length ip = 16 \<and> ip ! 0 = 0xFF)"

definition IsInterfaceLocalMulticast :: "IP \<Rightarrow> bool" where
  "IsInterfaceLocalMulticast ip \<longleftrightarrow> length ip = 16 \<and> ip ! 0 = 0xFF \<and> ip ! 1 AND 0x0F = 0x01"

definition IsLinkLocalMulticast :: "IP \<Rightarrow> bool" where
  "IsLinkLocalMulticast ip = (case To4 ip of
       Some v \<Rightarrow> v ! 0 = 224 \<and> v ! 1 = 0 \<and> v ! 2 = 0
     | None \<Rightarrow> length ip = 16 \<and> ip ! 0 = 0xFF \<and> ip ! 1 AND 0x0F = 0x02)"

definition IsLinkLocalUnicast :: "IP \<Rightarrow> bool" where
  "IsLinkLocalUnicast ip = (case To4 ip of
       Some v \<Rightarrow> v ! 0 = 169 \<and> v ! 1 = 254
     | None \<Rightarrow> length ip = 16 \<and> ip ! 0 = 0xFE \<and> ip ! 1 AND 0xC0 = 0x80)"

definition IsPrivate :: "IP \<Rightarrow> bool" where
  "IsPrivate ip = (case To4 ip of
       Some v \<Rightarrow> v ! 0 = 10 \<or> v ! 0 = 172 \<and> v ! 1 AND 0xF0 = 16 \<or> v ! 0 = 192 \<and> v ! 1 = 168
     | None \<Rightarrow> length ip = 16 \<and> ip ! 0 AND 0xFE = 0xFC)"

text \<open>A \<open>netip.Addr\<close> after \<open>Unmap\<close>: four bytes, or sixteen that are not an IPv4-mapped address.\<close>

definition toAddr :: "IP \<Rightarrow> IP option" where
  "toAddr ip = (if length ip = 4 then Some ip
     else if length ip = 16 then Some (case To4 ip of Some v \<Rightarrow> v | None \<Rightarrow> ip)
     else None)"

record Prefix =
  pf_addr :: IP
  pf_bits :: nat

definition byte_bits :: "byte \<Rightarrow> bool list" where
  "byte_bits b = [bit b 7, bit b 6, bit b 5, bit b 4, bit b 3, bit b 2, bit b 1, bit b 0]"

definition addr_bits :: "IP \<Rightarrow> bool list" where
  "addr_bits a = concat (map byte_bits a)"

text \<open>Addresses of the other family never match.\<close>

definition Contains :: "Prefix \<Rightarrow> IP \<Rightarrow> bool" where
  "Contains p a \<longleftrightarrow> length (pf_addr p) = length a \<and> pf_bits p \<le> 8 * length a
     \<and> take (pf_bits p) (addr_bits (pf_addr p)) = take (pf_bits p) (addr_bits a)"

section \<open>The policy\<close>

datatype Mode = ModeShadow | ModeEnforce

record Policy =
  eg_Mode :: Mode
  eg_PrivateAllowlist :: "Prefix list"
  eg_AllowLoopback :: bool

definition metadataIPs :: "IP list" where
  "metadataIPs = [[169, 254, 169, 254], [0xFD, 0, 0x0E, 0xC2, 0, 0, 0, 0, 0, 0, 0, 0, 0, 0, 0x02, 0x54]]"

definition cgnatPrefix :: Prefix where
  "cgnatPrefix = \<lparr>pf_addr = [100, 64, 0, 0], pf_bits = 10\<rparr>"

datatype category = catPublic | catMetadata | catLoopback | catLinkLocal | catUnspecMulticast | catPrivate

definition classify :: "IP \<Rightarrow> category" where
  "classify ip =
     (if (case toAddr ip of Some a \<Rightarrow> a \<in> set metadataIPs | None \<Rightarrow> False) then catMetadata
      else if IsLoopback ip then catLoopback
      else if IsLinkLocalUnicast ip \<or> IsLinkLocalMulticast ip then catLinkLocal
      else if IsUnspecified ip \<or> IsMulticast ip \<or> IsInterfaceLocalMulticast ip then catUnspecMulticast
      else if IsPrivate ip then catPrivate
      else if (case toAddr ip of Some a \<Rightarrow> Contains cgnatPrefix a | None \<Rightarrow> False) then catPrivate
      else catPublic)"

definition inAllowlist :: "Policy \<Rightarrow> IP \<Rightarrow> bool" where
  "inAllowlist g ip =
     (case toAddr ip of None \<Rightarrow> False | Some a \<Rightarrow> (\<exists>p \<in> set (eg_PrivateAllowlist g). Contains p a))"

text \<open>Whether an address may be dialled, whether to warn, and the reason when it may not.\<close>

fun decision_for :: "Policy \<Rightarrow> IP \<Rightarrow> category \<Rightarrow> bool \<times> bool \<times> string" where
  "decision_for g ip catMetadata = (False, False, ''cloud-metadata address blocked by egress policy'')"
| "decision_for g ip catLoopback =
     (if eg_AllowLoopback g then (True, False, [])
      else (False, False, ''loopback address blocked by egress policy''))"
| "decision_for g ip catLinkLocal =
     (if eg_AllowLoopback g then (True, False, [])
      else (False, False, ''link-local address blocked by egress policy''))"
| "decision_for g ip catUnspecMulticast =
     (if eg_AllowLoopback g then (True, False, [])
      else (False, False, ''unspecified/multicast address blocked by egress policy''))"
| "decision_for g ip catPrivate =
     (if eg_AllowLoopback g \<or> inAllowlist g ip then (True, False, [])
      else if eg_Mode g = ModeEnforce then (False, False, ''private/internal address blocked by egress policy'')
      else (True, True, []))"
| "decision_for g ip catPublic = (True, False, [])"

definition decision :: "Policy \<Rightarrow> IP \<Rightarrow> bool \<times> bool \<times> string" where
  "decision g ip = decision_for g ip (classify ip)"

section \<open>Dialling\<close>

datatype dial_error =
    BadAddress string
  | ResolveError string
  | BlockedError string string
  | DialError string
  | NoAddresses

record 'conn Net =
  net_splitHostPort :: "string \<Rightarrow> (string \<times> string) option"
  net_resolve :: "string \<Rightarrow> string + IP list"
  net_dial :: "string \<Rightarrow> IP \<Rightarrow> string \<Rightarrow> string + 'conn"

text \<open>The loop over the resolved addresses: the outcome, and the addresses handed to the dialler.\<close>

fun dial_loop ::
  "'conn Net \<Rightarrow> Policy \<Rightarrow> string \<Rightarrow> string \<Rightarrow> string \<Rightarrow> dial_error option \<Rightarrow> IP list \<Rightarrow> (dial_error + 'conn) \<times> IP list" where
  "dial_loop net g network host port lastErr [] =
     (Inl (case lastErr of None \<Rightarrow> NoAddresses | Some e \<Rightarrow> e), [])"
| "dial_loop net g network host port lastErr (ip # ips) =
     (case decision g ip of
        (allow, warn, reason) \<Rightarrow>
          if \<not> allow then dial_loop net g network host port (Some (BlockedError host reason)) ips
          else (case net_dial net network ip port of
              Inl e \<Rightarrow> apsnd ((#) ip) (dial_loop net g network host port (Some (DialError e)) ips)
            | Inr conn \<Rightarrow> (Inr conn, [ip])))"

definition dialContext :: "'conn Net \<Rightarrow> Policy \<Rightarrow> string \<Rightarrow> string \<Rightarrow> (dial_error + 'conn) \<times> IP list" where
  "dialContext net g network addr =
     (case net_splitHostPort net addr of
        None \<Rightarrow> (Inl (BadAddress addr), [])
      | Some (host, port) \<Rightarrow>
          (case net_resolve net host of
             Inl e \<Rightarrow> (Inl (ResolveError e), [])
           | Inr ips \<Rightarrow> dial_loop net g network host port None ips))"

text \<open>The transport in front of it admits only two schemes.\<close>

definition RoundTrip :: "(string \<Rightarrow> string) \<Rightarrow> string \<Rightarrow> string \<Rightarrow> 'r \<Rightarrow> dial_error + 'r" where
  "RoundTrip lower scheme host base =
     (if lower scheme = ''http'' \<or> lower scheme = ''https'' then Inr base
      else Inl (BlockedError host ''scheme not permitted (only http/https)''))"

section \<open>Allowlists and reported errors\<close>

definition mask_bits :: "nat \<Rightarrow> byte \<Rightarrow> byte" where
  "mask_bits n b = (if n \<ge> 8 then b else b AND NOT (mask (8 - n)))"

fun Masked_addr :: "nat \<Rightarrow> IP \<Rightarrow> IP" where
  "Masked_addr n [] = []"
| "Masked_addr n (b # bs) = mask_bits n b # Masked_addr (n - 8) bs"

definition Masked :: "Prefix \<Rightarrow> Prefix" where
  "Masked p = p\<lparr>pf_addr := Masked_addr (pf_bits p) (pf_addr p)\<rparr>"

fun ParseAllowlist :: "(string \<Rightarrow> IP option) \<Rightarrow> (string \<Rightarrow> Prefix option) \<Rightarrow> string list \<Rightarrow> string + Prefix list" where
  "ParseAllowlist parseAddr parsePrefix [] = Inr []"
| "ParseAllowlist parseAddr parsePrefix (entry # entries) =
     (let s = TrimSpace entry in
      if s = [] then ParseAllowlist parseAddr parsePrefix entries
      else case (if CHR ''/'' \<notin> set s
                 then map_option (\<lambda>a. \<lparr>pf_addr = a, pf_bits = 8 * length a\<rparr>) (parseAddr s)
                 else map_option Masked (parsePrefix s)) of
          None \<Rightarrow> Inl s
        | Some p \<Rightarrow> map_sum id ((#) p) (ParseAllowlist parseAddr parsePrefix entries))"

definition occurs :: "string \<Rightarrow> string \<Rightarrow> bool" where
  "occurs sub s \<longleftrightarrow> sublist sub s"

text \<open>The coarse category of an error; the text of the underlying error is \<open>msg\<close>.\<close>

definition SanitizeError :: "(string \<Rightarrow> string) \<Rightarrow> (dial_error \<times> string) option \<Rightarrow> string" where
  "SanitizeError lower err =
     (case err of
        None \<Rightarrow> []
      | Some (BlockedError _ _, _) \<Rightarrow> ''blocked by egress policy''
      | Some (_, text) \<Rightarrow>
          let msg = lower text in
          if occurs ''401'' msg \<or> occurs ''unauthorized'' msg then ''authentication failed (401)''
          else if occurs ''403'' msg \<or> occurs ''forbidden'' msg
          then ''forbidden '' @ [CHR 0xE2, CHR 0x80, CHR 0x94] @ '' token scope or rate limit (403)''
          else if occurs ''404'' msg \<or> occurs ''not found'' msg
          then ''not found (404) '' @ [CHR 0xE2, CHR 0x80, CHR 0x94] @ '' check the destination/repo/workflow''
          else if occurs ''422'' msg then ''rejected by the destination (422)''
          else if occurs ''no such host'' msg \<or> occurs ''dns'' msg then ''DNS resolution failed''
          else if occurs ''connection refused'' msg then ''connection refused''
          else if occurs ''timeout'' msg \<or> occurs ''deadline exceeded'' msg then ''connection timed out''
          else if occurs ''tls'' msg \<or> occurs ''certificate'' msg \<or> occurs ''x509'' msg then ''TLS error''
          else ''connection failed'')"

section \<open>The classification by address ranges\<close>

text \<open>The ranges the package comment names.\<close>

definition blocked_ranges :: "Prefix list" where
  "blocked_ranges =
     [\<lparr>pf_addr = [127, 0, 0, 0], pf_bits = 8\<rparr>, \<lparr>pf_addr = IPv6loopback, pf_bits = 128\<rparr>,
      \<lparr>pf_addr = [169, 254, 0, 0], pf_bits = 16\<rparr>, \<lparr>pf_addr = [0xFE, 0x80] @ replicate 14 0, pf_bits = 10\<rparr>,
      \<lparr>pf_addr = [0, 0, 0, 0], pf_bits = 32\<rparr>, \<lparr>pf_addr = IPv6unspecified, pf_bits = 128\<rparr>,
      \<lparr>pf_addr = [224, 0, 0, 0], pf_bits = 4\<rparr>, \<lparr>pf_addr = 0xFF # replicate 15 0, pf_bits = 8\<rparr>]"

definition private_ranges :: "Prefix list" where
  "private_ranges =
     [\<lparr>pf_addr = [10, 0, 0, 0], pf_bits = 8\<rparr>, \<lparr>pf_addr = [172, 16, 0, 0], pf_bits = 12\<rparr>,
      \<lparr>pf_addr = [192, 168, 0, 0], pf_bits = 16\<rparr>, cgnatPrefix,
      \<lparr>pf_addr = 0xFC # replicate 15 0, pf_bits = 7\<rparr>]"

definition in_ranges :: "Prefix list \<Rightarrow> IP \<Rightarrow> bool" where
  "in_ranges ps a \<longleftrightarrow> (\<exists>p \<in> set ps. Contains p a)"

lemma byte_eq: "(b :: byte) = c \<longleftrightarrow> (\<forall>n \<in> {0, 1, 2, 3, 4, 5, 6, 7}. bit b n = bit c n)"
proof
  assume e: "\<forall>n \<in> {0, 1, 2, 3, 4, 5, 6, 7}. bit b n = bit c n"
  show "b = c"
  proof (rule bit_word_eqI)
    fix n assume "n < LENGTH(8)"
    then have "n \<in> {0, 1, 2, 3, 4, 5, 6, 7}" by auto
    then show "bit b n = bit c n" using e by blast
  qed
qed simp

lemma byte_bits_inj: "byte_bits b = byte_bits c \<longleftrightarrow> b = c"
  by (auto simp: byte_bits_def byte_eq [of b c])

lemma length_byte_bits [simp]: "length (byte_bits b) = 8"
  by (simp add: byte_bits_def)

lemma length_addr_bits [simp]: "length (addr_bits a) = 8 * length a"
  by (induction a) (simp_all add: addr_bits_def)

lemma addr_bits_inj: "length a = length b \<Longrightarrow> addr_bits a = addr_bits b \<longleftrightarrow> a = b"
  by (induction a b rule: list_induct2) (auto simp: addr_bits_def byte_bits_inj)

lemma Contains_full: "pf_bits p = 8 * length (pf_addr p) \<Longrightarrow> Contains p a \<longleftrightarrow> a = pf_addr p"
  by (auto simp: Contains_def addr_bits_inj)

text \<open>The masks of package \<open>net\<close> test leading bits, so each predicate is membership in a range.\<close>

lemmas range_simps = Contains_def addr_bits_def byte_bits_def byte_eq bit_and_iff

lemma v4_ranges:
  assumes "length a = 4"
  shows "a ! 0 = 127 \<longleftrightarrow> Contains \<lparr>pf_addr = [127, 0, 0, 0], pf_bits = 8\<rparr> a"
    "a ! 0 = 169 \<and> a ! 1 = 254 \<longleftrightarrow> Contains \<lparr>pf_addr = [169, 254, 0, 0], pf_bits = 16\<rparr> a"
    "a ! 0 AND 0xF0 = 0xE0 \<longleftrightarrow> Contains \<lparr>pf_addr = [224, 0, 0, 0], pf_bits = 4\<rparr> a"
    "a ! 0 = 10 \<longleftrightarrow> Contains \<lparr>pf_addr = [10, 0, 0, 0], pf_bits = 8\<rparr> a"
    "a ! 0 = 172 \<and> a ! 1 AND 0xF0 = 16 \<longleftrightarrow> Contains \<lparr>pf_addr = [172, 16, 0, 0], pf_bits = 12\<rparr> a"
    "a ! 0 = 192 \<and> a ! 1 = 168 \<longleftrightarrow> Contains \<lparr>pf_addr = [192, 168, 0, 0], pf_bits = 16\<rparr> a"
proof -
  obtain b0 b1 b2 b3 where a: "a = [b0, b1, b2, b3]"
    using assms by (auto simp: length_Suc_conv numeral_eq_Suc)
  show "a ! 0 = 127 \<longleftrightarrow> Contains \<lparr>pf_addr = [127, 0, 0, 0], pf_bits = 8\<rparr> a" by (auto simp: a range_simps)
  show "a ! 0 = 169 \<and> a ! 1 = 254 \<longleftrightarrow> Contains \<lparr>pf_addr = [169, 254, 0, 0], pf_bits = 16\<rparr> a" by (auto simp: a range_simps)
  show "a ! 0 AND 0xF0 = 0xE0 \<longleftrightarrow> Contains \<lparr>pf_addr = [224, 0, 0, 0], pf_bits = 4\<rparr> a" by (auto simp: a range_simps)
  show "a ! 0 = 10 \<longleftrightarrow> Contains \<lparr>pf_addr = [10, 0, 0, 0], pf_bits = 8\<rparr> a" by (auto simp: a range_simps)
  show "a ! 0 = 172 \<and> a ! 1 AND 0xF0 = 16 \<longleftrightarrow> Contains \<lparr>pf_addr = [172, 16, 0, 0], pf_bits = 12\<rparr> a"
    by (auto simp: a range_simps)
  show "a ! 0 = 192 \<and> a ! 1 = 168 \<longleftrightarrow> Contains \<lparr>pf_addr = [192, 168, 0, 0], pf_bits = 16\<rparr> a" by (auto simp: a range_simps)
qed

lemma v6_ranges:
  assumes "length a = 16"
  shows "a ! 0 = 0xFF \<longleftrightarrow> Contains \<lparr>pf_addr = 0xFF # replicate 15 0, pf_bits = 8\<rparr> a"
    "a ! 0 = 0xFE \<and> a ! 1 AND 0xC0 = 0x80 \<longleftrightarrow> Contains \<lparr>pf_addr = [0xFE, 0x80] @ replicate 14 0, pf_bits = 10\<rparr> a"
    "a ! 0 AND 0xFE = 0xFC \<longleftrightarrow> Contains \<lparr>pf_addr = 0xFC # replicate 15 0, pf_bits = 7\<rparr> a"
proof -
  obtain b0 b1 r where a: "a = b0 # b1 # r" "length r = 14"
    using assms by (auto simp: length_Suc_conv numeral_eq_Suc)
  show "a ! 0 = 0xFF \<longleftrightarrow> Contains \<lparr>pf_addr = 0xFF # replicate 15 0, pf_bits = 8\<rparr> a" by (auto simp: a range_simps)
  show "a ! 0 = 0xFE \<and> a ! 1 AND 0xC0 = 0x80 \<longleftrightarrow> Contains \<lparr>pf_addr = [0xFE, 0x80] @ replicate 14 0, pf_bits = 10\<rparr> a"
    by (auto simp: a range_simps)
  show "a ! 0 AND 0xFE = 0xFC \<longleftrightarrow> Contains \<lparr>pf_addr = 0xFC # replicate 15 0, pf_bits = 7\<rparr> a" by (auto simp: a range_simps)
qed

lemma in_ranges_simps:
  "in_ranges [] a \<longleftrightarrow> False" "in_ranges (p # ps) a \<longleftrightarrow> Contains p a \<or> in_ranges ps a"
  by (simp_all add: in_ranges_def)

lemma To4_length: "To4 ip = Some v \<Longrightarrow> length v = 4 \<and> (length ip = 4 \<longrightarrow> v = ip)"
  by (simp add: To4_def split: if_split_asm) auto

lemma To4_mapped: "To4 ip = Some v \<Longrightarrow> length ip = 16 \<Longrightarrow> take 12 ip = v4InV6Prefix"
  by (simp add: To4_def split: if_split_asm)

lemma toAddr_cases:
  assumes "toAddr ip = Some a"
  obtains (v4) "To4 ip = Some a" "length a = 4" "\<not> (length ip = 16 \<and> ip ! 0 = 0xFF)"
  | (v6) "To4 ip = None" "a = ip" "length ip = 16"
proof (cases "To4 ip")
  case None
  then have "length ip \<noteq> 4" unfolding To4_def by (simp split: if_split_asm)
  then show thesis using assms v6 None by (simp add: toAddr_def split: if_split_asm)
next
  case (Some v)
  then have "a = v" "length v = 4" using assms To4_length [OF Some] by (simp_all add: toAddr_def split: if_split_asm)
  moreover have "ip ! 0 = 0" if "length ip = 16"
  proof -
    have "ip ! 0 = take 12 ip ! 0" by simp
    also have "\<dots> = 0" unfolding To4_mapped [OF Some that] by (simp add: v4InV6Prefix_def nth_append)
    finally show ?thesis .
  qed
  ultimately show thesis using Some v4 by auto
qed

lemma link_local_multicast_v4:
  "length a = 4 \<Longrightarrow> a ! 0 = 224 \<Longrightarrow> Contains \<lparr>pf_addr = [224, 0, 0, 0], pf_bits = 4\<rparr> a"
  using v4_ranges(3) [of a] by simp

lemmas ip_predicates = IsLoopback_def IsLinkLocalUnicast_def IsLinkLocalMulticast_def IsUnspecified_def IsMulticast_def
  IsInterfaceLocalMulticast_def IsPrivate_def

lemma blocked_iff_range:
  assumes "toAddr ip = Some a"
  shows "IsLoopback ip \<or> IsLinkLocalUnicast ip \<or> IsLinkLocalMulticast ip \<or> IsUnspecified ip \<or> IsMulticast ip
    \<or> IsInterfaceLocalMulticast ip \<longleftrightarrow> in_ranges blocked_ranges a"
  using assms
proof (cases rule: toAddr_cases)
  case v4
  have u: "a = replicate 4 0 \<longleftrightarrow> Contains \<lparr>pf_addr = [0, 0, 0, 0], pf_bits = 32\<rparr> a"
    by (subst Contains_full) (simp_all add: numeral_eq_Suc)
  have x: "\<not> Contains \<lparr>pf_addr = IPv6loopback, pf_bits = 128\<rparr> a" "\<not> Contains \<lparr>pf_addr = IPv6unspecified, pf_bits = 128\<rparr> a"
    "\<not> Contains \<lparr>pf_addr = [0xFE, 0x80] @ replicate 14 0, pf_bits = 10\<rparr> a" "\<not> Contains \<lparr>pf_addr = 0xFF # replicate 15 0, pf_bits = 8\<rparr> a"
    using v4(2) by (auto simp: Contains_def IPv6loopback_def IPv6unspecified_def)
  show ?thesis using u x v4(3) link_local_multicast_v4 [OF v4(2)]
    unfolding ip_predicates v4(1) option.case v4_ranges [OF v4(2)] blocked_ranges_def in_ranges_simps by blast
next
  case v6
  have u: "a = IPv6unspecified \<longleftrightarrow> Contains \<lparr>pf_addr = IPv6unspecified, pf_bits = 128\<rparr> a"
    "a = IPv6loopback \<longleftrightarrow> Contains \<lparr>pf_addr = IPv6loopback, pf_bits = 128\<rparr> a"
    by (subst Contains_full; simp add: IPv6unspecified_def IPv6loopback_def)+
  have l: "length a = 16" and t: "To4 a = None" using v6 by simp_all
  have x: "\<not> Contains \<lparr>pf_addr = [p, q, r, t], pf_bits = n\<rparr> a" for p q r t n
    using l by (auto simp: Contains_def)
  show ?thesis using u x l
    unfolding v6(2) [symmetric] unfolding ip_predicates t option.case v6_ranges [OF l] blocked_ranges_def in_ranges_simps by blast
qed

lemma private_iff_range:
  assumes "toAddr ip = Some a"
  shows "IsPrivate ip \<or> Contains cgnatPrefix a \<longleftrightarrow> in_ranges private_ranges a"
  using assms
proof (cases rule: toAddr_cases)
  case v4
  have x: "\<not> Contains \<lparr>pf_addr = 0xFC # replicate 15 0, pf_bits = 7\<rparr> a" using v4(2) by (auto simp: Contains_def)
  show ?thesis using x unfolding ip_predicates v4(1) option.case v4_ranges [OF v4(2)] private_ranges_def in_ranges_simps by blast
next
  case v6
  have l: "length a = 16" and t: "To4 a = None" using v6 by simp_all
  have x: "\<not> Contains \<lparr>pf_addr = [p, q, r, t], pf_bits = n\<rparr> a" for p q r t n
    using l by (auto simp: Contains_def)
  show ?thesis using x l
    unfolding v6(2) [symmetric] unfolding ip_predicates t option.case v6_ranges [OF l] private_ranges_def in_ranges_simps cgnatPrefix_def by blast
qed

text \<open>
  The byte tests are the documented ranges.  For every IPv4 address, in either of its two forms, and every
  IPv6 address, the guard's classification is exactly membership in the address ranges it documents: the
  metadata addresses first, then loopback, link-local, unspecified and multicast, then the private ranges.
\<close>
theorem classify_by_ranges:
  assumes "toAddr ip = Some a"
  shows "(classify ip = catMetadata \<longleftrightarrow> a \<in> set metadataIPs)
    \<and> (classify ip \<in> {catLoopback, catLinkLocal, catUnspecMulticast}
         \<longleftrightarrow> a \<notin> set metadataIPs \<and> in_ranges blocked_ranges a)
    \<and> (classify ip = catPrivate
         \<longleftrightarrow> a \<notin> set metadataIPs \<and> \<not> in_ranges blocked_ranges a \<and> in_ranges private_ranges a)"
  unfolding blocked_iff_range [OF assms, symmetric] private_iff_range [OF assms, symmetric]
  by (auto simp: classify_def assms)

theorem classify_by_ranges_witness:
  "classify [0, 0, 0, 0, 0, 0, 0, 0, 0, 0, 255, 255, 169, 254, 169, 254] = catMetadata"
proof -
  have "toAddr [0, 0, 0, 0, 0, 0, 0, 0, 0, 0, 255, 255, 169, 254, 169, 254] = Some [169, 254, 169, 254]"
    by (simp add: toAddr_def To4_def v4InV6Prefix_def numeral_eq_Suc)
  from classify_by_ranges [OF this] show ?thesis by (simp add: metadataIPs_def)
qed

section \<open>What is dialled\<close>

lemma dial_loop_dialled: "ip \<in> set (snd (dial_loop net g network host port e ips)) \<Longrightarrow> ip \<in> set ips \<and> fst (decision g ip)"
  by (induction ips arbitrary: e) (auto split: prod.splits if_splits sum.splits)

lemma decision_cases:
  "fst (decision g ip) \<longleftrightarrow> classify ip = catPublic
     \<or> eg_AllowLoopback g \<and> classify ip \<noteq> catMetadata
     \<or> classify ip = catPrivate \<and> (inAllowlist g ip \<or> eg_Mode g = ModeShadow)"
  by (cases "classify ip"; cases "eg_Mode g") (auto simp: decision_def)

text \<open>
  C37: No fetch reaches a forbidden address.  Whatever a host name resolves to, every address handed to the dialler
  comes from the resolution and is not a cloud-metadata address; unless the test-only loopback switch is on,
  it lies in none of the loopback, link-local, unspecified or multicast ranges; and once the guard enforces,
  it lies in a private range only if an allowlisted prefix contains it.
\<close>
theorem dial_respects_policy:
  assumes "ip \<in> set (snd (dialContext net g network addr))" "toAddr ip = Some a"
  shows "(\<exists>host port ips. net_splitHostPort net addr = Some (host, port) \<and> net_resolve net host = Inr ips \<and> ip \<in> set ips)
    \<and> a \<notin> set metadataIPs
    \<and> (\<not> eg_AllowLoopback g \<longrightarrow> \<not> in_ranges blocked_ranges a)
    \<and> (\<not> eg_AllowLoopback g \<longrightarrow> eg_Mode g = ModeEnforce \<longrightarrow> in_ranges private_ranges a \<longrightarrow>
         (\<exists>p \<in> set (eg_PrivateAllowlist g). Contains p a))"
proof -
  obtain host port ips where h: "net_splitHostPort net addr = Some (host, port)" "net_resolve net host = Inr ips"
      "ip \<in> set (snd (dial_loop net g network host port None ips))"
    using assms(1) by (auto simp: dialContext_def split: option.splits sum.splits)
  have d: "ip \<in> set ips" "fst (decision g ip)" using dial_loop_dialled [OF h(3)] by simp_all
  have blocked: "in_ranges blocked_ranges a \<longleftrightarrow> IsLoopback ip \<or> IsLinkLocalUnicast ip \<or> IsLinkLocalMulticast ip
      \<or> IsUnspecified ip \<or> IsMulticast ip \<or> IsInterfaceLocalMulticast ip"
    using blocked_iff_range [OF assms(2)] by simp
  have priv: "in_ranges private_ranges a \<longleftrightarrow> IsPrivate ip \<or> Contains cgnatPrefix a"
    using private_iff_range [OF assms(2)] by simp
  have m: "classify ip = catMetadata \<longleftrightarrow> a \<in> set metadataIPs" by (simp add: classify_def assms(2))
  have "a \<notin> set metadataIPs" using d(2) m unfolding decision_cases by auto
  moreover have "classify ip \<in> {catLoopback, catLinkLocal, catUnspecMulticast}"
    if "a \<notin> set metadataIPs" "in_ranges blocked_ranges a" using that unfolding blocked by (auto simp: classify_def assms(2))
  moreover have "classify ip = catPrivate"
    if "a \<notin> set metadataIPs" "\<not> in_ranges blocked_ranges a" "in_ranges private_ranges a"
    using that unfolding blocked priv by (auto simp: classify_def assms(2))
  ultimately show ?thesis using h(1,2) d unfolding decision_cases
    by (cases "in_ranges blocked_ranges a") (auto simp: inAllowlist_def assms(2))
qed

definition loopback_net :: "string Net" where
  "loopback_net = \<lparr>net_splitHostPort = (\<lambda>s. Some (s, ''443'')),
     net_resolve = (\<lambda>_. Inr [[127, 0, 0, 1], [169, 254, 169, 254], [10, 1, 2, 3], [93, 184, 216, 34]]),
     net_dial = (\<lambda>_ ip _. if ip = [10, 1, 2, 3] then Inl ''refused'' else Inr ''connected'')\<rparr>"

definition on_prem_policy :: Policy where
  "on_prem_policy = \<lparr>eg_Mode = ModeEnforce, eg_PrivateAllowlist = [\<lparr>pf_addr = [10, 1, 0, 0], pf_bits = 16\<rparr>], eg_AllowLoopback = False\<rparr>"

theorem dial_respects_policy_witness:
  "snd (dialContext loopback_net on_prem_policy ''tcp'' ''h'') = [[10, 1, 2, 3], [93, 184, 216, 34]]
     \<and> (\<exists>p \<in> set (eg_PrivateAllowlist on_prem_policy). Contains p [10, 1, 2, 3])"
proof -
  have s: "snd (dialContext loopback_net on_prem_policy ''tcp'' ''h'') = [[10, 1, 2, 3], [93, 184, 216, 34]]" by code_simp
  have p: "in_ranges private_ranges [10, 1, 2, 3]" by code_simp
  from dial_respects_policy [of "[10, 1, 2, 3]" loopback_net on_prem_policy "''tcp''" "''h''" "[10, 1, 2, 3]"]
  show ?thesis using s p by (simp add: toAddr_def on_prem_policy_def)
qed

text \<open>A permitted address that accepts the connection is used, whatever precedes it.\<close>

lemma dial_loop_connects:
  assumes "ip \<in> set ips" "fst (decision g ip)" "net_dial net network ip port = Inr conn"
  shows "\<exists>conn'. fst (dial_loop net g network host port e ips) = Inr conn'"
  using assms(1)
proof (induction ips arbitrary: e)
  case (Cons x ips)
  then show ?case using assms(2,3) by (auto split: prod.splits sum.splits)
qed simp

text \<open>
  The guard does not get in the way of permitted destinations.  When a host resolves to at least one address
  that the policy permits and that accepts the connection, dialling succeeds, wherever that address is in the
  list and whatever the others are.
\<close>
theorem permitted_destination_reachable:
  assumes "net_splitHostPort net addr = Some (host, port)" "net_resolve net host = Inr ips" "ip \<in> set ips"
    and "classify ip = catPublic \<or> classify ip = catPrivate \<and> inAllowlist g ip"
    and "net_dial net network ip port = Inr conn"
  shows "\<exists>conn'. fst (dialContext net g network addr) = Inr conn'"
  using dial_loop_connects [of ip ips g net network port conn host None] assms
  by (auto simp: dialContext_def decision_cases)

theorem permitted_destination_reachable_witness:
  "\<exists>conn. fst (dialContext loopback_net on_prem_policy ''tcp'' ''h'') = Inr conn"
proof -
  have c: "classify [93, 184, 216, 34] = catPublic" by code_simp
  show ?thesis
    by (rule permitted_destination_reachable [where host = "''h''" and port = "''443''" and ip = "[93, 184, 216, 34]" and conn = "''connected''"
          and ips = "[[127, 0, 0, 1], [169, 254, 169, 254], [10, 1, 2, 3], [93, 184, 216, 34]]"])
       (simp_all add: loopback_net_def c)
qed

text \<open>Clearing the host bits of an allowlisted prefix does not change what it contains.\<close>

lemma mask_bits_take: "take n (byte_bits (mask_bits n b)) = take n (byte_bits b)"
proof (cases "8 \<le> n")
  case False
  then have "n \<in> {0, 1, 2, 3, 4, 5, 6, 7}" by auto
  then show ?thesis by (auto simp: mask_bits_def byte_bits_def bit_and_iff bit_not_iff bit_mask_iff)
qed (simp add: mask_bits_def)

lemma Masked_addr_take: "take n (addr_bits (Masked_addr n a)) = take n (addr_bits a)"
proof (induction n a rule: Masked_addr.induct)
  case (2 n b bs)
  then show ?case using mask_bits_take [of n b] by (simp add: addr_bits_def)
qed simp

lemma Masked_Contains: "Contains (Masked p) a \<longleftrightarrow> Contains p a"
proof -
  have "length (Masked_addr n b) = length b" for n b by (induction n b rule: Masked_addr.induct) simp_all
  then show ?thesis by (simp add: Contains_def Masked_def Masked_addr_take)
qed

section \<open>Error texts\<close>

definition coarse_errors :: "string set" where
  "coarse_errors = {[], ''blocked by egress policy'', ''authentication failed (401)'',
     ''forbidden '' @ [CHR 0xE2, CHR 0x80, CHR 0x94] @ '' token scope or rate limit (403)'',
     ''not found (404) '' @ [CHR 0xE2, CHR 0x80, CHR 0x94] @ '' check the destination/repo/workflow'',
     ''rejected by the destination (422)'', ''DNS resolution failed'', ''connection refused'',
     ''connection timed out'', ''TLS error'', ''connection failed''}"

text \<open>Whatever the upstream error says, what is reported is one of eleven fixed texts; in particular the
  reason and the host of a blocked connection are not.\<close>

lemma SanitizeError_coarse: "SanitizeError lower err \<in> coarse_errors"
proof (cases err)
  case None
  then show ?thesis by (simp add: SanitizeError_def coarse_errors_def)
next
  case (Some p)
  obtain e m where p: "p = (e, m)" by (cases p)
  show ?thesis
  proof (cases e)
    case BlockedError
    then show ?thesis using Some p by (simp add: SanitizeError_def coarse_errors_def)
  qed (simp_all only: Some p SanitizeError_def option.case prod.case dial_error.case Let_def coarse_errors_def, simp_all)
qed

end
