(* ===== verification/Auth_Tokens.thy ===== *)
theory Auth_Tokens
  imports Action_Dispatch
begin

text \<open>
  API tokens: the service of \<open>services/auth_service_impl.go\<close> with the scopes of \<open>services/auth_service.go\<close>
  and the token table of the in-memory store.  Entropy and identifiers come from numbered sources, so that
  issuing a token is a function of the state.
\<close>

section \<open>Scopes (services/auth\_service.go)\<close>

abbreviation ScopeWildcard :: string where "ScopeWildcard \<equiv> ''*''"
abbreviation ScopeOpAMPEnroll :: string where "ScopeOpAMPEnroll \<equiv> ''opamp:enroll''"

definition AllScopes :: "string list" where
  "AllScopes =
     [''agents:read'', ''agents:write'', ''agents:admin'', ''groups:read'', ''groups:write'', ''configs:read'',
      ''configs:write'', ''telemetry:read'', ''alerts:read'', ''alerts:write'', ''automations:read'',
      ''automations:write'', ''rollouts:read'', ''rollouts:write'', ''rollouts:approve'', ''audit:read'',
      ''audit:export'', ''audit:cross_tenant'', ''audit:verify'', ''audit:all_tenants'', ''audit:sign'',
      ''auth:read'', ''auth:write'', ''deploy:read'', ''deploy:trigger'', ''siem:read'', ''siem:write'',
      ''actions:read'', ''actions:write'', ScopeOpAMPEnroll, ''incidents:read'', ''incidents:write'', ''scim:read'',
      ''scim:write'', ''sso:read'', ''sso:write'', ''sso:cross_tenant'', ''usage:read'', ''usage:cross_tenant'',
      ''budgets:read'', ''budgets:write'', ''budgets:cross_tenant'', ''ai:write'']"

definition IsValidScope :: "string \<Rightarrow> bool" where
  "IsValidScope s \<longleftrightarrow> s = ScopeWildcard \<or> s \<in> set AllScopes"

section \<open>Data\<close>

text \<open>The stored row (\<open>types.APIToken\<close>) and the service's view of it (\<open>services.APIToken\<close>).\<close>

record StoredToken =
  tk_ID :: string
  tk_Label :: string
  tk_Hash :: string
  tk_Scopes :: "string list"
  tk_CreatedAt :: gotime
  tk_LastUsedAt :: "gotime option"
  tk_RevokedAt :: "gotime option"
  tk_ExpiresAt :: "gotime option"
  tk_TenantID :: string
  tk_ConnectionID :: string

record APIToken =
  api_ID :: string
  api_Label :: string
  api_Scopes :: "string list"
  api_CreatedAt :: gotime
  api_LastUsedAt :: "gotime option"
  api_RevokedAt :: "gotime option"
  api_ExpiresAt :: "gotime option"
  api_TenantID :: string

definition toServiceToken :: "StoredToken \<Rightarrow> APIToken" where
  "toServiceToken t =
     \<lparr>api_ID = tk_ID t, api_Label = tk_Label t, api_Scopes = tk_Scopes t, api_CreatedAt = tk_CreatedAt t,
      api_LastUsedAt = tk_LastUsedAt t, api_RevokedAt = tk_RevokedAt t, api_ExpiresAt = tk_ExpiresAt t,
      api_TenantID = tk_TenantID t\<rparr>"

text \<open>Flat scope check; shared by tokens, actors and principals.\<close>

definition has_scope :: "string list \<Rightarrow> string \<Rightarrow> bool" where
  "has_scope scopes required = (if scopes = [] then False else \<exists>s \<in> set scopes. s = ScopeWildcard \<or> s = required)"

definition token_HasScope :: "APIToken \<Rightarrow> string \<Rightarrow> bool" where
  "token_HasScope t required = has_scope (api_Scopes t) required"

definition actor_HasScope :: "AuthActor \<Rightarrow> string \<Rightarrow> bool" where
  "actor_HasScope a required = has_scope (actor_Scopes a) required"

definition IsExpired :: "gotime \<Rightarrow> APIToken \<Rightarrow> bool" where
  "IsExpired now t = (case api_ExpiresAt t of None \<Rightarrow> False | Some e \<Rightarrow> \<not> now < e)"

datatype token_error =
    LabelRequired
  | LabelTooLong
  | ScopesRequired
  | UnknownScope string
  | ExpiryNotInFuture
  | EntropyFailed
  | TokenIDExists string
  | TokenHashCollision
  | TokenNotFound

text \<open>The tokens, how much entropy was read, and the world the audit log and identifiers live in.\<close>

record AuthState =
  au_tokens :: "(string \<times> StoredToken) list"
  au_reads :: nat
  au_world :: World

section \<open>The token table (memory store)\<close>

definition CreateAPIToken :: "StoredToken \<Rightarrow> (string \<times> StoredToken) list \<Rightarrow> token_error + (string \<times> StoredToken) list" where
  "CreateAPIToken t ts =
     (if map_of ts (tk_ID t) \<noteq> None then Inl (TokenIDExists (tk_ID t))
      else if \<exists>(_, existing) \<in> set ts. tk_Hash existing = tk_Hash t then Inl TokenHashCollision
      else Inr (AList.update (tk_ID t)
             (if tk_TenantID t = [] then t\<lparr>tk_TenantID := ''default''\<rparr> else t) ts))"

definition GetAPITokenByHash :: "string \<Rightarrow> (string \<times> StoredToken) list \<Rightarrow> StoredToken option" where
  "GetAPITokenByHash hash ts = find (\<lambda>t. tk_Hash t = hash) (map snd ts)"

text \<open>Newest first.\<close>

definition ListAPITokens :: "(string \<times> StoredToken) list \<Rightarrow> StoredToken list" where
  "ListAPITokens ts = sort_key (\<lambda>t. - tk_CreatedAt t) (map snd ts)"

definition UpdateAPITokenLastUsed ::
  "string \<Rightarrow> gotime \<Rightarrow> (string \<times> StoredToken) list \<Rightarrow> token_error + (string \<times> StoredToken) list" where
  "UpdateAPITokenLastUsed i now ts =
     (case map_of ts i of
        None \<Rightarrow> Inl TokenNotFound
      | Some t \<Rightarrow> Inr (AList.update i (t\<lparr>tk_LastUsedAt := Some now\<rparr>) ts))"

definition RevokeAPIToken :: "string \<Rightarrow> gotime \<Rightarrow> (string \<times> StoredToken) list \<Rightarrow> (string \<times> StoredToken) list" where
  "RevokeAPIToken i now ts =
     (case map_of ts i of
        None \<Rightarrow> ts
      | Some t \<Rightarrow> if tk_RevokedAt t \<noteq> None then ts else AList.update i (t\<lparr>tk_RevokedAt := Some now\<rparr>) ts)"

text \<open>The rows it revoked, by identifier and label, with the table it leaves.\<close>

definition RevokeAPITokensByConnection ::
  "string \<Rightarrow> gotime \<Rightarrow> (string \<times> StoredToken) list \<Rightarrow> (string \<times> string) list \<times> (string \<times> StoredToken) list" where
  "RevokeAPITokensByConnection connectionID now ts =
     (if connectionID = [] then ([], ts)
      else (let hit = (\<lambda>t. tk_ConnectionID t = connectionID \<and> tk_RevokedAt t = None)
            in (map (\<lambda>(_, t). (tk_ID t, tk_Label t)) (filter (hit \<circ> snd) ts),
                map (\<lambda>(k, t). (k, if hit t then t\<lparr>tk_RevokedAt := Some now\<rparr> else t)) ts)))"

section \<open>Minting (services/auth\_service\_impl.go)\<close>

text \<open>\<open>base64.RawURLEncoding\<close> (package encoding/base64).\<close>

definition b64_char :: "nat \<Rightarrow> char" where
  "b64_char n = char_of (if n < 26 then 65 + n else if n < 52 then 71 + n else if n < 62 then n - 4
     else if n = 62 then 45 else 95)"

fun RawURLEncoding :: "nat list \<Rightarrow> string" where
  "RawURLEncoding (a # b # c # r) =
     b64_char (a div 4) # b64_char (a mod 4 * 16 + b div 16) # b64_char (b mod 16 * 4 + c div 64)
       # b64_char (c mod 64) # RawURLEncoding r"
| "RawURLEncoding [a, b] = [b64_char (a div 4), b64_char (a mod 4 * 16 + b div 16), b64_char (b mod 16 * 4)]"
| "RawURLEncoding [a] = [b64_char (a div 4), b64_char (a mod 4 * 16)]"
| "RawURLEncoding [] = []"

abbreviation tokenPrefix :: string where "tokenPrefix \<equiv> ''sqd_''"
abbreviation labelMaxLen :: nat where "labelMaxLen \<equiv> 64"

definition hashToken :: "string \<Rightarrow> string" where
  "hashToken plaintext = hex_encode (sha256 plaintext)"

text \<open>The scope loop: trimmed, blanks skipped, duplicates dropped, the first unknown one is an error.\<close>

fun normalize_scopes :: "string list \<Rightarrow> string list \<Rightarrow> token_error + string list" where
  "normalize_scopes [] acc = Inr acc"
| "normalize_scopes (raw_sc # scs) acc =
     (let sc = TrimSpace raw_sc in
      if sc = [] then normalize_scopes scs acc
      else if \<not> IsValidScope sc then Inl (UnknownScope sc)
      else if sc \<in> set acc then normalize_scopes scs acc
      else normalize_scopes scs (acc @ [sc]))"

definition checked_request :: "gotime \<Rightarrow> string \<Rightarrow> string list \<Rightarrow> gotime option \<Rightarrow> token_error + string list" where
  "checked_request now label scopes expiresAt =
     (if TrimSpace label = [] then Inl LabelRequired
      else if length (TrimSpace label) > labelMaxLen then Inl LabelTooLong
      else if scopes = [] then Inl ScopesRequired
      else (case normalize_scopes scopes [] of
          Inl e \<Rightarrow> Inl e
        | Inr normalized \<Rightarrow>
            if normalized = [] then Inl ScopesRequired
            else (case expiresAt of
                None \<Rightarrow> Inr normalized
              | Some e \<Rightarrow> if \<not> now < e then Inl ExpiryNotInFuture else Inr normalized)))"

definition buildToken ::
  "Env \<Rightarrow> (nat \<Rightarrow> string option) \<Rightarrow> gotime \<Rightarrow> string \<Rightarrow> string list \<Rightarrow> gotime option \<Rightarrow> AuthState
     \<Rightarrow> (token_error + StoredToken \<times> string) \<times> AuthState" where
  "buildToken env rand now label scopes expiresAt s =
     (case checked_request now label scopes expiresAt of
        Inl e \<Rightarrow> (Inl e, s)
      | Inr normalized \<Rightarrow>
          let s1 = s\<lparr>au_reads := au_reads s + 1\<rparr> in
          (case rand (au_reads s) of
             None \<Rightarrow> (Inl EntropyFailed, s1)
           | Some buf \<Rightarrow>
               let plaintext = tokenPrefix @ RawURLEncoding (map of_char buf);
                   (uuid, w1) = fresh_uuid env (au_world s1)
               in (Inr (\<lparr>tk_ID = uuid, tk_Label = TrimSpace label, tk_Hash = hashToken plaintext,
                         tk_Scopes = normalized, tk_CreatedAt = now, tk_LastUsedAt = None, tk_RevokedAt = None,
                         tk_ExpiresAt = expiresAt, tk_TenantID = [], tk_ConnectionID = []\<rparr>, plaintext),
                   s1\<lparr>au_world := w1\<rparr>)))"

definition token_audit :: "Env \<Rightarrow> gotime \<Rightarrow> Ctx \<Rightarrow> string \<Rightarrow> string \<Rightarrow> payload \<Rightarrow> AuthState \<Rightarrow> AuthState" where
  "token_audit env now ctx verb i p s =
     s\<lparr>au_world := audit env now ctx
         \<lparr>en_Actor = [], en_EventType = ''api_token.'' @ verb, en_TargetType = ''api_token'', en_TargetID = i,
          en_Action = verb, en_Payload = Some p\<rparr> (au_world s)\<rparr>"

text \<open>\<open>Format(time.RFC3339)\<close> of an instant in UTC, which every expiry is (package time).\<close>

definition format_rfc3339 :: "gotime \<Rightarrow> string" where
  "format_rfc3339 t = takeWhile (\<lambda>c. c \<noteq> CHR ''.'') (format_micros t) @ ''Z''"

definition emitIssuedAudit :: "Env \<Rightarrow> gotime \<Rightarrow> Ctx \<Rightarrow> StoredToken \<Rightarrow> AuthState \<Rightarrow> AuthState" where
  "emitIssuedAudit env now ctx stored =
     token_audit env now ctx ''issued'' (tk_ID stored)
       ([(''label'', JStr (tk_Label stored)), (''scopes'', JList (map JStr (tk_Scopes stored)))]
        @ (case tk_ExpiresAt stored of None \<Rightarrow> [] | Some e \<Rightarrow> [(''expires_at'', JStr (format_rfc3339 e))]))"

definition Issue ::
  "Env \<Rightarrow> (nat \<Rightarrow> string option) \<Rightarrow> gotime \<Rightarrow> Ctx \<Rightarrow> string \<Rightarrow> string list \<Rightarrow> gotime option \<Rightarrow> AuthState
     \<Rightarrow> (token_error + APIToken \<times> string) \<times> AuthState" where
  "Issue env rand now ctx label scopes expiresAt s =
     (case buildToken env rand now label scopes expiresAt s of
        (Inl e, s1) \<Rightarrow> (Inl e, s1)
      | (Inr (stored, plaintext), s1) \<Rightarrow>
          (case CreateAPIToken stored (au_tokens s1) of
             Inl e \<Rightarrow> (Inl e, s1)
           | Inr ts \<Rightarrow>
               (Inr (toServiceToken stored, plaintext), emitIssuedAudit env now ctx stored (s1\<lparr>au_tokens := ts\<rparr>))))"

definition svc_ListTokens :: "AuthState \<Rightarrow> APIToken list" where
  "svc_ListTokens s = map toServiceToken (ListAPITokens (au_tokens s))"

definition Revoke :: "Env \<Rightarrow> gotime \<Rightarrow> Ctx \<Rightarrow> string \<Rightarrow> AuthState \<Rightarrow> token_error option \<times> AuthState" where
  "Revoke env now ctx i s =
     (case find (\<lambda>t. tk_ID t = i) (ListAPITokens (au_tokens s)) of
        None \<Rightarrow> (Some TokenNotFound, s)
      | Some t \<Rightarrow>
          (None, token_audit env now ctx ''revoked'' i [(''label'', JStr (tk_Label t))]
                   (s\<lparr>au_tokens := RevokeAPIToken i now (au_tokens s)\<rparr>)))"

definition RevokeByConnection :: "Env \<Rightarrow> gotime \<Rightarrow> Ctx \<Rightarrow> string \<Rightarrow> AuthState \<Rightarrow> nat \<times> AuthState" where
  "RevokeByConnection env now ctx connectionID s =
     (let (revoked, ts) = RevokeAPITokensByConnection connectionID now (au_tokens s)
      in (length revoked,
          fold (\<lambda>(i, label). token_audit env now ctx ''revoked'' i
                  [(''label'', JStr label), (''reason'', JStr ''connection_deleted''),
                   (''connection_id'', JStr connectionID)])
            revoked (s\<lparr>au_tokens := ts\<rparr>)))"

definition Validate_token :: "gotime \<Rightarrow> string \<Rightarrow> AuthState \<Rightarrow> APIToken option \<times> AuthState" where
  "Validate_token now plaintext s =
     (if \<not> prefix tokenPrefix plaintext then (None, s)
      else (case GetAPITokenByHash (hashToken plaintext) (au_tokens s) of
          None \<Rightarrow> (None, s)
        | Some stored \<Rightarrow>
            if tk_RevokedAt stored \<noteq> None then (None, s)
            else if (case tk_ExpiresAt stored of None \<Rightarrow> False | Some e \<Rightarrow> \<not> now < e) then (None, s)
            else (case UpdateAPITokenLastUsed (tk_ID stored) now (au_tokens s) of
                Inl _ \<Rightarrow> (Some (toServiceToken stored), s)
              | Inr ts \<Rightarrow> (Some (toServiceToken stored), s\<lparr>au_tokens := ts\<rparr>))))"

section \<open>What the operations do to the table\<close>

lemma token_audit_simps [simp]:
  "au_tokens (token_audit env now ctx verb i p s) = au_tokens s"
  "au_reads (token_audit env now ctx verb i p s) = au_reads s"
  by (simp_all add: token_audit_def)

lemma emitIssuedAudit_tokens [simp]: "au_tokens (emitIssuedAudit env now ctx t s) = au_tokens s"
  by (simp add: emitIssuedAudit_def)

text \<open>What minting guarantees of the row it builds.\<close>

definition minted :: "gotime \<Rightarrow> string \<Rightarrow> gotime option \<Rightarrow> StoredToken \<Rightarrow> string \<Rightarrow> bool" where
  "minted now label expiresAt t plaintext \<longleftrightarrow>
     tk_Label t = TrimSpace label \<and> tk_Label t \<noteq> [] \<and> length (tk_Label t) \<le> labelMaxLen
     \<and> tk_Scopes t \<noteq> [] \<and> distinct (tk_Scopes t) \<and> (\<forall>sc \<in> set (tk_Scopes t). IsValidScope sc)
     \<and> prefix tokenPrefix plaintext \<and> tk_Hash t = hashToken plaintext
     \<and> tk_RevokedAt t = None \<and> tk_ConnectionID t = [] \<and> tk_ExpiresAt t = expiresAt
     \<and> (\<forall>e. expiresAt = Some e \<longrightarrow> now < e)"

lemma normalize_scopes_ok:
  assumes "normalize_scopes scs acc = Inr out" "distinct acc" "\<forall>sc \<in> set acc. IsValidScope sc"
  shows "distinct out \<and> (\<forall>sc \<in> set out. IsValidScope sc)
    \<and> set out = set acc \<union> {sc. sc \<in> TrimSpace ` set scs \<and> sc \<noteq> []}"
  using assms
proof (induction scs acc rule: normalize_scopes.induct)
  case (2 r scs acc)
  consider "TrimSpace r = []" | "TrimSpace r \<noteq> []" "IsValidScope (TrimSpace r)" "TrimSpace r \<in> set acc"
    | "TrimSpace r \<noteq> []" "IsValidScope (TrimSpace r)" "TrimSpace r \<notin> set acc"
    using 2(4) by (auto simp: Let_def split: if_splits)
  then show ?case
  proof cases
    case 1
    then show ?thesis using 2 by auto
  next
    case 2
    then show ?thesis using "2.IH"(2) [of "TrimSpace r"] "2.prems" by auto
  next
    case 3
    then show ?thesis using "2.IH"(3) [of "TrimSpace r"] "2.prems" by auto
  qed
qed auto

lemma buildToken_minted:
  assumes "buildToken env rand now label scopes expiresAt s = (Inr (t, plaintext), s')"
  shows "minted now label expiresAt t plaintext \<and> tk_TenantID t = [] \<and> au_tokens s' = au_tokens s
    \<and> set (tk_Scopes t) = {sc. sc \<in> TrimSpace ` set scopes \<and> sc \<noteq> []}"
proof -
  obtain normalized where c: "checked_request now label scopes expiresAt = Inr normalized"
    using assms by (auto simp: buildToken_def split: sum.splits)
  then have "normalize_scopes scopes [] = Inr normalized" "normalized \<noteq> []"
    "TrimSpace label \<noteq> []" "length (TrimSpace label) \<le> labelMaxLen" "\<forall>e. expiresAt = Some e \<longrightarrow> now < e"
    by (auto simp: checked_request_def split: if_splits sum.splits option.splits)
  then show ?thesis
    using assms c normalize_scopes_ok [of scopes "[]" normalized]
    by (auto simp: buildToken_def minted_def Let_def fresh_uuid_def split: option.splits)
qed

lemma buildToken_failed: "buildToken env rand now label scopes expiresAt s = (Inl e, s') \<Longrightarrow> au_tokens s' = au_tokens s"
  by (auto simp: buildToken_def Let_def split: sum.splits option.splits prod.splits)

lemma Issue_cases [case_names failed issued]:
  obtains (failed) e s' where "Issue env rand now ctx label scopes expiresAt s = (Inl e, s')" "au_tokens s' = au_tokens s"
  | (issued) t plaintext s' where
      "Issue env rand now ctx label scopes expiresAt s = (Inr (toServiceToken t, plaintext), s')"
      "minted now label expiresAt t plaintext" "tk_TenantID t = []"
      "set (tk_Scopes t) = {sc. sc \<in> TrimSpace ` set scopes \<and> sc \<noteq> []}"
      "map_of (au_tokens s) (tk_ID t) = None" "\<forall>(k, u) \<in> set (au_tokens s). tk_Hash u \<noteq> tk_Hash t"
      "au_tokens s' = AList.update (tk_ID t) (t\<lparr>tk_TenantID := ''default''\<rparr>) (au_tokens s)"
proof (cases "buildToken env rand now label scopes expiresAt s")
  case (Pair res s1)
  show ?thesis
  proof (cases res)
    case (Inl e)
    then show ?thesis using failed Pair buildToken_failed by (force simp: Issue_def)
  next
    case (Inr tp)
    then obtain t plaintext where tp: "tp = (t, plaintext)" by (cases tp)
    then have m: "minted now label expiresAt t plaintext" "tk_TenantID t = []" "au_tokens s1 = au_tokens s"
        "set (tk_Scopes t) = {sc. sc \<in> TrimSpace ` set scopes \<and> sc \<noteq> []}"
      using buildToken_minted [of env rand now label scopes expiresAt s t plaintext s1] Pair Inr by auto
    show ?thesis
    proof (cases "CreateAPIToken t (au_tokens s1)")
      case (Inl e)
      then show ?thesis using failed Pair Inr tp m by (simp add: Issue_def)
    next
      case (Inr ts)
      then have "map_of (au_tokens s) (tk_ID t) = None" "\<forall>(k, u) \<in> set (au_tokens s). tk_Hash u \<noteq> tk_Hash t"
          "ts = AList.update (tk_ID t) (t\<lparr>tk_TenantID := ''default''\<rparr>) (au_tokens s)"
        using m by (auto simp: CreateAPIToken_def split: if_splits)
      then show ?thesis using issued [of t plaintext] Pair \<open>res = Inr tp\<close> tp m Inr by (simp add: Issue_def)
    qed
  qed
qed

lemma Validate_token_cases [case_names refused accepted]:
  obtains (refused) "Validate_token now plaintext s = (None, s)"
  | (accepted) stored where "fst (Validate_token now plaintext s) = Some (toServiceToken stored)"
      "prefix tokenPrefix plaintext" "GetAPITokenByHash (hashToken plaintext) (au_tokens s) = Some stored"
      "tk_RevokedAt stored = None" "\<forall>e. tk_ExpiresAt stored = Some e \<longrightarrow> now < e"
      "snd (Validate_token now plaintext s) = s
       \<or> (\<exists>t. map_of (au_tokens s) (tk_ID stored) = Some t \<and> snd (Validate_token now plaintext s)
             = s\<lparr>au_tokens := AList.update (tk_ID stored) (t\<lparr>tk_LastUsedAt := Some now\<rparr>) (au_tokens s)\<rparr>)"
proof (cases "fst (Validate_token now plaintext s)")
  case None
  then show ?thesis using refused
    by (auto simp: Validate_token_def split: if_splits option.splits sum.splits)
next
  case (Some tok)
  then obtain stored where "GetAPITokenByHash (hashToken plaintext) (au_tokens s) = Some stored"
    by (auto simp: Validate_token_def split: if_splits option.splits)
  with Some show ?thesis using accepted [of stored]
    by (auto simp: Validate_token_def UpdateAPITokenLastUsed_def split: if_splits option.splits)
qed

section \<open>The life of a token\<close>

text \<open>A row only ever changes its last use and, once, its revocation.\<close>

definition token_follows :: "StoredToken \<Rightarrow> StoredToken \<Rightarrow> bool" where
  "token_follows old new \<longleftrightarrow>
     new\<lparr>tk_LastUsedAt := None, tk_RevokedAt := None\<rparr> = old\<lparr>tk_LastUsedAt := None, tk_RevokedAt := None\<rparr>
     \<and> (tk_RevokedAt old \<noteq> None \<longrightarrow> tk_RevokedAt new = tk_RevokedAt old)"

lemma token_follows_fields:
  assumes "token_follows old new"
  shows "tk_ID new = tk_ID old" "tk_Label new = tk_Label old" "tk_Hash new = tk_Hash old" "tk_Scopes new = tk_Scopes old"
    "tk_ExpiresAt new = tk_ExpiresAt old" "tk_TenantID new = tk_TenantID old" "tk_ConnectionID new = tk_ConnectionID old"
  using assms unfolding token_follows_def by (cases old; cases new; simp)+

lemma token_follows_trans: "token_follows a b \<Longrightarrow> token_follows b c \<Longrightarrow> token_follows a c"
  unfolding token_follows_def by auto

lemma token_follows_refl [simp]: "token_follows t t"
  by (simp add: token_follows_def)

lemma token_follows_used [simp]: "token_follows t (t\<lparr>tk_LastUsedAt := x\<rparr>)"
  by (cases t) (simp add: token_follows_def)

lemma token_follows_revoked [simp]: "tk_RevokedAt t = None \<Longrightarrow> token_follows t (t\<lparr>tk_RevokedAt := x\<rparr>)"
  by (cases t) (simp add: token_follows_def)

text \<open>
  The steps of a running server on the token table.  The label is the identifier of an explicit revocation.
\<close>

inductive auth_step :: "Env \<Rightarrow> (nat \<Rightarrow> string option) \<Rightarrow> string option \<Rightarrow> AuthState \<Rightarrow> AuthState \<Rightarrow> bool" for env rand where
  issue: "auth_step env rand None s (snd (Issue env rand now ctx label scopes expiresAt s))"
| validate: "auth_step env rand None s (snd (Validate_token now plaintext s))"
| revoke: "auth_step env rand (Some i) s (snd (Revoke env now ctx i s))"
| revoke_connection: "auth_step env rand None s (snd (RevokeByConnection env now ctx c s))"

definition tokens_ok :: "(string \<times> StoredToken) list \<Rightarrow> bool" where
  "tokens_ok ts \<longleftrightarrow> distinct (map fst ts) \<and> (\<forall>(k, t) \<in> set ts. tk_ID t = k \<and> tk_Label t \<noteq> [])
     \<and> distinct (map (tk_Hash \<circ> snd) ts)"

text \<open>Replacing a row by one that follows it keeps the table well formed.\<close>

lemma map_hash_update:
  assumes "map_of ts k = Some t" "tk_Hash t' = tk_Hash t"
  shows "map (tk_Hash \<circ> snd) (AList.update k t' ts) = map (tk_Hash \<circ> snd) ts"
  using assms by (induction ts) (auto split: if_splits)

lemma tokens_ok_update:
  assumes "tokens_ok ts" "map_of ts k = Some t" "token_follows t t'"
  shows "tokens_ok (AList.update k t' ts)"
proof -
  have "(k, t) \<in> set ts" using assms(2) by (rule map_of_SomeD)
  then have "tk_ID t = k" "tk_Label t \<noteq> []" using assms(1) by (auto simp: tokens_ok_def)
  moreover have "set (AList.update k t' ts) \<subseteq> insert (k, t') (set ts)" by (rule set_update_subset)
  ultimately show ?thesis
    using assms map_hash_update [of ts k t t'] token_follows_fields [OF assms(3)] distinct_keys_update [of ts k t']
    by (fastforce simp: tokens_ok_def)
qed

lemma update_new: "map_of ts k = None \<Longrightarrow> AList.update k t ts = ts @ [(k, t)]"
  by (induction ts) (auto split: if_splits)

lemma tokens_ok_insert:
  assumes "tokens_ok ts" "map_of ts (tk_ID t) = None" "\<forall>(k, u) \<in> set ts. tk_Hash u \<noteq> tk_Hash t"
    and "tk_Label t \<noteq> []"
  shows "tokens_ok (AList.update (tk_ID t) (t\<lparr>tk_TenantID := x\<rparr>) ts)"
  using assms by (auto simp: update_new tokens_ok_def map_of_eq_None_iff)

lemma fold_frame: "(\<And>x s. g (f x s) = g s) \<Longrightarrow> g (fold f xs s) = g s"
  by (induction xs arbitrary: s) auto

lemma RevokeByConnection_tokens:
  "au_tokens (snd (RevokeByConnection env now ctx c s)) = snd (RevokeAPITokensByConnection c now (au_tokens s))"
  unfolding RevokeByConnection_def by (subst Let_def, simp split: prod.split, subst fold_frame) (auto split: prod.split)

lemma map_of_map_values: "map_of (map (\<lambda>(k, t). (k, f t)) ts) i = map_option f (map_of ts i)"
  by (induction ts) auto

lemma tokens_ok_map:
  assumes "tokens_ok ts" "\<And>t. token_follows t (f t)"
  shows "tokens_ok (map (\<lambda>(k, t). (k, f t)) ts)"
proof -
  define ts' where "ts' = map (\<lambda>(k, t). (k, f t)) ts"
  have "map fst ts' = map fst ts" "map (tk_Hash \<circ> snd) ts' = map (tk_Hash \<circ> snd) ts"
    by (auto simp: ts'_def token_follows_fields(3) [OF assms(2)])
  moreover have "tk_ID t = k \<and> tk_Label t \<noteq> []" if "(k, t) \<in> set ts'" for k t
    using that assms(1) by (auto simp: ts'_def tokens_ok_def token_follows_fields(1,2) [OF assms(2)])
  ultimately have "tokens_ok ts'" using assms(1) unfolding tokens_ok_def by auto
  then show ?thesis by (simp add: ts'_def)
qed

lemma revoked_rows:
  assumes "snd (RevokeAPITokensByConnection c now ts) = ts'"
  obtains f where "ts' = map (\<lambda>(k, t). (k, f t)) ts" "\<And>t. token_follows t (f t)" "\<And>t. tk_ConnectionID t = [] \<Longrightarrow> f t = t"
proof (cases "c = []")
  case True
  then show ?thesis using assms that [of "\<lambda>t. t"] by (simp add: RevokeAPITokensByConnection_def)
next
  case False
  then show ?thesis
    using assms that [of "\<lambda>t. if tk_ConnectionID t = c \<and> tk_RevokedAt t = None then t\<lparr>tk_RevokedAt := Some now\<rparr> else t"]
    by (simp add: RevokeAPITokensByConnection_def Let_def)
qed

text \<open>One step on the table: it stays well formed, every row is followed by one, and only an explicit
  revocation or a revocation of its connection revokes it.\<close>

definition table_step :: "string option \<Rightarrow> (string \<times> StoredToken) list \<Rightarrow> (string \<times> StoredToken) list \<Rightarrow> bool" where
  "table_step l ts ts' \<longleftrightarrow> tokens_ok ts' \<and> (\<forall>k old. map_of ts k = Some old \<longrightarrow>
     (\<exists>new. map_of ts' k = Some new \<and> token_follows old new
        \<and> (tk_ConnectionID old = [] \<and> l \<noteq> Some k \<longrightarrow> tk_RevokedAt new = tk_RevokedAt old)))"

lemma table_step_same: "tokens_ok ts \<Longrightarrow> table_step l ts ts"
  by (simp add: table_step_def)

lemma table_step_update:
  assumes "tokens_ok ts" "map_of ts k = Some t" "token_follows t t'" "l = Some k \<or> tk_RevokedAt t' = tk_RevokedAt t"
  shows "table_step l ts (AList.update k t' ts)"
  using assms by (auto simp: table_step_def tokens_ok_update)

lemma auth_step_table:
  assumes "auth_step env rand l s s'" "tokens_ok (au_tokens s)"
  shows "table_step l (au_tokens s) (au_tokens s')"
  using assms(1)
proof cases
  case (issue now ctx label scopes expiresAt)
  show ?thesis
  proof (cases rule: Issue_cases [of env rand now ctx label scopes expiresAt s])
    case (failed e s1)
    then show ?thesis using issue assms(2) by (simp add: table_step_same)
  next
    case (issued t plaintext s1)
    then show ?thesis using issue assms(2) tokens_ok_insert [of "au_tokens s" t "''default''"]
      by (auto simp: table_step_def minted_def)
  qed
next
  case (validate now plaintext)
  show ?thesis
  proof (cases rule: Validate_token_cases [of now plaintext s])
    case refused
    then show ?thesis using validate assms(2) by (simp add: table_step_same)
  next
    case (accepted stored)
    then show ?thesis using validate assms(2) by (auto simp: table_step_same intro!: table_step_update)
  qed
next
  case (revoke i now ctx)
  have "table_step (Some i) (au_tokens s) (RevokeAPIToken i now (au_tokens s))"
    using assms(2) by (auto simp: RevokeAPIToken_def table_step_same intro!: table_step_update split: option.split)
  then show ?thesis using revoke assms(2) by (auto simp: Revoke_def table_step_same split: option.split)
next
  case (revoke_connection now ctx c)
  define ts' where "ts' = snd (RevokeAPITokensByConnection c now (au_tokens s))"
  obtain f where f: "ts' = map (\<lambda>(k, t). (k, f t)) (au_tokens s)" "\<And>t. token_follows t (f t)"
      "\<And>t. tk_ConnectionID t = [] \<Longrightarrow> f t = t"
    using revoked_rows [of c now "au_tokens s" ts'] by (auto simp: ts'_def)
  then have "table_step l (au_tokens s) ts'"
    using assms(2) by (auto simp: table_step_def tokens_ok_map map_of_map_values)
  then show ?thesis using revoke_connection by (simp add: RevokeByConnection_tokens ts'_def)
qed

abbreviation auth_steps :: "Env \<Rightarrow> (nat \<Rightarrow> string option) \<Rightarrow> AuthState \<Rightarrow> AuthState \<Rightarrow> bool" where
  "auth_steps env rand \<equiv> (\<lambda>s s'. \<exists>l. auth_step env rand l s s')\<^sup>*\<^sup>*"

text \<open>Histories in which one token is not explicitly revoked.\<close>

abbreviation auth_steps_sparing :: "Env \<Rightarrow> (nat \<Rightarrow> string option) \<Rightarrow> string \<Rightarrow> AuthState \<Rightarrow> AuthState \<Rightarrow> bool" where
  "auth_steps_sparing env rand i \<equiv> (\<lambda>s s'. \<exists>l. l \<noteq> Some i \<and> auth_step env rand l s s')\<^sup>*\<^sup>*"

interpretation tokens: row_history "\<lambda>s s'. \<exists>l. auth_step env rand l s s'" "\<lambda>s. tokens_ok (au_tokens s)"
  "\<lambda>s. map_of (au_tokens s)" token_follows for env rand
  by unfold_locales
     (use auth_step_table token_follows_trans in \<open>fastforce simp: table_step_def\<close>)+

interpretation spared: row_history "\<lambda>s s'. \<exists>l. l \<noteq> Some i \<and> auth_step env rand l s s'" "\<lambda>s. tokens_ok (au_tokens s)"
  "\<lambda>s k. if k = i then map_of (au_tokens s) k else None"
  "\<lambda>old new. token_follows old new \<and> (tk_ConnectionID old = [] \<longrightarrow> tk_RevokedAt new = tk_RevokedAt old)" for env rand i
proof unfold_locales
  fix s s' :: AuthState
  assume "\<exists>l. l \<noteq> Some i \<and> auth_step env rand l s s'" "tokens_ok (au_tokens s)"
  then show "tokens_ok (au_tokens s')" using auth_step_table unfolding table_step_def by blast
next
  fix u v w
  assume "token_follows u v \<and> (tk_ConnectionID u = [] \<longrightarrow> tk_RevokedAt v = tk_RevokedAt u)"
    "token_follows v w \<and> (tk_ConnectionID v = [] \<longrightarrow> tk_RevokedAt w = tk_RevokedAt v)"
  then show "token_follows u w \<and> (tk_ConnectionID u = [] \<longrightarrow> tk_RevokedAt w = tk_RevokedAt u)"
    using token_follows_trans token_follows_fields(7) by metis
next
  fix s s' :: AuthState and k old
  assume "\<exists>l. l \<noteq> Some i \<and> auth_step env rand l s s'" "tokens_ok (au_tokens s)"
    and "(if k = i then map_of (au_tokens s) k else None) = Some old"
  then show "\<exists>new. (if k = i then map_of (au_tokens s') k else None) = Some new
      \<and> token_follows old new \<and> (tk_ConnectionID old = [] \<longrightarrow> tk_RevokedAt new = tk_RevokedAt old)"
    using auth_step_table unfolding table_step_def by (metis option.distinct(1))
qed simp

section \<open>Authentication\<close>

lemma GetAPITokenByHash_iff:
  assumes "tokens_ok ts"
  shows "GetAPITokenByHash h ts = Some t \<longleftrightarrow> map_of ts (tk_ID t) = Some t \<and> tk_Hash t = h"
proof -
  have row: "map_of ts k = Some u \<longleftrightarrow> (k, u) \<in> set ts" for k u
    using assms by (simp add: tokens_ok_def)
  have same: "u = v" if "(k, u) \<in> set ts" "(k', v) \<in> set ts" "tk_Hash u = tk_Hash v" for k k' u v
  proof -
    have "inj_on (tk_Hash \<circ> snd) (set ts)" using assms by (simp add: tokens_ok_def distinct_map)
    then have "(k, u) = (k', v)" using that by (intro inj_onD [of "tk_Hash \<circ> snd" "set ts"]) auto
    then show ?thesis by simp
  qed
  have key: "tk_ID u = k" if "(k, u) \<in> set ts" for k u using assms that by (auto simp: tokens_ok_def)
  show ?thesis
  proof
    assume "GetAPITokenByHash h ts = Some t"
    then have "t \<in> snd ` set ts" "tk_Hash t = h"
      by (auto simp: GetAPITokenByHash_def find_Some_iff image_iff intro: nth_mem)
    then show "map_of ts (tk_ID t) = Some t \<and> tk_Hash t = h" using row key by force
  next
    assume t: "map_of ts (tk_ID t) = Some t \<and> tk_Hash t = h"
    then have "(tk_ID t, t) \<in> set ts" using row by simp
    then obtain u where u: "GetAPITokenByHash h ts = Some u"
      using t by (cases "GetAPITokenByHash h ts") (force simp: GetAPITokenByHash_def find_None_iff)+
    then have "\<exists>k. (k, u) \<in> set ts" "tk_Hash u = h"
      by (auto simp: GetAPITokenByHash_def find_Some_iff) (metis nth_mem prod.collapse)
    then show "GetAPITokenByHash h ts = Some t" using u t \<open>(tk_ID t, t) \<in> set ts\<close> same by metis
  qed
qed

definition live_at :: "gotime \<Rightarrow> StoredToken \<Rightarrow> bool" where
  "live_at now t \<longleftrightarrow> tk_RevokedAt t = None \<and> (\<forall>e. tk_ExpiresAt t = Some e \<longrightarrow> now < e)"

lemma Validate_token_iff:
  assumes "tokens_ok (au_tokens s)"
  shows "fst (Validate_token now plaintext s) = Some u \<longleftrightarrow>
    (\<exists>t. map_of (au_tokens s) (tk_ID t) = Some t \<and> tk_Hash t = hashToken plaintext
       \<and> prefix tokenPrefix plaintext \<and> live_at now t \<and> u = toServiceToken t)"
proof -
  have "fst (Validate_token now plaintext s) = Some u \<longleftrightarrow>
      (\<exists>t. GetAPITokenByHash (hashToken plaintext) (au_tokens s) = Some t
         \<and> prefix tokenPrefix plaintext \<and> live_at now t \<and> u = toServiceToken t)"
    by (auto simp: Validate_token_def live_at_def split: option.splits sum.splits if_splits)
  then show ?thesis using GetAPITokenByHash_iff [OF assms] by blast
qed

lemma reachable_tokens_ok: "auth_steps env rand s0 s \<Longrightarrow> au_tokens s0 = [] \<Longrightarrow> tokens_ok (au_tokens s)"
  using tokens.inv_history by (simp add: tokens_ok_def)

text \<open>
  A bearer token authenticates exactly while it is live.  In every state the service can reach, validating a
  string succeeds if and only if it carries the token prefix and its digest is that of an issued token that is
  neither revoked nor expired, and it returns that token and no other.
\<close>
theorem Validate_accepts_exactly:
  assumes "auth_steps env rand s0 s" "au_tokens s0 = []"
  shows "fst (Validate_token now plaintext s) = Some u \<longleftrightarrow>
    (\<exists>t. map_of (au_tokens s) (tk_ID t) = Some t \<and> tk_Hash t = hashToken plaintext \<and> prefix tokenPrefix plaintext
       \<and> tk_RevokedAt t = None \<and> (\<forall>e. tk_ExpiresAt t = Some e \<longrightarrow> now < e) \<and> u = toServiceToken t)"
  using Validate_token_iff [OF reachable_tokens_ok [OF assms]] by (simp add: live_at_def)

lemma toServiceToken_simps [simp]:
  "api_ID (toServiceToken t) = tk_ID t" "api_Label (toServiceToken t) = tk_Label t"
  "api_Scopes (toServiceToken t) = tk_Scopes t" "api_TenantID (toServiceToken t) = tk_TenantID t"
  by (simp_all add: toServiceToken_def)

text \<open>What \<open>Issue\<close> leaves behind, in the terms the histories need.\<close>

lemma Issue_row:
  assumes "Issue env rand now ctx label scopes expiresAt s = (Inr (tok, plaintext), s1)" "tokens_ok (au_tokens s)"
  obtains t where "tok = toServiceToken t" "map_of (au_tokens s1) (tk_ID t) = Some (t\<lparr>tk_TenantID := ''default''\<rparr>)"
    "minted now label expiresAt t plaintext" "tokens_ok (au_tokens s1)"
    "set (tk_Scopes t) = {sc. sc \<in> TrimSpace ` set scopes \<and> sc \<noteq> []}"
  using assms tokens_ok_insert
  by (cases rule: Issue_cases [of env rand now ctx label scopes expiresAt s]) (auto simp: minted_def)

text \<open>
  An issued token works until it is revoked or expires.  Whatever the service does afterwards short of
  revoking that very token, validating its plaintext fails exactly when the requested expiry has passed, and
  otherwise returns the token with its identifier, the trimmed label, and exactly the requested scopes.
\<close>
theorem issued_token_validates:
  assumes "auth_steps env rand s0 s" "au_tokens s0 = []"
    and "Issue env rand now ctx label scopes expiresAt s = (Inr (tok, plaintext), s1)"
    and "auth_steps_sparing env rand (api_ID tok) s1 s2"
  shows "(fst (Validate_token t plaintext s2) = None \<longleftrightarrow> (\<exists>e. expiresAt = Some e \<and> e \<le> t))
    \<and> (\<forall>u. fst (Validate_token t plaintext s2) = Some u \<longrightarrow> api_ID u = api_ID tok \<and> api_Label u = TrimSpace label
         \<and> set (api_Scopes u) = {sc. sc \<in> TrimSpace ` set scopes \<and> sc \<noteq> []})"
proof -
  from Issue_row [OF assms(3) reachable_tokens_ok [OF assms(1,2)]] obtain r where r: "tok = toServiceToken r" "minted now label expiresAt r plaintext"
      "map_of (au_tokens s1) (tk_ID r) = Some (r\<lparr>tk_TenantID := ''default''\<rparr>)" "tokens_ok (au_tokens s1)"
      "set (tk_Scopes r) = {sc. sc \<in> TrimSpace ` set scopes \<and> sc \<noteq> []}" .
  obtain new where new: "map_of (au_tokens s2) (tk_ID r) = Some new" "token_follows (r\<lparr>tk_TenantID := ''default''\<rparr>) new"
      "tk_RevokedAt new = None"
    using spared.history [OF assms(4) r(4), of "api_ID tok"] r by (auto simp: minted_def)
  note f = token_follows_fields [OF new(2)]
  have ok2: "tokens_ok (au_tokens s2)" using spared.inv_history [OF assms(4) r(4)] .
  have v: "fst (Validate_token t plaintext s2) = Some u \<longleftrightarrow> live_at t new \<and> u = toServiceToken new" for u
  proof -
    have "tk_ID new = tk_ID r" "tk_Hash new = hashToken plaintext" using f r(2) by (simp_all add: minted_def)
    then have "GetAPITokenByHash (hashToken plaintext) (au_tokens s2) = Some new"
      using GetAPITokenByHash_iff [OF ok2] new(1) by simp
    then have g: "map_of (au_tokens s2) (tk_ID x) = Some x \<and> tk_Hash x = hashToken plaintext \<longleftrightarrow> x = new" for x
      using GetAPITokenByHash_iff [OF ok2, of "hashToken plaintext" x] by auto
    moreover have "prefix tokenPrefix plaintext" using r(2) by (simp add: minted_def)
    ultimately show ?thesis unfolding Validate_token_iff [OF ok2] by metis
  qed
  have "live_at t new \<longleftrightarrow> \<not> (\<exists>e. expiresAt = Some e \<and> e \<le> t)"
    using new(3) f r(2) by (auto simp: live_at_def minted_def not_le)
  moreover have "fst (Validate_token t plaintext s2) = None \<longleftrightarrow> \<not> live_at t new" using v by (metis not_None_eq)
  ultimately show ?thesis using v f r by (auto simp: minted_def)
qed

lemma Revoke_revokes:
  assumes "map_of (au_tokens s) i = Some t" "tokens_ok (au_tokens s)"
  shows "\<exists>s' t'. Revoke env now ctx i s = (None, s') \<and> map_of (au_tokens s') i = Some t' \<and> tk_RevokedAt t' \<noteq> None
    \<and> tk_Hash t' = tk_Hash t"
proof -
  have "(i, t) \<in> set (au_tokens s)" using assms(1) by (rule map_of_SomeD)
  then have "t \<in> set (ListAPITokens (au_tokens s))" "tk_ID t = i"
    using assms(2) by (force simp: ListAPITokens_def tokens_ok_def)+
  then have "find (\<lambda>t. tk_ID t = i) (ListAPITokens (au_tokens s)) \<noteq> None" by (auto simp: find_None_iff)
  then show ?thesis using assms(1) by (auto simp: Revoke_def RevokeAPIToken_def)
qed

text \<open>
  C5: Revocation is immediate and final.  Revoking a token that was issued at any earlier time succeeds, and from
  then on, through every later history of issuing, validating and revoking, its plaintext never authenticates.
\<close>
theorem revoked_token_never_validates:
  assumes "auth_steps env rand s0 s" "au_tokens s0 = []"
    and "Issue env rand now ctx label scopes expiresAt s = (Inr (tok, plaintext), s1)"
    and "auth_steps env rand s1 s2" "Revoke env now' ctx' (api_ID tok) s2 = (err, s3)" "auth_steps env rand s3 s4"
  shows "err = None \<and> fst (Validate_token t plaintext s4) = None"
proof -
  from Issue_row [OF assms(3) reachable_tokens_ok [OF assms(1,2)]] obtain r where r: "tok = toServiceToken r" "minted now label expiresAt r plaintext"
      "map_of (au_tokens s1) (tk_ID r) = Some (r\<lparr>tk_TenantID := ''default''\<rparr>)" "tokens_ok (au_tokens s1)" .
  obtain r2 where r2: "map_of (au_tokens s2) (tk_ID r) = Some r2" "token_follows (r\<lparr>tk_TenantID := ''default''\<rparr>) r2"
    using tokens.history [OF assms(4) r(4,3)] by blast
  have ok2: "tokens_ok (au_tokens s2)" using tokens.inv_history [OF assms(4) r(4)] .
  obtain r3 where r3: "err = None" "map_of (au_tokens s3) (tk_ID r) = Some r3" "tk_RevokedAt r3 \<noteq> None" "tk_Hash r3 = tk_Hash r2"
    using Revoke_revokes [OF r2(1) ok2, of env now' ctx'] assms(5) r(1) by auto
  have "auth_step env rand (Some (api_ID tok)) s2 s3" using auth_step.revoke [of env rand "api_ID tok" s2 now' ctx'] assms(5) by simp
  then have ok3: "tokens_ok (au_tokens s3)" using auth_step_table [OF _ ok2] unfolding table_step_def by blast
  obtain r4 where r4: "map_of (au_tokens s4) (tk_ID r) = Some r4" "token_follows r3 r4"
    using tokens.history [OF assms(6) ok3 r3(2)] by blast
  have ok4: "tokens_ok (au_tokens s4)" using tokens.inv_history [OF assms(6) ok3] .
  have f: "tk_Hash r4 = hashToken plaintext" "tk_RevokedAt r4 \<noteq> None"
    using token_follows_fields(3) [OF r4(2)] token_follows_fields(3) [OF r2(2)] r3 r(2) r4(2)
    by (auto simp: minted_def token_follows_def)
  have "GetAPITokenByHash (hashToken plaintext) (au_tokens s4) = Some r4"
    using GetAPITokenByHash_iff [OF ok4] r4(1) f(1) ok4 map_of_SomeD [OF r4(1)] by (fastforce simp: tokens_ok_def)
  then have "fst (Validate_token t plaintext s4) = None" using f(2) by (simp add: Validate_token_def)
  then show ?thesis using r3(1) by simp
qed

text \<open>A concrete token.\<close>

definition ci_state :: AuthState where
  "ci_state = \<lparr>au_tokens = [], au_reads = 0, au_world = empty_world\<rparr>"

definition ci_rand :: "nat \<Rightarrow> string option" where
  "ci_rand n = Some ''abc''"

definition ci_token :: StoredToken where
  "ci_token = \<lparr>tk_ID = ''u0'', tk_Label = ''ci'', tk_Hash = hashToken ''sqd_YWJj'', tk_Scopes = [''agents:read''],
     tk_CreatedAt = 5, tk_LastUsedAt = None, tk_RevokedAt = None, tk_ExpiresAt = Some 9, tk_TenantID = [],
     tk_ConnectionID = []\<rparr>"

abbreviation ci_issue :: "(token_error + APIToken \<times> string) \<times> AuthState" where
  "ci_issue \<equiv> Issue sample_env ci_rand 5 background_ctx '' ci '' [''agents:read'', '' ''] (Some 9) ci_state"

lemma ci_facts:
  "checked_request 5 '' ci '' [''agents:read'', '' ''] (Some 9) = Inr [''agents:read'']"
  "b64_char 24 = CHR ''Y''" "b64_char 22 = CHR ''W''" "b64_char 9 = CHR ''J''" "b64_char 35 = CHR ''j''" "TrimSpace '' ci '' = ''ci''" "env_uuid sample_env 0 = ''u0''"
  by code_simp+

lemma ci_issued:
  "ci_issue = (Inr (toServiceToken ci_token, ''sqd_YWJj''), snd ci_issue)"
  "au_tokens (snd ci_issue) = [(''u0'', ci_token\<lparr>tk_TenantID := ''default''\<rparr>)]"
  by (simp_all add: Issue_def buildToken_def ci_facts ci_rand_def ci_state_def fresh_uuid_def CreateAPIToken_def
      ci_token_def Let_def empty_world_def)

theorem Validate_accepts_exactly_witness:
  "\<exists>s. auth_steps sample_env ci_rand ci_state s \<and> au_tokens ci_state = []
     \<and> fst (Validate_token 8 ''sqd_YWJj'' s) = Some (toServiceToken (ci_token\<lparr>tk_TenantID := ''default''\<rparr>))"
proof -
  have st: "auth_steps sample_env ci_rand ci_state (snd ci_issue)" by (rule r_into_rtranclp, rule exI, rule auth_step.issue)
  have e: "au_tokens ci_state = []" by (simp add: ci_state_def)
  have "fst (Validate_token 8 ''sqd_YWJj'' (snd ci_issue)) = Some (toServiceToken (ci_token\<lparr>tk_TenantID := ''default''\<rparr>))"
    unfolding Validate_accepts_exactly [OF st e]
    by (rule exI [of _ "ci_token\<lparr>tk_TenantID := ''default''\<rparr>"]) (simp add: ci_issued(2), simp add: ci_token_def)
  then show ?thesis using st e by blast
qed

theorem issued_token_validates_witness:
  "\<exists>s1. ci_issue = (Inr (toServiceToken ci_token, ''sqd_YWJj''), s1)
     \<and> fst (Validate_token 9 ''sqd_YWJj'' s1) = None \<and> fst (Validate_token 8 ''sqd_YWJj'' s1) \<noteq> None"
proof -
  have "(fst (Validate_token t ''sqd_YWJj'' (snd ci_issue)) = None) \<longleftrightarrow> (\<exists>e. Some 9 = Some e \<and> e \<le> t)" for t :: gotime
    by (rule issued_token_validates [OF _ _ ci_issued(1), THEN conjunct1]) (auto simp: ci_state_def)
  from this [of 9] this [of 8] show ?thesis using ci_issued(1) by (intro exI [of _ "snd ci_issue"]) simp
qed

theorem revoked_token_never_validates_witness:
  "\<exists>s1 s3. ci_issue = (Inr (toServiceToken ci_token, ''sqd_YWJj''), s1)
     \<and> Revoke sample_env 6 background_ctx ''u0'' s1 = (None, s3) \<and> fst (Validate_token 7 ''sqd_YWJj'' s3) = None"
proof -
  obtain err s3 where r: "Revoke sample_env 6 background_ctx (api_ID (toServiceToken ci_token)) (snd ci_issue) = (err, s3)"
    by (cases "Revoke sample_env 6 background_ctx (api_ID (toServiceToken ci_token)) (snd ci_issue)")
  have "err = None \<and> fst (Validate_token 7 ''sqd_YWJj'' s3) = None"
    by (rule revoked_token_never_validates [OF _ _ ci_issued(1) _ r]) (auto simp: ci_state_def)
  then show ?thesis using r ci_issued(1) by (auto simp: ci_token_def)
qed

end
