(* ===== verification/Auth_Access.thy ===== *)
theory Auth_Access
  imports Auth_Tokens
begin

text \<open>
  Who may do what: reserved and scope-gated token labels (\<open>services/reserved_labels.go\<close>,
  \<open>services/strict_identity_source.go\<close>), the token handlers (\<open>api/handlers/auth.go\<close>), the bearer and scope
  middleware (\<open>api/middleware/auth.go\<close>, \<open>resource.go\<close>, \<open>extension/identity\<close>) and the authentication and
  rate limiting of agent connections (\<open>opamp/server_auth.go\<close>, the connect callback of \<open>opamp/server.go\<close>).
\<close>

section \<open>Reserved labels\<close>

text \<open>The process-wide label sets, empty unless the enterprise wiring fills them.\<close>

record LabelRules =
  lr_reserved :: "string list"
  lr_prefixes :: "string list"
  lr_gated :: "(string \<times> string) list"
  lr_strict :: bool

definition SetReservedTokenLabels :: "(string \<Rightarrow> string) \<Rightarrow> string list \<Rightarrow> LabelRules \<Rightarrow> LabelRules" where
  "SetReservedTokenLabels lower labels r =
     r\<lparr>lr_reserved := filter (\<lambda>l. l \<noteq> []) (map (\<lambda>l. lower (TrimSpace l)) labels)\<rparr>"

definition SetReservedTokenLabelPrefixes :: "(string \<Rightarrow> string) \<Rightarrow> string list \<Rightarrow> LabelRules \<Rightarrow> LabelRules" where
  "SetReservedTokenLabelPrefixes lower ps r =
     r\<lparr>lr_prefixes := filter (\<lambda>p. p \<noteq> []) (map (\<lambda>p. lower (TrimSpace p)) ps)\<rparr>"

definition SetScopeGatedTokenLabelPrefixes ::
  "(string \<Rightarrow> string) \<Rightarrow> (string \<times> string) list \<Rightarrow> LabelRules \<Rightarrow> LabelRules" where
  "SetScopeGatedTokenLabelPrefixes lower ps r =
     r\<lparr>lr_gated := fold (\<lambda>(p, scope) next.
         let p' = lower (TrimSpace p); scope' = TrimSpace scope
         in if p' = [] \<or> scope' = [] then next else AList.update p' scope' next) ps []\<rparr>"

definition RequiredScopeForTokenLabel :: "(string \<Rightarrow> string) \<Rightarrow> LabelRules \<Rightarrow> string \<Rightarrow> string option" where
  "RequiredScopeForTokenLabel lower r label =
     (let key = lower (TrimSpace label)
      in if key = [] then None
         else map_option snd (find (\<lambda>(p, _). prefix p key) (lr_gated r)))"

definition IsReservedTokenLabel :: "(string \<Rightarrow> string) \<Rightarrow> LabelRules \<Rightarrow> string \<Rightarrow> bool" where
  "IsReservedTokenLabel lower r label =
     (let key = lower (TrimSpace label)
      in if key = [] then False
         else if key \<in> set (lr_reserved r) then True
         else \<exists>p \<in> set (lr_prefixes r). prefix p key)"

definition IdentitySourceValidated :: "(string \<Rightarrow> string) \<Rightarrow> LabelRules \<Rightarrow> string \<Rightarrow> bool" where
  "IdentitySourceValidated lower r label = IsReservedTokenLabel lower r label"

section \<open>Token handlers\<close>

record CreateTokenRequest =
  ct_Label :: string
  ct_Scopes :: "string list"
  ct_ExpiresAt :: "gotime option"

definition scopes_required :: string where
  "scopes_required = ''scopes is required: pass [\"*\"] for full access or a specific list''"

fun token_error_text :: "Env \<Rightarrow> token_error \<Rightarrow> string" where
  "token_error_text env LabelRequired = ''label is required''"
| "token_error_text env LabelTooLong = ''label must be 64 chars or fewer''"
| "token_error_text env ScopesRequired = scopes_required"
| "token_error_text env (UnknownScope sc) = ''unknown scope '' @ env_quote env sc"
| "token_error_text env ExpiryNotInFuture = ''expires_at must be in the future''"
| "token_error_text env EntropyFailed = ''failed to read entropy''"
| "token_error_text env (TokenIDExists i) = ''failed to persist token: api token id already exists: '' @ i"
| "token_error_text env TokenHashCollision = ''failed to persist token: api token hash collision''"
| "token_error_text env TokenNotFound = ''token not found''"

text \<open>An error of the service is the caller's fault when its text names one of the request's fields.\<close>

definition create_failure :: "Env \<Rightarrow> token_error \<Rightarrow> 'a http_reply" where
  "create_failure env e =
     (let msg = token_error_text env e
      in if sublist ''label'' msg \<or> sublist ''scopes'' msg \<or> sublist ''unknown scope'' msg \<or> sublist ''expires_at'' msg
         then BadRequest msg [] else InternalServerError ''failed to issue token'')"

definition HandleCreateToken ::
  "Env \<Rightarrow> (nat \<Rightarrow> string option) \<Rightarrow> LabelRules \<Rightarrow> gotime \<Rightarrow> Ctx \<Rightarrow> CreateTokenRequest option \<Rightarrow> AuthState
     \<Rightarrow> (APIToken \<times> string) http_reply \<times> AuthState" where
  "HandleCreateToken env rand rules now ctx body s =
     (case body of
        None \<Rightarrow> (BadRequest ''invalid request body'' [], s)
      | Some req \<Rightarrow>
          if IsReservedTokenLabel (env_lower env) rules (ct_Label req) then (Forbidden ''label is reserved'' [], s)
          else (case (case RequiredScopeForTokenLabel (env_lower env) rules (ct_Label req) of
                   None \<Rightarrow> None
                 | Some scope \<Rightarrow> if actor_HasScope (ctx_actor ctx) scope then None else Some scope) of
              Some scope \<Rightarrow> (Forbidden (''label requires the '' @ scope @ '' scope'') [], s)
            | None \<Rightarrow>
                (case Issue env rand now ctx (ct_Label req) (ct_Scopes req) (ct_ExpiresAt req) s of
                   (Inl e, s') \<Rightarrow> (create_failure env e, s')
                 | (Inr res, s') \<Rightarrow> (StatusOK res, s'))))"

definition HandleRevokeToken :: "Env \<Rightarrow> gotime \<Rightarrow> Ctx \<Rightarrow> string \<Rightarrow> AuthState \<Rightarrow> unit http_reply \<times> AuthState" where
  "HandleRevokeToken env now ctx i s =
     (case Revoke env now ctx i s of
        (None, s') \<Rightarrow> (StatusOK (), s')
      | (Some e, s') \<Rightarrow>
          if sublist ''not found'' (token_error_text env e) then (NotFound (token_error_text env e), s')
          else (InternalServerError ''failed to revoke token'', s'))"

section \<open>Bearer middleware\<close>

text \<open>\<open>strings.SplitN(raw, " ", 2)\<close>, and \<open>strings.EqualFold\<close> against the scheme, none of whose letters has a case
  variant outside ASCII.\<close>

definition SplitN_space :: "string \<Rightarrow> string list" where
  "SplitN_space s =
     (if CHR '' '' \<in> set s then [takeWhile (\<lambda>c. c \<noteq> CHR '' '') s, tl (dropWhile (\<lambda>c. c \<noteq> CHR '' '') s)] else [s])"

definition ascii_lower :: "char \<Rightarrow> char" where
  "ascii_lower c = (if 65 \<le> (of_char c :: nat) \<and> (of_char c :: nat) \<le> 90 then char_of (of_char c + 32 :: nat) else c)"

definition is_bearer :: "string \<Rightarrow> bool" where
  "is_bearer scheme \<longleftrightarrow> map ascii_lower scheme = ''bearer''"

text \<open>The plaintext of an authorization header, or the detail of the refusal.\<close>

definition bearer_plaintext :: "string \<Rightarrow> string + string" where
  "bearer_plaintext header =
     (if header = [] then Inl ''missing Authorization header''
      else (case SplitN_space header of
          [scheme, rest] \<Rightarrow>
            if \<not> is_bearer scheme then Inl ''Authorization header must be: Bearer <token>''
            else if TrimSpace rest = [] then Inl ''bearer token is empty''
            else Inr (TrimSpace rest)
        | _ \<Rightarrow> Inl ''Authorization header must be: Bearer <token>''))"

definition actor_of :: "APIToken \<Rightarrow> AuthActor" where
  "actor_of token =
     \<lparr>TokenID = api_ID token, TokenLabel = api_Label token, actor_Scopes = api_Scopes token,
      actor_Tenant = (if api_TenantID token = [] then DefaultTenant else api_TenantID token)\<rparr>"

abbreviation no_actor :: AuthActor where
  "no_actor \<equiv> \<lparr>TokenID = [], TokenLabel = [], actor_Scopes = [], actor_Tenant = []\<rparr>"

text \<open>Either the response that ends the request, or the actor it continues with.\<close>

definition RequireBearer ::
  "(string \<Rightarrow> string) \<Rightarrow> LabelRules \<Rightarrow> gotime \<Rightarrow> string \<Rightarrow> string \<Rightarrow> AuthState \<Rightarrow> (string http_reply + AuthActor) \<times> AuthState" where
  "RequireBearer lower rules now meth header s =
     (if meth = ''OPTIONS'' then (Inr no_actor, s)
      else (case bearer_plaintext header of
          Inl detail \<Rightarrow> (Inl (Unauthorized detail), s)
        | Inr plaintext \<Rightarrow>
            (case Validate_token now plaintext s of
               (None, s') \<Rightarrow> (Inl (Unauthorized ''invalid or revoked token''), s')
             | (Some token, s') \<Rightarrow>
                 if lr_strict rules \<and> \<not> IdentitySourceValidated lower rules (api_Label token)
                 then (Inl (Unauthorized ''invalid or revoked token''), s')
                 else (Inr (actor_of token), s'))))"

section \<open>Scope middleware\<close>

record Principal =
  pr_ID :: string
  pr_Label :: string
  pr_Scopes :: "string list"

record Resource =
  res_Type :: string
  res_ID :: string
  res_Env :: string
  res_Cluster :: string

type_synonym Authorizer = "Principal \<Rightarrow> string \<Rightarrow> Resource \<Rightarrow> bool \<times> string"

definition ScopeAuthorizer :: Authorizer where
  "ScopeAuthorizer p required res =
     (if pr_Scopes p = [] then (False, ''token does not have the required scope'')
      else if \<exists>s \<in> set (pr_Scopes p). s = ''*'' \<or> s = required then (True, [])
      else (False, ''token does not have the required scope''))"

definition routeResourceType :: "(string \<times> string) list" where
  "routeResourceType =
     [(''/api/v1/discovery'', ''discovery-connection''), (''/api/v1/iac/github/connections'', ''iac-connection''),
      (''/api/v1/rollouts/plans'', ''rollout-plan''), (''/api/v1/rollouts'', ''rollout''),
      (''/api/v1/rollout-recipes'', ''rollout-recipe''), (''/api/v1/configs'', ''config''), (''/api/v1/groups'', ''group''),
      (''/api/v1/agents'', ''agent''), (''/api/v1/topology'', ''topology''), (''/api/v1/alerts/cost-spikes'', ''cost-spike''),
      (''/api/v1/alerts/rules'', ''alert-rule''), (''/api/v1/audit'', ''audit-event''), (''/api/v1/deploy/targets'', ''deploy-target''),
      (''/api/v1/deploy/runs'', ''deploy-run''), (''/api/v1/siem/destinations'', ''siem-destination''),
      (''/api/v1/runners'', ''action-runner''), (''/api/v1/actions'', ''action''), (''/api/v1/incidents/drafts'', ''incident-draft''),
      (''/api/v1/recommendations'', ''recommendation''), (''/api/v1/insights'', ''insights''), (''/api/v1/auth/tokens'', ''api-token''),
      (''/api/v1/inventory/expected'', ''expected-agent''), (''/api/v1/telemetry/saved-queries'', ''saved-query'')]"

fun longest_prefix :: "string \<Rightarrow> (string \<times> string) list \<Rightarrow> string \<times> nat \<Rightarrow> string \<times> nat" where
  "longest_prefix path [] best = best"
| "longest_prefix path ((p, typ) # rs) best =
     longest_prefix path rs (if prefix p path \<and> length p > snd best then (typ, length p) else best)"

definition deriveResourceType :: "string \<Rightarrow> string" where
  "deriveResourceType fullPath = (if fullPath = [] then [] else fst (longest_prefix fullPath routeResourceType ([], 0)))"

text \<open>The matched route template, its path parameters (empty when absent) and the optional label resolvers.\<close>

record Route =
  rt_FullPath :: string
  rt_id :: string
  rt_hostname :: string
  rt_agentLabels :: "(string \<Rightarrow> string \<times> string) option"
  rt_rolloutLabels :: "(string \<Rightarrow> string \<times> string) option"

definition resolveResource :: "Route \<Rightarrow> Resource" where
  "resolveResource c =
     (let typ = deriveResourceType (rt_FullPath c) in
      if typ = [] then \<lparr>res_Type = [], res_ID = [], res_Env = [], res_Cluster = []\<rparr>
      else (let i = (if rt_id c = [] then rt_hostname c else rt_id c);
                labels = (if i = [] then ([], [])
                          else if typ = ''agent'' then (case rt_agentLabels c of None \<Rightarrow> ([], []) | Some f \<Rightarrow> f i)
                          else if typ = ''rollout'' then (case rt_rolloutLabels c of None \<Rightarrow> ([], []) | Some f \<Rightarrow> f i)
                          else ([], []))
            in \<lparr>res_Type = typ, res_ID = i, res_Env = fst labels, res_Cluster = snd labels\<rparr>))"

definition principal_of :: "AuthActor \<Rightarrow> Principal" where
  "principal_of a = \<lparr>pr_ID = TokenID a, pr_Label = TokenLabel a, pr_Scopes = actor_Scopes a\<rparr>"

text \<open>\<open>None\<close> when the request continues.\<close>

definition RequireScope :: "bool \<Rightarrow> Authorizer \<Rightarrow> Route \<Rightarrow> AuthActor \<Rightarrow> string \<Rightarrow> string http_reply option" where
  "RequireScope authEnabled authz c actor required =
     (if actor_IsZero actor then (if authEnabled then Some (Forbidden ''forbidden'' ''authentication required'') else None)
      else if fst (authz (principal_of actor) required (resolveResource c)) then None
      else Some (Forbidden ''forbidden'' ''token does not have the required scope''))"

definition AuthorizeScopeResource :: "bool \<Rightarrow> Authorizer \<Rightarrow> AuthActor \<Rightarrow> string \<Rightarrow> Resource \<Rightarrow> bool" where
  "AuthorizeScopeResource authEnabled authz actor required res =
     (if actor_IsZero actor then \<not> authEnabled else fst (authz (principal_of actor) required res))"

definition AuthorizeScope :: "bool \<Rightarrow> Authorizer \<Rightarrow> Route \<Rightarrow> AuthActor \<Rightarrow> string \<Rightarrow> bool" where
  "AuthorizeScope authEnabled authz c actor required =
     (if actor_IsZero actor then \<not> authEnabled else fst (authz (principal_of actor) required (resolveResource c)))"

text \<open>A guarded route of the API group: the bearer middleware when authentication is on, then the scope.\<close>

definition guarded_route ::
  "(string \<Rightarrow> string) \<Rightarrow> LabelRules \<Rightarrow> bool \<Rightarrow> Authorizer \<Rightarrow> Route \<Rightarrow> string \<Rightarrow> gotime \<Rightarrow> string \<Rightarrow> string \<Rightarrow> AuthState
     \<Rightarrow> (string http_reply + AuthActor) \<times> AuthState" where
  "guarded_route lower rules authEnabled authz c required now meth header s =
     (case (if authEnabled then RequireBearer lower rules now meth header s else (Inr no_actor, s)) of
        (Inl reply, s') \<Rightarrow> (Inl reply, s')
      | (Inr actor, s') \<Rightarrow>
          (case RequireScope authEnabled authz c actor required of
             Some reply \<Rightarrow> (Inl reply, s')
           | None \<Rightarrow> (Inr actor, s')))"

section \<open>Agent connections\<close>

record connAuth =
  ca_tenant :: string
  ca_authenticated :: bool
  ca_pinnedFleetID :: string
  ca_pinnedEnv :: string
  ca_pinnedCluster :: string

text \<open>The connect request: its authorization and tenant headers, empty when absent.\<close>

record ConnRequest =
  cq_Authorization :: string
  cq_Tenant :: string

record OpampServer =
  os_authWired :: bool
  os_requireAuth :: bool
  os_pinResolver :: "(APIToken \<Rightarrow> string) option"
  os_labelPinResolver :: "(APIToken \<Rightarrow> string \<times> string) option"
  os_rejectUntenanted :: bool
  os_maxMessagesPerSecond :: real

definition extractBearer :: "string \<Rightarrow> string" where
  "extractBearer header =
     (if TrimSpace header = [] then []
      else (case SplitN_space (TrimSpace header) of
          [scheme, rest] \<Rightarrow> if \<not> is_bearer scheme then [] else TrimSpace rest
        | _ \<Rightarrow> []))"

definition resolveConnTenant :: "ConnRequest \<Rightarrow> string" where
  "resolveConnTenant q = (if cq_Tenant q \<noteq> [] then cq_Tenant q else DefaultTenant)"

definition unauthenticated :: "ConnRequest \<Rightarrow> connAuth" where
  "unauthenticated q = \<lparr>ca_tenant = resolveConnTenant q, ca_authenticated = False, ca_pinnedFleetID = [],
     ca_pinnedEnv = [], ca_pinnedCluster = []\<rparr>"

definition authenticateConn :: "OpampServer \<Rightarrow> gotime \<Rightarrow> ConnRequest \<Rightarrow> AuthState \<Rightarrow> connAuth option \<times> AuthState" where
  "authenticateConn srv now q s =
     (let plaintext = extractBearer (cq_Authorization q) in
      if plaintext \<noteq> [] \<and> os_authWired srv then
        (case Validate_token now plaintext s of
           (Some tok, s') \<Rightarrow>
             if token_HasScope tok ScopeOpAMPEnroll then
               (let labels = (case os_labelPinResolver srv of None \<Rightarrow> ([], []) | Some f \<Rightarrow> f tok)
                in (Some \<lparr>ca_tenant = (if api_TenantID tok = [] then DefaultTenant else api_TenantID tok),
                          ca_authenticated = True,
                          ca_pinnedFleetID = (case os_pinResolver srv of None \<Rightarrow> [] | Some f \<Rightarrow> f tok),
                          ca_pinnedEnv = fst labels, ca_pinnedCluster = snd labels\<rparr>, s'))
             else if os_requireAuth srv then (None, s') else (Some (unauthenticated q), s')
         | (None, s') \<Rightarrow> if os_requireAuth srv then (None, s') else (Some (unauthenticated q), s'))
      else if os_requireAuth srv then (None, s) else (Some (unauthenticated q), s))"

text \<open>The connect callback: \<open>None\<close> when the connection is refused with 401.\<close>

definition OnConnecting :: "OpampServer \<Rightarrow> gotime \<Rightarrow> ConnRequest \<Rightarrow> AuthState \<Rightarrow> connAuth option \<times> AuthState" where
  "OnConnecting srv now q s =
     (case authenticateConn srv now q s of
        (None, s') \<Rightarrow> (None, s')
      | (Some a, s') \<Rightarrow>
          if \<not> ca_authenticated a \<and> os_rejectUntenanted srv \<and> cq_Tenant q = [] then (None, s') else (Some a, s'))"

text \<open>The token bucket of a connection.\<close>

record connRateLimiter =
  rl_tokens :: real
  rl_burst :: real
  rl_rate :: real
  rl_last :: gotime

definition newConnRateLimiter :: "real \<Rightarrow> gotime \<Rightarrow> connRateLimiter option" where
  "newConnRateLimiter rate now =
     (if rate \<le> 0 then None
      else (let burst = (if rate * 2 < 1 then 1 else rate * 2)
            in Some \<lparr>rl_tokens = burst, rl_burst = burst, rl_rate = rate, rl_last = now\<rparr>))"

definition allow_message :: "gotime \<Rightarrow> connRateLimiter \<Rightarrow> bool \<times> connRateLimiter" where
  "allow_message now r =
     (let elapsed = real_of_int (Sub now (rl_last r)) / 10 ^ 9;
          filled = rl_tokens r + elapsed * rl_rate r;
          tokens = (if filled > rl_burst r then rl_burst r else filled);
          r' = r\<lparr>rl_last := now\<rparr>
      in if tokens < 1 then (False, r'\<lparr>rl_tokens := tokens\<rparr>) else (True, r'\<lparr>rl_tokens := tokens - 1\<rparr>))"

text \<open>The messages of a connection at the given times: how many get through.\<close>

fun allowed_messages :: "gotime list \<Rightarrow> connRateLimiter \<Rightarrow> nat" where
  "allowed_messages [] r = 0"
| "allowed_messages (t # ts) r =
     (let (ok, r') = allow_message t r in (if ok then 1 else 0) + allowed_messages ts r')"

section \<open>Authorisation of requests\<close>

lemma ScopeAuthorizer_iff [simp]: "fst (ScopeAuthorizer p required res) \<longleftrightarrow> has_scope (pr_Scopes p) required"
  by (auto simp: ScopeAuthorizer_def has_scope_def)

lemma has_scope_iff: "has_scope scopes required \<longleftrightarrow> (\<exists>sc \<in> set scopes. sc = ScopeWildcard \<or> sc = required)"
  by (auto simp: has_scope_def)

lemma RequireBearer_iff:
  "fst (RequireBearer lower rules now meth header s) = Inr actor \<longleftrightarrow>
     (if meth = ''OPTIONS'' then actor = no_actor
      else \<exists>plaintext u. bearer_plaintext header = Inr plaintext \<and> fst (Validate_token now plaintext s) = Some u
        \<and> (lr_strict rules \<longrightarrow> IdentitySourceValidated lower rules (api_Label u)) \<and> actor = actor_of u)"
  by (auto simp: RequireBearer_def split: sum.splits option.splits prod.splits)

lemma actor_of_IsZero: "api_Label u \<noteq> [] \<Longrightarrow> \<not> actor_IsZero (actor_of u)"
  by (simp add: actor_IsZero_def actor_of_def)

text \<open>A row and the string presented for it satisfy every check of the two middlewares.\<close>

definition authorises :: "(string \<Rightarrow> string) \<Rightarrow> LabelRules \<Rightarrow> AuthState \<Rightarrow> gotime \<Rightarrow> string \<Rightarrow> string \<Rightarrow> StoredToken \<Rightarrow> bool" where
  "authorises lower rules s now required plaintext t \<longleftrightarrow>
     map_of (au_tokens s) (tk_ID t) = Some t \<and> tk_Hash t = hashToken plaintext \<and> prefix tokenPrefix plaintext
     \<and> live_at now t \<and> has_scope (tk_Scopes t) required
     \<and> (lr_strict rules \<longrightarrow> IsReservedTokenLabel lower rules (tk_Label t))"

lemma RequireScope_token:
  assumes "tokens_ok (au_tokens s)" "map_of (au_tokens s) (tk_ID t) = Some t"
  shows "RequireScope True ScopeAuthorizer c (actor_of (toServiceToken t)) required = None \<longleftrightarrow> has_scope (tk_Scopes t) required"
proof -
  have "tk_Label t \<noteq> []" using assms(1) map_of_SomeD [OF assms(2)] by (auto simp: tokens_ok_def)
  then show ?thesis by (simp add: RequireScope_def actor_of_IsZero) (simp add: actor_of_def principal_of_def)
qed

lemma middlewares_pass_iff:
  assumes ok: "tokens_ok (au_tokens s)" and m: "meth \<noteq> ''OPTIONS''"
  shows "fst (RequireBearer lower rules now meth header s) = Inr actor
      \<and> RequireScope True ScopeAuthorizer c actor required = None
    \<longleftrightarrow> (\<exists>plaintext t. bearer_plaintext header = Inr plaintext \<and> authorises lower rules s now required plaintext t
          \<and> actor = actor_of (toServiceToken t))" (is "?l \<longleftrightarrow> ?r")
proof
  assume l: ?l
  then obtain plaintext u where pu: "bearer_plaintext header = Inr plaintext"
      "fst (Validate_token now plaintext s) = Some u" "actor = actor_of u"
      "lr_strict rules \<longrightarrow> IdentitySourceValidated lower rules (api_Label u)"
    using m by (auto simp: RequireBearer_iff)
  obtain t where t: "map_of (au_tokens s) (tk_ID t) = Some t" "tk_Hash t = hashToken plaintext"
      "prefix tokenPrefix plaintext" "live_at now t" "u = toServiceToken t"
    using pu(2) unfolding Validate_token_iff [OF ok] by blast
  have "has_scope (tk_Scopes t) required" using l pu(3) t(5) RequireScope_token [OF ok t(1)] by simp
  then show ?r using pu t unfolding IdentitySourceValidated_def authorises_def by auto
next
  assume ?r
  then obtain plaintext t where t: "bearer_plaintext header = Inr plaintext" "authorises lower rules s now required plaintext t"
      "actor = actor_of (toServiceToken t)" by blast
  then have "fst (Validate_token now plaintext s) = Some (toServiceToken t)"
    using Validate_token_iff [OF ok] unfolding authorises_def by blast
  then have "fst (RequireBearer lower rules now meth header s) = Inr actor"
    unfolding RequireBearer_iff IdentitySourceValidated_def using m t by (auto simp: authorises_def)
  moreover have "RequireScope True ScopeAuthorizer c actor required = None"
    using RequireScope_token [OF ok] t(2,3) by (simp add: authorises_def)
  ultimately show ?l ..
qed

text \<open>
  C4: With authentication on, a request reaches a guarded handler exactly when it is authorised.  It must not be a
  preflight, its header must carry a bearer string whose digest is that of an issued token which is neither
  revoked nor expired, the token must hold the route's scope or the wildcard, and under strict identity
  sources its label must be a validated one; the handler then runs as that token and in that token's tenant.
\<close>
theorem guarded_request_authorised:
  assumes "auth_steps env rand s0 s" "au_tokens s0 = []"
  shows "fst (guarded_route lower rules True ScopeAuthorizer c required now meth header s) = Inr actor \<longleftrightarrow>
    meth \<noteq> ''OPTIONS'' \<and> (\<exists>plaintext t. bearer_plaintext header = Inr plaintext
      \<and> map_of (au_tokens s) (tk_ID t) = Some t \<and> tk_Hash t = hashToken plaintext \<and> prefix tokenPrefix plaintext
      \<and> tk_RevokedAt t = None \<and> (\<forall>e. tk_ExpiresAt t = Some e \<longrightarrow> now < e)
      \<and> (\<exists>sc \<in> set (tk_Scopes t). sc = ScopeWildcard \<or> sc = required)
      \<and> (lr_strict rules \<longrightarrow> IsReservedTokenLabel lower rules (tk_Label t))
      \<and> actor = \<lparr>TokenID = tk_ID t, TokenLabel = tk_Label t, actor_Scopes = tk_Scopes t,
                  actor_Tenant = (if tk_TenantID t = [] then DefaultTenant else tk_TenantID t)\<rparr>)"
proof -
  have "fst (guarded_route lower rules True ScopeAuthorizer c required now meth header s) = Inr actor \<longleftrightarrow>
      fst (RequireBearer lower rules now meth header s) = Inr actor
      \<and> RequireScope True ScopeAuthorizer c actor required = None"
    by (auto simp: guarded_route_def split: prod.splits sum.splits option.splits)
  also have "\<dots> \<longleftrightarrow> meth \<noteq> ''OPTIONS'' \<and> (\<exists>plaintext t. bearer_plaintext header = Inr plaintext
      \<and> authorises lower rules s now required plaintext t \<and> actor = actor_of (toServiceToken t))"
    using middlewares_pass_iff [OF reachable_tokens_ok [OF assms]]
    by (cases "meth = ''OPTIONS''") (auto simp: RequireBearer_iff RequireScope_def actor_IsZero_def)
  finally show ?thesis unfolding authorises_def live_at_def has_scope_iff actor_of_def by simp
qed

section \<open>Tenancy of agent connections\<close>

text \<open>
  C6: An authenticated agent writes into its token's tenant only.  When the server enforces authentication, or
  the connection is authenticated under grace, the connection was opened with a live token that may enrol
  agents, its tenant is that token's tenant, and the tenant header of the request has no influence.
\<close>
theorem agent_tenant_from_token:
  assumes "auth_steps env rand s0 s" "au_tokens s0 = []"
    and "fst (OnConnecting srv now q s) = Some a" "os_requireAuth srv \<or> ca_authenticated a"
  shows "(\<exists>t. map_of (au_tokens s) (tk_ID t) = Some t \<and> tk_Hash t = hashToken (extractBearer (cq_Authorization q))
        \<and> tk_RevokedAt t = None \<and> (\<forall>e. tk_ExpiresAt t = Some e \<longrightarrow> now < e)
        \<and> (\<exists>sc \<in> set (tk_Scopes t). sc = ScopeWildcard \<or> sc = ScopeOpAMPEnroll)
        \<and> ca_authenticated a \<and> ca_tenant a = (if tk_TenantID t = [] then DefaultTenant else tk_TenantID t))
    \<and> (\<forall>h. fst (OnConnecting srv now (q\<lparr>cq_Tenant := h\<rparr>) s) = Some a)"
proof -
  have ok: "tokens_ok (au_tokens s)" using reachable_tokens_ok [OF assms(1,2)] .
  obtain s' where conn: "authenticateConn srv now q s = (Some a, s')"
    using assms(3) by (cases "authenticateConn srv now q s") (auto simp: OnConnecting_def split: option.splits if_splits)
  define p where "p = extractBearer (cq_Authorization q)"
  obtain u where u: "p \<noteq> []" "os_authWired srv" "fst (Validate_token now p s) = Some u" "token_HasScope u ScopeOpAMPEnroll"
      "ca_authenticated a" "ca_tenant a = (if api_TenantID u = [] then DefaultTenant else api_TenantID u)"
    using conn assms(4) unfolding authenticateConn_def p_def [symmetric] Let_def
    by (auto simp: unauthenticated_def split: if_splits option.splits prod.splits)
  from u(3) obtain t where t: "map_of (au_tokens s) (tk_ID t) = Some t" "tk_Hash t = hashToken p" "live_at now t" "u = toServiceToken t"
    unfolding Validate_token_iff [OF ok] by blast
  have "authenticateConn srv now (q\<lparr>cq_Tenant := h\<rparr>) s = (Some a, s')" for h
    using conn u(1-4) by (auto simp: authenticateConn_def p_def Let_def split: prod.splits)
  then have "fst (OnConnecting srv now (q\<lparr>cq_Tenant := h\<rparr>) s) = Some a" for h
    using u(5) by (simp add: OnConnecting_def)
  then show ?thesis using t u(4-6) unfolding p_def live_at_def token_HasScope_def has_scope_iff by auto
qed

section \<open>Rate limiting\<close>

lemma allow_message_simps [simp]:
  "rl_rate (snd (allow_message t r)) = rl_rate r" "rl_burst (snd (allow_message t r)) = rl_burst r"
  "rl_last (snd (allow_message t r)) = t"
  by (simp_all add: allow_message_def Let_def)

lemma allow_message_spends:
  assumes "0 \<le> rl_rate r" "rl_last r \<le> t"
  shows "(if fst (allow_message t r) then 1 else 0) + rl_tokens (snd (allow_message t r))
    \<le> rl_tokens r + rl_rate r * real_of_int (t - rl_last r) / 10 ^ 9"
proof -
  have "real_of_int (Sub t (rl_last r)) / 10 ^ 9 * rl_rate r \<le> real_of_int (t - rl_last r) / 10 ^ 9 * rl_rate r"
    using assms by (intro mult_right_mono divide_right_mono) (simp_all add: Sub_def)
  then show ?thesis by (simp add: allow_message_def Let_def mult.commute)
qed

lemma allow_message_nonneg:
  assumes "0 \<le> rl_tokens r" "0 \<le> rl_rate r" "rl_last r \<le> t" "1 \<le> rl_burst r"
  shows "0 \<le> rl_tokens (snd (allow_message t r))"
proof -
  have "0 \<le> Sub t (rl_last r)" using assms by (simp add: Sub_def)
  then have "0 \<le> real_of_int (Sub t (rl_last r)) / 10 ^ 9 * rl_rate r" using assms by simp
  then show ?thesis using assms by (auto simp: allow_message_def Let_def)
qed

lemma allowed_messages_bound:
  assumes "0 \<le> rl_tokens r" "0 \<le> rl_rate r" "1 \<le> rl_burst r" "sorted (rl_last r # ts)"
  shows "real (allowed_messages ts r) \<le> rl_tokens r + rl_rate r * real_of_int (last (rl_last r # ts) - rl_last r) / 10 ^ 9"
  using assms
proof (induction ts arbitrary: r)
  case (Cons t ts)
  define r' where "r' = snd (allow_message t r)"
  have "real (allowed_messages ts r') \<le> rl_tokens r' + rl_rate r' * real_of_int (last (rl_last r' # ts) - rl_last r') / 10 ^ 9"
    using Cons.prems by (intro Cons.IH) (simp_all add: r'_def allow_message_nonneg)
  then have ih: "real (allowed_messages ts r') \<le> rl_tokens r' + rl_rate r * real_of_int (last (t # ts) - t) / 10 ^ 9"
    by (simp add: r'_def)
  have sp: "(if fst (allow_message t r) then 1 else 0) + rl_tokens r' \<le> rl_tokens r + rl_rate r * real_of_int (t - rl_last r) / 10 ^ 9"
    using allow_message_spends [of r t] Cons.prems by (simp add: r'_def)
  have "real_of_int (last (rl_last r # t # ts) - rl_last r) = real_of_int (last (t # ts) - t) + real_of_int (t - rl_last r)"
    by simp
  then have "rl_rate r * real_of_int (last (rl_last r # t # ts) - rl_last r) / 10 ^ 9
      = rl_rate r * real_of_int (last (t # ts) - t) / 10 ^ 9 + rl_rate r * real_of_int (t - rl_last r) / 10 ^ 9"
    by (simp only: distrib_left add_divide_distrib)
  moreover have "real (allowed_messages (t # ts) r) = (if fst (allow_message t r) then 1 else 0) + real (allowed_messages ts r')"
    by (simp add: r'_def Let_def split: prod.split)
  ultimately show ?case using ih sp by linarith
qed simp

text \<open>
  An agent cannot flood the server.  With a rate limit configured, whatever the arrival times of a
  connection's messages are, the number that gets processed is at most the burst plus the rate times the
  elapsed seconds.
\<close>
theorem rate_limit_bounds_messages:
  assumes "newConnRateLimiter rate start = Some r" "sorted (start # ts)"
  shows "real (allowed_messages ts r) \<le> max 1 (2 * rate) + rate * (real_of_int (last (start # ts) - start) / 10 ^ 9)"
proof -
  have r: "0 \<le> rl_tokens r" "0 \<le> rl_rate r" "1 \<le> rl_burst r" "rl_last r = start" "rl_rate r = rate" "rl_tokens r = max 1 (2 * rate)"
    using assms(1) by (auto simp: newConnRateLimiter_def Let_def split: if_splits)
  show ?thesis using allowed_messages_bound [OF r(1-3)] assms(2) r by simp
qed

section \<open>Labels minted over the public API\<close>

lemma IsReservedTokenLabel_trim [simp]: "IsReservedTokenLabel lower r (TrimSpace l) = IsReservedTokenLabel lower r l"
  by (simp add: IsReservedTokenLabel_def)

lemma RequiredScopeForTokenLabel_trim [simp]:
  "RequiredScopeForTokenLabel lower r (TrimSpace l) = RequiredScopeForTokenLabel lower r l"
  by (simp add: RequiredScopeForTokenLabel_def)

lemma HandleCreateToken_OK:
  assumes "HandleCreateToken env rand rules now ctx body s = (StatusOK (tok, plaintext), s')"
  obtains req where "body = Some req" "\<not> IsReservedTokenLabel (env_lower env) rules (ct_Label req)"
    "\<And>scope. RequiredScopeForTokenLabel (env_lower env) rules (ct_Label req) = Some scope \<Longrightarrow> actor_HasScope (ctx_actor ctx) scope"
    "Issue env rand now ctx (ct_Label req) (ct_Scopes req) (ct_ExpiresAt req) s = (Inr (tok, plaintext), s')"
  using assms
  by (auto simp: HandleCreateToken_def create_failure_def Let_def split: option.splits if_splits sum.splits prod.splits)

text \<open>
  The public token endpoint cannot forge an identity.  A token it mints never has a reserved label, in any
  spelling that differs in case or surrounding space, and has a scope-gated label only if the caller holds
  the gate's scope.  Consequently, when the server insists on validated identity sources, no request that
  presents such a token is let through, whatever happened in between and whatever route it asks for.
\<close>
theorem public_tokens_forge_no_identity:
  assumes "auth_steps env rand s0 s" "au_tokens s0 = []"
    and "HandleCreateToken env rand rules now ctx body s = (StatusOK (tok, plaintext), s1)"
  shows "\<not> IsReservedTokenLabel (env_lower env) rules (api_Label tok)
    \<and> (\<forall>scope. RequiredScopeForTokenLabel (env_lower env) rules (api_Label tok) = Some scope \<longrightarrow>
          actor_HasScope (ctx_actor ctx) scope)
    \<and> (\<forall>s2 t meth header c required actor s3. auth_steps env rand s1 s2 \<and> lr_strict rules
          \<and> bearer_plaintext header = Inr plaintext \<longrightarrow>
          guarded_route (env_lower env) rules True ScopeAuthorizer c required t meth header s2 \<noteq> (Inr actor, s3))"
proof -
  obtain req :: CreateTokenRequest where req: "\<not> IsReservedTokenLabel (env_lower env) rules (ct_Label req)"
    "\<And>scope. RequiredScopeForTokenLabel (env_lower env) rules (ct_Label req) = Some scope \<Longrightarrow> actor_HasScope (ctx_actor ctx) scope"
    "Issue env rand now ctx (ct_Label req) (ct_Scopes req) (ct_ExpiresAt req) s = (Inr (tok, plaintext), s1)"
    using HandleCreateToken_OK [OF assms(3)] by blast
  from Issue_row [OF req(3) reachable_tokens_ok [OF assms(1,2)]] obtain r where r: "tok = toServiceToken r"
      "minted now (ct_Label req) (ct_ExpiresAt req) r plaintext" "tokens_ok (au_tokens s1)"
      "map_of (au_tokens s1) (tk_ID r) = Some (r\<lparr>tk_TenantID := ''default''\<rparr>)" .
  then have label: "api_Label tok = TrimSpace (ct_Label req)" by (simp add: minted_def)
  have "guarded_route (env_lower env) rules True ScopeAuthorizer c required t meth header s2 \<noteq> (Inr actor, s3)"
    if later: "auth_steps env rand s1 s2" "lr_strict rules" "bearer_plaintext header = Inr plaintext"
    for s2 t meth header c required actor s3
  proof
    assume "guarded_route (env_lower env) rules True ScopeAuthorizer c required t meth header s2 = (Inr actor, s3)"
    then have pass: "fst (RequireBearer (env_lower env) rules t meth header s2) = Inr actor"
        "RequireScope True ScopeAuthorizer c actor required = None"
      by (auto simp: guarded_route_def split: prod.splits sum.splits option.splits)
    then have m: "meth \<noteq> ''OPTIONS''" by (auto simp: RequireBearer_iff RequireScope_def actor_IsZero_def)
    have ok2: "tokens_ok (au_tokens s2)" using tokens.inv_history [OF later(1) r(3)] .
    obtain x where x: "authorises (env_lower env) rules s2 t required plaintext x"
      using middlewares_pass_iff [OF ok2 m, of "env_lower env" rules t header actor c required] pass later(3) by auto
    obtain new where new: "map_of (au_tokens s2) (tk_ID r) = Some new" "token_follows (r\<lparr>tk_TenantID := ''default''\<rparr>) new"
      using tokens.history [OF later(1) r(3,4)] by blast
    have "x = new"
      using x GetAPITokenByHash_iff [OF ok2, of "hashToken plaintext"] new(1) token_follows_fields [OF new(2)] r(2)
      by (simp add: authorises_def minted_def) (metis option.inject)
    then have "IsReservedTokenLabel (env_lower env) rules (TrimSpace (ct_Label req))"
      using x later(2) token_follows_fields(2) [OF new(2)] r(2) by (simp add: authorises_def minted_def)
    then show False using req(1) by simp
  qed
  then show ?thesis using req label by auto
qed

section \<open>Concrete requests\<close>

definition open_rules :: LabelRules where
  "open_rules = \<lparr>lr_reserved = [''bootstrap''], lr_prefixes = [''oidc:''], lr_gated = [], lr_strict = False\<rparr>"

definition agents_route :: Route where
  "agents_route = \<lparr>rt_FullPath = ''/api/v1/agents'', rt_id = [], rt_hostname = [], rt_agentLabels = None, rt_rolloutLabels = None\<rparr>"

lemma ci_reached: "auth_steps sample_env ci_rand ci_state (snd ci_issue)"
  by (rule r_into_rtranclp, rule exI, rule auth_step.issue)

lemma ci_start: "au_tokens ci_state = []"
  by (simp add: ci_state_def)

lemma ci_header: "bearer_plaintext ''bearer sqd_YWJj'' = Inr ''sqd_YWJj''" "extractBearer ''Bearer sqd_YWJj'' = ''sqd_YWJj''"
  by code_simp+

theorem guarded_request_authorised_witness:
  "\<exists>s actor. auth_steps sample_env ci_rand ci_state s \<and> au_tokens ci_state = []
     \<and> fst (guarded_route id open_rules True ScopeAuthorizer agents_route ''agents:read'' 8 ''GET'' ''bearer sqd_YWJj'' s) = Inr actor
     \<and> TokenID actor = ''u0''"
proof -
  define actor where "actor = \<lparr>TokenID = ''u0'', TokenLabel = ''ci'', actor_Scopes = [''agents:read''], actor_Tenant = ''default''\<rparr>"
  have "fst (guarded_route id open_rules True ScopeAuthorizer agents_route ''agents:read'' 8 ''GET'' ''bearer sqd_YWJj'' (snd ci_issue))
      = Inr actor"
    unfolding guarded_request_authorised [OF ci_reached ci_start]
    by (intro conjI exI [of _ "''sqd_YWJj''"] exI [of _ "ci_token\<lparr>tk_TenantID := ''default''\<rparr>"])
       (simp_all add: ci_issued(2) ci_header, simp_all add: ci_token_def actor_def open_rules_def)
  then show ?thesis using ci_reached ci_start by (intro exI [of _ "snd ci_issue"] exI [of _ actor]) (simp add: actor_def)
qed

text \<open>A token for agents, issued like the one above.\<close>

definition agent_state :: AuthState where
  "agent_state = snd (Issue sample_env ci_rand 5 background_ctx '' ci '' [''opamp:enroll''] None ci_state)"

lemma agent_checked: "checked_request 5 '' ci '' [''opamp:enroll''] None = Inr [''opamp:enroll'']"
  by code_simp

lemma agent_tokens: "au_tokens agent_state =
    [(''u0'', ci_token\<lparr>tk_Scopes := [''opamp:enroll''], tk_ExpiresAt := None, tk_TenantID := ''default''\<rparr>)]"
  by (simp add: agent_state_def Issue_def buildToken_def agent_checked ci_facts ci_rand_def ci_state_def fresh_uuid_def
      CreateAPIToken_def ci_token_def Let_def empty_world_def)

lemma agent_reached: "auth_steps sample_env ci_rand ci_state agent_state"
  unfolding agent_state_def by (rule r_into_rtranclp, rule exI, rule auth_step.issue)

definition strict_server :: OpampServer where
  "strict_server = \<lparr>os_authWired = True, os_requireAuth = True, os_pinResolver = None, os_labelPinResolver = None,
     os_rejectUntenanted = False, os_maxMessagesPerSecond = 10\<rparr>"

definition spoofing_request :: ConnRequest where
  "spoofing_request = \<lparr>cq_Authorization = ''Bearer sqd_YWJj'', cq_Tenant = ''victim''\<rparr>"

theorem agent_tenant_from_token_witness:
  "\<exists>a. fst (OnConnecting strict_server 8 spoofing_request agent_state) = Some a \<and> ca_tenant a = ''default''"
proof -
  have "GetAPITokenByHash (hashToken ''sqd_YWJj'') (au_tokens agent_state)
      = Some (ci_token\<lparr>tk_Scopes := [''opamp:enroll''], tk_ExpiresAt := None, tk_TenantID := ''default''\<rparr>)"
    by (simp add: agent_tokens GetAPITokenByHash_def) (simp add: ci_token_def)
  then have "fst (Validate_token 8 ''sqd_YWJj'' agent_state)
      = Some (toServiceToken (ci_token\<lparr>tk_Scopes := [''opamp:enroll''], tk_ExpiresAt := None, tk_TenantID := ''default''\<rparr>))"
    by (simp add: Validate_token_def agent_tokens split: sum.split) (simp add: ci_token_def)
  then obtain s' where v: "Validate_token 8 ''sqd_YWJj'' agent_state
      = (Some (toServiceToken (ci_token\<lparr>tk_Scopes := [''opamp:enroll''], tk_ExpiresAt := None, tk_TenantID := ''default''\<rparr>)), s')"
    by (cases "Validate_token 8 ''sqd_YWJj'' agent_state") simp
  obtain a where a: "fst (OnConnecting strict_server 8 spoofing_request agent_state) = Some a"
    by (simp add: OnConnecting_def authenticateConn_def Let_def strict_server_def spoofing_request_def ci_header v
        token_HasScope_def has_scope_def)
  moreover obtain t where "map_of (au_tokens agent_state) (tk_ID t) = Some t"
      "ca_tenant a = (if tk_TenantID t = [] then DefaultTenant else tk_TenantID t)"
    using agent_tenant_from_token [OF agent_reached ci_start a] by (auto simp: strict_server_def)
  ultimately show ?thesis by (auto simp: agent_tokens split: if_splits)
qed

theorem rate_limit_bounds_messages_witness:
  "\<exists>r. newConnRateLimiter 1 0 = Some r \<and> allowed_messages [0, 0, 0] r = 2
     \<and> real (allowed_messages [0, 0, 0] r) \<le> max 1 (2 * 1) + 1 * (real_of_int (last [0, 0, 0, 0] - 0) / 10 ^ 9)"
proof -
  define r where "r = \<lparr>rl_tokens = 2, rl_burst = 2, rl_rate = 1, rl_last = 0\<rparr>"
  have n: "newConnRateLimiter 1 0 = Some r" by (simp add: newConnRateLimiter_def r_def)
  have "allowed_messages [0, 0, 0] r = 2" by (simp add: r_def allow_message_def Sub_def Let_def)
  then show ?thesis using n rate_limit_bounds_messages [OF n, of "[0, 0, 0]"] by simp
qed

definition ci_request :: CreateTokenRequest where
  "ci_request = \<lparr>ct_Label = '' ci '', ct_Scopes = [''agents:read'', '' ''], ct_ExpiresAt = Some 9\<rparr>"

lemma ci_label_free:
  "IsReservedTokenLabel (env_lower sample_env) open_rules '' ci '' = False"
  "RequiredScopeForTokenLabel (env_lower sample_env) open_rules '' ci '' = None"
  by code_simp+

theorem public_tokens_forge_no_identity_witness:
  "\<exists>tok plaintext s1. HandleCreateToken sample_env ci_rand open_rules 5 background_ctx (Some ci_request) ci_state
       = (StatusOK (tok, plaintext), s1) \<and> \<not> IsReservedTokenLabel (env_lower sample_env) open_rules (api_Label tok)"
proof -
  have h: "HandleCreateToken sample_env ci_rand open_rules 5 background_ctx (Some ci_request) ci_state
      = (StatusOK (toServiceToken ci_token, ''sqd_YWJj''), snd ci_issue)"
  proof -
    obtain s1 where "ci_issue = (Inr (toServiceToken ci_token, ''sqd_YWJj''), s1)" using ci_issued(1) by blast
    then show ?thesis by (simp add: HandleCreateToken_def ci_request_def ci_label_free)
  qed
  from public_tokens_forge_no_identity [OF rtranclp.rtrancl_refl ci_start h] h show ?thesis by blast
qed

end
