(* ===== verification/Query_Parser.thy ===== *)
theory Query_Parser
  imports Go_Prelude
begin

text \<open>
  The query language of the telemetry store: data model (\<open>query/types.go\<close>) and the hand-written lexer and
  recursive-descent parser (\<open>query/parser.go\<close>).  Where the code indexes a slice out of range the outcome is
  \<open>Panic\<close>.  The mutually recursive part of the parser takes fuel; a lemma gives an amount that always suffices.
\<close>

section \<open>Data model (query/types.go)\<close>

datatype TelemetryType = TelemetryTypeMetrics | TelemetryTypeLogs | TelemetryTypeTraces

datatype SelectorOperator = SelectorOpEqual | SelectorOpNotEqual | SelectorOpRegex | SelectorOpNotRegex

record Selector =
  sel_Label :: string
  sel_Operator :: SelectorOperator
  sel_Value :: string

record TelemetryQuery =
  tq_Type :: TelemetryType
  tq_Selectors :: "(string \<times> Selector) list"
  tq_Duration :: duration
  tq_StartTime :: "gotime option"
  tq_EndTime :: "gotime option"
  tq_Limit :: int

datatype BinaryOperator =
    BinaryOpAdd | BinaryOpSubtract | BinaryOpMultiply | BinaryOpDivide | BinaryOpEqual | BinaryOpNotEqual
  | BinaryOpLT | BinaryOpGT | BinaryOpLTE | BinaryOpGTE | BinaryOpAnd | BinaryOpOr

datatype Query =
    Telemetry TelemetryQuery
  | BinaryOp Query BinaryOperator Query
  | FunctionCall string "Query list"
  | Aggregation string Query "string list"

section \<open>Lexer\<close>

datatype TokenType =
    TokenEOF | TokenIdentifier | TokenString | TokenNumber | TokenLBrace | TokenRBrace | TokenLBracket
  | TokenRBracket | TokenLParen | TokenRParen | TokenComma | TokenEqual | TokenNotEqual | TokenRegex
  | TokenNotRegex | TokenPlus | TokenMinus | TokenMultiply | TokenDivide | TokenLT | TokenGT | TokenLTE
  | TokenGTE | TokenAnd | TokenOr | TokenBy | TokenPipe

record Token =
  tok_Type :: TokenType
  tok_Value :: string
  tok_Pos :: nat

datatype parse_error =
    UnterminatedString nat
  | UnexpectedCharacter char nat
  | UnexpectedToken string nat
  | ExpectedRParen nat
  | ExpectedLParen nat
  | ExpectedLParenAfterBy nat
  | ExpectedCommaOrRParen nat
  | ExpectedLBrace nat
  | ExpectedCommaOrRBrace nat
  | ExpectedRBracket nat
  | ExpectedLabel nat
  | ExpectedSelectorOperator nat
  | ExpectedValue nat
  | InvalidDuration string nat

definition isAlpha :: "char \<Rightarrow> bool" where
  "isAlpha c \<longleftrightarrow> (97 \<le> (of_char c :: nat) \<and> (of_char c :: nat) \<le> 122) \<or> (65 \<le> (of_char c :: nat) \<and> (of_char c :: nat) \<le> 90)"

definition isAlphaNumeric :: "char \<Rightarrow> bool" where
  "isAlphaNumeric c \<longleftrightarrow> isAlpha c \<or> is_digit c"

definition blank :: "char \<Rightarrow> bool" where
  "blank c \<longleftrightarrow> c \<in> {CHR '' '', CHR 0x09, CHR 0x0A, CHR 0x0D}"

abbreviation quote :: char where "quote \<equiv> CHR 0x22"

definition two_char :: "string \<Rightarrow> TokenType option" where
  "two_char s = map_of [(''!='', TokenNotEqual), (''=~'', TokenRegex), (''!~'', TokenNotRegex), (''<='', TokenLTE),
     (''>='', TokenGTE), (''=='', TokenEqual)] (take 2 s)"

definition one_char :: "char \<Rightarrow> TokenType option" where
  "one_char c = map_of [(CHR ''{'', TokenLBrace), (CHR ''}'', TokenRBrace), (CHR ''['', TokenLBracket),
     (CHR '']'', TokenRBracket), (CHR ''('', TokenLParen), (CHR '')'', TokenRParen), (CHR '','', TokenComma),
     (CHR ''='', TokenEqual), (CHR ''+'', TokenPlus), (CHR ''-'', TokenMinus), (CHR ''*'', TokenMultiply),
     (CHR ''/'', TokenDivide), (CHR ''<'', TokenLT), (CHR ''>'', TokenGT), (CHR ''|'', TokenPipe)] c"

text \<open>The body of a string literal and what follows the closing quote; an escaped character is kept as written.\<close>

fun scan_string :: "string \<Rightarrow> (string \<times> string) option" where
  "scan_string [] = None"
| "scan_string (c # s) =
     (if c = quote then Some ([], s)
      else if c = CHR 0x5C \<and> s \<noteq> [] then map_option (\<lambda>(v, r). (c # hd s # v, r)) (scan_string (tl s))
      else map_option (\<lambda>(v, r). (c # v, r)) (scan_string s))"

definition keyword_type :: "string \<Rightarrow> TokenType" where
  "keyword_type v =
     (if v = ''and'' then TokenAnd else if v = ''or'' then TokenOr else if v = ''by'' then TokenBy else TokenIdentifier)"

definition ident_char :: "char \<Rightarrow> bool" where
  "ident_char c \<longleftrightarrow> isAlphaNumeric c \<or> c = CHR ''_''"

definition number_char :: "char \<Rightarrow> bool" where
  "number_char c \<longleftrightarrow> is_digit c \<or> c = CHR ''.''"

definition scan_number :: "string \<Rightarrow> string \<times> string" where
  "scan_number s =
     (let v = takeWhile number_char s; r = dropWhile number_char s
      in case r of
           u # r' \<Rightarrow> if u \<in> {CHR ''s'', CHR ''m'', CHR ''h'', CHR ''d''} then (v @ [u], r') else (v, r)
         | [] \<Rightarrow> (v, r))"

text \<open>One token from a non-empty input that does not start with white space.\<close>

definition next_token :: "nat \<Rightarrow> string \<Rightarrow> parse_error + (Token \<times> string)" where
  "next_token pos s =
     (case two_char s of
        Some t \<Rightarrow> Inr (\<lparr>tok_Type = t, tok_Value = take 2 s, tok_Pos = pos\<rparr>, drop 2 s)
      | None \<Rightarrow>
          (case one_char (hd s) of
             Some t \<Rightarrow> Inr (\<lparr>tok_Type = t, tok_Value = [hd s], tok_Pos = pos\<rparr>, tl s)
           | None \<Rightarrow>
               if hd s = quote then
                 (case scan_string (tl s) of
                    None \<Rightarrow> Inl (UnterminatedString pos)
                  | Some (v, r) \<Rightarrow> Inr (\<lparr>tok_Type = TokenString, tok_Value = v, tok_Pos = pos\<rparr>, r))
               else if isAlpha (hd s) then
                 (let v = takeWhile ident_char s
                  in Inr (\<lparr>tok_Type = keyword_type v, tok_Value = v, tok_Pos = pos\<rparr>, dropWhile ident_char s))
               else if is_digit (hd s) then
                 (let (v, r) = scan_number s in Inr (\<lparr>tok_Type = TokenNumber, tok_Value = v, tok_Pos = pos\<rparr>, r))
               else Inl (UnexpectedCharacter (hd s) pos)))"

lemma scan_string_shorter: "scan_string s = Some (v, r) \<Longrightarrow> length r < length s"
  by (induction s arbitrary: v r rule: scan_string.induct) (force split: if_splits)+

lemma two_char_Some: "two_char s = Some t \<Longrightarrow> length s \<ge> 2"
  by (cases s; cases "tl s") (auto simp: two_char_def split: if_splits)

lemma length_dropWhile_less: "s \<noteq> [] \<Longrightarrow> P (hd s) \<Longrightarrow> length (dropWhile P s) < length s"
  by (cases s) (auto simp: length_dropWhile_le le_imp_less_Suc)

lemma scan_number_shorter:
  assumes "s \<noteq> []" "is_digit (hd s)" "scan_number s = (v, r)"
  shows "length r < length s"
proof -
  obtain d where d: "dropWhile number_char s = d" by blast
  have "length r \<le> length (dropWhile number_char s)"
    using assms(3) unfolding scan_number_def Let_def d by (cases d) (auto split: if_splits)
  also have "\<dots> < length s" using assms(1,2) by (intro length_dropWhile_less) (simp_all add: number_char_def)
  finally show ?thesis .
qed

lemma next_token_shorter:
  assumes "next_token pos s = Inr (t, r)" "s \<noteq> []"
  shows "length r < length s"
proof (cases "two_char s")
  case (Some x)
  then show ?thesis using assms two_char_Some [OF Some] by (auto simp: next_token_def)
next
  case no_two: None
  show ?thesis
  proof (cases "one_char (hd s)")
    case (Some x)
    then show ?thesis using assms no_two by (auto simp: next_token_def)
  next
    case None
    consider "hd s = quote" | "hd s \<noteq> quote" "isAlpha (hd s)" | "hd s \<noteq> quote" "\<not> isAlpha (hd s)" by blast
    then show ?thesis
    proof cases
      case 1
      then show ?thesis using assms no_two None scan_string_shorter [of "tl s"]
        by (cases s) (auto simp: next_token_def split: option.splits prod.splits)
    next
      case 2
      then have "r = dropWhile ident_char s" using assms no_two None by (simp add: next_token_def Let_def)
      then show ?thesis using 2 assms(2) length_dropWhile_less [of s ident_char]
        by (simp add: ident_char_def isAlphaNumeric_def)
    next
      case 3
      then show ?thesis using assms no_two None scan_number_shorter [OF assms(2)]
        by (simp add: next_token_def split: if_splits prod.splits)
    qed
  qed
qed

function tokenize_from :: "nat \<Rightarrow> string \<Rightarrow> parse_error + Token list" where
  "tokenize_from pos s =
     (if s = [] then Inr [\<lparr>tok_Type = TokenEOF, tok_Value = [], tok_Pos = pos\<rparr>]
      else if blank (hd s) then tokenize_from (pos + 1) (tl s)
      else (case next_token pos s of
          Inl e \<Rightarrow> Inl e
        | Inr (t, r) \<Rightarrow>
            (case tokenize_from (pos + (length s - length r)) r of
               Inl e \<Rightarrow> Inl e
             | Inr ts \<Rightarrow> Inr (t # ts))))"
  by pat_completeness auto
termination by (relation "measure (length \<circ> snd)") (auto simp: next_token_shorter)

declare tokenize_from.simps [simp del]

definition tokenize :: "string \<Rightarrow> parse_error + Token list" where
  "tokenize input = tokenize_from 0 input"

section \<open>Durations\<close>

text \<open>\<open>strconv.ParseInt(s, 10, 64)\<close>: \<open>None\<close> on a syntax or range error.\<close>

definition ParseInt :: "string \<Rightarrow> int option" where
  "ParseInt s =
     (let (neg, ds) = (case s of
            c # r \<Rightarrow> if c = CHR ''-'' then (True, r) else if c = CHR ''+'' then (False, r) else (False, s)
          | [] \<Rightarrow> (False, []));
          v = (if neg then - int (atou ds) else int (atou ds))
      in if ds = [] \<or> \<not> list_all is_digit ds \<or> \<not> in_int64 v then None else Some v)"

definition parseDuration :: "string \<Rightarrow> duration option" where
  "parseDuration s =
     (if length s < 2 then None
      else (case ParseInt (butlast s) of
          None \<Rightarrow> None
        | Some value \<Rightarrow>
            if last s = CHR ''s'' then Some (int64 (value * second))
            else if last s = CHR ''m'' then Some (int64 (value * minute))
            else if last s = CHR ''h'' then Some (int64 (value * hour))
            else if last s = CHR ''d'' then Some (int64 (int64 (value * 24) * hour))
            else None))"

section \<open>Parser\<close>

datatype 'a outcome = Ret 'a | Fail parse_error | Panic

text \<open>The parser's position is the list of tokens still to read; \<open>n\<close> is the length of the input.\<close>

definition peek :: "nat \<Rightarrow> Token list \<Rightarrow> Token" where
  "peek n ts = (case ts of [] \<Rightarrow> \<lparr>tok_Type = TokenEOF, tok_Value = [], tok_Pos = n\<rparr> | t # _ \<Rightarrow> t)"

abbreviation peek_type :: "nat \<Rightarrow> Token list \<Rightarrow> TokenType" where
  "peek_type n ts \<equiv> tok_Type (peek n ts)"

abbreviation peek_pos :: "nat \<Rightarrow> Token list \<Rightarrow> nat" where
  "peek_pos n ts \<equiv> tok_Pos (peek n ts)"

lemma peek_simps [simp]: "peek n (t # ts) = t" "peek_type n [] = TokenEOF"
  by (simp_all add: peek_def)

fun selector_operator :: "TokenType \<Rightarrow> SelectorOperator option" where
  "selector_operator TokenEqual = Some SelectorOpEqual"
| "selector_operator TokenNotEqual = Some SelectorOpNotEqual"
| "selector_operator TokenRegex = Some SelectorOpRegex"
| "selector_operator TokenNotRegex = Some SelectorOpNotRegex"
| "selector_operator _ = None"

definition parseSelector :: "nat \<Rightarrow> Token list \<Rightarrow> (Selector \<times> Token list) outcome" where
  "parseSelector n ts =
     (let label = peek n ts; op = peek n (tl ts); val = peek n (tl (tl ts)) in
      if tok_Type label \<noteq> TokenIdentifier then Fail (ExpectedLabel (tok_Pos label))
      else (case selector_operator (tok_Type op) of
          None \<Rightarrow> Fail (ExpectedSelectorOperator (tok_Pos op))
        | Some sop \<Rightarrow>
            if tok_Type val \<noteq> TokenString \<and> tok_Type val \<noteq> TokenIdentifier then Fail (ExpectedValue (tok_Pos val))
            else Ret (\<lparr>sel_Label = tok_Value label, sel_Operator = sop, sel_Value = tok_Value val\<rparr>, tl (tl (tl ts)))))"

lemma parseSelector_shorter: "parseSelector n ts = Ret (sel, r) \<Longrightarrow> length r < length ts"
  by (cases ts) (auto simp: parseSelector_def Let_def split: if_splits option.splits)

text \<open>The loop over selectors; a later selector of the same label replaces the earlier one.\<close>

function parse_selectors ::
  "nat \<Rightarrow> Token list \<Rightarrow> (string \<times> Selector) list \<Rightarrow> ((string \<times> Selector) list \<times> Token list) outcome" where
  "parse_selectors n ts acc =
     (if peek_type n ts = TokenRBrace then Ret (acc, tl ts)
      else (case parseSelector n ts of
          Fail e \<Rightarrow> Fail e
        | Panic \<Rightarrow> Panic
        | Ret (sel, r) \<Rightarrow>
            (let acc' = AList.update (sel_Label sel) sel acc in
             if peek_type n r = TokenComma then parse_selectors n (tl r) acc'
             else if peek_type n r \<noteq> TokenRBrace then Fail (ExpectedCommaOrRBrace (peek_pos n r))
             else parse_selectors n r acc')))"
  by pat_completeness auto
termination by (relation "measure (\<lambda>(n, ts, acc). length ts)") (auto dest: parseSelector_shorter)

declare parse_selectors.simps [simp del]

definition telemetry_type :: "string \<Rightarrow> TelemetryType option" where
  "telemetry_type v = map_of [(''metrics'', TelemetryTypeMetrics), (''logs'', TelemetryTypeLogs), (''traces'', TelemetryTypeTraces)] v"

text \<open>The optional range: the token between the brackets is taken whatever its type.\<close>

definition parse_range :: "nat \<Rightarrow> Token list \<Rightarrow> (duration \<times> Token list) outcome" where
  "parse_range n ts =
     (if peek_type n ts \<noteq> TokenLBracket then Ret (0, ts)
      else (let t = peek n (tl ts); r = tl (tl ts) in
        case parseDuration (tok_Value t) of
          None \<Rightarrow> Fail (InvalidDuration (tok_Value t) (tok_Pos t))
        | Some d \<Rightarrow> if peek_type n r \<noteq> TokenRBracket then Fail (ExpectedRBracket (peek_pos n r)) else Ret (d, tl r)))"

definition parseTelemetryQuery :: "nat \<Rightarrow> TelemetryType \<Rightarrow> Token list \<Rightarrow> (Query \<times> Token list) outcome" where
  "parseTelemetryQuery n typ ts =
     (if peek_type n (tl ts) \<noteq> TokenLBrace then Fail (ExpectedLBrace (peek_pos n (tl ts)))
      else (case parse_selectors n (tl (tl ts)) [] of
          Fail e \<Rightarrow> Fail e
        | Panic \<Rightarrow> Panic
        | Ret (sels, r) \<Rightarrow>
            (case parse_range n r of
               Fail e \<Rightarrow> Fail e
             | Panic \<Rightarrow> Panic
             | Ret (d, r') \<Rightarrow>
                 Ret (Telemetry \<lparr>tq_Type = typ, tq_Selectors = sels, tq_Duration = d, tq_StartTime = None,
                        tq_EndTime = None, tq_Limit = 1000\<rparr>, r'))))"

function parse_by :: "nat \<Rightarrow> Token list \<Rightarrow> string list \<Rightarrow> (string list \<times> Token list) outcome" where
  "parse_by n ts acc =
     (if peek_type n ts = TokenRParen then Ret (acc, tl ts)
      else if peek_type n ts \<noteq> TokenIdentifier then Fail (ExpectedLabel (peek_pos n ts))
      else (let acc' = acc @ [tok_Value (peek n ts)]; r = tl ts in
        if peek_type n r = TokenComma then parse_by n (tl r) acc'
        else if peek_type n r \<noteq> TokenRParen then Fail (ExpectedCommaOrRParen (peek_pos n r))
        else parse_by n r acc'))"
  by pat_completeness auto
termination
proof (relation "measure (\<lambda>(n, ts, acc). length ts)", goal_cases)
  case (2 n ts acc acc' r)
  then show ?case by (cases ts) auto
next
  case (3 n ts acc acc' r)
  then show ?case by (cases ts) auto
qed simp

declare parse_by.simps [simp del]

fun binary_operator :: "TokenType \<Rightarrow> BinaryOperator option" where
  "binary_operator TokenPlus = Some BinaryOpAdd"
| "binary_operator TokenMinus = Some BinaryOpSubtract"
| "binary_operator TokenMultiply = Some BinaryOpMultiply"
| "binary_operator TokenDivide = Some BinaryOpDivide"
| "binary_operator TokenAnd = Some BinaryOpAnd"
| "binary_operator TokenOr = Some BinaryOpOr"
| "binary_operator TokenLT = Some BinaryOpLT"
| "binary_operator TokenGT = Some BinaryOpGT"
| "binary_operator TokenLTE = Some BinaryOpLTE"
| "binary_operator TokenGTE = Some BinaryOpGTE"
| "binary_operator _ = None"

text \<open>The end of a function call: a grouping clause turns it into an aggregation of its first argument.\<close>

definition finish_call :: "nat \<Rightarrow> string \<Rightarrow> Query list \<Rightarrow> Token list \<Rightarrow> (Query \<times> Token list) outcome" where
  "finish_call n name args ts =
     (if peek_type n ts \<noteq> TokenBy then Ret (FunctionCall name args, ts)
      else if peek_type n (tl ts) \<noteq> TokenLParen then Fail (ExpectedLParenAfterBy (peek_pos n (tl ts)))
      else (case parse_by n (tl (tl ts)) [] of
          Fail e \<Rightarrow> Fail e
        | Panic \<Rightarrow> Panic
        | Ret (labels, r) \<Rightarrow> (case args of [] \<Rightarrow> Panic | q # _ \<Rightarrow> Ret (Aggregation name q labels, r))))"

text \<open>\<open>None\<close> when the fuel runs out.\<close>

type_synonym 'a parsing = "('a \<times> Token list) outcome option"

definition and_then :: "'a parsing \<Rightarrow> ('a \<Rightarrow> Token list \<Rightarrow> 'b parsing) \<Rightarrow> 'b parsing" where
  "and_then m k =
     (case m of
        None \<Rightarrow> None
      | Some (Ret (x, ts)) \<Rightarrow> k x ts
      | Some (Fail e) \<Rightarrow> Some (Fail e)
      | Some Panic \<Rightarrow> Some Panic)"

function parseQuery :: "nat \<Rightarrow> nat \<Rightarrow> Token list \<Rightarrow> Query parsing"
and binary_loop :: "nat \<Rightarrow> nat \<Rightarrow> Query \<Rightarrow> Token list \<Rightarrow> Query parsing"
and parsePrimary :: "nat \<Rightarrow> nat \<Rightarrow> Token list \<Rightarrow> Query parsing"
and parseFunctionCall :: "nat \<Rightarrow> nat \<Rightarrow> Token list \<Rightarrow> Query parsing"
and parse_args :: "nat \<Rightarrow> nat \<Rightarrow> Query list \<Rightarrow> Token list \<Rightarrow> Query list parsing" where
  "parseQuery 0 n ts = None"
| "parseQuery (Suc f) n ts = and_then (parsePrimary f n ts) (\<lambda>left r. binary_loop f n left r)"
| "binary_loop 0 n left ts = None"
| "binary_loop (Suc f) n left ts =
     (if peek_type n ts = TokenEOF then Some (Ret (left, ts))
      else (case binary_operator (peek_type n ts) of
          None \<Rightarrow> Some (Ret (left, ts))
        | Some op \<Rightarrow> and_then (parsePrimary f n (tl ts)) (\<lambda>right r. binary_loop f n (BinaryOp left op right) r)))"
| "parsePrimary 0 n ts = None"
| "parsePrimary (Suc f) n ts =
     (if peek_type n ts = TokenIdentifier then
        (case telemetry_type (tok_Value (peek n ts)) of
           Some typ \<Rightarrow> Some (parseTelemetryQuery n typ ts)
         | None \<Rightarrow> parseFunctionCall f n ts)
      else if peek_type n ts = TokenLParen then
        and_then (parseQuery f n (tl ts)) (\<lambda>q r.
          if peek_type n r \<noteq> TokenRParen then Some (Fail (ExpectedRParen (peek_pos n r))) else Some (Ret (q, tl r)))
      else Some (Fail (UnexpectedToken (tok_Value (peek n ts)) (peek_pos n ts))))"
| "parseFunctionCall 0 n ts = None"
| "parseFunctionCall (Suc f) n ts =
     (if peek_type n (tl ts) \<noteq> TokenLParen then Some (Fail (ExpectedLParen (peek_pos n (tl ts))))
      else and_then (parse_args f n [] (tl (tl ts))) (\<lambda>args r. Some (finish_call n (tok_Value (peek n ts)) args r)))"
| "parse_args 0 n args ts = None"
| "parse_args (Suc f) n args ts =
     (if peek_type n ts = TokenRParen then Some (Ret (args, tl ts))
      else and_then (parseQuery f n ts) (\<lambda>q r.
        if peek_type n r = TokenComma then parse_args f n (args @ [q]) (tl r)
        else if peek_type n r \<noteq> TokenRParen then Some (Fail (ExpectedCommaOrRParen (peek_pos n r)))
        else parse_args f n (args @ [q]) r))"
  by pat_completeness auto
termination
  by (relation "measure (\<lambda>x. case x of Inl (Inl (f, _)) \<Rightarrow> f | Inl (Inr (f, _)) \<Rightarrow> f | Inr (Inl (f, _)) \<Rightarrow> f
    | Inr (Inr (Inl (f, _))) \<Rightarrow> f | Inr (Inr (Inr (f, _))) \<Rightarrow> f)") simp_all

declare parseQuery.simps(2) [simp del] binary_loop.simps(2) [simp del] parsePrimary.simps(2) [simp del]
  parseFunctionCall.simps(2) [simp del] parse_args.simps(2) [simp del]

definition fuel_for :: "Token list \<Rightarrow> nat" where
  "fuel_for ts = 3 * length ts + 4"

text \<open>The result of parsing: \<open>Parse\<close> reports the query even when tokens remain.\<close>

definition Parse :: "string \<Rightarrow> Query outcome option" where
  "Parse input =
     (case tokenize input of
        Inl e \<Rightarrow> Some (Fail e)
      | Inr ts \<Rightarrow> map_option (\<lambda>x. case x of Ret (q, _) \<Rightarrow> Ret q | Fail e \<Rightarrow> Fail e | Panic \<Rightarrow> Panic)
                    (parseQuery (fuel_for ts) (length input) ts))"

end
