(* ===== verification/Query_Language.thy ===== *)
theory Query_Language
  imports Query_Parser
begin

text \<open>
  Properties of the query language: the parser returns on every input, what it returns is well formed, and
  printing a query and parsing it gives the query back.
\<close>

section \<open>Termination\<close>

lemma and_then_simps [simp]:
  "and_then None k = None" "and_then (Some (Ret (x, ts))) k = k x ts" "and_then (Some (Fail e)) k = Some (Fail e)"
  "and_then (Some Panic) k = Some Panic"
  by (simp_all add: and_then_def)

lemma and_then_Ret: "and_then m k = Some (Ret y) \<longleftrightarrow> (\<exists>x ts. m = Some (Ret (x, ts)) \<and> k x ts = Some (Ret y))"
  by (auto simp: and_then_def split: option.splits outcome.splits)

lemma and_then_None: "and_then m k = None \<longleftrightarrow> m = None \<or> (\<exists>x ts. m = Some (Ret (x, ts)) \<and> k x ts = None)"
  by (auto simp: and_then_def split: option.splits outcome.splits)

lemma peek_nonempty: "peek_type n ts \<noteq> TokenEOF \<Longrightarrow> ts \<noteq> []"
  by auto

lemma parse_selectors_shorter: "parse_selectors n ts acc = Ret (sels, r) \<Longrightarrow> length r < length ts"
proof (induction n ts acc rule: parse_selectors.induct)
  case (1 n ts acc)
  show ?case
  proof (cases "peek_type n ts = TokenRBrace")
    case True
    then have "r = tl ts" using 1(3) by (subst (asm) parse_selectors.simps) simp
    then show ?thesis using True by (cases ts) auto
  next
    case False
    then obtain sel r1 where sel: "parseSelector n ts = Ret (sel, r1)"
      using 1(3) by (subst (asm) parse_selectors.simps) (auto split: outcome.splits)
    then have "length r1 < length ts" by (rule parseSelector_shorter)
    moreover have "length r < length r1 \<or> length r < length (tl r1)"
    proof (cases "peek_type n r1 = TokenComma")
      case True
      then show ?thesis using 1(1) [OF False sel refl refl True] 1(3) False sel
        by (subst (asm) parse_selectors.simps) (simp add: Let_def)
    next
      case comma: False
      then show ?thesis using 1(2) [OF False sel refl refl comma] 1(3) False sel
        by (subst (asm) (2) parse_selectors.simps) (auto simp: Let_def split: if_splits)
    qed
    ultimately show ?thesis by auto
  qed
qed

lemma parse_by_shorter: "parse_by n ts acc = Ret (labels, r) \<Longrightarrow> length r < length ts"
proof (induction n ts acc rule: parse_by.induct)
  case (1 n ts acc)
  show ?case
  proof (cases ts)
    case Nil
    then show ?thesis using 1(3) by (subst (asm) parse_by.simps) simp
  next
    case (Cons t ts')
    show ?thesis
    proof (cases "tok_Type t = TokenRParen")
      case True
      then show ?thesis using 1(3) Cons by (subst (asm) parse_by.simps) simp
    next
      case False
      then have ident: "tok_Type t = TokenIdentifier" using 1(3) Cons by (subst (asm) parse_by.simps) (auto split: if_splits)
      have "length r < length ts' \<or> length r < length (tl ts')"
      proof (cases "peek_type n ts' = TokenComma")
        case True
        then show ?thesis using 1(1) [OF _ _ refl refl] 1(3) Cons ident
          by (subst (asm) parse_by.simps) (simp add: Let_def)
      next
        case comma: False
        then have "peek_type n ts' = TokenRParen" using 1(3) Cons ident
          by (subst (asm) parse_by.simps) (auto simp: Let_def split: if_splits)
        then show ?thesis using 1(2) [OF _ _ refl refl] 1(3) Cons ident comma
          by (subst (asm) (2) parse_by.simps) (simp add: Let_def)
      qed
      then show ?thesis using Cons by auto
    qed
  qed
qed

lemma parse_range_le: "parse_range n ts = Ret (d, r) \<Longrightarrow> length r \<le> length ts"
  by (auto simp: parse_range_def Let_def split: if_splits option.splits)

lemma parseTelemetryQuery_shorter: "parseTelemetryQuery n typ ts = Ret (q, r) \<Longrightarrow> length r < length ts"
  by (fastforce simp: parseTelemetryQuery_def split: if_splits outcome.splits dest: parse_selectors_shorter parse_range_le)

lemma finish_call_le: "finish_call n name args ts = Ret (q, r) \<Longrightarrow> length r \<le> length ts"
  by (fastforce simp: finish_call_def split: if_splits outcome.splits list.splits dest: parse_by_shorter)

lemma parse_shorter:
  "parseQuery f n ts = Some (Ret (q, r)) \<Longrightarrow> length r < length ts"
  "binary_loop f n left ts = Some (Ret (q, r)) \<Longrightarrow> length r \<le> length ts"
  "parsePrimary f n ts = Some (Ret (q, r)) \<Longrightarrow> length r < length ts"
  "parseFunctionCall f n ts = Some (Ret (q, r)) \<Longrightarrow> length r < length ts"
  "parse_args f n args ts = Some (Ret (qs, r)) \<Longrightarrow> length r < length ts"
proof (induction f n ts and f n left ts and f n ts and f n ts and f n args ts arbitrary: q r and q r and q r and q r and qs r
    rule: parseQuery_binary_loop_parsePrimary_parseFunctionCall_parse_args.induct)
  case (2 f n ts)
  then show ?case by (fastforce simp: parseQuery.simps(2) and_then_Ret)
next
  case (4 f n left ts)
  then show ?case by (fastforce simp: binary_loop.simps(2) and_then_Ret split: if_splits option.splits)
next
  case (6 f n ts)
  then show ?case
    by (fastforce simp: parsePrimary.simps(2) and_then_Ret split: if_splits option.splits dest: parseTelemetryQuery_shorter)
next
  case (8 f n ts)
  then obtain args r1 where "parse_args f n [] (tl (tl ts)) = Some (Ret (args, r1))"
      "finish_call n (tok_Value (peek n ts)) args r1 = Ret (q, r)" "peek_type n (tl ts) = TokenLParen"
    by (auto simp: parseFunctionCall.simps(2) and_then_Ret split: if_splits)
  then show ?case using 8(1) [of args r1] finish_call_le [of n _ args r1 q r] by fastforce
next
  case (10 f n args ts)
  show ?case
  proof (cases "peek_type n ts = TokenRParen")
    case True
    then show ?thesis using 10(4) by (cases ts) (auto simp: parse_args.simps(2))
  next
    case False
    then obtain q1 r1 where q1: "parseQuery f n ts = Some (Ret (q1, r1))" using 10(4) by (auto simp: parse_args.simps(2) and_then_Ret)
    have len: "length r1 < length ts" using 10(1) [OF False q1] .
    show ?thesis
    proof (cases "peek_type n r1 = TokenComma")
      case True
      then have "length r < length (tl r1)" using 10(2) [OF False True] 10(4) False q1 by (simp add: parse_args.simps(2))
      then show ?thesis using len by simp
    next
      case comma: False
      then have "peek_type n r1 = TokenRParen" using 10(4) False q1 by (auto simp: parse_args.simps(2) split: if_splits)
      then have "length r < length r1" using 10(3) [OF False comma] 10(4) False q1 comma by (simp add: parse_args.simps(2))
      then show ?thesis using len by simp
    qed
  qed
qed simp_all

lemma and_then_total:
  assumes "m \<noteq> None" "\<And>x ts. m = Some (Ret (x, ts)) \<Longrightarrow> k x ts \<noteq> None"
  shows "and_then m k \<noteq> None"
  using assms by (auto simp: and_then_None)

lemma parse_enough_fuel:
  "3 * length ts + 3 \<le> f \<Longrightarrow> parseQuery f n ts \<noteq> None"
  "3 * length ts + 1 \<le> f \<Longrightarrow> binary_loop f n left ts \<noteq> None"
  "3 * length ts + 2 \<le> f \<Longrightarrow> parsePrimary f n ts \<noteq> None"
  "3 * length ts + 1 \<le> f \<Longrightarrow> parseFunctionCall f n ts \<noteq> None"
  "3 * length ts + 4 \<le> f \<Longrightarrow> parse_args f n args ts \<noteq> None"
proof (induction f n ts and f n left ts and f n ts and f n ts and f n args ts
    rule: parseQuery_binary_loop_parsePrimary_parseFunctionCall_parse_args.induct)
  case (2 f n ts)
  have "binary_loop f n left r \<noteq> None" if "parsePrimary f n ts = Some (Ret (left, r))" for left r
    using 2(2) [of r left] parse_shorter(3) [OF that] 2(3) by simp
  then show ?case unfolding parseQuery.simps(2) using 2(1,3) by (intro and_then_total) simp_all
next
  case (4 f n left ts)
  show ?case
  proof (cases "peek_type n ts = TokenEOF \<or> binary_operator (peek_type n ts) = None")
    case True
    then show ?thesis by (auto simp: binary_loop.simps(2))
  next
    case False
    then obtain op where op: "peek_type n ts \<noteq> TokenEOF" "binary_operator (peek_type n ts) = Some op" by blast
    then have len: "length (tl ts) < length ts" using peek_nonempty [OF op(1)] by simp
    have "binary_loop f n (BinaryOp left op right) r \<noteq> None" if "parsePrimary f n (tl ts) = Some (Ret (right, r))" for right r
      using 4(2) [OF op, of r right] parse_shorter(3) [OF that] len 4(3) by simp
    moreover have "parsePrimary f n (tl ts) \<noteq> None" using 4(1) [OF op] len 4(3) by simp
    ultimately show ?thesis using op by (simp only: binary_loop.simps(2) if_False option.case) (rule and_then_total)
  qed
next
  case (6 f n ts)
  consider "peek_type n ts = TokenIdentifier" | "peek_type n ts \<noteq> TokenIdentifier" "peek_type n ts = TokenLParen"
    | "peek_type n ts \<noteq> TokenIdentifier" "peek_type n ts \<noteq> TokenLParen" by blast
  then show ?case
  proof cases
    case 1
    then show ?thesis using 6(1) 6(3) by (simp add: parsePrimary.simps(2) split: option.split)
  next
    case 2
    then have "length (tl ts) < length ts" using peek_nonempty [of n ts] by simp
    then have "parseQuery f n (tl ts) \<noteq> None" using 6(2) [OF 2] 6(3) by simp
    then show ?thesis using 2 by (simp only: parsePrimary.simps(2) if_False if_True) (auto simp: and_then_None)
  qed (simp add: parsePrimary.simps(2))
next
  case (8 f n ts)
  show ?case
  proof (cases "peek_type n (tl ts) = TokenLParen")
    case True
    then have "tl ts \<noteq> []" by auto
    then have "length (tl (tl ts)) + 2 \<le> length ts" by (cases ts; cases "tl ts") auto
    then have "parse_args f n [] (tl (tl ts)) \<noteq> None" using 8(1) 8(2) True by simp
    then show ?thesis using True by (simp add: parseFunctionCall.simps(2) and_then_None)
  qed (simp add: parseFunctionCall.simps(2))
next
  case (10 f n args ts)
  show ?case
  proof (cases "peek_type n ts = TokenRParen")
    case False
    have "parse_args f n (args @ [q]) (tl r) \<noteq> None" if "parseQuery f n ts = Some (Ret (q, r))" "peek_type n r = TokenComma" for q r
      using 10(2) [OF False that(2), of q] parse_shorter(1) [OF that(1)] 10(4) by simp
    moreover have "parse_args f n (args @ [q]) r \<noteq> None"
      if "parseQuery f n ts = Some (Ret (q, r))" "peek_type n r \<noteq> TokenComma" "peek_type n r = TokenRParen" for q r
      using 10(3) [OF False that(2), of q] parse_shorter(1) [OF that(1)] 10(4) that(3) by simp
    moreover have "parseQuery f n ts \<noteq> None" using 10(1) [OF False] 10(4) by simp
    ultimately show ?thesis using False by (simp only: parse_args.simps(2) if_False) (rule and_then_total, simp_all)
  qed (simp add: parse_args.simps(2))
qed simp_all

lemma and_then_mono:
  assumes "and_then m k = Some y" "\<And>z. m = Some z \<Longrightarrow> m' = Some z"
    "\<And>x ts. m = Some (Ret (x, ts)) \<Longrightarrow> k x ts = Some y \<Longrightarrow> k' x ts = Some y"
  shows "and_then m' k' = Some y"
  using assms by (auto simp: and_then_def split: option.splits outcome.splits)

text \<open>More fuel never changes an answer.\<close>

lemma parse_more_fuel:
  "parseQuery f n ts = Some x \<Longrightarrow> f \<le> g \<Longrightarrow> parseQuery g n ts = Some x"
  "binary_loop f n left ts = Some x \<Longrightarrow> f \<le> g \<Longrightarrow> binary_loop g n left ts = Some x"
  "parsePrimary f n ts = Some x \<Longrightarrow> f \<le> g \<Longrightarrow> parsePrimary g n ts = Some x"
  "parseFunctionCall f n ts = Some x \<Longrightarrow> f \<le> g \<Longrightarrow> parseFunctionCall g n ts = Some x"
  "parse_args f n args ts = Some y \<Longrightarrow> f \<le> g \<Longrightarrow> parse_args g n args ts = Some y"
proof (induction f n ts and f n left ts and f n ts and f n ts and f n args ts
    arbitrary: x g and x g and x g and x g and y g
    rule: parseQuery_binary_loop_parsePrimary_parseFunctionCall_parse_args.induct)
  case (2 f n ts)
  then obtain h where h: "g = Suc h" "f \<le> h" by (cases g) auto
  show ?case unfolding h(1) parseQuery.simps(2)
    by (rule and_then_mono [OF 2(3) [unfolded parseQuery.simps(2)]]) (blast intro: 2(1) [OF _ h(2)] 2(2) [OF _ h(2)])+
next
  case (4 f n left ts)
  then obtain h where h: "g = Suc h" "f \<le> h" by (cases g) auto
  show ?case
  proof (cases "peek_type n ts = TokenEOF \<or> binary_operator (peek_type n ts) = None")
    case True
    then show ?thesis using 4(3) unfolding h(1) by (auto simp: binary_loop.simps(2))
  next
    case False
    then obtain op where op: "peek_type n ts \<noteq> TokenEOF" "binary_operator (peek_type n ts) = Some op" by blast
    then have "and_then (parsePrimary f n (tl ts)) (\<lambda>right r. binary_loop f n (BinaryOp left op right) r) = Some x"
      using 4(3) by (simp add: binary_loop.simps(2))
    then have "and_then (parsePrimary h n (tl ts)) (\<lambda>right r. binary_loop h n (BinaryOp left op right) r) = Some x"
      by (rule and_then_mono) (blast intro: 4(1) [OF op _ h(2)] 4(2) [OF op _ h(2)])+
    then show ?thesis using op unfolding h(1) by (simp add: binary_loop.simps(2))
  qed
next
  case (6 f n ts)
  then obtain h where h: "g = Suc h" "f \<le> h" by (cases g) auto
  consider "peek_type n ts = TokenIdentifier" | "peek_type n ts \<noteq> TokenIdentifier" "peek_type n ts = TokenLParen"
    | "peek_type n ts \<noteq> TokenIdentifier" "peek_type n ts \<noteq> TokenLParen" by blast
  then show ?case
  proof cases
    case 1
    then show ?thesis using 6(1) [OF 1 _ _ h(2)] 6(3) unfolding h(1) by (simp add: parsePrimary.simps(2) split: option.splits)
  next
    case 2
    then show ?thesis using 6(3) unfolding h(1) parsePrimary.simps(2)
      by (simp only: if_False if_True refl) (erule and_then_mono, blast intro: 6(2) [OF 2 _ h(2)])
  next
    case 3
    then show ?thesis using 6(3) unfolding h(1) by (simp add: parsePrimary.simps(2))
  qed
next
  case (8 f n ts)
  then obtain h where h: "g = Suc h" "f \<le> h" by (cases g) auto
  show ?case
  proof (cases "peek_type n (tl ts) = TokenLParen")
    case True
    then have "\<not> peek_type n (tl ts) \<noteq> TokenLParen" by simp
    note ih = 8(1) [OF this _ h(2)]
    show ?thesis using True 8(2) unfolding h(1) parseFunctionCall.simps(2)
      by (simp only: if_False refl not_True_eq_False) (erule and_then_mono, blast intro: ih)
  next
    case False
    then show ?thesis using 8(2) unfolding h(1) by (simp add: parseFunctionCall.simps(2))
  qed
next
  case (10 f n args ts)
  then obtain h where h: "g = Suc h" "f \<le> h" by (cases g) auto
  show ?case
  proof (cases "peek_type n ts = TokenRParen")
    case True
    then show ?thesis using 10(4) unfolding h(1) by (simp add: parse_args.simps(2))
  next
    case False
    show ?thesis using False 10(4) unfolding h(1) parse_args.simps(2) if_False
      by (simp only: if_False) (erule and_then_mono, blast intro: 10(1) [OF False _ h(2)],
        use 10(2) [OF False _ _ h(2)] 10(3) [OF False _ _ _ h(2)] in \<open>simp split: if_splits\<close>)
  qed
qed simp_all

text \<open>
  C30: The parser returns on every input.  Whatever the query text, the fuel \<open>Parse\<close> allots is enough: it returns a
  query, an error or a panic, and any larger amount gives the same answer.
\<close>
theorem Parse_terminates:
  "\<exists>out. Parse input = Some out
    \<and> (\<forall>ts f. tokenize input = Inr ts \<and> fuel_for ts \<le> f \<longrightarrow>
          parseQuery f (length input) ts = parseQuery (fuel_for ts) (length input) ts)"
proof (cases "tokenize input")
  case (Inl e)
  then show ?thesis by (simp add: Parse_def)
next
  case (Inr ts)
  then obtain x where "parseQuery (fuel_for ts) (length input) ts = Some x"
    using parse_enough_fuel(1) [of ts "fuel_for ts"] by (auto simp: fuel_for_def)
  then show ?thesis using Inr parse_more_fuel(1) [of _ "length input" ts x] by (simp add: Parse_def)
qed

theorem Parse_terminates_witness:
  "\<exists>out ts. tokenize ''(('' = Inr ts \<and> fuel_for ts \<le> 100 \<and> Parse ''(('' = Some out
     \<and> parseQuery 100 2 ts = parseQuery (fuel_for ts) 2 ts"
proof -
  define ts where "ts = [\<lparr>tok_Type = TokenLParen, tok_Value = ''('', tok_Pos = 0\<rparr>,
    \<lparr>tok_Type = TokenLParen, tok_Value = ''('', tok_Pos = 1\<rparr>, \<lparr>tok_Type = TokenEOF, tok_Value = [], tok_Pos = 2\<rparr>]"
  have "tokenize ''(('' = Inr ts" unfolding ts_def by code_simp
  moreover have "fuel_for ts \<le> 100" by (simp add: fuel_for_def ts_def)
  moreover obtain out where "Parse ''(('' = Some out" "parseQuery 100 (length ''(('') ts = parseQuery (fuel_for ts) (length ''(('') ts"
    using Parse_terminates [of "''((''"] calculation by blast
  ultimately show ?thesis by (auto simp: numeral_2_eq_2)
qed

section \<open>Well-formedness\<close>

definition valid_name :: "string \<Rightarrow> bool" where
  "valid_name v \<longleftrightarrow> v \<noteq> [] \<and> isAlpha (hd v) \<and> list_all ident_char v \<and> v \<notin> {''and'', ''or'', ''by''}"

fun wf_query :: "Query \<Rightarrow> bool" where
  "wf_query (Telemetry t) \<longleftrightarrow>
     distinct (map fst (tq_Selectors t)) \<and> (\<forall>(k, sel) \<in> set (tq_Selectors t). sel_Label sel = k \<and> valid_name k)
     \<and> in_int64 (tq_Duration t) \<and> tq_StartTime t = None \<and> tq_EndTime t = None \<and> tq_Limit t = 1000"
| "wf_query (BinaryOp l op r) \<longleftrightarrow> wf_query l \<and> wf_query r \<and> op \<noteq> BinaryOpEqual \<and> op \<noteq> BinaryOpNotEqual"
| "wf_query (FunctionCall name args) \<longleftrightarrow> valid_name name \<and> telemetry_type name = None \<and> (\<forall>q \<in> set args. wf_query q)"
| "wf_query (Aggregation name q labels) \<longleftrightarrow>
     valid_name name \<and> telemetry_type name = None \<and> wf_query q \<and> (\<forall>l \<in> set labels. valid_name l)"

text \<open>Identifier tokens carry valid names.\<close>

definition good_token :: "Token \<Rightarrow> bool" where
  "good_token t \<longleftrightarrow> (tok_Type t = TokenIdentifier \<longrightarrow> valid_name (tok_Value t))"

lemma one_char_not_identifier: "one_char c = Some t \<Longrightarrow> t \<noteq> TokenIdentifier"
  by (auto simp: one_char_def split: if_splits)

lemma two_char_not_identifier: "two_char s = Some t \<Longrightarrow> t \<noteq> TokenIdentifier"
  by (auto simp: two_char_def split: if_splits)

lemma valid_name_takeWhile:
  assumes "s \<noteq> []" "isAlpha (hd s)" "keyword_type (takeWhile ident_char s) = TokenIdentifier"
  shows "valid_name (takeWhile ident_char s)"
proof -
  have "ident_char (hd s)" using assms(2) by (simp add: ident_char_def isAlphaNumeric_def)
  then have "takeWhile ident_char s \<noteq> [] \<and> hd (takeWhile ident_char s) = hd s" using assms(1) by (cases s) auto
  moreover have "list_all ident_char (takeWhile ident_char s)" by (auto simp: list_all_iff dest: set_takeWhileD)
  ultimately show ?thesis using assms(2,3) by (auto simp: valid_name_def keyword_type_def split: if_splits)
qed

lemma next_token_good:
  assumes "next_token pos s = Inr (t, r)" "s \<noteq> []"
  shows "good_token t"
proof (cases "two_char s")
  case (Some x)
  then show ?thesis using assms two_char_not_identifier by (auto simp: next_token_def good_token_def)
next
  case no_two: None
  show ?thesis
  proof (cases "one_char (hd s)")
    case (Some x)
    then show ?thesis using assms no_two one_char_not_identifier by (auto simp: next_token_def good_token_def)
  next
    case None
    then show ?thesis using assms no_two valid_name_takeWhile
      by (auto simp: next_token_def good_token_def Let_def split: if_splits option.splits prod.splits)
  qed
qed

lemma tokenize_good: "tokenize_from pos s = Inr ts \<Longrightarrow> \<forall>t \<in> set ts. good_token t"
proof (induction pos s arbitrary: ts rule: tokenize_from.induct)
  case (1 pos s)
  consider "s = []" | "s \<noteq> []" "blank (hd s)" | "s \<noteq> []" "\<not> blank (hd s)" by blast
  then show ?case
  proof cases
    case 1
    then have "ts = [\<lparr>tok_Type = TokenEOF, tok_Value = [], tok_Pos = pos\<rparr>]"
      using "1.prems" by (subst (asm) tokenize_from.simps) simp
    then show ?thesis by (simp add: good_token_def)
  next
    case 2
    then show ?thesis using "1.IH"(1) [OF 2] "1.prems" by (subst (asm) tokenize_from.simps) simp
  next
    case 3
    then obtain t r ts' where nt: "next_token pos s = Inr (t, r)"
        "tokenize_from (pos + (length s - length r)) r = Inr ts'" "ts = t # ts'"
      using "1.prems" by (subst (asm) tokenize_from.simps) (auto split: sum.splits)
    then show ?thesis using "1.IH"(2) [OF 3 nt(1) refl nt(2)] next_token_good [OF nt(1)] 3(1) by simp
  qed
qed

lemma peek_good: "\<forall>t \<in> set ts. good_token t \<Longrightarrow> peek_type n ts = TokenIdentifier \<Longrightarrow> valid_name (tok_Value (peek n ts))"
  by (cases ts) (auto simp: good_token_def)

lemma tl_good: "\<forall>t \<in> set ts. good_token t \<Longrightarrow> \<forall>t \<in> set (tl ts). good_token t"
  by (cases ts) auto

definition good_selectors :: "(string \<times> Selector) list \<Rightarrow> bool" where
  "good_selectors sels \<longleftrightarrow> distinct (map fst sels) \<and> (\<forall>(k, sel) \<in> set sels. sel_Label sel = k \<and> valid_name k)"

lemma good_selectors_update: "good_selectors sels \<Longrightarrow> valid_name (sel_Label sel) \<Longrightarrow> good_selectors (AList.update (sel_Label sel) sel sels)"
proof -
  assume a: "good_selectors sels" "valid_name (sel_Label sel)"
  have "set (AList.update (sel_Label sel) sel sels) \<subseteq> insert (sel_Label sel, sel) (set sels)" by (rule set_update_subset)
  then show ?thesis using a distinct_keys_update [of sels] unfolding good_selectors_def by fast
qed

lemma parseSelector_good:
  assumes "parseSelector n ts = Ret (sel, r)" "\<forall>t \<in> set ts. good_token t"
  shows "valid_name (sel_Label sel) \<and> (\<forall>t \<in> set r. good_token t)"
  using assms peek_good [OF assms(2)] tl_good [OF tl_good [OF tl_good [OF assms(2)]]]
  by (auto simp: parseSelector_def Let_def split: if_splits option.splits)

lemma parse_selectors_good:
  "parse_selectors n ts acc = Ret (sels, r) \<Longrightarrow> good_selectors acc \<Longrightarrow> \<forall>t \<in> set ts. good_token t \<Longrightarrow>
     good_selectors sels \<and> (\<forall>t \<in> set r. good_token t)"
proof (induction n ts acc rule: parse_selectors.induct)
  case (1 n ts acc)
  show ?case
  proof (cases "peek_type n ts = TokenRBrace")
    case True
    then show ?thesis using "1.prems" tl_good by (subst (asm) parse_selectors.simps) simp
  next
    case False
    then obtain sel r1 where sel: "parseSelector n ts = Ret (sel, r1)"
      using "1.prems"(1) by (subst (asm) parse_selectors.simps) (auto split: outcome.splits)
    define acc' where "acc' = AList.update (sel_Label sel) sel acc"
    have good: "good_selectors acc'" "\<forall>t \<in> set r1. good_token t"
      using parseSelector_good [OF sel "1.prems"(3)] good_selectors_update [OF "1.prems"(2)] by (simp_all add: acc'_def)
    have "parse_selectors n (tl r1) acc' = Ret (sels, r) \<and> peek_type n r1 = TokenComma
        \<or> parse_selectors n r1 acc' = Ret (sels, r) \<and> peek_type n r1 \<noteq> TokenComma \<and> peek_type n r1 = TokenRBrace"
      using "1.prems"(1) False sel by (subst (asm) parse_selectors.simps) (auto simp: Let_def acc'_def split: if_splits)
    then show ?thesis
      using "1.IH"(1) [OF False sel refl refl _ _ _ tl_good [OF good(2)]] "1.IH"(2) [OF False sel refl refl _ _ _ _ good(2)] good(1)
      by (fold acc'_def) blast
  qed
qed

lemma parse_by_good:
  "parse_by n ts acc = Ret (labels, r) \<Longrightarrow> \<forall>l \<in> set acc. valid_name l \<Longrightarrow> \<forall>t \<in> set ts. good_token t \<Longrightarrow>
     (\<forall>l \<in> set labels. valid_name l) \<and> (\<forall>t \<in> set r. good_token t)"
proof (induction n ts acc rule: parse_by.induct)
  case (1 n ts acc)
  show ?case
  proof (cases "peek_type n ts = TokenRParen")
    case True
    then show ?thesis using "1.prems" tl_good by (subst (asm) parse_by.simps) simp
  next
    case False
    then have ident: "peek_type n ts = TokenIdentifier" using "1.prems"(1) by (subst (asm) parse_by.simps) (auto split: if_splits)
    define acc' where "acc' = acc @ [tok_Value (peek n ts)]"
    have good: "\<forall>l \<in> set acc'. valid_name l" "\<forall>t \<in> set (tl ts). good_token t"
      using "1.prems"(2,3) peek_good [OF _ ident] tl_good by (auto simp: acc'_def)
    have "parse_by n (tl (tl ts)) acc' = Ret (labels, r) \<and> peek_type n (tl ts) = TokenComma
        \<or> parse_by n (tl ts) acc' = Ret (labels, r) \<and> peek_type n (tl ts) \<noteq> TokenComma \<and> peek_type n (tl ts) = TokenRParen"
      using "1.prems"(1) False ident by (subst (asm) parse_by.simps) (auto simp: Let_def acc'_def split: if_splits)
    moreover have "\<not> peek_type n ts \<noteq> TokenIdentifier" using ident by simp
    ultimately show ?thesis
      using "1.IH"(1) [OF False _ refl refl _ _ _ tl_good [OF good(2)]] "1.IH"(2) [OF False _ refl refl _ _ _ _ good(2)] good(1)
      by (fold acc'_def) blast
  qed
qed

lemma parseDuration_int64: "parseDuration v = Some d \<Longrightarrow> in_int64 d"
  by (auto simp: parseDuration_def split: if_splits option.splits)

lemma parse_range_good:
  assumes "parse_range n ts = Ret (d, r)" "\<forall>t \<in> set ts. good_token t"
  shows "in_int64 d \<and> (\<forall>t \<in> set r. good_token t)"
  using assms tl_good [OF tl_good [OF tl_good [OF assms(2)]]]
  by (auto simp: parse_range_def Let_def in_int64_def dest: parseDuration_int64 [unfolded in_int64_def] split: if_splits option.splits)

lemma parseTelemetryQuery_good:
  assumes "parseTelemetryQuery n typ ts = Ret (q, r)" "\<forall>t \<in> set ts. good_token t"
  shows "wf_query q \<and> (\<forall>t \<in> set r. good_token t)"
proof -
  obtain sels r1 d where p: "parse_selectors n (tl (tl ts)) [] = Ret (sels, r1)" "parse_range n r1 = Ret (d, r)"
      "q = Telemetry \<lparr>tq_Type = typ, tq_Selectors = sels, tq_Duration = d, tq_StartTime = None, tq_EndTime = None, tq_Limit = 1000\<rparr>"
    using assms(1) by (auto simp: parseTelemetryQuery_def split: if_splits outcome.splits)
  have s: "good_selectors sels" "\<forall>t \<in> set r1. good_token t"
    using parse_selectors_good [OF p(1) _ tl_good [OF tl_good [OF assms(2)]]] by (simp_all add: good_selectors_def)
  then show ?thesis using parse_range_good [OF p(2) s(2)] p(3) by (simp add: good_selectors_def)
qed

lemma finish_call_good:
  assumes "finish_call n name args ts = Ret (q, r)" "\<forall>t \<in> set ts. good_token t"
    and "valid_name name" "telemetry_type name = None" "\<forall>a \<in> set args. wf_query a"
  shows "wf_query q \<and> (\<forall>t \<in> set r. good_token t)"
proof (cases "peek_type n ts = TokenBy")
  case True
  then obtain labels a as where b: "parse_by n (tl (tl ts)) [] = Ret (labels, r)" "args = a # as" "q = Aggregation name a labels"
    using assms(1) by (auto simp: finish_call_def split: if_splits outcome.splits list.splits)
  have "(\<forall>l \<in> set labels. valid_name l) \<and> (\<forall>t \<in> set r. good_token t)"
    using parse_by_good [OF b(1) _ tl_good [OF tl_good [OF assms(2)]]] by simp
  then show ?thesis using assms b by simp
next
  case False
  then show ?thesis using assms by (auto simp: finish_call_def)
qed

lemma parse_good:
  "parseQuery f n ts = Some (Ret (q, r)) \<Longrightarrow> \<forall>t \<in> set ts. good_token t \<Longrightarrow> wf_query q \<and> (\<forall>t \<in> set r. good_token t)"
  "binary_loop f n left ts = Some (Ret (q, r)) \<Longrightarrow> \<forall>t \<in> set ts. good_token t \<Longrightarrow> wf_query left \<Longrightarrow>
     wf_query q \<and> (\<forall>t \<in> set r. good_token t)"
  "parsePrimary f n ts = Some (Ret (q, r)) \<Longrightarrow> \<forall>t \<in> set ts. good_token t \<Longrightarrow> wf_query q \<and> (\<forall>t \<in> set r. good_token t)"
  "parseFunctionCall f n ts = Some (Ret (q, r)) \<Longrightarrow> \<forall>t \<in> set ts. good_token t \<Longrightarrow> peek_type n ts = TokenIdentifier \<Longrightarrow>
     telemetry_type (tok_Value (peek n ts)) = None \<Longrightarrow> wf_query q \<and> (\<forall>t \<in> set r. good_token t)"
  "parse_args f n args ts = Some (Ret (qs, r)) \<Longrightarrow> \<forall>t \<in> set ts. good_token t \<Longrightarrow> \<forall>a \<in> set args. wf_query a \<Longrightarrow>
     (\<forall>a \<in> set qs. wf_query a) \<and> (\<forall>t \<in> set r. good_token t)"
proof (induction f n ts and f n left ts and f n ts and f n ts and f n args ts arbitrary: q r and q r and q r and q r and qs r
    rule: parseQuery_binary_loop_parsePrimary_parseFunctionCall_parse_args.induct)
  case (2 f n ts)
  then obtain left r1 where "parsePrimary f n ts = Some (Ret (left, r1))" "binary_loop f n left r1 = Some (Ret (q, r))"
    by (auto simp: parseQuery.simps(2) and_then_Ret)
  then show ?case using 2(1) [OF _ 2(4)] 2(2) by blast
next
  case (4 f n left ts)
  show ?case
  proof (cases "peek_type n ts = TokenEOF \<or> binary_operator (peek_type n ts) = None")
    case True
    then have "q = left" "r = ts" using 4(3) by (auto simp: binary_loop.simps(2) split: if_splits)
    then show ?thesis using 4(4,5) by simp
  next
    case False
    then obtain op where op: "peek_type n ts \<noteq> TokenEOF" "binary_operator (peek_type n ts) = Some op" by blast
    then obtain right r1 where p: "parsePrimary f n (tl ts) = Some (Ret (right, r1))"
        "binary_loop f n (BinaryOp left op right) r1 = Some (Ret (q, r))"
      using 4(3) by (auto simp: binary_loop.simps(2) and_then_Ret)
    have "op \<noteq> BinaryOpEqual \<and> op \<noteq> BinaryOpNotEqual" using op(2) by (cases "peek_type n ts") auto
    then show ?thesis using 4(1) [OF op p(1) tl_good [OF 4(4)]] 4(2) [OF op p(2)] 4(5) by simp
  qed
next
  case (6 f n ts)
  consider "peek_type n ts = TokenIdentifier" | "peek_type n ts \<noteq> TokenIdentifier" "peek_type n ts = TokenLParen"
    using 6(3) by (auto simp: parsePrimary.simps(2) split: if_splits)
  then show ?case
  proof cases
    case 1
    show ?thesis
    proof (cases "telemetry_type (tok_Value (peek n ts))")
      case None
      then show ?thesis using 6(1) [OF 1 None _ 6(4) 1 None] 6(3) 1 by (simp add: parsePrimary.simps(2))
    next
      case (Some tt)
      then have "parseTelemetryQuery n tt ts = Ret (q, r)" using 6(3) 1 by (simp add: parsePrimary.simps(2))
      then show ?thesis using parseTelemetryQuery_good 6(4) by blast
    qed
  next
    case 2
    then obtain q1 r1 where p: "parseQuery f n (tl ts) = Some (Ret (q1, r1))" "q1 = q" "r = tl r1"
      using 6(3) by (auto simp: parsePrimary.simps(2) and_then_Ret split: if_splits)
    then show ?thesis using 6(2) [OF 2 p(1) tl_good [OF 6(4)]] tl_good [of r1] by blast
  qed
next
  case (8 f n ts)
  then obtain args r1 where p: "parse_args f n [] (tl (tl ts)) = Some (Ret (args, r1))"
      "finish_call n (tok_Value (peek n ts)) args r1 = Ret (q, r)" "\<not> peek_type n (tl ts) \<noteq> TokenLParen"
    by (auto simp: parseFunctionCall.simps(2) and_then_Ret split: if_splits)
  have "(\<forall>a \<in> set args. wf_query a) \<and> (\<forall>t \<in> set r1. good_token t)"
    using 8(1) [OF p(3,1) tl_good [OF tl_good [OF 8(3)]]] by simp
  then show ?case using finish_call_good [OF p(2)] peek_good [OF 8(3,4)] 8(5) by blast
next
  case (10 f n args ts)
  show ?case
  proof (cases "peek_type n ts = TokenRParen")
    case True
    then show ?thesis using 10(4,5,6) tl_good by (simp add: parse_args.simps(2))
  next
    case False
    then obtain q1 r1 where q1: "parseQuery f n ts = Some (Ret (q1, r1))" using 10(4) by (auto simp: parse_args.simps(2) and_then_Ret)
    have good: "wf_query q1" "\<forall>t \<in> set r1. good_token t" using 10(1) [OF False q1 10(5)] by simp_all
    have "parse_args f n (args @ [q1]) (tl r1) = Some (Ret (qs, r)) \<and> peek_type n r1 = TokenComma
        \<or> parse_args f n (args @ [q1]) r1 = Some (Ret (qs, r)) \<and> peek_type n r1 \<noteq> TokenComma \<and> \<not> peek_type n r1 \<noteq> TokenRParen"
      using 10(4) False q1 by (auto simp: parse_args.simps(2) split: if_splits)
    then show ?thesis
      using 10(2) [OF False _ _ tl_good [OF good(2)]] 10(3) [OF False _ _ _ good(2)] good(1) 10(6) by auto
  qed
qed simp_all

text \<open>
  What the parser accepts is well formed.  In a parsed query every function name, selector label and grouping
  label is an identifier that is no keyword, selectors are keyed by their own label without repetition, no
  telemetry type is used as a function, durations fit 64 bits, the limit is the default, and only operators
  with a token occur.
\<close>
theorem Parse_well_formed:
  assumes "Parse input = Some (Ret q)"
  shows "wf_query q"
proof -
  obtain ts where ts: "tokenize input = Inr ts" using assms by (auto simp: Parse_def split: sum.splits)
  then obtain r where "parseQuery (fuel_for ts) (length input) ts = Some (Ret (q, r))"
    using assms by (cases "parseQuery (fuel_for ts) (length input) ts") (auto simp: Parse_def split: outcome.splits)
  then show ?thesis using parse_good(1) tokenize_good ts unfolding tokenize_def by blast
qed

definition host_query :: string where
  "host_query = ''avg(metrics{host=web, env!='' @ [quote] @ ''dev'' @ [quote] @ ''}[5m]) by (host)''"

lemma host_query_parses: "\<exists>q. Parse host_query = Some (Ret q)"
proof -
  have "(case Parse host_query of Some (Ret q) \<Rightarrow> True | _ \<Rightarrow> False)" by code_simp
  then show ?thesis by (auto split: option.splits outcome.splits)
qed

theorem Parse_well_formed_witness: "\<exists>q. Parse host_query = Some (Ret q) \<and> wf_query q"
  using host_query_parses Parse_well_formed by blast

end
