(* ===== verification/Query_Print.thy ===== *)
theory Query_Print
  imports Query_Language
begin

text \<open>
  Printing and parsing: a printer for queries, and the proof that the lexer and the parser invert it.
\<close>

section \<open>A printer\<close>

fun type_text :: "TelemetryType \<Rightarrow> string" where
  "type_text TelemetryTypeMetrics = ''metrics''"
| "type_text TelemetryTypeLogs = ''logs''"
| "type_text TelemetryTypeTraces = ''traces''"

fun sel_op_text :: "SelectorOperator \<Rightarrow> string" where
  "sel_op_text SelectorOpEqual = ''=''"
| "sel_op_text SelectorOpNotEqual = ''!=''"
| "sel_op_text SelectorOpRegex = ''=~''"
| "sel_op_text SelectorOpNotRegex = ''!~''"

fun op_text :: "BinaryOperator \<Rightarrow> string" where
  "op_text BinaryOpAdd = ''+''"
| "op_text BinaryOpSubtract = ''-''"
| "op_text BinaryOpMultiply = ''*''"
| "op_text BinaryOpDivide = ''/''"
| "op_text BinaryOpEqual = ''==''"
| "op_text BinaryOpNotEqual = ''!=''"
| "op_text BinaryOpLT = ''<''"
| "op_text BinaryOpGT = ''>''"
| "op_text BinaryOpLTE = ''<=''"
| "op_text BinaryOpGTE = ''>=''"
| "op_text BinaryOpAnd = ''and''"
| "op_text BinaryOpOr = ''or''"

definition sel_text :: "Selector \<Rightarrow> string" where
  "sel_text sel = sel_Label sel @ sel_op_text (sel_Operator sel) @ [quote] @ sel_Value sel @ [quote]"

definition range_text :: "duration \<Rightarrow> string" where
  "range_text d = (if d = 0 then [] else ''['' @ utoa (nat (d div second)) @ ''s]'')"

fun query_text :: "Query \<Rightarrow> string" where
  "query_text (Telemetry t) =
     type_text (tq_Type t) @ ''{'' @ Join '','' (map (\<lambda>(_, sel). sel_text sel) (tq_Selectors t)) @ ''}'' @ range_text (tq_Duration t)"
| "query_text (BinaryOp l op r) = ''('' @ query_text l @ '' '' @ op_text op @ '' '' @ query_text r @ '')''"
| "query_text (FunctionCall name args) = name @ ''('' @ Join '','' (map query_text args) @ '')''"
| "query_text (Aggregation name q labels) =
     name @ ''('' @ query_text q @ '') by ('' @ Join '','' labels @ '')''"

text \<open>
  What the printer can render: a well-formed query whose selector values need no escape and whose durations
  are whole, non-negative seconds.
\<close>

definition plain_value :: "string \<Rightarrow> bool" where
  "plain_value v \<longleftrightarrow> quote \<notin> set v \<and> CHR 0x5C \<notin> set v"

fun printable :: "Query \<Rightarrow> bool" where
  "printable (Telemetry t) \<longleftrightarrow>
     (\<forall>(_, sel) \<in> set (tq_Selectors t). plain_value (sel_Value sel)) \<and> 0 \<le> tq_Duration t \<and> second dvd tq_Duration t"
| "printable (BinaryOp l op r) \<longleftrightarrow> printable l \<and> printable r"
| "printable (FunctionCall name args) \<longleftrightarrow> (\<forall>q \<in> set args. printable q)"
| "printable (Aggregation name q labels) \<longleftrightarrow> printable q"

section \<open>The tokens of a printed query\<close>

type_synonym lexeme = "TokenType \<times> string"

definition lexeme :: "Token \<Rightarrow> lexeme" where
  "lexeme t = (tok_Type t, tok_Value t)"

fun sel_op_lexeme :: "SelectorOperator \<Rightarrow> lexeme" where
  "sel_op_lexeme SelectorOpEqual = (TokenEqual, ''='')"
| "sel_op_lexeme SelectorOpNotEqual = (TokenNotEqual, ''!='')"
| "sel_op_lexeme SelectorOpRegex = (TokenRegex, ''=~'')"
| "sel_op_lexeme SelectorOpNotRegex = (TokenNotRegex, ''!~'')"

fun op_lexeme :: "BinaryOperator \<Rightarrow> lexeme" where
  "op_lexeme BinaryOpAdd = (TokenPlus, ''+'')"
| "op_lexeme BinaryOpSubtract = (TokenMinus, ''-'')"
| "op_lexeme BinaryOpMultiply = (TokenMultiply, ''*'')"
| "op_lexeme BinaryOpDivide = (TokenDivide, ''/'')"
| "op_lexeme BinaryOpEqual = (TokenEqual, ''=='')"
| "op_lexeme BinaryOpNotEqual = (TokenNotEqual, ''!='')"
| "op_lexeme BinaryOpLT = (TokenLT, ''<'')"
| "op_lexeme BinaryOpGT = (TokenGT, ''>'')"
| "op_lexeme BinaryOpLTE = (TokenLTE, ''<='')"
| "op_lexeme BinaryOpGTE = (TokenGTE, ''>='')"
| "op_lexeme BinaryOpAnd = (TokenAnd, ''and'')"
| "op_lexeme BinaryOpOr = (TokenOr, ''or'')"

abbreviation comma :: lexeme where "comma \<equiv> (TokenComma, '','')"
abbreviation lparen :: lexeme where "lparen \<equiv> (TokenLParen, ''('')"
abbreviation rparen :: lexeme where "rparen \<equiv> (TokenRParen, '')'')"

text \<open>Comma-separated groups of tokens.\<close>

fun separated :: "lexeme list list \<Rightarrow> lexeme list" where
  "separated [] = []"
| "separated [x] = x"
| "separated (x # y # xs) = x @ [comma] @ separated (y # xs)"

definition sel_lexemes :: "Selector \<Rightarrow> lexeme list" where
  "sel_lexemes sel = [(TokenIdentifier, sel_Label sel), sel_op_lexeme (sel_Operator sel), (TokenString, sel_Value sel)]"

definition range_lexemes :: "duration \<Rightarrow> lexeme list" where
  "range_lexemes d =
     (if d = 0 then [] else [(TokenLBracket, ''[''), (TokenNumber, utoa (nat (d div second)) @ ''s''), (TokenRBracket, '']'')])"

fun query_lexemes :: "Query \<Rightarrow> lexeme list" where
  "query_lexemes (Telemetry t) =
     [(TokenIdentifier, type_text (tq_Type t)), (TokenLBrace, ''{'')]
       @ separated (map (\<lambda>(_, sel). sel_lexemes sel) (tq_Selectors t)) @ [(TokenRBrace, ''}'')] @ range_lexemes (tq_Duration t)"
| "query_lexemes (BinaryOp l op r) = [lparen] @ query_lexemes l @ [op_lexeme op] @ query_lexemes r @ [rparen]"
| "query_lexemes (FunctionCall name args) =
     [(TokenIdentifier, name), lparen] @ separated (map query_lexemes args) @ [rparen]"
| "query_lexemes (Aggregation name q labels) =
     [(TokenIdentifier, name), lparen] @ query_lexemes q @ [rparen, (TokenBy, ''by''), lparen]
       @ separated (map (\<lambda>l. [(TokenIdentifier, l)]) labels) @ [rparen]"

section \<open>Lexing a printed query\<close>

text \<open>A text that, before any continuation satisfying \<open>P\<close>, lexes to the given tokens.\<close>

definition lexes :: "(string \<Rightarrow> bool) \<Rightarrow> string \<Rightarrow> lexeme list \<Rightarrow> bool" where
  "lexes P u us \<longleftrightarrow> (\<forall>pos rest. P rest \<longrightarrow>
     (\<exists>ts. map lexeme ts = us
        \<and> tokenize_from pos (u @ rest) = map_sum id ((@) ts) (tokenize_from (pos + length u) rest)))"

abbreviation anything :: "string \<Rightarrow> bool" where "anything \<equiv> \<lambda>_. True"

lemma lexes_append:
  assumes "lexes P u us" "lexes Q v vs" "\<And>rest. Q rest \<Longrightarrow> P (v @ rest)"
  shows "lexes Q (u @ v) (us @ vs)"
  unfolding lexes_def
proof (intro allI impI)
  fix pos rest
  assume q: "Q rest"
  obtain ts where ts: "map lexeme ts = us" "tokenize_from pos (u @ v @ rest) = map_sum id ((@) ts) (tokenize_from (pos + length u) (v @ rest))"
    using assms(1) assms(3) [OF q] unfolding lexes_def by blast
  obtain ts' where ts': "map lexeme ts' = vs"
      "tokenize_from (pos + length u) (v @ rest) = map_sum id ((@) ts') (tokenize_from (pos + length u + length v) rest)"
    using assms(2) q unfolding lexes_def by blast
  have "map_sum id ((@) ts) (map_sum id ((@) ts') x) = map_sum id ((@) (ts @ ts')) x" for x :: "parse_error + Token list"
    by (cases x) auto
  then show "\<exists>ts. map lexeme ts = us @ vs
      \<and> tokenize_from pos ((u @ v) @ rest) = map_sum id ((@) ts) (tokenize_from (pos + length (u @ v)) rest)"
    using ts ts' by (intro exI [of _ "ts @ ts'"]) (simp add: add.assoc)
qed

lemma lexes_token:
  assumes "u \<noteq> []" "\<not> blank (hd u)"
    and "\<And>pos rest. P rest \<Longrightarrow> next_token pos (u @ rest) = Inr (\<lparr>tok_Type = fst l, tok_Value = snd l, tok_Pos = pos\<rparr>, rest)"
  shows "lexes P u [l]"
  unfolding lexes_def
proof (intro allI impI)
  fix pos rest
  assume "P rest"
  from assms(3) [OF this, of pos] assms(1,2)
  have "tokenize_from pos (u @ rest)
      = map_sum id ((@) [\<lparr>tok_Type = fst l, tok_Value = snd l, tok_Pos = pos\<rparr>]) (tokenize_from (pos + length u) rest)"
    by (subst tokenize_from.simps) (auto split: sum.split)
  then show "\<exists>ts. map lexeme ts = [l] \<and> tokenize_from pos (u @ rest) = map_sum id ((@) ts) (tokenize_from (pos + length u) rest)"
    by (intro exI [of _ "[\<lparr>tok_Type = fst l, tok_Value = snd l, tok_Pos = pos\<rparr>]"]) (simp add: lexeme_def)
qed

lemma lexes_space: "lexes anything '' '' []"
proof -
  have "tokenize_from pos ('' '' @ rest) = tokenize_from (pos + 1) rest" for pos rest
    by (subst tokenize_from.simps) (simp add: blank_def)
  moreover have "map_sum id ((@) []) x = x" for x :: "parse_error + Token list" by (cases x) auto
  ultimately show ?thesis by (simp add: lexes_def)
qed

lemma alpha_char:
  assumes "isAlpha c"
  shows "\<not> blank c" "one_char c = None" "c \<noteq> quote" "two_char (c # s) = None"
proof -
  have ne: "c \<notin> {CHR '' '', CHR 0x09, CHR 0x0A, CHR 0x0D, CHR ''{'', CHR ''}'', CHR ''['', CHR '']'', CHR ''('', CHR '')'', CHR '','',
      CHR ''='', CHR ''+'', CHR ''-'', CHR ''*'', CHR ''/'', CHR ''<'', CHR ''>'', CHR ''|'', quote, CHR ''!''}"
    using assms by (auto simp: isAlpha_def)
  show "\<not> blank c" "one_char c = None" "c \<noteq> quote" using ne by (auto simp: blank_def one_char_def)
  show "two_char (c # s) = None" using ne by (auto simp: two_char_def)
qed

definition name_ends :: "string \<Rightarrow> bool" where
  "name_ends rest \<longleftrightarrow> rest = [] \<or> \<not> ident_char (hd rest)"

lemma lexes_word:
  assumes "v \<noteq> []" "isAlpha (hd v)" "list_all ident_char v"
  shows "lexes name_ends v [(keyword_type v, v)]"
proof (rule lexes_token)
  show "v \<noteq> []" "\<not> blank (hd v)" using assms alpha_char by auto
  fix pos rest
  assume r: "name_ends rest"
  obtain c v' where v: "v = c # v'" using assms(1) by (cases v) auto
  have "takeWhile ident_char (v @ rest) = v" "dropWhile ident_char (v @ rest) = rest"
    using assms(3) r by (auto simp: list_all_iff name_ends_def takeWhile_append dropWhile_append takeWhile_eq_Nil_iff dropWhile_eq_self_iff)
  then show "next_token pos (v @ rest) = Inr (\<lparr>tok_Type = fst (keyword_type v, v), tok_Value = snd (keyword_type v, v), tok_Pos = pos\<rparr>, rest)"
    using assms(2) alpha_char [of c] unfolding v by (simp add: next_token_def Let_def)
qed

lemma lexes_name: "valid_name v \<Longrightarrow> lexes name_ends v [(TokenIdentifier, v)]"
  using lexes_word [of v] by (auto simp: valid_name_def keyword_type_def)

text \<open>Punctuation that begins no two-character operator.\<close>

lemma lexes_punct:
  assumes "one_char c = Some t" "\<not> blank c" "c \<notin> {CHR ''!'', CHR ''='', CHR ''<'', CHR ''>''}"
  shows "lexes anything [c] [(t, [c])]"
proof (rule lexes_token)
  fix pos rest
  have "two_char (c # rest) = None" using assms(3) by (auto simp: two_char_def)
  then show "next_token pos ([c] @ rest) = Inr (\<lparr>tok_Type = fst (t, [c]), tok_Value = snd (t, [c]), tok_Pos = pos\<rparr>, rest)"
    using assms(1) by (simp add: next_token_def)
qed (use assms in auto)

lemma lexes_puncts:
  "lexes anything ''{'' [(TokenLBrace, ''{'')]" "lexes anything ''}'' [(TokenRBrace, ''}'')]"
  "lexes anything ''['' [(TokenLBracket, ''['')]" "lexes anything '']'' [(TokenRBracket, '']'')]"
  "lexes anything ''('' [lparen]" "lexes anything '')'' [rparen]" "lexes anything '','' [comma]"
  by (rule lexes_punct; simp add: one_char_def blank_def)+

lemma lexes_sel_op: "lexes (\<lambda>rest. rest \<noteq> [] \<and> hd rest = quote) (sel_op_text op) [sel_op_lexeme op]"
  by (cases op; rule lexes_token) (auto simp: blank_def next_token_def two_char_def one_char_def neq_Nil_conv)

lemma lexes_string:
  assumes "plain_value v"
  shows "lexes anything ([quote] @ v @ [quote]) [(TokenString, v)]"
proof (rule lexes_token)
  fix pos rest
  have "scan_string (v @ quote # rest) = Some (v, rest)"
    using assms by (induction v) (auto simp: plain_value_def)
  then show "next_token pos (([quote] @ v @ [quote]) @ rest)
      = Inr (\<lparr>tok_Type = fst (TokenString, v), tok_Value = snd (TokenString, v), tok_Pos = pos\<rparr>, rest)"
    by (simp add: next_token_def two_char_def one_char_def)
qed (auto simp: blank_def)

lemma digit_char:
  assumes "is_digit c"
  shows "\<not> blank c" "one_char c = None" "c \<noteq> quote" "two_char (c # s) = None" "\<not> isAlpha c"
proof -
  have ne: "c \<notin> {CHR '' '', CHR 0x09, CHR 0x0A, CHR 0x0D, CHR ''{'', CHR ''}'', CHR ''['', CHR '']'', CHR ''('', CHR '')'', CHR '','',
      CHR ''='', CHR ''+'', CHR ''-'', CHR ''*'', CHR ''/'', CHR ''<'', CHR ''>'', CHR ''|'', quote, CHR ''!''}"
    using assms by (auto simp: is_digit_def)
  show "\<not> blank c" "one_char c = None" "c \<noteq> quote" using ne by (auto simp: blank_def one_char_def)
  show "two_char (c # s) = None" using ne by (auto simp: two_char_def)
  show "\<not> isAlpha c" using assms by (auto simp: is_digit_def isAlpha_def)
qed

lemma lexes_seconds: "lexes anything (utoa k @ ''s'') [(TokenNumber, utoa k @ ''s'')]"
proof (rule lexes_token)
  obtain c v where v: "utoa k = c # v" by (cases "utoa k") auto
  then have c: "is_digit c" using utoa_digits [of c k] by simp
  then show "utoa k @ ''s'' \<noteq> []" "\<not> blank (hd (utoa k @ ''s''))" using v digit_char by simp_all
  fix pos rest
  have "\<forall>d \<in> set (utoa k). number_char d" using utoa_digits by (auto simp: number_char_def)
  moreover have "\<not> number_char (CHR ''s'')" by (simp add: number_char_def is_digit_def)
  ultimately have "takeWhile number_char (utoa k @ CHR ''s'' # rest) = utoa k"
      "dropWhile number_char (utoa k @ CHR ''s'' # rest) = CHR ''s'' # rest"
    by (simp_all add: takeWhile_append dropWhile_append)
  then have "scan_number (utoa k @ CHR ''s'' # rest) = (utoa k @ ''s'', rest)" by (simp add: scan_number_def)
  then show "next_token pos ((utoa k @ ''s'') @ rest)
      = Inr (\<lparr>tok_Type = fst (TokenNumber, utoa k @ ''s''), tok_Value = snd (TokenNumber, utoa k @ ''s''), tok_Pos = pos\<rparr>, rest)"
    using c digit_char [OF c] unfolding v by (simp add: next_token_def)
qed

text \<open>A binary operator between spaces.\<close>

lemma lexes_operator:
  "lexes (\<lambda>rest. rest \<noteq> [] \<and> hd rest = CHR '' '') (op_text op) [op_lexeme op]"
proof (cases "op = BinaryOpAnd \<or> op = BinaryOpOr")
  case True
  have "lexes name_ends ''and'' [(TokenAnd, ''and'')]" "lexes name_ends ''or'' [(TokenOr, ''or'')]"
    using lexes_word [of "''and''"] lexes_word [of "''or''"]
    by (simp_all add: isAlpha_def ident_char_def isAlphaNumeric_def keyword_type_def)
  moreover have "name_ends rest" if "rest \<noteq> [] \<and> hd rest = CHR '' ''" for rest
    using that by (simp add: name_ends_def ident_char_def isAlphaNumeric_def isAlpha_def is_digit_def)
  ultimately show ?thesis using True by (auto simp: lexes_def)
next
  case False
  then show ?thesis
    by (cases op) (rule lexes_token; auto simp: blank_def next_token_def two_char_def one_char_def neq_Nil_conv)+
qed

lemma lexes_infix: "lexes anything ('' '' @ op_text op @ '' '') [op_lexeme op]"
  using lexes_append [OF lexes_space lexes_append [OF lexes_operator [of op] lexes_space]] by simp

lemma lexes_Nil: "lexes anything [] []"
proof -
  have "map_sum id ((@) []) x = x" for x :: "parse_error + Token list" by (cases x) auto
  then show ?thesis by (simp add: lexes_def)
qed

lemma lexes_weaken: "lexes P u us \<Longrightarrow> (\<And>rest. Q rest \<Longrightarrow> P rest) \<Longrightarrow> lexes Q u us"
  by (simp add: lexes_def)

text \<open>A comma-separated sequence of texts, each of which may be followed by a comma or the closing text.\<close>

lemma lexes_Join:
  assumes "\<And>x. x \<in> set xs \<Longrightarrow> lexes P (text_of x) (lexs x)" "\<And>rest. P (CHR '','' # rest)" "\<And>rest. P (c # rest)"
  shows "lexes (\<lambda>rest. rest \<noteq> [] \<and> hd rest = c) (Join '','' (map text_of xs)) (separated (map lexs xs))"
  using assms(1)
proof (induction xs rule: induct_list012)
  case 1
  then show ?case using lexes_weaken [OF lexes_Nil] by simp
next
  case (2 x)
  then have "lexes P (text_of x) (lexs x)" by simp
  then have "lexes (\<lambda>rest. rest \<noteq> [] \<and> hd rest = c) (text_of x) (lexs x)"
    by (rule lexes_weaken) (auto simp: neq_Nil_conv assms(3))
  then show ?case by simp
next
  case (3 x y zs)
  have "lexes anything (text_of x @ '','') (lexs x @ [comma])"
    using lexes_append [OF 3(3) [of x] lexes_puncts(7)] assms(2) by simp
  from lexes_append [OF this 3(2)] 3(3) show ?case by simp
qed

lemma name_ends_punct: "c \<in> {CHR ''('', CHR '')'', CHR '','', CHR ''{'', CHR ''='', CHR ''!'', CHR '' ''} \<Longrightarrow> name_ends (c # rest)"
  by (auto simp: name_ends_def ident_char_def isAlphaNumeric_def isAlpha_def is_digit_def)

lemma lexes_selector:
  assumes "valid_name (sel_Label sel)" "plain_value (sel_Value sel)"
  shows "lexes anything (sel_text sel) (sel_lexemes sel)"
proof -
  have "lexes anything (sel_op_text (sel_Operator sel) @ [quote] @ sel_Value sel @ [quote])
      [sel_op_lexeme (sel_Operator sel), (TokenString, sel_Value sel)]"
    using lexes_append [OF lexes_sel_op lexes_string [OF assms(2)]] by simp
  moreover have "name_ends (sel_op_text (sel_Operator sel) @ rest)" for rest
    by (cases "sel_Operator sel") (simp_all add: name_ends_punct)
  ultimately show ?thesis
    using lexes_append [OF lexes_name [OF assms(1)]] by (simp add: sel_text_def sel_lexemes_def)
qed

lemma type_text_name: "valid_name (type_text t)"
  by (cases t) (simp_all add: valid_name_def isAlpha_def ident_char_def isAlphaNumeric_def)

lemma lexes_range: "lexes anything (range_text d) (range_lexemes d)"
proof (cases "d = 0")
  case True
  then show ?thesis using lexes_Nil by (simp add: range_text_def range_lexemes_def)
next
  case False
  have "lexes anything (''['' @ (utoa (nat (d div second)) @ ''s'') @ '']'') (range_lexemes d)"
    using lexes_append [OF lexes_puncts(3) lexes_append [OF lexes_seconds lexes_puncts(4)]] False
    by (simp add: range_lexemes_def)
  then show ?thesis using False by (simp add: range_text_def)
qed

text \<open>A name followed by a parenthesised sequence.\<close>

lemma lexes_call:
  assumes "valid_name name" "lexes (\<lambda>rest. rest \<noteq> [] \<and> hd rest = CHR '')'') u us"
  shows "lexes anything (name @ ''('' @ u @ '')'') ([(TokenIdentifier, name), lparen] @ us @ [rparen])"
proof -
  have "lexes anything (''('' @ u @ '')'') ([lparen] @ us @ [rparen])"
    by (rule lexes_append [OF lexes_puncts(5) lexes_append [OF assms(2) lexes_puncts(6)]]) simp_all
  from lexes_append [OF lexes_name [OF assms(1)] this] show ?thesis by (simp add: name_ends_punct)
qed

lemma lexes_query: "wf_query q \<Longrightarrow> printable q \<Longrightarrow> lexes anything (query_text q) (query_lexemes q)"
proof (induction q)
  case (Telemetry t)
  have "lexes anything (sel_text sel) (sel_lexemes sel)" if "(k, sel) \<in> set (tq_Selectors t)" for k sel
    using that Telemetry by (intro lexes_selector) auto
  then have join: "lexes (\<lambda>rest. rest \<noteq> [] \<and> hd rest = CHR ''}'') (Join '','' (map (\<lambda>(_, sel). sel_text sel) (tq_Selectors t)))
      (separated (map (\<lambda>(_, sel). sel_lexemes sel) (tq_Selectors t)))"
    by (intro lexes_Join [where P = anything]) auto
  have "lexes anything (''}'' @ range_text (tq_Duration t)) ([(TokenRBrace, ''}'')] @ range_lexemes (tq_Duration t))"
    by (rule lexes_append [OF lexes_puncts(2) lexes_range]) simp
  from lexes_append [OF lexes_puncts(1) lexes_append [OF join this]]
  have "lexes anything (''{'' @ Join '','' (map (\<lambda>(_, sel). sel_text sel) (tq_Selectors t)) @ ''}'' @ range_text (tq_Duration t))
      ([(TokenLBrace, ''{'')] @ separated (map (\<lambda>(_, sel). sel_lexemes sel) (tq_Selectors t)) @ [(TokenRBrace, ''}'')] @ range_lexemes (tq_Duration t))"
    by simp
  from lexes_append [OF lexes_name [OF type_text_name] this] show ?case by (simp add: name_ends_punct)
next
  case (BinaryOp l op r)
  then have "lexes anything (query_text l) (query_lexemes l)" "lexes anything (query_text r) (query_lexemes r)" by simp_all
  then have "lexes anything (''('' @ query_text l @ ('' '' @ op_text op @ '' '') @ query_text r @ '')'')
      ([lparen] @ query_lexemes l @ [op_lexeme op] @ query_lexemes r @ [rparen])"
    by (intro lexes_append [OF lexes_puncts(5)] lexes_append [OF _ lexes_append [OF lexes_infix lexes_append [OF _ lexes_puncts(6)]]]) auto
  then show ?case by simp
next
  case (FunctionCall name args)
  have "lexes (\<lambda>rest. rest \<noteq> [] \<and> hd rest = CHR '')'') (Join '','' (map query_text args)) (separated (map query_lexemes args))"
    using FunctionCall by (intro lexes_Join [where P = anything]) auto
  then show ?case using lexes_call FunctionCall by simp
next
  case (Aggregation name q labels)
  have "lexes (\<lambda>rest. rest \<noteq> [] \<and> hd rest = CHR '')'') (Join '','' (map (\<lambda>l. l) labels)) (separated (map (\<lambda>l. [(TokenIdentifier, l)]) labels))"
    using Aggregation by (intro lexes_Join [where P = name_ends]) (auto simp: lexes_name name_ends_punct)
  from lexes_append [OF lexes_puncts(5) lexes_append [OF this lexes_puncts(6)]]
  have tail: "lexes anything (''('' @ Join '','' labels @ '')'') ([lparen] @ separated (map (\<lambda>l. [(TokenIdentifier, l)]) labels) @ [rparen])"
    by simp
  have "lexes name_ends ''by'' [(TokenBy, ''by'')]"
    using lexes_word [of "''by''"] by (simp add: isAlpha_def ident_char_def isAlphaNumeric_def keyword_type_def)
  from lexes_append [OF this lexes_space] have "lexes anything (''by'' @ '' '') [(TokenBy, ''by'')]"
    by (simp add: name_ends_punct)
  from lexes_append [OF lexes_space lexes_append [OF this tail]]
  have by_clause: "lexes anything ('' by ('' @ Join '','' labels @ '')'') ([(TokenBy, ''by''), lparen] @ separated (map (\<lambda>l. [(TokenIdentifier, l)]) labels) @ [rparen])"
    by simp
  have "lexes anything (name @ ''('' @ query_text q @ '')'') ([(TokenIdentifier, name), lparen] @ query_lexemes q @ [rparen])"
  proof (rule lexes_call)
    show "valid_name name" using Aggregation.prems(1) by simp
    have "lexes anything (query_text q) (query_lexemes q)" using Aggregation by simp
    then show "lexes (\<lambda>rest. rest \<noteq> [] \<and> hd rest = CHR '')'') (query_text q) (query_lexemes q)" by (rule lexes_weaken) simp
  qed
  from lexes_append [OF this by_clause] show ?case by simp
qed

section \<open>Parsing the tokens of a printed query\<close>

text \<open>What may follow a primary expression.\<close>

definition follows :: "nat \<Rightarrow> Token list \<Rightarrow> bool" where
  "follows n r \<longleftrightarrow> peek_type n r \<notin> {TokenBy, TokenLBracket}"

definition stops :: "nat \<Rightarrow> Token list \<Rightarrow> bool" where
  "stops n r \<longleftrightarrow> follows n r \<and> binary_operator (peek_type n r) = None"

lemma lexeme_Cons: "map lexeme us = (ty, v) # ls \<longleftrightarrow> (\<exists>t us'. us = t # us' \<and> tok_Type t = ty \<and> tok_Value t = v \<and> map lexeme us' = ls)"
  by (auto simp: lexeme_def map_eq_Cons_conv)

lemma lexeme_append: "map lexeme us = ls @ ms \<longleftrightarrow> (\<exists>us' vs. us = us' @ vs \<and> map lexeme us' = ls \<and> map lexeme vs = ms)"
  by (auto simp: map_eq_append_conv)

lemma parse_selectors_printed:
  assumes "map lexeme us = separated (map (\<lambda>(_, sel). sel_lexemes sel) sels) @ [(TokenRBrace, v)]"
    and "\<forall>(k, sel) \<in> set sels. sel_Label sel = k" "distinct (map fst (acc @ sels))"
  shows "parse_selectors n (us @ r) acc = Ret (acc @ sels, r)"
  using assms
proof (induction sels arbitrary: us acc)
  case Nil
  then show ?case by (subst parse_selectors.simps) (auto simp: lexeme_Cons)
next
  case (Cons ks sels)
  obtain k sel where ks: "ks = (k, sel)" by (cases ks)
  have k: "sel_Label sel = k" "map_of acc k = None" using Cons.prems(2,3) ks by (auto simp: map_of_eq_None_iff)
  then have upd: "AList.update k sel acc = acc @ [(k, sel)]" by (induction acc) (auto split: if_splits)
  define more where "more = separated (map (\<lambda>(_, sel). sel_lexemes sel) sels) @ [(TokenRBrace, v)]"
  have "map lexeme us = sel_lexemes sel @ (if sels = [] then [] else [comma]) @ more"
    using Cons.prems(1) ks by (cases sels) (auto simp: more_def)
  then obtain l op val us' where us: "us = l # op # val # us'" "tok_Type l = TokenIdentifier" "tok_Value l = k"
      "lexeme op = sel_op_lexeme (sel_Operator sel)" "tok_Type val = TokenString" "tok_Value val = sel_Value sel"
      "map lexeme us' = (if sels = [] then [] else [comma]) @ more"
    using k(1) by (auto simp: sel_lexemes_def lexeme_def map_eq_Cons_conv)
  have "selector_operator (tok_Type op) = Some (sel_Operator sel)"
    using us(4) by (cases "sel_Operator sel") (auto simp: lexeme_def)
  then have sel: "parseSelector n (us @ r) = Ret (sel, us' @ r)"
    using us k(1) by (simp add: parseSelector_def)
  have ih: "parse_selectors n (vs @ r) (acc @ [(k, sel)]) = Ret (acc @ ks # sels, r)" if "map lexeme vs = more" for vs
    using Cons.IH [of vs "acc @ [(k, sel)]"] that Cons.prems(2,3) ks by (simp add: more_def)
  show ?case
  proof (cases "sels = []")
    case True
    then obtain t where "us' = [t]" "tok_Type t = TokenRBrace" using us(7) by (auto simp: more_def lexeme_Cons)
    then show ?thesis using sel us(1,2) ih [of us'] us(7) True upd k
      by (subst parse_selectors.simps) (simp add: Let_def)
  next
    case False
    then obtain t vs where "us' = t # vs" "tok_Type t = TokenComma" "map lexeme vs = more" using us(7) by (auto simp: lexeme_Cons)
    then show ?thesis using sel us(1,2) ih upd k by (subst parse_selectors.simps) (simp add: Let_def)
  qed
qed

lemma parse_by_printed:
  assumes "map lexeme us = separated (map (\<lambda>l. [(TokenIdentifier, l)]) labels) @ [rparen]"
  shows "parse_by n (us @ r) acc = Ret (acc @ labels, r)"
  using assms
proof (induction labels arbitrary: us acc)
  case Nil
  then show ?case by (subst parse_by.simps) (auto simp: lexeme_Cons)
next
  case (Cons l labels)
  define more where "more = separated (map (\<lambda>l. [(TokenIdentifier, l)]) labels) @ [rparen]"
  have "map lexeme us = (TokenIdentifier, l) # (if labels = [] then [] else [comma]) @ more"
    using Cons.prems by (cases labels) (auto simp: more_def)
  then obtain t us' where us: "us = t # us'" "tok_Type t = TokenIdentifier" "tok_Value t = l"
      "map lexeme us' = (if labels = [] then [] else [comma]) @ more"
    by (auto simp: lexeme_Cons)
  have ih: "parse_by n (vs @ r) (acc @ [l]) = Ret (acc @ l # labels, r)" if "map lexeme vs = more" for vs
    using Cons.IH [of vs "acc @ [l]"] that by (simp add: more_def)
  show ?case
  proof (cases "labels = []")
    case True
    then obtain t' where "us' = [t']" "tok_Type t' = TokenRParen" using us(4) by (auto simp: more_def lexeme_Cons)
    then show ?thesis using us ih [of us'] True by (subst parse_by.simps) (simp add: Let_def)
  next
    case False
    then obtain t' vs where "us' = t' # vs" "tok_Type t' = TokenComma" "map lexeme vs = more" using us(4) by (auto simp: lexeme_Cons)
    then show ?thesis using us ih by (subst parse_by.simps) (simp add: Let_def)
  qed
qed

lemma digits_utoa: "list_all is_digit (utoa k)"
  using utoa_digits by (auto simp: list_all_iff)

lemma ParseInt_utoa: "in_int64 (int k) \<Longrightarrow> ParseInt (utoa k) = Some (int k)"
proof -
  assume k: "in_int64 (int k)"
  obtain c v where v: "utoa k = c # v" by (cases "utoa k") auto
  then have "is_digit c" using digits_utoa [of k] by simp
  then have "c \<noteq> CHR ''-''" "c \<noteq> CHR ''+''" by (auto simp: is_digit_def)
  then show ?thesis using k digits_utoa [of k] atou_utoa [of k] unfolding v by (simp add: ParseInt_def)
qed

lemma parse_range_printed:
  assumes "map lexeme us = range_lexemes d" "follows n r" "0 \<le> d" "second dvd d" "in_int64 d"
  shows "parse_range n (us @ r) = Ret (d, r)"
proof (cases "d = 0")
  case True
  then show ?thesis using assms(1,2) by (simp add: range_lexemes_def parse_range_def follows_def)
next
  case False
  then obtain a b c where us: "us = [a, b, c]" "tok_Type a = TokenLBracket" "tok_Value b = utoa (nat (d div second)) @ ''s''"
      "tok_Type c = TokenRBracket"
    using assms(1) by (auto simp: range_lexemes_def lexeme_Cons)
  have "0 \<le> d div second" "d div second \<le> d" using assms(3) by (simp_all add: div_le_dividend)
  then have "in_int64 (int (nat (d div second)))" using assms(5) by (simp add: in_int64_def)
  from ParseInt_utoa [OF this] have "parseDuration (tok_Value b) = Some (int64 (d div second * second))"
    unfolding us(3) using \<open>0 \<le> d div second\<close> by (simp add: parseDuration_def butlast_append neq_Nil_conv [of "utoa _", simplified])
  moreover have "d div second * second = d" using assms(4) by simp
  ultimately show ?thesis using us assms(5) by (simp add: parse_range_def)
qed

lemma parseQuery_of_primary:
  assumes "parsePrimary f n ts = Some (Ret (q, r))" "stops n r"
  shows "\<exists>g. parseQuery g n ts = Some (Ret (q, r))"
proof -
  have "parsePrimary (Suc f) n ts = Some (Ret (q, r))" using parse_more_fuel(3) [OF assms(1)] by simp
  moreover have "binary_loop (Suc f) n q r = Some (Ret (q, r))" using assms(2) by (simp add: binary_loop.simps(2) stops_def)
  ultimately have "parseQuery (Suc (Suc f)) n ts = Some (Ret (q, r))" by (simp add: parseQuery.simps(2))
  then show ?thesis ..
qed

text \<open>The claim for one query, in the form the induction needs.\<close>

definition parses_back :: "nat \<Rightarrow> Query \<Rightarrow> bool" where
  "parses_back n q \<longleftrightarrow> (\<forall>us r. map lexeme us = query_lexemes q \<and> follows n r \<longrightarrow>
     (\<exists>f. parsePrimary f n (us @ r) = Some (Ret (q, r))))"

lemma query_lexemes_hd: "\<exists>ty v ls. query_lexemes q = (ty, v) # ls \<and> ty \<in> {TokenIdentifier, TokenLParen}"
  by (cases q) auto

lemma peek_printed:
  assumes "map lexeme us = query_lexemes q @ ls"
  shows "peek_type n (us @ r) \<in> {TokenIdentifier, TokenLParen}"
proof -
  obtain ty v ls' where "query_lexemes q = (ty, v) # ls'" "ty \<in> {TokenIdentifier, TokenLParen}" using query_lexemes_hd by blast
  then show ?thesis using assms by (auto simp: lexeme_Cons)
qed

lemma parseQuery_of_printed:
  assumes "parses_back n q" "map lexeme us = query_lexemes q" "stops n r"
  shows "\<exists>f. parseQuery f n (us @ r) = Some (Ret (q, r))"
proof -
  obtain f where "parsePrimary f n (us @ r) = Some (Ret (q, r))"
    using assms unfolding parses_back_def stops_def by blast
  then show ?thesis using parseQuery_of_primary assms(3) by blast
qed

text \<open>Two leading tokens and a bracketed part.\<close>

lemma lexeme_prefix:
  assumes "map lexeme us = (ty, v) # (ty', v') # ls @ ms"
  obtains a b us1 us2 where "us = a # b # us1 @ us2" "tok_Type a = ty" "tok_Value a = v" "tok_Type b = ty'" "tok_Value b = v'"
    "map lexeme us1 = ls" "map lexeme us2 = ms"
proof -
  obtain a b w where w: "us = a # b # w" "tok_Type a = ty" "tok_Value a = v" "tok_Type b = ty'" "tok_Value b = v'" "map lexeme w = ls @ ms"
    using assms unfolding lexeme_Cons by blast
  obtain us1 us2 where "w = us1 @ us2" "map lexeme us1 = ls" "map lexeme us2 = ms"
    using w(6) unfolding lexeme_append by blast
  then show thesis using that w by blast
qed

lemma parse_args_printed:
  assumes "\<forall>q \<in> set args. parses_back n q" "map lexeme us = separated (map query_lexemes args) @ [rparen]"
  shows "\<exists>f. parse_args f n acc (us @ r) = Some (Ret (acc @ args, r))"
  using assms
proof (induction args arbitrary: us acc)
  case Nil
  then have "parse_args 1 n acc (us @ r) = Some (Ret (acc @ [], r))" by (auto simp: lexeme_Cons parse_args.simps(2))
  then show ?case by blast
next
  case (Cons q args)
  define more where "more = separated (map query_lexemes args) @ [rparen]"
  have m: "map lexeme us = query_lexemes q @ (if args = [] then [] else [comma]) @ more"
    using Cons.prems(2) by (cases args) (auto simp: more_def)
  then obtain us1 us2 where us: "us = us1 @ us2" "map lexeme us1 = query_lexemes q" "map lexeme us2 = (if args = [] then [] else [comma]) @ more"
    by (auto simp: lexeme_append)
  obtain t us3 where t: "us2 = t # us3" "tok_Type t = (if args = [] then TokenRParen else TokenComma)"
      "if args = [] then us3 = [] else map lexeme us3 = more"
    using us(3) by (cases "args = []") (auto simp: more_def lexeme_Cons)
  then have st: "stops n (us2 @ r)" by (simp add: stops_def follows_def)
  obtain f1 where f1: "parseQuery f1 n (us @ r) = Some (Ret (q, us2 @ r))"
    using parseQuery_of_printed [OF _ us(2) st] Cons.prems(1) unfolding us(1) by auto
  have not_end: "peek_type n (us @ r) \<noteq> TokenRParen" using peek_printed [OF m, of n r] by auto
  define rest where "rest = (if args = [] then us2 else us3)"
  have "map lexeme rest = more" using us(3) t by (cases "args = []") (simp_all add: rest_def)
  then obtain f2 where f2: "parse_args f2 n (acc @ [q]) (rest @ r) = Some (Ret (acc @ q # args, r))"
    using Cons.IH [of rest "acc @ [q]"] Cons.prems(1) by (auto simp: more_def)
  define f where "f = max f1 f2"
  have "parseQuery f n (us @ r) = Some (Ret (q, us2 @ r))" "parse_args f n (acc @ [q]) (rest @ r) = Some (Ret (acc @ q # args, r))"
    using parse_more_fuel(1) [OF f1, of f] parse_more_fuel(5) [OF f2, of f] by (simp_all add: f_def)
  then have "parse_args (Suc f) n acc (us @ r) = Some (Ret (acc @ q # args, r))"
    using not_end t by (cases "args = []") (simp_all add: parse_args.simps(2) rest_def)
  then show ?case by blast
qed

lemma parse_call_printed:
  assumes "map lexeme us = (TokenIdentifier, name) # lparen # separated (map query_lexemes args) @ rparen # ls"
    and "telemetry_type name = None" "\<forall>q \<in> set args. parses_back n q"
  shows "\<exists>f vs. map lexeme vs = ls \<and> parsePrimary f n (us @ r) = Some (finish_call n name args (vs @ r))"
proof -
  obtain a b us1 vs where us: "us = a # b # us1 @ vs" "tok_Type a = TokenIdentifier" "tok_Value a = name" "tok_Type b = TokenLParen"
      "map lexeme us1 = separated (map query_lexemes args) @ [rparen]" "map lexeme vs = ls"
  proof -
    have "map lexeme us = (TokenIdentifier, name) # lparen # (separated (map query_lexemes args) @ [rparen]) @ ls" using assms(1) by simp
    then show thesis by (rule lexeme_prefix) (rule that)
  qed
  obtain f where "parse_args f n [] (us1 @ vs @ r) = Some (Ret (args, vs @ r))"
    using parse_args_printed [OF assms(3) us(5), of "[]" "vs @ r"] by auto
  then have "parsePrimary (Suc (Suc f)) n (us @ r) = Some (finish_call n name args (vs @ r))"
    using us(1-4) assms(2) by (simp add: parsePrimary.simps(2) parseFunctionCall.simps(2))
  then show ?thesis using us(6) by blast
qed

lemma binary_operator_lexeme:
  "op \<noteq> BinaryOpEqual \<Longrightarrow> op \<noteq> BinaryOpNotEqual \<Longrightarrow> lexeme t = op_lexeme op \<Longrightarrow>
     binary_operator (tok_Type t) = Some op \<and> tok_Type t \<notin> {TokenEOF, TokenBy, TokenLBracket}"
  by (cases op) (auto simp: lexeme_def)

lemma parses_back_telemetry:
  assumes "wf_query (Telemetry t)" "printable (Telemetry t)"
  shows "parses_back n (Telemetry t)"
  unfolding parses_back_def
proof (intro allI impI)
  fix us r
  assume "map lexeme us = query_lexemes (Telemetry t) \<and> follows n r"
  then have r: "follows n r" and "map lexeme us = (TokenIdentifier, type_text (tq_Type t)) # (TokenLBrace, ''{'')
        # (separated (map (\<lambda>(_, sel). sel_lexemes sel) (tq_Selectors t)) @ [(TokenRBrace, ''}'')]) @ range_lexemes (tq_Duration t)"
    by simp_all
  from this(2) obtain a b us1 us2 where us: "us = a # b # us1 @ us2" "tok_Type a = TokenIdentifier" "tok_Value a = type_text (tq_Type t)"
      "tok_Type b = TokenLBrace" "map lexeme us1 = separated (map (\<lambda>(_, sel). sel_lexemes sel) (tq_Selectors t)) @ [(TokenRBrace, ''}'')]"
      "map lexeme us2 = range_lexemes (tq_Duration t)"
    by (rule lexeme_prefix)
  have "parse_selectors n (us1 @ us2 @ r) [] = Ret (tq_Selectors t, us2 @ r)"
  proof (rule parse_selectors_printed [OF us(5), of "[]", simplified])
    show "\<forall>x \<in> set (tq_Selectors t). case x of (k, sel) \<Rightarrow> sel_Label sel = k" "distinct (map fst (tq_Selectors t))"
      using assms(1) by auto
  qed
  moreover have "parse_range n (us2 @ r) = Ret (tq_Duration t, r)"
    using parse_range_printed [OF us(6) r] assms by simp
  moreover have "telemetry_type (type_text (tq_Type t)) = Some (tq_Type t)" by (cases "tq_Type t") (simp_all add: telemetry_type_def)
  moreover have "t = \<lparr>tq_Type = tq_Type t, tq_Selectors = tq_Selectors t, tq_Duration = tq_Duration t, tq_StartTime = None, tq_EndTime = None, tq_Limit = 1000\<rparr>"
    using assms(1) by (cases t) simp
  ultimately have "parsePrimary 1 n (us @ r) = Some (Ret (Telemetry t, r))"
    using us(1-4) by (simp add: parsePrimary.simps(2) parseTelemetryQuery_def)
  then show "\<exists>f. parsePrimary f n (us @ r) = Some (Ret (Telemetry t, r))" ..
qed

lemma parses_back_binary:
  assumes "parses_back n l" "parses_back n q" "op \<noteq> BinaryOpEqual" "op \<noteq> BinaryOpNotEqual"
  shows "parses_back n (BinaryOp l op q)"
  unfolding parses_back_def
proof (intro allI impI)
  fix us r
  assume "map lexeme us = query_lexemes (BinaryOp l op q) \<and> follows n r"
  then obtain a us1 o' us2 z where us: "us = a # us1 @ o' # us2 @ [z]" "tok_Type a = TokenLParen" "map lexeme us1 = query_lexemes l"
      "lexeme o' = op_lexeme op" "map lexeme us2 = query_lexemes q" "tok_Type z = TokenRParen"
    by (cases "op_lexeme op") (auto simp: lexeme_Cons lexeme_append, auto simp: lexeme_def)
  have op: "binary_operator (tok_Type o') = Some op" "tok_Type o' \<notin> {TokenEOF, TokenBy, TokenLBracket}"
    using binary_operator_lexeme [OF assms(3,4) us(4)] by auto
  obtain f1 where f1: "parsePrimary f1 n (us1 @ o' # us2 @ z # r) = Some (Ret (l, o' # us2 @ z # r))"
    using assms(1) [unfolded parses_back_def, rule_format, of us1 "o' # us2 @ z # r"] us(3) op(2) by (auto simp: follows_def)
  obtain f2 where f2: "parsePrimary f2 n (us2 @ z # r) = Some (Ret (q, z # r))"
    using assms(2) [unfolded parses_back_def, rule_format, of us2 "z # r"] us(5,6) by (auto simp: follows_def)
  define f where "f = Suc (max f1 f2)"
  have p: "parsePrimary f n (us1 @ o' # us2 @ z # r) = Some (Ret (l, o' # us2 @ z # r))" "parsePrimary f n (us2 @ z # r) = Some (Ret (q, z # r))"
    using parse_more_fuel(3) [OF f1, of f] parse_more_fuel(3) [OF f2, of f] by (simp_all add: f_def)
  have "binary_loop f n (BinaryOp l op q) (z # r) = Some (Ret (BinaryOp l op q, z # r))"
    using us(6) by (simp add: f_def binary_loop.simps(2))
  then have "binary_loop (Suc f) n l (o' # us2 @ z # r) = Some (Ret (BinaryOp l op q, z # r))"
    using op p(2) by (simp add: binary_loop.simps(2))
  moreover have "parsePrimary (Suc f) n (us1 @ o' # us2 @ z # r) = Some (Ret (l, o' # us2 @ z # r))"
    using parse_more_fuel(3) [OF p(1), of "Suc f"] by simp
  ultimately have "parseQuery (Suc (Suc f)) n (us1 @ o' # us2 @ z # r) = Some (Ret (BinaryOp l op q, z # r))"
    by (simp add: parseQuery.simps(2))
  then have "parsePrimary (Suc (Suc (Suc f))) n (us @ r) = Some (Ret (BinaryOp l op q, r))"
    using us(1,2,6) by (simp add: parsePrimary.simps(2))
  then show "\<exists>f. parsePrimary f n (us @ r) = Some (Ret (BinaryOp l op q, r))" by blast
qed

lemma query_parses_back: "wf_query q \<Longrightarrow> printable q \<Longrightarrow> parses_back n q"
proof (induction q)
  case (Telemetry t)
  then show ?case by (rule parses_back_telemetry)
next
  case (BinaryOp l op q)
  then show ?case by (intro parses_back_binary) simp_all
next
  case (FunctionCall name args)
  have args: "\<forall>q \<in> set args. parses_back n q" using FunctionCall by simp
  show ?case unfolding parses_back_def
  proof (intro allI impI)
    fix us r
    assume a: "map lexeme us = query_lexemes (FunctionCall name args) \<and> follows n r"
    then obtain f where "parsePrimary f n (us @ r) = Some (finish_call n name args r)"
      using parse_call_printed [OF _ _ args, of us name "[]" r] FunctionCall.prems(1) by auto
    then show "\<exists>f. parsePrimary f n (us @ r) = Some (Ret (FunctionCall name args, r))"
      using a by (auto simp: finish_call_def follows_def)
  qed
next
  case (Aggregation name q labels)
  have arg: "\<forall>x \<in> set [q]. parses_back n x" using Aggregation by simp
  show ?case unfolding parses_back_def
  proof (intro allI impI)
    fix us r
    assume a: "map lexeme us = query_lexemes (Aggregation name q labels) \<and> follows n r"
    then obtain f vs where f: "parsePrimary f n (us @ r) = Some (finish_call n name [q] (vs @ r))"
        "map lexeme vs = (TokenBy, ''by'') # lparen # separated (map (\<lambda>l. [(TokenIdentifier, l)]) labels) @ [rparen]"
      using parse_call_printed [OF _ _ arg, of us name] Aggregation.prems(1) by fastforce
    then obtain x y ws where vs: "vs = x # y # ws" "tok_Type x = TokenBy" "tok_Type y = TokenLParen"
        "map lexeme ws = separated (map (\<lambda>l. [(TokenIdentifier, l)]) labels) @ [rparen]"
      by (auto simp: lexeme_Cons)
    then show "\<exists>f. parsePrimary f n (us @ r) = Some (Ret (Aggregation name q labels, r))"
      using f(1) parse_by_printed [OF vs(4), of n r "[]"] by (auto simp: finish_call_def)
  qed
qed

lemma printed_parses:
  assumes "wf_query q" "printable q"
  shows "Parse (query_text q) = Some (Ret q)"
proof -
  have "tokenize_from (length (query_text q)) [] = Inr [\<lparr>tok_Type = TokenEOF, tok_Value = [], tok_Pos = length (query_text q)\<rparr>]"
    by (subst tokenize_from.simps) simp
  then obtain us where us: "map lexeme us = query_lexemes q"
      "tokenize (query_text q) = Inr (us @ [\<lparr>tok_Type = TokenEOF, tok_Value = [], tok_Pos = length (query_text q)\<rparr>])"
    using lexes_query [OF assms] unfolding lexes_def tokenize_def by (metis (no_types) add_0 append_Nil2 map_sum.simps(2))
  define eof where "eof = [\<lparr>tok_Type = TokenEOF, tok_Value = [], tok_Pos = length (query_text q)\<rparr>]"
  have "stops n eof" for n by (simp add: eof_def stops_def follows_def)
  then obtain g where g: "parseQuery g (length (query_text q)) (us @ eof) = Some (Ret (q, eof))"
    using query_parses_back [OF assms] us(1) parseQuery_of_primary unfolding parses_back_def stops_def by meson
  obtain x where x: "parseQuery (fuel_for (us @ eof)) (length (query_text q)) (us @ eof) = Some x"
    using parse_enough_fuel(1) [of "us @ eof" "fuel_for (us @ eof)"] by (auto simp: fuel_for_def)
  have "x = Ret (q, eof)"
    using parse_more_fuel(1) [OF g, of "max g (fuel_for (us @ eof))"] parse_more_fuel(1) [OF x, of "max g (fuel_for (us @ eof))"] by simp
  then show ?thesis using x us(2) by (simp add: Parse_def eof_def)
qed

text \<open>
  C29: Parsing inverts printing.  The text of a well-formed query with plain selector values and whole-second ranges
  is accepted by the lexer and the parser and gives exactly that query back, whatever its nesting of operators,
  calls and groupings.
\<close>
theorem Parse_query_text:
  assumes "wf_query q" "printable q"
  shows "Parse (query_text q) = Some (Ret q)"
  using assms by (rule printed_parses)

definition sample_query :: Query where
  "sample_query = BinaryOp (Aggregation ''avg'' (Telemetry \<lparr>tq_Type = TelemetryTypeMetrics,
       tq_Selectors = [(''host'', \<lparr>sel_Label = ''host'', sel_Operator = SelectorOpNotRegex, sel_Value = ''web.*''\<rparr>)],
       tq_Duration = 300 * second, tq_StartTime = None, tq_EndTime = None, tq_Limit = 1000\<rparr>) [''env'']) BinaryOpOr
     (FunctionCall ''count'' [])"

theorem Parse_query_text_witness:
  "wf_query sample_query \<and> printable sample_query \<and> Parse (query_text sample_query) = Some (Ret sample_query)"
proof -
  have "wf_query sample_query" "printable sample_query" by code_simp+
  then show ?thesis using Parse_query_text by blast
qed

end
