(* ===== verification/Query_Exec.thy ===== *)
theory Query_Exec
  imports Query_Print Go_Time "HOL-Library.Multiset"
begin

text \<open>
  Execution of a parsed query (\<open>query/executor.go\<close>, \<open>query/functions.go\<close>).  The telemetry service, UUID
  parsing, regular expressions, \<open>fmt\<close> and the unstable library sort are fields of \<open>QueryEnv\<close>; a
  \<open>float64\<close> is a real number.  A pointer to a string carries its address, because \<open>%v\<close> prints that.
\<close>

section \<open>Rows and results\<close>

type_synonym string_ptr = "(nat \<times> string) option"

datatype anyval = AnyString string | AnyPtr string_ptr | AnyInt int | AnyFloat real | AnyJson jval

datatype qvalue = VFloat real | VInt int | VString string

record Metric =
  mt_Timestamp :: gotime
  mt_AgentID :: string
  mt_Name :: string
  mt_Value :: real
  mt_ConfigHash :: string_ptr
  mt_Labels :: "(string \<times> string) list"
  mt_Type :: string

record Log =
  lg_Timestamp :: gotime
  lg_AgentID :: string
  lg_SeverityText :: string
  lg_Body :: string
  lg_LogAttributes :: "(string \<times> anyval) list"
  lg_ConfigHash :: string_ptr

record Trace =
  tr_Timestamp :: gotime
  tr_AgentID :: string
  tr_ConfigHash :: string_ptr
  tr_TraceID :: string
  tr_SpanID :: string
  tr_ParentSpanID :: string_ptr
  tr_Name :: string
  tr_Duration :: int
  tr_StatusCode :: string
  tr_StatusMessage :: string
  tr_Attributes :: "(string \<times> string) list"

record MetricQuery =
  mq_AgentID :: "string option"
  mq_GroupID :: "string option"
  mq_MetricName :: "string option"
  mq_StartTime :: gotime
  mq_EndTime :: gotime
  mq_Limit :: int

record LogQuery =
  lq_AgentID :: "string option"
  lq_GroupID :: "string option"
  lq_Severity :: "string option"
  lq_Search :: "string option"
  lq_StartTime :: gotime
  lq_EndTime :: gotime
  lq_Limit :: int

record TraceQuery =
  trq_AgentID :: "string option"
  trq_GroupID :: "string option"
  trq_TraceID :: "string option"
  trq_StartTime :: gotime
  trq_EndTime :: gotime
  trq_Limit :: int

record QueryResult =
  qr_Type :: TelemetryType
  qr_Timestamp :: gotime
  qr_Labels :: "(string \<times> string) list"
  qr_Value :: qvalue
  qr_Data :: "(string \<times> anyval) list"

record ExecutionContext =
  ec_StartTime :: "gotime option"
  ec_EndTime :: "gotime option"
  ec_Limit :: int
  ec_AgentID :: "string option"
  ec_GroupID :: "string option"

record QueryMeta =
  meta_ExecutionTime :: duration
  meta_RowCount :: nat
  meta_QueryType :: string
  meta_UsedRollups :: bool

text \<open>What the executor calls and the repository does not define.\<close>

record QueryEnv =
  qe_QueryMetrics :: "MetricQuery \<Rightarrow> string + Metric list"
  qe_QueryLogs :: "LogQuery \<Rightarrow> string + Log list"
  qe_QueryTraces :: "TraceQuery \<Rightarrow> string + Trace list"
  qe_ParseUUID :: "string \<Rightarrow> string option"
  qe_MatchString :: "string \<Rightarrow> string \<Rightarrow> bool option"
  qe_Sprint :: "anyval \<Rightarrow> string"
  qe_Sscanf :: "string \<Rightarrow> real option"
  qe_SortByTime :: "QueryResult list \<Rightarrow> QueryResult list"

datatype exec_error =
    InvalidAgentID string
  | QueryFailed TelemetryType string
  | UnsupportedOperator BinaryOperator
  | NeedsArgument string
  | UnknownFunction string
  | UnknownAggregation string
  | NeedsResult string
  | OnlyMetrics string TelemetryType
  | NeedsTwoPoints string nat
  | NotANumber string
  | NeedsTimeDifference

text \<open>\<open>fmt.Sprintf("%v", x)\<close>: a string prints as itself.\<close>

definition Sprint :: "QueryEnv \<Rightarrow> anyval \<Rightarrow> string" where
  "Sprint env v = (case v of AnyString s \<Rightarrow> s | _ \<Rightarrow> qe_Sprint env v)"

definition convertToStringMap :: "QueryEnv \<Rightarrow> (string \<times> anyval) list \<Rightarrow> (string \<times> string) list" where
  "convertToStringMap env m = map (\<lambda>(k, v). (k, Sprint env v)) m"

section \<open>Telemetry queries\<close>

definition getTimeRange :: "ExecutionContext \<Rightarrow> gotime \<Rightarrow> TelemetryQuery \<Rightarrow> gotime \<times> gotime" where
  "getTimeRange ctx now q =
     (case (ec_StartTime ctx, ec_EndTime ctx) of
        (Some s, Some e) \<Rightarrow> (s, e)
      | _ \<Rightarrow>
          (case (tq_StartTime q, tq_EndTime q) of
             (Some s, Some e) \<Rightarrow> (s, e)
           | _ \<Rightarrow> if tq_Duration q > 0 then (now - tq_Duration q, now) else (now - 5 * minute, now)))"

definition matches_selector :: "QueryEnv \<Rightarrow> (string \<times> string) list \<Rightarrow> string \<times> Selector \<Rightarrow> bool" where
  "matches_selector env labels ls =
     (case ls of (label, selector) \<Rightarrow>
        (let value = map_of labels label in
         case sel_Operator selector of
          SelectorOpEqual \<Rightarrow> (value = Some (sel_Value selector))
        | SelectorOpNotEqual \<Rightarrow> (value \<noteq> Some (sel_Value selector))
        | SelectorOpRegex \<Rightarrow> (case value of None \<Rightarrow> False | Some v \<Rightarrow> (qe_MatchString env (sel_Value selector) v = Some True))
        | SelectorOpNotRegex \<Rightarrow> (case value of None \<Rightarrow> True | Some v \<Rightarrow> (qe_MatchString env (sel_Value selector) v = Some False))))"

definition matchesSelectors :: "QueryEnv \<Rightarrow> (string \<times> string) list \<Rightarrow> (string \<times> Selector) list \<Rightarrow> bool" where
  "matchesSelectors env labels selectors \<longleftrightarrow> list_all (matches_selector env labels) selectors"

text \<open>The selectors every kind of query pushes down to the store.\<close>

definition select_agent :: "QueryEnv \<Rightarrow> ExecutionContext \<Rightarrow> Selector \<Rightarrow> string option \<Rightarrow> exec_error + string option" where
  "select_agent env ctx selector cur =
     (if ec_AgentID ctx \<noteq> None then Inr (ec_AgentID ctx)
      else if sel_Operator selector = SelectorOpEqual then
        (case qe_ParseUUID env (sel_Value selector) of
           None \<Rightarrow> Inl (InvalidAgentID (sel_Value selector))
         | Some u \<Rightarrow> Inr (Some u))
      else Inr cur)"

definition select_group :: "ExecutionContext \<Rightarrow> Selector \<Rightarrow> string option \<Rightarrow> string option" where
  "select_group ctx selector cur =
     (if ec_GroupID ctx \<noteq> None then ec_GroupID ctx
      else if sel_Operator selector = SelectorOpEqual then Some (sel_Value selector) else cur)"

fun push_down :: "('q \<Rightarrow> string \<times> Selector \<Rightarrow> exec_error + 'q) \<Rightarrow> (string \<times> Selector) list \<Rightarrow> 'q \<Rightarrow> exec_error + 'q" where
  "push_down f [] q = Inr q"
| "push_down f (s # ss) q = (case f q s of Inl e \<Rightarrow> Inl e | Inr q' \<Rightarrow> push_down f ss q')"

definition metric_selector :: "QueryEnv \<Rightarrow> ExecutionContext \<Rightarrow> MetricQuery \<Rightarrow> string \<times> Selector \<Rightarrow> exec_error + MetricQuery" where
  "metric_selector env ctx q ls =
     (case ls of (label, selector) \<Rightarrow>
        if label = ''agent_id'' then map_sum id (\<lambda>a. q\<lparr>mq_AgentID := a\<rparr>) (select_agent env ctx selector (mq_AgentID q))
        else if label = ''group_id'' then Inr (q\<lparr>mq_GroupID := select_group ctx selector (mq_GroupID q)\<rparr>)
        else if label \<in> {''metric'', ''name'', ''metric_name''} then
          Inr (if sel_Operator selector = SelectorOpEqual then q\<lparr>mq_MetricName := Some (sel_Value selector)\<rparr> else q)
        else Inr q)"

definition metric_special :: "string list" where
  "metric_special = [''agent_id'', ''group_id'', ''metric'', ''name'', ''metric_name'']"

definition metric_result :: "Metric \<Rightarrow> QueryResult" where
  "metric_result m = \<lparr>qr_Type = TelemetryTypeMetrics, qr_Timestamp = mt_Timestamp m, qr_Labels = mt_Labels m,
     qr_Value = VFloat (mt_Value m),
     qr_Data = [(''name'', AnyString (mt_Name m)), (''type'', AnyString (mt_Type m)),
                (''agent_id'', AnyString (mt_AgentID m)), (''config_hash'', AnyPtr (mt_ConfigHash m))]\<rparr>"

definition executeMetricsQuery ::
  "QueryEnv \<Rightarrow> ExecutionContext \<Rightarrow> TelemetryQuery \<Rightarrow> gotime \<Rightarrow> gotime \<Rightarrow> exec_error + QueryResult list" where
  "executeMetricsQuery env ctx q startTime endTime =
     (case push_down (metric_selector env ctx) (tq_Selectors q)
            \<lparr>mq_AgentID = None, mq_GroupID = None, mq_MetricName = None, mq_StartTime = startTime,
             mq_EndTime = endTime, mq_Limit = tq_Limit q\<rparr> of
        Inl e \<Rightarrow> Inl e
      | Inr mq \<Rightarrow>
          (case qe_QueryMetrics env mq of
             Inl e \<Rightarrow> Inl (QueryFailed TelemetryTypeMetrics e)
           | Inr metrics \<Rightarrow>
               Inr (map metric_result
                 (filter (\<lambda>m. matchesSelectors env (mt_Labels m)
                    (filter (\<lambda>(label, _). label \<notin> set metric_special) (tq_Selectors q))) metrics))))"

definition log_selector :: "QueryEnv \<Rightarrow> ExecutionContext \<Rightarrow> LogQuery \<Rightarrow> string \<times> Selector \<Rightarrow> exec_error + LogQuery" where
  "log_selector env ctx q ls =
     (case ls of (label, selector) \<Rightarrow>
        if label = ''agent_id'' then map_sum id (\<lambda>a. q\<lparr>lq_AgentID := a\<rparr>) (select_agent env ctx selector (lq_AgentID q))
        else if label = ''group_id'' then Inr (q\<lparr>lq_GroupID := select_group ctx selector (lq_GroupID q)\<rparr>)
        else if label \<in> {''severity'', ''level''} then
          Inr (if sel_Operator selector = SelectorOpEqual then q\<lparr>lq_Severity := Some (sel_Value selector)\<rparr> else q)
        else if label \<in> {''body'', ''message'', ''search''} then
          Inr (if sel_Operator selector = SelectorOpEqual \<or> sel_Operator selector = SelectorOpRegex
               then q\<lparr>lq_Search := Some (sel_Value selector)\<rparr> else q)
        else Inr q)"

definition log_result :: "QueryEnv \<Rightarrow> Log \<Rightarrow> QueryResult" where
  "log_result env l = \<lparr>qr_Type = TelemetryTypeLogs, qr_Timestamp = lg_Timestamp l,
     qr_Labels = convertToStringMap env (lg_LogAttributes l), qr_Value = VString (lg_Body l),
     qr_Data = [(''severity'', AnyString (lg_SeverityText l)), (''agent_id'', AnyString (lg_AgentID l)),
                (''config_hash'', AnyPtr (lg_ConfigHash l))]\<rparr>"

definition executeLogsQuery ::
  "QueryEnv \<Rightarrow> ExecutionContext \<Rightarrow> TelemetryQuery \<Rightarrow> gotime \<Rightarrow> gotime \<Rightarrow> exec_error + QueryResult list" where
  "executeLogsQuery env ctx q startTime endTime =
     (case push_down (log_selector env ctx) (tq_Selectors q)
            \<lparr>lq_AgentID = None, lq_GroupID = None, lq_Severity = None, lq_Search = None, lq_StartTime = startTime,
             lq_EndTime = endTime, lq_Limit = tq_Limit q\<rparr> of
        Inl e \<Rightarrow> Inl e
      | Inr lq \<Rightarrow>
          (case qe_QueryLogs env lq of
             Inl e \<Rightarrow> Inl (QueryFailed TelemetryTypeLogs e)
           | Inr logs \<Rightarrow>
               Inr (map (log_result env)
                 (filter (\<lambda>l. matchesSelectors env (convertToStringMap env (lg_LogAttributes l)) (tq_Selectors q)) logs))))"

definition trace_selector :: "QueryEnv \<Rightarrow> ExecutionContext \<Rightarrow> TraceQuery \<Rightarrow> string \<times> Selector \<Rightarrow> exec_error + TraceQuery" where
  "trace_selector env ctx q ls =
     (case ls of (label, selector) \<Rightarrow>
        if label = ''agent_id'' then map_sum id (\<lambda>a. q\<lparr>trq_AgentID := a\<rparr>) (select_agent env ctx selector (trq_AgentID q))
        else if label = ''group_id'' then Inr (q\<lparr>trq_GroupID := select_group ctx selector (trq_GroupID q)\<rparr>)
        else if label = ''trace_id'' then
          Inr (if sel_Operator selector = SelectorOpEqual then q\<lparr>trq_TraceID := Some (sel_Value selector)\<rparr> else q)
        else Inr q)"

definition trace_result :: "Trace \<Rightarrow> QueryResult" where
  "trace_result t = \<lparr>qr_Type = TelemetryTypeTraces, qr_Timestamp = tr_Timestamp t, qr_Labels = tr_Attributes t,
     qr_Value = VInt (tr_Duration t),
     qr_Data = [(''trace_id'', AnyString (tr_TraceID t)), (''span_id'', AnyString (tr_SpanID t)),
                (''parent_span_id'', AnyPtr (tr_ParentSpanID t)), (''name'', AnyString (tr_Name t)),
                (''status_code'', AnyString (tr_StatusCode t)), (''status_message'', AnyString (tr_StatusMessage t)),
                (''agent_id'', AnyString (tr_AgentID t)), (''config_hash'', AnyPtr (tr_ConfigHash t))]\<rparr>"

definition executeTracesQuery ::
  "QueryEnv \<Rightarrow> ExecutionContext \<Rightarrow> TelemetryQuery \<Rightarrow> gotime \<Rightarrow> gotime \<Rightarrow> exec_error + QueryResult list" where
  "executeTracesQuery env ctx q startTime endTime =
     (case push_down (trace_selector env ctx) (tq_Selectors q)
            \<lparr>trq_AgentID = None, trq_GroupID = None, trq_TraceID = None, trq_StartTime = startTime,
             trq_EndTime = endTime, trq_Limit = tq_Limit q\<rparr> of
        Inl e \<Rightarrow> Inl e
      | Inr tq \<Rightarrow>
          (case qe_QueryTraces env tq of
             Inl e \<Rightarrow> Inl (QueryFailed TelemetryTypeTraces e)
           | Inr traces \<Rightarrow>
               Inr (map trace_result (filter (\<lambda>t. matchesSelectors env (tr_Attributes t) (tq_Selectors q)) traces))))"

definition VisitTelemetryQuery ::
  "QueryEnv \<Rightarrow> ExecutionContext \<Rightarrow> gotime \<Rightarrow> TelemetryQuery \<Rightarrow> exec_error + QueryResult list" where
  "VisitTelemetryQuery env ctx now q =
     (let (startTime, endTime) = getTimeRange ctx now q in
      case tq_Type q of
        TelemetryTypeMetrics \<Rightarrow> executeMetricsQuery env ctx q startTime endTime
      | TelemetryTypeLogs \<Rightarrow> executeLogsQuery env ctx q startTime endTime
      | TelemetryTypeTraces \<Rightarrow> executeTracesQuery env ctx q startTime endTime)"

section \<open>Functions (query/functions.go)\<close>

definition toFloat64 :: "QueryEnv \<Rightarrow> qvalue \<Rightarrow> real option" where
  "toFloat64 env v = (case v of VFloat r \<Rightarrow> Some r | VInt i \<Rightarrow> Some (real_of_int i) | VString s \<Rightarrow> qe_Sscanf env s)"

type_synonym apply_fun = "QueryResult list \<Rightarrow> exec_error + QueryResult list"

text \<open>The accumulator of the sum and average loops: sum, count, labels, timestamp.\<close>

definition sum_step :: "QueryEnv \<Rightarrow> real \<times> nat \<times> (string \<times> string) list \<times> gotime \<Rightarrow> QueryResult
    \<Rightarrow> real \<times> nat \<times> (string \<times> string) list \<times> gotime" where
  "sum_step env acc r =
     (case acc of (s, n, labels, ts) \<Rightarrow>
        (case toFloat64 env (qr_Value r) of
           None \<Rightarrow> acc
         | Some val \<Rightarrow> (s + val, n + 1, if labels = [] then qr_Labels r else labels, if labels = [] then qr_Timestamp r else ts)))"

definition sum_loop :: "QueryEnv \<Rightarrow> QueryResult list \<Rightarrow> real \<times> nat \<times> (string \<times> string) list \<times> gotime" where
  "sum_loop env results = foldl (sum_step env) (0, 0, [], 0) results"

definition sumFunction :: "QueryEnv \<Rightarrow> apply_fun" where
  "sumFunction env results =
     (if results = [] then Inr []
      else (let (s, n, labels, ts) = sum_loop env results in
        Inr [\<lparr>qr_Type = qr_Type (hd results), qr_Timestamp = ts, qr_Labels = labels, qr_Value = VFloat s,
              qr_Data = [(''function'', AnyString ''sum''), (''count'', AnyInt (int (length results)))]\<rparr>]))"

definition avgFunction :: "QueryEnv \<Rightarrow> apply_fun" where
  "avgFunction env results =
     (if results = [] then Inr []
      else (let (s, n, labels, ts) = sum_loop env results in
        if n = 0 then Inr []
        else Inr [\<lparr>qr_Type = qr_Type (hd results), qr_Timestamp = ts, qr_Labels = labels, qr_Value = VFloat (s / real n),
                   qr_Data = [(''function'', AnyString ''avg''), (''count'', AnyInt (int n))]\<rparr>]))"

text \<open>The running extremum; \<open>None\<close> stands for the initial infinity.\<close>

definition ext_step :: "QueryEnv \<Rightarrow> (real \<Rightarrow> real \<Rightarrow> bool) \<Rightarrow> (real \<times> QueryResult) option \<Rightarrow> QueryResult \<Rightarrow> (real \<times> QueryResult) option" where
  "ext_step env better cur r =
     (case toFloat64 env (qr_Value r) of
        None \<Rightarrow> cur
      | Some val \<Rightarrow> (case cur of None \<Rightarrow> Some (val, r) | Some (m, _) \<Rightarrow> if better val m then Some (val, r) else cur))"

definition extremum :: "QueryEnv \<Rightarrow> (real \<Rightarrow> real \<Rightarrow> bool) \<Rightarrow> string \<Rightarrow> apply_fun" where
  "extremum env better name results =
     (case foldl (ext_step env better) None results of
        None \<Rightarrow> Inr []
      | Some (m, r) \<Rightarrow> Inr [r\<lparr>qr_Value := VFloat m, qr_Data := [(''function'', AnyString name)]\<rparr>])"

definition minFunction :: "QueryEnv \<Rightarrow> apply_fun" where
  "minFunction env results = extremum env (\<lambda>x y. x < y) ''min'' results"

definition maxFunction :: "QueryEnv \<Rightarrow> apply_fun" where
  "maxFunction env results = extremum env (\<lambda>x y. x > y) ''max'' results"

definition countFunction :: apply_fun where
  "countFunction results =
     (case results of
        [] \<Rightarrow> Inr []
      | r # _ \<Rightarrow> Inr [\<lparr>qr_Type = qr_Type r, qr_Timestamp = qr_Timestamp r, qr_Labels = qr_Labels r,
                      qr_Value = VFloat (real (length results)), qr_Data = [(''function'', AnyString ''count'')]\<rparr>])"

text \<open>The checks shared by \<open>rate\<close> and \<open>increase\<close>: first and last row in time order with their values.\<close>

definition endpoints :: "QueryEnv \<Rightarrow> string \<Rightarrow> QueryResult list \<Rightarrow> exec_error + (QueryResult \<times> real \<times> QueryResult \<times> real)" where
  "endpoints env name results =
     (if results = [] then Inl (NeedsResult name)
      else if qr_Type (hd results) \<noteq> TelemetryTypeMetrics then Inl (OnlyMetrics name (qr_Type (hd results)))
      else if length results < 2 then Inl (NeedsTwoPoints name (length results))
      else (let sorted = qe_SortByTime env results in
        case toFloat64 env (qr_Value (hd sorted)) of
          None \<Rightarrow> Inl (NotANumber ''first'')
        | Some firstVal \<Rightarrow>
            (case toFloat64 env (qr_Value (last sorted)) of
               None \<Rightarrow> Inl (NotANumber ''last'')
             | Some lastVal \<Rightarrow> Inr (hd sorted, firstVal, last sorted, lastVal))))"

definition rateFunction :: "QueryEnv \<Rightarrow> apply_fun" where
  "rateFunction env results =
     (case endpoints env ''rate'' results of
        Inl e \<Rightarrow> Inl e
      | Inr (first, firstVal, lst, lastVal) \<Rightarrow>
          (let timeDiff = real_of_int (Sub (qr_Timestamp lst) (qr_Timestamp first)) / real_of_int second in
           if timeDiff = 0 then Inl NeedsTimeDifference
           else Inr [\<lparr>qr_Type = qr_Type first, qr_Timestamp = qr_Timestamp lst, qr_Labels = qr_Labels first,
                      qr_Value = VFloat ((lastVal - firstVal) / timeDiff),
                      qr_Data = [(''function'', AnyString ''rate''), (''time_span'', AnyFloat timeDiff)]\<rparr>]))"

definition increaseFunction :: "QueryEnv \<Rightarrow> apply_fun" where
  "increaseFunction env results =
     (case endpoints env ''increase'' results of
        Inl e \<Rightarrow> Inl e
      | Inr (first, firstVal, lst, lastVal) \<Rightarrow>
          Inr [\<lparr>qr_Type = qr_Type first, qr_Timestamp = qr_Timestamp lst, qr_Labels = qr_Labels first,
                qr_Value = VFloat (lastVal - firstVal), qr_Data = [(''function'', AnyString ''increase'')]\<rparr>])"

definition calculateQuantile :: "real list \<Rightarrow> real \<Rightarrow> real" where
  "calculateQuantile sortedValues quantile =
     (if sortedValues = [] then 0
      else (let index = quantile * real (length sortedValues - 1);
                lower = nat \<lfloor>index\<rfloor>; upper = nat \<lceil>index\<rceil>
            in if lower = upper then sortedValues ! lower
               else (let weight = index - real lower
                     in sortedValues ! lower * (1 - weight) + sortedValues ! upper * weight)))"

definition quantiles :: "(string \<times> real) list" where
  "quantiles = [(''p50'', 50 / 100), (''p90'', 90 / 100), (''p95'', 95 / 100), (''p99'', 99 / 100)]"

definition histogramQuantileFunction :: "QueryEnv \<Rightarrow> apply_fun" where
  "histogramQuantileFunction env results =
     (case results of
        [] \<Rightarrow> Inr []
      | r # _ \<Rightarrow>
          (let values = List.map_filter (\<lambda>r. toFloat64 env (qr_Value r)) results in
           if values = [] then Inr []
           else Inr (map (\<lambda>(label, q). \<lparr>qr_Type = qr_Type r, qr_Timestamp = qr_Timestamp r,
                  qr_Labels = AList.update ''quantile'' label (qr_Labels r),
                  qr_Value = VFloat (calculateQuantile (sort values) q),
                  qr_Data = [(''function'', AnyString ''histogram_quantile'')]\<rparr>) quantiles)))"

definition GetFunction :: "QueryEnv \<Rightarrow> string \<Rightarrow> apply_fun option" where
  "GetFunction env name = map_of
     [(''sum'', sumFunction env), (''avg'', avgFunction env), (''min'', minFunction env), (''max'', maxFunction env),
      (''count'', countFunction), (''rate'', rateFunction env), (''increase'', increaseFunction env),
      (''histogram_quantile'', histogramQuantileFunction env)] name"

section \<open>Operators, grouping and execution\<close>

definition UnixNano :: "gotime \<Rightarrow> int" where
  "UnixNano t = int64 (t - unix_to_internal * second)"

definition resultKey :: "QueryResult \<Rightarrow> string" where
  "resultKey r = type_text (qr_Type r) @ ''_'' @ itoa (UnixNano (qr_Timestamp r))"

definition intersectResults :: "QueryResult list \<Rightarrow> QueryResult list \<Rightarrow> QueryResult list" where
  "intersectResults left right =
     (let rightMap = foldl (\<lambda>m r. AList.update (resultKey r) r m) [] right
      in filter (\<lambda>l. map_of rightMap (resultKey l) \<noteq> None) left)"

definition group_value :: "QueryEnv \<Rightarrow> QueryResult \<Rightarrow> string \<Rightarrow> string option" where
  "group_value env r label =
     (case map_of (qr_Labels r) label of
        Some v \<Rightarrow> Some v
      | None \<Rightarrow> map_option (Sprint env) (map_of (qr_Data r) label))"

definition group_key :: "QueryEnv \<Rightarrow> string list \<Rightarrow> QueryResult \<Rightarrow> string" where
  "group_key env by_labels r = Join ''|'' (map (\<lambda>l. case group_value env r l of None \<Rightarrow> [] | Some v \<Rightarrow> v) by_labels)"

definition group_labels :: "QueryEnv \<Rightarrow> string list \<Rightarrow> QueryResult \<Rightarrow> (string \<times> string) list" where
  "group_labels env by_labels r =
     foldl (\<lambda>m l. case group_value env r l of None \<Rightarrow> m | Some v \<Rightarrow> AList.update l v m) [] by_labels"

type_synonym groups = "(string \<times> QueryResult list) list \<times> (string \<times> (string \<times> string) list) list"

definition group_step :: "QueryEnv \<Rightarrow> string list \<Rightarrow> groups \<Rightarrow> QueryResult \<Rightarrow> groups" where
  "group_step env by_labels acc r =
     (case acc of (gs, ls) \<Rightarrow>
        let key = group_key env by_labels r in
        (AList.update key ((case map_of gs key of None \<Rightarrow> [] | Some g \<Rightarrow> g) @ [r]) gs,
         if map_of ls key \<noteq> None then ls else AList.update key (group_labels env by_labels r) ls))"

definition label_group :: "(string \<times> string) list \<Rightarrow> QueryResult \<Rightarrow> QueryResult" where
  "label_group ls r = r\<lparr>qr_Labels := foldl (\<lambda>m (l, v). AList.update l v m) (qr_Labels r) ls\<rparr>"

fun aggregate_groups :: "apply_fun \<Rightarrow> (string \<Rightarrow> (string \<times> string) list) \<Rightarrow> (string \<times> QueryResult list) list \<Rightarrow> exec_error + QueryResult list" where
  "aggregate_groups f labels [] = Inr []"
| "aggregate_groups f labels ((key, g) # gs) =
     (case f g of
        Inl e \<Rightarrow> Inl e
      | Inr rs \<Rightarrow> map_sum id ((@) (map (label_group (labels key)) rs)) (aggregate_groups f labels gs))"

definition groupAndAggregate :: "QueryEnv \<Rightarrow> QueryResult list \<Rightarrow> string list \<Rightarrow> apply_fun \<Rightarrow> exec_error + QueryResult list" where
  "groupAndAggregate env results by_labels f =
     (let (gs, ls) = foldl (group_step env by_labels) ([], []) results
      in aggregate_groups f (\<lambda>key. case map_of ls key of None \<Rightarrow> [] | Some l \<Rightarrow> l) gs)"

fun binary_result :: "BinaryOperator \<Rightarrow> QueryResult list \<Rightarrow> QueryResult list \<Rightarrow> exec_error + QueryResult list" where
  "binary_result BinaryOpAdd l r = Inr (l @ r)"
| "binary_result BinaryOpAnd l r = Inr (intersectResults l r)"
| "binary_result BinaryOpOr l r = Inr (l @ r)"
| "binary_result op l r = Inl (UnsupportedOperator op)"

fun Accept :: "QueryEnv \<Rightarrow> ExecutionContext \<Rightarrow> gotime \<Rightarrow> Query \<Rightarrow> exec_error + QueryResult list" where
  "Accept env ctx now (Telemetry q) = VisitTelemetryQuery env ctx now q"
| "Accept env ctx now (BinaryOp l op r) =
     (case Accept env ctx now l of
        Inl e \<Rightarrow> Inl e
      | Inr lr \<Rightarrow> (case Accept env ctx now r of Inl e \<Rightarrow> Inl e | Inr rr \<Rightarrow> binary_result op lr rr))"
| "Accept env ctx now (FunctionCall name []) = Inl (NeedsArgument name)"
| "Accept env ctx now (FunctionCall name (a # _)) =
     (case Accept env ctx now a of
        Inl e \<Rightarrow> Inl e
      | Inr rs \<Rightarrow> (case GetFunction env name of None \<Rightarrow> Inl (UnknownFunction name) | Some f \<Rightarrow> f rs))"
| "Accept env ctx now (Aggregation name q by_labels) =
     (case Accept env ctx now q of
        Inl e \<Rightarrow> Inl e
      | Inr rs \<Rightarrow>
          (case GetFunction env name of
             None \<Rightarrow> Inl (UnknownAggregation name)
           | Some f \<Rightarrow> if by_labels \<noteq> [] then groupAndAggregate env rs by_labels f else f rs))"

fun query_type :: "Query \<Rightarrow> string" where
  "query_type (Telemetry _) = ''*query.TelemetryQuery''"
| "query_type (BinaryOp _ _ _) = ''*query.BinaryOp''"
| "query_type (FunctionCall _ _) = ''*query.FunctionCall''"
| "query_type (Aggregation _ _ _) = ''*query.Aggregation''"

definition Execute :: "QueryEnv \<Rightarrow> ExecutionContext \<Rightarrow> gotime \<Rightarrow> duration \<Rightarrow> Query \<Rightarrow> exec_error + (QueryResult list \<times> QueryMeta)" where
  "Execute env ctx now elapsed q =
     map_sum id (\<lambda>rs. (rs, \<lparr>meta_ExecutionTime = elapsed, meta_RowCount = length rs, meta_QueryType = query_type q,
       meta_UsedRollups = False\<rparr>)) (Accept env ctx now q)"

end
