(* ===== verification/Query_Results.thy ===== *)
theory Query_Results
  imports Query_Exec
begin

text \<open>
  What query execution computes: grouping against a reference definition, the aggregation functions against
  the values they summarise, and the quantile interpolation.
\<close>

section \<open>Grouping\<close>

definition first_keys :: "'a list \<Rightarrow> 'a list" where
  "first_keys xs = rev (remdups (rev xs))"

lemma first_keys_simps [simp]:
  "first_keys [] = []" "first_keys (xs @ [x]) = (if x \<in> set xs then first_keys xs else first_keys xs @ [x])"
  "set (first_keys xs) = set xs" "distinct (first_keys xs)"
  by (simp_all add: first_keys_def)

text \<open>The rows of one key, and the labels its group gets: those of its first row.\<close>

definition rows_of :: "QueryEnv \<Rightarrow> string list \<Rightarrow> QueryResult list \<Rightarrow> string \<Rightarrow> QueryResult list" where
  "rows_of env by_labels rows k = filter (\<lambda>r. group_key env by_labels r = k) rows"

definition labels_of :: "QueryEnv \<Rightarrow> string list \<Rightarrow> QueryResult list \<Rightarrow> string \<Rightarrow> (string \<times> string) list" where
  "labels_of env by_labels rows k = group_labels env by_labels (hd (rows_of env by_labels rows k))"

definition keys_of :: "QueryEnv \<Rightarrow> string list \<Rightarrow> QueryResult list \<Rightarrow> string list" where
  "keys_of env by_labels rows = first_keys (map (group_key env by_labels) rows)"

lemma rows_of_empty: "rows_of env b rows k = [] \<longleftrightarrow> k \<notin> set (keys_of env b rows)"
  by (auto simp: rows_of_def keys_of_def filter_empty_conv)

lemma map_of_map_key: "map_of (map (\<lambda>k. (k, f k)) ks) k = (if k \<in> set ks then Some (f k) else None)"
  by (induction ks) auto

lemma update_map_key:
  "distinct ks \<Longrightarrow> AList.update k v (map (\<lambda>k. (k, f k)) ks)
     = map (\<lambda>j. (j, if j = k then v else f j)) (if k \<in> set ks then ks else ks @ [k])"
  by (induction ks) auto

lemma group_loop:
  "foldl (group_step env b) ([], []) rows
     = (map (\<lambda>k. (k, rows_of env b rows k)) (keys_of env b rows), map (\<lambda>k. (k, labels_of env b rows k)) (keys_of env b rows))"
proof (induction rows rule: rev_induct)
  case Nil
  then show ?case by (simp add: keys_of_def)
next
  case (snoc r rows)
  define k where "k = group_key env b r"
  define ks where "ks = keys_of env b rows"
  have ks: "distinct ks" "keys_of env b (rows @ [r]) = (if k \<in> set ks then ks else ks @ [k])"
    by (auto simp: ks_def keys_of_def k_def)
  have rows: "rows_of env b (rows @ [r]) j = rows_of env b rows j @ (if j = k then [r] else [])" for j
    by (simp add: rows_of_def k_def)
  have old: "(case map_of (map (\<lambda>k. (k, rows_of env b rows k)) ks) k of None \<Rightarrow> [] | Some g \<Rightarrow> g) = rows_of env b rows k"
    using rows_of_empty [of env b rows k] by (auto simp: map_of_map_key ks_def)
  have labels: "labels_of env b (rows @ [r]) j = (if j = k \<and> k \<notin> set ks then group_labels env b r else labels_of env b rows j)"
    if "j \<in> set (keys_of env b (rows @ [r]))" for j
    using that rows_of_empty [of env b rows j] by (auto simp: labels_of_def rows ks ks_def split: if_splits)
  have "AList.update k (rows_of env b rows k @ [r]) (map (\<lambda>k. (k, rows_of env b rows k)) ks)
      = map (\<lambda>k. (k, rows_of env b (rows @ [r]) k)) (keys_of env b (rows @ [r]))"
    unfolding update_map_key [OF ks(1)] ks(2) rows by simp
  moreover have "(if map_of (map (\<lambda>k. (k, labels_of env b rows k)) ks) k \<noteq> None then map (\<lambda>k. (k, labels_of env b rows k)) ks
       else AList.update k (group_labels env b r) (map (\<lambda>k. (k, labels_of env b rows k)) ks))
      = map (\<lambda>k. (k, labels_of env b (rows @ [r]) k)) (keys_of env b (rows @ [r]))"
    using labels by (simp add: map_of_map_key update_map_key ks)
  ultimately show ?case
    by (simp add: snoc) (simp add: group_step_def Let_def old flip: k_def ks_def)
qed

lemma aggregate_groups_cong:
  "\<forall>(k, g) \<in> set gs. l k = l' k \<Longrightarrow> aggregate_groups f l gs = aggregate_groups f l' gs"
  by (induction gs) (auto split: sum.split)

lemma groupAndAggregate_eq:
  "groupAndAggregate env rows b f
     = aggregate_groups f (labels_of env b rows) (map (\<lambda>k. (k, rows_of env b rows k)) (keys_of env b rows))"
  unfolding groupAndAggregate_def group_loop
  by (simp add: map_of_map_key) (rule aggregate_groups_cong, auto)

lemma mset_rows_of: "distinct ks \<Longrightarrow> group_key env b ` set rows \<subseteq> set ks \<Longrightarrow>
    mset (concat (map (rows_of env b rows) ks)) = mset rows"
proof (induction rows)
  case Nil
  then show ?case by (simp add: rows_of_def)
next
  case (Cons r rows)
  define k where "k = group_key env b r"
  have "mset (concat (map (rows_of env b (r # rows)) ks))
      = mset (concat (map (rows_of env b rows) ks)) + (if k \<in> set ks then {#r#} else {#})"
    using Cons.prems(1) by (induction ks) (auto simp: rows_of_def k_def)
  then show ?case using Cons by (simp add: k_def)
qed

text \<open>
  Grouping partitions.  An aggregation over labels applies the function to the rows of each distinct key,
  in their order, once per key and in the order the keys first occur, and labels each result with the grouping
  values of its first row; together the groups contain every row exactly once, so nothing is lost or counted
  twice.  The accumulating loop over two maps computes exactly this.
\<close>
theorem grouping_partitions:
  assumes "Accept env ctx now q = Inr rows" "GetFunction env name = Some f" "b \<noteq> []"
  shows "Accept env ctx now (Aggregation name q b)
      = aggregate_groups f (labels_of env b rows) (map (\<lambda>k. (k, rows_of env b rows k)) (keys_of env b rows))
    \<and> distinct (keys_of env b rows) \<and> set (keys_of env b rows) = group_key env b ` set rows
    \<and> mset (concat (map (rows_of env b rows) (keys_of env b rows))) = mset rows"
  using assms mset_rows_of [of "keys_of env b rows" env b rows] by (simp add: groupAndAggregate_eq keys_of_def)

section \<open>Aggregation functions\<close>

definition numbers :: "QueryEnv \<Rightarrow> QueryResult list \<Rightarrow> real list" where
  "numbers env rows = List.map_filter (\<lambda>r. toFloat64 env (qr_Value r)) rows"

lemma numbers_append [simp]: "numbers env [] = []"
  "numbers env (rows @ [r]) = numbers env rows @ (case toFloat64 env (qr_Value r) of None \<Rightarrow> [] | Some v \<Rightarrow> [v])"
  by (auto simp: numbers_def map_filter_def split: option.split)

lemma sum_loop_numbers:
  "\<exists>ls ts. sum_loop env rows = (sum_list (numbers env rows), length (numbers env rows), ls, ts)"
proof (induction rows rule: rev_induct)
  case (snoc r rows)
  then obtain ls ts where "sum_loop env rows = (sum_list (numbers env rows), length (numbers env rows), ls, ts)" by blast
  then show ?case by (cases "toFloat64 env (qr_Value r)") (simp_all add: sum_loop_def sum_step_def)
qed (simp add: sum_loop_def)

text \<open>A running extremum for a strict order, used for both directions.\<close>

locale strict_order =
  fixes better :: "real \<Rightarrow> real \<Rightarrow> bool"
  assumes irrefl: "\<not> better x x" and trans: "better x y \<Longrightarrow> better y z \<Longrightarrow> better x z"
begin

definition best :: "QueryEnv \<Rightarrow> QueryResult list \<Rightarrow> (real \<times> QueryResult) option \<Rightarrow> bool" where
  "best env rows cur = (case cur of
      None \<Rightarrow> numbers env rows = []
    | Some (m, r) \<Rightarrow> m \<in> set (numbers env rows) \<and> (\<forall>x \<in> set (numbers env rows). \<not> better x m))"

lemma best_step: "best env rows cur \<Longrightarrow> best env (rows @ [r]) (ext_step env better cur r)"
proof (cases "toFloat64 env (qr_Value r)")
  case (Some v)
  assume cur: "best env rows cur"
  have "\<not> better x v" if "cur = Some (m, r')" "x \<in> set (numbers env rows)" "better v m" for x m r'
    using cur that trans [of x v m] by (auto simp: best_def)
  then show ?thesis using cur Some irrefl
    by (cases cur) (auto simp: best_def ext_step_def)
next
  case None
  assume "best env rows cur"
  then show ?thesis using None by (cases cur) (auto simp: best_def ext_step_def)
qed

lemma best_loop: "best env rows (foldl (ext_step env better) None rows)"
  by (induction rows rule: rev_induct) (simp_all add: best_step, simp add: best_def)

lemma extremum_best:
  "if numbers env rows = [] then extremum env better name rows = Inr []
   else (\<exists>r m. extremum env better name rows = Inr [r] \<and> qr_Value r = VFloat m \<and> m \<in> set (numbers env rows)
     \<and> (\<forall>x \<in> set (numbers env rows). \<not> better x m))"
  using best_loop [of env rows] by (auto simp: extremum_def best_def split: option.splits)

end

interpretation least: strict_order "\<lambda>x y. x < y"
  by unfold_locales auto

interpretation greatest: strict_order "\<lambda>x y. x > y"
  by unfold_locales auto

lemma sum_list_bounds:
  fixes xs :: "real list"
  assumes "\<And>x. x \<in> set xs \<Longrightarrow> lo \<le> x \<and> x \<le> hi"
  shows "real (length xs) * lo \<le> sum_list xs \<and> sum_list xs \<le> real (length xs) * hi"
  using assms by (induction xs) (force simp: algebra_simps)+

text \<open>
  Minimum, average and maximum agree.  On the same rows the three functions either all return nothing, namely
  when no row has a numeric value, or return one value each; the minimum and the maximum are attained and bound
  every numeric value, the average is their arithmetic mean and lies between the two, and the sum is the
  average times the number of numeric rows.
\<close>
theorem min_avg_max:
  assumes "rows \<noteq> []"
  shows "if numbers env rows = []
    then minFunction env rows = Inr [] \<and> avgFunction env rows = Inr [] \<and> maxFunction env rows = Inr []
    else (\<exists>lo mean hi rmin ravg rmax rsum. minFunction env rows = Inr [rmin] \<and> qr_Value rmin = VFloat lo
        \<and> avgFunction env rows = Inr [ravg] \<and> qr_Value ravg = VFloat mean
        \<and> maxFunction env rows = Inr [rmax] \<and> qr_Value rmax = VFloat hi
        \<and> sumFunction env rows = Inr [rsum] \<and> qr_Value rsum = VFloat (mean * real (length (numbers env rows)))
        \<and> {lo, hi} \<subseteq> set (numbers env rows) \<and> (\<forall>x \<in> set (numbers env rows). lo \<le> x \<and> x \<le> hi)
        \<and> mean = sum_list (numbers env rows) / real (length (numbers env rows)) \<and> lo \<le> mean \<and> mean \<le> hi)"
proof -
  obtain ls ts where sl: "sum_loop env rows = (sum_list (numbers env rows), length (numbers env rows), ls, ts)"
    using sum_loop_numbers by blast
  show ?thesis
  proof (cases "numbers env rows = []")
    case True
    then show ?thesis using sl assms least.extremum_best [of env rows "''min''"] greatest.extremum_best [of env rows "''max''"]
      by (simp add: minFunction_def maxFunction_def avgFunction_def)
  next
    case False
    obtain rmin lo where lo: "minFunction env rows = Inr [rmin]" "qr_Value rmin = VFloat lo" "lo \<in> set (numbers env rows)"
        "\<forall>x \<in> set (numbers env rows). \<not> x < lo"
      using least.extremum_best [of env rows "''min''"] False unfolding minFunction_def by auto
    obtain rmax hi where hi: "maxFunction env rows = Inr [rmax]" "qr_Value rmax = VFloat hi" "hi \<in> set (numbers env rows)"
        "\<forall>x \<in> set (numbers env rows). \<not> x > hi"
      using greatest.extremum_best [of env rows "''max''"] False unfolding maxFunction_def by auto
    define n where "n = length (numbers env rows)"
    define mean where "mean = sum_list (numbers env rows) / real n"
    have n: "n > 0" using False by (simp add: n_def)
    have b: "\<forall>x \<in> set (numbers env rows). lo \<le> x \<and> x \<le> hi" using lo(4) hi(4) by force
    have "lo \<le> mean" "mean \<le> hi" using sum_list_bounds [of "numbers env rows" lo hi] b n
      by (auto simp: mean_def n_def field_simps)
    moreover have "mean * real n = sum_list (numbers env rows)" using n by (simp add: mean_def)
    ultimately show ?thesis using False lo(1-3) hi(1-3) b sl assms n
      by (simp add: avgFunction_def sumFunction_def mean_def n_def)
  qed
qed

section \<open>Quantiles\<close>

text \<open>Interpolation between neighbours.\<close>

lemma calculateQuantile_between:
  assumes "vs \<noteq> []" "0 \<le> q" "q \<le> 1" "sorted vs"
  defines "x \<equiv> q * real (length vs - 1)"
  shows "nat \<lceil>x\<rceil> < length vs" "nat \<lfloor>x\<rfloor> \<le> nat \<lceil>x\<rceil>" "vs ! nat \<lfloor>x\<rfloor> \<le> calculateQuantile vs q" "calculateQuantile vs q \<le> vs ! nat \<lceil>x\<rceil>"
proof -
  have x: "0 \<le> x" "x \<le> real (length vs - 1)" using assms(2,3) by (simp_all add: x_def mult_left_le_one_le)
  then have "\<lceil>x\<rceil> \<le> int (length vs - 1)" by (simp add: ceiling_le_iff)
  then show up: "nat \<lceil>x\<rceil> < length vs" using assms(1) by (cases vs) auto
  show le: "nat \<lfloor>x\<rfloor> \<le> nat \<lceil>x\<rceil>" by (simp add: floor_le_ceiling nat_mono)
  have m: "vs ! nat \<lfloor>x\<rfloor> \<le> vs ! nat \<lceil>x\<rceil>" using sorted_nth_mono [OF assms(4) le up] .
  define w where "w = x - real (nat \<lfloor>x\<rfloor>)"
  have w: "0 \<le> w" "w \<le> 1" using x(1) by (simp_all add: w_def) linarith+
  define a where "a = vs ! nat \<lfloor>x\<rfloor>"
  define c where "c = vs ! nat \<lceil>x\<rceil>"
  have ac: "a \<le> c" using m by (simp add: a_def c_def)
  have eq: "calculateQuantile vs q = (if nat \<lfloor>x\<rfloor> = nat \<lceil>x\<rceil> then a else a + w * (c - a))"
    using assms(1) unfolding calculateQuantile_def Let_def x_def [symmetric] a_def c_def w_def
    by (simp add: algebra_simps)
  have "0 \<le> w * (c - a)" "w * (c - a) \<le> c - a" using w ac by (simp_all add: mult_left_le_one_le)
  then show "a \<le> calculateQuantile vs q" "calculateQuantile vs q \<le> c" using eq ac by auto
qed

lemma calculateQuantile_formula:
  assumes "vs \<noteq> []"
  defines "x \<equiv> \<lambda>q. q * real (length vs - 1)"
  shows "calculateQuantile vs q = vs ! nat \<lfloor>x q\<rfloor> + (x q - real (nat \<lfloor>x q\<rfloor>)) * (vs ! nat \<lceil>x q\<rceil> - vs ! nat \<lfloor>x q\<rfloor>)"
  using assms(1) unfolding calculateQuantile_def Let_def x_def by (auto simp: algebra_simps)

lemma calculateQuantile_mono:
  assumes "vs \<noteq> []" "0 \<le> p" "p \<le> q" "q \<le> 1" "sorted vs"
  shows "calculateQuantile vs p \<le> calculateQuantile vs q"
proof -
  define x where "x = (\<lambda>q. q * real (length vs - 1))"
  have x: "x p \<le> x q" "0 \<le> x p" using assms by (simp_all add: x_def mult_right_mono)
  have P: "calculateQuantile vs p \<le> vs ! nat \<lceil>x p\<rceil>" and Q: "vs ! nat \<lfloor>x q\<rfloor> \<le> calculateQuantile vs q" "nat \<lceil>x q\<rceil> < length vs" "nat \<lfloor>x q\<rfloor> \<le> nat \<lceil>x q\<rceil>"
    using calculateQuantile_between [of vs p] calculateQuantile_between [of vs q] assms unfolding x_def by auto
  show ?thesis
  proof (cases "\<lceil>x p\<rceil> \<le> \<lfloor>x q\<rfloor>")
    case True
    then have "nat \<lceil>x p\<rceil> \<le> nat \<lfloor>x q\<rfloor>" by (rule nat_mono)
    then have "vs ! nat \<lceil>x p\<rceil> \<le> vs ! nat \<lfloor>x q\<rfloor>" using Q(2,3) sorted_nth_mono [OF assms(5)] by (meson le_less_trans)
    then show ?thesis using P Q(1) by linarith
  next
    case False
    then have fl: "\<lfloor>x q\<rfloor> = \<lfloor>x p\<rfloor>" using floor_mono [OF x(1)] by linarith
    have ce: "\<lceil>x q\<rceil> = \<lceil>x p\<rceil>" using False fl x(1) ceiling_mono [OF x(1)] by (metis ceiling_altdef floor_of_int le_refl nle_le)
    have "vs ! nat \<lfloor>x p\<rfloor> \<le> vs ! nat \<lceil>x p\<rceil>" using Q(2,3) assms(5) unfolding fl [symmetric] ce [symmetric] by (intro sorted_nth_mono) auto
    then have "(x p - real (nat \<lfloor>x p\<rfloor>)) * (vs ! nat \<lceil>x p\<rceil> - vs ! nat \<lfloor>x p\<rfloor>) \<le> (x q - real (nat \<lfloor>x p\<rfloor>)) * (vs ! nat \<lceil>x p\<rceil> - vs ! nat \<lfloor>x p\<rfloor>)"
      using x(1) by (intro mult_right_mono) auto
    moreover have "calculateQuantile vs r = vs ! nat \<lfloor>x r\<rfloor> + (x r - real (nat \<lfloor>x r\<rfloor>)) * (vs ! nat \<lceil>x r\<rceil> - vs ! nat \<lfloor>x r\<rfloor>)" for r
      unfolding x_def by (rule calculateQuantile_formula [OF assms(1)])
    ultimately show ?thesis by (simp add: fl ce)
  qed
qed

lemma calculateQuantile_range:
  assumes "vs \<noteq> []" "0 \<le> q" "q \<le> 1" "sorted vs"
  shows "Min (set vs) \<le> calculateQuantile vs q \<and> calculateQuantile vs q \<le> Max (set vs)"
proof -
  define x where "x = q * real (length vs - 1)"
  note b = calculateQuantile_between [OF assms, folded x_def]
  have "vs ! nat \<lfloor>x\<rfloor> \<in> set vs" "vs ! nat \<lceil>x\<rceil> \<in> set vs" using b(1,2) by auto
  then have "Min (set vs) \<le> vs ! nat \<lfloor>x\<rfloor>" "vs ! nat \<lceil>x\<rceil> \<le> Max (set vs)" by simp_all
  then show ?thesis using b(3,4) by linarith
qed

lemma calculateQuantile_median:
  assumes "length vs = 2 * k + 1"
  shows "calculateQuantile vs (50 / 100) = vs ! k"
proof -
  have "50 / 100 * real (length vs - 1) = real k" using assms by simp
  moreover have "vs \<noteq> []" using assms by auto
  ultimately show ?thesis by (simp add: calculateQuantile_def)
qed

text \<open>
  Quantiles are ordered and in range.  On rows with at least one numeric value the quantile function returns
  four results labelled p50, p90, p95 and p99; they increase in that order, lie between the least and the
  greatest value, and for an odd number of values p50 is the median.  In particular no index of the
  interpolation is out of range.
\<close>
theorem quantiles_ordered:
  assumes "numbers env rows \<noteq> []"
  shows "\<exists>out p50 p90 p95 p99. histogramQuantileFunction env rows = Inr out
    \<and> map (\<lambda>r. map_of (qr_Labels r) ''quantile'') out = [Some ''p50'', Some ''p90'', Some ''p95'', Some ''p99'']
    \<and> map qr_Value out = [VFloat p50, VFloat p90, VFloat p95, VFloat p99]
    \<and> Min (set (numbers env rows)) \<le> p50 \<and> p50 \<le> p90 \<and> p90 \<le> p95 \<and> p95 \<le> p99 \<and> p99 \<le> Max (set (numbers env rows))
    \<and> (\<forall>k. length (numbers env rows) = 2 * k + 1 \<longrightarrow> p50 = sort (numbers env rows) ! k)"
proof -
  define vs where "vs = sort (numbers env rows)"
  have vs: "vs \<noteq> []" "sorted vs" "set vs = set (numbers env rows)" "length vs = length (numbers env rows)"
    using assms by (simp_all add: vs_def flip: length_greater_0_conv)
  have "rows \<noteq> []" using assms by auto
  then obtain r rest where r: "rows = r # rest" by (cases rows) auto
  define out where "out = map (\<lambda>(label, q). \<lparr>qr_Type = qr_Type r, qr_Timestamp = qr_Timestamp r,
      qr_Labels = AList.update ''quantile'' label (qr_Labels r), qr_Value = VFloat (calculateQuantile vs q),
      qr_Data = [(''function'', AnyString ''histogram_quantile'')]\<rparr>) quantiles"
  have eq: "histogramQuantileFunction env rows = Inr out"
    using assms by (simp add: histogramQuantileFunction_def r out_def vs_def numbers_def Let_def)
  have lo: "Min (set vs) \<le> calculateQuantile vs (50 / 100)" and hi: "calculateQuantile vs (99 / 100) \<le> Max (set vs)"
    using calculateQuantile_range [OF vs(1) _ _ vs(2)] by simp_all
  have m: "calculateQuantile vs (50 / 100) \<le> calculateQuantile vs (90 / 100)" "calculateQuantile vs (90 / 100) \<le> calculateQuantile vs (95 / 100)"
      "calculateQuantile vs (95 / 100) \<le> calculateQuantile vs (99 / 100)"
    by (rule calculateQuantile_mono [OF vs(1) _ _ _ vs(2)]; simp)+
  have med: "\<forall>k. length (numbers env rows) = 2 * k + 1 \<longrightarrow> calculateQuantile vs (50 / 100) = vs ! k"
    using calculateQuantile_median vs(4) by simp
  show ?thesis
    unfolding eq vs_def [symmetric]
    by (intro exI [of _ out] exI [of _ "calculateQuantile vs (50 / 100)"] exI [of _ "calculateQuantile vs (90 / 100)"]
        exI [of _ "calculateQuantile vs (95 / 100)"] exI [of _ "calculateQuantile vs (99 / 100)"])
      (use lo hi m med vs(3) in \<open>simp add: out_def quantiles_def\<close>)
qed

section \<open>Intersection\<close>

lemma map_of_fold_update: "map_of (foldl (\<lambda>m r. AList.update (f r) r m) m rs) k \<noteq> None \<longleftrightarrow> k \<in> f ` set rs \<or> map_of m k \<noteq> None"
  by (induction rs arbitrary: m) auto

lemma type_text_inj [simp]: "type_text a = type_text b \<longleftrightarrow> a = b"
  by (cases a; cases b) simp_all

lemma resultKey_eq: "resultKey a = resultKey b \<longleftrightarrow> qr_Type a = qr_Type b \<and> UnixNano (qr_Timestamp a) = UnixNano (qr_Timestamp b)"
  by (cases "qr_Type a"; cases "qr_Type b") (auto simp: resultKey_def)

text \<open>
  Intersection ignores labels.  The operator \<open>and\<close> keeps a row of the left operand exactly when the right one
  has some row of the same kind and timestamp, whatever the labels and values of either row are.
\<close>
theorem and_compares_time_only:
  assumes "Accept env ctx now l = Inr left" "Accept env ctx now r = Inr right"
  shows "Accept env ctx now (BinaryOp l BinaryOpAnd r)
    = Inr (filter (\<lambda>a. \<exists>b \<in> set right. qr_Type b = qr_Type a \<and> UnixNano (qr_Timestamp b) = UnixNano (qr_Timestamp a)) left)"
proof -
  have "intersectResults left right = filter (\<lambda>a. resultKey a \<in> resultKey ` set right) left"
    unfolding intersectResults_def Let_def map_of_fold_update by simp
  also have "\<dots> = filter (\<lambda>a. \<exists>b \<in> set right. qr_Type b = qr_Type a \<and> UnixNano (qr_Timestamp b) = UnixNano (qr_Timestamp a)) left"
    by (rule filter_cong) (auto simp: resultKey_eq image_iff intro: sym)
  finally show ?thesis using assms by simp
qed

section \<open>Concrete rows\<close>

definition cpu :: "gotime \<Rightarrow> string \<Rightarrow> real \<Rightarrow> Metric" where
  "cpu t host v = \<lparr>mt_Timestamp = t, mt_AgentID = ''a1'', mt_Name = ''cpu'', mt_Value = v, mt_ConfigHash = None,
     mt_Labels = [(''host'', host)], mt_Type = ''gauge''\<rparr>"

definition demo_env :: QueryEnv where
  "demo_env = \<lparr>qe_QueryMetrics = (\<lambda>q. Inr [cpu 1 ''x'' 3, cpu 2 ''y'' 5, cpu 3 ''x'' 4]), qe_QueryLogs = (\<lambda>q. Inr []),
     qe_QueryTraces = (\<lambda>q. Inr []), qe_ParseUUID = Some, qe_MatchString = (\<lambda>p v. Some (p = v)), qe_Sprint = (\<lambda>v. ''?''),
     qe_Sscanf = (\<lambda>s. None), qe_SortByTime = sort_key qr_Timestamp\<rparr>"

definition demo_ctx :: ExecutionContext where
  "demo_ctx = \<lparr>ec_StartTime = None, ec_EndTime = None, ec_Limit = 100, ec_AgentID = None, ec_GroupID = None\<rparr>"

definition demo_telemetry :: Query where
  "demo_telemetry = Telemetry \<lparr>tq_Type = TelemetryTypeMetrics, tq_Selectors = [], tq_Duration = 0, tq_StartTime = None,
     tq_EndTime = None, tq_Limit = 1000\<rparr>"

definition demo_rows :: "QueryResult list" where
  "demo_rows = map metric_result [cpu 1 ''x'' 3, cpu 2 ''y'' 5, cpu 3 ''x'' 4]"

lemma demo_accept: "Accept demo_env demo_ctx now demo_telemetry = Inr demo_rows"
  by (simp add: demo_telemetry_def VisitTelemetryQuery_def getTimeRange_def demo_ctx_def executeMetricsQuery_def demo_env_def
      demo_rows_def matchesSelectors_def)

lemma demo_numbers: "numbers demo_env demo_rows = [3, 5, 4]"
  by (simp add: demo_rows_def metric_result_def cpu_def numbers_def toFloat64_def map_filter_def)

lemma demo_groups: "rows_of demo_env [''host''] demo_rows ''x'' = map metric_result [cpu 1 ''x'' 3, cpu 3 ''x'' 4]"
  "keys_of demo_env [''host''] demo_rows = [''x'', ''y'']"
  by (simp_all add: rows_of_def keys_of_def group_key_def group_value_def demo_rows_def metric_result_def cpu_def first_keys_def)

theorem grouping_partitions_witness:
  "\<exists>f. GetFunction demo_env ''count'' = Some f
     \<and> Accept demo_env demo_ctx 9 (Aggregation ''count'' demo_telemetry [''host''])
       = aggregate_groups f (labels_of demo_env [''host''] demo_rows)
           [(''x'', map metric_result [cpu 1 ''x'' 3, cpu 3 ''x'' 4]), (''y'', rows_of demo_env [''host''] demo_rows ''y'')]"
proof -
  have f: "GetFunction demo_env ''count'' = Some countFunction" by (simp add: GetFunction_def)
  show ?thesis using grouping_partitions [OF demo_accept f, of "[''host'']" 9] f by (simp add: demo_groups)
qed

theorem min_avg_max_witness: "\<exists>r. minFunction demo_env demo_rows = Inr [r] \<and> (\<exists>lo. qr_Value r = VFloat lo \<and> lo \<le> 3)"
proof -
  have "demo_rows \<noteq> []" by (simp add: demo_rows_def)
  from min_avg_max [OF this, of demo_env] show ?thesis by (auto simp: demo_numbers)
qed

theorem quantiles_ordered_witness:
  "\<exists>out. histogramQuantileFunction demo_env demo_rows = Inr out \<and> length out = 4 \<and> qr_Value (hd out) = VFloat 4"
proof -
  have "numbers demo_env demo_rows \<noteq> []" by (simp add: demo_numbers)
  from quantiles_ordered [OF this] obtain out p50 p90 p95 p99 where out: "histogramQuantileFunction demo_env demo_rows = Inr out"
    "map qr_Value out = [VFloat p50, VFloat p90, VFloat p95, VFloat p99]"
    "\<forall>k. length (numbers demo_env demo_rows) = 2 * k + 1 \<longrightarrow> p50 = sort (numbers demo_env demo_rows) ! k" by metis
  have "p50 = 4" using out(3) [rule_format, of 1] by (simp add: demo_numbers)
  then show ?thesis using out(1,2) by (cases out) auto
qed

theorem and_compares_time_only_witness:
  "Accept demo_env demo_ctx 9 (BinaryOp demo_telemetry BinaryOpAnd demo_telemetry) = Inr demo_rows"
  using and_compares_time_only [OF demo_accept demo_accept, of 9] by (simp add: filter_id_conv) blast

end
