(* ===== verification/Alerting.thy ===== *)
theory Alerting
  imports Query_Results Action_Dispatch
begin

text \<open>
  Alert rules: the service of \<open>services/alert_service_impl.go\<close> over the rule table of the in-memory store, the
  handlers of \<open>api/handlers/alerts.go\<close> and the evaluator of \<open>alerting/alerting.go\<close>, which parses and executes
  each rule's query.  A Go panic inside the evaluator, which no handler recovers, is the outcome \<open>None\<close>.
  The stored and the service record have the same fields and are one record here.
\<close>

section \<open>Rules\<close>

record AlertRule =
  ar_ID :: string
  ar_Name :: string
  ar_Description :: string
  ar_Query :: string
  ar_ThresholdOperator :: string
  ar_ThresholdValue :: real
  ar_IntervalSeconds :: int
  ar_Severity :: string
  ar_Enabled :: bool
  ar_WebhookURL :: string
  ar_CreatedAt :: gotime
  ar_UpdatedAt :: gotime

record AlertRuleInput =
  ai_Name :: string
  ai_Description :: string
  ai_Query :: string
  ai_ThresholdOperator :: string
  ai_ThresholdValue :: real
  ai_IntervalSeconds :: int
  ai_Severity :: string
  ai_Enabled :: bool
  ai_WebhookURL :: string

record NotificationPayload =
  np_RuleID :: string
  np_RuleName :: string
  np_State :: string
  np_Severity :: string
  np_Description :: string
  np_Query :: string
  np_Value :: real
  np_ThresholdOperator :: string
  np_ThresholdValue :: real
  np_At :: gotime

record AlertEvent =
  ev_Type :: string
  ev_At :: gotime
  ev_RuleID :: string
  ev_RuleName :: string
  ev_Severity :: string
  ev_Value :: real

text \<open>The rule table, the evaluator's maps, what it sent through each channel, and the audited world.\<close>

record AlertState =
  al_rules :: "(string \<times> AlertRule) list"
  al_firing :: "(string \<times> bool) list"
  al_lastEval :: "(string \<times> gotime) list"
  al_log :: "NotificationPayload list"
  al_webhooks :: "(string \<times> NotificationPayload) list"
  al_events :: "AlertEvent list"
  al_world :: World

record AlertEnv =
  av_env :: Env
  av_query :: QueryEnv

datatype alert_error =
    AlertFieldRequired string
  | InvalidThresholdOperator string
  | IntervalNotPositive
  | InvalidSeverity string
  | AlertRuleExists string
  | AlertRuleNotFound string

fun alert_error_text :: "Env \<Rightarrow> alert_error \<Rightarrow> string" where
  "alert_error_text env (AlertFieldRequired f) = f @ '' is required''"
| "alert_error_text env (InvalidThresholdOperator op) = ''invalid threshold_operator '' @ env_quote env op"
| "alert_error_text env IntervalNotPositive = ''interval_seconds must be positive''"
| "alert_error_text env (InvalidSeverity s) = ''invalid severity '' @ env_quote env s"
| "alert_error_text env (AlertRuleExists i) = ''failed to create alert rule: alert rule already exists: '' @ i"
| "alert_error_text env (AlertRuleNotFound i) = ''alert rule not found: '' @ i"

section \<open>The rule table (memory store)\<close>

definition store_CreateAlertRule :: "AlertRule \<Rightarrow> (string \<times> AlertRule) list \<Rightarrow> alert_error + (string \<times> AlertRule) list" where
  "store_CreateAlertRule r rules =
     (if map_of rules (ar_ID r) \<noteq> None then Inl (AlertRuleExists (ar_ID r)) else Inr (AList.update (ar_ID r) r rules))"

definition store_GetAlertRule :: "string \<Rightarrow> (string \<times> AlertRule) list \<Rightarrow> AlertRule option" where
  "store_GetAlertRule i rules = map_of rules i"

definition store_ListAlertRules :: "(string \<times> AlertRule) list \<Rightarrow> AlertRule list" where
  "store_ListAlertRules rules = map snd rules"

definition store_UpdateAlertRule :: "AlertRule \<Rightarrow> (string \<times> AlertRule) list \<Rightarrow> alert_error + (string \<times> AlertRule) list" where
  "store_UpdateAlertRule r rules =
     (if map_of rules (ar_ID r) = None then Inl (AlertRuleNotFound (ar_ID r)) else Inr (AList.update (ar_ID r) r rules))"

definition store_DeleteAlertRule :: "string \<Rightarrow> (string \<times> AlertRule) list \<Rightarrow> alert_error + (string \<times> AlertRule) list" where
  "store_DeleteAlertRule i rules = (if map_of rules i = None then Inl (AlertRuleNotFound i) else Inr (AList.delete i rules))"

section \<open>The service\<close>

definition threshold_operators :: "string list" where
  "threshold_operators = [''>'', ''>='', ''<'', ''<='', ''=='', ''!='']"

definition alert_severities :: "string list" where
  "alert_severities = [''info'', ''warning'', ''critical'']"

definition validateAlertInput :: "AlertRuleInput \<Rightarrow> alert_error option" where
  "validateAlertInput input =
     (if ai_Name input = [] then Some (AlertFieldRequired ''name'')
      else if ai_Query input = [] then Some (AlertFieldRequired ''query'')
      else if ai_ThresholdOperator input \<notin> set threshold_operators then Some (InvalidThresholdOperator (ai_ThresholdOperator input))
      else if ai_IntervalSeconds input \<le> 0 then Some IntervalNotPositive
      else if ai_Severity input \<notin> set alert_severities then Some (InvalidSeverity (ai_Severity input))
      else None)"

definition rule_of :: "string \<Rightarrow> AlertRuleInput \<Rightarrow> gotime \<Rightarrow> gotime \<Rightarrow> AlertRule" where
  "rule_of i input created updated =
     \<lparr>ar_ID = i, ar_Name = ai_Name input, ar_Description = ai_Description input, ar_Query = ai_Query input,
      ar_ThresholdOperator = ai_ThresholdOperator input, ar_ThresholdValue = ai_ThresholdValue input,
      ar_IntervalSeconds = ai_IntervalSeconds input, ar_Severity = ai_Severity input, ar_Enabled = ai_Enabled input,
      ar_WebhookURL = ai_WebhookURL input, ar_CreatedAt = created, ar_UpdatedAt = updated\<rparr>"

definition CreateAlertRule :: "AlertEnv \<Rightarrow> gotime \<Rightarrow> AlertRuleInput \<Rightarrow> AlertState \<Rightarrow> (alert_error + AlertRule) \<times> AlertState" where
  "CreateAlertRule aenv now input s =
     (case validateAlertInput input of
        Some e \<Rightarrow> (Inl e, s)
      | None \<Rightarrow>
          let (uuid, w) = fresh_uuid (av_env aenv) (al_world s);
              r = rule_of uuid input now now; s1 = s\<lparr>al_world := w\<rparr>
          in (case store_CreateAlertRule r (al_rules s) of
                Inl e \<Rightarrow> (Inl e, s1)
              | Inr rules \<Rightarrow> (Inr r, s1\<lparr>al_rules := rules\<rparr>)))"

definition UpdateAlertRule :: "gotime \<Rightarrow> string \<Rightarrow> AlertRuleInput \<Rightarrow> AlertState \<Rightarrow> (alert_error + AlertRule) \<times> AlertState" where
  "UpdateAlertRule now i input s =
     (case validateAlertInput input of
        Some e \<Rightarrow> (Inl e, s)
      | None \<Rightarrow>
          (case store_GetAlertRule i (al_rules s) of
             None \<Rightarrow> (Inl (AlertRuleNotFound i), s)
           | Some existing \<Rightarrow>
               let updated = rule_of i input (ar_CreatedAt existing) now in
               (case store_UpdateAlertRule updated (al_rules s) of
                  Inl e \<Rightarrow> (Inl e, s)
                | Inr rules \<Rightarrow> (Inr updated, s\<lparr>al_rules := rules\<rparr>))))"

definition DeleteAlertRule :: "string \<Rightarrow> AlertState \<Rightarrow> alert_error option \<times> AlertState" where
  "DeleteAlertRule i s =
     (case store_DeleteAlertRule i (al_rules s) of
        Inl e \<Rightarrow> (Some e, s)
      | Inr rules \<Rightarrow> (None, s\<lparr>al_rules := rules\<rparr>))"

section \<open>The handlers\<close>

definition isNotFoundError :: "string \<Rightarrow> bool" where
  "isNotFoundError msg \<longleftrightarrow> sublist ''not found'' msg \<or> sublist ''no such'' msg"

definition isValidationError :: "string \<Rightarrow> bool" where
  "isValidationError msg \<longleftrightarrow> sublist ''is required'' msg \<or> sublist ''invalid'' msg \<or> sublist ''must be'' msg"

text \<open>The body is \<open>None\<close> when it is not the expected JSON.\<close>

definition HandleCreateAlertRule ::
  "AlertEnv \<Rightarrow> gotime \<Rightarrow> AlertRuleInput option \<Rightarrow> AlertState \<Rightarrow> AlertRule http_reply \<times> AlertState" where
  "HandleCreateAlertRule aenv now body s =
     (case body of
        None \<Rightarrow> (BadRequest ''invalid JSON body'' [], s)
      | Some input \<Rightarrow>
          (case CreateAlertRule aenv now input s of
             (Inr r, s') \<Rightarrow> (StatusOK r, s')
           | (Inl e, s') \<Rightarrow>
               if isValidationError (alert_error_text (av_env aenv) e)
               then (BadRequest (alert_error_text (av_env aenv) e) [], s')
               else (InternalServerError ''failed to create alert rule'', s')))"

definition HandleUpdateAlertRule ::
  "AlertEnv \<Rightarrow> gotime \<Rightarrow> string \<Rightarrow> AlertRuleInput option \<Rightarrow> AlertState \<Rightarrow> AlertRule http_reply \<times> AlertState" where
  "HandleUpdateAlertRule aenv now i body s =
     (case body of
        None \<Rightarrow> (BadRequest ''invalid JSON body'' [], s)
      | Some input \<Rightarrow>
          (case UpdateAlertRule now i input s of
             (Inr r, s') \<Rightarrow> (StatusOK r, s')
           | (Inl e, s') \<Rightarrow>
               if isNotFoundError (alert_error_text (av_env aenv) e) then (NotFound ''alert rule not found'', s')
               else if isValidationError (alert_error_text (av_env aenv) e)
               then (BadRequest (alert_error_text (av_env aenv) e) [], s')
               else (InternalServerError ''failed to update alert rule'', s')))"

definition HandleDeleteAlertRule :: "AlertEnv \<Rightarrow> string \<Rightarrow> AlertState \<Rightarrow> unit http_reply \<times> AlertState" where
  "HandleDeleteAlertRule aenv i s =
     (case DeleteAlertRule i s of
        (None, s') \<Rightarrow> (StatusOK (), s')
      | (Some e, s') \<Rightarrow>
          if isNotFoundError (alert_error_text (av_env aenv) e) then (NotFound ''alert rule not found'', s')
          else (InternalServerError ''failed to delete alert rule'', s'))"

section \<open>The evaluator\<close>

datatype scalar_error = ParseError parse_error | ExecuteError exec_error

definition alert_context :: "gotime \<Rightarrow> ExecutionContext" where
  "alert_context now = \<lparr>ec_StartTime = Some (now - 5 * minute), ec_EndTime = Some now, ec_Limit = 10000,
     ec_AgentID = None, ec_GroupID = None\<rparr>"

definition queryScalar :: "QueryEnv \<Rightarrow> gotime \<Rightarrow> string \<Rightarrow> (scalar_error + real) option" where
  "queryScalar qenv now q =
     (case Parse q of
        Some (Fail e) \<Rightarrow> Some (Inl (ParseError e))
      | Some (Ret parsed) \<Rightarrow>
          (case Execute qenv (alert_context now) now 0 parsed of
             Inl e \<Rightarrow> Some (Inl (ExecuteError e))
           | Inr (results, _) \<Rightarrow> Some (Inr (real (length results))))
      | _ \<Rightarrow> None)"

definition compareThreshold :: "real \<Rightarrow> string \<Rightarrow> real \<Rightarrow> bool" where
  "compareThreshold v op threshold =
     (if op = ''>'' then v > threshold else if op = ''>='' then v \<ge> threshold
      else if op = ''<'' then v < threshold else if op = ''<='' then v \<le> threshold
      else if op = ''=='' then v = threshold else if op = ''!='' then v \<noteq> threshold else False)"

definition notification :: "AlertRule \<Rightarrow> real \<Rightarrow> string \<Rightarrow> gotime \<Rightarrow> NotificationPayload" where
  "notification r v state now =
     \<lparr>np_RuleID = ar_ID r, np_RuleName = ar_Name r, np_State = state, np_Severity = ar_Severity r,
      np_Description = ar_Description r, np_Query = ar_Query r, np_Value = v,
      np_ThresholdOperator = ar_ThresholdOperator r, np_ThresholdValue = ar_ThresholdValue r, np_At = now\<rparr>"

text \<open>The webhook's response only feeds metrics; what is recorded here is the attempt.\<close>

definition alert_dispatch :: "AlertRule \<Rightarrow> real \<Rightarrow> string \<Rightarrow> gotime \<Rightarrow> AlertState \<Rightarrow> AlertState" where
  "alert_dispatch r v state now s =
     (let p = notification r v state now; s1 = s\<lparr>al_log := al_log s @ [p]\<rparr>
      in if ar_WebhookURL r \<noteq> [] then s1\<lparr>al_webhooks := al_webhooks s1 @ [(ar_WebhookURL r, p)]\<rparr> else s1)"

definition publishEvent :: "AlertEnv \<Rightarrow> string \<Rightarrow> AlertRule \<Rightarrow> real \<Rightarrow> gotime \<Rightarrow> AlertState \<Rightarrow> AlertState" where
  "publishEvent aenv t r v now s =
     (if \<not> env_broker (av_env aenv) then s
      else s\<lparr>al_events := al_events s @ [\<lparr>ev_Type = t, ev_At = now, ev_RuleID = ar_ID r, ev_RuleName = ar_Name r,
             ev_Severity = ar_Severity r, ev_Value = v\<rparr>]\<rparr>)"

definition alert_recordAudit :: "AlertEnv \<Rightarrow> gotime \<Rightarrow> AlertRule \<Rightarrow> real \<Rightarrow> string \<Rightarrow> string \<Rightarrow> AlertState \<Rightarrow> AlertState" where
  "alert_recordAudit aenv now r v eventType action s =
     s\<lparr>al_world := audit (av_env aenv) now background_ctx
         \<lparr>en_Actor = AuditActorSystem, en_EventType = eventType, en_TargetType = ''rule'', en_TargetID = ar_ID r,
          en_Action = action, en_Payload = Some [(''rule_name'', JStr (ar_Name r)), (''severity'', JStr (ar_Severity r)),
            (''value'', JReal v)]\<rparr> (al_world s)\<rparr>"

definition is_firing :: "AlertState \<Rightarrow> string \<Rightarrow> bool" where
  "is_firing s i = (map_of (al_firing s) i = Some True)"

definition evaluateRule :: "AlertEnv \<Rightarrow> gotime \<Rightarrow> AlertRule \<Rightarrow> AlertState \<Rightarrow> AlertState option" where
  "evaluateRule aenv now r s =
     (case queryScalar (av_query aenv) now (ar_Query r) of
        None \<Rightarrow> None
      | Some (Inl _) \<Rightarrow> Some s
      | Some (Inr v) \<Rightarrow>
          let shouldFire = compareThreshold v (ar_ThresholdOperator r) (ar_ThresholdValue r);
              wasFiring = is_firing s (ar_ID r);
              s1 = s\<lparr>al_firing := AList.update (ar_ID r) shouldFire (al_firing s)\<rparr>
          in Some (
            if shouldFire \<and> \<not> wasFiring then
              alert_recordAudit aenv now r v ''alert.fired'' ''fired''
                (publishEvent aenv ''alert_fired'' r v now (alert_dispatch r v ''firing'' now s1))
            else if \<not> shouldFire \<and> wasFiring then
              alert_recordAudit aenv now r v ''alert.resolved'' ''resolved''
                (publishEvent aenv ''alert_resolved'' r v now (alert_dispatch r v ''resolved'' now s1))
            else s1))"

text \<open>A rule is due when it is enabled and was never evaluated or its interval has elapsed.\<close>

definition due :: "gotime \<Rightarrow> AlertRule \<Rightarrow> AlertState \<Rightarrow> bool" where
  "due now r s \<longleftrightarrow> ar_Enabled r \<and>
     (let lst = (case map_of (al_lastEval s) (ar_ID r) of None \<Rightarrow> 0 | Some t \<Rightarrow> t)
      in \<not> (\<not> IsZero lst \<and> Sub now lst < int64 (ar_IntervalSeconds r * second)))"

definition tick_rule :: "AlertEnv \<Rightarrow> gotime \<Rightarrow> AlertRule \<Rightarrow> AlertState \<Rightarrow> AlertState option" where
  "tick_rule aenv now r s =
     (if \<not> due now r s then Some s
      else map_option (\<lambda>s'. s'\<lparr>al_lastEval := AList.update (ar_ID r) now (al_lastEval s')\<rparr>) (evaluateRule aenv now r s))"

fun tick_rules :: "AlertEnv \<Rightarrow> gotime \<Rightarrow> AlertRule list \<Rightarrow> AlertState \<Rightarrow> AlertState option" where
  "tick_rules aenv now [] s = Some s"
| "tick_rules aenv now (r # rs) s = Option.bind (tick_rule aenv now r s) (tick_rules aenv now rs)"

definition alert_tick :: "AlertEnv \<Rightarrow> gotime \<Rightarrow> AlertState \<Rightarrow> AlertState option" where
  "alert_tick aenv now s = tick_rules aenv now (store_ListAlertRules (al_rules s)) s"

end
