(* ===== verification/Alert_Behaviour.thy ===== *)
theory Alert_Behaviour
  imports Alerting
begin

text \<open>
  Properties of alerting: what one tick notifies, the alternation of notifications over any history, what is
  known of the stored rules, and two consequences of how the evaluator uses the query language.
\<close>

section \<open>One evaluation\<close>

lemma alert_channel_simps [simp]:
  "al_rules (alert_dispatch r v st now s) = al_rules s" "al_firing (alert_dispatch r v st now s) = al_firing s"
  "al_lastEval (alert_dispatch r v st now s) = al_lastEval s"
  "al_log (alert_dispatch r v st now s) = al_log s @ [notification r v st now]"
  "al_rules (publishEvent aenv t r v now s) = al_rules s" "al_firing (publishEvent aenv t r v now s) = al_firing s"
  "al_lastEval (publishEvent aenv t r v now s) = al_lastEval s" "al_log (publishEvent aenv t r v now s) = al_log s"
  "al_rules (alert_recordAudit aenv now r v t a s) = al_rules s" "al_firing (alert_recordAudit aenv now r v t a s) = al_firing s"
  "al_lastEval (alert_recordAudit aenv now r v t a s) = al_lastEval s" "al_log (alert_recordAudit aenv now r v t a s) = al_log s"
  by (simp_all add: alert_dispatch_def publishEvent_def alert_recordAudit_def Let_def)

lemma notification_simps [simp]: "np_RuleID (notification r v st now) = ar_ID r" "np_State (notification r v st now) = st"
  by (simp_all add: notification_def)

text \<open>What the rule's condition evaluates to, when its query succeeds.\<close>

definition condition :: "AlertEnv \<Rightarrow> gotime \<Rightarrow> AlertRule \<Rightarrow> bool option" where
  "condition aenv now r =
     (case queryScalar (av_query aenv) now (ar_Query r) of
        Some (Inr v) \<Rightarrow> Some (compareThreshold v (ar_ThresholdOperator r) (ar_ThresholdValue r))
      | _ \<Rightarrow> None)"

definition state_name :: "bool \<Rightarrow> string" where
  "state_name b = (if b then ''firing'' else ''resolved'')"

text \<open>The abstract evaluator: a level per rule, and a message whenever the level changes.\<close>

definition level_after :: "AlertEnv \<Rightarrow> gotime \<Rightarrow> AlertRule \<Rightarrow> AlertState \<Rightarrow> bool" where
  "level_after aenv now r s =
     (if due now r s then (case condition aenv now r of None \<Rightarrow> is_firing s (ar_ID r) | Some c \<Rightarrow> c) else is_firing s (ar_ID r))"

lemma tick_rule_effect:
  assumes "tick_rule aenv now r s = Some s'"
  shows "al_rules s' = al_rules s"
    and "\<And>i. is_firing s' i = (if i = ar_ID r then level_after aenv now r s else is_firing s i)"
    and "\<And>i. i \<noteq> ar_ID r \<Longrightarrow> map_of (al_lastEval s') i = map_of (al_lastEval s) i"
    and "\<exists>new. al_log s' = al_log s @ new \<and> map (\<lambda>p. (np_RuleID p, np_State p)) new
      = (if level_after aenv now r s \<noteq> is_firing s (ar_ID r) then [(ar_ID r, state_name (level_after aenv now r s))] else [])"
proof -
  have "al_rules s' = al_rules s \<and> (\<forall>i. is_firing s' i = (if i = ar_ID r then level_after aenv now r s else is_firing s i))
    \<and> (\<forall>i. i \<noteq> ar_ID r \<longrightarrow> map_of (al_lastEval s') i = map_of (al_lastEval s) i)
    \<and> (\<exists>new. al_log s' = al_log s @ new \<and> map (\<lambda>p. (np_RuleID p, np_State p)) new
      = (if level_after aenv now r s \<noteq> is_firing s (ar_ID r) then [(ar_ID r, state_name (level_after aenv now r s))] else []))"
  proof (cases "due now r s")
    case False
    then show ?thesis using assms by (simp add: tick_rule_def level_after_def)
  next
    case True
    then obtain s1 where s1: "evaluateRule aenv now r s = Some s1" "s' = s1\<lparr>al_lastEval := AList.update (ar_ID r) now (al_lastEval s1)\<rparr>"
      using assms by (auto simp: tick_rule_def)
    show ?thesis
    proof (cases "queryScalar (av_query aenv) now (ar_Query r)")
      case None
      then show ?thesis using s1(1) by (simp add: evaluateRule_def)
    next
      case (Some x)
      show ?thesis
      proof (cases x)
        case (Inl e)
        then show ?thesis using Some s1 True by (simp add: evaluateRule_def level_after_def condition_def is_firing_def)
      next
        case (Inr v)
        define c where "c = compareThreshold v (ar_ThresholdOperator r) (ar_ThresholdValue r)"
        have lv: "level_after aenv now r s = c" using True Some Inr by (simp add: level_after_def condition_def c_def)
        show ?thesis unfolding lv using s1 Some Inr
          by (cases c; cases "is_firing s (ar_ID r)") (auto simp: evaluateRule_def Let_def is_firing_def state_name_def simp flip: c_def)
      qed
    qed
  qed
  then show "al_rules s' = al_rules s" "\<And>i. is_firing s' i = (if i = ar_ID r then level_after aenv now r s else is_firing s i)"
    "\<And>i. i \<noteq> ar_ID r \<Longrightarrow> map_of (al_lastEval s') i = map_of (al_lastEval s) i"
    "\<exists>new. al_log s' = al_log s @ new \<and> map (\<lambda>p. (np_RuleID p, np_State p)) new
      = (if level_after aenv now r s \<noteq> is_firing s (ar_ID r) then [(ar_ID r, state_name (level_after aenv now r s))] else [])"
    by blast+
qed

lemma level_after_frame:
  assumes "tick_rule aenv now r s = Some s'" "ar_ID q \<noteq> ar_ID r"
  shows "level_after aenv now q s' = level_after aenv now q s" "is_firing s' (ar_ID q) = is_firing s (ar_ID q)" "due now q s' = due now q s"
proof -
  show b: "is_firing s' (ar_ID q) = is_firing s (ar_ID q)" using tick_rule_effect(2) [OF assms(1), of "ar_ID q"] assms(2) by simp
  show d: "due now q s' = due now q s" using tick_rule_effect(3) [OF assms(1,2)] by (simp add: due_def)
  show "level_after aenv now q s' = level_after aenv now q s" by (simp only: level_after_def b d)
qed

section \<open>A whole tick\<close>

text \<open>The messages of a tick: the rules whose level changes, in table order, with their new level.\<close>

definition changes :: "AlertEnv \<Rightarrow> gotime \<Rightarrow> AlertRule list \<Rightarrow> AlertState \<Rightarrow> (string \<times> string) list" where
  "changes aenv now rs s =
     map (\<lambda>r. (ar_ID r, state_name (level_after aenv now r s))) (filter (\<lambda>r. level_after aenv now r s \<noteq> is_firing s (ar_ID r)) rs)"

lemma tick_rules_effect:
  assumes "tick_rules aenv now rs s = Some s'" "distinct (map ar_ID rs)"
  shows "al_rules s' = al_rules s \<and> (\<forall>r \<in> set rs. is_firing s' (ar_ID r) = level_after aenv now r s)
    \<and> (\<forall>i. i \<notin> ar_ID ` set rs \<longrightarrow> is_firing s' i = is_firing s i)
    \<and> (\<exists>new. al_log s' = al_log s @ new \<and> map (\<lambda>p. (np_RuleID p, np_State p)) new = changes aenv now rs s)"
  using assms
proof (induction rs arbitrary: s)
  case Nil
  then show ?case by (simp add: changes_def)
next
  case (Cons r rs)
  obtain s1 where s1: "tick_rule aenv now r s = Some s1" "tick_rules aenv now rs s1 = Some s'"
    using Cons.prems(1) by (auto split: bind_splits)
  note e = tick_rule_effect [OF s1(1)]
  have ne: "ar_ID q \<noteq> ar_ID r" if "q \<in> set rs" for q using that Cons.prems(2) by (auto simp: rev_image_eqI)
  have lv: "level_after aenv now q s1 = level_after aenv now q s" "is_firing s1 (ar_ID q) = is_firing s (ar_ID q)" if "q \<in> set rs" for q
    using level_after_frame [OF s1(1) ne [OF that]] by simp_all
  have ch: "changes aenv now rs s1 = changes aenv now rs s"
    unfolding changes_def using lv by (auto intro!: map_cong filter_cong)
  have ih: "al_rules s' = al_rules s1" "\<forall>q \<in> set rs. is_firing s' (ar_ID q) = level_after aenv now q s1"
      "\<forall>i. i \<notin> ar_ID ` set rs \<longrightarrow> is_firing s' i = is_firing s1 i"
      "\<exists>new. al_log s' = al_log s1 @ new \<and> map (\<lambda>p. (np_RuleID p, np_State p)) new = changes aenv now rs s1"
    using Cons.IH [OF s1(2)] Cons.prems(2) by auto
  obtain n1 n2 where n: "al_log s1 = al_log s @ n1" "al_log s' = al_log s1 @ n2"
      "map (\<lambda>p. (np_RuleID p, np_State p)) n1 = (if level_after aenv now r s \<noteq> is_firing s (ar_ID r) then [(ar_ID r, state_name (level_after aenv now r s))] else [])"
      "map (\<lambda>p. (np_RuleID p, np_State p)) n2 = changes aenv now rs s1"
    using e(4) ih(4) by blast
  have "\<exists>new. al_log s' = al_log s @ new \<and> map (\<lambda>p. (np_RuleID p, np_State p)) new = changes aenv now (r # rs) s"
    by (rule exI [of _ "n1 @ n2"]) (simp add: n ch, simp add: changes_def)
  moreover have "ar_ID r \<notin> ar_ID ` set rs" using Cons.prems(2) by simp
  ultimately show ?case using ih(1-3) e(1,2) lv by auto
qed

section \<open>Histories\<close>

definition valid_rule :: "AlertRule \<Rightarrow> bool" where
  "valid_rule r \<longleftrightarrow> ar_Name r \<noteq> [] \<and> ar_Query r \<noteq> [] \<and> ar_ThresholdOperator r \<in> set threshold_operators
     \<and> 0 < ar_IntervalSeconds r \<and> ar_Severity r \<in> set alert_severities"

definition rules_ok :: "(string \<times> AlertRule) list \<Rightarrow> bool" where
  "rules_ok rules \<longleftrightarrow> distinct (map fst rules) \<and> (\<forall>(k, r) \<in> set rules. ar_ID r = k \<and> valid_rule r)"

lemma rules_ok_update: "rules_ok rules \<Longrightarrow> valid_rule r \<Longrightarrow> rules_ok (AList.update (ar_ID r) r rules)"
  using set_update_subset [of "ar_ID r" r rules] distinct_keys_update [of rules] unfolding rules_ok_def by fast

lemma rule_of_simps [simp]: "ar_ID (rule_of i input a b) = i" "validateAlertInput input = None \<Longrightarrow> valid_rule (rule_of i input a b)"
  by (auto simp: rule_of_def validateAlertInput_def valid_rule_def split: if_splits)

inductive alert_step :: "AlertEnv \<Rightarrow> AlertState \<Rightarrow> AlertState \<Rightarrow> bool" for aenv where
  create: "alert_step aenv s (snd (HandleCreateAlertRule aenv now body s))"
| update: "alert_step aenv s (snd (HandleUpdateAlertRule aenv now i body s))"
| delete: "alert_step aenv s (snd (HandleDeleteAlertRule aenv i s))"
| tick: "alert_tick aenv now s = Some s' \<Longrightarrow> alert_step aenv s s'"

lemma rules_ok_delete: "rules_ok rules \<Longrightarrow> rules_ok (AList.delete i rules)"
  using set_delete_subset [of i rules] distinct_delete [of rules i] unfolding rules_ok_def by fast

text \<open>What the handlers do to the rules; they touch neither the evaluator's maps nor its channels.\<close>

definition rules_only :: "AlertState \<Rightarrow> AlertState \<Rightarrow> bool" where
  "rules_only s s' \<longleftrightarrow> al_firing s' = al_firing s \<and> al_log s' = al_log s \<and> al_lastEval s' = al_lastEval s
     \<and> (rules_ok (al_rules s) \<longrightarrow> rules_ok (al_rules s'))"

lemma rules_only_refl [simp]: "rules_only s s"
  by (simp add: rules_only_def)

lemma rules_only_put:
  "validateAlertInput input = None \<Longrightarrow> rules_only s (s\<lparr>al_rules := AList.update j (rule_of j input a b) (al_rules s)\<rparr>)"
  "validateAlertInput input = None \<Longrightarrow> rules_only s (s\<lparr>al_world := w, al_rules := AList.update j (rule_of j input a b) (al_rules s)\<rparr>)"
  using rules_ok_update [of "al_rules s" "rule_of j input a b"] by (simp_all add: rules_only_def)

lemma CreateAlertRule_rules: "rules_only s (snd (CreateAlertRule aenv now input s))"
proof (cases "validateAlertInput input")
  case None
  then show ?thesis using rules_only_put(2) [OF None, of s]
    by (simp add: CreateAlertRule_def Let_def store_CreateAlertRule_def fresh_uuid_def) (simp add: rules_only_def)
qed (simp add: CreateAlertRule_def)

lemma UpdateAlertRule_rules: "rules_only s (snd (UpdateAlertRule now i input s))"
proof (cases "validateAlertInput input")
  case None
  then show ?thesis using rules_only_put(1) [OF None, of s i]
    by (simp add: UpdateAlertRule_def Let_def store_UpdateAlertRule_def split: option.split)
qed (simp add: UpdateAlertRule_def)

lemma DeleteAlertRule_rules: "rules_only s (snd (DeleteAlertRule i s))"
  using rules_ok_delete [of "al_rules s" i] by (simp add: DeleteAlertRule_def store_DeleteAlertRule_def rules_only_def)

lemma HandleCreateAlertRule_rules: "rules_only s (snd (HandleCreateAlertRule aenv now body s))"
proof (cases body)
  case (Some input)
  then show ?thesis using CreateAlertRule_rules [of s aenv now input]
    by (cases "CreateAlertRule aenv now input s") (auto simp: HandleCreateAlertRule_def split: sum.split)
qed (simp add: HandleCreateAlertRule_def)

lemma HandleUpdateAlertRule_rules: "rules_only s (snd (HandleUpdateAlertRule aenv now i body s))"
proof (cases body)
  case (Some input)
  then show ?thesis using UpdateAlertRule_rules [of s now i input]
    by (cases "UpdateAlertRule now i input s") (auto simp: HandleUpdateAlertRule_def split: sum.split)
qed (simp add: HandleUpdateAlertRule_def)

lemma HandleDeleteAlertRule_rules: "rules_only s (snd (HandleDeleteAlertRule aenv i s))"
  using DeleteAlertRule_rules [of s i]
  by (cases "DeleteAlertRule i s") (auto simp: HandleDeleteAlertRule_def split: option.split)

lemma rules_ok_distinct:
  assumes "rules_ok rules"
  shows "distinct (map ar_ID (store_ListAlertRules rules))"
proof -
  have "map ar_ID (store_ListAlertRules rules) = map fst rules"
    using assms by (auto simp: rules_ok_def store_ListAlertRules_def)
  then show ?thesis using assms unfolding rules_ok_def by metis
qed

text \<open>The messages sent about one rule.\<close>

definition states_of :: "string \<Rightarrow> NotificationPayload list \<Rightarrow> string list" where
  "states_of i msgs = map np_State (filter (\<lambda>p. np_RuleID p = i) msgs)"

definition alternating :: "string list \<Rightarrow> bool" where
  "alternating xs \<longleftrightarrow> (\<forall>k < length xs. xs ! k = state_name (even k))"

definition alert_inv :: "AlertState \<Rightarrow> bool" where
  "alert_inv s \<longleftrightarrow> rules_ok (al_rules s)
     \<and> (\<forall>i. alternating (states_of i (al_log s)) \<and> (is_firing s i \<longleftrightarrow> odd (length (states_of i (al_log s)))))"

lemma states_of_append [simp]: "states_of i (msgs @ new) = states_of i msgs @ states_of i new"
  by (simp add: states_of_def)

lemma states_of_changes:
  assumes "map (\<lambda>p. (np_RuleID p, np_State p)) new = changes aenv now rs s" "distinct (map ar_ID rs)"
  shows "states_of i new = (if \<exists>r \<in> set rs. ar_ID r = i \<and> level_after aenv now r s \<noteq> is_firing s i
    then [state_name (\<not> is_firing s i)] else [])"
proof -
  have "states_of i new = map snd (filter (\<lambda>x. fst x = i) (map (\<lambda>p. (np_RuleID p, np_State p)) new))"
    by (simp add: states_of_def filter_map o_def)
  also have "\<dots> = map snd (filter (\<lambda>x. fst x = i) (changes aenv now rs s))" by (simp add: assms(1))
  also have "\<dots> = (if \<exists>r \<in> set rs. ar_ID r = i \<and> level_after aenv now r s \<noteq> is_firing s i
    then [state_name (\<not> is_firing s i)] else [])"
    using assms(2)
  proof (induction rs)
    case Nil
    then show ?case by (simp add: changes_def)
  next
    case (Cons r rs)
    have other: "\<not> (\<exists>q \<in> set rs. ar_ID q = i)" if "ar_ID r = i" using Cons.prems that by (auto simp: rev_image_eqI)
    then have "filter (\<lambda>x. fst x = i) (changes aenv now rs s) = []" if "ar_ID r = i"
      using that by (auto simp: changes_def filter_empty_conv)
    moreover note other
    moreover have "changes aenv now (r # rs) s = (if level_after aenv now r s \<noteq> is_firing s (ar_ID r)
        then [(ar_ID r, state_name (level_after aenv now r s))] else []) @ changes aenv now rs s" by (simp add: changes_def)
    ultimately show ?case using Cons.IH Cons.prems by (cases "ar_ID r = i") auto
  qed
  finally show ?thesis .
qed

lemma alternating_snoc: "alternating xs \<Longrightarrow> alternating (xs @ [state_name (even (length xs))])"
  by (auto simp: alternating_def nth_append less_Suc_eq)

lemma alert_inv_step: "alert_step aenv s s' \<Longrightarrow> alert_inv s \<Longrightarrow> alert_inv s'"
proof (induction rule: alert_step.induct)
  case (create s now body)
  then show ?case using HandleCreateAlertRule_rules [of s aenv now body] by (simp add: alert_inv_def rules_only_def is_firing_def)
next
  case (update s now i body)
  then show ?case using HandleUpdateAlertRule_rules [of s aenv now i body] by (simp add: alert_inv_def rules_only_def is_firing_def)
next
  case (delete s i)
  then show ?case using HandleDeleteAlertRule_rules [of s aenv i] by (simp add: alert_inv_def rules_only_def is_firing_def)
next
  case (tick now s s')
  define rs where "rs = store_ListAlertRules (al_rules s)"
  have d: "distinct (map ar_ID rs)" using tick(2) rules_ok_distinct by (simp add: alert_inv_def rs_def)
  have e: "al_rules s' = al_rules s" "\<forall>r \<in> set rs. is_firing s' (ar_ID r) = level_after aenv now r s"
      "\<forall>i. i \<notin> ar_ID ` set rs \<longrightarrow> is_firing s' i = is_firing s i"
    and "\<exists>new. al_log s' = al_log s @ new \<and> map (\<lambda>p. (np_RuleID p, np_State p)) new = changes aenv now rs s"
    using tick_rules_effect [OF _ d, of aenv now s s'] tick(1) unfolding alert_tick_def rs_def [symmetric] by blast+
  then obtain new where new: "al_log s' = al_log s @ new" "map (\<lambda>p. (np_RuleID p, np_State p)) new = changes aenv now rs s" by blast
  have "alternating (states_of i (al_log s')) \<and> (is_firing s' i \<longleftrightarrow> odd (length (states_of i (al_log s'))))" for i
  proof -
    have old: "alternating (states_of i (al_log s))" "is_firing s i \<longleftrightarrow> odd (length (states_of i (al_log s)))"
      using tick(2) by (simp_all add: alert_inv_def)
    have "is_firing s' i = (if \<exists>r \<in> set rs. ar_ID r = i \<and> level_after aenv now r s \<noteq> is_firing s i then \<not> is_firing s i else is_firing s i)"
      using e(2,3) by force
    then show ?thesis unfolding new(1) states_of_append states_of_changes [OF new(2) d]
      using old alternating_snoc [OF old(1)] by simp
  qed
  then show ?case using tick(2) e(1) by (simp add: alert_inv_def)
qed

lemma alert_inv_history: "(alert_step aenv)\<^sup>*\<^sup>* s0 s \<Longrightarrow> alert_inv s0 \<Longrightarrow> alert_inv s"
  by (induction rule: rtranclp_induct) (blast intro: alert_inv_step)+

lemma fresh_alert_inv: "al_rules s = [] \<Longrightarrow> al_log s = [] \<Longrightarrow> al_firing s = [] \<Longrightarrow> alert_inv s"
  by (simp add: alert_inv_def rules_ok_def states_of_def alternating_def is_firing_def)

text \<open>
  C31: Alerts alternate.  From an evaluator that has just started, over every history of rule edits through the
  API and evaluation ticks, the notifications of each rule are firing, resolved, firing and so on, without a
  repetition or a gap, and the rule counts as firing exactly when its last notification said so.
\<close>
theorem notifications_alternate:
  assumes "(alert_step aenv)\<^sup>*\<^sup>* s0 s" "al_rules s0 = []" "al_log s0 = []" "al_firing s0 = []"
  shows "(\<forall>k < length (states_of i (al_log s)). states_of i (al_log s) ! k = (if even k then ''firing'' else ''resolved''))
    \<and> (is_firing s i \<longleftrightarrow> states_of i (al_log s) \<noteq> [] \<and> last (states_of i (al_log s)) = ''firing'')"
proof -
  define xs where "xs = states_of i (al_log s)"
  have a: "alternating xs" "is_firing s i \<longleftrightarrow> odd (length xs)"
    using alert_inv_history [OF assms(1) fresh_alert_inv [OF assms(2-4)]] by (simp_all add: alert_inv_def xs_def)
  have "last xs = state_name (odd (length xs))" if "xs \<noteq> []"
    using a(1) that by (auto simp: alternating_def last_conv_nth)
  then have "is_firing s i \<longleftrightarrow> xs \<noteq> [] \<and> last xs = ''firing''" using a(2) by (cases "xs = []") (auto simp: state_name_def)
  then show ?thesis using a(1) by (simp add: alternating_def state_name_def flip: xs_def)
qed

text \<open>The evaluation times of a tick: the rules evaluated get its time, the others keep theirs.\<close>

lemma tick_rule_evaluated:
  "tick_rule aenv now r s = Some s' \<Longrightarrow> map_of (al_lastEval s') (ar_ID r) = (if due now r s then Some now else map_of (al_lastEval s) (ar_ID r))"
  by (auto simp: tick_rule_def split: if_splits)

lemma tick_rules_evaluated:
  assumes "tick_rules aenv now rs s = Some s'" "distinct (map ar_ID rs)"
  shows "(\<forall>r \<in> set rs. map_of (al_lastEval s') (ar_ID r) = (if due now r s then Some now else map_of (al_lastEval s) (ar_ID r)))
    \<and> (\<forall>i. i \<notin> ar_ID ` set rs \<longrightarrow> map_of (al_lastEval s') i = map_of (al_lastEval s) i)"
  using assms
proof (induction rs arbitrary: s)
  case (Cons r rs)
  obtain s1 where s1: "tick_rule aenv now r s = Some s1" "tick_rules aenv now rs s1 = Some s'"
    using Cons.prems(1) by (auto split: bind_splits)
  have ne: "ar_ID q \<noteq> ar_ID r" if "q \<in> set rs" for q using that Cons.prems(2) by (auto simp: rev_image_eqI)
  have "due now q s1 = due now q s" "map_of (al_lastEval s1) (ar_ID q) = map_of (al_lastEval s) (ar_ID q)" if "q \<in> set rs" for q
    using level_after_frame(3) [OF s1(1) ne [OF that]] tick_rule_effect(3) [OF s1(1) ne [OF that]] by simp_all
  moreover have "ar_ID r \<notin> ar_ID ` set rs" using Cons.prems(2) by simp
  ultimately show ?case using Cons.IH [OF s1(2)] Cons.prems(2) tick_rule_evaluated [OF s1(1)] tick_rule_effect(3) [OF s1(1)] by simp
qed simp

text \<open>
  C32: A tick notifies exactly the changes.  In every reachable state a tick that completes evaluates the rules that
  are enabled and were never evaluated or last evaluated at least their interval ago, and no others: these and only
  these get the tick's time as their evaluation time.  The messages it sends are, in table order, one for each
  evaluated rule whose query succeeded and whose threshold comparison differs from the recorded level, announcing
  the new level, and afterwards every such rule has that level.  A rule that is disabled, not yet due, or whose
  query fails keeps its level and sends nothing.
\<close>
theorem tick_notifies_changes:
  assumes "(alert_step aenv)\<^sup>*\<^sup>* s0 s" "al_rules s0 = []" "al_log s0 = []" "al_firing s0 = []"
    and "alert_tick aenv now s = Some s'"
  defines "evaluated \<equiv> \<lambda>r. ar_Enabled r \<and> (case map_of (al_lastEval s) (ar_ID r) of
      None \<Rightarrow> True | Some t \<Rightarrow> t = 0 \<or> int64 (ar_IntervalSeconds r * 1000000000) \<le> Sub now t)"
  defines "level \<equiv> \<lambda>r. case queryScalar (av_query aenv) now (ar_Query r) of
      Some (Inr v) \<Rightarrow> if evaluated r then compareThreshold v (ar_ThresholdOperator r) (ar_ThresholdValue r) else is_firing s (ar_ID r)
    | _ \<Rightarrow> is_firing s (ar_ID r)"
  shows "(\<forall>r \<in> set (store_ListAlertRules (al_rules s)). is_firing s' (ar_ID r) = level r
           \<and> map_of (al_lastEval s') (ar_ID r) = (if evaluated r then Some now else map_of (al_lastEval s) (ar_ID r)))
    \<and> (\<exists>new. al_log s' = al_log s @ new \<and> map (\<lambda>p. (np_RuleID p, np_State p)) new
         = map (\<lambda>r. (ar_ID r, if level r then ''firing'' else ''resolved''))
             (filter (\<lambda>r. level r \<noteq> is_firing s (ar_ID r)) (store_ListAlertRules (al_rules s))))"
proof -
  define rs where "rs = store_ListAlertRules (al_rules s)"
  have "rules_ok (al_rules s)"
    using alert_inv_history [OF assms(1) fresh_alert_inv [OF assms(2-4)]] by (simp add: alert_inv_def)
  then have d: "distinct (map ar_ID rs)" using rules_ok_distinct by (simp add: rs_def)
  have ev: "due now r s = evaluated r" for r
    by (auto simp: due_def evaluated_def IsZero_def Let_def split: option.split)
  have lv: "level_after aenv now r s = level r" for r
    by (auto simp: level_def level_after_def condition_def ev split: option.split sum.split)
  have t: "tick_rules aenv now rs s = Some s'" using assms(5) by (simp add: alert_tick_def rs_def)
  from tick_rules_effect [OF t d] tick_rules_evaluated [OF t d]
  have "\<forall>r \<in> set rs. is_firing s' (ar_ID r) = level r \<and> map_of (al_lastEval s') (ar_ID r) = (if evaluated r then Some now else map_of (al_lastEval s) (ar_ID r))"
      "\<exists>new. al_log s' = al_log s @ new \<and> map (\<lambda>p. (np_RuleID p, np_State p)) new = changes aenv now rs s"
    unfolding lv ev by blast+
  then show ?thesis unfolding changes_def state_name_def lv rs_def by blast
qed

text \<open>
  Stored rules can be evaluated.  Every rule in the table of a reachable state has the identifier it is stored
  under, a name and a query, a positive interval, and a threshold operator for which the comparison is the one
  its spelling names and not the silent default.
\<close>
theorem stored_rules_valid:
  assumes "(alert_step aenv)\<^sup>*\<^sup>* s0 s" "al_rules s0 = []" "al_log s0 = []" "al_firing s0 = []"
    and "map_of (al_rules s) i = Some r"
  shows "ar_ID r = i \<and> ar_Name r \<noteq> [] \<and> ar_Query r \<noteq> [] \<and> 0 < ar_IntervalSeconds r
    \<and> (\<exists>rel. (ar_ThresholdOperator r, rel) \<in> {(''>'', (>)), (''>='', (\<ge>)), (''<'', (<)), (''<='', (\<le>)), (''=='', (=)), (''!='', (\<noteq>))}
         \<and> (\<forall>v t. compareThreshold v (ar_ThresholdOperator r) t = rel v t))"
proof -
  have "rules_ok (al_rules s)"
    using alert_inv_history [OF assms(1) fresh_alert_inv [OF assms(2-4)]] by (simp add: alert_inv_def)
  then have r: "ar_ID r = i" "valid_rule r" using map_of_SomeD [OF assms(5)] by (auto simp: rules_ok_def)
  then have "\<exists>rel. (ar_ThresholdOperator r, rel) \<in> {(''>'', (>)), (''>='', (\<ge>)), (''<'', (<)), (''<='', (\<le>)), (''=='', (=)), (''!='', (\<noteq>))}
         \<and> (\<forall>v t. compareThreshold v (ar_ThresholdOperator r) t = rel v t)"
    unfolding valid_rule_def threshold_operators_def by (auto simp: compareThreshold_def)
  then show ?thesis using r by (simp add: valid_rule_def)
qed

section \<open>The evaluator and the query language\<close>

definition crashing_query :: string where
  "crashing_query = ''sum() by (x)''"

lemma crashing_query_panics: "Parse crashing_query = Some Panic"
  by code_simp

lemma tick_rules_panics:
  assumes "r \<in> set rs" "queryScalar (av_query aenv) now (ar_Query r) = None" "due now r s" "distinct (map ar_ID rs)"
  shows "tick_rules aenv now rs s = None"
  using assms(1,3,4)
proof (induction rs arbitrary: s)
  case (Cons q rs)
  show ?case
  proof (cases "q = r")
    case True
    then show ?thesis using assms(2) Cons.prems(2) by (simp add: tick_rule_def evaluateRule_def)
  next
    case False
    then have r: "r \<in> set rs" using Cons.prems(1) by simp
    show ?thesis
    proof (cases "tick_rule aenv now q s")
      case (Some s1)
      have "ar_ID r \<noteq> ar_ID q" using r Cons.prems(3) by (auto simp: rev_image_eqI)
      then have "due now r s1" using level_after_frame(3) [OF Some] Cons.prems(2) by simp
      then show ?thesis using Cons.IH [OF r] Cons.prems(3) Some by simp
    qed simp
  qed
qed simp

text \<open>
  C33: An accepted rule can crash the evaluator.  A rule whose query is \<open>sum() by (x)\<close> passes validation;
  once the API has stored it enabled, the next tick panics, whenever it happens and whatever other rules there
  are, since the parser indexes the empty argument list and the evaluation loop does not recover.
\<close>
theorem accepted_rule_crashes_evaluator:
  assumes "(alert_step aenv)\<^sup>*\<^sup>* s0 s" "al_rules s0 = []" "al_log s0 = []" "al_firing s0 = []"
    and "HandleCreateAlertRule aenv now (Some input) s = (StatusOK r, s')" "ai_Query input = crashing_query" "ai_Enabled input"
    and "map_of (al_lastEval s) (ar_ID r) = None"
  shows "alert_tick aenv t s' = None"
proof -
  have created: "CreateAlertRule aenv now input s = (Inr r, s')"
    using assms(5) by (auto simp: HandleCreateAlertRule_def split: prod.splits sum.splits if_splits)
  then have ok: "validateAlertInput input = None" by (auto simp: CreateAlertRule_def split: option.splits)
  then have r: "ar_Query r = crashing_query" "ar_Enabled r" "al_rules s' = AList.update (ar_ID r) r (al_rules s)"
      "al_lastEval s' = al_lastEval s"
    using created assms(6,7)
    by (auto simp: CreateAlertRule_def fresh_uuid_def Let_def store_CreateAlertRule_def rule_of_def split: if_splits)
  have "alert_inv s" using alert_inv_history [OF assms(1) fresh_alert_inv [OF assms(2-4)]] .
  moreover have "rules_only s s'" using CreateAlertRule_rules [of s aenv now input] created by simp
  ultimately have d: "distinct (map ar_ID (store_ListAlertRules (al_rules s')))"
    using rules_ok_distinct by (simp add: alert_inv_def rules_only_def)
  have "map_of (al_rules s') (ar_ID r) = Some r" by (simp add: r(3))
  from map_of_SomeD [OF this] have "r \<in> set (store_ListAlertRules (al_rules s'))" by (force simp: store_ListAlertRules_def)
  moreover have "due t r s'" using r(2,4) assms(8) by (simp add: due_def IsZero_def)
  moreover have "queryScalar (av_query aenv) t (ar_Query r) = None" using r(1) crashing_query_panics by (simp add: queryScalar_def)
  ultimately show ?thesis unfolding alert_tick_def using tick_rules_panics d by blast
qed

text \<open>A query with its time ranges removed.\<close>

fun forget_range :: "Query \<Rightarrow> Query" where
  "forget_range (Telemetry t) = Telemetry (t\<lparr>tq_Duration := 0\<rparr>)"
| "forget_range (BinaryOp l op r) = BinaryOp (forget_range l) op (forget_range r)"
| "forget_range (FunctionCall name args) = FunctionCall name (map forget_range args)"
| "forget_range (Aggregation name q labels) = Aggregation name (forget_range q) labels"

lemma Visit_forget_range:
  "VisitTelemetryQuery qenv (alert_context now) now (t\<lparr>tq_Duration := 0\<rparr>) = VisitTelemetryQuery qenv (alert_context now) now t"
  by (cases "tq_Type t") (simp_all add: VisitTelemetryQuery_def getTimeRange_def alert_context_def executeMetricsQuery_def
      executeLogsQuery_def executeTracesQuery_def cong: sum.case_cong)

lemma Accept_forget_range: "Accept qenv (alert_context now) now (forget_range q) = Accept qenv (alert_context now) now q"
proof (induction q)
  case (FunctionCall name args)
  then show ?case by (cases args) (simp_all cong: sum.case_cong)
qed (simp_all add: Visit_forget_range cong: sum.case_cong)

text \<open>
  An alert ignores the range in its query.  Two rules whose queries differ only in their time ranges, however
  large the difference, are evaluated alike: both see the last five minutes, because the window the evaluator
  passes as a fallback takes precedence over the one the operator wrote.
\<close>
theorem alert_ignores_range:
  assumes "wf_query q" "printable q" "wf_query q'" "printable q'" "forget_range q = forget_range q'"
  shows "queryScalar qenv now (query_text q) = queryScalar qenv now (query_text q')"
proof -
  have "Accept qenv (alert_context now) now q = Accept qenv (alert_context now) now q'"
    using Accept_forget_range [of qenv now q] Accept_forget_range [of qenv now q'] assms(5) by simp
  then show ?thesis using printed_parses [OF assms(1,2)] printed_parses [OF assms(3,4)]
    by (cases "Accept qenv (alert_context now) now q'") (simp_all add: queryScalar_def Execute_def)
qed

section \<open>A concrete evaluator\<close>

definition demo_alerts :: AlertEnv where
  "demo_alerts = \<lparr>av_env = sample_env, av_query = demo_env\<rparr>"

definition demo_start :: AlertState where
  "demo_start = \<lparr>al_rules = [], al_firing = [], al_lastEval = [], al_log = [], al_webhooks = [], al_events = [], al_world = empty_world\<rparr>"

definition demo_input :: "string \<Rightarrow> AlertRuleInput" where
  "demo_input q = \<lparr>ai_Name = ''rows'', ai_Description = [], ai_Query = q, ai_ThresholdOperator = ''>'', ai_ThresholdValue = 2,
     ai_IntervalSeconds = 60, ai_Severity = ''warning'', ai_Enabled = True, ai_WebhookURL = ''https://hooks.example''\<rparr>"

definition demo_stored :: AlertState where
  "demo_stored = snd (HandleCreateAlertRule demo_alerts 5 (Some (demo_input ''metrics{}'')) demo_start)"

lemma demo_start_fresh: "al_rules demo_start = []" "al_log demo_start = []" "al_firing demo_start = []"
  by (simp_all add: demo_start_def)

lemma demo_stored_reachable: "(alert_step demo_alerts)\<^sup>*\<^sup>* demo_start demo_stored"
  unfolding demo_stored_def by (rule r_into_rtranclp) (rule alert_step.create)

lemma demo_tick: "map_option (\<lambda>s. states_of ''u0'' (al_log s)) (alert_tick demo_alerts 10 demo_stored) = Some [''firing'']"
  by code_simp

theorem notifications_alternate_witness:
  "\<exists>s. alert_tick demo_alerts 10 demo_stored = Some s \<and> states_of ''u0'' (al_log s) ! 0 = ''firing'' \<and> is_firing s ''u0''"
proof -
  obtain s where s: "alert_tick demo_alerts 10 demo_stored = Some s" "states_of ''u0'' (al_log s) = [''firing'']"
    using demo_tick by auto
  have "(alert_step demo_alerts)\<^sup>*\<^sup>* demo_start s"
    using demo_stored_reachable alert_step.tick [OF s(1)] by (rule rtranclp.rtrancl_into_rtrancl)
  from notifications_alternate [OF this demo_start_fresh, of "''u0''"] show ?thesis using s by auto
qed

text \<open>A second rule with the same query, stored disabled: its condition holds too, and it sends nothing.\<close>

definition demo_pair :: AlertState where
  "demo_pair = snd (HandleCreateAlertRule demo_alerts 6 (Some ((demo_input ''metrics{}'')\<lparr>ai_Enabled := False\<rparr>)) demo_stored)"

lemma demo_pair_reachable: "(alert_step demo_alerts)\<^sup>*\<^sup>* demo_start demo_pair"
  unfolding demo_pair_def by (rule rtranclp.rtrancl_into_rtrancl [OF demo_stored_reachable]) (rule alert_step.create)

theorem tick_notifies_changes_witness:
  "\<exists>s new. map (\<lambda>r. (ar_ID r, ar_Enabled r)) (store_ListAlertRules (al_rules demo_pair)) = [(''u0'', True), (''u1'', False)]
     \<and> alert_tick demo_alerts 10 demo_pair = Some s \<and> al_log s = al_log demo_pair @ new
     \<and> map (\<lambda>p. (np_RuleID p, np_State p)) new = [(''u0'', ''firing'')]
     \<and> map_of (al_lastEval s) ''u0'' = Some 10 \<and> map_of (al_lastEval s) ''u1'' = None"
proof -
  have "alert_tick demo_alerts 10 demo_pair \<noteq> None" by code_simp
  then obtain s where s: "alert_tick demo_alerts 10 demo_pair = Some s" by auto
  define rs where "rs = store_ListAlertRules (al_rules demo_pair)"
  have facts: "length rs = 2" "map (\<lambda>r. (ar_ID r, ar_Enabled r)) rs = [(''u0'', True), (''u1'', False)]" "map fst (al_lastEval demo_pair) = []" "map fst (al_firing demo_pair) = []"
    unfolding rs_def by code_simp+
  have q: "case queryScalar (av_query demo_alerts) 10 (ar_Query (rs ! 0)) of
      Some (Inr v) \<Rightarrow> compareThreshold v (ar_ThresholdOperator (rs ! 0)) (ar_ThresholdValue (rs ! 0)) | _ \<Rightarrow> False"
    unfolding rs_def by code_simp
  obtain r r' where rs: "rs = [r, r']" using facts(1) by (auto simp: numeral_2_eq_2 length_Suc_conv)
  from tick_notifies_changes [OF demo_pair_reachable demo_start_fresh s] show ?thesis
    using s facts(2-4) q by (auto simp: rs rs_def [symmetric] is_firing_def split: option.splits sum.splits)
qed

theorem stored_rules_valid_witness:
  "\<exists>r. map_of (al_rules demo_stored) ''u0'' = Some r \<and> ar_ID r = ''u0'' \<and> 0 < ar_IntervalSeconds r"
proof -
  have "map_option ar_ID (map_of (al_rules demo_stored) ''u0'') = Some ''u0''" by code_simp
  then obtain r where r: "map_of (al_rules demo_stored) ''u0'' = Some r" by auto
  from stored_rules_valid [OF demo_stored_reachable demo_start_fresh r] show ?thesis using r by blast
qed

theorem accepted_rule_crashes_evaluator_witness:
  "\<exists>r s. HandleCreateAlertRule demo_alerts 5 (Some (demo_input crashing_query)) demo_start = (StatusOK r, s)
     \<and> alert_tick demo_alerts 10 s = None"
proof -
  define reply where "reply = HandleCreateAlertRule demo_alerts 5 (Some (demo_input crashing_query)) demo_start"
  have "(case fst reply of StatusOK r \<Rightarrow> True | _ \<Rightarrow> False)" unfolding reply_def by code_simp
  then obtain r s where r: "HandleCreateAlertRule demo_alerts 5 (Some (demo_input crashing_query)) demo_start = (StatusOK r, s)"
    unfolding reply_def by (cases "HandleCreateAlertRule demo_alerts 5 (Some (demo_input crashing_query)) demo_start") (auto split: http_reply.splits)
  have "alert_tick demo_alerts 10 s = None"
    by (rule accepted_rule_crashes_evaluator [OF rtranclp.rtrancl_refl demo_start_fresh r])
      (simp_all add: demo_input_def demo_start_def)
  then show ?thesis using r by blast
qed

definition ranged :: "duration \<Rightarrow> Query" where
  "ranged d = Telemetry \<lparr>tq_Type = TelemetryTypeMetrics, tq_Selectors = [], tq_Duration = d, tq_StartTime = None,
     tq_EndTime = None, tq_Limit = 1000\<rparr>"

theorem alert_ignores_range_witness:
  "query_text (ranged (60 * second)) = ''metrics{}[60s]'' \<and> query_text (ranged (86400 * second)) = ''metrics{}[86400s]''
     \<and> queryScalar demo_env 9 (query_text (ranged (60 * second))) = queryScalar demo_env 9 (query_text (ranged (86400 * second)))"
proof -
  have w: "wf_query (ranged (60 * second))" "printable (ranged (60 * second))" "wf_query (ranged (86400 * second))" "printable (ranged (86400 * second))"
    by code_simp+
  have dg: "digit 0 = CHR ''0''" "digit 4 = CHR ''4''" "digit 6 = CHR ''6''" "digit 8 = CHR ''8''" by code_simp+
  have "forget_range (ranged (60 * second)) = forget_range (ranged (86400 * second))" by (simp add: ranged_def)
  from alert_ignores_range [OF w this, of demo_env 9]
  have "queryScalar demo_env 9 (query_text (ranged (60 * second))) = queryScalar demo_env 9 (query_text (ranged (86400 * second)))" .
  moreover have "query_text (ranged (60 * second)) = ''metrics{}[60s]''" "query_text (ranged (86400 * second)) = ''metrics{}[86400s]''"
    by (simp_all add: ranged_def range_text_def dg utoa.simps [of 60] utoa.simps [of 6] utoa.simps [of 86400]
        utoa.simps [of 8640] utoa.simps [of 864] utoa.simps [of 86] utoa.simps [of 8])
  ultimately show ?thesis by blast
qed

end
