(* ===== verification/Agent_Service.thy ===== *)
theory Agent_Service
  imports Auth_Access
begin

text \<open>
  The writing side of the agent service (\<open>services/agent_service_impl.go\<close>) that the OpAMP server calls: agent
  registration, status, effective and delivered config with the drift transitions they cause, decommissioning,
  groups and per-agent configs, each with its audit entry, and the in-memory connection registry
  (\<open>memory/connection_registry.go\<close>).  Broker events and metrics are left out.  An agent is stored under the
  text of its UUID; local times are printed as in a process whose zone is UTC.
\<close>

section \<open>Agents\<close>

text \<open>The result of a service call: an error or nothing, with the world it leaves.\<close>

definition store_call :: "(AppStore \<Rightarrow> AppStore result) \<Rightarrow> (World \<Rightarrow> World) \<Rightarrow> World \<Rightarrow> error option \<times> World" where
  "store_call f after w =
     (case f (w_store w) of
        Inl e \<Rightarrow> (Some e, w)
      | Inr st \<Rightarrow> (None, after (w\<lparr>w_store := st\<rparr>)))"

definition agent_entry :: "string \<Rightarrow> string \<Rightarrow> string \<Rightarrow> string \<Rightarrow> payload \<Rightarrow> AuditEntry" where
  "agent_entry actor eventType targetID action payload =
     \<lparr>en_Actor = actor, en_EventType = eventType, en_TargetType = ''agent'', en_TargetID = targetID,
      en_Action = action, en_Payload = Some payload\<rparr>"

definition svc_CreateAgent :: "Env \<Rightarrow> gotime \<Rightarrow> Ctx \<Rightarrow> Agent \<Rightarrow> World \<Rightarrow> error option \<times> World" where
  "svc_CreateAgent env now ctx agent =
     store_call (CreateAgent (agent\<lparr>ag_EffectiveConfig := [], ag_DeliveredConfigHash := []\<rparr>))
       (audit env now ctx (agent_entry ''opamp'' ''agent.registered'' (ag_ID agent) ''created''
          [(''name'', JStr (ag_Name agent)), (''version'', JStr (ag_Version agent))]))"

fun drift_text :: "ConfigDriftStatus \<Rightarrow> string" where
  "drift_text ConfigDriftStatusUnknown = ''unknown''"
| "drift_text ConfigDriftStatusSynced = ''synced''"
| "drift_text ConfigDriftStatusDrifted = ''drifted''"
| "drift_text ConfigDriftStatusNoIntent = ''no_intent''"
| "drift_text ConfigDriftStatusNoEffective = ''no_effective''"

definition snapshotDriftStatus :: "Env \<Rightarrow> gotime \<Rightarrow> string \<Rightarrow> World \<Rightarrow> ConfigDriftStatus" where
  "snapshotDriftStatus env now i w =
     (case svc_GetAgent (env_driftDiff env) now i (w_store w) of
        None \<Rightarrow> ConfigDriftStatusUnknown
      | Some a \<Rightarrow> ag_DriftStatus a)"

definition recordDriftTransition :: "Env \<Rightarrow> gotime \<Rightarrow> string \<Rightarrow> ConfigDriftStatus \<Rightarrow> ConfigDriftStatus \<Rightarrow> World \<Rightarrow> World" where
  "recordDriftTransition env now i from_status to_status =
     audit env now background_ctx
       (agent_entry ''system''
          (if to_status = ConfigDriftStatusDrifted then ''agent.drift.drifted'' else ''agent.drift.synced'') i ''drift''
          [(''from'', JStr (drift_text from_status)), (''to'', JStr (drift_text to_status))])"

text \<open>The shape of the two updates that can change the drift status.\<close>

definition drift_update :: "Env \<Rightarrow> gotime \<Rightarrow> string \<Rightarrow> (AppStore \<Rightarrow> AppStore result) \<Rightarrow> World \<Rightarrow> error option \<times> World" where
  "drift_update env now i f w =
     (let prevStatus = snapshotDriftStatus env now i w
      in store_call f (\<lambda>w1.
           let currStatus = snapshotDriftStatus env now i w1
           in if currStatus \<noteq> prevStatus then recordDriftTransition env now i prevStatus currStatus w1 else w1) w)"

definition svc_UpdateAgentEffectiveConfig :: "Env \<Rightarrow> gotime \<Rightarrow> string \<Rightarrow> string \<Rightarrow> World \<Rightarrow> error option \<times> World" where
  "svc_UpdateAgentEffectiveConfig env now i effectiveConfig =
     drift_update env now i (UpdateAgentEffectiveConfig now i effectiveConfig)"

definition svc_UpdateAgentDeliveredConfigHash :: "Env \<Rightarrow> gotime \<Rightarrow> string \<Rightarrow> string \<Rightarrow> World \<Rightarrow> error option \<times> World" where
  "svc_UpdateAgentDeliveredConfigHash env now i hash =
     drift_update env now i (UpdateAgentDeliveredConfigHash now i hash)"

definition svc_UpdateAgentStatus :: "gotime \<Rightarrow> string \<Rightarrow> AgentStatus \<Rightarrow> World \<Rightarrow> error option \<times> World" where
  "svc_UpdateAgentStatus now i status = store_call (UpdateAgentStatus now i status) (\<lambda>w. w)"

definition svc_UpdateAgentLastSeen :: "gotime \<Rightarrow> string \<Rightarrow> gotime \<Rightarrow> World \<Rightarrow> error option \<times> World" where
  "svc_UpdateAgentLastSeen now i lastSeen = store_call (UpdateAgentLastSeen now i lastSeen) (\<lambda>w. w)"

definition svc_UpdateAgentRegistration :: "gotime \<Rightarrow> Agent \<Rightarrow> World \<Rightarrow> error option \<times> World" where
  "svc_UpdateAgentRegistration now agent = store_call (UpdateAgentRegistration now agent) (\<lambda>w. w)"

definition svc_DeleteAgent :: "Env \<Rightarrow> gotime \<Rightarrow> Ctx \<Rightarrow> string \<Rightarrow> World \<Rightarrow> error option \<times> World" where
  "svc_DeleteAgent env now ctx i w =
     store_call (DeleteAgent now i) (audit env now ctx (agent_entry [] ''agent.decommissioned'' i ''decommissioned''
       ((''reason'', JStr ''operator decommission'') #
        (case GetAgent i (w_store w) of
           None \<Rightarrow> []
         | Some pre \<Rightarrow> (''name'', JStr (ag_Name pre))
             # (case ag_GroupName pre of None \<Rightarrow> [] | Some g \<Rightarrow> [(''group'', JStr g)])
             @ [(''last_seen'', JStr (format_rfc3339 (ag_LastSeen pre)))])))) w"

definition svc_RestoreAgent :: "Env \<Rightarrow> gotime \<Rightarrow> Ctx \<Rightarrow> string \<Rightarrow> World \<Rightarrow> error option \<times> World" where
  "svc_RestoreAgent env now ctx i =
     store_call (RestoreAgent now i) (audit env now ctx (agent_entry [] ''agent.restored'' i ''restored''
       [(''reason'', JStr ''operator restore'')]))"

definition svc_PurgeAgent :: "Env \<Rightarrow> gotime \<Rightarrow> Ctx \<Rightarrow> string \<Rightarrow> World \<Rightarrow> error option \<times> World" where
  "svc_PurgeAgent env now ctx i w =
     store_call (PurgeAgent i) (audit env now ctx (agent_entry [] ''agent.purged'' i ''purged''
       ((''reason'', JStr ''operator hard purge'') #
        (case GetAgent i (w_store w) of None \<Rightarrow> [] | Some pre \<Rightarrow> [(''name'', JStr (ag_Name pre))])))) w"

section \<open>Groups and configs\<close>

definition GetGroupByName :: "string \<Rightarrow> AppStore \<Rightarrow> Group option" where
  "GetGroupByName name s = find (\<lambda>g. gr_Name g = name) (ListGroups s)"

definition svc_StoreConfigForAgent :: "Env \<Rightarrow> gotime \<Rightarrow> Ctx \<Rightarrow> string \<Rightarrow> string \<Rightarrow> World \<Rightarrow> (error + Config) \<times> World" where
  "svc_StoreConfigForAgent env now ctx agentID content w =
     (let (uuid, w1) = fresh_uuid env w in
      case StoreConfigForAgent uuid now agentID content (w_store w1) of
        Inl e \<Rightarrow> (Inl e, w)
      | Inr (c, st) \<Rightarrow>
          (Inr c, audit env now ctx
             \<lparr>en_Actor = ''system'', en_EventType = ''config.stored'', en_TargetType = ''config'',
              en_TargetID = cf_ID c, en_Action = ''stored'',
              en_Payload = Some [(''agent_id'', JStr agentID), (''version'', JInt (cf_Version c)),
                                 (''config_hash'', JStr (cf_ConfigHash c))]\<rparr> (w1\<lparr>w_store := st\<rparr>)))"

section \<open>The connection registry\<close>

record ConnectionOwner =
  co_InstanceID :: string
  co_ConnectedAt :: gotime
  co_LastHeartbeatAt :: gotime

type_synonym owners = "(string \<times> ConnectionOwner) list"

text \<open>\<open>None\<close> is the refusal of an empty instance id.\<close>

definition UpsertConnectionOwner :: "string \<Rightarrow> string \<Rightarrow> gotime \<Rightarrow> owners \<Rightarrow> owners option" where
  "UpsertConnectionOwner agentID instanceID now os =
     (if instanceID = [] then None
      else (let connectedAt = (case map_of os agentID of
                 Some existing \<Rightarrow> if co_InstanceID existing = instanceID then co_ConnectedAt existing else now
               | None \<Rightarrow> now)
            in Some (AList.update agentID \<lparr>co_InstanceID = instanceID, co_ConnectedAt = connectedAt,
                                         co_LastHeartbeatAt = now\<rparr> os)))"

definition DeleteConnectionOwner :: "string \<Rightarrow> owners \<Rightarrow> owners" where
  "DeleteConnectionOwner agentID os = AList.delete agentID os"

definition GetConnectionOwner :: "string \<Rightarrow> owners \<Rightarrow> ConnectionOwner option" where
  "GetConnectionOwner agentID os = map_of os agentID"

definition ReclaimStaleConnectionOwners :: "gotime \<Rightarrow> owners \<Rightarrow> nat \<times> owners" where
  "ReclaimStaleConnectionOwners olderThan os =
     (length (filter (\<lambda>(k, r). co_LastHeartbeatAt r < olderThan) os),
      filter (\<lambda>(k, r). \<not> co_LastHeartbeatAt r < olderThan) os)"

end
