(* ===== verification/Opamp_Agents.thy ===== *)
theory Opamp_Agents
  imports Agent_Service "HOL-Library.Word"
begin

text \<open>
  Connected agents (\<open>internal/opamp\<close>: \<open>agent_core.go\<close>, \<open>agents.go\<close>, \<open>agent_config.go\<close>, \<open>agent_status.go\<close>,
  \<open>agent_connection.go\<close>): the OpAMP messages, the in-memory agent with its staged remote config, the processing
  of a status report and the registry with its indexes by wire instance id and by fleet id.  A UUID is its
  canonical text; agent objects live in a list and a pointer to one is its position.  A panic of the Go code is \<open>None\<close>.  PEM and X.509 parsing are parameters.
\<close>

unbundle bit_operations_syntax

section \<open>Messages\<close>

text \<open>An attribute value; \<open>GetStringValue\<close> of a value that is no string is empty.\<close>

datatype AnyValue = StringValue string | OtherValue string

fun GetStringValue :: "AnyValue \<Rightarrow> string" where
  "GetStringValue (StringValue s) = s"
| "GetStringValue (OtherValue _) = []"

type_synonym KeyValue = "string \<times> AnyValue option"

record AgentDescription =
  ad_IdentifyingAttributes :: "KeyValue list"
  ad_NonIdentifyingAttributes :: "KeyValue list"

datatype RemoteConfigStatuses = Status_UNSET | Status_APPLIED | Status_APPLYING | Status_FAILED

record RemoteConfigStatus =
  rs_LastRemoteConfigHash :: string
  rs_Status :: RemoteConfigStatuses
  rs_ErrorMessage :: string

record ComponentHealth =
  ch_Healthy :: bool
  ch_StartTimeUnixNano :: "64 word"

text \<open>The reported config: absent, present without a map, or the files of the map in iteration order.  A
  connection settings request: absent, without a certificate request, or with the CSR.\<close>

record AgentToServer =
  m_InstanceUid :: string
  m_SequenceNum :: "64 word"
  m_AgentDescription :: "AgentDescription option"
  m_Capabilities :: "64 word"
  m_Health :: "ComponentHealth option"
  m_EffectiveConfig :: "(string \<times> string) list option option"
  m_RemoteConfigStatus :: "RemoteConfigStatus option"
  m_PackageStatuses :: "string option"
  m_ConnectionSettingsRequest :: "string option option"

record AgentConfigFile =
  fl_Body :: string
  fl_ContentType :: string

record AgentRemoteConfig =
  rc_Config :: "(string \<times> AgentConfigFile) list"
  rc_ConfigHash :: string

record TelemetrySettings =
  ts_DestinationEndpoint :: string
  ts_Headers :: "(string \<times> string) list"

record ConnectionSettingsOffers =
  cs_Opamp :: bool
  cs_OwnMetrics :: "TelemetrySettings option"
  cs_OwnTraces :: "TelemetrySettings option"
  cs_OwnLogs :: "TelemetrySettings option"

record ServerToAgent =
  sa_InstanceUid :: string
  sa_RemoteConfig :: "AgentRemoteConfig option"
  sa_ConnectionSettings :: "ConnectionSettingsOffers option"
  sa_Flags :: "64 word"
  sa_Capabilities :: "64 word"
  sa_ErrorResponse :: "string option"
  sa_Restart :: bool
  sa_CustomMessage :: "string option"

definition no_reply :: ServerToAgent where
  "no_reply = \<lparr>sa_InstanceUid = [], sa_RemoteConfig = None, sa_ConnectionSettings = None, sa_Flags = 0,
     sa_Capabilities = 0, sa_ErrorResponse = None, sa_Restart = False, sa_CustomMessage = None\<rparr>"

definition no_offers :: ConnectionSettingsOffers where
  "no_offers = \<lparr>cs_Opamp = False, cs_OwnMetrics = None, cs_OwnTraces = None, cs_OwnLogs = None\<rparr>"

text \<open>The capability bits of the OpAMP protocol.\<close>

datatype AgentCapability =
    ReportsStatus | AcceptsRemoteConfig | ReportsEffectiveConfig | AcceptsPackages | ReportsPackageStatuses
  | ReportsOwnTraces | ReportsOwnMetrics | ReportsOwnLogs | AcceptsRestartCommand | ReportsHealth | ReportsRemoteConfig

fun capability_bit :: "AgentCapability \<Rightarrow> 64 word" where
  "capability_bit ReportsStatus = 0x1"
| "capability_bit AcceptsRemoteConfig = 0x2"
| "capability_bit ReportsEffectiveConfig = 0x4"
| "capability_bit AcceptsPackages = 0x8"
| "capability_bit ReportsPackageStatuses = 0x10"
| "capability_bit ReportsOwnTraces = 0x20"
| "capability_bit ReportsOwnMetrics = 0x40"
| "capability_bit ReportsOwnLogs = 0x80"
| "capability_bit AcceptsRestartCommand = 0x400"
| "capability_bit ReportsHealth = 0x800"
| "capability_bit ReportsRemoteConfig = 0x1000"

section \<open>The agent\<close>

text \<open>Certificate fields, which only the UI renders, are left out; a watcher channel is a number.\<close>

record ConnAgent =
  oa_InstanceId :: string
  oa_FleetId :: string
  oa_GroupID :: "string option"
  oa_GroupName :: "string option"
  oa_conn :: nat
  oa_Status :: "AgentToServer option"
  oa_StartedAt :: gotime
  oa_EffectiveConfig :: string
  oa_CustomInstanceConfig :: string
  oa_remoteConfig :: "AgentRemoteConfig option"
  oa_statusUpdateWatchers :: "nat list"

text \<open>The string behind a pointer, empty for nil.\<close>

definition deref :: "string option \<Rightarrow> string" where
  "deref p = (case p of None \<Rightarrow> [] | Some x \<Rightarrow> x)"

definition zero_uuid :: string where
  "zero_uuid = ''00000000-0000-0000-0000-000000000000''"

definition NewAgent :: "string \<Rightarrow> nat \<Rightarrow> ConnAgent" where
  "NewAgent instanceId conn =
     \<lparr>oa_InstanceId = instanceId, oa_FleetId = instanceId, oa_GroupID = None, oa_GroupName = None, oa_conn = conn,
      oa_Status = None, oa_StartedAt = 0, oa_EffectiveConfig = [], oa_CustomInstanceConfig = [],
      oa_remoteConfig = None, oa_statusUpdateWatchers = []\<rparr>"

definition storeID :: "ConnAgent \<Rightarrow> string" where
  "storeID a = (if oa_FleetId a \<noteq> zero_uuid then oa_FleetId a else oa_InstanceId a)"

definition HasCapability :: "ConnAgent \<Rightarrow> AgentCapability \<Rightarrow> bool" where
  "HasCapability a c \<longleftrightarrow> (case oa_Status a of None \<Rightarrow> False | Some s \<Rightarrow> m_Capabilities s AND capability_bit c \<noteq> 0)"

section \<open>Remote config\<close>

text \<open>The three writes of the hash: an empty key, the body and an empty content type.\<close>

definition wireConfigHash :: "string \<Rightarrow> string" where
  "wireConfigHash body = sha256 ([] @ body @ [])"

definition isEqualConfigFile :: "AgentConfigFile option \<Rightarrow> AgentConfigFile option \<Rightarrow> bool" where
  "isEqualConfigFile f1 f2 =
     (case (f1, f2) of
        (None, None) \<Rightarrow> True
      | (Some a, Some b) \<Rightarrow> fl_Body a = fl_Body b \<and> fl_ContentType a = fl_ContentType b
      | _ \<Rightarrow> False)"

definition isEqualConfigSet :: "(string \<times> AgentConfigFile) list \<Rightarrow> (string \<times> AgentConfigFile) list \<Rightarrow> bool" where
  "isEqualConfigSet c1 c2 \<longleftrightarrow>
     length c1 = length c2 \<and> (\<forall>(k, f1) \<in> set c1. isEqualConfigFile (Some f1) (map_of c2 k))"

definition isEqualRemoteConfig :: "AgentRemoteConfig option \<Rightarrow> AgentRemoteConfig option \<Rightarrow> bool" where
  "isEqualRemoteConfig c1 c2 =
     (case (c1, c2) of
        (None, None) \<Rightarrow> True
      | (Some a, Some b) \<Rightarrow> isEqualConfigSet (rc_Config a) (rc_Config b)
      | _ \<Rightarrow> False)"

definition staged_config :: "string \<Rightarrow> AgentRemoteConfig" where
  "staged_config body = \<lparr>rc_Config = [([], \<lparr>fl_Body = body, fl_ContentType = []\<rparr>)], rc_ConfigHash = wireConfigHash body\<rparr>"

definition calcRemoteConfig :: "ConnAgent \<Rightarrow> bool \<times> ConnAgent" where
  "calcRemoteConfig a =
     (let cfg = staged_config (oa_CustomInstanceConfig a);
          configChanged = (\<not> isEqualRemoteConfig (oa_remoteConfig a) (Some cfg))
      in (configChanged, a\<lparr>oa_remoteConfig := Some cfg\<rparr>))"

definition remoteConfigApplyFailed :: "ConnAgent \<Rightarrow> bool" where
  "remoteConfigApplyFailed a \<longleftrightarrow>
     (case oa_Status a of
        None \<Rightarrow> False
      | Some s \<Rightarrow> (case m_RemoteConfigStatus s of None \<Rightarrow> False | Some r \<Rightarrow> rs_Status r = Status_FAILED))"

definition deliveredConfigHash :: "ConnAgent \<Rightarrow> string" where
  "deliveredConfigHash a =
     (case oa_Status a of
        None \<Rightarrow> []
      | Some s \<Rightarrow> (case m_RemoteConfigStatus s of None \<Rightarrow> [] | Some r \<Rightarrow> rs_LastRemoteConfigHash r))"

definition appliedConfigHash :: "ConnAgent \<Rightarrow> string option" where
  "appliedConfigHash a =
     (case oa_Status a of
        None \<Rightarrow> None
      | Some s \<Rightarrow>
          (case m_RemoteConfigStatus s of
             None \<Rightarrow> None
           | Some r \<Rightarrow>
               (case oa_remoteConfig a of
                  None \<Rightarrow> None
                | Some cfg \<Rightarrow>
                    if remoteConfigApplyFailed a then None
                    else if rs_LastRemoteConfigHash r = [] then None
                    else if rs_LastRemoteConfigHash r \<noteq> rc_ConfigHash cfg then None
                    else Some (Hash (oa_CustomInstanceConfig a)))))"

section \<open>Status reports\<close>

text \<open>The stored status after a report and whether the description changed.\<close>

definition updateAgentDescription :: "AgentToServer \<Rightarrow> AgentToServer \<Rightarrow> bool \<times> AgentToServer" where
  "updateAgentDescription newStatus prev =
     (let s1 = prev\<lparr>m_SequenceNum := m_SequenceNum newStatus\<rparr>;
          changed = (m_AgentDescription newStatus \<noteq> None \<and> m_AgentDescription prev \<noteq> m_AgentDescription newStatus);
          s2 = (if changed then s1\<lparr>m_AgentDescription := m_AgentDescription newStatus\<rparr> else s1);
          s3 = (if m_RemoteConfigStatus newStatus \<noteq> None \<and> m_RemoteConfigStatus s2 \<noteq> m_RemoteConfigStatus newStatus
                then s2\<lparr>m_RemoteConfigStatus := m_RemoteConfigStatus newStatus\<rparr> else s2)
      in (changed, s3))"

definition updateHealth :: "AgentToServer \<Rightarrow> AgentToServer \<Rightarrow> ConnAgent \<Rightarrow> AgentToServer \<times> ConnAgent" where
  "updateHealth newStatus s a =
     (case m_Health newStatus of
        None \<Rightarrow> (s, a)
      | Some h \<Rightarrow> (s\<lparr>m_Health := Some h\<rparr>,
                  if ch_Healthy h then a\<lparr>oa_StartedAt := int64 (uint (ch_StartTimeUnixNano h))\<rparr> else a))"

definition updateRemoteConfigStatus :: "AgentToServer \<Rightarrow> AgentToServer \<Rightarrow> AgentToServer" where
  "updateRemoteConfigStatus newStatus s =
     (if m_RemoteConfigStatus newStatus \<noteq> None then s\<lparr>m_RemoteConfigStatus := m_RemoteConfigStatus newStatus\<rparr> else s)"

definition updateCapabilities :: "AgentToServer \<Rightarrow> AgentToServer \<Rightarrow> AgentToServer" where
  "updateCapabilities newStatus s =
     (if m_Capabilities newStatus \<noteq> 0 then s\<lparr>m_Capabilities := m_Capabilities newStatus\<rparr> else s)"

definition updateStatusField :: "AgentToServer \<Rightarrow> ConnAgent \<Rightarrow> bool \<times> ConnAgent" where
  "updateStatusField newStatus a =
     (let prev = (case oa_Status a of None \<Rightarrow> newStatus | Some s \<Rightarrow> s);
          (changed, s1) = updateAgentDescription newStatus prev;
          (s2, a1) = updateHealth newStatus s1 a;
          s3 = updateCapabilities newStatus (updateRemoteConfigStatus newStatus s2)
      in (changed \<or> oa_Status a = None, a1\<lparr>oa_Status := Some s3\<rparr>))"

text \<open>The first file of the reported map; a report without the map is a nil dereference.\<close>

definition updateEffectiveConfig :: "AgentToServer \<Rightarrow> ConnAgent \<Rightarrow> ConnAgent option" where
  "updateEffectiveConfig newStatus a =
     (case m_EffectiveConfig newStatus of
        None \<Rightarrow> Some a
      | Some None \<Rightarrow> None
      | Some (Some []) \<Rightarrow> Some a
      | Some (Some ((k, body) # _)) \<Rightarrow> Some (a\<lparr>oa_EffectiveConfig := body\<rparr>))"

definition status_compressed :: "AgentToServer \<Rightarrow> ConnAgent \<Rightarrow> bool" where
  "status_compressed newStatus a \<longleftrightarrow>
       (m_EffectiveConfig newStatus = None \<and> HasCapability a ReportsEffectiveConfig)
     \<or> (m_PackageStatuses newStatus = None \<and> HasCapability a ReportsPackageStatuses)
     \<or> (m_RemoteConfigStatus newStatus = None \<and> HasCapability a ReportsRemoteConfig)
     \<or> (m_Health newStatus = None \<and> HasCapability a ReportsHealth)"

definition processStatusUpdate :: "AgentToServer \<Rightarrow> ServerToAgent \<Rightarrow> ConnAgent \<Rightarrow> (ServerToAgent \<times> ConnAgent) option" where
  "processStatusUpdate newStatus response a =
     (let lostPreviousUpdate = (case oa_Status a of None \<Rightarrow> True | Some s \<Rightarrow> m_SequenceNum s + 1 \<noteq> m_SequenceNum newStatus);
          (agentDescrChanged, a1) = updateStatusField newStatus a;
          r1 = (if status_compressed newStatus a1 \<and> lostPreviousUpdate
                then response\<lparr>sa_Flags := sa_Flags response OR 1\<rparr> else response);
          (configChanged, a2) = (if agentDescrChanged then calcRemoteConfig a1 else (False, a1))
      in case (if configChanged then Some True
               else (case Option.bind (oa_Status a2) m_RemoteConfigStatus of
                  None \<Rightarrow> Some False
                | Some r \<Rightarrow> map_option (\<lambda>cfg. rs_LastRemoteConfigHash r \<noteq> rc_ConfigHash cfg) (oa_remoteConfig a2))) of
           None \<Rightarrow> None
         | Some send \<Rightarrow>
             let r2 = (if send then r1\<lparr>sa_RemoteConfig := oa_remoteConfig a2\<rparr> else r1)
             in map_option (\<lambda>a3. (r2, a3)) (updateEffectiveConfig newStatus a2))"

text \<open>X.509: decoding a PEM block, and the parsed request as signature validity and common name, or the
  parser's error.\<close>

record CsrTools =
  ct_pemDecode :: "string \<Rightarrow> string option"
  ct_parseRequest :: "string \<Rightarrow> string + (bool \<times> string)"

definition addErrorResponse :: "string \<Rightarrow> ServerToAgent \<Rightarrow> ServerToAgent" where
  "addErrorResponse msg response =
     response\<lparr>sa_ErrorResponse := Some (case sa_ErrorResponse response of None \<Rightarrow> msg | Some old \<Rightarrow> old @ msg)\<rparr>"

text \<open>A request whose signature check fails reads the text of the parse error, which is nil there.\<close>

definition processConnectionSettingsRequest :: "CsrTools \<Rightarrow> string option \<Rightarrow> ServerToAgent \<Rightarrow> ServerToAgent option" where
  "processConnectionSettingsRequest tools request response =
     (case request of
        None \<Rightarrow> Some response
      | Some csr \<Rightarrow>
          (case ct_pemDecode tools csr of
             None \<Rightarrow> Some (addErrorResponse ''Failed to decode PEM certificate request'' response)
           | Some der \<Rightarrow>
               (case ct_parseRequest tools der of
                  Inl err \<Rightarrow> Some (addErrorResponse (''Failed to parse received certificate request: '' @ err) response)
                | Inr (valid, commonName) \<Rightarrow>
                    if \<not> valid then None
                    else if commonName = [] then Some (addErrorResponse ''CommonName is required in certificate request'' response)
                    else Some (response\<lparr>sa_ConnectionSettings := Some ((case sa_ConnectionSettings response of
                             None \<Rightarrow> no_offers | Some offers \<Rightarrow> offers)\<lparr>cs_Opamp := True\<rparr>)\<rparr>))))"

text \<open>\<open>UpdateStatus\<close>: the response, the agent and the watchers that are notified.\<close>

definition UpdateStatus ::
  "CsrTools \<Rightarrow> AgentToServer \<Rightarrow> ServerToAgent \<Rightarrow> ConnAgent \<Rightarrow> (ServerToAgent \<times> ConnAgent \<times> nat list) option" where
  "UpdateStatus tools statusMsg response a =
     (case processStatusUpdate statusMsg response a of
        None \<Rightarrow> None
      | Some (r1, a1) \<Rightarrow>
          map_option (\<lambda>r2. (r2, a1\<lparr>oa_statusUpdateWatchers := []\<rparr>, oa_statusUpdateWatchers a1))
            (case m_ConnectionSettingsRequest statusMsg of
               None \<Rightarrow> Some r1
             | Some request \<Rightarrow> processConnectionSettingsRequest tools request r1))"

definition shouldOfferOwnTelemetry :: "ConnAgent \<Rightarrow> bool \<times> bool \<times> bool" where
  "shouldOfferOwnTelemetry a =
     (HasCapability a ReportsOwnMetrics, HasCapability a ReportsOwnTraces, HasCapability a ReportsOwnLogs)"

section \<open>The registry\<close>

text \<open>Agent objects are allocated once and never freed; the three maps hold pointers into \<open>objects\<close>.\<close>

record Agents =
  objects :: "ConnAgent list"
  agentsById :: "(string \<times> nat) list"
  agentsByFleetId :: "(string \<times> nat) list"
  connections :: "(nat \<times> string list) list"

definition no_agents :: Agents where
  "no_agents = \<lparr>objects = [], agentsById = [], agentsByFleetId = [], connections = []\<rparr>"

definition agent_at :: "Agents \<Rightarrow> nat \<Rightarrow> ConnAgent" where
  "agent_at reg p = objects reg ! p"

definition put_agent :: "nat \<Rightarrow> ConnAgent \<Rightarrow> Agents \<Rightarrow> Agents" where
  "put_agent p a reg = reg\<lparr>objects := (objects reg)[p := a]\<rparr>"

definition on_connection :: "Agents \<Rightarrow> nat \<Rightarrow> string list" where
  "on_connection reg conn = (case map_of (connections reg) conn of None \<Rightarrow> [] | Some ids \<Rightarrow> ids)"

definition drop_agent :: "Agents \<Rightarrow> string \<Rightarrow> Agents" where
  "drop_agent reg i =
     reg\<lparr>agentsByFleetId := (case map_of (agentsById reg) i of
             None \<Rightarrow> agentsByFleetId reg
           | Some p \<Rightarrow> AList.delete (oa_FleetId (agent_at reg p)) (agentsByFleetId reg)),
         agentsById := AList.delete i (agentsById reg)\<rparr>"

definition RemoveConnection :: "nat \<Rightarrow> Agents \<Rightarrow> Agents" where
  "RemoveConnection conn reg =
     foldl drop_agent (reg\<lparr>connections := AList.delete conn (connections reg)\<rparr>) (on_connection reg conn)"

definition SetFleetId :: "nat \<Rightarrow> string \<Rightarrow> Agents \<Rightarrow> Agents" where
  "SetFleetId p fleetId reg =
     (let prev = oa_FleetId (agent_at reg p) in
      if prev = fleetId then reg\<lparr>agentsByFleetId := AList.update fleetId p (agentsByFleetId reg)\<rparr>
      else (let index = (if prev \<noteq> zero_uuid then AList.delete prev (agentsByFleetId reg) else agentsByFleetId reg)
            in (put_agent p ((agent_at reg p)\<lparr>oa_FleetId := fleetId\<rparr>) reg)\<lparr>agentsByFleetId := AList.update fleetId p index\<rparr>))"

definition FindAgent :: "string \<Rightarrow> Agents \<Rightarrow> nat option" where
  "FindAgent i reg =
     (case map_of (agentsByFleetId reg) i of Some p \<Rightarrow> Some p | None \<Rightarrow> map_of (agentsById reg) i)"

definition FindOrCreateAgent :: "string \<Rightarrow> nat \<Rightarrow> Agents \<Rightarrow> nat \<times> Agents" where
  "FindOrCreateAgent i conn reg =
     (case map_of (agentsById reg) i of
        Some p \<Rightarrow> (p, reg)
      | None \<Rightarrow>
          (length (objects reg),
           reg\<lparr>objects := objects reg @ [NewAgent i conn], agentsById := AList.update i (length (objects reg)) (agentsById reg),
               connections := AList.update conn (List.insert i (on_connection reg conn)) (connections reg)\<rparr>))"

definition GetAllAgentsReadonlyClone :: "Agents \<Rightarrow> (string \<times> ConnAgent) list" where
  "GetAllAgentsReadonlyClone reg = map (\<lambda>(i, p). (i, agent_at reg p)) (agentsById reg)"

end
