(* ===== verification/Opamp_Server.thy ===== *)
theory Opamp_Server
  imports Opamp_Agents
begin

text \<open>
  The OpAMP server (\<open>internal/opamp\<close>: \<open>server.go\<close>, \<open>config_resolver.go\<close>, \<open>config_adopt.go\<close>, \<open>config_sender.go\<close>,
  \<open>reconciler.go\<close>, and \<open>internal/agentid\<close>): identity and labels of a reporting agent, the desired config and its
  adoption from a reported one, the message handler with everything it persists, disconnection, pushes and
  the reconcile loop.  UUID text and hashing, message sizes and YAML are parameters; the agent service is
  wired, logging, metrics, tracing spans and TLS are left out.  A reconcile sweep visits the agents one after
  the other.
\<close>

section \<open>Server and state\<close>

text \<open>The parameters of the model: a wired connection registry gives the instance id of this process.\<close>

record ServerDeps =
  sv_env :: Env
  sv_registry :: "string option"
  sv_maxMessageBytes :: int
  sv_adoptOnSupervise :: bool
  sv_otlpGRPCEndpoint :: string
  sv_otlpHTTPEndpoint :: string
  sv_uuidText :: "string \<Rightarrow> string"
  sv_newSHA1 :: "string \<Rightarrow> string \<Rightarrow> string"
  sv_protoSize :: "AgentToServer \<Rightarrow> int"
  sv_csr :: CsrTools
  sv_marshalYAML :: "ynode \<Rightarrow> string option"
  sv_validYAML :: "string \<Rightarrow> bool"
  sv_pipelines :: "string \<Rightarrow> (string \<times> string list \<times> string list) list option"

record OpampState =
  op_world :: World
  op_agents :: Agents
  op_owners :: owners
  op_sent :: "(nat \<times> ServerToAgent) list"
  op_notified :: "nat list"

abbreviation op_store :: "OpampState \<Rightarrow> AppStore" where
  "op_store s \<equiv> w_store (op_world s)"

definition conn_ctx :: "connAuth \<Rightarrow> Ctx" where
  "conn_ctx c = background_ctx\<lparr>ctx_tenant := ca_tenant c\<rparr>"

section \<open>Identity (\<open>internal/agentid\<close>)\<close>

definition squadronAgentNamespace :: string where
  "squadronAgentNamespace = ''7c0f5d2e-6b1a-4f3c-9e2d-1a2b3c4d5e6f''"

definition stableUUID :: "ServerDeps \<Rightarrow> string \<Rightarrow> string" where
  "stableUUID sv seed = sv_newSHA1 sv squadronAgentNamespace seed"

definition attr :: "(string \<times> string) list \<Rightarrow> string \<Rightarrow> string" where
  "attr attrs k = (case map_of attrs k of None \<Rightarrow> [] | Some v \<Rightarrow> v)"

definition Derive :: "ServerDeps \<Rightarrow> (string \<times> string) list \<Rightarrow> string" where
  "Derive sv attrs =
     (let v = attr attrs ''service.instance.id''; host = attr attrs ''host.name''; svc = attr attrs ''service.name'' in
      if v \<noteq> [] then (if env_parseUUID (sv_env sv) v \<noteq> None then v else stableUUID sv (''service.instance.id:'' @ v))
      else if host \<noteq> [] then stableUUID sv (''host.name:'' @ host)
      else if svc \<noteq> [] then stableUUID sv (''service.name:'' @ svc)
      else ''default'')"

definition all_attributes :: "AgentDescription \<Rightarrow> KeyValue list" where
  "all_attributes d = ad_IdentifyingAttributes d @ ad_NonIdentifyingAttributes d"

definition identity_keys :: "string list" where
  "identity_keys = [''service.instance.id'', ''host.name'', ''service.name'']"

definition fleetIdentityAttrs :: "AgentDescription \<Rightarrow> (string \<times> string) list" where
  "fleetIdentityAttrs d =
     foldl (\<lambda>m (k, v). case v of
          None \<Rightarrow> m
        | Some x \<Rightarrow> if k \<in> set identity_keys \<and> GetStringValue x \<noteq> [] \<and> map_of m k = None
                    then AList.update k (GetStringValue x) m else m)
       [] (all_attributes d)"

definition deriveFleetId :: "ServerDeps \<Rightarrow> string \<Rightarrow> AgentDescription \<Rightarrow> string" where
  "deriveFleetId sv instanceId d =
     (let derived = Derive sv (fleetIdentityAttrs d) in
      if derived = ''default'' then instanceId
      else (case env_parseUUID (sv_env sv) derived of None \<Rightarrow> instanceId | Some parsed \<Rightarrow> parsed))"

definition resolveFleetID :: "ServerDeps \<Rightarrow> connAuth \<Rightarrow> string \<Rightarrow> string" where
  "resolveFleetID sv c derived =
     (if ca_pinnedFleetID c = [] then derived
      else (case env_parseUUID (sv_env sv) (ca_pinnedFleetID c) of None \<Rightarrow> derived | Some pinned \<Rightarrow> pinned))"

section \<open>What a description says\<close>

definition first_value :: "KeyValue list \<Rightarrow> (string \<Rightarrow> bool) \<Rightarrow> string" where
  "first_value attrs P =
     (case find (\<lambda>(k, v). P k \<and> (case v of None \<Rightarrow> False | Some x \<Rightarrow> GetStringValue x \<noteq> [])) attrs of
        Some (k, Some x) \<Rightarrow> GetStringValue x
      | _ \<Rightarrow> [])"

definition last_value :: "KeyValue list \<Rightarrow> (string \<Rightarrow> bool) \<Rightarrow> string" where
  "last_value attrs P = first_value (rev attrs) P"

text \<open>The loop overwrites both results, so the last usable attribute decides.\<close>

definition extractGroupInfo :: "AgentDescription \<Rightarrow> string \<times> string" where
  "extractGroupInfo d =
     (last_value (all_attributes d) (\<lambda>k. k \<in> {''group.id'', ''service.group.id'', ''agent.group_id''}),
      last_value (all_attributes d) (\<lambda>k. k \<in> {''group.name'', ''service.group.name'', ''agent.group_name''}))"

definition extractAgentName :: "AgentDescription option \<Rightarrow> string" where
  "extractAgentName desc =
     (case desc of
        None \<Rightarrow> ''unknown''
      | Some d \<Rightarrow>
          (let get = (\<lambda>key. first_value (all_attributes d) (\<lambda>k. k = key)) in
           if get ''agent.name'' \<noteq> [] then get ''agent.name''
           else if get ''host.name'' \<noteq> [] then get ''host.name''
           else if get ''service.name'' \<noteq> [] then get ''service.name''
           else ''unknown''))"

definition extractAgentLabels :: "AgentDescription option \<Rightarrow> (string \<times> string) list" where
  "extractAgentLabels desc =
     (case desc of
        None \<Rightarrow> []
      | Some d \<Rightarrow> foldl (\<lambda>m (k, v). case v of None \<Rightarrow> m | Some x \<Rightarrow> AList.update k (GetStringValue x) m)
                   [] (ad_NonIdentifyingAttributes d))"

definition extractAgentVersion :: "AgentDescription option \<Rightarrow> string" where
  "extractAgentVersion desc =
     (case desc of
        None \<Rightarrow> ''unknown''
      | Some d \<Rightarrow>
          (let v = first_value (all_attributes d) (\<lambda>k. k = ''service.version'' \<or> k = ''agent.version'')
           in if v \<noteq> [] then v else ''unknown''))"

definition capability_names :: "(AgentCapability \<times> string) list" where
  "capability_names =
     [(ReportsStatus, ''reports_status''), (AcceptsRemoteConfig, ''accepts_remote_config''),
      (ReportsEffectiveConfig, ''reports_effective_config''), (ReportsOwnTraces, ''reports_own_traces''),
      (ReportsOwnMetrics, ''reports_own_metrics''), (ReportsOwnLogs, ''reports_own_logs''),
      (AcceptsPackages, ''accepts_packages''), (ReportsPackageStatuses, ''reports_package_statuses''),
      (ReportsHealth, ''reports_health''), (ReportsRemoteConfig, ''reports_remote_config''),
      (AcceptsRestartCommand, ''accepts_restart_command'')]"

definition extractAgentCapabilities :: "64 word \<Rightarrow> string list" where
  "extractAgentCapabilities caps = map snd (filter (\<lambda>(c, n). caps AND capability_bit c \<noteq> 0) capability_names)"

definition determineAgentStatus :: "AgentToServer \<Rightarrow> AgentStatus" where
  "determineAgentStatus msg =
     (case m_Health msg of
        None \<Rightarrow> AgentStatusOnline
      | Some h \<Rightarrow> if ch_Healthy h then AgentStatusOnline else AgentStatusError)"

definition applyLabelPin :: "string \<Rightarrow> string \<Rightarrow> (string \<times> string) list \<Rightarrow> (string \<times> string) list" where
  "applyLabelPin key pinned labels = AList.update key pinned labels"

definition resolveLabels :: "connAuth \<Rightarrow> (string \<times> string) list \<Rightarrow> (string \<times> string) list" where
  "resolveLabels c labels =
     (let l1 = (if ca_pinnedEnv c \<noteq> [] then applyLabelPin ''deployment.environment'' (ca_pinnedEnv c) labels else labels)
      in if ca_pinnedCluster c \<noteq> [] then applyLabelPin ''k8s.cluster.name'' (ca_pinnedCluster c) l1 else l1)"

section \<open>Desired config (\<open>config_resolver.go\<close>)\<close>

definition effectiveGroupID :: "AppStore \<Rightarrow> ConnAgent \<Rightarrow> string" where
  "effectiveGroupID st a =
     (if deref (oa_GroupID a) \<noteq> [] then deref (oa_GroupID a)
      else (case GetAgent (storeID a) st of None \<Rightarrow> [] | Some persisted \<Rightarrow> deref (ag_GroupID persisted)))"

definition resolveStoredConfig :: "AppStore \<Rightarrow> ConnAgent \<Rightarrow> string option" where
  "resolveStoredConfig st a =
     (case GetLatestConfigForAgent (storeID a) st of
        Some c \<Rightarrow> Some (cf_Content c)
      | None \<Rightarrow>
          (let groupID = effectiveGroupID st a in
           if groupID = [] then None else map_option cf_Content (GetLatestConfigForGroup groupID st)))"

definition appliedConfigHashFromDesired :: "AppStore \<Rightarrow> ConnAgent \<Rightarrow> string option" where
  "appliedConfigHashFromDesired st a =
     (if \<not> HasCapability a AcceptsRemoteConfig then None
      else if deliveredConfigHash a = [] then None
      else if remoteConfigApplyFailed a then None
      else (case resolveStoredConfig st a of
              None \<Rightarrow> None
            | Some content \<Rightarrow>
                if deliveredConfigHash a \<noteq> wireConfigHash content then None else Some (Hash content)))"

section \<open>Adoption of a reported config (\<open>config_adopt.go\<close>)\<close>

definition DefaultOTelConfig :: string where
  "DefaultOTelConfig = concat (map (\<lambda>l. l @ [LF])
     [''receivers:'', ''  otlp:'', ''    protocols:'', ''      grpc:'', ''        endpoint: 0.0.0.0:4317'',
      ''      http:'', ''        endpoint: 0.0.0.0:4318'', '''', ''processors:'', ''  batch:'', '''',
      ''exporters:'', ''  otlp:'', ''    endpoint: localhost:4317'', ''    tls:'', ''      insecure: true'', '''',
      ''service:'', ''  pipelines:'', ''    traces:'', ''      receivers: [otlp]'', ''      processors: [batch]'',
      ''      exporters: [otlp]'', ''    metrics:'', ''      receivers: [otlp]'', ''      processors: [batch]'',
      ''      exporters: [otlp]'', ''    logs:'', ''      receivers: [otlp]'', ''      processors: [batch]'',
      ''      exporters: [otlp]''])"

definition isOpampExtensionName :: "string \<Rightarrow> bool" where
  "isOpampExtensionName name \<longleftrightarrow> name = ''opamp'' \<or> prefix ''opamp/'' name"

fun set_content :: "ynode list \<Rightarrow> ynode \<Rightarrow> ynode" where
  "set_content cs (YNode k v _ l) = YNode k v cs l"

text \<open>Editing the value of the first occurrence of a key in place (\<open>mappingValueNode\<close> returns a pointer).\<close>

fun map_value :: "string \<Rightarrow> (ynode \<Rightarrow> ynode) \<Rightarrow> ynode list \<Rightarrow> ynode list" where
  "map_value key f (k # v # r) = (if y_Value k = key then k # f v # r else k # v # map_value key f r)"
| "map_value key f r = r"

definition edit_value :: "string \<Rightarrow> (ynode \<Rightarrow> ynode) \<Rightarrow> ynode \<Rightarrow> ynode" where
  "edit_value key f m = (if y_Kind m \<noteq> MappingNode then m else set_content (map_value key f (y_Content m)) m)"

definition strip_mapping :: "ynode \<Rightarrow> ynode" where
  "strip_mapping ext =
     (if y_Kind ext \<noteq> MappingNode then ext
      else set_content (concat (map (\<lambda>(k, v). if isOpampExtensionName (y_Value k) then [] else [k, v])
                                   (node_pairs (y_Content ext)))) ext)"

definition strip_sequence :: "ynode \<Rightarrow> ynode" where
  "strip_sequence se =
     (if y_Kind se \<noteq> SequenceNode then se
      else set_content (filter (\<lambda>item. \<not> isOpampExtensionName (y_Value item)) (y_Content se)) se)"

definition strip_root :: "ynode \<Rightarrow> ynode" where
  "strip_root node = edit_value ''service'' (edit_value ''extensions'' strip_sequence) (edit_value ''extensions'' strip_mapping node)"

definition stripOpampExtension :: "ServerDeps \<Rightarrow> string \<Rightarrow> string option" where
  "stripOpampExtension sv content =
     (case env_parseYAML (sv_env sv) content of
        Inl _ \<Rightarrow> None
      | Inr doc \<Rightarrow>
          (case y_Content doc of
             [] \<Rightarrow> Some content
           | node # rest \<Rightarrow>
               if y_Kind node \<noteq> MappingNode then Some content
               else sv_marshalYAML sv (set_content (strip_root node # rest) doc)))"

definition hasNonNopComponent :: "string list \<Rightarrow> bool" where
  "hasNonNopComponent ids =
     (\<exists>i \<in> set (map TrimSpace ids). \<not> (i = [] \<or> i = ''nop'' \<or> prefix ''nop/'' i))"

definition hasMeaningfulPipeline :: "ServerDeps \<Rightarrow> string \<Rightarrow> bool" where
  "hasMeaningfulPipeline sv content =
     (case sv_pipelines sv content of
        None \<Rightarrow> False
      | Some ps \<Rightarrow> (\<exists>(name, receivers, exporters) \<in> set ps. hasNonNopComponent receivers \<and> hasNonNopComponent exporters))"

definition isAdoptableConfig :: "ServerDeps \<Rightarrow> string \<Rightarrow> bool" where
  "isAdoptableConfig sv content \<longleftrightarrow>
     hasMeaningfulPipeline sv content
     \<and> (case stripOpampExtension sv DefaultOTelConfig of None \<Rightarrow> True | Some ref \<Rightarrow> Hash content \<noteq> Hash ref)"

definition seeded_config :: "string \<Rightarrow> gotime \<Rightarrow> string \<Rightarrow> string \<Rightarrow> Config" where
  "seeded_config uuid now agentID content =
     \<lparr>cf_ID = uuid, cf_Name = ''auto-seeded on supervise'', cf_AgentID = Some agentID, cf_GroupID = None,
      cf_ConfigHash = Hash content, cf_Content = content, cf_Version = 1, cf_CreatedAt = now, cf_ArchivedAt = None\<rparr>"

text \<open>The content to push, or \<open>None\<close> for the fallback, with the world after the capture.\<close>

definition tryAdoptEffectiveConfig :: "ServerDeps \<Rightarrow> gotime \<Rightarrow> Ctx \<Rightarrow> ConnAgent \<Rightarrow> World \<Rightarrow> string option \<times> World" where
  "tryAdoptEffectiveConfig sv now ctx a w =
     (if \<not> sv_adoptOnSupervise sv \<or> \<not> HasCapability a AcceptsRemoteConfig \<or> TrimSpace (oa_EffectiveConfig a) = [] then (None, w)
      else (case GetLatestConfigForAgent (storeID a) (w_store w) of
          Some existing \<Rightarrow> (Some (cf_Content existing), w)
        | None \<Rightarrow>
            (case stripOpampExtension sv (oa_EffectiveConfig a) of
               None \<Rightarrow> (None, w)
             | Some stripped \<Rightarrow>
                 if \<not> sv_validYAML sv stripped \<or> \<not> isAdoptableConfig sv stripped then (None, w)
                 else
                   (let (uuid, w1) = fresh_uuid (sv_env sv) w; cfg = seeded_config uuid now (storeID a) stripped
                    in case svc_CreateConfig cfg (w_store w1) of
                         Inl _ \<Rightarrow> (None, w1)
                       | Inr st \<Rightarrow>
                           (Some stripped, audit (sv_env sv) now ctx
                              \<lparr>en_Actor = ''opamp'', en_EventType = ''agent.config_adopted_on_supervise'',
                               en_TargetType = ''config'', en_TargetID = cf_ID cfg, en_Action = ''adopted'',
                               en_Payload = Some [(''agent_id'', JStr (storeID a)), (''config_hash'', JStr (cf_ConfigHash cfg)),
                                 (''note'', JStr ''auto-seeded from the agent's reported effective config on first supervise; direct opamp extension stripped'')]\<rparr>
                              (w1\<lparr>w_store := st\<rparr>))))))"

definition getConfigForAgent :: "ServerDeps \<Rightarrow> gotime \<Rightarrow> Ctx \<Rightarrow> ConnAgent \<Rightarrow> World \<Rightarrow> string \<times> World" where
  "getConfigForAgent sv now ctx a w =
     (case resolveStoredConfig (w_store w) a of
        Some content \<Rightarrow> (content, w)
      | None \<Rightarrow>
          (case tryAdoptEffectiveConfig sv now ctx a w of
             (Some content, w1) \<Rightarrow> (content, w1)
           | (None, w1) \<Rightarrow> (DefaultOTelConfig, w1)))"

section \<open>The message handler (\<open>server.go\<close>)\<close>

definition group_changed :: "ConnAgent \<Rightarrow> string \<Rightarrow> string \<Rightarrow> bool" where
  "group_changed a groupID groupName \<longleftrightarrow>
     (case oa_GroupID a of
        None \<Rightarrow> groupID \<noteq> [] \<or> (case oa_GroupName a of None \<Rightarrow> False | Some n \<Rightarrow> n \<noteq> groupName)
      | Some g \<Rightarrow> groupID \<noteq> g \<or> (case oa_GroupName a of None \<Rightarrow> False | Some n \<Rightarrow> n \<noteq> groupName))"

definition processAgentGrouping ::
  "ServerDeps \<Rightarrow> gotime \<Rightarrow> Ctx \<Rightarrow> AgentToServer \<Rightarrow> ConnAgent \<Rightarrow> World \<Rightarrow> ConnAgent \<times> World" where
  "processAgentGrouping sv now ctx msg a w =
     (case m_AgentDescription msg of
        None \<Rightarrow> (a, w)
      | Some d \<Rightarrow>
          (let (groupID, groupName) = extractGroupInfo d;
               groupChanged = group_changed a groupID groupName;
               a1 = a\<lparr>oa_GroupID := Some groupID, oa_GroupName := Some groupName\<rparr>;
               isFirstConnect = (oa_Status a1 = None \<or> oa_CustomInstanceConfig a1 = [])
           in if (groupChanged \<or> isFirstConnect) \<and> HasCapability a1 AcceptsRemoteConfig then
                (let (config, w1) = getConfigForAgent sv now ctx a1 w
                 in if config \<noteq> [] then (snd (calcRemoteConfig (a1\<lparr>oa_CustomInstanceConfig := config\<rparr>)), w1) else (a1, w1))
              else (a1, w)))"

definition new_group :: "string \<Rightarrow> string \<Rightarrow> gotime \<Rightarrow> Group" where
  "new_group i name now =
     \<lparr>gr_ID = i, gr_Name = name, gr_Labels = [], gr_RequireApproval = False, gr_RequireApprovalForRollback = False,
      gr_ChangeWindowsJSON = ''[]'', gr_LearnFromVerdicts = False, gr_TenantID = [], gr_CreatedAt = now, gr_UpdatedAt = now\<rparr>"

definition ensureAgentGroup :: "ServerDeps \<Rightarrow> gotime \<Rightarrow> ConnAgent \<Rightarrow> World \<Rightarrow> ConnAgent \<times> World" where
  "ensureAgentGroup sv now a w =
     (if deref (oa_GroupName a) = [] then (a, w)
      else (case GetGroupByName (deref (oa_GroupName a)) (w_store w) of
          Some g \<Rightarrow> (a\<lparr>oa_GroupID := Some (gr_ID g)\<rparr>, w)
        | None \<Rightarrow>
            (let (uuid, w1) = fresh_uuid (sv_env sv) w in
             case CreateGroup (new_group uuid (deref (oa_GroupName a)) now) (w_store w1) of
               Inl _ \<Rightarrow> (a, w1)
             | Inr st \<Rightarrow> (a\<lparr>oa_GroupID := Some uuid\<rparr>, w1\<lparr>w_store := st\<rparr>))))"

definition isEmptyGroup :: "string option \<Rightarrow> bool" where
  "isEmptyGroup g \<longleftrightarrow> deref g = []"

text \<open>The row a report describes; the name is empty without a description, which keeps the stored one.\<close>

definition reported_row :: "connAuth \<Rightarrow> gotime \<Rightarrow> AgentToServer \<Rightarrow> ConnAgent \<Rightarrow> Agent" where
  "reported_row c now msg a =
     \<lparr>ag_ID = storeID a,
      ag_Name = (if m_AgentDescription msg = None then [] else extractAgentName (m_AgentDescription msg)),
      ag_Labels = resolveLabels c (extractAgentLabels (m_AgentDescription msg)),
      ag_Status = determineAgentStatus msg, ag_LastSeen = now, ag_GroupID = oa_GroupID a, ag_GroupName = oa_GroupName a,
      ag_Version = extractAgentVersion (m_AgentDescription msg),
      ag_Capabilities = extractAgentCapabilities (m_Capabilities msg), ag_EffectiveConfig = [], ag_DeliveredConfigHash = [],
      ag_DiscoverySource = [], ag_DeletedAt = None, ag_CreatedAt = now, ag_UpdatedAt = now\<rparr>"

definition persist_registration ::
  "ServerDeps \<Rightarrow> connAuth \<Rightarrow> gotime \<Rightarrow> AgentToServer \<Rightarrow> Agent \<Rightarrow> ConnAgent \<Rightarrow> World \<Rightarrow> ConnAgent \<times> World" where
  "persist_registration sv c now msg existing a w =
     (if m_AgentDescription msg = None then (a, w)
      else (let (a1, w1) = ensureAgentGroup sv now a w;
                a2 = (if isEmptyGroup (oa_GroupID a1) \<and> \<not> isEmptyGroup (ag_GroupID existing)
                      then a1\<lparr>oa_GroupID := ag_GroupID existing, oa_GroupName := ag_GroupName existing\<rparr> else a1)
            in (a2, snd (svc_UpdateAgentRegistration now (reported_row c now msg a2) w1))))"

definition persist_delivered :: "ServerDeps \<Rightarrow> gotime \<Rightarrow> ConnAgent \<Rightarrow> World \<Rightarrow> World" where
  "persist_delivered sv now a w =
     (case (case appliedConfigHash a of Some h \<Rightarrow> Some h | None \<Rightarrow> appliedConfigHashFromDesired (w_store w) a) of
        None \<Rightarrow> w
      | Some h \<Rightarrow> snd (svc_UpdateAgentDeliveredConfigHash (sv_env sv) now (storeID a) h w))"

definition persistAgent :: "ServerDeps \<Rightarrow> connAuth \<Rightarrow> gotime \<Rightarrow> AgentToServer \<Rightarrow> ConnAgent \<Rightarrow> World \<Rightarrow> ConnAgent \<times> World" where
  "persistAgent sv c now msg a w =
     (case GetAgent (storeID a) (w_store w) of
        None \<Rightarrow>
          (let (a1, w1) = ensureAgentGroup sv now a w
           in (a1, snd (svc_CreateAgent (sv_env sv) now (conn_ctx c) (reported_row c now msg a1) w1)))
      | Some existing \<Rightarrow>
          (let w1 = snd (svc_UpdateAgentStatus now (storeID a) (determineAgentStatus msg) w);
               w2 = snd (svc_UpdateAgentLastSeen now (storeID a) now w1);
               (a1, w3) = persist_registration sv c now msg existing a w2;
               w4 = (if oa_EffectiveConfig a1 = [] then w3
                     else snd (svc_UpdateAgentEffectiveConfig (sv_env sv) now (storeID a1) (oa_EffectiveConfig a1) w3))
           in (a1, persist_delivered sv now a1 w4)))"

definition getOTLPEndpointForAgent :: "string \<Rightarrow> string" where
  "getOTLPEndpointForAgent endpoint =
     (if length endpoint \<ge> 7 \<and> take 7 endpoint = ''0.0.0.0'' then ''localhost'' @ drop 7 endpoint else endpoint)"

definition calcConnectionSettings :: "ServerDeps \<Rightarrow> ConnAgent \<Rightarrow> ServerToAgent \<Rightarrow> ServerToAgent" where
  "calcConnectionSettings sv a response =
     (let (metrics, traces, logs) = shouldOfferOwnTelemetry a in
      if \<not> metrics \<and> \<not> traces \<and> \<not> logs then response
      else
        (let baseEndpoint = getOTLPEndpointForAgent
               (if sv_otlpHTTPEndpoint sv \<noteq> [] then sv_otlpHTTPEndpoint sv else sv_otlpGRPCEndpoint sv);
             settings = (\<lambda>path. Some \<lparr>ts_DestinationEndpoint = ''http://'' @ baseEndpoint @ path,
                                    ts_Headers = [(''x-squadron-agent-id'', oa_FleetId a)]\<rparr>);
             o1 = (case sa_ConnectionSettings response of None \<Rightarrow> no_offers | Some offers \<Rightarrow> offers);
             o2 = (if metrics then o1\<lparr>cs_OwnMetrics := settings ''/v1/metrics''\<rparr> else o1);
             o3 = (if traces then o2\<lparr>cs_OwnTraces := settings ''/v1/traces''\<rparr> else o2);
             o4 = (if logs then o3\<lparr>cs_OwnLogs := settings ''/v1/logs''\<rparr> else o3)
         in response\<lparr>sa_ConnectionSettings := Some o4\<rparr>))"

definition recordConnectionOwner :: "ServerDeps \<Rightarrow> gotime \<Rightarrow> string \<Rightarrow> owners \<Rightarrow> owners" where
  "recordConnectionOwner sv now fleetID os =
     (case sv_registry sv of
        None \<Rightarrow> os
      | Some inst \<Rightarrow> (case UpsertConnectionOwner fleetID inst now os of None \<Rightarrow> os | Some os' \<Rightarrow> os'))"

definition removeConnectionOwner :: "ServerDeps \<Rightarrow> string \<Rightarrow> owners \<Rightarrow> owners" where
  "removeConnectionOwner sv fleetID os = (if sv_registry sv = None then os else DeleteConnectionOwner fleetID os)"

text \<open>\<open>onMessage\<close>.  The wire id is the first sixteen bytes; a shorter one is a conversion panic.\<close>

definition onMessage ::
  "ServerDeps \<Rightarrow> connAuth \<Rightarrow> gotime \<Rightarrow> nat \<Rightarrow> AgentToServer \<Rightarrow> OpampState \<Rightarrow> (ServerToAgent \<times> OpampState) option" where
  "onMessage sv c now conn msg s =
     (if length (m_InstanceUid msg) < 16 then None
      else if sv_maxMessageBytes sv > 0 \<and> sv_protoSize sv msg > sv_maxMessageBytes sv then Some (no_reply, s)
      else
        (let instanceId = sv_uuidText sv (take 16 (m_InstanceUid msg));
             (p, reg0) = FindOrCreateAgent instanceId conn (op_agents s);
             (reg1, os1) = (case m_AgentDescription msg of
                None \<Rightarrow> (reg0, op_owners s)
              | Some d \<Rightarrow>
                  (let reg = SetFleetId p (resolveFleetID sv c (deriveFleetId sv instanceId d)) reg0
                   in (reg, recordConnectionOwner sv now (storeID (agent_at reg p)) (op_owners s))));
             (a2, w2) = processAgentGrouping sv now (conn_ctx c) msg (agent_at reg1 p) (op_world s)
         in case UpdateStatus (sv_csr sv) msg no_reply a2 of
              None \<Rightarrow> None
            | Some (r3, a3, notified) \<Rightarrow>
                (let r4 = calcConnectionSettings sv a3 r3;
                     (a4, w4) = persistAgent sv c now msg a3 w2
                 in Some (r4, s\<lparr>op_world := w4, op_agents := put_agent p a4 reg1, op_owners := os1,
                                op_notified := op_notified s @ notified\<rparr>))))"

definition disconnect_agent :: "ServerDeps \<Rightarrow> gotime \<Rightarrow> string \<Rightarrow> OpampState \<Rightarrow> OpampState" where
  "disconnect_agent sv now agentId s =
     (let fleetId = (case FindAgent agentId (op_agents s) of None \<Rightarrow> agentId | Some p \<Rightarrow> storeID (agent_at (op_agents s) p))
      in s\<lparr>op_world := snd (svc_UpdateAgentStatus now fleetId AgentStatusOffline (op_world s)),
           op_owners := removeConnectionOwner sv fleetId (op_owners s)\<rparr>)"

definition onDisconnect :: "ServerDeps \<Rightarrow> gotime \<Rightarrow> nat \<Rightarrow> OpampState \<Rightarrow> OpampState" where
  "onDisconnect sv now conn s =
     (let s1 = foldl (\<lambda>s i. disconnect_agent sv now i s) s (on_connection (op_agents s) conn)
      in s1\<lparr>op_agents := RemoveConnection conn (op_agents s1)\<rparr>)"

section \<open>Pushes (\<open>config_sender.go\<close>)\<close>

definition SendToAgent :: "ConnAgent \<Rightarrow> ServerToAgent \<Rightarrow> OpampState \<Rightarrow> OpampState" where
  "SendToAgent a msg s = s\<lparr>op_sent := op_sent s @ [(oa_conn a, msg)]\<rparr>"

text \<open>Staging a config: the flag says whether the agent needs it, in which case the watcher waits for the
  next status report and the message is sent.\<close>

definition SetCustomConfig :: "string \<Rightarrow> nat \<Rightarrow> string option \<Rightarrow> nat \<Rightarrow> OpampState \<Rightarrow> bool \<times> OpampState" where
  "SetCustomConfig content watcher traceparent p s =
     (case calcRemoteConfig ((agent_at (op_agents s) p)\<lparr>oa_CustomInstanceConfig := content\<rparr>) of
        (True, a1) \<Rightarrow>
          (True, SendToAgent a1 (no_reply\<lparr>sa_RemoteConfig := oa_remoteConfig a1, sa_CustomMessage := traceparent\<rparr>)
             (s\<lparr>op_agents := put_agent p (a1\<lparr>oa_statusUpdateWatchers := oa_statusUpdateWatchers a1 @ [watcher]\<rparr>) (op_agents s)\<rparr>))
      | (False, a1) \<Rightarrow> (False, s\<lparr>op_agents := put_agent p a1 (op_agents s), op_notified := op_notified s @ [watcher]\<rparr>))"

datatype push_error = AgentNotFound | NoRemoteConfig | NoRestartCommand | ContextDone | AckTimeout

text \<open>How the wait for the next status report ends.\<close>

datatype ack_wait = Confirmed | WaitCancelled | WaitTimedOut

definition SendConfigToAgent ::
  "string \<Rightarrow> string \<Rightarrow> nat \<Rightarrow> string option \<Rightarrow> ack_wait \<Rightarrow> OpampState \<Rightarrow> push_error option \<times> OpampState" where
  "SendConfigToAgent agentId content watcher traceparent ack s =
     (case FindAgent agentId (op_agents s) of
        None \<Rightarrow> (Some AgentNotFound, s)
      | Some p \<Rightarrow>
          if \<not> HasCapability (agent_at (op_agents s) p) AcceptsRemoteConfig then (Some NoRemoteConfig, s)
          else (case SetCustomConfig content watcher traceparent p s of
              (False, s1) \<Rightarrow> (None, s1)
            | (True, s1) \<Rightarrow>
                ((case ack of Confirmed \<Rightarrow> None | WaitCancelled \<Rightarrow> Some ContextDone | WaitTimedOut \<Rightarrow> Some AckTimeout), s1)))"

definition RestartAgent :: "string \<Rightarrow> OpampState \<Rightarrow> push_error option \<times> OpampState" where
  "RestartAgent agentId s =
     (case FindAgent agentId (op_agents s) of
        None \<Rightarrow> (Some AgentNotFound, s)
      | Some p \<Rightarrow>
          (let a = agent_at (op_agents s) p in
           if \<not> HasCapability a AcceptsRestartCommand then (Some NoRestartCommand, s)
           else (None, SendToAgent a (no_reply\<lparr>sa_InstanceUid := oa_InstanceId a,
                  sa_Capabilities := (case oa_Status a of None \<Rightarrow> 0 | Some st \<Rightarrow> m_Capabilities st), sa_Restart := True\<rparr>) s)))"

text \<open>The loop over the clones of a group's agents, which addresses each by its wire id.\<close>

definition in_group ::
  "(string \<Rightarrow> OpampState \<Rightarrow> push_error option \<times> OpampState) \<Rightarrow> string \<Rightarrow> OpampState \<Rightarrow> string list \<times> (string \<times> push_error) list \<times> OpampState" where
  "in_group send groupId s =
     foldl (\<lambda>(ok, errs, s) (i, a).
         if oa_GroupID a \<noteq> Some groupId then (ok, errs, s)
         else (case send i s of
             (None, s1) \<Rightarrow> (ok @ [i], errs, s1)
           | (Some e, s1) \<Rightarrow> (ok, errs @ [(i, e)], s1)))
       ([], [], s) (GetAllAgentsReadonlyClone (op_agents s))"

definition SendConfigToAgentsInGroup ::
  "string \<Rightarrow> string \<Rightarrow> (string \<Rightarrow> nat) \<Rightarrow> (string \<Rightarrow> ack_wait) \<Rightarrow> OpampState \<Rightarrow> string list \<times> (string \<times> push_error) list \<times> OpampState" where
  "SendConfigToAgentsInGroup groupId content watcher ack s =
     in_group (\<lambda>i. SendConfigToAgent i content (watcher i) None (ack i)) groupId s"

definition RestartAgentsInGroup :: "string \<Rightarrow> OpampState \<Rightarrow> string list \<times> (string \<times> push_error) list \<times> OpampState" where
  "RestartAgentsInGroup groupId s = in_group RestartAgent groupId s"

definition SetCustomConfigForAgent :: "string \<Rightarrow> string \<Rightarrow> nat \<Rightarrow> OpampState \<Rightarrow> OpampState" where
  "SetCustomConfigForAgent agentId content watcher s =
     (case FindAgent agentId (op_agents s) of
        None \<Rightarrow> s
      | Some p \<Rightarrow> snd (SetCustomConfig content watcher None p s))"

text \<open>The configuration passed to \<open>UpdateConfig\<close>, here as its JSON text, is not read: the built-in one is staged.\<close>

definition UpdateConfig :: "string \<Rightarrow> string \<Rightarrow> nat \<Rightarrow> OpampState \<Rightarrow> push_error option \<times> OpampState" where
  "UpdateConfig agentId config watcher s =
     (case FindAgent agentId (op_agents s) of
        None \<Rightarrow> (Some AgentNotFound, s)
      | Some p \<Rightarrow> (None, SetCustomConfigForAgent agentId DefaultOTelConfig watcher s))"

definition OfferAgentConnectionSettings :: "string \<Rightarrow> ConnectionSettingsOffers \<Rightarrow> OpampState \<Rightarrow> OpampState" where
  "OfferAgentConnectionSettings i offers s =
     (case FindAgent i (op_agents s) of
        None \<Rightarrow> s
      | Some p \<Rightarrow> SendToAgent (agent_at (op_agents s) p) (no_reply\<lparr>sa_ConnectionSettings := Some offers\<rparr>) s)"

section \<open>The reconcile loop (\<open>reconciler.go\<close>)\<close>

definition reconcileAgent :: "(string \<Rightarrow> nat) \<Rightarrow> (string \<Rightarrow> ack_wait) \<Rightarrow> ConnAgent \<Rightarrow> OpampState \<Rightarrow> OpampState" where
  "reconcileAgent watcher ack a s =
     (if \<not> HasCapability a AcceptsRemoteConfig then s
      else (case resolveStoredConfig (op_store s) a of
          None \<Rightarrow> s
        | Some content \<Rightarrow>
            if deliveredConfigHash a = wireConfigHash content then s
            else snd (SendConfigToAgent (storeID a) content (watcher (oa_InstanceId a)) None (ack (oa_InstanceId a)) s)))"

definition heartbeatOwner :: "ServerDeps \<Rightarrow> gotime \<Rightarrow> ConnAgent \<Rightarrow> OpampState \<Rightarrow> OpampState" where
  "heartbeatOwner sv now a s = s\<lparr>op_owners := recordConnectionOwner sv now (storeID a) (op_owners s)\<rparr>"

definition reconcileOnce ::
  "ServerDeps \<Rightarrow> gotime \<Rightarrow> (string \<Rightarrow> nat) \<Rightarrow> (string \<Rightarrow> ack_wait) \<Rightarrow> OpampState \<Rightarrow> OpampState" where
  "reconcileOnce sv now watcher ack s =
     foldl (\<lambda>s a. reconcileAgent watcher ack a (heartbeatOwner sv now a s)) s (map snd (GetAllAgentsReadonlyClone (op_agents s)))"

definition ReconcileAgentNow :: "(string \<Rightarrow> nat) \<Rightarrow> (string \<Rightarrow> ack_wait) \<Rightarrow> string \<Rightarrow> OpampState \<Rightarrow> OpampState" where
  "ReconcileAgentNow watcher ack agentID s =
     (case FindAgent agentID (op_agents s) of None \<Rightarrow> s | Some p \<Rightarrow> reconcileAgent watcher ack (agent_at (op_agents s) p) s)"

end
