(* ===== verification/Opamp_Registry.thy ===== *)
theory Opamp_Registry
  imports Opamp_Server
begin

text \<open>
  The registry of connected agents over every history of messages, disconnections, pushes and reconcile
  sweeps: its two indexes and the connection table agree, the staged config of an agent is the one its
  content gives, and exactly which messages make the handler panic.
\<close>

section \<open>The invariant\<close>

definition agent_ok :: "ConnAgent \<Rightarrow> bool" where
  "agent_ok a \<longleftrightarrow> (oa_Status a \<noteq> None \<longrightarrow> oa_remoteConfig a \<noteq> None)
     \<and> (\<forall>cfg. oa_remoteConfig a = Some cfg \<longrightarrow> cfg = staged_config (oa_CustomInstanceConfig a))"

definition ids_ok :: "Agents \<Rightarrow> bool" where
  "ids_ok reg \<longleftrightarrow> (\<forall>p < length (objects reg). agent_ok (agent_at reg p))
     \<and> (\<forall>i p. map_of (agentsById reg) i = Some p \<longrightarrow> p < length (objects reg) \<and> oa_InstanceId (agent_at reg p) = i)"

text \<open>The zero UUID is exempt: changing away from it leaves its index entry behind.\<close>

definition fleet_ok :: "Agents \<Rightarrow> bool" where
  "fleet_ok reg \<longleftrightarrow> (\<forall>f p. map_of (agentsByFleetId reg) f = Some p \<longrightarrow> p < length (objects reg)
     \<and> (f \<noteq> zero_uuid \<longrightarrow> oa_FleetId (agent_at reg p) = f \<and> map_of (agentsById reg) (oa_InstanceId (agent_at reg p)) = Some p))"

definition connections_ok :: "Agents \<Rightarrow> bool" where
  "connections_ok reg \<longleftrightarrow>
     (\<forall>i c. i \<in> set (on_connection reg c) \<longleftrightarrow> (\<exists>p. map_of (agentsById reg) i = Some p \<and> oa_conn (agent_at reg p) = c))"

definition registry_ok :: "Agents \<Rightarrow> bool" where
  "registry_ok reg \<longleftrightarrow> ids_ok reg \<and> fleet_ok reg \<and> connections_ok reg"

text \<open>What no operation but \<open>SetFleetId\<close> changes of an agent.\<close>

definition same_identity :: "ConnAgent \<Rightarrow> ConnAgent \<Rightarrow> bool" where
  "same_identity a b \<longleftrightarrow> oa_InstanceId a = oa_InstanceId b \<and> oa_FleetId a = oa_FleetId b \<and> oa_conn a = oa_conn b"

lemma same_identity_refl [simp]: "same_identity a a" by (simp add: same_identity_def)

lemma same_identity_trans [trans]: "same_identity a b \<Longrightarrow> same_identity b c \<Longrightarrow> same_identity a c"
  by (simp add: same_identity_def)

lemma no_agents_ok [simp]: "registry_ok no_agents"
  by (simp add: registry_ok_def ids_ok_def fleet_ok_def connections_ok_def no_agents_def on_connection_def)

lemma agent_ok_new [simp]: "agent_ok (NewAgent i c)"
  by (simp add: agent_ok_def NewAgent_def)

section \<open>Registry operations\<close>

lemma agent_at_put [simp]:
  "p < length (objects reg) \<Longrightarrow> agent_at (put_agent p a reg) q = (if q = p then a else agent_at reg q)"
  "agentsById (put_agent p a reg) = agentsById reg" "agentsByFleetId (put_agent p a reg) = agentsByFleetId reg"
  "length (objects (put_agent p a reg)) = length (objects reg)" "on_connection (put_agent p a reg) = on_connection reg"
  by (auto simp: agent_at_def put_agent_def on_connection_def nth_list_update)

lemma ids_okD: "ids_ok reg \<Longrightarrow> map_of (agentsById reg) i = Some p \<Longrightarrow> p < length (objects reg) \<and> oa_InstanceId (agent_at reg p) = i"
  by (simp add: ids_ok_def)

lemma put_agent_ok:
  assumes "registry_ok reg" "p < length (objects reg)" "same_identity a (agent_at reg p)" "agent_ok a"
  shows "registry_ok (put_agent p a reg)"
proof -
  have same: "oa_InstanceId (agent_at (put_agent p a reg) q) = oa_InstanceId (agent_at reg q)"
      "oa_FleetId (agent_at (put_agent p a reg) q) = oa_FleetId (agent_at reg q)"
      "oa_conn (agent_at (put_agent p a reg) q) = oa_conn (agent_at reg q)" for q
    using assms(2,3) by (simp_all add: same_identity_def)
  have "ids_ok (put_agent p a reg)" using assms by (simp add: registry_ok_def ids_ok_def same del: agent_at_put(1)) (simp add: assms(2))
  moreover have "fleet_ok (put_agent p a reg)" using assms(1) by (simp add: registry_ok_def fleet_ok_def same del: agent_at_put(1))
  moreover have "connections_ok (put_agent p a reg)" using assms(1) by (simp add: registry_ok_def connections_ok_def same del: agent_at_put(1))
  ultimately show ?thesis by (simp add: registry_ok_def)
qed

lemma FindOrCreateAgent_ok:
  assumes "registry_ok reg" "FindOrCreateAgent i conn reg = (p, reg')"
  shows "registry_ok reg' \<and> map_of (agentsById reg') i = Some p"
proof (cases "map_of (agentsById reg) i")
  case (Some b)
  then show ?thesis using assms by (simp add: FindOrCreateAgent_def)
next
  case None
  define n where "n = length (objects reg)"
  have r: "p = n" "objects reg' = objects reg @ [NewAgent i conn]" "map_of (agentsById reg') = (map_of (agentsById reg))(i \<mapsto> n)"
      "agentsByFleetId reg' = agentsByFleetId reg"
      "connections reg' = AList.update conn (List.insert i (on_connection reg conn)) (connections reg)"
    using assms(2) None by (auto simp: FindOrCreateAgent_def n_def AList.update_conv')
  have at: "agent_at reg' q = (if q < n then agent_at reg q else NewAgent i conn)" if "q < Suc n" for q
    using that by (auto simp: agent_at_def r n_def nth_append)
  have new: "oa_InstanceId (NewAgent i conn) = i" "oa_conn (NewAgent i conn) = conn" by (simp_all add: NewAgent_def)
  have ids: "\<And>q. q < n \<Longrightarrow> agent_ok (agent_at reg q)"
      "\<And>j q. map_of (agentsById reg) j = Some q \<Longrightarrow> q < n \<and> oa_InstanceId (agent_at reg q) = j"
    using assms(1) by (auto simp: registry_ok_def ids_ok_def n_def)
  have "ids_ok reg'" using ids by (auto simp: ids_ok_def r at new n_def [symmetric] less_Suc_eq)
  moreover have "fleet_ok reg'"
    using assms(1) None by (auto simp: registry_ok_def fleet_ok_def r at n_def [symmetric] less_Suc_eq)
  moreover have on: "on_connection reg' c = (if c = conn then List.insert i (on_connection reg conn) else on_connection reg c)" for c
    by (simp add: on_connection_def r AList.update_conv')
  have "connections_ok reg'"
    using assms(1) None ids by (fastforce simp: registry_ok_def connections_ok_def r on at new less_Suc_eq)
  ultimately show ?thesis by (simp add: registry_ok_def r)
qed

lemma SetFleetId_ok:
  fixes f :: string
  assumes "registry_ok reg" "map_of (agentsById reg) i = Some p"
  defines "reg' \<equiv> SetFleetId p f reg"
  shows "registry_ok reg' \<and> map_of (agentsById reg') i = Some p \<and> agent_at reg' p = (agent_at reg p)\<lparr>oa_FleetId := f\<rparr>
    \<and> map_of (agentsByFleetId reg') f = Some p"
proof -
  have p: "p < length (objects reg)" "oa_InstanceId (agent_at reg p) = i" "agent_ok (agent_at reg p)"
    using assms(1,2) by (auto simp: registry_ok_def ids_ok_def)
  let ?prev = "oa_FleetId (agent_at reg p)"
  have len: "length (objects reg') = length (objects reg)" "agentsById reg' = agentsById reg" "on_connection reg' = on_connection reg"
    by (simp_all add: reg'_def SetFleetId_def Let_def put_agent_def on_connection_def fun_eq_iff)
  have at: "agent_at reg' q = (if q = p then (agent_at reg p)\<lparr>oa_FleetId := f\<rparr> else agent_at reg q)" for q
    using p(1) by (auto simp: reg'_def SetFleetId_def Let_def put_agent_def agent_at_def nth_list_update)
  have fl: "map_of (agentsByFleetId reg') g = (if g = f then Some p
      else if g = ?prev \<and> ?prev \<noteq> zero_uuid then None else map_of (agentsByFleetId reg) g)" for g
    by (auto simp: reg'_def SetFleetId_def Let_def put_agent_def AList.update_conv' delete_conv')
  have "ids_ok reg'" using assms(1) p(3) by (auto simp: registry_ok_def ids_ok_def len at agent_ok_def)
  moreover have "fleet_ok reg'" using assms(1,2) p by (auto simp: registry_ok_def fleet_ok_def len at fl split: if_splits)
  moreover have "connections_ok reg'" using assms(1) by (auto simp: registry_ok_def connections_ok_def len at)
  ultimately show ?thesis by (simp add: registry_ok_def at fl len assms(2))
qed

lemma drop_agent_simps [simp]:
  "agent_at (drop_agent reg i) = agent_at reg" "objects (drop_agent reg i) = objects reg" "connections (drop_agent reg i) = connections reg"
  "map_of (agentsById (drop_agent reg i)) = (map_of (agentsById reg))(i := None)"
  by (auto simp: drop_agent_def agent_at_def delete_conv')

lemma drop_agent_ok: "ids_ok reg \<Longrightarrow> fleet_ok reg \<Longrightarrow> ids_ok (drop_agent reg i) \<and> fleet_ok (drop_agent reg i)"
proof -
  assume ok: "ids_ok reg" "fleet_ok reg"
  have del: "map_of (agentsByFleetId (drop_agent reg i)) f = (case map_of (agentsById reg) i of
      None \<Rightarrow> map_of (agentsByFleetId reg) f
    | Some p \<Rightarrow> if f = oa_FleetId (agent_at reg p) then None else map_of (agentsByFleetId reg) f)" for f
    by (simp add: drop_agent_def delete_conv' split: option.split)
  have "fleet_ok (drop_agent reg i)"
    unfolding fleet_ok_def del using ok(2)
    by (cases "map_of (agentsById reg) i") (auto simp: fleet_ok_def split: if_splits, metis option.distinct(1), metis)
  then show ?thesis using ok(1) by (simp add: ids_ok_def)
qed

lemma drop_agents:
  "ids_ok reg \<Longrightarrow> fleet_ok reg \<Longrightarrow> (let reg' = foldl drop_agent reg ids in ids_ok reg' \<and> fleet_ok reg' \<and> agent_at reg' = agent_at reg
     \<and> connections reg' = connections reg \<and> (\<forall>i. map_of (agentsById reg') i = (if i \<in> set ids then None else map_of (agentsById reg) i)))"
  by (induction ids arbitrary: reg) (auto simp: Let_def drop_agent_ok)

lemma RemoveConnection_ok:
  assumes "registry_ok reg"
  shows "registry_ok (RemoveConnection conn reg)"
    and "map_of (agentsById (RemoveConnection conn reg)) i = (if i \<in> set (on_connection reg conn) then None else map_of (agentsById reg) i)"
proof -
  define base where "base = reg\<lparr>connections := AList.delete conn (connections reg)\<rparr>"
  have base: "ids_ok base" "fleet_ok base" "agent_at base = agent_at reg" "agentsById base = agentsById reg"
    using assms by (auto simp: base_def registry_ok_def ids_ok_def fleet_ok_def agent_at_def)
  define reg' where "reg' = RemoveConnection conn reg"
  have r: "ids_ok reg'" "fleet_ok reg'" "agent_at reg' = agent_at reg" "connections reg' = AList.delete conn (connections reg)"
      "\<And>i. map_of (agentsById reg') i = (if i \<in> set (on_connection reg conn) then None else map_of (agentsById reg) i)"
    using drop_agents [OF base(1,2), of "on_connection reg conn"] base
    by (auto simp: reg'_def RemoveConnection_def Let_def base_def [symmetric]) (simp add: base_def)
  have "on_connection reg' c = (if c = conn then [] else on_connection reg c)" for c
    by (simp add: on_connection_def r delete_conv')
  then have "connections_ok reg'" using assms by (auto simp: registry_ok_def connections_ok_def r)
  then show "registry_ok (RemoveConnection conn reg)" using r(1,2) by (simp add: registry_ok_def reg'_def)
  show "map_of (agentsById (RemoveConnection conn reg)) i = (if i \<in> set (on_connection reg conn) then None else map_of (agentsById reg) i)"
    using r(5) by (simp add: reg'_def)
qed

section \<open>One message\<close>

lemma calcRemoteConfig_simps [simp]:
  "snd (calcRemoteConfig a) = a\<lparr>oa_remoteConfig := Some (staged_config (oa_CustomInstanceConfig a))\<rparr>"
  by (simp add: calcRemoteConfig_def Let_def)

lemma staged_config_inject [simp]: "isEqualConfigSet (rc_Config (staged_config x)) (rc_Config (staged_config y)) \<longleftrightarrow> x = y"
  by (simp add: staged_config_def isEqualConfigSet_def isEqualConfigFile_def)

text \<open>The grouping step changes an agent's group and stages a config together with its hash.\<close>

lemma processAgentGrouping_agent:
  assumes "processAgentGrouping sv now ctx msg a w = (a', w')"
  shows "same_identity a' a \<and> oa_Status a' = oa_Status a \<and> oa_EffectiveConfig a' = oa_EffectiveConfig a
    \<and> oa_statusUpdateWatchers a' = oa_statusUpdateWatchers a \<and> (agent_ok a \<longrightarrow> agent_ok a')"
proof (cases "m_AgentDescription msg")
  case (Some d)
  obtain g n where gn: "extractGroupInfo d = (g, n)" by fastforce
  obtain config w1 where c: "getConfigForAgent sv now ctx (a\<lparr>oa_GroupID := Some g, oa_GroupName := Some n\<rparr>) w = (config, w1)" by fastforce
  have "a' = a\<lparr>oa_GroupID := Some g, oa_GroupName := Some n\<rparr>
      \<or> a' = a\<lparr>oa_GroupID := Some g, oa_GroupName := Some n, oa_CustomInstanceConfig := config, oa_remoteConfig := Some (staged_config config)\<rparr>"
    using assms by (auto simp: processAgentGrouping_def Some gn c Let_def split: if_splits)
  then show ?thesis by (auto simp: same_identity_def agent_ok_def)
qed (use assms in \<open>simp add: processAgentGrouping_def\<close>)

lemma updateHealth_agent:
  "updateHealth msg st a = (st', a') \<Longrightarrow> same_identity a' a \<and> oa_remoteConfig a' = oa_remoteConfig a
     \<and> oa_CustomInstanceConfig a' = oa_CustomInstanceConfig a \<and> oa_statusUpdateWatchers a' = oa_statusUpdateWatchers a"
  by (auto simp: updateHealth_def same_identity_def split: option.splits if_splits)

lemma updateStatusField_agent:
  assumes "updateStatusField msg a = (changed, a')"
  shows "same_identity a' a \<and> oa_remoteConfig a' = oa_remoteConfig a \<and> oa_CustomInstanceConfig a' = oa_CustomInstanceConfig a
    \<and> oa_statusUpdateWatchers a' = oa_statusUpdateWatchers a \<and> oa_Status a' \<noteq> None \<and> (oa_Status a = None \<longrightarrow> changed)"
proof -
  obtain s2 a1 where h: "updateHealth msg (snd (updateAgentDescription msg (case oa_Status a of None \<Rightarrow> msg | Some s \<Rightarrow> s))) a = (s2, a1)"
    by fastforce
  then have "\<exists>st. a' = a1\<lparr>oa_Status := Some st\<rparr>" "oa_Status a = None \<longrightarrow> changed"
    using assms by (auto simp: updateStatusField_def Let_def split: prod.splits)
  then show ?thesis using updateHealth_agent [OF h] by (auto simp: same_identity_def)
qed

lemma updateEffectiveConfig_agent:
  "updateEffectiveConfig msg a = Some a' \<Longrightarrow> same_identity a' a \<and> oa_remoteConfig a' = oa_remoteConfig a \<and> oa_Status a' = oa_Status a
     \<and> oa_CustomInstanceConfig a' = oa_CustomInstanceConfig a \<and> oa_statusUpdateWatchers a' = oa_statusUpdateWatchers a"
  "updateEffectiveConfig msg a = None \<longleftrightarrow> m_EffectiveConfig msg = Some None"
  by (auto simp: updateEffectiveConfig_def same_identity_def split: option.splits list.splits)

text \<open>With a staged config the comparison of hashes has both sides, so only a report without its map panics.\<close>

lemma processStatusUpdate_eq:
  assumes "updateStatusField msg a = (changed, a1)" "(if changed then calcRemoteConfig a1 else (False, a1)) = (config_changed, a2)"
    and "oa_remoteConfig a2 = Some cfg" "oa_Status a2 = Some st"
  shows "processStatusUpdate msg r a =
    (let lost = (case oa_Status a of None \<Rightarrow> True | Some s \<Rightarrow> m_SequenceNum s + 1 \<noteq> m_SequenceNum msg);
         r1 = (if status_compressed msg a1 \<and> lost then r\<lparr>sa_Flags := sa_Flags r OR 1\<rparr> else r);
         send = (config_changed \<or> (case m_RemoteConfigStatus st of None \<Rightarrow> False | Some rs \<Rightarrow> rs_LastRemoteConfigHash rs \<noteq> rc_ConfigHash cfg))
     in map_option (\<lambda>a3. (if send then r1\<lparr>sa_RemoteConfig := Some cfg\<rparr> else r1, a3)) (updateEffectiveConfig msg a2))"
  using assms by (simp add: processStatusUpdate_def Let_def split: option.split)

lemma status_stage:
  assumes "agent_ok a" "updateStatusField msg a = (changed, a1)" "(if changed then calcRemoteConfig a1 else (False, a1)) = (config_changed, a2)"
  shows "oa_remoteConfig a2 = Some (staged_config (oa_CustomInstanceConfig a)) \<and> same_identity a2 a \<and> oa_Status a2 = oa_Status a1
    \<and> oa_Status a2 \<noteq> None \<and> oa_CustomInstanceConfig a2 = oa_CustomInstanceConfig a \<and> oa_statusUpdateWatchers a2 = oa_statusUpdateWatchers a"
proof -
  have "a2 = (if changed then snd (calcRemoteConfig a1) else a1)" using assms(3) by (metis snd_conv)
  then show ?thesis using updateStatusField_agent [OF assms(2)] assms(1) by (auto simp: same_identity_def agent_ok_def)
qed

lemma processStatusUpdate_agent:
  assumes "agent_ok a"
  shows "processStatusUpdate msg r a = None \<longleftrightarrow> m_EffectiveConfig msg = Some None"
    and "processStatusUpdate msg r a = Some (r', a') \<Longrightarrow> same_identity a' a \<and> agent_ok a' \<and> oa_Status a' \<noteq> None
           \<and> oa_CustomInstanceConfig a' = oa_CustomInstanceConfig a \<and> oa_statusUpdateWatchers a' = oa_statusUpdateWatchers a"
proof -
  obtain changed a1 where u: "updateStatusField msg a = (changed, a1)" by fastforce
  obtain cc a2 where c: "(if changed then calcRemoteConfig a1 else (False, a1)) = (cc, a2)" by fastforce
  note stage = status_stage [OF assms u c]
  then obtain st where st: "oa_Status a2 = Some st" by blast
  obtain r2 where p: "processStatusUpdate msg r a = map_option (\<lambda>a3. (r2, a3)) (updateEffectiveConfig msg a2)"
    using processStatusUpdate_eq [OF u c _ st] stage by (auto simp: Let_def)
  show "processStatusUpdate msg r a = None \<longleftrightarrow> m_EffectiveConfig msg = Some None"
    using updateEffectiveConfig_agent(2) [of msg a2] by (simp add: p)
  assume "processStatusUpdate msg r a = Some (r', a')"
  then have "updateEffectiveConfig msg a2 = Some a'" by (auto simp: p)
  from updateEffectiveConfig_agent(1) [OF this] show "same_identity a' a \<and> agent_ok a' \<and> oa_Status a' \<noteq> None
      \<and> oa_CustomInstanceConfig a' = oa_CustomInstanceConfig a \<and> oa_statusUpdateWatchers a' = oa_statusUpdateWatchers a"
    using stage by (auto simp: same_identity_def agent_ok_def dest: sym)
qed

text \<open>A certificate request whose signature does not verify.\<close>

definition bad_csr :: "CsrTools \<Rightarrow> AgentToServer \<Rightarrow> bool" where
  "bad_csr tools msg \<longleftrightarrow>
     (case m_ConnectionSettingsRequest msg of
        Some (Some csr) \<Rightarrow>
          (case ct_pemDecode tools csr of
             None \<Rightarrow> False
           | Some der \<Rightarrow> (case ct_parseRequest tools der of Inl _ \<Rightarrow> False | Inr (valid, _) \<Rightarrow> \<not> valid))
      | _ \<Rightarrow> False)"

lemma UpdateStatus_agent:
  assumes "agent_ok a"
  shows "UpdateStatus tools msg r a = None \<longleftrightarrow> m_EffectiveConfig msg = Some None \<or> bad_csr tools msg"
    and "UpdateStatus tools msg r a = Some (r', a', ws) \<Longrightarrow> same_identity a' a \<and> agent_ok a' \<and> oa_Status a' \<noteq> None
           \<and> oa_CustomInstanceConfig a' = oa_CustomInstanceConfig a \<and> ws = oa_statusUpdateWatchers a \<and> oa_statusUpdateWatchers a' = []"
proof -
  have csr: "(case m_ConnectionSettingsRequest msg of None \<Rightarrow> Some r1 | Some request \<Rightarrow> processConnectionSettingsRequest tools request r1) = None
      \<longleftrightarrow> bad_csr tools msg" for r1
    by (auto simp: processConnectionSettingsRequest_def bad_csr_def split: option.splits sum.splits prod.splits if_splits)
  show "UpdateStatus tools msg r a = None \<longleftrightarrow> m_EffectiveConfig msg = Some None \<or> bad_csr tools msg"
    using processStatusUpdate_agent(1) [OF assms, of msg r] csr by (auto simp: UpdateStatus_def split: option.split)
  assume "UpdateStatus tools msg r a = Some (r', a', ws)"
  then obtain r1 a1 where "processStatusUpdate msg r a = Some (r1, a1)" "a' = a1\<lparr>oa_statusUpdateWatchers := []\<rparr>" "ws = oa_statusUpdateWatchers a1"
    by (auto simp: UpdateStatus_def split: option.splits)
  then show "same_identity a' a \<and> agent_ok a' \<and> oa_Status a' \<noteq> None
      \<and> oa_CustomInstanceConfig a' = oa_CustomInstanceConfig a \<and> ws = oa_statusUpdateWatchers a \<and> oa_statusUpdateWatchers a' = []"
    using processStatusUpdate_agent(2) [OF assms] by (fastforce simp: same_identity_def agent_ok_def)
qed

text \<open>Persisting changes nothing of the agent but its group.\<close>

definition same_but_group :: "ConnAgent \<Rightarrow> ConnAgent \<Rightarrow> bool" where
  "same_but_group a b \<longleftrightarrow> a\<lparr>oa_GroupID := None, oa_GroupName := None\<rparr> = b\<lparr>oa_GroupID := None, oa_GroupName := None\<rparr>"

lemma same_but_groupD:
  assumes "same_but_group a b"
  shows "same_identity a b" "oa_Status a = oa_Status b" "oa_remoteConfig a = oa_remoteConfig b" "storeID a = storeID b"
    "oa_CustomInstanceConfig a = oa_CustomInstanceConfig b" "oa_EffectiveConfig a = oa_EffectiveConfig b"
    "oa_statusUpdateWatchers a = oa_statusUpdateWatchers b" "agent_ok a = agent_ok b"
  using assms by (cases a; cases b; simp add: same_but_group_def same_identity_def agent_ok_def storeID_def)+

lemma same_but_group_simps [simp]:
  "same_but_group a a" "same_but_group (a\<lparr>oa_GroupID := g\<rparr>) b = same_but_group a b" "same_but_group (a\<lparr>oa_GroupName := g\<rparr>) b = same_but_group a b"
  by (simp_all add: same_but_group_def)

lemma ensureAgentGroup_agent: "same_but_group (fst (ensureAgentGroup sv now a w)) a"
  by (auto simp: ensureAgentGroup_def Let_def fresh_uuid_def split: option.split sum.split)

lemma persist_registration_agent: "same_but_group (fst (persist_registration sv c now msg existing a w)) a"
  using ensureAgentGroup_agent [of sv now a w] by (auto simp: persist_registration_def Let_def split: prod.split)

lemma persistAgent_agent: "same_but_group (fst (persistAgent sv c now msg a w)) a"
  using ensureAgentGroup_agent [of sv now a w] persist_registration_agent [of sv c now msg _ a]
  by (auto simp: persistAgent_def Let_def split: option.split prod.split) (metis fst_conv)

text \<open>The stages of a handled message: the agent found or created, its identity set, grouped, updated and
  persisted.\<close>

definition identified :: "ServerDeps \<Rightarrow> connAuth \<Rightarrow> nat \<Rightarrow> AgentToServer \<Rightarrow> OpampState \<Rightarrow> nat \<times> Agents" where
  "identified sv c conn msg s =
     (let instanceId = sv_uuidText sv (take 16 (m_InstanceUid msg)); (p, reg) = FindOrCreateAgent instanceId conn (op_agents s)
      in (p, case m_AgentDescription msg of
               None \<Rightarrow> reg
             | Some d \<Rightarrow> SetFleetId p (resolveFleetID sv c (deriveFleetId sv instanceId d)) reg))"

definition oversized :: "ServerDeps \<Rightarrow> AgentToServer \<Rightarrow> bool" where
  "oversized sv msg \<longleftrightarrow> sv_maxMessageBytes sv > 0 \<and> sv_protoSize sv msg > sv_maxMessageBytes sv"

lemma identified_ok:
  assumes "registry_ok (op_agents s)" "identified sv c conn msg s = (p, reg)"
  shows "registry_ok reg \<and> map_of (agentsById reg) (sv_uuidText sv (take 16 (m_InstanceUid msg))) = Some p
    \<and> p < length (objects reg) \<and> agent_ok (agent_at reg p)"
proof -
  obtain p0 reg0 where f: "FindOrCreateAgent (sv_uuidText sv (take 16 (m_InstanceUid msg))) conn (op_agents s) = (p0, reg0)" by fastforce
  note r = FindOrCreateAgent_ok [OF assms(1) f]
  have "registry_ok reg \<and> map_of (agentsById reg) (sv_uuidText sv (take 16 (m_InstanceUid msg))) = Some p"
    using assms(2) r SetFleetId_ok [of reg0 _ p0] by (auto simp: identified_def f split: option.splits)
  then show ?thesis by (auto simp: registry_ok_def ids_ok_def)
qed

lemma onMessage_stages:
  assumes "length (m_InstanceUid msg) \<ge> 16" "\<not> oversized sv msg" "identified sv c conn msg s = (p, reg)"
    "processAgentGrouping sv now (conn_ctx c) msg (agent_at reg p) (op_world s) = (a2, w2)"
  shows "map_option (\<lambda>(r, s'). (r, op_world s', op_agents s', op_notified s')) (onMessage sv c now conn msg s) =
    map_option (\<lambda>(r3, a3, ws). (calcConnectionSettings sv a3 r3, snd (persistAgent sv c now msg a3 w2),
        put_agent p (fst (persistAgent sv c now msg a3 w2)) reg, op_notified s @ ws))
      (UpdateStatus (sv_csr sv) msg no_reply a2)"
    and "onMessage sv c now conn msg s = Some (r, s') \<Longrightarrow> op_sent s' = op_sent s"
  using assms by (auto simp: onMessage_def identified_def oversized_def Let_def split: prod.splits option.splits)

lemma onMessage_result:
  assumes "length (m_InstanceUid msg) \<ge> 16" "\<not> oversized sv msg" "identified sv c conn msg s = (p, reg)"
    "processAgentGrouping sv now (conn_ctx c) msg (agent_at reg p) (op_world s) = (a2, w2)"
    "onMessage sv c now conn msg s = Some (r, s')"
  obtains r3 a3 ws where "UpdateStatus (sv_csr sv) msg no_reply a2 = Some (r3, a3, ws)" "r = calcConnectionSettings sv a3 r3"
    "op_world s' = snd (persistAgent sv c now msg a3 w2)"
    "op_agents s' = put_agent p (fst (persistAgent sv c now msg a3 w2)) reg" "op_notified s' = op_notified s @ ws"
  using onMessage_stages(1) [OF assms(1-4)] assms(5) by (cases "UpdateStatus (sv_csr sv) msg no_reply a2") auto

lemma message_agent:
  assumes "registry_ok (op_agents s)" "onMessage sv c now conn msg s = Some (r, s')" "\<not> oversized sv msg" "identified sv c conn msg s = (p, reg)"
  shows "registry_ok (op_agents s') \<and> map_of (agentsById (op_agents s')) (sv_uuidText sv (take 16 (m_InstanceUid msg))) = Some p
    \<and> same_identity (agent_at (op_agents s') p) (agent_at reg p) \<and> oa_Status (agent_at (op_agents s') p) \<noteq> None
    \<and> (m_AgentDescription msg = None \<longrightarrow> oa_CustomInstanceConfig (agent_at (op_agents s') p) = oa_CustomInstanceConfig (agent_at reg p))"
proof -
  have ge: "length (m_InstanceUid msg) \<ge> 16" using assms(2) by (auto simp: onMessage_def split: if_splits)
  note reg = identified_ok [OF assms(1,4)]
  obtain a2 w2 where g: "processAgentGrouping sv now (conn_ctx c) msg (agent_at reg p) (op_world s) = (a2, w2)" by fastforce
  note a2 = processAgentGrouping_agent [OF g]
  obtain r3 a3 ws where u: "UpdateStatus (sv_csr sv) msg no_reply a2 = Some (r3, a3, ws)"
      and s': "op_agents s' = put_agent p (fst (persistAgent sv c now msg a3 w2)) reg"
    using onMessage_result [OF ge assms(3,4) g assms(2)] by metis
  have "agent_ok a2" using a2 reg by simp
  note a3 = UpdateStatus_agent(2) [OF this u] and a4 = same_but_groupD [OF persistAgent_agent, of sv c now msg a3 w2]
  have same: "same_identity (fst (persistAgent sv c now msg a3 w2)) (agent_at reg p)"
    using a4(1) a3 a2 by (simp add: same_identity_def)
  have "registry_ok (op_agents s')" unfolding s' using put_agent_ok same reg a3 a4(8) by blast
  moreover have "m_AgentDescription msg = None \<longrightarrow> a2 = agent_at reg p" using g by (auto simp: processAgentGrouping_def)
  ultimately show ?thesis using same reg a3 a4(2,5) by (auto simp: s')
qed

lemma onMessage_ok:
  assumes "registry_ok (op_agents s)" "onMessage sv c now conn msg s = Some (r, s')"
  shows "registry_ok (op_agents s')"
proof (cases "oversized sv msg")
  case True
  then show ?thesis using assms by (auto simp: onMessage_def oversized_def split: if_splits)
qed (use message_agent [OF assms _ surjective_pairing] in simp)

lemma message_panics:
  assumes "registry_ok (op_agents s)"
  shows "onMessage sv c now conn msg s = None \<longleftrightarrow>
    length (m_InstanceUid msg) < 16
    \<or> \<not> oversized sv msg \<and> (m_EffectiveConfig msg = Some None \<or> bad_csr (sv_csr sv) msg)"
proof (cases "length (m_InstanceUid msg) < 16 \<or> oversized sv msg")
  case True
  then show ?thesis by (auto simp: onMessage_def oversized_def)
next
  case False
  obtain p reg where i: "identified sv c conn msg s = (p, reg)" by fastforce
  obtain a2 w2 where g: "processAgentGrouping sv now (conn_ctx c) msg (agent_at reg p) (op_world s) = (a2, w2)" by fastforce
  have "agent_ok a2" using processAgentGrouping_agent [OF g] identified_ok [OF assms i] by simp
  moreover have "onMessage sv c now conn msg s = None \<longleftrightarrow> UpdateStatus (sv_csr sv) msg no_reply a2 = None"
    using onMessage_stages(1) [OF _ _ i g] False by (metis (no_types, lifting) not_less option.map_disc_iff)
  ultimately show ?thesis using UpdateStatus_agent(1) False by simp
qed

section \<open>Histories\<close>

lemma SetCustomConfig_ok:
  assumes "registry_ok (op_agents s)" "p < length (objects (op_agents s))"
  shows "registry_ok (op_agents (snd (SetCustomConfig content watcher tp p s)))"
proof -
  have "registry_ok (put_agent p a (op_agents s))" if "same_identity a (agent_at (op_agents s) p)" "agent_ok a" for a
    using put_agent_ok assms that by blast
  then show ?thesis
    by (auto simp: SetCustomConfig_def SendToAgent_def calcRemoteConfig_def Let_def same_identity_def agent_ok_def split: prod.split bool.split)
qed

lemma FindAgent_live: "registry_ok reg \<Longrightarrow> FindAgent i reg = Some p \<Longrightarrow> p < length (objects reg)"
  by (auto simp: FindAgent_def registry_ok_def ids_ok_def fleet_ok_def split: option.splits)

lemma SendConfigToAgent_ok:
  "registry_ok (op_agents s) \<Longrightarrow> registry_ok (op_agents (snd (SendConfigToAgent i content watcher tp ack s)))"
  using SetCustomConfig_ok FindAgent_live
  by (auto simp: SendConfigToAgent_def split: option.split prod.split bool.split) (metis snd_conv)+

lemma in_group_ok:
  assumes "\<And>i s. registry_ok (op_agents s) \<Longrightarrow> registry_ok (op_agents (snd (send i s)))" "registry_ok (op_agents s)"
  shows "registry_ok (op_agents (snd (snd (in_group send groupId s))))"
proof -
  have "registry_ok (op_agents (snd (snd (foldl (\<lambda>(ok, errs, s) (i, a).
         if oa_GroupID a \<noteq> Some groupId then (ok, errs, s)
         else (case send i s of (None, s1) \<Rightarrow> (ok @ [i], errs, s1) | (Some e, s1) \<Rightarrow> (ok, errs @ [(i, e)], s1))) (ok, errs, s) as))))"
    if "registry_ok (op_agents s)" for ok errs s as
    using that
  proof (induction as arbitrary: ok errs s)
    case (Cons ia as)
    obtain e s1 where "send (fst ia) s = (e, s1)" by fastforce
    moreover from this have "registry_ok (op_agents s1)" using assms(1) [OF Cons.prems, of "fst ia"] by simp
    ultimately show ?case using Cons.IH Cons.prems by (cases e) (simp_all add: case_prod_beta)
  qed simp
  then show ?thesis using assms(2) by (simp add: in_group_def)
qed

lemma SetCustomConfigForAgent_ok:
  "registry_ok (op_agents s) \<Longrightarrow> registry_ok (op_agents (SetCustomConfigForAgent i content watcher s))"
  using SetCustomConfig_ok FindAgent_live by (simp add: SetCustomConfigForAgent_def split: option.split)

lemma RestartAgent_agents [simp]: "op_agents (snd (RestartAgent i s)) = op_agents s"
  by (simp add: RestartAgent_def SendToAgent_def Let_def split: option.split)

lemma reconcileAgent_ok: "registry_ok (op_agents s) \<Longrightarrow> registry_ok (op_agents (reconcileAgent watcher ack a s))"
  by (simp add: reconcileAgent_def SendConfigToAgent_ok split: option.split)

lemma reconcileOnce_ok: "registry_ok (op_agents s) \<Longrightarrow> registry_ok (op_agents (reconcileOnce sv now watcher ack s))"
proof -
  have "registry_ok (op_agents s) \<Longrightarrow> registry_ok (op_agents (foldl (\<lambda>s a. reconcileAgent watcher ack a (heartbeatOwner sv now a s)) s as))" for as
    by (induction as arbitrary: s) (simp_all add: reconcileAgent_ok heartbeatOwner_def)
  then show "registry_ok (op_agents s) \<Longrightarrow> ?thesis" by (simp add: reconcileOnce_def)
qed

lemma disconnect_agents [simp]:
  "op_agents (disconnect_agent sv now i s) = op_agents s" "op_agents (foldl (\<lambda>s i. disconnect_agent sv now i s) s ids) = op_agents s"
proof -
  show one: "op_agents (disconnect_agent sv now i s) = op_agents s" for i s by (simp add: disconnect_agent_def Let_def)
  show "op_agents (foldl (\<lambda>s i. disconnect_agent sv now i s) s ids) = op_agents s" by (induction ids arbitrary: s) (simp_all add: one)
qed

text \<open>A step of this instance; \<open>elsewhere\<close> is any change that the API, the engine or another instance makes to the
  stored data.\<close>

inductive opamp_step :: "ServerDeps \<Rightarrow> OpampState \<Rightarrow> OpampState \<Rightarrow> bool" for sv where
  message: "onMessage sv c now conn msg s = Some (r, s') \<Longrightarrow> opamp_step sv s s'"
| disconnect: "opamp_step sv s (onDisconnect sv now conn s)"
| push: "opamp_step sv s (snd (SendConfigToAgent i content watcher tp ack s))"
| restart: "opamp_step sv s (snd (RestartAgent i s))"
| push_group: "opamp_step sv s (snd (snd (SendConfigToAgentsInGroup g content watchers acks s)))"
| restart_group: "opamp_step sv s (snd (snd (RestartAgentsInGroup g s)))"
| update_config: "opamp_step sv s (snd (UpdateConfig i config watcher s))"
| offer: "opamp_step sv s (OfferAgentConnectionSettings i offers s)"
| reconcile: "opamp_step sv s (reconcileOnce sv now watcher ack s)"
| poke: "opamp_step sv s (ReconcileAgentNow watcher ack i s)"
| elsewhere: "opamp_step sv s (s\<lparr>op_world := w, op_owners := os\<rparr>)"

lemma opamp_step_ok: "opamp_step sv s s' \<Longrightarrow> registry_ok (op_agents s) \<Longrightarrow> registry_ok (op_agents s')"
proof (induction rule: opamp_step.induct)
  case (disconnect s now conn)
  then show ?case by (simp add: onDisconnect_def Let_def RemoveConnection_ok)
next
  case (poke s watcher ack i)
  then show ?case by (simp add: ReconcileAgentNow_def reconcileAgent_ok split: option.split)
next
  case (update_config s i config watcher)
  then show ?case by (simp add: UpdateConfig_def SetCustomConfigForAgent_ok split: option.split)
next
  case (offer s i offers)
  then show ?case by (simp add: OfferAgentConnectionSettings_def SendToAgent_def split: option.split)
qed (simp_all add: onMessage_ok SendConfigToAgent_ok reconcileOnce_ok SendConfigToAgentsInGroup_def RestartAgentsInGroup_def in_group_ok)

lemma registry_reachable:
  "(opamp_step sv)\<^sup>*\<^sup>* s0 s \<Longrightarrow> op_agents s0 = no_agents \<Longrightarrow> registry_ok (op_agents s)"
  by (induction rule: rtranclp_induct) (simp_all add: opamp_step_ok)

text \<open>
  C14: The registry is consistent.  Over every history of messages, disconnections, pushes, restarts and reconcile
  sweeps, with the stored data changing in any way in between: an id other than the zero UUID resolves only to
  a connected agent that has it as its fleet id or its wire id; an agent is listed under exactly the connection
  it was created on; and closing a connection removes exactly the agents listed under it, from both indexes.
\<close>
theorem registry_consistent:
  assumes "(opamp_step sv)\<^sup>*\<^sup>* s0 s" "op_agents s0 = no_agents"
  defines "reg \<equiv> op_agents s"
  shows "(\<forall>i p. i \<noteq> zero_uuid \<and> FindAgent i reg = Some p \<longrightarrow>
        map_of (agentsById reg) (oa_InstanceId (agent_at reg p)) = Some p
        \<and> (oa_FleetId (agent_at reg p) = i \<or> oa_InstanceId (agent_at reg p) = i))
    \<and> (\<forall>i conn. i \<in> set (on_connection reg conn) \<longleftrightarrow> (\<exists>p. map_of (agentsById reg) i = Some p \<and> oa_conn (agent_at reg p) = conn))
    \<and> (\<forall>now conn i p. i \<noteq> zero_uuid \<and> FindAgent i (op_agents (onDisconnect sv now conn s)) = Some p \<longrightarrow>
        oa_conn (agent_at reg p) \<noteq> conn)"
proof -
  have ok: "registry_ok reg" unfolding reg_def using registry_reachable assms(1,2) .
  have find: "map_of (agentsById r) (oa_InstanceId (agent_at r p)) = Some p \<and> (oa_FleetId (agent_at r p) = i \<or> oa_InstanceId (agent_at r p) = i)"
    if "registry_ok r" "i \<noteq> zero_uuid" "FindAgent i r = Some p" for r i p
    using that by (auto simp: FindAgent_def registry_ok_def ids_ok_def fleet_ok_def split: option.splits)
  have dis: "op_agents (onDisconnect sv now conn s) = RemoveConnection conn reg" for now conn
    by (simp add: onDisconnect_def Let_def reg_def)
  have "oa_conn (agent_at reg p) \<noteq> conn" if "i \<noteq> zero_uuid" "FindAgent i (RemoveConnection conn reg) = Some p" for conn i p
  proof -
    have at: "agent_at (RemoveConnection conn reg) = agent_at reg"
      using drop_agents [of "reg\<lparr>connections := AList.delete conn (connections reg)\<rparr>" "on_connection reg conn"] ok
      by (auto simp: RemoveConnection_def Let_def registry_ok_def ids_ok_def fleet_ok_def agent_at_def)
    have "map_of (agentsById (RemoveConnection conn reg)) (oa_InstanceId (agent_at reg p)) = Some p"
      using find [OF RemoveConnection_ok(1) [OF ok] that] by (simp add: at)
    then show ?thesis using ok by (auto simp: RemoveConnection_ok(2) [OF ok] registry_ok_def connections_ok_def split: if_splits)
  qed
  moreover have "connections_ok reg" using ok by (simp add: registry_ok_def)
  ultimately show ?thesis using find [OF ok] unfolding dis connections_ok_def by blast
qed

text \<open>
  C17: Which messages panic.  In every reachable state the message handler panics exactly on a wire id shorter than
  sixteen bytes and, unless the size cap drops the message first, on a reported effective config without its
  file map or a certificate request whose signature does not verify.  Every other message is answered, and
  the nil dereference of a missing staged config is impossible.
\<close>
theorem message_panics_exactly:
  assumes "(opamp_step sv)\<^sup>*\<^sup>* s0 s" "op_agents s0 = no_agents"
  shows "onMessage sv c now conn msg s = None \<longleftrightarrow>
    length (m_InstanceUid msg) < 16
    \<or> \<not> oversized sv msg \<and> (m_EffectiveConfig msg = Some None \<or> bad_csr (sv_csr sv) msg)"
  using message_panics [OF registry_reachable [OF assms]] .

section \<open>A small deployment\<close>

text \<open>One process, one agent that has a row in a group with a config, and messages of that agent without a
  description.\<close>

definition pod_wire :: string where "pod_wire = ''0123456789abcdef''"

definition pod_server :: ServerDeps where
  "pod_server = \<lparr>sv_env = sample_env, sv_registry = Some ''pod-1'', sv_maxMessageBytes = 0,
     sv_adoptOnSupervise = True, sv_otlpGRPCEndpoint = ''0.0.0.0:4317'', sv_otlpHTTPEndpoint = [],
     sv_uuidText = (\<lambda>b. b), sv_newSHA1 = (\<lambda>ns seed. ns @ seed), sv_protoSize = (\<lambda>m. 100),
     sv_csr = \<lparr>ct_pemDecode = Some, ct_parseRequest = (\<lambda>x. Inr (x = ''signed'', x))\<rparr>,
     sv_marshalYAML = (\<lambda>n. None), sv_validYAML = (\<lambda>x. True), sv_pipelines = (\<lambda>x. None)\<rparr>"

definition pod_conn :: connAuth where
  "pod_conn = \<lparr>ca_tenant = ''default'', ca_authenticated = True, ca_pinnedFleetID = ''pinned-id'', ca_pinnedEnv = ''prod'', ca_pinnedCluster = []\<rparr>"

definition pod_row :: Agent where
  "pod_row = (sample_agent pod_wire)\<lparr>ag_GroupID := Some ''g1'', ag_GroupName := Some ''edge'', ag_EffectiveConfig := ''receivers''\<rparr>"

definition pod_config :: Config where
  "pod_config = \<lparr>cf_ID = ''c1'', cf_Name = [], cf_AgentID = None, cf_GroupID = Some ''g1'', cf_ConfigHash = Hash ''exporters'',
     cf_Content = ''exporters'', cf_Version = 1, cf_CreatedAt = 1, cf_ArchivedAt = None\<rparr>"

definition pod_start :: OpampState where
  "pod_start = \<lparr>op_world = empty_world\<lparr>w_store := empty_store\<lparr>agents := [(pod_wire, pod_row), (''pinned-id'', pod_row\<lparr>ag_ID := ''pinned-id''\<rparr>)],
        configs := [(''c1'', pod_config)]\<rparr>\<rparr>,
     op_agents = no_agents, op_owners = [], op_sent = [], op_notified = []\<rparr>"

definition pod_beat :: "RemoteConfigStatus option \<Rightarrow> AgentToServer" where
  "pod_beat rs = \<lparr>m_InstanceUid = pod_wire, m_SequenceNum = 1, m_AgentDescription = None, m_Capabilities = 2, m_Health = None,
     m_EffectiveConfig = Some (Some [([], ''processors'')]), m_RemoteConfigStatus = rs, m_PackageStatuses = None, m_ConnectionSettingsRequest = None\<rparr>"

lemma pod_simps [simp]:
  "sv_uuidText pod_server b = b" "oversized pod_server msg \<longleftrightarrow> False" "sv_env pod_server = sample_env" "length pod_wire = 16"
  "take 16 pod_wire = pod_wire" "op_agents pod_start = no_agents" "pod_wire \<noteq> zero_uuid"
  by (simp_all add: pod_server_def oversized_def pod_wire_def pod_start_def zero_uuid_def)

lemma pod_beat_simps [simp]:
  "m_InstanceUid (pod_beat rs) = pod_wire" "m_AgentDescription (pod_beat rs) = None" "m_RemoteConfigStatus (pod_beat rs) = rs"
  "m_EffectiveConfig (pod_beat rs) = Some (Some [([], ''processors'')])" "m_ConnectionSettingsRequest (pod_beat rs) = None"
  by (simp_all add: pod_beat_def)

lemma pod_beat_handled:
  "registry_ok (op_agents s) \<Longrightarrow> \<exists>r s'. onMessage pod_server pod_conn now conn (pod_beat rs) s = Some (r, s')"
  using message_panics [of s pod_server pod_conn now conn "pod_beat rs"]
  by (cases "onMessage pod_server pod_conn now conn (pod_beat rs) s") (auto simp: bad_csr_def)

text \<open>The agent after its first message.\<close>

lemma pod_first:
  assumes "onMessage pod_server pod_conn now conn (pod_beat rs) pod_start = Some (r, s')"
  shows "(opamp_step pod_server)\<^sup>*\<^sup>* pod_start s' \<and> map_of (agentsById (op_agents s')) pod_wire = Some 0 \<and> storeID (agent_at (op_agents s') 0) = pod_wire
    \<and> oa_InstanceId (agent_at (op_agents s') 0) = pod_wire \<and> oa_Status (agent_at (op_agents s') 0) \<noteq> None \<and> oa_CustomInstanceConfig (agent_at (op_agents s') 0) = []"
proof -
  have "\<exists>reg. identified pod_server pod_conn conn (pod_beat rs) pod_start = (0, reg) \<and> agent_at reg 0 = NewAgent pod_wire conn"
    by (simp add: identified_def FindOrCreateAgent_def no_agents_def agent_at_def)
  then obtain reg where i: "identified pod_server pod_conn conn (pod_beat rs) pod_start = (0, reg)" "agent_at reg 0 = NewAgent pod_wire conn" by blast
  from message_agent [OF _ assms _ i(1)] i(2) show ?thesis
    using opamp_step.message [OF assms] by (auto simp: same_identity_def storeID_def NewAgent_def)
qed

theorem registry_consistent_witness:
  "\<exists>r s'. onMessage pod_server pod_conn 5 1 (pod_beat None) pod_start = Some (r, s')
     \<and> \<not> (\<exists>p. FindAgent pod_wire (op_agents (onDisconnect pod_server 6 1 s')) = Some p \<and> oa_conn (agent_at (op_agents s') p) = 1)"
proof -
  obtain r s' where m: "onMessage pod_server pod_conn 5 1 (pod_beat None) pod_start = Some (r, s')" using pod_beat_handled by fastforce
  then have "(opamp_step pod_server)\<^sup>*\<^sup>* pod_start s'" using pod_first by blast
  from registry_consistent [OF this pod_simps(6)]
  have "\<not> (\<exists>p. FindAgent pod_wire (op_agents (onDisconnect pod_server 6 1 s')) = Some p \<and> oa_conn (agent_at (op_agents s') p) = 1)"
    using pod_simps(7) by blast
  then show ?thesis using m by blast
qed

theorem message_panics_exactly_witness:
  "onMessage pod_server pod_conn 5 1 ((pod_beat None)\<lparr>m_EffectiveConfig := Some None\<rparr>) pod_start = None
   \<and> onMessage pod_server pod_conn 5 1 (pod_beat None) pod_start \<noteq> None"
  using message_panics_exactly [OF rtranclp.rtrancl_refl, of pod_start pod_server pod_conn 5 1 "(pod_beat None)\<lparr>m_EffectiveConfig := Some None\<rparr>"]
    message_panics_exactly [OF rtranclp.rtrancl_refl, of pod_start pod_server pod_conn 5 1 "pod_beat None"]
  by (simp add: bad_csr_def)

end
