(* ===== verification/Opamp_Delivery.thy ===== *)
theory Opamp_Delivery
  imports Opamp_Registry
begin

text \<open>
  What a handled message does to the stored data: only the agent's own row is written, a stored group
  survives a reconnect that reports none, the delivered fingerprint comes only from an acknowledged config and,
  once the desired config is acknowledged, drift detection reports the agent in sync.
\<close>

section \<open>Store effects of the service calls\<close>

definition modify_row :: "string \<Rightarrow> (Agent \<Rightarrow> Agent) \<Rightarrow> AppStore \<Rightarrow> AppStore" where
  "modify_row i f st = (case modify_agent i f st of Inl _ \<Rightarrow> st | Inr st' \<Rightarrow> st')"

lemma modify_row_simps [simp]:
  "map_of (agents (modify_row i f st)) j = (if j = i then map_option f (map_of (agents st) i) else map_of (agents st) j)"
  "configs (modify_row i f st) = configs st" "groups (modify_row i f st) = groups st"
  by (auto simp: modify_row_def modify_agent_def AList.update_conv' split: option.split)

lemma GetAgent_modify_row:
  "(\<And>a. ag_DeletedAt (f a) = ag_DeletedAt a) \<Longrightarrow>
     GetAgent j (modify_row i f st) = (if j = i then map_option f (GetAgent i st) else GetAgent j st)"
  by (auto simp: GetAgent_def split: option.split)

lemma store_call_store:
  "(\<And>w. w_store (after w) = w_store w) \<Longrightarrow>
     w_store (snd (store_call f after w)) = (case f (w_store w) of Inl _ \<Rightarrow> w_store w | Inr st \<Rightarrow> st)"
  by (simp add: store_call_def split: sum.split)

lemma drift_update_store:
  "w_store (snd (drift_update env now i f w)) = (case f (w_store w) of Inl _ \<Rightarrow> w_store w | Inr st \<Rightarrow> st)"
  unfolding drift_update_def Let_def by (rule store_call_store) (simp add: recordDriftTransition_def)

lemma svc_update_store [simp]:
  "w_store (snd (svc_UpdateAgentStatus now i status w)) = modify_row i (\<lambda>a. a\<lparr>ag_Status := status, ag_UpdatedAt := now\<rparr>) (w_store w)"
  "w_store (snd (svc_UpdateAgentLastSeen now i t w)) = modify_row i (\<lambda>a. a\<lparr>ag_LastSeen := t, ag_UpdatedAt := now\<rparr>) (w_store w)"
  "w_store (snd (svc_UpdateAgentEffectiveConfig env now i e w)) = modify_row i (\<lambda>a. a\<lparr>ag_EffectiveConfig := e, ag_UpdatedAt := now\<rparr>) (w_store w)"
  "w_store (snd (svc_UpdateAgentDeliveredConfigHash env now i h w)) = modify_row i (\<lambda>a. a\<lparr>ag_DeliveredConfigHash := h, ag_UpdatedAt := now\<rparr>) (w_store w)"
  by (simp_all add: svc_UpdateAgentStatus_def svc_UpdateAgentLastSeen_def svc_UpdateAgentEffectiveConfig_def
      svc_UpdateAgentDeliveredConfigHash_def drift_update_store store_call_store modify_row_def
      UpdateAgentStatus_def UpdateAgentLastSeen_def UpdateAgentEffectiveConfig_def UpdateAgentDeliveredConfigHash_def)

text \<open>The row a registration leaves: the store keeps the name and the capabilities that a report leaves empty.\<close>

definition registered_row :: "gotime \<Rightarrow> Agent \<Rightarrow> Agent \<Rightarrow> Agent" where
  "registered_row now agent existing =
     existing\<lparr>ag_Name := (if ag_Name agent = [] then ag_Name existing else ag_Name agent), ag_Labels := ag_Labels agent,
       ag_Version := ag_Version agent, ag_GroupID := ag_GroupID agent, ag_GroupName := ag_GroupName agent,
       ag_Capabilities := (if ag_Capabilities agent = [] then ag_Capabilities existing else ag_Capabilities agent), ag_UpdatedAt := now\<rparr>"

lemma svc_registration_store:
  assumes "GetAgent (ag_ID agent) (w_store w) \<noteq> None"
  shows "w_store (snd (svc_UpdateAgentRegistration now agent w)) = modify_row (ag_ID agent) (registered_row now agent) (w_store w)"
  using assms
  by (auto simp: svc_UpdateAgentRegistration_def store_call_store UpdateAgentRegistration_def modify_row_def modify_agent_def
      GetAgent_def registered_row_def Let_def split: option.splits if_splits)

section \<open>Frames\<close>

lemma svc_CreateConfig_agents: "svc_CreateConfig c st = Inr st' \<Longrightarrow> agents st' = agents st \<and> groups st' = groups st"
  by (auto simp: svc_CreateConfig_def store_CreateConfig_def split: if_splits)

lemma tryAdopt_agents:
  "agents (w_store (snd (tryAdoptEffectiveConfig sv now ctx a w))) = agents (w_store w)"
  by (auto simp: tryAdoptEffectiveConfig_def Let_def fresh_uuid_def svc_CreateConfig_agents split: option.split sum.split)

lemma getConfigForAgent_agents:
  "agents (w_store (snd (getConfigForAgent sv now ctx a w))) = agents (w_store w)"
  using tryAdopt_agents [of sv now ctx a w] by (auto simp: getConfigForAgent_def split: option.split prod.split)

lemma processAgentGrouping_agents:
  "agents (w_store (snd (processAgentGrouping sv now ctx msg a w))) = agents (w_store w)"
  using getConfigForAgent_agents by (auto simp: processAgentGrouping_def Let_def split: option.split prod.split) (metis snd_conv)+

lemma ensureAgentGroup_agents:
  "agents (w_store (snd (ensureAgentGroup sv now a w))) = agents (w_store w)"
  "configs (w_store (snd (ensureAgentGroup sv now a w))) = configs (w_store w)"
  by (auto simp: ensureAgentGroup_def Let_def fresh_uuid_def CreateGroup_def split: option.split sum.split if_splits)

lemma GetAgent_cong: "agents st = agents st' \<Longrightarrow> GetAgent i st = GetAgent i st'"
  by (simp add: GetAgent_def)

text \<open>The world just before the delivered fingerprint is considered, for an agent that has a row.\<close>

definition before_delivered :: "ServerDeps \<Rightarrow> connAuth \<Rightarrow> gotime \<Rightarrow> AgentToServer \<Rightarrow> ConnAgent \<Rightarrow> Agent \<Rightarrow> World \<Rightarrow> World" where
  "before_delivered sv c now msg a existing w =
     (let w2 = snd (svc_UpdateAgentLastSeen now (storeID a) now
                 (snd (svc_UpdateAgentStatus now (storeID a) (determineAgentStatus msg) w)));
          (a1, w3) = persist_registration sv c now msg existing a w2
      in if oa_EffectiveConfig a1 = [] then w3
         else snd (svc_UpdateAgentEffectiveConfig (sv_env sv) now (storeID a1) (oa_EffectiveConfig a1) w3))"

lemma persistAgent_existing:
  assumes "GetAgent (storeID a) (w_store w) = Some existing" "persistAgent sv c now msg a w = (a', w')"
  shows "w' = persist_delivered sv now a' (before_delivered sv c now msg a existing w)"
  using assms by (auto simp: persistAgent_def before_delivered_def Let_def split: prod.splits)

lemma reported_row_simps [simp]:
  "ag_ID (reported_row c now msg a) = storeID a" "ag_GroupID (reported_row c now msg a) = oa_GroupID a"
  "ag_GroupName (reported_row c now msg a) = oa_GroupName a" "ag_DeletedAt (reported_row c now msg a) = None"
  "ag_Labels (reported_row c now msg a) = resolveLabels c (extractAgentLabels (m_AgentDescription msg))"
  by (simp_all add: reported_row_def)

text \<open>What a registration does to the row: with a description the group in memory is the one written.\<close>

lemma persist_registration_row:
  assumes "GetAgent (storeID a) (w_store w) = Some row" "persist_registration sv c now msg existing a w = (a', w')"
  shows "configs (w_store w') = configs (w_store w)"
    and "j \<noteq> storeID a \<Longrightarrow> map_of (agents (w_store w')) j = map_of (agents (w_store w)) j"
    and "GetAgent (storeID a) (w_store w') = Some (if m_AgentDescription msg = None then row else registered_row now (reported_row c now msg a') row)"
proof -
  obtain a1 w1 where e: "ensureAgentGroup sv now a w = (a1, w1)" by fastforce
  have w1: "agents (w_store w1) = agents (w_store w)" "configs (w_store w1) = configs (w_store w)"
    using ensureAgentGroup_agents [of sv now a w] by (simp_all add: e)
  have id: "storeID a' = storeID a" using persist_registration_agent [of sv c now msg existing a w] assms(2) by (simp add: same_but_groupD)
  have row: "GetAgent (storeID a) (w_store w1) = Some row" using assms(1) w1(1) by (simp add: GetAgent_def)
  have w': "w_store w' = modify_row (storeID a) (registered_row now (reported_row c now msg a')) (w_store w1)" if "m_AgentDescription msg \<noteq> None"
    using assms(2) that row svc_registration_store [of "reported_row c now msg a'" w1 now]
    by (auto simp: persist_registration_def e Let_def id split: if_splits)
  have f: "\<And>x. ag_DeletedAt (registered_row now (reported_row c now msg a') x) = ag_DeletedAt x" by (simp add: registered_row_def)
  have none: "m_AgentDescription msg = None \<Longrightarrow> w' = w" using assms(2) by (simp add: persist_registration_def)
  show "configs (w_store w') = configs (w_store w)" using w' none w1 by (cases "m_AgentDescription msg") simp_all
  show "j \<noteq> storeID a \<Longrightarrow> map_of (agents (w_store w')) j = map_of (agents (w_store w)) j"
    using w' none w1 by (cases "m_AgentDescription msg") simp_all
  show "GetAgent (storeID a) (w_store w') = Some (if m_AgentDescription msg = None then row else registered_row now (reported_row c now msg a') row)"
    using w' none assms(1) row by (cases "m_AgentDescription msg") (simp_all add: GetAgent_modify_row f)
qed

text \<open>The row before the delivered fingerprint is considered.\<close>

lemma before_delivered_row:
  assumes "GetAgent (storeID a) (w_store w) = Some existing" "fst (persistAgent sv c now msg a w) = a'"
  defines "w4 \<equiv> before_delivered sv c now msg a existing w"
  shows "configs (w_store w4) = configs (w_store w)"
    and "j \<noteq> storeID a \<Longrightarrow> map_of (agents (w_store w4)) j = map_of (agents (w_store w)) j"
    and "\<exists>row. GetAgent (storeID a) (w_store w4) = Some row \<and> ag_ID row = ag_ID existing \<and> ag_DeliveredConfigHash row = ag_DeliveredConfigHash existing
           \<and> ag_EffectiveConfig row = (if oa_EffectiveConfig a = [] then ag_EffectiveConfig existing else oa_EffectiveConfig a)
           \<and> (if m_AgentDescription msg = None then ag_GroupID row = ag_GroupID existing \<and> ag_GroupName row = ag_GroupName existing \<and> ag_Labels row = ag_Labels existing
              else ag_GroupID row = oa_GroupID a' \<and> ag_GroupName row = oa_GroupName a' \<and> ag_Labels row = resolveLabels c (extractAgentLabels (m_AgentDescription msg)))"
proof -
  define w2 where "w2 = snd (svc_UpdateAgentLastSeen now (storeID a) now (snd (svc_UpdateAgentStatus now (storeID a) (determineAgentStatus msg) w)))"
  have w2: "configs (w_store w2) = configs (w_store w)" "\<And>j. j \<noteq> storeID a \<Longrightarrow> map_of (agents (w_store w2)) j = map_of (agents (w_store w)) j"
      "GetAgent (storeID a) (w_store w2) = Some (existing\<lparr>ag_Status := determineAgentStatus msg, ag_LastSeen := now, ag_UpdatedAt := now\<rparr>)"
    using assms(1) by (simp_all add: w2_def GetAgent_modify_row)
  obtain w3 where p: "persist_registration sv c now msg existing a w2 = (a', w3)"
    using assms(1,2) by (cases "persist_registration sv c now msg existing a w2") (simp add: persistAgent_def Let_def w2_def [symmetric])
  note w3 = persist_registration_row [OF w2(3) p]
  have a': "storeID a' = storeID a" "oa_EffectiveConfig a' = oa_EffectiveConfig a"
    using persist_registration_agent [of sv c now msg existing a w2] by (simp_all add: p same_but_groupD)
  have w4: "w4 = (if oa_EffectiveConfig a = [] then w3 else snd (svc_UpdateAgentEffectiveConfig (sv_env sv) now (storeID a) (oa_EffectiveConfig a) w3))"
    by (simp add: w4_def before_delivered_def w2_def [symmetric] p a')
  show "configs (w_store w4) = configs (w_store w)" using w2(1) w3(1) by (simp add: w4)
  show "j \<noteq> storeID a \<Longrightarrow> map_of (agents (w_store w4)) j = map_of (agents (w_store w)) j" using w2(2) w3(2) by (simp add: w4)
  show "\<exists>row. GetAgent (storeID a) (w_store w4) = Some row \<and> ag_ID row = ag_ID existing \<and> ag_DeliveredConfigHash row = ag_DeliveredConfigHash existing
           \<and> ag_EffectiveConfig row = (if oa_EffectiveConfig a = [] then ag_EffectiveConfig existing else oa_EffectiveConfig a)
           \<and> (if m_AgentDescription msg = None then ag_GroupID row = ag_GroupID existing \<and> ag_GroupName row = ag_GroupName existing \<and> ag_Labels row = ag_Labels existing
              else ag_GroupID row = oa_GroupID a' \<and> ag_GroupName row = oa_GroupName a' \<and> ag_Labels row = resolveLabels c (extractAgentLabels (m_AgentDescription msg)))"
    using w3(3) by (simp add: w4 GetAgent_modify_row registered_row_def)
qed

section \<open>The delivered fingerprint\<close>

definition confirmed :: "AppStore \<Rightarrow> ConnAgent \<Rightarrow> string option" where
  "confirmed st a = (case appliedConfigHash a of Some h \<Rightarrow> Some h | None \<Rightarrow> appliedConfigHashFromDesired st a)"

lemma persist_delivered_store:
  "w_store (persist_delivered sv now a w) = (case confirmed (w_store w) a of
       None \<Rightarrow> w_store w
     | Some h \<Rightarrow> modify_row (storeID a) (\<lambda>x. x\<lparr>ag_DeliveredConfigHash := h, ag_UpdatedAt := now\<rparr>) (w_store w))"
  by (auto simp: persist_delivered_def confirmed_def split: option.split)

lemma wireConfigHash_not_Nil [simp]: "wireConfigHash x \<noteq> []"
  unfolding wireConfigHash_def by (metis append_Nil append_Nil2 length_sha256 list.size(3) zero_neq_numeral)

lemma confirmed_sound:
  assumes "agent_ok a" "confirmed st a = Some h"
  shows "\<exists>content. h = Hash content \<and> wireConfigHash content = deliveredConfigHash a \<and> \<not> remoteConfigApplyFailed a
    \<and> (content = oa_CustomInstanceConfig a \<or> resolveStoredConfig st a = Some content)"
proof (cases "appliedConfigHash a")
  case None
  then show ?thesis using assms(2) by (auto simp: confirmed_def appliedConfigHashFromDesired_def split: if_splits option.splits)
next
  case (Some g)
  then obtain cfg where "oa_remoteConfig a = Some cfg" "deliveredConfigHash a = rc_ConfigHash cfg" "\<not> remoteConfigApplyFailed a"
      "g = Hash (oa_CustomInstanceConfig a)"
    by (auto simp: appliedConfigHash_def deliveredConfigHash_def split: option.splits if_splits)
  moreover from this assms(1) have "rc_ConfigHash cfg = wireConfigHash (oa_CustomInstanceConfig a)" by (simp add: agent_ok_def staged_config_def)
  ultimately show ?thesis using assms(2) Some by (auto simp: confirmed_def)
qed

lemma confirmed_complete:
  assumes "agent_ok a" "HasCapability a AcceptsRemoteConfig" "resolveStoredConfig st a = Some content"
    "deliveredConfigHash a = wireConfigHash content" "\<not> remoteConfigApplyFailed a"
  shows "\<exists>x. confirmed st a = Some (Hash x) \<and> wireConfigHash x = wireConfigHash content \<and> (x = content \<or> x = oa_CustomInstanceConfig a)"
proof -
  have "appliedConfigHashFromDesired st a = Some (Hash content)"
    using assms(2-5) by (simp add: appliedConfigHashFromDesired_def)
  then have "\<exists>h. confirmed st a = Some h \<and> (h = Hash content \<or> appliedConfigHash a = Some h)"
    by (auto simp: confirmed_def split: option.split)
  moreover have "h = Hash (oa_CustomInstanceConfig a) \<and> wireConfigHash (oa_CustomInstanceConfig a) = wireConfigHash content"
    if "appliedConfigHash a = Some h" for h
    using that assms(1,4) by (auto simp: appliedConfigHash_def deliveredConfigHash_def agent_ok_def staged_config_def split: option.splits if_splits)
  ultimately show ?thesis by auto
qed

lemma resolveStoredConfig_cong:
  "configs st = configs st' \<Longrightarrow> map_option ag_GroupID (GetAgent (storeID a) st) = map_option ag_GroupID (GetAgent (storeID a) st') \<Longrightarrow>
     resolveStoredConfig st a = resolveStoredConfig st' a"
  by (auto simp: resolveStoredConfig_def effectiveGroupID_def GetLatestConfigForAgent_def GetLatestConfigForGroup_def Let_def
      split: option.splits)

text \<open>The shape of a handled message for an agent that has a row: the agent it leaves and its row before and
  after the delivered fingerprint is written.\<close>

lemma handled_message:
  assumes "registry_ok (op_agents s)" "onMessage sv c now conn msg s = Some (r, s')" "\<not> oversized sv msg"
    and "map_of (agentsById (op_agents s')) (sv_uuidText sv (take 16 (m_InstanceUid msg))) = Some p"
  defines "a \<equiv> agent_at (op_agents s') p"
  assumes "GetAgent (storeID a) (op_store s) = Some existing"
  obtains w2 w4 row a2 a3 r3 ws where "w_store (op_world s') = w_store (persist_delivered sv now a w4)" "agent_ok a"
    "configs (w_store w4) = configs (w_store w2)" "\<And>j. j \<noteq> storeID a \<Longrightarrow> map_of (agents (w_store w4)) j = map_of (agents (op_store s)) j"
    "GetAgent (storeID a) (w_store w4) = Some row" "ag_DeliveredConfigHash row = ag_DeliveredConfigHash existing"
    "ag_EffectiveConfig row = (if oa_EffectiveConfig a = [] then ag_EffectiveConfig existing else oa_EffectiveConfig a)"
    "if m_AgentDescription msg = None then ag_GroupID row = ag_GroupID existing \<and> ag_GroupName row = ag_GroupName existing \<and> ag_Labels row = ag_Labels existing
     else ag_GroupID row = oa_GroupID a \<and> ag_GroupName row = oa_GroupName a \<and> ag_Labels row = resolveLabels c (extractAgentLabels (m_AgentDescription msg))"
    "identified sv c conn msg s = (p, snd (identified sv c conn msg s))"
    "processAgentGrouping sv now (conn_ctx c) msg (agent_at (snd (identified sv c conn msg s)) p) (op_world s) = (a2, w2)"
    "UpdateStatus (sv_csr sv) msg no_reply a2 = Some (r3, a3, ws)" "same_but_group a a3" "fst (persistAgent sv c now msg a3 w2) = a"
proof -
  have ge: "length (m_InstanceUid msg) \<ge> 16" using assms(2) by (auto simp: onMessage_def split: if_splits)
  obtain q reg where i: "identified sv c conn msg s = (q, reg)" by fastforce
  note reg = identified_ok [OF assms(1) i]
  obtain a2 w2 where g: "processAgentGrouping sv now (conn_ctx c) msg (agent_at reg q) (op_world s) = (a2, w2)" by fastforce
  obtain r3 a3 ws where u: "UpdateStatus (sv_csr sv) msg no_reply a2 = Some (r3, a3, ws)"
      and w': "op_world s' = snd (persistAgent sv c now msg a3 w2)"
      and s': "op_agents s' = put_agent q (fst (persistAgent sv c now msg a3 w2)) reg"
    using onMessage_result [OF ge assms(3) i g assms(2)] by metis
  have p: "q = p" using assms(4) reg by (simp add: s')
  have a: "a = fst (persistAgent sv c now msg a3 w2)" using reg by (simp add: a_def s' p)
  then have same: "same_but_group a a3" by (simp add: persistAgent_agent)
  have ok: "agent_ok a" using same_but_groupD(8) [OF same] UpdateStatus_agent(2) [OF _ u] processAgentGrouping_agent [OF g] reg by blast
  have agents: "agents (w_store w2) = agents (op_store s)" using processAgentGrouping_agents [of sv now "conn_ctx c" msg "agent_at reg q" "op_world s"] by (simp add: g)
  have ex: "GetAgent (storeID a3) (w_store w2) = Some existing"
    using assms(6) same_but_groupD(4) [OF same] GetAgent_cong [OF agents] by simp
  note row = before_delivered_row [OF ex a [symmetric]]
  have "w_store (op_world s') = w_store (persist_delivered sv now a (before_delivered sv c now msg a3 existing w2))"
    using persistAgent_existing [OF ex prod.collapse [symmetric]] by (simp add: w' a)
  then show thesis using that [of "before_delivered sv c now msg a3 existing w2" w2 _ a2 r3 a3 ws] row ok same u g i a same_but_groupD(4,6) [OF same]
    unfolding p agents by (metis snd_conv)
qed

text \<open>
  C11: A message writes its agent's row only.  In every reachable state, when an agent with a live row in the store
  sends a message that is handled and not dropped for its size, no other row of the fleet changes, and the
  delivered fingerprint of the row stays as it is unless the agent has acknowledged, without reporting a failed
  apply, the wire hash of a content that is the one staged for it or the one the store resolves for it; it then
  is the fingerprint of that content.  Agents without a live row are not covered: \<open>CreateAgent\<close> writes a new row
  for them, and one that replaces a tombstone starts without a fingerprint.
\<close>
theorem delivered_only_if_acked:
  assumes "(opamp_step sv)\<^sup>*\<^sup>* s0 s" "op_agents s0 = no_agents" "onMessage sv c now conn msg s = Some (r, s')" "\<not> oversized sv msg"
    and "map_of (agentsById (op_agents s')) (sv_uuidText sv (take 16 (m_InstanceUid msg))) = Some p"
  defines "a \<equiv> agent_at (op_agents s') p"
  assumes "GetAgent (storeID a) (op_store s) = Some existing"
  shows "(\<forall>j. j \<noteq> storeID a \<longrightarrow> map_of (agents (op_store s')) j = map_of (agents (op_store s)) j)
    \<and> (\<exists>row. GetAgent (storeID a) (op_store s') = Some row
        \<and> (ag_DeliveredConfigHash row = ag_DeliveredConfigHash existing
           \<or> (\<exists>content. ag_DeliveredConfigHash row = Hash content \<and> wireConfigHash content = deliveredConfigHash a \<and> \<not> remoteConfigApplyFailed a
                \<and> (content = oa_CustomInstanceConfig a \<or> resolveStoredConfig (op_store s') a = Some content))))"
proof -
  note reg = registry_reachable [OF assms(1,2)]
  obtain w4 row where st: "op_store s' = w_store (persist_delivered sv now a w4)" and ok: "agent_ok a"
      and other: "\<And>j. j \<noteq> storeID a \<Longrightarrow> map_of (agents (w_store w4)) j = map_of (agents (op_store s)) j"
      and row: "GetAgent (storeID a) (w_store w4) = Some row" "ag_DeliveredConfigHash row = ag_DeliveredConfigHash existing"
    using handled_message [OF reg assms(3-5)] assms(7) unfolding a_def by metis
  show ?thesis
  proof (cases "confirmed (w_store w4) a")
    case None
    then show ?thesis using other row by (simp add: st persist_delivered_store)
  next
    case (Some h)
    then have st': "op_store s' = modify_row (storeID a) (\<lambda>x. x\<lparr>ag_DeliveredConfigHash := h, ag_UpdatedAt := now\<rparr>) (w_store w4)"
      by (simp add: st persist_delivered_store)
    have "resolveStoredConfig (op_store s') a = resolveStoredConfig (w_store w4) a"
      using row by (intro resolveStoredConfig_cong) (simp_all add: st' GetAgent_modify_row)
    then show ?thesis using other row confirmed_sound [OF ok Some] by (simp add: st' GetAgent_modify_row)
  qed
qed

section \<open>Acknowledged means in sync\<close>

lemma updateStatusField_reports:
  assumes "updateStatusField msg a = (changed, a')" "m_RemoteConfigStatus msg = Some rs"
  shows "\<exists>st. oa_Status a' = Some st \<and> m_RemoteConfigStatus st = Some rs"
  using assms by (auto simp: updateStatusField_def updateCapabilities_def updateRemoteConfigStatus_def Let_def split: prod.splits)

text \<open>The intermediate agents of a status update.\<close>

lemma UpdateStatus_via:
  assumes "agent_ok a" "UpdateStatus tools msg r a = Some (r', a', ws)"
  obtains changed b cc b2 a1 where "updateStatusField msg a = (changed, b)" "(if changed then calcRemoteConfig b else (False, b)) = (cc, b2)"
    "oa_Status b2 = oa_Status b" "updateEffectiveConfig msg b2 = Some a1" "a' = a1\<lparr>oa_statusUpdateWatchers := []\<rparr>"
proof -
  obtain r1 a1 where p: "processStatusUpdate msg r a = Some (r1, a1)" "a' = a1\<lparr>oa_statusUpdateWatchers := []\<rparr>"
    using assms(2) by (auto simp: UpdateStatus_def split: option.splits)
  obtain changed b where u: "updateStatusField msg a = (changed, b)" by fastforce
  obtain cc b2 where c: "(if changed then calcRemoteConfig b else (False, b)) = (cc, b2)" by fastforce
  note stage = status_stage [OF assms(1) u c]
  then obtain st where st: "oa_Status b2 = Some st" by blast
  have "updateEffectiveConfig msg b2 = Some a1"
    using p(1) processStatusUpdate_eq [OF u c _ st, of _ r] stage by (auto simp: Let_def)
  then show thesis using that u c stage p(2) by blast
qed

lemma UpdateStatus_reports:
  assumes "agent_ok a" "UpdateStatus tools msg r a = Some (r', a', ws)" "m_RemoteConfigStatus msg = Some rs"
  shows "deliveredConfigHash a' = rs_LastRemoteConfigHash rs \<and> (remoteConfigApplyFailed a' \<longleftrightarrow> rs_Status rs = Status_FAILED)"
proof -
  obtain changed b b2 a1 where via: "updateStatusField msg a = (changed, b)" "oa_Status b2 = oa_Status b"
      "updateEffectiveConfig msg b2 = Some a1" "a' = a1\<lparr>oa_statusUpdateWatchers := []\<rparr>"
    using UpdateStatus_via [OF assms(1,2)] by metis
  then have "oa_Status a' = oa_Status b" using updateEffectiveConfig_agent(1) by fastforce
  then show ?thesis using updateStatusField_reports [OF via(1) assms(3)] by (auto simp: deliveredConfigHash_def remoteConfigApplyFailed_def)
qed

lemma populate_drift:
  "ag_ConfigIntent (populateAgentConfigState d now st inc a) = determineConfigIntent st a inc"
  "ag_DriftStatus (populateAgentConfigState d now st inc a) =
     (case determineConfigIntent st a inc of
        None \<Rightarrow> ConfigDriftStatusNoIntent
      | Some i \<Rightarrow>
          if Normalize (ag_EffectiveConfig a) = [] then ConfigDriftStatusNoEffective
          else if Hash (Normalize (ag_EffectiveConfig a)) = ci_Hash i
               \<or> (ag_DeliveredConfigHash a \<noteq> [] \<and> ag_DeliveredConfigHash a = ci_Hash i)
          then ConfigDriftStatusSynced else ConfigDriftStatusDrifted)"
  using computeConfigDrift_classifies by (simp_all add: populateAgentConfigState_def Let_def split_beta)

text \<open>
  C10: Acknowledged means in sync.  When an agent that has a row and accepts remote config reports, without a
  failure, the wire hash of the content that the store resolves for it and that is not blank, the fleet view then shows it in sync
  with every intent that has that content's fingerprint, however its effective config is expanded, provided
  it has reported one at all.  The only other possibility is that the content last staged for the agent is another
  one with the same SHA-256 digest.
\<close>
theorem acked_config_in_sync:
  assumes "(opamp_step sv)\<^sup>*\<^sup>* s0 s" "op_agents s0 = no_agents" "onMessage sv c now conn msg s = Some (r, s')" "\<not> oversized sv msg"
    and "map_of (agentsById (op_agents s')) (sv_uuidText sv (take 16 (m_InstanceUid msg))) = Some p"
  defines "a \<equiv> agent_at (op_agents s') p"
  assumes "GetAgent (storeID a) (op_store s) = Some existing" "HasCapability a AcceptsRemoteConfig"
    and "resolveStoredConfig (op_store s') a = Some content" "m_RemoteConfigStatus msg = Some rs"
    and "rs_LastRemoteConfigHash rs = wireConfigHash content" "rs_Status rs \<noteq> Status_FAILED" "Normalize content \<noteq> []"
  shows "\<exists>sa. svc_GetAgent diff t (storeID a) (op_store s') = Some sa
    \<and> ((\<forall>intent. ag_ConfigIntent sa = Some intent \<and> ci_Hash intent = Hash content \<and> Normalize (ag_EffectiveConfig sa) \<noteq> []
            \<longrightarrow> ag_DriftStatus sa = ConfigDriftStatusSynced)
       \<or> (oa_CustomInstanceConfig a \<noteq> content \<and> sha256 (oa_CustomInstanceConfig a) = sha256 content))"
proof -
  note reg = registry_reachable [OF assms(1,2)]
  obtain w2 w4 row a2 a3 r3 ws where st: "op_store s' = w_store (persist_delivered sv now a w4)" and ok: "agent_ok a"
      and row: "GetAgent (storeID a) (w_store w4) = Some row"
      and g: "processAgentGrouping sv now (conn_ctx c) msg (agent_at (snd (identified sv c conn msg s)) p) (op_world s) = (a2, w2)"
      and i: "identified sv c conn msg s = (p, snd (identified sv c conn msg s))"
      and u: "UpdateStatus (sv_csr sv) msg no_reply a2 = Some (r3, a3, ws)" and same: "same_but_group a a3"
    using handled_message [OF reg assms(3-5)] assms(7) unfolding a_def by metis
  have "agent_ok a2" using processAgentGrouping_agent [OF g] identified_ok [OF reg i] by blast
  from UpdateStatus_reports [OF this u assms(10)] have acked: "deliveredConfigHash a = wireConfigHash content" "\<not> remoteConfigApplyFailed a"
    using same_but_groupD(2) [OF same] assms(11,12) by (simp_all add: deliveredConfigHash_def remoteConfigApplyFailed_def)
  have "configs (op_store s') = configs (w_store w4)" "map_option ag_GroupID (GetAgent (storeID a) (op_store s')) = map_option ag_GroupID (GetAgent (storeID a) (w_store w4))"
    using row by (simp_all add: st persist_delivered_store GetAgent_modify_row split: option.split)
  then have "resolveStoredConfig (w_store w4) a = Some content" using resolveStoredConfig_cong assms(9) by metis
  from confirmed_complete [OF ok assms(8) this acked] obtain x where
    x: "confirmed (w_store w4) a = Some (Hash x)" "wireConfigHash x = wireConfigHash content" "x = content \<or> x = oa_CustomInstanceConfig a" by blast
  then have get: "GetAgent (storeID a) (op_store s') = Some (row\<lparr>ag_DeliveredConfigHash := Hash x, ag_UpdatedAt := now\<rparr>)"
    using row by (simp add: st persist_delivered_store GetAgent_modify_row)
  define sa where "sa = populateAgentConfigState diff t (op_store s') True (toServiceAgent (row\<lparr>ag_DeliveredConfigHash := Hash x, ag_UpdatedAt := now\<rparr>))"
  have "ag_DriftStatus sa = ConfigDriftStatusSynced"
    if "x = content" "ag_ConfigIntent sa = Some intent" "ci_Hash intent = Hash content" "Normalize (ag_EffectiveConfig sa) \<noteq> []" for intent
    using that assms(13) by (simp add: sa_def populate_drift hex_sha_not_Nil Hash_def Let_def)
  moreover have "svc_GetAgent diff t (storeID a) (op_store s') = Some sa" by (simp add: svc_GetAgent_def get sa_def)
  moreover have "sha256 x = sha256 content" using x(2) by (simp add: wireConfigHash_def)
  ultimately show ?thesis using x(3) by metis
qed

section \<open>Groups across reconnects\<close>

lemma ensureAgentGroup_none: "deref (oa_GroupName a) = [] \<Longrightarrow> ensureAgentGroup sv now a w = (a, w)"
  by (simp add: ensureAgentGroup_def)

lemma processAgentGrouping_group:
  assumes "processAgentGrouping sv now ctx msg a w = (a', w')" "m_AgentDescription msg = Some d" "extractGroupInfo d = (g, n)"
  shows "oa_GroupID a' = Some g \<and> oa_GroupName a' = Some n"
  using assms by (auto simp: processAgentGrouping_def Let_def split: prod.splits if_splits)

lemma UpdateStatus_group:
  assumes "agent_ok a" "UpdateStatus tools msg r a = Some (r', a', ws)"
  shows "oa_GroupID a' = oa_GroupID a \<and> oa_GroupName a' = oa_GroupName a"
proof -
  obtain changed b cc b2 a1 where via: "updateStatusField msg a = (changed, b)" "(if changed then calcRemoteConfig b else (False, b)) = (cc, b2)"
      "updateEffectiveConfig msg b2 = Some a1" "a' = a1\<lparr>oa_statusUpdateWatchers := []\<rparr>"
    using UpdateStatus_via [OF assms] by metis
  have h: "oa_GroupID b = oa_GroupID a \<and> oa_GroupName b = oa_GroupName a" if "updateHealth msg st a = (st', b)" for st st' b
    using that by (auto simp: updateHealth_def split: option.splits if_splits)
  then have "oa_GroupID b = oa_GroupID a \<and> oa_GroupName b = oa_GroupName a"
    using via(1) by (auto simp: updateStatusField_def Let_def split: prod.splits)
  moreover have "oa_GroupID b2 = oa_GroupID b \<and> oa_GroupName b2 = oa_GroupName b"
    using via(2) calcRemoteConfig_simps [of b] by (cases changed) auto
  moreover have "oa_GroupID a1 = oa_GroupID b2 \<and> oa_GroupName a1 = oa_GroupName b2"
    using via(3) by (auto simp: updateEffectiveConfig_def split: option.splits list.splits)
  ultimately show ?thesis using via(4) by simp
qed

lemma persistAgent_keeps_group:
  assumes "GetAgent (storeID a) (w_store w) = Some existing" "\<not> isEmptyGroup (ag_GroupID existing)" "m_AgentDescription msg \<noteq> None"
    and "oa_GroupID a = Some []" "oa_GroupName a = Some []"
  shows "oa_GroupID (fst (persistAgent sv c now msg a w)) = ag_GroupID existing \<and> oa_GroupName (fst (persistAgent sv c now msg a w)) = ag_GroupName existing"
  using assms by (auto simp: persistAgent_def persist_registration_def ensureAgentGroup_def Let_def deref_def isEmptyGroup_def)

text \<open>While the message is handled the empty group in memory falls back to the stored one.\<close>

lemma grouping_uses_stored_group:
  assumes "processAgentGrouping sv now ctx msg a w = (a', w')" "m_AgentDescription msg = Some d" "extractGroupInfo d = ([], n)"
    and "GetAgent (storeID a) (w_store w) = Some existing" "ag_GroupID existing = Some g" "g \<noteq> []"
    and "GetLatestConfigForGroup g (w_store w) \<noteq> None"
  shows "w' = w"
proof -
  define a1 where "a1 = a\<lparr>oa_GroupID := Some [], oa_GroupName := Some n\<rparr>"
  have "storeID a1 = storeID a" by (simp add: a1_def storeID_def)
  then have "resolveStoredConfig (w_store w) a1 \<noteq> None"
    using assms(4-7) by (auto simp: resolveStoredConfig_def effectiveGroupID_def a1_def deref_def Let_def split: option.split)
  then have "snd (getConfigForAgent sv now ctx a1 w) = w" by (auto simp: getConfigForAgent_def)
  then show ?thesis using assms(1-3) by (auto simp: processAgentGrouping_def a1_def [symmetric] Let_def split: prod.splits if_splits)
qed

text \<open>
  C12: A stored group survives.  When an agent whose live row carries a group sends a message, not dropped for its
  size, with a description that has no group attributes, for instance because it reconnects after its operator
  assigned the group, the row keeps its group and name and the agent in memory takes them over.  If moreover the
  group has a config and the agent none of its own, the content resolved for it while the message is handled is
  the group's config, so the reported config is not adopted and no config is stored.
\<close>
theorem stored_group_survives:
  assumes "(opamp_step sv)\<^sup>*\<^sup>* s0 s" "op_agents s0 = no_agents" "onMessage sv c now conn msg s = Some (r, s')" "\<not> oversized sv msg"
    and "map_of (agentsById (op_agents s')) (sv_uuidText sv (take 16 (m_InstanceUid msg))) = Some p"
  defines "a \<equiv> agent_at (op_agents s') p"
  assumes "GetAgent (storeID a) (op_store s) = Some existing" "ag_GroupID existing = Some g" "g \<noteq> []"
    and "m_AgentDescription msg = Some d" "extractGroupInfo d = ([], [])"
  shows "(\<exists>row. GetAgent (storeID a) (op_store s') = Some row \<and> ag_GroupID row = Some g \<and> ag_GroupName row = ag_GroupName existing)
    \<and> oa_GroupID a = Some g \<and> oa_GroupName a = ag_GroupName existing
    \<and> (GetLatestConfigForAgent (storeID a) (op_store s) = None \<and> GetLatestConfigForGroup g (op_store s) \<noteq> None
         \<longrightarrow> configs (op_store s') = configs (op_store s))"
proof -
  note reg = registry_reachable [OF assms(1,2)]
  obtain w2 w4 row a2 a3 r3 ws where st: "op_store s' = w_store (persist_delivered sv now a w4)"
      and cfg: "configs (w_store w4) = configs (w_store w2)"
      and row: "GetAgent (storeID a) (w_store w4) = Some row" "ag_GroupID row = oa_GroupID a" "ag_GroupName row = oa_GroupName a"
      and i: "identified sv c conn msg s = (p, snd (identified sv c conn msg s))"
      and g: "processAgentGrouping sv now (conn_ctx c) msg (agent_at (snd (identified sv c conn msg s)) p) (op_world s) = (a2, w2)"
      and u: "UpdateStatus (sv_csr sv) msg no_reply a2 = Some (r3, a3, ws)" and same: "same_but_group a a3"
      and a: "fst (persistAgent sv c now msg a3 w2) = a"
    using handled_message [OF reg assms(3-5)] assms(7,10) unfolding a_def by (metis option.distinct(1))
  note ident = identified_ok [OF reg i]
  have ok2: "agent_ok a2" using processAgentGrouping_agent [OF g] ident by blast
  have ids: "storeID (agent_at (snd (identified sv c conn msg s)) p) = storeID a" "storeID a3 = storeID a"
    using processAgentGrouping_agent [OF g] UpdateStatus_agent(2) [OF ok2 u] same_but_groupD(4) [OF same]
    by (simp_all add: storeID_def same_identity_def)
  have ag: "agents (w_store w2) = agents (op_store s)"
    using processAgentGrouping_agents [of sv now "conn_ctx c" msg _ "op_world s"] g by (metis snd_conv)
  have ex: "GetAgent (storeID a3) (w_store w2) = Some existing" using assms(7) ids(2) GetAgent_cong [OF ag] by simp
  have "oa_GroupID a3 = Some [] \<and> oa_GroupName a3 = Some []"
    using processAgentGrouping_group [OF g assms(10,11)] UpdateStatus_group [OF ok2 u] by simp
  then have grp: "oa_GroupID a = Some g \<and> oa_GroupName a = ag_GroupName existing"
    using persistAgent_keeps_group [OF ex, of msg sv c now] a assms(8-10) by (simp add: isEmptyGroup_def deref_def)
  have "configs (op_store s') = configs (w_store w2)" by (simp add: st persist_delivered_store cfg split: option.split)
  moreover have "w2 = op_world s" if "GetLatestConfigForGroup g (op_store s) \<noteq> None"
    using grouping_uses_stored_group [OF g assms(10,11) _ assms(8,9) that] assms(7) ids(1) by simp
  moreover have "\<exists>row'. GetAgent (storeID a) (op_store s') = Some row' \<and> ag_GroupID row' = ag_GroupID row \<and> ag_GroupName row' = ag_GroupName row"
    using row(1) by (simp add: st persist_delivered_store GetAgent_modify_row split: option.split)
  ultimately show ?thesis using grp row(2,3) by auto
qed

section \<open>The small deployment\<close>

lemma UpdateStatus_capabilities:
  assumes "agent_ok a" "UpdateStatus tools msg r a = Some (r', a', ws)" "m_Capabilities msg \<noteq> 0"
  shows "map_option m_Capabilities (oa_Status a') = Some (m_Capabilities msg)"
proof -
  obtain changed b b2 a1 where via: "updateStatusField msg a = (changed, b)" "oa_Status b2 = oa_Status b"
      "updateEffectiveConfig msg b2 = Some a1" "a' = a1\<lparr>oa_statusUpdateWatchers := []\<rparr>"
    using UpdateStatus_via [OF assms(1,2)] by metis
  then have "oa_Status a' = oa_Status b" using updateEffectiveConfig_agent(1) by fastforce
  then show ?thesis using via(1) assms(3) by (auto simp: updateStatusField_def updateCapabilities_def Let_def split: prod.splits)
qed

text \<open>The pod after its first message without a description.\<close>

lemma pod_row_stored: "GetAgent pod_wire (op_store pod_start) = Some pod_row" "GetAgent ''pinned-id'' (op_store pod_start) = Some (pod_row\<lparr>ag_ID := ''pinned-id''\<rparr>)"
  by (simp_all add: pod_start_def GetAgent_def pod_row_def sample_agent_def pod_wire_def)

lemma pod_configs:
  "configs st = [(''c1'', pod_config)] \<Longrightarrow> GetLatestConfigForAgent i st = None"
  "configs st = [(''c1'', pod_config)] \<Longrightarrow> GetLatestConfigForGroup ''g1'' st = Some pod_config"
  by (simp_all add: GetLatestConfigForAgent_def GetLatestConfigForGroup_def pod_config_def)

text \<open>A heartbeat of the pod, once its agent is known under its wire id and its row carries the group.\<close>

lemma pod_beat_effect:
  assumes ok: "registry_ok (op_agents s)" and m: "onMessage pod_server pod_conn now conn (pod_beat rs) s = Some (r, s')"
    and i: "identified pod_server pod_conn conn (pod_beat rs) s = (0, reg)" "storeID (agent_at reg 0) = pod_wire" "oa_GroupID (agent_at reg 0) = None"
    and row0: "GetAgent pod_wire (op_store s) = Some row0" "ag_GroupID row0 = Some ''g1''" "configs (op_store s) = [(''c1'', pod_config)]"
  defines "a \<equiv> agent_at (op_agents s') 0"
  shows "map_of (agentsById (op_agents s')) pod_wire = Some 0 \<and> storeID a = pod_wire \<and> oa_GroupID a = None
      \<and> oa_CustomInstanceConfig a = oa_CustomInstanceConfig (agent_at reg 0) \<and> HasCapability a AcceptsRemoteConfig"
    and "configs (op_store s') = [(''c1'', pod_config)]"
    and "\<exists>row. GetAgent pod_wire (op_store s') = Some row \<and> ag_GroupID row = Some ''g1'' \<and> ag_EffectiveConfig row = ''processors''"
    and "resolveStoredConfig (op_store s') a = Some ''exporters''"
proof -
  have agent: "map_of (agentsById (op_agents s')) pod_wire = Some 0" "same_identity a (agent_at reg 0)" "oa_CustomInstanceConfig a = oa_CustomInstanceConfig (agent_at reg 0)"
    using message_agent [OF ok m _ i(1)] by (simp_all add: a_def)
  have id: "storeID a = pod_wire" using agent(2) i(2) by (auto simp: same_identity_def storeID_def)
  obtain w2 w4 row a2 a3 r3 ws where st: "op_store s' = w_store (persist_delivered pod_server now a w4)"
      and cfg: "configs (w_store w4) = configs (w_store w2)"
      and row4: "GetAgent pod_wire (w_store w4) = Some row" "ag_GroupID row = Some ''g1''"
        "ag_EffectiveConfig row = (if oa_EffectiveConfig a = [] then ag_EffectiveConfig row0 else oa_EffectiveConfig a)"
      and g: "processAgentGrouping pod_server now (conn_ctx pod_conn) (pod_beat rs) (agent_at reg 0) (op_world s) = (a2, w2)"
      and u: "UpdateStatus (sv_csr pod_server) (pod_beat rs) no_reply a2 = Some (r3, a3, ws)" and same: "same_but_group a a3"
      and a: "fst (persistAgent pod_server pod_conn now (pod_beat rs) a3 w2) = a"
    by (rule handled_message [OF ok m, of 0 row0]) (use agent(1) row0(1,2) in \<open>auto simp: a_def [symmetric] i(1) id\<close>)
  have a2: "a2 = agent_at reg 0" "w2 = op_world s" using g by (simp_all add: processAgentGrouping_def)
  have ok2: "agent_ok a2" using identified_ok [OF ok i(1)] a2 by simp
  have cap: "map_option m_Capabilities (oa_Status a) = Some 2"
    using UpdateStatus_capabilities [OF ok2 u] same_but_groupD(2) [OF same] by (simp add: pod_beat_def)
  obtain b2 a1 where via: "updateEffectiveConfig (pod_beat rs) b2 = Some a1" "a3 = a1\<lparr>oa_statusUpdateWatchers := []\<rparr>"
    using UpdateStatus_via [OF ok2 u] by metis
  then have eff: "oa_EffectiveConfig a = ''processors''" using same_but_groupD(6) [OF same] by (auto simp: updateEffectiveConfig_def)
  have grp: "oa_GroupID a = None"
    using UpdateStatus_group [OF ok2 u] a row0(1) same_but_groupD(4) [OF same] id i(3)
    by (simp add: a2 persistAgent_def persist_registration_def Let_def)
  show cfgs: "configs (op_store s') = [(''c1'', pod_config)]"
    using cfg row0(3) by (simp add: st persist_delivered_store a2 split: option.split)
  show row': "\<exists>row. GetAgent pod_wire (op_store s') = Some row \<and> ag_GroupID row = Some ''g1'' \<and> ag_EffectiveConfig row = ''processors''"
    using row4 by (simp add: st persist_delivered_store GetAgent_modify_row id eff split: option.split)
  show "map_of (agentsById (op_agents s')) pod_wire = Some 0 \<and> storeID a = pod_wire \<and> oa_GroupID a = None
      \<and> oa_CustomInstanceConfig a = oa_CustomInstanceConfig (agent_at reg 0) \<and> HasCapability a AcceptsRemoteConfig"
    using agent id grp cap by (auto simp: HasCapability_def split: option.splits)
  show "resolveStoredConfig (op_store s') a = Some ''exporters''"
    using cfgs row' grp id by (auto simp: resolveStoredConfig_def effectiveGroupID_def pod_configs deref_def) (simp add: pod_config_def)
qed

lemma pod_first_row:
  assumes m: "onMessage pod_server pod_conn now conn (pod_beat rs) pod_start = Some (r, s')"
  shows "HasCapability (agent_at (op_agents s') 0) AcceptsRemoteConfig \<and> resolveStoredConfig (op_store s') (agent_at (op_agents s') 0) = Some ''exporters''"
    and "\<exists>row. GetAgent pod_wire (op_store s') = Some row \<and> ag_GroupID row = Some ''g1''"
    and "configs (op_store s') = [(''c1'', pod_config)]" "oa_GroupID (agent_at (op_agents s') 0) = None"
proof -
  obtain reg where i: "identified pod_server pod_conn conn (pod_beat rs) pod_start = (0, reg)" "agent_at reg 0 = NewAgent pod_wire conn"
    by (simp add: identified_def FindOrCreateAgent_def no_agents_def agent_at_def)
  note effect = pod_beat_effect [OF _ m i(1) _ _ pod_row_stored(1)]
  have "storeID (NewAgent pod_wire conn) = pod_wire" "oa_GroupID (NewAgent pod_wire conn) = None" "ag_GroupID pod_row = Some ''g1''"
      "configs (op_store pod_start) = [(''c1'', pod_config)]"
    by (simp_all add: storeID_def NewAgent_def pod_row_def pod_start_def)
  then show "HasCapability (agent_at (op_agents s') 0) AcceptsRemoteConfig \<and> resolveStoredConfig (op_store s') (agent_at (op_agents s') 0) = Some ''exporters''"
    "\<exists>row. GetAgent pod_wire (op_store s') = Some row \<and> ag_GroupID row = Some ''g1''"
    "configs (op_store s') = [(''c1'', pod_config)]" "oa_GroupID (agent_at (op_agents s') 0) = None"
    using effect i(2) by auto
qed

lemma pod_indexes:
  assumes "onMessage pod_server pod_conn now conn (pod_beat rs) pod_start = Some (r, s')"
  shows "agentsById (op_agents s') = [(pod_wire, 0)]" "agentsByFleetId (op_agents s') = []"
proof -
  have "sv_maxMessageBytes pod_server = 0" by (simp add: pod_server_def)
  then show "agentsById (op_agents s') = [(pod_wire, 0)]" "agentsByFleetId (op_agents s') = []"
    using assms by (auto simp: onMessage_def FindOrCreateAgent_def no_agents_def put_agent_def Let_def split: prod.splits option.splits)
qed

text \<open>The pod is pushed its group's config after its first message.\<close>

lemma pod_pushed:
  assumes m: "onMessage pod_server pod_conn now conn (pod_beat rs) pod_start = Some (r, s1)"
  defines "s2 \<equiv> snd (SendConfigToAgent pod_wire ''exporters'' 7 None Confirmed s1)"
  shows "(opamp_step pod_server)\<^sup>*\<^sup>* pod_start s2" "op_store s2 = op_store s1" "map_of (agentsById (op_agents s2)) pod_wire = Some 0"
    "storeID (agent_at (op_agents s2) 0) = pod_wire" "oa_GroupID (agent_at (op_agents s2) 0) = None"
    "oa_CustomInstanceConfig (agent_at (op_agents s2) 0) = ''exporters''"
proof -
  note first = pod_first [OF m]
  have find: "FindAgent pod_wire (op_agents s1) = Some 0" by (simp add: FindAgent_def pod_indexes [OF m])
  have live: "0 < length (objects (op_agents s1))" using FindAgent_live [OF registry_reachable [of pod_server pod_start] find] first by simp
  show "(opamp_step pod_server)\<^sup>*\<^sup>* pod_start s2"
    using first opamp_step.push [of pod_server s1] unfolding s2_def by (meson rtranclp.rtrancl_into_rtrancl)
  show "op_store s2 = op_store s1" "map_of (agentsById (op_agents s2)) pod_wire = Some 0"
    "storeID (agent_at (op_agents s2) 0) = pod_wire" "oa_GroupID (agent_at (op_agents s2) 0) = None"
    "oa_CustomInstanceConfig (agent_at (op_agents s2) 0) = ''exporters''"
    using live first pod_first_row [OF m] find
    by (auto simp: s2_def SendConfigToAgent_def SetCustomConfig_def calcRemoteConfig_def SendToAgent_def storeID_def Let_def split: bool.split if_splits)
qed

theorem delivered_only_if_acked_witness:
  "\<exists>r s' row. onMessage pod_server pod_conn 5 1 (pod_beat None) pod_start = Some (r, s') \<and> GetAgent pod_wire (op_store s') = Some row
     \<and> map_of (agents (op_store s')) ''pinned-id'' = Some (pod_row\<lparr>ag_ID := ''pinned-id''\<rparr>)"
proof -
  obtain r s' where m: "onMessage pod_server pod_conn 5 1 (pod_beat None) pod_start = Some (r, s')" using pod_beat_handled by fastforce
  note first = pod_first [OF m]
  from delivered_only_if_acked [OF rtranclp.rtrancl_refl _ m, of 0 pod_row]
  have "(\<forall>j. j \<noteq> pod_wire \<longrightarrow> map_of (agents (op_store s')) j = map_of (agents (op_store pod_start)) j) \<and> (\<exists>row. GetAgent pod_wire (op_store s') = Some row)"
    using first pod_row_stored(1) by auto
  then show ?thesis using m by (auto simp: pod_start_def pod_wire_def)
qed

lemma Normalize_exporters [simp]: "Normalize ''exporters'' \<noteq> []"
  by code_simp

lemma Normalize_processors [simp]: "Normalize ''processors'' \<noteq> []"
  by code_simp

text \<open>The pod enrols, is pushed its group's config and acknowledges it; what it runs is another, expanded text.\<close>

theorem acked_config_in_sync_witness:
  "\<exists>r s1 r' s3 sa intent. onMessage pod_server pod_conn 5 1 (pod_beat None) pod_start = Some (r, s1)
     \<and> onMessage pod_server pod_conn 6 1 (pod_beat (Some \<lparr>rs_LastRemoteConfigHash = wireConfigHash ''exporters'', rs_Status = Status_APPLIED, rs_ErrorMessage = []\<rparr>))
         (snd (SendConfigToAgent pod_wire ''exporters'' 7 None Confirmed s1)) = Some (r', s3)
     \<and> svc_GetAgent (\<lambda>_ _. []) 7 pod_wire (op_store s3) = Some sa
     \<and> ag_ConfigIntent sa = Some intent \<and> ci_Hash intent = Hash ''exporters'' \<and> ag_EffectiveConfig sa = ''processors''
     \<and> ag_DriftStatus sa = ConfigDriftStatusSynced"
proof -
  let ?rs = "\<lparr>rs_LastRemoteConfigHash = wireConfigHash ''exporters'', rs_Status = Status_APPLIED, rs_ErrorMessage = []\<rparr>"
  obtain r s1 where m1: "onMessage pod_server pod_conn 5 1 (pod_beat None) pod_start = Some (r, s1)" using pod_beat_handled by fastforce
  define s2 where "s2 = snd (SendConfigToAgent pod_wire ''exporters'' 7 None Confirmed s1)"
  note pushed = pod_pushed [OF m1, folded s2_def] and first = pod_first_row [OF m1]
  have ok: "registry_ok (op_agents s2)" using registry_reachable [OF pushed(1)] by simp
  then obtain r' s3 where m3: "onMessage pod_server pod_conn 6 1 (pod_beat (Some ?rs)) s2 = Some (r', s3)" using pod_beat_handled by blast
  have i: "identified pod_server pod_conn 1 (pod_beat (Some ?rs)) s2 = (0, op_agents s2)"
    using pushed(3) by (simp add: identified_def FindOrCreateAgent_def)
  obtain row where row: "GetAgent pod_wire (op_store s2) = Some row" "ag_GroupID row = Some ''g1''" using first(2) pushed(2) by auto
  note acked = pod_beat_effect [OF ok m3 i pushed(4,5) row]
  have "configs (op_store s2) = [(''c1'', pod_config)]" using first(3) pushed(2) by simp
  note acked = acked [OF this]
  from acked_config_in_sync [OF pushed(1) _ m3, of 0 row "''exporters''" ?rs "\<lambda>_ _. []" 7]
  obtain sa where sa: "svc_GetAgent (\<lambda>_ _. []) 7 pod_wire (op_store s3) = Some sa"
      "\<And>intent. ag_ConfigIntent sa = Some intent \<Longrightarrow> ci_Hash intent = Hash ''exporters'' \<Longrightarrow> Normalize (ag_EffectiveConfig sa) \<noteq> [] \<Longrightarrow> ag_DriftStatus sa = ConfigDriftStatusSynced"
    using acked row pushed(6) by auto
  have eff: "ag_EffectiveConfig sa = ''processors''" and "\<exists>intent. ag_ConfigIntent sa = Some intent \<and> ci_Hash intent = Hash ''exporters''"
    using sa(1) acked(2,3)
    by (auto simp: svc_GetAgent_def populate_drift populateAgentConfigState_def toServiceAgent_def determineConfigIntent_def pod_configs Agent.defs SAgent.defs buildConfigIntent_def split_beta Let_def)
      (simp_all add: pod_config_def)
  then obtain intent where intent: "ag_ConfigIntent sa = Some intent" "ci_Hash intent = Hash ''exporters''" by blast
  have "ag_DriftStatus sa = ConfigDriftStatusSynced" using sa(2) [OF intent] by (simp add: eff)
  then show ?thesis using m1 m3 [unfolded s2_def] sa(1) intent eff by blast
qed

text \<open>The same report with an empty description, on a connection that is not pinned.\<close>

definition pod_hello :: AgentToServer where
  "pod_hello = (pod_beat None)\<lparr>m_AgentDescription := Some \<lparr>ad_IdentifyingAttributes = [], ad_NonIdentifyingAttributes = []\<rparr>\<rparr>"

lemma pod_hello_simps [simp]:
  "m_InstanceUid pod_hello = pod_wire" "m_AgentDescription pod_hello = Some \<lparr>ad_IdentifyingAttributes = [], ad_NonIdentifyingAttributes = []\<rparr>"
  "m_EffectiveConfig pod_hello = Some (Some [([], ''processors'')])" "m_ConnectionSettingsRequest pod_hello = None"
  by (simp_all add: pod_hello_def)

lemma pod_hello_handled: "\<exists>r s'. onMessage pod_server c now conn pod_hello pod_start = Some (r, s')"
  using message_panics [of pod_start pod_server c now conn pod_hello]
  by (cases "onMessage pod_server c now conn pod_hello pod_start") (auto simp: bad_csr_def)

lemma pod_hello_first:
  assumes "onMessage pod_server (pod_conn\<lparr>ca_pinnedFleetID := []\<rparr>) now conn pod_hello pod_start = Some (r, s')"
  shows "map_of (agentsById (op_agents s')) pod_wire = Some 0 \<and> storeID (agent_at (op_agents s') 0) = pod_wire"
proof -
  have "\<exists>reg. identified pod_server (pod_conn\<lparr>ca_pinnedFleetID := []\<rparr>) conn pod_hello pod_start = (0, reg) \<and> agent_at reg 0 = NewAgent pod_wire conn"
    by (simp add: identified_def FindOrCreateAgent_def no_agents_def agent_at_def deriveFleetId_def fleetIdentityAttrs_def all_attributes_def
        Derive_def attr_def resolveFleetID_def SetFleetId_def NewAgent_def)
  then obtain reg where i: "identified pod_server (pod_conn\<lparr>ca_pinnedFleetID := []\<rparr>) conn pod_hello pod_start = (0, reg)" "agent_at reg 0 = NewAgent pod_wire conn" by blast
  from message_agent [OF _ assms _ i(1)] i(2) show ?thesis by (auto simp: same_identity_def storeID_def NewAgent_def)
qed

theorem stored_group_survives_witness:
  "\<exists>r s' row. onMessage pod_server (pod_conn\<lparr>ca_pinnedFleetID := []\<rparr>) 5 1 pod_hello pod_start = Some (r, s')
     \<and> GetAgent pod_wire (op_store s') = Some row \<and> ag_GroupID row = Some ''g1'' \<and> ag_GroupName row = Some ''edge''
     \<and> configs (op_store s') = [(''c1'', pod_config)]"
proof -
  obtain r s' where m: "onMessage pod_server (pod_conn\<lparr>ca_pinnedFleetID := []\<rparr>) 5 1 pod_hello pod_start = Some (r, s')" using pod_hello_handled by blast
  have "configs (op_store pod_start) = [(''c1'', pod_config)]" by (simp add: pod_start_def)
  moreover from stored_group_survives [OF rtranclp.rtrancl_refl _ m, of 0 pod_row "''g1''" "\<lparr>ad_IdentifyingAttributes = [], ad_NonIdentifyingAttributes = []\<rparr>"]
  have "(\<exists>row. GetAgent pod_wire (op_store s') = Some row \<and> ag_GroupID row = Some ''g1'' \<and> ag_GroupName row = ag_GroupName pod_row)
    \<and> (GetLatestConfigForAgent pod_wire (op_store pod_start) = None \<and> GetLatestConfigForGroup ''g1'' (op_store pod_start) \<noteq> None
         \<longrightarrow> configs (op_store s') = configs (op_store pod_start))"
    using pod_hello_first [OF m] pod_row_stored(1)
    by (simp add: extractGroupInfo_def last_value_def first_value_def all_attributes_def pod_row_def)
  ultimately show ?thesis using m pod_configs by (auto simp: pod_row_def)
qed

end
