(* ===== verification/Opamp_Reconcile.thy ===== *)
theory Opamp_Reconcile
  imports Opamp_Delivery
begin

text \<open>
  Pushes and the reconcile loop: a sweep delivers stored content only, to agents that accept it and have not
  acknowledged it, and is silent once they have; what the first message of a connection is answered with;
  which identity a pinned connection acts under; and when a push counts as confirmed.
\<close>

section \<open>The reconcile loop over its two seams\<close>

text \<open>The resolver and the pusher are interfaces of the loop.  A push may send messages that carry its
  content and changes nothing the resolver or the heartbeat reads.\<close>

locale config_delivery =
  fixes resolve :: "'st \<Rightarrow> ConnAgent \<Rightarrow> string option"
    and push :: "ConnAgent \<Rightarrow> string \<Rightarrow> 'st \<Rightarrow> 'st"
    and heartbeat :: "ConnAgent \<Rightarrow> 'st \<Rightarrow> 'st"
    and sent :: "'st \<Rightarrow> (nat \<times> ServerToAgent) list"
  assumes push_sends: "\<exists>new. sent (push a content st) = sent st @ new \<and> (\<forall>m \<in> set new. sa_RemoteConfig (snd m) = Some (staged_config content))"
    and push_resolve: "resolve (push a content st) = resolve st"
    and heartbeat_sent: "sent (heartbeat a st) = sent st"
    and heartbeat_resolve: "resolve (heartbeat a st) = resolve st"
begin

definition needs :: "'st \<Rightarrow> ConnAgent \<Rightarrow> string option" where
  "needs st a =
     (if \<not> HasCapability a AcceptsRemoteConfig then None
      else (case resolve st a of
              None \<Rightarrow> None
            | Some content \<Rightarrow> if deliveredConfigHash a = wireConfigHash content then None else Some content))"

definition visit :: "'st \<Rightarrow> ConnAgent \<Rightarrow> 'st" where
  "visit st a = (let st1 = heartbeat a st in case needs st1 a of None \<Rightarrow> st1 | Some content \<Rightarrow> push a content st1)"

lemma visit_resolve: "resolve (visit st a) = resolve st"
  by (simp add: visit_def Let_def push_resolve heartbeat_resolve split: option.split)

lemma needs_cong: "resolve st = resolve st' \<Longrightarrow> needs st = needs st'"
  by (simp add: needs_def fun_eq_iff)

lemma visit_sent:
  "\<exists>new. sent (visit st a) = sent st @ new
     \<and> (\<forall>m \<in> set new. \<exists>content. needs st a = Some content \<and> sa_RemoteConfig (snd m) = Some (staged_config content))"
proof (cases "needs st a")
  case None
  then show ?thesis using needs_cong [OF heartbeat_resolve] by (simp add: visit_def heartbeat_sent)
next
  case (Some content)
  then show ?thesis using needs_cong [OF heartbeat_resolve] push_sends [of a content "heartbeat a st"] by (auto simp: visit_def heartbeat_sent)
qed

lemma sweep_sent:
  "\<exists>new. sent (foldl visit st as) = sent st @ new
     \<and> (\<forall>m \<in> set new. \<exists>a \<in> set as. \<exists>content. needs st a = Some content \<and> sa_RemoteConfig (snd m) = Some (staged_config content))"
proof (induction as arbitrary: st)
  case (Cons a as)
  obtain n1 where n1: "sent (visit st a) = sent st @ n1"
      "\<forall>m \<in> set n1. \<exists>content. needs st a = Some content \<and> sa_RemoteConfig (snd m) = Some (staged_config content)"
    using visit_sent by blast
  obtain n2 where n2: "sent (foldl visit (visit st a) as) = sent (visit st a) @ n2"
      "\<forall>m \<in> set n2. \<exists>b \<in> set as. \<exists>content. needs (visit st a) b = Some content \<and> sa_RemoteConfig (snd m) = Some (staged_config content)"
    using Cons.IH [of "visit st a"] by blast
  have "needs (visit st a) = needs st" using needs_cong [OF visit_resolve] .
  then show ?case using n1 n2 by (intro exI [of _ "n1 @ n2"]) auto
qed simp

lemma sweep_silent: "(\<forall>a \<in> set as. needs st a = None) \<Longrightarrow> sent (foldl visit st as) = sent st"
  using sweep_sent [of st as] by (metis append_Nil2 ex_in_conv option.distinct(1) set_empty)

end

lemma SendConfigToAgent_sent:
  "\<exists>new. op_sent (snd (SendConfigToAgent i content watcher tp ack s)) = op_sent s @ new
     \<and> (\<forall>m \<in> set new. sa_RemoteConfig (snd m) = Some (staged_config content))"
  by (auto simp: SendConfigToAgent_def SetCustomConfig_def SendToAgent_def calcRemoteConfig_def Let_def split: option.split prod.split bool.split)

lemma SendConfigToAgent_world [simp]: "op_world (snd (SendConfigToAgent i content watcher tp ack s)) = op_world s"
  by (auto simp: SendConfigToAgent_def SetCustomConfig_def SendToAgent_def split: option.split prod.split bool.split)

interpretation rl: config_delivery
  "\<lambda>s. resolveStoredConfig (op_store s)"
  "\<lambda>a content s. snd (SendConfigToAgent (storeID a) content (watcher (oa_InstanceId a)) None (ack (oa_InstanceId a)) s)"
  "heartbeatOwner sv now" op_sent
  for watcher ack sv now
  by unfold_locales (simp_all add: SendConfigToAgent_sent heartbeatOwner_def)

lemma reconcile_visit: "reconcileAgent watcher ack a (heartbeatOwner sv now a s) = rl.visit watcher ack sv now s a"
  by (auto simp: reconcileAgent_def rl.visit_def rl.needs_def Let_def split: option.split)

lemma reconcileOnce_sweep:
  "reconcileOnce sv now watcher ack s = foldl (rl.visit watcher ack sv now) s (map snd (GetAllAgentsReadonlyClone (op_agents s)))"
  by (simp add: reconcileOnce_def reconcile_visit)

text \<open>
  C13: The reconcile loop delivers stored configs only.  Every message of a sweep carries the content that the store
  resolves for some connected agent that accepts remote config and has not acknowledged it; nothing is ever
  synthesised.  Once every such agent has acknowledged its content, sweeps send nothing.  A sweep never
  touches the stored data.
\<close>
theorem reconcile_delivers_stored:
  defines "clones s \<equiv> set (map snd (GetAllAgentsReadonlyClone (op_agents s)))"
  shows "(\<exists>new. op_sent (reconcileOnce sv now watcher ack s) = op_sent s @ new
      \<and> (\<forall>m \<in> set new. \<exists>a \<in> clones s. \<exists>content. HasCapability a AcceptsRemoteConfig \<and> resolveStoredConfig (op_store s) a = Some content
           \<and> deliveredConfigHash a \<noteq> wireConfigHash content \<and> sa_RemoteConfig (snd m) = Some (staged_config content)))
    \<and> ((\<forall>a \<in> clones s. HasCapability a AcceptsRemoteConfig \<longrightarrow>
           (\<forall>content. resolveStoredConfig (op_store s) a = Some content \<longrightarrow> deliveredConfigHash a = wireConfigHash content))
         \<longrightarrow> op_sent (reconcileOnce sv now watcher ack s) = op_sent s)
    \<and> op_world (reconcileOnce sv now watcher ack s) = op_world s"
proof -
  let ?as = "map snd (GetAllAgentsReadonlyClone (op_agents s))"
  have needs: "rl.needs s a = Some content \<longleftrightarrow> HasCapability a AcceptsRemoteConfig \<and> resolveStoredConfig (op_store s) a = Some content
      \<and> deliveredConfigHash a \<noteq> wireConfigHash content" for a content
    by (auto simp: rl.needs_def split: option.splits)
  have "\<exists>new. op_sent (reconcileOnce sv now watcher ack s) = op_sent s @ new
      \<and> (\<forall>m \<in> set new. \<exists>a \<in> set ?as. \<exists>content. rl.needs s a = Some content \<and> sa_RemoteConfig (snd m) = Some (staged_config content))"
    unfolding reconcileOnce_sweep by (rule rl.sweep_sent)
  moreover have "op_sent (reconcileOnce sv now watcher ack s) = op_sent s"
    if "\<forall>a \<in> clones s. HasCapability a AcceptsRemoteConfig \<longrightarrow>
           (\<forall>content. resolveStoredConfig (op_store s) a = Some content \<longrightarrow> deliveredConfigHash a = wireConfigHash content)"
  proof -
    have "\<forall>a \<in> set ?as. rl.needs s a = None" using that needs unfolding clones_def by (metis not_None_eq)
    then show ?thesis unfolding reconcileOnce_sweep by (rule rl.sweep_silent)
  qed
  moreover have "op_world (foldl (rl.visit watcher ack sv now) s as) = op_world s" for as
    by (induction as arbitrary: s) (simp_all add: rl.visit_def heartbeatOwner_def Let_def split: option.split)
  ultimately show ?thesis by (simp add: reconcileOnce_sweep needs clones_def) 
qed

section \<open>What a message is answered with\<close>

lemma calcConnectionSettings_config [simp]: "sa_RemoteConfig (calcConnectionSettings sv a r) = sa_RemoteConfig r"
  by (simp add: calcConnectionSettings_def Let_def split: prod.split)

lemma csr_config:
  "processConnectionSettingsRequest tools request r = Some r' \<Longrightarrow> sa_RemoteConfig r' = sa_RemoteConfig r"
  by (auto simp: processConnectionSettingsRequest_def addErrorResponse_def split: option.splits sum.splits prod.splits if_splits)

text \<open>The config in the response: on a changed description the staged one when it is new, otherwise whenever
  the acknowledged hash differs.\<close>

lemma UpdateStatus_config:
  assumes "agent_ok a" "UpdateStatus tools msg no_reply a = Some (r', a', ws)" "updateStatusField msg a = (changed, b)"
  shows "sa_RemoteConfig r' = (if (changed \<and> oa_remoteConfig a = None)
      \<or> (case Option.bind (oa_Status b) m_RemoteConfigStatus of None \<Rightarrow> False | Some rs \<Rightarrow> rs_LastRemoteConfigHash rs \<noteq> wireConfigHash (oa_CustomInstanceConfig a))
    then Some (staged_config (oa_CustomInstanceConfig a)) else None)"
proof -
  obtain cc b2 where c: "(if changed then calcRemoteConfig b else (False, b)) = (cc, b2)" by fastforce
  note stage = status_stage [OF assms(1,3) c]
  obtain st where st: "oa_Status b2 = Some st" "oa_Status b = Some st" using stage by (metis not_None_eq)
  have b: "oa_remoteConfig b = oa_remoteConfig a" "oa_CustomInstanceConfig b = oa_CustomInstanceConfig a"
    using updateStatusField_agent [OF assms(3)] by auto
  have cc: "cc \<longleftrightarrow> changed \<and> oa_remoteConfig a = None"
    using c b assms(1) by (cases "oa_remoteConfig a"; cases changed) (auto simp: calcRemoteConfig_def Let_def isEqualRemoteConfig_def agent_ok_def)
  obtain r1 a1 where p: "processStatusUpdate msg no_reply a = Some (r1, a1)" "sa_RemoteConfig r' = sa_RemoteConfig r1"
    using assms(2) by (auto simp: UpdateStatus_def csr_config split: option.splits)
  have "sa_RemoteConfig r1 = (if cc \<or> (case m_RemoteConfigStatus st of None \<Rightarrow> False
        | Some rs \<Rightarrow> rs_LastRemoteConfigHash rs \<noteq> rc_ConfigHash (staged_config (oa_CustomInstanceConfig a)))
      then Some (staged_config (oa_CustomInstanceConfig a)) else None)"
    using p(1) processStatusUpdate_eq [OF assms(3) c _ st(1)] stage by (auto simp: Let_def no_reply_def)
  then show ?thesis using p(2) cc st(2) by (simp add: staged_config_def cong: option.case_cong)
qed

lemma message_config:
  assumes "registry_ok (op_agents s)" "onMessage sv c now conn msg s = Some (r, s')" "\<not> oversized sv msg" "identified sv c conn msg s = (p, reg)"
    "processAgentGrouping sv now (conn_ctx c) msg (agent_at reg p) (op_world s) = (a2, w2)" "updateStatusField msg a2 = (changed, b)"
  shows "sa_RemoteConfig r = (if (changed \<and> oa_remoteConfig a2 = None)
      \<or> (case Option.bind (oa_Status b) m_RemoteConfigStatus of None \<Rightarrow> False | Some rs \<Rightarrow> rs_LastRemoteConfigHash rs \<noteq> wireConfigHash (oa_CustomInstanceConfig a2))
    then Some (staged_config (oa_CustomInstanceConfig a2)) else None)"
proof -
  have ge: "length (m_InstanceUid msg) \<ge> 16" using assms(2) by (auto simp: onMessage_def split: if_splits)
  have "agent_ok a2" using processAgentGrouping_agent [OF assms(5)] identified_ok [OF assms(1,4)] by blast
  moreover obtain r3 a3 ws where "UpdateStatus (sv_csr sv) msg no_reply a2 = Some (r3, a3, ws)" "r = calcConnectionSettings sv a3 r3"
    using onMessage_result [OF ge assms(3-5,2)] by metis
  ultimately show ?thesis using UpdateStatus_config assms(6) by fastforce
qed

text \<open>
  The first message is answered with an empty config.  When an agent that is not connected sends its first
  message, whatever it reports and whatever config is stored for it or its group, the response carries a
  remote config whose single file is empty, because the stored config is resolved before the reported
  capabilities are recorded.
\<close>
theorem first_message_empty_config:
  assumes "(opamp_step sv)\<^sup>*\<^sup>* s0 s" "op_agents s0 = no_agents" "onMessage sv c now conn msg s = Some (r, s')" "\<not> oversized sv msg"
    and "map_of (agentsById (op_agents s)) (sv_uuidText sv (take 16 (m_InstanceUid msg))) = None"
  shows "map_option rc_Config (sa_RemoteConfig r) = Some [([], \<lparr>fl_Body = [], fl_ContentType = []\<rparr>)]"
proof -
  note reg = registry_reachable [OF assms(1,2)]
  let ?i = "sv_uuidText sv (take 16 (m_InstanceUid msg))"
  obtain p reg' where i: "identified sv c conn msg s = (p, reg')" by fastforce
  obtain q reg0 where f: "FindOrCreateAgent ?i conn (op_agents s) = (q, reg0)" by fastforce
  have new: "agent_at reg0 q = NewAgent ?i conn" using f assms(5) by (auto simp: FindOrCreateAgent_def agent_at_def)
  note live = FindOrCreateAgent_ok [OF reg f]
  have a: "oa_Status (agent_at reg' p) = None" "oa_remoteConfig (agent_at reg' p) = None" "oa_CustomInstanceConfig (agent_at reg' p) = []"
    using i new SetFleetId_ok [of reg0 ?i q] live
    by (auto simp: identified_def f NewAgent_def split: option.splits)
  obtain a2 w2 where g: "processAgentGrouping sv now (conn_ctx c) msg (agent_at reg' p) (op_world s) = (a2, w2)" by fastforce
  have a2: "oa_Status a2 = None" "oa_remoteConfig a2 = None" "oa_CustomInstanceConfig a2 = []"
    using g a by (auto simp: processAgentGrouping_def HasCapability_def Let_def split: option.splits prod.splits)
  obtain changed b where u: "updateStatusField msg a2 = (changed, b)" by fastforce
  then have "changed" using updateStatusField_agent a2(1) by blast
  then show ?thesis using message_config [OF reg assms(3,4) i g u] a2 by (simp add: staged_config_def)
qed

text \<open>
  A staged config is offered until acknowledged.  A message without a description from a connected agent that
  has reported before is answered with the config staged for it exactly when the last wire hash it reported,
  in this message or before, is not that of the staged content, and with no config otherwise.
\<close>
theorem config_offered_until_acked:
  assumes "(opamp_step sv)\<^sup>*\<^sup>* s0 s" "op_agents s0 = no_agents" "onMessage sv c now conn msg s = Some (r, s')" "\<not> oversized sv msg"
    and "map_of (agentsById (op_agents s)) (sv_uuidText sv (take 16 (m_InstanceUid msg))) = Some p" "m_AgentDescription msg = None"
    and "oa_Status (agent_at (op_agents s) p) = Some status"
  defines "body \<equiv> oa_CustomInstanceConfig (agent_at (op_agents s) p)"
    and "last_status \<equiv> (case m_RemoteConfigStatus msg of Some rs \<Rightarrow> Some rs | None \<Rightarrow> m_RemoteConfigStatus status)"
  shows "sa_RemoteConfig r = (case last_status of
      None \<Rightarrow> None
    | Some rs \<Rightarrow> if rs_LastRemoteConfigHash rs = wireConfigHash body then None else Some (staged_config body))"
proof -
  note reg = registry_reachable [OF assms(1,2)]
  have i: "identified sv c conn msg s = (p, op_agents s)" using assms(5,6) by (simp add: identified_def FindOrCreateAgent_def)
  have g: "processAgentGrouping sv now (conn_ctx c) msg (agent_at (op_agents s) p) (op_world s) = (agent_at (op_agents s) p, op_world s)"
    using assms(6) by (simp add: processAgentGrouping_def)
  obtain changed b where u: "updateStatusField msg (agent_at (op_agents s) p) = (changed, b)" by fastforce
  have "\<not> changed" "Option.bind (oa_Status b) m_RemoteConfigStatus = last_status"
    using u assms(6,7) unfolding last_status_def
    by (auto simp: updateStatusField_def updateAgentDescription_def updateHealth_def updateRemoteConfigStatus_def updateCapabilities_def Let_def
        split: prod.splits option.splits if_splits)
  then show ?thesis using message_config [OF reg assms(3,4) i g u] by (auto simp: body_def split: option.split)
qed

section \<open>Pinned identities\<close>

text \<open>
  C15: A pinned connection acts under its pin.  On a connection whose token is pinned to a fleet id that parses and
  is not the zero UUID, and once a live row exists under that id, every message with a description that is not
  dropped for its size is handled for the agent with that fleet id: it is the id under which the agent is then
  known and stored, whatever identity the description claims, and no row but that one is written; pinned
  environment and cluster labels replace the reported ones in the row.
\<close>
theorem pinned_connection_identity:
  assumes "(opamp_step sv)\<^sup>*\<^sup>* s0 s" "op_agents s0 = no_agents" "onMessage sv c now conn msg s = Some (r, s')" "\<not> oversized sv msg"
    and "ca_pinnedFleetID c \<noteq> []" "env_parseUUID (sv_env sv) (ca_pinnedFleetID c) = Some pinned" "pinned \<noteq> zero_uuid"
    and "m_AgentDescription msg = Some d" "GetAgent pinned (op_store s) = Some existing"
  shows "\<exists>p row. map_of (agentsById (op_agents s')) (sv_uuidText sv (take 16 (m_InstanceUid msg))) = Some p
      \<and> storeID (agent_at (op_agents s') p) = pinned \<and> FindAgent pinned (op_agents s') = Some p
      \<and> (\<forall>j. j \<noteq> pinned \<longrightarrow> map_of (agents (op_store s')) j = map_of (agents (op_store s)) j)
      \<and> GetAgent pinned (op_store s') = Some row
      \<and> (ca_pinnedEnv c \<noteq> [] \<longrightarrow> map_of (ag_Labels row) ''deployment.environment'' = Some (ca_pinnedEnv c))
      \<and> (ca_pinnedCluster c \<noteq> [] \<longrightarrow> map_of (ag_Labels row) ''k8s.cluster.name'' = Some (ca_pinnedCluster c))"
proof -
  note reg = registry_reachable [OF assms(1,2)]
  let ?i = "sv_uuidText sv (take 16 (m_InstanceUid msg))"
  obtain q reg0 where f: "FindOrCreateAgent ?i conn (op_agents s) = (q, reg0)" by fastforce
  define reg1 where "reg1 = SetFleetId q pinned reg0"
  have i: "identified sv c conn msg s = (q, reg1)" using assms(5,6,8) by (simp add: identified_def f resolveFleetID_def reg1_def)
  note r1 = SetFleetId_ok [of reg0 ?i q pinned, folded reg1_def]
  have live: "registry_ok reg1" "map_of (agentsById reg1) ?i = Some q" "oa_FleetId (agent_at reg1 q) = pinned" "map_of (agentsByFleetId reg1) pinned = Some q"
    using r1 FindOrCreateAgent_ok [OF reg f] by auto
  have ge: "length (m_InstanceUid msg) \<ge> 16" using assms(3) by (auto simp: onMessage_def split: if_splits)
  obtain a2 w2 where g: "processAgentGrouping sv now (conn_ctx c) msg (agent_at reg1 q) (op_world s) = (a2, w2)" by fastforce
  obtain r3 a3 ws where u: "UpdateStatus (sv_csr sv) msg no_reply a2 = Some (r3, a3, ws)"
      and s': "op_agents s' = put_agent q (fst (persistAgent sv c now msg a3 w2)) reg1"
    using onMessage_result [OF ge assms(4) i g assms(3)] by metis
  have qlen: "q < length (objects reg1)" "agent_ok (agent_at reg1 q)" using live(1,2) by (auto simp: registry_ok_def ids_ok_def)
  define a where "a = agent_at (op_agents s') q"
  have at: "a = fst (persistAgent sv c now msg a3 w2)" using qlen by (simp add: a_def s')
  have p: "map_of (agentsById (op_agents s')) ?i = Some q" "FindAgent pinned (op_agents s') = Some q"
    using live by (simp_all add: s' FindAgent_def)
  have "agent_ok a2" using processAgentGrouping_agent [OF g] qlen by blast
  then have "oa_FleetId a = pinned"
    using same_but_groupD(1) [OF persistAgent_agent, of sv c now msg a3 w2] UpdateStatus_agent(2) [OF _ u] processAgentGrouping_agent [OF g] live(3)
    by (simp add: at same_identity_def)
  then have id: "storeID a = pinned" using assms(7) by (simp add: storeID_def)
  obtain w4 row where st: "op_store s' = w_store (persist_delivered sv now a w4)"
      and other: "\<And>j. j \<noteq> pinned \<Longrightarrow> map_of (agents (w_store w4)) j = map_of (agents (op_store s)) j"
      and row: "GetAgent pinned (w_store w4) = Some row" "ag_Labels row = resolveLabels c (extractAgentLabels (Some d))"
    using handled_message [OF reg assms(3,4) p(1)] assms(8,9) id unfolding a_def by (metis option.distinct(1))
  have rest: "map_of (agents (op_store s')) j = map_of (agents (op_store s)) j" if "j \<noteq> pinned" for j
    using other that by (simp add: st persist_delivered_store id split: option.split)
  have "\<exists>row'. GetAgent pinned (op_store s') = Some row' \<and> ag_Labels row' = ag_Labels row"
    using row(1) by (simp add: st persist_delivered_store id GetAgent_modify_row split: option.split)
  moreover have "ca_pinnedEnv c \<noteq> [] \<longrightarrow> map_of (ag_Labels row) ''deployment.environment'' = Some (ca_pinnedEnv c)"
      "ca_pinnedCluster c \<noteq> [] \<longrightarrow> map_of (ag_Labels row) ''k8s.cluster.name'' = Some (ca_pinnedCluster c)"
    by (simp_all add: row(2) resolveLabels_def applyLabelPin_def Let_def AList.update_conv')
  ultimately show ?thesis using p id rest unfolding a_def by metis
qed


section \<open>Confirmation of a push\<close>

text \<open>
  Any message confirms a push.  When a push had to be sent to a connected agent, the next message that agent
  sends is taken as its confirmation, whatever it reports: a heartbeat that was already under way, an old
  hash or a failed apply notify the waiting push just as an acknowledgement does.
\<close>
theorem push_confirmed_by_any_message:
  assumes "(opamp_step sv)\<^sup>*\<^sup>* s0 s" "op_agents s0 = no_agents" "FindAgent i (op_agents s) = Some p"
    and "SetCustomConfig content watcher tp p s = (True, s1)" "map_of (agentsById (op_agents s)) (sv_uuidText sv (take 16 (m_InstanceUid msg))) = Some p"
    and "onMessage sv c now conn msg s1 = Some (r, s')" "\<not> oversized sv msg"
  shows "watcher \<in> set (op_notified s')"
proof -
  note reg = registry_reachable [OF assms(1,2)]
  have plen: "p < length (objects (op_agents s))" using FindAgent_live [OF reg assms(3)] .
  have reg1: "registry_ok (op_agents s1)" using SetCustomConfig_ok [OF reg plen, of content watcher tp] assms(4) by simp
  have s1: "agentsById (op_agents s1) = agentsById (op_agents s)" "watcher \<in> set (oa_statusUpdateWatchers (agent_at (op_agents s1) p))"
    using assms(4) plen by (auto simp: SetCustomConfig_def SendToAgent_def split: prod.splits bool.splits)
  have ge: "length (m_InstanceUid msg) \<ge> 16" using assms(6) by (auto simp: onMessage_def split: if_splits)
  obtain q reg' where i: "identified sv c conn msg s1 = (q, reg')" by fastforce
  have f: "FindOrCreateAgent (sv_uuidText sv (take 16 (m_InstanceUid msg))) conn (op_agents s1) = (p, op_agents s1)"
    using assms(5) s1(1) by (simp add: FindOrCreateAgent_def)
  have a: "q = p \<and> oa_statusUpdateWatchers (agent_at reg' q) = oa_statusUpdateWatchers (agent_at (op_agents s1) p)"
    using i SetFleetId_ok [OF reg1, of "sv_uuidText sv (take 16 (m_InstanceUid msg))" p] assms(5) s1(1)
    by (auto simp: identified_def f split: option.splits)
  obtain a2 w2 where g: "processAgentGrouping sv now (conn_ctx c) msg (agent_at reg' q) (op_world s1) = (a2, w2)" by fastforce
  obtain r3 a3 ws where u: "UpdateStatus (sv_csr sv) msg no_reply a2 = Some (r3, a3, ws)" and n: "op_notified s' = op_notified s1 @ ws"
    using onMessage_result [OF ge assms(7) i g assms(6)] by metis
  have "agent_ok a2" using processAgentGrouping_agent [OF g] identified_ok [OF reg1 i] by blast
  then have "ws = oa_statusUpdateWatchers (agent_at (op_agents s1) p)" using UpdateStatus_agent(2) [OF _ u] processAgentGrouping_agent [OF g] a by metis
  then show ?thesis using s1(2) n by simp
qed

section \<open>The small deployment\<close>

text \<open>The pod with its group's config unacknowledged, once it is connected.\<close>

theorem reconcile_delivers_stored_witness:
  "\<exists>r s' new. onMessage pod_server pod_conn 5 1 (pod_beat None) pod_start = Some (r, s')
     \<and> op_sent (reconcileOnce pod_server 6 (\<lambda>_. 7) (\<lambda>_. Confirmed) s') = op_sent s' @ new
     \<and> set (map (sa_RemoteConfig \<circ> snd) new) \<subseteq> {Some (staged_config ''exporters'')}
     \<and> op_world (reconcileOnce pod_server 6 (\<lambda>_. 7) (\<lambda>_. Confirmed) s') = op_world s'"
proof -
  obtain r s' where m: "onMessage pod_server pod_conn 5 1 (pod_beat None) pod_start = Some (r, s')" using pod_beat_handled by fastforce
  have "set (map snd (GetAllAgentsReadonlyClone (op_agents s'))) = {agent_at (op_agents s') 0}"
    using pod_indexes [OF m] by (simp add: GetAllAgentsReadonlyClone_def)
  with reconcile_delivers_stored [of pod_server 6 "\<lambda>_. 7" "\<lambda>_. Confirmed" s'] pod_first_row [OF m]
  show ?thesis using m by fastforce
qed

theorem first_message_empty_config_witness:
  "\<exists>r s'. onMessage pod_server pod_conn 5 1 pod_hello pod_start = Some (r, s')
     \<and> map_option rc_Config (sa_RemoteConfig r) = Some [([], \<lparr>fl_Body = [], fl_ContentType = []\<rparr>)]"
proof -
  obtain r s' where m: "onMessage pod_server pod_conn 5 1 pod_hello pod_start = Some (r, s')" using pod_hello_handled by blast
  from first_message_empty_config [OF rtranclp.rtrancl_refl _ m] show ?thesis using m by (simp add: no_agents_def)
qed

theorem pinned_connection_identity_witness:
  "\<exists>r s' p row. onMessage pod_server pod_conn 5 1 pod_hello pod_start = Some (r, s')
     \<and> storeID (agent_at (op_agents s') p) = ''pinned-id'' \<and> FindAgent ''pinned-id'' (op_agents s') = Some p
     \<and> map_of (agents (op_store s')) pod_wire = Some pod_row
     \<and> GetAgent ''pinned-id'' (op_store s') = Some row \<and> map_of (ag_Labels row) ''deployment.environment'' = Some ''prod''"
proof -
  obtain r s' where m: "onMessage pod_server pod_conn 5 1 pod_hello pod_start = Some (r, s')" using pod_hello_handled by blast
  have start: "map_of (agents (op_store pod_start)) pod_wire = Some pod_row" "pod_wire \<noteq> ''pinned-id''" by (simp_all add: pod_start_def pod_wire_def)
  have pin: "ca_pinnedFleetID pod_conn = ''pinned-id''" "ca_pinnedEnv pod_conn = ''prod''" "env_parseUUID sample_env ''pinned-id'' = Some ''pinned-id''" "''pinned-id'' \<noteq> zero_uuid"
    by (simp_all add: pod_conn_def sample_env_def zero_uuid_def)
  from pinned_connection_identity [OF rtranclp.rtrancl_refl _ m, of "''pinned-id''"] show ?thesis
    using m start pin pod_row_stored(2) by simp metis
qed


text \<open>After its first message the pod reports a hash of something else, and is offered what is staged.\<close>

theorem config_offered_until_acked_witness:
  "\<exists>r s' r2 s2. onMessage pod_server pod_conn 5 1 (pod_beat None) pod_start = Some (r, s')
     \<and> onMessage pod_server pod_conn 6 1 (pod_beat (Some \<lparr>rs_LastRemoteConfigHash = ''old'', rs_Status = Status_APPLIED, rs_ErrorMessage = []\<rparr>)) s' = Some (r2, s2)
     \<and> sa_RemoteConfig r2 = Some (staged_config [])"
proof -
  let ?rs = "\<lparr>rs_LastRemoteConfigHash = ''old'', rs_Status = Status_APPLIED, rs_ErrorMessage = []\<rparr>"
  obtain r s' where m: "onMessage pod_server pod_conn 5 1 (pod_beat None) pod_start = Some (r, s')" using pod_beat_handled by fastforce
  note first = pod_first [OF m]
  then obtain status where status: "oa_Status (agent_at (op_agents s') 0) = Some status" by blast
  have "registry_ok (op_agents s')" using registry_reachable [of pod_server pod_start s'] first by simp
  then obtain r2 s2 where m2: "onMessage pod_server pod_conn 6 1 (pod_beat (Some ?rs)) s' = Some (r2, s2)" using pod_beat_handled by blast
  have "length (wireConfigHash []) \<noteq> length ''old''" by (simp add: wireConfigHash_def)
  then have "''old'' \<noteq> wireConfigHash []" by metis
  with config_offered_until_acked [OF _ _ m2, of pod_start 0 status] first status
  have "sa_RemoteConfig r2 = Some (staged_config [])" by simp
  then show ?thesis using m m2 by blast
qed

theorem push_confirmed_by_any_message_witness:
  "\<exists>r s' s1 r2 s2. onMessage pod_server pod_conn 5 1 (pod_beat None) pod_start = Some (r, s')
     \<and> SetCustomConfig ''exporters'' 7 None 0 s' = (True, s1)
     \<and> onMessage pod_server pod_conn 6 1 (pod_beat (Some \<lparr>rs_LastRemoteConfigHash = ''old'', rs_Status = Status_FAILED, rs_ErrorMessage = []\<rparr>)) s1 = Some (r2, s2)
     \<and> 7 \<in> set (op_notified s2)"
proof -
  let ?rs = "\<lparr>rs_LastRemoteConfigHash = ''old'', rs_Status = Status_FAILED, rs_ErrorMessage = []\<rparr>"
  obtain r s' where m: "onMessage pod_server pod_conn 5 1 (pod_beat None) pod_start = Some (r, s')" using pod_beat_handled by fastforce
  note first = pod_first [OF m]
  have ok: "registry_ok (op_agents s')" using registry_reachable [of pod_server pod_start s'] first by simp
  have live: "0 < length (objects (op_agents s'))" "agent_ok (agent_at (op_agents s') 0)" using ok first by (auto simp: registry_ok_def ids_ok_def)
  then obtain s1 where c: "SetCustomConfig ''exporters'' 7 None 0 s' = (True, s1)"
    using first by (auto simp: SetCustomConfig_def calcRemoteConfig_def agent_ok_def isEqualRemoteConfig_def isEqualConfigSet_def isEqualConfigFile_def staged_config_def Let_def split: option.splits)
  have "registry_ok (op_agents s1)" using SetCustomConfig_ok [OF ok live(1), of "''exporters''" 7 None] by (simp add: c)
  then obtain r2 s2 where m2: "onMessage pod_server pod_conn 6 1 (pod_beat (Some ?rs)) s1 = Some (r2, s2)" using pod_beat_handled by blast
  have "FindAgent pod_wire (op_agents s') = Some 0" by (simp add: FindAgent_def pod_indexes [OF m])
  from push_confirmed_by_any_message [OF _ _ this c _ m2, of pod_start] first have "7 \<in> set (op_notified s2)" by simp
  then show ?thesis using m c m2 by blast
qed

end
