(* ===== verification/Automations.thy ===== *)
theory Automations
  imports Opamp_Server Alerting
begin

text \<open>
  Agent automations: the rule service (\<open>services/automation_service_impl.go\<close>) over the in-memory rule table, the
  handlers of \<open>api/handlers/automations.go\<close>, and the evaluator of \<open>automations/evaluator.go\<close>, which restarts agents
  through the OpAMP server under a cooldown, an attempt budget per outage and a dry-run switch.  The stored
  and the service record have the same fields and are one record here.
\<close>

section \<open>Rules\<close>

record Automation =
  at_ID :: string
  at_Name :: string
  at_Enabled :: bool
  at_AgentID :: "string option"
  at_GroupID :: "string option"
  at_Trigger :: string
  at_Action :: string
  at_CooldownSeconds :: int
  at_MaxAttempts :: int
  at_DryRun :: bool
  at_CreatedAt :: gotime
  at_UpdatedAt :: gotime

record AutomationInput =
  ain_Name :: string
  ain_Enabled :: bool
  ain_AgentID :: "string option"
  ain_GroupID :: "string option"
  ain_Trigger :: string
  ain_Action :: string
  ain_CooldownSeconds :: int
  ain_MaxAttempts :: int
  ain_DryRun :: bool

type_synonym rule_table = "(string \<times> Automation) list"

abbreviation AutomationTriggerAgentUnhealthy :: string where "AutomationTriggerAgentUnhealthy \<equiv> ''agent_unhealthy''"
abbreviation AutomationTriggerAgentSilent :: string where "AutomationTriggerAgentSilent \<equiv> ''agent_silent''"
abbreviation AutomationActionSupervisorRestart :: string where "AutomationActionSupervisorRestart \<equiv> ''supervisor_restart''"

datatype automation_error =
    AutomationNameRequired
  | TargetBoth
  | TargetMissing
  | InvalidTrigger string
  | InvalidAction string
  | CooldownNotPositive
  | MaxAttemptsNotPositive
  | AutomationExists string
  | AutomationNotFound string

fun automation_error_text :: "Env \<Rightarrow> automation_error \<Rightarrow> string" where
  "automation_error_text env AutomationNameRequired = ''name is required''"
| "automation_error_text env TargetBoth = ''invalid target: set exactly one of agent_id or group_id, not both''"
| "automation_error_text env TargetMissing = ''invalid target: set exactly one of agent_id or group_id''"
| "automation_error_text env (InvalidTrigger t) = ''invalid trigger '' @ env_quote env t"
| "automation_error_text env (InvalidAction a) = ''invalid action '' @ env_quote env a"
| "automation_error_text env CooldownNotPositive = ''cooldown_seconds must be positive''"
| "automation_error_text env MaxAttemptsNotPositive = ''max_attempts must be positive''"
| "automation_error_text env (AutomationExists i) = ''failed to create automation: automation already exists: '' @ i"
| "automation_error_text env (AutomationNotFound i) = ''automation not found: '' @ i"

section \<open>The rule table (memory store)\<close>

definition store_CreateAutomation :: "Automation \<Rightarrow> rule_table \<Rightarrow> automation_error + rule_table" where
  "store_CreateAutomation a rules =
     (if map_of rules (at_ID a) \<noteq> None then Inl (AutomationExists (at_ID a)) else Inr (AList.update (at_ID a) a rules))"

definition store_GetAutomation :: "string \<Rightarrow> rule_table \<Rightarrow> Automation option" where
  "store_GetAutomation i rules = map_of rules i"

definition store_ListAutomations :: "rule_table \<Rightarrow> Automation list" where
  "store_ListAutomations rules = map snd rules"

definition store_UpdateAutomation :: "Automation \<Rightarrow> rule_table \<Rightarrow> automation_error + rule_table" where
  "store_UpdateAutomation a rules =
     (if map_of rules (at_ID a) = None then Inl (AutomationNotFound (at_ID a)) else Inr (AList.update (at_ID a) a rules))"

definition store_DeleteAutomation :: "string \<Rightarrow> rule_table \<Rightarrow> automation_error + rule_table" where
  "store_DeleteAutomation i rules = (if map_of rules i = None then Inl (AutomationNotFound i) else Inr (AList.delete i rules))"

section \<open>The service\<close>

definition DefaultAutomationCooldownSeconds :: int where "DefaultAutomationCooldownSeconds = 300"

definition DefaultAutomationMaxAttempts :: int where "DefaultAutomationMaxAttempts = 3"

definition applyAutomationDefaults :: "AutomationInput \<Rightarrow> AutomationInput" where
  "applyAutomationDefaults input =
     (let input1 = (if ain_CooldownSeconds input \<le> 0 then input\<lparr>ain_CooldownSeconds := DefaultAutomationCooldownSeconds\<rparr> else input)
      in if ain_MaxAttempts input1 \<le> 0 then input1\<lparr>ain_MaxAttempts := DefaultAutomationMaxAttempts\<rparr> else input1)"

definition normalizePtr :: "string option \<Rightarrow> string option" where
  "normalizePtr s =
     (case s of
        None \<Rightarrow> None
      | Some x \<Rightarrow> (let v = TrimSpace x in if v = [] then None else Some v))"

definition validateAutomationInput :: "AutomationInput \<Rightarrow> automation_error option" where
  "validateAutomationInput input =
     (let hasAgent = normalizePtr (ain_AgentID input) \<noteq> None; hasGroup = normalizePtr (ain_GroupID input) \<noteq> None in
      if TrimSpace (ain_Name input) = [] then Some AutomationNameRequired
      else if hasAgent \<and> hasGroup then Some TargetBoth
      else if \<not> hasAgent \<and> \<not> hasGroup then Some TargetMissing
      else if ain_Trigger input \<noteq> AutomationTriggerAgentUnhealthy \<and> ain_Trigger input \<noteq> AutomationTriggerAgentSilent
      then Some (InvalidTrigger (ain_Trigger input))
      else if ain_Action input \<noteq> AutomationActionSupervisorRestart then Some (InvalidAction (ain_Action input))
      else if ain_CooldownSeconds input \<le> 0 then Some CooldownNotPositive
      else if ain_MaxAttempts input \<le> 0 then Some MaxAttemptsNotPositive
      else None)"

definition automation_of :: "string \<Rightarrow> AutomationInput \<Rightarrow> gotime \<Rightarrow> gotime \<Rightarrow> Automation" where
  "automation_of i input created updated =
     \<lparr>at_ID = i, at_Name = ain_Name input, at_Enabled = ain_Enabled input, at_AgentID = normalizePtr (ain_AgentID input),
      at_GroupID = normalizePtr (ain_GroupID input), at_Trigger = ain_Trigger input, at_Action = ain_Action input,
      at_CooldownSeconds = ain_CooldownSeconds input, at_MaxAttempts = ain_MaxAttempts input, at_DryRun = ain_DryRun input,
      at_CreatedAt = created, at_UpdatedAt = updated\<rparr>"

text \<open>The evaluator's state per rule and agent; a zero time means that nothing has been attempted.\<close>

record ruleAgentState =
  ra_unhealthy :: bool
  ra_attempts :: int
  ra_lastAttemptAt :: gotime
  ra_escalated :: bool

definition fresh_state :: ruleAgentState where
  "fresh_state = \<lparr>ra_unhealthy = False, ra_attempts = 0, ra_lastAttemptAt = 0, ra_escalated = False\<rparr>"

datatype decision = Triggered | ActionTaken | ActionFailed | Suppressed | Escalated

text \<open>A decision as its audit row has it: when, on which rule and agent.\<close>

record LogEntry =
  le_At :: gotime
  le_Rule :: string
  le_Agent :: string
  le_Decision :: decision

text \<open>The rule table, the evaluator's map, its decisions in order, and the OpAMP server with the stored data.\<close>

record AutoState =
  au_rules :: rule_table
  au_state :: "(string \<times> ruleAgentState) list"
  au_log :: "LogEntry list"
  au_opamp :: OpampState

abbreviation au_world :: "AutoState \<Rightarrow> World" where
  "au_world s \<equiv> op_world (au_opamp s)"

definition set_world :: "World \<Rightarrow> AutoState \<Rightarrow> AutoState" where
  "set_world w s = s\<lparr>au_opamp := (au_opamp s)\<lparr>op_world := w\<rparr>\<rparr>"

definition CreateAutomation :: "Env \<Rightarrow> gotime \<Rightarrow> AutomationInput \<Rightarrow> AutoState \<Rightarrow> (automation_error + Automation) \<times> AutoState" where
  "CreateAutomation env now raw_input s =
     (let input = applyAutomationDefaults raw_input in
      case validateAutomationInput input of
        Some e \<Rightarrow> (Inl e, s)
      | None \<Rightarrow>
          (let (uuid, w) = fresh_uuid env (au_world s);
               a = automation_of uuid input now now; s1 = set_world w s
           in (case store_CreateAutomation a (au_rules s) of
                 Inl e \<Rightarrow> (Inl e, s1)
               | Inr rules \<Rightarrow> (Inr a, s1\<lparr>au_rules := rules\<rparr>))))"

definition UpdateAutomation :: "gotime \<Rightarrow> string \<Rightarrow> AutomationInput \<Rightarrow> AutoState \<Rightarrow> (automation_error + Automation) \<times> AutoState" where
  "UpdateAutomation now i raw_input s =
     (let input = applyAutomationDefaults raw_input in
      case validateAutomationInput input of
        Some e \<Rightarrow> (Inl e, s)
      | None \<Rightarrow>
          (case store_GetAutomation i (au_rules s) of
             None \<Rightarrow> (Inl (AutomationNotFound i), s)
           | Some existing \<Rightarrow>
               (let updated = automation_of i input (at_CreatedAt existing) now
                in (case store_UpdateAutomation updated (au_rules s) of
                      Inl e \<Rightarrow> (Inl e, s)
                    | Inr rules \<Rightarrow> (Inr updated, s\<lparr>au_rules := rules\<rparr>)))))"

definition SetAutomationEnabled :: "gotime \<Rightarrow> string \<Rightarrow> bool \<Rightarrow> AutoState \<Rightarrow> (automation_error + Automation) \<times> AutoState" where
  "SetAutomationEnabled now i enabled s =
     (case store_GetAutomation i (au_rules s) of
        None \<Rightarrow> (Inl (AutomationNotFound i), s)
      | Some existing \<Rightarrow>
          (let updated = existing\<lparr>at_Enabled := enabled, at_UpdatedAt := now\<rparr>
           in (case store_UpdateAutomation updated (au_rules s) of
                 Inl e \<Rightarrow> (Inl e, s)
               | Inr rules \<Rightarrow> (Inr updated, s\<lparr>au_rules := rules\<rparr>))))"

definition DeleteAutomation :: "string \<Rightarrow> AutoState \<Rightarrow> automation_error option \<times> AutoState" where
  "DeleteAutomation i s =
     (case store_DeleteAutomation i (au_rules s) of
        Inl e \<Rightarrow> (Some e, s)
      | Inr rules \<Rightarrow> (None, s\<lparr>au_rules := rules\<rparr>))"

section \<open>The handlers\<close>

definition HandleCreateAutomation ::
  "Env \<Rightarrow> gotime \<Rightarrow> AutomationInput option \<Rightarrow> AutoState \<Rightarrow> Automation http_reply \<times> AutoState" where
  "HandleCreateAutomation env now body s =
     (case body of
        None \<Rightarrow> (BadRequest ''invalid JSON body'' [], s)
      | Some input \<Rightarrow>
          (case CreateAutomation env now input s of
             (Inr a, s') \<Rightarrow> (StatusOK a, s')
           | (Inl e, s') \<Rightarrow>
               if isValidationError (automation_error_text env e) then (BadRequest (automation_error_text env e) [], s')
               else (InternalServerError ''failed to create automation'', s')))"

definition HandleUpdateAutomation ::
  "Env \<Rightarrow> gotime \<Rightarrow> string \<Rightarrow> AutomationInput option \<Rightarrow> AutoState \<Rightarrow> Automation http_reply \<times> AutoState" where
  "HandleUpdateAutomation env now i body s =
     (case body of
        None \<Rightarrow> (BadRequest ''invalid JSON body'' [], s)
      | Some input \<Rightarrow>
          (case UpdateAutomation now i input s of
             (Inr a, s') \<Rightarrow> (StatusOK a, s')
           | (Inl e, s') \<Rightarrow>
               if isNotFoundError (automation_error_text env e) then (NotFound ''automation not found'', s')
               else if isValidationError (automation_error_text env e) then (BadRequest (automation_error_text env e) [], s')
               else (InternalServerError ''failed to update automation'', s')))"

definition HandleSetAutomationEnabled ::
  "Env \<Rightarrow> gotime \<Rightarrow> string \<Rightarrow> bool option \<Rightarrow> AutoState \<Rightarrow> Automation http_reply \<times> AutoState" where
  "HandleSetAutomationEnabled env now i body s =
     (case body of
        None \<Rightarrow> (BadRequest ''invalid JSON body'' [], s)
      | Some enabled \<Rightarrow>
          (case SetAutomationEnabled now i enabled s of
             (Inr a, s') \<Rightarrow> (StatusOK a, s')
           | (Inl e, s') \<Rightarrow>
               if isNotFoundError (automation_error_text env e) then (NotFound ''automation not found'', s')
               else (InternalServerError ''failed to set automation enabled'', s')))"

definition HandleDeleteAutomation :: "Env \<Rightarrow> string \<Rightarrow> AutoState \<Rightarrow> unit http_reply \<times> AutoState" where
  "HandleDeleteAutomation env i s =
     (case DeleteAutomation i s of
        (None, s') \<Rightarrow> (StatusOK (), s')
      | (Some e, s') \<Rightarrow>
          if isNotFoundError (automation_error_text env e) then (NotFound ''automation not found'', s')
          else (InternalServerError ''failed to delete automation'', s'))"

section \<open>The evaluator\<close>

definition scopeAgents :: "Automation \<Rightarrow> Agent list \<Rightarrow> Agent list" where
  "scopeAgents a ags =
     filter (\<lambda>g. if deref (at_AgentID a) \<noteq> [] then ag_ID g = deref (at_AgentID a)
                 else if deref (at_GroupID a) \<noteq> [] then ag_GroupID g = Some (deref (at_GroupID a))
                 else False) ags"

definition matchesTrigger :: "Agent \<Rightarrow> string \<Rightarrow> gotime \<Rightarrow> duration \<Rightarrow> bool" where
  "matchesTrigger g trig now silence =
     (let silent = Sub now (ag_LastSeen g) > silence in
      if trig = AutomationTriggerAgentSilent then silent
      else if trig = AutomationTriggerAgentUnhealthy
      then silent \<or> ag_Status g = AgentStatusOffline \<or> ag_Status g = AgentStatusError
      else False)"

text \<open>The product is a 64-bit one.\<close>

definition cooldown :: "Automation \<Rightarrow> duration" where
  "cooldown a = (if at_CooldownSeconds a \<le> 0 then 0 else int64 (at_CooldownSeconds a * second))"

definition maxAttempts :: "Automation \<Rightarrow> int" where
  "maxAttempts a = (if at_MaxAttempts a \<le> 0 then 1 else at_MaxAttempts a)"

definition state_key :: "Automation \<Rightarrow> Agent \<Rightarrow> string" where
  "state_key a g = at_ID a @ ''|'' @ ag_ID g"

fun decision_event :: "decision \<Rightarrow> string" where
  "decision_event Triggered = ''automation.triggered''"
| "decision_event ActionTaken = ''automation.action_taken''"
| "decision_event ActionFailed = ''automation.action_failed''"
| "decision_event Suppressed = ''automation.suppressed''"
| "decision_event Escalated = ''automation.escalated''"

definition record_decision ::
  "Env \<Rightarrow> gotime \<Rightarrow> decision \<Rightarrow> Automation \<Rightarrow> Agent \<Rightarrow> string \<Rightarrow> AutoState \<Rightarrow> AutoState" where
  "record_decision env now d a g reason s =
     (set_world (audit env now background_ctx
        \<lparr>en_Actor = ''system'', en_EventType = decision_event d, en_TargetType = ''agent'', en_TargetID = ag_ID g,
         en_Action = ''automation'',
         en_Payload = Some [(''automation_id'', JStr (at_ID a)), (''automation_name'', JStr (at_Name a)),
           (''trigger'', JStr (at_Trigger a)), (''action'', JStr (at_Action a)), (''dry_run'', JBool (at_DryRun a)),
           (''reason'', JStr reason)]\<rparr> (au_world s)) s)
       \<lparr>au_log := au_log s @ [\<lparr>le_At = now, le_Rule = at_ID a, le_Agent = ag_ID g, le_Decision = d\<rparr>]\<rparr>"

fun push_error_text :: "push_error \<Rightarrow> string" where
  "push_error_text AgentNotFound = ''agent not found''"
| "push_error_text NoRemoteConfig = ''agent does not support remote config''"
| "push_error_text NoRestartCommand = ''agent does not support restart command''"
| "push_error_text ContextDone = ''context canceled''"
| "push_error_text AckTimeout = ''timeout waiting for agent to apply config''"

definition maybeAct ::
  "Env \<Rightarrow> gotime \<Rightarrow> Automation \<Rightarrow> Agent \<Rightarrow> ruleAgentState \<Rightarrow> AutoState \<Rightarrow> ruleAgentState \<times> AutoState" where
  "maybeAct env now a g st s =
     (if ra_escalated st then (st, s)
      else if cooldown a > 0 \<and> \<not> IsZero (ra_lastAttemptAt st) \<and> Sub now (ra_lastAttemptAt st) < cooldown a then (st, s)
      else if ra_attempts st \<ge> maxAttempts a then
        (st\<lparr>ra_escalated := True\<rparr>,
         record_decision env now Escalated a g
           (''max attempts ('' @ itoa (maxAttempts a) @ '') reached in one outage; auto-action stopped, escalating to human'') s)
      else
        (let st1 = st\<lparr>ra_attempts := ra_attempts st + 1, ra_lastAttemptAt := now\<rparr> in
         if at_DryRun a then (st1, record_decision env now Suppressed a g ''dry_run: action not taken'' s)
         else (case RestartAgent (ag_ID g) (au_opamp s) of
             (Some e, op) \<Rightarrow>
               (st1, record_decision env now ActionFailed a g (''restart dispatch failed: '' @ push_error_text e) (s\<lparr>au_opamp := op\<rparr>))
           | (None, op) \<Rightarrow>
               (st1, record_decision env now ActionTaken a g ''supervisor restart dispatched'' (s\<lparr>au_opamp := op\<rparr>)))))"

definition evaluate_pair :: "Env \<Rightarrow> duration \<Rightarrow> gotime \<Rightarrow> AutoState \<Rightarrow> Automation \<times> Agent \<Rightarrow> AutoState" where
  "evaluate_pair env silence now s p =
     (case p of (a, g) \<Rightarrow>
        (let key = state_key a g;
             st = (case map_of (au_state s) key of None \<Rightarrow> fresh_state | Some st \<Rightarrow> st)
         in if \<not> matchesTrigger g (at_Trigger a) now silence
            then s\<lparr>au_state := AList.update key fresh_state (au_state s)\<rparr>
            else
              (let (st1, s1) = (if ra_unhealthy st then (st, s)
                     else (fresh_state\<lparr>ra_unhealthy := True\<rparr>, record_decision env now Triggered a g ''trigger condition observed'' s));
                   (st2, s2) = maybeAct env now a g st1 s1
               in s2\<lparr>au_state := AList.update key st2 (au_state s2)\<rparr>)))"

text \<open>The pairs in the order of the two loops.\<close>

definition evaluated_pairs :: "AutoState \<Rightarrow> (Automation \<times> Agent) list" where
  "evaluated_pairs s =
     concat (map (\<lambda>a. map (Pair a) (scopeAgents a (ListAgents (w_store (au_world s)))))
       (filter at_Enabled (store_ListAutomations (au_rules s))))"

definition Tick :: "Env \<Rightarrow> duration \<Rightarrow> gotime \<Rightarrow> AutoState \<Rightarrow> AutoState" where
  "Tick env silence now s =
     (let pairs = evaluated_pairs s;
          s1 = foldl (evaluate_pair env silence now) s pairs;
          seen = map (\<lambda>(a, g). state_key a g) pairs
      in s1\<lparr>au_state := filter (\<lambda>(k, _). k \<in> set seen) (au_state s1)\<rparr>)"

definition New_silence :: "duration \<Rightarrow> duration" where
  "New_silence configured = (if configured \<le> 0 then 10 * minute else configured)"

end
