(* ===== verification/Automation_Guards.thy ===== *)
theory Automation_Guards
  imports Automations
begin

text \<open>
  The guardrails of the automation evaluator: the decisions on a rule and an agent correspond to its outages,
  each with a bounded number of attempts a cooldown apart and at most one escalation, over any history of
  ticks, rule edits and fleet changes; a tick restarts only agents that a live rule selects; and the cooldown
  does not carry over from one outage to the next.
\<close>

section \<open>Frames\<close>

lemma set_world_simps [simp]:
  "au_rules (set_world w s) = au_rules s" "au_state (set_world w s) = au_state s" "au_log (set_world w s) = au_log s"
  "op_agents (au_opamp (set_world w s)) = op_agents (au_opamp s)" "op_sent (au_opamp (set_world w s)) = op_sent (au_opamp s)"
  "au_world (set_world w s) = w"
  by (simp_all add: set_world_def)

definition entry :: "gotime \<Rightarrow> Automation \<Rightarrow> Agent \<Rightarrow> decision \<Rightarrow> LogEntry" where
  "entry now a g d = \<lparr>le_At = now, le_Rule = at_ID a, le_Agent = ag_ID g, le_Decision = d\<rparr>"

lemma entry_simps [simp]:
  "le_At (entry now a g d) = now" "le_Rule (entry now a g d) = at_ID a" "le_Agent (entry now a g d) = ag_ID g" "le_Decision (entry now a g d) = d"
  by (simp_all add: entry_def)

lemma record_decision_simps [simp]:
  "au_rules (record_decision env now d a g reason s) = au_rules s" "au_state (record_decision env now d a g reason s) = au_state s"
  "au_log (record_decision env now d a g reason s) = au_log s @ [entry now a g d]"
  "op_agents (au_opamp (record_decision env now d a g reason s)) = op_agents (au_opamp s)"
  "op_sent (au_opamp (record_decision env now d a g reason s)) = op_sent (au_opamp s)"
  "w_store (au_world (record_decision env now d a g reason s)) = w_store (au_world s)"
  by (simp_all add: record_decision_def entry_def)

abbreviation attempts :: "decision set" where
  "attempts \<equiv> {ActionTaken, ActionFailed, Suppressed}"

text \<open>The three outcomes of \<open>maybeAct\<close>: it waits, hands over, or attempts.\<close>

definition on_hold :: "gotime \<Rightarrow> Automation \<Rightarrow> ruleAgentState \<Rightarrow> bool" where
  "on_hold now a st \<longleftrightarrow>
     ra_escalated st \<or> cooldown a > 0 \<and> \<not> IsZero (ra_lastAttemptAt st) \<and> Sub now (ra_lastAttemptAt st) < cooldown a"

lemma maybeAct_cases:
  assumes "maybeAct env now a g st s = (st', s')"
  shows "au_rules s' = au_rules s" "au_state s' = au_state s" "op_agents (au_opamp s') = op_agents (au_opamp s)"
    and "if on_hold now a st then st' = st \<and> au_log s' = au_log s
         else if ra_attempts st \<ge> maxAttempts a then st' = st\<lparr>ra_escalated := True\<rparr> \<and> au_log s' = au_log s @ [entry now a g Escalated]
         else st' = st\<lparr>ra_attempts := ra_attempts st + 1, ra_lastAttemptAt := now\<rparr> \<and> (\<exists>d \<in> attempts. au_log s' = au_log s @ [entry now a g d])"
  using assms by (auto simp: maybeAct_def on_hold_def Let_def RestartAgent_def SendToAgent_def split: if_splits prod.splits option.splits)

section \<open>Outages\<close>

text \<open>An outage: when it was observed, the attempts in it, and when it was handed over, if it was.\<close>

type_synonym outage = "gotime \<times> (gotime \<times> decision) list \<times> gotime option"

definition log_entry :: "string \<Rightarrow> string \<Rightarrow> gotime \<Rightarrow> decision \<Rightarrow> LogEntry" where
  "log_entry i j t d = \<lparr>le_At = t, le_Rule = i, le_Agent = j, le_Decision = d\<rparr>"

fun outage_log :: "string \<Rightarrow> string \<Rightarrow> outage \<Rightarrow> LogEntry list" where
  "outage_log i j (t0, acts, esc) =
     log_entry i j t0 Triggered # map (\<lambda>(t, d). log_entry i j t d) acts
       @ (case esc of None \<Rightarrow> [] | Some t \<Rightarrow> [log_entry i j t Escalated])"

fun within_guards :: "int \<Rightarrow> duration \<Rightarrow> outage \<Rightarrow> bool" where
  "within_guards budget gap (t0, acts, esc) \<longleftrightarrow>
     snd ` set acts \<subseteq> attempts \<and> int (length acts) \<le> budget \<and> (esc \<noteq> None \<longrightarrow> int (length acts) = budget)
     \<and> successively (\<lambda>t t'. gap \<le> t' - t) (map fst acts)"

definition pair_log :: "string \<Rightarrow> string \<Rightarrow> AutoState \<Rightarrow> LogEntry list" where
  "pair_log i j s = filter (\<lambda>e. le_Rule e = i \<and> le_Agent e = j) (au_log s)"

fun matches_state :: "outage \<Rightarrow> ruleAgentState \<Rightarrow> bool" where
  "matches_state (t0, acts, esc) st \<longleftrightarrow>
     ra_attempts st = int (length acts) \<and> ra_escalated st = (esc \<noteq> None)
     \<and> ra_lastAttemptAt st = (if acts = [] then 0 else fst (last acts)) \<and> 0 \<notin> fst ` set acts"

text \<open>Rule ids are UUIDs, so the first bar of a key ends the rule id.\<close>

lemma key_inj: "CHR ''|'' \<notin> set i \<Longrightarrow> CHR ''|'' \<notin> set i' \<Longrightarrow> i @ ''|'' @ j = i' @ ''|'' @ j' \<longleftrightarrow> i = i' \<and> j = j'"
proof (induction i arbitrary: i')
  case Nil
  then show ?case by (cases i') auto
next
  case (Cons x i)
  then show ?case by (cases i') auto
qed

lemma Sub_at_least: "0 < c \<Longrightarrow> \<not> Sub t u < c \<Longrightarrow> c \<le> t - u"
  by (auto simp: Sub_def min_def max_def split: if_splits)

lemma act_within_guards:
  assumes "within_guards budget gap x" "matches_state x st" "0 < gap" "0 < now" "\<not> on_hold now a st"
    "cooldown a = gap" "maxAttempts a = budget" "ra_attempts st < maxAttempts a" "d \<in> attempts"
  shows "case x of (t0, acts, esc) \<Rightarrow> esc = None \<and> within_guards budget gap (t0, acts @ [(now, d)], None)
    \<and> matches_state (t0, acts @ [(now, d)], None) (st\<lparr>ra_attempts := ra_attempts st + 1, ra_lastAttemptAt := now\<rparr>)"
proof (cases x)
  case (fields t0 acts esc)
  have "gap \<le> now - fst (last acts)" if "acts \<noteq> []"
  proof -
    have "ra_lastAttemptAt st = fst (last acts)" "fst (last acts) \<noteq> 0" using assms(2) that by (auto simp: fields)
    then show ?thesis using assms(3,5,6) Sub_at_least [of gap now "fst (last acts)"] by (simp add: on_hold_def IsZero_def)
  qed
  then show ?thesis using assms by (auto simp: fields on_hold_def successively_append_iff last_map)
qed

text \<open>One evaluation of a rule on an agent.\<close>

definition state_of :: "Automation \<Rightarrow> Agent \<Rightarrow> AutoState \<Rightarrow> ruleAgentState" where
  "state_of a g s = (case map_of (au_state s) (state_key a g) of None \<Rightarrow> fresh_state | Some st \<Rightarrow> st)"

definition during_outage :: "ruleAgentState \<Rightarrow> ruleAgentState" where
  "during_outage st = (if ra_unhealthy st then st else fresh_state\<lparr>ra_unhealthy := True\<rparr>)"

lemma evaluate_pair_recovered:
  "\<not> matchesTrigger g (at_Trigger a) now silence \<Longrightarrow>
     evaluate_pair env silence now s (a, g) = s\<lparr>au_state := AList.update (state_key a g) fresh_state (au_state s)\<rparr>"
  by (simp add: evaluate_pair_def Let_def)

lemma evaluate_pair_matched:
  assumes "matchesTrigger g (at_Trigger a) now silence"
  obtains st2 acted where "au_state (evaluate_pair env silence now s (a, g)) = AList.update (state_key a g) st2 (au_state s)"
    "au_log (evaluate_pair env silence now s (a, g)) = au_log s @ (if ra_unhealthy (state_of a g s) then [] else [entry now a g Triggered]) @ acted"
    "if on_hold now a (during_outage (state_of a g s)) then st2 = during_outage (state_of a g s) \<and> acted = []
     else if ra_attempts (during_outage (state_of a g s)) \<ge> maxAttempts a
     then st2 = (during_outage (state_of a g s))\<lparr>ra_escalated := True\<rparr> \<and> acted = [entry now a g Escalated]
     else st2 = (during_outage (state_of a g s))\<lparr>ra_attempts := ra_attempts (during_outage (state_of a g s)) + 1, ra_lastAttemptAt := now\<rparr>
       \<and> (\<exists>d \<in> attempts. acted = [entry now a g d])"
proof -
  define s1 where "s1 = (if ra_unhealthy (state_of a g s) then s else record_decision env now Triggered a g ''trigger condition observed'' s)"
  have s1: "au_log s1 = au_log s @ (if ra_unhealthy (state_of a g s) then [] else [entry now a g Triggered])" "au_state s1 = au_state s"
    by (simp_all add: s1_def)
  obtain st2 s2 where m: "maybeAct env now a g (during_outage (state_of a g s)) s1 = (st2, s2)" by fastforce
  have e: "evaluate_pair env silence now s (a, g) = s2\<lparr>au_state := AList.update (state_key a g) st2 (au_state s2)\<rparr>"
    using assms m by (simp add: evaluate_pair_def Let_def state_of_def [symmetric] s1_def during_outage_def split: if_splits)
  show thesis
    using that maybeAct_cases [OF m] s1 by (simp add: e split: if_splits) blast+
qed

lemma maxAttempts_pos: "1 \<le> maxAttempts a"
  by (simp add: maxAttempts_def)

lemma entry_log_entry: "entry now a g d = log_entry (at_ID a) (ag_ID g) now d"
  by (simp add: entry_def log_entry_def)

lemma evaluated_pairs_rules: "(a, g) \<in> set (evaluated_pairs s) \<Longrightarrow> a \<in> set (store_ListAutomations (au_rules s)) \<and> at_Enabled a"
  by (auto simp: evaluated_pairs_def)

lemma map_of_filter_keys: "map_of (filter (\<lambda>(k, _). k \<in> K) xs) k = (if k \<in> K then map_of xs k else None)"
  by (induction xs) auto

definition distinct_keys :: "AutoState \<Rightarrow> bool" where
  "distinct_keys s \<longleftrightarrow> distinct (map (\<lambda>(a, g). state_key a g) (evaluated_pairs s))"

lemma evaluate_pair_other:
  "state_key b h \<noteq> state_key a g \<Longrightarrow> map_of (au_state (evaluate_pair env silence now s (b, h))) (state_key a g) = map_of (au_state s) (state_key a g)"
  by (cases "matchesTrigger h (at_Trigger b) now silence")
    (auto simp: evaluate_pair_recovered AList.update_conv' elim: evaluate_pair_matched [of _ _ _ _ env s])

lemma evaluate_others:
  "state_key a g \<notin> (\<lambda>(a, g). state_key a g) ` set ps \<Longrightarrow>
     map_of (au_state (foldl (evaluate_pair env silence now) s ps)) (state_key a g) = map_of (au_state s) (state_key a g)"
  by (induction ps arbitrary: s) (auto simp: evaluate_pair_other)

lemma Tick_state:
  "map_of (au_state (Tick env silence now s)) k = (if k \<in> (\<lambda>(a, g). state_key a g) ` set (evaluated_pairs s)
     then map_of (au_state (foldl (evaluate_pair env silence now) s (evaluated_pairs s))) k else None)"
  by (simp add: Tick_def Let_def map_of_filter_keys)

lemma Tick_log: "au_log (Tick env silence now s) = au_log (foldl (evaluate_pair env silence now) s (evaluated_pairs s))"
  by (simp add: Tick_def Let_def)

lemma evaluate_pair_other_log:
  "at_ID b \<noteq> i \<or> ag_ID h \<noteq> j \<Longrightarrow> pair_log i j (evaluate_pair env silence now s (b, h)) = pair_log i j s"
proof (cases "matchesTrigger h (at_Trigger b) now silence")
  case True
  assume "at_ID b \<noteq> i \<or> ag_ID h \<noteq> j"
  then show ?thesis
    by (rule_tac evaluate_pair_matched [OF True, of env s]) (auto simp: pair_log_def split: if_splits)
qed (simp add: evaluate_pair_recovered pair_log_def)

lemma evaluate_others_log:
  "\<forall>(b, h) \<in> set ps. at_ID b \<noteq> i \<or> ag_ID h \<noteq> j \<Longrightarrow> pair_log i j (foldl (evaluate_pair env silence now) s ps) = pair_log i j s"
  by (induction ps arbitrary: s) (auto simp: evaluate_pair_other_log)

text \<open>What a tick does to one pair: its own evaluation, if it is evaluated at all, and nothing else.\<close>

lemma Tick_pair:
  assumes "(a, g) \<in> set (evaluated_pairs s)" "distinct_keys s"
  obtains s1 where "map_of (au_state s1) (state_key a g) = map_of (au_state s) (state_key a g)"
    "pair_log (at_ID a) (ag_ID g) s1 = pair_log (at_ID a) (ag_ID g) s"
    "map_of (au_state (Tick env silence now s)) (state_key a g) = map_of (au_state (evaluate_pair env silence now s1 (a, g))) (state_key a g)"
    "pair_log (at_ID a) (ag_ID g) (Tick env silence now s) = pair_log (at_ID a) (ag_ID g) (evaluate_pair env silence now s1 (a, g))"
proof -
  obtain xs ys where ps: "evaluated_pairs s = xs @ (a, g) # ys" using assms(1) by (metis split_list)
  have keys: "state_key a g \<notin> (\<lambda>(a, g). state_key a g) ` set xs" "state_key a g \<notin> (\<lambda>(a, g). state_key a g) ` set ys"
    using assms(2) by (auto simp: distinct_keys_def ps)
  then have ids: "\<forall>(b, h) \<in> set xs. at_ID b \<noteq> at_ID a \<or> ag_ID h \<noteq> ag_ID g" "\<forall>(b, h) \<in> set ys. at_ID b \<noteq> at_ID a \<or> ag_ID h \<noteq> ag_ID g"
    by (force simp: state_key_def)+
  have "state_key a g \<in> (\<lambda>(a, g). state_key a g) ` set (evaluated_pairs s)" by (simp add: ps)
  then show thesis
    using that [of "foldl (evaluate_pair env silence now) s xs"] evaluate_others [OF keys(1)] evaluate_others [OF keys(2)]
      evaluate_others_log [OF ids(1)] evaluate_others_log [OF ids(2)]
    by (simp add: Tick_state pair_log_def Tick_log) (simp add: ps)
qed

lemma Tick_absent:
  assumes "\<forall>(a, g) \<in> set (evaluated_pairs s). at_ID a \<noteq> i \<or> ag_ID g \<noteq> j" "CHR ''|'' \<notin> set i"
    and "\<forall>(a, g) \<in> set (evaluated_pairs s). CHR ''|'' \<notin> set (at_ID a)"
  shows "pair_log i j (Tick env silence now s) = pair_log i j s" "map_of (au_state (Tick env silence now s)) (i @ ''|'' @ j) = None"
proof -
  show "pair_log i j (Tick env silence now s) = pair_log i j s"
    using evaluate_others_log [OF assms(1), of env silence now s] by (simp add: pair_log_def Tick_log)
  have "i @ ''|'' @ j \<noteq> state_key a g" if "(a, g) \<in> set (evaluated_pairs s)" for a g
    using assms that key_inj [of i "at_ID a" j "ag_ID g"] by (auto simp: state_key_def)
  then show "map_of (au_state (Tick env silence now s)) (i @ ''|'' @ j) = None" by (auto simp: Tick_state)
qed

section \<open>Histories\<close>

text \<open>
  When a rule's trigger holds for an agent, in the terms of the rule and the fleet: the rule is enabled, the
  agent is its target or in its target group, and the agent has been silent for longer than the threshold or,
  for the unhealthy trigger, reported itself offline or in error.
\<close>

definition targets :: "Automation \<Rightarrow> Agent \<Rightarrow> bool" where
  "targets a g \<longleftrightarrow> (if at_AgentID a \<noteq> None \<and> at_AgentID a \<noteq> Some [] then at_AgentID a = Some (ag_ID g)
     else at_GroupID a \<noteq> None \<and> at_GroupID a \<noteq> Some [] \<and> at_GroupID a = ag_GroupID g)"

definition afflicted :: "duration \<Rightarrow> gotime \<Rightarrow> string \<Rightarrow> Agent \<Rightarrow> bool" where
  "afflicted silence now trig g \<longleftrightarrow> trig \<in> {''agent_silent'', ''agent_unhealthy''} \<and> silence < Sub now (ag_LastSeen g)
     \<or> trig = ''agent_unhealthy'' \<and> ag_Status g \<in> {AgentStatusOffline, AgentStatusError}"

definition condition :: "duration \<Rightarrow> gotime \<Rightarrow> string \<Rightarrow> string \<Rightarrow> AutoState \<Rightarrow> bool" where
  "condition silence now i j s \<longleftrightarrow>
     (\<exists>a \<in> set (store_ListAutomations (au_rules s)). \<exists>g \<in> set (ListAgents (w_store (au_world s))).
        at_ID a = i \<and> ag_ID g = j \<and> at_Enabled a \<and> targets a g \<and> afflicted silence now (at_Trigger a) g)"

lemma scopeAgents_targets: "g \<in> set (scopeAgents a ags) \<longleftrightarrow> g \<in> set ags \<and> targets a g"
  by (cases "at_AgentID a"; cases "at_GroupID a") (auto simp: scopeAgents_def targets_def deref_def)

lemma matchesTrigger_afflicted: "matchesTrigger g trig now silence \<longleftrightarrow> afflicted silence now trig g"
  by (auto simp: matchesTrigger_def afflicted_def Let_def)

lemma set_evaluated_pairs:
  "(a, g) \<in> set (evaluated_pairs s) \<longleftrightarrow>
     a \<in> set (store_ListAutomations (au_rules s)) \<and> at_Enabled a \<and> g \<in> set (ListAgents (w_store (au_world s))) \<and> targets a g"
  by (auto simp: evaluated_pairs_def scopeAgents_targets)

lemma condition_pairs:
  "condition silence now i j s \<longleftrightarrow>
     (\<exists>(a, g) \<in> set (evaluated_pairs s). at_ID a = i \<and> ag_ID g = j \<and> matchesTrigger g (at_Trigger a) now silence)"
  unfolding condition_def matchesTrigger_afflicted using set_evaluated_pairs by fastforce

text \<open>The maximal runs of consecutive ticks at which the condition held, by their times.\<close>

function spells :: "(gotime \<times> bool) list \<Rightarrow> gotime list list" where
  "spells [] = []"
| "spells ((t, False) # obs) = spells obs"
| "spells ((t, True) # obs) = (t # map fst (takeWhile snd obs)) # spells (dropWhile snd obs)"
  by pat_completeness auto
termination
  by (relation "measure length") (simp_all add: le_imp_less_Suc length_dropWhile_le)

definition ongoing :: "(gotime \<times> bool) list \<Rightarrow> bool" where
  "ongoing obs \<longleftrightarrow> obs \<noteq> [] \<and> snd (last obs)"

lemma ongoing_snoc [simp]: "ongoing (obs @ [(t, b)]) = b"
  by (simp add: ongoing_def)

lemma spells_ongoing: "ongoing obs \<Longrightarrow> spells obs \<noteq> [] \<and> last (spells obs) \<noteq> []"
proof (induction obs rule: spells.induct)
  case (2 t obs)
  then show ?case by (auto simp: ongoing_def split: if_splits)
next
  case (3 t obs)
  show ?case
  proof (cases "dropWhile snd obs = []")
    case False
    then have "last (dropWhile snd obs) = last obs" by (metis last_appendR takeWhile_dropWhile_id)
    then have "ongoing (dropWhile snd obs)" using 3(2) False by (auto simp: ongoing_def split: if_splits)
    then show ?thesis using 3(1) by simp
  next
    case True
    then have "spells (dropWhile snd obs) = []" by (simp only: spells.simps)
    then show ?thesis by simp
  qed
qed (simp add: ongoing_def)

lemma spells_snoc:
  "spells (obs @ [(t, b)]) =
     (if \<not> b then spells obs else if ongoing obs then butlast (spells obs) @ [last (spells obs) @ [t]] else spells obs @ [[t]])"
proof (induction obs rule: spells.induct)
  case 1
  then show ?case by (cases b) (simp_all add: ongoing_def)
next
  case (2 u obs)
  have "ongoing ((u, False) # obs) = ongoing obs" by (simp add: ongoing_def)
  then show ?case using 2 by simp
next
  case (3 u obs)
  show ?case
  proof (cases "dropWhile snd obs = []")
    case True
    then have none: "spells (dropWhile snd obs) = []" by (simp only: spells.simps)
    have all: "\<forall>x \<in> set obs. snd x" using True by simp
    then have "ongoing ((u, True) # obs)" by (auto simp: ongoing_def)
    then show ?thesis using all none by (cases b) (simp_all add: takeWhile_append takeWhile_eq_all_conv [THEN iffD2] dropWhile_append)
  next
    case False
    then have some: "\<not> (\<forall>x \<in> set obs. snd x)" by simp
    have l: "last (dropWhile snd obs) = last obs" using False by (metis last_appendR takeWhile_dropWhile_id)
    have o: "ongoing ((u, True) # obs) = ongoing (dropWhile snd obs)" using False l by (auto simp: ongoing_def split: if_splits)
    have "spells (((u, True) # obs) @ [(t, b)]) = (u # map fst (takeWhile snd obs)) # spells (dropWhile snd obs @ [(t, b)])"
      using some by (auto simp: takeWhile_append dropWhile_append)
    then show ?thesis using 3 o spells_ongoing [of "dropWhile snd obs"] by simp
  qed
qed

text \<open>
  An outage answers a spell: it is observed at the first tick of the spell, the first attempt is made there, and
  the other attempts and the hand-over, if any, happen at later ticks of the same spell.
\<close>

fun answers :: "gotime list \<Rightarrow> outage \<Rightarrow> bool" where
  "answers ts (t0, acts, esc) \<longleftrightarrow>
     ts \<noteq> [] \<and> t0 = hd ts \<and> acts \<noteq> [] \<and> fst (hd acts) = hd ts
     \<and> subseq (map fst acts @ (case esc of None \<Rightarrow> [] | Some t \<Rightarrow> [t])) ts"

definition tracked :: "string \<Rightarrow> string \<Rightarrow> int \<Rightarrow> duration \<Rightarrow> (gotime \<times> bool) list \<Rightarrow> AutoState \<Rightarrow> bool" where
  "tracked i j budget gap obs s \<longleftrightarrow>
     (\<exists>os. pair_log i j s = concat (map (outage_log i j) os)
        \<and> list_all2 (\<lambda>ts x. answers ts x \<and> within_guards budget gap x) (spells obs) os
        \<and> (case map_of (au_state s) (i @ ''|'' @ j) of
             None \<Rightarrow> \<not> ongoing obs
           | Some st \<Rightarrow> ra_unhealthy st = ongoing obs \<and> (ongoing obs \<longrightarrow> matches_state (last os) st)))"

text \<open>One evaluation during an outage extends it by what it logs.\<close>

lemma outage_extends:
  assumes "within_guards budget gap (t0, acts, esc)" "matches_state (t0, acts, esc) st" "0 < gap" "0 < now"
    and rule: "cooldown a = gap" "maxAttempts a = budget" and ids: "at_ID a = i" "ag_ID g = j"
    and act: "if on_hold now a st then st2 = st \<and> acted = []
      else if ra_attempts st \<ge> maxAttempts a then st2 = st\<lparr>ra_escalated := True\<rparr> \<and> acted = [entry now a g Escalated]
      else st2 = st\<lparr>ra_attempts := ra_attempts st + 1, ra_lastAttemptAt := now\<rparr> \<and> (\<exists>d \<in> attempts. acted = [entry now a g d])"
  obtains x where "outage_log i j x = outage_log i j (t0, acts, esc) @ acted" "within_guards budget gap x" "matches_state x st2"
    "x = (t0, acts, esc) \<and> on_hold now a st \<or> esc = None \<and> x = (t0, acts, Some now) \<and> budget \<le> int (length acts) \<or> esc = None \<and> (\<exists>d. x = (t0, acts @ [(now, d)], None))"
proof (cases "on_hold now a st")
  case True
  then show thesis using that [of "(t0, acts, esc)"] assms by simp
next
  case free: False
  then have esc: "esc = None" using assms(2) by (auto simp: on_hold_def)
  show thesis
  proof (cases "ra_attempts st \<ge> maxAttempts a")
    case True
    then show thesis using that [of "(t0, acts, Some now)"] assms free esc by (auto simp: entry_log_entry)
  next
    case False
    then obtain d where "d \<in> attempts" "acted = [entry now a g d]" "st2 = st\<lparr>ra_attempts := ra_attempts st + 1, ra_lastAttemptAt := now\<rparr>"
      using act free by auto
    then show thesis using that [of "(t0, acts @ [(now, d)], None)"] act_within_guards [OF assms(1-4) free rule, of d] esc ids False
      by (auto simp: entry_log_entry)
  qed
qed

lemma answers_extends:
  assumes "answers ts (t0, acts, esc)"
    and "x = (t0, acts, esc) \<or> esc = None \<and> x = (t0, acts, Some now) \<or> esc = None \<and> (\<exists>d. x = (t0, acts @ [(now, d)], None))"
  shows "answers (ts @ [now]) x"
proof -
  have "subseq xs (ts @ [now])" "subseq (xs @ [now]) (ts @ [now])" if "subseq xs ts" for xs
    using that by auto
  then show ?thesis using assms by (auto split: option.splits)
qed

text \<open>
  Histories with the trace of observations: ticks, edits of the rules through the API and any change to the
  fleet and the OpAMP server, while the guardrails of the rule stay as they are.  The tables are Go maps, so
  ids are unique.
\<close>

inductive auto_edit :: "Env \<Rightarrow> AutoState \<Rightarrow> AutoState \<Rightarrow> bool" for env where
  create: "auto_edit env s (snd (HandleCreateAutomation env now body s))"
| update: "auto_edit env s (snd (HandleUpdateAutomation env now i body s))"
| enable: "auto_edit env s (snd (HandleSetAutomationEnabled env now i enabled s))"
| delete: "auto_edit env s (snd (HandleDeleteAutomation env i s))"
| fleet: "auto_edit env s (s\<lparr>au_opamp := op\<rparr>)"


definition rule_unchanged :: "string \<Rightarrow> int \<Rightarrow> duration \<Rightarrow> AutoState \<Rightarrow> bool" where
  "rule_unchanged i budget gap s \<longleftrightarrow>
     (\<forall>a \<in> set (store_ListAutomations (au_rules s)). CHR ''|'' \<notin> set (at_ID a) \<and> (at_ID a = i \<longrightarrow> maxAttempts a = budget \<and> cooldown a = gap))
     \<and> distinct (map at_ID (store_ListAutomations (au_rules s))) \<and> distinct (map ag_ID (ListAgents (w_store (au_world s))))"

inductive watched :: "Env \<Rightarrow> duration \<Rightarrow> string \<Rightarrow> string \<Rightarrow> int \<Rightarrow> duration \<Rightarrow> (gotime \<times> bool) list \<Rightarrow> AutoState \<Rightarrow> bool"
  for env silence i j budget gap where
  start: "au_log s = [] \<Longrightarrow> au_state s = [] \<Longrightarrow> watched env silence i j budget gap [] s"
| ticked: "watched env silence i j budget gap obs s \<Longrightarrow> rule_unchanged i budget gap s \<Longrightarrow> 0 < now \<Longrightarrow>
    watched env silence i j budget gap (obs @ [(now, condition silence now i j s)]) (Tick env silence now s)"
| edited: "watched env silence i j budget gap obs s \<Longrightarrow> auto_edit env s s' \<Longrightarrow> watched env silence i j budget gap obs s'"

lemma distinct_pair_keys:
  assumes "distinct (map at_ID as)" "\<forall>a \<in> set as. CHR ''|'' \<notin> set (at_ID a)" "\<And>a. distinct (map ag_ID (f a))"
  shows "distinct (map (\<lambda>(a, g). state_key a g) (concat (map (\<lambda>a. map (Pair a) (f a)) as)))"
  using assms(1,2)
proof (induction as)
  case (Cons a as)
  have "state_key a g \<noteq> state_key b h" if "b \<in> set as" for b g h
  proof -
    have "at_ID a \<noteq> at_ID b" using Cons.prems(1) that by force
    then show ?thesis using Cons.prems(2) that key_inj [of "at_ID a" "at_ID b" "ag_ID g" "ag_ID h"] by (simp add: state_key_def)
  qed
  moreover have "distinct (map (state_key a) (f a))" using assms(3) [of a] by (auto simp: distinct_map state_key_def inj_on_def)
  ultimately show ?case using Cons by (auto simp: o_def)
qed simp

lemma rule_unchanged_keys:
  assumes "rule_unchanged i budget gap s"
  shows "distinct_keys s"
  unfolding distinct_keys_def evaluated_pairs_def
  using assms by (intro distinct_pair_keys) (simp_all add: rule_unchanged_def scopeAgents_def distinct_map_filter)

lemma edits_frame:
  "au_log (snd (HandleCreateAutomation env now body s)) = au_log s" "au_state (snd (HandleCreateAutomation env now body s)) = au_state s"
  "au_log (snd (HandleUpdateAutomation env now i body s)) = au_log s" "au_state (snd (HandleUpdateAutomation env now i body s)) = au_state s"
  "au_log (snd (HandleSetAutomationEnabled env now i enabled s)) = au_log s" "au_state (snd (HandleSetAutomationEnabled env now i enabled s)) = au_state s"
  "au_log (snd (HandleDeleteAutomation env i s)) = au_log s" "au_state (snd (HandleDeleteAutomation env i s)) = au_state s"
  by (auto simp: HandleCreateAutomation_def CreateAutomation_def HandleUpdateAutomation_def UpdateAutomation_def HandleSetAutomationEnabled_def
      SetAutomationEnabled_def HandleDeleteAutomation_def DeleteAutomation_def Let_def split: option.split sum.split prod.split)


lemma edit_frame: "auto_edit env s s' \<Longrightarrow> au_log s' = au_log s \<and> au_state s' = au_state s"
  by (induction rule: auto_edit.induct) (simp_all add: edits_frame)

text \<open>A tick at which the condition holds begins an outage or goes on with the last one.\<close>

lemma tracked_matched:
  assumes t: "tracked i j budget gap obs s" and pos: "0 < gap" "0 < now" and ids: "at_ID a = i" "ag_ID g = j"
    and rule: "maxAttempts a = budget" "cooldown a = gap" and matched: "matchesTrigger g (at_Trigger a) now silence"
    and s1: "map_of (au_state s1) (state_key a g) = map_of (au_state s) (state_key a g)" "pair_log i j s1 = pair_log i j s"
    and s': "map_of (au_state s') (state_key a g) = map_of (au_state (evaluate_pair env silence now s1 (a, g))) (state_key a g)"
      "pair_log i j s' = pair_log i j (evaluate_pair env silence now s1 (a, g))"
  shows "tracked i j budget gap (obs @ [(now, True)]) s'"
proof -
  have key: "i @ ''|'' @ j = state_key a g" using ids by (simp add: state_key_def)
  define st where "st = state_of a g s1"
  obtain os where os: "pair_log i j s = concat (map (outage_log i j) os)" "list_all2 (\<lambda>ts x. answers ts x \<and> within_guards budget gap x) (spells obs) os"
      "ra_unhealthy st = ongoing obs" "ongoing obs \<longrightarrow> matches_state (last os) st"
    using t s1(1) unfolding tracked_def key by (auto simp: st_def state_of_def fresh_state_def split: option.splits)
  define front where "front = (if ongoing obs then butlast os else os)"
  define x0 where "x0 = (if ongoing obs then last os else (now, [], None))"
  define ts where "ts = (if ongoing obs then last (spells obs) else [])"
  have len: "length (spells obs) = length os" using os(2) by (rule list_all2_lengthD)
  have ne: "os \<noteq> []" if "ongoing obs" using spells_ongoing [OF that] len by auto
  have front: "list_all2 (\<lambda>ts x. answers ts x \<and> within_guards budget gap x) (if ongoing obs then butlast (spells obs) else spells obs) front"
    using os(2) len by (auto simp: front_def butlast_conv_take intro: list_all2_takeI)
  have last: "answers ts x0 \<and> within_guards budget gap x0" if "ongoing obs"
    using that ne list_all2_nthD [OF os(2), of "length os - 1"] len spells_ongoing [OF that] by (simp add: ts_def x0_def last_conv_nth)
  have x0: "within_guards budget gap x0" "matches_state x0 (during_outage st)"
    using last os(3,4) rule(1) maxAttempts_pos [of a] by (auto simp: x0_def during_outage_def fresh_state_def)
  obtain st2 acted where e: "au_state (evaluate_pair env silence now s1 (a, g)) = AList.update (state_key a g) st2 (au_state s1)"
      "au_log (evaluate_pair env silence now s1 (a, g)) = au_log s1 @ (if ra_unhealthy st then [] else [entry now a g Triggered]) @ acted"
    and act: "if on_hold now a (during_outage st) then st2 = during_outage st \<and> acted = []
      else if ra_attempts (during_outage st) \<ge> maxAttempts a then st2 = (during_outage st)\<lparr>ra_escalated := True\<rparr> \<and> acted = [entry now a g Escalated]
      else st2 = (during_outage st)\<lparr>ra_attempts := ra_attempts (during_outage st) + 1, ra_lastAttemptAt := now\<rparr> \<and> (\<exists>d \<in> attempts. acted = [entry now a g d])"
    using evaluate_pair_matched [OF matched, of env s1] unfolding st_def by metis
  obtain t0 acts esc where x: "x0 = (t0, acts, esc)" by (cases x0)
  obtain y where y: "outage_log i j y = outage_log i j (t0, acts, esc) @ acted" "within_guards budget gap y" "matches_state y st2"
      "y = (t0, acts, esc) \<and> on_hold now a (during_outage st) \<or> esc = None \<and> y = (t0, acts, Some now) \<and> budget \<le> int (length acts)
         \<or> esc = None \<and> (\<exists>d. y = (t0, acts @ [(now, d)], None))"
    by (rule outage_extends [OF x0 [unfolded x] pos rule(2,1) ids act]) (rule that)
  have "answers (ts @ [now]) y"
  proof (cases "ongoing obs")
    case True
    then show ?thesis using answers_extends [of ts t0 acts esc y now] last x y(4) by blast
  next
    case False
    then have "t0 = now" "acts = []" "esc = None" "ts = []" "during_outage st = fresh_state\<lparr>ra_unhealthy := True\<rparr>"
      using x os(3) by (simp_all add: x0_def ts_def during_outage_def)
    moreover from this have "\<not> on_hold now a (during_outage st)" by (simp add: on_hold_def fresh_state_def IsZero_def)
    ultimately show ?thesis using y(4) maxAttempts_pos [of a] rule(1) by auto
  qed
  moreover have "spells (obs @ [(now, True)]) = (if ongoing obs then butlast (spells obs) else spells obs) @ [ts @ [now]]"
    by (simp add: spells_snoc ts_def)
  moreover have "pair_log i j s' = concat (map (outage_log i j) (front @ [y]))"
  proof -
    have "filter (\<lambda>e. le_Rule e = i \<and> le_Agent e = j) acted = acted" using act ids by (auto split: if_splits)
    then have "pair_log i j s' = pair_log i j s @ (if ongoing obs then [] else [entry now a g Triggered]) @ acted"
      using s'(2) s1(2) ids os(3) by (simp add: pair_log_def e(2))
    also have "\<dots> = concat (map (outage_log i j) front) @ outage_log i j x0 @ acted"
    proof (cases "ongoing obs")
      case True
      then have "os = front @ [x0]" using ne by (simp add: front_def x0_def)
      then have "pair_log i j s = concat (map (outage_log i j) front) @ outage_log i j x0" using os(1) by simp
      then show ?thesis using True by simp
    qed (use ids os(1) in \<open>simp add: front_def x0_def entry_log_entry\<close>)
    finally show ?thesis using y(1) by (simp add: x)
  qed
  moreover have "map_of (au_state s') (i @ ''|'' @ j) = Some st2" unfolding key s'(1) e(1) by (simp only: AList.update_conv' fun_upd_same)
  moreover have "ra_unhealthy st2" using act by (auto simp: during_outage_def fresh_state_def split: if_splits)
  ultimately show ?thesis unfolding tracked_def using front y(2,3) by (intro exI [of _ "front @ [y]"]) (auto intro: list_all2_appendI)
qed

lemma tracked_tick:
  assumes "tracked i j budget gap obs s" "0 < gap" "0 < now" "CHR ''|'' \<notin> set i" "rule_unchanged i budget gap s"
  shows "tracked i j budget gap (obs @ [(now, condition silence now i j s)]) (Tick env silence now s)"
proof (cases "\<exists>(a, g) \<in> set (evaluated_pairs s). at_ID a = i \<and> ag_ID g = j")
  case True
  then obtain a g where p: "(a, g) \<in> set (evaluated_pairs s)" and ids: "at_ID a = i" "ag_ID g = j" by auto
  have unique: "matchesTrigger h (at_Trigger b) now silence = matchesTrigger g (at_Trigger a) now silence"
    if "(b, h) \<in> set (evaluated_pairs s)" "at_ID b = i" "ag_ID h = j" for b h
  proof -
    have "state_key b h = state_key a g" using that ids by (simp add: state_key_def)
    moreover have "inj_on (\<lambda>(a, g). state_key a g) (set (evaluated_pairs s))"
      using rule_unchanged_keys [OF assms(5)] by (simp add: distinct_keys_def distinct_map)
    ultimately have "(b, h) = (a, g)" using p that(1) inj_onD [of "\<lambda>(a, g). state_key a g" "set (evaluated_pairs s)" "(b, h)" "(a, g)"] by simp
    then show ?thesis by simp
  qed
  have c: "condition silence now i j s = matchesTrigger g (at_Trigger a) now silence"
    unfolding condition_pairs using p ids unique by blast
  obtain s1 where s1: "map_of (au_state s1) (state_key a g) = map_of (au_state s) (state_key a g)" "pair_log i j s1 = pair_log i j s"
      "map_of (au_state (Tick env silence now s)) (state_key a g) = map_of (au_state (evaluate_pair env silence now s1 (a, g))) (state_key a g)"
      "pair_log i j (Tick env silence now s) = pair_log i j (evaluate_pair env silence now s1 (a, g))"
    by (rule Tick_pair [OF p rule_unchanged_keys [OF assms(5)], of env silence now, unfolded ids]) (rule that)
  have rule: "maxAttempts a = budget" "cooldown a = gap" using assms(5) p ids by (auto simp: rule_unchanged_def set_evaluated_pairs)
  show ?thesis
  proof (cases "matchesTrigger g (at_Trigger a) now silence")
    case True
    then show ?thesis using tracked_matched [OF assms(1-3) ids rule True s1] c by simp
  next
    case False
    have key: "i @ ''|'' @ j = state_key a g" using ids by (simp add: state_key_def)
    have "map_of (au_state (Tick env silence now s)) (i @ ''|'' @ j) = Some fresh_state" "pair_log i j (Tick env silence now s) = pair_log i j s"
      unfolding key s1(3,4) using s1(2) False by (simp_all add: evaluate_pair_recovered pair_log_def AList.update_conv')
    then show ?thesis using assms(1) c False unfolding tracked_def by (auto simp: spells_snoc fresh_state_def)
  qed
next
  case False
  have "\<not> condition silence now i j s" using False unfolding condition_pairs by blast
  moreover have "pair_log i j (Tick env silence now s) = pair_log i j s" "map_of (au_state (Tick env silence now s)) (i @ ''|'' @ j) = None"
  proof -
    have "\<forall>(a, g) \<in> set (evaluated_pairs s). at_ID a \<noteq> i \<or> ag_ID g \<noteq> j" using False by blast
    moreover have "\<forall>(a, g) \<in> set (evaluated_pairs s). CHR ''|'' \<notin> set (at_ID a)"
      using assms(5) by (auto simp: rule_unchanged_def set_evaluated_pairs)
    ultimately show "pair_log i j (Tick env silence now s) = pair_log i j s" "map_of (au_state (Tick env silence now s)) (i @ ''|'' @ j) = None"
      using Tick_absent assms(4) by blast+
  qed
  ultimately show ?thesis using assms(1) unfolding tracked_def by (auto simp: spells_snoc)
qed

lemma watched_tracked:
  assumes "watched env silence i j budget gap obs s" "0 < gap" "CHR ''|'' \<notin> set i"
  shows "tracked i j budget gap obs s"
  using assms(1)
proof (induction rule: watched.induct)
  case (start s)
  then show ?case by (auto simp: tracked_def pair_log_def ongoing_def)
next
  case (ticked obs s now)
  then show ?case using tracked_tick assms(2,3) by blast
next
  case (edited obs s s')
  then show ?case using edit_frame [OF edited.hyps(2)] by (simp add: tracked_def pair_log_def)
qed

text \<open>
  C20: Attempts are bounded and spaced over real outages.  Over every history of evaluator ticks, rule edits and fleet
  changes in which the guardrails of a rule stay the same at the ticks, with a cooldown that is positive as the
  evaluator computes it and a rule id without the separator of the tracker keys, the decisions on that rule and any
  agent correspond one to one to the spells of consecutive ticks at which the rule is enabled, targets the
  agent and its trigger condition holds: for each spell the trigger is recorded once, at the first tick of
  the spell, where the first attempt is made too, then come at most the budget of attempts at ticks of that
  spell, each a cooldown after the one before, and at most one escalation, which comes only when the budget
  is used up and after which nothing is attempted any more.
\<close>
theorem outages_within_guards:
  assumes "watched env silence i j budget gap obs s" "0 < gap" "CHR ''|'' \<notin> set i"
  shows "\<exists>outages. pair_log i j s = concat (map (outage_log i j) outages)
    \<and> list_all2 (\<lambda>ts x. answers ts x \<and> within_guards budget gap x) (spells obs) outages"
  using watched_tracked [OF assms] unfolding tracked_def by blast

section \<open>What a tick sends\<close>

definition restart_message :: "ConnAgent \<Rightarrow> ServerToAgent" where
  "restart_message c = no_reply\<lparr>sa_InstanceUid := oa_InstanceId c,
     sa_Capabilities := (case oa_Status c of None \<Rightarrow> 0 | Some st \<Rightarrow> m_Capabilities st), sa_Restart := True\<rparr>"

definition restarts :: "Automation \<Rightarrow> Agent \<Rightarrow> Agents \<Rightarrow> nat \<times> ServerToAgent \<Rightarrow> bool" where
  "restarts a g reg m \<longleftrightarrow> \<not> at_DryRun a
     \<and> (\<exists>p. FindAgent (ag_ID g) reg = Some p \<and> HasCapability (agent_at reg p) AcceptsRestartCommand
          \<and> m = (oa_conn (agent_at reg p), restart_message (agent_at reg p)))"

lemma RestartAgent_sends:
  assumes "RestartAgent (ag_ID g) op = (e, op')" "\<not> at_DryRun a"
  shows "op_agents op' = op_agents op \<and> (\<exists>new. op_sent op' = op_sent op @ new \<and> length new = (if e = None then 1 else 0) \<and> (\<forall>m \<in> set new. restarts a g (op_agents op) m))"
proof (cases "FindAgent (ag_ID g) (op_agents op)")
  case (Some p)
  then show ?thesis using assms
    by (cases "HasCapability (agent_at (op_agents op) p) AcceptsRestartCommand")
      (auto simp: RestartAgent_def SendToAgent_def Let_def restarts_def restart_message_def)
qed (use assms in \<open>auto simp: RestartAgent_def\<close>)

lemma maybeAct_sends:
  assumes "maybeAct env now a g st s = (st', s')"
  shows "\<exists>new logged. op_sent (au_opamp s') = op_sent (au_opamp s) @ new \<and> au_log s' = au_log s @ logged
    \<and> length new = length (filter (\<lambda>e. le_Decision e = ActionTaken) logged) \<and> (\<forall>m \<in> set new. restarts a g (op_agents (au_opamp s)) m)"
proof (cases "on_hold now a st \<or> ra_attempts st \<ge> maxAttempts a \<or> at_DryRun a")
  case True
  then show ?thesis using assms by (auto simp: maybeAct_def on_hold_def Let_def split: if_splits)
next
  case False
  obtain e op where r: "RestartAgent (ag_ID g) (au_opamp s) = (e, op)" by fastforce
  then obtain new where "op_sent op = op_sent (au_opamp s) @ new" "length new = (if e = None then 1 else 0)" "\<forall>m \<in> set new. restarts a g (op_agents (au_opamp s)) m"
    using RestartAgent_sends False by metis
  then show ?thesis using assms False r by (cases e) (auto simp: maybeAct_def on_hold_def Let_def split: if_splits)
qed

lemma evaluate_pair_sends:
  "\<exists>new logged. op_sent (au_opamp (evaluate_pair env silence now s (a, g))) = op_sent (au_opamp s) @ new
     \<and> au_log (evaluate_pair env silence now s (a, g)) = au_log s @ logged
     \<and> length new = length (filter (\<lambda>e. le_Decision e = ActionTaken) logged)
     \<and> (\<forall>m \<in> set new. matchesTrigger g (at_Trigger a) now silence \<and> restarts a g (op_agents (au_opamp s)) m)
     \<and> op_agents (au_opamp (evaluate_pair env silence now s (a, g))) = op_agents (au_opamp s)"
proof (cases "matchesTrigger g (at_Trigger a) now silence")
  case True
  define s1 where "s1 = (if ra_unhealthy (state_of a g s) then s else record_decision env now Triggered a g ''trigger condition observed'' s)"
  obtain st2 s2 where m: "maybeAct env now a g (during_outage (state_of a g s)) s1 = (st2, s2)" by fastforce
  have e: "evaluate_pair env silence now s (a, g) = s2\<lparr>au_state := AList.update (state_key a g) st2 (au_state s2)\<rparr>"
    using True m by (simp add: evaluate_pair_def Let_def state_of_def [symmetric] s1_def during_outage_def split: if_splits)
  have s1: "op_sent (au_opamp s1) = op_sent (au_opamp s)" "op_agents (au_opamp s1) = op_agents (au_opamp s)"
      "au_log s1 = au_log s @ (if ra_unhealthy (state_of a g s) then [] else [entry now a g Triggered])" by (simp_all add: s1_def)
  obtain new logged where n: "op_sent (au_opamp s2) = op_sent (au_opamp s1) @ new" "au_log s2 = au_log s1 @ logged"
      "length new = length (filter (\<lambda>e. le_Decision e = ActionTaken) logged)" "\<forall>m \<in> set new. restarts a g (op_agents (au_opamp s1)) m"
    using maybeAct_sends [OF m] by blast
  show ?thesis using n s1 maybeAct_cases(3) [OF m] True
    by (intro exI [of _ new] exI [of _ "(if ra_unhealthy (state_of a g s) then [] else [entry now a g Triggered]) @ logged"]) (simp add: e)
qed (simp add: evaluate_pair_recovered)

lemma RestartAgent_world [simp]: "RestartAgent i op = (e, op') \<Longrightarrow> op_world op' = op_world op"
  by (auto simp: RestartAgent_def SendToAgent_def Let_def split: option.splits if_splits)

lemma maybeAct_store: "maybeAct env now a g st s = (st', s') \<Longrightarrow> w_store (au_world s') = w_store (au_world s)"
  by (auto simp: maybeAct_def Let_def split: if_splits prod.splits option.splits)

lemma evaluate_pair_store [simp]: "w_store (au_world (evaluate_pair env silence now s p)) = w_store (au_world s)"
  by (cases p) (auto simp: evaluate_pair_def Let_def maybeAct_store split: prod.split)

lemma store_kept [simp]: "w_store (au_world (foldl (evaluate_pair env silence now) s ps)) = w_store (au_world s)"
  by (induction ps arbitrary: s) simp_all

text \<open>
  C21: Restarts only where a rule asks for them.  Every message a tick sends is a restart command to a connected
  agent that accepts it, that an enabled rule without the dry-run switch targets by its id or its group, and
  that is silent or, for the unhealthy trigger, offline or in error; each is recorded as an action taken, and no other message, config or stored row changes.
\<close>
theorem tick_restarts_selected:
  "\<exists>new logged. op_sent (au_opamp (Tick env silence now s)) = op_sent (au_opamp s) @ new
     \<and> au_log (Tick env silence now s) = au_log s @ logged
     \<and> length new = length (filter (\<lambda>e. le_Decision e = ActionTaken) logged)
     \<and> (\<forall>m \<in> set new. \<exists>a \<in> set (store_ListAutomations (au_rules s)). \<exists>g \<in> set (ListAgents (w_store (au_world s))).
          at_Enabled a \<and> targets a g \<and> afflicted silence now (at_Trigger a) g \<and> restarts a g (op_agents (au_opamp s)) m)
     \<and> op_agents (au_opamp (Tick env silence now s)) = op_agents (au_opamp s)
     \<and> w_store (au_world (Tick env silence now s)) = w_store (au_world s)"
proof -
  have "\<exists>new logged. op_sent (au_opamp (foldl (evaluate_pair env silence now) s' ps)) = op_sent (au_opamp s') @ new
     \<and> au_log (foldl (evaluate_pair env silence now) s' ps) = au_log s' @ logged
     \<and> length new = length (filter (\<lambda>e. le_Decision e = ActionTaken) logged)
     \<and> (\<forall>m \<in> set new. \<exists>(a, g) \<in> set ps. matchesTrigger g (at_Trigger a) now silence \<and> restarts a g (op_agents (au_opamp s')) m)
     \<and> op_agents (au_opamp (foldl (evaluate_pair env silence now) s' ps)) = op_agents (au_opamp s')" for s' ps
  proof (induction ps arbitrary: s')
    case (Cons p ps)
    obtain a g where p: "p = (a, g)" by fastforce
    obtain n1 l1 where 1: "op_sent (au_opamp (evaluate_pair env silence now s' p)) = op_sent (au_opamp s') @ n1"
        "au_log (evaluate_pair env silence now s' p) = au_log s' @ l1" "length n1 = length (filter (\<lambda>e. le_Decision e = ActionTaken) l1)"
        "\<forall>m \<in> set n1. matchesTrigger g (at_Trigger a) now silence \<and> restarts a g (op_agents (au_opamp s')) m"
        "op_agents (au_opamp (evaluate_pair env silence now s' p)) = op_agents (au_opamp s')"
      using evaluate_pair_sends unfolding p by metis
    obtain n2 l2 where 2: "op_sent (au_opamp (foldl (evaluate_pair env silence now) (evaluate_pair env silence now s' p) ps)) = op_sent (au_opamp s') @ n1 @ n2"
        "au_log (foldl (evaluate_pair env silence now) (evaluate_pair env silence now s' p) ps) = au_log s' @ l1 @ l2"
        "length n2 = length (filter (\<lambda>e. le_Decision e = ActionTaken) l2)"
        "\<forall>m \<in> set n2. \<exists>(a, g) \<in> set ps. matchesTrigger g (at_Trigger a) now silence \<and> restarts a g (op_agents (au_opamp s')) m"
        "op_agents (au_opamp (foldl (evaluate_pair env silence now) (evaluate_pair env silence now s' p) ps)) = op_agents (au_opamp s')"
      using Cons.IH [of "evaluate_pair env silence now s' p"] 1(1,2,5) by auto
    show ?case using 1 2 by (intro exI [of _ "n1 @ n2"] exI [of _ "l1 @ l2"]) (auto simp: p)
  qed simp
  from this [of s "evaluated_pairs s"] obtain new logged where r:
      "op_sent (au_opamp (foldl (evaluate_pair env silence now) s (evaluated_pairs s))) = op_sent (au_opamp s) @ new"
      "au_log (foldl (evaluate_pair env silence now) s (evaluated_pairs s)) = au_log s @ logged"
      "length new = length (filter (\<lambda>e. le_Decision e = ActionTaken) logged)"
      "\<forall>m \<in> set new. \<exists>(a, g) \<in> set (evaluated_pairs s). matchesTrigger g (at_Trigger a) now silence \<and> restarts a g (op_agents (au_opamp s)) m"
      "op_agents (au_opamp (foldl (evaluate_pair env silence now) s (evaluated_pairs s))) = op_agents (au_opamp s)" by blast
  have "\<exists>a \<in> set (store_ListAutomations (au_rules s)). \<exists>g \<in> set (ListAgents (w_store (au_world s))).
      at_Enabled a \<and> targets a g \<and> afflicted silence now (at_Trigger a) g \<and> restarts a g (op_agents (au_opamp s)) m" if "m \<in> set new" for m
    using r(4) that by (fastforce simp: set_evaluated_pairs matchesTrigger_afflicted)
  then show ?thesis using r(1-3,5) store_kept by (intro exI [of _ new] exI [of _ logged]) (simp add: Tick_def Let_def)
qed

section \<open>Onset and recovery\<close>

lemma log_grows: "set (au_log s) \<subseteq> set (au_log (foldl (evaluate_pair env silence now) s ps))"
proof (induction ps arbitrary: s)
  case (Cons p ps)
  have "set (au_log s) \<subseteq> set (au_log (evaluate_pair env silence now s p))"
    using evaluate_pair_sends [of env silence now s "fst p" "snd p"] by auto
  then show ?case using Cons.IH [of "evaluate_pair env silence now s p"] by simp
qed simp

text \<open>A tick at its pair: what precedes does not touch the pair's state, what follows neither.\<close>

lemma Tick_at_pair:
  assumes "(a, g) \<in> set (evaluated_pairs s)" "distinct_keys s"
  obtains s1 where "map_of (au_state s1) (state_key a g) = map_of (au_state s) (state_key a g)"
    "map_of (au_state (Tick env silence now s)) (state_key a g) = map_of (au_state (evaluate_pair env silence now s1 (a, g))) (state_key a g)"
    "set (au_log (evaluate_pair env silence now s1 (a, g))) \<subseteq> set (au_log (Tick env silence now s))"
    "set (au_log s) \<subseteq> set (au_log (Tick env silence now s))"
proof -
  obtain xs ys where ps: "evaluated_pairs s = xs @ (a, g) # ys" using assms(1) by (metis split_list)
  have keys: "state_key a g \<notin> (\<lambda>(a, g). state_key a g) ` set xs" "state_key a g \<notin> (\<lambda>(a, g). state_key a g) ` set ys"
    using assms(2) by (auto simp: distinct_keys_def ps)
  have "state_key a g \<in> (\<lambda>(a, g). state_key a g) ` set (evaluated_pairs s)" by (simp add: ps)
  then show thesis
    using that [of "foldl (evaluate_pair env silence now) s xs"] evaluate_others [OF keys(1)] evaluate_others [OF keys(2)]
      log_grows [of "evaluate_pair env silence now (foldl (evaluate_pair env silence now) s xs) (a, g)" env silence now ys]
      log_grows [of s env silence now "evaluated_pairs s"]
    by (simp add: Tick_state Tick_log) (simp add: ps)
qed

lemma Tick_onset:
  assumes "(a, g) \<in> set (evaluated_pairs s)" "distinct_keys s" "\<not> ra_unhealthy (state_of a g s)" "matchesTrigger g (at_Trigger a) now silence"
  shows "\<exists>d \<in> attempts. entry now a g d \<in> set (au_log (Tick env silence now s))"
proof -
  obtain s1 where s1: "map_of (au_state s1) (state_key a g) = map_of (au_state s) (state_key a g)"
      "set (au_log (evaluate_pair env silence now s1 (a, g))) \<subseteq> set (au_log (Tick env silence now s))"
    using Tick_at_pair [OF assms(1,2)] by metis
  have st: "during_outage (state_of a g s1) = fresh_state\<lparr>ra_unhealthy := True\<rparr>" using assms(3) s1(1) by (simp add: state_of_def during_outage_def)
  have "\<not> on_hold now a (during_outage (state_of a g s1))" "ra_attempts (during_outage (state_of a g s1)) < maxAttempts a"
    using maxAttempts_pos [of a] by (simp_all add: st on_hold_def fresh_state_def IsZero_def)
  then obtain d where "d \<in> attempts" "entry now a g d \<in> set (au_log (evaluate_pair env silence now s1 (a, g)))"
    using evaluate_pair_matched [OF assms(4), of env s1] by (metis in_set_conv_decomp linorder_not_less append_assoc)
  then show ?thesis using s1(2) by blast
qed

lemma Tick_recovery:
  assumes "(a, g) \<in> set (evaluated_pairs s)" "distinct_keys s" "\<not> matchesTrigger g (at_Trigger a) now silence"
  shows "map_of (au_state (Tick env silence now s)) (state_key a g) = Some fresh_state"
  using Tick_at_pair [OF assms(1,2), of env silence now] assms(3) by (auto simp: evaluate_pair_recovered AList.update_conv')

lemma Tick_log_grows: "set (au_log s) \<subseteq> set (au_log (Tick env silence now s))"
  using log_grows by (simp add: Tick_def Let_def)

text \<open>
  The cooldown ends with the outage.  When an agent that matches a rule at one tick does not match it at the
  next and matches it again at a third, an attempt is made at the first and again at the third, however
  little time lies between them and whatever cooldown the rule has: recovery clears the time of the last
  attempt together with the budget.
\<close>
theorem flapping_ignores_cooldown:
  fixes env op1 op2
  assumes "map_of (au_state s) (state_key a g0) = None" "(a, g0) \<in> set (evaluated_pairs s)" "distinct_keys s" "matchesTrigger g0 (at_Trigger a) t1 silence"
  defines "s1 \<equiv> (Tick env silence t1 s)\<lparr>au_opamp := op1\<rparr>"
  assumes "(a, g1) \<in> set (evaluated_pairs s1)" "distinct_keys s1" "\<not> matchesTrigger g1 (at_Trigger a) t2 silence" "ag_ID g1 = ag_ID g0"
  defines "s2 \<equiv> (Tick env silence t2 s1)\<lparr>au_opamp := op2\<rparr>"
  assumes "(a, g2) \<in> set (evaluated_pairs s2)" "distinct_keys s2" "matchesTrigger g2 (at_Trigger a) t3 silence" "ag_ID g2 = ag_ID g0"
  shows "\<exists>d0 \<in> attempts. \<exists>d2 \<in> attempts. {entry t1 a g0 d0, entry t3 a g0 d2} \<subseteq> set (au_log (Tick env silence t3 s2))"
proof -
  obtain d0 where d0: "d0 \<in> attempts" "entry t1 a g0 d0 \<in> set (au_log (Tick env silence t1 s))"
    using Tick_onset [OF assms(2,3) _ assms(4)] assms(1) by (auto simp: state_of_def fresh_state_def)
  have "au_log s1 = au_log (Tick env silence t1 s)" "au_log s2 = au_log (Tick env silence t2 s1)" by (simp_all add: s1_def s2_def)
  then have keep: "entry t1 a g0 d0 \<in> set (au_log (Tick env silence t3 s2))" using d0(2) Tick_log_grows by (metis in_mono)
  have "state_key a g1 = state_key a g2" using assms(9,14) by (simp add: state_key_def)
  then have "state_of a g2 s2 = fresh_state" using Tick_recovery [OF assms(6-8), of env] by (simp add: state_of_def s2_def)
  then obtain d2 where "d2 \<in> attempts" "entry t3 a g2 d2 \<in> set (au_log (Tick env silence t3 s2))"
    using Tick_onset [OF assms(11,12) _ assms(13)] by (auto simp: fresh_state_def)
  moreover have "entry t3 a g2 d2 = entry t3 a g0 d2" using assms(14) by (simp add: entry_def)
  ultimately show ?thesis using d0(1) keep by auto
qed

section \<open>Stored rules\<close>







lemma automation_of_ID [simp]: "at_ID (automation_of i input created updated) = i"
  by (simp add: automation_of_def)






lemma evaluate_pair_rules [simp]: "au_rules (evaluate_pair env silence now s p) = au_rules s"
proof -
  obtain a g where p: "p = (a, g)" by fastforce
  obtain st2 s2 where "maybeAct env now a g (during_outage (state_of a g s))
      (if ra_unhealthy (state_of a g s) then s else record_decision env now Triggered a g ''trigger condition observed'' s) = (st2, s2)" by fastforce
  then show ?thesis using maybeAct_cases(1)
    by (fastforce simp: p evaluate_pair_def Let_def state_of_def [symmetric] during_outage_def split: if_splits)
qed

lemma Tick_rules [simp]: "au_rules (Tick env silence now s) = au_rules s"
proof -
  have "au_rules (foldl (evaluate_pair env silence now) s' ps) = au_rules s'" for s' ps by (induction ps arbitrary: s') simp_all
  then show ?thesis by (simp add: Tick_def Let_def)
qed



text \<open>A positive number of seconds may still give no cooldown, because the product wraps.\<close>

lemma cooldown_wraps: "cooldown (a\<lparr>at_CooldownSeconds := 9223372037\<rparr>) < 0"
  by (simp add: cooldown_def int64_def)

section \<open>A small fleet\<close>

text \<open>One rule on one agent that was last seen at a given time, with no agent connected.\<close>

definition crash_rule :: Automation where
  "crash_rule = \<lparr>at_ID = ''r1'', at_Name = ''restart'', at_Enabled = True, at_AgentID = Some ''a1'', at_GroupID = None,
     at_Trigger = ''agent_silent'', at_Action = ''supervisor_restart'', at_CooldownSeconds = 300, at_MaxAttempts = 3,
     at_DryRun = False, at_CreatedAt = 1, at_UpdatedAt = 1\<rparr>"

definition crash_agent :: "gotime \<Rightarrow> Agent" where
  "crash_agent seen = (sample_agent ''a1'')\<lparr>ag_LastSeen := seen\<rparr>"

definition crash_opamp :: "gotime \<Rightarrow> OpampState" where
  "crash_opamp seen = \<lparr>op_world = empty_world\<lparr>w_store := empty_store\<lparr>agents := [(''a1'', crash_agent seen)]\<rparr>\<rparr>,
     op_agents = no_agents, op_owners = [], op_sent = [], op_notified = []\<rparr>"

definition crash_start :: AutoState where
  "crash_start = \<lparr>au_rules = [(''r1'', crash_rule)], au_state = [], au_log = [], au_opamp = crash_opamp 0\<rparr>"

lemma crash_pairs:
  assumes "au_rules s = [(''r1'', crash_rule)]" "au_opamp s = crash_opamp seen"
  shows "evaluated_pairs s = [(crash_rule, crash_agent seen)]" "distinct_keys s"
proof -
  show "evaluated_pairs s = [(crash_rule, crash_agent seen)]" using assms
    by (simp add: evaluated_pairs_def store_ListAutomations_def crash_rule_def crash_opamp_def ListAgents_def crash_agent_def sample_agent_def
        scopeAgents_def deref_def)
  then show "distinct_keys s" by (simp add: distinct_keys_def)
qed

lemma crash_matches: "matchesTrigger (crash_agent seen) (at_Trigger crash_rule) now silence \<longleftrightarrow> Sub now seen > silence"
  by (simp add: matchesTrigger_def crash_rule_def crash_agent_def)

lemma crash_unchanged:
  assumes "au_rules s = [(''r1'', crash_rule)]" "w_store (au_world s) = w_store (op_world (crash_opamp seen))"
  shows "rule_unchanged ''r1'' 3 (300 * second) s" "condition silence now ''r1'' ''a1'' s \<longleftrightarrow> silence < Sub now seen"
  using assms by (simp_all add: rule_unchanged_def condition_def store_ListAutomations_def crash_rule_def maxAttempts_def cooldown_def int64_def
      crash_opamp_def ListAgents_def crash_agent_def sample_agent_def targets_def afflicted_def)

text \<open>An agent silent at two ticks six minutes apart: one spell and one outage.\<close>

theorem outages_within_guards_witness:
  "\<exists>x. pair_log ''r1'' ''a1'' (Tick sample_env minute (8 * minute) (Tick sample_env minute (2 * minute) crash_start)) = outage_log ''r1'' ''a1'' x
     \<and> answers [2 * minute, 8 * minute] x \<and> within_guards 3 (300 * second) x"
proof -
  define s1 where "s1 = Tick sample_env minute (2 * minute) crash_start"
  have r: "au_rules crash_start = [(''r1'', crash_rule)]" "w_store (au_world crash_start) = w_store (op_world (crash_opamp 0))"
    by (simp_all add: crash_start_def)
  have r1: "au_rules s1 = [(''r1'', crash_rule)]" "w_store (au_world s1) = w_store (op_world (crash_opamp 0))"
    using r by (simp_all add: s1_def) (simp add: Tick_def Let_def)
  have "watched sample_env minute ''r1'' ''a1'' 3 (300 * second) [] crash_start" by (rule watched.start) (simp_all add: crash_start_def)
  from watched.ticked [OF this crash_unchanged(1) [OF r], of "2 * minute"]
  have "watched sample_env minute ''r1'' ''a1'' 3 (300 * second) [(2 * minute, True)] s1"
    using crash_unchanged(2) [OF r] by (simp add: s1_def Sub_def)
  from watched.ticked [OF this crash_unchanged(1) [OF r1], of "8 * minute"]
  have "watched sample_env minute ''r1'' ''a1'' 3 (300 * second) [(2 * minute, True), (8 * minute, True)] (Tick sample_env minute (8 * minute) s1)"
    using crash_unchanged(2) [OF r1] by (simp add: Sub_def)
  from outages_within_guards [OF this]
  obtain outages where o: "pair_log ''r1'' ''a1'' (Tick sample_env minute (8 * minute) s1) = concat (map (outage_log ''r1'' ''a1'') outages)"
      "list_all2 (\<lambda>ts x. answers ts x \<and> within_guards 3 (300 * second) x) [[2 * minute, 8 * minute]] outages" by auto
  then obtain x where "outages = [x]" "answers [2 * minute, 8 * minute] x" "within_guards 3 (300 * second) x"
    by (auto simp: list_all2_Cons1)
  then show ?thesis using o(1) unfolding s1_def by (intro exI [of _ x]) simp
qed



text \<open>The agent connected, accepting restarts and silent: one message.\<close>

definition crash_conn :: ConnAgent where
  "crash_conn = (NewAgent ''wire'' 7)\<lparr>oa_FleetId := ''a1'', oa_Status := Some \<lparr>m_InstanceUid = ''wire'', m_SequenceNum = 1, m_AgentDescription = None,
     m_Capabilities = 0x400, m_Health = None, m_EffectiveConfig = None, m_RemoteConfigStatus = None, m_PackageStatuses = None,
     m_ConnectionSettingsRequest = None\<rparr>\<rparr>"

definition crash_connected :: AutoState where
  "crash_connected = crash_start\<lparr>au_opamp := (crash_opamp 0)\<lparr>op_agents := \<lparr>objects = [crash_conn], agentsById = [(''wire'', 0)],
     agentsByFleetId = [(''a1'', 0)], connections = [(7, [''wire''])]\<rparr>\<rparr>\<rparr>"

theorem tick_restarts_selected_witness:
  "\<exists>m g. op_sent (au_opamp (Tick sample_env minute (2 * minute) crash_connected)) = [m]
     \<and> g \<in> set (ListAgents (w_store (au_world crash_connected))) \<and> targets crash_rule g \<and> afflicted minute (2 * minute) ''agent_silent'' g
     \<and> restarts crash_rule g (op_agents (au_opamp crash_connected)) m"
proof -
  have p: "evaluated_pairs crash_connected = [(crash_rule, crash_agent 0)]"
    by (simp add: evaluated_pairs_def store_ListAutomations_def crash_rule_def crash_connected_def crash_start_def crash_opamp_def ListAgents_def
        crash_agent_def sample_agent_def scopeAgents_def deref_def)
  have sent: "\<exists>m. op_sent (au_opamp (Tick sample_env minute (2 * minute) crash_connected)) = [m]"
    unfolding Tick_def p
    by (simp add: evaluate_pair_def maybeAct_def crash_connected_def crash_start_def crash_opamp_def crash_matches Sub_def fresh_state_def IsZero_def
        crash_rule_def maxAttempts_def RestartAgent_def FindAgent_def crash_agent_def sample_agent_def agent_at_def crash_conn_def HasCapability_def SendToAgent_def matchesTrigger_def)
  have rules: "store_ListAutomations (au_rules crash_connected) = [crash_rule]" by (simp add: store_ListAutomations_def crash_connected_def crash_start_def)
  obtain m g where "op_sent (au_opamp (Tick sample_env minute (2 * minute) crash_connected)) = [m]"
      "g \<in> set (ListAgents (w_store (au_world crash_connected)))" "targets crash_rule g"
      "afflicted minute (2 * minute) (at_Trigger crash_rule) g" "restarts crash_rule g (op_agents (au_opamp crash_connected)) m"
    using tick_restarts_selected [of sample_env minute "2 * minute" crash_connected] sent rules by (auto simp: crash_connected_def crash_opamp_def)
  then show ?thesis by (intro exI [of _ m] exI [of _ g]) (simp add: crash_rule_def)
qed

text \<open>Silent after two minutes, seen again after three, silent after five: two attempts within the cooldown of five.\<close>

theorem flapping_ignores_cooldown_witness:
  "(\<exists>s :: AutoState. \<exists>d0 \<in> attempts. \<exists>d2 \<in> attempts. {entry (2 * minute) crash_rule (crash_agent 0) d0, entry (5 * minute) crash_rule (crash_agent 0) d2} \<subseteq> set (au_log s))
     \<and> 5 * minute - 2 * minute < cooldown crash_rule"
proof -
  define s1 where "s1 = (Tick sample_env minute (2 * minute) crash_start)\<lparr>au_opamp := crash_opamp (3 * minute)\<rparr>"
  define s2 where "s2 = (Tick sample_env minute (3 * minute) s1)\<lparr>au_opamp := crash_opamp (3 * minute)\<rparr>"
  have r: "au_rules crash_start = [(''r1'', crash_rule)]" "au_opamp crash_start = crash_opamp 0" "au_rules s1 = [(''r1'', crash_rule)]"
      "au_opamp s1 = crash_opamp (3 * minute)" "au_rules s2 = [(''r1'', crash_rule)]" "au_opamp s2 = crash_opamp (3 * minute)"
    by (simp_all add: crash_start_def s1_def s2_def)
  have m: "matchesTrigger (crash_agent 0) (at_Trigger crash_rule) (2 * minute) minute"
      "\<not> matchesTrigger (crash_agent (3 * minute)) (at_Trigger crash_rule) (3 * minute) minute"
      "matchesTrigger (crash_agent (3 * minute)) (at_Trigger crash_rule) (5 * minute) minute"
    by (simp_all add: crash_matches Sub_def)
  have ids: "ag_ID (crash_agent x) = ag_ID (crash_agent 0)" for x by (simp add: crash_agent_def)
  have none: "map_of (au_state crash_start) (state_key crash_rule (crash_agent 0)) = None" by (simp add: crash_start_def)
  have p: "(crash_rule, crash_agent 0) \<in> set (evaluated_pairs crash_start)" "(crash_rule, crash_agent (3 * minute)) \<in> set (evaluated_pairs s1)"
      "(crash_rule, crash_agent (3 * minute)) \<in> set (evaluated_pairs s2)"
    using crash_pairs(1) [OF r(1,2)] crash_pairs(1) [OF r(3,4)] crash_pairs(1) [OF r(5,6)] by simp_all
  have log: "\<exists>d0 \<in> attempts. \<exists>d2 \<in> attempts. {entry (2 * minute) crash_rule (crash_agent 0) d0, entry (5 * minute) crash_rule (crash_agent 0) d2}
      \<subseteq> set (au_log (Tick sample_env minute (5 * minute) s2))"
    unfolding s2_def s1_def
    by (rule flapping_ignores_cooldown [OF none p(1) crash_pairs(2) [OF r(1,2)] m(1) p(2) [unfolded s1_def] crash_pairs(2) [OF r(3,4), unfolded s1_def]
          m(2) ids p(3) [unfolded s2_def s1_def] crash_pairs(2) [OF r(5,6), unfolded s2_def s1_def] m(3) ids])
  show ?thesis
  proof (intro conjI exI)
    show "5 * minute - 2 * minute < cooldown crash_rule" by (simp add: cooldown_def crash_rule_def int64_def)
  qed (rule log)
qed

end
