(* ===== verification/Trace_Index.thy ===== *)
theory Trace_Index
  imports Go_Time "HOL-Library.Multiset"
begin

text \<open>
  The trace index: which cloud resources emit spans.  \<open>traceindex/keying.go\<close> projects a key from the resource
  attributes of a batch, \<open>inventory_keying.go\<close> the same key from a discovered resource, \<open>index.go\<close> accumulates one
  pending row per key and drains the rows into the store, whose in-memory version
  (\<open>memory/trace_resource_seen.go\<close>) keeps at most a configured number of rows.  An attribute map is an
  association list, the encoder of the attribute map is a parameter, and so are \<open>sort.Slice\<close>, which may leave
  rows with equal keys in any order, and the rounding of float64.
\<close>

section \<open>Keys\<close>

type_synonym attrs = "(string \<times> string) list"

datatype MatchConfidence = MatchConfidenceStrong | MatchConfidenceWeak

definition firstNonEmpty :: "attrs \<Rightarrow> string \<Rightarrow> string" where
  "firstNonEmpty attrs k = (case map_of attrs k of None \<Rightarrow> [] | Some v \<Rightarrow> TrimSpace v)"

text \<open>
  \<open>strings.ToLower\<close>, as far as a comparison with an ASCII word can tell: besides the ASCII capitals only the
  Kelvin sign and the capital I with a dot have an ASCII lower case.
\<close>

fun lower_ascii :: "string \<Rightarrow> string" where
  "lower_ascii [] = []"
| "lower_ascii (c # s) =
     (if prefix [CHR 0xE2, CHR 0x84, CHR 0xAA] (c # s) then CHR ''k'' # lower_ascii (drop 2 s)
      else if prefix [CHR 0xC4, CHR 0xB0] (c # s) then CHR ''i'' # lower_ascii (drop 1 s)
      else (if CHR ''A'' \<le> c \<and> c \<le> CHR ''Z'' then char_of (of_char c + 32 :: nat) else c) # lower_ascii s)"

definition normalizeProvider :: "string \<Rightarrow> string" where
  "normalizeProvider raw_provider =
     (let p = lower_ascii (TrimSpace raw_provider) in
      if p = ''aws'' then ''aws''
      else if p \<in> {''gcp'', ''google_cloud_platform'', ''google''} then ''gcp''
      else if p \<in> {''azure'', ''microsoft_azure''} then ''azure''
      else if p \<in> {''oci'', ''oracle_cloud''} then ''oci''
      else ''unknown'')"

record ResourceKey =
  rk_Key :: string
  rk_Provider :: string
  rk_ScopeID :: string
  rk_ResourceIDHint :: string
  rk_ServiceName :: string
  rk_Confidence :: MatchConfidence

text \<open>The six tiers; without a match the observation is dropped.\<close>

definition ComputeResourceKey :: "attrs \<Rightarrow> ResourceKey option" where
  "ComputeResourceKey attrs =
     (if attrs = [] then None
      else
        (let provider = normalizeProvider (firstNonEmpty attrs ''cloud.provider'');
             scope = firstNonEmpty attrs ''cloud.account.id'';
             service = firstNonEmpty attrs ''service.name'';
             hint = firstNonEmpty attrs ''cloud.resource_id'';
             host_id = firstNonEmpty attrs ''host.id'';
             cluster = firstNonEmpty attrs ''k8s.cluster.name'';
             dbSystem = firstNonEmpty attrs ''db.system'';
             dbName = firstNonEmpty attrs ''db.name'';
             hostName = firstNonEmpty attrs ''host.name'';
             found = (\<lambda>key h conf. Some \<lparr>rk_Key = key, rk_Provider = provider, rk_ScopeID = scope,
               rk_ResourceIDHint = h, rk_ServiceName = service, rk_Confidence = conf\<rparr>)
         in if hint \<noteq> [] then found hint hint MatchConfidenceStrong
            else if host_id \<noteq> [] \<and> scope \<noteq> [] then found (provider @ '':'' @ scope @ '':'' @ host_id) [] MatchConfidenceStrong
            else if cluster \<noteq> [] \<and> scope \<noteq> [] then found (provider @ '':'' @ scope @ '':k8s:'' @ cluster) [] MatchConfidenceStrong
            else if dbSystem \<noteq> [] \<and> dbName \<noteq> [] \<and> scope \<noteq> []
            then found (provider @ '':'' @ scope @ '':db:'' @ dbSystem @ '':'' @ dbName) [] MatchConfidenceStrong
            else if hostName \<noteq> [] then found (''host:'' @ hostName) [] MatchConfidenceWeak
            else if service \<noteq> [] then found (''service:'' @ service) [] MatchConfidenceWeak
            else None))"

definition ProjectComputeKey :: "string \<Rightarrow> string \<Rightarrow> string \<Rightarrow> string" where
  "ProjectComputeKey provider scopeID resourceID =
     (let p = TrimSpace provider; sc = TrimSpace scopeID; r = TrimSpace resourceID in
      if p = [] \<or> sc = [] \<or> r = [] then [] else p @ '':'' @ sc @ '':'' @ r)"

definition ProjectDatabaseKey :: "string \<Rightarrow> string \<Rightarrow> string \<Rightarrow> string \<Rightarrow> string" where
  "ProjectDatabaseKey provider scopeID dbSystem dbName =
     (let p = TrimSpace provider; sc = TrimSpace scopeID; d = TrimSpace dbSystem; n = TrimSpace dbName in
      if p = [] \<or> sc = [] \<or> d = [] \<or> n = [] then [] else p @ '':'' @ sc @ '':db:'' @ d @ '':'' @ n)"

definition ProjectClusterKey :: "string \<Rightarrow> string \<Rightarrow> string \<Rightarrow> string" where
  "ProjectClusterKey provider scopeID clusterName =
     (let p = TrimSpace provider; sc = TrimSpace scopeID; c = TrimSpace clusterName in
      if p = [] \<or> sc = [] \<or> c = [] then [] else p @ '':'' @ sc @ '':k8s:'' @ c)"

section \<open>Rows, the pending map and the store\<close>

record ResourceObservation =
  ob_Attributes :: attrs
  ob_SpanCount :: int
  ob_RootSpanCount :: int
  ob_Timestamp :: gotime

record ResourceRow =
  rr_ResourceKey :: string
  rr_Provider :: string
  rr_ScopeID :: string
  rr_ResourceIDHint :: string
  rr_ServiceName :: string
  rr_FirstSeenAt :: gotime
  rr_LastSeenAt :: gotime
  rr_SpanCount24h :: int
  rr_RootSpanCount24h :: int
  rr_AttributesJSON :: string
  rr_MatchConfidence :: MatchConfidence
  rr_UpdatedAt :: gotime

type_synonym rows = "(string \<times> ResourceRow) list"
type_synonym row_sort = "(ResourceRow \<Rightarrow> int) \<Rightarrow> ResourceRow list \<Rightarrow> ResourceRow list"

record TraceIndex =
  ti_maxRows :: int
  ti_pendingRows :: rows
  ti_traceMaxRows :: int
  ti_traceResourceSeen :: rows

definition defaultMaxRows :: int where "defaultMaxRows = 100000"

definition NewIndex :: "int \<Rightarrow> int \<Rightarrow> TraceIndex" where
  "NewIndex maxRows storeMaxRows =
     \<lparr>ti_maxRows = (if maxRows \<le> 0 then defaultMaxRows else maxRows), ti_pendingRows = [],
      ti_traceMaxRows = storeMaxRows, ti_traceResourceSeen = []\<rparr>"

definition obs_time :: "gotime \<Rightarrow> ResourceObservation \<Rightarrow> gotime" where
  "obs_time clock obs = (if IsZero (ob_Timestamp obs) then clock else ob_Timestamp obs)"

definition pending_row :: "(attrs \<Rightarrow> string) \<Rightarrow> gotime \<Rightarrow> ResourceKey \<Rightarrow> ResourceObservation \<Rightarrow> ResourceRow option \<Rightarrow> ResourceRow" where
  "pending_row marshal ts rk obs old =
     (case old of
        Some existing \<Rightarrow>
          (let e1 = existing\<lparr>rr_SpanCount24h := int64 (rr_SpanCount24h existing + ob_SpanCount obs),
                 rr_RootSpanCount24h := int64 (rr_RootSpanCount24h existing + ob_RootSpanCount obs)\<rparr>;
               e2 = (if ts > rr_LastSeenAt e1
                     then e1\<lparr>rr_LastSeenAt := ts, rr_AttributesJSON := marshal (ob_Attributes obs), rr_ServiceName := rk_ServiceName rk\<rparr>
                     else e1)
           in e2\<lparr>rr_UpdatedAt := ts\<rparr>)
      | None \<Rightarrow>
          \<lparr>rr_ResourceKey = rk_Key rk, rr_Provider = rk_Provider rk, rr_ScopeID = rk_ScopeID rk,
           rr_ResourceIDHint = rk_ResourceIDHint rk, rr_ServiceName = rk_ServiceName rk, rr_FirstSeenAt = ts,
           rr_LastSeenAt = ts, rr_SpanCount24h = ob_SpanCount obs, rr_RootSpanCount24h = ob_RootSpanCount obs,
           rr_AttributesJSON = marshal (ob_Attributes obs), rr_MatchConfidence = rk_Confidence rk, rr_UpdatedAt = ts\<rparr>)"

definition Observe :: "(attrs \<Rightarrow> string) \<Rightarrow> gotime \<Rightarrow> ResourceObservation \<Rightarrow> TraceIndex \<Rightarrow> TraceIndex" where
  "Observe marshal clock obs ix =
     (case ComputeResourceKey (ob_Attributes obs) of
        None \<Rightarrow> ix
      | Some rk \<Rightarrow>
          ix\<lparr>ti_pendingRows := AList.update (rk_Key rk)
               (pending_row marshal (obs_time clock obs) rk obs (map_of (ti_pendingRows ix) (rk_Key rk))) (ti_pendingRows ix)\<rparr>)"

definition upserted :: "ResourceRow \<Rightarrow> ResourceRow option \<Rightarrow> ResourceRow" where
  "upserted r old =
     (case old of
        None \<Rightarrow> r
      | Some existing \<Rightarrow>
          existing\<lparr>rr_Provider := rr_Provider r, rr_ScopeID := rr_ScopeID r,
            rr_ResourceIDHint := (if rr_ResourceIDHint r \<noteq> [] then rr_ResourceIDHint r else rr_ResourceIDHint existing),
            rr_ServiceName := rr_ServiceName r,
            rr_SpanCount24h := int64 (rr_SpanCount24h existing + rr_SpanCount24h r),
            rr_RootSpanCount24h := int64 (rr_RootSpanCount24h existing + rr_RootSpanCount24h r),
            rr_LastSeenAt := (if rr_LastSeenAt r > rr_LastSeenAt existing then rr_LastSeenAt r else rr_LastSeenAt existing),
            rr_AttributesJSON := rr_AttributesJSON r, rr_MatchConfidence := rr_MatchConfidence r, rr_UpdatedAt := rr_UpdatedAt r\<rparr>)"

definition upsert_row :: "rows \<Rightarrow> ResourceRow \<Rightarrow> rows" where
  "upsert_row rows r = AList.update (rr_ResourceKey r) (upserted r (map_of rows (rr_ResourceKey r))) rows"

definition trace_cap :: "TraceIndex \<Rightarrow> int" where
  "trace_cap ix = (if ti_traceMaxRows ix \<le> 0 then 100000 else ti_traceMaxRows ix)"

definition evict_rows :: "row_sort \<Rightarrow> int \<Rightarrow> rows \<Rightarrow> ResourceRow list" where
  "evict_rows srt cap rows = take (nat (int (length rows) - cap)) (srt rr_LastSeenAt (map snd rows))"

definition UpsertTraceResources :: "row_sort \<Rightarrow> ResourceRow list \<Rightarrow> TraceIndex \<Rightarrow> int \<times> TraceIndex" where
  "UpsertTraceResources srt rs ix =
     (if rs = [] then (0, ix)
      else
        (let rows = foldl upsert_row (ti_traceResourceSeen ix) rs;
             gone = (if int (length rows) > trace_cap ix then evict_rows srt (trace_cap ix) rows else [])
         in (int (length gone), ix\<lparr>ti_traceResourceSeen := foldl (\<lambda>m r. AList.delete (rr_ResourceKey r) m) rows gone\<rparr>)))"

definition Flush :: "row_sort \<Rightarrow> TraceIndex \<Rightarrow> (int \<times> int) \<times> TraceIndex" where
  "Flush srt ix =
     (if ti_pendingRows ix = [] then ((0, 0), ix)
      else
        (let rs = sort_key rr_ResourceKey (map snd (ti_pendingRows ix));
             (evicted, ix1) = UpsertTraceResources srt rs (ix\<lparr>ti_pendingRows := []\<rparr>)
         in ((int (length rs), evicted), ix1)))"

definition GetTraceResource :: "string \<Rightarrow> TraceIndex \<Rightarrow> ResourceRow option" where
  "GetTraceResource key ix = map_of (ti_traceResourceSeen ix) key"

definition in_scope :: "string \<Rightarrow> string \<Rightarrow> ResourceRow \<Rightarrow> bool" where
  "in_scope provider scopeID r \<longleftrightarrow> rr_Provider r = provider \<and> rr_ScopeID r = scopeID"

definition ListTraceResourcesByScope ::
  "row_sort \<Rightarrow> string \<Rightarrow> string \<Rightarrow> gotime \<Rightarrow> int \<Rightarrow> TraceIndex \<Rightarrow> ResourceRow list" where
  "ListTraceResourcesByScope srt provider scopeID since limit ix =
     (if provider = [] then []
      else
        (let lim = (if limit \<le> 0 \<or> limit > 100000 then 1000 else limit);
             out = filter (\<lambda>r. in_scope provider scopeID r \<and> \<not> (\<not> IsZero since \<and> rr_LastSeenAt r < since))
               (map snd (ti_traceResourceSeen ix))
         in take (nat lim) (srt (\<lambda>r. - rr_LastSeenAt r) out)))"

definition CountTraceResourcesByScope :: "string \<Rightarrow> string \<Rightarrow> TraceIndex \<Rightarrow> int" where
  "CountTraceResourcesByScope provider scopeID ix =
     (if provider = [] then 0 else int (length (filter (in_scope provider scopeID) (map snd (ti_traceResourceSeen ix)))))"

section \<open>Reading the index\<close>

definition findRowByKey :: "ResourceRow list \<Rightarrow> string \<Rightarrow> ResourceRow option" where
  "findRowByKey rs key = find (\<lambda>r. rr_ResourceKey r = key) rs"

record Summary =
  su_Provider :: string
  su_ScopeID :: string
  su_InventoryCount :: int
  su_EmittingCount :: int
  su_CoveragePct :: real
  su_StrongMatchPct :: real
  su_WeakMatchPct :: real
  su_LastIndexUpdateAt :: gotime

definition coverage_count :: "int \<times> int \<times> gotime \<Rightarrow> ResourceRow \<Rightarrow> int \<times> int \<times> gotime" where
  "coverage_count acc r =
     (case acc of (strong, weak, lastUpdate) \<Rightarrow>
        (if rr_MatchConfidence r = MatchConfidenceWeak then strong else strong + 1,
         if rr_MatchConfidence r = MatchConfidenceWeak then weak + 1 else weak,
         if rr_UpdatedAt r > lastUpdate then rr_UpdatedAt r else lastUpdate))"

definition unflushed_rows :: "string \<Rightarrow> string \<Rightarrow> ResourceRow list \<Rightarrow> TraceIndex \<Rightarrow> ResourceRow list" where
  "unflushed_rows provider scopeID rs ix =
     filter (\<lambda>r. in_scope provider scopeID r \<and> findRowByKey rs (rr_ResourceKey r) = None) (map snd (ti_pendingRows ix))"

text \<open>A float64 is a real, and every conversion and operation rounds: the rounding of IEEE 754 is a parameter.\<close>

type_synonym rounding = "real \<Rightarrow> real"

definition float_pct :: "rounding \<Rightarrow> real \<Rightarrow> real \<Rightarrow> real" where
  "float_pct rnd x y = rnd (rnd (rnd x / rnd y) * 100)"

definition percentage :: "rounding \<Rightarrow> int \<Rightarrow> int \<Rightarrow> real" where
  "percentage rnd n whole = (if whole > 0 then float_pct rnd (real_of_int n) (real_of_int whole) else 0)"

definition Coverage :: "rounding \<Rightarrow> row_sort \<Rightarrow> gotime \<Rightarrow> string \<Rightarrow> string \<Rightarrow> int \<Rightarrow> TraceIndex \<Rightarrow> Summary" where
  "Coverage rnd srt now provider scopeID inventoryCount ix =
     (let rs = ListTraceResourcesByScope srt provider scopeID (now - 24 * hour) (ti_maxRows ix) ix;
          fresh = unflushed_rows provider scopeID rs ix;
          emitting = CountTraceResourcesByScope provider scopeID ix + int (length fresh);
          (strong, weak, lastUpdate) = foldl coverage_count (0, 0, 0) (rs @ fresh)
      in \<lparr>su_Provider = provider, su_ScopeID = scopeID, su_InventoryCount = inventoryCount, su_EmittingCount = emitting,
          su_CoveragePct = percentage rnd emitting inventoryCount, su_StrongMatchPct = percentage rnd strong (strong + weak),
          su_WeakMatchPct = percentage rnd weak (strong + weak), su_LastIndexUpdateAt = lastUpdate\<rparr>)"

definition LastSeenAt :: "string \<Rightarrow> TraceIndex \<Rightarrow> gotime option" where
  "LastSeenAt key ix =
     (case map_of (ti_pendingRows ix) key of
        Some r \<Rightarrow> Some (rr_LastSeenAt r)
      | None \<Rightarrow> map_option rr_LastSeenAt (GetTraceResource key ix))"

section \<open>Rounding\<close>

text \<open>What is used of the rounding: it keeps the order and the integers up to \<open>2\<^sup>5\<^sup>3\<close>.\<close>

definition float_rounding :: "rounding \<Rightarrow> bool" where
  "float_rounding rnd \<longleftrightarrow> mono rnd \<and> (\<forall>n :: int. \<bar>n\<bar> \<le> 2 ^ 53 \<longrightarrow> rnd (real_of_int n) = real_of_int n)"

lemma float_rounding_numeral:
  "float_rounding rnd \<Longrightarrow> rnd 0 = 0" "float_rounding rnd \<Longrightarrow> rnd 1 = 1" "float_rounding rnd \<Longrightarrow> rnd 100 = 100"
  unfolding float_rounding_def by (auto dest: spec [of _ "0 :: int"] spec [of _ "1 :: int"] spec [of _ "100 :: int"])

lemma float_pct_range:
  assumes "float_rounding rnd" "0 \<le> x" "x \<le> y" "1 \<le> y"
  shows "0 \<le> float_pct rnd x y \<and> float_pct rnd x y \<le> 100"
proof -
  have m: "rnd a \<le> rnd b" if "a \<le> b" for a b using assms(1) that by (simp add: float_rounding_def monoD)
  note fixed = float_rounding_numeral [OF assms(1)]
  have "0 \<le> rnd x" "rnd x \<le> rnd y" "1 \<le> rnd y" using m [OF assms(2)] m [OF assms(3)] m [OF assms(4)] by (simp_all add: fixed)
  then have "0 \<le> rnd x / rnd y" "rnd x / rnd y \<le> 1" by (simp_all add: divide_le_eq)
  then have "0 \<le> rnd (rnd x / rnd y)" "rnd (rnd x / rnd y) \<le> 1" using m [of 0] m [of _ 1] by (metis fixed(1), metis fixed(2))
  then have "rnd 0 \<le> rnd (rnd (rnd x / rnd y) * 100)" "rnd (rnd (rnd x / rnd y) * 100) \<le> rnd 100" by (intro m; simp)+
  then show ?thesis by (simp add: fixed float_pct_def)
qed

text \<open>Rounding down to a multiple of \<open>2\<^sup>-\<^sup>6\<^sup>0\<close>, a concrete instance.\<close>

definition fixed_point :: rounding where
  "fixed_point x = real_of_int \<lfloor>x * 2 ^ 60\<rfloor> / 2 ^ 60"

lemma float_rounding_fixed_point: "float_rounding fixed_point"
proof -
  have "\<lfloor>real_of_int n * 2 ^ 60\<rfloor> = n * 2 ^ 60" for n
    using floor_of_int [of "n * 2 ^ 60"] by (metis of_int_mult of_int_numeral of_int_power)
  then have "fixed_point (real_of_int n) = real_of_int n" for n by (simp add: fixed_point_def)
  moreover have "mono fixed_point" by (auto simp: fixed_point_def intro!: monoI divide_right_mono floor_mono mult_right_mono)
  ultimately show ?thesis by (simp add: float_rounding_def)
qed

end
