(* ===== verification/Trace_Coverage.thy ===== *)
theory Trace_Coverage
  imports Trace_Index
begin

text \<open>
  What the trace index promises: accumulating in memory and draining into the store are invisible, the store
  keeps the most recently seen resources within its cap, equal strong keys mean equal resources, the receiver
  and the inventory project the same key, and the coverage summary counts every resource of a scope once up to
  the stored rows it does not read back.
\<close>

section \<open>Well-formed row maps\<close>

definition rows_ok :: "rows \<Rightarrow> bool" where
  "rows_ok rows \<longleftrightarrow> distinct (map fst rows) \<and> (\<forall>(k, r) \<in> set rows. rr_ResourceKey r = k)"

definition index_ok :: "TraceIndex \<Rightarrow> bool" where
  "index_ok ix \<longleftrightarrow> rows_ok (ti_pendingRows ix) \<and> rows_ok (ti_traceResourceSeen ix)"

abbreviation keys :: "rows \<Rightarrow> string set" where
  "keys rows \<equiv> fst ` set rows"

definition lib_sort :: "row_sort \<Rightarrow> bool" where
  "lib_sort srt \<longleftrightarrow> (\<forall>f xs. mset (srt f xs) = mset xs \<and> sorted (map f (srt f xs)))"

lemma lib_sortD: "lib_sort srt \<Longrightarrow> mset (srt f xs) = mset xs" "lib_sort srt \<Longrightarrow> sorted (map f (srt f xs))"
  "lib_sort srt \<Longrightarrow> set (srt f xs) = set xs" "lib_sort srt \<Longrightarrow> length (srt f xs) = length xs"
  unfolding lib_sort_def by (auto dest: mset_eq_setD mset_eq_length)

lemma rows_ok_Nil [simp]: "rows_ok []"
  by (simp add: rows_ok_def)

lemma rows_ok_update: "rows_ok rows \<Longrightarrow> rr_ResourceKey r = k \<Longrightarrow> rows_ok (AList.update k r rows)"
  using set_update_subset [of k r rows] by (fastforce simp: rows_ok_def distinct_update)

lemma rows_ok_delete: "rows_ok rows \<Longrightarrow> rows_ok (AList.delete k rows)"
  using set_delete_subset [of k rows] by (fastforce simp: rows_ok_def distinct_delete)

lemma rows_ok_lookup: "rows_ok rows \<Longrightarrow> map_of rows k = Some r \<Longrightarrow> rr_ResourceKey r = k"
  by (fastforce simp: rows_ok_def dest: map_of_SomeD)

lemma rows_ok_keys: "rows_ok rows \<Longrightarrow> map rr_ResourceKey (map snd rows) = map fst rows"
  by (fastforce simp: rows_ok_def)

lemma rows_ok_find: "rows_ok rows \<Longrightarrow> r \<in> set (map snd rows) \<Longrightarrow> map_of rows (rr_ResourceKey r) = Some r"
  by (fastforce simp: rows_ok_def)

lemma rows_ok_length: "rows_ok rows \<Longrightarrow> length rows = card (keys rows)"
  by (metis distinct_card length_map rows_ok_def set_map)

section \<open>Upserts\<close>

lemma upserted_key: "rr_ResourceKey r = k \<Longrightarrow> (\<And>o'. old = Some o' \<Longrightarrow> rr_ResourceKey o' = k) \<Longrightarrow> rr_ResourceKey (upserted r old) = k"
  by (cases old) (auto simp: upserted_def)

lemma rows_ok_upsert: "rows_ok rows \<Longrightarrow> rows_ok (upsert_row rows r)"
  unfolding upsert_row_def using rows_ok_lookup [of rows] by (intro rows_ok_update upserted_key) auto

lemma rows_ok_upserts: "rows_ok rows \<Longrightarrow> rows_ok (foldl upsert_row rows rs)"
  by (induction rs arbitrary: rows) (simp_all add: rows_ok_upsert)

lemma keys_update: "keys (AList.update k v rows) = insert k (keys rows)"
  by (metis dom_map_of_conv_image_fst dom_fun_upd option.distinct(1) update_conv')

lemma keys_upserts: "keys (foldl upsert_row rows rs) = keys rows \<union> rr_ResourceKey ` set rs"
  by (induction rs arbitrary: rows) (auto simp: upsert_row_def keys_update simp del: image_ident)

lemma find_key_None: "k \<notin> rr_ResourceKey ` set rs \<Longrightarrow> find (\<lambda>r. rr_ResourceKey r = k) rs = None"
  by (auto simp: find_None_iff)

lemma upserts_lookup:
  assumes "distinct (map rr_ResourceKey rs)"
  shows "map_of (foldl upsert_row rows rs) k =
    (case find (\<lambda>r. rr_ResourceKey r = k) rs of None \<Rightarrow> map_of rows k | Some r \<Rightarrow> Some (upserted r (map_of rows k)))"
  using assms
proof (induction rs arbitrary: rows)
  case (Cons r rs)
  have "find (\<lambda>r'. rr_ResourceKey r' = rr_ResourceKey r) rs = None"
    using Cons.prems by (intro find_key_None) auto
  then show ?case using Cons by (auto simp: upsert_row_def split: option.splits)
qed simp

lemma find_sorted_pending:
  assumes "rows_ok rows"
  shows "find (\<lambda>r. rr_ResourceKey r = k) (sort_key rr_ResourceKey (map snd rows)) = map_of rows k"
proof (cases "map_of rows k")
  case None
  then have "k \<notin> set (map rr_ResourceKey (map snd rows))"
    using rows_ok_keys [OF assms] by (simp only: map_of_eq_None_iff set_map simp_thms)
  then show ?thesis using None by (intro trans [OF find_key_None]) (simp_all add: image_image)
next
  case (Some r)
  have r: "r \<in> set (map snd rows)" "rr_ResourceKey r = k"
    using map_of_SomeD [OF Some] rows_ok_lookup [OF assms Some] by force+
  then have "find (\<lambda>r. rr_ResourceKey r = k) (sort_key rr_ResourceKey (map snd rows)) \<noteq> None"
    unfolding find_None_iff set_sort by blast
  then obtain r' where r': "find (\<lambda>r. rr_ResourceKey r = k) (sort_key rr_ResourceKey (map snd rows)) = Some r'"
    by blast
  then have "r' \<in> set (sort_key rr_ResourceKey (map snd rows))" "rr_ResourceKey r' = k"
    unfolding find_Some_iff by (metis nth_mem)+
  then have "map_of rows k = Some r'" using rows_ok_find [OF assms, of r'] by simp
  then show ?thesis using r' by simp
qed

lemma distinct_sorted_pending:
  assumes "rows_ok rows" shows "distinct (map rr_ResourceKey (sort_key rr_ResourceKey (map snd rows)))"
proof -
  have "mset (map rr_ResourceKey (sort_key rr_ResourceKey (map snd rows))) = mset (map fst rows)"
    using rows_ok_keys [OF assms] by (metis mset_map mset_sort)
  then show ?thesis using assms by (metis mset_eq_imp_distinct_iff rows_ok_def)
qed

text \<open>What a flush leaves, and what it writes over: the rows before the cap is applied.\<close>

definition flushed_rows :: "TraceIndex \<Rightarrow> rows" where
  "flushed_rows ix = foldl upsert_row (ti_traceResourceSeen ix) (sort_key rr_ResourceKey (map snd (ti_pendingRows ix)))"

lemma flushed_rows_ok: "index_ok ix \<Longrightarrow> rows_ok (flushed_rows ix)"
  by (simp add: flushed_rows_def index_ok_def rows_ok_upserts)

lemma flushed_rows_lookup:
  "index_ok ix \<Longrightarrow> map_of (flushed_rows ix) k =
     (case map_of (ti_pendingRows ix) k of
        None \<Rightarrow> map_of (ti_traceResourceSeen ix) k
      | Some r \<Rightarrow> Some (upserted r (map_of (ti_traceResourceSeen ix) k)))"
  by (simp add: flushed_rows_def index_ok_def upserts_lookup distinct_sorted_pending find_sorted_pending)

lemma flushed_rows_keys: "index_ok ix \<Longrightarrow> keys (flushed_rows ix) = keys (ti_traceResourceSeen ix) \<union> keys (ti_pendingRows ix)"
proof -
  assume "index_ok ix"
  then have "rr_ResourceKey ` set (map snd (ti_pendingRows ix)) = keys (ti_pendingRows ix)"
    by (metis index_ok_def rows_ok_keys set_map)
  then show ?thesis by (simp add: flushed_rows_def keys_upserts)
qed

lemma Flush_eq:
  "snd (Flush srt ix) =
     (if ti_pendingRows ix = [] then ix
      else ix\<lparr>ti_pendingRows := [], ti_traceResourceSeen := foldl (\<lambda>m r. AList.delete (rr_ResourceKey r) m) (flushed_rows ix)
        (if int (length (flushed_rows ix)) > trace_cap ix then evict_rows srt (trace_cap ix) (flushed_rows ix) else [])\<rparr>)"
proof -
  have "trace_cap (ix\<lparr>ti_pendingRows := []\<rparr>) = trace_cap ix" by (simp add: trace_cap_def)
  moreover have "sort_key rr_ResourceKey (map snd (ti_pendingRows ix)) = [] \<longleftrightarrow> ti_pendingRows ix = []"
    by (metis length_0_conv length_map length_sort)
  ultimately show ?thesis by (auto simp: Flush_def UpsertTraceResources_def flushed_rows_def Let_def)
qed

section \<open>Batching is invisible\<close>

datatype index_event = Observed gotime ResourceObservation | Flushed

fun index_step :: "(attrs \<Rightarrow> string) \<Rightarrow> row_sort \<Rightarrow> TraceIndex \<Rightarrow> index_event \<Rightarrow> TraceIndex" where
  "index_step marshal srt ix (Observed clock obs) = Observe marshal clock obs ix"
| "index_step marshal srt ix Flushed = snd (Flush srt ix)"

abbreviation index_run :: "(attrs \<Rightarrow> string) \<Rightarrow> row_sort \<Rightarrow> TraceIndex \<Rightarrow> index_event list \<Rightarrow> TraceIndex" where
  "index_run marshal srt \<equiv> foldl (index_step marshal srt)"

text \<open>The reference: the observations of a key in order, and their totals, first and latest time.\<close>

fun sighting :: "index_event \<Rightarrow> (string \<times> gotime \<times> int \<times> int) option" where
  "sighting (Observed clock obs) =
     map_option (\<lambda>rk. (rk_Key rk, obs_time clock obs, ob_SpanCount obs, ob_RootSpanCount obs)) (ComputeResourceKey (ob_Attributes obs))"
| "sighting Flushed = None"

definition sightings :: "index_event list \<Rightarrow> string \<Rightarrow> (gotime \<times> int \<times> int) list" where
  "sightings es k = map snd (filter (\<lambda>x. fst x = k) (List.map_filter sighting es))"

type_synonym tally = "int \<times> int \<times> gotime \<times> gotime"

definition history_tally :: "(gotime \<times> int \<times> int) list \<Rightarrow> tally option" where
  "history_tally xs =
     (if xs = [] then None
      else Some (int64 (\<Sum>(t, n, m) \<leftarrow> xs. n), int64 (\<Sum>(t, n, m) \<leftarrow> xs. m), fst (hd xs), Max (fst ` set xs)))"

definition row_tally :: "ResourceRow \<Rightarrow> tally" where
  "row_tally r = (rr_SpanCount24h r, rr_RootSpanCount24h r, rr_FirstSeenAt r, rr_LastSeenAt r)"

fun join_tally :: "tally option \<Rightarrow> tally option \<Rightarrow> tally option" where
  "join_tally None y = y"
| "join_tally x None = x"
| "join_tally (Some (n, m, f, l)) (Some (n', m', f', l')) = Some (int64 (n + n'), int64 (m + m'), f, max l l')"

definition index_tally :: "TraceIndex \<Rightarrow> string \<Rightarrow> tally option" where
  "index_tally ix k = join_tally (map_option row_tally (map_of (ti_traceResourceSeen ix) k)) (map_option row_tally (map_of (ti_pendingRows ix) k))"

lemma join_tally_None [simp]: "join_tally x None = x"
  by (cases x) simp_all

lemma join_tally_assoc: "join_tally (join_tally x y) z = join_tally x (join_tally y z)"
  by (cases x; cases y; cases z) (auto simp: max.assoc add.assoc)

lemma tally_upserted: "Some (row_tally (upserted r old)) = join_tally (map_option row_tally old) (Some (row_tally r))"
  by (cases old) (auto simp: upserted_def row_tally_def max_def)

lemma tally_pending_row:
  "Some (row_tally (pending_row marshal ts rk obs old)) =
     join_tally (map_option row_tally old) (Some (ob_SpanCount obs, ob_RootSpanCount obs, ts, ts))"
  by (cases old) (auto simp: pending_row_def row_tally_def max_def Let_def)

lemma history_tally_snoc:
  assumes "in_int64 n" "in_int64 m"
  shows "history_tally (xs @ [(t, n, m)]) = join_tally (history_tally xs) (Some (n, m, t, t))"
proof (cases "xs = []")
  case False
  then have "Max (insert t (fst ` set xs)) = max (Max (fst ` set xs)) t" by (simp add: max.commute)
  then show ?thesis using False by (simp add: history_tally_def algebra_simps)
qed (use assms in \<open>simp add: history_tally_def\<close>)

lemma pending_row_key: "(\<And>r. old = Some r \<Longrightarrow> rr_ResourceKey r = rk_Key rk) \<Longrightarrow> rr_ResourceKey (pending_row marshal ts rk obs old) = rk_Key rk"
  by (cases old) (auto simp: pending_row_def Let_def)

lemma deletes_ok: "rows_ok rows \<Longrightarrow> rows_ok (foldl (\<lambda>m r. AList.delete (rr_ResourceKey r) m) rows rs)"
  by (induction rs arbitrary: rows) (simp_all add: rows_ok_delete)

lemma index_ok_step: "index_ok ix \<Longrightarrow> index_ok (index_step marshal srt ix e)"
proof (cases e)
  case (Observed clock obs)
  assume "index_ok ix"
  then show ?thesis using Observed rows_ok_lookup [of "ti_pendingRows ix"]
    by (auto simp: Observe_def index_ok_def split: option.split intro!: rows_ok_update pending_row_key)
next
  case Flushed
  assume "index_ok ix"
  then show ?thesis using Flushed flushed_rows_ok by (simp add: Flush_eq index_ok_def deletes_ok)
qed

lemma index_ok_run: "index_ok ix \<Longrightarrow> index_ok (index_run marshal srt ix es)"
  by (induction es arbitrary: ix) (simp_all add: index_ok_step)

lemma index_ok_New: "index_ok (NewIndex m c)"
  by (simp add: NewIndex_def index_ok_def)

text \<open>The keys a run may hold, and the cap, which no step changes.\<close>

definition seen_keys :: "index_event list \<Rightarrow> string set" where
  "seen_keys es = fst ` set (List.map_filter sighting es)"

lemma trace_cap_step [simp]: "trace_cap (index_step marshal srt ix e) = trace_cap ix"
  by (cases e) (auto simp: Observe_def Flush_eq trace_cap_def split: option.split)

lemma trace_cap_run [simp]: "trace_cap (index_run marshal srt ix es) = trace_cap ix"
  by (induction es arbitrary: ix) simp_all

lemma Observe_tally:
  "index_tally (Observe marshal clock obs ix) k =
     (case sighting (Observed clock obs) of
        None \<Rightarrow> index_tally ix k
      | Some (k', t, n, m) \<Rightarrow> if k' = k then join_tally (index_tally ix k) (Some (n, m, t, t)) else index_tally ix k)"
  by (auto simp: Observe_def index_tally_def tally_pending_row join_tally_assoc split: option.split)

lemma Flush_tally:
  assumes "index_ok ix" "int (card (keys (ti_traceResourceSeen ix) \<union> keys (ti_pendingRows ix))) \<le> trace_cap ix"
  shows "index_tally (snd (Flush srt ix)) k = index_tally ix k"
    "keys (ti_traceResourceSeen (snd (Flush srt ix))) \<union> keys (ti_pendingRows (snd (Flush srt ix)))
       \<subseteq> keys (ti_traceResourceSeen ix) \<union> keys (ti_pendingRows ix)"
proof -
  have "\<not> int (length (flushed_rows ix)) > trace_cap ix"
    using assms flushed_rows_keys [OF assms(1)] rows_ok_length [OF flushed_rows_ok [OF assms(1)]] by simp
  then have *: "snd (Flush srt ix) = (if ti_pendingRows ix = [] then ix else ix\<lparr>ti_pendingRows := [], ti_traceResourceSeen := flushed_rows ix\<rparr>)"
    by (simp add: Flush_eq)
  show "index_tally (snd (Flush srt ix)) k = index_tally ix k"
    unfolding * by (simp add: index_tally_def flushed_rows_lookup [OF assms(1)] tally_upserted split: option.split)
  show "keys (ti_traceResourceSeen (snd (Flush srt ix))) \<union> keys (ti_pendingRows (snd (Flush srt ix))) \<subseteq> keys (ti_traceResourceSeen ix) \<union> keys (ti_pendingRows ix)"
    unfolding * using flushed_rows_keys [OF assms(1)] by auto
qed

lemma sightings_snoc:
  "sightings (es @ [e]) k =
     (case sighting e of None \<Rightarrow> sightings es k | Some x \<Rightarrow> if fst x = k then sightings es k @ [snd x] else sightings es k)"
  by (simp add: sightings_def List.map_filter_def split: option.split)

lemma seen_keys_snoc: "seen_keys (es @ [e]) = seen_keys es \<union> (case sighting e of None \<Rightarrow> {} | Some x \<Rightarrow> {fst x})"
  by (auto simp: seen_keys_def List.map_filter_def split: option.split)

definition counts_fit :: "index_event \<Rightarrow> bool" where
  "counts_fit e \<longleftrightarrow> (case sighting e of None \<Rightarrow> True | Some (k, t, n, m) \<Rightarrow> in_int64 n \<and> in_int64 m)"

lemma run_tally:
  assumes "int (card (seen_keys es)) \<le> trace_cap (NewIndex mx c)" "list_all counts_fit es"
  shows "index_tally (index_run marshal srt (NewIndex mx c) es) k = history_tally (sightings es k)
    \<and> keys (ti_traceResourceSeen (index_run marshal srt (NewIndex mx c) es)) \<union> keys (ti_pendingRows (index_run marshal srt (NewIndex mx c) es))
      \<subseteq> seen_keys es"
  using assms
proof (induction es rule: rev_induct)
  case Nil
  show ?case by (simp add: NewIndex_def index_tally_def sightings_def history_tally_def List.map_filter_def)
next
  case (snoc e es)
  define ix where "ix = index_run marshal srt (NewIndex mx c) es"
  have fin: "finite (seen_keys es)" "finite (seen_keys (es @ [e]))" by (simp_all add: seen_keys_def)
  then have less: "card (seen_keys es) \<le> card (seen_keys (es @ [e]))" by (intro card_mono) (auto simp: seen_keys_snoc)
  with snoc have IH: "index_tally ix k = history_tally (sightings es k)" "keys (ti_traceResourceSeen ix) \<union> keys (ti_pendingRows ix) \<subseteq> seen_keys es"
    unfolding ix_def by auto
  have ok: "index_ok ix" unfolding ix_def by (intro index_ok_run index_ok_New)
  have "card (keys (ti_traceResourceSeen ix) \<union> keys (ti_pendingRows ix)) \<le> card (seen_keys es)" by (rule card_mono [OF fin(1) IH(2)])
  with less snoc.prems(1) have fits: "int (card (keys (ti_traceResourceSeen ix) \<union> keys (ti_pendingRows ix))) \<le> trace_cap ix"
    unfolding ix_def by simp
  have "index_tally (index_step marshal srt ix e) k = history_tally (sightings (es @ [e]) k)"
    using snoc.prems(2) IH(1) Flush_tally(1) [OF ok fits]
    by (cases e) (auto simp: Observe_tally sightings_snoc counts_fit_def history_tally_snoc split: option.splits)
  moreover have "keys (ti_traceResourceSeen (index_step marshal srt ix e)) \<union> keys (ti_pendingRows (index_step marshal srt ix e)) \<subseteq> seen_keys (es @ [e])"
  proof (cases e)
    case (Observed clock obs)
    then show ?thesis using IH(2) by (auto simp: seen_keys_snoc Observe_def keys_update split: option.splits)
  next
    case Flushed
    then show ?thesis using IH(2) Flush_tally(2) [OF ok fits, of srt] by (simp add: seen_keys_snoc) blast
  qed
  ultimately show ?case by (simp add: ix_def)
qed

lemma Observe_lookup:
  "map_of (ti_pendingRows (Observe marshal clock obs ix)) k =
     (case ComputeResourceKey (ob_Attributes obs) of
        None \<Rightarrow> map_of (ti_pendingRows ix) k
      | Some rk \<Rightarrow> if rk_Key rk = k then Some (pending_row marshal (obs_time clock obs) rk obs (map_of (ti_pendingRows ix) k))
          else map_of (ti_pendingRows ix) k)"
  by (auto simp: Observe_def split: option.split)

lemma pending_last:
  assumes "sorted (map fst (sightings es k))" "map_of (ti_pendingRows (index_run marshal srt (NewIndex mx c) es)) k = Some r"
  shows "sightings es k \<noteq> [] \<and> rr_LastSeenAt r = fst (last (sightings es k))"
  using assms
proof (induction es arbitrary: r rule: rev_induct)
  case Nil
  then show ?case by (simp add: NewIndex_def)
next
  case (snoc e es)
  have sorted: "sorted (map fst (sightings es k))"
    using snoc.prems(1) by (auto simp: sightings_snoc sorted_append split: option.splits if_splits)
  let ?ix = "index_run marshal srt (NewIndex mx c) es"
  show ?case
  proof (cases e)
    case Flushed
    then have "ti_pendingRows (snd (Flush srt ?ix)) = []" by (simp add: Flush_eq)
    then show ?thesis using snoc.prems(2) Flushed by simp
  next
    case (Observed clock obs)
    show ?thesis
    proof (cases "sighting e")
      case None
      then show ?thesis using snoc.IH [OF sorted] snoc.prems(2) Observed by (auto simp: Observe_lookup sightings_snoc split: option.splits)
    next
      case (Some x)
      obtain rk where rk: "ComputeResourceKey (ob_Attributes obs) = Some rk" "x = (rk_Key rk, obs_time clock obs, ob_SpanCount obs, ob_RootSpanCount obs)"
        using Some Observed by (auto split: option.splits)
      have r: "if rk_Key rk = k then r = pending_row marshal (obs_time clock obs) rk obs (map_of (ti_pendingRows ?ix) k) else map_of (ti_pendingRows ?ix) k = Some r"
        using snoc.prems(2) rk(1) Observed by (auto simp: Observe_lookup)
      show ?thesis
      proof (cases "rk_Key rk = k")
        case True
        have "\<forall>old. map_of (ti_pendingRows ?ix) k = Some old \<longrightarrow> rr_LastSeenAt old \<le> obs_time clock obs"
          using snoc.IH [OF sorted] snoc.prems(1) Some rk(2) True by (auto simp: sightings_snoc sorted_append)
        then show ?thesis using r True Some rk(2) by (auto simp: sightings_snoc pending_row_def Let_def split: option.splits)
      qed (use r snoc.IH [OF sorted] Some rk(2) in \<open>auto simp: sightings_snoc\<close>)
    qed
  qed
qed

lemma Max_sorted_last: "sorted (map fst xs) \<Longrightarrow> xs \<noteq> [] \<Longrightarrow> Max (fst ` set xs) = fst (last xs)"
  by (induction xs rule: rev_induct) (auto simp: sorted_append intro!: Max_eqI)

text \<open>
  C23: while the resources ever observed fit into the store's cap, the index is a faithful ledger of the
  observation history, however observations and flushes interleave: for every key the stored row joined with
  the pending one has the totals of all its observations, the time of the first and the latest time (the
  totals at the width of \<open>int64\<close>), keys never observed have no row, and when the observations of a key arrive
  in the order of their times \<open>LastSeenAt\<close> answers the time of the last one.  The totals are of the whole history:
  the fields are called \<open>SpanCount24h\<close> and \<open>RootSpanCount24h\<close> and documented as counts of a rolling day, but nothing
  is ever subtracted from them.
\<close>

theorem index_matches_history:
  assumes "int (card (seen_keys es)) \<le> trace_cap (NewIndex mx c)" "list_all counts_fit es"
    and "ix = index_run marshal srt (NewIndex mx c) es"
  shows "index_tally ix k = history_tally (sightings es k)
    \<and> (sorted (map fst (sightings es k)) \<longrightarrow>
         LastSeenAt k ix = (if sightings es k = [] then None else Some (fst (last (sightings es k)))))"
proof -
  have tally: "index_tally ix k = history_tally (sightings es k)" using run_tally [OF assms(1,2)] assms(3) by blast
  moreover have "LastSeenAt k ix = (if sightings es k = [] then None else Some (fst (last (sightings es k))))"
    if sorted: "sorted (map fst (sightings es k))"
  proof (cases "map_of (ti_pendingRows ix) k")
    case (Some r)
    then show ?thesis using pending_last [OF sorted, of marshal srt mx c r] assms(3) by (simp add: LastSeenAt_def)
  next
    case None
    then have "map_option row_tally (map_of (ti_traceResourceSeen ix) k) = history_tally (sightings es k)"
      using tally by (simp add: index_tally_def)
    then show ?thesis using None Max_sorted_last [OF sorted]
      by (auto simp: LastSeenAt_def GetTraceResource_def history_tally_def row_tally_def split: if_splits)
  qed
  ultimately show ?thesis by blast
qed

section \<open>The cap\<close>

lemma deletes_lookup:
  "map_of (foldl (\<lambda>m r. AList.delete (rr_ResourceKey r) m) rows rs) k = (if k \<in> rr_ResourceKey ` set rs then None else map_of rows k)"
  by (induction rs arbitrary: rows) auto

lemma tally_flushed: "index_ok ix \<Longrightarrow> map_option row_tally (map_of (flushed_rows ix) k) = index_tally ix k"
  by (simp add: index_tally_def flushed_rows_lookup tally_upserted split: option.split)

text \<open>Evicting \<open>n\<close> rows in the order of their last sighting leaves the others, which were seen no earlier.\<close>

lemma evict_oldest:
  assumes "lib_sort srt" "rows_ok rows" "n \<le> length rows"
  defines "gone \<equiv> take n (srt rr_LastSeenAt (map snd rows))"
  defines "kept \<equiv> foldl (\<lambda>m r. AList.delete (rr_ResourceKey r) m) rows gone"
  shows "length kept = length rows - n" "length gone = n"
    and "map_of kept k = None \<or> map_of kept k = map_of rows k"
    and "map_of rows k = Some r \<Longrightarrow> map_of kept k = None \<Longrightarrow> map_of kept k' = Some r' \<Longrightarrow> rr_LastSeenAt r \<le> rr_LastSeenAt r'"
proof -
  let ?all = "srt rr_LastSeenAt (map snd rows)"
  have len: "length ?all = length rows" and set: "set ?all = snd ` set rows" using lib_sortD [OF assms(1)] by simp_all
  show length: "length gone = n" using len assms(3) by (simp add: gone_def)
  have "mset (map rr_ResourceKey ?all) = mset (map fst rows)" using lib_sortD(1) [OF assms(1)] rows_ok_keys [OF assms(2)] by (metis mset_map)
  then have dist: "distinct (map rr_ResourceKey ?all)" using assms(2) by (metis mset_eq_imp_distinct_iff rows_ok_def)
  have dg: "distinct (map rr_ResourceKey gone)" unfolding gone_def using dist by (simp add: take_map [symmetric])
  have lookup: "map_of kept k = (if k \<in> rr_ResourceKey ` set gone then None else map_of rows k)" for k by (simp add: kept_def deletes_lookup)
  then show "map_of kept k = None \<or> map_of kept k = map_of rows k" by simp
  have "set gone \<subseteq> snd ` set rows" using set set_take_subset [of n ?all] by (auto simp: gone_def)
  then have "map_of rows (rr_ResourceKey g) = Some g" if "g \<in> set gone" for g using rows_ok_find [OF assms(2), of g] that by auto
  then have sub: "rr_ResourceKey ` set gone \<subseteq> keys rows" unfolding dom_map_of_conv_image_fst [symmetric] by blast
  have "keys kept = keys rows - rr_ResourceKey ` set gone" unfolding dom_map_of_conv_image_fst [symmetric] using lookup by (auto simp: dom_def split: if_splits)
  then have "card (keys kept) = card (keys rows) - card (rr_ResourceKey ` set gone)" using sub by (simp add: card_Diff_subset)
  moreover have "card (rr_ResourceKey ` set gone) = n" using distinct_card [OF dg] length by simp
  moreover have "rows_ok kept" unfolding kept_def using assms(2) by (rule deletes_ok)
  ultimately show "length kept = length rows - n" using rows_ok_length assms(2) by metis
  assume r: "map_of rows k = Some r" "map_of kept k = None" and r': "map_of kept k' = Some r'"
  have "r \<in> set gone"
  proof -
    obtain g where g: "g \<in> set gone" "rr_ResourceKey g = k" using r lookup by (metis image_iff option.distinct(1))
    then have "g \<in> set (map snd rows)" using \<open>set gone \<subseteq> snd ` set rows\<close> by auto
    then show ?thesis using rows_ok_find [OF assms(2)] g r(1) by fastforce
  qed
  moreover have "r' \<in> set (drop n ?all)"
  proof -
    have *: "map_of rows k' = Some r'" "k' \<notin> rr_ResourceKey ` set gone" using r' lookup by (metis option.distinct(1))+
    then have "r' \<notin> set gone" using rows_ok_lookup [OF assms(2)] by blast
    moreover have "r' \<in> set (take n ?all) \<union> set (drop n ?all)" using map_of_SomeD [OF *(1)] set
      by (metis append_take_drop_id image_eqI set_append snd_conv)
    ultimately show ?thesis by (simp add: gone_def)
  qed
  moreover have "sorted (map rr_LastSeenAt (take n ?all @ drop n ?all))" using lib_sortD(2) [OF assms(1)] by simp
  ultimately show "rr_LastSeenAt r \<le> rr_LastSeenAt r'" by (auto simp: gone_def sorted_append simp del: append_take_drop_id)
qed

lemma trace_cap_pos: "0 < trace_cap ix"
  by (simp add: trace_cap_def)

lemma Flush_within_cap:
  assumes "lib_sort srt" "index_ok ix" "int (length (ti_traceResourceSeen ix)) \<le> trace_cap ix"
  shows "int (length (ti_traceResourceSeen (snd (Flush srt ix)))) \<le> trace_cap ix"
  using assms(3) evict_oldest(1) [OF assms(1) flushed_rows_ok [OF assms(2)], of "nat (int (length (flushed_rows ix)) - trace_cap ix)"]
    trace_cap_pos [of ix] by (auto simp: Flush_eq evict_rows_def)

lemma run_within_cap:
  "lib_sort srt \<Longrightarrow> int (length (ti_traceResourceSeen (index_run marshal srt (NewIndex mx c) es))) \<le> trace_cap (NewIndex mx c)"
proof (induction es rule: rev_induct)
  case Nil
  then show ?case using trace_cap_pos [of "NewIndex mx c"] by (simp add: NewIndex_def)
next
  case (snoc e es)
  then show ?case using Flush_within_cap [OF snoc.prems, of "index_run marshal srt (NewIndex mx c) es"]
    by (cases e) (auto simp: Observe_def index_ok_run index_ok_New split: option.split)
qed

lemma flushed_keys_tally: "index_ok ix \<Longrightarrow> keys (flushed_rows ix) = {k. index_tally ix k \<noteq> None}"
  unfolding dom_map_of_conv_image_fst [symmetric] by (simp add: dom_def tally_flushed [symmetric])

text \<open>
  C24: the store never holds more rows than its cap, and a flush evicts exactly the excess, oldest first:
  of the resources known before the flush, as many are dropped as exceed the cap, every dropped one was
  last seen no later than every kept one, and a kept row carries the joined totals and times of its
  stored and pending part.
\<close>

theorem store_keeps_recent:
  assumes "lib_sort srt" "ix = index_run marshal srt (NewIndex mx c) es" "Flush srt ix = ((written, evicted), ix')"
  shows "int (length (ti_traceResourceSeen ix')) \<le> trace_cap ix \<and> ti_pendingRows ix' = []
    \<and> written = int (length (ti_pendingRows ix))
    \<and> evicted = max 0 (int (card {k. index_tally ix k \<noteq> None}) - trace_cap ix)
    \<and> (\<forall>k r. GetTraceResource k ix' = Some r \<longrightarrow> index_tally ix k = Some (row_tally r))
    \<and> (\<forall>k n m f l k' r. index_tally ix k = Some (n, m, f, l) \<and> GetTraceResource k ix' = None \<and> GetTraceResource k' ix' = Some r
         \<longrightarrow> l \<le> rr_LastSeenAt r)"
proof -
  have ok: "index_ok ix" using assms(2) by (simp add: index_ok_run index_ok_New)
  have cap: "int (length (ti_traceResourceSeen ix)) \<le> trace_cap ix" using run_within_cap [OF assms(1)] assms(2) by simp
  define F where "F = flushed_rows ix"
  define n where "n = nat (int (length F) - trace_cap ix)"
  have F: "rows_ok F" "map_option row_tally (map_of F k) = index_tally ix k" for k
    using flushed_rows_ok tally_flushed ok by (simp_all add: F_def)
  have size: "card {k. index_tally ix k \<noteq> None} = length F" using flushed_keys_tally [OF ok] rows_ok_length [OF F(1)] by (simp add: F_def)
  have "n \<le> length F" using trace_cap_pos [of ix] by (simp add: n_def)
  note E = evict_oldest [OF assms(1) F(1) this]
  have ix': "ix' = snd (Flush srt ix)" using assms(3) by simp
  have quiet: "F = ti_traceResourceSeen ix" if "ti_pendingRows ix = []" using that by (simp add: F_def flushed_rows_def)
  have rows: "ti_traceResourceSeen ix' = foldl (\<lambda>m r. AList.delete (rr_ResourceKey r) m) F (take n (srt rr_LastSeenAt (map snd F)))"
    using quiet cap by (auto simp: ix' Flush_eq evict_rows_def F_def n_def)
  have "int (length (ti_traceResourceSeen ix')) \<le> trace_cap ix" "ti_pendingRows ix' = []"
    using Flush_within_cap [OF assms(1) ok cap] by (simp_all add: ix' Flush_eq)
  moreover have "written = int (length (ti_pendingRows ix))" using assms(3) by (auto simp: Flush_def Let_def split: if_splits prod.splits)
  moreover have "evicted = int n"
  proof (cases "ti_pendingRows ix = []")
    case True
    then show ?thesis using assms(3) quiet cap by (simp add: Flush_def n_def)
  next
    case False
    then have "sort_key rr_ResourceKey (map snd (ti_pendingRows ix)) \<noteq> []" by (metis length_0_conv length_map length_sort)
    then have "evicted = int (length (if int (length F) > trace_cap ix then evict_rows srt (trace_cap ix) F else []))"
      using False assms(3) by (auto simp: Flush_def UpsertTraceResources_def Let_def F_def flushed_rows_def trace_cap_def split: prod.splits)
    then show ?thesis using E(2) by (auto simp: evict_rows_def n_def)
  qed
  moreover have "int n = max 0 (int (card {k. index_tally ix k \<noteq> None}) - trace_cap ix)" unfolding size n_def by simp
  moreover have "index_tally ix k = Some (row_tally r)" if "GetTraceResource k ix' = Some r" for k r
  proof -
    have "map_of F k = Some r" using that E(3) [of k] unfolding GetTraceResource_def rows by auto
    then show ?thesis using F(2) [of k] by simp
  qed
  moreover have "l \<le> rr_LastSeenAt r"
    if t: "index_tally ix k = Some (m, m', f, l)" "GetTraceResource k ix' = None" "GetTraceResource k' ix' = Some r" for k k' m m' f l r
  proof -
    obtain q where "map_of F k = Some q" "rr_LastSeenAt q = l" using t(1) F(2) [of k] by (auto simp: row_tally_def)
    then show ?thesis using E(4) [of k q k' r] t(2,3) by (simp add: GetTraceResource_def rows)
  qed
  ultimately show ?thesis by metis
qed

section \<open>Keys and the inventory\<close>

text \<open>The parts of a key between its colons.\<close>

fun parts :: "string \<Rightarrow> string list" where
  "parts [] = [[]]"
| "parts (c # s) = (if c = CHR '':'' then [] # parts s else (case parts s of [] \<Rightarrow> [[c]] | p # ps \<Rightarrow> (c # p) # ps))"

lemma parts_not_Nil [simp]: "parts s \<noteq> []"
  by (cases s) (auto split: list.split)

lemma parts_plain: "CHR '':'' \<notin> set s \<Longrightarrow> parts s = [s]"
  by (induction s) auto

lemma parts_append: "CHR '':'' \<notin> set s \<Longrightarrow> parts (s @ CHR '':'' # t) = s # parts t"
  by (induction s) auto

lemma Join_parts: "Join '':'' (parts s) = s"
proof (induction s)
  case (Cons c s)
  obtain p ps where "parts s = p # ps" by (cases "parts s") auto
  then show ?case using Cons by (cases ps) auto
qed simp

lemma parts_inj: "parts s = parts t \<longleftrightarrow> s = t"
  by (metis Join_parts)

text \<open>An inventory row as the scanners hand it over, and the key the annotation looks up.\<close>

datatype inventory_row = Instance string string string | Cluster string string string | Database string string string string

fun inventory_key :: "inventory_row \<Rightarrow> string" where
  "inventory_key (Instance p sc i) = ProjectComputeKey p sc i"
| "inventory_key (Cluster p sc c) = ProjectClusterKey p sc c"
| "inventory_key (Database p sc d n) = ProjectDatabaseKey p sc d n"

abbreviation colon_free :: "string \<Rightarrow> bool" where
  "colon_free s \<equiv> CHR '':'' \<notin> set s"

fun plain_row :: "inventory_row \<Rightarrow> bool" where
  "plain_row (Instance p sc i) \<longleftrightarrow> (\<forall>x \<in> {p, sc, i}. TrimSpace x \<noteq> [] \<and> colon_free (TrimSpace x))"
| "plain_row (Cluster p sc c) \<longleftrightarrow> (\<forall>x \<in> {p, sc, c}. TrimSpace x \<noteq> [] \<and> colon_free (TrimSpace x))"
| "plain_row (Database p sc d n) \<longleftrightarrow> (\<forall>x \<in> {p, sc, d, n}. TrimSpace x \<noteq> [] \<and> colon_free (TrimSpace x))"

text \<open>The resource that the attributes of a batch name, by the first identifier they carry.\<close>

definition names_row :: "attrs \<Rightarrow> inventory_row \<Rightarrow> bool" where
  "names_row attrs row \<longleftrightarrow>
     (let v = firstNonEmpty attrs; p = normalizeProvider (v ''cloud.provider'') in
      v ''cloud.account.id'' \<noteq> [] \<and>
      (case row of
         Instance p' sc i \<Rightarrow> TrimSpace p' = p \<and> TrimSpace sc = v ''cloud.account.id'' \<and> TrimSpace i = v ''host.id''
       | Cluster p' sc c \<Rightarrow> v ''host.id'' = [] \<and> TrimSpace p' = p \<and> TrimSpace sc = v ''cloud.account.id'' \<and> TrimSpace c = v ''k8s.cluster.name''
       | Database p' sc d n \<Rightarrow> v ''host.id'' = [] \<and> v ''k8s.cluster.name'' = [] \<and> TrimSpace p' = p
           \<and> TrimSpace sc = v ''cloud.account.id'' \<and> TrimSpace d = v ''db.system'' \<and> TrimSpace n = v ''db.name''))"

definition plain_attrs :: "attrs \<Rightarrow> bool" where
  "plain_attrs attrs \<longleftrightarrow> firstNonEmpty attrs ''cloud.resource_id'' = []
     \<and> (\<forall>k \<in> {''cloud.account.id'', ''host.id'', ''k8s.cluster.name'', ''db.system'', ''db.name'', ''host.name'', ''service.name''}.
          colon_free (firstNonEmpty attrs k))"

lemma colon_free_provider: "colon_free (normalizeProvider p)"
  by (simp add: normalizeProvider_def Let_def)

lemma parts_key [simp]:
  "colon_free p \<Longrightarrow> colon_free sc \<Longrightarrow> colon_free i \<Longrightarrow> parts (p @ '':'' @ sc @ '':'' @ i) = [p, sc, i]"
  "colon_free p \<Longrightarrow> colon_free sc \<Longrightarrow> colon_free i \<Longrightarrow> parts (p @ '':'' @ sc @ '':k8s:'' @ i) = [p, sc, ''k8s'', i]"
  "colon_free p \<Longrightarrow> colon_free sc \<Longrightarrow> colon_free d \<Longrightarrow> colon_free n \<Longrightarrow> parts (p @ '':'' @ sc @ '':db:'' @ d @ '':'' @ n) = [p, sc, ''db'', d, n]"
  "colon_free i \<Longrightarrow> parts (''host:'' @ i) = [''host'', i]" "colon_free i \<Longrightarrow> parts (''service:'' @ i) = [''service'', i]"
  by (simp_all add: parts_append parts_plain)

lemma parts_inventory_key:
  "plain_row row \<Longrightarrow> parts (inventory_key row) =
     (case row of
        Instance p sc i \<Rightarrow> [TrimSpace p, TrimSpace sc, TrimSpace i]
      | Cluster p sc c \<Rightarrow> [TrimSpace p, TrimSpace sc, ''k8s'', TrimSpace c]
      | Database p sc d n \<Rightarrow> [TrimSpace p, TrimSpace sc, ''db'', TrimSpace d, TrimSpace n])"
  by (cases row) (simp_all add: ProjectComputeKey_def ProjectClusterKey_def ProjectDatabaseKey_def Let_def del: append_Cons append_assoc)

lemma first_of_chain:
  assumes "Some k = z" "\<not> b"
    and "z = (if a then None else if b then Some x else if c1 then Some x1 else if c2 then Some x2 else if c3 then Some x3 else if c4 then Some x4 else if c5 then Some x5 else None)"
  shows "k = (if c1 then x1 else if c2 then x2 else if c3 then x3 else if c4 then x4 else x5)"
  using assms by (simp split: if_split_asm)

lemma parts_resource_key:
  assumes "plain_attrs attrs" "ComputeResourceKey attrs = Some rk"
  shows "parts (rk_Key rk) =
    (let v = firstNonEmpty attrs; p = normalizeProvider (v ''cloud.provider''); sc = v ''cloud.account.id'' in
     if v ''host.id'' \<noteq> [] \<and> sc \<noteq> [] then [p, sc, v ''host.id'']
     else if v ''k8s.cluster.name'' \<noteq> [] \<and> sc \<noteq> [] then [p, sc, ''k8s'', v ''k8s.cluster.name'']
     else if v ''db.system'' \<noteq> [] \<and> v ''db.name'' \<noteq> [] \<and> sc \<noteq> [] then [p, sc, ''db'', v ''db.system'', v ''db.name'']
     else if v ''host.name'' \<noteq> [] then [''host'', v ''host.name''] else [''service'', v ''service.name''])"
proof -
  define v where "v = firstNonEmpty attrs"
  define p where "p = normalizeProvider (v ''cloud.provider'')"
  have free: "colon_free (v ''cloud.account.id'')" "colon_free (v ''host.id'')" "colon_free (v ''k8s.cluster.name'')"
    "colon_free (v ''db.system'')" "colon_free (v ''db.name'')" "colon_free (v ''host.name'')" "colon_free (v ''service.name'')"
    "colon_free p" "v ''cloud.resource_id'' = []"
    using assms(1) by (simp_all add: plain_attrs_def v_def p_def colon_free_provider)
  have key: "rk_Key rk =
    (if v ''host.id'' \<noteq> [] \<and> v ''cloud.account.id'' \<noteq> [] then p @ '':'' @ v ''cloud.account.id'' @ '':'' @ v ''host.id''
     else if v ''k8s.cluster.name'' \<noteq> [] \<and> v ''cloud.account.id'' \<noteq> []
     then p @ '':'' @ v ''cloud.account.id'' @ '':k8s:'' @ v ''k8s.cluster.name''
     else if v ''db.system'' \<noteq> [] \<and> v ''db.name'' \<noteq> [] \<and> v ''cloud.account.id'' \<noteq> []
     then p @ '':'' @ v ''cloud.account.id'' @ '':db:'' @ v ''db.system'' @ '':'' @ v ''db.name''
     else if v ''host.name'' \<noteq> [] then ''host:'' @ v ''host.name'' else ''service:'' @ v ''service.name'')"
  proof (rule first_of_chain)
    show "Some (rk_Key rk) = map_option rk_Key (ComputeResourceKey attrs)" by (simp add: assms(2))
    show "\<not> v ''cloud.resource_id'' \<noteq> []" using free(9) by simp
  qed (simp only: ComputeResourceKey_def Let_def v_def p_def if_distrib [of "map_option rk_Key"] option.map ResourceKey.simps)
  have "parts (rk_Key rk) =
    (if v ''host.id'' \<noteq> [] \<and> v ''cloud.account.id'' \<noteq> [] then [p, v ''cloud.account.id'', v ''host.id'']
     else if v ''k8s.cluster.name'' \<noteq> [] \<and> v ''cloud.account.id'' \<noteq> [] then [p, v ''cloud.account.id'', ''k8s'', v ''k8s.cluster.name'']
     else if v ''db.system'' \<noteq> [] \<and> v ''db.name'' \<noteq> [] \<and> v ''cloud.account.id'' \<noteq> []
     then [p, v ''cloud.account.id'', ''db'', v ''db.system'', v ''db.name'']
     else if v ''host.name'' \<noteq> [] then [''host'', v ''host.name''] else [''service'', v ''service.name''])"
    by (simp only: key if_distrib [of parts] parts_key free simp_thms)
  then show ?thesis by (simp only: Let_def v_def p_def)
qed

text \<open>The shapes of the keys tell the tiers apart.\<close>

lemma tier_shapes:
  fixes h a c d n p g s :: string
  defines "shape \<equiv> (if h \<noteq> [] \<and> a \<noteq> [] then [p, a, h] else if c \<noteq> [] \<and> a \<noteq> [] then [p, a, ''k8s'', c]
    else if d \<noteq> [] \<and> n \<noteq> [] \<and> a \<noteq> [] then [p, a, ''db'', d, n] else if g \<noteq> [] then [''host'', g] else [''service'', s])"
  shows "x \<noteq> [] \<Longrightarrow> y \<noteq> [] \<Longrightarrow> z \<noteq> [] \<Longrightarrow> shape = [x, y, z] \<longleftrightarrow> a \<noteq> [] \<and> x = p \<and> y = a \<and> z = h"
    and "x \<noteq> [] \<Longrightarrow> y \<noteq> [] \<Longrightarrow> z \<noteq> [] \<Longrightarrow> shape = [x, y, ''k8s'', z] \<longleftrightarrow> a \<noteq> [] \<and> h = [] \<and> x = p \<and> y = a \<and> z = c"
    and "x \<noteq> [] \<Longrightarrow> y \<noteq> [] \<Longrightarrow> z \<noteq> [] \<Longrightarrow> w \<noteq> [] \<Longrightarrow>
      shape = [x, y, ''db'', z, w] \<longleftrightarrow> a \<noteq> [] \<and> h = [] \<and> c = [] \<and> x = p \<and> y = a \<and> z = d \<and> w = n"
  unfolding shape_def by (cases "h = []"; cases "a = []"; cases "c = []"; cases "d = []"; cases "n = []"; auto)+

text \<open>
  the receiver and the inventory agree on keys.  An observation without \<open>cloud.resource_id\<close> joins an
  inventory row, of an instance, a cluster or a database, exactly when it names that resource by provider,
  account and the identifier of the highest tier it carries, provided that no identifier contains a colon.
\<close>

theorem observation_joins_inventory:
  assumes "plain_attrs attrs" "plain_row row" "ComputeResourceKey attrs = Some rk"
  shows "rk_Key rk = inventory_key row \<longleftrightarrow> names_row attrs row"
proof -
  define v where "v = firstNonEmpty attrs"
  note key = parts_resource_key [OF assms(1,3), unfolded Let_def, folded v_def]
  have "rk_Key rk = inventory_key row \<longleftrightarrow> parts (rk_Key rk) = parts (inventory_key row)" by (simp only: parts_inj)
  also have "\<dots> \<longleftrightarrow> names_row attrs row"
    unfolding key parts_inventory_key [OF assms(2)] names_row_def Let_def v_def [symmetric]
    using assms(2) by (cases row; simp only: inventory_row.case plain_row.simps ball_simps simp_thms; elim conjE; intro tier_shapes)
  finally show ?thesis .
qed

section \<open>The coverage summary\<close>

definition rows_where :: "(ResourceRow \<Rightarrow> bool) \<Rightarrow> rows \<Rightarrow> string set" where
  "rows_where Q rows = {k. \<exists>r. map_of rows k = Some r \<and> Q r}"

lemma rows_where_iff:
  assumes "rows_ok rows" shows "k \<in> rows_where Q rows \<longleftrightarrow> k \<in> rr_ResourceKey ` set (filter Q (map snd rows))"
proof
  assume "k \<in> rows_where Q rows"
  then obtain r where "map_of rows k = Some r" "Q r" by (auto simp: rows_where_def)
  then show "k \<in> rr_ResourceKey ` set (filter Q (map snd rows))"
    using rows_ok_lookup [OF assms] by (force dest: map_of_SomeD)
next
  assume "k \<in> rr_ResourceKey ` set (filter Q (map snd rows))"
  then obtain r where "r \<in> set (map snd rows)" "Q r" "k = rr_ResourceKey r" by auto
  then show "k \<in> rows_where Q rows" using rows_ok_find [OF assms] by (auto simp: rows_where_def)
qed

lemma distinct_keys_filter:
  assumes "rows_ok rows" shows "distinct (map rr_ResourceKey (filter Q (map snd rows)))"
  using assms by (intro distinct_map_filter) (metis rows_ok_def rows_ok_keys)

lemma card_rows_where:
  assumes "rows_ok rows" shows "length (filter Q (map snd rows)) = card (rows_where Q rows)" and "finite (rows_where Q rows)"
proof -
  have *: "rows_where Q rows = set (map rr_ResourceKey (filter Q (map snd rows)))" using rows_where_iff [OF assms] by auto
  show "length (filter Q (map snd rows)) = card (rows_where Q rows)"
    unfolding * using distinct_card [OF distinct_keys_filter [OF assms, of Q]] by simp
  show "finite (rows_where Q rows)" unfolding * by simp
qed

lemma findRowByKey_None: "findRowByKey rs k = None \<longleftrightarrow> k \<notin> rr_ResourceKey ` set rs"
  by (auto simp: findRowByKey_def find_None_iff)

lemma card_counted_twice:
  assumes "finite S" "finite P" "L \<subseteq> S"
  shows "card S + card (P - L) = card (S \<union> P) + card (P \<inter> (S - L))"
proof -
  have "card (S \<union> P) = card S + card (P - S)" using card_Un_disjoint [of S "P - S"] assms by simp
  have "P - L = (P - S) \<union> (P \<inter> (S - L))" using assms(3) by blast
  moreover have "(P - S) \<inter> (P \<inter> (S - L)) = {}" by blast
  ultimately have "card (P - L) = card (P - S) + card (P \<inter> (S - L))" using card_Un_disjoint [of "P - S" "P \<inter> (S - L)"] assms by simp
  then show ?thesis using \<open>card (S \<union> P) = card S + card (P - S)\<close> by simp
qed

lemma coverage_counts:
  "foldl coverage_count (st, wk, t) rs = (st', wk', t') \<Longrightarrow>
     st' = st + int (length (filter (\<lambda>r. rr_MatchConfidence r \<noteq> MatchConfidenceWeak) rs))
     \<and> wk' = wk + int (length (filter (\<lambda>r. rr_MatchConfidence r = MatchConfidenceWeak) rs))"
proof (induction rs arbitrary: st wk t)
  case (Cons r rs)
  obtain st1 wk1 t1 where step: "coverage_count (st, wk, t) r = (st1, wk1, t1)" by (metis prod_cases3)
  then show ?case using Cons.IH [of st1 wk1 t1] Cons.prems by (auto simp: coverage_count_def split: if_splits)
qed simp

text \<open>The rows of a list that is a part of the table, counted by their keys.\<close>

lemma count_part:
  assumes "rows_ok rows" "mset rs = mset (filter Q (map snd rows))"
  shows "length (filter q rs) = card (rows_where (\<lambda>r. Q r \<and> q r) rows)"
proof -
  have "length (filter q rs) = size (filter_mset q (mset rs))" by (metis mset_filter size_mset)
  also have "\<dots> = length (filter q (filter Q (map snd rows)))" by (metis assms(2) mset_filter size_mset)
  also have "\<dots> = length (filter (\<lambda>r. Q r \<and> q r) (map snd rows))" by simp
  finally show ?thesis using card_rows_where(1) [OF assms(1)] by simp
qed

lemma listed_rows:
  assumes "lib_sort srt" "rows_ok (ti_traceResourceSeen ix)" "int (length (ti_traceResourceSeen ix)) \<le> limit" "limit \<le> 100000" "0 < limit"
    and "provider \<noteq> []" "0 < since"
  shows "mset (ListTraceResourcesByScope srt provider sc since limit ix) =
    mset (filter (\<lambda>r. in_scope provider sc r \<and> \<not> rr_LastSeenAt r < since) (map snd (ti_traceResourceSeen ix)))"
    and "rr_ResourceKey ` set (ListTraceResourcesByScope srt provider sc since limit ix) =
    rows_where (\<lambda>r. in_scope provider sc r \<and> \<not> rr_LastSeenAt r < since) (ti_traceResourceSeen ix)"
proof -
  let ?out = "filter (\<lambda>r. in_scope provider sc r \<and> \<not> rr_LastSeenAt r < since) (map snd (ti_traceResourceSeen ix))"
  have "length ?out \<le> length (map snd (ti_traceResourceSeen ix))" by (rule length_filter_le)
  also have "\<dots> \<le> nat limit" using assms(3) by simp
  finally have "length ?out \<le> nat limit" .
  then have "ListTraceResourcesByScope srt provider sc since limit ix = srt (\<lambda>r. - rr_LastSeenAt r) ?out"
    using assms(3-7) lib_sortD(4) [OF assms(1), of "\<lambda>r. - rr_LastSeenAt r" ?out]
    unfolding ListTraceResourcesByScope_def IsZero_def Let_def by (simp add: not_less)
  then show m: "mset (ListTraceResourcesByScope srt provider sc since limit ix) = mset ?out" by (simp only: lib_sortD(1) [OF assms(1)])
  then have "set (ListTraceResourcesByScope srt provider sc since limit ix) = set ?out" by (rule mset_eq_setD)
  then show "rr_ResourceKey ` set (ListTraceResourcesByScope srt provider sc since limit ix) =
    rows_where (\<lambda>r. in_scope provider sc r \<and> \<not> rr_LastSeenAt r < since) (ti_traceResourceSeen ix)"
    using rows_where_iff [OF assms(2)] by blast
qed

text \<open>The resources whose match confidence a summary counts, with the row that decides it: the stored row if it was
  seen within the day before \<open>now\<close>, otherwise the pending one.\<close>

definition counted_row :: "gotime \<Rightarrow> string \<Rightarrow> string \<Rightarrow> TraceIndex \<Rightarrow> string \<Rightarrow> ResourceRow \<Rightarrow> bool" where
  "counted_row now provider sc ix k r \<longleftrightarrow>
     (let recent = (\<lambda>q. GetTraceResource k ix = Some q \<and> in_scope provider sc q \<and> now - 24 * hour \<le> rr_LastSeenAt q)
      in recent r \<or> (map_of (ti_pendingRows ix) k = Some r \<and> in_scope provider sc r \<and> \<not> (\<exists>q. recent q)))"

lemma counted_confidence:
  assumes "rows_ok (ti_traceResourceSeen ix)" "rows_ok (ti_pendingRows ix)"
    and "mset rs = mset (filter (\<lambda>r. in_scope provider sc r \<and> \<not> rr_LastSeenAt r < now - 24 * hour) (map snd (ti_traceResourceSeen ix)))"
    and "rr_ResourceKey ` set rs = rows_where (\<lambda>r. in_scope provider sc r \<and> \<not> rr_LastSeenAt r < now - 24 * hour) (ti_traceResourceSeen ix)"
  shows "length (filter q (rs @ unflushed_rows provider sc rs ix)) = card {k. \<exists>r. counted_row now provider sc ix k r \<and> q r}"
proof -
  let ?Q = "in_scope provider sc"
  define L where "L = rows_where (\<lambda>r. ?Q r \<and> \<not> rr_LastSeenAt r < now - 24 * hour) (ti_traceResourceSeen ix)"
  define A where "A = rows_where (\<lambda>r. (?Q r \<and> \<not> rr_LastSeenAt r < now - 24 * hour) \<and> q r) (ti_traceResourceSeen ix)"
  define B where "B = rows_where (\<lambda>r. (?Q r \<and> rr_ResourceKey r \<notin> L) \<and> q r) (ti_pendingRows ix)"
  have "mset (unflushed_rows provider sc rs ix) = mset (filter (\<lambda>r. ?Q r \<and> rr_ResourceKey r \<notin> L) (map snd (ti_pendingRows ix)))"
    by (simp add: unflushed_rows_def findRowByKey_None assms(4) L_def)
  from count_part [OF assms(1,3), of q] count_part [OF assms(2) this, of q]
  have "length (filter q (rs @ unflushed_rows provider sc rs ix)) = card A + card B" by (simp add: A_def B_def)
  also have "\<dots> = card (A \<union> B)"
    using card_rows_where(2) assms(1,2) rows_ok_lookup [OF assms(2)]
    by (intro card_Un_disjoint [symmetric]) (auto simp: A_def B_def L_def rows_where_def)
  also have "A \<union> B = {k. \<exists>r. counted_row now provider sc ix k r \<and> q r}"
    using rows_ok_lookup [OF assms(2)]
    by (auto simp: A_def B_def L_def rows_where_def counted_row_def GetTraceResource_def not_less Let_def)
  finally show ?thesis .
qed

text \<open>
  C39: what the coverage summary counts.  With a read limit that covers the store's cap, the emitting count of a
  scope is the number of its resources, stored or pending, plus once more every pending resource whose stored
  row was last seen over a day ago.  The match percentages are the shares, rounded as float64, of the strongly and
  the weakly matched among the resources that are pending in the scope or stored there and seen within the day,
  each counted once and judged by its recent stored row if it has one; they lie between 0 and 100, and are both 0
  if there is no such resource.
\<close>

theorem coverage_counts_resources:
  assumes "lib_sort srt" "ix = index_run marshal srt (NewIndex mx c) es" "trace_cap ix \<le> ti_maxRows ix" "ti_maxRows ix \<le> 100000"
    and "provider \<noteq> []" "24 * hour < now" "float_rounding rnd"
    and "summary = Coverage rnd srt now provider sc inventory ix"
  defines "strong \<equiv> card {k. \<exists>r. counted_row now provider sc ix k r \<and> rr_MatchConfidence r \<noteq> MatchConfidenceWeak}"
    and "weak \<equiv> card {k. \<exists>r. counted_row now provider sc ix k r \<and> rr_MatchConfidence r = MatchConfidenceWeak}"
  shows "su_EmittingCount summary =
      int (card (rows_where (in_scope provider sc) (ti_traceResourceSeen ix) \<union> rows_where (in_scope provider sc) (ti_pendingRows ix)))
      + int (card {k \<in> rows_where (in_scope provider sc) (ti_pendingRows ix).
          \<exists>r. GetTraceResource k ix = Some r \<and> in_scope provider sc r \<and> rr_LastSeenAt r < now - 24 * hour})
    \<and> su_StrongMatchPct summary = (if strong + weak = 0 then 0 else rnd (rnd (rnd (real strong) / rnd (real (strong + weak))) * 100))
    \<and> su_WeakMatchPct summary = (if strong + weak = 0 then 0 else rnd (rnd (rnd (real weak) / rnd (real (strong + weak))) * 100))
    \<and> 0 \<le> su_StrongMatchPct summary \<and> su_StrongMatchPct summary \<le> 100 \<and> 0 \<le> su_WeakMatchPct summary \<and> su_WeakMatchPct summary \<le> 100"
proof -
  let ?Q = "in_scope provider sc"
  define S where "S = rows_where ?Q (ti_traceResourceSeen ix)"
  define P where "P = rows_where ?Q (ti_pendingRows ix)"
  define L where "L = rows_where (\<lambda>r. ?Q r \<and> \<not> rr_LastSeenAt r < now - 24 * hour) (ti_traceResourceSeen ix)"
  define rs where "rs = ListTraceResourcesByScope srt provider sc (now - 24 * hour) (ti_maxRows ix) ix"
  have "index_ok ix" using assms(2) by (simp add: index_ok_run index_ok_New)
  then have ok: "rows_ok (ti_traceResourceSeen ix)" "rows_ok (ti_pendingRows ix)" by (simp_all add: index_ok_def)
  have "int (length (ti_traceResourceSeen ix)) \<le> ti_maxRows ix" using run_within_cap [OF assms(1), of marshal mx c es] assms(2,3) by simp
  then have listed: "mset rs = mset (filter (\<lambda>r. ?Q r \<and> \<not> rr_LastSeenAt r < now - 24 * hour) (map snd (ti_traceResourceSeen ix)))"
      and L: "rr_ResourceKey ` set rs = L"
    using listed_rows [OF assms(1) ok(1)] assms(3-6) trace_cap_pos [of ix] by (simp_all add: rs_def L_def)
  have fresh: "unflushed_rows provider sc rs ix = filter (\<lambda>r. ?Q r \<and> rr_ResourceKey r \<notin> L) (map snd (ti_pendingRows ix))"
    by (simp add: unflushed_rows_def findRowByKey_None L)
  have "rows_where (\<lambda>r. ?Q r \<and> rr_ResourceKey r \<notin> L) (ti_pendingRows ix) = P - L"
    using rows_ok_lookup [OF ok(2)] by (auto simp: rows_where_def P_def)
  then have fresh_card: "length (unflushed_rows provider sc rs ix) = card (P - L)" using card_rows_where(1) [OF ok(2)] by (simp only: fresh)
  have "CountTraceResourcesByScope provider sc ix = int (card S)"
    using card_rows_where(1) [OF ok(1)] assms(5) by (simp add: CountTraceResourcesByScope_def S_def)
  then have "su_EmittingCount summary = int (card S) + int (card (P - L))"
    using fresh_card assms(8) by (simp add: Coverage_def Let_def rs_def split: prod.split)
  moreover have "card S + card (P - L) = card (S \<union> P) + card (P \<inter> (S - L))"
    using card_rows_where(2) ok by (intro card_counted_twice) (auto simp: S_def P_def L_def rows_where_def)
  moreover have "P \<inter> (S - L) = {k \<in> P. \<exists>r. GetTraceResource k ix = Some r \<and> ?Q r \<and> rr_LastSeenAt r < now - 24 * hour}"
    by (auto simp: S_def L_def rows_where_def GetTraceResource_def)
  moreover obtain st wk t where f: "foldl coverage_count (0, 0, 0) (rs @ unflushed_rows provider sc rs ix) = (st, wk, t)" by (metis prod_cases3)
  have counts: "st = int strong" "wk = int weak"
    using coverage_counts [OF f] unfolding counted_confidence [OF ok listed L [unfolded L_def]] strong_def weak_def by simp_all
  have pct: "su_StrongMatchPct summary = percentage rnd (int strong) (int strong + int weak)" "su_WeakMatchPct summary = percentage rnd (int weak) (int strong + int weak)"
    using f counts by (simp_all add: assms(8) Coverage_def Let_def rs_def)
  moreover have "0 \<le> su_StrongMatchPct summary \<and> su_StrongMatchPct summary \<le> 100 \<and> 0 \<le> su_WeakMatchPct summary \<and> su_WeakMatchPct summary \<le> 100"
    using float_pct_range [OF assms(7), of "real strong" "real strong + real weak"] float_pct_range [OF assms(7), of "real weak" "real strong + real weak"]
    by (simp add: pct percentage_def)
  ultimately show ?thesis unfolding P_def S_def by (simp add: percentage_def float_pct_def)
qed

section \<open>Witnesses\<close>

lemma lib_sort_sort_key: "lib_sort sort_key"
  by (simp add: lib_sort_def)

definition host_attrs :: "string \<Rightarrow> attrs" where
  "host_attrs i = [(''cloud.provider'', ''aws''), (''cloud.account.id'', ''42''), (''host.id'', i)]"

definition host_obs :: "string \<Rightarrow> gotime \<Rightarrow> ResourceObservation" where
  "host_obs i t = \<lparr>ob_Attributes = host_attrs i, ob_SpanCount = 5, ob_RootSpanCount = 1, ob_Timestamp = t\<rparr>"

definition host_key :: "string \<Rightarrow> ResourceKey" where
  "host_key i = \<lparr>rk_Key = ''aws:42:'' @ i, rk_Provider = ''aws'', rk_ScopeID = ''42'', rk_ResourceIDHint = [], rk_ServiceName = [],
     rk_Confidence = MatchConfidenceStrong\<rparr>"

lemma host_values:
  "firstNonEmpty (host_attrs i) ''cloud.provider'' = ''aws''" "firstNonEmpty (host_attrs i) ''cloud.account.id'' = ''42''"
  "firstNonEmpty (host_attrs i) ''host.id'' = TrimSpace i" "firstNonEmpty (host_attrs i) ''cloud.resource_id'' = []"
  "firstNonEmpty (host_attrs i) ''service.name'' = []" "firstNonEmpty (host_attrs i) ''k8s.cluster.name'' = []"
  "firstNonEmpty (host_attrs i) ''db.system'' = []" "firstNonEmpty (host_attrs i) ''db.name'' = []" "firstNonEmpty (host_attrs i) ''host.name'' = []"
  "normalizeProvider ''aws'' = ''aws''"
proof -
  have "TrimSpace ''aws'' = ''aws''" "TrimSpace ''42'' = ''42''" by code_simp+
  then show "firstNonEmpty (host_attrs i) ''cloud.provider'' = ''aws''" "firstNonEmpty (host_attrs i) ''cloud.account.id'' = ''42''"
    by (simp_all add: firstNonEmpty_def host_attrs_def)
  show "normalizeProvider ''aws'' = ''aws''" by code_simp
qed (simp_all add: firstNonEmpty_def host_attrs_def)

lemma host_resource_key: "TrimSpace i = i \<Longrightarrow> i \<noteq> [] \<Longrightarrow> ComputeResourceKey (host_attrs i) = Some (host_key i)"
  by (simp add: ComputeResourceKey_def Let_def host_values host_key_def) (simp add: host_attrs_def)

lemma trim_ab: "TrimSpace ''a'' = ''a''" "TrimSpace ''b'' = ''b''"
  by code_simp+

definition demo_events :: "index_event list" where
  "demo_events = [Observed 0 (host_obs ''a'' hour), Flushed, Observed 0 (host_obs ''b'' (2 * hour)), Observed 0 (host_obs ''a'' (40 * hour))]"

lemma demo_sightings:
  "List.map_filter sighting demo_events = [(''aws:42:a'', hour, 5, 1), (''aws:42:b'', 2 * hour, 5, 1), (''aws:42:a'', 40 * hour, 5, 1)]"
  by (simp add: demo_events_def List.map_filter_def host_obs_def host_resource_key trim_ab obs_time_def IsZero_def host_key_def)

theorem index_matches_history_witness:
  "\<exists>ix. index_tally ix ''aws:42:a'' = Some (10, 2, hour, 40 * hour) \<and> LastSeenAt ''aws:42:a'' ix = Some (40 * hour)
     \<and> ix = index_run (\<lambda>_. []) sort_key (NewIndex 0 0) demo_events"
proof -
  have "seen_keys demo_events = {''aws:42:a'', ''aws:42:b''}" unfolding seen_keys_def demo_sightings by auto
  moreover have "trace_cap (NewIndex 0 0) = 100000" by (simp add: trace_cap_def NewIndex_def)
  moreover have "list_all counts_fit demo_events"
    by (simp add: demo_events_def counts_fit_def host_obs_def host_resource_key trim_ab in_int64_def)
  moreover have s: "sightings demo_events ''aws:42:a'' = [(hour, 5, 1), (40 * hour, 5, 1)]" by (simp add: sightings_def demo_sightings)
  moreover have "history_tally [(hour, 5, 1), (40 * hour, 5, 1)] = Some (10, 2, hour, 40 * hour)"
    by (simp add: history_tally_def int64_def)
  ultimately show ?thesis using index_matches_history [of demo_events 0 0 _ "\<lambda>_. []" sort_key "''aws:42:a''"] by simp
qed

theorem store_keeps_recent_witness:
  "\<exists>written evicted ix'. Flush sort_key (index_run (\<lambda>_. []) sort_key (NewIndex 0 1) demo_events) = ((written, evicted), ix')
     \<and> int (length (ti_traceResourceSeen ix')) \<le> 1 \<and> ti_pendingRows ix' = []"
proof -
  obtain written evicted ix' where f: "Flush sort_key (index_run (\<lambda>_. []) sort_key (NewIndex 0 1) demo_events) = ((written, evicted), ix')"
    by (metis prod.exhaust)
  have "trace_cap (NewIndex 0 1) = 1" by (simp add: trace_cap_def NewIndex_def)
  then show ?thesis using store_keeps_recent [OF lib_sort_sort_key refl f] f by auto
qed

theorem observation_joins_inventory_witness:
  "\<exists>rk. ComputeResourceKey (host_attrs ''a'') = Some rk \<and> rk_Key rk = inventory_key (Instance ''aws'' ''42'' ''a'')"
proof -
  have "plain_attrs (host_attrs ''a'')" by (simp add: plain_attrs_def host_values trim_ab)
  moreover have t: "TrimSpace ''aws'' = ''aws''" "TrimSpace ''42'' = ''42''" by code_simp+
  then have "plain_row (Instance ''aws'' ''42'' ''a'')" "names_row (host_attrs ''a'') (Instance ''aws'' ''42'' ''a'')"
    by (simp_all add: names_row_def host_values trim_ab)
  ultimately show ?thesis using observation_joins_inventory [of "host_attrs ''a''" "Instance ''aws'' ''42'' ''a''"] host_resource_key [of "''a''"] trim_ab by blast
qed

definition demo_row :: "string \<Rightarrow> gotime \<Rightarrow> ResourceRow" where
  "demo_row k t = \<lparr>rr_ResourceKey = k, rr_Provider = ''aws'', rr_ScopeID = ''42'', rr_ResourceIDHint = [], rr_ServiceName = [],
     rr_FirstSeenAt = t, rr_LastSeenAt = t, rr_SpanCount24h = 5, rr_RootSpanCount24h = 1, rr_AttributesJSON = [],
     rr_MatchConfidence = MatchConfidenceStrong, rr_UpdatedAt = t\<rparr>"

lemma demo_run:
  "index_run (\<lambda>_. []) sort_key (NewIndex 0 0) demo_events =
     \<lparr>ti_maxRows = 100000, ti_pendingRows = [(''aws:42:b'', demo_row ''aws:42:b'' (2 * hour)), (''aws:42:a'', demo_row ''aws:42:a'' (40 * hour))],
      ti_traceMaxRows = 0, ti_traceResourceSeen = [(''aws:42:a'', demo_row ''aws:42:a'' hour)]\<rparr>"
  by (simp add: demo_events_def NewIndex_def defaultMaxRows_def Observe_def host_obs_def host_resource_key trim_ab host_key_def
      Flush_def UpsertTraceResources_def upsert_row_def upserted_def trace_cap_def pending_row_def obs_time_def IsZero_def demo_row_def Let_def)

lemma demo_row_scope: "in_scope ''aws'' ''42'' (demo_row k t)" "rr_LastSeenAt (demo_row k t) = t"
  "rr_MatchConfidence (demo_row k t) = MatchConfidenceWeak \<longleftrightarrow> False"
  by (simp_all add: in_scope_def demo_row_def)

text \<open>Two hosts, one of them quiet for over a day before its pending observation, are counted as three.\<close>

theorem coverage_counts_resources_witness:
  "\<exists>summary. summary = Coverage fixed_point sort_key (41 * hour) ''aws'' ''42'' 2 (index_run (\<lambda>_. []) sort_key (NewIndex 0 0) demo_events)
     \<and> su_EmittingCount summary = 3 \<and> su_StrongMatchPct summary = 100 \<and> su_WeakMatchPct summary = 0"
proof -
  let ?ix = "index_run (\<lambda>_. []) sort_key (NewIndex 0 0) demo_events"
  have stored: "rows_where (in_scope ''aws'' ''42'') (ti_traceResourceSeen ?ix) = {''aws:42:a''}"
    and pending: "rows_where (in_scope ''aws'' ''42'') (ti_pendingRows ?ix) = {''aws:42:a'', ''aws:42:b''}"
    unfolding demo_run by (auto simp: rows_where_def in_scope_def demo_row_def split: if_splits)
  have twice: "{k \<in> {''aws:42:a'', ''aws:42:b''}. \<exists>r. GetTraceResource k ?ix = Some r \<and> in_scope ''aws'' ''42'' r \<and> rr_LastSeenAt r < 41 * hour - 24 * hour} = {''aws:42:a''}"
    unfolding demo_run by (auto simp: GetTraceResource_def in_scope_def demo_row_def)
  have lookup: "GetTraceResource k ?ix = (if k = ''aws:42:a'' then Some (demo_row k hour) else None)"
      "map_of (ti_pendingRows ?ix) k = (if k = ''aws:42:a'' then Some (demo_row k (40 * hour)) else if k = ''aws:42:b'' then Some (demo_row k (2 * hour)) else None)" for k
    unfolding demo_run by (simp_all add: GetTraceResource_def)
  have counted: "counted_row (41 * hour) ''aws'' ''42'' ?ix k r \<longleftrightarrow> (k = ''aws:42:a'' \<and> r = demo_row k (40 * hour)) \<or> (k = ''aws:42:b'' \<and> r = demo_row k (2 * hour))" for k r
    unfolding counted_row_def lookup Let_def by (cases "k = ''aws:42:a''"; cases "k = ''aws:42:b''") (auto simp: demo_row_scope)
  have "{k. \<exists>r. counted_row (41 * hour) ''aws'' ''42'' ?ix k r \<and> rr_MatchConfidence r \<noteq> MatchConfidenceWeak} = {''aws:42:a'', ''aws:42:b''}"
      "{k. \<exists>r. counted_row (41 * hour) ''aws'' ''42'' ?ix k r \<and> rr_MatchConfidence r = MatchConfidenceWeak} = {}"
    unfolding counted by (simp_all add: conj_disj_distribR ex_disj_distrib demo_row_scope cong: conj_cong) blast
  moreover have "{''aws:42:a''} \<union> {''aws:42:a'', ''aws:42:b''} = {''aws:42:a'', ''aws:42:b''}" by blast
  moreover have "card {''aws:42:a'', ''aws:42:b''} = 2" by simp
  moreover have "fixed_point 2 = 2" "fixed_point 1 = 1" "fixed_point 100 = 100" "fixed_point 0 = 0" by (simp_all add: fixed_point_def)
  ultimately show ?thesis
    using coverage_counts_resources [OF lib_sort_sort_key refl, of "\<lambda>_. []" 0 0 demo_events "''aws''" "41 * hour" fixed_point _ "''42''" 2, OF _ _ _ _ float_rounding_fixed_point refl]
    unfolding stored pending twice by (simp only:) (simp add: trace_cap_def demo_run)
qed

end
