(* ===== verification/Span_Quality.thy ===== *)
theory Span_Quality
  imports Trace_Index "HOL-Library.Word"
begin

text \<open>
  Span quality: per resource, counters of orphan spans, missing or placeholder attributes and broken trace
  context over rolling windows (\<open>traceindex/quality.go\<close>, \<open>quality_rules.go\<close>, \<open>quality_w3c.go\<close>), and the background
  flusher that drains the trace index and evicts expired counters (\<open>flush.go\<close>).  The counters are 64-bit words;
  the order in which Go walks the placeholder table is a parameter.
\<close>

section \<open>Rules\<close>

definition attr :: "attrs \<Rightarrow> string \<Rightarrow> string" where
  "attr attrs k = (case map_of attrs k of None \<Rightarrow> [] | Some v \<Rightarrow> v)"

definition requiredAttrsByTier :: "string \<Rightarrow> string list option" where
  "requiredAttrsByTier tier =
     (if tier = ''compute'' then Some [''service.name'', ''cloud.provider'', ''cloud.account.id'', ''cloud.region'']
      else if tier = ''db'' then Some [''service.name'', ''cloud.provider'', ''cloud.account.id'', ''db.system'', ''db.name'']
      else if tier = ''k8s''
      then Some [''service.name'', ''cloud.provider'', ''cloud.account.id'', ''k8s.cluster.name'', ''k8s.namespace.name'', ''k8s.pod.name'']
      else None)"

definition computeHostAlternatives :: "string list" where
  "computeHostAlternatives = [''host.id'', ''host.name'', ''cloud.resource_id'']"

definition firstMissingRequired :: "string \<Rightarrow> attrs \<Rightarrow> string" where
  "firstMissingRequired tier attrs =
     (case requiredAttrsByTier tier of
        None \<Rightarrow> []
      | Some required \<Rightarrow>
          (case find (\<lambda>name. attr attrs name = []) required of
             Some name \<Rightarrow> name
           | None \<Rightarrow>
               if tier = ''compute'' \<and> \<not> list_ex (\<lambda>alt. attr attrs alt \<noteq> []) computeHostAlternatives
               then ''host.id|host.name|cloud.resource_id'' else []))"

type_synonym placeholder_table = "(string \<times> string list) list"

definition placeholdersByAttr :: placeholder_table where
  "placeholdersByAttr =
     [(''host.name'', [''localhost'', ''127.0.0.1'', ''unknown_host'']),
      (''cloud.account.id'', [''000000000000'', ''123456789012'', ''unknown'']),
      (''service.name'', [''unknown_service'', ''default-service'']),
      (''cloud.region'', [''unknown_region''])]"

definition validCloudProviders :: "string list" where
  "validCloudProviders = [''aws'', ''gcp'', ''azure'', ''oci'']"

text \<open>The table argument lists \<open>placeholdersByAttr\<close> in the order of one iteration.\<close>

definition firstPlaceholder :: "placeholder_table \<Rightarrow> attrs \<Rightarrow> string \<times> string" where
  "firstPlaceholder tbl attrs =
     (case find (\<lambda>(name, ps). attr attrs name \<noteq> [] \<and> attr attrs name \<in> set ps) tbl of
        Some (name, ps) \<Rightarrow> (name, attr attrs name)
      | None \<Rightarrow>
          (let cp = attr attrs ''cloud.provider'' in
           if cp \<noteq> [] \<and> cp \<notin> set validCloudProviders then (''cloud.provider'', cp) else ([], [])))"

section \<open>W3C trace context\<close>

definition TraceparentExpectedLen :: nat where "TraceparentExpectedLen = 55"

definition isHexLowerOrDigit :: "string \<Rightarrow> bool" where
  "isHexLowerOrDigit s \<longleftrightarrow> list_all (\<lambda>c. (CHR ''0'' \<le> c \<and> c \<le> CHR ''9'') \<or> (CHR ''a'' \<le> c \<and> c \<le> CHR ''f'')) s"

definition isAllZerosHex :: "string \<Rightarrow> bool" where
  "isAllZerosHex s \<longleftrightarrow> list_all (\<lambda>c. c = CHR ''0'') s"

definition slice :: "nat \<Rightarrow> nat \<Rightarrow> string \<Rightarrow> string" where
  "slice i j s = take (j - i) (drop i s)"

definition isWellFormedTraceparent :: "string \<Rightarrow> bool" where
  "isWellFormedTraceparent v \<longleftrightarrow>
     length v = TraceparentExpectedLen
     \<and> v ! 2 = CHR ''-'' \<and> v ! 35 = CHR ''-'' \<and> v ! 52 = CHR ''-''
     \<and> v ! 0 = CHR ''0'' \<and> v ! 1 = CHR ''0''
     \<and> isHexLowerOrDigit (slice 3 35 v) \<and> \<not> isAllZerosHex (slice 3 35 v)
     \<and> isHexLowerOrDigit (slice 36 52 v) \<and> \<not> isAllZerosHex (slice 36 52 v)
     \<and> isHexLowerOrDigit (slice 53 55 v)"

definition lookupTraceparent :: "attrs \<Rightarrow> string" where
  "lookupTraceparent attrs =
     (if attr attrs ''traceparent'' \<noteq> [] then attr attrs ''traceparent'' else attr attrs ''http.request.header.traceparent'')"

definition isNonRootSpan :: "string \<Rightarrow> bool" where
  "isNonRootSpan parentSpanID \<longleftrightarrow> list_ex (\<lambda>c. c \<noteq> CHR ''0'') parentSpanID"

section \<open>Counters\<close>

record QualityCounters =
  qc_OrphanSpans :: "64 word"
  qc_MissingAttrSpans :: "64 word"
  qc_AttrMismatchSpans :: "64 word"
  qc_TotalSpans :: "64 word"
  qc_MalformedTraceparentSpans :: "64 word"
  qc_MissingTraceparentOnChildSpans :: "64 word"
  qc_SpansWithTraceparent :: "64 word"
  qc_ChildSpans :: "64 word"
  qc_WindowStart :: gotime
  qc_TotalSpansLast24h :: "64 word"
  qc_WindowStart24h :: gotime

record PlaceholderObservation =
  po_Attribute :: string
  po_Placeholder :: string
  po_SeenAt :: gotime

record Quality =
  q_perKey :: "(string \<times> QualityCounters) list"
  q_placeholders :: "(string \<times> PlaceholderObservation list) list"
  q_providers :: "(string \<times> string) list"
  q_parentSeen :: "(string \<times> (string \<times> gotime) list) list"

definition NewQuality :: Quality where
  "NewQuality = \<lparr>q_perKey = [], q_placeholders = [], q_providers = [], q_parentSeen = []\<rparr>"

abbreviation quality_window :: duration where "quality_window \<equiv> hour"
abbreviation parentTTL :: duration where "parentTTL \<equiv> 5 * minute"

record SpanObservation =
  sp_Key :: string
  sp_Provider :: string
  sp_TraceID :: string
  sp_SpanID :: string
  sp_ParentSpanID :: string
  sp_Tier :: string
  sp_Attrs :: attrs

definition new_counters :: "gotime \<Rightarrow> QualityCounters" where
  "new_counters now =
     \<lparr>qc_OrphanSpans = 0, qc_MissingAttrSpans = 0, qc_AttrMismatchSpans = 0, qc_TotalSpans = 0, qc_MalformedTraceparentSpans = 0,
      qc_MissingTraceparentOnChildSpans = 0, qc_SpansWithTraceparent = 0, qc_ChildSpans = 0, qc_WindowStart = now,
      qc_TotalSpansLast24h = 0, qc_WindowStart24h = now\<rparr>"

text \<open>The two window resets, which are independent of each other.\<close>

definition roll_windows :: "gotime \<Rightarrow> QualityCounters \<Rightarrow> QualityCounters" where
  "roll_windows now c =
     (let c1 = (if Sub now (qc_WindowStart c) > quality_window
                then (new_counters now)\<lparr>qc_TotalSpansLast24h := qc_TotalSpansLast24h c, qc_WindowStart24h := qc_WindowStart24h c\<rparr>
                else c)
      in if Sub now (qc_WindowStart24h c1) > 24 * hour then c1\<lparr>qc_TotalSpansLast24h := 0, qc_WindowStart24h := now\<rparr> else c1)"

definition bump :: "bool \<Rightarrow> 64 word \<Rightarrow> 64 word" where
  "bump b n = (if b then n + 1 else n)"

text \<open>The lookup of a parent drops an entry that has aged out, and its trace when nothing else is left.\<close>

definition parentSpanSeen :: "string \<Rightarrow> string \<Rightarrow> gotime \<Rightarrow> Quality \<Rightarrow> bool \<times> Quality" where
  "parentSpanSeen traceID parentSpanID now q =
     (case map_of (q_parentSeen q) traceID of
        None \<Rightarrow> (False, q)
      | Some spans \<Rightarrow>
          (case map_of spans parentSpanID of
             None \<Rightarrow> (False, q)
           | Some seenAt \<Rightarrow>
               if Sub now seenAt > parentTTL then
                 (let spans' = AList.delete parentSpanID spans
                  in (False, q\<lparr>q_parentSeen := (if spans' = [] then AList.delete traceID (q_parentSeen q)
                        else AList.update traceID spans' (q_parentSeen q))\<rparr>))
               else (True, q)))"

definition recordSpan :: "string \<Rightarrow> string \<Rightarrow> gotime \<Rightarrow> Quality \<Rightarrow> Quality" where
  "recordSpan traceID spanID now q =
     (if traceID = [] \<or> spanID = [] then q
      else q\<lparr>q_parentSeen := AList.update traceID
        (AList.update spanID now (case map_of (q_parentSeen q) traceID of None \<Rightarrow> [] | Some spans \<Rightarrow> spans)) (q_parentSeen q)\<rparr>)"

definition maxPlaceholdersPerKey :: nat where "maxPlaceholdersPerKey = 8"

definition recordPlaceholder :: "string \<Rightarrow> string \<Rightarrow> string \<Rightarrow> gotime \<Rightarrow> Quality \<Rightarrow> Quality" where
  "recordPlaceholder key name placeholder now q =
     (let obs = (case map_of (q_placeholders q) key of None \<Rightarrow> [] | Some os \<Rightarrow> os)
              @ [\<lparr>po_Attribute = name, po_Placeholder = placeholder, po_SeenAt = now\<rparr>]
      in q\<lparr>q_placeholders := AList.update key (drop (length obs - maxPlaceholdersPerKey) obs) (q_placeholders q)\<rparr>)"

definition count_span :: "placeholder_table \<Rightarrow> bool \<Rightarrow> SpanObservation \<Rightarrow> QualityCounters \<Rightarrow> QualityCounters" where
  "count_span tbl orphan obs c =
     (let isChild = isNonRootSpan (sp_ParentSpanID obs); traceparent = lookupTraceparent (sp_Attrs obs) in
      c\<lparr>qc_TotalSpans := qc_TotalSpans c + 1, qc_TotalSpansLast24h := qc_TotalSpansLast24h c + 1,
        qc_OrphanSpans := bump orphan (qc_OrphanSpans c),
        qc_MissingAttrSpans := bump (firstMissingRequired (sp_Tier obs) (sp_Attrs obs) \<noteq> []) (qc_MissingAttrSpans c),
        qc_AttrMismatchSpans := bump (fst (firstPlaceholder tbl (sp_Attrs obs)) \<noteq> []) (qc_AttrMismatchSpans c),
        qc_ChildSpans := bump isChild (qc_ChildSpans c),
        qc_SpansWithTraceparent := bump (traceparent \<noteq> []) (qc_SpansWithTraceparent c),
        qc_MalformedTraceparentSpans := bump (traceparent \<noteq> [] \<and> \<not> isWellFormedTraceparent traceparent) (qc_MalformedTraceparentSpans c),
        qc_MissingTraceparentOnChildSpans := bump (traceparent = [] \<and> isChild) (qc_MissingTraceparentOnChildSpans c)\<rparr>)"

definition observe_span :: "placeholder_table \<Rightarrow> gotime \<Rightarrow> SpanObservation \<Rightarrow> Quality \<Rightarrow> Quality" where
  "observe_span tbl now obs q =
     (if sp_Key obs = [] then q
      else
        (let c0 = (case map_of (q_perKey q) (sp_Key obs) of None \<Rightarrow> new_counters now | Some c \<Rightarrow> c);
             q1 = (if sp_Provider obs \<noteq> [] \<and> map_of (q_providers q) (sp_Key obs) = None
                   then q\<lparr>q_providers := AList.update (sp_Key obs) (sp_Provider obs) (q_providers q)\<rparr> else q);
             c1 = roll_windows now c0;
             (seen, q2) = (if isNonRootSpan (sp_ParentSpanID obs) then parentSpanSeen (sp_TraceID obs) (sp_ParentSpanID obs) now q1 else (True, q1));
             q3 = recordSpan (sp_TraceID obs) (sp_SpanID obs) now q2;
             (name, placeholder) = firstPlaceholder tbl (sp_Attrs obs);
             q4 = (if name \<noteq> [] then recordPlaceholder (sp_Key obs) name placeholder now q3 else q3)
         in q4\<lparr>q_perKey := AList.update (sp_Key obs) (count_span tbl (\<not> seen) obs c1) (q_perKey q4)\<rparr>))"

definition expired_keys :: "gotime \<Rightarrow> Quality \<Rightarrow> string list" where
  "expired_keys now q = map fst (filter (\<lambda>(k, c). Sub now (qc_WindowStart c) > 2 * quality_window) (q_perKey q))"

definition stale_trace :: "gotime \<Rightarrow> (string \<times> gotime) list \<Rightarrow> bool" where
  "stale_trace now spans \<longleftrightarrow> \<not> list_ex (\<lambda>(s, seenAt). Sub now seenAt \<le> parentTTL) spans"

definition EvictExpired :: "gotime \<Rightarrow> Quality \<Rightarrow> (int \<times> int) \<times> Quality" where
  "EvictExpired now q =
     (let gone = expired_keys now q in
      ((int (length gone), int (length (filter (\<lambda>(t, spans). stale_trace now spans) (q_parentSeen q)))),
       \<lparr>q_perKey = filter (\<lambda>(k, _). k \<notin> set gone) (q_perKey q), q_placeholders = filter (\<lambda>(k, _). k \<notin> set gone) (q_placeholders q),
        q_providers = filter (\<lambda>(k, _). k \<notin> set gone) (q_providers q),
        q_parentSeen = filter (\<lambda>(t, spans). \<not> stale_trace now spans) (q_parentSeen q)\<rparr>))"

section \<open>Snapshots\<close>

record QualityCountersSnapshot =
  qs_Key :: string
  qs_Provider :: string
  qs_OrphanPct :: real
  qs_MissingAttrPct :: real
  qs_AttrMismatchPct :: real
  qs_TotalSpans :: "64 word"
  qs_WindowStart :: gotime
  qs_Placeholders :: "PlaceholderObservation list"
  qs_MalformedTraceparentPct :: real
  qs_MissingTraceparentOnChildPct :: real
  qs_SpansWithTraceparent :: "64 word"
  qs_ChildSpans :: "64 word"
  qs_TotalSpansLast24h :: "64 word"

definition share_pct :: "rounding \<Rightarrow> 64 word \<Rightarrow> 64 word \<Rightarrow> real" where
  "share_pct rnd n d = (if d > 0 then float_pct rnd (real (unat n)) (real (unat d)) else 0)"

definition snapshotFromCounters :: "rounding \<Rightarrow> string \<Rightarrow> QualityCounters \<Rightarrow> QualityCountersSnapshot" where
  "snapshotFromCounters rnd key c =
     \<lparr>qs_Key = key, qs_Provider = [], qs_OrphanPct = share_pct rnd (qc_OrphanSpans c) (qc_TotalSpans c),
      qs_MissingAttrPct = share_pct rnd (qc_MissingAttrSpans c) (qc_TotalSpans c),
      qs_AttrMismatchPct = share_pct rnd (qc_AttrMismatchSpans c) (qc_TotalSpans c), qs_TotalSpans = qc_TotalSpans c,
      qs_WindowStart = qc_WindowStart c, qs_Placeholders = [],
      qs_MalformedTraceparentPct = share_pct rnd (qc_MalformedTraceparentSpans c) (qc_SpansWithTraceparent c),
      qs_MissingTraceparentOnChildPct = share_pct rnd (qc_MissingTraceparentOnChildSpans c) (qc_ChildSpans c),
      qs_SpansWithTraceparent = qc_SpansWithTraceparent c, qs_ChildSpans = qc_ChildSpans c, qs_TotalSpansLast24h = qc_TotalSpansLast24h c\<rparr>"

definition key_snapshot :: "rounding \<Rightarrow> Quality \<Rightarrow> string \<Rightarrow> QualityCounters \<Rightarrow> QualityCountersSnapshot" where
  "key_snapshot rnd q key c =
     (snapshotFromCounters rnd key c)\<lparr>qs_Provider := attr (q_providers q) key,
       qs_Placeholders := (case map_of (q_placeholders q) key of None \<Rightarrow> [] | Some os \<Rightarrow> os)\<rparr>"

definition SnapshotKey :: "rounding \<Rightarrow> string \<Rightarrow> Quality \<Rightarrow> QualityCountersSnapshot option" where
  "SnapshotKey rnd key q = map_option (key_snapshot rnd q key) (map_of (q_perKey q) key)"

definition SnapshotAll :: "rounding \<Rightarrow> Quality \<Rightarrow> QualityCountersSnapshot list" where
  "SnapshotAll rnd q = map (\<lambda>(key, c). key_snapshot rnd q key c) (q_perKey q)"

definition SpanCountLast24h :: "string \<Rightarrow> Quality \<Rightarrow> (64 word) option" where
  "SpanCountLast24h key q = map_option qc_TotalSpansLast24h (map_of (q_perKey q) key)"

section \<open>The background flusher\<close>

text \<open>
  One cycle: the eviction at \<open>t\<close>, the flush between two clock readings, and the audit entry it leaves, if the
  emitter is wired and anything was written.
\<close>

definition milliseconds :: "duration \<Rightarrow> int" where
  "milliseconds d = (if d < 0 then - (- d div 1000000) else d div 1000000)"

definition flushOnce ::
  "row_sort \<Rightarrow> bool \<Rightarrow> gotime \<Rightarrow> gotime \<Rightarrow> gotime \<Rightarrow> int \<Rightarrow> TraceIndex \<times> Quality option \<Rightarrow> payload option \<times> TraceIndex \<times> Quality option" where
  "flushOnce srt audit_wired t start fin intervalSeconds s =
     (case s of (ix, quality) \<Rightarrow>
        (let quality' = map_option (\<lambda>q. snd (EvictExpired t q)) quality;
             ((written, evicted), ix') = Flush srt ix;
             entry = (if (written = 0 \<and> evicted = 0) \<or> \<not> audit_wired then None
                      else Some [(''rows_written'', JInt written), (''rows_evicted'', JInt evicted),
                        (''duration_ms'', JInt (milliseconds (Sub fin start))), (''interval_s'', JInt intervalSeconds)])
         in (entry, ix', quality')))"

end
