(* ===== verification/Span_Tracking.thy ===== *)
theory Span_Tracking
  imports Span_Quality
begin

text \<open>
  What the span quality counters mean: a child span is counted as an orphan exactly when no span with its
  parent's id was observed on its trace within the last five minutes, whatever was evicted in between; every
  numerator stays within its denominator, so that all percentages lie between 0 and 100; a trace context value
  is well formed exactly when it follows the W3C grammar; and the count of the last day does not survive a
  quiet hour.
\<close>

section \<open>Histories\<close>

datatype span_event = Span gotime placeholder_table SpanObservation | Evict gotime

fun quality_step :: "Quality \<Rightarrow> span_event \<Rightarrow> Quality" where
  "quality_step q (Span now tbl obs) = observe_span tbl now obs q"
| "quality_step q (Evict now) = snd (EvictExpired now q)"

abbreviation quality_run :: "span_event list \<Rightarrow> Quality" where
  "quality_run es \<equiv> foldl quality_step NewQuality es"

fun event_time :: "span_event \<Rightarrow> gotime" where
  "event_time (Span now tbl obs) = now"
| "event_time (Evict now) = now"

text \<open>The reference: a recorded span with the given ids at most \<open>parentTTL\<close> ago.\<close>

definition seen_recently :: "span_event list \<Rightarrow> gotime \<Rightarrow> string \<Rightarrow> string \<Rightarrow> bool" where
  "seen_recently es now traceID spanID \<longleftrightarrow>
     (\<exists>t tbl obs. Span t tbl obs \<in> set es \<and> sp_Key obs \<noteq> [] \<and> sp_TraceID obs = traceID \<and> sp_SpanID obs = spanID
        \<and> traceID \<noteq> [] \<and> spanID \<noteq> [] \<and> now - t \<le> parentTTL)"

definition entry_time :: "Quality \<Rightarrow> string \<Rightarrow> string \<Rightarrow> gotime option" where
  "entry_time q traceID spanID = (case map_of (q_parentSeen q) traceID of None \<Rightarrow> None | Some spans \<Rightarrow> map_of spans spanID)"

definition fresh_entry :: "Quality \<Rightarrow> gotime \<Rightarrow> string \<Rightarrow> string \<Rightarrow> bool" where
  "fresh_entry q now traceID spanID \<longleftrightarrow> (\<exists>t. entry_time q traceID spanID = Some t \<and> now - t \<le> parentTTL)"

text \<open>The traces are a map and no recorded time lies after the given one.\<close>

definition traces_ok :: "gotime \<Rightarrow> Quality \<Rightarrow> bool" where
  "traces_ok now q \<longleftrightarrow> distinct (map fst (q_parentSeen q)) \<and> (\<forall>t s x. entry_time q t s = Some x \<longrightarrow> x \<le> now)"

lemma Sub_le: "Sub x y \<le> c \<longleftrightarrow> x - y \<le> c" if "0 \<le> c" "c \<le> 24 * hour"
  using that by (auto simp: Sub_def)

lemma Sub_gr: "Sub x y > c \<longleftrightarrow> x - y > c" if "0 \<le> c" "c \<le> 24 * hour"
  using that by (auto simp: Sub_def)

section \<open>Orphans\<close>

lemma parentSpanSeen_fst: "fst (parentSpanSeen tr p now q) \<longleftrightarrow> fresh_entry q now tr p"
  by (auto simp: parentSpanSeen_def fresh_entry_def entry_time_def Sub_gr not_less Let_def split: option.split)

lemma delete_last: "AList.delete k xs = [] \<Longrightarrow> k' \<noteq> k \<Longrightarrow> map_of xs k' = None"
  using map_of_delete [of k xs] by (metis map_of.simps(1))

lemma parentSpanSeen_entry_time:
  "entry_time (snd (parentSpanSeen tr p now q)) t s =
     (if t = tr \<and> s = p \<and> \<not> fresh_entry q now tr p then None else entry_time q t s)"
proof (cases "map_of (q_parentSeen q) tr")
  case None
  then show ?thesis by (simp add: parentSpanSeen_def entry_time_def)
next
  case spans: (Some spans)
  show ?thesis
  proof (cases "map_of spans p")
    case None
    then show ?thesis using spans by (simp add: parentSpanSeen_def entry_time_def)
  next
    case (Some seen)
    have "fresh_entry q now tr p \<longleftrightarrow> \<not> Sub now seen > parentTTL" using Some spans by (simp add: fresh_entry_def entry_time_def Sub_gr not_less)
    then show ?thesis using Some spans delete_last [of p spans s]
      by (cases "Sub now seen > parentTTL"; cases "AList.delete p spans = []") (simp_all add: parentSpanSeen_def entry_time_def)
  qed
qed

lemma parentSpanSeen_entry:
  assumes "now \<le> later"
  shows "fresh_entry (snd (parentSpanSeen tr p now q)) later t s \<longleftrightarrow> fresh_entry q later t s"
  using assms unfolding fresh_entry_def parentSpanSeen_entry_time by auto

lemma recordSpan_entry:
  "entry_time (recordSpan tr sp now q) t s = (if tr \<noteq> [] \<and> sp \<noteq> [] \<and> t = tr \<and> s = sp then Some now else entry_time q t s)"
  by (auto simp: recordSpan_def entry_time_def split: option.splits)

lemma recordPlaceholder_entry [simp]: "entry_time (recordPlaceholder k n p now q) t s = entry_time q t s"
  by (simp add: recordPlaceholder_def entry_time_def Let_def)

lemma map_of_filter_values:
  "distinct (map fst xs) \<Longrightarrow> map_of (filter (\<lambda>(k, v). P v) xs) k = (case map_of xs k of None \<Rightarrow> None | Some v \<Rightarrow> if P v then Some v else None)"
  by (induction xs) (auto simp: map_of_eq_None_iff split: option.split)

lemma evict_lookup:
  "distinct (map fst (q_parentSeen q)) \<Longrightarrow> entry_time (snd (EvictExpired now q)) t s =
     (case map_of (q_parentSeen q) t of None \<Rightarrow> None | Some spans \<Rightarrow> if stale_trace now spans then None else map_of spans s)"
  by (simp add: EvictExpired_def entry_time_def Let_def map_of_filter_values split: option.split)

lemma evict_entry:
  assumes "now \<le> later" "distinct (map fst (q_parentSeen q))"
  shows "fresh_entry (snd (EvictExpired now q)) later t s \<longleftrightarrow> fresh_entry q later t s"
proof (cases "map_of (q_parentSeen q) t")
  case (Some spans)
  have "\<not> stale_trace now spans" if "map_of spans s = Some x" "later - x \<le> parentTTL" for x
  proof -
    have "(s, x) \<in> set spans" "Sub now x \<le> parentTTL" using that assms(1) by (auto simp: Sub_le dest: map_of_SomeD)
    then show ?thesis by (auto simp: stale_trace_def list_ex_iff)
  qed
  moreover have "entry_time q t s = map_of spans s" by (simp add: entry_time_def Some)
  moreover have "entry_time (snd (EvictExpired now q)) t s = (if stale_trace now spans then None else map_of spans s)"
    by (simp add: evict_lookup [OF assms(2)] Some)
  ultimately show ?thesis by (auto simp: fresh_entry_def)
next
  case None
  then have "entry_time q t s = None" "entry_time (snd (EvictExpired now q)) t s = None"
    by (simp_all add: evict_lookup [OF assms(2)]) (simp add: entry_time_def)
  then show ?thesis by (simp add: fresh_entry_def)
qed

definition after_lookup :: "gotime \<Rightarrow> SpanObservation \<Rightarrow> Quality \<Rightarrow> Quality" where
  "after_lookup now obs q = (if isNonRootSpan (sp_ParentSpanID obs) then snd (parentSpanSeen (sp_TraceID obs) (sp_ParentSpanID obs) now q) else q)"

lemma observe_parentSeen:
  assumes "sp_Key obs \<noteq> []"
  shows "q_parentSeen (observe_span tbl now obs q) = q_parentSeen (recordSpan (sp_TraceID obs) (sp_SpanID obs) now (after_lookup now obs q))"
proof -
  have *: "q_parentSeen (snd (parentSpanSeen tr pa now (q\<lparr>q_providers := x\<rparr>))) = q_parentSeen (snd (parentSpanSeen tr pa now q))" for tr pa x
    by (auto simp: parentSpanSeen_def Let_def split: option.split)
  have **: "q_parentSeen r = q_parentSeen r' \<Longrightarrow> q_parentSeen (recordSpan tr sp now r) = q_parentSeen (recordSpan tr sp now r')" for tr sp r r'
    by (simp add: recordSpan_def)
  show ?thesis
    using assms(1) by (auto simp: observe_span_def after_lookup_def recordPlaceholder_def Let_def prod.case_eq_if * intro!: **)
qed

lemma observe_entry:
  "sp_Key obs \<noteq> [] \<Longrightarrow> entry_time (observe_span tbl now obs q) t s =
     (if sp_TraceID obs \<noteq> [] \<and> sp_SpanID obs \<noteq> [] \<and> t = sp_TraceID obs \<and> s = sp_SpanID obs then Some now else entry_time (after_lookup now obs q) t s)"
  using observe_parentSeen [of obs tbl now q] recordSpan_entry by (simp add: entry_time_def)

lemma after_lookup_entry: "entry_time (after_lookup now obs q) t s \<in> {None, entry_time q t s}"
  by (auto simp: after_lookup_def parentSpanSeen_def entry_time_def Let_def split: option.split)

lemma observe_traces_ok:
  assumes "traces_ok before q" "before \<le> now" shows "traces_ok now (observe_span tbl now obs q)"
proof (cases "sp_Key obs = []")
  case True
  then show ?thesis using assms by (force simp: observe_span_def traces_ok_def)
next
  case False
  have "distinct (map fst (q_parentSeen (after_lookup now obs q)))"
    using assms(1) by (auto simp: after_lookup_def parentSpanSeen_def traces_ok_def Let_def distinct_update distinct_delete split: option.split)
  then have "distinct (map fst (q_parentSeen (observe_span tbl now obs q)))"
    unfolding observe_parentSeen [OF False] by (simp add: recordSpan_def distinct_update)
  moreover have "x \<le> now" if "entry_time (observe_span tbl now obs q) t s = Some x" for t s x
  proof -
    have "x = now \<or> entry_time q t s = Some x"
      using that after_lookup_entry [of now obs q t s] by (auto simp: observe_entry [OF False] split: if_splits)
    then show ?thesis using assms by (force simp: traces_ok_def)
  qed
  ultimately show ?thesis by (auto simp: traces_ok_def)
qed

lemma evict_traces_ok: "traces_ok before q \<Longrightarrow> before \<le> now \<Longrightarrow> traces_ok now (snd (EvictExpired now q))"
  unfolding traces_ok_def
proof (elim conjE, intro conjI allI impI)
  assume q: "distinct (map fst (q_parentSeen q))" "\<forall>t s x. entry_time q t s = Some x \<longrightarrow> x \<le> before" "before \<le> now"
  show "distinct (map fst (q_parentSeen (snd (EvictExpired now q))))" using q(1) by (simp add: EvictExpired_def Let_def distinct_map_filter)
  fix t s x assume "entry_time (snd (EvictExpired now q)) t s = Some x"
  then have "entry_time q t s = Some x" using evict_lookup [OF q(1)] by (auto simp: entry_time_def split: option.splits if_splits)
  then show "x \<le> now" using q(2,3) by force
qed

lemma observe_fresh:
  assumes "traces_ok before q" "before \<le> now" "now \<le> later" "sp_Key obs \<noteq> []"
  shows "fresh_entry (observe_span tbl now obs q) later t s \<longleftrightarrow>
    fresh_entry q later t s \<or> sp_TraceID obs = t \<and> sp_SpanID obs = s \<and> t \<noteq> [] \<and> s \<noteq> [] \<and> later - now \<le> parentTTL"
proof -
  have "fresh_entry (after_lookup now obs q) later t s \<longleftrightarrow> fresh_entry q later t s"
    using parentSpanSeen_entry [OF assms(3)] by (simp add: after_lookup_def)
  moreover have "later - now \<le> parentTTL" if "fresh_entry q later t s"
    using that assms(1,2) unfolding fresh_entry_def traces_ok_def by force
  ultimately show ?thesis unfolding fresh_entry_def observe_entry [OF assms(4)] by auto
qed

lemma seen_recently_snoc:
  "seen_recently (es @ [e]) later t s \<longleftrightarrow> seen_recently es later t s \<or>
     (\<exists>now tbl obs. e = Span now tbl obs \<and> sp_Key obs \<noteq> [] \<and> sp_TraceID obs = t \<and> sp_SpanID obs = s \<and> t \<noteq> [] \<and> s \<noteq> [] \<and> later - now \<le> parentTTL)"
  unfolding seen_recently_def by auto

lemma run_fresh:
  assumes "sorted (map event_time es @ [later])"
  shows "(fresh_entry (quality_run es) later t s \<longleftrightarrow> seen_recently es later t s) \<and> traces_ok later (quality_run es)"
  using assms
proof (induction es arbitrary: later rule: rev_induct)
  case Nil
  show ?case by (simp add: NewQuality_def fresh_entry_def entry_time_def seen_recently_def traces_ok_def)
next
  case (snoc e es)
  let ?q = "quality_run es"
  have order: "sorted (map event_time es @ [event_time e])" "sorted (map event_time es @ [later])" "event_time e \<le> later"
    using snoc.prems by (auto simp: sorted_append)
  have ok: "traces_ok (event_time e) ?q" using snoc.IH [OF order(1)] by blast
  have IH: "fresh_entry ?q later t s \<longleftrightarrow> seen_recently es later t s" using snoc.IH [OF order(2)] by blast
  have step_ok: "traces_ok (event_time e) (quality_step ?q e)"
    using observe_traces_ok [OF ok order_refl] evict_traces_ok [OF ok order_refl] by (cases e) auto
  then have "traces_ok later (quality_step ?q e)" using order(3) unfolding traces_ok_def by force
  moreover have "fresh_entry (quality_step ?q e) later t s \<longleftrightarrow> seen_recently (es @ [e]) later t s"
  proof (cases e)
    case (Evict now)
    then show ?thesis using IH evict_entry [of now later ?q] ok order(3) by (simp add: seen_recently_snoc traces_ok_def)
  next
    case (Span now tbl obs)
    show ?thesis
    proof (cases "sp_Key obs = []")
      case True
      then show ?thesis using Span IH by (simp add: seen_recently_snoc observe_span_def)
    next
      case False
      then show ?thesis using Span IH observe_fresh [OF ok, of now later obs] order(3) by (simp add: seen_recently_snoc)
    qed
  qed
  ultimately show ?case by simp
qed

text \<open>The counters of the observed key after an observation.\<close>

definition counters_before :: "gotime \<Rightarrow> string \<Rightarrow> Quality \<Rightarrow> QualityCounters" where
  "counters_before now key q = (case map_of (q_perKey q) key of None \<Rightarrow> new_counters now | Some c \<Rightarrow> c)"

lemma q_perKey_frames [simp]:
  "q_perKey (recordSpan tr sp now q) = q_perKey q" "q_perKey (snd (parentSpanSeen tr p now q)) = q_perKey q"
  "q_perKey (recordPlaceholder k n p now q) = q_perKey q"
  by (auto simp: recordSpan_def parentSpanSeen_def recordPlaceholder_def Let_def split: option.split)

lemma observe_counters:
  assumes "sp_Key obs \<noteq> []"
  shows "q_perKey (observe_span tbl now obs q) = AList.update (sp_Key obs)
    (count_span tbl (isNonRootSpan (sp_ParentSpanID obs) \<and> \<not> fresh_entry q now (sp_TraceID obs) (sp_ParentSpanID obs)) obs
       (roll_windows now (counters_before now (sp_Key obs) q))) (q_perKey q)"
proof -
  have "fresh_entry (q\<lparr>q_providers := x\<rparr>) now t s = fresh_entry q now t s" for x t s by (simp add: fresh_entry_def entry_time_def)
  then show ?thesis using assms
    by (auto simp: observe_span_def counters_before_def Let_def prod.case_eq_if parentSpanSeen_fst)
qed

text \<open>
  C38: orphan detection is exact.  On a clock that does not run backwards, after any history of spans and
  evictions, a span adds one to the orphans of its resource's current window exactly when it names a parent
  and no span with that id was observed on the same trace within the last five minutes; looking up parents,
  overwriting entries and dropping aged traces never change the verdict.
\<close>

theorem orphans_exact:
  assumes "sorted (map event_time es @ [now])" "sp_Key obs \<noteq> []"
  shows "\<exists>c. map_of (q_perKey (observe_span tbl now obs (quality_run es))) (sp_Key obs) = Some c
    \<and> qc_OrphanSpans c =
        (case map_of (q_perKey (quality_run es)) (sp_Key obs) of
           None \<Rightarrow> 0
         | Some old \<Rightarrow> if now - qc_WindowStart old > hour then 0 else qc_OrphanSpans old)
        + (if isNonRootSpan (sp_ParentSpanID obs) \<and> \<not> seen_recently es now (sp_TraceID obs) (sp_ParentSpanID obs) then 1 else 0)"
proof -
  have "fresh_entry (quality_run es) now t s \<longleftrightarrow> seen_recently es now t s" for t s using run_fresh [OF assms(1)] by blast
  then show ?thesis unfolding observe_counters [OF assms(2)]
    by (auto simp: count_span_def Let_def bump_def counters_before_def roll_windows_def new_counters_def Sub_gr split: option.split)
qed

section \<open>Shares\<close>

text \<open>Every numerator within its denominator, and the total within a bound on the number of spans.\<close>

definition counters_ok :: "nat \<Rightarrow> QualityCounters \<Rightarrow> bool" where
  "counters_ok n c \<longleftrightarrow>
     unat (qc_TotalSpans c) \<le> n \<and> unat (qc_ChildSpans c) \<le> unat (qc_TotalSpans c) \<and> unat (qc_OrphanSpans c) \<le> unat (qc_ChildSpans c)
     \<and> unat (qc_MissingAttrSpans c) \<le> unat (qc_TotalSpans c) \<and> unat (qc_AttrMismatchSpans c) \<le> unat (qc_TotalSpans c)
     \<and> unat (qc_SpansWithTraceparent c) + unat (qc_MissingTraceparentOnChildSpans c) \<le> unat (qc_TotalSpans c)
     \<and> unat (qc_MalformedTraceparentSpans c) \<le> unat (qc_SpansWithTraceparent c)
     \<and> unat (qc_MissingTraceparentOnChildSpans c) \<le> unat (qc_ChildSpans c)"

lemma unat_bump: "unat x < 2 ^ 64 - 1 \<Longrightarrow> unat (bump b x) = unat x + (if b then 1 else 0)"
  by (simp add: bump_def unat_word_ariths)

lemma unat_succ: "unat (x :: 64 word) < 2 ^ 64 - 1 \<Longrightarrow> unat (x + 1) = unat x + 1"
  using unat_bump [of x True] by (simp add: bump_def)

lemma counters_ok_new: "counters_ok n (new_counters now)"
  by (simp add: counters_ok_def new_counters_def)

lemma counters_ok_roll: "counters_ok n c \<Longrightarrow> counters_ok n (roll_windows now c)"
  by (simp add: counters_ok_def roll_windows_def new_counters_def Let_def)

lemma counters_ok_count:
  assumes "counters_ok n c" "n < 2 ^ 64 - 1" "orphan \<longrightarrow> isNonRootSpan (sp_ParentSpanID obs)"
  shows "counters_ok (Suc n) (count_span tbl orphan obs c)"
proof -
  have small: "unat (qc_TotalSpans c) < 2 ^ 64 - 1" "unat (qc_ChildSpans c) < 2 ^ 64 - 1" "unat (qc_OrphanSpans c) < 2 ^ 64 - 1"
    "unat (qc_MissingAttrSpans c) < 2 ^ 64 - 1" "unat (qc_AttrMismatchSpans c) < 2 ^ 64 - 1" "unat (qc_SpansWithTraceparent c) < 2 ^ 64 - 1"
    "unat (qc_MissingTraceparentOnChildSpans c) < 2 ^ 64 - 1" "unat (qc_MalformedTraceparentSpans c) < 2 ^ 64 - 1"
    using assms(1,2) unfolding counters_ok_def by linarith+
  show ?thesis using assms unfolding counters_ok_def count_span_def Let_def
    by (simp add: unat_bump [OF small(2)] unat_bump [OF small(3)] unat_bump [OF small(4)] unat_bump [OF small(5)] unat_bump [OF small(6)]
        unat_bump [OF small(7)] unat_bump [OF small(8)] unat_succ [OF small(1)])
qed

lemma run_counters_ok:
  "length es < 2 ^ 64 \<Longrightarrow> (k, c) \<in> set (q_perKey (quality_run es)) \<Longrightarrow> counters_ok (length es) c"
proof (induction es arbitrary: k c rule: rev_induct)
  case Nil
  then show ?case by (simp add: NewQuality_def)
next
  case (snoc e es)
  have mono: "counters_ok n c \<Longrightarrow> counters_ok (Suc n) c" for n c by (auto simp: counters_ok_def)
  have IH: "counters_ok (length es) c" if "(k, c) \<in> set (q_perKey (quality_run es))" for k c using snoc.IH snoc.prems(1) that by simp
  show ?case
  proof (cases e)
    case (Evict now)
    then show ?thesis using snoc.prems(2) IH mono by (auto simp: EvictExpired_def Let_def)
  next
    case (Span now tbl obs)
    show ?thesis
    proof (cases "sp_Key obs = []")
      case True
      then show ?thesis using Span snoc.prems(2) IH mono by (auto simp: observe_span_def)
    next
      case False
      have "counters_ok (length es) (roll_windows now (counters_before now (sp_Key obs) (quality_run es)))"
        by (rule counters_ok_roll) (auto simp: counters_before_def counters_ok_new dest: map_of_SomeD IH split: option.split)
      then have "counters_ok (Suc (length es)) (count_span tbl (isNonRootSpan (sp_ParentSpanID obs) \<and> x) obs
          (roll_windows now (counters_before now (sp_Key obs) (quality_run es))))" for x
        using snoc.prems(1) by (intro counters_ok_count) auto
      then show ?thesis using Span snoc.prems(2) IH mono set_update_subset by (fastforce simp: observe_counters [OF False])
    qed
  qed
qed

lemma share_pct_range: "float_rounding rnd \<Longrightarrow> unat n \<le> unat d \<Longrightarrow> 0 \<le> share_pct rnd n d \<and> share_pct rnd n d \<le> 100"
  using unat_gt_0 [of d] float_pct_range [of rnd "real (unat n)" "real (unat d)"]
  by (auto simp: share_pct_def word_neq_0_conv Suc_le_eq simp del: of_nat_unat)

lemma run_placeholders: "(k, os) \<in> set (q_placeholders (quality_run es)) \<Longrightarrow> length os \<le> maxPlaceholdersPerKey"
proof (induction es arbitrary: k os rule: rev_induct)
  case (snoc e es)
  have frames: "q_placeholders (recordSpan tr sp now q) = q_placeholders q" "q_placeholders (snd (parentSpanSeen tr p now q)) = q_placeholders q"
    for tr sp now p q by (auto simp: recordSpan_def parentSpanSeen_def Let_def split: option.split)
  have "length os \<le> maxPlaceholdersPerKey \<or> (k, os) \<in> set (q_placeholders q)" if "(k, os) \<in> set (q_placeholders (recordPlaceholder i n p now q))"
    for k os i n p now q using that set_update_subset by (fastforce simp: recordPlaceholder_def Let_def)
  note placeholder = this
  show ?case using snoc
    by (cases e) (auto simp: EvictExpired_def observe_span_def Let_def prod.case_eq_if frames split: if_splits dest!: placeholder)
qed (simp add: NewQuality_def)

text \<open>
  every percentage that a snapshot reports lies between 0 and 100, the denominators it shows next to them
  are within the total, and at most eight placeholders are listed, after any history of fewer than \<open>2\<^sup>6\<^sup>4\<close> events:
  the counters do not wrap around and no numerator overtakes its denominator, windows and evictions included.
\<close>

theorem shares_are_percentages:
  assumes "length es < 2 ^ 64" "SnapshotKey rnd key (quality_run es) = Some s" "float_rounding rnd"
  shows "(\<forall>x \<in> {qs_OrphanPct s, qs_MissingAttrPct s, qs_AttrMismatchPct s, qs_MalformedTraceparentPct s, qs_MissingTraceparentOnChildPct s}.
      0 \<le> x \<and> x \<le> 100)
    \<and> qs_ChildSpans s \<le> qs_TotalSpans s \<and> qs_SpansWithTraceparent s \<le> qs_TotalSpans s \<and> length (qs_Placeholders s) \<le> 8"
proof -
  obtain c where c: "map_of (q_perKey (quality_run es)) key = Some c" "s = key_snapshot rnd (quality_run es) key c"
    using assms(2) by (auto simp: SnapshotKey_def)
  have ok: "counters_ok (length es) c" using run_counters_ok [OF assms(1) map_of_SomeD [OF c(1)]] .
  have "length (qs_Placeholders s) \<le> 8"
    using run_placeholders [OF map_of_SomeD] by (auto simp: c(2) key_snapshot_def maxPlaceholdersPerKey_def split: option.split)
  moreover have "qs_ChildSpans s \<le> qs_TotalSpans s" "qs_SpansWithTraceparent s \<le> qs_TotalSpans s"
    using ok by (simp_all add: c(2) key_snapshot_def snapshotFromCounters_def counters_ok_def word_le_nat_alt)
  moreover have "0 \<le> x \<and> x \<le> 100"
    if m: "x \<in> {qs_OrphanPct s, qs_MissingAttrPct s, qs_AttrMismatchPct s, qs_MalformedTraceparentPct s, qs_MissingTraceparentOnChildPct s}" for x
  proof -
    obtain n d where "x = share_pct rnd n d" "unat n \<le> unat d"
      using m ok unfolding c(2) key_snapshot_def snapshotFromCounters_def counters_ok_def by (elim insertE emptyE) (auto dest: order_trans)
    then show ?thesis using share_pct_range assms(3) by simp
  qed
  ultimately show ?thesis by blast
qed

section \<open>The W3C grammar\<close>

definition hex_digits :: string where "hex_digits = ''0123456789abcdef''"

lemma hex_digit: "(CHR ''0'' \<le> c \<and> c \<le> CHR ''9'') \<or> (CHR ''a'' \<le> c \<and> c \<le> CHR ''f'') \<longleftrightarrow> c \<in> set hex_digits"
proof -
  have "\<forall>c :: char. (CHR ''0'' \<le> c \<and> c \<le> CHR ''9'') \<or> (CHR ''a'' \<le> c \<and> c \<le> CHR ''f'') \<longleftrightarrow> c \<in> set hex_digits"
    by code_simp
  then show ?thesis by blast
qed

lemma isHexLowerOrDigit_iff: "isHexLowerOrDigit s \<longleftrightarrow> set s \<subseteq> set hex_digits"
  by (auto simp: isHexLowerOrDigit_def list_all_iff hex_digit)

lemma isAllZerosHex_iff: "isAllZerosHex s \<longleftrightarrow> set s \<subseteq> {CHR ''0''}"
  by (auto simp: isAllZerosHex_def list_all_iff)

text \<open>
  C40: a trace context value is accepted exactly when it follows the version 00 grammar: the version, a trace
  id of 32, a parent id of 16 and flags of 2 lower-case hexadecimal digits, joined by hyphens, neither id zero.
\<close>

theorem traceparent_grammar:
  "isWellFormedTraceparent v \<longleftrightarrow>
     (\<exists>tid pid flags. v = ''00-'' @ tid @ ''-'' @ pid @ ''-'' @ flags \<and> length tid = 32 \<and> length pid = 16 \<and> length flags = 2
        \<and> set (tid @ pid @ flags) \<subseteq> set hex_digits \<and> \<not> set tid \<subseteq> {CHR ''0''} \<and> \<not> set pid \<subseteq> {CHR ''0''})"
proof
  assume w: "isWellFormedTraceparent v"
  then have len: "length v = 55" by (simp add: isWellFormedTraceparent_def TraceparentExpectedLen_def)
  have "take 35 v = take 3 v @ slice 3 35 v" using take_add [of 3 32 v] by (simp add: slice_def)
  moreover have "v = take 35 v @ v ! 35 # drop 36 v" using id_take_nth_drop [of 35 v] len by simp
  moreover have "drop 36 v = slice 36 52 v @ v ! 52 # slice 53 55 v" using id_take_nth_drop [of 16 "drop 36 v"] len by (simp add: slice_def)
  ultimately have eq: "v = take 3 v @ slice 3 35 v @ [v ! 35] @ slice 36 52 v @ [v ! 52] @ slice 53 55 v"
    by (metis append.assoc append_Cons append_Nil)
  have "take 3 v = [v ! 0, v ! 1, v ! 2]" using len by (intro nth_equalityI) (auto simp: less_Suc_eq numeral_3_eq_3 numeral_2_eq_2)
  then have "take 3 v = ''00-''" "v ! 35 = CHR ''-''" "v ! 52 = CHR ''-''" using w by (simp_all add: isWellFormedTraceparent_def)
  from eq [unfolded this] have shape: "v = ''00-'' @ slice 3 35 v @ ''-'' @ slice 36 52 v @ ''-'' @ slice 53 55 v" .
  have "length (slice 3 35 v) = 32" "length (slice 36 52 v) = 16" "length (slice 53 55 v) = 2" using len by (simp_all add: slice_def)
  moreover have "set (slice 3 35 v @ slice 36 52 v @ slice 53 55 v) \<subseteq> set hex_digits" "\<not> set (slice 3 35 v) \<subseteq> {CHR ''0''}"
    "\<not> set (slice 36 52 v) \<subseteq> {CHR ''0''}"
    using w by (simp_all add: isWellFormedTraceparent_def isHexLowerOrDigit_iff isAllZerosHex_iff)
  ultimately show "\<exists>tid pid flags. v = ''00-'' @ tid @ ''-'' @ pid @ ''-'' @ flags \<and> length tid = 32 \<and> length pid = 16 \<and> length flags = 2
      \<and> set (tid @ pid @ flags) \<subseteq> set hex_digits \<and> \<not> set tid \<subseteq> {CHR ''0''} \<and> \<not> set pid \<subseteq> {CHR ''0''}"
    using shape by blast
next
  assume "\<exists>tid pid flags. v = ''00-'' @ tid @ ''-'' @ pid @ ''-'' @ flags \<and> length tid = 32 \<and> length pid = 16 \<and> length flags = 2
      \<and> set (tid @ pid @ flags) \<subseteq> set hex_digits \<and> \<not> set tid \<subseteq> {CHR ''0''} \<and> \<not> set pid \<subseteq> {CHR ''0''}"
  then obtain tid pid flags where v: "v = ''00-'' @ tid @ ''-'' @ pid @ ''-'' @ flags" "length tid = 32" "length pid = 16" "length flags = 2"
    and h: "set (tid @ pid @ flags) \<subseteq> set hex_digits" "\<not> set tid \<subseteq> {CHR ''0''}" "\<not> set pid \<subseteq> {CHR ''0''}" by blast
  have "slice 3 35 v = tid" "slice 36 52 v = pid" "slice 53 55 v = flags" using v(2-4) by (simp_all add: v(1) slice_def numeral_eq_Suc)
  moreover have "v ! 35 = CHR ''-''" "v ! 52 = CHR ''-''" "v ! 2 = CHR ''-''" "v ! 0 = CHR ''0''" "v ! 1 = CHR ''0''" "length v = 55"
    using v(2-4) by (simp_all add: v(1) nth_append nth_Cons')
  ultimately show "isWellFormedTraceparent v" using h
    by (simp add: isWellFormedTraceparent_def TraceparentExpectedLen_def isHexLowerOrDigit_iff isAllZerosHex_iff)
qed

section \<open>The count of the last day\<close>

text \<open>
  the 24-hour count ends with the one-hour window.  An eviction more than two hours after the start of a
  resource's current one-hour window forgets its 24-hour count as well, however many of its spans the day had:
  until the next span there is no count, and with the next span it is 1.
\<close>

theorem eviction_resets_day_count:
  assumes "map_of (q_perKey q) (sp_Key obs) = Some c" "sp_Key obs \<noteq> []" "t - qc_WindowStart c > 2 * hour"
  shows "SpanCountLast24h (sp_Key obs) (snd (EvictExpired t q)) = None
    \<and> SpanCountLast24h (sp_Key obs) (observe_span tbl now obs (snd (EvictExpired t q))) = Some 1"
proof -
  have "sp_Key obs \<in> set (expired_keys t q)"
    using assms(3) map_of_SomeD [OF assms(1)] by (force simp: expired_keys_def Sub_gr)
  then have none: "map_of (q_perKey (snd (EvictExpired t q))) (sp_Key obs) = None"
    by (auto simp: EvictExpired_def Let_def map_of_eq_None_iff)
  then show ?thesis
    by (simp add: SpanCountLast24h_def observe_counters [OF assms(2)] counters_before_def count_span_def Let_def roll_windows_def new_counters_def Sub_def)
qed

section \<open>Witnesses\<close>

definition demo_span :: "string \<Rightarrow> string \<Rightarrow> SpanObservation" where
  "demo_span i parent = \<lparr>sp_Key = ''aws:42:a'', sp_Provider = ''aws'', sp_TraceID = ''7f'', sp_SpanID = i, sp_ParentSpanID = parent,
     sp_Tier = ''db'', sp_Attrs = [(''service.name'', ''unknown_service'')]\<rparr>"

definition demo_spans :: "span_event list" where
  "demo_spans = [Span hour placeholdersByAttr (demo_span ''1a'' []), Span (hour + 59 * minute) placeholdersByAttr (demo_span ''1b'' ''1a'')]"

lemma demo_counters:
  "map_option (\<lambda>c. (qc_TotalSpans c, qc_OrphanSpans c, qc_TotalSpansLast24h c, qc_WindowStart c)) (map_of (q_perKey (quality_run demo_spans)) ''aws:42:a'')
     = Some (2, 1, 2, hour)"
  by code_simp

text \<open>A child of a span seen 59 minutes before is an orphan, a second child two minutes later of the first child is not.\<close>

theorem orphans_exact_witness:
  "\<exists>c. map_of (q_perKey (observe_span placeholdersByAttr (hour + 61 * minute) (demo_span ''1c'' ''1b'') (quality_run demo_spans))) ''aws:42:a'' = Some c
     \<and> qc_OrphanSpans c = 0"
proof -
  have "sorted (map event_time demo_spans @ [hour + 61 * minute])" "sp_Key (demo_span ''1c'' ''1b'') \<noteq> []" by (simp_all add: demo_spans_def demo_span_def)
  note exact = orphans_exact [OF this, of placeholdersByAttr]
  have "seen_recently demo_spans (hour + 61 * minute) ''7f'' ''1b''"
    unfolding seen_recently_def by (rule exI [of _ "hour + 59 * minute"]) (auto simp: demo_spans_def demo_span_def)
  moreover obtain old where "map_of (q_perKey (quality_run demo_spans)) ''aws:42:a'' = Some old" "qc_WindowStart old = hour" using demo_counters by auto
  ultimately show ?thesis using exact by (auto simp: demo_span_def)
qed

theorem shares_are_percentages_witness:
  "\<exists>s. SnapshotKey fixed_point ''aws:42:a'' (quality_run demo_spans) = Some s \<and> qs_OrphanPct s \<le> 100 \<and> qs_ChildSpans s \<le> qs_TotalSpans s"
proof -
  obtain s where s: "SnapshotKey fixed_point ''aws:42:a'' (quality_run demo_spans) = Some s" using demo_counters by (auto simp: SnapshotKey_def)
  have "length demo_spans < 2 ^ 64" by (simp add: demo_spans_def)
  from shares_are_percentages [OF this s float_rounding_fixed_point] s show ?thesis by auto
qed

text \<open>Three spans within 62 minutes, with an eviction in between, count as one.\<close>

theorem eviction_resets_day_count_witness:
  "SpanCountLast24h ''aws:42:a'' (quality_run demo_spans) = Some 2
   \<and> SpanCountLast24h ''aws:42:a'' (observe_span placeholdersByAttr (hour + 121 * minute) (demo_span ''1c'' []) (snd (EvictExpired (hour + 121 * minute) (quality_run demo_spans)))) = Some 1"
proof -
  obtain c where c: "map_of (q_perKey (quality_run demo_spans)) ''aws:42:a'' = Some c" "qc_WindowStart c = hour" "qc_TotalSpansLast24h c = 2"
    using demo_counters by auto
  have "map_of (q_perKey (quality_run demo_spans)) (sp_Key (demo_span ''1c'' [])) = Some c" "sp_Key (demo_span ''1c'' []) \<noteq> []"
    "hour + 121 * minute - qc_WindowStart c > 2 * hour" using c by (simp_all add: demo_span_def)
  from eviction_resets_day_count [OF this] show ?thesis using c by (simp add: demo_span_def SpanCountLast24h_def)
qed

end
