(* ===== verification/Worker_Pool.thy ===== *)
theory Worker_Pool
  imports Go_Time "HOL-Library.Multiset"
begin

text \<open>
  The ingest queue of \<open>worker/pool.go\<close>: submitters reserve bytes of a budget and enqueue under one deadline,
  workers dequeue, free the bytes, wake a waiting submitter and process.  The goroutines run concurrently, so
  the model is a step relation whose steps are the atomic operations of the source: loads, compare-and-swaps,
  additions on \<open>queuedBytes\<close>, channel operations and the closing of \<open>shutdown\<close>.  The queue is a buffered channel.
  Retried writes and the per-agent batch rows follow as functions.
\<close>

section \<open>State\<close>

datatype WorkItemType = WorkItemTypeTraces | WorkItemTypeMetrics | WorkItemTypeLogs

record WorkItem =
  wi_Type :: WorkItemType
  wi_RawData :: string
  wi_Timestamp :: gotime
  wi_Tenant :: string

abbreviation size_of :: "WorkItem \<Rightarrow> int" where
  "size_of item \<equiv> int (length (wi_RawData item))"

definition tenantOrDefault :: "string \<Rightarrow> string" where
  "tenantOrDefault tenant = (if tenant = [] then ''default'' else tenant)"

datatype submit_error = PayloadTooLarge | ByteBudgetTimeout | QueueTimeout | ShuttingDown

text \<open>
  Where a call of \<open>Submit\<close> stands: at the head of the reservation loop, between the load and the
  compare-and-swap, in the first \<open>select\<close>, in the second one, in the two halves of \<open>releaseBytes\<close>, or returned.
\<close>

datatype submit_pc = Reserving | Loaded int | Waiting | Enqueuing | Releasing submit_error | Signalling submit_error
  | Returned "submit_error option"

text \<open>Where a worker stands; the flag tells whether it is draining the queue after the shutdown.\<close>

datatype worker_pc = Polling bool | Dequeued bool WorkItem | Freed bool WorkItem | Processing bool WorkItem | Stopped

record Pool =
  wp_queueSize :: nat
  wp_maxQueueBytes :: int
  wp_queuedBytes :: int
  wp_queue :: "WorkItem list"
  wp_bytesFreed :: bool
  wp_shutdown :: bool
  wp_submits :: "(WorkItem \<times> submit_pc) list"
  wp_workers :: "worker_pc list"
  wp_processed :: "WorkItem list"

definition NewPool :: "nat \<Rightarrow> nat \<Rightarrow> int \<Rightarrow> Pool" where
  "NewPool queueSize workerCount maxBytes =
     \<lparr>wp_queueSize = queueSize, wp_maxQueueBytes = maxBytes, wp_queuedBytes = 0, wp_queue = [], wp_bytesFreed = False,
      wp_shutdown = False, wp_submits = [], wp_workers = replicate workerCount (Polling False), wp_processed = []\<rparr>"

section \<open>Submitting\<close>

definition set_submit :: "nat \<Rightarrow> submit_pc \<Rightarrow> Pool \<Rightarrow> Pool" where
  "set_submit i pc p = p\<lparr>wp_submits := (wp_submits p)[i := (fst (wp_submits p ! i), pc)]\<rparr>"

definition set_worker :: "nat \<Rightarrow> worker_pc \<Rightarrow> Pool \<Rightarrow> Pool" where
  "set_worker i pc p = p\<lparr>wp_workers := (wp_workers p)[i := pc]\<rparr>"

text \<open>The size check, and the reservation when the byte bound is off.\<close>

definition begin_submit :: "WorkItem \<Rightarrow> Pool \<Rightarrow> Pool" where
  "begin_submit item p =
     (if wp_maxQueueBytes p > 0 \<and> size_of item > wp_maxQueueBytes p
      then p\<lparr>wp_submits := wp_submits p @ [(item, Returned (Some PayloadTooLarge))]\<rparr>
      else if wp_maxQueueBytes p > 0 then p\<lparr>wp_submits := wp_submits p @ [(item, Reserving)]\<rparr>
      else p\<lparr>wp_queuedBytes := wp_queuedBytes p + size_of item, wp_submits := wp_submits p @ [(item, Enqueuing)]\<rparr>)"

inductive submit_step :: "nat \<Rightarrow> WorkItem \<Rightarrow> Pool \<Rightarrow> submit_pc \<Rightarrow> Pool \<Rightarrow> bool" for i :: nat and item :: WorkItem and p :: Pool where
  load_fits: "wp_queuedBytes p + size_of item \<le> wp_maxQueueBytes p \<Longrightarrow>
    submit_step i item p Reserving (set_submit i (Loaded (wp_queuedBytes p)) p)"
| load_over: "\<not> wp_queuedBytes p + size_of item \<le> wp_maxQueueBytes p \<Longrightarrow> submit_step i item p Reserving (set_submit i Waiting p)"
| swap: "wp_queuedBytes p = cur \<Longrightarrow>
    submit_step i item p (Loaded cur) (set_submit i Enqueuing (p\<lparr>wp_queuedBytes := cur + size_of item\<rparr>))"
| swap_lost: "wp_queuedBytes p \<noteq> cur \<Longrightarrow> submit_step i item p (Loaded cur) (set_submit i Reserving p)"
| woken: "wp_bytesFreed p \<Longrightarrow> submit_step i item p Waiting (set_submit i Reserving (p\<lparr>wp_bytesFreed := False\<rparr>))"
| wait_timeout: "submit_step i item p Waiting (set_submit i (Returned (Some ByteBudgetTimeout)) p)"
| wait_shutdown: "wp_shutdown p \<Longrightarrow> submit_step i item p Waiting (set_submit i (Returned (Some ShuttingDown)) p)"
| enqueue: "length (wp_queue p) < wp_queueSize p \<Longrightarrow>
    submit_step i item p Enqueuing (set_submit i (Returned None) (p\<lparr>wp_queue := wp_queue p @ [item]\<rparr>))"
| queue_timeout: "submit_step i item p Enqueuing (set_submit i (Releasing QueueTimeout) p)"
| queue_shutdown: "wp_shutdown p \<Longrightarrow> submit_step i item p Enqueuing (set_submit i (Releasing ShuttingDown) p)"
| release: "submit_step i item p (Releasing e) (set_submit i (Signalling e) (p\<lparr>wp_queuedBytes := wp_queuedBytes p - size_of item\<rparr>))"
| signal: "submit_step i item p (Signalling e) (set_submit i (Returned (Some e)) (p\<lparr>wp_bytesFreed := True\<rparr>))"

section \<open>Working\<close>

text \<open>The wake-up is a send on a channel with room for one value: it is dropped when one is there already.\<close>

inductive worker_step :: "nat \<Rightarrow> Pool \<Rightarrow> worker_pc \<Rightarrow> Pool \<Rightarrow> bool" for i :: nat and p :: Pool where
  dequeue: "wp_queue p = item # rest \<Longrightarrow> worker_step i p (Polling d) (set_worker i (Dequeued d item) (p\<lparr>wp_queue := rest\<rparr>))"
| drain: "wp_shutdown p \<Longrightarrow> worker_step i p (Polling False) (set_worker i (Polling True) p)"
| drained: "wp_queue p = [] \<Longrightarrow> worker_step i p (Polling True) (set_worker i Stopped p)"
| free: "worker_step i p (Dequeued d item) (set_worker i (Freed d item) (p\<lparr>wp_queuedBytes := wp_queuedBytes p - size_of item\<rparr>))"
| wake: "worker_step i p (Freed d item) (set_worker i (Processing d item) (p\<lparr>wp_bytesFreed := True\<rparr>))"
| processItem: "worker_step i p (Processing d item) (set_worker i (Polling d) (p\<lparr>wp_processed := wp_processed p @ [item]\<rparr>))"

inductive pool_step :: "Pool \<Rightarrow> Pool \<Rightarrow> bool" where
  Submit: "pool_step p (begin_submit item p)"
| submitting: "i < length (wp_submits p) \<Longrightarrow> wp_submits p ! i = (item, pc) \<Longrightarrow> submit_step i item p pc p' \<Longrightarrow> pool_step p p'"
| working: "i < length (wp_workers p) \<Longrightarrow> worker_step i p (wp_workers p ! i) p' \<Longrightarrow> pool_step p p'"
| Stop: "\<not> wp_shutdown p \<Longrightarrow> pool_step p (p\<lparr>wp_shutdown := True\<rparr>)"

section \<open>Writing with retries\<close>

abbreviation retryBackoffs :: "duration list" where
  "retryBackoffs \<equiv> [100000000, 500000000, 2 * second]"

datatype write_result = Written | WriteFailed | InterruptedByShutdown

text \<open>
  The attempts, given the outcomes of successive writes and, for each wait between them, whether the shutdown
  comes first; the result with the number of attempts, the retries and the dead letters counted.
\<close>

fun write_attempts :: "nat \<Rightarrow> bool list \<Rightarrow> bool list \<Rightarrow> nat \<Rightarrow> write_result \<times> nat \<times> nat \<times> nat" where
  "write_attempts 0 outcomes waits n =
     (if outcomes \<noteq> [] \<and> hd outcomes then (Written, n + 1, n, 0) else (WriteFailed, n + 1, n, 1))"
| "write_attempts (Suc left) outcomes waits n =
     (if outcomes \<noteq> [] \<and> hd outcomes then (Written, n + 1, n, 0)
      else if waits \<noteq> [] \<and> hd waits then (InterruptedByShutdown, n + 1, n + 1, 0)
      else write_attempts left (tl outcomes) (tl waits) (n + 1))"

definition writeWithRetry :: "bool list \<Rightarrow> bool list \<Rightarrow> write_result \<times> nat \<times> nat \<times> nat" where
  "writeWithRetry outcomes waits = write_attempts (length retryBackoffs) outcomes waits 0"

section \<open>Batch accounting\<close>

record BatchMeta =
  bm_Timestamp :: gotime
  bm_AgentID :: string
  bm_SignalType :: string
  bm_ItemCount :: int
  bm_DroppedCount :: int
  bm_PayloadBytes :: int
  bm_Status :: string

definition countByAgent :: "string list \<Rightarrow> (string \<times> int) list" where
  "countByAgent ids = foldl (\<lambda>m a. AList.update a (int64 ((case map_of m a of None \<Rightarrow> 0 | Some n \<Rightarrow> n) + 1)) m) [] ids"

text \<open>Division of Go integers by a positive one truncates towards zero.\<close>

definition int64_quot :: "int \<Rightarrow> int \<Rightarrow> int" where
  "int64_quot a b = (if a < 0 then - (- a div b) else a div b)"

text \<open>The rows of one batch, for the agent ids of its items; \<open>failed\<close> tells that the write failed for good.\<close>

definition recordBatchMeta :: "gotime \<Rightarrow> string \<Rightarrow> string list \<Rightarrow> int \<Rightarrow> bool \<Rightarrow> BatchMeta list" where
  "recordBatchMeta now sig ids totalBytes failed =
     (let counts = countByAgent ids; totalItems = foldl (\<lambda>n c. int64 (n + snd c)) 0 counts in
      map (\<lambda>(a, count).
        \<lparr>bm_Timestamp = now, bm_AgentID = a, bm_SignalType = sig, bm_ItemCount = count,
         bm_DroppedCount = (if failed then count else 0),
         bm_PayloadBytes = (if totalItems > 0 then int64_quot (int64 (totalBytes * count)) totalItems else 0),
         bm_Status = (if failed then ''dropped'' else ''ok'')\<rparr>) counts)"

text \<open>The metrics variant counts the items of three lists together.\<close>

definition recordMetricsBatchMeta ::
  "gotime \<Rightarrow> string list \<Rightarrow> string list \<Rightarrow> string list \<Rightarrow> int \<Rightarrow> bool \<Rightarrow> BatchMeta list" where
  "recordMetricsBatchMeta now sumIds gauges histograms totalBytes failed =
     recordBatchMeta now ''metrics'' (sumIds @ gauges @ histograms) totalBytes failed"

end
