(* ===== verification/Pool_Safety.thy ===== *)
theory Pool_Safety
  imports Worker_Pool
begin

text \<open>
  The ingest queue under every interleaving: the byte counter is exact and within the budget, an accepted item
  is queued, in the hands of a worker or processed, a waiting submitter always has something left that will
  wake it, and the shutdown can strand an item that was accepted after the workers were gone.
\<close>

section \<open>Sums over goroutines\<close>

lemma sum_list_list_update:
  fixes f :: "'a \<Rightarrow> 'b :: comm_monoid_add"
  shows "i < length xs \<Longrightarrow> sum_list (map f (xs[i := y])) + f (xs ! i) = sum_list (map f xs) + f y"
proof (induction xs arbitrary: i)
  case (Cons x xs)
  then show ?case by (cases i) (auto simp: ac_simps)
qed simp

fun reserved :: "WorkItem \<times> submit_pc \<Rightarrow> int" where
  "reserved (item, Enqueuing) = size_of item"
| "reserved (item, Releasing e) = size_of item"
| "reserved (item, _) = 0"

fun unfreed :: "worker_pc \<Rightarrow> int" where
  "unfreed (Dequeued d item) = size_of item"
| "unfreed _ = 0"

fun accepted :: "WorkItem \<times> submit_pc \<Rightarrow> WorkItem multiset" where
  "accepted (item, Returned None) = {#item#}"
| "accepted (item, _) = {#}"

fun held :: "worker_pc \<Rightarrow> WorkItem multiset" where
  "held (Dequeued d item) = {#item#}"
| "held (Freed d item) = {#item#}"
| "held (Processing d item) = {#item#}"
| "held _ = {#}"

definition bytes_outstanding :: "Pool \<Rightarrow> int" where
  "bytes_outstanding p = sum_list (map size_of (wp_queue p)) + sum_list (map reserved (wp_submits p)) + sum_list (map unfreed (wp_workers p))"

definition accepted_items :: "Pool \<Rightarrow> WorkItem multiset" where
  "accepted_items p = sum_list (map accepted (wp_submits p))"

definition kept_items :: "Pool \<Rightarrow> WorkItem multiset" where
  "kept_items p = mset (wp_queue p) + sum_list (map held (wp_workers p)) + mset (wp_processed p)"

text \<open>A submission that waits or has loaded the counter passed the size check, a loaded value fits, and only a payload waits.\<close>

fun submit_ok :: "int \<Rightarrow> WorkItem \<times> submit_pc \<Rightarrow> bool" where
  "submit_ok m (item, pc) \<longleftrightarrow>
     (m > 0 \<and> pc \<in> {Reserving, Waiting} \<union> range Loaded \<longrightarrow> size_of item \<le> m)
     \<and> (m \<le> 0 \<longrightarrow> pc \<notin> {Reserving, Waiting} \<union> range Loaded)
     \<and> (\<forall>cur. pc = Loaded cur \<longrightarrow> cur + size_of item \<le> m)
     \<and> (pc = Waiting \<longrightarrow> size_of item > 0)"

declare submit_ok.simps [simp del]

text \<open>What may still wake a waiting submitter: a signal sent or due, bytes in use, or a submitter about to use some.\<close>

fun waiting :: "WorkItem \<times> submit_pc \<Rightarrow> bool" where
  "waiting (item, Waiting) \<longleftrightarrow> True"
| "waiting (item, _) \<longleftrightarrow> False"

fun signalling :: "WorkItem \<times> submit_pc \<Rightarrow> bool" where
  "signalling (item, Signalling e) \<longleftrightarrow> True"
| "signalling (item, _) \<longleftrightarrow> False"

fun active :: "WorkItem \<times> submit_pc \<Rightarrow> bool" where
  "active (item, Reserving) \<longleftrightarrow> wi_RawData item \<noteq> []"
| "active (item, Loaded cur) \<longleftrightarrow> wi_RawData item \<noteq> []"
| "active (item, _) \<longleftrightarrow> False"

fun freed :: "worker_pc \<Rightarrow> bool" where
  "freed (Freed d item) \<longleftrightarrow> True"
| "freed _ \<longleftrightarrow> False"

definition signal_pending :: "Pool \<Rightarrow> bool" where
  "signal_pending p \<longleftrightarrow> wp_bytesFreed p \<or> (\<exists>s \<in> set (wp_submits p). signalling s) \<or> (\<exists>w \<in> set (wp_workers p). freed w)"

definition wakeable :: "Pool \<Rightarrow> bool" where
  "wakeable p \<longleftrightarrow> signal_pending p \<or> wp_queuedBytes p > 0 \<or> (\<exists>s \<in> set (wp_submits p). active s)"

definition pool_ok :: "Pool \<Rightarrow> bool" where
  "pool_ok p \<longleftrightarrow>
     wp_queuedBytes p = bytes_outstanding p
     \<and> (wp_maxQueueBytes p > 0 \<longrightarrow> wp_queuedBytes p \<le> wp_maxQueueBytes p)
     \<and> length (wp_queue p) \<le> wp_queueSize p
     \<and> accepted_items p = kept_items p
     \<and> (\<forall>s \<in> set (wp_submits p). submit_ok (wp_maxQueueBytes p) s)
     \<and> ((\<exists>s \<in> set (wp_submits p). waiting s) \<longrightarrow> wakeable p)"

lemma reserved_nonneg: "0 \<le> reserved s"
  by (cases s rule: reserved.cases) auto

lemma unfreed_nonneg: "0 \<le> unfreed w"
  by (cases w) auto

lemma bytes_outstanding_nonneg: "0 \<le> bytes_outstanding p"
  unfolding bytes_outstanding_def using reserved_nonneg unfreed_nonneg by (intro add_nonneg_nonneg sum_list_nonneg) auto

lemma sum_list_empty: "sum_list (replicate n {#}) = {#}"
  by (induction n) simp_all

lemma NewPool_ok: "pool_ok (NewPool n w m)"
  by (simp add: NewPool_def pool_ok_def bytes_outstanding_def accepted_items_def kept_items_def sum_list_replicate sum_list_empty)

section \<open>One goroutine moves\<close>

definition others :: "nat \<Rightarrow> ('a \<Rightarrow> bool) \<Rightarrow> 'a list \<Rightarrow> bool" where
  "others i P xs \<longleftrightarrow> (\<exists>j < length xs. j \<noteq> i \<and> P (xs ! j))"

lemma ex_split: "i < length xs \<Longrightarrow> (\<exists>s \<in> set xs. P s) \<longleftrightarrow> P (xs ! i) \<or> others i P xs"
  unfolding others_def by (metis in_set_conv_nth)

lemma ex_update: "i < length xs \<Longrightarrow> (\<exists>s \<in> set (xs[i := y]). P s) \<longleftrightarrow> P y \<or> others i P xs"
proof -
  assume i: "i < length xs"
  have "others i P (xs[i := y]) \<longleftrightarrow> others i P xs" by (auto simp: others_def)
  then show ?thesis using ex_split [of i "xs[i := y]" P] i by simp
qed

lemma all_update: "\<forall>s \<in> set xs. P s \<Longrightarrow> P y \<Longrightarrow> \<forall>s \<in> set (xs[i := y]). P s"
  using set_update_subset_insert [of xs i y] by blast

lemma moved_submit:
  assumes "i < length (wp_submits p)" "wp_submits p ! i = (item, pc)"
  shows "bytes_outstanding (set_submit i pc' p) = bytes_outstanding p + reserved (item, pc') - reserved (item, pc)"
    and "accepted (item, pc) = {#} \<Longrightarrow> accepted_items (set_submit i pc' p) = accepted_items p + accepted (item, pc')"
    and "kept_items (set_submit i pc' p) = kept_items p"
  using sum_list_list_update [OF assms(1), of reserved "(item, pc')"] sum_list_list_update [OF assms(1), of accepted "(item, pc')"] assms(2)
  by (simp_all add: bytes_outstanding_def accepted_items_def kept_items_def set_submit_def)

lemma moved_worker:
  assumes "i < length (wp_workers p)"
  shows "bytes_outstanding (set_worker i w' p) = bytes_outstanding p + unfreed w' - unfreed (wp_workers p ! i)"
    and "kept_items (set_worker i w' p) = kept_items p + held w' - held (wp_workers p ! i)"
    and "accepted_items (set_worker i w' p) = accepted_items p"
proof -
  have "kept_items (set_worker i w' p) + held (wp_workers p ! i) = kept_items p + held w'"
    using sum_list_list_update [OF assms, of held w'] by (simp add: kept_items_def set_worker_def ac_simps)
  then show "kept_items (set_worker i w' p) = kept_items p + held w' - held (wp_workers p ! i)" by (metis add_diff_cancel_right')
  show "bytes_outstanding (set_worker i w' p) = bytes_outstanding p + unfreed w' - unfreed (wp_workers p ! i)"
    using sum_list_list_update [OF assms, of unfreed w'] by (simp add: bytes_outstanding_def set_worker_def)
  show "accepted_items (set_worker i w' p) = accepted_items p" by (simp add: accepted_items_def set_worker_def)
qed

lemma pool_frames [simp]:
  "bytes_outstanding (p\<lparr>wp_queuedBytes := n\<rparr>) = bytes_outstanding p" "bytes_outstanding (p\<lparr>wp_bytesFreed := b\<rparr>) = bytes_outstanding p"
  "bytes_outstanding (p\<lparr>wp_processed := xs\<rparr>) = bytes_outstanding p" "bytes_outstanding (p\<lparr>wp_shutdown := b\<rparr>) = bytes_outstanding p"
  "accepted_items (p\<lparr>wp_queuedBytes := n\<rparr>) = accepted_items p" "accepted_items (p\<lparr>wp_bytesFreed := b\<rparr>) = accepted_items p"
  "accepted_items (p\<lparr>wp_processed := xs\<rparr>) = accepted_items p" "accepted_items (p\<lparr>wp_shutdown := b\<rparr>) = accepted_items p"
  "accepted_items (p\<lparr>wp_queue := q\<rparr>) = accepted_items p"
  "kept_items (p\<lparr>wp_queuedBytes := n\<rparr>) = kept_items p" "kept_items (p\<lparr>wp_bytesFreed := b\<rparr>) = kept_items p"
  "kept_items (p\<lparr>wp_shutdown := b\<rparr>) = kept_items p"
  "kept_items (p\<lparr>wp_processed := wp_processed p @ [item]\<rparr>) = kept_items p + {#item#}"
  "kept_items (p\<lparr>wp_queue := wp_queue p @ [item]\<rparr>) = kept_items p + {#item#}"
  "bytes_outstanding (p\<lparr>wp_queue := wp_queue p @ [item]\<rparr>) = bytes_outstanding p + size_of item"
  by (simp_all add: bytes_outstanding_def accepted_items_def kept_items_def)

lemma set_submit_simps [simp]:
  "wp_queuedBytes (set_submit i pc p) = wp_queuedBytes p" "wp_queue (set_submit i pc p) = wp_queue p" "wp_bytesFreed (set_submit i pc p) = wp_bytesFreed p"
  "wp_maxQueueBytes (set_submit i pc p) = wp_maxQueueBytes p" "wp_queueSize (set_submit i pc p) = wp_queueSize p" "wp_shutdown (set_submit i pc p) = wp_shutdown p"
  "wp_workers (set_submit i pc p) = wp_workers p" "wp_processed (set_submit i pc p) = wp_processed p"
  "wp_submits (set_submit i pc p) = (wp_submits p)[i := (fst (wp_submits p ! i), pc)]"
  by (simp_all add: set_submit_def)

lemma set_worker_simps [simp]:
  "wp_queuedBytes (set_worker i w p) = wp_queuedBytes p" "wp_queue (set_worker i w p) = wp_queue p" "wp_bytesFreed (set_worker i w p) = wp_bytesFreed p"
  "wp_maxQueueBytes (set_worker i w p) = wp_maxQueueBytes p" "wp_queueSize (set_worker i w p) = wp_queueSize p" "wp_shutdown (set_worker i w p) = wp_shutdown p"
  "wp_submits (set_worker i w p) = wp_submits p" "wp_processed (set_worker i w p) = wp_processed p" "wp_workers (set_worker i w p) = (wp_workers p)[i := w]"
  by (simp_all add: set_worker_def)

text \<open>The invariant in its parts, kept by a step of a submitter and by a step of a worker.\<close>

definition ledger_ok :: "Pool \<Rightarrow> bool" where
  "ledger_ok p \<longleftrightarrow> wp_queuedBytes p = bytes_outstanding p \<and> accepted_items p = kept_items p \<and> length (wp_queue p) \<le> wp_queueSize p"

definition budget_ok :: "Pool \<Rightarrow> bool" where
  "budget_ok p \<longleftrightarrow> (wp_maxQueueBytes p > 0 \<longrightarrow> wp_queuedBytes p \<le> wp_maxQueueBytes p) \<and> (\<forall>s \<in> set (wp_submits p). submit_ok (wp_maxQueueBytes p) s)"

definition waiters_ok :: "Pool \<Rightarrow> bool" where
  "waiters_ok p \<longleftrightarrow> ((\<exists>s \<in> set (wp_submits p). waiting s) \<longrightarrow> wakeable p)"

lemma pool_ok_parts: "pool_ok p \<longleftrightarrow> ledger_ok p \<and> budget_ok p \<and> waiters_ok p"
  by (auto simp: pool_ok_def ledger_ok_def budget_ok_def waiters_ok_def)

lemma submit_ledger:
  assumes "submit_step i item p pc p'" "i < length (wp_submits p)" "wp_submits p ! i = (item, pc)" "ledger_ok p"
  shows "ledger_ok p'"
  using assms
proof cases
qed (use assms(2-4) in \<open>auto simp: ledger_ok_def moved_submit\<close>)

lemma worker_ledger:
  assumes "worker_step i p (wp_workers p ! i) p'" "i < length (wp_workers p)" "ledger_ok p"
  shows "ledger_ok p'"
  using assms(1)
proof cases
  case (dequeue item rest d)
  have "kept_items p = kept_items (p\<lparr>wp_queue := rest\<rparr>) + {#item#}" "bytes_outstanding p = bytes_outstanding (p\<lparr>wp_queue := rest\<rparr>) + size_of item"
    using dequeue(3) by (simp_all add: kept_items_def bytes_outstanding_def)
  then show ?thesis using assms(2,3) dequeue by (simp add: ledger_ok_def moved_worker)
qed (use assms(2,3) in \<open>auto simp: ledger_ok_def moved_worker\<close>)

lemma submit_ok_next:
  assumes "submit_step i item p pc p'" "wp_submits p ! i = (item, pc)" "submit_ok (wp_maxQueueBytes p) (item, pc)"
    and "wp_maxQueueBytes p > 0 \<longrightarrow> wp_queuedBytes p \<le> wp_maxQueueBytes p"
  shows "\<exists>pc'. wp_submits p' = (wp_submits p)[i := (item, pc')] \<and> submit_ok (wp_maxQueueBytes p) (item, pc') \<and> wp_maxQueueBytes p' = wp_maxQueueBytes p
    \<and> (wp_maxQueueBytes p > 0 \<longrightarrow> wp_queuedBytes p' \<le> wp_maxQueueBytes p)"
  using assms(1)
proof cases
qed (use assms(2-4) in \<open>auto simp: submit_ok.simps\<close>)

lemma submit_budget:
  assumes "submit_step i item p pc p'" "i < length (wp_submits p)" "wp_submits p ! i = (item, pc)" "budget_ok p"
  shows "budget_ok p'"
proof -
  have all: "\<forall>s \<in> set (wp_submits p). submit_ok (wp_maxQueueBytes p) s" using assms(4) by (simp add: budget_ok_def)
  then have "submit_ok (wp_maxQueueBytes p) (item, pc)" using assms(2,3) by (metis nth_mem)
  from submit_ok_next [OF assms(1,3) this] all_update [OF all] assms(4) show ?thesis unfolding budget_ok_def by metis
qed

lemma worker_budget: "worker_step i p w p' \<Longrightarrow> budget_ok p \<Longrightarrow> budget_ok p'"
  by (cases rule: worker_step.cases) (auto simp: budget_ok_def)

text \<open>A move of one submitter keeps the waiters covered if it leaves a source of its own or takes none away.\<close>

lemma waiters_move:
  assumes "i < length (wp_submits p)" "wp_submits p' = (wp_submits p)[i := s1]" "wp_workers p' = wp_workers p" "waiters_ok p"
    and "(wp_bytesFreed p' \<or> signalling s1 \<or> active s1 \<or> wp_queuedBytes p' > 0)
      \<or> \<not> waiting s1 \<and> (wp_bytesFreed p \<longrightarrow> wp_bytesFreed p') \<and> \<not> signalling (wp_submits p ! i) \<and> \<not> active (wp_submits p ! i)
        \<and> (wp_queuedBytes p > 0 \<longrightarrow> wp_queuedBytes p' > 0)"
  shows "waiters_ok p'"
  using assms(4,5) unfolding waiters_ok_def wakeable_def signal_pending_def assms(2,3) ex_split [OF assms(1)] ex_update [OF assms(1)]
  by blast

lemma submit_waiters:
  assumes "submit_step i item p pc p'" "i < length (wp_submits p)" "wp_submits p ! i = (item, pc)" "ledger_ok p" "budget_ok p" "waiters_ok p"
  shows "waiters_ok p'"
proof -
  have ok: "submit_ok (wp_maxQueueBytes p) (item, pc)" using assms(2,3,5) by (metis budget_ok_def nth_mem)
  have pos: "0 \<le> wp_queuedBytes p" using assms(4) bytes_outstanding_nonneg [of p] by (simp add: ledger_ok_def)
  note move = waiters_move [OF assms(2) _ _ assms(6), unfolded assms(3)]
  show ?thesis using assms(1)
  proof cases
    case load_fits
    show ?thesis
    proof (cases "wi_RawData item = []")
      case True
      show ?thesis by (rule move [of _ "(item, Loaded (wp_queuedBytes p))"]) (use load_fits True assms(3) in simp_all)
    qed (rule move [of _ "(item, Loaded (wp_queuedBytes p))"], use load_fits assms(3) in simp_all)
  next
    case load_over
    then have "0 < wp_queuedBytes p" using ok by (auto simp: submit_ok.simps)
    then show ?thesis by (intro move [of _ "(item, Waiting)"]) (use load_over assms(3) in simp_all)
  next
    case (swap cur)
    show ?thesis by (rule move [of _ "(item, Enqueuing)"]) (use swap assms(3) pos in \<open>auto intro: add_nonneg_pos\<close>)
  next
    case (swap_lost cur)
    show ?thesis by (rule move [of _ "(item, Reserving)"]) (use swap_lost assms(3) in auto)
  next
    case woken
    then have "wi_RawData item \<noteq> []" using ok by (auto simp: submit_ok.simps)
    then show ?thesis by (intro move [of _ "(item, Reserving)"]) (use woken assms(3) in simp_all)
  qed (rule move, use assms(3) in auto)+
qed

lemma worker_waiters:
  assumes "worker_step i p (wp_workers p ! i) p'" "i < length (wp_workers p)" "waiters_ok p"
  shows "waiters_ok p'"
proof -
  note split = ex_split [OF assms(2)] ex_update [OF assms(2)]
  show ?thesis using assms(1)
  proof cases
  qed (use assms(3) in \<open>auto simp: waiters_ok_def wakeable_def signal_pending_def split\<close>)
qed

lemma begin_submit_ok:
  assumes "pool_ok p" shows "pool_ok (begin_submit item p)"
proof -
  have "ledger_ok (begin_submit item p)" using assms unfolding pool_ok_parts
    by (auto simp: begin_submit_def ledger_ok_def bytes_outstanding_def accepted_items_def kept_items_def)
  moreover have "budget_ok (begin_submit item p)" using assms unfolding pool_ok_parts
    by (auto simp: begin_submit_def budget_ok_def submit_ok.simps)
  moreover have "waiters_ok (begin_submit item p)" using assms unfolding pool_ok_parts
    by (simp add: begin_submit_def waiters_ok_def wakeable_def signal_pending_def) auto
  ultimately show ?thesis unfolding pool_ok_parts by blast
qed

lemma pool_step_ok: "pool_step p p' \<Longrightarrow> pool_ok p \<Longrightarrow> pool_ok p'"
proof (induction rule: pool_step.induct)
  case (Submit p item)
  then show ?case by (rule begin_submit_ok)
next
  case (submitting i p item pc p')
  then show ?case using submit_ledger submit_budget submit_waiters unfolding pool_ok_parts by blast
next
  case (working i p p')
  then show ?case using worker_ledger worker_budget worker_waiters unfolding pool_ok_parts by blast
next
  case (Stop p)
  then show ?case unfolding pool_ok_def by (auto simp: wakeable_def signal_pending_def)
qed

lemma reachable_ok: "pool_step\<^sup>*\<^sup>* (NewPool n w m) p \<Longrightarrow> pool_ok p"
  by (induction rule: rtranclp_induct) (auto intro: NewPool_ok pool_step_ok)

section \<open>Accounting, budget and conservation\<close>

text \<open>
  C18: under every interleaving of submitters, workers and the shutdown the byte counter equals the bytes of the
  queued items plus those reserved by a submitter that has not returned them and those of items a worker has
  taken but not yet freed; with a byte bound the queued payload never exceeds it, nor the item count the
  channel; and the items accepted so far are exactly those queued, in the hands of a worker, or processed,
  each as often as it was accepted.
\<close>

theorem ingest_ledger:
  assumes "pool_step\<^sup>*\<^sup>* (NewPool n w m) p"
  shows "wp_queuedBytes p = bytes_outstanding p
    \<and> (0 < wp_maxQueueBytes p \<longrightarrow> sum_list (map size_of (wp_queue p)) \<le> wp_maxQueueBytes p)
    \<and> length (wp_queue p) \<le> wp_queueSize p
    \<and> accepted_items p = mset (wp_queue p) + sum_list (map held (wp_workers p)) + mset (wp_processed p)"
proof -
  have ok: "pool_ok p" by (rule reachable_ok [OF assms])
  have "0 \<le> sum_list (map reserved (wp_submits p))" "0 \<le> sum_list (map unfreed (wp_workers p))"
    by (auto intro!: sum_list_nonneg reserved_nonneg unfreed_nonneg)
  then show ?thesis using ok unfolding pool_ok_def kept_items_def by (auto simp: bytes_outstanding_def)
qed

section \<open>Waking\<close>

lemma sum_list_pos_ex: "0 < sum_list (map f xs) \<Longrightarrow> \<exists>x \<in> set xs. 0 < (f x :: int)"
  by (metis linorder_not_less sum_list_nonpos imageE set_map)

text \<open>
  C19: no wake-up is lost.  Whenever a submitter waits for bytes, a signal is in the channel or about to be sent
  by a goroutine that has just freed bytes, or another submitter is about to reserve, or bytes are in use, by a
  queued item, by a submitter that will enqueue or return them, or by an item just dequeued, and freeing those
  signals again: a coalesced signal delays a waiter but never strands it.
\<close>

theorem no_lost_wakeup:
  assumes "pool_step\<^sup>*\<^sup>* (NewPool n w m) p" "(item, Waiting) \<in> set (wp_submits p)"
  shows "signal_pending p \<or> (\<exists>s \<in> set (wp_submits p). active s)
    \<or> (\<exists>x \<in> set (wp_queue p). 0 < size_of x) \<or> (\<exists>s \<in> set (wp_submits p). 0 < reserved s) \<or> (\<exists>v \<in> set (wp_workers p). 0 < unfreed v)"
proof -
  have ok: "pool_ok p" by (rule reachable_ok [OF assms(1)])
  then have "wakeable p" using assms(2) unfolding pool_ok_def by (metis waiting.simps(1))
  moreover have "wp_queuedBytes p = bytes_outstanding p" using ok by (simp add: pool_ok_def)
  moreover have "(\<exists>x \<in> set (wp_queue p). 0 < size_of x) \<or> (\<exists>s \<in> set (wp_submits p). 0 < reserved s) \<or> (\<exists>v \<in> set (wp_workers p). 0 < unfreed v)"
    if "0 < bytes_outstanding p"
  proof -
    have "0 < sum_list (map size_of (wp_queue p)) \<or> 0 < sum_list (map reserved (wp_submits p)) \<or> 0 < sum_list (map unfreed (wp_workers p))"
      using that unfolding bytes_outstanding_def by linarith
    then show ?thesis by (elim disjE) (blast dest: sum_list_pos_ex)+
  qed
  ultimately show ?thesis unfolding wakeable_def by metis
qed

section \<open>Shutdown\<close>

lemma pool_steps_submit:
  "i < length (wp_submits p) \<Longrightarrow> wp_submits p ! i = (item, pc) \<Longrightarrow> submit_step i item p pc p' \<Longrightarrow> pool_step\<^sup>*\<^sup>* p' q \<Longrightarrow> pool_step\<^sup>*\<^sup>* p q"
  by (meson converse_rtranclp_into_rtranclp submitting)

text \<open>After the shutdown idle workers on an empty queue stop one after the other.\<close>

lemma workers_stop:
  assumes "wp_shutdown p" "wp_queue p = []" "wp_workers p = replicate k Stopped @ replicate w (Polling False)"
  shows "pool_step\<^sup>*\<^sup>* p (p\<lparr>wp_workers := replicate (k + w) Stopped\<rparr>)"
  using assms
proof (induction w arbitrary: k p)
  case 0
  then have "p\<lparr>wp_workers := replicate (k + 0) Stopped\<rparr> = p" by simp
  then show ?case by simp
next
  case (Suc w)
  let ?p1 = "set_worker k (Polling True) p" and ?p2 = "set_worker k Stopped (set_worker k (Polling True) p)"
  have k: "k < length (wp_workers p)" "wp_workers p ! k = Polling False" using Suc.prems by (simp_all add: nth_append)
  have "pool_step p ?p1" using k drain [of p k] Suc.prems(1) working [of k p] by simp
  moreover have "pool_step ?p1 ?p2" using k drained [of ?p1 k] Suc.prems(2) working [of k ?p1] by simp
  moreover have "wp_workers ?p2 = replicate (Suc k) Stopped @ replicate w (Polling False)"
    using Suc.prems(3) by (simp add: list_update_append replicate_app_Cons_same)
  then have "pool_step\<^sup>*\<^sup>* ?p2 (?p2\<lparr>wp_workers := replicate (Suc k + w) Stopped\<rparr>)" using Suc.IH [of ?p2 "Suc k"] Suc.prems(1,2) by simp
  moreover have "?p2\<lparr>wp_workers := replicate (Suc k + w) Stopped\<rparr> = p\<lparr>wp_workers := replicate (k + Suc w) Stopped\<rparr>" by (simp add: set_worker_def)
  ultimately show ?case by (metis converse_rtranclp_into_rtranclp)
qed

inductive_cases stopped_step: "worker_step i p Stopped p'"

lemma stopped_for_good:
  assumes "pool_step\<^sup>*\<^sup>* p q" "\<forall>v \<in> set (wp_workers p). v = Stopped"
  shows "wp_processed q = wp_processed p \<and> (\<forall>v \<in> set (wp_workers q). v = Stopped)"
  using assms(1)
proof (induction rule: rtranclp_induct)
  case (step q r)
  have "wp_workers r = wp_workers q \<and> wp_processed r = wp_processed q" if "submit_step i item q pc r" for i item pc
    using that by cases auto
  moreover have False if "worker_step i q (wp_workers q ! i) r" "i < length (wp_workers q)" for i
  proof -
    have "wp_workers q ! i = Stopped" using that(2) step.IH by simp
    then show ?thesis using that(1) by (auto elim: stopped_step)
  qed
  note frames = calculation this
  show ?case using step.hyps(2)
  proof cases
    case (working i)
    then show ?thesis using frames(2) by blast
  next
    case (submitting i item pc)
    then show ?thesis using frames(1) step.IH by metis
  qed (use step.IH in \<open>auto simp: begin_submit_def\<close>)
qed (use assms(2) in simp)

text \<open>
  the shutdown can lose an accepted item.  For every pool with a queue and every payload within the byte
  bound there is a run in which all workers have stopped and a submission nevertheless takes the enqueue
  branch of its last \<open>select\<close> and returns without an error; from then on no run processes the item.
\<close>

theorem accepted_item_lost_after_stop:
  assumes "0 < n" "m \<le> 0 \<or> size_of item \<le> m"
  shows "\<exists>p. pool_step\<^sup>*\<^sup>* (NewPool n w m) p \<and> wp_submits p = [(item, Returned None)] \<and> wp_queue p = [item]
    \<and> (\<forall>q. pool_step\<^sup>*\<^sup>* p q \<longrightarrow> wp_processed q = [])"
proof -
  define p1 where "p1 = (NewPool n w m)\<lparr>wp_shutdown := True\<rparr>"
  define p2 where "p2 = p1\<lparr>wp_workers := replicate w Stopped\<rparr>"
  have "pool_step (NewPool n w m) p1" unfolding p1_def by (rule Stop) (simp add: NewPool_def)
  moreover have "pool_step\<^sup>*\<^sup>* p1 p2" using workers_stop [of p1 0 w] by (simp add: p1_def p2_def NewPool_def)
  ultimately have stopped: "pool_step\<^sup>*\<^sup>* (NewPool n w m) p2" by (rule converse_rtranclp_into_rtranclp)
  define p3 where "p3 = p2\<lparr>wp_queuedBytes := size_of item, wp_submits := [(item, Enqueuing)]\<rparr>"
  have p2: "wp_submits p2 = []" "wp_queuedBytes p2 = 0" "wp_queue p2 = []" "wp_maxQueueBytes p2 = m" "wp_queueSize p2 = n"
    "wp_processed p2 = []" "wp_workers p2 = replicate w Stopped" by (simp_all add: p2_def p1_def NewPool_def)
  have reserve: "pool_step\<^sup>*\<^sup>* p2 p3"
  proof (cases "0 < m")
    case True
    let ?a = "p2\<lparr>wp_submits := [(item, Reserving)]\<rparr>" and ?b = "p2\<lparr>wp_submits := [(item, Loaded 0)]\<rparr>"
    have "pool_step p2 ?a" using Submit [of p2 item] True assms(2) p2 by (simp add: begin_submit_def)
    moreover have "pool_step ?a ?b" using load_fits [of ?a item 0] assms(2) True p2 submitting [of 0 ?a item Reserving] by (simp add: set_submit_def)
    moreover have "pool_step ?b p3" using swap [of ?b 0 0 item] p2 submitting [of 0 ?b item "Loaded 0"] by (simp add: set_submit_def p3_def)
    ultimately show ?thesis by (meson converse_rtranclp_into_rtranclp r_into_rtranclp)
  next
    case False
    then have "pool_step p2 p3" using Submit [of p2 item] p2 by (simp add: begin_submit_def p3_def)
    then show ?thesis by blast
  qed
  define p where "p = p3\<lparr>wp_queue := [item], wp_submits := [(item, Returned None)]\<rparr>"
  have "pool_step p3 p" using enqueue [of p3 0 item] assms(1) p2 submitting [of 0 p3 item Enqueuing] by (simp add: set_submit_def p3_def p_def)
  then have "pool_step\<^sup>*\<^sup>* (NewPool n w m) p" using stopped reserve by (meson rtranclp.rtrancl_into_rtrancl rtranclp_trans)
  moreover have "\<forall>v \<in> set (wp_workers p). v = Stopped" "wp_processed p = []" by (simp_all add: p_def p3_def p2)
  then have "\<forall>q. pool_step\<^sup>*\<^sup>* p q \<longrightarrow> wp_processed q = []" using stopped_for_good [of p] by metis
  moreover have "wp_submits p = [(item, Returned None)]" "wp_queue p = [item]" by (simp_all add: p_def)
  ultimately show ?thesis by blast
qed

section \<open>Writes and batch rows\<close>

text \<open>At most four attempts; a dead letter exactly when all of them failed without a shutdown in between.\<close>

lemma write_attempts_bounds:
  "write_attempts left outcomes waits n = (res, attempts, retries, dead) \<Longrightarrow>
     attempts \<le> n + left + 1 \<and> (res = WriteFailed \<longleftrightarrow> dead = 1) \<and> dead \<le> 1 \<and> (res = Written \<longrightarrow> retries + 1 = attempts)
     \<and> (res = WriteFailed \<longrightarrow> attempts = n + left + 1)"
  by (induction left outcomes waits n rule: write_attempts.induct) (auto split: if_splits)

lemma count_list_int64: "length ids < 2 ^ 63 \<Longrightarrow> int64 (int (count_list ids a)) = int (count_list ids a)"
  using count_le_length [of ids a] by (intro int64_id) (auto simp: in_int64_def)

lemma countByAgent_spec:
  "length ids < 2 ^ 63 \<Longrightarrow> distinct (map fst (countByAgent ids)) \<and> fst ` set (countByAgent ids) = set ids
     \<and> map_of (countByAgent ids) a = (if a \<in> set ids then Some (int (count_list ids a)) else None)"
proof (induction ids arbitrary: a rule: rev_induct)
  case Nil
  then show ?case by (simp add: countByAgent_def)
next
  case (snoc x ids)
  let ?m = "countByAgent ids"
  have IH: "distinct (map fst ?m)" "fst ` set ?m = set ids" "\<And>a. map_of ?m a = (if a \<in> set ids then Some (int (count_list ids a)) else None)"
    using snoc by simp_all
  have step: "countByAgent (ids @ [x]) = AList.update x (int64 ((case map_of ?m x of None \<Rightarrow> 0 | Some n \<Rightarrow> n) + 1)) ?m" by (simp add: countByAgent_def)
  have "(case map_of ?m x of None \<Rightarrow> 0 | Some n \<Rightarrow> n) = int (count_list ids x)" by (simp add: IH(3))
  then have step': "countByAgent (ids @ [x]) = AList.update x (int (count_list (ids @ [x]) x)) ?m"
    using count_list_int64 [of "ids @ [x]" x] snoc.prems by (simp add: step add.commute)
  have "fst ` set (AList.update x v ?m) = insert x (set ids)" for v
    using IH(2) by (metis dom_map_of_conv_image_fst dom_fun_upd option.distinct(1) update_conv')
  then show ?case unfolding step' using IH by (auto simp: distinct_update)
qed

lemma proportional_shares:
  assumes "0 < (N :: int)"
  shows "sum_list (map (\<lambda>c. T * c div N) cs) * N \<le> T * sum_list cs" "T * sum_list cs < (sum_list (map (\<lambda>c. T * c div N) cs) + int (length cs)) * N \<or> cs = []"
proof (induction cs)
  case (Cons c cs)
  have "T * c div N * N \<le> T * c" "T * c < (T * c div N + 1) * N"
    using div_mult_mod_eq [of "T * c" N] pos_mod_sign [OF assms, of "T * c"] pos_mod_bound [OF assms, of "T * c"] by (simp_all only: distrib_right)
  then show "sum_list (map (\<lambda>c. T * c div N) (c # cs)) * N \<le> T * sum_list (c # cs)"
    and "T * sum_list (c # cs) < (sum_list (map (\<lambda>c. T * c div N) (c # cs)) + int (length (c # cs))) * N \<or> c # cs = []"
    using Cons by (auto simp: algebra_simps)
qed auto

lemma counts_sum:
  assumes "length ids < 2 ^ 63"
  shows "sum_list (map snd (countByAgent ids)) = int (length ids)" "(a, n) \<in> set (countByAgent ids) \<Longrightarrow> n = int (count_list ids a) \<and> a \<in> set ids"
proof -
  have spec: "distinct (map fst (countByAgent ids))" "fst ` set (countByAgent ids) = set ids"
    "\<And>a. map_of (countByAgent ids) a = (if a \<in> set ids then Some (int (count_list ids a)) else None)" using countByAgent_spec [OF assms] by auto
  show row: "n = int (count_list ids a) \<and> a \<in> set ids" if "(a, n) \<in> set (countByAgent ids)" for a n
    using map_of_is_SomeI [OF spec(1) that] spec(3) [of a] by (simp split: if_splits)
  have "map snd (countByAgent ids) = map (\<lambda>a. int (count_list ids a)) (map fst (countByAgent ids))" using row by auto
  also have "sum_list \<dots> = (\<Sum>a \<in> set ids. int (count_list ids a))"
    using sum_list_distinct_conv_sum_set [OF spec(1)] spec(2) by (metis set_map)
  also have "\<dots> = int (length ids)" using sum_count_set [of ids "set ids"] by (simp flip: of_nat_sum)
  finally show "sum_list (map snd (countByAgent ids)) = int (length ids)" .
qed

lemma total_items:
  assumes "length ids < 2 ^ 63" shows "foldl (\<lambda>n c. int64 (n + snd c)) 0 (countByAgent ids) = int (length ids)"
proof -
  have "foldl (\<lambda>n c. int64 (n + snd c)) k m = int64 (k + sum_list (map snd m))" if "int64 k = k" for k and m :: "(string \<times> int) list"
    using that by (induction m arbitrary: k) (simp_all add: add.assoc)
  then show ?thesis using counts_sum(1) [OF assms] assms by (simp add: in_int64_def)
qed

text \<open>
  the batch rows account for the batch.  They name every agent of the batch once, with the number of its
  items; the counts add up to the items, and the payload shares to at most the payload and to more than the
  payload less one byte per agent, as long as the product of items and bytes stays in 64 bits.
\<close>

theorem batch_rows_account:
  assumes "ids \<noteq> []" "0 \<le> bytes" "int (length ids) * bytes < 2 ^ 63" "length ids < 2 ^ 63"
    and "rows = recordBatchMeta now sig ids bytes failed"
  shows "distinct (map bm_AgentID rows) \<and> set (map bm_AgentID rows) = set ids
    \<and> (\<forall>r \<in> set rows. bm_ItemCount r = int (count_list ids (bm_AgentID r)) \<and> bm_DroppedCount r = (if failed then bm_ItemCount r else 0))
    \<and> sum_list (map bm_ItemCount rows) = int (length ids)
    \<and> sum_list (map bm_PayloadBytes rows) \<le> bytes \<and> bytes < sum_list (map bm_PayloadBytes rows) + int (length rows)"
proof -
  let ?m = "countByAgent ids" and ?N = "int (length ids)"
  have N: "0 < ?N" using assms(1) by simp
  have share: "int64_quot (int64 (bytes * n)) ?N = bytes * n div ?N" if "(a, n) \<in> set ?m" for a n
  proof -
    have "0 \<le> n" "n \<le> ?N" using counts_sum(2) [OF assms(4) that] count_le_length [of ids a] by simp_all
    then have "0 \<le> bytes * n" "bytes * n < 2 ^ 63" using assms(2,3) mult_left_mono [of n ?N bytes] by (simp_all add: mult.commute)
    then show ?thesis by (simp add: int64_quot_def in_int64_def)
  qed
  have rows: "rows = map (\<lambda>(a, n). \<lparr>bm_Timestamp = now, bm_AgentID = a, bm_SignalType = sig, bm_ItemCount = n, bm_DroppedCount = (if failed then n else 0),
      bm_PayloadBytes = bytes * n div ?N, bm_Status = (if failed then ''dropped'' else ''ok'')\<rparr>) ?m"
    unfolding assms(5) recordBatchMeta_def Let_def total_items [OF assms(4)] using share N by (auto simp: case_prod_unfold)
  have proj: "map bm_AgentID rows = map fst ?m" "map bm_ItemCount rows = map snd ?m" "length rows = length ?m"
    "map bm_PayloadBytes rows = map (\<lambda>n. bytes * n div ?N) (map snd ?m)" by (simp_all add: rows case_prod_unfold comp_def)
  have "?m \<noteq> []" using countByAgent_spec [OF assms(4)] assms(1) by fastforce
  note shares = proportional_shares [OF N, of bytes "map snd ?m", unfolded counts_sum(1) [OF assms(4)]]
  have "sum_list (map bm_PayloadBytes rows) \<le> bytes" "bytes < sum_list (map bm_PayloadBytes rows) + int (length rows)"
    unfolding proj using shares N \<open>?m \<noteq> []\<close> by (auto simp: mult_less_cancel_right)
  moreover have "sum_list (map bm_ItemCount rows) = ?N" unfolding proj by (rule counts_sum(1) [OF assms(4)])
  moreover have "distinct (map bm_AgentID rows) \<and> set (map bm_AgentID rows) = set ids"
    unfolding proj using countByAgent_spec [OF assms(4)] by simp
  moreover have "\<forall>r \<in> set rows. bm_ItemCount r = int (count_list ids (bm_AgentID r)) \<and> bm_DroppedCount r = (if failed then bm_ItemCount r else 0)"
    unfolding rows using counts_sum(2) [OF assms(4)] by auto
  ultimately show ?thesis by blast
qed

section \<open>Witnesses\<close>

definition demo_item :: WorkItem where
  "demo_item = \<lparr>wi_Type = WorkItemTypeTraces, wi_RawData = ''abc'', wi_Timestamp = 0, wi_Tenant = []\<rparr>"

theorem accepted_item_lost_after_stop_witness:
  "\<exists>p. pool_step\<^sup>*\<^sup>* (NewPool 10 4 100) p \<and> wp_submits p = [(demo_item, Returned None)]"
  using accepted_item_lost_after_stop [of 10 100 demo_item 4] by (auto simp: demo_item_def)

text \<open>One item holds the whole budget, a second one waits for it.\<close>

definition demo_pool :: "submit_pc list \<Rightarrow> int \<Rightarrow> Pool" where
  "demo_pool pcs used = (NewPool 10 1 3)\<lparr>wp_queuedBytes := used, wp_submits := map (Pair demo_item) pcs\<rparr>"

lemma demo_waiting: "pool_step\<^sup>*\<^sup>* (NewPool 10 1 3) (demo_pool [Enqueuing, Waiting] 3)"
proof -
  note defs = demo_pool_def NewPool_def demo_item_def begin_submit_def set_submit_def
  have "pool_step (NewPool 10 1 3) (demo_pool [Reserving] 0)" using Submit [of "NewPool 10 1 3" demo_item] by (simp add: defs)
  moreover have "pool_step (demo_pool [Reserving] 0) (demo_pool [Loaded 0] 0)"
    using submitting [of 0 "demo_pool [Reserving] 0" demo_item Reserving] load_fits [of "demo_pool [Reserving] 0" demo_item 0] by (simp add: defs)
  moreover have "pool_step (demo_pool [Loaded 0] 0) (demo_pool [Enqueuing] 3)"
    using submitting [of 0 "demo_pool [Loaded 0] 0" demo_item "Loaded 0"] swap [of "demo_pool [Loaded 0] 0" 0 0 demo_item] by (simp add: defs)
  moreover have "pool_step (demo_pool [Enqueuing] 3) (demo_pool [Enqueuing, Reserving] 3)" using Submit [of "demo_pool [Enqueuing] 3" demo_item] by (simp add: defs)
  moreover have "pool_step (demo_pool [Enqueuing, Reserving] 3) (demo_pool [Enqueuing, Waiting] 3)"
    using submitting [of 1 "demo_pool [Enqueuing, Reserving] 3" demo_item Reserving] load_over [of "demo_pool [Enqueuing, Reserving] 3" demo_item 1] by (simp add: defs)
  ultimately show ?thesis by (meson converse_rtranclp_into_rtranclp r_into_rtranclp)
qed

theorem ingest_ledger_witness:
  "\<exists>p. pool_step\<^sup>*\<^sup>* (NewPool 10 1 3) p \<and> wp_queuedBytes p = 3 \<and> wp_queuedBytes p = bytes_outstanding p"
  using ingest_ledger [OF demo_waiting] demo_waiting by (intro exI [of _ "demo_pool [Enqueuing, Waiting] 3"]) (simp add: demo_pool_def)

theorem no_lost_wakeup_witness:
  "\<exists>p. pool_step\<^sup>*\<^sup>* (NewPool 10 1 3) p \<and> (demo_item, Waiting) \<in> set (wp_submits p) \<and> (\<exists>s \<in> set (wp_submits p). 0 < reserved s)"
proof -
  have "(demo_item, Waiting) \<in> set (wp_submits (demo_pool [Enqueuing, Waiting] 3))" by (simp add: demo_pool_def)
  from no_lost_wakeup [OF demo_waiting this] have "\<exists>s \<in> set (wp_submits (demo_pool [Enqueuing, Waiting] 3)). 0 < reserved s"
    by (simp add: demo_pool_def NewPool_def signal_pending_def)
  then show ?thesis using demo_waiting by (intro exI [of _ "demo_pool [Enqueuing, Waiting] 3"]) (simp add: demo_pool_def)
qed

theorem batch_rows_account_witness:
  "\<exists>rows. rows = recordBatchMeta 0 ''logs'' [''a'', ''b'', ''a''] 100 False \<and> sum_list (map bm_PayloadBytes rows) \<le> 100 \<and> sum_list (map bm_ItemCount rows) = 3"
  using batch_rows_account [of "[''a'', ''b'', ''a'']" 100 _ 0 "''logs''" False] by simp

end
