(* ===== verification/Spec2Isabelle.thy ===== *)
theory Spec2Isabelle
  imports Engine_Delivery Action_Api Egress_Guard Auth_Access Alert_Behaviour Opamp_Reconcile Automation_Guards Trace_Coverage
    Span_Tracking Pool_Safety
begin

text \<open>
  Squadron is a control plane for fleets of telemetry collectors.  Operators store collector configs, group
  agents, and roll a target config out to a group in stages; an engine ticks over the active rollouts, pushes
  the target to canary cohorts over OpAMP, watches health and convergence, and finishes, aborts or rolls
  back.  Rollouts may need approvals, may be held by change windows, and may be chained into plans whose
  steps change configs or run signed actions on remote runners.  Agents connect over OpAMP, report their state
  and are reconciled to the stored config; alert rules watch the telemetry through a query language, automations
  restart unhealthy agents, and a trace index records which resources emit spans.  Everything that changes is
  written to a hash-chained audit log.

  \<^bold>\<open>Parts and theories\<close> (paths are relative to \<open>src/\<close>)

  \<^item> \<open>Go_Prelude\<close>, \<open>Go_Time\<close>, \<open>Sha256\<close>: the parts of the Go language and standard library that the modelled
    packages use (byte strings, \<open>strings\<close>, decimal rendering, 64-bit wrap-around, the calendar of \<open>time\<close>,
    SHA-256, HMAC and hex), with the lemmas the components share and the locale \<open>row_history\<close>: rows of a table
    that evolve along a preorder.
  \<^item> \<open>Audit_Chain\<close>: \<open>internal/audit/chain/chain.go\<close>.  Both row hashes, key loading, canonical timestamps,
    the verifiers \<open>Verify\<close> and \<open>VerifySealed\<close> and the high-water mark.
  \<^item> \<open>Audit_Store\<close>: the audit tables of \<open>internal/storage/applicationstore/memory/memory.go\<close> and
    \<open>memory/audit_chain.go\<close>, and \<open>Record\<close> of \<open>internal/services/audit_service_impl.go\<close>.
  \<^item> \<open>Config_Norm\<close>, \<open>Config_Lint\<close>: \<open>internal/confignorm\<close>, \<open>internal/configdiff\<close>, \<open>internal/configlint\<close>.
  \<^item> \<open>Change_Window\<close>: \<open>extension/changewindow\<close>.
  \<^item> \<open>Rollout_Types\<close>: the rollout data model of \<open>internal/services/rollout_service.go\<close> and
    \<open>applicationstore/types/types.go\<close>, the projections between them and the validation of a request.
  \<^item> \<open>App_Store\<close>: the agent, group, config, rollout and approval tables of the in-memory store.
  \<^item> \<open>Agent_Config\<close>, \<open>Agent_Service\<close>: config intent, drift and the writing operations of
    \<open>internal/services/agent_service_impl.go\<close>.
  \<^item> \<open>Control_Plane\<close>: the record \<open>Env\<close> of everything the handlers are constructed with (providers, wiring
    switches, third-party functions) and the record \<open>World\<close> of everything they mutate.
  \<^item> \<open>Rollout_Service\<close>, \<open>Rollout_Plans\<close>: \<open>internal/services/rollout_service_impl.go\<close> and
    \<open>rollout_service_action_steps.go\<close>, one definition per exported operation.
  \<^item> \<open>Canary\<close>: the read-only half of the engine, i.e. cohorts, delta delivery, dwell, health criteria and
    convergence (\<open>internal/rollouts/engine.go\<close>, \<open>convergence.go\<close>).
  \<^item> \<open>Rollout_Engine\<close>: one tick of \<open>internal/rollouts\<close>, every handler with its audit events and writes.
  \<^item> \<open>Rollout_Lifecycle\<close>, \<open>Engine_Lifecycle\<close>, \<open>Rollout_System\<close>: the abstract life cycle of a rollout, the
    simulation proofs for the service operations and the engine, and the transition system of service calls and
    engine work with its invariant.  \<open>Engine_Delivery\<close>: what a stage delivers, what a change window blocks, what
    completion leaves behind.
  \<^item> \<open>Action_Dispatch\<close>, \<open>Action_Types\<close>: the dispatcher of \<open>internal/services/plan_action_dispatcher.go\<close>, the
    registry and the four action types of \<open>internal/actions\<close> with \<open>filepath.Match\<close>.  \<open>Action_Runner\<close>: signing, and
    the daemon of \<open>cmd/squadron-action-runner\<close>.  \<open>Action_Api\<close>: \<open>internal/api/handlers/actions.go\<close>.
  \<^item> \<open>Egress_Guard\<close>: \<open>internal/egressguard\<close>, addresses as bytes and words.
  \<^item> \<open>Auth_Tokens\<close>, \<open>Auth_Access\<close>: the token service and its handlers, the bearer and scope middleware of
    \<open>internal/api/middleware\<close>, and the authentication and rate limit of agent connections.
  \<^item> \<open>Opamp_Agents\<close>, \<open>Opamp_Server\<close>: \<open>internal/opamp\<close> (connected agents, message handling, pushes, config
    resolution and adoption, the reconcile loop) and \<open>internal/agentid\<close>.  \<open>Opamp_Registry\<close>, \<open>Opamp_Delivery\<close>,
    \<open>Opamp_Reconcile\<close>: their properties.
  \<^item> \<open>Query_Parser\<close>, \<open>Query_Exec\<close>: lexer, parser, executor and functions of \<open>internal/query\<close>; \<open>Query_Language\<close>,
    \<open>Query_Print\<close>, \<open>Query_Results\<close>: their properties.
  \<^item> \<open>Alerting\<close>, \<open>Alert_Behaviour\<close>: the alert service, its handlers and the evaluator of \<open>internal/alerting\<close>.
  \<^item> \<open>Automations\<close>, \<open>Automation_Guards\<close>: the automation service, its handlers and \<open>internal/automations\<close>.
  \<^item> \<open>Trace_Index\<close>, \<open>Trace_Coverage\<close>, \<open>Span_Quality\<close>, \<open>Span_Tracking\<close>: \<open>internal/traceindex\<close> and its table in the
    in-memory store.
  \<^item> \<open>Worker_Pool\<close>, \<open>Pool_Safety\<close>: the ingest queue of \<open>internal/worker/pool.go\<close>.

  \<^bold>\<open>State and operations.\<close>  A Go struct is a record with a field per struct field, an enumeration of string
  constants a datatype, a map an association list in iteration order, a pointer to a value an option.  A
  handler is a function of the parameters, the clock reading \<open>now\<close>, the request context and the state of its
  component; it returns Go's pair of value and error with the state it leaves.  A handler that mutates the object
  it was given returns that object too.  Errors are values of a datatype, so that the sentinel errors the callers
  distinguish (not found, version conflict) are distinct; a panic is the value \<open>None\<close> or \<open>Panic\<close>.

  \<^bold>\<open>What the lemmas show.\<close>
  \<^item> Audit chain: the verification loops are equivalent to a declarative description of a valid chain; every
    chain the store builds verifies, as long as no key is replaced after rows were sealed with it; edits,
    deletions, reorderings and downgrades of an accepted chain are detected or exhibit a hash collision (locale
    \<open>link_scheme\<close>, interpreted on the row encodings).  Nothing is assumed of the hash function.
  \<^item> Stores: versioned writes lose no update (locale \<open>versioned_store\<close>, interpreted on the rollout table);
    latest-config selection, group deletion and agent registration do what their callers rely on.
  \<^item> Validation, linting, change windows, normalisation: each decision procedure accepts exactly what its
    declarative description says, on every branch.
  \<^item> Cohorts and gates: cohorts are monotone over stages and end with the whole group; a stage delivers to the
    members of an independently specified cohort that were not delivered to; gates open exactly at their thresholds.
  \<^item> Control plane: every operation and every engine handler moves stored rollouts only along the diagram
    \<open>move\<close> (relation \<open>advances\<close>); composed, this gives the refinement of the diagram, the finality of finished
    rollouts and the approval gate, for every interleaving of operations with engine work on stale objects
    (\<open>row_history\<close>, interpreted on the rollout table here and on the token table in \<open>Auth_Tokens\<close>).
  \<^item> Actions: a dispatched request is in the policy of its runner and is carried out by it; a runner starts only
    processes for requests that are signed, unexpired and covered by its own configuration, each once; a revoked
    runner gets no requests.
  \<^item> Access: a request reaches a guarded handler exactly with a live token of the right scope; revocation is
    final; an agent's tenant is its token's; the guard dials no address its policy excludes.
  \<^item> OpAMP: the registry is consistent over every history, exactly which messages panic, a message writes its own
    agent's row only, acknowledgements govern the delivered fingerprint and drift, sweeps deliver stored content only
    (locale \<open>config_delivery\<close>, interpreted on the server).
  \<^item> Queries and alerts: the parser returns on every input and inverts an independent printer; grouping and
    aggregation equal reference definitions (locale \<open>strict_order\<close>, interpreted on the two orders the code sorts
    by); a tick evaluates the enabled rules that are due and notifies exactly the changes.
  \<^item> Automations: decisions correspond to the spells of ticks at which an agent is afflicted, within the guardrails
    of the rule; a tick restarts only agents that a live rule targets.
  \<^item> Traces: the index is a ledger of the observation history, its store keeps the most recent rows, coverage and
    span quality count what they say, and the trace context check is the W3C grammar.
  \<^item> Ingest queue: exact byte accounting, no lost wake-up, and what a shutdown can strand.

  Where the code and its documentation disagree, the theorem states what the code does and its text says so; some
  theorems state a defect, such as the rule that crashes the alert evaluator or the pin that a message without a
  description bypasses.

  \<^bold>\<open>Parameters and hypotheses.\<close>  Functions the repository imports are parameters, most of them fields of \<open>Env\<close> and
  of one record per component: the YAML parser, JSON and protobuf encoders and the size of a message, PEM and X.509
  parsing, Unicode case folding, regular expressions, line diffing, number formatting, the zone database, UUID
  generation, UUID text and SHA-1 UUIDs, entropy, Ed25519 and base64, process start, name resolution and the address
  parser, the telemetry and connector back ends, \<open>sort.Slice\<close> (any order of equal keys), the iteration order of Go
  maps where it matters, and the rounding of float64 in the percentages of the trace index.  Theorems that rely on
  them say so: a generated UUID is not the empty string and, where needed, not in use; a signature scheme verifies
  what it signs; a sort returns a sorted permutation; rounding is monotone and keeps integers up to \<open>2\<^sup>5\<^sup>3\<close>.

  \<^bold>\<open>Atomicity.\<close>  All clock readings inside one handler, poll or tick are the argument \<open>now\<close>, also where the code
  reads the clock again (the window of an alert query, each request of a runner's poll).  A handler is one step of its
  transition system.  Between an engine's load and its work on an object any other steps may happen, which is the
  race the versioned writes are there for; a race inside one handler, such as the read and the write of a
  registration in \<open>HandleRunnerPending\<close>, is not represented.  The ingest queue is modelled at the granularity of its
  atomic operations: submitters, workers and the shutdown interleave step by step over a buffered queue.

  \<^bold>\<open>Bounds and fuel.\<close>  The query parser, whose recursion descends into nested calls, takes fuel: three times the
  number of tokens plus four, proved enough for every input (\<open>Parse_terminates\<close>).  All other loops run over finite
  lists or decrease a counter, and are total functions; the loops of the daemons (ticker loops) are represented by
  histories of their iterations.  Durations are 64-bit with wrap-around written out, bit masks, addresses and span
  counters are words; other counters, which the code only compares or increments, are unbounded.  A rate or a
  threshold, a \<open>float64\<close> in the code, is a real number, and except in the percentages of the trace index arithmetic
  on it is exact.

  \<^bold>\<open>Not modelled.\<close>  Logging, tracing and metrics have no effect on decisions.  The SQL stores run their logic in an
  external database; the in-memory store has the same contract.  The HTTP handlers other than those named above,
  telemetry storage, the model-backed proposer, cloud discovery, integrations with code hosts, the deploy service
  and the web front end are glue around external systems.  The parallel fan-out of pushes to distinct agents is
  sequential here.
\<close>

section \<open>The control plane implements the life cycle\<close>

text \<open>One step relates every stored rollout to its successor by the diagram.\<close>

definition row_follows :: "StoredRollout \<Rightarrow> StoredRollout \<Rightarrow> bool" where
  "row_follows old new \<longleftrightarrow> same_request old new \<and> leads_a (ro_State old) (ro_State new)
     \<and> ro_Version old \<le> ro_Version new \<and> (ro_Version old = ro_Version new \<longrightarrow> new = old)"

lemma row_follows_refl [simp]: "row_follows r r"
  by (simp add: row_follows_def)

lemma row_follows_trans:
  assumes "row_follows a b" "row_follows b c"
  shows "row_follows a c"
proof -
  have "leads_a (ro_State a) (ro_State b)" "leads_a (ro_State b) (ro_State c)" "same_request a b" "same_request b c"
    using assms by (simp_all add: row_follows_def)
  then have l: "leads_a (ro_State a) (ro_State c)" and s: "same_request a c"
    using rtranclp_trans [of approved_move] same_request_trans [of a b c] by metis+
  have v: "ro_Version a \<le> ro_Version b" "ro_Version b \<le> ro_Version c"
    "ro_Version a = ro_Version b \<Longrightarrow> b = a" "ro_Version b = ro_Version c \<Longrightarrow> c = b"
    using assms unfolding row_follows_def by blast+
  have "c = a" if "ro_Version a = ro_Version c"
  proof -
    have "b = a" "c = b" using v that by linarith+
    then show ?thesis by simp
  qed
  then show ?thesis using l s v(1,2) unfolding row_follows_def by linarith
qed

lemma advances_follows:
  assumes "advances s s'" "GetRollout i s = Some old"
  shows "\<exists>new. GetRollout i s' = Some new \<and> row_follows old new"
proof -
  obtain new where new: "GetRollout i s' = Some new" "new = old \<or> row_step old new"
    using assms unfolding advances_def by metis
  then have "row_follows old new" by (auto simp: row_follows_def row_step_def leads_leads_a)
  then show ?thesis using new(1) by blast
qed

lemma Approve_follows:
  assumes "rollouts_ok (w_store w)" "GetRollout j (w_store w) = Some old"
  shows "\<exists>new. GetRollout j (w_store (snd (snd (Approve env now ctx i a t n w)))) = Some new \<and> row_follows old new"
proof (cases rule: Approve_store [of env now ctx i a t n w])
  case unchanged
  then show ?thesis using assms(2) by auto
next
  case (recorded stored)
  then show ?thesis using assms(2) by simp
next
  case (approved stored x)
  define s1 where "s1 = RecordRolloutApproval i a t n now (w_store w)"
  define s' where "s' = w_store (snd (snd (Approve env now ctx i a t n w)))"
  have a: "approves i s1 s'"
    using approved(1,2,4,5) assms(1)
    by (intro approves_UpdateRollout [of s1 i stored]) (auto simp: s1_def s'_def)
  have g: "GetRollout j s1 = Some old" using assms(2) by (simp add: s1_def)
  show ?thesis
  proof (cases "j = i")
    case False
    then have "GetRollout j s' = Some old" using a g by (simp add: approves_def)
    then show ?thesis by (simp add: s'_def)
  next
    case True
    then obtain new where "GetRollout i s' = Some new" "ro_State old = RolloutStatePendingApproval"
        "ro_State new = RolloutStatePending" "ro_Version old < ro_Version new" "same_request old new"
      using a g by (auto simp: approves_def)
    moreover from this have "leads_a (ro_State old) (ro_State new)"
      by (intro r_into_rtranclp) (simp add: approved_move_def)
    ultimately show ?thesis using True by (auto simp: row_follows_def s'_def)
  qed
qed

lemma step_follows:
  assumes "sys_step env \<sigma> \<sigma>'" "sys_inv env \<sigma>" "\<And>n. env_uuid env n \<noteq> []" "GetRollout i (sys_store \<sigma>) = Some old"
  shows "\<exists>new. GetRollout i (sys_store \<sigma>') = Some new \<and> row_follows old new"
proof -
  have ok: "rollouts_ok (sys_store \<sigma>)" using assms(2) by (simp add: sys_inv_def)
  from assms(1) show ?thesis
  proof cases
    case (approve now ctx j approver token rationale)
    then show ?thesis using Approve_follows [OF ok assms(4)] by simp
  next
    case (load f)
    then show ?thesis using assms(4) by auto
  next
    case (work r now)
    then have "snap_ok r (sys_store \<sigma>)" using assms(2) by (simp add: sys_inv_def)
    then show ?thesis using work advances_follows [OF process_advances [OF ok] assms(4)] by simp
  next
    case (other_tables w')
    then show ?thesis using advances_follows [OF same_rows_advances [OF _ ok] assms(4)] by simp
  qed (use advances_follows [OF _ assms(4)] ok assms(3) in \<open>simp_all add: Create_advances CreatePlan_advances
       Reject_advances Pause_advances Resume_advances Abort_advances RollBack_advances SetExcludeFromLearning_advances\<close>)
qed

interpretation rollouts: row_history "sys_step env" "\<lambda>\<sigma>. sys_inv env \<sigma> \<and> (\<forall>n. env_uuid env n \<noteq> [])"
    "\<lambda>\<sigma> i. GetRollout i (sys_store \<sigma>)" row_follows for env
proof
  fix \<sigma> \<sigma>'
  assume "sys_step env \<sigma> \<sigma>'" "sys_inv env \<sigma> \<and> (\<forall>n. env_uuid env n \<noteq> [])"
  then show "sys_inv env \<sigma>' \<and> (\<forall>n. env_uuid env n \<noteq> [])" using sys_inv_step by blast
next
  fix u v w
  assume "row_follows u v" "row_follows v w"
  then show "row_follows u w" by (rule row_follows_trans)
next
  fix \<sigma> \<sigma>' i old
  assume "sys_step env \<sigma> \<sigma>'" "sys_inv env \<sigma> \<and> (\<forall>n. env_uuid env n \<noteq> [])" "GetRollout i (sys_store \<sigma>) = Some old"
  then show "\<exists>new. GetRollout i (sys_store \<sigma>') = Some new \<and> row_follows old new" using step_follows by blast
qed simp

lemma history_follows:
  assumes "sys_reachable env \<sigma>" "\<And>n. env_uuid env n \<noteq> []" "(sys_step env)\<^sup>*\<^sup>* \<sigma> \<sigma>'"
    and "GetRollout i (sys_store \<sigma>) = Some old"
  shows "\<exists>new. GetRollout i (sys_store \<sigma>') = Some new \<and> row_follows old new"
  using rollouts.history [OF assms(3) _ assms(4)] sys_inv_reachable [OF assms(1,2)] assms(2) by blast

lemma one_step: "sys_step env \<sigma> \<sigma>' \<Longrightarrow> (sys_step env)\<^sup>*\<^sup>* \<sigma> \<sigma>'"
  by (rule r_into_rtranclp)

text \<open>
  C2: The control plane refines the life-cycle diagram.  Over any history of operations, plan creations,
  changes to other tables and engine work on possibly stale objects, a stored rollout is never lost, keeps
  the request it was created from (target, stages, criteria, approval requirement, requester), moves only
  along the diagram, and its row changes only together with a higher version.
\<close>
theorem rollout_follows_diagram:
  assumes "sys_reachable env \<sigma>" "\<And>n. env_uuid env n \<noteq> []" "(sys_step env)\<^sup>*\<^sup>* \<sigma> \<sigma>'"
    and "GetRollout i (sys_store \<sigma>) = Some old"
  shows "\<exists>new. GetRollout i (sys_store \<sigma>') = Some new \<and> same_request old new
    \<and> leads_a (ro_State old) (ro_State new) \<and> ro_Version old \<le> ro_Version new
    \<and> (ro_Version old = ro_Version new \<longrightarrow> new = old)"
  using history_follows [OF assms] by (auto simp: row_follows_def)

lemma demo_row: "map_option (\<lambda>r. (ro_State r, ro_Version r)) (GetRollout ''u0'' (sys_store (demo_sys sample_env False)))
    = Some (RolloutStatePending, 1)"
  by code_simp

lemma sample_uuids: "env_uuid sample_env n \<noteq> []"
  by (simp add: sample_env_def)

theorem rollout_follows_diagram_witness:
  "\<exists>old new. GetRollout ''u0'' (sys_store (demo_sys sample_env False)) = Some old \<and> ro_State old = RolloutStatePending
     \<and> GetRollout ''u0'' (w_store (snd (snd (Abort sample_env 7 background_ctx ''u0'' [] (sy_world (demo_sys sample_env False)))))) = Some new
     \<and> leads_a RolloutStatePending (ro_State new)"
proof -
  obtain old where old: "GetRollout ''u0'' (sys_store (demo_sys sample_env False)) = Some old" "ro_State old = RolloutStatePending"
    using demo_row by auto
  have "sys_step sample_env (demo_sys sample_env False) ((demo_sys sample_env False)\<lparr>sy_world :=
      snd (snd (Abort sample_env 7 background_ctx ''u0'' [] (sy_world (demo_sys sample_env False))))\<rparr>)"
    by (rule sys_step.abort)
  from rollout_follows_diagram [OF demo_reachable sample_uuids one_step [OF this] old(1)] show ?thesis
    using old by auto
qed

text \<open>
  C3: Finished is final.  Once a rollout has succeeded or has been rolled back, no operation, no plan walk
  and no engine working on an object it loaded earlier changes its state again; an aborted rollout can only
  become rolled back, and a rejected or cancelled one can only be aborted and then rolled back.  The comments of
  the service call rejected and cancelled terminal; \<open>Abort\<close> refuses only succeeded and rolled-back rollouts,
  so what the code guarantees for these two states is this weaker bound.
\<close>
theorem finished_is_final:
  assumes "sys_reachable env \<sigma>" "\<And>n. env_uuid env n \<noteq> []" "(sys_step env)\<^sup>*\<^sup>* \<sigma> \<sigma>'"
    and "GetRollout i (sys_store \<sigma>) = Some old" "GetRollout i (sys_store \<sigma>') = Some new"
  shows "(ro_State old \<in> {RolloutStateSucceeded, RolloutStateRolledBack} \<longrightarrow> ro_State new = ro_State old)
    \<and> (ro_State old = RolloutStateAborted \<longrightarrow> ro_State new \<in> {RolloutStateAborted, RolloutStateRolledBack})
    \<and> (ro_State old \<in> {RolloutStateRejected, RolloutStateCancelled} \<longrightarrow>
         ro_State new \<in> {ro_State old, RolloutStateAborted, RolloutStateRolledBack})"
proof -
  have l: "leads_a (ro_State old) (ro_State new)"
    using history_follows [OF assms(1-4)] assms(5) by (auto simp: row_follows_def)
  have "ro_State new \<in> {ro_State old, RolloutStateAborted, RolloutStateRolledBack}"
    if "ro_State old \<in> {RolloutStateRejected, RolloutStateCancelled}"
    using that by (intro leads_a_closed [OF l]) (auto simp: approved_move_def)
  moreover have "ro_State old \<in> {RolloutStateSucceeded, RolloutStateRolledBack} \<longrightarrow> ro_State new = ro_State old"
    using l leads_a_terminal [of "ro_State new"] by auto
  moreover have "ro_State old = RolloutStateAborted \<longrightarrow> ro_State new \<in> {RolloutStateAborted, RolloutStateRolledBack}"
    using l leads_a_aborted [of "ro_State new"] by auto
  ultimately show ?thesis by blast
qed

theorem finished_is_final_witness:
  "\<exists>new. GetRollout ''u0'' (w_store (snd (snd (Resume sample_env 9 background_ctx ''u0''
       (snd (snd (Abort sample_env 7 background_ctx ''u0'' [] (sy_world (demo_sys sample_env False))))))))) = Some new
     \<and> ro_State new \<in> {RolloutStateAborted, RolloutStateRolledBack}"
proof -
  define \<sigma> where "\<sigma> = demo_sys sample_env False"
  define \<sigma>1 where "\<sigma>1 = \<sigma>\<lparr>sy_world := snd (snd (Abort sample_env 7 background_ctx ''u0'' [] (sy_world \<sigma>)))\<rparr>"
  define \<sigma>2 where "\<sigma>2 = \<sigma>1\<lparr>sy_world := snd (snd (Resume sample_env 9 background_ctx ''u0'' (sy_world \<sigma>1)))\<rparr>"
  have st: "sys_step sample_env \<sigma> \<sigma>1" "sys_step sample_env \<sigma>1 \<sigma>2"
    unfolding \<sigma>1_def \<sigma>2_def by (rule sys_step.abort, rule sys_step.resume)
  have re: "sys_reachable sample_env \<sigma>1"
    using demo_reachable [of sample_env False] st(1) unfolding \<sigma>_def by (rule rtranclp.rtrancl_into_rtrancl)
  have "map_option ro_State (GetRollout ''u0'' (sys_store \<sigma>1)) = Some RolloutStateAborted"
    unfolding \<sigma>1_def \<sigma>_def by code_simp
  then obtain old where "GetRollout ''u0'' (sys_store \<sigma>1) = Some old" "ro_State old = RolloutStateAborted" by auto
  moreover have "GetRollout ''u0'' (sys_store \<sigma>2) \<noteq> None"
    unfolding \<sigma>2_def \<sigma>1_def \<sigma>_def by code_simp
  then obtain new where "GetRollout ''u0'' (sys_store \<sigma>2) = Some new" by blast
  ultimately have "GetRollout ''u0'' (sys_store \<sigma>2) = Some new \<and> ro_State new \<in> {RolloutStateAborted, RolloutStateRolledBack}"
    using finished_is_final [OF re sample_uuids one_step [OF st(2)]] by blast
  then show ?thesis by (auto simp: \<sigma>2_def \<sigma>1_def \<sigma>_def)
qed

text \<open>
  C1: The approval gate.  In every reachable state, a rollout that requires approval and is not a later step
  of a plan has been let through (is pending, running, paused or succeeded) only if at least the required
  number of distinct approvers, and at least one, is on record for it, none of them its requester.
\<close>
theorem approval_gate:
  assumes "sys_reachable env \<sigma>" "\<And>n. env_uuid env n \<noteq> []" "GetRollout i (sys_store \<sigma>) = Some r"
    and "ro_RequireApproval r" "\<not> follower r" "ro_State r \<in> released"
  shows "\<exists>approvers. distinct approvers
    \<and> set approvers = ra_Approver ` set (ListRolloutApprovers i (sys_store \<sigma>))
    \<and> 1 \<le> length approvers \<and> ro_RequiredApprovals r \<le> int (length approvers)
    \<and> (\<forall>a \<in> set approvers. \<not> EqualFold env (TrimSpace a) (TrimSpace (ro_RequestedBy r)))"
proof -
  define s where "s = sys_store \<sigma>"
  have g: "gate_ok s" "approvals_ok env s"
    using sys_inv_reachable [OF assms(1,2)] by (simp_all add: sys_inv_def s_def)
  have n: "needed_approvals r \<le> CountRolloutApprovers i s"
    using g(1) assms(3-6) unfolding gate_ok_def s_def by blast
  have a: "ra_Approver b = k \<and> \<not> EqualFold env (TrimSpace k) (TrimSpace (ro_RequestedBy r))"
    if "(k, b) \<in> set (approvals_of i s)" for k b
    using g(2) that assms(3) unfolding approvals_ok_def s_def by force
  have "ra_Approver ` set (ListRolloutApprovers i s) = set (map fst (approvals_of i s))"
    using a by (force simp: ListRolloutApprovers_def image_iff)
  moreover have "distinct (map fst (approvals_of i s))" using g(2) by (simp add: approvals_ok_def)
  ultimately show ?thesis using n a unfolding s_def [symmetric]
    by (intro exI [of _ "map fst (approvals_of i s)"])
       (auto simp: CountRolloutApprovers_def needed_approvals_def split: if_splits)
qed

definition demo_approve :: "string \<Rightarrow> Sys \<Rightarrow> Sys" where
  "demo_approve who \<sigma> = \<sigma>\<lparr>sy_world := snd (snd (Approve sample_env 6 background_ctx ''u0'' who [] [] (sy_world \<sigma>)))\<rparr>"

theorem approval_gate_witness:
  "\<exists>r (approvers :: string list). GetRollout ''u0'' (sys_store (demo_approve ''cyd'' (demo_approve ''bob'' (demo_sys sample_env True)))) = Some r
     \<and> ro_State r = RolloutStatePending \<and> distinct approvers \<and> 2 \<le> length approvers"
proof -
  define \<sigma> where "\<sigma> = demo_approve ''cyd'' (demo_approve ''bob'' (demo_sys sample_env True))"
  have "sys_step sample_env \<tau> (demo_approve who \<tau>)" for who \<tau>
    unfolding demo_approve_def by (rule sys_step.approve)
  then have re: "sys_reachable sample_env \<sigma>"
    unfolding \<sigma>_def by (intro rtranclp.rtrancl_into_rtrancl [OF rtranclp.rtrancl_into_rtrancl [OF demo_reachable]])
  have "map_option (\<lambda>r. (ro_State r, ro_RequireApproval r, ro_PlanID r, ro_RequiredApprovals r)) (GetRollout ''u0'' (sys_store \<sigma>))
      = Some (RolloutStatePending, True, [], 2)"
    unfolding \<sigma>_def by code_simp
  then obtain r where r: "GetRollout ''u0'' (sys_store \<sigma>) = Some r" "ro_State r = RolloutStatePending" "ro_RequireApproval r"
    "ro_PlanID r = []" "ro_RequiredApprovals r = 2" by auto
  have "\<not> follower r" "ro_State r \<in> released" using r by (simp_all add: follower_def released_def)
  from approval_gate [OF re sample_uuids r(1,3) this] obtain approvers :: "string list" where
    "distinct approvers" "2 \<le> int (length approvers)" using r(5) by auto
  then show ?thesis using r(1,2) unfolding \<sigma>_def [symmetric] by (intro exI [of _ r] exI [of _ approvers]) simp
qed

end
